(* ===== verification/Prelude.thy ===== *)
theory Prelude
  imports Main "HOL-Library.Word"
begin

text \<open>
  Shared vocabulary of the development: the machine types of the Go program, the outcome of a
  call that may panic, the search loops over a slice that several components share, and the
  generic lemmas about them.

  Go's \<open>uint64\<close> is \<open>64 word\<close>. Go's \<open>int64\<close>, \<open>int\<close> and \<open>time.Duration\<close> are \<open>int\<close> with every
  arithmetic result passed through \<open>i64\<close>, the two's complement wrap-around written out.
  An instant (\<open>time.Time\<close>) is the \<open>int\<close> number of nanoseconds since the Unix epoch; Go instants
  have a wider range than \<open>int64\<close>, so they do not wrap.
\<close>

named_theorems int64_simps "normal form of wrapped int64 arithmetic"
named_theorems outcome_simps "evaluation of calls that may panic"

type_synonym uint64 = "64 word"
type_synonym int64 = int
type_synonym instant = int

section \<open>Signed 64-bit arithmetic\<close>

definition i64 :: "int \<Rightarrow> int64" where
  "i64 x = (x + 2 ^ 63) mod 2 ^ 64 - 2 ^ 63"

definition in_i64 :: "int \<Rightarrow> bool" where
  "in_i64 x \<longleftrightarrow> - (2 ^ 63) \<le> x \<and> x < 2 ^ 63"

lemma i64_id: "in_i64 x \<Longrightarrow> i64 x = x"
  by (simp add: i64_def in_i64_def)

lemma in_i64_i64 [simp]: "in_i64 (i64 x)"
  using pos_mod_bound [of "2 ^ 64" "x + 2 ^ 63"] pos_mod_sign [of "2 ^ 64" "x + 2 ^ 63"]
  by (simp add: in_i64_def i64_def)

lemma i64_mod: "i64 x mod 2 ^ 64 = x mod 2 ^ 64"
  unfolding i64_def by (metis add_diff_cancel_right' mod_diff_left_eq)

lemma i64_cong: "x mod 2 ^ 64 = y mod 2 ^ 64 \<Longrightarrow> i64 x = i64 y"
  unfolding i64_def by (metis mod_add_left_eq)

lemma i64_add_left [int64_simps]: "i64 (i64 x + y) = i64 (x + y)"
  by (rule i64_cong) (metis i64_mod mod_add_left_eq)

lemma i64_add_right [int64_simps]: "i64 (x + i64 y) = i64 (x + y)"
  by (rule i64_cong) (metis i64_mod mod_add_right_eq)

lemma i64_diff_left [int64_simps]: "i64 (i64 x - y) = i64 (x - y)"
  by (rule i64_cong) (metis i64_mod mod_diff_left_eq)

lemma i64_diff_right [int64_simps]: "i64 (x - i64 y) = i64 (x - y)"
  by (rule i64_cong) (metis i64_mod mod_diff_right_eq)

lemma i64_idem [simp, int64_simps]: "i64 (i64 x) = i64 x"
  by (rule i64_cong) (rule i64_mod)

lemma i64_zero [simp]: "i64 0 = 0"
  by (simp add: i64_def)

text \<open>The conversions \<open>int64(x)\<close> of an unsigned value and \<open>uint64(x)\<close> of a signed one.\<close>

definition int64_of :: "uint64 \<Rightarrow> int64" where
  "int64_of w = i64 (uint w)"

definition uint64_of :: "int64 \<Rightarrow> uint64" where
  "uint64_of x = word_of_int x"

lemma in_i64_int64_of [simp]: "in_i64 (int64_of w)"
  by (simp add: int64_of_def)

lemma int64_of_small: "uint w < 2 ^ 63 \<Longrightarrow> int64_of w = uint w"
  unfolding int64_of_def by (rule i64_id) (simp add: in_i64_def order_trans [OF _ uint_ge_0])

lemma uint64_int64_of [simp]: "uint64_of (int64_of w) = w"
proof -
  have "take_bit 64 (i64 (uint w)) = take_bit 64 (uint w)"
    by (simp only: take_bit_eq_mod i64_mod)
  then have "(word_of_int (i64 (uint w)) :: uint64) = word_of_int (uint w)"
    by (subst word_of_int_eq_iff) simp
  then show ?thesis
    by (simp add: uint64_of_def int64_of_def)
qed

lemma unat_of_nat_uint64: "n < 2 ^ 64 \<Longrightarrow> unat (of_nat n :: uint64) = n"
  by (simp add: unat_of_nat take_bit_nat_eq_self)

section \<open>Calls that may panic\<close>

text \<open>
  A Go call either returns or panics (a nil dereference, an index out of range, a failed type
  assertion, an integer division by zero). After a panic the model says nothing about the state
  of the objects the call was changing.
\<close>

datatype 'a outcome = Value (the_value: 'a) | Panic string

fun obind :: "'a outcome \<Rightarrow> ('a \<Rightarrow> 'b outcome) \<Rightarrow> 'b outcome" where
  "obind (Value x) f = f x"
| "obind (Panic e) f = Panic e"

lemma obind_Value_conv [outcome_simps]:
  "obind m f = Value y \<longleftrightarrow> (\<exists>x. m = Value x \<and> f x = Value y)"
  by (cases m) auto

lemma obind_cong [fundef_cong]:
  "\<lbrakk>m = m'; \<And>x. m' = Value x \<Longrightarrow> f x = g x\<rbrakk> \<Longrightarrow> obind m f = obind m' g"
  by (cases m') auto

definition returns :: "'a outcome \<Rightarrow> bool" where
  "returns m = (case m of Value _ \<Rightarrow> True | Panic _ \<Rightarrow> False)"

lemma returns_simps [simp, outcome_simps]: "returns (Value x)" "\<not> returns (Panic e)"
  by (simp_all add: returns_def)

lemma returnsE: "returns m \<Longrightarrow> (\<And>x. m = Value x \<Longrightarrow> P) \<Longrightarrow> P"
  by (cases m) auto

end
