(* ===== verification/Api.thy ===== *)
theory Api
  imports GoStrings
begin

text \<open>
  The data the controller and the funclet exchange (\<open>src/pkg/api/funclet.go\<close>,
  \<open>src/pkg/api/controller.go\<close>, \<open>src/pkg/api/apiserver.go\<close>, \<open>src/pkg/api/server.go\<close>).

  A \<open>*Resource\<close> is shared: a runtime that was created without a resource of its own points at the
  resource the runtime manager keeps as the node's default. The objects therefore live in an
  explicit store, and a pointer is an address or nil (\<open>None\<close>).
\<close>

section \<open>Resources\<close>

record Resource =
  MilliCPUs :: int64
  Memory :: int64

definition NewResource :: Resource where
  "NewResource = \<lparr>MilliCPUs = 0, Memory = 0\<rparr>"

type_synonym res_ptr = "nat option"

record res_heap =
  cells :: "nat \<Rightarrow> Resource"
  hp_next :: nat

definition nil_dereference :: string where
  "nil_dereference = ''invalid memory address or nil pointer dereference''"

definition deref :: "res_heap \<Rightarrow> res_ptr \<Rightarrow> Resource outcome" where
  "deref h p = (case p of None \<Rightarrow> Panic nil_dereference | Some a \<Rightarrow> Value (cells h a))"

definition store :: "res_heap \<Rightarrow> res_ptr \<Rightarrow> Resource \<Rightarrow> res_heap outcome" where
  "store h p r = (case p of
     None \<Rightarrow> Panic nil_dereference
   | Some a \<Rightarrow> Value (h\<lparr>cells := (cells h)(a := r)\<rparr>))"

definition new_cell :: "res_heap \<Rightarrow> Resource \<Rightarrow> res_heap \<times> res_ptr" where
  "new_cell h r = (h\<lparr>cells := (cells h)(hp_next h := r), hp_next := Suc (hp_next h)\<rparr>, Some (hp_next h))"

text \<open>\<open>Copy\<close> makes a fresh object; its users only read it, so the model keeps its value.\<close>

definition Copy :: "res_heap \<Rightarrow> res_ptr \<Rightarrow> Resource option" where
  "Copy h p = map_option (cells h) p"

text \<open>\<open>r.Sync(rs)\<close>: with a nil argument nothing happens; with a nil receiver the values go into an
  object that only the call sees.\<close>

definition Sync :: "res_heap \<Rightarrow> res_ptr \<Rightarrow> Resource option \<Rightarrow> res_heap" where
  "Sync h r rs = (case rs of
     None \<Rightarrow> h
   | Some v \<Rightarrow> (case r of
       None \<Rightarrow> h
     | Some a \<Rightarrow> h\<lparr>cells := (cells h)(a := (cells h a)\<lparr>Memory := Memory v, MilliCPUs := MilliCPUs v\<rparr>)\<rparr>))"

definition Resource_String :: "Resource option \<Rightarrow> string" where
  "Resource_String r = (case r of
     None \<Rightarrow> ''''
   | Some v \<Rightarrow> ''mem '' @ Itoa (Memory v) @ '' bytes, cpu '' @ Itoa (MilliCPUs v) @ '' vCore'')"

text \<open>What the funclet reports about its node, as decoded from its answer.\<close>

record FuncletResource =
  BaseMemory_fr :: uint64
  Default_fr :: "Resource option"
  Capacity_fr :: "Resource option"
  Reserved_fr :: "Resource option"
  Allocatable_fr :: "Resource option"

definition NewFuncletResource :: FuncletResource where
  "NewFuncletResource = \<lparr>BaseMemory_fr = 0, Default_fr = Some NewResource, Capacity_fr = Some NewResource,
     Reserved_fr = Some NewResource, Allocatable_fr = Some NewResource\<rparr>"

text \<open>The controller's view of the node.\<close>

record ServiceResource =
  Capacity :: res_ptr
  Allocatable :: res_ptr
  Used_sr :: res_ptr
  Marked_sr :: res_ptr
  Default :: res_ptr
  BaseMemory :: uint64

record ServiceResourceValue =
  Capacity_v :: "Resource option"
  Allocatable_v :: "Resource option"
  Used_v :: "Resource option"
  Marked_v :: "Resource option"
  Default_v :: "Resource option"
  BaseMemory_v :: uint64

definition ServiceResource_Copy :: "res_heap \<Rightarrow> ServiceResource \<Rightarrow> ServiceResourceValue" where
  "ServiceResource_Copy h r = \<lparr>Capacity_v = Copy h (Capacity r), Allocatable_v = Copy h (Allocatable r),
     Used_v = Copy h (Used_sr r), Marked_v = Copy h (Marked_sr r), Default_v = Copy h (Default r),
     BaseMemory_v = BaseMemory r\<rparr>"

record ScaleUpRecommendation =
  TargetMemory :: string
  TargetContainer_up :: string
  MergedContainers :: "string list"

record ScaleDownRecommendation =
  TargetContainer_down :: string
  ResetContainers :: "string list"

text \<open>The function metadata the controller reads; a field that is a pointer in Go is an option.\<close>

record FunctionConfiguration =
  FunctionArn_fc :: "string option"
  Runtime_fc :: "string option"
  MemorySize_fc :: "int64 option"
  Timeout_fc :: "int64 option"
  CommitID_fc :: "string option"
  Uid_fc :: string
  PodConcurrentQuota_fc :: uint64

definition deref_field :: "'a option \<Rightarrow> 'a outcome" where
  "deref_field p = (case p of None \<Rightarrow> Panic nil_dereference | Some v \<Rightarrow> Value v)"

section \<open>Containers and their event lock\<close>

datatype Event = EventNone | EventInit | EventWarmup | EventReset

text \<open>\<open>EventLock\<close> is a channel of capacity one that holds a token while the lock is free: \<open>Lock\<close>
  takes the token if there is one, \<open>UnLock\<close> puts one back and blocks when one is there already.\<close>

record EventLock =
  tokens :: nat

definition NewEventLock :: EventLock where
  "NewEventLock = \<lparr>tokens = 1\<rparr>"

definition EventLock_Lock :: "EventLock \<Rightarrow> bool \<times> EventLock" where
  "EventLock_Lock l = (if tokens l = 0 then (False, l) else (True, l\<lparr>tokens := tokens l - 1\<rparr>))"

definition EventLock_UnLock :: "EventLock \<Rightarrow> EventLock option" where
  "EventLock_UnLock l = (if tokens l < 1 then Some (l\<lparr>tokens := tokens l + 1\<rparr>) else None)"

datatype FreezerState = Undefined | Frozen | Thawed

record MemoryStats =
  Usage :: int64
  Limit :: int64
  SwapLimit :: int64

record ResourceStats =
  MemoryStats_rs :: "MemoryStats option"
  CPUStats_TotalUsage :: "int64 option"
  FreezerState_rs :: FreezerState

record RuntimeConfiguration =
  Name_rc :: string
  Bin_rc :: string
  Path_rc :: string
  Args_rc :: "string list"

record ContainerInfo =
  Hostname :: string
  ContainerID :: string
  HostPid :: int
  EventLock_ci :: EventLock
  CurrentEvent :: Event
  WithStreamMode_ci :: bool
  IsFrozen_ci :: bool
  Resource_ci :: "Resource option"
  ResourceStats_ci :: "ResourceStats option"

text \<open>\<open>ContainerInfo.Copy\<close> copies six of the fields; the lock of the copy is the zero value (a nil
  channel, on which \<open>Lock\<close> takes its default branch), the event is the empty string.\<close>

definition ContainerInfo_Copy :: "ContainerInfo \<Rightarrow> ContainerInfo" where
  "ContainerInfo_Copy c = \<lparr>Hostname = Hostname c, ContainerID = ContainerID c, HostPid = HostPid c,
     EventLock_ci = \<lparr>tokens = 0\<rparr>, CurrentEvent = EventNone, WithStreamMode_ci = WithStreamMode_ci c,
     IsFrozen_ci = IsFrozen_ci c, Resource_ci = Resource_ci c, ResourceStats_ci = None\<rparr>"

record ScaleDownImplementationResult =
  Success :: "string list"
  Fails :: "(string \<times> ContainerInfo) list"

definition NewScaleDownImplementationResult :: ScaleDownImplementationResult where
  "NewScaleDownImplementationResult = \<lparr>Success = [], Fails = []\<rparr>"

record ResetResponse =
  ScaleDownResult :: "ScaleDownImplementationResult option"

definition NewResetResponse :: ResetResponse where
  "NewResetResponse = \<lparr>ScaleDownResult = Some NewScaleDownImplementationResult\<rparr>"

section \<open>The container list criteria\<close>

text \<open>The identifiers travel as one comma-separated query value; an absent value is the empty string.\<close>

definition AddContainerIDs :: "string list \<Rightarrow> string" where
  "AddContainerIDs ids = join_with '','' ids"

definition ReadContainerIDs :: "string \<Rightarrow> string list" where
  "ReadContainerIDs v = (if v = '''' then [] else split_on (CHR '','') v)"

section \<open>Names, versions and log types\<close>

definition is_word_char :: "char \<Rightarrow> bool" where
  "is_word_char c \<longleftrightarrow> (let n = (of_char c :: nat) in
     (48 \<le> n \<and> n \<le> 57) \<or> (65 \<le> n \<and> n \<le> 90) \<or> (97 \<le> n \<and> n \<le> 122) \<or> c = CHR ''-'' \<or> c = CHR ''_'')"

definition is_digit_char :: "char \<Rightarrow> bool" where
  "is_digit_char c \<longleftrightarrow> 48 \<le> (of_char c :: nat) \<and> (of_char c :: nat) \<le> 57"

definition RegfunctionName :: "string \<Rightarrow> bool" where
  "RegfunctionName s \<longleftrightarrow> s \<noteq> [] \<and> list_all is_word_char s"

definition RegVersion :: "string \<Rightarrow> bool" where
  "RegVersion s \<longleftrightarrow> s = ''$LATEST'' \<or> (s \<noteq> [] \<and> list_all is_digit_char s)"

definition IsNoneLogType :: "string \<Rightarrow> bool" where
  "IsNoneLogType t \<longleftrightarrow> t = '''' \<or> t = ''none''"

definition LogType_Valid :: "string \<Rightarrow> bool" where
  "LogType_Valid t \<longleftrightarrow> EqualFold t ''None'' \<or> EqualFold t ''Tail''"

definition IsLogTypeTail :: "string \<Rightarrow> bool" where
  "IsLogTypeTail t \<longleftrightarrow> EqualFold t ''Tail''"

text \<open>The header value wins over the query value; anything else is \<open>None\<close>. The arguments are the
  two values the request carries.\<close>

definition GetLogType :: "string \<Rightarrow> string \<Rightarrow> string" where
  "GetLogType header query =
     (if LogType_Valid header then header else if LogType_Valid query then query else ''None'')"

definition GetLogToBody :: "string \<Rightarrow> string \<Rightarrow> bool" where
  "GetLogToBody header query = (if header = ''true'' then True else if query = ''true'' then True else False)"

section \<open>Lemmas\<close>

lemma deref_Some [simp]: "deref h (Some a) = Value (cells h a)"
  by (simp add: deref_def)

lemma deref_None [simp]: "deref h None = Panic nil_dereference"
  by (simp add: deref_def)

lemma store_Some [simp]: "store h (Some a) r = Value (h\<lparr>cells := (cells h)(a := r)\<rparr>)"
  by (simp add: store_def)

lemma store_None [simp]: "store h None r = Panic nil_dereference"
  by (simp add: store_def)

lemma Resource_set_both: "r\<lparr>Memory := x, MilliCPUs := y\<rparr> = \<lparr>MilliCPUs = y, Memory = x\<rparr>"
  by (cases r) simp

lemma deref_field_Value_iff [outcome_simps]: "deref_field p = Value v \<longleftrightarrow> p = Some v"
  by (auto simp: deref_field_def split: option.splits)

lemma deref_field_Some [simp]: "deref_field (Some v) = Value v"
  by (simp add: deref_field_def)

lemma deref_Value_iff [outcome_simps]: "deref h p = Value r \<longleftrightarrow> (\<exists>a. p = Some a \<and> r = cells h a)"
  by (auto simp: deref_def split: option.splits)

lemma Copy_simps [simp]: "Copy h (Some a) = Some (cells h a)" "Copy h None = None"
  by (simp_all add: Copy_def)

lemma hp_next_Sync [simp]: "hp_next (Sync h r rs) = hp_next h"
  by (simp add: Sync_def split: option.splits)

lemma Sync_other: "r \<noteq> Some a \<Longrightarrow> cells (Sync h r rs) a = cells h a"
  by (auto simp: Sync_def split: option.splits)

lemma Sync_same [simp]:
  "cells (Sync h (Some a) (Some v)) a = v"
  by (simp add: Sync_def)

text \<open>The lock is a mutual exclusion device: after a successful \<open>Lock\<close> every further \<open>Lock\<close> fails
  until the owner's \<open>UnLock\<close>, which returns the lock to its initial state.\<close>

lemma EventLock_exclusive:
  "EventLock_Lock NewEventLock = (True, l) \<Longrightarrow> fst (EventLock_Lock l) = False"
  by (auto simp: EventLock_Lock_def NewEventLock_def)

lemma EventLock_Lock_UnLock:
  "tokens l \<le> 1 \<Longrightarrow> EventLock_Lock l = (True, l') \<Longrightarrow> EventLock_UnLock l' = Some l"
  by (auto simp: EventLock_Lock_def EventLock_UnLock_def split: if_splits)

lemma is_word_char_not_colon: "\<not> is_word_char (CHR '':'')"
  by (simp add: is_word_char_def)

lemma RegfunctionName_no_colon: "RegfunctionName s \<Longrightarrow> CHR '':'' \<notin> set s"
  using is_word_char_not_colon by (auto simp: RegfunctionName_def list_all_iff)

lemma RegVersion_no_colon: "RegVersion s \<Longrightarrow> CHR '':'' \<notin> set s"
  by (auto simp: RegVersion_def list_all_iff is_digit_char_def)

lemma RegVersion_not_Nil: "RegVersion s \<Longrightarrow> s \<noteq> []"
  by (auto simp: RegVersion_def)

end
