(* ===== verification/RtInfo.thy ===== *)
theory RtInfo
  imports Api
begin

text \<open>
  One user container as the controller sees it: \<open>RuntimeInfo\<close> of
  \<open>src/pkg/controller/rtctrl/type.go\<close>, its error values (\<open>errors.go\<close>) and its small operations
  (\<open>runtimeinfo.go\<close>). A buffered channel is the list of its pending values (\<open>None\<close> is a nil
  channel), a channel that only signals is whether it has been closed, a wait group is its
  counter, a network connection is its number with whether it is still open.
\<close>

section \<open>States and errors\<close>

datatype RuntimeStateType =
    RuntimeStateCold
  | RuntimeStateWarmUp
  | RuntimeStateWarm
  | RuntimeStateMerged
  | RuntimeStateStopping
  | RuntimeStateStopped
  | RuntimeStateClosed
  | RuntimeStateReclaiming

fun state_name :: "RuntimeStateType \<Rightarrow> string" where
  "state_name RuntimeStateCold = ''cold''"
| "state_name RuntimeStateWarmUp = ''warmup''"
| "state_name RuntimeStateWarm = ''warm''"
| "state_name RuntimeStateMerged = ''merged''"
| "state_name RuntimeStateStopping = ''stopping''"
| "state_name RuntimeStateStopped = ''stopped''"
| "state_name RuntimeStateClosed = ''closed''"
| "state_name RuntimeStateReclaiming = ''reclaiming''"

datatype rt_error =
    RuntimeStateUnmatched string RuntimeStateType "RuntimeStateType list"
  | RuntimeMatchError string
  | RuntimeReleaseError string string
  | RuntimeSyncError string string
  | RuntimeNotExist string
  | RuntimeInfoError string
  | RuntimeNoNeedToReset string
  | PlainError string

text \<open>\<open>Error()\<close> of each error type; \<open>PlainError\<close> is an \<open>errors.New\<close> or \<open>fmt.Errorf\<close> value.\<close>

fun Error :: "rt_error \<Rightarrow> string" where
  "Error (RuntimeStateUnmatched i cur exp) =
     ''runtime '' @ i @ '' state did not match op, current state '' @ state_name cur @
     '', expected state '' @ join_with '','' (map state_name exp)"
| "Error (RuntimeMatchError r) = ''runtime is not matched: '' @ r"
| "Error (RuntimeReleaseError i r) = ''runtime '' @ i @ '' is not matched: '' @ r"
| "Error (RuntimeSyncError i r) = ''runtime '' @ i @ '' is not matched: '' @ r"
| "Error (RuntimeNotExist i) = ''runtime '' @ i @ '' does not exist''"
| "Error (RuntimeInfoError i) = ''information of runtime '' @ i @ '' is invaild''"
| "Error (RuntimeNoNeedToReset i) = ''runtime is no need to reset: '' @ i"
| "Error (PlainError m) = m"

section \<open>The runtime object\<close>

datatype conn = OpenConn nat | ClosedConn nat

fun Close_conn :: "conn \<Rightarrow> conn" where
  "Close_conn (OpenConn n) = ClosedConn n"
| "Close_conn (ClosedConn n) = ClosedConn n"

record InvokeRequest =
  RequestID_ir :: string
  Version_ir :: string
  AccessKeyID_ir :: string
  AccessKeySecret_ir :: string
  SecurityToken_ir :: string
  ClientContext_ir :: string
  EventObject_ir :: string

text \<open>A request and a response of stream mode, reduced to what the controller reads of them: the
  identifier, the function timeout; the status code and the headers of the answer.\<close>

record InvokeHTTPRequest =
  RequestID_hr :: string
  FunctionTimeout :: int64

record InvokeHTTPResponse =
  RequestID_hs :: string
  StatusCode_hs :: int
  Header_hs :: "(string \<times> string list) list"

record NewRuntimeParameters =
  RuntimeID_np :: string
  ConcurrentMode_np :: bool
  StreamMode_np :: bool
  WaitRuntimeAliveTimeout_np :: int64
  IsFrozen_np :: bool
  Resource_np :: res_ptr

record RuntimeInfo =
  RuntimeID :: string
  State :: RuntimeStateType
  Used :: bool
  Marked :: bool
  Abnormal :: bool
  AbnormalTimes :: uint64
  Resource :: res_ptr
  UserID :: string
  CommitID :: string
  MemorySize :: uint64
  ConcurrentMode :: bool
  DefaultConcurrentMode :: bool
  Concurrency :: uint64
  WithStreamMode :: bool
  WaitRuntimeAliveTimeout :: int64
  PreLoadTimeMS :: int64
  PostLoadTimeMS :: int64
  PreInitTimeMS :: int64
  PostInitTimeMS :: int64
  AcceptReqCnt :: int64
  RejectReqCnt :: int64
  LastLivenessTime :: instant
  LastAccessTime :: instant
  LastResetTime :: instant
  runnerConn :: "conn option"
  runtimeConn :: "conn option"
  requestChan :: "InvokeRequest list option"
  httpClient :: "string option"
  httpRequestChan :: "InvokeHTTPRequest list option"
  httpResponseChan :: "InvokeHTTPResponse list option"
  retryDeadline :: int64
  requestMap :: "string \<rightharpoonup> nat"
  rebootWaitGroup :: int
  runtimeRunChan_closed :: bool
  runtimeStopChan_closed :: bool
  runtimeStoppingChan_closed :: bool
  runtimeWaitGroup :: int

text \<open>Go's zero \<open>time.Time\<close>: the first of January of year one.\<close>

definition zero_time :: instant where
  "zero_time = - 62135596800 * 1000000000"

section \<open>Operations of \<open>runtimeinfo.go\<close>\<close>

definition SetState :: "RuntimeStateType \<Rightarrow> RuntimeInfo \<Rightarrow> RuntimeInfo" where
  "SetState s info = info\<lparr>State := s\<rparr>"

definition NewRuntimeInfo :: "instant \<Rightarrow> NewRuntimeParameters \<Rightarrow> RuntimeInfo" where
  "NewRuntimeInfo now params =
     (let ri = \<lparr>RuntimeID = RuntimeID_np params, State = RuntimeStateClosed, Used = False, Marked = False,
        Abnormal = False, AbnormalTimes = 0, Resource = Resource_np params, UserID = '''', CommitID = '''',
        MemorySize = 0, ConcurrentMode = ConcurrentMode_np params,
        DefaultConcurrentMode = ConcurrentMode_np params, Concurrency = 0,
        WithStreamMode = StreamMode_np params,
        WaitRuntimeAliveTimeout = WaitRuntimeAliveTimeout_np params,
        PreLoadTimeMS = 0, PostLoadTimeMS = 0, PreInitTimeMS = 0, PostInitTimeMS = 0,
        AcceptReqCnt = 0, RejectReqCnt = 0,
        LastLivenessTime = now, LastAccessTime = now, LastResetTime = zero_time,
        runnerConn = None, runtimeConn = None, requestChan = Some [], httpClient = None,
        httpRequestChan = None, httpResponseChan = None, retryDeadline = 0, requestMap = Map.empty,
        rebootWaitGroup = 0, runtimeRunChan_closed = False, runtimeStopChan_closed = False,
        runtimeStoppingChan_closed = False, runtimeWaitGroup = 0\<rparr>
      in if IsFrozen_np params then SetState RuntimeStateMerged ri else ri)"

definition SetResource :: "res_heap \<Rightarrow> uint64 \<Rightarrow> int64 \<Rightarrow> RuntimeInfo \<Rightarrow> res_heap outcome" where
  "SetResource h mem cpu info =
     obind (deref h (Resource info)) (\<lambda>r. store h (Resource info) (r\<lparr>Memory := int64_of mem, MilliCPUs := cpu\<rparr>))"

definition SetMemorySize :: "uint64 \<Rightarrow> RuntimeInfo \<Rightarrow> RuntimeInfo" where
  "SetMemorySize mem info = info\<lparr>MemorySize := mem\<rparr>"

definition SetLoadTime :: "int64 \<Rightarrow> int64 \<Rightarrow> RuntimeInfo \<Rightarrow> RuntimeInfo" where
  "SetLoadTime pre post info = info\<lparr>PreLoadTimeMS := pre, PostLoadTimeMS := post\<rparr>"

definition SetInitTime :: "int64 \<Rightarrow> int64 \<Rightarrow> RuntimeInfo \<Rightarrow> RuntimeInfo" where
  "SetInitTime pre post info = info\<lparr>PreInitTimeMS := pre, PostInitTimeMS := post\<rparr>"

definition SetCommitID :: "string \<Rightarrow> RuntimeInfo \<Rightarrow> RuntimeInfo" where
  "SetCommitID cm info = info\<lparr>CommitID := cm\<rparr>"

definition RebootBegin :: "RuntimeInfo \<Rightarrow> RuntimeInfo" where
  "RebootBegin info = info\<lparr>rebootWaitGroup := rebootWaitGroup info + 1\<rparr>"

definition RebootEnd :: "RuntimeInfo \<Rightarrow> RuntimeInfo" where
  "RebootEnd info = info\<lparr>rebootWaitGroup := rebootWaitGroup info - 1\<rparr>"

definition SetMarked :: "bool \<Rightarrow> RuntimeInfo \<Rightarrow> RuntimeInfo" where
  "SetMarked m info = info\<lparr>Marked := m\<rparr>"

definition SetUsed :: "bool \<Rightarrow> RuntimeInfo \<Rightarrow> RuntimeInfo" where
  "SetUsed m info = info\<lparr>Used := m\<rparr>"

definition Invalidate :: "RuntimeInfo \<Rightarrow> RuntimeInfo" where
  "Invalidate info =
     (if Abnormal info then info else info\<lparr>Abnormal := True, AbnormalTimes := AbnormalTimes info + 1\<rparr>)"

definition updateLastAccessTime :: "instant \<Rightarrow> RuntimeInfo \<Rightarrow> RuntimeInfo" where
  "updateLastAccessTime now info = info\<lparr>LastAccessTime := now\<rparr>"

definition updateLastResetTime :: "instant \<Rightarrow> RuntimeInfo \<Rightarrow> RuntimeInfo" where
  "updateLastResetTime now info = info\<lparr>LastResetTime := now\<rparr>"

definition updateLastLivenessTime :: "instant \<Rightarrow> RuntimeInfo \<Rightarrow> RuntimeInfo" where
  "updateLastLivenessTime now info = info\<lparr>LastLivenessTime := now\<rparr>"

definition available :: "RuntimeInfo \<Rightarrow> bool" where
  "available info \<longleftrightarrow> \<not> Abnormal info"

definition updateStreamMode :: "bool \<Rightarrow> RuntimeInfo \<Rightarrow> RuntimeInfo" where
  "updateStreamMode mode info = info\<lparr>WithStreamMode := mode\<rparr>"

definition IsRunnerDefunct :: "instant \<Rightarrow> RuntimeInfo \<Rightarrow> bool" where
  "IsRunnerDefunct deadline info =
     (if \<not> LastLivenessTime info < deadline then False
      else if Abnormal info then True
      else if State info = RuntimeStateWarmUp then True
      else if State info = RuntimeStateStopping then True
      else if State info = RuntimeStateStopped then True
      else if State info = RuntimeStateClosed then True
      else False)"

lemmas rtinfo_defs =
  SetState_def SetMemorySize_def SetLoadTime_def SetInitTime_def SetCommitID_def RebootBegin_def
  RebootEnd_def SetMarked_def SetUsed_def updateLastAccessTime_def updateLastResetTime_def
  updateLastLivenessTime_def updateStreamMode_def available_def

text \<open>A runner counts as defunct when nothing was heard from it since the deadline and it is either
  abnormal or in a state that only a live runner leaves; runtimes that wait for work, that serve
  requests or that lent their memory to another runtime are left alone.\<close>

lemma IsRunnerDefunct_iff:
  "IsRunnerDefunct deadline info \<longleftrightarrow>
     LastLivenessTime info < deadline \<and>
     (Abnormal info \<or>
      State info \<notin> {RuntimeStateCold, RuntimeStateWarm, RuntimeStateMerged, RuntimeStateReclaiming})"
  by (cases "State info") (auto simp: IsRunnerDefunct_def)

lemma SetResource_Value_iff:
  "SetResource h mem cpu info = Value h' \<longleftrightarrow>
     (\<exists>a. Resource info = Some a \<and>
        h' = h\<lparr>cells := (cells h)(a := (cells h a)\<lparr>Memory := int64_of mem, MilliCPUs := cpu\<rparr>)\<rparr>)"
  by (cases "Resource info") (auto simp: SetResource_def)

lemma SetResource_returns: "returns (SetResource h mem cpu info) \<longleftrightarrow> Resource info \<noteq> None"
  by (cases "Resource info") (auto simp: SetResource_def)

text \<open>A cold runtime with its resource object at address \<open>a\<close>, for concrete runs.\<close>

definition sample_runtime :: "string \<Rightarrow> nat \<Rightarrow> RuntimeInfo" where
  "sample_runtime i a = (NewRuntimeInfo 0 \<lparr>RuntimeID_np = i, ConcurrentMode_np = False, StreamMode_np = False,
     WaitRuntimeAliveTimeout_np = 3, IsFrozen_np = False, Resource_np = Some a\<rparr>)\<lparr>State := RuntimeStateCold\<rparr>"

lemma sample_runtime_fields [simp]:
  "RuntimeID (sample_runtime i a) = i" "Resource (sample_runtime i a) = Some a" "Marked (sample_runtime i a) = False"
  "State (sample_runtime i a) = RuntimeStateCold" "Abnormal (sample_runtime i a) = False"
  "Concurrency (sample_runtime i a) = 0" "Used (sample_runtime i a) = False"
  by (simp_all add: sample_runtime_def NewRuntimeInfo_def Let_def)

end
