(* ===== verification/RtEvents.thy ===== *)
theory RtEvents
  imports RtInfo
begin

text \<open>
  The check-and-set events of a runtime (\<open>src/pkg/controller/rtctrl/event.go\<close>): for every event a
  check that reads the runtime and a set that changes it, the table \<open>casOps\<close>, and \<open>CAS\<close>, which
  checks without the lock, takes the lock, checks again and sets. An argument is passed as an
  untyped interface value and asserted to be of the event's type; a value of another type panics.
\<close>

section \<open>Inputs\<close>

record OccupyInput =
  CommitID_oi :: string
  WithStreamMode_oi :: bool
  MemorySize_oi :: uint64
  MilliCPUs_oi :: int64

record MergedInput =
  CommitID_mi :: string

record RetrieveInput =
  Deadline_ti :: instant

record RollbackInput =
  CommitID_ri :: string

record MarkInput =
  CommitID_ki :: string
  ConcurrentQuota :: uint64

record StopInput =
  Deadline_si :: instant

record ResetInput =
  Deadline_ei :: instant

datatype cas_args =
    OccupyArgs OccupyInput
  | MergedArgs MergedInput
  | RetrieveArgs RetrieveInput
  | RollbackArgs RollbackInput
  | MarkArgs MarkInput
  | StopArgs StopInput
  | ResetArgs ResetInput

definition conversion_panic :: "'a outcome" where
  "conversion_panic = Panic ''interface conversion''"

section \<open>Checks and sets\<close>

definition opOccupyCheck :: "cas_args \<Rightarrow> RuntimeInfo \<Rightarrow> rt_error option outcome" where
  "opOccupyCheck args info =
     (if State info \<noteq> RuntimeStateCold
      then Value (Some (RuntimeStateUnmatched (RuntimeID info) (State info) [RuntimeStateCold]))
      else if \<not> available info then Value (Some (RuntimeMatchError ''runner is not available''))
      else Value None)"

definition opOccupySet :: "cas_args \<Rightarrow> instant \<Rightarrow> res_heap \<Rightarrow> RuntimeInfo \<Rightarrow> (res_heap \<times> RuntimeInfo) outcome" where
  "opOccupySet args now h info = (case args of
     OccupyArgs params \<Rightarrow>
       (let info1 = updateStreamMode (WithStreamMode_oi params)
                      (updateLastAccessTime now (SetState RuntimeStateWarmUp info))
        in obind (SetResource h (MemorySize_oi params) (MilliCPUs_oi params) info1) (\<lambda>h'.
             Value (h', SetMarked True (SetCommitID (CommitID_oi params)
                          (info1\<lparr>Concurrency := Concurrency info1 + 1\<rparr>)))))
   | _ \<Rightarrow> conversion_panic)"

definition opMergedCheck :: "cas_args \<Rightarrow> RuntimeInfo \<Rightarrow> rt_error option outcome" where
  "opMergedCheck args info =
     (if State info \<noteq> RuntimeStateCold
      then Value (Some (RuntimeStateUnmatched (RuntimeID info) (State info) [RuntimeStateCold]))
      else if \<not> available info then Value (Some (RuntimeMatchError ''runner is not available''))
      else Value None)"

definition opMergedSet :: "cas_args \<Rightarrow> instant \<Rightarrow> res_heap \<Rightarrow> RuntimeInfo \<Rightarrow> (res_heap \<times> RuntimeInfo) outcome" where
  "opMergedSet args now h info = (case args of
     MergedArgs params \<Rightarrow> Value (h, SetCommitID (CommitID_mi params) (SetState RuntimeStateMerged info))
   | _ \<Rightarrow> conversion_panic)"

definition opRetrieveCheck :: "cas_args \<Rightarrow> RuntimeInfo \<Rightarrow> rt_error option outcome" where
  "opRetrieveCheck args info =
     (if \<not> (State info = RuntimeStateMerged \<or> State info = RuntimeStateReclaiming)
      then Value (Some (RuntimeStateUnmatched (RuntimeID info) (State info)
             [RuntimeStateMerged, RuntimeStateReclaiming]))
      else (case args of
        RetrieveArgs params \<Rightarrow>
          (if State info = RuntimeStateReclaiming \<and> LastResetTime info > Deadline_ti params
           then Value (Some (RuntimeMatchError ''last reset time hasn't timeout''))
           else if Concurrency info = 0 then Value None
           else Value (Some (RuntimeMatchError ''runtime info did not match'')))
      | _ \<Rightarrow> conversion_panic))"

definition opRetrieveSet :: "cas_args \<Rightarrow> instant \<Rightarrow> res_heap \<Rightarrow> RuntimeInfo \<Rightarrow> (res_heap \<times> RuntimeInfo) outcome" where
  "opRetrieveSet args now h info =
     Value (h, SetState RuntimeStateReclaiming (updateLastResetTime now
       (info\<lparr>CommitID := '''', UserID := '''', Concurrency := 0, ConcurrentMode := DefaultConcurrentMode info\<rparr>)))"

definition opRollbackCheck :: "cas_args \<Rightarrow> RuntimeInfo \<Rightarrow> rt_error option outcome" where
  "opRollbackCheck args info = (case args of
     RollbackArgs params \<Rightarrow>
       (if CommitID_ri params \<noteq> CommitID info then Value (Some (RuntimeMatchError ''commit id doesn't match''))
        else if \<not> (State info = RuntimeStateWarmUp \<or> State info = RuntimeStateMerged)
        then Value (Some (RuntimeStateUnmatched (RuntimeID info) (State info)
               [RuntimeStateWarmUp, RuntimeStateMerged]))
        else Value None)
   | _ \<Rightarrow> conversion_panic)"

definition opRollbackSet :: "cas_args \<Rightarrow> instant \<Rightarrow> res_heap \<Rightarrow> RuntimeInfo \<Rightarrow> (res_heap \<times> RuntimeInfo) outcome" where
  "opRollbackSet args now h info =
     (let info1 = (if State info = RuntimeStateWarmUp
                   then info\<lparr>Concurrency := Concurrency info - 1\<rparr> else info);
          info2 = updateStreamMode False (SetState RuntimeStateCold info1)
      in obind (SetResource h 0 0 info2) (\<lambda>h'.
           Value (h', SetMarked False (SetCommitID '''' info2))))"

definition opMarkCheck :: "cas_args \<Rightarrow> RuntimeInfo \<Rightarrow> rt_error option outcome" where
  "opMarkCheck args info =
     (if State info \<noteq> RuntimeStateWarmUp \<and> State info \<noteq> RuntimeStateWarm
      then Value (Some (RuntimeStateUnmatched (RuntimeID info) (State info)
             [RuntimeStateWarmUp, RuntimeStateWarm]))
      else (case args of
        MarkArgs params \<Rightarrow>
          (if \<not> available info then Value (Some (RuntimeMatchError ''runner is not available''))
           else if CommitID info \<noteq> CommitID_ki params
           then Value (Some (RuntimeMatchError ''commit id not match''))
           else if (\<not> ConcurrentMode info \<or> ConcurrentQuota params = 0) \<and> Concurrency info = 0
           then Value None
           else if ConcurrentMode info \<and> Concurrency info < ConcurrentQuota params then Value None
           else Value (Some (RuntimeMatchError ''concurrency exceed limit'')))
      | _ \<Rightarrow> conversion_panic))"

definition opMarkSet :: "cas_args \<Rightarrow> instant \<Rightarrow> res_heap \<Rightarrow> RuntimeInfo \<Rightarrow> (res_heap \<times> RuntimeInfo) outcome" where
  "opMarkSet args now h info =
     (let info1 = updateLastAccessTime now info
      in Value (h, info1\<lparr>Concurrency := Concurrency info1 + 1\<rparr>))"

definition opStopCheck :: "cas_args \<Rightarrow> RuntimeInfo \<Rightarrow> rt_error option outcome" where
  "opStopCheck args info =
     (if State info \<noteq> RuntimeStateWarm
      then Value (Some (RuntimeStateUnmatched (RuntimeID info) (State info) [RuntimeStateWarm]))
      else (case args of
        StopArgs params \<Rightarrow>
          (if Concurrency info = 0 \<and> LastAccessTime info < Deadline_si params then Value None
           else Value (Some (RuntimeMatchError ''no need to stop'')))
      | _ \<Rightarrow> conversion_panic))"

definition opStopSet :: "cas_args \<Rightarrow> instant \<Rightarrow> res_heap \<Rightarrow> RuntimeInfo \<Rightarrow> (res_heap \<times> RuntimeInfo) outcome" where
  "opStopSet args now h info =
     (let info1 = SetState RuntimeStateStopping
            (info\<lparr>CommitID := '''', UserID := '''', Concurrency := 0, ConcurrentMode := DefaultConcurrentMode info\<rparr>)
      in if runtimeStoppingChan_closed info1 then Panic ''close of closed channel''
         else Value (h, info1\<lparr>runtimeStoppingChan_closed := True\<rparr>))"

definition opResetCheck :: "cas_args \<Rightarrow> RuntimeInfo \<Rightarrow> rt_error option outcome" where
  "opResetCheck args info = (case args of
     ResetArgs params \<Rightarrow>
       (if IsRunnerDefunct (Deadline_ei params) info then Value None
        else Value (Some (RuntimeNoNeedToReset (RuntimeID info))))
   | _ \<Rightarrow> conversion_panic)"

definition opResetSet :: "cas_args \<Rightarrow> instant \<Rightarrow> res_heap \<Rightarrow> RuntimeInfo \<Rightarrow> (res_heap \<times> RuntimeInfo) outcome" where
  "opResetSet args now h info =
     Value (h, updateLastResetTime now
       (info\<lparr>CommitID := '''', UserID := '''', Concurrency := 0, ConcurrentMode := DefaultConcurrentMode info\<rparr>))"

section \<open>The event table and \<open>CAS\<close>\<close>

datatype CASOpType =
  OpOccupy | OpMerged | OpRetrieve | OpRollback | OpMark | OpInit | OpStop | OpReset | OpClose | OpEnd

type_synonym check_callback = "cas_args \<Rightarrow> RuntimeInfo \<Rightarrow> rt_error option outcome"
type_synonym set_callback =
  "cas_args \<Rightarrow> instant \<Rightarrow> res_heap \<Rightarrow> RuntimeInfo \<Rightarrow> (res_heap \<times> RuntimeInfo) outcome"

text \<open>A callback that is nil is \<open>None\<close>; every set callback of the table returns a nil error.\<close>

record runtimeEvent =
  ev_name :: string
  ev_check :: "check_callback option"
  ev_set :: "set_callback option"

text \<open>The array \<open>casOps\<close> has the indices below \<open>OpEnd\<close>.\<close>

fun casOps :: "CASOpType \<Rightarrow> runtimeEvent option" where
  "casOps OpOccupy = Some \<lparr>ev_name = ''occupy'', ev_check = Some opOccupyCheck, ev_set = Some opOccupySet\<rparr>"
| "casOps OpMerged = Some \<lparr>ev_name = ''merged'', ev_check = Some opMergedCheck, ev_set = Some opMergedSet\<rparr>"
| "casOps OpRetrieve = Some \<lparr>ev_name = ''retrieve'', ev_check = Some opRetrieveCheck, ev_set = Some opRetrieveSet\<rparr>"
| "casOps OpRollback = Some \<lparr>ev_name = ''rollback'', ev_check = Some opRollbackCheck, ev_set = Some opRollbackSet\<rparr>"
| "casOps OpMark = Some \<lparr>ev_name = ''mark'', ev_check = Some opMarkCheck, ev_set = Some opMarkSet\<rparr>"
| "casOps OpInit = Some \<lparr>ev_name = ''init'', ev_check = None, ev_set = None\<rparr>"
| "casOps OpStop = Some \<lparr>ev_name = ''stop'', ev_check = Some opStopCheck, ev_set = Some opStopSet\<rparr>"
| "casOps OpReset = Some \<lparr>ev_name = ''reset'', ev_check = Some opResetCheck, ev_set = Some opResetSet\<rparr>"
| "casOps OpClose = Some \<lparr>ev_name = ''close'', ev_check = None, ev_set = None\<rparr>"
| "casOps OpEnd = None"

definition run_check :: "CASOpType \<Rightarrow> cas_args \<Rightarrow> RuntimeInfo \<Rightarrow> rt_error option outcome" where
  "run_check op args info = (case casOps op of
     None \<Rightarrow> Panic ''index out of range''
   | Some ev \<Rightarrow> (case ev_check ev of None \<Rightarrow> Panic nil_dereference | Some chk \<Rightarrow> chk args info))"

definition run_set :: "CASOpType \<Rightarrow> cas_args \<Rightarrow> instant \<Rightarrow> res_heap \<Rightarrow> RuntimeInfo \<Rightarrow> (res_heap \<times> RuntimeInfo) outcome" where
  "run_set op args now h info = (case casOps op of
     None \<Rightarrow> Panic ''index out of range''
   | Some ev \<Rightarrow> (case ev_set ev of None \<Rightarrow> Panic nil_dereference | Some st \<Rightarrow> st args now h info))"

type_synonym cas_result = "(rt_error + (res_heap \<times> RuntimeInfo)) outcome"

text \<open>The two halves of \<open>CAS\<close>: the part that runs under \<open>invokeLock\<close>, and the whole call, where the
  first check saw the runtime as \<open>info0\<close> and the lock was granted when it was \<open>info\<close>. A caller that
  no other goroutine interferes with sees the same runtime twice.\<close>

definition CAS_locked :: "CASOpType \<Rightarrow> cas_args \<Rightarrow> instant \<Rightarrow> res_heap \<Rightarrow> RuntimeInfo \<Rightarrow> cas_result" where
  "CAS_locked op args now h info =
     obind (run_check op args info) (\<lambda>err. case err of
       Some e \<Rightarrow> Value (Inl e)
     | None \<Rightarrow> obind (run_set op args now h info) (\<lambda>r. Value (Inr r)))"

definition CAS_between :: "CASOpType \<Rightarrow> cas_args \<Rightarrow> instant \<Rightarrow> res_heap \<Rightarrow> RuntimeInfo \<Rightarrow> RuntimeInfo \<Rightarrow> cas_result" where
  "CAS_between op args now h info0 info =
     obind (run_check op args info0) (\<lambda>err. case err of
       Some e \<Rightarrow> Value (Inl e)
     | None \<Rightarrow> CAS_locked op args now h info)"

definition CAS :: "CASOpType \<Rightarrow> cas_args \<Rightarrow> instant \<Rightarrow> res_heap \<Rightarrow> RuntimeInfo \<Rightarrow> cas_result" where
  "CAS op args now h info = CAS_between op args now h info info"

definition Release :: "RuntimeInfo \<Rightarrow> rt_error + RuntimeInfo" where
  "Release info =
     (if Concurrency info = 0
      then Inl (RuntimeReleaseError (RuntimeID info) ''runtime concurrency has been 0'')
      else Inr (info\<lparr>Concurrency := Concurrency info - 1\<rparr>))"

lemmas cas_check_defs =
  opOccupyCheck_def opMergedCheck_def opRetrieveCheck_def opRollbackCheck_def opMarkCheck_def
  opStopCheck_def opResetCheck_def
lemmas cas_set_defs =
  opOccupySet_def opMergedSet_def opRetrieveSet_def opRollbackSet_def opMarkSet_def
  opStopSet_def opResetSet_def

section \<open>What an event may change\<close>

text \<open>The identity of a runtime: what no event changes.\<close>

definition same_identity :: "RuntimeInfo \<Rightarrow> RuntimeInfo \<Rightarrow> bool" where
  "same_identity i j \<longleftrightarrow>
     RuntimeID j = RuntimeID i \<and> Resource j = Resource i \<and> Used j = Used i \<and> Abnormal j = Abnormal i \<and>
     AbnormalTimes j = AbnormalTimes i \<and> DefaultConcurrentMode j = DefaultConcurrentMode i \<and>
     LastLivenessTime j = LastLivenessTime i \<and> requestMap j = requestMap i \<and>
     rebootWaitGroup j = rebootWaitGroup i \<and> runtimeWaitGroup j = runtimeWaitGroup i \<and>
     runtimeRunChan_closed j = runtimeRunChan_closed i \<and> runtimeStopChan_closed j = runtimeStopChan_closed i"

definition heap_frame :: "res_ptr \<Rightarrow> res_heap \<Rightarrow> res_heap \<Rightarrow> bool" where
  "heap_frame p h h' \<longleftrightarrow> hp_next h' = hp_next h \<and> (\<forall>a. p \<noteq> Some a \<longrightarrow> cells h' a = cells h a)"

lemma heap_frame_refl [simp]: "heap_frame p h h"
  by (simp add: heap_frame_def)

lemma same_identity_refl [simp]: "same_identity i i"
  by (simp add: same_identity_def)

lemma same_identity_trans: "same_identity i j \<Longrightarrow> same_identity j k \<Longrightarrow> same_identity i k"
  by (simp add: same_identity_def)

lemma SetResource_frame: "SetResource h mem cpu info = Value h' \<Longrightarrow> heap_frame (Resource info) h h'"
  by (auto simp: SetResource_Value_iff heap_frame_def)

text \<open>
  The contract of an event: a check that passes admits the states of \<open>src_states\<close> only, and the
  set leads from there into \<open>dst\<close>, keeps the identity of the runtime and writes no resource but
  the runtime's own. The lemma \<open>event_run\<close> is what \<open>CAS\<close> needs of every event.
\<close>

locale cas_event =
  fixes chk :: check_callback
    and st :: set_callback
    and src_states :: "RuntimeStateType set"
    and dst :: "RuntimeStateType \<Rightarrow> RuntimeStateType"
  assumes chk_state: "chk args info = Value None \<Longrightarrow> State info \<in> src_states"
    and st_state: "st args now h info = Value (h', info') \<Longrightarrow> State info' = dst (State info)"
    and st_identity: "st args now h info = Value (h', info') \<Longrightarrow> same_identity info info'"
    and st_frame: "st args now h info = Value (h', info') \<Longrightarrow> heap_frame (Resource info) h h'"
begin

lemma event_run:
  assumes "chk args info = Value None" "st args now h info = Value (h', info')"
  shows "State info \<in> src_states \<and> State info' = dst (State info) \<and> same_identity info info' \<and>
     heap_frame (Resource info) h h'"
  using assms chk_state st_state st_identity st_frame by blast

end

lemmas cas_unfold = rtinfo_defs Let_def same_identity_def outcome_simps conversion_panic_def

interpretation occupy: cas_event opOccupyCheck opOccupySet
    "{RuntimeStateCold}" "\<lambda>_. RuntimeStateWarmUp"
  by unfold_locales
     (auto simp: opOccupyCheck_def opOccupySet_def cas_unfold dest: SetResource_frame split: if_splits cas_args.splits)

interpretation merged: cas_event opMergedCheck opMergedSet
    "{RuntimeStateCold}" "\<lambda>_. RuntimeStateMerged"
  by unfold_locales
     (auto simp: opMergedCheck_def opMergedSet_def cas_unfold split: if_splits cas_args.splits)

interpretation retrieve: cas_event opRetrieveCheck opRetrieveSet
    "{RuntimeStateMerged, RuntimeStateReclaiming}" "\<lambda>_. RuntimeStateReclaiming"
  by unfold_locales
     (auto simp: opRetrieveCheck_def opRetrieveSet_def cas_unfold split: if_splits cas_args.splits)

interpretation rollback: cas_event opRollbackCheck opRollbackSet
    "{RuntimeStateWarmUp, RuntimeStateMerged}" "\<lambda>_. RuntimeStateCold"
  by unfold_locales
     (auto simp: opRollbackCheck_def opRollbackSet_def cas_unfold dest: SetResource_frame split: if_splits cas_args.splits)

interpretation mark: cas_event opMarkCheck opMarkSet
    "{RuntimeStateWarmUp, RuntimeStateWarm}" "\<lambda>s. s"
  by unfold_locales
     (auto simp: opMarkCheck_def opMarkSet_def cas_unfold split: if_splits cas_args.splits)

interpretation stop: cas_event opStopCheck opStopSet
    "{RuntimeStateWarm}" "\<lambda>_. RuntimeStateStopping"
  by unfold_locales
     (auto simp: opStopCheck_def opStopSet_def cas_unfold split: if_splits cas_args.splits)

interpretation reset: cas_event opResetCheck opResetSet UNIV "\<lambda>s. s"
  by unfold_locales
     (auto simp: opResetCheck_def opResetSet_def cas_unfold split: if_splits cas_args.splits)

section \<open>\<open>CAS\<close>\<close>

lemma run_check_simps [simp]:
  "run_check OpOccupy = opOccupyCheck" "run_check OpMerged = opMergedCheck"
  "run_check OpRetrieve = opRetrieveCheck" "run_check OpRollback = opRollbackCheck"
  "run_check OpMark = opMarkCheck" "run_check OpStop = opStopCheck" "run_check OpReset = opResetCheck"
  "run_check OpInit args info = Panic nil_dereference" "run_check OpClose args info = Panic nil_dereference"
  "run_check OpEnd args info = Panic ''index out of range''"
  by (simp_all add: fun_eq_iff run_check_def)

lemma run_set_simps [simp]:
  "run_set OpOccupy = opOccupySet" "run_set OpMerged = opMergedSet" "run_set OpRetrieve = opRetrieveSet"
  "run_set OpRollback = opRollbackSet" "run_set OpMark = opMarkSet" "run_set OpStop = opStopSet"
  "run_set OpReset = opResetSet"
  by (simp_all add: fun_eq_iff run_set_def)

text \<open>For a caller that nobody interferes with, the second check repeats the first.\<close>

lemma CAS_eq_locked: "CAS op args now h info = CAS_locked op args now h info"
  by (cases "run_check op args info") (auto simp: CAS_def CAS_between_def CAS_locked_def split: option.splits)

lemma CAS_locked_Inr:
  "CAS_locked op args now h info = Value (Inr r) \<longleftrightarrow>
     run_check op args info = Value None \<and> run_set op args now h info = Value r"
  by (cases r) (auto simp: CAS_locked_def outcome_simps split: option.splits)

lemma CAS_Inr:
  "CAS op args now h info = Value (Inr r) \<longleftrightarrow>
     run_check op args info = Value None \<and> run_set op args now h info = Value r"
  by (simp add: CAS_eq_locked CAS_locked_Inr)

lemma CAS_Inl:
  "CAS op args now h info = Value (Inl e) \<longleftrightarrow> run_check op args info = Value (Some e)"
  by (auto simp: CAS_eq_locked CAS_locked_def outcome_simps split: option.splits)

text \<open>The transitions that the events make.\<close>

fun cas_edge :: "CASOpType \<Rightarrow> RuntimeStateType \<Rightarrow> RuntimeStateType \<Rightarrow> bool" where
  "cas_edge OpOccupy s t \<longleftrightarrow> s = RuntimeStateCold \<and> t = RuntimeStateWarmUp"
| "cas_edge OpMerged s t \<longleftrightarrow> s = RuntimeStateCold \<and> t = RuntimeStateMerged"
| "cas_edge OpRetrieve s t \<longleftrightarrow> s \<in> {RuntimeStateMerged, RuntimeStateReclaiming} \<and> t = RuntimeStateReclaiming"
| "cas_edge OpRollback s t \<longleftrightarrow> s \<in> {RuntimeStateWarmUp, RuntimeStateMerged} \<and> t = RuntimeStateCold"
| "cas_edge OpMark s t \<longleftrightarrow> s \<in> {RuntimeStateWarmUp, RuntimeStateWarm} \<and> t = s"
| "cas_edge OpStop s t \<longleftrightarrow> s = RuntimeStateWarm \<and> t = RuntimeStateStopping"
| "cas_edge OpReset s t \<longleftrightarrow> t = s"
| "cas_edge OpInit s t \<longleftrightarrow> False"
| "cas_edge OpClose s t \<longleftrightarrow> False"
| "cas_edge OpEnd s t \<longleftrightarrow> False"

lemma CAS_locked_run:
  assumes "CAS_locked op args now h info = Value (Inr (h', info'))"
  shows "cas_edge op (State info) (State info') \<and> same_identity info info' \<and> heap_frame (Resource info) h h'"
proof (cases op)
  case OpOccupy
  with assms show ?thesis by (auto simp: CAS_locked_Inr dest: occupy.event_run)
next
  case OpMerged
  with assms show ?thesis by (auto simp: CAS_locked_Inr dest: merged.event_run)
next
  case OpRetrieve
  with assms show ?thesis by (auto simp: CAS_locked_Inr dest: retrieve.event_run)
next
  case OpRollback
  with assms show ?thesis by (auto simp: CAS_locked_Inr dest: rollback.event_run)
next
  case OpMark
  with assms show ?thesis by (auto simp: CAS_locked_Inr dest: mark.event_run)
next
  case OpStop
  with assms show ?thesis by (auto simp: CAS_locked_Inr dest: stop.event_run)
next
  case OpReset
  with assms show ?thesis by (auto simp: CAS_locked_Inr dest: reset.event_run)
qed (use assms in \<open>simp_all add: CAS_locked_Inr\<close>)

lemma CAS_run:
  "CAS op args now h info = Value (Inr (h', info')) \<Longrightarrow>
     cas_edge op (State info) (State info') \<and> same_identity info info' \<and> heap_frame (Resource info) h h'"
  by (simp add: CAS_eq_locked CAS_locked_run)

section \<open>Each event exactly\<close>

lemmas cas_exact = cas_check_defs cas_set_defs rtinfo_defs Let_def outcome_simps SetResource_Value_iff

lemma CAS_occupy_iff:
  "CAS OpOccupy (OccupyArgs p) now h info = Value (Inr (h', info')) \<longleftrightarrow>
     State info = RuntimeStateCold \<and> \<not> Abnormal info \<and>
     (\<exists>a. Resource info = Some a \<and>
        h' = h\<lparr>cells := (cells h)(a := (cells h a)\<lparr>Memory := int64_of (MemorySize_oi p), MilliCPUs := MilliCPUs_oi p\<rparr>)\<rparr>) \<and>
     info' = info\<lparr>State := RuntimeStateWarmUp, LastAccessTime := now, WithStreamMode := WithStreamMode_oi p,
       Concurrency := Concurrency info + 1, CommitID := CommitID_oi p, Marked := True\<rparr>"
  by (auto simp: CAS_Inr cas_exact split: if_splits)

lemma CAS_merged_iff:
  "CAS OpMerged (MergedArgs p) now h info = Value (Inr (h', info')) \<longleftrightarrow>
     State info = RuntimeStateCold \<and> \<not> Abnormal info \<and> h' = h \<and>
     info' = info\<lparr>State := RuntimeStateMerged, CommitID := CommitID_mi p\<rparr>"
  by (auto simp: CAS_Inr cas_exact split: if_splits)

lemma CAS_retrieve_iff:
  "CAS OpRetrieve (RetrieveArgs p) now h info = Value (Inr (h', info')) \<longleftrightarrow>
     (State info = RuntimeStateMerged \<or> State info = RuntimeStateReclaiming \<and> LastResetTime info \<le> Deadline_ti p) \<and>
     Concurrency info = 0 \<and> h' = h \<and>
     info' = info\<lparr>CommitID := '''', UserID := '''', Concurrency := 0, ConcurrentMode := DefaultConcurrentMode info,
       LastResetTime := now, State := RuntimeStateReclaiming\<rparr>"
  by (auto simp: CAS_Inr cas_exact split: if_splits)

lemma CAS_rollback_iff:
  "CAS OpRollback (RollbackArgs p) now h info = Value (Inr (h', info')) \<longleftrightarrow>
     CommitID_ri p = CommitID info \<and> (State info = RuntimeStateWarmUp \<or> State info = RuntimeStateMerged) \<and>
     (\<exists>a. Resource info = Some a \<and>
        h' = h\<lparr>cells := (cells h)(a := (cells h a)\<lparr>Memory := 0, MilliCPUs := 0\<rparr>)\<rparr>) \<and>
     info' = info\<lparr>Concurrency := (if State info = RuntimeStateWarmUp then Concurrency info - 1 else Concurrency info),
       State := RuntimeStateCold, WithStreamMode := False, CommitID := '''', Marked := False\<rparr>"
  by (auto simp: CAS_Inr cas_exact int64_of_def split: if_splits)

lemma CAS_stop_iff:
  "CAS OpStop (StopArgs p) now h info = Value (Inr (h', info')) \<longleftrightarrow>
     State info = RuntimeStateWarm \<and> Concurrency info = 0 \<and> LastAccessTime info < Deadline_si p \<and>
     \<not> runtimeStoppingChan_closed info \<and> h' = h \<and>
     info' = info\<lparr>CommitID := '''', UserID := '''', Concurrency := 0, ConcurrentMode := DefaultConcurrentMode info,
       State := RuntimeStateStopping, runtimeStoppingChan_closed := True\<rparr>"
  by (auto simp: CAS_Inr cas_exact split: if_splits)

lemma CAS_reset_iff:
  "CAS OpReset (ResetArgs p) now h info = Value (Inr (h', info')) \<longleftrightarrow>
     IsRunnerDefunct (Deadline_ei p) info \<and> h' = h \<and>
     info' = info\<lparr>CommitID := '''', UserID := '''', Concurrency := 0, ConcurrentMode := DefaultConcurrentMode info,
       LastResetTime := now\<rparr>"
  by (auto simp: CAS_Inr cas_exact split: if_splits)

lemma CAS_mark_iff:
  "CAS OpMark (MarkArgs p) now h info = Value (Inr (h', info')) \<longleftrightarrow>
     (State info = RuntimeStateWarmUp \<or> State info = RuntimeStateWarm) \<and> \<not> Abnormal info \<and>
     CommitID info = CommitID_ki p \<and>
     (if ConcurrentMode info \<and> ConcurrentQuota p \<noteq> 0 then Concurrency info < ConcurrentQuota p
      else Concurrency info = 0) \<and>
     h' = h \<and> info' = info\<lparr>LastAccessTime := now, Concurrency := Concurrency info + 1\<rparr>"
  by (auto simp: CAS_Inr cas_exact split: if_splits)

lemmas cas_iffs = CAS_occupy_iff CAS_merged_iff CAS_retrieve_iff CAS_rollback_iff CAS_stop_iff
  CAS_reset_iff CAS_mark_iff

text \<open>The argument an event is given is of the type the event asserts.\<close>

fun args_fit :: "CASOpType \<Rightarrow> cas_args \<Rightarrow> bool" where
  "args_fit OpOccupy (OccupyArgs _) = True"
| "args_fit OpMerged (MergedArgs _) = True"
| "args_fit OpRetrieve (RetrieveArgs _) = True"
| "args_fit OpRollback (RollbackArgs _) = True"
| "args_fit OpMark (MarkArgs _) = True"
| "args_fit OpStop (StopArgs _) = True"
| "args_fit OpReset (ResetArgs _) = True"
| "args_fit _ _ = False"

fun_cases args_fitE: "args_fit op args"

lemma CAS_returns:
  assumes "args_fit op args" "Resource info \<noteq> None"
    and "op = OpStop \<longrightarrow> State info = RuntimeStateWarm \<longrightarrow> \<not> runtimeStoppingChan_closed info"
  shows "returns (CAS op args now h info)"
proof -
  obtain a where "Resource info = Some a" using assms(2) by blast
  with assms show ?thesis
    by (elim args_fitE) (auto simp: CAS_eq_locked CAS_locked_def cas_check_defs cas_set_defs rtinfo_defs
        Let_def SetResource_def split: if_splits)
qed

section \<open>Properties\<close>

text \<open>C20: The second check of \<open>CAS\<close> makes it atomic. Whatever other goroutines did to the runtime
  between the unlocked check and the lock, a \<open>CAS\<close> that succeeds made a transition its event allows
  from the state the runtime had when the lock was granted, kept the runtime's identity and wrote
  no resource object but the runtime's own.\<close>

theorem CAS_atomic:
  assumes "CAS_between op args now h info0 info = Value (Inr (h', info'))"
  shows "run_check op args info = Value None \<and> cas_edge op (State info) (State info') \<and>
     same_identity info info' \<and> heap_frame (Resource info) h h'"
proof -
  have "CAS_locked op args now h info = Value (Inr (h', info'))"
    using assms by (auto simp: CAS_between_def outcome_simps split: option.splits)
  then show ?thesis
    using CAS_locked_run by (auto simp: CAS_locked_Inr)
qed

text \<open>C18: A granted slot never exceeds the limit of the function. When \<open>CAS(OpMark)\<close> succeeds, whatever
  happened since its first check, the runtime holds the requested commit, is warm or warming and not
  abnormal, its counter went up by exactly one without wrapping, and it is at most the quota in
  concurrent mode with a quota, and exactly one otherwise.\<close>

theorem mark_within_quota:
  assumes "CAS_between OpMark (MarkArgs \<lparr>CommitID_ki = c, ConcurrentQuota = q\<rparr>) now h info0 info = Value (Inr (h', info'))"
  shows "State info' \<in> {RuntimeStateWarmUp, RuntimeStateWarm} \<and> \<not> Abnormal info' \<and> CommitID info' = c \<and>
     unat (Concurrency info') = unat (Concurrency info) + 1 \<and>
     (if ConcurrentMode info \<and> q \<noteq> 0 then Concurrency info' \<le> q else Concurrency info' = 1)"
proof -
  have *: "CAS OpMark (MarkArgs \<lparr>CommitID_ki = c, ConcurrentQuota = q\<rparr>) now h info = Value (Inr (h', info'))"
    using assms by (auto simp: CAS_eq_locked CAS_between_def outcome_simps split: option.splits)
  show ?thesis
  proof (cases "ConcurrentMode info \<and> q \<noteq> 0")
    case True
    with * have less: "Concurrency info < q" by (simp add: CAS_mark_iff)
    then have "unat (Concurrency info + 1) = unat (Concurrency info) + 1" "Concurrency info + 1 \<le> q"
      by unat_arith+
    with True * show ?thesis by (auto simp: CAS_mark_iff)
  qed (use * in \<open>auto simp: CAS_mark_iff\<close>)
qed

text \<open>Rolling back an occupation gives the slot back: after \<open>CAS(OpOccupy)\<close>, \<open>CAS(OpRollback)\<close>
  with the same commit succeeds and the runtime is cold again with the counter it had before,
  neither marked nor bound to a commit, and with no memory or CPU recorded.\<close>

theorem occupy_rollback:
  assumes "CAS OpOccupy (OccupyArgs p) now h info = Value (Inr (h1, info1))"
  shows "\<exists>a h2 info2. Resource info = Some a \<and>
     CAS OpRollback (RollbackArgs \<lparr>CommitID_ri = CommitID_oi p\<rparr>) now' h1 info1 = Value (Inr (h2, info2)) \<and>
     State info2 = State info \<and> Concurrency info2 = Concurrency info \<and> \<not> Marked info2 \<and>
     CommitID info2 = '''' \<and> cells h2 = (cells h)(a := \<lparr>MilliCPUs = 0, Memory = 0\<rparr>)"
proof -
  from assms obtain a where "Resource info = Some a"
    by (auto simp: CAS_occupy_iff)
  with assms show ?thesis
    by (auto simp: CAS_occupy_iff CAS_rollback_iff)
qed

text \<open>\<open>Release\<close> undoes exactly one grant: after a successful mark it succeeds and restores the
  counter.\<close>

theorem Release_undoes_mark:
  assumes "CAS OpMark args now h info = Value (Inr (h', info'))"
  shows "\<exists>info''. Release info' = Inr info'' \<and> Concurrency info'' = Concurrency info"
proof -
  obtain p where args: "args = MarkArgs p"
    using assms by (cases args) (auto simp: CAS_Inr opMarkCheck_def conversion_panic_def split: if_splits)
  have "Concurrency info + 1 \<noteq> 0"
  proof (cases "ConcurrentMode info \<and> ConcurrentQuota p \<noteq> 0")
    case True
    with assms args have "Concurrency info < ConcurrentQuota p" by (simp add: CAS_mark_iff)
    then show ?thesis by unat_arith
  qed (use assms args in \<open>auto simp: CAS_mark_iff\<close>)
  with assms args show ?thesis
    by (auto simp: CAS_mark_iff Release_def)
qed

section \<open>Concrete runs\<close>

definition sample_heap :: res_heap where
  "sample_heap = \<lparr>cells = (\<lambda>_. \<lparr>MilliCPUs = 0, Memory = 0\<rparr>), hp_next = 9\<rparr>"

definition sample_occupy :: OccupyInput where
  "sample_occupy = \<lparr>CommitID_oi = ''c1'', WithStreamMode_oi = False, MemorySize_oi = 128, MilliCPUs_oi = 500\<rparr>"

definition sample_mark :: MarkInput where
  "sample_mark = \<lparr>CommitID_ki = ''c1'', ConcurrentQuota = 3\<rparr>"

definition sample_warm_runtime :: RuntimeInfo where
  "sample_warm_runtime = (sample_runtime ''a'' 5)\<lparr>State := RuntimeStateWarm, CommitID := ''c1'', ConcurrentMode := True,
     Concurrency := 2\<rparr>"

lemma sample_mark_run:
  "CAS OpMark (MarkArgs sample_mark) 4 sample_heap sample_warm_runtime =
     Value (Inr (sample_heap, sample_warm_runtime\<lparr>LastAccessTime := 4, Concurrency := 3\<rparr>))"
  by (simp add: CAS_mark_iff sample_mark_def sample_warm_runtime_def)

lemma sample_occupy_run:
  "\<exists>h' info'. CAS OpOccupy (OccupyArgs sample_occupy) 4 sample_heap (sample_runtime ''a'' 5) = Value (Inr (h', info'))"
  by (simp add: CAS_occupy_iff sample_occupy_def)

theorem CAS_atomic_witness:
  "\<exists>h' info'. CAS_between OpOccupy (OccupyArgs sample_occupy) 4 sample_heap (sample_runtime ''a'' 5) (sample_runtime ''a'' 5) =
     Value (Inr (h', info')) \<and> cas_edge OpOccupy RuntimeStateCold (State info')"
proof -
  obtain h' info' where run: "CAS_between OpOccupy (OccupyArgs sample_occupy) 4 sample_heap (sample_runtime ''a'' 5) (sample_runtime ''a'' 5) =
     Value (Inr (h', info'))"
    using sample_occupy_run by (auto simp: CAS_def)
  from CAS_atomic [OF run] run show ?thesis by auto
qed

theorem mark_within_quota_witness:
  "Concurrency (sample_warm_runtime\<lparr>LastAccessTime := 4, Concurrency := 3\<rparr>) \<le> (3 :: uint64) \<and>
   CommitID sample_warm_runtime = ''c1''"
proof -
  have run: "CAS_between OpMark (MarkArgs \<lparr>CommitID_ki = ''c1'', ConcurrentQuota = 3\<rparr>) 4 sample_heap sample_warm_runtime sample_warm_runtime =
     Value (Inr (sample_heap, sample_warm_runtime\<lparr>LastAccessTime := 4, Concurrency := 3\<rparr>))"
    using sample_mark_run by (simp add: CAS_def sample_mark_def)
  from mark_within_quota [OF run] show ?thesis by (simp add: sample_warm_runtime_def)
qed

theorem occupy_rollback_witness:
  "\<exists>h1 info1 h2 info2. CAS OpOccupy (OccupyArgs sample_occupy) 4 sample_heap (sample_runtime ''a'' 5) = Value (Inr (h1, info1)) \<and>
     CAS OpRollback (RollbackArgs \<lparr>CommitID_ri = ''c1''\<rparr>) 6 h1 info1 = Value (Inr (h2, info2)) \<and>
     State info2 = RuntimeStateCold \<and> Concurrency info2 = 0"
proof -
  obtain h1 info1 where run: "CAS OpOccupy (OccupyArgs sample_occupy) 4 sample_heap (sample_runtime ''a'' 5) = Value (Inr (h1, info1))"
    using sample_occupy_run by blast
  have "CommitID_oi sample_occupy = ''c1''" by (simp add: sample_occupy_def)
  with run occupy_rollback [OF run, of 6] show ?thesis by auto
qed

theorem Release_undoes_mark_witness:
  "\<exists>info''. Release (sample_warm_runtime\<lparr>LastAccessTime := 4, Concurrency := 3\<rparr>) = Inr info'' \<and> Concurrency info'' = 2"
  using Release_undoes_mark [OF sample_mark_run] by (simp add: sample_warm_runtime_def)

end
