(* ===== verification/Bytefmt.thy ===== *)
theory Bytefmt
  imports Api
begin

text \<open>
  Human-readable byte quantities (\<open>src/pkg/util/bytefmt/bytes.go\<close>) and the floating-point rounding
  they and the scale counts of the runtime manager go through. The controller prints the memory
  a container is to be given with \<open>ByteSize\<close>; the funclet reads it back with \<open>ToBytes\<close>.
\<close>

section \<open>Rounding\<close>

text \<open>Round to the nearest integer, ties to even: the rule of IEEE 754 and of \<open>strconv\<close>.\<close>

definition round_half_even :: "nat \<Rightarrow> nat \<Rightarrow> nat" where
  "round_half_even p q = (let d = p div q; r = p mod q in
     if 2 * r < q then d else if q < 2 * r then d + 1 else if even d then d else d + 1)"

function bitlen :: "nat \<Rightarrow> nat" where
  "bitlen n = (if n = 0 then 0 else Suc (bitlen (n div 2)))"
  by pat_completeness auto
termination by (relation "measure id") auto

declare bitlen.simps [simp del]

text \<open>The conversion of an integer to a float with \<open>b\<close> bits of significand (24 for \<open>float32\<close>, 53 for
  \<open>float64\<close>); the exponent range is wide enough for every \<open>uint64\<close>.\<close>

definition fl :: "nat \<Rightarrow> nat \<Rightarrow> nat" where
  "fl b n = (let k = bitlen n - b in round_half_even n (2 ^ k) * 2 ^ k)"

text \<open>\<open>strconv.ParseFloat(_, 64)\<close> of the decimal number \<open>p / q\<close>: the significand and the exponent of
  the nearest \<open>float64\<close>, subnormal numbers included; \<open>None\<close> is the range error.\<close>

definition ParseFloat :: "nat \<Rightarrow> nat \<Rightarrow> (nat \<times> int) option" where
  "ParseFloat p q = (if p = 0 then Some (0, 0) else
     (let k1 = int (bitlen p) - int (bitlen q) - 53;
          k2 = (if p * 2 ^ nat (- (53 + k1)) < q * 2 ^ nat (53 + k1) then k1 else k1 + 1);
          k = max k2 (- 1074);
          m = round_half_even (p * 2 ^ nat (- k)) (q * 2 ^ nat k)
      in if 1024 < int (bitlen m) + k then None else Some (m, k)))"

section \<open>\<open>ByteSize\<close>\<close>

definition Kilobyte :: nat where "Kilobyte = 2 ^ 10"
definition Megabyte :: nat where "Megabyte = 2 ^ 20"
definition Gigabyte :: nat where "Gigabyte = 2 ^ 30"
definition Terabyte :: nat where "Terabyte = 2 ^ 40"

text \<open>\<open>fmt.Sprintf("%.1f", value)\<close> for the value \<open>v / u\<close>, where \<open>u\<close> is a power of two (so the
  division of the \<open>float32\<close> value is exact), followed by \<open>strings.TrimSuffix(_, ".0")\<close>.\<close>

definition format_tenths :: "nat \<Rightarrow> nat \<Rightarrow> string" where
  "format_tenths v u = (let t = round_half_even (10 * v) u in
     if t mod 10 = 0 then digits (t div 10) else digits (t div 10) @ ''.'' @ digits (t mod 10))"

definition ByteSize :: "uint64 \<Rightarrow> string" where
  "ByteSize bytes = (let n = unat bytes; value = fl 24 n in
     if Terabyte \<le> n then format_tenths value Terabyte @ ''T''
     else if Gigabyte \<le> n then format_tenths value Gigabyte @ ''G''
     else if Megabyte \<le> n then format_tenths value Megabyte @ ''M''
     else if Kilobyte \<le> n then format_tenths value Kilobyte @ ''K''
     else if 1 \<le> n then format_tenths value 1 @ ''B''
     else ''0'')"

section \<open>\<open>ToBytes\<close>\<close>

definition is_space :: "char \<Rightarrow> bool" where
  "is_space c \<longleftrightarrow> (let n = (of_char c :: nat) in n = 32 \<or> (9 \<le> n \<and> n \<le> 13))"

definition TrimSpace :: "string \<Rightarrow> string" where
  "TrimSpace s = rev (dropWhile is_space (rev (dropWhile is_space s)))"

text \<open>The unit group \<open>[KMGT]B?|B\<close> of the pattern, without regard to case: the exponent of its power
  of two.\<close>

definition unit_exponent :: "string \<Rightarrow> nat option" where
  "unit_exponent s = (let u = ToLower s in
     if u = ''t'' \<or> u = ''tb'' then Some 40
     else if u = ''g'' \<or> u = ''gb'' then Some 30
     else if u = ''m'' \<or> u = ''mb'' then Some 20
     else if u = ''k'' \<or> u = ''kb'' then Some 10
     else if u = ''b'' then Some 0
     else None)"

text \<open>The number group without its sign, as numerator and denominator, and what follows it.\<close>

definition number_group :: "string \<Rightarrow> (nat \<times> nat \<times> string) option" where
  "number_group s = (let ip = takeWhile is_digit_char s; r = dropWhile is_digit_char s in
     if ip = [] then None
     else (case r of
       [] \<Rightarrow> Some (digits_value ip, 1, r)
     | c # r' \<Rightarrow>
         (let fp = takeWhile is_digit_char r' in
          if c = CHR ''.'' \<and> fp \<noteq> [] then Some (digits_value (ip @ fp), 10 ^ length fp, dropWhile is_digit_char r')
          else Some (digits_value ip, 1, r))))"

text \<open>\<open>None\<close> is the one error value the function has, \<open>invalidByteQuantityError\<close>. A number with a
  minus sign is refused like zero. What Go makes of a product that does not fit \<open>uint64\<close> depends
  on the machine and is the parameter \<open>big\<close>.\<close>

definition ToBytes :: "uint64 \<Rightarrow> string \<Rightarrow> uint64 option" where
  "ToBytes big s0 = (let s = TrimSpace s0 in
     if HasPrefix s ''-'' then None
     else (case number_group s of
       None \<Rightarrow> None
     | Some (p, q, rest) \<Rightarrow> (case unit_exponent rest of
         None \<Rightarrow> None
       | Some u \<Rightarrow> (case ParseFloat p q of
           None \<Rightarrow> None
         | Some (m, k) \<Rightarrow>
             (if m = 0 then None
              else (let v = (m * 2 ^ nat (k + int u)) div 2 ^ nat (- (k + int u))
                    in Some (if v < 2 ^ 64 then of_nat v else big)))))))"

definition ToMegabytes :: "uint64 \<Rightarrow> string \<Rightarrow> uint64 option" where
  "ToMegabytes big s = (case ToBytes big s of None \<Rightarrow> None | Some b \<Rightarrow> Some (b div of_nat Megabyte))"

section \<open>Lemmas\<close>

lemma round_half_even_mult [simp]: "0 < q \<Longrightarrow> round_half_even (d * q) q = d"
  by (simp add: round_half_even_def)

lemma round_half_even_one [simp]: "round_half_even n 1 = n" "round_half_even n (Suc 0) = n"
  by (simp_all add: round_half_even_def)

lemma bitlen_bounds: "0 < n \<Longrightarrow> 2 ^ (bitlen n - 1) \<le> n \<and> n < 2 ^ bitlen n"
proof (induction n rule: bitlen.induct)
  case (1 n)
  show ?case
  proof (cases "n div 2 = 0")
    case True
    with "1.prems" have "n = 1" by simp
    then show ?thesis by (simp add: bitlen.simps)
  next
    case False
    with 1 have IH: "2 ^ (bitlen (n div 2) - 1) \<le> n div 2" "n div 2 < 2 ^ bitlen (n div 2)" by auto
    from False obtain m where m: "bitlen (n div 2) = Suc m"
      by (simp add: bitlen.simps)
    have "bitlen n = Suc (Suc m)" using "1.prems" m by (simp add: bitlen.simps)
    moreover have "2 ^ m \<le> n div 2" "n div 2 < 2 * 2 ^ m" using IH m by simp_all
    then have "2 * 2 ^ m \<le> n" "n < 4 * 2 ^ m" by linarith+
    ultimately show ?thesis by simp
  qed
qed

lemma bitlen_le_iff: "bitlen n \<le> b \<longleftrightarrow> n < 2 ^ b"
proof (cases "n = 0")
  case False
  then have b: "2 ^ (bitlen n - 1) \<le> n" "n < 2 ^ bitlen n" using bitlen_bounds by auto
  have pos: "0 < bitlen n" using False by (simp add: bitlen.simps)
  show ?thesis
  proof
    assume "bitlen n \<le> b"
    then have "(2 :: nat) ^ bitlen n \<le> 2 ^ b" by simp
    with b(2) show "n < 2 ^ b" by linarith
  next
    assume "n < 2 ^ b"
    with b(1) have "(2 :: nat) ^ (bitlen n - 1) < 2 ^ b" by linarith
    then have "bitlen n - 1 < b" by simp
    with pos show "bitlen n \<le> b" by simp
  qed
qed (simp add: bitlen.simps)

text \<open>Integers that fit the significand are not changed.\<close>

lemma fl_exact: "n < 2 ^ b \<Longrightarrow> fl b n = n"
  using bitlen_le_iff [of n b] by (simp add: fl_def Let_def)

lemma ParseFloat_integer:
  assumes "0 < p" "p < 2 ^ 53"
  shows "ParseFloat p 1 = Some (p * 2 ^ (53 - bitlen p), int (bitlen p) - 53)"
proof -
  have len: "bitlen p \<le> 53" using assms(2) by (simp add: bitlen_le_iff)
  have one: "bitlen (Suc 0) = 1" by (simp add: bitlen.simps)
  have "0 < bitlen p" using assms(1) by (simp add: bitlen.simps)
  then have ge: "\<not> p < 2 ^ nat (int (bitlen p) - 1)"
    using bitlen_bounds [OF assms(1)] by (simp add: nat_diff_distrib' not_less)
  have "p * 2 ^ (53 - bitlen p) < 2 ^ bitlen p * 2 ^ (53 - bitlen p)"
    using bitlen_bounds [OF assms(1)] by simp
  also have "\<dots> = 2 ^ 53" using len by (simp flip: power_add)
  finally have "bitlen (p * 2 ^ (53 - bitlen p)) \<le> 53" by (simp only: bitlen_le_iff)
  moreover have "nat (53 - int (bitlen p)) = 53 - bitlen p" using len by simp
  ultimately show ?thesis
    using len ge \<open>0 < bitlen p\<close> assms(1) by (auto simp: ParseFloat_def one Let_def max_def)
qed

lemma digits_all_digit [simp]: "list_all is_digit_char (digits n)"
  using digits_digit by (auto simp: list_all_iff is_digit_char_def)

lemma number_group_digits:
  assumes "r \<noteq> [] \<Longrightarrow> \<not> is_digit_char (hd r) \<and> hd r \<noteq> CHR ''.''"
  shows "number_group (digits n @ r) = Some (n, 1, r)"
proof -
  have all: "\<And>c. c \<in> set (digits n) \<Longrightarrow> is_digit_char c"
    using digits_all_digit by (auto simp: list_all_iff)
  then have tw: "takeWhile is_digit_char (digits n @ r) = digits n"
    and dw: "dropWhile is_digit_char (digits n @ r) = r"
    using assms by (cases r; auto simp: takeWhile_append dropWhile_append)+
  show ?thesis
    unfolding number_group_def tw dw Let_def using assms by (cases r) simp_all
qed

lemma fl_multiple:
  assumes "k < 2 ^ b"
  shows "fl b (k * 2 ^ e) = k * 2 ^ e"
proof (cases "k = 0")
  case False
  have "k * 2 ^ e < 2 ^ (b + e)"
    using assms by (simp add: power_add)
  then have "bitlen (k * 2 ^ e) \<le> b + e" by (simp only: bitlen_le_iff)
  then obtain d where d: "e = (bitlen (k * 2 ^ e) - b) + d"
    by (metis add_le_cancel_left le_Suc_ex le_diff_conv add.commute)
  define kk where "kk = bitlen (k * 2 ^ e) - b"
  have "round_half_even (k * 2 ^ e) (2 ^ kk) = k * 2 ^ d"
    using round_half_even_mult [of "2 ^ kk" "k * 2 ^ d"] d
    by (simp add: kk_def [symmetric] power_add mult_ac)
  moreover have "2 ^ e = 2 ^ kk * (2 :: nat) ^ d"
    using d by (simp add: kk_def [symmetric] power_add)
  ultimately show ?thesis
    unfolding fl_def Let_def kk_def [symmetric] by (simp only: mult_ac)
qed (simp add: fl_def bitlen.simps round_half_even_def)

lemma format_tenths_multiple: "0 < u \<Longrightarrow> format_tenths (k * u) u = digits k"
  using round_half_even_mult [of u "10 * k"] by (simp add: format_tenths_def mult_ac)

text \<open>The units \<open>ByteSize\<close> prints, by their exponent.\<close>

definition unit_letter :: "nat \<Rightarrow> string" where
  "unit_letter e = (if e = 40 then ''T'' else if e = 30 then ''G'' else if e = 20 then ''M''
     else if e = 10 then ''K'' else ''B'')"

lemma digits_one: "digits (Suc 0) = ''1''" "digits 1 = ''1''"
  by code_simp+

lemma unit_exponent_letter:
  "unit_exponent ''T'' = Some 40" "unit_exponent ''G'' = Some 30" "unit_exponent ''M'' = Some 20"
  "unit_exponent ''K'' = Some 10" "unit_exponent ''B'' = Some 0"
  by code_simp+

lemma ByteSize_multiple:
  assumes "0 < k" "k < 1024" "e \<in> {0, 10, 20, 30, 40}"
  shows "ByteSize (of_nat (k * 2 ^ e)) = digits k @ unit_letter e"
proof -
  have "e \<le> 40" using assms(3) by auto
  then have "k * 2 ^ e < 1024 * 2 ^ 40"
    using assms(2) by (intro mult_less_le_imp_less power_increasing) auto
  then have n: "unat (of_nat (k * 2 ^ e) :: uint64) = k * 2 ^ e"
    by (intro unat_of_nat_uint64) simp
  have f: "fl 24 (k * 2 ^ e) = k * 2 ^ e"
    using assms(2) by (intro fl_multiple) simp
  show ?thesis
    unfolding ByteSize_def Let_def n f
    using assms format_tenths_multiple [of "2 ^ e" k] format_tenths_multiple [of 1 k]
    by (auto simp: Kilobyte_def Megabyte_def Gigabyte_def Terabyte_def unit_letter_def)
qed

lemma TrimSpace_digits:
  assumes "u \<noteq> []" "list_all (\<lambda>c. \<not> is_space c) u"
  shows "TrimSpace (digits n @ u) = digits n @ u"
proof -
  have ns: "\<not> is_space c" if "c \<in> set (digits n)" for c
    using digits_digit [OF that] by (auto simp: is_space_def Let_def)
  have "\<not> is_space (hd (digits n))" using ns [of "hd (digits n)"] by simp
  then have "dropWhile is_space (digits n @ u) = digits n @ u"
    by (cases "digits n") auto
  moreover have "\<not> is_space (last u)" using assms by (simp add: list_all_iff)
  then have "dropWhile is_space (rev u) = rev u"
    using assms(1) by (cases u rule: rev_cases) auto
  then have "dropWhile is_space (rev u @ rev (digits n)) = rev u @ rev (digits n)"
    using assms(1) by (metis dropWhile_append3 dropWhile_eq_self_iff hd_append rev_is_Nil_conv)
  ultimately show ?thesis
    by (simp add: TrimSpace_def)
qed

lemma ToBytes_ByteSize_multiple:
  assumes "0 < k" "k < 1024" "e \<in> {0, 10, 20, 30, 40}"
  shows "ToBytes big (ByteSize (of_nat (k * 2 ^ e))) = Some (of_nat (k * 2 ^ e))"
proof -
  have len: "bitlen k \<le> 53" using assms(2) by (simp add: bitlen_le_iff)
  have u: "unit_letter e \<noteq> []" "list_all (\<lambda>c. \<not> is_space c) (unit_letter e)"
    "\<not> is_digit_char (hd (unit_letter e))" "hd (unit_letter e) \<noteq> CHR ''.''"
    "unit_exponent (unit_letter e) = Some e"
    using assms(3) by (auto simp: unit_letter_def is_space_def is_digit_char_def unit_exponent_letter)
  have sign: "\<not> HasPrefix (digits k @ unit_letter e) ''-''"
    using digits_digit [of "hd (digits k)" k] by (cases "digits k") (auto simp: HasPrefix_iff)
  have "e \<le> 40" using assms(3) by auto
  then have small: "k * 2 ^ e < 1024 * 2 ^ 40"
    using assms(2) by (intro mult_less_le_imp_less power_increasing) auto
  define d where "d = 53 - bitlen k"
  have val: "(k * 2 ^ d * 2 ^ nat (int e - int d)) div 2 ^ nat (int d - int e) = k * 2 ^ e"
  proof (cases "d \<le> e")
    case True
    then show ?thesis by (simp flip: of_nat_diff power_add add: mult.assoc)
  next
    case False
    then have "(2 :: nat) ^ d = 2 ^ e * 2 ^ (d - e)" by (simp flip: power_add)
    with False show ?thesis by (simp flip: of_nat_diff add: mult.assoc)
  qed
  have "ParseFloat k 1 = Some (k * 2 ^ d, - int d)"
    using ParseFloat_integer [of k] assms len by (simp add: d_def of_nat_diff)
  with assms(1) u sign small val show ?thesis
    unfolding ByteSize_multiple [OF assms] ToBytes_def Let_def TrimSpace_digits [OF u(1,2)]
    by (simp add: number_group_digits)
qed

text \<open>What the controller prints, the funclet reads back. For a whole number of bytes, kilobytes,
  megabytes, gigabytes or terabytes below 1024, \<open>ToBytes(ByteSize(n))\<close> succeeds and is \<open>n\<close>.\<close>

theorem ByteSize_ToBytes:
  assumes "0 < k" "k < 1024" "e \<in> {0, 10, 20, 30, 40}"
  shows "ToBytes big (ByteSize (of_nat (k * 2 ^ e))) = Some (of_nat (k * 2 ^ e))"
  using assms by (rule ToBytes_ByteSize_multiple)

theorem ByteSize_ToBytes_witness:
  "ToBytes 0 (ByteSize (of_nat (128 * 2 ^ 20))) = Some (of_nat (128 * 2 ^ 20))"
  using ByteSize_ToBytes [of 128 20 0] by simp

text \<open>The text keeps one decimal only, so memory is lost on the way between the two processes: for
  1056 megabytes the controller writes \<open>1G\<close>, from which the funclet reads 1024 megabytes.\<close>

theorem ByteSize_loses_memory:
  "ByteSize (of_nat (1056 * Megabyte)) = ''1G'' \<and>
   ToBytes big (ByteSize (of_nat (1056 * Megabyte))) = Some (of_nat (1024 * Megabyte))"
proof -
  have "unat (of_nat (1056 * Megabyte) :: uint64) = 1056 * Megabyte"
    by (intro unat_of_nat_uint64) (simp add: Megabyte_def)
  moreover have "fl 24 (1056 * Megabyte) = 1056 * Megabyte"
    using fl_multiple [of 1056 24 20] by (simp add: Megabyte_def)
  moreover have "format_tenths (1056 * Megabyte) Gigabyte = ''1''"
    by (simp add: format_tenths_def round_half_even_def Megabyte_def Gigabyte_def digits_one)
  ultimately have "ByteSize (of_nat (1056 * Megabyte)) = ''1G''"
    by (simp add: ByteSize_def Megabyte_def Gigabyte_def Terabyte_def)
  moreover have "ByteSize (of_nat (1 * 2 ^ 30)) = ''1G''"
    using ByteSize_multiple [of 1 30] by (simp add: unit_letter_def digits_one)
  then have "ToBytes big ''1G'' = Some (of_nat (1 * 2 ^ 30))"
    using ToBytes_ByteSize_multiple [of 1 30 big] by simp
  ultimately show ?thesis by (simp add: Megabyte_def)
qed

end
