(* ===== verification/RtManager.thy ===== *)
theory RtManager
  imports RtEvents Bytefmt
begin

text \<open>
  The runtime manager (\<open>src/pkg/controller/rtctrl/runtime_dispatcher.go\<close>): the table of the node's
  runtimes, the node's resource counters, and the operations that hand runtimes to invocations and
  take them back. A runtime is addressed by its index in \<open>rtArray\<close>; the resource objects live in
  \<open>heap\<close>. Each operation reads the clock once, as \<open>now\<close>, and runs without interference; what two
  interleaved calls of \<open>checkAndMarkResource\<close> do is stated separately, over its two critical sections.
\<close>

section \<open>State\<close>

record RuntimeManagerParameters =
  MaxRuntimeIdle_mp :: int64
  MaxRunnerDefunct_mp :: int64
  MaxRunnerResetTimeout_mp :: int64

record RuntimeManager =
  MaxRuntimeIdle :: int64
  MaxRunnerDefunct :: int64
  MaxRunnerResetTimeout :: int64
  rtMap :: "string \<rightharpoonup> nat"
  rtArray :: "RuntimeInfo list"
  resource :: ServiceResource
  heap :: res_heap

record InvocationInput =
  Runtime_ii :: "nat option"
  ExternalRequestID_ii :: string
  RequestID_ii :: string
  Configuration_ii :: FunctionConfiguration
  WithStreamMode_ii :: bool
  EnableMetrics_ii :: bool
  IsLogTail_ii :: bool
  InvokeType_ii :: string
  TriggerType_ii :: string

text \<open>A resource object that came with the funclet's answer, put into the store.\<close>

fun adopt :: "res_heap \<Rightarrow> Resource option \<Rightarrow> res_heap \<times> res_ptr" where
  "adopt h None = (h, None)"
| "adopt h (Some r) = new_cell h r"

definition NewRuntimeManager :: "res_heap \<Rightarrow> FuncletResource \<Rightarrow> RuntimeManagerParameters \<Rightarrow> RuntimeManager" where
  "NewRuntimeManager h r params =
     (let (h1, capacity) = adopt h (Capacity_fr r);
          (h2, allocatable) = adopt h1 (Allocatable_fr r);
          (h3, default) = adopt h2 (Default_fr r);
          (h4, marked) = new_cell h3 NewResource;
          (h5, used) = new_cell h4 NewResource
      in \<lparr>MaxRuntimeIdle = MaxRuntimeIdle_mp params, MaxRunnerDefunct = MaxRunnerDefunct_mp params,
          MaxRunnerResetTimeout = MaxRunnerResetTimeout_mp params, rtMap = Map.empty, rtArray = [],
          resource = \<lparr>Capacity = capacity, Allocatable = allocatable, Used_sr = used, Marked_sr = marked,
            Default = default, BaseMemory = BaseMemory_fr r\<rparr>,
          heap = h5\<rparr>)"

section \<open>The table of runtimes\<close>

definition RuntimeList :: "RuntimeManager \<Rightarrow> RuntimeInfo list" where
  "RuntimeList m = rtArray m"

definition NewRuntime :: "instant \<Rightarrow> NewRuntimeParameters \<Rightarrow> RuntimeManager \<Rightarrow> nat option \<times> RuntimeManager" where
  "NewRuntime now params m =
     (let r0 = NewRuntimeInfo now params;
          r = (if Resource r0 = None then r0\<lparr>Resource := Default (resource m)\<rparr> else r0)
      in case rtMap m (RuntimeID_np params) of
           Some _ \<Rightarrow> (None, m)
         | None \<Rightarrow> (Some (length (rtArray m)),
             m\<lparr>rtMap := (rtMap m)(RuntimeID_np params \<mapsto> length (rtArray m)), rtArray := rtArray m @ [r]\<rparr>))"

definition GetRuntime :: "string \<Rightarrow> RuntimeManager \<Rightarrow> rt_error + nat" where
  "GetRuntime runtimeID m = (case rtMap m runtimeID of
     None \<Rightarrow> Inl (RuntimeNotExist runtimeID)
   | Some i \<Rightarrow> Inr i)"

definition DelRuntime :: "string \<Rightarrow> RuntimeManager \<Rightarrow> RuntimeManager" where
  "DelRuntime runtimeID m = m\<lparr>rtMap := (rtMap m)(runtimeID := None)\<rparr>"

fun count_states :: "RuntimeInfo list \<Rightarrow> int \<times> int \<times> int \<Rightarrow> int \<times> int \<times> int" where
  "count_states [] (cold, inUse, all) = (cold, inUse, all)"
| "count_states (rt # rts) (cold, inUse, all) = count_states rts
     (if State rt = RuntimeStateCold then (cold + 1, inUse, all + 1)
      else if State rt = RuntimeStateWarmUp \<or> State rt = RuntimeStateWarm then (cold, inUse + 1, all + 1)
      else if State rt = RuntimeStateMerged \<or> State rt = RuntimeStateReclaiming then (cold, inUse, all)
      else (cold, inUse, all + 1))"

definition RuntimeStatistics :: "RuntimeManager \<Rightarrow> int \<times> int \<times> int" where
  "RuntimeStatistics m = count_states (RuntimeList m) (0, 0, 0)"

definition ResourceStatistics :: "RuntimeManager \<Rightarrow> ServiceResourceValue" where
  "ResourceStatistics m = ServiceResource_Copy (heap m) (resource m)"

section \<open>The resource counters\<close>

definition isNeedScale :: "uint64 \<Rightarrow> RuntimeManager \<Rightarrow> bool" where
  "isNeedScale memory m \<longleftrightarrow> BaseMemory (resource m) < memory"

definition functionMemorySizeToBytes :: "int64 \<Rightarrow> uint64" where
  "functionMemorySizeToBytes memSize = uint64_of memSize * of_nat Megabyte"

text \<open>An unsigned division; zero panics.\<close>

definition quotient :: "uint64 \<Rightarrow> uint64 \<Rightarrow> uint64 outcome" where
  "quotient a b = (if b = 0 then Panic ''integer divide by zero'' else Value (a div b))"

definition getMilliCPUsByMemory :: "uint64 \<Rightarrow> RuntimeManager \<Rightarrow> int64 outcome" where
  "getMilliCPUsByMemory memory m =
     obind (quotient memory (BaseMemory (resource m))) (\<lambda>q.
     obind (deref (heap m) (Default (resource m))) (\<lambda>d.
       Value (i64 (int64_of q * MilliCPUs d))))"

text \<open>\<open>int(math.Ceil(float64(mem/base)) - 1)\<close>: the division is the integer division, so \<open>math.Ceil\<close>
  has nothing to round up. A quotient of \<open>2^63\<close> and more is not a count the loop can reach, however
  the machine converts it.\<close>

definition scale_count :: "uint64 \<Rightarrow> uint64 \<Rightarrow> int outcome" where
  "scale_count mem base = obind (quotient mem base) (\<lambda>q.
     let v = fl 53 (unat q) in Value (if v = 0 then - 1 else int (fl 53 (v - 1))))"

text \<open>The two critical sections of \<open>checkAndMarkResource\<close>: the test under the read lock and the
  addition under the write lock.\<close>

definition check_resource :: "int64 \<Rightarrow> RuntimeManager \<Rightarrow> bool outcome" where
  "check_resource memBytes m =
     obind (deref (heap m) (Allocatable (resource m))) (\<lambda>a.
     obind (deref (heap m) (Marked_sr (resource m))) (\<lambda>k.
       Value (\<not> i64 (i64 (Memory a - Memory k) - memBytes) < 0)))"

definition mark_resource :: "int64 \<Rightarrow> RuntimeManager \<Rightarrow> RuntimeManager outcome" where
  "mark_resource memBytes m =
     obind (deref (heap m) (Marked_sr (resource m))) (\<lambda>k.
     obind (store (heap m) (Marked_sr (resource m)) (k\<lparr>Memory := i64 (Memory k + memBytes)\<rparr>)) (\<lambda>h.
       Value (m\<lparr>heap := h\<rparr>)))"

definition checkAndMarkResource :: "int64 \<Rightarrow> RuntimeManager \<Rightarrow> (bool \<times> RuntimeManager) outcome" where
  "checkAndMarkResource memBytes m =
     obind (check_resource memBytes m) (\<lambda>ok.
       if \<not> ok then Value (False, m)
       else obind (mark_resource memBytes m) (\<lambda>m'. Value (True, m')))"

definition IncreaseUsedResource :: "Resource \<Rightarrow> RuntimeManager \<Rightarrow> (bool \<times> RuntimeManager) outcome" where
  "IncreaseUsedResource rs m =
     obind (deref (heap m) (Used_sr (resource m))) (\<lambda>u.
     obind (store (heap m) (Used_sr (resource m))
              (u\<lparr>Memory := i64 (Memory u + Memory rs), MilliCPUs := i64 (MilliCPUs u + MilliCPUs rs)\<rparr>)) (\<lambda>h.
       Value (True, m\<lparr>heap := h\<rparr>)))"

definition ReleaseUsedResource :: "Resource \<Rightarrow> RuntimeManager \<Rightarrow> (bool \<times> RuntimeManager) outcome" where
  "ReleaseUsedResource rs m =
     obind (deref (heap m) (Used_sr (resource m))) (\<lambda>u.
     obind (store (heap m) (Used_sr (resource m))
              (u\<lparr>Memory := i64 (Memory u - Memory rs), MilliCPUs := i64 (MilliCPUs u - MilliCPUs rs)\<rparr>)) (\<lambda>h.
       Value (True, m\<lparr>heap := h\<rparr>)))"

definition ReleaseMarkedResource :: "Resource \<Rightarrow> RuntimeManager \<Rightarrow> (bool \<times> RuntimeManager) outcome" where
  "ReleaseMarkedResource rs m =
     obind (deref (heap m) (Marked_sr (resource m))) (\<lambda>k.
     obind (store (heap m) (Marked_sr (resource m)) (k\<lparr>Memory := i64 (Memory k - Memory rs)\<rparr>)) (\<lambda>h.
       Value (True, m\<lparr>heap := h\<rparr>)))"

definition SyncResource :: "FuncletResource \<Rightarrow> RuntimeManager \<Rightarrow> (bool \<times> RuntimeManager) outcome" where
  "SyncResource rs m =
     obind (deref_field (Allocatable_fr rs)) (\<lambda>a.
     obind (deref (heap m) (Used_sr (resource m))) (\<lambda>u.
       if Memory a < Memory u then Value (False, m)
       else (let h1 = Sync (heap m) (Capacity (resource m)) (Capacity_fr rs);
                 h2 = Sync h1 (Allocatable (resource m)) (Allocatable_fr rs);
                 h3 = Sync h2 (Default (resource m)) (Default_fr rs)
             in Value (True, m\<lparr>heap := h3, resource := (resource m)\<lparr>BaseMemory := BaseMemory_fr rs\<rparr>\<rparr>))))"

definition SyncRuntimeResource ::
    "string \<Rightarrow> Resource option \<Rightarrow> RuntimeManager \<Rightarrow> (rt_error + bool) \<times> RuntimeManager" where
  "SyncRuntimeResource ID rs m = (case GetRuntime ID m of
     Inl _ \<Rightarrow> (Inl (RuntimeNotExist ID), m)
   | Inr i \<Rightarrow>
       (let info = rtArray m ! i in
        if Used info \<or> Marked info then (Inl (RuntimeSyncError ID ''runtime in used''), m)
        else (Inr True, m\<lparr>heap := Sync (heap m) (Resource info) rs\<rparr>)))"

section \<open>Search loops\<close>

text \<open>\<open>for _, rt := range m.rtArray\<close> with a \<open>CAS\<close> in the body: up to the first success, or up to
  \<open>n\<close> successes. The results are the indices of the runtimes that were changed.\<close>

fun cas_first :: "CASOpType \<Rightarrow> cas_args \<Rightarrow> instant \<Rightarrow> res_heap \<Rightarrow> RuntimeInfo list \<Rightarrow>
    (nat option \<times> res_heap \<times> RuntimeInfo list) outcome" where
  "cas_first op args now h [] = Value (None, h, [])"
| "cas_first op args now h (rt # rts) =
     obind (CAS op args now h rt) (\<lambda>r. case r of
       Inr (h', rt') \<Rightarrow> Value (Some 0, h', rt' # rts)
     | Inl _ \<Rightarrow> obind (cas_first op args now h rts) (\<lambda>(i, h', rts').
         Value (map_option Suc i, h', rt # rts')))"

fun cas_collect :: "(RuntimeInfo \<Rightarrow> bool) \<Rightarrow> CASOpType \<Rightarrow> cas_args \<Rightarrow> instant \<Rightarrow> int \<Rightarrow> res_heap \<Rightarrow> RuntimeInfo list \<Rightarrow>
    (nat list \<times> res_heap \<times> RuntimeInfo list) outcome" where
  "cas_collect skip op args now n h [] = Value ([], h, [])"
| "cas_collect skip op args now n h (rt # rts) =
     (if n = 0 then Value ([], h, rt # rts)
      else if skip rt then
        obind (cas_collect skip op args now n h rts) (\<lambda>(is, h', rts'). Value (map Suc is, h', rt # rts'))
      else obind (CAS op args now h rt) (\<lambda>r. case r of
        Inr (h1, rt') \<Rightarrow> obind (cas_collect skip op args now (n - 1) h1 rts) (\<lambda>(is, h', rts').
          Value (0 # map Suc is, h', rt' # rts'))
      | Inl _ \<Rightarrow> obind (cas_collect skip op args now n h rts) (\<lambda>(is, h', rts').
          Value (map Suc is, h', rt # rts'))))"

section \<open>Handing out cold runtimes\<close>

definition rollbackRuntime :: "instant \<Rightarrow> string \<Rightarrow> nat \<Rightarrow> RuntimeManager \<Rightarrow> RuntimeManager outcome" where
  "rollbackRuntime now commitID i m =
     obind (CAS OpRollback (RollbackArgs \<lparr>CommitID_ri = commitID\<rparr>) now (heap m) (rtArray m ! i)) (\<lambda>r. case r of
       Inl _ \<Rightarrow> Value m
     | Inr (h, rt) \<Rightarrow> Value (m\<lparr>heap := h, rtArray := (rtArray m)[i := rt]\<rparr>))"

text \<open>The deferred rollbacks, in the order Go runs them.\<close>

fun rollback_all :: "instant \<Rightarrow> string \<Rightarrow> nat list \<Rightarrow> RuntimeManager \<Rightarrow> RuntimeManager outcome" where
  "rollback_all now commitID [] m = Value m"
| "rollback_all now commitID (i # is) m =
     obind (rollbackRuntime now commitID i m) (\<lambda>m'. rollback_all now commitID is m')"

type_synonym occupy_result = "((nat option \<times> ScaleUpRecommendation option) \<times> RuntimeManager) outcome"

definition occupyColdWithScaleUpRecommendation ::
    "instant \<Rightarrow> uint64 \<Rightarrow> OccupyInput \<Rightarrow> RuntimeManager \<Rightarrow> occupy_result" where
  "occupyColdWithScaleUpRecommendation now memBytes input0 m =
     obind (getMilliCPUsByMemory (MemorySize_oi input0) m) (\<lambda>cpus.
     let input = input0\<lparr>MilliCPUs_oi := cpus\<rparr> in
     obind (cas_first OpOccupy (OccupyArgs input) now (heap m) (rtArray m)) (\<lambda>(ri, h, rts).
     let m1 = m\<lparr>heap := h, rtArray := rts\<rparr> in
     case ri of
       None \<Rightarrow> Value ((None, None), m1)
     | Some i \<Rightarrow>
         obind (scale_count memBytes (BaseMemory (resource m1))) (\<lambda>scaleCount.
         obind (cas_collect (\<lambda>_. False) OpMerged (MergedArgs \<lparr>CommitID_mi = CommitID_oi input\<rparr>) now scaleCount
                  (heap m1) (rtArray m1)) (\<lambda>(is, h2, rts2).
         let m2 = m1\<lparr>heap := h2, rtArray := rts2\<rparr> in
         if int (length is) = scaleCount
         then Value ((Some i, Some \<lparr>TargetMemory = ByteSize memBytes, TargetContainer_up = RuntimeID (rts2 ! i),
                MergedContainers = map (\<lambda>j. RuntimeID (rts2 ! j)) is\<rparr>), m2)
         else obind (rollback_all now (CommitID_oi input) (rev is @ [i]) m2) (\<lambda>m3.
                Value ((None, None), m3))))))"

definition OccupyColdRuntime :: "instant \<Rightarrow> InvocationInput \<Rightarrow> RuntimeManager \<Rightarrow> occupy_result" where
  "OccupyColdRuntime now req m =
     obind (deref_field (MemorySize_fc (Configuration_ii req))) (\<lambda>memSize.
     let memBytes = functionMemorySizeToBytes memSize in
     obind (checkAndMarkResource (int64_of memBytes) m) (\<lambda>(ok, m1).
     if \<not> ok then Value ((None, None), m1)
     else
       obind (deref_field (CommitID_fc (Configuration_ii req))) (\<lambda>commit.
       obind (deref (heap m1) (Default (resource m1))) (\<lambda>d.
       let input = \<lparr>CommitID_oi = commit, WithStreamMode_oi = WithStreamMode_ii req,
                    MemorySize_oi = memBytes, MilliCPUs_oi = MilliCPUs d\<rparr> in
       obind (if \<not> isNeedScale memBytes m1
              then obind (cas_first OpOccupy (OccupyArgs input) now (heap m1) (rtArray m1)) (\<lambda>(ri, h, rts).
                     Value ((ri, None), m1\<lparr>heap := h, rtArray := rts\<rparr>))
              else occupyColdWithScaleUpRecommendation now memBytes input m1) (\<lambda>((ri, recommend), m2).
       if ri = None
       then obind (ReleaseMarkedResource \<lparr>MilliCPUs = 0, Memory = int64_of memBytes\<rparr> m2) (\<lambda>(_, m3).
              Value ((ri, recommend), m3))
       else Value ((ri, recommend), m2))))))"

section \<open>Warm runtimes, cool down and reset\<close>

definition FindWarmRuntime :: "instant \<Rightarrow> InvocationInput \<Rightarrow> RuntimeManager \<Rightarrow> (nat option \<times> RuntimeManager) outcome" where
  "FindWarmRuntime now req m =
     obind (deref_field (CommitID_fc (Configuration_ii req))) (\<lambda>commit.
     obind (cas_first OpMark (MarkArgs \<lparr>CommitID_ki = commit,
              ConcurrentQuota = PodConcurrentQuota_fc (Configuration_ii req)\<rparr>) now (heap m) (rtArray m)) (\<lambda>(ri, h, rts).
       Value (ri, m\<lparr>heap := h, rtArray := rts\<rparr>)))"

text \<open>\<open>time.Now().Add(-time.Duration(n) * time.Second)\<close>.\<close>

definition deadline_before :: "instant \<Rightarrow> int64 \<Rightarrow> instant" where
  "deadline_before now n = now + i64 (i64 (- n) * 1000000000)"

type_synonym scale_down_result = "(ScaleDownRecommendation option \<times> RuntimeManager) outcome"

text \<open>The target runtime is never nil here, so the function returns a nil error.\<close>

definition occupyWithScaleDownRecommendation :: "instant \<Rightarrow> nat \<Rightarrow> uint64 \<Rightarrow> RuntimeManager \<Rightarrow> scale_down_result" where
  "occupyWithScaleDownRecommendation now target memBytes m =
     (let deadline = deadline_before now (MaxRunnerResetTimeout m);
          excludeID = RuntimeID (rtArray m ! target)
      in obind (scale_count memBytes (BaseMemory (resource m))) (\<lambda>scaleCount.
         obind (cas_collect (\<lambda>rt. RuntimeID rt = excludeID) OpRetrieve (RetrieveArgs \<lparr>Deadline_ti = deadline\<rparr>) now
                  scaleCount (heap m) (rtArray m)) (\<lambda>(is, h, rts).
         let m' = m\<lparr>heap := h, rtArray := rts\<rparr> in
         if int (length is) = scaleCount
         then Value (Some \<lparr>TargetContainer_down = excludeID,
                ResetContainers = map (\<lambda>j. RuntimeID (rts ! j)) is\<rparr>, m')
         else Value (None, m'))))"

definition scale_down_after :: "CASOpType \<Rightarrow> cas_args \<Rightarrow> instant \<Rightarrow> nat \<Rightarrow> RuntimeManager \<Rightarrow>
    ((rt_error + ScaleDownRecommendation option) \<times> RuntimeManager) outcome" where
  "scale_down_after op args now i m =
     obind (CAS op args now (heap m) (rtArray m ! i)) (\<lambda>r. case r of
       Inl e \<Rightarrow> Value (Inl e, m)
     | Inr (h, rt) \<Rightarrow>
         (let m1 = m\<lparr>heap := h, rtArray := (rtArray m)[i := rt]\<rparr> in
          obind (deref h (Resource rt)) (\<lambda>res.
          let mem = uint64_of (Memory res) in
          if \<not> isNeedScale mem m1 then Value (Inr None, m1)
          else obind (occupyWithScaleDownRecommendation now i mem m1) (\<lambda>(recommend, m2).
                 Value (Inr recommend, m2)))))"

definition CoolDownRuntime :: "instant \<Rightarrow> nat \<Rightarrow> RuntimeManager \<Rightarrow>
    ((rt_error + ScaleDownRecommendation option) \<times> RuntimeManager) outcome" where
  "CoolDownRuntime now i m =
     scale_down_after OpStop (StopArgs \<lparr>Deadline_si = deadline_before now (MaxRuntimeIdle m)\<rparr>) now i m"

definition ResetRuntime :: "instant \<Rightarrow> nat \<Rightarrow> RuntimeManager \<Rightarrow>
    ((rt_error + ScaleDownRecommendation option) \<times> RuntimeManager) outcome" where
  "ResetRuntime now i m =
     scale_down_after OpReset (ResetArgs \<lparr>Deadline_ei = deadline_before now (MaxRunnerDefunct m)\<rparr>) now i m"

section \<open>The search loops, characterised\<close>

lemma cas_first_cases:
  assumes "cas_first op args now h rts = Value (ri, h', rts')"
  obtains
    (none) "ri = None" "h' = h" "rts' = rts" "\<forall>rt \<in> set rts. \<exists>e. CAS op args now h rt = Value (Inl e)"
  | (found) i rt' where "ri = Some i" "i < length rts" "rts' = rts[i := rt']"
      "CAS op args now h (rts ! i) = Value (Inr (h', rt'))"
      "\<forall>j < i. \<exists>e. CAS op args now h (rts ! j) = Value (Inl e)"
  using assms
proof (induction rts arbitrary: ri rts' thesis)
  case Nil
  then show ?case by auto
next
  case (Cons rt rts)
  from Cons.prems(3) obtain r where r: "CAS op args now h rt = Value r"
    by (auto simp: outcome_simps)
  show ?case
  proof (cases r)
    case (Inl e)
    with r Cons.prems(3) obtain ri1 rts1 where rec: "cas_first op args now h rts = Value (ri1, h', rts1)"
        and ri: "ri = map_option Suc ri1" "rts' = rt # rts1"
      by (auto simp: outcome_simps)
    show ?thesis
    proof (rule Cons.IH [OF _ _ rec])
      assume "ri1 = None" "h' = h" "rts1 = rts" "\<forall>rt\<in>set rts. \<exists>e. CAS op args now h rt = Value (Inl e)"
      with r Inl ri show ?thesis by (intro Cons.prems(1)) auto
    next
      fix i rt'
      assume a: "ri1 = Some i" "i < length rts" "rts1 = rts[i := rt']"
        "CAS op args now h (rts ! i) = Value (Inr (h', rt'))"
        "\<forall>j<i. \<exists>e. CAS op args now h (rts ! j) = Value (Inl e)"
      show ?thesis
      proof (rule Cons.prems(2) [of "Suc i" rt'])
        show "\<forall>j<Suc i. \<exists>e. CAS op args now h ((rt # rts) ! j) = Value (Inl e)"
          using a(5) r Inl by (auto simp: nth_Cons split: nat.splits)
      qed (use a ri in simp_all)
    qed
  next
    case (Inr p)
    with r Cons.prems(3) show ?thesis
      by (cases p) (auto simp: outcome_simps intro: Cons.prems(2) [of 0])
  qed
qed

text \<open>The events that touch no resource object leave the store as it is, so the outcome of \<open>cas_collect\<close>
  is described runtime by runtime.\<close>

definition collected :: "(RuntimeInfo \<Rightarrow> bool) \<Rightarrow> CASOpType \<Rightarrow> cas_args \<Rightarrow> instant \<Rightarrow> res_heap \<Rightarrow>
    RuntimeInfo list \<Rightarrow> nat list \<Rightarrow> RuntimeInfo list \<Rightarrow> bool" where
  "collected skip op args now h rts is rts' \<longleftrightarrow>
     length rts' = length rts \<and> distinct is \<and> (\<forall>j \<in> set is. j < length rts) \<and>
     (\<forall>j < length rts. if j \<in> set is
        then \<not> skip (rts ! j) \<and> CAS op args now h (rts ! j) = Value (Inr (h, rts' ! j))
        else rts' ! j = rts ! j)"

lemma collected_Cons:
  assumes "collected skip op args now h rts is rts'"
  shows "collected skip op args now h (rt # rts) (map Suc is) (rt # rts')"
    and "\<not> skip rt \<Longrightarrow> CAS op args now h rt = Value (Inr (h, rt')) \<Longrightarrow>
      collected skip op args now h (rt # rts) (0 # map Suc is) (rt' # rts')"
  using assms by (auto simp: collected_def nth_Cons distinct_map image_iff split: nat.splits)

lemma cas_collect_spec:
  assumes "cas_collect skip op args now n h rts = Value (is, h', rts')"
    and "\<And>i h1 rt'. CAS op args now h i = Value (Inr (h1, rt')) \<Longrightarrow> h1 = h"
  shows "h' = h \<and> collected skip op args now h rts is rts' \<and> (0 \<le> n \<longrightarrow> int (length is) \<le> n) \<and>
    (int (length is) \<noteq> n \<longrightarrow>
      (\<forall>j < length rts. j \<notin> set is \<longrightarrow> \<not> skip (rts ! j) \<longrightarrow> (\<exists>e. CAS op args now h (rts ! j) = Value (Inl e))))"
  using assms(1)
proof (induction rts arbitrary: n "is" rts')
  case Nil
  then show ?case by (auto simp: collected_def)
next
  case (Cons rt rts)
  let ?none = "\<lambda>rts is. \<forall>j < length rts. j \<notin> set is \<longrightarrow> \<not> skip (rts ! j) \<longrightarrow> (\<exists>e. CAS op args now h (rts ! j) = Value (Inl e))"
  have shift: "?none (rt # rts) (map Suc is1)" if "?none rts is1" "skip rt \<or> (\<exists>e. CAS op args now h rt = Value (Inl e))" for is1
    using that by (auto simp: nth_Cons split: nat.splits)
  have shift0: "?none (rt # rts) (0 # map Suc is1)" if "?none rts is1" for is1
    using that by (auto simp: nth_Cons split: nat.splits)
  consider (stop) "n = 0" | (skip) "n \<noteq> 0" "skip rt" | (attempt) "n \<noteq> 0" "\<not> skip rt" by blast
  then show ?case
  proof cases
    case stop
    with Cons.prems show ?thesis by (auto simp: collected_def)
  next
    case skip
    with Cons.prems obtain is1 rts1 where rec: "cas_collect skip op args now n h rts = Value (is1, h', rts1)"
        "is = map Suc is1" "rts' = rt # rts1"
      by (auto simp: outcome_simps)
    from Cons.IH [OF rec(1)] rec(2,3) skip(2) show ?thesis
      using shift [of is1] collected_Cons(1) by auto
  next
    case attempt
    with Cons.prems obtain r where r: "CAS op args now h rt = Value r"
      by (auto simp: outcome_simps)
    show ?thesis
    proof (cases r)
      case (Inl e)
      with attempt r Cons.prems obtain is1 rts1 where rec: "cas_collect skip op args now n h rts = Value (is1, h', rts1)"
          "is = map Suc is1" "rts' = rt # rts1"
        by (auto simp: outcome_simps)
      from Cons.IH [OF rec(1)] rec(2,3) r Inl show ?thesis
        using shift [of is1] collected_Cons(1) by auto
    next
      case (Inr p)
      then obtain h1 rt' where p: "r = Inr (h1, rt')" by (cases p) auto
      with r assms(2) have "h1 = h" by blast
      with attempt p r Cons.prems obtain is1 rts1 where rec: "cas_collect skip op args now (n - 1) h rts = Value (is1, h', rts1)"
          "is = 0 # map Suc is1" "rts' = rt' # rts1"
        by (auto simp: outcome_simps)
      from Cons.IH [OF rec(1)] rec(2,3) r p \<open>h1 = h\<close> attempt show ?thesis
        using shift0 [of is1] collected_Cons(2) by auto
    qed
  qed
qed

section \<open>Well-formed managers\<close>

text \<open>Every resource object is owned by one holder: the five objects of the node's counters and the
  object of each runtime are there and distinct. The table maps each identifier to the runtime that
  has it.\<close>

definition svc_ptrs :: "RuntimeManager \<Rightarrow> res_ptr list" where
  "svc_ptrs m = [Capacity (resource m), Allocatable (resource m), Used_sr (resource m), Marked_sr (resource m),
     Default (resource m)]"

definition separated :: "RuntimeManager \<Rightarrow> bool" where
  "separated m \<longleftrightarrow>
     distinct (svc_ptrs m @ map Resource (rtArray m)) \<and>
     (\<forall>p \<in> set (svc_ptrs m @ map Resource (rtArray m)). \<exists>a. p = Some a \<and> a < hp_next (heap m))"

definition table_ok :: "RuntimeManager \<Rightarrow> bool" where
  "table_ok m \<longleftrightarrow> (\<forall>i k. rtMap m i = Some k \<longleftrightarrow> k < length (rtArray m) \<and> RuntimeID (rtArray m ! k) = i)"

text \<open>The memory a runtime holds, and the accounting invariant: the counter of marked memory is the sum
  over the marked runtimes (modulo the wrap-around of \<open>int64\<close>), and a cold runtime holds none.\<close>

definition held :: "res_heap \<Rightarrow> RuntimeInfo \<Rightarrow> int64" where
  "held h rt = (if Marked rt then Memory (cells h (the (Resource rt))) else 0)"

definition marked_sum :: "res_heap \<Rightarrow> RuntimeInfo list \<Rightarrow> int" where
  "marked_sum h rts = sum_list (map (held h) rts)"

definition marked_memory :: "RuntimeManager \<Rightarrow> int64" where
  "marked_memory m = Memory (cells (heap m) (the (Marked_sr (resource m))))"

definition allocatable_memory :: "RuntimeManager \<Rightarrow> int64" where
  "allocatable_memory m = Memory (cells (heap m) (the (Allocatable (resource m))))"

definition cold_unmarked :: "RuntimeManager \<Rightarrow> bool" where
  "cold_unmarked m \<longleftrightarrow> (\<forall>rt \<in> set (rtArray m). State rt = RuntimeStateCold \<longrightarrow> \<not> Marked rt)"

definition accounted :: "RuntimeManager \<Rightarrow> bool" where
  "accounted m \<longleftrightarrow> marked_memory m = i64 (marked_sum (heap m) (rtArray m))"

definition rm_inv :: "RuntimeManager \<Rightarrow> bool" where
  "rm_inv m \<longleftrightarrow> separated m \<and> table_ok m \<and> cold_unmarked m \<and> accounted m"

lemma rm_invI:
  "separated m \<Longrightarrow> table_ok m \<Longrightarrow> cold_unmarked m \<Longrightarrow> accounted m \<Longrightarrow> rm_inv m"
  by (simp add: rm_inv_def)

lemma table_distinct: "table_ok m \<Longrightarrow> distinct (map RuntimeID (rtArray m))"
  unfolding table_ok_def distinct_conv_nth by (metis length_map nth_map option.inject)

text \<open>What every run of events keeps: the counters' pointers, the table, the identity of each runtime
  and, in the store, everything but the runtimes' own objects.\<close>

definition same_frame :: "RuntimeManager \<Rightarrow> RuntimeManager \<Rightarrow> bool" where
  "same_frame m m' \<longleftrightarrow>
     resource m' = resource m \<and> rtMap m' = rtMap m \<and> hp_next (heap m') = hp_next (heap m) \<and>
     MaxRuntimeIdle m' = MaxRuntimeIdle m \<and> MaxRunnerDefunct m' = MaxRunnerDefunct m \<and>
     MaxRunnerResetTimeout m' = MaxRunnerResetTimeout m \<and>
     map RuntimeID (rtArray m') = map RuntimeID (rtArray m) \<and>
     map Resource (rtArray m') = map Resource (rtArray m) \<and>
     (\<forall>a. Some a \<notin> set (map Resource (rtArray m)) \<longrightarrow> cells (heap m') a = cells (heap m) a)"

lemma same_frame_refl [simp]: "same_frame m m"
  by (simp add: same_frame_def)

lemma same_frame_trans: "same_frame m m' \<Longrightarrow> same_frame m' m'' \<Longrightarrow> same_frame m m''"
  by (simp add: same_frame_def)

lemma same_frame_separated: "same_frame m m' \<Longrightarrow> separated m \<Longrightarrow> separated m'"
  by (simp add: same_frame_def separated_def svc_ptrs_def)

lemma same_frame_length: "same_frame m m' \<Longrightarrow> length (rtArray m') = length (rtArray m)"
  by (auto simp: same_frame_def dest: map_eq_imp_length_eq)

lemma same_frame_nth:
  assumes "same_frame m m'" "j < length (rtArray m)"
  shows "RuntimeID (rtArray m' ! j) = RuntimeID (rtArray m ! j)" "Resource (rtArray m' ! j) = Resource (rtArray m ! j)"
proof -
  have "map RuntimeID (rtArray m') ! j = map RuntimeID (rtArray m) ! j"
    "map Resource (rtArray m') ! j = map Resource (rtArray m) ! j"
    using assms(1) by (simp_all add: same_frame_def)
  then show "RuntimeID (rtArray m' ! j) = RuntimeID (rtArray m ! j)" "Resource (rtArray m' ! j) = Resource (rtArray m ! j)"
    using assms(2) same_frame_length [OF assms(1)] by simp_all
qed

lemma same_frame_table: "same_frame m m' \<Longrightarrow> table_ok m \<Longrightarrow> table_ok m'"
  using same_frame_length [of m m'] same_frame_nth(1) [of m m']
  by (auto simp: table_ok_def same_frame_def)

lemma separated_svc:
  assumes "separated m" "p \<in> set (svc_ptrs m)"
  obtains a where "p = Some a" "Some a \<notin> set (map Resource (rtArray m))" "a < hp_next (heap m)"
  using assms unfolding separated_def by (metis UnI1 distinct_append disjoint_iff set_append)

lemma same_frame_svc:
  assumes "separated m" "same_frame m m'" "Some a \<in> set (svc_ptrs m)"
  shows "cells (heap m') a = cells (heap m) a"
  using assms separated_svc [OF assms(1,3)] by (auto simp: same_frame_def)

lemma same_frame_memory:
  assumes "separated m" "same_frame m m'"
  shows "marked_memory m' = marked_memory m" "allocatable_memory m' = allocatable_memory m"
proof -
  obtain k where "Marked_sr (resource m) = Some k"
    using separated_svc [OF assms(1), of "Marked_sr (resource m)"] by (auto simp: svc_ptrs_def)
  moreover obtain a where "Allocatable (resource m) = Some a"
    using separated_svc [OF assms(1), of "Allocatable (resource m)"] by (auto simp: svc_ptrs_def)
  ultimately show "marked_memory m' = marked_memory m" "allocatable_memory m' = allocatable_memory m"
    using same_frame_svc [OF assms] assms(2)
    by (simp_all add: marked_memory_def allocatable_memory_def same_frame_def svc_ptrs_def)
qed

text \<open>One event at index \<open>i\<close>.\<close>

lemma CAS_same_frame:
  assumes "i < length (rtArray m)" "CAS op args now (heap m) (rtArray m ! i) = Value (Inr (h', rt'))"
  shows "same_frame m (m\<lparr>heap := h', rtArray := (rtArray m)[i := rt']\<rparr>)"
proof -
  have id: "RuntimeID rt' = RuntimeID (rtArray m ! i)" "Resource rt' = Resource (rtArray m ! i)"
    and frame: "heap_frame (Resource (rtArray m ! i)) (heap m) h'"
    using CAS_run [OF assms(2)] by (auto simp: same_identity_def)
  have "Resource (rtArray m ! i) \<noteq> Some a" if "Some a \<notin> set (map Resource (rtArray m))" for a
    using that assms(1) by (metis length_map nth_map nth_mem)
  moreover have "map RuntimeID ((rtArray m)[i := rt']) = map RuntimeID (rtArray m)"
    "map Resource ((rtArray m)[i := rt']) = map Resource (rtArray m)"
    using id assms(1) by (simp_all add: map_update list_update_same_conv)
  ultimately show ?thesis
    using frame by (simp add: same_frame_def heap_frame_def del: set_map)
qed

lemma separated_runtime:
  assumes "separated m" "j < length (rtArray m)"
  obtains a where "Resource (rtArray m ! j) = Some a" "a < hp_next (heap m)"
proof -
  have "Resource (rtArray m ! j) \<in> set (svc_ptrs m @ map Resource (rtArray m))"
    using assms(2) by simp
  with assms(1) that show ?thesis unfolding separated_def by blast
qed

lemma separated_runtimes_distinct:
  assumes "separated m" "i < length (rtArray m)" "j < length (rtArray m)" "i \<noteq> j"
  shows "Resource (rtArray m ! i) \<noteq> Resource (rtArray m ! j)"
  using assms by (auto simp: separated_def distinct_conv_nth [of "map Resource (rtArray m)"])

section \<open>Rolling back\<close>

definition rolled :: "RuntimeInfo \<Rightarrow> RuntimeInfo" where
  "rolled rt = rt\<lparr>Concurrency := (if State rt = RuntimeStateWarmUp then Concurrency rt - 1 else Concurrency rt),
     State := RuntimeStateCold, WithStreamMode := False, CommitID := '''', Marked := False\<rparr>"

definition may_roll_back :: "string \<Rightarrow> RuntimeInfo \<Rightarrow> bool" where
  "may_roll_back commit rt \<longleftrightarrow> (State rt = RuntimeStateWarmUp \<or> State rt = RuntimeStateMerged) \<and>
     CommitID rt = commit \<and> Resource rt \<noteq> None"

lemma CAS_rollback_ready:
  assumes "may_roll_back commit rt"
  shows "CAS OpRollback (RollbackArgs \<lparr>CommitID_ri = commit\<rparr>) now h rt =
    Value (Inr (h\<lparr>cells := (cells h)(the (Resource rt) := NewResource)\<rparr>, rolled rt))"
  using assms unfolding may_roll_back_def rolled_def NewResource_def by (auto simp: CAS_rollback_iff Resource_set_both)

lemma rollbackRuntime_ready:
  assumes "i < length (rtArray m)" "may_roll_back commit (rtArray m ! i)"
    and m': "m' = m\<lparr>heap := (heap m)\<lparr>cells := (cells (heap m))(the (Resource (rtArray m ! i)) := NewResource)\<rparr>,
      rtArray := (rtArray m)[i := rolled (rtArray m ! i)]\<rparr>"
  shows "rollbackRuntime now commit i m = Value m'" "same_frame m m'"
proof -
  show "rollbackRuntime now commit i m = Value m'"
    using CAS_rollback_ready [OF assms(2)] by (simp add: rollbackRuntime_def m')
  show "same_frame m m'"
    unfolding m' by (rule CAS_same_frame [OF assms(1) CAS_rollback_ready [OF assms(2)]])
qed

lemma rollback_all_ready:
  assumes "distinct is" "\<forall>j \<in> set is. j < length (rtArray m) \<and> may_roll_back commit (rtArray m ! j)"
  shows "\<exists>m'. rollback_all now commit is m = Value m' \<and> same_frame m m' \<and>
    (\<forall>j < length (rtArray m). rtArray m' ! j = (if j \<in> set is then rolled (rtArray m ! j) else rtArray m ! j)) \<and>
    (\<forall>a. cells (heap m') a = (if \<exists>j \<in> set is. Resource (rtArray m ! j) = Some a then NewResource else cells (heap m) a))"
  using assms
proof (induction "is" arbitrary: m)
  case Nil
  then show ?case by simp
next
  case (Cons i "is")
  let ?m1 = "m\<lparr>heap := (heap m)\<lparr>cells := (cells (heap m))(the (Resource (rtArray m ! i)) := NewResource)\<rparr>,
    rtArray := (rtArray m)[i := rolled (rtArray m ! i)]\<rparr>"
  have i: "i < length (rtArray m)" "may_roll_back commit (rtArray m ! i)" "i \<notin> set is"
    using Cons.prems by auto
  note step = rollbackRuntime_ready [OF i(1,2) refl]
  have other: "rtArray ?m1 ! j = rtArray m ! j" if "j \<in> set is" for j
    using i(3) that by (cases "j = i") simp_all
  have "\<forall>j \<in> set is. j < length (rtArray ?m1) \<and> may_roll_back commit (rtArray ?m1 ! j)"
    using Cons.prems(2) other by simp
  then obtain m' where m': "rollback_all now commit is ?m1 = Value m'" "same_frame ?m1 m'"
      "\<forall>j < length (rtArray ?m1). rtArray m' ! j = (if j \<in> set is then rolled (rtArray ?m1 ! j) else rtArray ?m1 ! j)"
      "\<forall>a. cells (heap m') a = (if \<exists>j \<in> set is. Resource (rtArray ?m1 ! j) = Some a then NewResource else cells (heap ?m1) a)"
    using Cons.IH [of ?m1] Cons.prems(1) by auto
  have "rtArray m' ! j = (if j \<in> set (i # is) then rolled (rtArray m ! j) else rtArray m ! j)"
    if "j < length (rtArray m)" for j
    using that i m'(3) by (cases "j = i") auto
  moreover obtain b where b: "Resource (rtArray m ! i) = Some b"
    using i(2) by (auto simp: may_roll_back_def)
  have "cells (heap m') a = (if \<exists>j \<in> set (i # is). Resource (rtArray m ! j) = Some a then NewResource else cells (heap m) a)" for a
    using m'(4) b other by auto
  moreover have "rollback_all now commit (i # is) m = Value m'"
    using step(1) m'(1) by simp
  moreover have "same_frame m m'"
    using same_frame_trans [OF step(2) m'(2)] .
  ultimately show ?case by blast
qed

section \<open>The accounting of marked memory\<close>

lemma marked_sum_cong:
  assumes "length rts' = length rts" "\<And>j. j < length rts \<Longrightarrow> held h' (rts' ! j) = held h (rts ! j)"
  shows "marked_sum h' rts' = marked_sum h rts"
  unfolding marked_sum_def using assms by (intro arg_cong [of _ _ sum_list] nth_equalityI) simp_all

lemma sum_list_update_int: "i < length xs \<Longrightarrow> sum_list (xs[i := v]) = sum_list xs + v - (xs ! i :: int)"
  by (induction xs arbitrary: i) (auto split: nat.splits)

lemma marked_sum_update:
  assumes "i < length rts" "\<And>j. j < length rts \<Longrightarrow> j \<noteq> i \<Longrightarrow> held h' (rts ! j) = held h (rts ! j)"
  shows "marked_sum h' (rts[i := rt']) = marked_sum h rts + held h' rt' - held h (rts ! i)"
proof -
  have "map (held h') (rts[i := rt']) = (map (held h) rts)[i := held h' rt']"
    using assms by (intro nth_equalityI) (auto simp: nth_list_update)
  with assms(1) show ?thesis
    by (simp add: marked_sum_def sum_list_update_int)
qed

text \<open>Writing the object of runtime \<open>i\<close> does not change what the others hold.\<close>

lemma held_other:
  assumes "separated m" "i < length (rtArray m)" "j < length (rtArray m)" "j \<noteq> i"
    "heap_frame (Resource (rtArray m ! i)) (heap m) h'"
  shows "held h' (rtArray m ! j) = held (heap m) (rtArray m ! j)"
proof -
  obtain a where "Resource (rtArray m ! j) = Some a" using assms(1,3) by (rule separated_runtime)
  moreover have "Resource (rtArray m ! i) \<noteq> Resource (rtArray m ! j)"
    using separated_runtimes_distinct [OF assms(1,2,3)] assms(4) by blast
  ultimately show ?thesis using assms(5) by (auto simp: held_def heap_frame_def)
qed

lemma CAS_marked_sum:
  assumes "separated m" "i < length (rtArray m)" "CAS op args now (heap m) (rtArray m ! i) = Value (Inr (h', rt'))"
  shows "marked_sum h' ((rtArray m)[i := rt']) =
    marked_sum (heap m) (rtArray m) + held h' rt' - held (heap m) (rtArray m ! i)"
  using marked_sum_update [OF assms(2)] held_other [OF assms(1,2)] CAS_run [OF assms(3)] by blast

text \<open>The manager with another value in its counter of marked memory.\<close>

definition with_marked :: "int64 \<Rightarrow> RuntimeManager \<Rightarrow> RuntimeManager" where
  "with_marked v m = (let k = the (Marked_sr (resource m)) in
     m\<lparr>heap := (heap m)\<lparr>cells := (cells (heap m))(k := (cells (heap m) k)\<lparr>Memory := v\<rparr>)\<rparr>\<rparr>)"

lemma with_marked_fields [simp]:
  "rtArray (with_marked v m) = rtArray m" "resource (with_marked v m) = resource m"
  "rtMap (with_marked v m) = rtMap m" "hp_next (heap (with_marked v m)) = hp_next (heap m)"
  "marked_memory (with_marked v m) = v"
  by (simp_all add: with_marked_def Let_def marked_memory_def)

lemma with_marked_same [simp]: "with_marked (marked_memory m) m = m"
  by (simp add: with_marked_def marked_memory_def Let_def)

lemma with_marked_separated: "separated m \<Longrightarrow> separated (with_marked v m)"
  by (simp add: separated_def svc_ptrs_def)

lemma with_marked_table: "table_ok m \<Longrightarrow> table_ok (with_marked v m)"
  by (simp add: table_ok_def)

lemma with_marked_cold: "cold_unmarked m \<Longrightarrow> cold_unmarked (with_marked v m)"
  by (simp add: cold_unmarked_def)

lemma marked_ptr:
  assumes "separated m"
  obtains k where "Marked_sr (resource m) = Some k" "Some k \<notin> set (map Resource (rtArray m))"
  using separated_svc [OF assms, of "Marked_sr (resource m)"] that by (auto simp: svc_ptrs_def)

lemma with_marked_allocatable:
  assumes "separated m" shows "allocatable_memory (with_marked v m) = allocatable_memory m"
proof -
  obtain k where "Marked_sr (resource m) = Some k"
    using assms by (rule marked_ptr)
  moreover obtain a where "Allocatable (resource m) = Some a"
    using separated_svc [OF assms, of "Allocatable (resource m)"] by (auto simp: svc_ptrs_def)
  ultimately show ?thesis using assms
    by (auto simp: separated_def svc_ptrs_def allocatable_memory_def with_marked_def Let_def)
qed

lemma with_marked_sum:
  assumes "separated m"
  shows "marked_sum (heap (with_marked v m)) (rtArray m) = marked_sum (heap m) (rtArray m)"
proof (rule marked_sum_cong)
  fix j assume j: "j < length (rtArray m)"
  obtain k where k: "Marked_sr (resource m) = Some k" "Some k \<notin> set (map Resource (rtArray m))"
    using assms by (rule marked_ptr)
  obtain a where a: "Resource (rtArray m ! j) = Some a"
    using separated_runtime [OF assms j] by blast
  with k(2) j have "a \<noteq> k" by (metis length_map nth_map nth_mem)
  with a k(1) show "held (heap (with_marked v m)) (rtArray m ! j) = held (heap m) (rtArray m ! j)"
    by (simp add: held_def with_marked_def Let_def)
qed simp

lemma svc_ptr_Some:
  assumes "separated m"
  shows "Capacity (resource m) = Some (the (Capacity (resource m)))"
    "Allocatable (resource m) = Some (the (Allocatable (resource m)))"
    "Used_sr (resource m) = Some (the (Used_sr (resource m)))"
    "Marked_sr (resource m) = Some (the (Marked_sr (resource m)))"
    "Default (resource m) = Some (the (Default (resource m)))"
proof -
  have "p = Some (the p)" if "p \<in> set (svc_ptrs m)" for p
    by (rule separated_svc [OF assms that]) simp
  then show "Capacity (resource m) = Some (the (Capacity (resource m)))"
    "Allocatable (resource m) = Some (the (Allocatable (resource m)))"
    "Used_sr (resource m) = Some (the (Used_sr (resource m)))"
    "Marked_sr (resource m) = Some (the (Marked_sr (resource m)))"
    "Default (resource m) = Some (the (Default (resource m)))"
    by (simp_all add: svc_ptrs_def)
qed

lemma deref_svc:
  assumes "separated m" "p \<in> set (svc_ptrs m)"
  shows "deref h p = Value (cells h (the p))" "store h p r = Value (h\<lparr>cells := (cells h)(the p := r)\<rparr>)"
  using separated_svc [OF assms] by (metis deref_Some option.sel, metis store_Some option.sel)

lemma mark_resource_eq:
  assumes "separated m" shows "mark_resource x m = Value (with_marked (i64 (marked_memory m + x)) m)"
  by (simp add: mark_resource_def deref_svc [OF assms] svc_ptrs_def with_marked_def marked_memory_def Let_def)

lemma ReleaseMarkedResource_eq:
  assumes "separated m"
  shows "ReleaseMarkedResource rs m = Value (True, with_marked (i64 (marked_memory m - Memory rs)) m)"
  by (simp add: ReleaseMarkedResource_def deref_svc [OF assms] svc_ptrs_def with_marked_def marked_memory_def Let_def)

lemma check_resource_eq:
  assumes "separated m"
  shows "check_resource x m = Value (\<not> i64 (allocatable_memory m - marked_memory m - x) < 0)"
  by (simp add: check_resource_def deref_svc [OF assms] svc_ptrs_def marked_memory_def allocatable_memory_def int64_simps)

lemma checkAndMarkResource_eq:
  assumes "separated m"
  shows "checkAndMarkResource x m =
    (if i64 (allocatable_memory m - marked_memory m - x) < 0 then Value (False, m)
     else Value (True, with_marked (i64 (marked_memory m + x)) m))"
  using assms by (simp add: checkAndMarkResource_def check_resource_eq mark_resource_eq)

section \<open>Occupying, characterised\<close>

text \<open>A cold runtime as a failed scale-up leaves it.\<close>

definition restored :: "RuntimeInfo \<Rightarrow> RuntimeInfo \<Rightarrow> bool" where
  "restored rt rt' \<longleftrightarrow> rt' = rt \<or>
     State rt = RuntimeStateCold \<and> \<not> Abnormal rt \<and>
     (\<exists>t. rt' = rt\<lparr>State := RuntimeStateCold, LastAccessTime := t, WithStreamMode := False, CommitID := '''',
        Marked := False\<rparr>)"

lemma restored_simps:
  "restored rt rt' \<Longrightarrow> State rt' = State rt \<and> Concurrency rt' = Concurrency rt \<and> Abnormal rt' = Abnormal rt \<and>
     Used rt' = Used rt \<and> Resource rt' = Resource rt \<and> (\<not> Marked rt \<longrightarrow> \<not> Marked rt')"
  by (auto simp: restored_def)

lemma rolled_occupied:
  assumes "CAS OpOccupy (OccupyArgs p) now h rt = Value (Inr (h', rt'))"
  shows "may_roll_back (CommitID_oi p) rt'" "restored rt (rolled rt')" "Resource rt' = Resource rt"
proof -
  have "rolled rt' = rt\<lparr>State := RuntimeStateCold, LastAccessTime := now, WithStreamMode := False, CommitID := '''',
      Marked := False\<rparr>" "State rt = RuntimeStateCold" "\<not> Abnormal rt"
    using assms by (auto simp: CAS_occupy_iff rolled_def)
  then show "restored rt (rolled rt')" unfolding restored_def by blast
qed (use assms in \<open>auto simp: CAS_occupy_iff may_roll_back_def\<close>)

lemma rolled_merged:
  assumes "CAS OpMerged (MergedArgs p) now h rt = Value (Inr (h', rt'))" "Resource rt \<noteq> None"
  shows "may_roll_back (CommitID_mi p) rt'" "restored rt (rolled rt')" "Resource rt' = Resource rt"
proof -
  have "rolled rt' = rt\<lparr>State := RuntimeStateCold, LastAccessTime := LastAccessTime rt, WithStreamMode := False,
      CommitID := '''', Marked := False\<rparr>" "State rt = RuntimeStateCold" "\<not> Abnormal rt"
    using assms by (auto simp: CAS_merged_iff rolled_def)
  then show "restored rt (rolled rt')" unfolding restored_def by blast
qed (use assms in \<open>auto simp: CAS_merged_iff may_roll_back_def\<close>)

lemma CAS_merged_heap: "CAS OpMerged (MergedArgs p) now h rt = Value (Inr (h', rt')) \<Longrightarrow> h' = h"
  by (simp add: CAS_merged_iff)

lemma CAS_retrieve_heap: "CAS OpRetrieve (RetrieveArgs p) now h rt = Value (Inr (h', rt')) \<Longrightarrow> h' = h"
  by (simp add: CAS_retrieve_iff)

text \<open>The two outcomes of a scale-up: everything was undone, or the runtime \<open>i\<close> is occupied and the
  runtimes \<open>is\<close> are merged into it.\<close>

definition undone :: "RuntimeManager \<Rightarrow> RuntimeManager \<Rightarrow> bool" where
  "undone m m' \<longleftrightarrow> same_frame m m' \<and>
     (\<forall>j < length (rtArray m). restored (rtArray m ! j) (rtArray m' ! j) \<and>
        (State (rtArray m ! j) \<noteq> RuntimeStateCold \<longrightarrow> rtArray m' ! j = rtArray m ! j \<and>
           cells (heap m') (the (Resource (rtArray m ! j))) = cells (heap m) (the (Resource (rtArray m ! j)))))"

definition scaled_up :: "instant \<Rightarrow> OccupyInput \<Rightarrow> RuntimeManager \<Rightarrow> nat \<Rightarrow> nat list \<Rightarrow> RuntimeManager \<Rightarrow> bool" where
  "scaled_up now input m i is m' \<longleftrightarrow> same_frame m m' \<and> distinct (i # is) \<and> i < length (rtArray m) \<and>
     CAS OpOccupy (OccupyArgs input) now (heap m) (rtArray m ! i) = Value (Inr (heap m', rtArray m' ! i)) \<and>
     (\<forall>j < i. \<exists>e. CAS OpOccupy (OccupyArgs input) now (heap m) (rtArray m ! j) = Value (Inl e)) \<and>
     (\<forall>j \<in> set is. j < length (rtArray m) \<and> State (rtArray m ! j) = RuntimeStateCold \<and> \<not> Abnormal (rtArray m ! j)) \<and>
     (\<forall>j < length (rtArray m). j \<noteq> i \<longrightarrow> rtArray m' ! j =
        (if j \<in> set is then (rtArray m ! j)\<lparr>State := RuntimeStateMerged, CommitID := CommitID_oi input\<rparr>
         else rtArray m ! j))"

lemma collected_nth:
  assumes "collected skip op args now h rts is rts'" "j < length rts"
  shows "j \<in> set is \<Longrightarrow> \<not> skip (rts ! j) \<and> CAS op args now h (rts ! j) = Value (Inr (h, rts' ! j))"
    and "j \<notin> set is \<Longrightarrow> rts' ! j = rts ! j"
  using assms by (auto simp: collected_def)

lemma collected_same_frame:
  assumes "collected skip op args now (heap m) (rtArray m) is rts'"
  shows "same_frame m (m\<lparr>rtArray := rts'\<rparr>)"
proof -
  have "RuntimeID (rts' ! j) = RuntimeID (rtArray m ! j) \<and> Resource (rts' ! j) = Resource (rtArray m ! j)"
    if "j < length (rtArray m)" for j
  proof (cases "j \<in> set is")
    case True
    with collected_nth(1) [OF assms that] show ?thesis by (auto simp: same_identity_def dest!: CAS_run)
  qed (use collected_nth(2) [OF assms that] in simp)
  then have "map RuntimeID rts' = map RuntimeID (rtArray m)" "map Resource rts' = map Resource (rtArray m)"
    using assms by (auto simp: collected_def intro!: nth_equalityI)
  then show ?thesis by (simp add: same_frame_def)
qed

text \<open>Occupying runtime \<open>i\<close> and then merging: the second loop does not pick \<open>i\<close> again.\<close>

lemma occupied_then_merged:
  assumes occ: "i < length (rtArray m)" "CAS OpOccupy (OccupyArgs input) now (heap m) (rtArray m ! i) = Value (Inr (h, rt'))"
    and first: "\<forall>j < i. \<exists>e. CAS OpOccupy (OccupyArgs input) now (heap m) (rtArray m ! j) = Value (Inl e)"
    and mrg: "collected (\<lambda>_. False) OpMerged (MergedArgs \<lparr>CommitID_mi = CommitID_oi input\<rparr>) now h ((rtArray m)[i := rt']) is rts2"
  shows "scaled_up now input m i is (m\<lparr>heap := h, rtArray := rts2\<rparr>)"
proof -
  let ?m1 = "m\<lparr>heap := h, rtArray := (rtArray m)[i := rt']\<rparr>"
  have picked: "j < length (rtArray m) \<and> State ((rtArray m)[i := rt'] ! j) = RuntimeStateCold \<and>
      \<not> Abnormal ((rtArray m)[i := rt'] ! j) \<and> rts2 ! j = ((rtArray m)[i := rt'] ! j)\<lparr>State := RuntimeStateMerged, CommitID := CommitID_oi input\<rparr>"
    if "j \<in> set is" for j
    using mrg that by (auto simp: collected_def CAS_merged_iff)
  have i: "i \<notin> set is"
    using picked [of i] occ by (auto simp: CAS_occupy_iff)
  have frame: "same_frame m (m\<lparr>heap := h, rtArray := rts2\<rparr>)"
    using same_frame_trans [OF CAS_same_frame [OF occ]] collected_same_frame [of _ _ _ _ ?m1 "is" rts2] mrg by simp
  have "rts2 ! i = rt'" using mrg i occ(1) by (auto simp: collected_def)
  moreover have "rts2 ! j = (if j \<in> set is then (rtArray m ! j)\<lparr>State := RuntimeStateMerged, CommitID := CommitID_oi input\<rparr>
      else rtArray m ! j)" if "j < length (rtArray m)" "j \<noteq> i" for j
    using mrg picked [of j] that by (auto simp: collected_def)
  moreover have "j < length (rtArray m) \<and> State (rtArray m ! j) = RuntimeStateCold \<and> \<not> Abnormal (rtArray m ! j)"
    if "j \<in> set is" for j
    using picked [OF that] i that by (metis nth_list_update_neq)
  moreover have "distinct is" using mrg by (simp add: collected_def)
  ultimately show ?thesis
    using frame i occ first by (simp add: scaled_up_def)
qed

lemma rollback_scaled_up:
  assumes sep: "separated m" and up: "scaled_up now input m i is m2"
  obtains m3 where "rollback_all now' (CommitID_oi input) (rev is @ [i]) m2 = Value m3" "undone m m3"
proof -
  let ?all = "rev is @ [i]"
  have len: "length (rtArray m2) = length (rtArray m)" using up same_frame_length by (auto simp: scaled_up_def)
  have roll: "may_roll_back (CommitID_oi input) (rtArray m2 ! j) \<and> restored (rtArray m ! j) (rolled (rtArray m2 ! j)) \<and>
      Resource (rtArray m2 ! j) = Resource (rtArray m ! j) \<and> j < length (rtArray m) \<and> State (rtArray m ! j) = RuntimeStateCold"
    if "j \<in> set ?all" for j
  proof (cases "j = i")
    case True
    with up rolled_occupied show ?thesis by (auto simp: scaled_up_def CAS_occupy_iff)
  next
    case False
    with that up have j: "j < length (rtArray m)" "State (rtArray m ! j) = RuntimeStateCold" "\<not> Abnormal (rtArray m ! j)"
        "rtArray m2 ! j = (rtArray m ! j)\<lparr>State := RuntimeStateMerged, CommitID := CommitID_oi input\<rparr>"
      by (auto simp: scaled_up_def)
    then have "CAS OpMerged (MergedArgs \<lparr>CommitID_mi = CommitID_oi input\<rparr>) now (heap m) (rtArray m ! j) = Value (Inr (heap m, rtArray m2 ! j))"
      by (simp add: CAS_merged_iff)
    moreover have "Resource (rtArray m ! j) \<noteq> None" using separated_runtime [OF sep j(1)] by auto
    ultimately show ?thesis using rolled_merged j by fastforce
  qed
  have "distinct ?all" using up by (auto simp: scaled_up_def)
  then obtain m3 where m3: "rollback_all now' (CommitID_oi input) ?all m2 = Value m3" "same_frame m2 m3"
      "\<And>j. j < length (rtArray m2) \<Longrightarrow> rtArray m3 ! j = (if j \<in> set ?all then rolled (rtArray m2 ! j) else rtArray m2 ! j)"
      "\<And>a. cells (heap m3) a = (if \<exists>j \<in> set ?all. Resource (rtArray m2 ! j) = Some a then NewResource else cells (heap m2) a)"
    using rollback_all_ready [of ?all m2 "CommitID_oi input" now'] roll len by auto
  have "undone m m3"
    unfolding undone_def
  proof (intro conjI allI impI)
    show "same_frame m m3" using up m3(2) same_frame_trans by (auto simp: scaled_up_def)
  next
    fix j assume j: "j < length (rtArray m)"
    show "restored (rtArray m ! j) (rtArray m3 ! j)"
      using roll [of j] m3(3) [of j] up j len by (cases "j \<in> set ?all") (auto simp: scaled_up_def restored_def)
  next
    fix j assume j: "j < length (rtArray m)" and warm: "State (rtArray m ! j) \<noteq> RuntimeStateCold"
    then have out: "j \<notin> set ?all" using roll [of j] by auto
    then show "rtArray m3 ! j = rtArray m ! j" using m3(3) [of j] j len up by (auto simp: scaled_up_def)
    obtain a where a: "Resource (rtArray m ! j) = Some a" using separated_runtime [OF sep j] by blast
    have "Resource (rtArray m2 ! k) \<noteq> Some a" if "k \<in> set ?all" for k
      using roll [OF that] separated_runtimes_distinct [OF sep j, of k] out that a by metis
    moreover have "cells (heap m2) a = cells (heap m) a"
      using up CAS_run [of OpOccupy _ _ "heap m" "rtArray m ! i"] separated_runtimes_distinct [OF sep j, of i] out a
      by (auto simp: scaled_up_def heap_frame_def)
    ultimately show "cells (heap m3) (the (Resource (rtArray m ! j))) = cells (heap m) (the (Resource (rtArray m ! j)))"
      using m3(4) [of a] a by auto
  qed
  with m3(1) that show thesis by blast
qed

lemma scale_up_cases:
  assumes sep: "separated m"
    and run: "occupyColdWithScaleUpRecommendation now memBytes input0 m = Value ((ri, recommend), m')"
  obtains (undone) "ri = None" "recommend = None" "undone m m'"
  | (merged) i "is" cpus where "ri = Some i" "scaled_up now (input0\<lparr>MilliCPUs_oi := cpus\<rparr>) m i is m'"
      "getMilliCPUsByMemory (MemorySize_oi input0) m = Value cpus"
      "scale_count memBytes (BaseMemory (resource m)) = Value (int (length is))"
      "recommend = Some \<lparr>TargetMemory = ByteSize memBytes, TargetContainer_up = RuntimeID (rtArray m ! i),
         MergedContainers = map (\<lambda>j. RuntimeID (rtArray m ! j)) is\<rparr>"
proof -
  from run obtain cpus ri1 h rts where cpus: "getMilliCPUsByMemory (MemorySize_oi input0) m = Value cpus"
      and first: "cas_first OpOccupy (OccupyArgs (input0\<lparr>MilliCPUs_oi := cpus\<rparr>)) now (heap m) (rtArray m) = Value (ri1, h, rts)"
    by (auto simp: occupyColdWithScaleUpRecommendation_def outcome_simps Let_def)
  let ?input = "input0\<lparr>MilliCPUs_oi := cpus\<rparr>"
  show thesis
  proof (cases rule: cas_first_cases [OF first])
    case 1
    with run cpus first have "ri = None" "recommend = None" "m' = m"
      by (auto simp: occupyColdWithScaleUpRecommendation_def)
    then show thesis by (intro undone) (auto simp: undone_def restored_def)
  next
    case (2 i rt')
    from run cpus first 2 obtain n "is" h2 rts2 where n: "scale_count memBytes (BaseMemory (resource m)) = Value n"
        and col: "cas_collect (\<lambda>_. False) OpMerged (MergedArgs \<lparr>CommitID_mi = CommitID_oi input0\<rparr>) now n h ((rtArray m)[i := rt'])
          = Value (is, h2, rts2)"
        and fin: "(if int (length is) = n
          then Value ((Some i, Some \<lparr>TargetMemory = ByteSize memBytes, TargetContainer_up = RuntimeID (rts2 ! i),
            MergedContainers = map (\<lambda>j. RuntimeID (rts2 ! j)) is\<rparr>), m\<lparr>heap := h2, rtArray := rts2\<rparr>)
          else obind (rollback_all now (CommitID_oi ?input) (rev is @ [i]) (m\<lparr>heap := h2, rtArray := rts2\<rparr>)) (\<lambda>m3.
                Value ((None, None), m3))) = Value ((ri, recommend), m')"
      by (auto simp: occupyColdWithScaleUpRecommendation_def outcome_simps Let_def)
    have mrg: "h2 = h" "collected (\<lambda>_. False) OpMerged (MergedArgs \<lparr>CommitID_mi = CommitID_oi ?input\<rparr>) now h ((rtArray m)[i := rt']) is rts2"
      using cas_collect_spec [OF col] CAS_merged_heap by auto
    then have up: "scaled_up now ?input m i is (m\<lparr>heap := h, rtArray := rts2\<rparr>)"
      using occupied_then_merged 2 by auto
    show thesis
    proof (cases "int (length is) = n")
      case True
      have "RuntimeID (rts2 ! j) = RuntimeID (rtArray m ! j)" if "j \<in> set (i # is)" for j
        using same_frame_nth(1) [of m "m\<lparr>heap := h, rtArray := rts2\<rparr>" j] up that by (auto simp: scaled_up_def)
      with True up fin mrg(1) n cpus show thesis by (intro merged [of i cpus "is"]) auto
    next
      case False
      obtain m3 where "rollback_all now (CommitID_oi ?input) (rev is @ [i]) (m\<lparr>heap := h, rtArray := rts2\<rparr>) = Value m3" "undone m m3"
        using rollback_scaled_up [OF sep up] by blast
      with False fin mrg(1) show thesis by (intro undone) auto
    qed
  qed
qed

lemma scaled_up_single:
  assumes "i < length (rtArray m)" "CAS OpOccupy (OccupyArgs input) now (heap m) (rtArray m ! i) = Value (Inr (h, rt'))"
    "\<forall>j < i. \<exists>e. CAS OpOccupy (OccupyArgs input) now (heap m) (rtArray m ! j) = Value (Inl e)"
  shows "scaled_up now input m i [] (m\<lparr>heap := h, rtArray := (rtArray m)[i := rt']\<rparr>)"
  using CAS_same_frame [OF assms(1,2)] assms by (simp add: scaled_up_def)

lemma undone_refl [simp]: "undone m m"
  by (simp add: undone_def restored_def)

text \<open>The result of \<open>OccupyColdRuntime\<close> for a function of \<open>memSize\<close> megabytes: refused for want of memory
  and nothing changed, failed and undone, or given.\<close>

definition occupy_outcome :: "instant \<Rightarrow> InvocationInput \<Rightarrow> int64 \<Rightarrow> RuntimeManager \<Rightarrow> nat option \<Rightarrow>
    ScaleUpRecommendation option \<Rightarrow> RuntimeManager \<Rightarrow> bool" where
  "occupy_outcome now req memSize m ri recommend m' \<longleftrightarrow>
    (let memBytes = functionMemorySizeToBytes memSize; mem = int64_of memBytes;
         m1 = with_marked (i64 (marked_memory m + mem)) m in
     if i64 (allocatable_memory m - marked_memory m - mem) < 0 then ri = None \<and> recommend = None \<and> m' = m
     else (ri = None \<and> recommend = None \<and> (\<exists>m2. undone m1 m2 \<and> m' = with_marked (i64 (marked_memory m2 - mem)) m2)) \<or>
       (\<exists>i is input. ri = Some i \<and> scaled_up now input m1 i is m' \<and> MemorySize_oi input = memBytes \<and>
          Some (CommitID_oi input) = CommitID_fc (Configuration_ii req) \<and>
          (if isNeedScale memBytes m
           then scale_count memBytes (BaseMemory (resource m)) = Value (int (length is)) \<and>
             recommend = Some \<lparr>TargetMemory = ByteSize memBytes, TargetContainer_up = RuntimeID (rtArray m ! i),
               MergedContainers = map (\<lambda>j. RuntimeID (rtArray m ! j)) is\<rparr>
           else is = [] \<and> recommend = None)))"

lemma OccupyColdRuntime_outcome:
  assumes sep: "separated m" and run: "OccupyColdRuntime now req m = Value ((ri, recommend), m')"
  obtains memSize where "MemorySize_fc (Configuration_ii req) = Some memSize"
    "occupy_outcome now req memSize m ri recommend m'"
proof -
  from run obtain memSize where ms: "MemorySize_fc (Configuration_ii req) = Some memSize"
    by (auto simp: OccupyColdRuntime_def outcome_simps Let_def)
  define memBytes where "memBytes = functionMemorySizeToBytes memSize"
  define mem where "mem = int64_of memBytes"
  define m1 where "m1 = with_marked (i64 (marked_memory m + mem)) m"
  have sep1: "separated m1" using sep by (simp add: m1_def with_marked_separated)
  have "if i64 (allocatable_memory m - marked_memory m - mem) < 0 then ri = None \<and> recommend = None \<and> m' = m
       else (ri = None \<and> recommend = None \<and> (\<exists>m2. undone m1 m2 \<and> m' = with_marked (i64 (marked_memory m2 - mem)) m2)) \<or>
         (\<exists>i is input. ri = Some i \<and> scaled_up now input m1 i is m' \<and> MemorySize_oi input = memBytes \<and>
            Some (CommitID_oi input) = CommitID_fc (Configuration_ii req) \<and>
            (if isNeedScale memBytes m
             then scale_count memBytes (BaseMemory (resource m)) = Value (int (length is)) \<and>
               recommend = Some \<lparr>TargetMemory = ByteSize memBytes, TargetContainer_up = RuntimeID (rtArray m ! i),
                 MergedContainers = map (\<lambda>j. RuntimeID (rtArray m ! j)) is\<rparr>
             else is = [] \<and> recommend = None))" (is "if ?small then ?refused else ?failed \<or> ?given")
  proof (cases ?small)
    case True
    with run ms sep show ?thesis
      by (simp add: OccupyColdRuntime_def checkAndMarkResource_eq memBytes_def mem_def)
  next
    case False
    with run ms sep obtain commit d where commit: "CommitID_fc (Configuration_ii req) = Some commit"
        "deref (heap m1) (Default (resource m)) = Value d"
      by (auto simp: OccupyColdRuntime_def checkAndMarkResource_eq outcome_simps memBytes_def mem_def m1_def Let_def)
    define input where "input = \<lparr>CommitID_oi = commit, WithStreamMode_oi = WithStreamMode_ii req,
      MemorySize_oi = memBytes, MilliCPUs_oi = MilliCPUs d\<rparr>"
    define part where "part = (if \<not> isNeedScale memBytes m1
       then obind (cas_first OpOccupy (OccupyArgs input) now (heap m1) (rtArray m1)) (\<lambda>(ri, h, rts).
              Value ((ri, None), m1\<lparr>heap := h, rtArray := rts\<rparr>))
       else occupyColdWithScaleUpRecommendation now memBytes input m1)"
    have need: "isNeedScale memBytes m1 = isNeedScale memBytes m" by (simp add: isNeedScale_def m1_def)
    have res1: "resource m1 = resource m" by (simp add: m1_def)
    have "OccupyColdRuntime now req m = obind part (\<lambda>((ri, recommend), m2).
       if ri = None then obind (ReleaseMarkedResource \<lparr>MilliCPUs = 0, Memory = mem\<rparr> m2) (\<lambda>(_, m3). Value ((ri, recommend), m3))
       else Value ((ri, recommend), m2))"
      unfolding OccupyColdRuntime_def ms deref_field_Some obind.simps Let_def memBytes_def [symmetric] mem_def [symmetric]
        checkAndMarkResource_eq [OF sep]
      using False commit by (simp add: m1_def [symmetric] input_def [symmetric] part_def res1)
    with run obtain ri2 recommend2 m2 where part: "part = Value ((ri2, recommend2), m2)"
        and fin: "(if ri2 = None then obind (ReleaseMarkedResource \<lparr>MilliCPUs = 0, Memory = mem\<rparr> m2) (\<lambda>(_, m3). Value ((ri2, recommend2), m3))
          else Value ((ri2, recommend2), m2)) = Value ((ri, recommend), m')"
      by (auto simp: outcome_simps)
    have failed: ?failed if "ri2 = None" "recommend2 = None" "undone m1 m2"
    proof -
      have "separated m2" using that(3) sep1 same_frame_separated by (auto simp: undone_def)
      with fin that show ?thesis by (auto simp: ReleaseMarkedResource_eq)
    qed
    show ?thesis
    proof (cases "isNeedScale memBytes m")
      case True
      with part need have run2: "occupyColdWithScaleUpRecommendation now memBytes input m1 = Value ((ri2, recommend2), m2)"
        by (simp add: part_def)
      show ?thesis
      proof (cases rule: scale_up_cases [OF sep1 run2])
        case 1
        with failed False show ?thesis by simp
      next
        case (2 i "is" cpus)
        with fin True False commit(1) show ?thesis
          by (auto simp: m1_def input_def intro!: exI [of _ i] exI [of _ "is"] exI [of _ "input\<lparr>MilliCPUs_oi := cpus\<rparr>"])
      qed
    next
      case small: False
      with part need obtain h rts where first: "cas_first OpOccupy (OccupyArgs input) now (heap m1) (rtArray m1) = Value (ri2, h, rts)"
          and m2: "recommend2 = None" "m2 = m1\<lparr>heap := h, rtArray := rts\<rparr>"
        by (auto simp: part_def outcome_simps)
      show ?thesis
      proof (cases rule: cas_first_cases [OF first])
        case 1
        with m2 failed False show ?thesis by simp
      next
        case (2 i rt')
        with m2 have "scaled_up now input m1 i [] m2" by (simp add: scaled_up_single)
        with 2 fin small False m2(1) commit(1) show ?thesis
          by (auto simp: input_def intro!: exI [of _ i] exI [of _ input])
      qed
    qed
  qed
  then have "occupy_outcome now req memSize m ri recommend m'"
    unfolding occupy_outcome_def Let_def m1_def mem_def memBytes_def .
  with ms that show thesis by blast
qed

lemma undone_marked_sum:
  assumes "separated m" "cold_unmarked m" "undone m m'"
  shows "marked_sum (heap m') (rtArray m') = marked_sum (heap m) (rtArray m)"
proof (rule marked_sum_cong)
  show "length (rtArray m') = length (rtArray m)"
    using assms(3) same_frame_length by (auto simp: undone_def)
  fix j assume j: "j < length (rtArray m)"
  have r: "restored (rtArray m ! j) (rtArray m' ! j)" using assms(3) j by (simp add: undone_def)
  show "held (heap m') (rtArray m' ! j) = held (heap m) (rtArray m ! j)"
  proof (cases "State (rtArray m ! j) = RuntimeStateCold")
    case True
    with assms(2) j have "\<not> Marked (rtArray m ! j)" by (simp add: cold_unmarked_def)
    with restored_simps [OF r] show ?thesis by (simp add: held_def)
  next
    case False
    with assms(3) j show ?thesis by (auto simp: held_def undone_def)
  qed
qed

lemma undone_cold_unmarked:
  assumes "cold_unmarked m" "undone m m'"
  shows "cold_unmarked m'"
  unfolding cold_unmarked_def
proof (intro ballI impI)
  fix rt assume "rt \<in> set (rtArray m')" "State rt = RuntimeStateCold"
  then obtain j where j: "j < length (rtArray m')" "rt = rtArray m' ! j" by (auto simp: in_set_conv_nth)
  with assms(2) have jm: "j < length (rtArray m)" and r: "restored (rtArray m ! j) rt"
    using same_frame_length by (auto simp: undone_def)
  with assms(1) \<open>State rt = RuntimeStateCold\<close> have "\<not> Marked (rtArray m ! j)"
    using restored_simps [OF r] by (auto simp: cold_unmarked_def)
  then show "\<not> Marked rt" using restored_simps [OF r] by blast
qed

lemma scaled_up_marked_sum:
  assumes sep: "separated m" and cold: "cold_unmarked m" and up: "scaled_up now input m i is m'"
  shows "marked_sum (heap m') (rtArray m') = marked_sum (heap m) (rtArray m) + int64_of (MemorySize_oi input)"
proof -
  let ?rts = "(rtArray m)[i := rtArray m' ! i]"
  have len: "length (rtArray m') = length (rtArray m)" using up same_frame_length by (auto simp: scaled_up_def)
  have occ: "i < length (rtArray m)"
      "CAS OpOccupy (OccupyArgs input) now (heap m) (rtArray m ! i) = Value (Inr (heap m', rtArray m' ! i))"
    using up by (auto simp: scaled_up_def)
  have "marked_sum (heap m') (rtArray m') = marked_sum (heap m') ?rts"
  proof (rule marked_sum_cong)
    fix j assume "j < length ?rts"
    then show "held (heap m') (rtArray m' ! j) = held (heap m') (?rts ! j)"
      using up by (cases "j = i") (auto simp: scaled_up_def held_def)
  qed (simp add: len)
  also have "\<dots> = marked_sum (heap m) (rtArray m) + held (heap m') (rtArray m' ! i) - held (heap m) (rtArray m ! i)"
    using CAS_marked_sum [OF sep occ] .
  also have "held (heap m) (rtArray m ! i) = 0"
    using occ cold by (auto simp: held_def cold_unmarked_def CAS_occupy_iff)
  also have "held (heap m') (rtArray m' ! i) = int64_of (MemorySize_oi input)"
    using occ(2) by (auto simp: held_def CAS_occupy_iff)
  finally show ?thesis by simp
qed

lemma scaled_up_cold_unmarked:
  assumes cold: "cold_unmarked m" and up: "scaled_up now input m i is m'"
  shows "cold_unmarked m'"
  unfolding cold_unmarked_def
proof (intro ballI impI)
  fix rt assume "rt \<in> set (rtArray m')" and c: "State rt = RuntimeStateCold"
  then obtain j where "j < length (rtArray m')" and rt: "rt = rtArray m' ! j" by (auto simp: in_set_conv_nth)
  then have j: "j < length (rtArray m)" using up same_frame_length by (auto simp: scaled_up_def)
  have "j \<noteq> i" using up c rt by (auto simp: scaled_up_def CAS_occupy_iff)
  with up j have "rt = (if j \<in> set is then (rtArray m ! j)\<lparr>State := RuntimeStateMerged, CommitID := CommitID_oi input\<rparr>
      else rtArray m ! j)"
    unfolding scaled_up_def rt by blast
  with c have "rt = rtArray m ! j" by (cases "j \<in> set is") simp_all
  with cold j c show "\<not> Marked rt" by (auto simp: cold_unmarked_def)
qed

text \<open>The whole invariant through the two outcomes, for a manager \<open>m1\<close> that already counts the
  requested memory.\<close>

lemma rm_inv_failed:
  assumes "rm_inv m" "undone (with_marked (i64 (marked_memory m + x)) m) m2"
  shows "rm_inv (with_marked (i64 (marked_memory m2 - x)) m2) \<and> marked_memory m2 = i64 (marked_memory m + x)"
proof -
  let ?m1 = "with_marked (i64 (marked_memory m + x)) m"
  have sep: "separated m" and sep1: "separated ?m1" and fr: "same_frame ?m1 m2"
    using assms by (simp_all add: rm_inv_def with_marked_separated undone_def)
  note sep2 = same_frame_separated [OF fr sep1]
  have mm: "marked_memory m2 = i64 (marked_memory m + x)"
    using same_frame_memory(1) [OF sep1 fr] by simp
  have cold1: "cold_unmarked ?m1" using assms(1) by (simp add: rm_inv_def with_marked_cold)
  have "marked_sum (heap m2) (rtArray m2) = marked_sum (heap m) (rtArray m)"
    using undone_marked_sum [OF sep1 cold1 assms(2)] with_marked_sum [OF sep] by simp
  moreover have "i64 (i64 (marked_memory m + x) - x) = i64 (marked_sum (heap m) (rtArray m))"
    using assms(1) by (simp add: rm_inv_def accounted_def int64_simps)
  ultimately show ?thesis
    using assms mm sep2 same_frame_table [OF fr] undone_cold_unmarked [OF cold1 assms(2)]
    by (auto simp: rm_inv_def accounted_def with_marked_separated with_marked_table with_marked_cold with_marked_sum)
qed

lemma rm_inv_scaled_up:
  assumes "rm_inv m" "scaled_up now input (with_marked (i64 (marked_memory m + int64_of (MemorySize_oi input))) m) i is m'"
  shows "rm_inv m' \<and> marked_memory m' = i64 (marked_memory m + int64_of (MemorySize_oi input))"
proof -
  let ?m1 = "with_marked (i64 (marked_memory m + int64_of (MemorySize_oi input))) m"
  have sep: "separated m" and sep1: "separated ?m1" and fr: "same_frame ?m1 m'"
    using assms by (simp_all add: rm_inv_def with_marked_separated scaled_up_def)
  have mm: "marked_memory m' = i64 (marked_memory m + int64_of (MemorySize_oi input))"
    using same_frame_memory(1) [OF sep1 fr] by simp
  have cold1: "cold_unmarked ?m1" using assms(1) by (simp add: rm_inv_def with_marked_cold)
  have "marked_sum (heap m') (rtArray m') = marked_sum (heap m) (rtArray m) + int64_of (MemorySize_oi input)"
    using scaled_up_marked_sum [OF sep1 cold1 assms(2)] with_marked_sum [OF sep] by simp
  with mm assms(1) have "accounted m'" by (simp add: rm_inv_def accounted_def int64_simps)
  then show ?thesis
    using assms(1) mm same_frame_separated [OF fr sep1] same_frame_table [OF fr] scaled_up_cold_unmarked [OF cold1 assms(2)]
    by (simp add: rm_inv_def with_marked_table)
qed

lemma cas_first_same_frame:
  assumes "cas_first op args now (heap m) (rtArray m) = Value (ri, h, rts)"
  shows "same_frame m (m\<lparr>heap := h, rtArray := rts\<rparr>)"
  using assms by (rule cas_first_cases) (simp_all add: CAS_same_frame)

section \<open>The loops return\<close>

lemma returns_obind: "returns (obind m f) \<longleftrightarrow> (\<exists>x. m = Value x \<and> returns (f x))"
  by (cases m) auto

lemma cas_first_returns:
  assumes "\<And>rt. rt \<in> set rts \<Longrightarrow> returns (CAS op args now h rt)"
  shows "returns (cas_first op args now h rts)"
  using assms
proof (induction rts)
  case (Cons rt rts)
  obtain r where "CAS op args now h rt = Value r" using Cons.prems [of rt] by (auto elim: returnsE)
  moreover obtain x where "cas_first op args now h rts = Value x" using Cons by (auto elim: returnsE)
  ultimately show ?case by (cases x) (auto split: sum.splits)
qed simp

lemma cas_collect_returns:
  assumes "\<And>rt. rt \<in> set rts \<Longrightarrow> returns (CAS op args now h rt)"
    and "\<And>i h1 rt'. CAS op args now h i = Value (Inr (h1, rt')) \<Longrightarrow> h1 = h"
  shows "returns (cas_collect skip op args now n h rts)"
  using assms(1)
proof (induction rts arbitrary: n)
  case (Cons rt rts)
  obtain r where r: "CAS op args now h rt = Value r" using Cons.prems [of rt] by (auto elim: returnsE)
  have rec: "\<exists>x y z. cas_collect skip op args now k h rts = Value (x, y, z)" for k
    using Cons by (metis prod_cases3 list.set_intros(2) returnsE)
  show ?case
  proof (cases r)
    case (Inl e)
    with r rec [of n] show ?thesis by auto
  next
    case (Inr p)
    then obtain h1 rt' where p: "r = Inr (h1, rt')" by (cases p) auto
    with assms(2) r have "h1 = h" by blast
    with r p rec [of n] rec [of "n - 1"] show ?thesis by auto
  qed
qed simp

lemma runtime_CAS_returns:
  assumes "separated m" "args_fit op args" "op \<noteq> OpStop" "rt \<in> set (rtArray m)"
  shows "returns (CAS op args now h rt)"
proof -
  obtain j where "j < length (rtArray m)" "rt = rtArray m ! j" using assms(4) by (auto simp: in_set_conv_nth)
  then have "Resource rt \<noteq> None" using separated_runtime [OF assms(1), of j] by auto
  with assms(2,3) show ?thesis by (simp add: CAS_returns)
qed

lemma quotient_returns: "b \<noteq> 0 \<Longrightarrow> quotient a b = Value (a div b)"
  by (simp add: quotient_def)

lemma scale_count_returns: "b \<noteq> 0 \<Longrightarrow> returns (scale_count a b)"
  by (simp add: scale_count_def quotient_def Let_def)

lemma scale_up_returns:
  assumes sep: "separated m" and base: "BaseMemory (resource m) \<noteq> 0"
  shows "returns (occupyColdWithScaleUpRecommendation now memBytes input0 m)"
proof -
  obtain cpus where cpus: "getMilliCPUsByMemory (MemorySize_oi input0) m = Value cpus"
    by (simp add: getMilliCPUsByMemory_def quotient_returns [OF base] deref_svc [OF sep] svc_ptrs_def)
  let ?input = "input0\<lparr>MilliCPUs_oi := cpus\<rparr>"
  obtain ri h rts where first: "cas_first OpOccupy (OccupyArgs ?input) now (heap m) (rtArray m) = Value (ri, h, rts)"
    using cas_first_returns [OF runtime_CAS_returns [OF sep]] by (metis args_fit.simps(1) CASOpType.distinct(11) prod_cases3 returnsE)
  obtain n where n: "scale_count memBytes (BaseMemory (resource m)) = Value n"
    using scale_count_returns [OF base] by (rule returnsE)
  show ?thesis
  proof (cases rule: cas_first_cases [OF first])
    case 1
    with cpus first show ?thesis by (simp add: occupyColdWithScaleUpRecommendation_def)
  next
    case (2 i rt')
    let ?m1 = "m\<lparr>heap := h, rtArray := (rtArray m)[i := rt']\<rparr>"
    have sep1: "separated ?m1" using same_frame_separated [OF CAS_same_frame [OF 2(2,4)] sep] .
    have "returns (cas_collect (\<lambda>_. False) OpMerged (MergedArgs \<lparr>CommitID_mi = CommitID_oi ?input\<rparr>) now n h ((rtArray m)[i := rt']))"
    proof (rule cas_collect_returns)
      show "returns (CAS OpMerged (MergedArgs \<lparr>CommitID_mi = CommitID_oi ?input\<rparr>) now h rt)"
        if "rt \<in> set ((rtArray m)[i := rt'])" for rt
        using runtime_CAS_returns [OF sep1] that by simp
    qed (rule CAS_merged_heap)
    then obtain "is" h2 rts2 where col: "cas_collect (\<lambda>_. False) OpMerged (MergedArgs \<lparr>CommitID_mi = CommitID_oi ?input\<rparr>) now n h ((rtArray m)[i := rt'])
          = Value (is, h2, rts2)"
      by (metis prod_cases3 returnsE)
    have up: "scaled_up now ?input m i is (m\<lparr>heap := h, rtArray := rts2\<rparr>)" "h2 = h"
      using occupied_then_merged [of i m ?input now h rt' "is" rts2] cas_collect_spec [OF col] CAS_merged_heap 2 by auto
    obtain m3 where "rollback_all now (CommitID_oi ?input) (rev is @ [i]) (m\<lparr>heap := h, rtArray := rts2\<rparr>) = Value m3"
      using rollback_scaled_up [OF sep up(1)] by blast
    with cpus first n 2 col up(2) show ?thesis
      by (simp add: occupyColdWithScaleUpRecommendation_def Let_def)
  qed
qed

end
