(* ===== verification/RtManagerProps.thy ===== *)
theory RtManagerProps
  imports RtManager
begin

text \<open>
  The properties of the runtime manager: its invariant, the accounting of the node's memory, who is
  given which runtime and what is undone on failure, the search for warm runtimes, cool down and
  reset, the statistics, and the synchronisation with the funclet.
\<close>

section \<open>Occupying cold runtimes\<close>

text \<open>\<open>OccupyColdRuntime\<close> and the invariant, for the callers of the manager.\<close>

lemma occupy_keeps_inv:
  assumes "rm_inv m" "OccupyColdRuntime now req m = Value ((ri, recommend), m')"
  shows "rm_inv m'"
proof -
  obtain memSize where out: "occupy_outcome now req memSize m ri recommend m'"
    using OccupyColdRuntime_outcome assms by (metis rm_inv_def)
  let ?mem = "int64_of (functionMemorySizeToBytes memSize)"
  show ?thesis
  proof (cases "i64 (allocatable_memory m - marked_memory m - ?mem) < 0")
    case True
    with out assms(1) show ?thesis by (simp add: occupy_outcome_def)
  next
    case False
    with out consider m2 where "undone (with_marked (i64 (marked_memory m + ?mem)) m) m2"
        "m' = with_marked (i64 (marked_memory m2 - ?mem)) m2"
      | i "is" input where "scaled_up now input (with_marked (i64 (marked_memory m + ?mem)) m) i is m'"
        "MemorySize_oi input = functionMemorySizeToBytes memSize"
      by (auto simp: occupy_outcome_def Let_def)
    then show ?thesis
    proof cases
      case 1
      from rm_inv_failed [OF assms(1) 1(1)] show ?thesis unfolding 1(2) by (rule conjunct1)
    next
      case 2
      then show ?thesis
        using rm_inv_scaled_up [of m now input i "is" m'] assms(1) by simp
    qed
  qed
qed

text \<open>C4: \<open>OccupyColdRuntime\<close> keeps the manager's invariant, whatever its result: resource objects are
  not shared, the table and the array agree, cold runtimes hold no memory, and the counter of marked
  memory is the sum of the memory of the marked runtimes.\<close>

theorem OccupyColdRuntime_inv:
  assumes "rm_inv m" "OccupyColdRuntime now req m = Value ((ri, recommend), m')"
  shows "rm_inv m'"
  using assms by (rule occupy_keeps_inv)

text \<open>C19: Without interference the node is not overcommitted. If the marked memory is within the
  allocatable memory and the function's size is sensible, then after \<open>OccupyColdRuntime\<close> it still is;
  a granted request adds exactly the function's memory and a refused one adds nothing.\<close>

theorem OccupyColdRuntime_no_overcommit:
  assumes "rm_inv m" "OccupyColdRuntime now req m = Value ((ri, recommend), m')"
    and "MemorySize_fc (Configuration_ii req) = Some memSize" "0 \<le> memSize" "memSize < 2 ^ 40"
    and "0 \<le> marked_memory m" "marked_memory m \<le> allocatable_memory m" "allocatable_memory m < 2 ^ 63"
  shows "marked_memory m' = marked_memory m + (if ri = None then 0 else memSize * 2 ^ 20) \<and>
    allocatable_memory m' = allocatable_memory m \<and> marked_memory m' \<le> allocatable_memory m'"
proof -
  obtain ms where ms: "MemorySize_fc (Configuration_ii req) = Some ms" and out: "occupy_outcome now req ms m ri recommend m'"
    using OccupyColdRuntime_outcome assms(1,2) by (metis rm_inv_def)
  define mem where "mem = memSize * 2 ^ 20"
  have sep: "separated m" using assms(1) by (simp add: rm_inv_def)
  have range: "0 \<le> mem" "mem < 2 ^ 60" using assms(4,5) by (simp_all add: mem_def)
  have "uint (functionMemorySizeToBytes memSize) = mem"
    using assms(4,5) by (simp add: functionMemorySizeToBytes_def uint64_of_def mem_def Megabyte_def uint_word_ariths
        take_bit_int_eq_self unsigned_of_int)
  then have mem: "int64_of (functionMemorySizeToBytes memSize) = mem"
    using range by (subst int64_of_small) simp_all
  have A: "i64 (allocatable_memory m - marked_memory m - mem) = allocatable_memory m - marked_memory m - mem"
    using range assms(6-8) by (intro i64_id) (simp add: in_i64_def)
  show ?thesis
  proof (cases "allocatable_memory m - marked_memory m - mem < 0")
    case True
    with out ms assms(3,7) A mem show ?thesis by (simp add: occupy_outcome_def)
  next
    case False
    then have M: "i64 (marked_memory m + mem) = marked_memory m + mem"
      using range assms(6-8) by (intro i64_id) (simp add: in_i64_def)
    let ?m1 = "with_marked (marked_memory m + mem) m"
    have sep1: "separated ?m1" using sep by (rule with_marked_separated)
    have al: "allocatable_memory ?m1 = allocatable_memory m" using sep by (rule with_marked_allocatable)
    from out ms assms(3) A M False mem consider m2 where "ri = None" "undone ?m1 m2"
        "m' = with_marked (i64 (marked_memory m2 - mem)) m2"
      | i "is" input where "ri = Some i" "scaled_up now input ?m1 i is m'"
      by (auto simp: occupy_outcome_def Let_def)
    then show ?thesis
    proof cases
      case 1
      then have f: "same_frame ?m1 m2" by (simp add: undone_def)
      note mm = same_frame_memory [OF sep1 f]
      have "i64 (marked_memory m) = marked_memory m" using assms(6-8) by (intro i64_id) (simp add: in_i64_def)
      with 1 mm al assms(7) show ?thesis
        by (simp add: with_marked_allocatable [OF same_frame_separated [OF f sep1]])
    next
      case 2
      then have f: "same_frame ?m1 m'" by (simp add: scaled_up_def)
      from same_frame_memory [OF sep1 f] 2(1) al False show ?thesis by (simp add: mem_def)
    qed
  qed
qed

text \<open>C15: Who is given a runtime, and which. A granted request got a runtime that was cold and available,
  the first such in the array; it is warming up for the function's commit, marked, with one use
  counted and the function's memory recorded. If the function needs more than one container's memory,
  the recommendation names exactly the computed number of further runtimes, all different from the
  given one, all cold and available before and merged for the same commit now; every other runtime is
  untouched.\<close>

theorem OccupyColdRuntime_given:
  assumes "rm_inv m" "OccupyColdRuntime now req m = Value ((Some i, recommend), m')"
    and "MemorySize_fc (Configuration_ii req) = Some memSize"
  shows "\<exists>is commit. CommitID_fc (Configuration_ii req) = Some commit \<and>
    i < length (rtArray m) \<and> distinct (i # is) \<and> length (rtArray m') = length (rtArray m) \<and>
    (\<forall>j \<in> set (i # is). j < length (rtArray m) \<and> State (rtArray m ! j) = RuntimeStateCold \<and> \<not> Abnormal (rtArray m ! j)) \<and>
    (\<forall>j < i. State (rtArray m ! j) \<noteq> RuntimeStateCold \<or> Abnormal (rtArray m ! j)) \<and>
    State (rtArray m' ! i) = RuntimeStateWarmUp \<and> CommitID (rtArray m' ! i) = commit \<and> Marked (rtArray m' ! i) \<and>
    Concurrency (rtArray m' ! i) = Concurrency (rtArray m ! i) + 1 \<and>
    held (heap m') (rtArray m' ! i) = int64_of (functionMemorySizeToBytes memSize) \<and>
    (\<forall>j < length (rtArray m). j \<noteq> i \<longrightarrow> rtArray m' ! j =
       (if j \<in> set is then (rtArray m ! j)\<lparr>State := RuntimeStateMerged, CommitID := commit\<rparr> else rtArray m ! j)) \<and>
    (if isNeedScale (functionMemorySizeToBytes memSize) m
     then scale_count (functionMemorySizeToBytes memSize) (BaseMemory (resource m)) = Value (int (length is)) \<and>
       recommend = Some \<lparr>TargetMemory = ByteSize (functionMemorySizeToBytes memSize),
         TargetContainer_up = RuntimeID (rtArray m ! i), MergedContainers = map (\<lambda>j. RuntimeID (rtArray m ! j)) is\<rparr>
     else is = [] \<and> recommend = None)"
proof -
  obtain ms where "MemorySize_fc (Configuration_ii req) = Some ms" and out: "occupy_outcome now req ms m (Some i) recommend m'"
    using OccupyColdRuntime_outcome assms(1,2) by (metis rm_inv_def)
  with assms(3) have ms: "ms = memSize" by simp
  let ?memBytes = "functionMemorySizeToBytes memSize"
  from out obtain "is" input where up: "scaled_up now input (with_marked (i64 (marked_memory m + int64_of ?memBytes)) m) i is m'"
      and inp: "MemorySize_oi input = ?memBytes" "Some (CommitID_oi input) = CommitID_fc (Configuration_ii req)"
      and sc: "if isNeedScale ?memBytes m then scale_count ?memBytes (BaseMemory (resource m)) = Value (int (length is)) \<and>
         recommend = Some \<lparr>TargetMemory = ByteSize ?memBytes, TargetContainer_up = RuntimeID (rtArray m ! i),
           MergedContainers = map (\<lambda>j. RuntimeID (rtArray m ! j)) is\<rparr> else is = [] \<and> recommend = None"
    by (auto simp: occupy_outcome_def ms Let_def split: if_splits)
  define h where "h = heap (with_marked (i64 (marked_memory m + int64_of ?memBytes)) m)"
  have occ: "CAS OpOccupy (OccupyArgs input) now h (rtArray m ! i) = Value (Inr (heap m', rtArray m' ! i))"
    using up by (simp add: scaled_up_def h_def)
  have before: "State (rtArray m ! j) \<noteq> RuntimeStateCold \<or> Abnormal (rtArray m ! j)" if "j < i" for j
  proof -
    have "\<forall>j < i. \<exists>e. CAS OpOccupy (OccupyArgs input) now h (rtArray m ! j) = Value (Inl e)"
      using up by (simp add: scaled_up_def h_def)
    with that obtain e where "CAS OpOccupy (OccupyArgs input) now h (rtArray m ! j) = Value (Inl e)" by blast
    then show ?thesis by (auto simp: CAS_Inl cas_check_defs available_def split: if_splits)
  qed
  have "length (rtArray m') = length (rtArray m)"
    using up same_frame_length by (force simp: scaled_up_def)
  moreover have "State (rtArray m ! i) = RuntimeStateCold \<and> \<not> Abnormal (rtArray m ! i) \<and>
      State (rtArray m' ! i) = RuntimeStateWarmUp \<and> CommitID (rtArray m' ! i) = CommitID_oi input \<and> Marked (rtArray m' ! i) \<and>
      Concurrency (rtArray m' ! i) = Concurrency (rtArray m ! i) + 1 \<and> held (heap m') (rtArray m' ! i) = int64_of ?memBytes"
    using occ inp by (auto simp: CAS_occupy_iff held_def)
  ultimately show ?thesis
    using before up inp(2) sc unfolding scaled_up_def with_marked_fields
    by (intro exI [of _ "is"] exI [of _ "CommitID_oi input"]) simp
qed

lemma with_marked_held:
  assumes "separated m" "j < length (rtArray m)"
  shows "held (heap (with_marked v m)) (rtArray m ! j) = held (heap m) (rtArray m ! j)"
proof -
  obtain k where k: "Marked_sr (resource m) = Some k" "Some k \<notin> set (map Resource (rtArray m))" using assms(1) by (rule marked_ptr)
  have r: "Resource (rtArray m ! j) \<in> set (map Resource (rtArray m))" using assms(2) by simp
  then obtain a where "Resource (rtArray m ! j) = Some a" using assms(1) unfolding separated_def by (metis UnI2 set_append)
  with k r show ?thesis by (auto simp: with_marked_def held_def Let_def)
qed

text \<open>C5: What a request that gets nothing leaves behind, also when the scale-up occupied and merged some containers and then found too
  few. What the node counts as marked and the table of runtimes are as before. A runtime is as before, or it was cold and available
  and differs in nothing but this: its last access time is another, its stream mode and mark are off and its commit is
  empty; its state, use counter, flags and identifier are as before. A runtime that was not cold is as before, the memory
  it holds included.\<close>

theorem OccupyColdRuntime_failure_restores:
  assumes "rm_inv m" "OccupyColdRuntime now req m = Value ((None, recommend), m')"
  shows "recommend = None \<and> rtMap m' = rtMap m \<and> marked_memory m' = marked_memory m \<and> length (rtArray m') = length (rtArray m) \<and>
    (\<forall>j < length (rtArray m). rtArray m' ! j = rtArray m ! j \<or>
       State (rtArray m ! j) = RuntimeStateCold \<and> \<not> Abnormal (rtArray m ! j) \<and>
       (\<exists>t. rtArray m' ! j = (rtArray m ! j)\<lparr>State := RuntimeStateCold, LastAccessTime := t, WithStreamMode := False, CommitID := '''', Marked := False\<rparr>)) \<and>
    (\<forall>j < length (rtArray m). State (rtArray m ! j) \<noteq> RuntimeStateCold \<longrightarrow>
       rtArray m' ! j = rtArray m ! j \<and> held (heap m') (rtArray m ! j) = held (heap m) (rtArray m ! j))"
proof -
  obtain memSize where out: "occupy_outcome now req memSize m None recommend m'"
    using OccupyColdRuntime_outcome assms by (metis rm_inv_def)
  let ?mem = "int64_of (functionMemorySizeToBytes memSize)"
  let ?m1 = "with_marked (i64 (marked_memory m + ?mem)) m"
  from out have none: "recommend = None" by (auto simp: occupy_outcome_def Let_def split: if_splits)
  show ?thesis
  proof (cases "m' = m")
    case False
    with out obtain m2 where u: "undone ?m1 m2" and m': "m' = with_marked (i64 (marked_memory m2 - ?mem)) m2"
      by (auto simp: occupy_outcome_def Let_def split: if_splits)
    have sep: "separated m" and sep1: "separated ?m1" using assms(1) by (simp_all add: rm_inv_def with_marked_separated)
    have fr: "same_frame ?m1 m2" using u by (simp add: undone_def)
    have len: "length (rtArray m2) = length (rtArray m)" using same_frame_length [OF fr] by simp
    have r: "rtArray m' ! j = rtArray m ! j \<or> State (rtArray m ! j) = RuntimeStateCold \<and> \<not> Abnormal (rtArray m ! j) \<and>
        (\<exists>t. rtArray m' ! j = (rtArray m ! j)\<lparr>State := RuntimeStateCold, LastAccessTime := t, WithStreamMode := False, CommitID := '''', Marked := False\<rparr>)"
      if "j < length (rtArray m)" for j
    proof -
      have "restored (rtArray m ! j) (rtArray m' ! j)" using u that by (simp add: m' undone_def)
      then show ?thesis by (auto simp: restored_def)
    qed
    have kept: "rtArray m' ! j = rtArray m ! j \<and> held (heap m') (rtArray m ! j) = held (heap m) (rtArray m ! j)"
      if "j < length (rtArray m)" "State (rtArray m ! j) \<noteq> RuntimeStateCold" for j
    proof -
      have 1: "rtArray m2 ! j = rtArray m ! j" "held (heap m2) (rtArray m ! j) = held (heap ?m1) (rtArray m ! j)"
        using u that by (simp_all add: undone_def held_def)
      have "held (heap m') (rtArray m2 ! j) = held (heap m2) (rtArray m2 ! j)"
        unfolding m' using that len by (intro with_marked_held same_frame_separated [OF fr sep1]) simp
      then show ?thesis using 1 with_marked_held [OF sep that(1)] by (simp add: m')
    qed
    have "marked_memory m' = i64 (marked_memory m)"
      using rm_inv_failed [OF assms(1) u] by (simp add: m' int64_simps)
    also have "\<dots> = marked_memory m" using assms(1) by (simp add: rm_inv_def accounted_def)
    finally have "marked_memory m' = marked_memory m" .
    moreover have "rtMap m' = rtMap m" using u by (simp add: m' undone_def same_frame_def)
    moreover have "length (rtArray m') = length (rtArray m)" using len by (simp add: m')
    ultimately show ?thesis using none r kept by blast
  qed (simp add: none)
qed

text \<open>\<open>OccupyColdRuntime\<close> returns: on a well-formed manager with a base memory, for a function with a
  memory size and a commit, no branch dereferences nil, divides by zero or indexes out of range.\<close>

theorem OccupyColdRuntime_returns:
  assumes "rm_inv m" "BaseMemory (resource m) \<noteq> 0"
    and "MemorySize_fc (Configuration_ii req) = Some memSize" "CommitID_fc (Configuration_ii req) = Some commit"
  shows "\<exists>ri recommend m'. OccupyColdRuntime now req m = Value ((ri, recommend), m')"
proof -
  let ?memBytes = "functionMemorySizeToBytes memSize"
  define m1 where "m1 = with_marked (i64 (marked_memory m + int64_of ?memBytes)) m"
  have sep: "separated m" and sep1: "separated m1" and base: "BaseMemory (resource m1) \<noteq> 0"
    using assms(1,2) by (simp_all add: rm_inv_def with_marked_separated m1_def)
  define input where "input = \<lparr>CommitID_oi = commit, WithStreamMode_oi = WithStreamMode_ii req, MemorySize_oi = ?memBytes,
    MilliCPUs_oi = MilliCPUs (cells (heap m1) (the (Default (resource m1))))\<rparr>"
  have d: "deref (heap m1) (Default (resource m1)) = Value (cells (heap m1) (the (Default (resource m1))))"
    by (rule deref_svc(1) [OF sep1]) (simp add: svc_ptrs_def)
  have "\<exists>ri recommend m2. (if \<not> isNeedScale ?memBytes m1
      then obind (cas_first OpOccupy (OccupyArgs input) now (heap m1) (rtArray m1)) (\<lambda>(ri, h, rts).
             Value ((ri, None), m1\<lparr>heap := h, rtArray := rts\<rparr>))
      else occupyColdWithScaleUpRecommendation now ?memBytes input m1) = Value ((ri, recommend), m2) \<and> separated m2"
  proof (cases "isNeedScale ?memBytes m1")
    case True
    have "returns (occupyColdWithScaleUpRecommendation now ?memBytes input m1)"
      using scale_up_returns [OF sep1 base] .
    then obtain ri recommend m2 where run: "occupyColdWithScaleUpRecommendation now ?memBytes input m1 = Value ((ri, recommend), m2)"
      by (metis prod.collapse returnsE)
    have "separated m2"
      by (rule scale_up_cases [OF sep1 run]) (auto simp: undone_def scaled_up_def intro: same_frame_separated [OF _ sep1])
    with run True show ?thesis by simp
  next
    case False
    have "returns (cas_first OpOccupy (OccupyArgs input) now (heap m1) (rtArray m1))"
      using runtime_CAS_returns [OF sep1] by (intro cas_first_returns) simp
    then obtain ri h rts where first: "cas_first OpOccupy (OccupyArgs input) now (heap m1) (rtArray m1) = Value (ri, h, rts)"
      by (metis prod_cases3 returnsE)
    have "separated (m1\<lparr>heap := h, rtArray := rts\<rparr>)"
      using same_frame_separated [OF cas_first_same_frame [OF first] sep1] .
    with first False show ?thesis by auto
  qed
  then obtain ri recommend m2 where part: "(if \<not> isNeedScale ?memBytes m1
      then obind (cas_first OpOccupy (OccupyArgs input) now (heap m1) (rtArray m1)) (\<lambda>(ri, h, rts).
             Value ((ri, None), m1\<lparr>heap := h, rtArray := rts\<rparr>))
      else occupyColdWithScaleUpRecommendation now ?memBytes input m1) = Value ((ri, recommend), m2)" "separated m2"
    by blast
  show ?thesis
    unfolding OccupyColdRuntime_def checkAndMarkResource_eq [OF sep] assms(3,4) Let_def deref_field_Some obind.simps
      m1_def [symmetric]
    using part d by (cases "isNeedScale ?memBytes m1") (simp_all add: input_def [symmetric] ReleaseMarkedResource_eq)
qed

section \<open>Events that move no memory\<close>

definition quiet :: "RuntimeInfo \<Rightarrow> RuntimeInfo \<Rightarrow> bool" where
  "quiet rt rt' \<longleftrightarrow> RuntimeID rt' = RuntimeID rt \<and> Resource rt' = Resource rt \<and> Marked rt' = Marked rt \<and>
     (State rt' = RuntimeStateCold \<longrightarrow> State rt = RuntimeStateCold)"

lemma quiet_refl [simp]: "quiet rt rt"
  by (simp add: quiet_def)

lemma quiet_trans: "quiet a b \<Longrightarrow> quiet b c \<Longrightarrow> quiet a c"
  by (simp add: quiet_def)

lemma rm_inv_quiet:
  assumes inv: "rm_inv m" and len: "length rts' = length (rtArray m)"
    and q: "\<And>j. j < length (rtArray m) \<Longrightarrow> quiet (rtArray m ! j) (rts' ! j)"
  shows "rm_inv (m\<lparr>rtArray := rts'\<rparr>) \<and> same_frame m (m\<lparr>rtArray := rts'\<rparr>) \<and> marked_memory (m\<lparr>rtArray := rts'\<rparr>) = marked_memory m"
proof -
  have f: "same_frame m (m\<lparr>rtArray := rts'\<rparr>)"
    using len q by (auto simp: same_frame_def quiet_def intro!: nth_equalityI)
  have "marked_sum (heap m) rts' = marked_sum (heap m) (rtArray m)"
    using len q by (intro marked_sum_cong) (auto simp: held_def quiet_def)
  moreover have "cold_unmarked (m\<lparr>rtArray := rts'\<rparr>)"
    unfolding cold_unmarked_def
  proof (intro ballI impI)
    fix rt assume "rt \<in> set (rtArray (m\<lparr>rtArray := rts'\<rparr>))" and cold: "State rt = RuntimeStateCold"
    then obtain j where j: "j < length (rtArray m)" "rt = rts' ! j" using len by (auto simp: in_set_conv_nth)
    with inv q [OF j(1)] cold show "\<not> Marked rt" by (simp add: quiet_def rm_inv_def cold_unmarked_def)
  qed
  ultimately show ?thesis
    using inv f same_frame_separated [OF f] same_frame_table [OF f]
    by (simp add: rm_inv_def accounted_def marked_memory_def)
qed

lemma CAS_quiet:
  assumes "CAS op args now h rt = Value (Inr (h', rt'))" "op \<in> {OpMark, OpStop, OpReset, OpRetrieve}"
  shows "h' = h \<and> quiet rt rt'"
  using assms by (auto simp: CAS_Inr cas_set_defs rtinfo_defs Let_def quiet_def split: if_splits)

lemma rm_inv_update_quiet:
  assumes "rm_inv m" "i < length (rtArray m)" "CAS op args now (heap m) (rtArray m ! i) = Value (Inr (h', rt'))"
    "op \<in> {OpMark, OpStop, OpReset, OpRetrieve}"
  shows "rm_inv (m\<lparr>heap := h', rtArray := (rtArray m)[i := rt']\<rparr>)"
    "marked_memory (m\<lparr>heap := h', rtArray := (rtArray m)[i := rt']\<rparr>) = marked_memory m" "h' = heap m"
proof -
  have c: "h' = heap m" "quiet (rtArray m ! i) rt'" using CAS_quiet [OF assms(3,4)] by auto
  have "quiet (rtArray m ! j) ((rtArray m)[i := rt'] ! j)" if "j < length (rtArray m)" for j
    using c(2) that by (cases "j = i") simp_all
  then have "rm_inv (m\<lparr>rtArray := (rtArray m)[i := rt']\<rparr>)"
      "marked_memory (m\<lparr>rtArray := (rtArray m)[i := rt']\<rparr>) = marked_memory m"
    using rm_inv_quiet [OF assms(1), of "(rtArray m)[i := rt']"] by simp_all
  with c(1) show "rm_inv (m\<lparr>heap := h', rtArray := (rtArray m)[i := rt']\<rparr>)"
    "marked_memory (m\<lparr>heap := h', rtArray := (rtArray m)[i := rt']\<rparr>) = marked_memory m" "h' = heap m" by simp_all
qed

text \<open>What the scale-down did to the runtimes other than the target.\<close>

definition retrieved :: "instant \<Rightarrow> instant \<Rightarrow> RuntimeInfo \<Rightarrow> RuntimeInfo \<Rightarrow> bool" where
  "retrieved now deadline rt rt' \<longleftrightarrow>
     (State rt = RuntimeStateMerged \<or> State rt = RuntimeStateReclaiming \<and> LastResetTime rt \<le> deadline) \<and>
     Concurrency rt = 0 \<and> State rt' = RuntimeStateReclaiming \<and> LastResetTime rt' = now"

lemma occupyWithScaleDown_spec:
  assumes inv: "rm_inv m" and run: "occupyWithScaleDownRecommendation now target memBytes m = Value (recommend, m')"
    and t: "target < length (rtArray m)"
  shows "\<exists>is. rm_inv m' \<and> same_frame m m' \<and> marked_memory m' = marked_memory m \<and> heap m' = heap m \<and>
    distinct is \<and> target \<notin> set is \<and> (\<forall>j \<in> set is. j < length (rtArray m)) \<and>
    (\<forall>j < length (rtArray m). if j \<in> set is
       then retrieved now (deadline_before now (MaxRunnerResetTimeout m)) (rtArray m ! j) (rtArray m' ! j)
       else rtArray m' ! j = rtArray m ! j) \<and>
    (\<forall>r. recommend = Some r \<longrightarrow> scale_count memBytes (BaseMemory (resource m)) = Value (int (length is)) \<and>
       r = \<lparr>TargetContainer_down = RuntimeID (rtArray m ! target), ResetContainers = map (\<lambda>j. RuntimeID (rtArray m ! j)) is\<rparr>)"
proof -
  define deadline where "deadline = deadline_before now (MaxRunnerResetTimeout m)"
  define skip :: "RuntimeInfo \<Rightarrow> bool" where "skip = (\<lambda>rt. RuntimeID rt = RuntimeID (rtArray m ! target))"
  from run obtain n "is" h rts where n: "scale_count memBytes (BaseMemory (resource m)) = Value n"
      and col: "cas_collect skip OpRetrieve (RetrieveArgs \<lparr>Deadline_ti = deadline\<rparr>) now n (heap m) (rtArray m) = Value (is, h, rts)"
      and res: "(if int (length is) = n then Value (Some \<lparr>TargetContainer_down = RuntimeID (rtArray m ! target),
           ResetContainers = map (\<lambda>j. RuntimeID (rts ! j)) is\<rparr>, m\<lparr>heap := h, rtArray := rts\<rparr>)
         else Value (None, m\<lparr>heap := h, rtArray := rts\<rparr>)) = Value (recommend, m')"
    by (auto simp: occupyWithScaleDownRecommendation_def Let_def outcome_simps deadline_def skip_def)
  have h: "h = heap m" and c: "collected skip OpRetrieve (RetrieveArgs \<lparr>Deadline_ti = deadline\<rparr>) now (heap m) (rtArray m) is rts"
    using cas_collect_spec [OF col] CAS_retrieve_heap by auto
  have m': "m' = m\<lparr>rtArray := rts\<rparr>" using res h by (auto split: if_splits)
  have each: "if j \<in> set is then retrieved now deadline (rtArray m ! j) (rts ! j) \<and> quiet (rtArray m ! j) (rts ! j) else rts ! j = rtArray m ! j"
    if j: "j < length (rtArray m)" for j
    using collected_nth [OF c j] by (auto simp: retrieved_def CAS_retrieve_iff quiet_def)
  have len: "length rts = length (rtArray m)" "distinct is" "\<forall>j \<in> set is. j < length (rtArray m)" using c by (auto simp: collected_def)
  have "target \<notin> set is" using collected_nth(1) [OF c t] by (auto simp: skip_def)
  moreover have q: "quiet (rtArray m ! j) (rts ! j)" if "j < length (rtArray m)" for j
    using each [OF that] by (auto split: if_splits)
  moreover have "r = \<lparr>TargetContainer_down = RuntimeID (rtArray m ! target), ResetContainers = map (\<lambda>j. RuntimeID (rtArray m ! j)) is\<rparr> \<and>
      n = int (length is)" if "recommend = Some r" for r
    using res that len q by (auto simp: quiet_def split: if_splits)
  ultimately show ?thesis
    using rm_inv_quiet [OF inv len(1) q] each len n unfolding m' deadline_def [symmetric]
    by (intro exI [of _ "is"]) auto
qed

text \<open>The target keeps what its own event made of it; the scale-down touches others only.\<close>

definition scaled_down :: "instant \<Rightarrow> RuntimeManager \<Rightarrow> nat \<Rightarrow> nat list \<Rightarrow> ScaleDownRecommendation option \<Rightarrow>
    RuntimeManager \<Rightarrow> bool" where
  "scaled_down now m i is recommend m' \<longleftrightarrow>
    heap m' = heap m \<and> marked_memory m' = marked_memory m \<and> length (rtArray m') = length (rtArray m) \<and>
    i \<notin> set is \<and> distinct is \<and> (\<forall>j \<in> set is. j < length (rtArray m)) \<and>
    (\<forall>j < length (rtArray m). j \<noteq> i \<longrightarrow> (if j \<in> set is
       then retrieved now (deadline_before now (MaxRunnerResetTimeout m)) (rtArray m ! j) (rtArray m' ! j)
       else rtArray m' ! j = rtArray m ! j)) \<and>
    (\<forall>r. recommend = Some r \<longrightarrow> r = \<lparr>TargetContainer_down = RuntimeID (rtArray m ! i),
       ResetContainers = map (\<lambda>j. RuntimeID (rtArray m ! j)) is\<rparr>)"

lemma scale_down_after_spec:
  assumes inv: "rm_inv m" and i: "i < length (rtArray m)" and op: "op \<in> {OpStop, OpReset}"
    and run: "scale_down_after op args now i m = Value (Inr recommend, m')"
  obtains "is" where "rm_inv m'" "CAS op args now (heap m) (rtArray m ! i) = Value (Inr (heap m, rtArray m' ! i))"
    "scaled_down now m i is recommend m'"
proof -
  from run obtain x where x: "CAS op args now (heap m) (rtArray m ! i) = Value x"
    by (auto simp: scale_down_after_def outcome_simps)
  with run obtain h rt where cas: "CAS op args now (heap m) (rtArray m ! i) = Value (Inr (h, rt))"
    by (cases x) (auto simp: scale_down_after_def)
  define m1 where "m1 = m\<lparr>heap := h, rtArray := (rtArray m)[i := rt]\<rparr>"
  have quiet: "op \<in> {OpMark, OpStop, OpReset, OpRetrieve}" using op by blast
  have m1: "rm_inv m1" "marked_memory m1 = marked_memory m" "h = heap m"
    using rm_inv_update_quiet [OF inv i cas quiet] by (simp_all add: m1_def)
  have id: "RuntimeID rt = RuntimeID (rtArray m ! i)" using CAS_run [OF cas] by (simp add: same_identity_def)
  have "scale_down_after op args now i m = obind (deref h (Resource rt)) (\<lambda>res.
      if \<not> isNeedScale (uint64_of (Memory res)) m1 then Value (Inr None, m1)
      else obind (occupyWithScaleDownRecommendation now i (uint64_of (Memory res)) m1) (\<lambda>(recommend, m2).
             Value (Inr recommend, m2)))"
    unfolding m1_def by (simp add: scale_down_after_def cas Let_def)
  with run obtain res where res: "deref h (Resource rt) = Value res"
      and rest: "(if \<not> isNeedScale (uint64_of (Memory res)) m1
        then Value (Inr None :: rt_error + ScaleDownRecommendation option, m1)
        else obind (occupyWithScaleDownRecommendation now i (uint64_of (Memory res)) m1) (\<lambda>(recommend, m2).
               Value (Inr recommend, m2))) = Value (Inr recommend, m')"
    by (auto simp: obind_Value_conv)
  show thesis
  proof (cases "isNeedScale (uint64_of (Memory res)) m1")
    case False
    with rest have "m' = m1" "recommend = None" by auto
    with m1 cas i show thesis by (intro that [of "[]"]) (simp_all add: m1_def scaled_down_def)
  next
    case True
    with rest have sd: "occupyWithScaleDownRecommendation now i (uint64_of (Memory res)) m1 = Value (recommend, m')"
      by (auto simp: outcome_simps)
    have i1: "i < length (rtArray m1)" using i by (simp add: m1_def)
    obtain "is" where s: "rm_inv m' \<and> same_frame m1 m' \<and> marked_memory m' = marked_memory m1 \<and> heap m' = heap m1 \<and>
        distinct is \<and> i \<notin> set is \<and> (\<forall>j \<in> set is. j < length (rtArray m1)) \<and>
        (\<forall>j < length (rtArray m1). if j \<in> set is
           then retrieved now (deadline_before now (MaxRunnerResetTimeout m1)) (rtArray m1 ! j) (rtArray m' ! j)
           else rtArray m' ! j = rtArray m1 ! j) \<and>
        (\<forall>r. recommend = Some r \<longrightarrow> scale_count (uint64_of (Memory res)) (BaseMemory (resource m1)) = Value (int (length is)) \<and>
           r = \<lparr>TargetContainer_down = RuntimeID (rtArray m1 ! i), ResetContainers = map (\<lambda>j. RuntimeID (rtArray m1 ! j)) is\<rparr>)"
      by (rule exE [OF occupyWithScaleDown_spec [OF m1(1) sd i1]])
    have other: "rtArray m1 ! j = rtArray m ! j" if "j \<noteq> i" for j using that by (simp add: m1_def)
    have same: "MaxRunnerResetTimeout m1 = MaxRunnerResetTimeout m" "length (rtArray m1) = length (rtArray m)" "heap m1 = heap m"
      using m1(3) by (simp_all add: m1_def)
    have "rtArray m' ! i = rt" using s i i1 by (simp add: m1_def)
    have ids: "map (\<lambda>j. RuntimeID (rtArray m1 ! j)) is = map (\<lambda>j. RuntimeID (rtArray m ! j)) is"
    proof (intro map_cong refl)
      fix j assume "j \<in> set is"
      with s have "j \<noteq> i" by blast
      from other [OF this] show "RuntimeID (rtArray m1 ! j) = RuntimeID (rtArray m ! j)" by simp
    qed
    have tid: "RuntimeID (rtArray m1 ! i) = RuntimeID (rtArray m ! i)" using id i by (simp add: m1_def)
    have len: "length (rtArray m') = length (rtArray m)" using s same_frame_length [of m1 m'] by (simp add: m1_def)
    have each: "if j \<in> set is
       then retrieved now (deadline_before now (MaxRunnerResetTimeout m)) (rtArray m ! j) (rtArray m' ! j)
       else rtArray m' ! j = rtArray m ! j" if "j < length (rtArray m)" "j \<noteq> i" for j
    proof -
      have "if j \<in> set is
         then retrieved now (deadline_before now (MaxRunnerResetTimeout m1)) (rtArray m1 ! j) (rtArray m' ! j)
         else rtArray m' ! j = rtArray m1 ! j"
        using s that(1) unfolding same(2) by presburger
      then show ?thesis by (simp only: other [OF that(2)] same(1))
    qed
    have recom: "r = \<lparr>TargetContainer_down = RuntimeID (rtArray m ! i),
       ResetContainers = map (\<lambda>j. RuntimeID (rtArray m ! j)) is\<rparr>" if "recommend = Some r" for r
      using s that unfolding ids tid by simp
    have "scaled_down now m i is recommend m'"
      unfolding scaled_down_def
    proof (intro conjI allI impI)
      show "heap m' = heap m" "marked_memory m' = marked_memory m" using s m1(2) same(3) by simp_all
      show "\<forall>j \<in> set is. j < length (rtArray m)" using s same(2) by simp
    qed (use s len each recom in blast)+
    with s cas m1(3) \<open>rtArray m' ! i = rt\<close> show thesis by (intro that [of "is"]) simp_all
  qed
qed


text \<open>Reset only concerns runtimes whose runner is defunct: nothing was heard from it since the deadline
  and it is abnormal or in a state that only a live runner leaves. The target keeps its state, its
  counters are cleared, the invariant is kept, and the target is not among the containers recommended
  for reset.\<close>

theorem ResetRuntime_defunct_only:
  assumes "rm_inv m" "i < length (rtArray m)" "ResetRuntime now i m = Value (Inr recommend, m')"
  shows "IsRunnerDefunct (deadline_before now (MaxRunnerDefunct m)) (rtArray m ! i) \<and>
    State (rtArray m' ! i) = State (rtArray m ! i) \<and> Concurrency (rtArray m' ! i) = 0 \<and> CommitID (rtArray m' ! i) = '''' \<and>
    rm_inv m' \<and> marked_memory m' = marked_memory m \<and>
    (\<forall>r. recommend = Some r \<longrightarrow> TargetContainer_down r = RuntimeID (rtArray m ! i) \<and>
       RuntimeID (rtArray m ! i) \<notin> set (ResetContainers r))"
proof -
  obtain "is" where inv: "rm_inv m'" and sd: "scaled_down now m i is recommend m'"
      and cas: "CAS OpReset (ResetArgs \<lparr>Deadline_ei = deadline_before now (MaxRunnerDefunct m)\<rparr>) now (heap m) (rtArray m ! i) = Value (Inr (heap m, rtArray m' ! i))"
    using scale_down_after_spec [OF assms(1,2) _ assms(3) [unfolded ResetRuntime_def]] by blast
  have "distinct (map RuntimeID (rtArray m))" using assms(1) table_distinct by (simp add: rm_inv_def)
  moreover have "j < length (rtArray m)" "j \<noteq> i" if "j \<in> set is" for j
    using sd that by (auto simp: scaled_down_def)
  ultimately have "RuntimeID (rtArray m ! i) \<noteq> RuntimeID (rtArray m ! j)" if "j \<in> set is" for j
    using nth_eq_iff_index_eq [of "map RuntimeID (rtArray m)" i j] that assms(2) by auto
  then have "RuntimeID (rtArray m ! i) \<notin> (\<lambda>j. RuntimeID (rtArray m ! j)) ` set is" by blast
  with inv sd cas show ?thesis by (auto simp: CAS_reset_iff scaled_down_def)
qed

section \<open>Warm runtimes\<close>

text \<open>The effect of \<open>FindWarmRuntime\<close>.\<close>

lemma find_warm_effect:
  assumes "rm_inv m" "CommitID_fc (Configuration_ii req) = Some commit" "FindWarmRuntime now req m = Value (ri, m')"
  shows "rm_inv m' \<and> (case ri of
     None \<Rightarrow> m' = m
   | Some i \<Rightarrow> i < length (rtArray m) \<and> rtArray m' = (rtArray m)[i := rtArray m' ! i] \<and>
       State (rtArray m ! i) \<in> {RuntimeStateWarmUp, RuntimeStateWarm} \<and> State (rtArray m' ! i) = State (rtArray m ! i) \<and>
       \<not> Abnormal (rtArray m ! i) \<and> CommitID (rtArray m ! i) = commit \<and>
       Concurrency (rtArray m' ! i) = Concurrency (rtArray m ! i) + 1 \<and>
       (if ConcurrentMode (rtArray m ! i) \<and> PodConcurrentQuota_fc (Configuration_ii req) \<noteq> 0
        then Concurrency (rtArray m ! i) < PodConcurrentQuota_fc (Configuration_ii req) else Concurrency (rtArray m ! i) = 0))"
proof -
  define args where "args = MarkArgs \<lparr>CommitID_ki = commit, ConcurrentQuota = PodConcurrentQuota_fc (Configuration_ii req)\<rparr>"
  from assms obtain h rts where first: "cas_first OpMark args now (heap m) (rtArray m) = Value (ri, h, rts)"
      and m': "m' = m\<lparr>heap := h, rtArray := rts\<rparr>"
    by (auto simp: FindWarmRuntime_def outcome_simps args_def)
  show ?thesis
  proof (rule cas_first_cases [OF first])
    assume "ri = None" "h = heap m" "rts = rtArray m"
    with m' assms(1) show ?thesis by simp
  next
    fix i rt' assume f: "ri = Some i" "i < length (rtArray m)" "rts = (rtArray m)[i := rt']"
      "CAS OpMark args now (heap m) (rtArray m ! i) = Value (Inr (h, rt'))"
    have "rm_inv m'" using rm_inv_update_quiet(1) [OF assms(1) f(2,4)] m' f(3) by simp
    with f m' show ?thesis by (auto simp: args_def CAS_mark_iff)
  qed
qed

text \<open>\<open>FindWarmRuntime\<close> hands out the first runtime that admits the request: a warm or warming, not
  abnormal runtime of the same commit with a free slot, whose use counter goes up by one and stays
  within the quota; no other runtime changes, and the invariant is kept. If it finds none, no runtime
  changed.\<close>

theorem FindWarmRuntime_spec:
  assumes "rm_inv m" "CommitID_fc (Configuration_ii req) = Some commit" "FindWarmRuntime now req m = Value (ri, m')"
  shows "rm_inv m' \<and> (case ri of
     None \<Rightarrow> m' = m
   | Some i \<Rightarrow> i < length (rtArray m) \<and> rtArray m' = (rtArray m)[i := rtArray m' ! i] \<and>
       State (rtArray m ! i) \<in> {RuntimeStateWarmUp, RuntimeStateWarm} \<and> State (rtArray m' ! i) = State (rtArray m ! i) \<and>
       \<not> Abnormal (rtArray m ! i) \<and> CommitID (rtArray m ! i) = commit \<and>
       Concurrency (rtArray m' ! i) = Concurrency (rtArray m ! i) + 1 \<and>
       (if ConcurrentMode (rtArray m ! i) \<and> PodConcurrentQuota_fc (Configuration_ii req) \<noteq> 0
        then Concurrency (rtArray m ! i) < PodConcurrentQuota_fc (Configuration_ii req) else Concurrency (rtArray m ! i) = 0))"
  using assms by (rule find_warm_effect)

section \<open>Two interleaved requests\<close>

text \<open>The test and the addition of \<open>checkAndMarkResource\<close> are two critical sections, and two requests
  that both test before either adds are both admitted although only one fits: the marked memory then
  exceeds the allocatable memory.\<close>

theorem checkAndMark_race:
  assumes "separated m" "0 \<le> marked_memory m" "allocatable_memory m < 2 ^ 62" "0 < mem"
    and "marked_memory m + mem \<le> allocatable_memory m" "allocatable_memory m < marked_memory m + 2 * mem"
  shows "check_resource mem m = Value True \<and>
    (\<exists>m1 m2. mark_resource mem m = Value m1 \<and> mark_resource mem m1 = Value m2 \<and>
       allocatable_memory m2 < marked_memory m2 \<and>
       checkAndMarkResource mem m1 = Value (False, m1))"
proof -
  let ?m1 = "with_marked (marked_memory m + mem) m"
  have s1: "separated ?m1" using assms(1) by (rule with_marked_separated)
  have i1: "i64 (marked_memory m + mem) = marked_memory m + mem"
    using assms by (intro i64_id) (simp add: in_i64_def)
  have i2: "i64 (marked_memory m + mem + mem) = marked_memory m + mem + mem"
    using assms by (intro i64_id) (simp add: in_i64_def)
  have i3: "i64 (allocatable_memory m - marked_memory m - mem) = allocatable_memory m - marked_memory m - mem"
    using assms by (intro i64_id) (simp add: in_i64_def)
  have i4: "i64 (allocatable_memory m - (marked_memory m + mem) - mem) = allocatable_memory m - (marked_memory m + mem) - mem"
    using assms by (intro i64_id) (simp add: in_i64_def)
  have "mark_resource mem m = Value ?m1" using mark_resource_eq [OF assms(1)] i1 by simp
  moreover have "mark_resource mem ?m1 = Value (with_marked (marked_memory m + mem + mem) ?m1)"
    using mark_resource_eq [OF s1] i2 by simp
  moreover have "allocatable_memory (with_marked (marked_memory m + mem + mem) ?m1) = allocatable_memory m"
    using with_marked_allocatable [OF s1] with_marked_allocatable [OF assms(1)] by simp
  moreover have "checkAndMarkResource mem ?m1 = Value (False, ?m1)"
    using checkAndMarkResource_eq [OF s1] i4 assms with_marked_allocatable [OF assms(1)] by simp
  moreover have "check_resource mem m = Value True"
    using check_resource_eq [OF assms(1)] i3 assms by simp
  ultimately show ?thesis using assms(6) by auto
qed

section \<open>The number of containers to merge\<close>

text \<open>The number of containers a scale-up merges is the integer quotient of the memory and the base
  memory minus one, although the code means to round up: unless the base memory divides it, the base
  memories of the target and the merged containers together are less than the memory requested.\<close>

theorem scale_count_floor:
  assumes "base \<noteq> 0" "base < mem" "unat mem < 2 ^ 53"
  shows "scale_count mem base = Value (int (unat mem div unat base) - 1) \<and>
    (unat mem mod unat base \<noteq> 0 \<longrightarrow>
       (\<forall>n. scale_count mem base = Value n \<longrightarrow> (n + 1) * int (unat base) < int (unat mem)))"
proof -
  have b: "0 < unat base" using assms(1) by (simp add: unat_gt_0)
  have "unat base \<le> unat mem" using assms(2) by (simp add: word_less_nat_alt)
  then have q: "0 < unat mem div unat base" using b by (simp add: div_greater_zero_iff)
  have le: "unat mem div unat base \<le> unat mem" by (rule div_le_dividend)
  have "fl 53 (unat mem div unat base) = unat mem div unat base" using le assms(3) by (intro fl_exact) linarith
  moreover have "fl 53 (unat mem div unat base - 1) = unat mem div unat base - 1" using le assms(3) by (intro fl_exact) linarith
  ultimately have sc: "scale_count mem base = Value (int (unat mem div unat base) - 1)"
    using q assms(1) by (simp add: scale_count_def quotient_def unat_div_distrib of_nat_diff)
  have "unat mem = unat mem div unat base * unat base + unat mem mod unat base" by simp
  then have "unat mem div unat base * unat base < unat mem" if "unat mem mod unat base \<noteq> 0"
    using that by linarith
  then have "int (unat mem div unat base) * int (unat base) < int (unat mem)" if "unat mem mod unat base \<noteq> 0"
    using that by (metis of_nat_less_iff of_nat_mult)
  with sc show ?thesis by simp
qed

section \<open>Statistics and the table\<close>

lemma count_states_sum:
  "count_states rts (c, u, a) =
     (c + int (length (filter (\<lambda>rt. State rt = RuntimeStateCold) rts)),
      u + int (length (filter (\<lambda>rt. State rt \<in> {RuntimeStateWarmUp, RuntimeStateWarm}) rts)),
      a + int (length (filter (\<lambda>rt. State rt \<notin> {RuntimeStateMerged, RuntimeStateReclaiming}) rts)))"
  by (induction rts arbitrary: c u a) auto

text \<open>\<open>RuntimeStatistics\<close> counts what it names: the cold runtimes, the runtimes in use, and all runtimes
  that have not lent their memory to another; so cold and in use together are never more than all, and
  all is never more than the number of runtimes.\<close>

theorem RuntimeStatistics_counts:
  "\<exists>cold inUse all. RuntimeStatistics m = (cold, inUse, all) \<and>
     cold = int (length (filter (\<lambda>rt. State rt = RuntimeStateCold) (rtArray m))) \<and>
     inUse = int (length (filter (\<lambda>rt. State rt \<in> {RuntimeStateWarmUp, RuntimeStateWarm}) (rtArray m))) \<and>
     0 \<le> cold \<and> 0 \<le> inUse \<and> cold + inUse \<le> all \<and> all \<le> int (length (rtArray m))"
proof -
  let ?C = "\<lambda>rt. State rt = RuntimeStateCold"
  let ?U = "\<lambda>rt. State rt \<in> {RuntimeStateWarmUp, RuntimeStateWarm}"
  let ?A = "\<lambda>rt. State rt \<notin> {RuntimeStateMerged, RuntimeStateReclaiming}"
  have "length (filter ?C rts) + length (filter ?U rts) \<le> length (filter ?A rts)" for rts
    by (induction rts) auto
  then have "int (length (filter ?C (rtArray m))) + int (length (filter ?U (rtArray m))) \<le> int (length (filter ?A (rtArray m)))"
    by (metis of_nat_add of_nat_mono)
  then show ?thesis
    unfolding RuntimeStatistics_def RuntimeList_def count_states_sum
    by (auto simp: length_filter_le)
qed

text \<open>What \<open>NewRuntime\<close> registers, \<open>GetRuntime\<close> finds, and other identifiers are not affected; an identifier
  that is taken is refused and nothing changes.\<close>

theorem NewRuntime_GetRuntime:
  "case NewRuntime now params m of
     (None, m') \<Rightarrow> m' = m \<and> (\<exists>k. GetRuntime (RuntimeID_np params) m = Inr k)
   | (Some i, m') \<Rightarrow> GetRuntime (RuntimeID_np params) m = Inl (RuntimeNotExist (RuntimeID_np params)) \<and>
       GetRuntime (RuntimeID_np params) m' = Inr i \<and> RuntimeID (rtArray m' ! i) = RuntimeID_np params \<and>
       rtArray m' = rtArray m @ [rtArray m' ! i] \<and>
       (\<forall>id. id \<noteq> RuntimeID_np params \<longrightarrow> GetRuntime id m' = GetRuntime id m)"
  by (auto simp: NewRuntime_def GetRuntime_def NewRuntimeInfo_def SetState_def Let_def split: option.splits)

section \<open>Synchronisation with the funclet\<close>

text \<open>The effect of \<open>SyncResource\<close>.\<close>

lemma SyncResource_effect:
  assumes "rm_inv m" "Allocatable_fr rs = Some al" "Capacity_fr rs = Some ca" "Default_fr rs = Some de"
  shows "\<exists>ok m'. SyncResource rs m = Value (ok, m') \<and> rm_inv m' \<and> marked_memory m' = marked_memory m \<and>
    rtArray m' = rtArray m \<and>
    (ok \<longleftrightarrow> Memory (cells (heap m) (the (Used_sr (resource m)))) \<le> Memory al) \<and>
    (if ok then ResourceStatistics m' = (ResourceStatistics m)\<lparr>Capacity_v := Some ca, Allocatable_v := Some al,
        Default_v := Some de, BaseMemory_v := BaseMemory_fr rs\<rparr> else m' = m)"
proof -
  have sep: "separated m" using assms(1) by (simp add: rm_inv_def)
  obtain c a u k d where r: "Capacity (resource m) = Some c" "Allocatable (resource m) = Some a" "Used_sr (resource m) = Some u"
      "Marked_sr (resource m) = Some k" "Default (resource m) = Some d"
    using svc_ptr_Some [OF sep] by blast
  have dist: "distinct [c, a, u, k, d]"
    and out: "x \<in> {c, a, d} \<Longrightarrow> Some x \<notin> set (map Resource (rtArray m))" for x
    using sep r by (auto simp: separated_def svc_ptrs_def)
  show ?thesis
  proof (cases "Memory al < Memory (cells (heap m) u)")
    case True
    with r assms show ?thesis by (auto simp: SyncResource_def)
  next
    case False
    define h where "h = Sync (Sync (Sync (heap m) (Some c) (Some ca)) (Some a) (Some al)) (Some d) (Some de)"
    define m' where "m' = m\<lparr>heap := h, resource := (resource m)\<lparr>BaseMemory := BaseMemory_fr rs\<rparr>\<rparr>"
    have run: "SyncResource rs m = Value (True, m')"
      using False r assms(2-4) by (simp add: SyncResource_def h_def m'_def Let_def)
    have h: "cells h c = ca" "cells h a = al" "cells h d = de" "hp_next h = hp_next (heap m)"
        "x \<notin> {c, a, d} \<Longrightarrow> cells h x = cells (heap m) x" for x
      using dist by (auto simp: h_def Sync_other)
    have "held h rt = held (heap m) rt" if rt: "rt \<in> set (rtArray m)" for rt
    proof -
      obtain j where j: "j < length (rtArray m)" "rt = rtArray m ! j" using rt by (auto simp: in_set_conv_nth)
      obtain x where "Resource rt = Some x" using separated_runtime [OF sep j(1)] j(2) by blast
      moreover have "Some x \<in> set (map Resource (rtArray m))" using that calculation by force
      then have "x \<notin> {c, a, d}" using out by blast
      ultimately show ?thesis using h(5) by (simp add: held_def)
    qed
    then have "marked_sum h (rtArray m) = marked_sum (heap m) (rtArray m)"
      by (intro marked_sum_cong) simp_all
    moreover have mm: "marked_memory m' = marked_memory m"
      using h(5) [of k] dist r by (auto simp: marked_memory_def m'_def)
    moreover have "separated m'" using sep h(4) by (simp add: separated_def svc_ptrs_def m'_def)
    ultimately have "rm_inv m'"
      using assms(1) by (simp add: rm_inv_def accounted_def table_ok_def cold_unmarked_def m'_def)
    moreover have "ResourceStatistics m' = (ResourceStatistics m)\<lparr>Capacity_v := Some ca, Allocatable_v := Some al,
        Default_v := Some de, BaseMemory_v := BaseMemory_fr rs\<rparr>"
      using r h(1-3) h(5) [of u] h(5) [of k] dist
      by (auto simp: ResourceStatistics_def ServiceResource_Copy_def m'_def)
    ultimately show ?thesis using run False mm r by (intro exI [of _ True] exI [of _ m']) (simp add: m'_def)
  qed
qed

text \<open>\<open>SyncResource\<close> takes over what the funclet reports unless the reported allocatable memory is below
  what is already in use; then it refuses and changes nothing. On a well-formed manager it does not
  touch the counters of used and marked memory or any runtime, and keeps the invariant.\<close>

theorem SyncResource_spec:
  assumes "rm_inv m" "Allocatable_fr rs = Some al" "Capacity_fr rs = Some ca" "Default_fr rs = Some de"
  shows "\<exists>ok m'. SyncResource rs m = Value (ok, m') \<and> rm_inv m' \<and> marked_memory m' = marked_memory m \<and>
    rtArray m' = rtArray m \<and>
    (ok \<longleftrightarrow> Memory (cells (heap m) (the (Used_sr (resource m)))) \<le> Memory al) \<and>
    (if ok then ResourceStatistics m' = (ResourceStatistics m)\<lparr>Capacity_v := Some ca, Allocatable_v := Some al,
        Default_v := Some de, BaseMemory_v := BaseMemory_fr rs\<rparr> else m' = m)"
  using assms by (rule SyncResource_effect)

text \<open>The effect of \<open>SyncRuntimeResource\<close>.\<close>

lemma SyncRuntimeResource_effect:
  assumes "rm_inv m" "GetRuntime ID m = Inr i"
  shows "if Used (rtArray m ! i) \<or> Marked (rtArray m ! i)
    then SyncRuntimeResource ID rs m = (Inl (RuntimeSyncError ID ''runtime in used''), m)
    else \<exists>m'. SyncRuntimeResource ID rs m = (Inr True, m') \<and> rm_inv m' \<and>
      ResourceStatistics m' = ResourceStatistics m \<and> rtArray m' = rtArray m"
proof (cases "Used (rtArray m ! i) \<or> Marked (rtArray m ! i)")
  case True
  with assms(2) show ?thesis by (simp add: SyncRuntimeResource_def Let_def)
next
  case False
  have sep: "separated m" using assms(1) by (simp add: rm_inv_def)
  have i: "i < length (rtArray m)"
    using assms by (auto simp: GetRuntime_def rm_inv_def table_ok_def split: option.splits)
  obtain a where a: "Resource (rtArray m ! i) = Some a" using separated_runtime [OF sep i] by blast
  define m' where "m' = m\<lparr>heap := Sync (heap m) (Some a) rs\<rparr>"
  have run: "SyncRuntimeResource ID rs m = (Inr True, m')"
    using False assms(2) a by (simp add: SyncRuntimeResource_def Let_def m'_def)
  have in_rts: "Some a \<in> set (map Resource (rtArray m))" using a i by (metis length_map nth_map nth_mem)
  have frame: "same_frame m m'"
    using in_rts by (auto simp: same_frame_def m'_def intro!: Sync_other)
  have "marked_sum (heap m') (rtArray m') = marked_sum (heap m) (rtArray m)"
  proof (rule marked_sum_cong)
    fix j assume j: "j < length (rtArray m)"
    show "held (heap m') (rtArray m' ! j) = held (heap m) (rtArray m ! j)"
    proof (cases "j = i")
      case True
      with False show ?thesis by (simp add: held_def m'_def)
    next
      case ne: False
      have "heap_frame (Resource (rtArray m ! i)) (heap m) (heap m')" using a by (auto simp: heap_frame_def m'_def Sync_other)
      from held_other [OF sep i j ne this] show ?thesis by (simp add: m'_def)
    qed
  qed (simp add: m'_def)
  then have "rm_inv m'"
    using assms(1) same_frame_separated [OF frame sep] same_frame_table [OF frame] same_frame_memory(1) [OF sep frame]
    by (simp add: rm_inv_def accounted_def cold_unmarked_def m'_def)
  moreover have "Copy (heap m') p = Copy (heap m) p" if "p \<in> set (svc_ptrs m)" for p
    using same_frame_svc [OF sep frame] that by (cases p) auto
  then have "ResourceStatistics m' = ResourceStatistics m"
    by (simp add: ResourceStatistics_def ServiceResource_Copy_def svc_ptrs_def m'_def)
  ultimately show ?thesis using False run by (auto simp: m'_def)
qed

text \<open>A runtime in use is not resized behind its back: \<open>SyncRuntimeResource\<close> refuses a runtime that is
  used or marked and changes nothing; otherwise it writes the runtime's own object only, so the
  invariant and every counter stay.\<close>

theorem SyncRuntimeResource_spec:
  assumes "rm_inv m" "GetRuntime ID m = Inr i"
  shows "if Used (rtArray m ! i) \<or> Marked (rtArray m ! i)
    then SyncRuntimeResource ID rs m = (Inl (RuntimeSyncError ID ''runtime in used''), m)
    else \<exists>m'. SyncRuntimeResource ID rs m = (Inr True, m') \<and> rm_inv m' \<and>
      ResourceStatistics m' = ResourceStatistics m \<and> rtArray m' = rtArray m"
  using assms by (rule SyncRuntimeResource_effect)

text \<open>A container the funclet lists without a resource shares the node's default object: after
  \<open>NewRuntime\<close>, occupying that runtime overwrites the node's default memory and CPU share with the
  function's, and rolling the occupation back sets the default to zero.\<close>

theorem NewRuntime_shares_default:
  assumes "NewRuntime now params m = (Some i, m1)" "Resource_np params = None" "Default (resource m) = Some d"
    and "CAS OpOccupy (OccupyArgs p) now1 (heap m1) ((rtArray m1 ! i)\<lparr>State := RuntimeStateCold\<rparr>) = Value (Inr (h2, rt2))"
  shows "cells h2 d = \<lparr>MilliCPUs = MilliCPUs_oi p, Memory = int64_of (MemorySize_oi p)\<rparr> \<and>
    (\<exists>h3 rt3. CAS OpRollback (RollbackArgs \<lparr>CommitID_ri = CommitID_oi p\<rparr>) now2 h2 rt2 = Value (Inr (h3, rt3)) \<and>
      cells h3 d = \<lparr>MilliCPUs = 0, Memory = 0\<rparr>)"
proof -
  have res: "Resource (rtArray m1 ! i) = Some d"
    using assms(1-3) by (auto simp: NewRuntime_def NewRuntimeInfo_def SetState_def Let_def split: option.splits)
  with assms(4) have "cells h2 d = \<lparr>MilliCPUs = MilliCPUs_oi p, Memory = int64_of (MemorySize_oi p)\<rparr>"
    by (auto simp: CAS_occupy_iff Resource_set_both)
  moreover have "may_roll_back (CommitID_oi p) rt2" "Resource rt2 = Some d"
    using rolled_occupied [OF assms(4)] res by auto
  ultimately show ?thesis
    by (simp add: CAS_rollback_ready NewResource_def)
qed

section \<open>A small node\<close>

text \<open>Two cold runtimes on a node with 1 GiB to allocate and a base memory of 128 MiB; the properties
  above are applied to it.\<close>

definition sample_manager :: RuntimeManager where
  "sample_manager = \<lparr>MaxRuntimeIdle = 60, MaxRunnerDefunct = 10, MaxRunnerResetTimeout = 10,
     rtMap = [''a'' \<mapsto> 0, ''b'' \<mapsto> Suc 0], rtArray = [sample_runtime ''a'' 5, sample_runtime ''b'' 6],
     resource = \<lparr>Capacity = Some 0, Allocatable = Some 1, Used_sr = Some 2, Marked_sr = Some 3, Default = Some 4,
       BaseMemory = 134217728\<rparr>,
     heap = \<lparr>cells = (\<lambda>_. \<lparr>MilliCPUs = 0, Memory = 0\<rparr>)(1 := \<lparr>MilliCPUs = 8000, Memory = 1073741824\<rparr>), hp_next = 7\<rparr>\<rparr>"

definition sample_request :: "int64 \<Rightarrow> InvocationInput" where
  "sample_request mb = \<lparr>Runtime_ii = None, ExternalRequestID_ii = ''e'', RequestID_ii = ''r'',
     Configuration_ii = \<lparr>FunctionArn_fc = None, Runtime_fc = None, MemorySize_fc = Some mb, Timeout_fc = Some 3,
       CommitID_fc = Some ''c1'', Uid_fc = '''', PodConcurrentQuota_fc = 0\<rparr>,
     WithStreamMode_ii = False, EnableMetrics_ii = False, IsLogTail_ii = False, InvokeType_ii = '''', TriggerType_ii = ''''\<rparr>"

lemma sample_manager_inv: "rm_inv sample_manager"
proof (rule rm_invI)
  show "separated sample_manager" by (simp add: sample_manager_def separated_def svc_ptrs_def)
  show "table_ok sample_manager"
    unfolding table_ok_def
  proof (intro allI)
    fix i k
    show "rtMap sample_manager i = Some k \<longleftrightarrow> k < length (rtArray sample_manager) \<and> RuntimeID (rtArray sample_manager ! k) = i"
      by (cases k) (auto simp: sample_manager_def less_Suc_eq)
  qed
  show "cold_unmarked sample_manager" by (simp add: sample_manager_def cold_unmarked_def)
  show "accounted sample_manager"
    by (simp add: sample_manager_def accounted_def marked_memory_def marked_sum_def held_def)
qed

lemma sample_memory: "marked_memory sample_manager = 0" "allocatable_memory sample_manager = 1073741824"
  by (simp_all add: sample_manager_def marked_memory_def allocatable_memory_def)

lemma sample_occupied:
  "\<exists>recommend m'. OccupyColdRuntime 5 (sample_request 128) sample_manager = Value ((Some 0, recommend), m')"
proof -
  have mem: "functionMemorySizeToBytes 128 = 134217728"
    by (simp add: functionMemorySizeToBytes_def uint64_of_def Megabyte_def)
  have i: "int64_of 134217728 = 134217728" by (simp add: int64_of_def i64_def)
  have w: "i64 939524096 = 939524096" "i64 134217728 = 134217728" "i64 1073741824 = 1073741824" by (simp_all add: i64_def)
  show ?thesis
    by (simp add: OccupyColdRuntime_def sample_request_def mem i checkAndMarkResource_def check_resource_def mark_resource_def
        sample_manager_def w isNeedScale_def CAS_eq_locked CAS_locked_def cas_check_defs cas_set_defs rtinfo_defs Let_def SetResource_def)
qed

theorem OccupyColdRuntime_inv_witness:
  "\<exists>recommend m'. OccupyColdRuntime 5 (sample_request 128) sample_manager = Value ((Some 0, recommend), m') \<and> rm_inv m'"
  using sample_occupied OccupyColdRuntime_inv [OF sample_manager_inv, of 5 "sample_request 128" "Some 0"] by blast

theorem OccupyColdRuntime_no_overcommit_witness:
  "\<exists>recommend m'. OccupyColdRuntime 5 (sample_request 128) sample_manager = Value ((Some 0, recommend), m') \<and>
     marked_memory m' = 134217728 \<and> marked_memory m' \<le> allocatable_memory m'"
proof -
  obtain recommend m' where run: "OccupyColdRuntime 5 (sample_request 128) sample_manager = Value ((Some 0, recommend), m')"
    using sample_occupied by blast
  have "MemorySize_fc (Configuration_ii (sample_request 128)) = Some 128" by (simp add: sample_request_def)
  from OccupyColdRuntime_no_overcommit [OF sample_manager_inv run this] have
    "marked_memory m' = 134217728 \<and> marked_memory m' \<le> allocatable_memory m'"
    by (simp add: sample_memory)
  with run show ?thesis by blast
qed

theorem OccupyColdRuntime_given_witness:
  "\<exists>recommend m'. OccupyColdRuntime 5 (sample_request 128) sample_manager = Value ((Some 0, recommend), m') \<and>
     State (rtArray m' ! 0) = RuntimeStateWarmUp \<and> Concurrency (rtArray m' ! 0) = 1"
proof -
  obtain recommend m' where run: "OccupyColdRuntime 5 (sample_request 128) sample_manager = Value ((Some 0, recommend), m')"
    using sample_occupied by blast
  have "MemorySize_fc (Configuration_ii (sample_request 128)) = Some 128" by (simp add: sample_request_def)
  from OccupyColdRuntime_given [OF sample_manager_inv run this]
  have "State (rtArray m' ! 0) = RuntimeStateWarmUp" "Concurrency (rtArray m' ! 0) = Concurrency (rtArray sample_manager ! 0) + 1"
    by blast+
  with run show ?thesis by (simp add: sample_manager_def)
qed

text \<open>A function of four containers' memory on the node with two: the first is occupied, the second merged, and both are rolled back.\<close>

lemma sample_half_way:
  "(case OccupyColdRuntime 5 (sample_request 512) sample_manager of
     Panic _ \<Rightarrow> False
   | Value ((ri, recommend), m') \<Rightarrow> ri = None \<and> recommend = None \<and> LastAccessTime (rtArray m' ! 0) = 5)"
proof -
  have fl: "fl 53 4 = 4" "fl 53 3 = 3" by code_simp+
  have mem: "functionMemorySizeToBytes 512 = 536870912"
    by (simp add: functionMemorySizeToBytes_def uint64_of_def Megabyte_def)
  show ?thesis
    by (simp add: OccupyColdRuntime_def occupyColdWithScaleUpRecommendation_def getMilliCPUsByMemory_def quotient_def scale_count_def rollbackRuntime_def
        sample_request_def mem checkAndMarkResource_def check_resource_def mark_resource_def ReleaseMarkedResource_def
        sample_manager_def isNeedScale_def CAS_eq_locked CAS_locked_def cas_check_defs cas_set_defs rtinfo_defs Let_def SetResource_def i64_def int64_of_def fl)
qed

theorem OccupyColdRuntime_failure_restores_witness:
  "\<exists>m'. OccupyColdRuntime 5 (sample_request 512) sample_manager = Value ((None, None), m') \<and> LastAccessTime (rtArray m' ! 0) = 5 \<and>
     State (rtArray m' ! 0) = RuntimeStateCold \<and> Concurrency (rtArray m' ! 0) = 0 \<and> State (rtArray m' ! 1) = RuntimeStateCold \<and> marked_memory m' = 0"
proof -
  obtain m' where run: "OccupyColdRuntime 5 (sample_request 512) sample_manager = Value ((None, None), m')" "LastAccessTime (rtArray m' ! 0) = 5"
    using sample_half_way by (auto split: outcome.splits prod.splits)
  have rts: "rtArray sample_manager = [sample_runtime ''a'' 5, sample_runtime ''b'' 6]" by (simp add: sample_manager_def)
  note f = OccupyColdRuntime_failure_restores [OF sample_manager_inv run(1)]
  have "State (rtArray m' ! j) = RuntimeStateCold \<and> Concurrency (rtArray m' ! j) = 0" if "j < 2" for j
  proof -
    have "State (rtArray sample_manager ! j) = RuntimeStateCold" "Concurrency (rtArray sample_manager ! j) = 0"
      using that by (auto simp: rts less_2_cases_iff)
    moreover have "j < length (rtArray sample_manager)" using that by (simp add: rts)
    ultimately show ?thesis using f by fastforce
  qed
  from this [of 0] this [of 1] f run show ?thesis by (simp add: sample_memory)
qed

theorem OccupyColdRuntime_returns_witness:
  "\<exists>ri recommend m'. OccupyColdRuntime 5 (sample_request 300) sample_manager = Value ((ri, recommend), m')"
proof -
  have "BaseMemory (resource sample_manager) \<noteq> 0" by (simp add: sample_manager_def)
  moreover have "MemorySize_fc (Configuration_ii (sample_request 300)) = Some 300"
    "CommitID_fc (Configuration_ii (sample_request 300)) = Some ''c1''" by (simp_all add: sample_request_def)
  ultimately show ?thesis by (rule OccupyColdRuntime_returns [OF sample_manager_inv])
qed

theorem checkAndMark_race_witness:
  "\<exists>m1 m2. mark_resource 671088640 sample_manager = Value m1 \<and> mark_resource 671088640 m1 = Value m2 \<and>
     allocatable_memory m2 < marked_memory m2"
proof -
  have "separated sample_manager" using sample_manager_inv by (simp add: rm_inv_def)
  from checkAndMark_race [OF this, of 671088640] show ?thesis by (auto simp: sample_memory)
qed

theorem scale_count_floor_witness: "scale_count 201326592 134217728 = Value 0"
  using scale_count_floor [of 134217728 201326592] by simp

definition sample_report :: FuncletResource where
  "sample_report = \<lparr>BaseMemory_fr = 268435456, Default_fr = Some \<lparr>MilliCPUs = 500, Memory = 1\<rparr>,
     Capacity_fr = Some \<lparr>MilliCPUs = 9000, Memory = 2\<rparr>, Reserved_fr = None,
     Allocatable_fr = Some \<lparr>MilliCPUs = 8000, Memory = 3\<rparr>\<rparr>"

theorem SyncResource_spec_witness: "\<exists>m'. SyncResource sample_report sample_manager = Value (True, m') \<and> rm_inv m'"
proof -
  have "Allocatable_fr sample_report = Some \<lparr>MilliCPUs = 8000, Memory = 3\<rparr>"
    "Capacity_fr sample_report = Some \<lparr>MilliCPUs = 9000, Memory = 2\<rparr>"
    "Default_fr sample_report = Some \<lparr>MilliCPUs = 500, Memory = 1\<rparr>" by (simp_all add: sample_report_def)
  from SyncResource_spec [OF sample_manager_inv this] obtain ok m' where
    "SyncResource sample_report sample_manager = Value (ok, m')" "rm_inv m'"
    "ok \<longleftrightarrow> Memory (cells (heap sample_manager) (the (Used_sr (resource sample_manager)))) \<le> 3" by auto
  then show ?thesis by (simp add: sample_manager_def)
qed

theorem SyncRuntimeResource_spec_witness:
  "\<exists>m'. SyncRuntimeResource ''b'' (Some \<lparr>MilliCPUs = 1, Memory = 2\<rparr>) sample_manager = (Inr True, m') \<and> rm_inv m'"
proof -
  have g: "GetRuntime ''b'' sample_manager = Inr (Suc 0)" by (simp add: GetRuntime_def sample_manager_def)
  have "\<not> (Used (rtArray sample_manager ! Suc 0) \<or> Marked (rtArray sample_manager ! Suc 0))" by (simp add: sample_manager_def)
  then show ?thesis
    using SyncRuntimeResource_spec [OF sample_manager_inv g, of "Some \<lparr>MilliCPUs = 1, Memory = 2\<rparr>"] by auto
qed

text \<open>The same node with its first runtime warm for commit \<open>c1\<close>.\<close>

definition sample_warm :: RuntimeManager where
  "sample_warm = sample_manager\<lparr>rtArray := [(sample_runtime ''a'' 5)\<lparr>State := RuntimeStateWarm, CommitID := ''c1''\<rparr>,
     sample_runtime ''b'' 6]\<rparr>"

lemma sample_warm_inv: "rm_inv sample_warm"
proof -
  let ?rts = "[(sample_runtime ''a'' 5)\<lparr>State := RuntimeStateWarm, CommitID := ''c1''\<rparr>, sample_runtime ''b'' 6]"
  have "quiet (rtArray sample_manager ! j) (?rts ! j)" if "j < length (rtArray sample_manager)" for j
    using that by (auto simp: sample_manager_def less_Suc_eq quiet_def)
  moreover have "length ?rts = length (rtArray sample_manager)" by (simp add: sample_manager_def)
  ultimately show ?thesis
    unfolding sample_warm_def using rm_inv_quiet [OF sample_manager_inv] by blast
qed

lemma sample_warm_length: "0 < length (rtArray sample_warm)"
  by (simp add: sample_warm_def)

lemmas sample_eval = sample_warm_def sample_manager_def sample_request_def CAS_eq_locked CAS_locked_def
  cas_check_defs cas_set_defs rtinfo_defs Let_def

theorem FindWarmRuntime_spec_witness:
  "\<exists>m'. FindWarmRuntime 7 (sample_request 128) sample_warm = Value (Some 0, m') \<and> Concurrency (rtArray m' ! 0) = 1"
proof -
  obtain m' where run: "FindWarmRuntime 7 (sample_request 128) sample_warm = Value (Some 0, m')"
    by (simp add: FindWarmRuntime_def sample_eval sample_runtime_def NewRuntimeInfo_def)
  have "CommitID_fc (Configuration_ii (sample_request 128)) = Some ''c1''" by (simp add: sample_request_def)
  from FindWarmRuntime_spec [OF sample_warm_inv this run] run show ?thesis by (simp add: sample_warm_def)
qed

lemma sample_cool:
  "\<exists>recommend m'. CoolDownRuntime 100000000000 0 sample_warm = Value (Inr recommend, m')"
  by (simp add: CoolDownRuntime_def scale_down_after_def sample_eval deadline_before_def i64_def sample_runtime_def
      NewRuntimeInfo_def isNeedScale_def uint64_of_def)


text \<open>The same node with its first runtime abnormal.\<close>

definition sample_abnormal :: RuntimeManager where
  "sample_abnormal = sample_manager\<lparr>rtArray := [(sample_runtime ''a'' 5)\<lparr>Abnormal := True\<rparr>, sample_runtime ''b'' 6]\<rparr>"

lemma sample_abnormal_inv: "rm_inv sample_abnormal"
proof -
  let ?rts = "[(sample_runtime ''a'' 5)\<lparr>Abnormal := True\<rparr>, sample_runtime ''b'' 6]"
  have "quiet (rtArray sample_manager ! j) (?rts ! j)" if "j < length (rtArray sample_manager)" for j
    using that by (auto simp: sample_manager_def less_Suc_eq quiet_def)
  moreover have "length ?rts = length (rtArray sample_manager)" by (simp add: sample_manager_def)
  ultimately show ?thesis
    unfolding sample_abnormal_def using rm_inv_quiet [OF sample_manager_inv] by blast
qed

theorem ResetRuntime_defunct_only_witness:
  "\<exists>recommend m'. ResetRuntime 100000000000 0 sample_abnormal = Value (Inr recommend, m') \<and>
     State (rtArray m' ! 0) = RuntimeStateCold"
proof -
  obtain recommend m' where run: "ResetRuntime 100000000000 0 sample_abnormal = Value (Inr recommend, m')"
    by (simp add: ResetRuntime_def scale_down_after_def sample_eval sample_abnormal_def deadline_before_def i64_def
        sample_runtime_def NewRuntimeInfo_def isNeedScale_def uint64_of_def IsRunnerDefunct_def)
  have "0 < length (rtArray sample_abnormal)" by (simp add: sample_abnormal_def)
  from ResetRuntime_defunct_only [OF sample_abnormal_inv this run] run show ?thesis by (simp add: sample_abnormal_def)
qed

theorem NewRuntime_shares_default_witness:
  "\<exists>m1 h2 rt2. NewRuntime 1 \<lparr>RuntimeID_np = ''c'', ConcurrentMode_np = False, StreamMode_np = False,
       WaitRuntimeAliveTimeout_np = 3, IsFrozen_np = False, Resource_np = None\<rparr> sample_manager = (Some 2, m1) \<and>
     CAS OpOccupy (OccupyArgs \<lparr>CommitID_oi = ''c1'', WithStreamMode_oi = False, MemorySize_oi = 5, MilliCPUs_oi = 7\<rparr>) 2
       (heap m1) ((rtArray m1 ! 2)\<lparr>State := RuntimeStateCold\<rparr>) = Value (Inr (h2, rt2)) \<and>
     cells h2 4 = \<lparr>MilliCPUs = 7, Memory = 5\<rparr>"
proof -
  let ?params = "\<lparr>RuntimeID_np = ''c'', ConcurrentMode_np = False, StreamMode_np = False,
       WaitRuntimeAliveTimeout_np = 3, IsFrozen_np = False, Resource_np = None\<rparr>"
  let ?p = "\<lparr>CommitID_oi = ''c1'', WithStreamMode_oi = False, MemorySize_oi = 5, MilliCPUs_oi = 7\<rparr>"
  obtain m1 where new: "NewRuntime 1 ?params sample_manager = (Some 2, m1)"
      and m1: "Resource (rtArray m1 ! 2) = Some 4" "Abnormal (rtArray m1 ! 2) = False"
    by (simp add: NewRuntime_def sample_manager_def NewRuntimeInfo_def Let_def)
  obtain h2 rt2 where occ: "CAS OpOccupy (OccupyArgs ?p) 2 (heap m1) ((rtArray m1 ! 2)\<lparr>State := RuntimeStateCold\<rparr>) = Value (Inr (h2, rt2))"
    using m1 by (simp add: CAS_occupy_iff)
  have "Default (resource sample_manager) = Some 4" by (simp add: sample_manager_def)
  from NewRuntime_shares_default [OF new _ this occ] have "cells h2 4 = \<lparr>MilliCPUs = 7, Memory = 5\<rparr>"
    by (simp add: int64_of_def i64_def)
  with new occ show ?thesis by blast
qed

theorem NewRuntime_GetRuntime_witness:
  "GetRuntime ''c'' (snd (NewRuntime 1 \<lparr>RuntimeID_np = ''c'', ConcurrentMode_np = False, StreamMode_np = False,
     WaitRuntimeAliveTimeout_np = 3, IsFrozen_np = False, Resource_np = Some 8\<rparr> sample_manager)) = Inr 2"
  using NewRuntime_GetRuntime [where now = 1 and m = sample_manager and
     params = "\<lparr>RuntimeID_np = ''c'', ConcurrentMode_np = False, StreamMode_np = False,
       WaitRuntimeAliveTimeout_np = 3, IsFrozen_np = False, Resource_np = Some 8\<rparr>"]
  by (simp add: NewRuntime_def sample_manager_def Let_def)

end
