(* ===== verification/CtrlInit.thy ===== *)
theory CtrlInit
  imports RtManager
begin

text \<open>
  How the controller builds its runtime manager at start-up (\<open>initContainers\<close> of
  \<open>src/pkg/controller/init.go\<close>): one manager from the funclet's node information, one runtime per
  container the funclet lists. The answers of the funclet are arguments; an error is its text.
\<close>

record ControllerOptions =
  MaxRuntimeIdle_co :: int64
  MaxRunnerDefunct_co :: int64
  MaxRunnerResetTimeout_co :: int64
  ConcurrentMode_co :: bool
  WaitRuntimeAliveTimeout_co :: int64
  SimpleAuth_co :: bool
  EnableCanary_co :: bool
  EnableMetrics_co :: bool

type_synonym 'a rpc = "string + 'a"

definition add_container :: "ControllerOptions \<Rightarrow> instant \<Rightarrow> ContainerInfo \<Rightarrow> RuntimeManager \<Rightarrow> RuntimeManager" where
  "add_container opts now container m =
     (let (h, p) = adopt (heap m) (Resource_ci container)
      in snd (NewRuntime now \<lparr>RuntimeID_np = ContainerID container, ConcurrentMode_np = ConcurrentMode_co opts,
           StreamMode_np = WithStreamMode_ci container, WaitRuntimeAliveTimeout_np = WaitRuntimeAliveTimeout_co opts,
           IsFrozen_np = IsFrozen_ci container, Resource_np = p\<rparr> (m\<lparr>heap := h\<rparr>)))"

text \<open>A node answer without its resource part makes \<open>NewRuntimeManager\<close> dereference nil.\<close>

definition initContainers :: "ControllerOptions \<Rightarrow> instant \<Rightarrow> FuncletResource option rpc \<Rightarrow>
    ContainerInfo list rpc \<Rightarrow> res_heap \<Rightarrow> (string + RuntimeManager) outcome" where
  "initContainers opts now nodeInfo list h = (case nodeInfo of
     Inl err \<Rightarrow> Value (Inl err)
   | Inr node \<Rightarrow>
       obind (deref_field node) (\<lambda>r.
       let m = NewRuntimeManager h r \<lparr>MaxRuntimeIdle_mp = MaxRuntimeIdle_co opts,
                 MaxRunnerDefunct_mp = MaxRunnerDefunct_co opts,
                 MaxRunnerResetTimeout_mp = MaxRunnerResetTimeout_co opts\<rparr>
       in case list of
            Inl err \<Rightarrow> Value (Inl err)
          | Inr allContainers \<Rightarrow> Value (Inr (fold (add_container opts now) allContainers m))))"

section \<open>Lemmas\<close>

lemma NewRuntimeManager_inv:
  assumes "Capacity_fr r \<noteq> None" "Allocatable_fr r \<noteq> None" "Default_fr r \<noteq> None"
  shows "rm_inv (NewRuntimeManager h r params)"
  using assms by (auto simp: NewRuntimeManager_def new_cell_def Let_def rm_inv_def separated_def svc_ptrs_def
      table_ok_def cold_unmarked_def accounted_def marked_memory_def marked_sum_def NewResource_def)

text \<open>Allocating an object nobody points at changes nothing the invariant speaks about.\<close>

lemma rm_inv_new_cell:
  assumes "rm_inv m"
  shows "rm_inv (m\<lparr>heap := fst (new_cell (heap m) r)\<rparr>)"
proof -
  let ?m = "m\<lparr>heap := fst (new_cell (heap m) r)\<rparr>"
  have sep: "separated m" using assms by (simp add: rm_inv_def)
  have old: "cells (heap ?m) a = cells (heap m) a" if "a < hp_next (heap m)" for a
    using that by (simp add: new_cell_def)
  have "separated ?m"
    using sep by (force simp: separated_def svc_ptrs_def new_cell_def)
  moreover have "marked_sum (heap ?m) (rtArray m) = marked_sum (heap m) (rtArray m)"
  proof (rule marked_sum_cong)
    fix j assume "j < length (rtArray m)"
    then obtain a where "Resource (rtArray m ! j) = Some a" "a < hp_next (heap m)" by (rule separated_runtime [OF sep])
    with old show "held (heap ?m) (rtArray m ! j) = held (heap m) (rtArray m ! j)" by (simp add: held_def)
  qed simp
  moreover have "marked_memory ?m = marked_memory m"
  proof -
    obtain k where "Marked_sr (resource m) = Some k" "k < hp_next (heap m)"
      by (rule separated_svc [OF sep, of "Marked_sr (resource m)"]) (simp_all add: svc_ptrs_def)
    with old show ?thesis by (simp add: marked_memory_def)
  qed
  ultimately show ?thesis
    using assms by (simp add: rm_inv_def accounted_def table_ok_def cold_unmarked_def)
qed

lemma NewRuntime_fresh_inv:
  assumes inv: "rm_inv m" and p: "Resource_np params = Some a" "a < hp_next (heap m)"
    and fresh: "Some a \<notin> set (svc_ptrs m @ map Resource (rtArray m))"
  shows "rm_inv (snd (NewRuntime now params m))"
proof (cases "rtMap m (RuntimeID_np params)")
  case (Some k)
  with inv show ?thesis by (simp add: NewRuntime_def Let_def)
next
  case None
  let ?r = "NewRuntimeInfo now params"
  have r: "RuntimeID ?r = RuntimeID_np params" "Resource ?r = Some a" "\<not> Marked ?r" "State ?r \<noteq> RuntimeStateCold"
    using p by (simp_all add: NewRuntimeInfo_def Let_def SetState_def)
  with None have m': "snd (NewRuntime now params m) =
      m\<lparr>rtMap := (rtMap m)(RuntimeID_np params \<mapsto> length (rtArray m)), rtArray := rtArray m @ [?r]\<rparr>" (is "_ = ?m'")
    by (simp add: NewRuntime_def Let_def)
  have "separated ?m'"
    using inv fresh p r by (auto simp: rm_inv_def separated_def svc_ptrs_def)
  moreover have "table_ok ?m'"
  proof -
    have t: "rtMap m i = Some k \<longleftrightarrow> k < length (rtArray m) \<and> RuntimeID (rtArray m ! k) = i" for i k
      using inv by (simp add: rm_inv_def table_ok_def)
    show ?thesis
      unfolding table_ok_def using t [of "RuntimeID_np params"] None r(1)
      by (auto simp: t nth_append less_Suc_eq)
  qed
  moreover have "cold_unmarked ?m'" using inv r by (auto simp: rm_inv_def cold_unmarked_def)
  moreover have "accounted ?m'"
    using inv r by (simp add: rm_inv_def accounted_def marked_memory_def marked_sum_def held_def)
  ultimately show ?thesis unfolding m' by (simp add: rm_inv_def)
qed

lemma add_container_inv:
  assumes "rm_inv m" "Resource_ci c \<noteq> None"
  shows "rm_inv (add_container opts now c m)"
proof -
  obtain r where r: "Resource_ci c = Some r" using assms(2) by blast
  let ?m = "m\<lparr>heap := fst (new_cell (heap m) r)\<rparr>"
  let ?params = "\<lparr>RuntimeID_np = ContainerID c, ConcurrentMode_np = ConcurrentMode_co opts,
           StreamMode_np = WithStreamMode_ci c, WaitRuntimeAliveTimeout_np = WaitRuntimeAliveTimeout_co opts,
           IsFrozen_np = IsFrozen_ci c, Resource_np = Some (hp_next (heap m))\<rparr>"
  have "a < hp_next (heap m)" if "Some a \<in> set (svc_ptrs m @ map Resource (rtArray m))" for a
    using assms(1) that unfolding rm_inv_def separated_def by blast
  then have "Some (hp_next (heap m)) \<notin> set (svc_ptrs ?m @ map Resource (rtArray ?m))"
    unfolding svc_ptrs_def by (auto simp: svc_ptrs_def)
  moreover have "hp_next (heap m) < hp_next (heap ?m)" by (simp add: new_cell_def)
  ultimately have "rm_inv (snd (NewRuntime now ?params ?m))"
    using NewRuntime_fresh_inv [OF rm_inv_new_cell [OF assms(1)], of ?params] by simp
  then show ?thesis by (simp add: add_container_def r new_cell_def)
qed

text \<open>Start-up establishes the invariant: if the funclet reports a resource for the node's capacity,
  allocatable share and default, and for every container, then \<open>initContainers\<close> returns a manager in
  which the invariant holds.\<close>

theorem initContainers_inv:
  assumes "Capacity_fr r \<noteq> None" "Allocatable_fr r \<noteq> None" "Default_fr r \<noteq> None"
    and "\<forall>c \<in> set cs. Resource_ci c \<noteq> None"
  shows "\<exists>m. initContainers opts now (Inr (Some r)) (Inr cs) h = Value (Inr m) \<and> rm_inv m"
proof -
  have "rm_inv (fold (add_container opts now) cs m)" if "rm_inv m" for m
    using that assms(4) by (induction cs arbitrary: m) (simp_all add: add_container_inv)
  with NewRuntimeManager_inv [OF assms(1-3)] show ?thesis
    by (simp add: initContainers_def Let_def)
qed

definition sample_container :: ContainerInfo where
  "sample_container = \<lparr>Hostname = ''h'', ContainerID = ''a'', HostPid = 7, EventLock_ci = NewEventLock, CurrentEvent = EventNone,
     WithStreamMode_ci = False, IsFrozen_ci = False, Resource_ci = Some \<lparr>MilliCPUs = 1, Memory = 2\<rparr>, ResourceStats_ci = None\<rparr>"

theorem initContainers_inv_witness:
  "\<exists>m. initContainers \<lparr>MaxRuntimeIdle_co = 60, MaxRunnerDefunct_co = 10, MaxRunnerResetTimeout_co = 10,
       ConcurrentMode_co = False, WaitRuntimeAliveTimeout_co = 3, SimpleAuth_co = False, EnableCanary_co = False,
       EnableMetrics_co = False\<rparr> 1 (Inr (Some NewFuncletResource)) (Inr [sample_container]) sample_heap = Value (Inr m) \<and> rm_inv m"
  by (rule initContainers_inv) (simp_all add: NewFuncletResource_def sample_container_def)

end
