(* ===== verification/Task.thy ===== *)
theory Task
  imports RtManagerProps CtrlInit
begin

text \<open>
  The periodic tasks of the controller (\<open>src/pkg/controller/task.go\<close>): cooling idle runtimes down,
  resetting runtimes whose runner is defunct, and taking over the resources the funclet reports. The
  answer of the funclet to a call is an argument, a response pointer and an error. What happens
  before the call (\<open>begin_reset\<close>) and after it (\<open>end_reset\<close>) are two steps, because other goroutines run
  while the call is under way.
\<close>

section \<open>Runtimes by index and by identifier\<close>

definition upd_rt :: "nat \<Rightarrow> (RuntimeInfo \<Rightarrow> RuntimeInfo) \<Rightarrow> RuntimeManager \<Rightarrow> RuntimeManager" where
  "upd_rt i f m = m\<lparr>rtArray := (rtArray m)[i := f (rtArray m ! i)]\<rparr>"

text \<open>\<open>info, _ := GetRuntime(ID)\<close> and a method call on \<open>info\<close>: an unknown identifier makes it a nil
  dereference.\<close>

fun for_runtimes :: "(RuntimeInfo \<Rightarrow> RuntimeInfo) \<Rightarrow> string list \<Rightarrow> RuntimeManager \<Rightarrow> RuntimeManager outcome" where
  "for_runtimes f [] m = Value m"
| "for_runtimes f (ID # IDs) m = (case GetRuntime ID m of
     Inl _ \<Rightarrow> Panic nil_dereference
   | Inr i \<Rightarrow> for_runtimes f IDs (upd_rt i f m))"

section \<open>Cool down and reborn\<close>

type_synonym reset_answer = "ResetResponse option \<times> string option"

record reset_ctx =
  target_rc :: nat
  recommend_rc :: "ScaleDownRecommendation option"
  res_rc :: "Resource option"
  used_rc :: bool
  marked_rc :: bool

definition reset_ids :: "ScaleDownRecommendation option \<Rightarrow> string list" where
  "reset_ids recommend = (case recommend of None \<Rightarrow> [] | Some r \<Rightarrow> ResetContainers r)"

definition begin_reset :: "nat \<Rightarrow> ScaleDownRecommendation option \<Rightarrow> RuntimeManager \<Rightarrow> (reset_ctx \<times> RuntimeManager) outcome" where
  "begin_reset i recommend m =
     (let rt = rtArray m ! i;
          ctx = \<lparr>target_rc = i, recommend_rc = recommend, res_rc = Copy (heap m) (Resource rt), used_rc = Used rt,
            marked_rc = Marked rt\<rparr>
      in obind (for_runtimes RebootBegin (reset_ids recommend) (upd_rt i RebootBegin m)) (\<lambda>m'. Value (ctx, m')))"

text \<open>The release of what the target held, on success: \<open>ReleaseUsedResource\<close> and \<open>ReleaseMarkedResource\<close>
  always return true.\<close>

definition release_target :: "reset_ctx \<Rightarrow> RuntimeManager \<Rightarrow> RuntimeManager outcome" where
  "release_target ctx m =
     obind (if used_rc ctx
            then obind (deref_field (res_rc ctx)) (\<lambda>res. obind (ReleaseUsedResource res m) (\<lambda>(_, m').
                   Value (upd_rt (target_rc ctx) (SetUsed False) m')))
            else Value m) (\<lambda>m1.
     if marked_rc ctx
     then obind (deref_field (res_rc ctx)) (\<lambda>res. obind (ReleaseMarkedResource res m1) (\<lambda>(_, m').
            Value (upd_rt (target_rc ctx) (SetMarked False) m')))
     else Value m1)"

text \<open>The containers the funclet could not reset; without a response, all of them.\<close>

definition failed_ids :: "ScaleDownRecommendation option \<Rightarrow> ResetResponse option \<Rightarrow> string list" where
  "failed_ids recommend response =
     (if recommend \<noteq> None \<and> response = None then reset_ids recommend else []) @
     (case response of
        None \<Rightarrow> []
      | Some r \<Rightarrow> (case ScaleDownResult r of None \<Rightarrow> [] | Some s \<Rightarrow> map (\<lambda>(_, c). ContainerID c) (Fails s)))"

definition end_reset :: "bool \<Rightarrow> reset_answer \<Rightarrow> reset_ctx \<Rightarrow> RuntimeManager \<Rightarrow> RuntimeManager outcome" where
  "end_reset invalidate answer ctx m = (case answer of (response, err) \<Rightarrow>
     obind (if err = None then release_target ctx m else Value m) (\<lambda>m1.
     let m2 = (if err \<noteq> None \<and> invalidate then upd_rt (target_rc ctx) Invalidate m1 else m1) in
     obind (for_runtimes Invalidate (failed_ids (recommend_rc ctx) response) m2) (\<lambda>m3.
     obind (for_runtimes RebootEnd (reset_ids (recommend_rc ctx)) m3) (\<lambda>m4.
       Value (upd_rt (target_rc ctx) RebootEnd m4)))))"

definition coolDown :: "instant \<Rightarrow> reset_answer \<Rightarrow> nat \<Rightarrow> RuntimeManager \<Rightarrow> RuntimeManager outcome" where
  "coolDown now answer i m =
     obind (CoolDownRuntime now i m) (\<lambda>(r, m1). case r of
       Inl err \<Rightarrow> Value m1
     | Inr recommend \<Rightarrow>
         obind (begin_reset i recommend m1) (\<lambda>(ctx, m2). end_reset True answer ctx m2))"

text \<open>\<open>reborn\<close> differs in the event and in that it does not invalidate the target on an error.\<close>

definition reborn :: "instant \<Rightarrow> reset_answer \<Rightarrow> nat \<Rightarrow> RuntimeManager \<Rightarrow> RuntimeManager outcome" where
  "reborn now answer i m =
     obind (ResetRuntime now i m) (\<lambda>(r, m1). case r of
       Inl err \<Rightarrow> Value m1
     | Inr recommend \<Rightarrow>
         obind (begin_reset i recommend m1) (\<lambda>(ctx, m2). end_reset False answer ctx m2))"

definition processRuntime :: "instant \<Rightarrow> reset_answer \<Rightarrow> instant \<Rightarrow> reset_answer \<Rightarrow> nat \<Rightarrow> RuntimeManager \<Rightarrow> RuntimeManager outcome" where
  "processRuntime now answer now' answer' i m = obind (coolDown now answer i m) (\<lambda>m1. reborn now' answer' i m1)"

section \<open>Resources\<close>

text \<open>The runtimes are synchronised by one goroutine each; a refused runtime is only logged. Each writes
  its own object, so the order of the goroutines is the order of the list here.\<close>

definition resourceTask :: "FuncletResource option rpc \<Rightarrow> ContainerInfo list rpc \<Rightarrow> RuntimeManager \<Rightarrow> RuntimeManager outcome" where
  "resourceTask nodeInfo list m = (case nodeInfo of
     Inl err \<Rightarrow> Value m
   | Inr node \<Rightarrow>
       obind (case node of None \<Rightarrow> Value (True, m) | Some r \<Rightarrow> SyncResource r m) (\<lambda>(ok, m1).
       if \<not> ok then Value m1
       else (case list of
         Inl err \<Rightarrow> Value m1
       | Inr cs \<Rightarrow> Value (fold (\<lambda>c m. snd (SyncRuntimeResource (ContainerID c) (Resource_ci c) m)) cs m1))))"

section \<open>Changes of flags keep the invariant\<close>

lemma marked_memory_rtArray [simp]: "marked_memory (m\<lparr>rtArray := rts\<rparr>) = marked_memory m"
  by (simp add: marked_memory_def)

lemma upd_rt_fields [simp]:
  "heap (upd_rt i f m) = heap m" "resource (upd_rt i f m) = resource m" "rtMap (upd_rt i f m) = rtMap m"
  "length (rtArray (upd_rt i f m)) = length (rtArray m)" "marked_memory (upd_rt i f m) = marked_memory m"
  "MaxRuntimeIdle (upd_rt i f m) = MaxRuntimeIdle m"
  by (simp_all add: upd_rt_def marked_memory_def)

lemma upd_rt_nth:
  "j < length (rtArray m) \<Longrightarrow> rtArray (upd_rt i f m) ! j = (if j = i then f (rtArray m ! j) else rtArray m ! j)"
  by (cases "i < length (rtArray m)") (auto simp: upd_rt_def nth_list_update)

lemma GetRuntime_index: "table_ok m \<Longrightarrow> GetRuntime ID m = Inr i \<Longrightarrow> i < length (rtArray m) \<and> RuntimeID (rtArray m ! i) = ID"
  by (auto simp: GetRuntime_def table_ok_def split: option.splits)

lemma GetRuntime_known: "table_ok m \<Longrightarrow> i < length (rtArray m) \<Longrightarrow> GetRuntime (RuntimeID (rtArray m ! i)) m = Inr i"
  unfolding GetRuntime_def table_ok_def by (metis option.simps(5))

text \<open>Operations on a runtime that touch neither its identity nor its memory nor its state.\<close>

definition flags_only :: "RuntimeInfo \<Rightarrow> RuntimeInfo \<Rightarrow> bool" where
  "flags_only rt rt' \<longleftrightarrow> quiet rt rt' \<and> State rt' = State rt \<and> Used rt' = Used rt"

definition flag_op :: "(RuntimeInfo \<Rightarrow> RuntimeInfo) \<Rightarrow> bool" where
  "flag_op f \<longleftrightarrow> (\<forall>rt. flags_only rt (f rt))"

lemma flags_only_refl [simp]: "flags_only rt rt"
  by (simp add: flags_only_def)

lemma flags_only_trans: "flags_only a b \<Longrightarrow> flags_only b c \<Longrightarrow> flags_only a c"
  unfolding flags_only_def using quiet_trans by metis

lemma flag_ops [simp]: "flag_op RebootBegin" "flag_op RebootEnd" "flag_op Invalidate"
  by (simp_all add: flag_op_def flags_only_def quiet_def RebootBegin_def RebootEnd_def Invalidate_def)

lemma rm_inv_upd_flag:
  assumes "rm_inv m" "flag_op f"
  shows "rm_inv (upd_rt i f m)"
proof -
  have "quiet (rtArray m ! j) ((rtArray m)[i := f (rtArray m ! i)] ! j)" if "j < length (rtArray m)" for j
    using assms(2) that by (cases "j = i") (simp_all add: flag_op_def flags_only_def)
  then show ?thesis
    using rm_inv_quiet [OF assms(1), of "(rtArray m)[i := f (rtArray m ! i)]"] by (simp add: upd_rt_def)
qed

text \<open>What a run of flag operations keeps of the manager, runtime by runtime.\<close>

definition same_but_flags :: "RuntimeManager \<Rightarrow> RuntimeManager \<Rightarrow> bool" where
  "same_but_flags m m' \<longleftrightarrow> heap m' = heap m \<and> resource m' = resource m \<and> rtMap m' = rtMap m \<and>
     length (rtArray m') = length (rtArray m) \<and>
     (\<forall>j < length (rtArray m). flags_only (rtArray m ! j) (rtArray m' ! j))"

lemma same_but_flags_refl [simp]: "same_but_flags m m"
  by (simp add: same_but_flags_def)

lemma same_but_flags_trans: "same_but_flags m m' \<Longrightarrow> same_but_flags m' m'' \<Longrightarrow> same_but_flags m m''"
  unfolding same_but_flags_def using flags_only_trans by (metis (no_types, lifting))

lemma same_but_flags_upd: "flag_op f \<Longrightarrow> same_but_flags m (upd_rt i f m)"
  by (simp add: same_but_flags_def upd_rt_nth flag_op_def)

lemma same_but_flags_memory: "same_but_flags m m' \<Longrightarrow> marked_memory m' = marked_memory m"
  by (simp add: same_but_flags_def marked_memory_def)

lemma for_runtimes_flags:
  assumes "flag_op f" "rm_inv m" "for_runtimes f IDs m = Value m'"
  shows "rm_inv m' \<and> same_but_flags m m'"
  using assms(2,3)
proof (induction IDs arbitrary: m)
  case (Cons ID IDs)
  then obtain i where i: "GetRuntime ID m = Inr i" "for_runtimes f IDs (upd_rt i f m) = Value m'"
    by (auto split: sum.splits)
  from Cons.IH [OF rm_inv_upd_flag [OF Cons.prems(1) assms(1)] i(2)] show ?case
    using same_but_flags_trans [OF same_but_flags_upd [OF assms(1)]] by blast
qed simp

text \<open>The loops return when every identifier is known.\<close>

lemma for_runtimes_returns:
  assumes "flag_op f" "rm_inv m" "\<forall>ID \<in> set IDs. \<exists>i. GetRuntime ID m = Inr i"
  shows "\<exists>m'. for_runtimes f IDs m = Value m'"
  using assms(2,3)
proof (induction IDs arbitrary: m)
  case (Cons ID IDs)
  then obtain i where i: "GetRuntime ID m = Inr i" by auto
  have "\<forall>ID \<in> set IDs. \<exists>j. GetRuntime ID (upd_rt i f m) = Inr j"
    using Cons.prems(2) by (simp add: GetRuntime_def)
  with Cons.IH [OF rm_inv_upd_flag [OF Cons.prems(1) assms(1)]] i show ?case by simp
qed simp

section \<open>Releasing what the target held\<close>

lemma upd_marked_inv:
  assumes inv: "rm_inv m" and i: "i < length (rtArray m)" and marked: "Marked (rtArray m ! i)"
    and res: "res = cells (heap m) (the (Resource (rtArray m ! i)))"
  shows "\<exists>m'. ReleaseMarkedResource res m = Value (True, m') \<and> rm_inv (upd_rt i (SetMarked False) m') \<and>
    rtArray m' = rtArray m \<and> marked_memory m' = i64 (marked_memory m - held (heap m) (rtArray m ! i))"
proof -
  let ?m' = "with_marked (i64 (marked_memory m - Memory res)) m"
  let ?rt = "SetMarked False (rtArray m ! i)"
  have sep: "separated m" using inv by (simp add: rm_inv_def)
  have rel: "ReleaseMarkedResource res m = Value (True, ?m')" using sep by (rule ReleaseMarkedResource_eq)
  have held: "held (heap m) (rtArray m ! i) = Memory res" using marked res by (simp add: held_def)
  have f: "same_frame ?m' (upd_rt i (SetMarked False) ?m')"
    using i by (simp add: same_frame_def upd_rt_def map_update SetMarked_def list_update_same_conv)
  have "marked_sum (heap ?m') ((rtArray m)[i := ?rt]) = marked_sum (heap ?m') (rtArray m) + held (heap ?m') ?rt - held (heap ?m') (rtArray m ! i)"
    using i by (intro marked_sum_update) simp_all
  also have "held (heap ?m') ?rt = 0" by (simp add: held_def SetMarked_def)
  also have "held (heap ?m') (rtArray m ! i) = held (heap m) (rtArray m ! i)"
  proof -
    obtain a where a: "Resource (rtArray m ! i) = Some a" using separated_runtime [OF sep i] by blast
    obtain k where k: "Marked_sr (resource m) = Some k" "Some k \<notin> set (map Resource (rtArray m))" using sep by (rule marked_ptr)
    have "a \<noteq> k" using a k(2) i by (metis length_map nth_map nth_mem)
    with a k(1) show ?thesis by (simp add: held_def with_marked_def Let_def)
  qed
  finally have sum: "marked_sum (heap ?m') ((rtArray m)[i := ?rt]) = marked_sum (heap m) (rtArray m) - Memory res"
    using with_marked_sum [OF sep] held by simp
  have "accounted (upd_rt i (SetMarked False) ?m')"
    using inv sum by (simp add: accounted_def rm_inv_def int64_simps) (simp add: upd_rt_def)
  moreover have "cold_unmarked (upd_rt i (SetMarked False) ?m')"
    using inv i by (auto simp: rm_inv_def cold_unmarked_def upd_rt_def SetMarked_def dest!: set_update_subset_insert [THEN subsetD])
  ultimately have "rm_inv (upd_rt i (SetMarked False) ?m')"
    using inv same_frame_separated [OF f with_marked_separated [OF sep]] same_frame_table [OF f with_marked_table]
    by (simp add: rm_inv_def)
  with rel held show ?thesis by simp
qed

text \<open>Releasing used memory changes a counter the invariant does not speak about.\<close>

lemma ReleaseUsedResource_inv:
  assumes inv: "rm_inv m"
  shows "\<exists>m'. ReleaseUsedResource res m = Value (True, m') \<and> rm_inv m' \<and> rtArray m' = rtArray m \<and> rtMap m' = rtMap m \<and>
    marked_memory m' = marked_memory m \<and> same_frame m' m' \<and>
    (\<forall>a. Used_sr (resource m) \<noteq> Some a \<longrightarrow> cells (heap m') a = cells (heap m) a)"
proof -
  have sep: "separated m" using inv by (simp add: rm_inv_def)
  obtain u k where r: "Used_sr (resource m) = Some u" "Marked_sr (resource m) = Some k" using svc_ptr_Some [OF sep] by blast
  define h where "h = (heap m)\<lparr>cells := (cells (heap m))(u := (cells (heap m) u)\<lparr>
      Memory := i64 (Memory (cells (heap m) u) - Memory res), MilliCPUs := i64 (MilliCPUs (cells (heap m) u) - MilliCPUs res)\<rparr>)\<rparr>"
  have run: "ReleaseUsedResource res m = Value (True, m\<lparr>heap := h\<rparr>)"
    using r by (simp add: ReleaseUsedResource_def h_def)
  have uk: "u \<noteq> k" and out: "Some u \<notin> set (map Resource (rtArray m))"
    using sep r by (auto simp: separated_def svc_ptrs_def)
  have other: "cells h a = cells (heap m) a" if "a \<noteq> u" for a using that by (simp add: h_def)
  have "marked_sum h (rtArray m) = marked_sum (heap m) (rtArray m)"
  proof (rule marked_sum_cong)
    fix j assume j: "j < length (rtArray m)"
    obtain a where a: "Resource (rtArray m ! j) = Some a" using separated_runtime [OF sep j] by blast
    have "a \<noteq> u" using a out j by (metis length_map nth_map nth_mem)
    with a other show "held h (rtArray m ! j) = held (heap m) (rtArray m ! j)" by (simp add: held_def)
  qed simp
  moreover have "marked_memory (m\<lparr>heap := h\<rparr>) = marked_memory m" using r uk other by (simp add: marked_memory_def)
  moreover have "hp_next h = hp_next (heap m)" by (simp add: h_def)
  ultimately have "rm_inv (m\<lparr>heap := h\<rparr>)" "marked_memory (m\<lparr>heap := h\<rparr>) = marked_memory m"
    using inv by (auto simp: rm_inv_def separated_def svc_ptrs_def table_ok_def cold_unmarked_def accounted_def)
  with run other r show ?thesis by auto
qed

lemma rm_inv_upd_quiet:
  assumes "rm_inv m" "\<And>rt. quiet rt (f rt)"
  shows "rm_inv (upd_rt i f m)"
proof -
  have "quiet (rtArray m ! j) ((rtArray m)[i := f (rtArray m ! i)] ! j)" if "j < length (rtArray m)" for j
    using assms(2) that by (cases "j = i") simp_all
  then show ?thesis
    using rm_inv_quiet [OF assms(1), of "(rtArray m)[i := f (rtArray m ! i)]"] by (simp add: upd_rt_def)
qed

text \<open>The context \<open>begin_reset\<close> recorded fits the manager: what it says the target holds is what the target
  holds.\<close>

definition ctx_fits :: "reset_ctx \<Rightarrow> RuntimeManager \<Rightarrow> bool" where
  "ctx_fits ctx m \<longleftrightarrow> target_rc ctx < length (rtArray m) \<and>
     used_rc ctx = Used (rtArray m ! target_rc ctx) \<and> marked_rc ctx = Marked (rtArray m ! target_rc ctx) \<and>
     res_rc ctx = Some (cells (heap m) (the (Resource (rtArray m ! target_rc ctx))))"

lemma release_target_spec:
  assumes inv: "rm_inv m" and fits: "ctx_fits ctx m" and i: "i = target_rc ctx"
  shows "\<exists>m'. release_target ctx m = Value m' \<and> rm_inv m' \<and> length (rtArray m') = length (rtArray m) \<and>
    \<not> Used (rtArray m' ! i) \<and> \<not> Marked (rtArray m' ! i) \<and> State (rtArray m' ! i) = State (rtArray m ! i) \<and>
    rebootWaitGroup (rtArray m' ! i) = rebootWaitGroup (rtArray m ! i) \<and>
    (\<forall>j < length (rtArray m). j \<noteq> i \<longrightarrow> rtArray m' ! j = rtArray m ! j) \<and> rtMap m' = rtMap m \<and>
    marked_memory m' = i64 (marked_memory m - held (heap m) (rtArray m ! i))"
proof -
  have il: "i < length (rtArray m)" and sep: "separated m" using fits inv by (auto simp: ctx_fits_def i rm_inv_def)
  let ?rt = "rtArray m ! i"
  define res where "res = cells (heap m) (the (Resource ?rt))"
  have ctx: "used_rc ctx = Used ?rt" "marked_rc ctx = Marked ?rt" "res_rc ctx = Some res" "target_rc ctx = i"
    using fits by (auto simp: ctx_fits_def i res_def)
  obtain m1 where m1: "(if used_rc ctx
            then obind (deref_field (res_rc ctx)) (\<lambda>res. obind (ReleaseUsedResource res m) (\<lambda>(_, m').
                   Value (upd_rt (target_rc ctx) (SetUsed False) m')))
            else Value m) = Value m1" "rm_inv m1" "rtMap m1 = rtMap m" "marked_memory m1 = marked_memory m"
      "rtArray m1 = (rtArray m)[i := SetUsed False ?rt]" "res = cells (heap m1) (the (Resource ?rt))"
  proof (cases "Used ?rt")
    case True
    obtain m' where m': "ReleaseUsedResource res m = Value (True, m')" "rm_inv m'" "rtArray m' = rtArray m" "rtMap m' = rtMap m"
        "marked_memory m' = marked_memory m" "\<forall>a. Used_sr (resource m) \<noteq> Some a \<longrightarrow> cells (heap m') a = cells (heap m) a"
      using ReleaseUsedResource_inv [OF inv] by blast
    obtain a where a: "Resource ?rt = Some a" using separated_runtime [OF sep il] by blast
    obtain u where "Used_sr (resource m) = Some u" "Some u \<notin> set (map Resource (rtArray m))"
      by (rule separated_svc [OF sep, of "Used_sr (resource m)"]) (simp_all add: svc_ptrs_def)
    then have "cells (heap m') a = cells (heap m) a" using m'(6) a il by (metis length_map nth_map nth_mem)
    moreover have "rm_inv (upd_rt i (SetUsed False) m')" using rm_inv_upd_quiet [OF m'(2)] by (simp add: quiet_def SetUsed_def)
    ultimately show thesis
      using True ctx m' a by (intro that [of "upd_rt i (SetUsed False) m'"]) (simp_all add: res_def upd_rt_def)
  next
    case False
    then have "SetUsed False ?rt = ?rt" by (simp add: SetUsed_def)
    with False ctx inv show thesis by (intro that [of m]) (simp_all add: res_def)
  qed
  have rt1: "rtArray m1 ! i = SetUsed False ?rt" and len1: "length (rtArray m1) = length (rtArray m)" using m1(5) il by simp_all
  have il1: "i < length (rtArray m1)" using il len1 by simp
  show ?thesis
  proof (cases "Marked ?rt")
    case True
    have marked1: "Marked (rtArray m1 ! i)" and res1: "res = cells (heap m1) (the (Resource (rtArray m1 ! i)))"
      using True m1(6) by (simp_all add: rt1 SetUsed_def)
    obtain m2 where m2: "ReleaseMarkedResource res m1 = Value (True, m2)" "rm_inv (upd_rt i (SetMarked False) m2)"
        "rtArray m2 = rtArray m1" "marked_memory m2 = i64 (marked_memory m1 - held (heap m1) (rtArray m1 ! i))"
      using upd_marked_inv [OF m1(2) il1 marked1 res1] by blast
    have "rtMap m2 = rtMap m1"
      using m2(1) m1(2) ReleaseMarkedResource_eq [of m1 res] by (auto simp: rm_inv_def)
    moreover have "held (heap m1) (rtArray m1 ! i) = held (heap m) ?rt"
      using True marked1 res1 by (simp add: held_def res_def)
    moreover have "release_target ctx m = Value (upd_rt i (SetMarked False) m2)"
      unfolding release_target_def m1(1) obind.simps using True ctx m2(1) by simp
    ultimately show ?thesis
      using m1 m2 il by (auto simp: upd_rt_def SetMarked_def SetUsed_def)
  next
    case False
    have "release_target ctx m = Value m1"
      unfolding release_target_def m1(1) obind.simps using False ctx by simp
    moreover have "marked_memory m = i64 (marked_memory m)" using inv by (simp add: rm_inv_def accounted_def)
    moreover have "held (heap m) ?rt = 0" using False by (simp add: held_def)
    ultimately show ?thesis using m1 il False by (auto simp: SetUsed_def)
  qed
qed

section \<open>The two steps\<close>

lemma Copy_runtime: "separated m \<Longrightarrow> i < length (rtArray m) \<Longrightarrow> Copy (heap m) (Resource (rtArray m ! i)) = Some (cells (heap m) (the (Resource (rtArray m ! i))))"
  by (erule (1) separated_runtime) simp

lemma begin_reset_spec:
  assumes inv: "rm_inv m" and i: "i < length (rtArray m)" and run: "begin_reset i recommend m = Value (ctx, m')"
  shows "rm_inv m' \<and> same_but_flags m m' \<and> ctx_fits ctx m' \<and> target_rc ctx = i \<and> recommend_rc ctx = recommend"
proof -
  from run have loop: "for_runtimes RebootBegin (reset_ids recommend) (upd_rt i RebootBegin m) = Value m'"
      and ctx: "ctx = \<lparr>target_rc = i, recommend_rc = recommend, res_rc = Copy (heap m) (Resource (rtArray m ! i)),
        used_rc = Used (rtArray m ! i), marked_rc = Marked (rtArray m ! i)\<rparr>"
    by (auto simp: begin_reset_def Let_def outcome_simps)
  have f: "rm_inv m' \<and> same_but_flags m m'"
    using for_runtimes_flags [OF flag_ops(1) rm_inv_upd_flag [OF inv flag_ops(1)] loop]
      same_but_flags_trans [OF same_but_flags_upd [OF flag_ops(1)]] by blast
  have "flags_only (rtArray m ! i) (rtArray m' ! i)" using f i by (simp add: same_but_flags_def)
  then have "Resource (rtArray m' ! i) = Resource (rtArray m ! i)" "Used (rtArray m' ! i) = Used (rtArray m ! i)"
      "Marked (rtArray m' ! i) = Marked (rtArray m ! i)"
    by (simp_all add: flags_only_def quiet_def)
  with f i ctx Copy_runtime [of m i] inv show ?thesis
    by (simp add: ctx_fits_def same_but_flags_def rm_inv_def)
qed

text \<open>The loops at the end touch flags only, so the invariant and the accounts after \<open>end_reset\<close> are those
  after the release.\<close>

lemma end_reset_spec:
  assumes inv: "rm_inv m" and fits: "ctx_fits ctx m" and i: "i = target_rc ctx"
    and run: "end_reset invalidate (response, err) ctx m = Value m'"
  shows "rm_inv m' \<and> length (rtArray m') = length (rtArray m) \<and> State (rtArray m' ! i) = State (rtArray m ! i) \<and>
    (if err = None
     then \<not> Used (rtArray m' ! i) \<and> \<not> Marked (rtArray m' ! i) \<and>
       marked_memory m' = i64 (marked_memory m - held (heap m) (rtArray m ! i))
     else Used (rtArray m' ! i) = Used (rtArray m ! i) \<and> Marked (rtArray m' ! i) = Marked (rtArray m ! i) \<and>
       marked_memory m' = marked_memory m)"
proof -
  have il: "i < length (rtArray m)" using fits by (simp add: ctx_fits_def i)
  obtain m1 where m1: "(if err = None then release_target ctx m else Value m) = Value m1" "rm_inv m1"
      "length (rtArray m1) = length (rtArray m)" "State (rtArray m1 ! i) = State (rtArray m ! i)"
      "if err = None
       then \<not> Used (rtArray m1 ! i) \<and> \<not> Marked (rtArray m1 ! i) \<and>
         marked_memory m1 = i64 (marked_memory m - held (heap m) (rtArray m ! i))
       else Used (rtArray m1 ! i) = Used (rtArray m ! i) \<and> Marked (rtArray m1 ! i) = Marked (rtArray m ! i) \<and>
         marked_memory m1 = marked_memory m"
  proof (cases "err = None")
    case True
    obtain m1 where "release_target ctx m = Value m1" "rm_inv m1" "length (rtArray m1) = length (rtArray m)"
      "\<not> Used (rtArray m1 ! i)" "\<not> Marked (rtArray m1 ! i)" "State (rtArray m1 ! i) = State (rtArray m ! i)"
      "marked_memory m1 = i64 (marked_memory m - held (heap m) (rtArray m ! i))"
      using release_target_spec [OF inv fits i] by blast
    with True show thesis by (intro that [of m1]) simp_all
  next
    case False
    with inv show thesis by (intro that [of m]) auto
  qed
  define m2 where "m2 = (if err \<noteq> None \<and> invalidate then upd_rt (target_rc ctx) Invalidate m1 else m1)"
  have m2: "rm_inv m2" "same_but_flags m1 m2"
    using m1(2) by (auto simp: m2_def intro: rm_inv_upd_flag same_but_flags_upd)
  obtain m3 m4 where l3: "for_runtimes Invalidate (failed_ids (recommend_rc ctx) response) m2 = Value m3"
      and l4: "for_runtimes RebootEnd (reset_ids (recommend_rc ctx)) m3 = Value m4" and m': "m' = upd_rt (target_rc ctx) RebootEnd m4"
    using run m1(1) by (auto simp: end_reset_def outcome_simps m2_def)
  have s3: "rm_inv m3 \<and> same_but_flags m2 m3" using for_runtimes_flags [OF flag_ops(3) m2(1) l3] .
  have s4: "rm_inv m4 \<and> same_but_flags m3 m4" using for_runtimes_flags [OF flag_ops(2) _ l4] s3 by blast
  have "rm_inv m'" unfolding m' using s4 rm_inv_upd_flag flag_ops(2) by blast
  moreover have f: "same_but_flags m1 m'"
    unfolding m'
    by (rule same_but_flags_trans [OF m2(2) same_but_flags_trans [OF s3 [THEN conjunct2] same_but_flags_trans
          [OF s4 [THEN conjunct2] same_but_flags_upd [OF flag_ops(2)]]]])
  moreover have "flags_only (rtArray m1 ! i) (rtArray m' ! i)" using f il m1(3) by (simp add: same_but_flags_def)
  ultimately show ?thesis
    using m1(3-5) same_but_flags_memory [OF f] f
    by (simp add: flags_only_def quiet_def same_but_flags_def split: if_splits)
qed

lemma scale_down_after_Inl:
  assumes "scale_down_after op args now i m = Value (Inl e, m1)"
  shows "m1 = m"
proof -
  obtain x where x: "CAS op args now (heap m) (rtArray m ! i) = Value x"
    using assms by (auto simp: scale_down_after_def outcome_simps)
  show ?thesis
  proof (cases x)
    case (Inl a)
    with x assms show ?thesis by (simp add: scale_down_after_def)
  next
    case (Inr p)
    with x assms show ?thesis
      by (cases p) (auto simp: scale_down_after_def outcome_simps Let_def split: if_splits)
  qed
qed

section \<open>Properties\<close>

text \<open>A cool down that succeeded gives the memory back exactly once: the funclet reported no error, so the
  stopped runtime is neither used nor marked any more, the counter of marked memory went down by
  exactly what the runtime held, and the invariant holds.\<close>

theorem coolDown_releases:
  assumes "rm_inv m" "i < length (rtArray m)" "CoolDownRuntime now i m = Value (Inr recommend, m1)"
    and "coolDown now (response, None) i m = Value m'"
  shows "rm_inv m' \<and> State (rtArray m' ! i) = RuntimeStateStopping \<and> \<not> Used (rtArray m' ! i) \<and> \<not> Marked (rtArray m' ! i) \<and>
    marked_memory m' = i64 (marked_memory m - held (heap m) (rtArray m ! i))"
proof -
  obtain "is" where s: "rm_inv m1" "scaled_down now m i is recommend m1"
      "CAS OpStop (StopArgs \<lparr>Deadline_si = deadline_before now (MaxRuntimeIdle m)\<rparr>) now (heap m) (rtArray m ! i) = Value (Inr (heap m, rtArray m1 ! i))"
    using scale_down_after_spec [OF assms(1,2) _ assms(3) [unfolded CoolDownRuntime_def]] by blast
  have i1: "i < length (rtArray m1)" using s(2) assms(2) by (simp add: scaled_down_def)
  obtain ctx m2 where b: "begin_reset i recommend m1 = Value (ctx, m2)" and e: "end_reset True (response, None) ctx m2 = Value m'"
    using assms(3,4) by (auto simp: coolDown_def outcome_simps)
  have bs: "rm_inv m2" "same_but_flags m1 m2" "ctx_fits ctx m2" "target_rc ctx = i" using begin_reset_spec [OF s(1) i1 b] by auto
  have fl: "flags_only (rtArray m1 ! i) (rtArray m2 ! i)" using bs(2) i1 by (simp add: same_but_flags_def)
  have stop: "State (rtArray m1 ! i) = RuntimeStateStopping" "Marked (rtArray m1 ! i) = Marked (rtArray m ! i)"
      "Resource (rtArray m1 ! i) = Resource (rtArray m ! i)" "heap m1 = heap m" "marked_memory m1 = marked_memory m"
    using s(2,3) by (auto simp: CAS_stop_iff scaled_down_def)
  have "held (heap m2) (rtArray m2 ! i) = held (heap m) (rtArray m ! i)" "marked_memory m2 = marked_memory m"
      "State (rtArray m2 ! i) = RuntimeStateStopping"
    using fl stop bs(2) same_but_flags_memory [OF bs(2)] by (auto simp: held_def flags_only_def quiet_def same_but_flags_def)
  with end_reset_spec [OF bs(1,3) bs(4) [symmetric] e] show ?thesis by simp
qed

text \<open>A cool down or a reset whose call failed releases nothing: the runtime stays marked and its memory
  stays counted, so that a later round can still give it back.\<close>

theorem reset_error_releases_nothing:
  assumes "rm_inv m" "i < length (rtArray m)" "begin_reset i recommend m = Value (ctx, m1)"
    and "end_reset invalidate (response, Some err) ctx m1 = Value m'"
  shows "rm_inv m' \<and> Marked (rtArray m' ! i) = Marked (rtArray m ! i) \<and> Used (rtArray m' ! i) = Used (rtArray m ! i) \<and>
    State (rtArray m' ! i) = State (rtArray m ! i) \<and> marked_memory m' = marked_memory m"
proof -
  have bs: "rm_inv m1" "same_but_flags m m1" "ctx_fits ctx m1" "target_rc ctx = i" using begin_reset_spec [OF assms(1-3)] by auto
  have fl: "flags_only (rtArray m ! i) (rtArray m1 ! i)" using bs(2) assms(2) by (simp add: same_but_flags_def)
  from end_reset_spec [OF bs(1,3) bs(4) [symmetric] assms(4)] fl same_but_flags_memory [OF bs(2)]
  show ?thesis by (auto simp: flags_only_def quiet_def)
qed

text \<open>The periodic task keeps the manager's invariant, whatever the funclet answers: if processing a
  runtime returns, the manager it leaves satisfies it.\<close>

theorem processRuntime_inv:
  assumes "rm_inv m" "i < length (rtArray m)" "processRuntime now answer now' answer' i m = Value m'"
  shows "rm_inv m'"
proof -
  have step: "rm_inv m2 \<and> i < length (rtArray m2)"
    if inv: "rm_inv m0" "i < length (rtArray m0)" and op: "op \<in> {OpStop, OpReset}"
      and run: "obind (scale_down_after op args t i m0) (\<lambda>(r, m1). case r of Inl err \<Rightarrow> Value m1
         | Inr recommend \<Rightarrow> obind (begin_reset i recommend m1) (\<lambda>(ctx, m2). end_reset b a ctx m2)) = Value m2"
    for m0 op args t b a m2
  proof -
    obtain r m1 where sd: "scale_down_after op args t i m0 = Value (r, m1)" using run by (auto simp: outcome_simps)
    show ?thesis
    proof (cases r)
      case (Inl e)
      with sd have "m1 = m0" by (simp add: scale_down_after_Inl)
      with Inl sd run inv show ?thesis by simp
    next
      case (Inr recommend)
      obtain "is" where s: "rm_inv m1" "scaled_down t m0 i is recommend m1"
        using scale_down_after_spec [OF inv op] sd Inr by blast
      have i1: "i < length (rtArray m1)" using s(2) inv(2) by (simp add: scaled_down_def)
      obtain ctx m1' where b: "begin_reset i recommend m1 = Value (ctx, m1')" and e: "end_reset b a ctx m1' = Value m2"
        using run sd Inr by (auto simp: outcome_simps)
      have bs: "rm_inv m1'" "ctx_fits ctx m1'" "target_rc ctx = i" using begin_reset_spec [OF s(1) i1 b] by auto
      from end_reset_spec [OF bs(1,2) refl, of b "fst a" "snd a" m2] e have "rm_inv m2" "length (rtArray m2) = length (rtArray m1')"
        by simp_all
      moreover have "i < length (rtArray m1')" using bs(2,3) by (simp add: ctx_fits_def)
      ultimately show ?thesis by simp
    qed
  qed
  obtain m1 where "coolDown now answer i m = Value m1" "reborn now' answer' i m1 = Value m'"
    using assms(3) by (auto simp: processRuntime_def outcome_simps)
  then show ?thesis
    using step [OF assms(1,2), of OpStop] step [of m1 OpReset] unfolding coolDown_def reborn_def CoolDownRuntime_def ResetRuntime_def
    by blast
qed

lemma for_runtimes_reboot:
  assumes f: "\<And>rt. rebootWaitGroup (f rt) = rebootWaitGroup rt + c \<and> RuntimeID (f rt) = RuntimeID rt"
  shows "for_runtimes f IDs m = Value m' \<Longrightarrow> table_ok m \<Longrightarrow> j < length (rtArray m) \<Longrightarrow>
    table_ok m' \<and> length (rtArray m') = length (rtArray m) \<and> RuntimeID (rtArray m' ! j) = RuntimeID (rtArray m ! j) \<and>
    rebootWaitGroup (rtArray m' ! j) = rebootWaitGroup (rtArray m ! j) + c * int (count_list IDs (RuntimeID (rtArray m ! j)))"
proof (induction IDs arbitrary: m)
  case (Cons ID IDs)
  then obtain i where i: "GetRuntime ID m = Inr i" and rec: "for_runtimes f IDs (upd_rt i f m) = Value m'"
    by (auto split: sum.splits)
  have il: "i < length (rtArray m)" "RuntimeID (rtArray m ! i) = ID" using GetRuntime_index [OF Cons.prems(2) i] by auto
  have ids: "RuntimeID (rtArray (upd_rt i f m) ! k) = RuntimeID (rtArray m ! k)" if "k < length (rtArray m)" for k
    using that f by (simp add: upd_rt_nth)
  have t: "table_ok (upd_rt i f m)" using Cons.prems(2) ids by (auto simp: table_ok_def)
  have j: "j < length (rtArray (upd_rt i f m))" using Cons.prems(3) by simp
  have "j = i \<longleftrightarrow> RuntimeID (rtArray m ! j) = ID"
  proof
    assume "RuntimeID (rtArray m ! j) = ID"
    with GetRuntime_known [OF Cons.prems(2,3)] i show "j = i" by simp
  qed (simp add: il(2))
  with Cons.IH [OF rec t j] ids [OF Cons.prems(3)] f show ?case
    using Cons.prems(3) by (auto simp: upd_rt_nth algebra_simps)
qed simp

text \<open>The reboot wait groups balance: between them the two steps of a reset change no runtime's counter,
  whatever the funclet answers, so a request that waits for the reboot of a container is released.\<close>

theorem reset_reboot_balanced:
  assumes "rm_inv m" "i < length (rtArray m)" "begin_reset i recommend m = Value (ctx, m1)"
    and "end_reset invalidate answer ctx m1 = Value m'"
  shows "map rebootWaitGroup (rtArray m') = map rebootWaitGroup (rtArray m)"
proof -
  let ?ids = "reset_ids recommend"
  obtain response err where a: "answer = (response, err)" by (cases answer)
  have t: "table_ok m" using assms(1) by (simp add: rm_inv_def)
  have bs: "rm_inv m1" "same_but_flags m m1" "ctx_fits ctx m1" "target_rc ctx = i" "recommend_rc ctx = recommend"
    using begin_reset_spec [OF assms(1-3)] by auto
  have begun: "for_runtimes RebootBegin ?ids (upd_rt i RebootBegin m) = Value m1"
    using assms(3) by (auto simp: begin_reset_def outcome_simps Let_def)
  obtain m2 where m2: "(if err = None then release_target ctx m1 else Value m1) = Value m2" "rm_inv m2"
      "length (rtArray m2) = length (rtArray m1)"
      "\<forall>j < length (rtArray m1). rebootWaitGroup (rtArray m2 ! j) = rebootWaitGroup (rtArray m1 ! j) \<and> RuntimeID (rtArray m2 ! j) = RuntimeID (rtArray m1 ! j)"
  proof (cases "err = None")
    case True
    obtain m2 where r: "release_target ctx m1 = Value m2" "rm_inv m2" "length (rtArray m2) = length (rtArray m1)"
        "rebootWaitGroup (rtArray m2 ! i) = rebootWaitGroup (rtArray m1 ! i)" "rtMap m2 = rtMap m1"
        "\<forall>j < length (rtArray m1). j \<noteq> i \<longrightarrow> rtArray m2 ! j = rtArray m1 ! j"
      using release_target_spec [OF bs(1,3) bs(4) [symmetric]] by blast
    have "RuntimeID (rtArray m2 ! j) = RuntimeID (rtArray m1 ! j)" if "j < length (rtArray m1)" for j
      using r(2,3,5) bs(1) that unfolding rm_inv_def table_ok_def by metis
    moreover have "rebootWaitGroup (rtArray m2 ! j) = rebootWaitGroup (rtArray m1 ! j)" if "j < length (rtArray m1)" for j
      using r(4,6) that by (cases "j = i") simp_all
    ultimately show thesis using r(1-3) True by (intro that [of m2]) simp_all
  next
    case False
    with bs(1) show thesis by (intro that [of m1]) auto
  qed
  define m3 where "m3 = (if err \<noteq> None \<and> invalidate then upd_rt (target_rc ctx) Invalidate m2 else m2)"
  obtain m4 m5 where l4: "for_runtimes Invalidate (failed_ids (recommend_rc ctx) response) m3 = Value m4"
      and l5: "for_runtimes RebootEnd (reset_ids (recommend_rc ctx)) m4 = Value m5" and m': "m' = upd_rt (target_rc ctx) RebootEnd m5"
    using assms(4) m2(1) by (auto simp: end_reset_def outcome_simps m3_def a)
  have t3: "table_ok m3" using m2(2) rm_inv_upd_flag flag_ops(3) by (auto simp: m3_def rm_inv_def)
  have len: "length (rtArray m1) = length (rtArray m)" "length (rtArray m3) = length (rtArray m)"
    using bs(2) m2(3) by (simp_all add: same_but_flags_def m3_def)
  have each: "length (rtArray m5) = length (rtArray m) \<and> rebootWaitGroup (rtArray m' ! j) = rebootWaitGroup (rtArray m ! j)"
    if j: "j < length (rtArray m)" for j
  proof -
    have t1: "table_ok (upd_rt i RebootBegin m)" using rm_inv_upd_flag [OF assms(1) flag_ops(1)] by (simp add: rm_inv_def)
    have b1: "RuntimeID (rtArray (upd_rt i RebootBegin m) ! j) = RuntimeID (rtArray m ! j)"
        "rebootWaitGroup (rtArray (upd_rt i RebootBegin m) ! j) = rebootWaitGroup (rtArray m ! j) + (if j = i then 1 else 0)"
      using j by (simp_all add: upd_rt_nth RebootBegin_def)
    from for_runtimes_reboot [where c = 1, OF _ begun t1, of j] j b1
    have s1: "RuntimeID (rtArray m1 ! j) = RuntimeID (rtArray m ! j)"
        "rebootWaitGroup (rtArray m1 ! j) = rebootWaitGroup (rtArray m ! j) + (if j = i then 1 else 0) + int (count_list ?ids (RuntimeID (rtArray m ! j)))"
      by (simp_all add: RebootBegin_def)
    have s3: "RuntimeID (rtArray m3 ! j) = RuntimeID (rtArray m ! j)" "rebootWaitGroup (rtArray m3 ! j) = rebootWaitGroup (rtArray m1 ! j)"
      using m2(3,4) s1(1) j len by (auto simp: m3_def upd_rt_nth Invalidate_def)
    from for_runtimes_reboot [where c = 0, OF _ l4 t3, of j] j len(2) s3
    have s4: "table_ok m4" "length (rtArray m4) = length (rtArray m)" "RuntimeID (rtArray m4 ! j) = RuntimeID (rtArray m ! j)"
        "rebootWaitGroup (rtArray m4 ! j) = rebootWaitGroup (rtArray m1 ! j)"
      by (simp_all add: Invalidate_def)
    from for_runtimes_reboot [where c = "- 1", OF _ l5 s4(1), of j] j s4
    have s5: "length (rtArray m5) = length (rtArray m)" "rebootWaitGroup (rtArray m5 ! j) = rebootWaitGroup (rtArray m1 ! j) - int (count_list ?ids (RuntimeID (rtArray m ! j)))"
      by (simp_all add: RebootEnd_def bs(5))
    with s1 j show ?thesis by (cases "j = i") (simp_all add: m' bs(4) upd_rt_nth RebootEnd_def)
  qed
  have "length (rtArray m') = length (rtArray m)" using each [OF assms(2)] by (simp add: m')
  with each show ?thesis by (intro nth_equalityI) simp_all
qed

text \<open>The resource task keeps the invariant and changes neither the runtimes' states nor the marked
  memory, provided the funclet's report names all three node resources.\<close>

theorem resourceTask_inv:
  assumes "rm_inv m"
    and "\<forall>r. nodeInfo = Inr (Some r) \<longrightarrow> Capacity_fr r \<noteq> None \<and> Allocatable_fr r \<noteq> None \<and> Default_fr r \<noteq> None"
  shows "\<exists>m'. resourceTask nodeInfo list m = Value m' \<and> rm_inv m' \<and> rtArray m' = rtArray m \<and> marked_memory m' = marked_memory m"
proof -
  let ?sync = "\<lambda>c m. snd (SyncRuntimeResource (ContainerID c) (Resource_ci c) m)"
  have one: "rm_inv (?sync c m0) \<and> rtArray (?sync c m0) = rtArray m0 \<and> marked_memory (?sync c m0) = marked_memory m0"
    if inv: "rm_inv m0" for c m0
  proof (cases "GetRuntime (ContainerID c) m0")
    case (Inl e)
    with inv show ?thesis by (simp add: SyncRuntimeResource_def)
  next
    case (Inr i)
    note eff = SyncRuntimeResource_effect [OF inv Inr, of "Resource_ci c"]
    show ?thesis
    proof (cases "Used (rtArray m0 ! i) \<or> Marked (rtArray m0 ! i)")
      case True
      with eff inv show ?thesis by simp
    next
      case False
      with eff obtain m1 where m1: "SyncRuntimeResource (ContainerID c) (Resource_ci c) m0 = (Inr True, m1)" "rm_inv m1"
          "ResourceStatistics m1 = ResourceStatistics m0" "rtArray m1 = rtArray m0" by auto
      have "Copy (heap m1) (Marked_sr (resource m1)) = Copy (heap m0) (Marked_sr (resource m0))"
        using m1(3) by (simp add: ResourceStatistics_def ServiceResource_Copy_def)
      moreover obtain k0 where "Marked_sr (resource m0) = Some k0" using svc_ptr_Some(4) [of m0] inv by (auto simp: rm_inv_def)
      moreover obtain k1 where "Marked_sr (resource m1) = Some k1" using svc_ptr_Some(4) [of m1] m1(2) by (auto simp: rm_inv_def)
      ultimately have "marked_memory m1 = marked_memory m0" by (simp add: marked_memory_def)
      with m1 show ?thesis by simp
    qed
  qed
  have many: "rm_inv (fold ?sync cs m0) \<and> rtArray (fold ?sync cs m0) = rtArray m0 \<and> marked_memory (fold ?sync cs m0) = marked_memory m0"
    if "rm_inv m0" for cs m0
    using that
  proof (induction cs arbitrary: m0)
    case (Cons c cs)
    from one [OF Cons.prems, of c] Cons.IH [of "?sync c m0"] show ?case by simp
  qed simp
  show ?thesis
  proof (cases nodeInfo)
    case (Inl e)
    with assms(1) show ?thesis by (simp add: resourceTask_def)
  next
    case (Inr node)
    obtain ok m1 where sync: "(case node of None \<Rightarrow> Value (True, m) | Some r \<Rightarrow> SyncResource r m) = Value (ok, m1)"
        "rm_inv m1" "rtArray m1 = rtArray m" "marked_memory m1 = marked_memory m"
    proof (cases node)
      case None
      with assms(1) show thesis by (intro that [of True m]) simp_all
    next
      case (Some r)
      with assms(2) Inr obtain ca al de where "Allocatable_fr r = Some al" "Capacity_fr r = Some ca" "Default_fr r = Some de" by auto
      from SyncResource_effect [OF assms(1) this] Some show thesis using that by auto
    qed
    show ?thesis
    proof (cases list)
      case (Inl e)
      with \<open>nodeInfo = Inr node\<close> sync show ?thesis by (simp add: resourceTask_def)
    next
      case (Inr cs)
      from many [OF sync(2), of cs] Inr \<open>nodeInfo = Inr node\<close> sync show ?thesis
        by (auto simp: resourceTask_def)
    qed
  qed
qed

section \<open>Concrete runs\<close>

definition sample_answer :: ResetResponse where
  "sample_answer = \<lparr>ScaleDownResult = None\<rparr>"

lemma sample_coolDown:
  "\<exists>m'. coolDown 100000000000 (Some sample_answer, None) 0 sample_warm = Value m'"
  by (simp add: coolDown_def CoolDownRuntime_def scale_down_after_def sample_eval deadline_before_def i64_def
      sample_runtime_def NewRuntimeInfo_def isNeedScale_def uint64_of_def begin_reset_def reset_ids_def upd_rt_def
      RebootBegin_def end_reset_def release_target_def failed_ids_def sample_answer_def)

theorem coolDown_releases_witness:
  "\<exists>m'. coolDown 100000000000 (Some sample_answer, None) 0 sample_warm = Value m' \<and> rm_inv m' \<and>
     State (rtArray m' ! 0) = RuntimeStateStopping"
proof -
  obtain m' where run: "coolDown 100000000000 (Some sample_answer, None) 0 sample_warm = Value m'"
    using sample_coolDown by blast
  obtain recommend m1 where "CoolDownRuntime 100000000000 0 sample_warm = Value (Inr recommend, m1)"
    using sample_cool by blast
  from coolDown_releases [OF sample_warm_inv sample_warm_length this run] run show ?thesis by blast
qed

lemma sample_begin:
  "\<exists>ctx m1. begin_reset 0 None sample_warm = Value (ctx, m1) \<and>
     (\<exists>m'. end_reset True (None, Some ''refused'') ctx m1 = Value m')"
proof -
  obtain ctx m1 where b: "begin_reset 0 None sample_warm = Value (ctx, m1)" "recommend_rc ctx = None"
    by (simp add: begin_reset_def reset_ids_def Let_def)
  have "\<exists>m'. end_reset True (None, Some ''refused'') ctx m1 = Value m'"
    using b(2) by (simp add: end_reset_def failed_ids_def reset_ids_def)
  with b(1) show ?thesis by blast
qed

theorem reset_error_releases_nothing_witness:
  "\<exists>ctx m1 m'. begin_reset 0 None sample_warm = Value (ctx, m1) \<and>
     end_reset True (None, Some ''refused'') ctx m1 = Value m' \<and> State (rtArray m' ! 0) = RuntimeStateWarm"
proof -
  obtain ctx m1 m' where run: "begin_reset 0 None sample_warm = Value (ctx, m1)"
      "end_reset True (None, Some ''refused'') ctx m1 = Value m'"
    using sample_begin by blast
  from reset_error_releases_nothing [OF sample_warm_inv sample_warm_length run] run show ?thesis
    by (auto simp: sample_warm_def)
qed

theorem reset_reboot_balanced_witness:
  "\<exists>ctx m1 m'. begin_reset 0 None sample_warm = Value (ctx, m1) \<and>
     end_reset True (None, Some ''refused'') ctx m1 = Value m' \<and> map rebootWaitGroup (rtArray m') = [0, 0]"
proof -
  obtain ctx m1 m' where run: "begin_reset 0 None sample_warm = Value (ctx, m1)"
      "end_reset True (None, Some ''refused'') ctx m1 = Value m'"
    using sample_begin by blast
  from reset_reboot_balanced [OF sample_warm_inv sample_warm_length run] run show ?thesis
    by (simp add: sample_warm_def sample_runtime_def NewRuntimeInfo_def)
qed

theorem processRuntime_inv_witness:
  "\<exists>m'. processRuntime 1 (None, None) 2 (None, None) 0 sample_warm = Value m' \<and> rm_inv m'"
proof -
  have "\<exists>m'. processRuntime 1 (None, None) 2 (None, None) 0 sample_warm = Value m'"
    by (simp add: processRuntime_def coolDown_def reborn_def CoolDownRuntime_def ResetRuntime_def scale_down_after_def
        sample_eval deadline_before_def i64_def sample_runtime_def NewRuntimeInfo_def IsRunnerDefunct_def)
  with processRuntime_inv [OF sample_warm_inv sample_warm_length] show ?thesis by blast
qed

theorem resourceTask_inv_witness:
  "\<exists>m'. resourceTask (Inr (Some sample_report)) (Inr [sample_container]) sample_warm = Value m' \<and> rm_inv m'"
  using resourceTask_inv [OF sample_warm_inv, of "Inr (Some sample_report)" "Inr [sample_container]"]
  by (auto simp: sample_report_def)

end
