(* ===== verification/GoFloat.thy ===== *)
theory GoFloat
  imports Bytefmt
begin

text \<open>
  Go's \<open>float32\<close> and \<open>float64\<close>: IEEE 754 binary formats with rounding to nearest, ties to even. A
  finite number is a sign, a significand and a binary exponent; two representations that differ by a
  power of two denote the same number. Signed zeros, infinities and NaN are kept apart.
\<close>

datatype gofloat = NaN | Inf bool | Fin bool nat int

text \<open>A format: bits of the significand, least exponent of the last bit, bound of the exponent.\<close>

record float_format =
  precision :: nat
  least_exp :: int
  exp_bound :: int

definition float32 :: float_format where
  "float32 = \<lparr>precision = 24, least_exp = - 149, exp_bound = 128\<rparr>"

definition float64 :: float_format where
  "float64 = \<lparr>precision = 53, least_exp = - 1074, exp_bound = 1024\<rparr>"

text \<open>The nearest number of the format to \<open>\<plusminus> m * 2 ^ e\<close>; the shift drops the bits that do not fit.\<close>

definition float_round :: "float_format \<Rightarrow> bool \<Rightarrow> nat \<Rightarrow> int \<Rightarrow> gofloat" where
  "float_round f s m e =
     (let k = max 0 (max (int (bitlen m) - int (precision f)) (least_exp f - e));
          m' = round_half_even m (2 ^ nat k)
      in if exp_bound f < int (bitlen m') + (e + k) then Inf s else Fin s m' (e + k))"

text \<open>The conversions \<open>float32(x)\<close> of a float and \<open>float32(n)\<close>, \<open>float64(n)\<close> of an integer.\<close>

fun float_convert :: "float_format \<Rightarrow> gofloat \<Rightarrow> gofloat" where
  "float_convert f NaN = NaN"
| "float_convert f (Inf s) = Inf s"
| "float_convert f (Fin s m e) = float_round f s m e"

definition float_of :: "float_format \<Rightarrow> int \<Rightarrow> gofloat" where
  "float_of f n = float_round f (n < 0) (nat \<bar>n\<bar>) 0"

definition scaled :: "bool \<Rightarrow> nat \<Rightarrow> int \<Rightarrow> int \<Rightarrow> int" where
  "scaled s m e e0 = (if s then - 1 else 1) * (int m * 2 ^ nat (e - e0))"

fun float_neg :: "gofloat \<Rightarrow> gofloat" where
  "float_neg NaN = NaN"
| "float_neg (Inf s) = Inf (\<not> s)"
| "float_neg (Fin s m e) = Fin (\<not> s) m e"

fun float_add :: "float_format \<Rightarrow> gofloat \<Rightarrow> gofloat \<Rightarrow> gofloat" where
  "float_add f NaN y = NaN"
| "float_add f x NaN = NaN"
| "float_add f (Inf s) (Inf t) = (if s = t then Inf s else NaN)"
| "float_add f (Inf s) (Fin t n d) = Inf s"
| "float_add f (Fin s m e) (Inf t) = Inf t"
| "float_add f (Fin s m e) (Fin t n d) =
     (let e0 = min e d; z = scaled s m e e0 + scaled t n d e0
      in if z = 0 then Fin (s \<and> t) 0 e0 else float_round f (z < 0) (nat \<bar>z\<bar>) e0)"

definition float_sub :: "float_format \<Rightarrow> gofloat \<Rightarrow> gofloat \<Rightarrow> gofloat" where
  "float_sub f x y = float_add f x (float_neg y)"

text \<open>The comparison \<open>x > y\<close>; NaN is above nothing and below nothing.\<close>

fun float_gt :: "gofloat \<Rightarrow> gofloat \<Rightarrow> bool" where
  "float_gt (Fin s m e) (Fin t n d) = (scaled t n d (min e d) < scaled s m e (min e d))"
| "float_gt (Inf s) (Inf t) = (\<not> s \<and> t)"
| "float_gt (Inf s) (Fin t n d) = (\<not> s)"
| "float_gt (Fin s m e) (Inf t) = t"
| "float_gt _ _ = False"

definition float_is_zero :: "gofloat \<Rightarrow> bool" where
  "float_is_zero x = (case x of Fin _ m _ \<Rightarrow> m = 0 | _ \<Rightarrow> False)"

section \<open>Exact integers\<close>

lemma float_round_exact:
  assumes "bitlen m \<le> precision f" "least_exp f \<le> e" "int (bitlen m) + e \<le> exp_bound f"
  shows "float_round f s m e = Fin s m e"
  using assms by (simp add: float_round_def Let_def)

text \<open>Adding and subtracting whole numbers below \<open>2 ^ 53\<close> in magnitude is exact in \<open>float64\<close>, as long as
  the result is below that bound too.\<close>

lemma float_of_exact: "\<bar>n\<bar> < 2 ^ 53 \<Longrightarrow> float_of float64 n = Fin (n < 0) (nat \<bar>n\<bar>) 0"
proof -
  assume "\<bar>n\<bar> < 2 ^ 53"
  then have "bitlen (nat \<bar>n\<bar>) \<le> 53" by (simp add: bitlen_le_iff nat_less_iff)
  then show ?thesis
    unfolding float_of_def by (intro float_round_exact) (simp_all add: float64_def)
qed

lemma float_add_exact:
  assumes "\<bar>a\<bar> < 2 ^ 53" "\<bar>b\<bar> < 2 ^ 53" "\<bar>a + b\<bar> < 2 ^ 53"
  shows "float_add float64 (float_of float64 a) (float_of float64 b) = float_of float64 (a + b)"
proof -
  have s: "scaled (x < 0) (nat \<bar>x\<bar>) 0 0 = x" for x by (simp add: scaled_def)
  show ?thesis
    unfolding float_of_exact [OF assms(1)] float_of_exact [OF assms(2)] float_of_exact [OF assms(3)]
    using float_of_exact [OF assms(3)]
    by (auto simp: s Let_def float_of_def)
qed

end
