(* ===== verification/GoCache.thy ===== *)
theory GoCache
  imports GoFloat "HOL-Library.AList" "HOL-Library.Multiset"
begin

text \<open>
  The expiring in-memory cache (\<open>src/pkg/util/cache/cache.go\<close>) and the store with an availability
  switch on top of it (\<open>watch_cache.go\<close>).

  An \<open>interface{}\<close> value is an \<open>iface\<close>: one constructor per dynamic type the package distinguishes, and
  \<open>Other\<close> for the rest. The map \<open>items\<close> is an association list with distinct keys. The clock is read
  once per operation and passed as \<open>now\<close>; the eviction callbacks an operation makes are returned as the
  list of their arguments, in order. \<open>NewFrom\<close> is given a map, not nil.
\<close>

section \<open>Data\<close>

datatype 'o iface =
    Nil_iface
  | Int_iface uint64 | Int8_iface "8 word" | Int16_iface "16 word" | Int32_iface "32 word" | Int64_iface uint64
  | Uint_iface uint64 | Uintptr_iface uint64
  | Uint8_iface "8 word" | Uint16_iface "16 word" | Uint32_iface "32 word" | Uint64_iface uint64
  | Float32_iface gofloat | Float64_iface gofloat
  | Other (the_other: 'o)

record 'o Item =
  Object :: "'o iface"
  Expiration :: int64

definition UnixNano :: "instant \<Rightarrow> int64" where
  "UnixNano t = i64 t"

definition Expired :: "instant \<Rightarrow> 'o Item \<Rightarrow> bool" where
  "Expired now item = (if Expiration item = 0 then False else Expiration item < UnixNano now)"

definition NoExpiration :: int64 where "NoExpiration = - 1"
definition DefaultExpiration :: int64 where "DefaultExpiration = 0"

record janitor =
  Interval :: int64

record ('o, 'f) cache =
  defaultExpiration :: int64
  items :: "(string \<times> 'o Item) list"
  onEvicted :: "'f option"
  janitor_c :: "janitor option"

section \<open>Setting and getting\<close>

definition deadline_of :: "instant \<Rightarrow> int64 \<Rightarrow> ('o, 'f) cache \<Rightarrow> int64" where
  "deadline_of now d c =
     (let d' = (if d = DefaultExpiration then defaultExpiration c else d)
      in if 0 < d' then UnixNano (now + d') else 0)"

definition Set :: "instant \<Rightarrow> string \<Rightarrow> 'o iface \<Rightarrow> int64 \<Rightarrow> ('o, 'f) cache \<Rightarrow> ('o, 'f) cache" where
  "Set now k x d c = (let e = deadline_of now d c
     in c\<lparr>items := AList.update k \<lparr>Object = x, Expiration = e\<rparr> (items c)\<rparr>)"

definition set_locked :: "instant \<Rightarrow> string \<Rightarrow> 'o iface \<Rightarrow> int64 \<Rightarrow> ('o, 'f) cache \<Rightarrow> ('o, 'f) cache" where
  "set_locked now k x d c = (let e = deadline_of now d c
     in c\<lparr>items := AList.update k \<lparr>Object = x, Expiration = e\<rparr> (items c)\<rparr>)"

definition SetDefault :: "instant \<Rightarrow> string \<Rightarrow> 'o iface \<Rightarrow> ('o, 'f) cache \<Rightarrow> ('o, 'f) cache" where
  "SetDefault now k x c = Set now k x DefaultExpiration c"

definition get_locked :: "instant \<Rightarrow> string \<Rightarrow> ('o, 'f) cache \<Rightarrow> 'o iface \<times> bool" where
  "get_locked now k c = (case map_of (items c) k of
     None \<Rightarrow> (Nil_iface, False)
   | Some item \<Rightarrow>
       if 0 < Expiration item \<and> Expiration item < UnixNano now then (Nil_iface, False)
       else (Object item, True))"

definition Get :: "instant \<Rightarrow> string \<Rightarrow> ('o, 'f) cache \<Rightarrow> 'o iface \<times> bool" where
  "Get now k c = (case map_of (items c) k of
     None \<Rightarrow> (Nil_iface, False)
   | Some item \<Rightarrow>
       if 0 < Expiration item \<and> Expiration item < UnixNano now then (Nil_iface, False)
       else (Object item, True))"

text \<open>The second result is \<open>None\<close> for the zero \<open>time.Time\<close>.\<close>

definition GetWithExpiration :: "instant \<Rightarrow> string \<Rightarrow> ('o, 'f) cache \<Rightarrow> 'o iface \<times> instant option \<times> bool" where
  "GetWithExpiration now k c = (case map_of (items c) k of
     None \<Rightarrow> (Nil_iface, None, False)
   | Some item \<Rightarrow>
       if 0 < Expiration item
       then (if Expiration item < UnixNano now then (Nil_iface, None, False)
             else (Object item, Some (Expiration item), True))
       else (Object item, None, True))"

definition Add :: "instant \<Rightarrow> string \<Rightarrow> 'o iface \<Rightarrow> int64 \<Rightarrow> ('o, 'f) cache \<Rightarrow> string option \<times> ('o, 'f) cache" where
  "Add now k x d c = (if snd (get_locked now k c) then (Some (''Item '' @ k @ '' already exists''), c)
     else (None, set_locked now k x d c))"

definition Replace :: "instant \<Rightarrow> string \<Rightarrow> 'o iface \<Rightarrow> int64 \<Rightarrow> ('o, 'f) cache \<Rightarrow> string option \<times> ('o, 'f) cache" where
  "Replace now k x d c = (if \<not> snd (get_locked now k c) then (Some (''Item '' @ k @ '' doesn't exist''), c)
     else (None, set_locked now k x d c))"

section \<open>Increments and decrements\<close>

text \<open>The type switches of \<open>Increment\<close> and \<open>Decrement\<close>: the operand is converted to the type of the
  stored value, which truncates it, and the sum wraps around in that type.\<close>

fun add_int64 :: "'o iface \<Rightarrow> uint64 \<Rightarrow> 'o iface option" where
  "add_int64 (Int_iface v) n = Some (Int_iface (v + n))"
| "add_int64 (Int8_iface v) n = Some (Int8_iface (v + ucast n))"
| "add_int64 (Int16_iface v) n = Some (Int16_iface (v + ucast n))"
| "add_int64 (Int32_iface v) n = Some (Int32_iface (v + ucast n))"
| "add_int64 (Int64_iface v) n = Some (Int64_iface (v + n))"
| "add_int64 (Uint_iface v) n = Some (Uint_iface (v + n))"
| "add_int64 (Uintptr_iface v) n = Some (Uintptr_iface (v + n))"
| "add_int64 (Uint8_iface v) n = Some (Uint8_iface (v + ucast n))"
| "add_int64 (Uint16_iface v) n = Some (Uint16_iface (v + ucast n))"
| "add_int64 (Uint32_iface v) n = Some (Uint32_iface (v + ucast n))"
| "add_int64 (Uint64_iface v) n = Some (Uint64_iface (v + n))"
| "add_int64 (Float32_iface v) n = Some (Float32_iface (float_add float32 v (float_of float32 (sint n))))"
| "add_int64 (Float64_iface v) n = Some (Float64_iface (float_add float64 v (float_of float64 (sint n))))"
| "add_int64 _ n = None"

fun sub_int64 :: "'o iface \<Rightarrow> uint64 \<Rightarrow> 'o iface option" where
  "sub_int64 (Int_iface v) n = Some (Int_iface (v - n))"
| "sub_int64 (Int8_iface v) n = Some (Int8_iface (v - ucast n))"
| "sub_int64 (Int16_iface v) n = Some (Int16_iface (v - ucast n))"
| "sub_int64 (Int32_iface v) n = Some (Int32_iface (v - ucast n))"
| "sub_int64 (Int64_iface v) n = Some (Int64_iface (v - n))"
| "sub_int64 (Uint_iface v) n = Some (Uint_iface (v - n))"
| "sub_int64 (Uintptr_iface v) n = Some (Uintptr_iface (v - n))"
| "sub_int64 (Uint8_iface v) n = Some (Uint8_iface (v - ucast n))"
| "sub_int64 (Uint16_iface v) n = Some (Uint16_iface (v - ucast n))"
| "sub_int64 (Uint32_iface v) n = Some (Uint32_iface (v - ucast n))"
| "sub_int64 (Uint64_iface v) n = Some (Uint64_iface (v - n))"
| "sub_int64 (Float32_iface v) n = Some (Float32_iface (float_sub float32 v (float_of float32 (sint n))))"
| "sub_int64 (Float64_iface v) n = Some (Float64_iface (float_sub float64 v (float_of float64 (sint n))))"
| "sub_int64 _ n = None"

fun add_float :: "'o iface \<Rightarrow> gofloat \<Rightarrow> 'o iface option" where
  "add_float (Float32_iface v) n = Some (Float32_iface (float_add float32 v (float_convert float32 n)))"
| "add_float (Float64_iface v) n = Some (Float64_iface (float_add float64 v n))"
| "add_float _ n = None"

fun sub_float :: "'o iface \<Rightarrow> gofloat \<Rightarrow> 'o iface option" where
  "sub_float (Float32_iface v) n = Some (Float32_iface (float_sub float32 v (float_convert float32 n)))"
| "sub_float (Float64_iface v) n = Some (Float64_iface (float_sub float64 v n))"
| "sub_float _ n = None"

text \<open>The frame all of these share: find the item, change its value, store it back with the expiration
  it had.\<close>

definition modify :: "string \<Rightarrow> string \<Rightarrow> ('o iface \<Rightarrow> 'o iface option) \<Rightarrow> instant \<Rightarrow> string \<Rightarrow> ('o, 'f) cache \<Rightarrow>
    string option \<times> ('o, 'f) cache" where
  "modify not_found wrong_type f now k c = (case map_of (items c) k of
     None \<Rightarrow> (Some not_found, c)
   | Some v \<Rightarrow>
       if Expired now v then (Some not_found, c)
       else (case f (Object v) of
         None \<Rightarrow> (Some wrong_type, c)
       | Some x \<Rightarrow> (None, c\<lparr>items := AList.update k (v\<lparr>Object := x\<rparr>) (items c)\<rparr>)))"

definition item_not_found :: "string \<Rightarrow> string" where
  "item_not_found k = ''Item '' @ k @ '' not found''"

definition value_is_not :: "string \<Rightarrow> string \<Rightarrow> string" where
  "value_is_not k t = ''The value for '' @ k @ '' is not an '' @ t"

definition Increment :: "instant \<Rightarrow> string \<Rightarrow> uint64 \<Rightarrow> ('o, 'f) cache \<Rightarrow> string option \<times> ('o, 'f) cache" where
  "Increment now k n c = modify (item_not_found k) (value_is_not k ''integer'') (\<lambda>x. add_int64 x n) now k c"

definition Decrement :: "instant \<Rightarrow> string \<Rightarrow> uint64 \<Rightarrow> ('o, 'f) cache \<Rightarrow> string option \<times> ('o, 'f) cache" where
  "Decrement now k n c = modify ''Item not found'' (value_is_not k ''integer'') (\<lambda>x. sub_int64 x n) now k c"

definition IncrementFloat :: "instant \<Rightarrow> string \<Rightarrow> gofloat \<Rightarrow> ('o, 'f) cache \<Rightarrow> string option \<times> ('o, 'f) cache" where
  "IncrementFloat now k n c =
     modify (item_not_found k) (''The value for '' @ k @ '' does not have type float32 or float64'') (\<lambda>x. add_float x n) now k c"

definition DecrementFloat :: "instant \<Rightarrow> string \<Rightarrow> gofloat \<Rightarrow> ('o, 'f) cache \<Rightarrow> string option \<times> ('o, 'f) cache" where
  "DecrementFloat now k n c =
     modify (item_not_found k) (''The value for '' @ k @ '' does not have type float32 or float64'') (\<lambda>x. sub_float x n) now k c"

subsection \<open>The typed variants\<close>

text \<open>The type assertions \<open>v.Object.(T)\<close>.\<close>

fun as_int :: "'o iface \<Rightarrow> uint64 option" where
  "as_int (Int_iface v) = Some v"
| "as_int _ = None"

fun as_int8 :: "'o iface \<Rightarrow> 8 word option" where
  "as_int8 (Int8_iface v) = Some v"
| "as_int8 _ = None"

fun as_int16 :: "'o iface \<Rightarrow> 16 word option" where
  "as_int16 (Int16_iface v) = Some v"
| "as_int16 _ = None"

fun as_int32 :: "'o iface \<Rightarrow> 32 word option" where
  "as_int32 (Int32_iface v) = Some v"
| "as_int32 _ = None"

fun as_int64 :: "'o iface \<Rightarrow> uint64 option" where
  "as_int64 (Int64_iface v) = Some v"
| "as_int64 _ = None"

fun as_uint :: "'o iface \<Rightarrow> uint64 option" where
  "as_uint (Uint_iface v) = Some v"
| "as_uint _ = None"

fun as_uintptr :: "'o iface \<Rightarrow> uint64 option" where
  "as_uintptr (Uintptr_iface v) = Some v"
| "as_uintptr _ = None"

fun as_uint8 :: "'o iface \<Rightarrow> 8 word option" where
  "as_uint8 (Uint8_iface v) = Some v"
| "as_uint8 _ = None"

fun as_uint16 :: "'o iface \<Rightarrow> 16 word option" where
  "as_uint16 (Uint16_iface v) = Some v"
| "as_uint16 _ = None"

fun as_uint32 :: "'o iface \<Rightarrow> 32 word option" where
  "as_uint32 (Uint32_iface v) = Some v"
| "as_uint32 _ = None"

fun as_uint64 :: "'o iface \<Rightarrow> uint64 option" where
  "as_uint64 (Uint64_iface v) = Some v"
| "as_uint64 _ = None"

fun as_float32 :: "'o iface \<Rightarrow> gofloat option" where
  "as_float32 (Float32_iface v) = Some v"
| "as_float32 _ = None"

fun as_float64 :: "'o iface \<Rightarrow> gofloat option" where
  "as_float64 (Float64_iface v) = Some v"
| "as_float64 _ = None"

text \<open>The frame of the typed variants: \<open>is_t\<close> is the type assertion, \<open>mk_t\<close> the conversion back to an
  interface value, \<open>z\<close> the zero of the type, returned with an error.\<close>

definition modify_typed :: "('o iface \<Rightarrow> 'n option) \<Rightarrow> ('n \<Rightarrow> 'o iface) \<Rightarrow> string \<Rightarrow> 'n \<Rightarrow> ('n \<Rightarrow> 'n) \<Rightarrow>
    instant \<Rightarrow> string \<Rightarrow> ('o, 'f) cache \<Rightarrow> ('n \<times> string option) \<times> ('o, 'f) cache" where
  "modify_typed is_t mk_t tname z f now k c = (case map_of (items c) k of
     None \<Rightarrow> ((z, Some (item_not_found k)), c)
   | Some v \<Rightarrow>
       if Expired now v then ((z, Some (item_not_found k)), c)
       else (case is_t (Object v) of
         None \<Rightarrow> ((z, Some (value_is_not k tname)), c)
       | Some rv \<Rightarrow> ((f rv, None), c\<lparr>items := AList.update k (v\<lparr>Object := mk_t (f rv)\<rparr>) (items c)\<rparr>)))"

definition IncrementInt :: "instant \<Rightarrow> string \<Rightarrow> uint64 \<Rightarrow> ('o, 'f) cache \<Rightarrow> (uint64 \<times> string option) \<times> ('o, 'f) cache" where
  "IncrementInt now k n c = modify_typed as_int Int_iface ''int'' 0 (\<lambda>rv. rv + n) now k c"

definition IncrementInt8 :: "instant \<Rightarrow> string \<Rightarrow> 8 word \<Rightarrow> ('o, 'f) cache \<Rightarrow> (8 word \<times> string option) \<times> ('o, 'f) cache" where
  "IncrementInt8 now k n c = modify_typed as_int8 Int8_iface ''int8'' 0 (\<lambda>rv. rv + n) now k c"

definition IncrementInt16 :: "instant \<Rightarrow> string \<Rightarrow> 16 word \<Rightarrow> ('o, 'f) cache \<Rightarrow> (16 word \<times> string option) \<times> ('o, 'f) cache" where
  "IncrementInt16 now k n c = modify_typed as_int16 Int16_iface ''int16'' 0 (\<lambda>rv. rv + n) now k c"

definition IncrementInt32 :: "instant \<Rightarrow> string \<Rightarrow> 32 word \<Rightarrow> ('o, 'f) cache \<Rightarrow> (32 word \<times> string option) \<times> ('o, 'f) cache" where
  "IncrementInt32 now k n c = modify_typed as_int32 Int32_iface ''int32'' 0 (\<lambda>rv. rv + n) now k c"

definition IncrementInt64 :: "instant \<Rightarrow> string \<Rightarrow> uint64 \<Rightarrow> ('o, 'f) cache \<Rightarrow> (uint64 \<times> string option) \<times> ('o, 'f) cache" where
  "IncrementInt64 now k n c = modify_typed as_int64 Int64_iface ''int64'' 0 (\<lambda>rv. rv + n) now k c"

definition IncrementUint :: "instant \<Rightarrow> string \<Rightarrow> uint64 \<Rightarrow> ('o, 'f) cache \<Rightarrow> (uint64 \<times> string option) \<times> ('o, 'f) cache" where
  "IncrementUint now k n c = modify_typed as_uint Uint_iface ''uint'' 0 (\<lambda>rv. rv + n) now k c"

definition IncrementUintptr :: "instant \<Rightarrow> string \<Rightarrow> uint64 \<Rightarrow> ('o, 'f) cache \<Rightarrow> (uint64 \<times> string option) \<times> ('o, 'f) cache" where
  "IncrementUintptr now k n c = modify_typed as_uintptr Uintptr_iface ''uintptr'' 0 (\<lambda>rv. rv + n) now k c"

definition IncrementUint8 :: "instant \<Rightarrow> string \<Rightarrow> 8 word \<Rightarrow> ('o, 'f) cache \<Rightarrow> (8 word \<times> string option) \<times> ('o, 'f) cache" where
  "IncrementUint8 now k n c = modify_typed as_uint8 Uint8_iface ''uint8'' 0 (\<lambda>rv. rv + n) now k c"

definition IncrementUint16 :: "instant \<Rightarrow> string \<Rightarrow> 16 word \<Rightarrow> ('o, 'f) cache \<Rightarrow> (16 word \<times> string option) \<times> ('o, 'f) cache" where
  "IncrementUint16 now k n c = modify_typed as_uint16 Uint16_iface ''uint16'' 0 (\<lambda>rv. rv + n) now k c"

definition IncrementUint32 :: "instant \<Rightarrow> string \<Rightarrow> 32 word \<Rightarrow> ('o, 'f) cache \<Rightarrow> (32 word \<times> string option) \<times> ('o, 'f) cache" where
  "IncrementUint32 now k n c = modify_typed as_uint32 Uint32_iface ''uint32'' 0 (\<lambda>rv. rv + n) now k c"

definition IncrementUint64 :: "instant \<Rightarrow> string \<Rightarrow> uint64 \<Rightarrow> ('o, 'f) cache \<Rightarrow> (uint64 \<times> string option) \<times> ('o, 'f) cache" where
  "IncrementUint64 now k n c = modify_typed as_uint64 Uint64_iface ''uint64'' 0 (\<lambda>rv. rv + n) now k c"

definition IncrementFloat32 :: "instant \<Rightarrow> string \<Rightarrow> gofloat \<Rightarrow> ('o, 'f) cache \<Rightarrow> (gofloat \<times> string option) \<times> ('o, 'f) cache" where
  "IncrementFloat32 now k n c = modify_typed as_float32 Float32_iface ''float32'' (Fin False 0 0) (\<lambda>rv. float_add float32 rv n) now k c"

definition IncrementFloat64 :: "instant \<Rightarrow> string \<Rightarrow> gofloat \<Rightarrow> ('o, 'f) cache \<Rightarrow> (gofloat \<times> string option) \<times> ('o, 'f) cache" where
  "IncrementFloat64 now k n c = modify_typed as_float64 Float64_iface ''float64'' (Fin False 0 0) (\<lambda>rv. float_add float64 rv n) now k c"

definition DecrementInt :: "instant \<Rightarrow> string \<Rightarrow> uint64 \<Rightarrow> ('o, 'f) cache \<Rightarrow> (uint64 \<times> string option) \<times> ('o, 'f) cache" where
  "DecrementInt now k n c = modify_typed as_int Int_iface ''int'' 0 (\<lambda>rv. rv - n) now k c"

definition DecrementInt8 :: "instant \<Rightarrow> string \<Rightarrow> 8 word \<Rightarrow> ('o, 'f) cache \<Rightarrow> (8 word \<times> string option) \<times> ('o, 'f) cache" where
  "DecrementInt8 now k n c = modify_typed as_int8 Int8_iface ''int8'' 0 (\<lambda>rv. rv - n) now k c"

definition DecrementInt16 :: "instant \<Rightarrow> string \<Rightarrow> 16 word \<Rightarrow> ('o, 'f) cache \<Rightarrow> (16 word \<times> string option) \<times> ('o, 'f) cache" where
  "DecrementInt16 now k n c = modify_typed as_int16 Int16_iface ''int16'' 0 (\<lambda>rv. rv - n) now k c"

definition DecrementInt32 :: "instant \<Rightarrow> string \<Rightarrow> 32 word \<Rightarrow> ('o, 'f) cache \<Rightarrow> (32 word \<times> string option) \<times> ('o, 'f) cache" where
  "DecrementInt32 now k n c = modify_typed as_int32 Int32_iface ''int32'' 0 (\<lambda>rv. rv - n) now k c"

definition DecrementInt64 :: "instant \<Rightarrow> string \<Rightarrow> uint64 \<Rightarrow> ('o, 'f) cache \<Rightarrow> (uint64 \<times> string option) \<times> ('o, 'f) cache" where
  "DecrementInt64 now k n c = modify_typed as_int64 Int64_iface ''int64'' 0 (\<lambda>rv. rv - n) now k c"

definition DecrementUint :: "instant \<Rightarrow> string \<Rightarrow> uint64 \<Rightarrow> ('o, 'f) cache \<Rightarrow> (uint64 \<times> string option) \<times> ('o, 'f) cache" where
  "DecrementUint now k n c = modify_typed as_uint Uint_iface ''uint'' 0 (\<lambda>rv. rv - n) now k c"

definition DecrementUintptr :: "instant \<Rightarrow> string \<Rightarrow> uint64 \<Rightarrow> ('o, 'f) cache \<Rightarrow> (uint64 \<times> string option) \<times> ('o, 'f) cache" where
  "DecrementUintptr now k n c = modify_typed as_uintptr Uintptr_iface ''uintptr'' 0 (\<lambda>rv. rv - n) now k c"

definition DecrementUint8 :: "instant \<Rightarrow> string \<Rightarrow> 8 word \<Rightarrow> ('o, 'f) cache \<Rightarrow> (8 word \<times> string option) \<times> ('o, 'f) cache" where
  "DecrementUint8 now k n c = modify_typed as_uint8 Uint8_iface ''uint8'' 0 (\<lambda>rv. rv - n) now k c"

definition DecrementUint16 :: "instant \<Rightarrow> string \<Rightarrow> 16 word \<Rightarrow> ('o, 'f) cache \<Rightarrow> (16 word \<times> string option) \<times> ('o, 'f) cache" where
  "DecrementUint16 now k n c = modify_typed as_uint16 Uint16_iface ''uint16'' 0 (\<lambda>rv. rv - n) now k c"

definition DecrementUint32 :: "instant \<Rightarrow> string \<Rightarrow> 32 word \<Rightarrow> ('o, 'f) cache \<Rightarrow> (32 word \<times> string option) \<times> ('o, 'f) cache" where
  "DecrementUint32 now k n c = modify_typed as_uint32 Uint32_iface ''uint32'' 0 (\<lambda>rv. rv - n) now k c"

definition DecrementUint64 :: "instant \<Rightarrow> string \<Rightarrow> uint64 \<Rightarrow> ('o, 'f) cache \<Rightarrow> (uint64 \<times> string option) \<times> ('o, 'f) cache" where
  "DecrementUint64 now k n c = modify_typed as_uint64 Uint64_iface ''uint64'' 0 (\<lambda>rv. rv - n) now k c"

definition DecrementFloat32 :: "instant \<Rightarrow> string \<Rightarrow> gofloat \<Rightarrow> ('o, 'f) cache \<Rightarrow> (gofloat \<times> string option) \<times> ('o, 'f) cache" where
  "DecrementFloat32 now k n c = modify_typed as_float32 Float32_iface ''float32'' (Fin False 0 0) (\<lambda>rv. float_sub float32 rv n) now k c"

definition DecrementFloat64 :: "instant \<Rightarrow> string \<Rightarrow> gofloat \<Rightarrow> ('o, 'f) cache \<Rightarrow> (gofloat \<times> string option) \<times> ('o, 'f) cache" where
  "DecrementFloat64 now k n c = modify_typed as_float64 Float64_iface ''float64'' (Fin False 0 0) (\<lambda>rv. float_sub float64 rv n) now k c"

section \<open>Deleting\<close>

definition delete_locked :: "string \<Rightarrow> ('o, 'f) cache \<Rightarrow> ('o iface \<times> bool) \<times> ('o, 'f) cache" where
  "delete_locked k c =
     (let c' = c\<lparr>items := AList.delete k (items c)\<rparr>
      in case (onEvicted c, map_of (items c) k) of
        (Some _, Some v) \<Rightarrow> ((Object v, True), c')
      | _ \<Rightarrow> ((Nil_iface, False), c'))"

definition Delete :: "string \<Rightarrow> ('o, 'f) cache \<Rightarrow> (string \<times> 'o iface) list \<times> ('o, 'f) cache" where
  "Delete k c = (let ((v, evicted), c') = delete_locked k c in (if evicted then [(k, v)] else [], c'))"

type_synonym 'o keyAndValue = "string \<times> 'o iface"

text \<open>\<open>range\<close> visits the keys in an order Go leaves open: \<open>ks\<close>. A key is looked up when it is visited.\<close>

fun delete_expired_loop :: "int64 \<Rightarrow> string list \<Rightarrow> ('o, 'f) cache \<Rightarrow> 'o keyAndValue list \<times> ('o, 'f) cache" where
  "delete_expired_loop n [] c = ([], c)"
| "delete_expired_loop n (k # ks) c = (case map_of (items c) k of
     None \<Rightarrow> delete_expired_loop n ks c
   | Some v \<Rightarrow>
       if 0 < Expiration v \<and> Expiration v < n
       then (let ((ov, evicted), c') = delete_locked k c; (evs, c'') = delete_expired_loop n ks c'
             in (if evicted then (k, ov) # evs else evs, c''))
       else delete_expired_loop n ks c)"

definition DeleteExpired :: "instant \<Rightarrow> string list \<Rightarrow> ('o, 'f) cache \<Rightarrow> 'o keyAndValue list \<times> ('o, 'f) cache" where
  "DeleteExpired now ks c = delete_expired_loop (UnixNano now) ks c"

definition OnEvicted :: "'f option \<Rightarrow> ('o, 'f) cache \<Rightarrow> ('o, 'f) cache" where
  "OnEvicted f c = c\<lparr>onEvicted := f\<rparr>"

definition Flush :: "('o, 'f) cache \<Rightarrow> ('o, 'f) cache" where
  "Flush c = c\<lparr>items := []\<rparr>"

section \<open>Loading and listing\<close>

text \<open>\<open>decoded\<close> is what the gob decoder read: an error or the map, in the order it is visited.\<close>

definition Load :: "instant \<Rightarrow> string + (string \<times> 'o Item) list \<Rightarrow> ('o, 'f) cache \<Rightarrow> string option \<times> ('o, 'f) cache" where
  "Load now decoded c = (case decoded of
     Inl err \<Rightarrow> (Some err, c)
   | Inr loaded \<Rightarrow> (None, fold (\<lambda>(k, v) c. case map_of (items c) k of
         None \<Rightarrow> c\<lparr>items := AList.update k v (items c)\<rparr>
       | Some ov \<Rightarrow> if Expired now ov then c\<lparr>items := AList.update k v (items c)\<rparr> else c) loaded c))"

definition Items :: "instant \<Rightarrow> ('o, 'f) cache \<Rightarrow> (string \<times> 'o Item) list" where
  "Items now c = filter (\<lambda>(k, v). \<not> (0 < Expiration v \<and> Expiration v < UnixNano now)) (items c)"

definition ItemCount :: "('o, 'f) cache \<Rightarrow> int" where
  "ItemCount c = int (length (items c))"

section \<open>The janitor and the constructors\<close>

text \<open>The janitor's loop over what its two channels deliver: a tick, with the clock and the order of the
  visit, or the stop signal. Deliveries after the stop are not received.\<close>

datatype janitor_event = Tick instant "string list" | Stop

fun Run :: "janitor_event list \<Rightarrow> ('o, 'f) cache \<Rightarrow> 'o keyAndValue list \<times> ('o, 'f) cache" where
  "Run [] c = ([], c)"
| "Run (Tick now ks # es) c = (let (evs, c') = DeleteExpired now ks c; (evs', c'') = Run es c' in (evs @ evs', c''))"
| "Run (Stop # es) c = ([], c)"

definition runJanitor :: "('o, 'f) cache \<Rightarrow> int64 \<Rightarrow> ('o, 'f) cache" where
  "runJanitor c ci = c\<lparr>janitor_c := Some \<lparr>Interval = ci\<rparr>\<rparr>"

definition newCache :: "int64 \<Rightarrow> (string \<times> 'o Item) list \<Rightarrow> ('o, 'f) cache" where
  "newCache de m = \<lparr>defaultExpiration = (if de = 0 then - 1 else de), items = m, onEvicted = None, janitor_c = None\<rparr>"

definition newCacheWithJanitor :: "int64 \<Rightarrow> int64 \<Rightarrow> (string \<times> 'o Item) list \<Rightarrow> ('o, 'f) cache" where
  "newCacheWithJanitor de ci m = (let c = newCache de m in if 0 < ci then runJanitor c ci else c)"

definition New :: "int64 \<Rightarrow> int64 \<Rightarrow> ('o, 'f) cache" where
  "New de ci = newCacheWithJanitor de ci []"

definition NewFrom :: "int64 \<Rightarrow> int64 \<Rightarrow> (string \<times> 'o Item) list \<Rightarrow> ('o, 'f) cache" where
  "NewFrom de ci m = newCacheWithJanitor de ci m"

section \<open>The abstract map\<close>

text \<open>What a cache promises: a map from keys to a value and an optional deadline; an entry can be read
  until its deadline has passed.\<close>

type_synonym 'o emap = "string \<rightharpoonup> 'o iface \<times> int64 option"

definition deadline_opt :: "int64 \<Rightarrow> int64 option" where
  "deadline_opt e = (if 0 < e then Some e else None)"

definition em_live :: "instant \<Rightarrow> int64 option \<Rightarrow> bool" where
  "em_live now dl = (case dl of None \<Rightarrow> True | Some e \<Rightarrow> UnixNano now \<le> e)"

definition em_get :: "instant \<Rightarrow> string \<Rightarrow> 'o emap \<Rightarrow> 'o iface option" where
  "em_get now k m = (case m k of None \<Rightarrow> None | Some (x, dl) \<Rightarrow> if em_live now dl then Some x else None)"

definition em_purge :: "instant \<Rightarrow> 'o emap \<Rightarrow> 'o emap" where
  "em_purge now m k = (case m k of None \<Rightarrow> None | Some (x, dl) \<Rightarrow> if em_live now dl then Some (x, dl) else None)"

definition item_abs :: "'o Item \<Rightarrow> 'o iface \<times> int64 option" where
  "item_abs v = (Object v, deadline_opt (Expiration v))"

definition cache_abs :: "('o, 'f) cache \<Rightarrow> 'o emap" where
  "cache_abs c = (\<lambda>k. map_option item_abs (map_of (items c) k))"

definition cache_wf :: "('o, 'f) cache \<Rightarrow> bool" where
  "cache_wf c \<longleftrightarrow> distinct (map fst (items c))"

lemma live_item: "em_live now (deadline_opt (Expiration v)) \<longleftrightarrow> \<not> (0 < Expiration v \<and> Expiration v < UnixNano now)"
  by (auto simp: em_live_def deadline_opt_def)

lemma em_get_abs: "em_get now k (cache_abs c) = (if snd (Get now k c) then Some (fst (Get now k c)) else None)"
  by (simp add: em_get_def cache_abs_def Get_def item_abs_def live_item split: option.splits)

lemma Get_abs: "Get now k c = (case em_get now k (cache_abs c) of None \<Rightarrow> (Nil_iface, False) | Some x \<Rightarrow> (x, True))"
  unfolding em_get_abs by (auto simp: Get_def split: option.splits)

lemma inlined_get: "get_locked = Get" and inlined_set: "set_locked = Set"
  by (intro ext, simp add: get_locked_def Get_def set_locked_def Set_def)+

lemma map_of_update: "map_of (AList.update k v al) = (map_of al)(k \<mapsto> v)"
  by (rule AList.update_conv')

lemma map_of_delete': "map_of (AList.delete k al) = (map_of al)(k := None)"
  by (rule AList.delete_conv')

lemma map_of_filter_values:
  "distinct (map fst al) \<Longrightarrow> map_of (filter (\<lambda>(k, v). P v) al) k =
     (case map_of al k of None \<Rightarrow> None | Some v \<Rightarrow> if P v then Some v else None)"
proof (induction al)
  case (Cons p al)
  have "k = fst p \<Longrightarrow> map_of al k = None" using Cons.prems by (auto simp: map_of_eq_None_iff)
  with Cons show ?case by (cases p) auto
qed simp

lemma cache_abs_update: "cache_abs (c\<lparr>items := AList.update k v (items c)\<rparr>) = (cache_abs c)(k \<mapsto> item_abs v)"
  by (auto simp: cache_abs_def map_of_update)

lemma cache_abs_Set: "cache_abs (Set now k x d c) = (cache_abs c)(k \<mapsto> (x, deadline_opt (deadline_of now d c)))"
  by (simp add: Set_def cache_abs_update item_abs_def Let_def)

lemma cache_abs_delete_locked: "cache_abs (snd (delete_locked k c)) = (cache_abs c)(k := None)"
  by (auto simp: delete_locked_def cache_abs_def map_of_delete' Let_def split: option.splits)

lemma onEvicted_delete_locked [simp]: "onEvicted (snd (delete_locked k c)) = onEvicted c"
  by (simp add: delete_locked_def Let_def split: option.splits)

lemma delete_locked_Nil [simp]: "items c = [] \<Longrightarrow> items (snd (delete_locked k c)) = []"
  by (simp add: delete_locked_def Let_def split: option.splits)

lemma Delete_snd: "snd (Delete k c) = snd (delete_locked k c)"
  by (simp add: Delete_def Let_def split: prod.splits)

lemma Delete_fst: "fst (Delete k c) = (case (onEvicted c, map_of (items c) k) of (Some _, Some v) \<Rightarrow> [(k, Object v)] | _ \<Rightarrow> [])"
  by (simp add: Delete_def delete_locked_def Let_def split: option.splits)

lemma cache_wf_update: "cache_wf c \<Longrightarrow> cache_wf (c\<lparr>items := AList.update k v (items c)\<rparr>)"
  by (simp add: cache_wf_def AList.distinct_update)

lemma cache_wf_Nil [simp]: "cache_wf (c\<lparr>items := []\<rparr>)" and cache_wf_onEvicted [simp]: "cache_wf (c\<lparr>onEvicted := f\<rparr>) = cache_wf c"
  by (simp_all add: cache_wf_def)

lemma cache_wf_Set: "cache_wf c \<Longrightarrow> cache_wf (Set now k x d c)"
  by (simp add: Set_def cache_wf_update Let_def)

lemma cache_wf_delete_locked: "cache_wf c \<Longrightarrow> cache_wf (snd (delete_locked k c))"
  by (simp add: delete_locked_def cache_wf_def AList.distinct_delete Let_def split: option.splits)

lemma wf_New: "cache_wf (New de ci)" and abs_New: "cache_abs (New de ci) = Map.empty"
  by (auto simp: New_def newCacheWithJanitor_def newCache_def runJanitor_def cache_wf_def cache_abs_def Let_def)

section \<open>Purging\<close>

lemma delete_expired_loop_snd:
  "snd (delete_expired_loop n (k # ks) c) = (case map_of (items c) k of
     None \<Rightarrow> snd (delete_expired_loop n ks c)
   | Some v \<Rightarrow> if 0 < Expiration v \<and> Expiration v < n then snd (delete_expired_loop n ks (snd (delete_locked k c)))
       else snd (delete_expired_loop n ks c))"
  by (simp add: case_prod_beta Let_def split: option.splits)

text \<open>The loop drops what is dead among the keys it visits and keeps the rest.\<close>

lemma delete_expired_loop_abs:
  "cache_abs (snd (delete_expired_loop (UnixNano now) ks c)) =
     (\<lambda>k. if k \<in> set ks then em_purge now (cache_abs c) k else cache_abs c k)"
proof (induction ks arbitrary: c)
  case (Cons k ks)
  show ?case
  proof (cases "map_of (items c) k")
    case None
    then have "cache_abs c k = None" by (simp add: cache_abs_def)
    with None show ?thesis unfolding delete_expired_loop_snd by (auto simp: Cons.IH em_purge_def)
  next
    case (Some v)
    then have v: "cache_abs c k = Some (item_abs v)" by (simp add: cache_abs_def)
    show ?thesis
      unfolding delete_expired_loop_snd using Some v
      by (auto simp: Cons.IH em_purge_def cache_abs_delete_locked item_abs_def live_item fun_eq_iff)
  qed
qed simp

lemma delete_expired_loop_wf: "cache_wf c \<Longrightarrow> cache_wf (snd (delete_expired_loop n ks c))"
proof (induction ks arbitrary: c)
  case (Cons k ks)
  have "cache_wf (snd (delete_locked k c))" using Cons.prems by (rule cache_wf_delete_locked)
  then show ?case unfolding delete_expired_loop_snd using Cons by (auto split: option.splits)
qed simp

text \<open>The callbacks: one for each dead key visited, if a callback is set.\<close>

definition dead_keys :: "int64 \<Rightarrow> ('o, 'f) cache \<Rightarrow> string list \<Rightarrow> string list" where
  "dead_keys n c = filter (\<lambda>k. case map_of (items c) k of None \<Rightarrow> False | Some v \<Rightarrow> 0 < Expiration v \<and> Expiration v < n)"

lemma map_of_delete_locked: "map_of (items (snd (delete_locked k c))) = (map_of (items c))(k := None)"
  by (simp add: delete_locked_def map_of_delete' Let_def split: option.splits)

lemma delete_expired_loop_calls:
  "distinct ks \<Longrightarrow> fst (delete_expired_loop n ks c) =
     (if onEvicted c = None then [] else map (\<lambda>k. (k, Object (the (map_of (items c) k)))) (dead_keys n c ks))"
proof (induction ks arbitrary: c)
  case (Cons k ks)
  have same: "dead_keys n (snd (delete_locked k c)) ks = dead_keys n c ks"
    using Cons.prems by (auto simp: dead_keys_def map_of_delete_locked intro!: filter_cong)
  have keys: "k \<notin> set (dead_keys n c ks)" using Cons.prems by (auto simp: dead_keys_def)
  have vals: "map (\<lambda>k'. (k', Object (the (((map_of (items c))(k := None)) k')))) (dead_keys n c ks) =
      map (\<lambda>k'. (k', Object (the (map_of (items c) k')))) (dead_keys n c ks)"
    using keys by (intro map_cong) auto
  have IH: "fst (delete_expired_loop n ks c') = (if onEvicted c' = None then []
      else map (\<lambda>k. (k, Object (the (map_of (items c') k)))) (dead_keys n c' ks))" for c' :: "('a, 'b) cache"
    using Cons by simp
  have d: "dead_keys n c (k # ks) = (case map_of (items c) k of None \<Rightarrow> dead_keys n c ks
      | Some v \<Rightarrow> if 0 < Expiration v \<and> Expiration v < n then k # dead_keys n c ks else dead_keys n c ks)"
    by (simp add: dead_keys_def split: option.splits)
  have ev: "fst (delete_locked k c) = (case (onEvicted c, map_of (items c) k) of
        (Some _, Some v) \<Rightarrow> (Object v, True) | _ \<Rightarrow> (Nil_iface, False))"
    by (simp add: delete_locked_def Let_def split: option.splits)
  show ?case
  proof (cases "map_of (items c) k")
    case (Some v)
    show ?thesis
      using IH [of "snd (delete_locked k c)"] IH [of c] same vals Some
      by (cases "0 < Expiration v \<and> Expiration v < n"; cases "onEvicted c")
         (simp_all add: d ev map_of_delete_locked case_prod_beta Let_def)
  qed (simp add: IH d)
qed (simp add: dead_keys_def)

section \<open>The store with an availability switch\<close>

record ('o, 'f) WatchCacheStore =
  cache_wc :: "('o, 'f) cache"
  available_wc :: bool

definition ErrorCacheNotAvilable :: string where
  "ErrorCacheNotAvilable = ''watch cache not available''"

definition NewWatchCacheStore :: "int64 \<Rightarrow> int64 \<Rightarrow> ('o, 'f) WatchCacheStore" where
  "NewWatchCacheStore de ci = \<lparr>cache_wc = New de ci, available_wc = True\<rparr>"

definition wc_Flush :: "('o, 'f) WatchCacheStore \<Rightarrow> ('o, 'f) WatchCacheStore" where
  "wc_Flush wc = wc\<lparr>cache_wc := Flush (cache_wc wc)\<rparr>"

definition wc_SetAvailable :: "bool \<Rightarrow> ('o, 'f) WatchCacheStore \<Rightarrow> ('o, 'f) WatchCacheStore" where
  "wc_SetAvailable available wc =
     (if available = available_wc wc then wc
      else (if available = False then wc_Flush wc else wc)\<lparr>available_wc := available\<rparr>)"

definition wc_Get :: "instant \<Rightarrow> string \<Rightarrow> ('o, 'f) WatchCacheStore \<Rightarrow> string + 'o iface" where
  "wc_Get now k wc =
     (if \<not> available_wc wc then Inl ErrorCacheNotAvilable
      else let (value, ok) = Get now k (cache_wc wc)
           in if \<not> ok then Inl ''watch cache not have this key'' else Inr value)"

definition wc_Set :: "instant \<Rightarrow> string \<Rightarrow> 'o iface \<Rightarrow> int64 \<Rightarrow> ('o, 'f) WatchCacheStore \<Rightarrow> string option \<times> ('o, 'f) WatchCacheStore" where
  "wc_Set now k x d wc =
     (if \<not> available_wc wc then (Some ErrorCacheNotAvilable, wc)
      else (None, wc\<lparr>cache_wc := Set now k x d (cache_wc wc)\<rparr>))"

definition wc_SetDefault :: "instant \<Rightarrow> string \<Rightarrow> 'o iface \<Rightarrow> ('o, 'f) WatchCacheStore \<Rightarrow> string option \<times> ('o, 'f) WatchCacheStore" where
  "wc_SetDefault now k x wc = wc_Set now k x DefaultExpiration wc"

definition wc_Delete :: "string \<Rightarrow> ('o, 'f) WatchCacheStore \<Rightarrow> (string \<times> 'o iface) list \<times> ('o, 'f) WatchCacheStore" where
  "wc_Delete k wc = (let (evs, c) = Delete k (cache_wc wc) in (evs, wc\<lparr>cache_wc := c\<rparr>))"

definition wc_OnEvicted :: "'f option \<Rightarrow> ('o, 'f) WatchCacheStore \<Rightarrow> ('o, 'f) WatchCacheStore" where
  "wc_OnEvicted f wc = wc\<lparr>cache_wc := OnEvicted f (cache_wc wc)\<rparr>"

section \<open>The interface of an expiring store\<close>

text \<open>What a client of the caches relies on. An instant within the range of \<open>UnixNano\<close> after the epoch is
  \<open>in_clock\<close>; a lifetime \<open>d\<close> put at \<open>t\<close> does not overflow if \<open>t + d\<close> is one.\<close>

definition in_clock :: "instant \<Rightarrow> bool" where
  "in_clock t \<longleftrightarrow> 0 < t \<and> t < 2 ^ 63"

locale expiring_store =
  fixes inv :: "'s \<Rightarrow> bool"
    and get :: "instant \<Rightarrow> string \<Rightarrow> 's \<Rightarrow> 'v option"
    and put :: "instant \<Rightarrow> string \<Rightarrow> 'v \<Rightarrow> int64 \<Rightarrow> 's \<Rightarrow> 's"
  assumes inv_put: "inv s \<Longrightarrow> inv (put t k v d s)"
    and get_put_same: "\<lbrakk>inv s; 0 < d; in_clock t; in_clock (t + d); in_clock t'\<rbrakk> \<Longrightarrow>
      get t' k (put t k v d s) = (if t' \<le> t + d then Some v else None)"
    and get_put_other: "\<lbrakk>inv s; k' \<noteq> k\<rbrakk> \<Longrightarrow> get t' k' (put t k v d s) = get t' k' s"

text \<open>A client that reads through the store: a hit is the stored value, a miss asks the origin and stores
  its answer with the lifetime \<open>D k\<close> of the key. A request is the time of the lookup, the time of the answer, the key
  and what the origin answers.\<close>

type_synonym ('e, 'v) request = "instant \<times> instant \<times> string \<times> ('e + 'v)"

definition read_through :: "(instant \<Rightarrow> string \<Rightarrow> 's \<Rightarrow> 'v option) \<Rightarrow> (instant \<Rightarrow> string \<Rightarrow> 'v \<Rightarrow> int64 \<Rightarrow> 's \<Rightarrow> 's) \<Rightarrow>
    (string \<Rightarrow> int64) \<Rightarrow> ('e, 'v) request \<Rightarrow> 's \<Rightarrow> (('e + 'v) \<times> bool) \<times> 's" where
  "read_through get put D r s = (case r of (now, now', k, answer) \<Rightarrow> (case get now k s of
     Some v \<Rightarrow> ((Inr v, True), s)
   | None \<Rightarrow> (case answer of
       Inl e \<Rightarrow> ((Inl e, False), s)
     | Inr v \<Rightarrow> ((Inr v, False), put now' k v (D k) s))))"

fun read_all :: "(instant \<Rightarrow> string \<Rightarrow> 's \<Rightarrow> 'v option) \<Rightarrow> (instant \<Rightarrow> string \<Rightarrow> 'v \<Rightarrow> int64 \<Rightarrow> 's \<Rightarrow> 's) \<Rightarrow>
    (string \<Rightarrow> int64) \<Rightarrow> ('e, 'v) request list \<Rightarrow> 's \<Rightarrow> (('e + 'v) \<times> bool) list \<times> 's" where
  "read_all get put D [] s = ([], s)"
| "read_all get put D (r # rs) s =
     (let (out, s') = read_through get put D r s; (outs, s'') = read_all get put D rs s' in (out # outs, s''))"

definition request_ok :: "(string \<Rightarrow> int64) \<Rightarrow> ('e, 'v) request \<Rightarrow> bool" where
  "request_ok D r = (case r of (now, now', k, _) \<Rightarrow> in_clock now \<and> now \<le> now' \<and> 0 < D k \<and> in_clock (now' + D k))"

text \<open>A value is fresh at \<open>t\<close> if the origin gave it for this key at most \<open>D k\<close> before.\<close>

definition fresh_from :: "(string \<Rightarrow> int64) \<Rightarrow> ('e, 'v) request list \<Rightarrow> instant \<Rightarrow> string \<Rightarrow> 'v \<Rightarrow> bool" where
  "fresh_from D hist t k v \<longleftrightarrow> (\<exists>t0 t1. (t0, t1, k, Inr v) \<in> set hist \<and> t \<le> t1 + D k)"

definition fresh_out :: "(string \<Rightarrow> int64) \<Rightarrow> ('e, 'v) request list \<Rightarrow> ('e, 'v) request \<Rightarrow> ('e + 'v) \<times> bool \<Rightarrow> bool" where
  "fresh_out D hist r out = (case r of (now, _, k, _) \<Rightarrow>
     (case fst out of Inl _ \<Rightarrow> True | Inr v \<Rightarrow> fresh_from D hist now k v))"

context expiring_store
begin

definition covered :: "(string \<Rightarrow> int64) \<Rightarrow> ('e, 'v) request list \<Rightarrow> 's \<Rightarrow> bool" where
  "covered D hist s \<longleftrightarrow> inv s \<and> (\<forall>t k v. in_clock t \<longrightarrow> get t k s = Some v \<longrightarrow> fresh_from D hist t k v)"

lemma covered_step:
  fixes r :: "('e, 'v) request"
  assumes "covered D hist s" "request_ok D r"
  shows "covered D (hist @ [r]) (snd (read_through get put D r s))"
    and "fresh_out D (hist @ [r]) r (fst (read_through get put D r s))"
proof -
  obtain now now' k answer where r: "r = (now, now', k, answer)" by (cases r)
  have clk: "in_clock now" "now \<le> now'" "in_clock now'" "in_clock (now' + D k)" "0 < D k"
    using assms(2) by (auto simp: request_ok_def r in_clock_def)
  have more: "fresh_from D hist t k' v \<Longrightarrow> fresh_from D (hist @ [r]) t k' v" for t k' v
    by (auto simp: fresh_from_def)
  have here: "answer = Inr v \<Longrightarrow> t \<le> now' + D k \<Longrightarrow> fresh_from D (hist @ [r]) t k v" for t v
    by (auto simp: fresh_from_def r)
  from assms have inv: "inv s" by (simp add: covered_def)
  have keep: "covered D (hist @ [r]) s" using assms(1) more by (auto simp: covered_def)
  have put: "covered D (hist @ [r]) (put now' k v (D k) s)" if v: "answer = Inr v" for v
    unfolding covered_def
  proof (intro conjI allI impI)
    show "inv (put now' k v (D k) s)" using inv by (rule inv_put)
    fix t k' v'
    assume "in_clock t" "get t k' (put now' k v (D k) s) = Some v'"
    then show "fresh_from D (hist @ [r]) t k' v'"
      using assms(1) clk v more here [OF v] get_put_same [OF inv, of "D k" now' t k v] get_put_other [OF inv, of k' k t now' v "D k"]
      by (cases "k' = k") (auto simp: covered_def split: if_splits)
  qed
  show "covered D (hist @ [r]) (snd (read_through get put D r s))"
    using keep put by (auto simp: r read_through_def split: option.splits sum.splits)
  show "fresh_out D (hist @ [r]) r (fst (read_through get put D r s))"
    using assms(1) clk more here
    by (auto simp: r read_through_def covered_def fresh_out_def split: option.splits sum.splits)
qed

text \<open>Bounded staleness: whatever a client reads, the origin answered at most \<open>D k\<close> earlier.\<close>

lemma read_all_fresh:
  fixes rs :: "('e, 'v) request list"
  assumes "covered D hist s" "\<forall>r \<in> set rs. request_ok D r"
  shows "length (fst (read_all get put D rs s)) = length rs \<and>
    (\<forall>i < length rs. fresh_out D (hist @ take (Suc i) rs) (rs ! i) (fst (read_all get put D rs s) ! i))"
  using assms
proof (induction rs arbitrary: hist s)
  case (Cons r rs)
  note one = covered_step [OF Cons.prems(1), of r]
  have IH: "length (fst (read_all get put D rs (snd (read_through get put D r s)))) = length rs \<and>
      (\<forall>i < length rs. fresh_out D ((hist @ [r]) @ take (Suc i) rs) (rs ! i)
        (fst (read_all get put D rs (snd (read_through get put D r s))) ! i))"
    using Cons.prems(2) by (intro Cons.IH [OF one(1)]) simp_all
  show ?case
  proof (intro conjI allI impI)
    show "length (fst (read_all get put D (r # rs) s)) = length (r # rs)" using IH by (simp add: case_prod_beta)
    fix i
    assume "i < length (r # rs)"
    then show "fresh_out D (hist @ take (Suc i) (r # rs)) ((r # rs) ! i) (fst (read_all get put D (r # rs) s) ! i)"
      using IH one(2) Cons.prems(2) by (cases i) (simp_all add: case_prod_beta)
  qed
qed simp

end

section \<open>The caches implement the interface\<close>

definition found :: "'o iface \<times> bool \<Rightarrow> 'o iface option" where
  "found r = (if snd r then Some (fst r) else None)"

lemma UnixNano_clock [simp]: "in_clock t \<Longrightarrow> UnixNano t = t"
  by (simp add: UnixNano_def in_clock_def i64_id in_i64_def)

lemma deadline_of_clock: "0 < d \<Longrightarrow> in_clock (t + d) \<Longrightarrow> deadline_of t d c = t + d"
  by (simp add: deadline_of_def DefaultExpiration_def)

lemma found_Get: "found (Get now k c) = em_get now k (cache_abs c)"
  by (simp add: found_def em_get_abs)

interpretation cs: expiring_store cache_wf "\<lambda>t k c. found (Get t k c)" Set
proof unfold_locales
  fix c :: "('a, 'b) cache" and t t' d k k' x
  show "cache_wf c \<Longrightarrow> cache_wf (Set t k x d c)" by (rule cache_wf_Set)
  show "found (Get t' k (Set t k x d c)) = (if t' \<le> t + d then Some x else None)"
    if "0 < d" "in_clock t" "in_clock (t + d)" "in_clock t'"
    using that by (simp add: found_Get cache_abs_Set deadline_of_clock em_get_def em_live_def deadline_opt_def)
      (auto simp: in_clock_def)
  show "found (Get t' k' (Set t k x d c)) = found (Get t' k' c)" if "k' \<noteq> k"
    using that by (simp add: found_Get cache_abs_Set em_get_def)
qed

definition wc_found :: "string + 'o iface \<Rightarrow> 'o iface option" where
  "wc_found r = (case r of Inl _ \<Rightarrow> None | Inr v \<Rightarrow> Some v)"

lemma wc_found_Get: "wc_found (wc_Get t k wc) = (if available_wc wc then found (Get t k (cache_wc wc)) else None)"
  by (simp add: wc_found_def wc_Get_def found_def case_prod_beta)

interpretation ws: expiring_store "\<lambda>wc. available_wc wc \<and> cache_wf (cache_wc wc)"
  "\<lambda>t k wc. wc_found (wc_Get t k wc)" "\<lambda>t k x d wc. snd (wc_Set t k x d wc)"
  by unfold_locales (auto simp: wc_found_Get wc_Set_def cs.inv_put cs.get_put_same cs.get_put_other)

section \<open>Properties\<close>

text \<open>C33: The cache implements the abstract expiring map: every operation's result and effect are those of
  the map, on every branch. \<open>Add\<close> stores only where nothing live is found, \<open>Replace\<close> only where something
  is; a refused one changes nothing.\<close>

theorem cache_refines_map:
  assumes "cache_wf c"
  shows "Get now k c = (case em_get now k (cache_abs c) of None \<Rightarrow> (Nil_iface, False) | Some x \<Rightarrow> (x, True))
    \<and> cache_abs (Set now k x d c) = (cache_abs c)(k \<mapsto> (x, deadline_opt (deadline_of now d c)))
    \<and> Add now k x d c = (if em_get now k (cache_abs c) = None then (None, Set now k x d c)
         else (Some (''Item '' @ k @ '' already exists''), c))
    \<and> Replace now k x d c = (if em_get now k (cache_abs c) = None then (Some (''Item '' @ k @ '' doesn't exist''), c)
         else (None, Set now k x d c))
    \<and> cache_abs (snd (Delete k c)) = (cache_abs c)(k := None)
    \<and> cache_abs (Flush c) = Map.empty
    \<and> (\<lambda>k. map_option item_abs (map_of (Items now c) k)) = em_purge now (cache_abs c)
    \<and> ItemCount c = int (card (dom (cache_abs c)))"
proof -
  have dom: "dom (cache_abs c) = fst ` set (items c)"
    by (auto simp: cache_abs_def dom_map_of_conv_image_fst [symmetric])
  have count: "ItemCount c = int (card (dom (cache_abs c)))"
    using assms unfolding dom ItemCount_def cache_wf_def by (metis distinct_card length_map set_map)
  have items: "map_of (Items now c) k' = (case map_of (items c) k' of None \<Rightarrow> None
      | Some v \<Rightarrow> if 0 < Expiration v \<and> Expiration v < UnixNano now then None else Some v)" for k'
    using assms unfolding Items_def cache_wf_def by (simp add: map_of_filter_values split: option.splits)
  have purge: "(\<lambda>k. map_option item_abs (map_of (Items now c) k)) = em_purge now (cache_abs c)"
    by (auto simp: items em_purge_def cache_abs_def item_abs_def live_item fun_eq_iff split: option.splits)
  show ?thesis
  proof (intro conjI)
    show "Get now k c = (case em_get now k (cache_abs c) of None \<Rightarrow> (Nil_iface, False) | Some x \<Rightarrow> (x, True))"
      by (rule Get_abs)
    show "cache_abs (Flush c) = Map.empty" by (simp add: Flush_def cache_abs_def)
  qed (use count purge in \<open>simp_all add: cache_abs_Set Add_def Replace_def inlined_get inlined_set em_get_abs
      Delete_snd cache_abs_delete_locked\<close>)
qed

text \<open>The order in which \<open>DeleteExpired\<close> visits the map does not matter: two visits of all keys leave the
  same map, in which exactly the dead entries are gone, and make the same callbacks, one per dead entry
  and none without a callback. No later reader can tell that the purge happened.\<close>

theorem DeleteExpired_any_order:
  assumes "cache_wf c" "distinct ks" "set ks = fst ` set (items c)" "distinct ks'" "set ks' = set ks"
  shows "cache_abs (snd (DeleteExpired now ks c)) = em_purge now (cache_abs c)
    \<and> cache_abs (snd (DeleteExpired now ks' c)) = em_purge now (cache_abs c)
    \<and> mset (fst (DeleteExpired now ks' c)) = mset (fst (DeleteExpired now ks c))
    \<and> (onEvicted c = None \<longrightarrow> fst (DeleteExpired now ks c) = [])
    \<and> (UnixNano now \<le> UnixNano later \<longrightarrow> Get later k (snd (DeleteExpired now ks c)) = Get later k c)"
proof -
  have all: "cache_abs (snd (DeleteExpired now qs c)) = em_purge now (cache_abs c)" if "set qs = fst ` set (items c)" for qs
  proof -
    have "k \<notin> set qs \<Longrightarrow> cache_abs c k = None" for k
      using that by (simp add: cache_abs_def map_of_eq_None_iff)
    then show ?thesis
      unfolding DeleteExpired_def delete_expired_loop_abs by (auto simp: fun_eq_iff em_purge_def)
  qed
  have "mset ks' = mset ks" using assms set_eq_iff_mset_eq_distinct by blast
  then have "mset (dead_keys n c ks') = mset (dead_keys n c ks)" for n
    by (simp add: dead_keys_def)
  then have calls: "mset (fst (DeleteExpired now ks' c)) = mset (fst (DeleteExpired now ks c))"
    using assms by (simp add: DeleteExpired_def delete_expired_loop_calls)
  have later: "em_get later k (em_purge now m) = em_get later k m" if "UnixNano now \<le> UnixNano later" for m :: "'a emap"
    using that by (auto simp: em_get_def em_purge_def em_live_def split: option.splits)
  show ?thesis
  proof (intro conjI impI)
    show "fst (DeleteExpired now ks c) = []" if "onEvicted c = None"
      using that assms by (simp add: DeleteExpired_def delete_expired_loop_calls)
    show "Get later k (snd (DeleteExpired now ks c)) = Get later k c" if "UnixNano now \<le> UnixNano later"
      using later [OF that] all assms(3) by (simp add: Get_abs)
  qed (use all assms calls in simp_all)
qed

fun integer_kind :: "'o iface \<Rightarrow> bool" where
  "integer_kind (Other _) = False"
| "integer_kind Nil_iface = False"
| "integer_kind (Float32_iface _) = False"
| "integer_kind (Float64_iface _) = False"
| "integer_kind _ = True"

lemma sub_add_int64: "integer_kind x \<Longrightarrow> \<exists>y. add_int64 x n = Some y \<and> sub_int64 y n = Some x"
  by (cases x) simp_all

text \<open>On the integer types \<open>Decrement\<close> undoes \<open>Increment\<close>, with the operand truncated to the type of the
  stored value and the sum wrapping around there; and \<open>Increment\<close> does to an \<open>int8\<close> or a \<open>uint16\<close> what
  the typed variant does with the truncated operand.\<close>

theorem Increment_Decrement:
  assumes "map_of (items c) k = Some v" "\<not> Expired now v" "integer_kind (Object v)"
  shows "fst (Increment now k n c) = None \<and> Decrement now k n (snd (Increment now k n c)) = (None, c)
    \<and> (\<forall>b. Object v = Int8_iface b \<longrightarrow> IncrementInt8 now k (ucast n) c = ((b + ucast n, None), snd (Increment now k n c)))
    \<and> (\<forall>b. Object v = Uint16_iface b \<longrightarrow> DecrementUint16 now k (ucast n) c = ((b - ucast n, None), snd (Decrement now k n c)))"
proof -
  obtain y where y: "add_int64 (Object v) n = Some y" "sub_int64 y n = Some (Object v)"
    using sub_add_int64 [OF assms(3)] by blast
  have e: "Expired now (v\<lparr>Object := z\<rparr>) = Expired now v" for z by (simp add: Expired_def)
  have same: "AList.update k (v\<lparr>Object := Object v\<rparr>) (items c) = items c"
    using assms(1) by (simp add: AList.update_triv)
  show ?thesis
    using assms y same
    by (simp add: Increment_def Decrement_def modify_def map_of_update e IncrementInt8_def DecrementUint16_def modify_typed_def)
qed

text \<open>An expiration that overflows splits the operations: the entry is written with a negative expiration,
  which \<open>Get\<close>, \<open>Items\<close> and \<open>DeleteExpired\<close> read as no expiration at all and \<open>Expired\<close>, and with it every
  increment, as long past.\<close>

theorem overflowed_expiration:
  assumes "in_clock now" "in_clock later" "d < 2 ^ 63" "2 ^ 63 \<le> now + d"
  shows "Get later k (Set now k x d c) = (x, True)
    \<and> Increment later k n (Set now k x d c) = (Some (item_not_found k), Set now k x d c)
    \<and> Get later k (snd (DeleteExpired later ks (Set now k x d c))) = (x, True)"
proof -
  have d: "0 < d" "d \<noteq> 0" using assms by (auto simp: in_clock_def)
  have "i64 (now + d) = now + d - 2 ^ 64"
    using assms by (simp add: i64_def in_clock_def mod_pos_geq mod_pos_pos_trivial)
  then have neg: "deadline_of now d c < 0"
    using assms d by (simp add: deadline_of_def DefaultExpiration_def UnixNano_def in_clock_def)
  have abs: "cache_abs (Set now k x d c) k = Some (x, None)"
    using neg by (simp add: cache_abs_Set deadline_opt_def)
  have purged: "cache_abs (snd (DeleteExpired later ks (Set now k x d c))) k = Some (x, None)"
    unfolding DeleteExpired_def delete_expired_loop_abs using abs by (simp add: em_purge_def em_live_def)
  have inc: "Increment later k n (Set now k x d c) = (Some (item_not_found k), Set now k x d c)"
    using neg assms(2) by (simp add: Increment_def modify_def Set_def Let_def map_of_update Expired_def in_clock_def
        UnixNano_def i64_id in_i64_def)
  show ?thesis
    using abs purged inc by (simp add: Get_abs em_get_def em_live_def)
qed

definition watch_inv :: "('o, 'f) WatchCacheStore \<Rightarrow> bool" where
  "watch_inv wc \<longleftrightarrow> cache_wf (cache_wc wc) \<and> (available_wc wc \<or> items (cache_wc wc) = [])"

text \<open>The watched store never serves what was there before it became unavailable: it is emptied when it
  is switched off, writes are refused while it is off, and so it is empty when it is switched on again.\<close>

theorem WatchCacheStore_no_stale:
  "watch_inv (NewWatchCacheStore de ci)
   \<and> (watch_inv wc \<longrightarrow>
       watch_inv (wc_SetAvailable b wc) \<and> watch_inv (snd (wc_Set now k x d wc)) \<and> watch_inv (snd (wc_SetDefault now k x wc))
       \<and> watch_inv (snd (wc_Delete k wc)) \<and> watch_inv (wc_OnEvicted f wc) \<and> watch_inv (wc_Flush wc)
       \<and> (\<not> b \<longrightarrow> wc_Get now k' (wc_SetAvailable b wc) = Inl ErrorCacheNotAvilable)
       \<and> (\<not> available_wc wc \<longrightarrow> fst (wc_Set now k x d wc) = Some ErrorCacheNotAvilable
            \<and> wc_Get now k' (wc_SetAvailable True (snd (wc_Set now k x d wc))) = Inl ''watch cache not have this key''))"
proof -
  have new: "watch_inv (NewWatchCacheStore de ci)" by (simp add: watch_inv_def NewWatchCacheStore_def wf_New)
  have keep: "watch_inv (wc_SetAvailable b wc)" "watch_inv (snd (wc_Set now k x d wc))" "watch_inv (snd (wc_SetDefault now k x wc))"
      "watch_inv (wc_OnEvicted f wc)" "watch_inv (wc_Flush wc)"
    if "watch_inv wc"
    using that by (auto simp: watch_inv_def wc_SetAvailable_def wc_Flush_def Flush_def wc_Set_def wc_SetDefault_def cache_wf_Set
        wc_OnEvicted_def OnEvicted_def cache_wf_Nil cache_wf_onEvicted)
  have del: "watch_inv (snd (wc_Delete k wc))" if "watch_inv wc"
    using that by (auto simp: watch_inv_def wc_Delete_def case_prod_beta Let_def Delete_snd cache_wf_delete_locked)
  have off: "wc_Get now k' (wc_SetAvailable False wc) = Inl ErrorCacheNotAvilable"
    by (simp add: wc_Get_def wc_SetAvailable_def)
  have again: "wc_Get now k' (wc_SetAvailable True (snd (wc_Set now k x d wc))) = Inl ''watch cache not have this key''"
    if "watch_inv wc" "\<not> available_wc wc"
    using that by (simp add: watch_inv_def wc_Get_def wc_SetAvailable_def wc_Set_def Get_def)
  show ?thesis using new keep del off again by (simp add: wc_Set_def)
qed

section \<open>Witnesses\<close>

definition sample_cache :: "(string, unit) cache" where
  "sample_cache = Set 5 ''b'' (Int8_iface 3) 0 (Set 5 ''a'' (Other ''x'') 10 (OnEvicted (Some ()) (New 0 60)))"

lemma sample_cache_simps [simp]:
  "items sample_cache = [(''a'', \<lparr>Object = Other ''x'', Expiration = 15\<rparr>), (''b'', \<lparr>Object = Int8_iface 3, Expiration = 0\<rparr>)]"
  "onEvicted sample_cache = Some ()"
  by (simp_all add: sample_cache_def Set_def OnEvicted_def New_def newCacheWithJanitor_def newCache_def runJanitor_def
      deadline_of_def DefaultExpiration_def UnixNano_def i64_def Let_def)

lemma sample_cache_wf: "cache_wf sample_cache"
  by (simp add: cache_wf_def)

theorem cache_refines_map_witness:
  "cache_wf sample_cache \<and> Get 20 ''a'' sample_cache = (Nil_iface, False)
   \<and> fst (Add 9 ''a'' Nil_iface 1 sample_cache) = Some ''Item a already exists''"
  using cache_refines_map [OF sample_cache_wf, of 20 "''a''"] cache_refines_map [OF sample_cache_wf, of 9 "''a''" Nil_iface 1]
  by (simp add: sample_cache_wf em_get_abs Get_def UnixNano_def i64_def)

theorem DeleteExpired_any_order_witness:
  "cache_abs (snd (DeleteExpired 20 [''b'', ''a''] sample_cache)) = em_purge 20 (cache_abs sample_cache)
   \<and> fst (DeleteExpired 20 [''a'', ''b''] sample_cache) = [(''a'', Other ''x'')]"
  using DeleteExpired_any_order [OF sample_cache_wf, of "[''a'', ''b'']" "[''b'', ''a'']" 20]
  by (simp add: insert_commute DeleteExpired_def delete_locked_def UnixNano_def i64_def)

theorem Increment_Decrement_witness:
  "Decrement 20 ''b'' 300 (snd (Increment 20 ''b'' 300 sample_cache)) = (None, sample_cache)"
  using Increment_Decrement [of sample_cache "''b''" "\<lparr>Object = Int8_iface 3, Expiration = 0\<rparr>" 20 300]
  by (simp add: Expired_def)

theorem overflowed_expiration_witness:
  "Get (2 ^ 60 + 5) ''k'' (Set (2 ^ 60) ''k'' (Other ''x'') (2 ^ 63 - 1) sample_cache) = (Other ''x'', True)"
  using overflowed_expiration [of "2 ^ 60" "2 ^ 60 + 5" "2 ^ 63 - 1" "''k''" "Other ''x''" sample_cache] by (simp add: in_clock_def)

definition sample_store :: "(string, unit) WatchCacheStore" where
  "sample_store = wc_SetAvailable False (NewWatchCacheStore 0 60)"

theorem WatchCacheStore_no_stale_witness:
  "wc_Get 9 ''a'' (wc_SetAvailable True (snd (wc_Set 8 ''a'' Nil_iface 5 sample_store))) = Inl ''watch cache not have this key''"
  using WatchCacheStore_no_stale [of 0 60 sample_store False 9 "''a''" Nil_iface 5 None "''a''"]
  by (simp add: sample_store_def watch_inv_def wc_SetAvailable_def wc_Flush_def Flush_def NewWatchCacheStore_def wf_New
      cache_wf_def wc_Set_def wc_Get_def Get_def)

end
