(* ===== verification/FuncServer.thy ===== *)
theory FuncServer
  imports GoCache
begin

text \<open>
  The client of the function registry with its cache (\<open>src/pkg/controller/function/cache.go\<close>,
  \<open>function_server.go\<close>). What the registry answers is an argument: the output and the error, if any;
  \<open>now\<close> is the time of the lookup and \<open>now'\<close> the time the answer is stored. The three kinds of outputs
  live in one cache under keys with different prefixes, and are taken out with type assertions that
  panic on a value of another type.
\<close>

section \<open>The storage cache\<close>

type_synonym CacheType = string

definition CacheTypeFunction :: CacheType where "CacheTypeFunction = ''function''"
definition CacheTypeAlias :: CacheType where "CacheTypeAlias = ''alias''"
definition CacheTypeRuntime :: CacheType where "CacheTypeRuntime = ''runtime''"

definition Minute :: int64 where "Minute = 60 * 1000000000"
definition defaultCacheExpiration :: int64 where "defaultCacheExpiration = 10 * Minute"
definition defaultCacheCleanupInterval :: int64 where "defaultCacheCleanupInterval = 30 * Minute"

definition CacheKey :: "CacheType \<Rightarrow> string \<Rightarrow> string" where
  "CacheKey cacheType key = cacheType @ '':'' @ key"

text \<open>The dynamic types stored: pointers to a function, an alias and a runtime configuration.\<close>

datatype ('fo, 'ao, 'rc) meta = FunctionOut 'fo | AliasOut 'ao | RuntimeOut 'rc

record ('fo, 'ao, 'rc) StorageCache =
  cacheExpirationConfigs :: "(CacheType \<times> int64) list"
  cache_sc :: "(('fo, 'ao, 'rc) meta, unit) cache"

definition NewStorageCache :: "(CacheType \<times> int64) list \<Rightarrow> ('fo, 'ao, 'rc) StorageCache" where
  "NewStorageCache expirationConfig =
     \<lparr>cacheExpirationConfigs = expirationConfig, cache_sc = New defaultCacheExpiration defaultCacheCleanupInterval\<rparr>"

definition DefaultCacheExpirationConfigs :: "(CacheType \<times> int64) list" where
  "DefaultCacheExpirationConfigs =
     [(CacheTypeFunction, defaultCacheExpiration), (CacheTypeAlias, defaultCacheExpiration), (CacheTypeRuntime, defaultCacheExpiration)]"

definition CacheExpiration :: "CacheType \<Rightarrow> ('fo, 'ao, 'rc) StorageCache \<Rightarrow> int64" where
  "CacheExpiration cacheType s = (case map_of (cacheExpirationConfigs s) cacheType of
     Some time \<Rightarrow> time | None \<Rightarrow> defaultCacheExpiration)"

section \<open>The three requests\<close>

record GetFunctionInput =
  Authorization_gf :: string
  FunctionName_gf :: "string option"
  Qualifier_gf :: "string option"
  RequestID_gf :: string
  AccountID_gf :: string
  WithCache_gf :: bool
  SimpleAuth_gf :: bool

record GetAliasInput =
  FunctionBrn_ga :: string
  Authorization_ga :: string
  RequestID_ga :: string
  AccountID_ga :: string
  WithCache_ga :: bool
  SimpleAuth_ga :: bool

record GetRuntimeConfigurationInput =
  Authorization_gr :: string
  RuntimeName_gr :: string
  RequestID_gr :: string

definition interface_conversion :: string where
  "interface_conversion = ''interface conversion''"

definition as_function :: "('fo, 'ao, 'rc) meta iface \<Rightarrow> 'fo outcome" where
  "as_function v = (case v of Other (FunctionOut o1) \<Rightarrow> Value o1 | _ \<Rightarrow> Panic interface_conversion)"

definition as_alias :: "('fo, 'ao, 'rc) meta iface \<Rightarrow> 'ao outcome" where
  "as_alias v = (case v of Other (AliasOut o1) \<Rightarrow> Value o1 | _ \<Rightarrow> Panic interface_conversion)"

definition as_runtime :: "('fo, 'ao, 'rc) meta iface \<Rightarrow> 'rc outcome" where
  "as_runtime v = (case v of Other (RuntimeOut o1) \<Rightarrow> Value o1 | _ \<Rightarrow> Panic interface_conversion)"

text \<open>The result is the output, whether it came from the cache, and the error.\<close>

type_synonym ('o, 'e, 's) reply = "(('o \<times> bool \<times> 'e option) \<times> 's) outcome"

definition GetFunction :: "instant \<Rightarrow> instant \<Rightarrow> GetFunctionInput \<Rightarrow> 'fo \<times> 'e option \<Rightarrow> ('fo, 'ao, 'rc) StorageCache \<Rightarrow>
    ('fo, 'e, ('fo, 'ao, 'rc) StorageCache) reply" where
  "GetFunction now now' input answer s =
     (let fetch = (case answer of
            (output, Some err) \<Rightarrow> Value ((output, False, Some err), s)
          | (output, None) \<Rightarrow>
              if WithCache_gf input
              then obind (deref_field (FunctionName_gf input)) (\<lambda>name.
                Value ((output, False, None), s\<lparr>cache_sc := Set now' (CacheKey CacheTypeFunction name)
                  (Other (FunctionOut output)) (CacheExpiration CacheTypeFunction s) (cache_sc s)\<rparr>))
              else Value ((output, False, None), s))
      in if WithCache_gf input
         then obind (deref_field (FunctionName_gf input)) (\<lambda>name.
                let (v, ok) = Get now (CacheKey CacheTypeFunction name) (cache_sc s)
                in if ok then obind (as_function v) (\<lambda>output. Value ((output, True, None), s)) else fetch)
         else fetch)"

definition GetAlias :: "instant \<Rightarrow> instant \<Rightarrow> GetAliasInput \<Rightarrow> 'ao \<times> 'e option \<Rightarrow> ('fo, 'ao, 'rc) StorageCache \<Rightarrow>
    ('ao, 'e, ('fo, 'ao, 'rc) StorageCache) reply" where
  "GetAlias now now' input answer s =
     (let cached = (WithCache_ga input \<and> FunctionBrn_ga input \<noteq> '''');
          fetch = (case answer of
            (output, Some err) \<Rightarrow> Value ((output, False, Some err), s)
          | (output, None) \<Rightarrow>
              if cached
              then Value ((output, False, None), s\<lparr>cache_sc := Set now' (CacheKey CacheTypeAlias (FunctionBrn_ga input))
                (Other (AliasOut output)) (CacheExpiration CacheTypeAlias s) (cache_sc s)\<rparr>)
              else Value ((output, False, None), s))
      in if cached
         then let (v, ok) = Get now (CacheKey CacheTypeAlias (FunctionBrn_ga input)) (cache_sc s)
              in if ok then obind (as_alias v) (\<lambda>output. Value ((output, True, None), s)) else fetch
         else fetch)"

definition GetRuntimeConfiguration :: "instant \<Rightarrow> instant \<Rightarrow> GetRuntimeConfigurationInput \<Rightarrow> 'rc \<times> 'e option \<Rightarrow>
    ('fo, 'ao, 'rc) StorageCache \<Rightarrow> ('rc, 'e, ('fo, 'ao, 'rc) StorageCache) reply" where
  "GetRuntimeConfiguration now now' input answer s =
     (let (v, ok) = Get now (CacheKey CacheTypeRuntime (RuntimeName_gr input)) (cache_sc s)
      in if ok then obind (as_runtime v) (\<lambda>conf. Value ((conf, True, None), s))
         else (case answer of
            (conf, Some err) \<Rightarrow> Value ((conf, False, Some err), s)
          | (conf, None) \<Rightarrow>
              Value ((conf, False, None), s\<lparr>cache_sc := Set now' (CacheKey CacheTypeRuntime (RuntimeName_gr input))
                (Other (RuntimeOut conf)) (CacheExpiration CacheTypeRuntime s) (cache_sc s)\<rparr>)))"

section \<open>Keys and types\<close>

text \<open>A value fits a key if it has the type the prefix of the key stands for.\<close>

definition key_typed :: "string \<Rightarrow> ('fo, 'ao, 'rc) meta iface \<Rightarrow> bool" where
  "key_typed k v \<longleftrightarrow>
     (HasPrefix k ''function:'' \<longrightarrow> (\<exists>x. v = Other (FunctionOut x)))
     \<and> (HasPrefix k ''alias:'' \<longrightarrow> (\<exists>x. v = Other (AliasOut x)))
     \<and> (HasPrefix k ''runtime:'' \<longrightarrow> (\<exists>x. v = Other (RuntimeOut x)))"

definition storage_typed :: "('fo, 'ao, 'rc) StorageCache \<Rightarrow> bool" where
  "storage_typed s \<longleftrightarrow> cache_wf (cache_sc s) \<and> (\<forall>(k, v) \<in> set (items (cache_sc s)). key_typed k (Object v))"

lemmas key_defs = CacheKey_def CacheTypeFunction_def CacheTypeAlias_def CacheTypeRuntime_def

lemma key_typed_CacheKey [simp]:
  "key_typed (CacheKey CacheTypeFunction k) v \<longleftrightarrow> (\<exists>x. v = Other (FunctionOut x))"
  "key_typed (CacheKey CacheTypeAlias k) v \<longleftrightarrow> (\<exists>x. v = Other (AliasOut x))"
  "key_typed (CacheKey CacheTypeRuntime k) v \<longleftrightarrow> (\<exists>x. v = Other (RuntimeOut x))"
  by (auto simp: key_typed_def key_defs HasPrefix_def)

lemma CacheKey_inj [simp]: "CacheKey t k = CacheKey t k' \<longleftrightarrow> k = k'"
  by (simp add: CacheKey_def)

lemma storage_typed_Get:
  assumes "storage_typed s" "Get now k (cache_sc s) = (v, True)"
  shows "key_typed k v"
proof -
  obtain item where "map_of (items (cache_sc s)) k = Some item" "v = Object item"
    using assms(2) by (auto simp: Get_def split: option.splits if_splits)
  then show ?thesis using assms(1) by (auto simp: storage_typed_def dest!: map_of_SomeD)
qed

lemma set_update_subset: "set (AList.update k v al) \<subseteq> insert (k, v) (set al)"
  by (induction al) auto

lemma storage_typed_Set:
  "storage_typed s \<Longrightarrow> key_typed k v \<Longrightarrow> storage_typed (s\<lparr>cache_sc := Set now k v d (cache_sc s)\<rparr>)"
  using set_update_subset [of k "\<lparr>Object = v, Expiration = deadline_of now d (cache_sc s)\<rparr>" "items (cache_sc s)"]
  by (auto simp: storage_typed_def cache_wf_Set) (auto simp: Set_def Let_def)

section \<open>The requests as reads through the cache\<close>

text \<open>One request to the client, of any of the three kinds, with the registry's answer.\<close>

datatype ('fo, 'ao, 'rc, 'e) fs_request =
    FunctionReq GetFunctionInput "'fo \<times> 'e option"
  | AliasReq GetAliasInput "'ao \<times> 'e option"
  | RuntimeReq GetRuntimeConfigurationInput "'rc \<times> 'e option"

text \<open>The reply in one type: an error with the output that came with it, or the output.\<close>

type_synonym ('fo, 'ao, 'rc, 'e) fs_result = "(('fo, 'ao, 'rc) meta iface \<times> 'e) + ('fo, 'ao, 'rc) meta iface"

definition wrapped :: "('o \<Rightarrow> ('fo, 'ao, 'rc) meta) \<Rightarrow> 'o \<times> 'e option \<Rightarrow> ('fo, 'ao, 'rc, 'e) fs_result" where
  "wrapped w answer = (case answer of (x, Some err) \<Rightarrow> Inl (Other (w x), err) | (x, None) \<Rightarrow> Inr (Other (w x)))"

definition reply_of :: "('o \<Rightarrow> ('fo, 'ao, 'rc) meta) \<Rightarrow> ('o, 'e, 's) reply \<Rightarrow> ((('fo, 'ao, 'rc, 'e) fs_result \<times> bool) \<times> 's) outcome" where
  "reply_of w r = obind r (\<lambda>((x, hit, err), s'). Value ((wrapped w (x, err), hit), s'))"

fun serve :: "instant \<Rightarrow> instant \<Rightarrow> ('fo, 'ao, 'rc, 'e) fs_request \<Rightarrow> ('fo, 'ao, 'rc) StorageCache \<Rightarrow>
    ((('fo, 'ao, 'rc, 'e) fs_result \<times> bool) \<times> ('fo, 'ao, 'rc) StorageCache) outcome" where
  "serve now now' (FunctionReq input answer) s = reply_of FunctionOut (GetFunction now now' input answer s)"
| "serve now now' (AliasReq input answer) s = reply_of AliasOut (GetAlias now now' input answer s)"
| "serve now now' (RuntimeReq input answer) s = reply_of RuntimeOut (GetRuntimeConfiguration now now' input answer s)"

text \<open>The key a request looks up, if it uses the cache, and the origin's answer.\<close>

fun cache_key :: "('fo, 'ao, 'rc, 'e) fs_request \<Rightarrow> string option" where
  "cache_key (FunctionReq input _) = (if WithCache_gf input then map_option (CacheKey CacheTypeFunction) (FunctionName_gf input) else None)"
| "cache_key (AliasReq input _) =
     (if WithCache_ga input \<and> FunctionBrn_ga input \<noteq> '''' then Some (CacheKey CacheTypeAlias (FunctionBrn_ga input)) else None)"
| "cache_key (RuntimeReq input _) = Some (CacheKey CacheTypeRuntime (RuntimeName_gr input))"

fun origin_answer :: "('fo, 'ao, 'rc, 'e) fs_request \<Rightarrow> ('fo, 'ao, 'rc, 'e) fs_result" where
  "origin_answer (FunctionReq _ answer) = wrapped FunctionOut answer"
| "origin_answer (AliasReq _ answer) = wrapped AliasOut answer"
| "origin_answer (RuntimeReq _ answer) = wrapped RuntimeOut answer"

text \<open>The only panic left: a cached function lookup without a name.\<close>

fun named :: "('fo, 'ao, 'rc, 'e) fs_request \<Rightarrow> bool" where
  "named (FunctionReq input _) = (WithCache_gf input \<longrightarrow> FunctionName_gf input \<noteq> None)"
| "named _ = True"

text \<open>The lifetime of a key, by its prefix.\<close>

definition lifetime :: "('fo, 'ao, 'rc) StorageCache \<Rightarrow> string \<Rightarrow> int64" where
  "lifetime s k =
     (if HasPrefix k ''function:'' then CacheExpiration CacheTypeFunction s
      else if HasPrefix k ''alias:'' then CacheExpiration CacheTypeAlias s
      else CacheExpiration CacheTypeRuntime s)"

lemma lifetime_CacheKey [simp]:
  "lifetime s (CacheKey CacheTypeFunction k) = CacheExpiration CacheTypeFunction s"
  "lifetime s (CacheKey CacheTypeAlias k) = CacheExpiration CacheTypeAlias s"
  "lifetime s (CacheKey CacheTypeRuntime k) = CacheExpiration CacheTypeRuntime s"
  by (simp_all add: lifetime_def key_defs HasPrefix_def)

lemma lifetime_cache_sc [simp]: "lifetime (s\<lparr>cache_sc := c\<rparr>) = lifetime s"
  by (simp add: lifetime_def CacheExpiration_def fun_eq_iff)

abbreviation read_cache :: "(string \<Rightarrow> int64) \<Rightarrow> ('e, ('fo, 'ao, 'rc) meta iface) request \<Rightarrow> (('fo, 'ao, 'rc) meta, unit) cache \<Rightarrow>
    (('e + ('fo, 'ao, 'rc) meta iface) \<times> bool) \<times> (('fo, 'ao, 'rc) meta, unit) cache" where
  "read_cache \<equiv> read_through (\<lambda>t k c. found (Get t k c)) Set"

lemma found_True [simp]: "found (v, True) = Some v" and found_False [simp]: "found (v, False) = None"
  by (simp_all add: found_def)

text \<open>A request on a typed cache returns, keeps the types, and is a read through the cache or leaves it
  alone.\<close>

lemma serve_cached:
  fixes s :: "('fo, 'ao, 'rc) StorageCache" and r :: "('fo, 'ao, 'rc, 'e) fs_request"
  assumes "storage_typed s" "cache_key r = Some k"
  shows "serve now now' r s = Value
      (fst (read_cache (lifetime s) (now, now', k, origin_answer r) (cache_sc s)),
       s\<lparr>cache_sc := snd (read_cache (lifetime s) (now, now', k, origin_answer r) (cache_sc s))\<rparr>)"
proof -
  obtain v ok where g: "Get now k (cache_sc s) = (v, ok)" by (metis surj_pair)
  have typed: "ok \<Longrightarrow> key_typed k v" using storage_typed_Get [OF assms(1)] g by simp
  show ?thesis
  proof (cases r)
    case (FunctionReq input answer)
    then obtain n where n: "WithCache_gf input" "FunctionName_gf input = Some n" "k = CacheKey CacheTypeFunction n"
      using assms(2) by (auto split: if_splits)
    show ?thesis
      using g typed by (cases answer; cases "snd answer"; cases ok)
        (auto simp: FunctionReq GetFunction_def n reply_of_def wrapped_def read_through_def as_function_def)
  next
    case (AliasReq input answer)
    then have n: "WithCache_ga input" "FunctionBrn_ga input \<noteq> ''''" "k = CacheKey CacheTypeAlias (FunctionBrn_ga input)"
      using assms(2) by (auto split: if_splits)
    show ?thesis
      using g typed by (cases answer; cases "snd answer"; cases ok)
        (auto simp: AliasReq GetAlias_def n reply_of_def wrapped_def read_through_def as_alias_def)
  next
    case (RuntimeReq input answer)
    then have n: "k = CacheKey CacheTypeRuntime (RuntimeName_gr input)" using assms(2) by simp
    show ?thesis
      using g typed by (cases answer; cases "snd answer"; cases ok)
        (auto simp: RuntimeReq GetRuntimeConfiguration_def n reply_of_def wrapped_def read_through_def as_runtime_def)
  qed
qed

lemma serve_uncached:
  "cache_key r = None \<Longrightarrow> named r \<Longrightarrow> serve now now' r s = Value ((origin_answer r, False), s)"
  by (cases r) (auto simp: GetFunction_def GetAlias_def reply_of_def wrapped_def split: if_splits option.splits prod.splits)

lemma key_typed_origin: "cache_key r = Some k \<Longrightarrow> origin_answer r = Inr v \<Longrightarrow> key_typed k v"
  by (cases r) (auto simp: wrapped_def split: if_splits option.splits)

lemma read_cache_typed:
  assumes "storage_typed s" "cache_key r = Some k"
  shows "storage_typed (s\<lparr>cache_sc := snd (read_cache D (now, now', k, origin_answer r) (cache_sc s))\<rparr>)"
  using assms key_typed_origin [OF assms(2)]
  by (auto simp: read_through_def intro: storage_typed_Set split: option.splits sum.splits)

section \<open>Properties\<close>

fun serve_all :: "(instant \<times> instant \<times> ('fo, 'ao, 'rc, 'e) fs_request) list \<Rightarrow> ('fo, 'ao, 'rc) StorageCache \<Rightarrow>
    ((('fo, 'ao, 'rc, 'e) fs_result \<times> bool) list \<times> ('fo, 'ao, 'rc) StorageCache) outcome" where
  "serve_all [] s = Value ([], s)"
| "serve_all ((now, now', r) # rs) s =
     obind (serve now now' r s) (\<lambda>(out, s'). obind (serve_all rs s') (\<lambda>(outs, s''). Value (out # outs, s'')))"

text \<open>The requests the registry saw or would have seen, under the keys of the cache.\<close>

fun history :: "(instant \<times> instant \<times> ('fo, 'ao, 'rc, 'e) fs_request) list \<Rightarrow>
    (('fo, 'ao, 'rc) meta iface \<times> 'e, ('fo, 'ao, 'rc) meta iface) request list" where
  "history [] = []"
| "history ((now, now', r) # rs) = (case cache_key r of None \<Rightarrow> history rs | Some k \<Rightarrow> (now, now', k, origin_answer r) # history rs)"

lemma history_append: "history (rs @ qs) = history rs @ history qs"
  by (induction rs rule: history.induct) (auto split: option.splits)

text \<open>What a reply must be: from the cache only for a request that uses it, and then fresh; otherwise the
  registry's answer to this request.\<close>

definition good_reply :: "(string \<Rightarrow> int64) \<Rightarrow> (instant \<times> instant \<times> ('fo, 'ao, 'rc, 'e) fs_request) list \<Rightarrow>
    instant \<times> instant \<times> ('fo, 'ao, 'rc, 'e) fs_request \<Rightarrow> ('fo, 'ao, 'rc, 'e) fs_result \<times> bool \<Rightarrow> bool" where
  "good_reply D rs q out = (case q of (now, now', r) \<Rightarrow> (case cache_key r of
     None \<Rightarrow> out = (origin_answer r, False)
   | Some k \<Rightarrow> (if snd out then (\<exists>v. fst out = Inr v \<and> key_typed k v \<and> fresh_from D (history rs) now k v)
               else fst out = origin_answer r)))"

definition requests_ok :: "(string \<Rightarrow> int64) \<Rightarrow> (instant \<times> instant \<times> ('fo, 'ao, 'rc, 'e) fs_request) list \<Rightarrow> bool" where
  "requests_ok D rs \<longleftrightarrow> (\<forall>(now, now', r) \<in> set rs. named r) \<and> (\<forall>q \<in> set (history rs). request_ok D q)"

lemma requests_ok_Cons: "requests_ok D (q # rs) \<Longrightarrow> requests_ok D rs"
  by (cases q) (auto simp: requests_ok_def split: option.splits)

lemma read_through_cases:
  "read_through get put D (now, now', k, answer) s =
     (case get now k s of Some v \<Rightarrow> ((Inr v, True), s)
      | None \<Rightarrow> (case answer of Inl e \<Rightarrow> ((Inl e, False), s) | Inr v \<Rightarrow> ((Inr v, False), put now' k v (D k) s)))"
  by (simp add: read_through_def)

lemma serve_step:
  fixes s :: "('fo, 'ao, 'rc) StorageCache" and r :: "('fo, 'ao, 'rc, 'e) fs_request"
  assumes "storage_typed s" "cs.covered (lifetime s) (history hist) (cache_sc s)"
    and "requests_ok (lifetime s) [(now, now', r)]"
  shows "\<exists>out s'. serve now now' r s = Value (out, s') \<and> storage_typed s' \<and> lifetime s' = lifetime s
    \<and> cs.covered (lifetime s) (history (hist @ [(now, now', r)])) (cache_sc s')
    \<and> good_reply (lifetime s) (hist @ [(now, now', r)]) (now, now', r) out"
proof (cases "cache_key r")
  case None
  then show ?thesis
    using assms by (simp add: serve_uncached requests_ok_def history_append good_reply_def)
next
  case (Some k)
  let ?q = "(now, now', k, origin_answer r)"
  have ok: "request_ok (lifetime s) ?q" using assms(3) Some by (simp add: requests_ok_def)
  have clk: "in_clock now" using ok by (simp add: request_ok_def)
  have h: "history (hist @ [(now, now', r)]) = history hist @ [?q]" using Some by (simp add: history_append)
  have good: "good_reply (lifetime s) (hist @ [(now, now', r)]) (now, now', r) (fst (read_cache (lifetime s) ?q (cache_sc s)))"
  proof (cases "found (Get now k (cache_sc s))")
    case (Some v)
    then have "Get now k (cache_sc s) = (v, True)" by (cases "Get now k (cache_sc s)") (auto simp: found_def split: if_splits)
    then have "key_typed k v" by (rule storage_typed_Get [OF assms(1)])
    moreover have "fresh_from (lifetime s) (history hist @ [?q]) now k v"
    proof -
      have "fresh_from (lifetime s) (history hist) now k v" using assms(2) Some clk unfolding cs.covered_def by blast
      then show ?thesis by (auto simp: fresh_from_def)
    qed
    ultimately show ?thesis using Some \<open>cache_key r = Some k\<close> h by (simp add: good_reply_def read_through_cases)
  next
    case None
    then show ?thesis using Some by (simp add: good_reply_def read_through_cases split: sum.splits)
  qed
  show ?thesis
    using serve_cached [OF assms(1) Some, of now now'] read_cache_typed [OF assms(1) Some, of "lifetime s" now now']
      cs.covered_step(1) [OF assms(2) ok] good h by simp
qed

lemma serve_all_good:
  assumes "storage_typed s" "cs.covered (lifetime s) (history hist) (cache_sc s)" "requests_ok (lifetime s) rs"
  shows "\<exists>outs s'. serve_all rs s = Value (outs, s') \<and> storage_typed s' \<and> length outs = length rs
    \<and> (\<forall>i < length rs. good_reply (lifetime s) (hist @ take (Suc i) rs) (rs ! i) (outs ! i))"
  using assms
proof (induction rs arbitrary: hist s)
  case (Cons q rs)
  obtain now now' r where q: "q = (now, now', r)" by (cases q)
  have one: "requests_ok (lifetime s) [(now, now', r)]"
    using Cons.prems(3) by (auto simp: requests_ok_def q split: option.splits)
  obtain out s' where st: "serve now now' r s = Value (out, s')" "storage_typed s'" "lifetime s' = lifetime s"
      "cs.covered (lifetime s) (history (hist @ [q])) (cache_sc s')" "good_reply (lifetime s) (hist @ [q]) q out"
    using serve_step [OF Cons.prems(1,2) one] q by blast
  obtain outs s'' where rest: "serve_all rs s' = Value (outs, s'')" "storage_typed s''" "length outs = length rs"
      "\<forall>i < length rs. good_reply (lifetime s) ((hist @ [q]) @ take (Suc i) rs) (rs ! i) (outs ! i)"
    using Cons.IH [of s' "hist @ [q]"] st requests_ok_Cons [OF Cons.prems(3)] by auto
  have "good_reply (lifetime s) (hist @ take (Suc i) (q # rs)) ((q # rs) ! i) ((out # outs) ! i)" if "i < length (q # rs)" for i
    using that st(5) rest(4) by (cases i) simp_all
  then show ?case using st(1) rest by (simp add: q)
qed simp

lemma storage_typed_New: "storage_typed (NewStorageCache cfg)"
  by (simp add: storage_typed_def NewStorageCache_def New_def newCacheWithJanitor_def newCache_def runJanitor_def cache_wf_def Let_def)

lemma covered_New: "cs.covered D [] (cache_sc (NewStorageCache cfg))"
  unfolding cs.covered_def by (simp add: NewStorageCache_def wf_New found_Get abs_New em_get_def)

text \<open>C34: Any sequence of requests to a new registry client returns without a failed type assertion, though
  functions, aliases and runtime configurations share one cache. Every reply is the registry's own
  answer to the request, or a cached value of the right type that the registry gave for the same key
  within the lifetime configured for its kind; a request that bypasses the cache is never served from it.\<close>

theorem metadata_bounded_staleness:
  fixes s :: "('fo, 'ao, 'rc) StorageCache" and rs :: "(instant \<times> instant \<times> ('fo, 'ao, 'rc, 'e) fs_request) list"
  assumes "s = NewStorageCache cfg" "requests_ok (lifetime s) rs"
  shows "\<exists>outs s'. serve_all rs s = Value (outs, s') \<and> storage_typed s' \<and> length outs = length rs
    \<and> (\<forall>i < length rs. good_reply (lifetime s) (take (Suc i) rs) (rs ! i) (outs ! i))"
proof -
  have "storage_typed s" "cs.covered (lifetime s) (history ([] :: (instant \<times> instant \<times> ('fo, 'ao, 'rc, 'e) fs_request) list)) (cache_sc s)"
    unfolding assms(1) history.simps by (rule storage_typed_New, rule covered_New)
  from serve_all_good [OF this assms(2)] show ?thesis by simp
qed

text \<open>C36: Well-typedness of the shared cache is an invariant: a request of any kind, whatever the registry
  answers, returns and leaves every stored value with the type its key stands for. Only a cached function
  lookup without a name panics.\<close>

theorem storage_cache_typed:
  assumes "storage_typed s"
  shows "(named r \<longrightarrow> (\<exists>out s'. serve now now' r s = Value (out, s') \<and> storage_typed s'))
    \<and> (\<not> named r \<longrightarrow> serve now now' r s = Panic nil_dereference)"
proof (intro conjI impI)
  assume "named r"
  show "\<exists>out s'. serve now now' r s = Value (out, s') \<and> storage_typed s'"
  proof (cases "cache_key r")
    case None
    then have "serve now now' r s = Value ((origin_answer r, False), s)" using \<open>named r\<close> by (rule serve_uncached)
    then show ?thesis using assms by blast
  next
    case (Some k)
    then show ?thesis using serve_cached [OF assms Some] read_cache_typed [OF assms Some] by blast
  qed
next
  assume "\<not> named r"
  then show "serve now now' r s = Panic nil_dereference"
    by (cases r) (auto simp: GetFunction_def reply_of_def deref_field_def)
qed

section \<open>Witnesses\<close>

definition sample_function :: "bool \<Rightarrow> nat \<Rightarrow> (nat, nat, nat, string) fs_request" where
  "sample_function b n = FunctionReq \<lparr>Authorization_gf = '''', FunctionName_gf = Some ''f'', Qualifier_gf = None, RequestID_gf = ''r'',
     AccountID_gf = ''a'', WithCache_gf = b, SimpleAuth_gf = False\<rparr> (n, None)"

definition sample_alias :: "(nat, nat, nat, string) fs_request" where
  "sample_alias = AliasReq \<lparr>FunctionBrn_ga = ''f'', Authorization_ga = '''', RequestID_ga = ''r'', AccountID_ga = ''a'',
     WithCache_ga = True, SimpleAuth_ga = False\<rparr> (7, None)"

definition sample_requests :: "(instant \<times> instant \<times> (nat, nat, nat, string) fs_request) list" where
  "sample_requests = [(1, 2, sample_function True 4), (3, 4, sample_alias), (5, 6, sample_function True 5), (5, 6, sample_function False 6)]"

definition sample_storage :: "(nat, nat, nat) StorageCache" where
  "sample_storage = NewStorageCache DefaultCacheExpirationConfigs"

lemma sample_requests_ok: "requests_ok (lifetime sample_storage) sample_requests"
  by (simp add: sample_storage_def requests_ok_def sample_requests_def sample_function_def sample_alias_def request_ok_def in_clock_def
      CacheExpiration_def NewStorageCache_def DefaultCacheExpirationConfigs_def defaultCacheExpiration_def Minute_def key_defs
      lifetime_def HasPrefix_def)

theorem metadata_bounded_staleness_witness:
  "\<exists>outs s'. serve_all sample_requests sample_storage = Value (outs, s')
     \<and> good_reply (lifetime sample_storage) (take 3 sample_requests) (sample_requests ! 2) (outs ! 2)"
proof -
  have "2 < length sample_requests" "Suc 2 = 3" by (simp_all add: sample_requests_def)
  then show ?thesis
    using metadata_bounded_staleness [OF sample_storage_def sample_requests_ok] by metis
qed

theorem storage_cache_typed_witness:
  "\<exists>out s'. serve 1 2 sample_alias sample_storage = Value (out, s') \<and> storage_typed s'"
proof -
  have "storage_typed sample_storage" unfolding sample_storage_def by (rule storage_typed_New)
  then show ?thesis using storage_cache_typed [of sample_storage sample_alias 1 2] by (simp add: sample_alias_def)
qed

end
