(* ===== verification/GoRegexp.thy ===== *)
theory GoRegexp
  imports GoStrings
begin

text \<open>
  The part of Go's \<open>regexp\<close> package the program uses: whole-string matches (\<open>^\<close> at the start and \<open>$\<close> at the
  end) of literals, character classes, alternatives, repetitions and optional groups. A match is
  computed with derivatives; \<open>rlang\<close> is the language an expression denotes.
\<close>

datatype rx = RZero | REps | RClass "char \<Rightarrow> bool" | RSeq rx rx | RAlt rx rx | RStar rx

fun nullable :: "rx \<Rightarrow> bool" where
  "nullable RZero = False"
| "nullable REps = True"
| "nullable (RClass p) = False"
| "nullable (RSeq r q) = (nullable r \<and> nullable q)"
| "nullable (RAlt r q) = (nullable r \<or> nullable q)"
| "nullable (RStar r) = True"

fun deriv :: "char \<Rightarrow> rx \<Rightarrow> rx" where
  "deriv c RZero = RZero"
| "deriv c REps = RZero"
| "deriv c (RClass p) = (if p c then REps else RZero)"
| "deriv c (RSeq r q) = (if nullable r then RAlt (RSeq (deriv c r) q) (deriv c q) else RSeq (deriv c r) q)"
| "deriv c (RAlt r q) = RAlt (deriv c r) (deriv c q)"
| "deriv c (RStar r) = RSeq (deriv c r) (RStar r)"

definition MatchString :: "rx \<Rightarrow> string \<Rightarrow> bool" where
  "MatchString r s = nullable (fold deriv s r)"

section \<open>The forms of expressions the program writes\<close>

definition rlit :: "string \<Rightarrow> rx" where
  "rlit s = foldr (\<lambda>c r. RSeq (RClass (\<lambda>x. x = c)) r) s REps"

definition ropt :: "rx \<Rightarrow> rx" where "ropt r = RAlt r REps"
definition rplus :: "rx \<Rightarrow> rx" where "rplus r = RSeq r (RStar r)"

definition rrep :: "nat \<Rightarrow> rx \<Rightarrow> rx" where
  "rrep n r = ((\<lambda>q. RSeq r q) ^^ n) REps"

definition rrange :: "nat \<Rightarrow> nat \<Rightarrow> rx \<Rightarrow> rx" where
  "rrange m n r = RSeq (rrep m r) (((\<lambda>q. ropt (RSeq r q)) ^^ (n - m)) REps)"

definition rseqs :: "rx list \<Rightarrow> rx" where
  "rseqs rs = foldr RSeq rs REps"

definition char_in :: "char \<Rightarrow> char \<Rightarrow> char \<Rightarrow> bool" where
  "char_in a b c \<longleftrightarrow> (of_char a :: nat) \<le> of_char c \<and> (of_char c :: nat) \<le> of_char b"

section \<open>Matching computes the language\<close>

primrec rlang :: "rx \<Rightarrow> string set" where
  "rlang RZero = {}"
| "rlang REps = {[]}"
| "rlang (RClass p) = {[c] | c. p c}"
| "rlang (RSeq r q) = {x @ y | x y. x \<in> rlang r \<and> y \<in> rlang q}"
| "rlang (RAlt r q) = rlang r \<union> rlang q"
| "rlang (RStar r) = {concat ws | ws. set ws \<subseteq> rlang r}"

lemma nullable_rlang: "nullable r \<longleftrightarrow> [] \<in> rlang r"
proof (induction r)
  case (RStar r)
  then show ?case by (auto intro: exI [of _ "[]"])
qed auto

lemma concat_Cons_first:
  assumes "concat ws = c # s"
  obtains w vs where "c # w \<in> set ws" "set vs \<subseteq> set ws" "s = w @ concat vs"
  using assms
proof (induction ws arbitrary: thesis)
  case (Cons v ws)
  show ?case
  proof (cases v)
    case Nil
    then have cs: "concat ws = c # s" using Cons.prems(2) by simp
    obtain w vs where "c # w \<in> set ws" "set vs \<subseteq> set ws" "s = w @ concat vs" by (rule Cons.IH [OF _ cs])
    then show ?thesis by (intro Cons.prems(1) [of w vs]) auto
  next
    case (Cons a w)
    with Cons.prems(2) show ?thesis by (intro Cons.prems(1) [of w ws]) auto
  qed
qed simp

lemma deriv_rlang: "s \<in> rlang (deriv c r) \<longleftrightarrow> c # s \<in> rlang r"
proof (induction r arbitrary: s)
  case (RSeq r q)
  have "c # s \<in> rlang (RSeq r q) \<longleftrightarrow> ([] \<in> rlang r \<and> c # s \<in> rlang q) \<or> (\<exists>x y. s = x @ y \<and> c # x \<in> rlang r \<and> y \<in> rlang q)"
    by (auto simp: Cons_eq_append_conv)
  then show ?case using RSeq by (auto simp: nullable_rlang)
next
  case (RStar r)
  show ?case
  proof
    assume "s \<in> rlang (deriv c (RStar r))"
    then obtain w ws where "s = w @ concat ws" "c # w \<in> rlang r" "set ws \<subseteq> rlang r"
      using RStar by auto
    then show "c # s \<in> rlang (RStar r)" by (auto intro!: exI [of _ "(c # w) # ws"])
  next
    assume "c # s \<in> rlang (RStar r)"
    then obtain ws where ws: "concat ws = c # s" "set ws \<subseteq> rlang r" by auto
    obtain w vs where "c # w \<in> set ws" "set vs \<subseteq> set ws" "s = w @ concat vs" by (rule concat_Cons_first [OF ws(1)])
    with ws(2) have "w \<in> rlang (deriv c r)" "concat vs \<in> rlang (RStar r)" using RStar by auto
    with \<open>s = w @ concat vs\<close> show "s \<in> rlang (deriv c (RStar r))" unfolding deriv.simps rlang.simps(4) by blast
  qed
qed auto

lemma MatchString_rlang: "MatchString r s \<longleftrightarrow> s \<in> rlang r"
proof -
  have "nullable (fold deriv s r) \<longleftrightarrow> s \<in> rlang r"
    by (induction s arbitrary: r) (simp_all add: nullable_rlang deriv_rlang)
  then show ?thesis by (simp add: MatchString_def)
qed

section \<open>Languages of the forms\<close>

lemma rlang_rlit [simp]: "rlang (rlit s) = {s}"
  by (induction s) (auto simp: rlit_def)

lemma rlang_ropt [simp]: "rlang (ropt r) = insert [] (rlang r)"
  by (auto simp: ropt_def)

lemma rlang_class_seq [simp]:
  "[] \<notin> rlang (RSeq (RClass p) q)" "c # s \<in> rlang (RSeq (RClass p) q) \<longleftrightarrow> p c \<and> s \<in> rlang q"
proof -
  show "c # s \<in> rlang (RSeq (RClass p) q) \<longleftrightarrow> p c \<and> s \<in> rlang q"
  proof
    assume "p c \<and> s \<in> rlang q"
    then have "c # s = [c] @ s" "[c] \<in> rlang (RClass p)" "s \<in> rlang q" by simp_all
    then show "c # s \<in> rlang (RSeq (RClass p) q)" unfolding rlang.simps(4) by blast
  qed auto
qed auto

lemma rlang_star_class [simp]: "rlang (RStar (RClass p)) = {s. list_all p s}"
proof (intro set_eqI iffI)
  fix s
  assume "s \<in> rlang (RStar (RClass p))"
  then obtain ws where "s = concat ws" "\<forall>w \<in> set ws. \<exists>c. w = [c] \<and> p c" by auto
  then show "s \<in> {s. list_all p s}" by (fastforce simp: list_all_iff)
next
  fix s
  assume "s \<in> {s. list_all p s}"
  then have "s = concat (map (\<lambda>c. [c]) s) \<and> set (map (\<lambda>c. [c]) s) \<subseteq> rlang (RClass p)"
    by (auto simp: list_all_iff concat_map_singleton)
  then show "s \<in> rlang (RStar (RClass p))" unfolding rlang.simps(6) by blast
qed

lemma rlang_plus_class [simp]: "rlang (rplus (RClass p)) = {s. s \<noteq> [] \<and> list_all p s}"
proof (rule set_eqI)
  show "s \<in> rlang (rplus (RClass p)) \<longleftrightarrow> s \<in> {s. s \<noteq> [] \<and> list_all p s}" for s
    unfolding rplus_def by (cases s) (simp_all del: rlang.simps)
qed

lemma rlang_rep_class [simp]: "rlang (rrep n (RClass p)) = {s. length s = n \<and> list_all p s}"
proof (induction n)
  case (Suc n)
  have step: "rrep (Suc n) (RClass p) = RSeq (RClass p) (rrep n (RClass p))" by (simp add: rrep_def)
  show ?case
  proof (rule set_eqI)
    show "s \<in> rlang (rrep (Suc n) (RClass p)) \<longleftrightarrow> s \<in> {s. length s = Suc n \<and> list_all p s}" for s
      unfolding step by (cases s) (auto simp: Suc simp del: rlang.simps)
  qed
qed (auto simp: rrep_def)

lemma rlang_upto_class: "rlang (((\<lambda>q. ropt (RSeq (RClass p) q)) ^^ n) REps) = {s. length s \<le> n \<and> list_all p s}"
proof (induction n)
  case (Suc n)
  show ?case
  proof (rule set_eqI)
    show "s \<in> rlang (((\<lambda>q. ropt (RSeq (RClass p) q)) ^^ Suc n) REps) \<longleftrightarrow> s \<in> {s. length s \<le> Suc n \<and> list_all p s}" for s
      by (cases s) (auto simp: Suc simp del: rlang.simps)
  qed
qed auto

lemma rlang_range_class: "m \<le> n \<Longrightarrow> rlang (rrange m n (RClass p)) = {s. m \<le> length s \<and> length s \<le> n \<and> list_all p s}"
proof -
  assume "m \<le> n"
  have "s \<in> rlang (rrange m n (RClass p)) \<longleftrightarrow> m \<le> length s \<and> length s \<le> n \<and> list_all p s" for s
  proof
    assume "m \<le> length s \<and> length s \<le> n \<and> list_all p s"
    then have "s = take m s @ drop m s" "length (take m s) = m" "list_all p (take m s)" "length (drop m s) \<le> n - m" "list_all p (drop m s)"
      by (auto simp: list_all_iff dest: in_set_takeD in_set_dropD)
    then show "s \<in> rlang (rrange m n (RClass p))"
      unfolding rrange_def rlang.simps(4) rlang_rep_class rlang_upto_class by blast
  qed (use \<open>m \<le> n\<close> in \<open>auto simp: rrange_def rlang_upto_class\<close>)
  then show ?thesis by blast
qed

lemma rlang_rseqs [simp]:
  "rlang (rseqs []) = {[]}"
  "rlang (rseqs (r # rs)) = {x @ y | x y. x \<in> rlang r \<and> y \<in> rlang (rseqs rs)}"
  by (simp_all add: rseqs_def)

end
