(* ===== verification/Brn.thy ===== *)
theory Brn
  imports Api GoRegexp
begin

text \<open>
  Resource names (\<open>src/pkg/brn\<close>): the parser and printer of \<open>brn.go\<close>, the function names of
  \<open>function.go\<close> and the helpers of \<open>brn_cfc.go\<close>. The sixteen bytes of an MD5 digest are a parameter
  \<open>md5\<close> of the definitions that hash an account.
\<close>

section \<open>Names in general\<close>

record BRN =
  Partition :: string
  Service :: string
  Region :: string
  AccountID_brn :: string
  Resource_brn :: string

definition brnDelimiter :: char where "brnDelimiter = CHR '':''"
definition brnSections :: nat where "brnSections = 6"
definition brnPrefix :: string where "brnPrefix = ''brn:''"
definition invalidPrefix :: string where "invalidPrefix = ''brn: invalid prefix''"
definition invalidSections :: string where "invalidSections = ''brn: not enough sections''"

definition Parse :: "string \<Rightarrow> string + BRN" where
  "Parse brn =
     (if \<not> HasPrefix brn brnPrefix then Inl invalidPrefix
      else let sections = splitN brnDelimiter brnSections brn
           in if length sections \<noteq> brnSections then Inl invalidSections
              else Inr \<lparr>Partition = sections ! 1, Service = sections ! 2, Region = sections ! 3,
                        AccountID_brn = sections ! 4, Resource_brn = sections ! 5\<rparr>)"

definition BRN_String :: "BRN \<Rightarrow> string" where
  "BRN_String b = brnPrefix @ Partition b @ [brnDelimiter] @ Service b @ [brnDelimiter] @ Region b @ [brnDelimiter]
     @ AccountID_brn b @ [brnDelimiter] @ Resource_brn b"

text \<open>\<open>fmt.Sprintf("%x", bytes)\<close>: two lower-case hexadecimal digits per byte.\<close>

definition hex_digit :: "nat \<Rightarrow> char" where
  "hex_digit n = char_of (if n < 10 then 48 + n else 87 + n)"

definition hex_bytes :: "8 word list \<Rightarrow> string" where
  "hex_bytes bs = concat (map (\<lambda>b. [hex_digit (unat b div 16), hex_digit (unat b mod 16)]) bs)"

type_synonym md5_fun = "string \<Rightarrow> 8 word list"

definition Md5BceUid :: "md5_fun \<Rightarrow> string \<Rightarrow> string" where
  "Md5BceUid md5 uid = hex_bytes (md5 (uid @ ''cloud-cfc-2017''))"

definition GenerateCommonBrn :: "md5_fun \<Rightarrow> string \<Rightarrow> string \<Rightarrow> string \<Rightarrow> string \<Rightarrow> string \<Rightarrow> string" where
  "GenerateCommonBrn md5 service region uid resource qualifier =
     (let resource' = (if qualifier \<noteq> [] then resource @ '':'' @ qualifier else resource)
      in BRN_String \<lparr>Partition = ''cloud'', Service = service, Region = region, AccountID_brn = Md5BceUid md5 uid,
           Resource_brn = resource'\<rparr>)"

section \<open>Patterns\<close>

definition word_class :: rx where "word_class = RClass is_word_char"

definition RegAlias :: "string \<Rightarrow> bool" where
  "RegAlias s = MatchString (rplus word_class) s"

definition lower_digit :: "char \<Rightarrow> bool" where
  "lower_digit c \<longleftrightarrow> char_in (CHR ''0'') (CHR ''9'') c \<or> char_in (CHR ''a'') (CHR ''z'') c"

definition letter_dash :: "char \<Rightarrow> bool" where
  "letter_dash c \<longleftrightarrow> char_in (CHR ''a'') (CHR ''z'') c \<or> char_in (CHR ''A'') (CHR ''Z'') c \<or> c = CHR ''-''"

text \<open>\<open>(:(\$LATEST|[a-zA-Z0-9-_]+))?\<close>\<close>

definition qualifier_rx :: rx where
  "qualifier_rx = ropt (RSeq (rlit '':'') (RAlt (rlit ''$LATEST'') (rplus word_class)))"

definition regBrn :: "string \<Rightarrow> bool" where
  "regBrn s = MatchString (rseqs
     [rlit ''brn:'', rlit ''cloud'', RStar (RClass letter_dash), rlit '':faas:'',
      rrange 2 5 (RClass (char_in (CHR ''a'') (CHR ''z''))), RStar (RClass (char_in (CHR ''0'') (CHR ''9''))), rlit '':'',
      rrep 32 (RClass lower_digit), rlit '':'', rlit ''function:'', rplus word_class, qualifier_rx]) s"

definition regPartialBrn :: "string \<Rightarrow> bool" where
  "regPartialBrn s = MatchString (rseqs
     [ropt (RSeq (rrep 32 (RClass lower_digit)) (rlit '':'')), rplus word_class, qualifier_rx]) s"

definition RegNotMatchErr :: string where
  "RegNotMatchErr = ''member must satisfy regular expression pattern: (brn:(cloud[a-zA-Z-]*)?:faas:)?([a-z]{2,5}[0-9]*:)?([0-9a-z]{32}:)?(function:)?([a-zA-Z0-9-_]+)(:('' @ [char_of (92 :: nat)] @ ''$LATEST|[a-zA-Z0-9-_]+))?''"

section \<open>Function names\<close>

record FunctionBRN = BRN +
  FunctionName_b :: string
  Version_b :: string
  Alias_b :: string

definition invalidFunctionBrnError :: string where "invalidFunctionBrnError = ''invalid function brn''"

datatype qualifier_kind = version_q | alias_q

definition JudgeQualifier :: "string \<Rightarrow> string + qualifier_kind" where
  "JudgeQualifier qualifier =
     (if RegVersion qualifier then Inr version_q
      else if RegAlias qualifier then Inr alias_q
      else Inl ''Qualifier not match Regexp'')"

text \<open>The version and the alias; at most one of them is not empty.\<close>

definition GetVersionAndAlias :: "string \<Rightarrow> string \<times> string" where
  "GetVersionAndAlias qualifier = (case JudgeQualifier qualifier of
     Inl _ \<Rightarrow> ('''', '''') | Inr version_q \<Rightarrow> (qualifier, '''') | Inr alias_q \<Rightarrow> ('''', qualifier))"

definition mk_FunctionBRN :: "BRN \<Rightarrow> string \<Rightarrow> string \<times> string \<Rightarrow> FunctionBRN" where
  "mk_FunctionBRN b name va = \<lparr>Partition = Partition b, Service = Service b, Region = Region b, AccountID_brn = AccountID_brn b,
     Resource_brn = Resource_brn b, FunctionName_b = name, Version_b = fst va, Alias_b = snd va\<rparr>"

definition GenerateFunctionBRN :: "md5_fun \<Rightarrow> string \<Rightarrow> string \<Rightarrow> string \<Rightarrow> string \<Rightarrow> FunctionBRN" where
  "GenerateFunctionBRN md5 region uid functionName qualifier =
     (let (resource, va) = (if qualifier \<noteq> [] then (''function:'' @ functionName @ '':'' @ qualifier, GetVersionAndAlias qualifier)
                            else (''function:'' @ functionName, ('''', '''')))
      in mk_FunctionBRN \<lparr>Partition = ''cloud'', Service = ''faas'', Region = region, AccountID_brn = Md5BceUid md5 uid,
           Resource_brn = resource\<rparr> functionName va)"

definition GenerateFuncBrnString :: "md5_fun \<Rightarrow> string \<Rightarrow> string \<Rightarrow> string \<Rightarrow> string \<Rightarrow> string" where
  "GenerateFuncBrnString md5 region uid functionName qualifier =
     BRN_String (BRN.truncate (GenerateFunctionBRN md5 region uid functionName qualifier))"

definition ParseFunction :: "string \<Rightarrow> string + FunctionBRN" where
  "ParseFunction brn = (case Parse brn of
     Inl err \<Rightarrow> Inl err
   | Inr commonBrn \<Rightarrow>
       let parts = splitN (CHR '':'') 3 (Resource_brn commonBrn)
       in if length parts < 2 then Inl invalidFunctionBrnError
          else if parts ! 0 \<noteq> ''function'' then Inl invalidFunctionBrnError
          else Inr (mk_FunctionBRN commonBrn (parts ! 1)
                 (if length parts = 3 then GetVersionAndAlias (parts ! 2) else ('''', ''''))))"

datatype underlying = FunctionBRN_t | PartialBRN_t

definition JudgeUnderlyingBrn :: "string \<Rightarrow> string + underlying" where
  "JudgeUnderlyingBrn u = (if regBrn u then Inr FunctionBRN_t else if regPartialBrn u then Inr PartialBRN_t else Inl RegNotMatchErr)"

text \<open>The named results: function name, version and alias, and the error.\<close>

definition DealFName :: "string \<Rightarrow> string \<Rightarrow> (string \<times> string \<times> string) \<times> string option" where
  "DealFName accountID fName = (case JudgeUnderlyingBrn fName of
     Inl err \<Rightarrow> (('''', '''', ''''), Some err)
   | Inr FunctionBRN_t \<Rightarrow> (case ParseFunction fName of
       Inl errp \<Rightarrow> (('''', '''', ''''), Some errp)
     | Inr brn \<Rightarrow> ((FunctionName_b brn, Version_b brn, Alias_b brn), None))
   | Inr PartialBRN_t \<Rightarrow> (case split_on (CHR '':'') fName of
       [name] \<Rightarrow> ((name, '''', ''''), None)
     | [a, b] \<Rightarrow>
         if accountID \<noteq> '''' \<and> HasPrefix fName accountID then ((b, '''', ''''), None)
         else ((a, fst (GetVersionAndAlias b), snd (GetVersionAndAlias b)), None)
     | [a, b, c] \<Rightarrow>
         if accountID \<noteq> '''' \<and> accountID \<noteq> a then (('''', '''', ''''), Some RegNotMatchErr)
         else ((b, fst (GetVersionAndAlias c), snd (GetVersionAndAlias c)), None)
     | _ \<Rightarrow> (('''', '''', ''''), Some RegNotMatchErr)))"

section \<open>Helpers of the cfc service\<close>

definition SimplifyFunctionNameAndQualifier :: "string \<Rightarrow> string \<Rightarrow> string \<times> string" where
  "SimplifyFunctionNameAndQualifier functionName qualifier = (case Parse functionName of
     Inl _ \<Rightarrow> (functionName, qualifier)
   | Inr functionBrn \<Rightarrow>
       let r = Resource_brn functionBrn;
           (name, q) = (if CHR '':'' \<in> set r
             then (case split_on (CHR '':'') r of
                 [_, b] \<Rightarrow> (b, if qualifier = [] then ''LATEST'' else qualifier)
               | [_, b, c] \<Rightarrow> (b, c)
               | _ \<Rightarrow> (r, qualifier))
             else (r, qualifier))
       in (name, if q = ''$LATEST'' then ''LATEST'' else q))"

definition DealFName1 :: "string \<Rightarrow> string \<Rightarrow> (string \<times> string \<times> string) \<times> string option" where
  "DealFName1 accountID fName =
     (if regBrn fName then (case Parse fName of
         Inl err \<Rightarrow> (('''', '''', accountID), Some err)
       | Inr brn \<Rightarrow> (case split_on (CHR '':'') (Resource_brn brn) of
           [_, b] \<Rightarrow> ((b, '''', AccountID_brn brn), None)
         | [_, b, c] \<Rightarrow> ((b, c, AccountID_brn brn), None)
         | _ \<Rightarrow> (('''', '''', AccountID_brn brn), Some RegNotMatchErr)))
      else if regPartialBrn fName then (case split_on (CHR '':'') fName of
         [name] \<Rightarrow> ((name, '''', accountID), None)
       | [a, b] \<Rightarrow>
           if accountID \<noteq> '''' \<and> HasPrefix fName accountID then ((b, '''', accountID), None)
           else ((a, b, accountID), None)
       | [a, b, c] \<Rightarrow>
           if accountID \<noteq> '''' \<and> accountID \<noteq> a then (('''', '''', accountID), Some RegNotMatchErr)
           else ((b, c, accountID), None)
       | _ \<Rightarrow> (('''', '''', accountID), Some RegNotMatchErr))
      else (('''', '''', accountID), Some RegNotMatchErr))"

section \<open>Parsing and printing\<close>

definition plain :: "string \<Rightarrow> bool" where
  "plain s \<longleftrightarrow> CHR '':'' \<notin> set s"

definition brn_plain :: "BRN \<Rightarrow> bool" where
  "brn_plain b \<longleftrightarrow> plain (Partition b) \<and> plain (Service b) \<and> plain (Region b) \<and> plain (AccountID_brn b)"

lemma splitN_colon: "plain p \<Longrightarrow> splitN (CHR '':'') (Suc (Suc n)) (p @ CHR '':'' # s) = p # splitN (CHR '':'') (Suc n) s"
  unfolding plain_def by (rule splitN_append)

lemma Parse_BRN_String:
  assumes "brn_plain b"
  shows "Parse (BRN_String b) = Inr b"
proof -
  have six: "(6 :: nat) = Suc (Suc (Suc (Suc (Suc (Suc 0)))))" by simp
  have p: "plain ''brn''" "plain (Partition b)" "plain (Service b)" "plain (Region b)" "plain (AccountID_brn b)"
    using assms by (simp_all add: brn_plain_def plain_def)
  have eq: "BRN_String b = ''brn'' @ CHR '':'' # (Partition b @ CHR '':'' # (Service b @ CHR '':'' # (Region b @ CHR '':'' #
      (AccountID_brn b @ CHR '':'' # Resource_brn b))))"
    by (simp add: BRN_String_def brnPrefix_def brnDelimiter_def)
  have "splitN (CHR '':'') 6 (BRN_String b) =
      [''brn'', Partition b, Service b, Region b, AccountID_brn b, Resource_brn b]"
    unfolding six eq p [THEN splitN_colon] by simp
  then show ?thesis
    by (simp add: Parse_def HasPrefix_def brnSections_def brnDelimiter_def BRN_String_def brnPrefix_def)
qed

lemma BRN_String_Parse:
  assumes "Parse s = Inr b"
  shows "BRN_String b = s"
proof -
  define xs where "xs = splitN (CHR '':'') 6 s"
  have len: "length xs = 6" and pre: "HasPrefix s ''brn:''"
    and b: "b = \<lparr>Partition = xs ! 1, Service = xs ! 2, Region = xs ! 3, AccountID_brn = xs ! 4, Resource_brn = xs ! 5\<rparr>"
    using assms by (auto simp: Parse_def xs_def brnSections_def brnDelimiter_def brnPrefix_def Let_def split: if_splits)
  obtain r where r: "s = ''brn'' @ CHR '':'' # r" using pre by (auto simp: HasPrefix_iff)
  have "xs ! 0 = ''brn''"
    using splitN_colon [of "''brn''" 4 r] by (simp add: xs_def r plain_def numeral_eq_Suc del: splitN.simps)
  moreover have "join_with '':'' xs = s" unfolding xs_def by (rule join_splitN) simp
  moreover obtain x0 x1 x2 x3 x4 x5 where "xs = [x0, x1, x2, x3, x4, x5]"
    using len by (auto simp: numeral_eq_Suc length_Suc_conv)
  ultimately show ?thesis by (simp add: b BRN_String_def brnPrefix_def brnDelimiter_def)
qed

text \<open>Printing and parsing of resource names are inverse: a name whose first four parts contain no colon
  reads back as it was printed, and whatever parses prints back to exactly the text it came from. Parsing
  fails exactly without the prefix or with fewer than five colons.\<close>

theorem Parse_roundtrip:
  "(brn_plain b \<longrightarrow> Parse (BRN_String b) = Inr b)
   \<and> (\<forall>b'. Parse s = Inr b' \<longrightarrow> BRN_String b' = s)
   \<and> ((\<exists>b'. Parse s = Inr b') \<longleftrightarrow> HasPrefix s ''brn:'' \<and> 5 \<le> count_list s (CHR '':''))"
proof -
  have "(\<exists>b'. Parse s = Inr b') \<longleftrightarrow> HasPrefix s ''brn:'' \<and> 5 \<le> count_list s (CHR '':'')"
    by (auto simp: Parse_def brnPrefix_def brnSections_def brnDelimiter_def length_splitN Let_def)
  then show ?thesis using Parse_BRN_String BRN_String_Parse by blast
qed

section \<open>Generated names\<close>

lemma hex_digit_class: "n < 16 \<Longrightarrow> lower_digit (hex_digit n)"
  by (simp add: lower_digit_def char_in_def hex_digit_def)

lemma hex_bytes_class: "list_all lower_digit (hex_bytes bs)"
proof -
  have "unat (b :: 8 word) div 16 < 16" for b
    using unsigned_less [of b, where 'a = nat] by simp
  then show ?thesis by (induction bs) (simp_all add: hex_bytes_def hex_digit_class)
qed

lemma length_hex_bytes [simp]: "length (hex_bytes bs) = 2 * length bs"
  by (induction bs) (simp_all add: hex_bytes_def)

lemma lower_digit_colon: "\<not> lower_digit (CHR '':'')"
  by (simp add: lower_digit_def char_in_def)

lemma plain_class: "list_all p s \<Longrightarrow> \<not> p (CHR '':'') \<Longrightarrow> plain s"
  by (auto simp: plain_def list_all_iff)

lemma plain_Md5 [simp]: "plain (Md5BceUid md5 uid)"
  unfolding Md5BceUid_def by (rule plain_class [OF hex_bytes_class lower_digit_colon])

lemma plain_word: "list_all is_word_char s \<Longrightarrow> plain s"
  using is_word_char_not_colon by (auto simp: plain_def list_all_iff)

lemma RegAlias_iff: "RegAlias s \<longleftrightarrow> s \<noteq> [] \<and> list_all is_word_char s"
  by (simp add: RegAlias_def MatchString_rlang word_class_def)

lemma BRN_truncate_fields [simp]:
  "Resource_brn (BRN.truncate b) = Resource_brn b" "Partition (BRN.truncate b) = Partition b" "Service (BRN.truncate b) = Service b"
  "Region (BRN.truncate b) = Region b" "AccountID_brn (BRN.truncate b) = AccountID_brn b"
  by (simp_all add: BRN.truncate_def)

lemma ParseFunction_Generate:
  assumes "plain region" "plain name"
  shows "ParseFunction (GenerateFuncBrnString md5 region uid name qualifier) = Inr (GenerateFunctionBRN md5 region uid name qualifier)"
proof -
  define b where "b = BRN.truncate (GenerateFunctionBRN md5 region uid name qualifier)"
  have "brn_plain b"
    using assms(1) by (simp add: b_def brn_plain_def GenerateFunctionBRN_def mk_FunctionBRN_def case_prod_beta)
      (simp add: plain_def)
  then have p: "Parse (GenerateFuncBrnString md5 region uid name qualifier) = Inr b"
    by (simp add: GenerateFuncBrnString_def b_def Parse_BRN_String)
  have three: "(3 :: nat) = Suc (Suc (Suc 0))" by simp
  have f: "plain ''function''" by (simp add: plain_def)
  have "splitN (CHR '':'') 3 (''function'' @ CHR '':'' # (name @ CHR '':'' # qualifier)) = [''function'', name, qualifier]"
    unfolding three splitN_colon [OF f] splitN_colon [OF assms(2)] by simp
  moreover have "splitN (CHR '':'') 3 (''function'' @ CHR '':'' # name) = [''function'', name]"
    using assms(2) unfolding three splitN_colon [OF f] by (simp add: plain_def)
  ultimately show ?thesis
    unfolding ParseFunction_def p
    by (cases "qualifier = []") (simp_all add: b_def GenerateFunctionBRN_def mk_FunctionBRN_def Let_def)
qed

lemma rseqs_ConsI: "x \<in> rlang r \<Longrightarrow> y \<in> rlang (rseqs rs) \<Longrightarrow> x @ y \<in> rlang (rseqs (r # rs))"
  by auto

lemma rseqs_NilI: "[] \<in> rlang (rseqs [])"
  by simp

text \<open>What a qualifier can be: nothing, a version or an alias.\<close>

definition qualifier_ok :: "string \<Rightarrow> bool" where
  "qualifier_ok q \<longleftrightarrow> q = [] \<or> q = ''$LATEST'' \<or> (q \<noteq> [] \<and> list_all is_word_char q)"

lemma qualifier_rlang: "qualifier_ok q \<Longrightarrow> (if q = [] then [] else CHR '':'' # q) \<in> rlang qualifier_rx"
  by (auto simp: qualifier_ok_def qualifier_rx_def word_class_def)

lemma regBrn_Generate:
  assumes "length r = 2" "list_all (char_in (CHR ''a'') (CHR ''z'')) r" "length (md5 (uid @ ''cloud-cfc-2017'')) = 16"
    "name \<noteq> []" "list_all is_word_char name" "qualifier_ok q"
  shows "regBrn (GenerateFuncBrnString md5 r uid name q)"
proof -
  let ?q = "if q = [] then [] else CHR '':'' # q"
  have eq: "GenerateFuncBrnString md5 r uid name q = ''brn:'' @ ''cloud'' @ [] @ '':faas:'' @ r @ [] @ '':'' @ Md5BceUid md5 uid @ '':'' @
      ''function:'' @ name @ ?q @ []"
    by (simp add: GenerateFuncBrnString_def GenerateFunctionBRN_def BRN_String_def brnPrefix_def brnDelimiter_def mk_FunctionBRN_def)
  have h: "length (Md5BceUid md5 uid) = 32" "list_all lower_digit (Md5BceUid md5 uid)"
    using assms(3) by (simp_all add: Md5BceUid_def hex_bytes_class)
  show ?thesis
    unfolding regBrn_def MatchString_rlang eq
    by (intro rseqs_ConsI rseqs_NilI) (use assms h qualifier_rlang [OF assms(6)] in \<open>simp_all add: rlang_range_class word_class_def del: rlang.simps(6)\<close>)
qed

text \<open>A generated function name is understood by \<open>DealFName\<close>, whoever asks: it matches the pattern of full
  names and yields the function name and the qualifier, as a version or as an alias, it was generated from.
  The digest is sixteen bytes, as \<open>crypto/md5\<close> documents.\<close>

theorem DealFName_generated:
  assumes "length r = 2" "list_all (char_in (CHR ''a'') (CHR ''z'')) r" "length (md5 (uid @ ''cloud-cfc-2017'')) = 16"
    "name \<noteq> []" "list_all is_word_char name" "qualifier_ok q"
  shows "DealFName accountID (GenerateFuncBrnString md5 r uid name q) =
    ((name, if RegVersion q then (q, '''') else ('''', q)), None)"
proof -
  have region: "plain r" by (rule plain_class [OF assms(2)]) (simp add: char_in_def)
  have va: "GetVersionAndAlias q = (if RegVersion q then (q, '''') else ('''', q))" if "q \<noteq> []"
    using that assms(6) by (auto simp: GetVersionAndAlias_def JudgeQualifier_def RegAlias_iff qualifier_ok_def RegVersion_def)
  show ?thesis
    using ParseFunction_Generate [OF region plain_word [OF assms(5)], of md5 uid q] regBrn_Generate [of r md5 uid name q, OF assms] va
    by (cases "q = []")
      (auto simp: DealFName_def JudgeUnderlyingBrn_def GenerateFunctionBRN_def mk_FunctionBRN_def RegVersion_def)
qed

section \<open>A short name that starts with the account\<close>

text \<open>\<open>DealFName\<close> decides whether the first part of a two-part short name is the account by a prefix test
  on the whole text, so a function whose name merely begins with the account's identifier is misread:
  \<open><account>f:3\<close>, version 3 of the function \<open><account>f\<close>, is taken for a function called \<open>3\<close>.\<close>

theorem DealFName_prefix_confusion:
  assumes "accountID \<noteq> []" "list_all is_word_char accountID" "list_all is_word_char f" "list_all is_word_char v" "v \<noteq> []"
  shows "DealFName accountID (accountID @ f @ '':'' @ v) = ((v, '''', ''''), None)
    \<and> DealFName '''' (accountID @ f @ '':'' @ v) = ((accountID @ f, GetVersionAndAlias v), None)"
proof -
  let ?s = "accountID @ f @ '':'' @ v"
  have w: "list_all is_word_char (accountID @ f)" using assms by simp
  have plain: "CHR '':'' \<notin> set (accountID @ f)" "CHR '':'' \<notin> set v"
    using plain_word [OF w] plain_word [OF assms(4)] by (simp_all add: plain_def)
  have parts: "split_on (CHR '':'') ?s = [accountID @ f, v]"
    using split_on_append [OF plain(1), of v] split_on_fresh [OF plain(2)] by simp
  have "\<not> regBrn ?s"
  proof
    assume "regBrn ?s"
    then obtain x z where s: "?s = ''brn:'' @ x @ '':faas:'' @ z"
      by (auto simp: regBrn_def MatchString_rlang simp del: rlang.simps) (metis append_assoc append_Cons append_Nil)
    have "count_list ?s (CHR '':'') = 1"
      using length_split_on [of "CHR '':''" ?s] unfolding parts by simp
    then show False unfolding s by simp
  qed
  moreover have "regPartialBrn ?s"
  proof -
    have "?s = [] @ (accountID @ f) @ (CHR '':'' # v) @ []" by simp
    moreover have "CHR '':'' # v \<in> rlang qualifier_rx" using qualifier_rlang [of v] assms(4,5) by (simp add: qualifier_ok_def)
    ultimately show ?thesis
      unfolding regPartialBrn_def MatchString_rlang
      by (simp only:) (intro rseqs_ConsI rseqs_NilI; use w assms(1) in \<open>simp add: word_class_def\<close>)
  qed
  ultimately show ?thesis
    using parts assms(1) by (simp add: DealFName_def JudgeUnderlyingBrn_def HasPrefix_def)
qed

section \<open>Witnesses\<close>

definition sample_brn :: BRN where
  "sample_brn = \<lparr>Partition = ''cloud'', Service = ''faas'', Region = ''bj'', AccountID_brn = ''a1'', Resource_brn = ''function:f:1''\<rparr>"

theorem Parse_roundtrip_witness:
  "BRN_String sample_brn = ''brn:cloud:faas:bj:a1:function:f:1'' \<and> Parse ''brn:cloud:faas:bj:a1:function:f:1'' = Inr sample_brn"
proof -
  have "BRN_String sample_brn = ''brn:cloud:faas:bj:a1:function:f:1''"
    by (simp add: BRN_String_def sample_brn_def brnPrefix_def brnDelimiter_def)
  then show ?thesis using Parse_roundtrip [of sample_brn] by (simp add: brn_plain_def plain_def sample_brn_def)
qed

definition sample_md5 :: md5_fun where "sample_md5 s = replicate 16 (of_nat (length s))"

theorem DealFName_generated_witness:
  "DealFName ''x'' (GenerateFuncBrnString sample_md5 ''bj'' ''u'' ''f'' ''blue'') = ((''f'', '''', ''blue''), None)"
  using DealFName_generated [of "''bj''" sample_md5 "''u''" "''f''" "''blue''" "''x''"]
  by (simp add: sample_md5_def char_in_def is_word_char_def qualifier_ok_def RegVersion_def is_digit_char_def)

theorem DealFName_prefix_confusion_witness: "DealFName ''acc'' ''accf:3'' = ((''3'', '''', ''''), None)"
  using DealFName_prefix_confusion [of "''acc''" "''f''" "''3''"] by (simp add: is_word_char_def)

end
