(* ===== verification/GoErrors.thy ===== *)
theory GoErrors
  imports GoStrings "HOL-Library.Multiset"
begin

text \<open>
  The errors the service answers with (\<open>src/pkg/error/error.go\<close>, \<open>invoke.go\<close>) and lists of errors
  (\<open>src/pkg/util/errors/errors.go\<close>). A Go \<open>error\<close> is a \<open>go_error\<close>, nil is \<open>None\<close>; the JSON text of a
  \<open>BasicError\<close> is a parameter of the definitions that print one.
\<close>

section \<open>Service errors\<close>

type_synonym ErrorType = string

record BasicError =
  Code :: ErrorType
  Cause :: string
  Message :: string
  Status :: int
  Type_be :: string

record FinalError =
  BasicError_fe :: BasicError
  Backtrace :: "BasicError list option"

text \<open>An error value by its dynamic type. \<open>PlainErr\<close> stands for every error that is only a text; an
  \<open>AggregateErr\<close> is the private list type of the package, which \<open>NewAggregate\<close> fills without nil.\<close>

datatype go_error = PlainErr string | BasicErr BasicError | FinalErr FinalError | AggregateErr "go_error list"

text \<open>\<open>marshal\<close> is the JSON text of a basic error.\<close>

fun backtrace_json :: "(BasicError \<Rightarrow> string) \<Rightarrow> BasicError list \<Rightarrow> string" where
  "backtrace_json marshal [] = ''''"
| "backtrace_json marshal [e] = marshal e"
| "backtrace_json marshal (e # es) = marshal e @ '','' @ backtrace_json marshal es"

definition MarshalJSON :: "(BasicError \<Rightarrow> string) \<Rightarrow> FinalError \<Rightarrow> string" where
  "MarshalJSON marshal f = butlast (marshal (BasicError_fe f))
     @ (case Backtrace f of None \<Rightarrow> '''' | Some es \<Rightarrow> '',\"Backtrace\":['' @ backtrace_json marshal es @ '']'') @ ''}''"

text \<open>\<open>aggregate.Error\<close> and the texts of the other errors.\<close>

fun error_text :: "(BasicError \<Rightarrow> string) \<Rightarrow> go_error \<Rightarrow> string" where
  "error_text marshal (PlainErr s) = s"
| "error_text marshal (BasicErr b) = marshal b"
| "error_text marshal (FinalErr f) = MarshalJSON marshal f"
| "error_text marshal (AggregateErr agg) = (case map (error_text marshal) agg of
     [] \<Rightarrow> '''' | [t] \<Rightarrow> t | t # ts \<Rightarrow> ''['' @ t @ concat (map (\<lambda>u. '', '' @ u) ts) @ '']'')"

definition NewGenericException :: "(BasicError \<Rightarrow> string) \<Rightarrow> BasicError \<Rightarrow> go_error option \<Rightarrow> FinalError" where
  "NewGenericException marshal err lasterr =
     (let err' = (if 400 \<le> Status err \<and> Status err < 500 then err\<lparr>Type_be := ''User''\<rparr>
                  else if 500 \<le> Status err \<and> Status err \<le> 511 then err\<lparr>Type_be := ''Server''\<rparr> else err)
      in case lasterr of
          Some (FinalErr v) \<Rightarrow> \<lparr>BasicError_fe = err', Backtrace = Some ((case Backtrace v of None \<Rightarrow> [] | Some b \<Rightarrow> b) @ [BasicError_fe v])\<rparr>
        | Some (BasicErr v) \<Rightarrow> \<lparr>BasicError_fe = err', Backtrace = Some [v]\<rparr>
        | None \<Rightarrow> \<lparr>BasicError_fe = err', Backtrace = None\<rparr>
        | Some e \<Rightarrow> \<lparr>BasicError_fe = err', Backtrace = Some [\<lparr>Code = '''', Cause = '''', Message = error_text marshal e, Status = 0, Type_be = ''''\<rparr>]\<rparr>)"

definition basic :: "ErrorType \<Rightarrow> string \<Rightarrow> string \<Rightarrow> int \<Rightarrow> BasicError" where
  "basic code cause msg status = \<lparr>Code = code, Cause = cause, Message = msg, Status = status, Type_be = ''''\<rparr>"

definition NewValidationException :: "(BasicError \<Rightarrow> string) \<Rightarrow> string \<Rightarrow> string \<Rightarrow> go_error option \<Rightarrow> FinalError" where
  "NewValidationException marshal cause msg = NewGenericException marshal (basic ''ValidationException'' cause msg 400)"

definition NewInvalidParameterValueException :: "(BasicError \<Rightarrow> string) \<Rightarrow> string \<Rightarrow> go_error option \<Rightarrow> FinalError" where
  "NewInvalidParameterValueException marshal cause = NewGenericException marshal
     (basic ''InvalidParameterValueException'' cause ''One of the parameters in the request is invalid'' 400)"

definition NewInvalidRequestContentException :: "(BasicError \<Rightarrow> string) \<Rightarrow> string \<Rightarrow> go_error option \<Rightarrow> FinalError" where
  "NewInvalidRequestContentException marshal cause = NewGenericException marshal
     (basic ''InvalidRequestContentException'' cause ''The request body could not be parsed as JSON'' 400)"

definition NewServiceException :: "(BasicError \<Rightarrow> string) \<Rightarrow> string \<Rightarrow> go_error option \<Rightarrow> FinalError" where
  "NewServiceException marshal cause = NewGenericException marshal
     (basic ''ServiceException'' cause ''Service encountered an internal error'' 500)"

definition NewUnrecognizedClientException :: "(BasicError \<Rightarrow> string) \<Rightarrow> string \<Rightarrow> go_error option \<Rightarrow> FinalError" where
  "NewUnrecognizedClientException marshal cause = NewGenericException marshal
     (basic ''UnrecognizedClientException'' cause ''Access Denied'' 403)"

text \<open>\<open>seconds\<close> is the text \<open>%.2f\<close> makes of the timeout.\<close>

definition NewRequestTimeoutException :: "(BasicError \<Rightarrow> string) \<Rightarrow> string \<Rightarrow> string \<Rightarrow> go_error option \<Rightarrow> FinalError" where
  "NewRequestTimeoutException marshal cause seconds = NewGenericException marshal
     (basic ''RequestTimeoutException'' cause (''Task timed out after '' @ seconds @ '' seconds'') 200)"

definition NewNotImplementedException :: "(BasicError \<Rightarrow> string) \<Rightarrow> FinalError" where
  "NewNotImplementedException marshal = NewGenericException marshal
     (basic ''NotImplementedException'' '''' ''this method is not implemented'' 500) None"

definition NewAccountProblemException :: "(BasicError \<Rightarrow> string) \<Rightarrow> string \<Rightarrow> go_error option \<Rightarrow> FinalError" where
  "NewAccountProblemException marshal cause = NewGenericException marshal
     (basic ''AccountProblemException'' cause ''There is a problem with your account'' 403)"

definition NewInvalidInvokeCallerException :: "(BasicError \<Rightarrow> string) \<Rightarrow> string \<Rightarrow> go_error option \<Rightarrow> FinalError" where
  "NewInvalidInvokeCallerException marshal cause = NewGenericException marshal
     (basic ''InvalidInvokeCallerException'' cause ''Invalid caller id'' 403)"

definition NewTooManyRequestsException :: "(BasicError \<Rightarrow> string) \<Rightarrow> string \<Rightarrow> go_error option \<Rightarrow> FinalError" where
  "NewTooManyRequestsException marshal cause = NewGenericException marshal
     (basic ''TooManyRequestsException'' cause ''Too many requests'' 429)"

definition NewResourceNotFoundException :: "(BasicError \<Rightarrow> string) \<Rightarrow> string \<Rightarrow> go_error option \<Rightarrow> FinalError" where
  "NewResourceNotFoundException marshal cause = NewGenericException marshal
     (basic ''ResourceNotFoundException'' cause ''The resource specified in the request does not exist'' 404)"

definition NewInvalidRuntimeException :: "(BasicError \<Rightarrow> string) \<Rightarrow> string \<Rightarrow> go_error option \<Rightarrow> FinalError" where
  "NewInvalidRuntimeException marshal cause = NewGenericException marshal
     (basic ''InvalidRuntimeException'' cause ''The runtime or runtime version specified is not supported'' 502)"

definition GenericKunFinalError :: "(BasicError \<Rightarrow> string) \<Rightarrow> go_error \<Rightarrow> FinalError" where
  "GenericKunFinalError marshal err = (case err of FinalErr v \<Rightarrow> v | _ \<Rightarrow> NewServiceException marshal '''' (Some err))"

section \<open>Lists of errors\<close>

text \<open>An \<open>Aggregate\<close> is its list, nil is \<open>None\<close>.\<close>

definition NewAggregate :: "go_error option list \<Rightarrow> go_error list option" where
  "NewAggregate errlist = (case List.map_filter id errlist of [] \<Rightarrow> None | errs \<Rightarrow> Some errs)"

definition as_error :: "go_error list option \<Rightarrow> go_error option" where
  "as_error agg = map_option AggregateErr agg"

definition matchesError :: "go_error \<Rightarrow> (go_error \<Rightarrow> bool) list \<Rightarrow> bool" where
  "matchesError err fns = list_ex (\<lambda>fn. fn err) fns"

function FilterOut :: "(go_error \<Rightarrow> bool) list \<Rightarrow> go_error \<Rightarrow> go_error option"
  and filterErrors :: "(go_error \<Rightarrow> bool) list \<Rightarrow> go_error list \<Rightarrow> go_error list" where
  "FilterOut fns (AggregateErr agg) = as_error (NewAggregate (map Some (filterErrors fns agg)))"
| "\<nexists>agg. err = AggregateErr agg \<Longrightarrow> FilterOut fns err = (if matchesError err fns then None else Some err)"
| "filterErrors fns [] = []"
| "filterErrors fns (err # es) = (case FilterOut fns err of None \<Rightarrow> filterErrors fns es | Some r \<Rightarrow> r # filterErrors fns es)"
  by (atomize_elim, auto) (metis go_error.exhaust neq_Nil_conv sum.exhaust surj_pair)+
termination
  by (relation "measure (\<lambda>x. case x of Inl (_, e) \<Rightarrow> size e | Inr (_, es) \<Rightarrow> size_list size es)") auto

fun Flatten :: "go_error list \<Rightarrow> go_error list option" where
  "Flatten agg = NewAggregate (map Some (concat (map (\<lambda>err. case err of
     AggregateErr a \<Rightarrow> (case Flatten a of None \<Rightarrow> [] | Some r \<Rightarrow> r) | _ \<Rightarrow> [err]) agg)))"

definition Reduce :: "go_error option \<Rightarrow> go_error option" where
  "Reduce err = (case err of
     Some (AggregateErr [e]) \<Rightarrow> Some e | Some (AggregateErr []) \<Rightarrow> None | _ \<Rightarrow> err)"

text \<open>The map of counted messages, in the order Go visits it.\<close>

definition CreateAggregateFromMessageCountMap :: "(string \<times> int) list option \<Rightarrow> go_error list option" where
  "CreateAggregateFromMessageCountMap m = (case m of
     None \<Rightarrow> None
   | Some ms \<Rightarrow> NewAggregate (map (\<lambda>(errStr, count). Some (PlainErr (errStr @
       (if 1 < count then '' (repeated '' @ Itoa count @ '' times)'' else '''')))) ms))"

text \<open>The results of the goroutines, in the order they arrive on the channel.\<close>

definition AggregateGoroutines :: "go_error option list \<Rightarrow> go_error list option" where
  "AggregateGoroutines arrived = NewAggregate (map Some (List.map_filter id arrived))"

section \<open>Leaves\<close>

text \<open>The single errors in a nested list, from left to right.\<close>

fun leaves :: "go_error \<Rightarrow> go_error list" where
  "leaves (AggregateErr agg) = concat (map leaves agg)"
| "leaves err = [err]"

fun nested :: "go_error \<Rightarrow> bool" where
  "nested (AggregateErr agg) = list_ex (\<lambda>e. case e of AggregateErr _ \<Rightarrow> True | _ \<Rightarrow> False) agg"
| "nested err = False"

lemma map_filter_Some [simp]: "List.map_filter id (map Some xs) = xs"
  by (induction xs) (simp_all add: List.map_filter_simps)

lemma NewAggregate_Some: "NewAggregate (map Some xs) = (if xs = [] then None else Some xs)"
  by (simp add: NewAggregate_def split: list.splits)

declare Flatten.simps [simp del]

lemma Flatten_eq: "Flatten agg = (if concat (map leaves agg) = [] then None else Some (concat (map leaves agg)))"
proof (induction agg rule: Flatten.induct)
  case (1 agg)
  have "(case e of AggregateErr a \<Rightarrow> (case Flatten a of None \<Rightarrow> [] | Some r \<Rightarrow> r) | _ \<Rightarrow> [e]) = leaves e" if "e \<in> set agg" for e
  proof (cases e)
    case (AggregateErr a)
    have "Flatten a = (if concat (map leaves a) = [] then None else Some (concat (map leaves a)))"
      using that AggregateErr by (intro 1) simp_all
    then show ?thesis by (simp add: AggregateErr)
  qed simp_all
  then have "concat (map (\<lambda>err. case err of AggregateErr a \<Rightarrow> (case Flatten a of None \<Rightarrow> [] | Some r \<Rightarrow> r) | _ \<Rightarrow> [err]) agg) =
      concat (map leaves agg)"
    by (metis (no_types, lifting) map_eq_conv)
  then show ?case unfolding Flatten.simps [of agg] by (simp only: NewAggregate_Some)
qed

lemma leaves_not_aggregate: "l \<in> set (leaves e) \<Longrightarrow> \<nexists>agg. l = AggregateErr agg"
  by (induction e rule: leaves.induct) auto

definition opt_leaves :: "go_error option \<Rightarrow> go_error list" where
  "opt_leaves r = (case r of None \<Rightarrow> [] | Some e \<Rightarrow> leaves e)"

lemma FilterOut_leaves:
  "opt_leaves (FilterOut fns e) = filter (\<lambda>l. \<not> matchesError l fns) (leaves e)"
  "concat (map leaves (filterErrors fns es)) = filter (\<lambda>l. \<not> matchesError l fns) (concat (map leaves es))"
proof (induction fns e and fns es rule: FilterOut_filterErrors.induct)
  case (1 fns agg)
  then show ?case by (auto simp: NewAggregate_Some as_error_def opt_leaves_def)
next
  case (2 err fns)
  then show ?case by (cases err) (auto simp: opt_leaves_def)
next
  case (4 fns err es)
  then show ?case by (cases "FilterOut fns err") (auto simp: opt_leaves_def)
qed simp

section \<open>Properties\<close>

text \<open>\<open>Flatten\<close> gives exactly the single errors of a nested list, in order, with no list among them, and nil
  when there are none. \<open>FilterOut\<close> drops exactly the single errors some matcher accepts, at any depth; it does
  not flatten what is left.\<close>

theorem error_list_leaves:
  "Flatten agg = (if concat (map leaves agg) = [] then None else Some (concat (map leaves agg)))
   \<and> (\<forall>es. Flatten agg = Some es \<longrightarrow> \<not> nested (AggregateErr es))
   \<and> opt_leaves (FilterOut fns e) = filter (\<lambda>l. \<not> matchesError l fns) (leaves e)
   \<and> FilterOut [] (AggregateErr [AggregateErr [PlainErr a], PlainErr b]) = Some (AggregateErr [AggregateErr [PlainErr a], PlainErr b])"
proof -
  have flat: "\<not> nested (AggregateErr es)" if "Flatten agg = Some es" for es
  proof -
    have "es = concat (map leaves agg)" using that unfolding Flatten_eq by (simp split: if_splits)
    then have "\<And>e. e \<in> set es \<Longrightarrow> \<nexists>a. e = AggregateErr a" using leaves_not_aggregate by auto
    then show ?thesis by (auto simp: list_ex_iff split: go_error.splits)
  qed
  have "FilterOut [] (AggregateErr [AggregateErr [PlainErr a], PlainErr b]) = Some (AggregateErr [AggregateErr [PlainErr a], PlainErr b])"
    by (simp add: NewAggregate_Some as_error_def matchesError_def del: list.map)
  then show ?thesis using Flatten_eq flat FilterOut_leaves(1) by blast
qed

theorem error_list_leaves_witness: "Flatten [AggregateErr [PlainErr ''a''], PlainErr ''b''] = Some [PlainErr ''a'', PlainErr ''b'']"
  using error_list_leaves [of "[AggregateErr [PlainErr ''a''], PlainErr ''b'']" "[]" "PlainErr ''a''" "''x''" "''y''"] by simp

text \<open>An error keeps its history through the layers: wrapping appends the wrapped error to its own
  backtrace; the answer to a caller is the error itself if it is a service error and otherwise an internal
  error, status 500, that carries the text. An error counts as the user's fault exactly for the 4xx codes.\<close>

theorem error_backtrace:
  "Backtrace (NewGenericException marshal err (Some (FinalErr v))) =
     Some ((case Backtrace v of None \<Rightarrow> [] | Some b \<Rightarrow> b) @ [BasicError_fe v])
   \<and> GenericKunFinalError marshal (FinalErr v) = v
   \<and> Status (BasicError_fe (GenericKunFinalError marshal (PlainErr t))) = 500
   \<and> map_option (map Message) (Backtrace (GenericKunFinalError marshal (PlainErr t))) = Some [t]
   \<and> BasicError_fe (NewTooManyRequestsException marshal c lasterr) = \<lparr>Code = ''TooManyRequestsException'', Cause = c,
        Message = ''Too many requests'', Status = 429, Type_be = ''User''\<rparr>
   \<and> (Type_be err = '''' \<longrightarrow>
       (Type_be (BasicError_fe (NewGenericException marshal err lasterr)) = ''User'' \<longleftrightarrow> 400 \<le> Status err \<and> Status err < 500))"
proof -
  have keep: "BasicError_fe (NewGenericException marshal e lasterr) =
      (if 400 \<le> Status e \<and> Status e < 500 then e\<lparr>Type_be := ''User''\<rparr>
       else if 500 \<le> Status e \<and> Status e \<le> 511 then e\<lparr>Type_be := ''Server''\<rparr> else e)" for e
    by (auto simp: NewGenericException_def Let_def split: option.splits go_error.splits)
  show ?thesis
    using keep [of err] keep [of "basic ''TooManyRequestsException'' c ''Too many requests'' 429"]
    by (simp add: NewGenericException_def GenericKunFinalError_def NewServiceException_def NewTooManyRequestsException_def basic_def Let_def)
qed

theorem error_backtrace_witness:
  "Type_be (BasicError_fe (NewValidationException (\<lambda>b. ''{}'') ''c'' ''m'' None)) = ''User''"
  using error_backtrace [of "\<lambda>b. ''{}''" "basic ''ValidationException'' ''c'' ''m'' 400" "\<lparr>BasicError_fe = basic '''' '''' '''' 0, Backtrace = None\<rparr>" "''''" "''''" None]
  by (simp add: NewValidationException_def basic_def)

end
