(* ===== verification/Invoke.thy ===== *)
theory Invoke
  imports Task FuncServer Brn GoErrors
begin

text \<open>
  An invocation from start to end (\<open>src/pkg/controller/invoke.go\<close>): find the function and its runtime
  configuration, get a runtime, warm or cold, run the function there, give the runtime back and build the
  response. The answers of the registry and of the funclet, the random number of a canary decision and the
  instants at which clocks are read are the fields of an \<open>invoke_env\<close>. The implementation of the interface
  \<open>rtctrl.Control\<close> is the argument \<open>run\<close>; it returns or panics, and leaves a manager either way. A panic
  anywhere is recovered in \<open>Do\<close>, with the state it left. Metrics and logging are left out, but for the values they dereference.
\<close>

section \<open>Data\<close>

record GetFunctionOutput =
  Code_fo :: string
  Configuration_fo :: "FunctionConfiguration option"

record Alias =
  FunctionName_al :: string
  FunctionVersion_al :: string
  AdditionalVersion :: "string option"
  AdditionalVersionWeight :: "gofloat option"

type_synonym Storage = "(GetFunctionOutput, Alias, RuntimeConfiguration) StorageCache"

record InvokeProxyResponse =
  StatusCode_pr :: int
  Headers_pr :: "(string \<times> string) list"
  Body_pr :: string

definition SetStatusCode :: "int \<Rightarrow> InvokeProxyResponse \<Rightarrow> InvokeProxyResponse" where
  "SetStatusCode c ir = ir\<lparr>StatusCode_pr := c\<rparr>"

definition SetHeader :: "string \<Rightarrow> string \<Rightarrow> InvokeProxyResponse \<Rightarrow> InvokeProxyResponse" where
  "SetHeader k v ir = ir\<lparr>Headers_pr := AList.update k v (Headers_pr ir)\<rparr>"

definition SetBody :: "string \<Rightarrow> InvokeProxyResponse \<Rightarrow> InvokeProxyResponse" where
  "SetBody msg ir = ir\<lparr>Body_pr := msg\<rparr>"

definition HeaderXRequestID :: string where "HeaderXRequestID = ''X-easyfaas-Request-Id''"
definition XBceFunctionError :: string where "XBceFunctionError = ''X-easyfaas-Function-Error''"
definition HeadereasyfaasExecTime :: string where "HeadereasyfaasExecTime = ''X-easyfaas-Function-Exectime''"
definition HeaderLogResult :: string where "HeaderLogResult = ''X-Bce-Log-Result''"

definition NewInvokeProxyResponseWithRequestID :: "string \<Rightarrow> InvokeProxyResponse" where
  "NewInvokeProxyResponseWithRequestID requestID =
     \<lparr>StatusCode_pr = 0, Headers_pr = [(HeaderXRequestID, requestID)], Body_pr = ''''\<rparr>"

record InvocationResponse =
  FuncResult_or :: string
  LogMessage_or :: "string list"
  FuncError_or :: string
  ErrorInfo_or :: string

text \<open>What \<open>InvokeFunction\<close> returns; the duration is the text the header gets.\<close>

record InvocationOutput =
  Output_io :: InvocationResponse
  Duration_io :: "string option"

definition InvokeTypeCommon :: string where "InvokeTypeCommon = ''common''"
definition InvokeTypeEvent :: string where "InvokeTypeEvent = ''event''"
definition InvokeTypeStream :: string where "InvokeTypeStream = ''stream''"
definition InvokeTypeHttpTrigger :: string where "InvokeTypeHttpTrigger = ''httpTrigger''"
definition InvokeTypeMqhub :: string where "InvokeTypeMqhub = ''mqhub''"
definition TriggerTypeVscode :: string where "TriggerTypeVscode = ''vscode''"
definition TriggerTypeGeneric :: string where "TriggerTypeGeneric = ''generic''"
definition RuntimeViaWarm :: string where "RuntimeViaWarm = ''warm''"
definition RuntimeViaCold :: string where "RuntimeViaCold = ''cold''"
definition RuntimeViaUnknown :: string where "RuntimeViaUnknown = ''unknown''"

text \<open>The data stores of the controller and which of them a client mode uses.\<close>

datatype storer = dataStorer | insideDataStorer | httpTriggerDataStorer

definition ClientModeInside :: string where "ClientModeInside = ''inside''"
definition ClientModeHTTPTrigger :: string where "ClientModeHTTPTrigger = ''httpTrigger''"

definition NewClients :: "string \<Rightarrow> storer" where
  "NewClients clientMode =
     (if clientMode = ClientModeInside then insideDataStorer
      else if clientMode = ClientModeHTTPTrigger then httpTriggerDataStorer
      else dataStorer)"

record InvokeContext =
  ExternalRequestID_ctx :: string
  RequestID_ctx :: string
  AccountID_ctx :: string
  CallerUser_ctx :: string
  OwnerUser_ctx :: string
  Authorization_ctx :: string
  Function_ctx :: "GetFunctionOutput option"
  Runtime_ctx :: "RuntimeConfiguration option"
  Input_ctx :: "InvocationInput option"
  Output_ctx :: "InvocationOutput option"
  Response_ctx :: InvokeProxyResponse
  Clients_ctx :: storer
  FunctionName_ctx :: string
  FunctionBRN_ctx :: string
  Qualifier_ctx :: string
  Brn_ctx :: BRN
  LogType_ctx :: string
  LogToBody_ctx :: bool
  WithStreamMode_ctx :: bool
  InvokeType_ctx :: string
  TriggerType_ctx :: string

record run_options =
  SimpleAuth_ro :: bool
  EnableCanary_ro :: bool

record ctrl_state =
  manager :: RuntimeManager
  stores :: "storer \<Rightarrow> Storage"

record invoke_env =
  now_lookup :: instant
  now_store :: instant
  fn_answer :: "GetFunctionOutput \<times> go_error option"
  alias_answer :: "Alias \<times> go_error option"
  rand_answer :: gofloat
  rc_answer :: "RuntimeConfiguration \<times> go_error option"
  now_first :: instant
  warm_first :: "go_error option"
  now_second :: instant
  warm_second :: "go_error option"
  marshal_env :: "BasicError \<Rightarrow> string"
  marshal_body :: "string \<times> string \<times> string \<Rightarrow> string"

section \<open>Finding the function\<close>

definition parseBrn :: "InvokeContext \<Rightarrow> (string + BRN) \<times> InvokeContext" where
  "parseBrn ctx = (case Parse (FunctionBRN_ctx ctx) of
     Inl err \<Rightarrow> (Inl err, ctx)
   | Inr functionBRN \<Rightarrow>
       let ctx1 = ctx\<lparr>CallerUser_ctx := AccountID_brn functionBRN\<rparr>
       in (case split_on (CHR '':'') (Resource_brn functionBRN) of
            [_, name, q] \<Rightarrow> (Inr functionBRN, ctx1\<lparr>FunctionName_ctx := name, Qualifier_ctx := q\<rparr>)
          | _ \<Rightarrow> (Inr functionBRN, ctx1)))"

text \<open>
  The steps of an invocation work on the context and the state of the controller, and both keep what was done to them when a
  step panics: a step gives its result, or that it panicked, beside the context and state it leaves. \<open>go_on\<close> runs the rest
  of a step, \<open>try_here\<close> evaluates an expression that may panic.
\<close>

definition go_on :: "'a outcome \<times> 's \<Rightarrow> ('a \<Rightarrow> 's \<Rightarrow> 'b outcome \<times> 's) \<Rightarrow> 'b outcome \<times> 's" where
  "go_on r k = (case r of (Panic e, s) \<Rightarrow> (Panic e, s) | (Value x, s) \<Rightarrow> k x s)"

definition try_here :: "'a outcome \<Rightarrow> 's \<Rightarrow> ('a \<Rightarrow> 'b outcome \<times> 's) \<Rightarrow> 'b outcome \<times> 's" where
  "try_here r s k = (case r of Panic e \<Rightarrow> (Panic e, s) | Value x \<Rightarrow> k x)"

type_synonym invoke_step = "go_error option outcome \<times> InvokeContext \<times> ctrl_state"

text \<open>A lookup in one of the stores. The lookups panic only on a cached value of another type, before they store anything.\<close>

definition in_store :: "storer \<Rightarrow> (Storage \<Rightarrow> ('o, go_error, Storage) reply) \<Rightarrow> ctrl_state \<Rightarrow> ('o \<times> bool \<times> go_error option) outcome \<times> ctrl_state" where
  "in_store k f st = (case f (stores st k) of
     Panic e \<Rightarrow> (Panic e, st)
   | Value (r, s) \<Rightarrow> (Value r, st\<lparr>stores := (stores st)(k := s)\<rparr>))"

text \<open>\<open>ctx.Function, hitCache, err = ctx.Clients.DataStorer.GetFunction(input)\<close>.\<close>

definition fetch_function :: "invoke_env \<Rightarrow> GetFunctionInput \<Rightarrow> InvokeContext \<Rightarrow> ctrl_state \<Rightarrow> invoke_step" where
  "fetch_function env input ctx st =
     (case in_store (Clients_ctx ctx) (GetFunction (now_lookup env) (now_store env) input (fn_answer env)) st of
        (Panic e, st1) \<Rightarrow> (Panic e, ctx, st1)
      | (Value (output, hit, err), st1) \<Rightarrow> (Value err, ctx\<lparr>Function_ctx := Some output\<rparr>, st1))"

definition invalid_param :: "invoke_env \<Rightarrow> string \<Rightarrow> go_error" where
  "invalid_param env cause = FinalErr (NewInvalidParameterValueException (marshal_env env) cause None)"

definition getFunctionByFunctionName :: "invoke_env \<Rightarrow> GetFunctionInput \<Rightarrow> InvokeContext \<Rightarrow> ctrl_state \<Rightarrow> invoke_step" where
  "getFunctionByFunctionName env input ctx st =
     (if \<not> RegVersion (Qualifier_ctx ctx) then (Value (Some (invalid_param env ''invalid function qualifier'')), ctx, st)
      else fetch_function env (input\<lparr>WithCache_gf := False, FunctionName_gf := Some (FunctionName_ctx ctx), Qualifier_gf := Some (Qualifier_ctx ctx)\<rparr>) ctx st)"

definition getCanaryFunctionBrn :: "invoke_env \<Rightarrow> InvokeContext \<Rightarrow> ctrl_state \<Rightarrow> invoke_step" where
  "getCanaryFunctionBrn env ctx st =
     (let input = \<lparr>FunctionBrn_ga = FunctionBRN_ctx ctx, Authorization_ga = Authorization_ctx ctx, RequestID_ga = RequestID_ctx ctx,
                   AccountID_ga = AccountID_ctx ctx, WithCache_ga = True, SimpleAuth_ga = True\<rparr>
      in case in_store insideDataStorer (GetAlias (now_lookup env) (now_store env) input (alias_answer env)) st of
           (Panic e, st1) \<Rightarrow> (Panic e, ctx, st1)
         | (Value (al, hit, Some e), st1) \<Rightarrow> (Value (Some e), ctx, st1)
         | (Value (al, hit, None), st1) \<Rightarrow>
             try_here (deref_field (AdditionalVersion al)) (ctx, st1) (\<lambda>additionalVersion.
             try_here (deref_field (AdditionalVersionWeight al)) (ctx, st1) (\<lambda>weight.
             if additionalVersion \<noteq> '''' \<and> \<not> float_is_zero weight
             then let q = (if float_gt (rand_answer env) weight then FunctionVersion_al al else additionalVersion);
                      b = (Brn_ctx ctx)\<lparr>Resource_brn := ''function:'' @ FunctionName_al al @ '':'' @ q\<rparr>
                  in (Value None, ctx\<lparr>Qualifier_ctx := q, Brn_ctx := b, FunctionBRN_ctx := BRN_String b\<rparr>, st1)
             else (Value None, ctx, st1))))"

definition getFunctionByFunctionBrn :: "run_options \<Rightarrow> invoke_env \<Rightarrow> GetFunctionInput \<Rightarrow> InvokeContext \<Rightarrow> ctrl_state \<Rightarrow> invoke_step" where
  "getFunctionByFunctionBrn opts env input ctx st = (case parseBrn ctx of
     (Inl err, ctx1) \<Rightarrow> (Value (Some (PlainErr err)), ctx1, st)
   | (Inr b, ctx1) \<Rightarrow>
       let ctx2 = ctx1\<lparr>Brn_ctx := b\<rparr>
       in go_on (if RegVersion (Qualifier_ctx ctx2) then (Value None, ctx2, st)
                 else if \<not> EnableCanary_ro opts then (Value (Some (invalid_param env ''invalid brn'')), ctx2, st)
                 else getCanaryFunctionBrn env ctx2 st) (\<lambda>err (ctx3, st1). case err of
            Some e \<Rightarrow> (Value (Some e), ctx3, st1)
          | None \<Rightarrow>
              let input1 = (if Qualifier_ctx ctx3 = ''$LATEST'' then input\<lparr>WithCache_gf := False\<rparr> else input)
              in fetch_function env (input1\<lparr>FunctionName_gf := Some (BRN_String (Brn_ctx ctx3)), Qualifier_gf := Some (Qualifier_ctx ctx3)\<rparr>) ctx3 st1))"

definition getFunction :: "run_options \<Rightarrow> invoke_env \<Rightarrow> InvokeContext \<Rightarrow> ctrl_state \<Rightarrow> invoke_step" where
  "getFunction opts env ctx st =
     (let simple = (InvokeType_ctx ctx = InvokeTypeEvent \<or> InvokeType_ctx ctx = InvokeTypeHttpTrigger \<or> InvokeType_ctx ctx = InvokeTypeMqhub
                    \<or> TriggerType_ctx ctx = TriggerTypeVscode);
          input = \<lparr>Authorization_gf = Authorization_ctx ctx, FunctionName_gf = None, Qualifier_gf = None, RequestID_gf = RequestID_ctx ctx,
                   AccountID_gf = AccountID_ctx ctx, WithCache_gf = True, SimpleAuth_gf = simple\<rparr>
      in go_on (if FunctionBRN_ctx ctx \<noteq> '''' then getFunctionByFunctionBrn opts env input ctx st
                else getFunctionByFunctionName env input ctx st) (\<lambda>err (ctx1, st1). case err of
           Some e \<Rightarrow> (Value (Some e), ctx1, st1)
         | None \<Rightarrow>
             try_here (deref_field (Function_ctx ctx1)) (ctx1, st1) (\<lambda>f.
             try_here (deref_field (Configuration_fo f)) (ctx1, st1) (\<lambda>conf.
             let ctx2 = ctx1\<lparr>OwnerUser_ctx := Uid_fc conf\<rparr>
             in if SimpleAuth_ro opts \<and> AccountID_ctx ctx2 \<noteq> OwnerUser_ctx ctx2
                then (Value (Some (FinalErr (NewInvalidInvokeCallerException (marshal_env env)
                       (''owner id '' @ OwnerUser_ctx ctx2 @ '' caller id '' @ AccountID_ctx ctx2) None))), ctx2, st1)
                else try_here (deref_field (FunctionArn_fc conf)) (ctx2, st1) (\<lambda>_. (Value None, ctx2, st1))))))"

definition getRuntimeConfiguration :: "invoke_env \<Rightarrow> InvokeContext \<Rightarrow> ctrl_state \<Rightarrow> invoke_step" where
  "getRuntimeConfiguration env ctx st =
     try_here (deref_field (Function_ctx ctx)) (ctx, st) (\<lambda>f.
     try_here (deref_field (Configuration_fo f)) (ctx, st) (\<lambda>conf.
     case Runtime_fc conf of
       None \<Rightarrow> (Value (Some (FinalErr (NewServiceException (marshal_env env) ''runtime name is nil pointer'' None))), ctx, st)
     | Some name \<Rightarrow>
         (case in_store (Clients_ctx ctx) (FuncServer.GetRuntimeConfiguration (now_lookup env) (now_store env)
                  \<lparr>Authorization_gr = Authorization_ctx ctx, RuntimeName_gr = name, RequestID_gr = RequestID_ctx ctx\<rparr> (rc_answer env)) st of
            (Panic e, st1) \<Rightarrow> (Panic e, ctx, st1)
          | (Value (rc, hit, err), st1) \<Rightarrow> (Value err, ctx\<lparr>Runtime_ctx := Some rc\<rparr>, st1))))"

section \<open>Getting and giving back a runtime\<close>

definition release_rt :: "nat \<Rightarrow> RuntimeManager \<Rightarrow> RuntimeManager" where
  "release_rt i m = (case Release (rtArray m ! i) of Inl _ \<Rightarrow> m | Inr info \<Rightarrow> upd_rt i (\<lambda>_. info) m)"

text \<open>One attempt; \<open>warm\<close> is the error the funclet's warm-up answers with, if any. On a manager that satisfies its invariant and
  has a base memory, the two operations panic only for a function without commit or memory size, before they change anything
  (\<open>attempt_returns\<close>).\<close>

definition tryGetRuntime :: "(BasicError \<Rightarrow> string) \<Rightarrow> instant \<Rightarrow> go_error option \<Rightarrow> InvocationInput \<Rightarrow> RuntimeManager \<Rightarrow>
    (string \<times> go_error option) outcome \<times> InvocationInput \<times> RuntimeManager" where
  "tryGetRuntime marshal now warm input m =
     try_here (FindWarmRuntime now input m) (input, m) (\<lambda>(rt, m1). case rt of
       Some i \<Rightarrow> (Value (RuntimeViaWarm, None), input\<lparr>Runtime_ii := Some i\<rparr>, m1)
     | None \<Rightarrow>
         try_here (OccupyColdRuntime now input m1) (input, m1) (\<lambda>((rt', recommendation), m2). case rt' of
           None \<Rightarrow> (Value (RuntimeViaUnknown, Some (FinalErr (NewTooManyRequestsException marshal ''empty runtime'' None))), input, m2)
         | Some i \<Rightarrow> (case warm of
             Some err \<Rightarrow>
               let m3 = release_rt i (upd_rt i Invalidate m2)
               in (Value (RuntimeViaUnknown, Some (PlainErr (''warm up runtime '' @ RuntimeID (rtArray m2 ! i) @ '' failed: '' @ error_text marshal err))),
                   input, m3)
           | None \<Rightarrow>
               let m3 = (if PodConcurrentQuota_fc (Configuration_ii input) = 0
                         then upd_rt i (\<lambda>info. info\<lparr>ConcurrentMode := False\<rparr>) m2 else m2)
               in (Value (RuntimeViaCold, None), input\<lparr>Runtime_ii := Some i\<rparr>, m3))))"

text \<open>The loop of \<open>getRuntime\<close>: a second attempt after an error, none after a panic.\<close>

definition two_attempts :: "invoke_env \<Rightarrow> InvocationInput \<Rightarrow> RuntimeManager \<Rightarrow> go_error option outcome \<times> InvocationInput \<times> RuntimeManager" where
  "two_attempts env input m = (case tryGetRuntime (marshal_env env) (now_first env) (warm_first env) input m of
     (Panic e, input1, m1) \<Rightarrow> (Panic e, input1, m1)
   | (Value (via, None), input1, m1) \<Rightarrow> (Value None, input1, m1)
   | (Value (via, Some _), input1, m1) \<Rightarrow>
       (case tryGetRuntime (marshal_env env) (now_second env) (warm_second env) input1 m1 of
          (Panic e, input2, m2) \<Rightarrow> (Panic e, input2, m2)
        | (Value (via', err'), input2, m2) \<Rightarrow> (Value err', input2, m2)))"

definition getRuntime :: "invoke_env \<Rightarrow> InvokeContext \<Rightarrow> RuntimeManager \<Rightarrow> go_error option outcome \<times> InvokeContext \<times> RuntimeManager" where
  "getRuntime env ctx m =
     try_here (deref_field (Function_ctx ctx)) (ctx, m) (\<lambda>f.
     try_here (deref_field (Configuration_fo f)) (ctx, m) (\<lambda>conf.
     try_here (if WithStreamMode_ctx ctx then Value True else obind (deref_field (Runtime_ctx ctx)) (\<lambda>rc. Value (HasSuffix (Name_rc rc) ''stream'')))
       (ctx, m) (\<lambda>stream.
     let input = \<lparr>Runtime_ii = None, ExternalRequestID_ii = ExternalRequestID_ctx ctx, RequestID_ii = RequestID_ctx ctx, Configuration_ii = conf,
                  WithStreamMode_ii = stream, EnableMetrics_ii = False, IsLogTail_ii = IsLogTypeTail (LogType_ctx ctx),
                  InvokeType_ii = InvokeType_ctx ctx, TriggerType_ii = TriggerType_ctx ctx\<rparr>;
         ctx1 = ctx\<lparr>WithStreamMode_ctx := stream\<rparr>
     in case two_attempts env input m of (err, input1, m1) \<Rightarrow> (err, ctx1\<lparr>Input_ctx := Some input1\<rparr>, m1))))"

definition putRuntime :: "InvocationInput \<Rightarrow> RuntimeManager \<Rightarrow> RuntimeManager" where
  "putRuntime input m = (case Runtime_ii input of None \<Rightarrow> m | Some i \<Rightarrow> release_rt i m)"

section \<open>The response\<close>

definition getFuncResult :: "InvocationResponse \<Rightarrow> string" where
  "getFuncResult out =
     (if FuncError_or out = [] then FuncResult_or out
      else if ErrorInfo_or out = ''Invoke timeout.'' then FuncResult_or out
      else ErrorInfo_or out)"

text \<open>\<open>base64.StdEncoding\<close>.\<close>

definition base64_alphabet :: string where
  "base64_alphabet = ''ABCDEFGHIJKLMNOPQRSTUVWXYZabcdefghijklmnopqrstuvwxyz0123456789+/''"

fun base64 :: "string \<Rightarrow> string" where
  "base64 (a # b # c # rest) =
     (let n = of_char a * 65536 + of_char b * 256 + of_char c
      in [base64_alphabet ! (n div 262144), base64_alphabet ! (n div 4096 mod 64), base64_alphabet ! (n div 64 mod 64), base64_alphabet ! (n mod 64)]
         @ base64 rest)"
| "base64 [a, b] =
     (let n = of_char a * 65536 + of_char b * 256
      in [base64_alphabet ! (n div 262144), base64_alphabet ! (n div 4096 mod 64), base64_alphabet ! (n div 64 mod 64), CHR ''=''])"
| "base64 [a] =
     (let n = of_char a * 65536 in [base64_alphabet ! (n div 262144), base64_alphabet ! (n div 4096 mod 64), CHR ''='', CHR ''=''])"
| "base64 [] = []"

definition buildTotallyToBody :: "invoke_env \<Rightarrow> string \<Rightarrow> string \<Rightarrow> string list \<Rightarrow> InvokeProxyResponse \<Rightarrow> int \<times> InvokeProxyResponse" where
  "buildTotallyToBody env funcError payload logMessage r =
     (if funcError \<noteq> [] then 500 else 200,
      SetBody (marshal_body env (funcError, concat logMessage, payload)) (SetHeader ''Content-Type'' ''application/json; charset=utf-8'' r))"

definition build :: "string \<Rightarrow> string \<Rightarrow> string list \<Rightarrow> InvokeProxyResponse \<Rightarrow> int \<times> InvokeProxyResponse" where
  "build funcError payload logMessage r =
     (let r1 = (if funcError \<noteq> [] then SetHeader XBceFunctionError funcError r else r);
          r2 = (if logMessage \<noteq> [] then SetHeader HeaderLogResult (base64 (concat logMessage)) r1 else r1)
      in (if funcError \<noteq> [] then 500 else 200, SetBody payload r2))"

definition buildResponse :: "invoke_env \<Rightarrow> InvocationOutput \<Rightarrow> InvokeContext \<Rightarrow> InvokeContext" where
  "buildResponse env out ctx =
     (let funcError = FuncError_or (Output_io out);
          payload = getFuncResult (Output_io out);
          logMessage = (if IsLogTypeTail (LogType_ctx ctx) then LogMessage_or (Output_io out) else []);
          r1 = SetStatusCode 200 (Response_ctx ctx);
          r2 = (case Duration_io out of None \<Rightarrow> r1 | Some d \<Rightarrow> SetHeader HeadereasyfaasExecTime d r1)
      in if WithStreamMode_ctx ctx \<or> InvokeType_ctx ctx = InvokeTypeEvent then ctx\<lparr>Response_ctx := r2\<rparr>
         else if LogToBody_ctx ctx then ctx\<lparr>Response_ctx := snd (buildTotallyToBody env funcError payload logMessage r2)\<rparr>
         else ctx\<lparr>Response_ctx := snd (build funcError payload logMessage r2)\<rparr>)"

definition buildErrorResponse :: "invoke_env \<Rightarrow> go_error \<Rightarrow> InvokeContext \<Rightarrow> InvokeContext" where
  "buildErrorResponse env err ctx =
     (let finalErr = GenericKunFinalError (marshal_env env) err
      in ctx\<lparr>Response_ctx := SetBody (MarshalJSON (marshal_env env) finalErr)
              (SetHeader XBceFunctionError ''Unhandled'' (SetStatusCode (Status (BasicError_fe finalErr)) (Response_ctx ctx)))\<rparr>)"

section \<open>The whole invocation\<close>

type_synonym control = "InvocationInput \<Rightarrow> RuntimeManager \<Rightarrow> InvocationOutput outcome \<times> RuntimeManager"

text \<open>A step of \<open>Do\<close> before a runtime is held: an error or a recovered panic ends the invocation with an error
  response; what the step did before stays done.\<close>

definition do_step :: "invoke_env \<Rightarrow> invoke_step \<Rightarrow> (InvokeContext \<Rightarrow> ctrl_state \<Rightarrow> InvokeContext \<times> ctrl_state) \<Rightarrow> InvokeContext \<times> ctrl_state" where
  "do_step env r next_step = (case r of
     (Panic msg, ctx1, st1) \<Rightarrow> (buildErrorResponse env (PlainErr msg) ctx1, st1)
   | (Value (Some err), ctx1, st1) \<Rightarrow> (buildErrorResponse env err ctx1, st1)
   | (Value None, ctx1, st1) \<Rightarrow> next_step ctx1 st1)"

text \<open>\<open>invocation\<close>, \<open>buildResponse\<close> and the deferred \<open>putRuntime\<close>, which also runs when the function call panics.\<close>

definition do_invocation :: "invoke_env \<Rightarrow> control \<Rightarrow> InvokeContext \<Rightarrow> ctrl_state \<Rightarrow> InvokeContext \<times> ctrl_state" where
  "do_invocation env run ctx st = (case Input_ctx ctx of
     None \<Rightarrow> (ctx, st)
   | Some input \<Rightarrow>
       (case run input (manager st) of (r, m1) \<Rightarrow>
         let st1 = st\<lparr>manager := putRuntime input m1\<rparr>
         in (case r of
              Panic msg \<Rightarrow> (buildErrorResponse env (PlainErr msg) ctx, st1)
            | Value out \<Rightarrow> (buildResponse env out (ctx\<lparr>Output_ctx := Some out\<rparr>), st1))))"

definition with_manager :: "ctrl_state \<Rightarrow> go_error option outcome \<times> InvokeContext \<times> RuntimeManager \<Rightarrow> invoke_step" where
  "with_manager st r = (case r of (err, ctx, m) \<Rightarrow> (err, ctx, st\<lparr>manager := m\<rparr>))"

definition Do :: "run_options \<Rightarrow> invoke_env \<Rightarrow> control \<Rightarrow> InvokeContext \<Rightarrow> ctrl_state \<Rightarrow> InvokeContext \<times> ctrl_state" where
  "Do opts env run ctx st =
     do_step env (getFunction opts env ctx st) (\<lambda>ctx1 st1.
     do_step env (getRuntimeConfiguration env ctx1 st1) (\<lambda>ctx2 st2.
     do_step env (with_manager st2 (getRuntime env ctx2 (manager st2))) (\<lambda>ctx3 st3.
     do_invocation env run ctx3 st3)))"

section \<open>An invocation gives back what it takes\<close>

definition uses :: "RuntimeManager \<Rightarrow> uint64 list" where
  "uses m = map Concurrency (rtArray m)"

lemma uses_length [simp]: "length (uses m) = length (rtArray m)"
  by (simp add: uses_def)

lemma uses_upd_rt: "(\<And>rt. Concurrency (f rt) = Concurrency rt) \<Longrightarrow> uses (upd_rt i f m) = uses m"
  by (simp add: uses_def upd_rt_def map_update list_update_same_conv) (metis length_map list_update_beyond list_update_id not_less nth_map)

definition taken :: "nat option \<Rightarrow> uint64 list \<Rightarrow> uint64 list" where
  "taken ri us = (case ri of None \<Rightarrow> us | Some i \<Rightarrow> us[i := us ! i + 1])"

lemma occupy_uses:
  assumes "rm_inv m" "OccupyColdRuntime now req m = Value ((ri, recommend), m')"
  shows "uses m' = taken ri (uses m) \<and> (\<forall>i. ri = Some i \<longrightarrow> i < length (rtArray m))"
proof -
  obtain memSize where out: "occupy_outcome now req memSize m ri recommend m'"
    using OccupyColdRuntime_outcome assms by (metis rm_inv_def)
  let ?m1 = "with_marked (i64 (marked_memory m + int64_of (functionMemorySizeToBytes memSize))) m"
  from out consider "ri = None" "m' = m"
    | m2 where "ri = None" "undone ?m1 m2" "rtArray m' = rtArray m2"
    | i "is" input where "ri = Some i" "scaled_up now input ?m1 i is m'"
    by (auto simp: occupy_outcome_def Let_def split: if_splits)
  then show ?thesis
  proof cases
    case 1
    then show ?thesis by (simp add: taken_def)
  next
    case 2
    then have "length (rtArray m2) = length (rtArray m)" using same_frame_length [of ?m1 m2] by (simp add: undone_def)
    with 2 show ?thesis by (auto simp: undone_def uses_def taken_def restored_simps intro!: nth_equalityI)
  next
    case 3
    then have "length (rtArray m') = length (rtArray m)" using same_frame_length [of ?m1 m'] by (simp add: scaled_up_def)
    moreover have "Concurrency (rtArray m' ! i) = Concurrency (rtArray m ! i) + 1" using 3 by (auto simp: scaled_up_def CAS_occupy_iff)
    ultimately show ?thesis
      using 3 by (auto simp: scaled_up_def uses_def taken_def nth_list_update intro!: nth_equalityI)
  qed
qed

lemma find_warm_uses:
  assumes "rm_inv m" "FindWarmRuntime now req m = Value (ri, m')"
  shows "rm_inv m' \<and> uses m' = taken ri (uses m) \<and> (\<forall>i. ri = Some i \<longrightarrow> i < length (rtArray m)) \<and> (ri = None \<longrightarrow> m' = m)"
proof -
  obtain commit where "CommitID_fc (Configuration_ii req) = Some commit" using assms(2) by (auto simp: FindWarmRuntime_def outcome_simps)
  from find_warm_effect [OF assms(1) this assms(2)] show ?thesis
    by (cases ri) (auto simp: uses_def taken_def, (metis map_update nth_map)+)
qed

lemma release_rt_uses:
  assumes "rm_inv m"
  shows "rm_inv (release_rt i m)"
    and "i < length (rtArray m) \<Longrightarrow> uses m ! i \<noteq> 0 \<Longrightarrow> uses (release_rt i m) = (uses m)[i := uses m ! i - 1]"
  using assms rm_inv_upd_quiet [OF assms, of "\<lambda>rt. rt\<lparr>Concurrency := Concurrency rt - 1\<rparr>" i]
  by (auto simp: release_rt_def Release_def quiet_def uses_def upd_rt_def map_update)

lemma release_taken:
  assumes "rm_inv m" "uses m = us[i := us ! i + 1]" "i < length us" "us ! i \<noteq> - 1"
  shows "uses (release_rt i m) = us"
proof -
  have len: "length (rtArray m) = length us" using assms(2) by (metis length_list_update uses_length)
  have "us ! i + 1 \<noteq> 0" using assms(4) by (metis eq_neg_iff_add_eq_0)
  with release_rt_uses(2) [OF assms(1), of i] assms len show ?thesis by simp
qed

text \<open>What an attempt does to the counters, on every way out.\<close>

lemma tryGetRuntime_uses:
  assumes "rm_inv m" "tryGetRuntime marshal now warm input m = (r, input', m')" "- 1 \<notin> set (uses m)"
  shows "rm_inv m' \<and> (case r of
      Value (via, None) \<Rightarrow> \<exists>i < length (rtArray m). Runtime_ii input' = Some i \<and> uses m' = (uses m)[i := uses m ! i + 1]
    | _ \<Rightarrow> uses m' = uses m)"
proof (cases "FindWarmRuntime now input m")
  case (Panic e)
  then show ?thesis using assms by (auto simp: tryGetRuntime_def try_here_def)
next
  case (Value p)
  then obtain ri m1 where fw: "FindWarmRuntime now input m = Value (ri, m1)" by (cases p) auto
  note fu = find_warm_uses [OF assms(1) fw]
  show ?thesis
  proof (cases ri)
    case (Some i)
    with fw fu assms(2) show ?thesis by (auto simp: tryGetRuntime_def taken_def try_here_def)
  next
    case None
    with fu have "m1 = m" by simp
    show ?thesis
    proof (cases "OccupyColdRuntime now input m")
      case (Panic e)
      with None \<open>m1 = m\<close> fw assms show ?thesis by (auto simp: tryGetRuntime_def try_here_def)
    next
      case (Value q)
      then obtain ri' recommend m2 where oc: "OccupyColdRuntime now input m = Value ((ri', recommend), m2)" by (metis prod.collapse)
      note inv2 = occupy_keeps_inv [OF assms(1) oc] and ou = occupy_uses [OF assms(1) oc]
      have ab: "rm_inv (upd_rt i Invalidate m2)" "uses (upd_rt i Invalidate m2) = uses m2"
        "rm_inv (upd_rt i (ConcurrentMode_update (\<lambda>_. False)) m2)" "uses (upd_rt i (ConcurrentMode_update (\<lambda>_. False)) m2) = uses m2" for i
        by (auto intro!: rm_inv_upd_quiet inv2 uses_upd_rt simp: quiet_def Invalidate_def)
      show ?thesis
      proof (cases ri')
        case None
        with \<open>ri = None\<close> \<open>m1 = m\<close> fw oc inv2 ou assms(2) show ?thesis by (auto simp: tryGetRuntime_def taken_def try_here_def)
      next
        case (Some i)
        have "uses m ! i \<noteq> - 1" using assms(3) ou Some by (metis nth_mem uses_length)
        with Some ou ab have "uses (release_rt i (upd_rt i Invalidate m2)) = uses m" "rm_inv (release_rt i (upd_rt i Invalidate m2))"
          by (auto intro!: release_taken release_rt_uses(1) simp: taken_def)
        with \<open>ri = None\<close> \<open>m1 = m\<close> fw oc inv2 ou ab Some assms(2) show ?thesis
          by (auto simp: tryGetRuntime_def taken_def try_here_def Let_def split: option.splits if_splits)
      qed
    qed
  qed
qed

lemma find_warm_returns:
  assumes "rm_inv m" "CommitID_fc (Configuration_ii req) = Some commit"
  shows "\<exists>ri m'. FindWarmRuntime now req m = Value (ri, m')"
proof -
  have "separated m" using assms(1) by (simp add: rm_inv_def)
  then have "returns (cas_first OpMark (MarkArgs \<lparr>CommitID_ki = commit, ConcurrentQuota = PodConcurrentQuota_fc (Configuration_ii req)\<rparr>) now (heap m) (rtArray m))"
    using runtime_CAS_returns by (intro cas_first_returns) simp
  then show ?thesis using assms(2) by (auto simp: FindWarmRuntime_def elim!: returnsE)
qed

lemma attempt_returns:
  assumes "rm_inv m" "BaseMemory (resource m) \<noteq> 0"
    and "MemorySize_fc (Configuration_ii input) = Some memSize" "CommitID_fc (Configuration_ii input) = Some commit"
  shows "\<exists>x. fst (tryGetRuntime marshal now warm input m) = Value x"
proof -
  obtain ri m1 where fw: "FindWarmRuntime now input m = Value (ri, m1)"
    using find_warm_returns [OF assms(1,4)] by blast
  show ?thesis
  proof (cases ri)
    case None
    then have "m1 = m" using find_warm_uses [OF assms(1) fw] by simp
    then obtain ri' recommend m2 where "OccupyColdRuntime now input m1 = Value ((ri', recommend), m2)"
      using OccupyColdRuntime_returns [OF assms] by blast
    with fw None show ?thesis by (auto simp: tryGetRuntime_def try_here_def Let_def split: option.splits)
  qed (simp add: fw tryGetRuntime_def try_here_def)
qed

lemma uses_eq_length:
  "uses m' = uses m \<Longrightarrow> length (rtArray m') = length (rtArray m)"
  by (metis uses_length)

lemma two_attempts_uses:
  assumes "rm_inv m" "two_attempts env input m = (r, input', m')" "- 1 \<notin> set (uses m)"
  shows "rm_inv m' \<and> (case r of
      Value None \<Rightarrow> \<exists>i < length (rtArray m). Runtime_ii input' = Some i \<and> uses m' = (uses m)[i := uses m ! i + 1]
    | _ \<Rightarrow> uses m' = uses m)"
proof -
  obtain r1 input1 m1 where try1: "tryGetRuntime (marshal_env env) (now_first env) (warm_first env) input m = (r1, input1, m1)" by (metis prod_cases3)
  note t1 = tryGetRuntime_uses [OF assms(1) try1 assms(3)]
  consider (panic) e where "r1 = Panic e" | (got) via where "r1 = Value (via, None)" | (again) via e where "r1 = Value (via, Some e)"
    by (metis outcome.exhaust option.exhaust surj_pair)
  then show ?thesis
  proof cases
    case again
    obtain r2 input2 m2 where try2: "tryGetRuntime (marshal_env env) (now_second env) (warm_second env) input1 m1 = (r2, input2, m2)" by (metis prod_cases3)
    have u: "rm_inv m1" "uses m1 = uses m" using t1 again by auto
    with assms(3) have "- 1 \<notin> set (uses m1)" by simp
    note t2 = tryGetRuntime_uses [OF u(1) try2 this]
    have "r = (case r2 of Panic e \<Rightarrow> Panic e | Value x \<Rightarrow> Value (snd x))" "input' = input2" "m' = m2"
      using assms(2) try1 try2 again by (auto simp: two_attempts_def split: outcome.splits prod.splits)
    then show ?thesis using t2 u by (auto simp: uses_eq_length [OF u(2)] split: outcome.splits option.splits prod.splits)
  qed (use assms(2) try1 t1 in \<open>auto simp: two_attempts_def\<close>)
qed

lemma getRuntime_uses:
  assumes "rm_inv m" "getRuntime env ctx m = (r, ctx', m')" "- 1 \<notin> set (uses m)"
  shows "rm_inv m' \<and> (case r of
      Value None \<Rightarrow> \<exists>input i. Input_ctx ctx' = Some input \<and> Runtime_ii input = Some i \<and> i < length (rtArray m) \<and>
        uses m' = (uses m)[i := uses m ! i + 1]
    | _ \<Rightarrow> uses m' = uses m)"
proof -
  have "(m' = m \<and> (\<exists>e. r = Panic e)) \<or> (\<exists>input input'. two_attempts env input m = (r, input', m') \<and> Input_ctx ctx' = Some input')"
    using assms(2) by (auto simp: getRuntime_def try_here_def Let_def split: outcome.splits prod.splits)
  then show ?thesis
  proof (elim disjE exE conjE)
    fix input input' assume "two_attempts env input m = (r, input', m')" "Input_ctx ctx' = Some input'"
    then show ?thesis using two_attempts_uses [OF assms(1) _ assms(3)] by (fastforce split: outcome.splits option.splits)
  qed (use assms(1) in auto)
qed

text \<open>The steps before that only read the manager.\<close>

lemma in_store_manager: "in_store k f st = (r, st') \<Longrightarrow> manager st' = manager st"
  by (auto simp: in_store_def split: outcome.splits)

lemma fetch_function_manager: "fetch_function env input ctx st = (r, ctx', st') \<Longrightarrow> manager st' = manager st"
  by (auto simp: fetch_function_def dest: in_store_manager split: outcome.splits prod.splits)

lemma getCanary_manager: "getCanaryFunctionBrn env ctx st = (r, ctx', st') \<Longrightarrow> manager st' = manager st"
  by (auto simp: getCanaryFunctionBrn_def try_here_def Let_def dest!: in_store_manager split: outcome.splits prod.splits option.splits if_splits)

lemma getFunctionBy_manager:
  "getFunctionByFunctionName env input ctx st = (r, ctx', st') \<Longrightarrow> manager st' = manager st"
  "getFunctionByFunctionBrn opts env input ctx st = (r, ctx', st') \<Longrightarrow> manager st' = manager st"
  by (auto simp: getFunctionByFunctionName_def getFunctionByFunctionBrn_def go_on_def Let_def
      dest!: fetch_function_manager getCanary_manager split: outcome.splits option.splits if_splits sum.splits prod.splits)

lemma getFunction_manager:
  "getFunction opts env ctx st = (r, ctx', st') \<Longrightarrow> manager st' = manager st"
  by (auto simp: getFunction_def go_on_def try_here_def Let_def dest!: getFunctionBy_manager split: outcome.splits option.splits if_splits prod.splits)

lemma getRuntimeConfiguration_manager:
  "getRuntimeConfiguration env ctx st = (r, ctx', st') \<Longrightarrow> manager st' = manager st"
  by (auto simp: getRuntimeConfiguration_def try_here_def dest!: in_store_manager split: outcome.splits option.splits prod.splits)

text \<open>An invocation either ends before the call, whatever the call would do, or makes it once.\<close>

lemma do_step_ended:
  assumes "r \<noteq> Value None"
  shows "\<exists>e. \<forall>k. do_step env (r, c, s) k = (buildErrorResponse env e c, s)"
  using assms by (cases r) (auto simp: do_step_def split: option.splits)

lemma Do_cases:
  obtains (early) e c s where "\<And>run. Do opts env run ctx st = (buildErrorResponse env e c, s)"
      "manager s = manager st \<or> (\<exists>c2 c3 r. getRuntime env c2 (manager st) = (r, c3, manager s) \<and> r \<noteq> Value None)"
    | (call) c2 c3 s3 where "\<And>run. Do opts env run ctx st = do_invocation env run c3 s3"
      "getRuntime env c2 (manager st) = (Value None, c3, manager s3)"
proof -
  obtain r1 c1 s1 where 1: "getFunction opts env ctx st = (r1, c1, s1)" by (metis prod_cases3)
  obtain r2 c2 s2 where 2: "getRuntimeConfiguration env c1 s1 = (r2, c2, s2)" by (metis prod_cases3)
  obtain r3 c3 m3 where 3: "getRuntime env c2 (manager s2) = (r3, c3, m3)" by (metis prod_cases3)
  have m: "manager s1 = manager st" "manager s2 = manager st" using getFunction_manager [OF 1] getRuntimeConfiguration_manager [OF 2] by simp_all
  consider (first) "r1 \<noteq> Value None" | (second) "r1 = Value None" "r2 \<noteq> Value None"
    | (third) "r1 = Value None" "r2 = Value None" "r3 \<noteq> Value None" | (none) "r1 = Value None" "r2 = Value None" "r3 = Value None" by blast
  then show thesis
  proof cases
    case first
    then obtain e where "\<And>k. do_step env (r1, c1, s1) k = (buildErrorResponse env e c1, s1)" using do_step_ended by blast
    then show thesis using 1 m by (intro early [of e c1 s1]) (simp_all add: Do_def)
  next
    case second
    then obtain e where "\<And>k. do_step env (r2, c2, s2) k = (buildErrorResponse env e c2, s2)" using do_step_ended by blast
    then show thesis using 1 2 m second by (intro early [of e c2 s2]) (simp_all add: Do_def do_step_def [of _ "(Value None, _)"])
  next
    case third
    let ?s = "s2\<lparr>manager := m3\<rparr>"
    obtain e where "\<And>k. do_step env (r3, c3, ?s) k = (buildErrorResponse env e c3, ?s)" using do_step_ended third(3) by blast
    then have "Do opts env run ctx st = (buildErrorResponse env e c3, ?s)" for run
      using 1 2 3 third by (simp add: Do_def do_step_def [of _ "(Value None, _)"] with_manager_def)
    moreover have "getRuntime env c2 (manager st) = (r3, c3, manager ?s)" using 3 m by simp
    ultimately show thesis using early third(3) by blast
  next
    case none
    let ?s = "s2\<lparr>manager := m3\<rparr>"
    have "Do opts env run ctx st = do_invocation env run c3 ?s" for run
      using 1 2 3 none by (simp add: Do_def do_step_def with_manager_def)
    moreover have "getRuntime env c2 (manager st) = (Value None, c3, manager ?s)" using 3 m none by simp
    ultimately show thesis by (rule call)
  qed
qed

lemma do_invocation_manager:
  assumes "Input_ctx ctx = Some input" "Runtime_ii input = Some i"
  shows "manager (snd (do_invocation env run ctx st)) = release_rt i (snd (run input (manager st)))"
  using assms by (simp add: do_invocation_def putRuntime_def Let_def case_prod_beta split: outcome.splits)

text \<open>C1: An invocation gives back what it takes. Whatever happens between the request and the response (an unknown
  function, a metadata error, a nil field, no free runtime, one or two failed warm-ups, a panic of the call, a normal answer),
  either \<open>Do\<close> ends without calling the function, and then every runtime's use counter is as it was and the manager's
  invariant holds; or it makes one call, on a runtime whose counter was raised by one and nothing else's, and when the call
  has returned or panicked gives that runtime back once, whatever the call did to the manager. No
  counter may stand at its maximum when the invocation starts.\<close>

theorem Do_balanced:
  assumes "rm_inv (manager st)" "- 1 \<notin> set (uses (manager st))"
  shows "(\<exists>st'. (\<forall>run. snd (Do opts env run ctx st) = st') \<and> rm_inv (manager st') \<and> uses (manager st') = uses (manager st)) \<or>
    (\<exists>input i m. Runtime_ii input = Some i \<and> i < length (rtArray (manager st)) \<and> rm_inv m \<and>
       uses m = (uses (manager st))[i := uses (manager st) ! i + 1] \<and>
       (\<forall>run. manager (snd (Do opts env run ctx st)) = release_rt i (snd (run input m))))"
proof (cases rule: Do_cases [of opts env ctx st])
  case (early e c s)
  have "rm_inv (manager s) \<and> uses (manager s) = uses (manager st)"
    using early(2)
  proof (elim disjE exE conjE)
    fix c2 c3 r
    assume "getRuntime env c2 (manager st) = (r, c3, manager s)" "r \<noteq> Value None"
    then show ?thesis using getRuntime_uses [OF assms(1) _ assms(2)] by (fastforce split: outcome.splits option.splits)
  qed (use assms(1) in simp)
  then show ?thesis using early(1) by simp
next
  case (call c2 c3 s3)
  obtain input i where i: "rm_inv (manager s3)" "Input_ctx c3 = Some input" "Runtime_ii input = Some i" "i < length (rtArray (manager st))"
    "uses (manager s3) = (uses (manager st))[i := uses (manager st) ! i + 1]"
    using getRuntime_uses [OF assms(1) call(2) assms(2)] by auto
  moreover have "manager (snd (Do opts env run ctx st)) = release_rt i (snd (run input (manager s3)))" for run
    using call(1) do_invocation_manager [OF i(2,3)] by simp
  ultimately show ?thesis by blast
qed

text \<open>So a call that keeps the invariant and the counters leaves the counters of the whole invocation as they were.\<close>

lemma Do_counters:
  assumes "rm_inv (manager st)" "- 1 \<notin> set (uses (manager st))"
    and "\<And>input m. rm_inv m \<Longrightarrow> rm_inv (snd (run input m)) \<and> uses (snd (run input m)) = uses m"
  shows "uses (manager (snd (Do opts env run ctx st))) = uses (manager st)"
proof (cases rule: Do_cases [of opts env ctx st])
  case (early e c s)
  then show ?thesis using getRuntime_uses [OF assms(1) _ assms(2)] by (fastforce split: outcome.splits option.splits)
next
  case (call c2 c3 s3)
  obtain input i where i: "rm_inv (manager s3)" "Input_ctx c3 = Some input" "Runtime_ii input = Some i" "i < length (rtArray (manager st))"
    "uses (manager s3) = (uses (manager st))[i := uses (manager st) ! i + 1]"
    using getRuntime_uses [OF assms(1) call(2) assms(2)] by auto
  moreover have "uses (manager st) ! i \<noteq> - 1" using assms(2) i(4) by (metis nth_mem uses_length)
  ultimately show ?thesis using call(1) do_invocation_manager [OF i(2,3)] assms(3) release_taken by simp
qed

section \<open>Who may call\<close>

text \<open>The function a context carries is the one \<open>getFunction\<close> stored there.\<close>

lemma fetch_function_account: "fetch_function env input c s = (r, c', s') \<Longrightarrow> AccountID_ctx c' = AccountID_ctx c"
  by (auto simp: fetch_function_def split: outcome.splits prod.splits)

lemma getCanary_account: "getCanaryFunctionBrn env c s = (r, c', s') \<Longrightarrow> AccountID_ctx c' = AccountID_ctx c"
  by (auto simp: getCanaryFunctionBrn_def try_here_def Let_def split: outcome.splits prod.splits option.splits if_splits)

lemma getFunction_keeps_account:
  assumes "getFunction opts env ctx st = (r, ctx', st')"
  shows "AccountID_ctx ctx' = AccountID_ctx ctx"
proof -
  have "AccountID_ctx (snd (parseBrn c)) = AccountID_ctx c" for c
    by (simp add: parseBrn_def Let_def split: sum.split list.split)
  then have parse: "parseBrn c = (r, c') \<Longrightarrow> AccountID_ctx c' = AccountID_ctx c" for c r c' by (metis snd_conv)
  have name: "getFunctionByFunctionName env input c s = (e, c', s') \<Longrightarrow> AccountID_ctx c' = AccountID_ctx c" for input c s e c' s'
    by (auto simp: getFunctionByFunctionName_def dest!: fetch_function_account split: if_splits)
  have brn: "getFunctionByFunctionBrn opts env input c s = (e, c', s') \<Longrightarrow> AccountID_ctx c' = AccountID_ctx c" for input c s e c' s'
    by (auto simp: getFunctionByFunctionBrn_def go_on_def Let_def dest!: getCanary_account fetch_function_account parse
        split: outcome.splits option.splits if_splits sum.splits prod.splits)
  show ?thesis
    using assms by (auto simp: getFunction_def go_on_def try_here_def Let_def dest!: name brn split: outcome.splits option.splits if_splits prod.splits)
qed

definition owned_by :: "string \<Rightarrow> InvokeContext \<Rightarrow> bool" where
  "owned_by account ctx = (case Function_ctx ctx of
     Some f \<Rightarrow> (case Configuration_fo f of Some conf \<Rightarrow> Uid_fc conf = account | None \<Rightarrow> False)
   | None \<Rightarrow> False)"

lemma getFunction_owner:
  assumes "getFunction opts env ctx st = (Value None, ctx', st')" "SimpleAuth_ro opts"
  shows "owned_by (AccountID_ctx ctx) ctx'"
proof -
  have "AccountID_ctx ctx' = AccountID_ctx ctx" by (rule getFunction_keeps_account [OF assms(1)])
  then show ?thesis
    using assms by (auto simp: getFunction_def go_on_def try_here_def Let_def owned_by_def deref_field_def split: outcome.splits option.splits if_splits prod.splits)
qed

lemma later_steps_keep_function:
  "getRuntimeConfiguration env ctx st = (r, ctx', st') \<Longrightarrow> Function_ctx ctx' = Function_ctx ctx"
  "getRuntime env ctx m = (r, ctx', m') \<Longrightarrow> Function_ctx ctx' = Function_ctx ctx"
  "Function_ctx (fst (do_invocation env run ctx st)) = Function_ctx ctx"
  "Function_ctx (buildErrorResponse env e ctx) = Function_ctx ctx"
     apply (auto simp: getRuntimeConfiguration_def try_here_def split: outcome.splits option.splits prod.splits) [1]
    apply (auto simp: getRuntime_def try_here_def Let_def split: outcome.splits option.splits prod.splits) [1]
  by (auto simp: do_invocation_def buildResponse_def buildErrorResponse_def Let_def split: option.splits outcome.splits prod.splits)

lemma do_step_function:
  assumes "\<And>x c s. r = (x, c, s) \<Longrightarrow> Function_ctx c = f"
    and "\<And>c s. Function_ctx c = f \<Longrightarrow> Function_ctx (fst (k c s)) = f"
  shows "Function_ctx (fst (do_step env r k)) = f"
  using assms by (auto simp: do_step_def later_steps_keep_function split: outcome.splits option.splits prod.splits)

text \<open>C17: With simple authentication only the owner's requests reach a runtime: if the function found is not
  owned by the calling account (or none was found), no runtime is taken, nothing in the manager changes and
  the answer does not depend on what a call would have done.\<close>

theorem Do_simple_auth:
  assumes "SimpleAuth_ro opts" "Do opts env run ctx st = (ctx', st')" "\<not> owned_by (AccountID_ctx ctx) ctx'"
  shows "manager st' = manager st \<and> (\<forall>run'. Do opts env run' ctx st = (ctx', st'))"
proof (cases "\<exists>ctx1 st1. getFunction opts env ctx st = (Value None, ctx1, st1)")
  case True
  then obtain ctx1 st1 where g: "getFunction opts env ctx st = (Value None, ctx1, st1)" by blast
  define rest where "rest = do_step env (getRuntimeConfiguration env ctx1 st1) (\<lambda>ctx2 st2.
     do_step env (with_manager st2 (getRuntime env ctx2 (manager st2))) (do_invocation env run))"
  have "Function_ctx (fst rest) = Function_ctx ctx1"
    unfolding rest_def
    by (intro do_step_function) (auto simp: with_manager_def later_steps_keep_function split: prod.splits)
  moreover have "rest = (ctx', st')" using assms(2) g by (simp add: Do_def do_step_def rest_def)
  ultimately have "Function_ctx ctx' = Function_ctx ctx1" by simp
  with getFunction_owner [OF g assms(1)] assms(3) show ?thesis by (simp add: owned_by_def)
next
  case False
  obtain r1 c1 s1 where g: "getFunction opts env ctx st = (r1, c1, s1)" by (metis prod_cases3)
  then have "r1 \<noteq> Value None" using False by blast
  then have "Do opts env run' ctx st = do_step env (r1, c1, s1) (\<lambda>c s. (c, s)) \<and> snd (do_step env (r1, c1, s1) (\<lambda>c s. (c, s))) = s1" for run'
    by (auto simp: Do_def do_step_def g split: outcome.splits option.splits)
  then show ?thesis using assms(2) getFunction_manager [OF g] by (metis snd_conv)
qed

section \<open>Instances\<close>

definition sample_conf :: FunctionConfiguration where
  "sample_conf = \<lparr>FunctionArn_fc = Some ''arn'', Runtime_fc = Some ''python3'', MemorySize_fc = Some 128, Timeout_fc = Some 3,
     CommitID_fc = Some ''c1'', Uid_fc = ''bob'', PodConcurrentQuota_fc = 0\<rparr>"

definition sample_env :: invoke_env where
  "sample_env = \<lparr>now_lookup = 1, now_store = 2, fn_answer = (\<lparr>Code_fo = ''zip'', Configuration_fo = Some sample_conf\<rparr>, None),
     alias_answer = (\<lparr>FunctionName_al = ''f'', FunctionVersion_al = ''1'', AdditionalVersion = None, AdditionalVersionWeight = None\<rparr>, None),
     rand_answer = Fin False 1 (- 1), rc_answer = (\<lparr>Name_rc = ''python3'', Bin_rc = ''python3'', Path_rc = ''/bin'', Args_rc = []\<rparr>, None),
     now_first = 5, warm_first = None, now_second = 6, warm_second = None, marshal_env = (\<lambda>_. ''{}''), marshal_body = (\<lambda>_. ''{}'')\<rparr>"

definition sample_ctx :: "string \<Rightarrow> InvokeContext" where
  "sample_ctx account = \<lparr>ExternalRequestID_ctx = ''e'', RequestID_ctx = ''r'', AccountID_ctx = account, CallerUser_ctx = '''', OwnerUser_ctx = '''',
     Authorization_ctx = '''', Function_ctx = None, Runtime_ctx = None, Input_ctx = None, Output_ctx = None,
     Response_ctx = NewInvokeProxyResponseWithRequestID ''r'', Clients_ctx = dataStorer, FunctionName_ctx = ''f'', FunctionBRN_ctx = '''',
     Qualifier_ctx = ''1'', Brn_ctx = \<lparr>Partition = '''', Service = '''', Region = '''', AccountID_brn = '''', Resource_brn = ''''\<rparr>,
     LogType_ctx = '''', LogToBody_ctx = False, WithStreamMode_ctx = False, InvokeType_ctx = InvokeTypeCommon, TriggerType_ctx = ''''\<rparr>"

definition sample_ctrl :: ctrl_state where
  "sample_ctrl = \<lparr>manager = sample_manager, stores = (\<lambda>_. NewStorageCache DefaultCacheExpirationConfigs)\<rparr>"

text \<open>A call that answers at once.\<close>

definition sample_run :: control where
  "sample_run input m = (Value \<lparr>Output_io = \<lparr>FuncResult_or = ''ok'', LogMessage_or = [], FuncError_or = '''', ErrorInfo_or = ''''\<rparr>,
     Duration_io = None\<rparr>, m)"

theorem Do_balanced_witness:
  "uses (manager (snd (Do \<lparr>SimpleAuth_ro = True, EnableCanary_ro = False\<rparr> sample_env sample_run (sample_ctx ''bob'') sample_ctrl))) = [0, 0]"
proof -
  let ?opts = "\<lparr>SimpleAuth_ro = True, EnableCanary_ro = False\<rparr>"
  have inv: "rm_inv (manager sample_ctrl)" using sample_manager_inv by (simp add: sample_ctrl_def)
  have u: "uses (manager sample_ctrl) = [0, 0]" by (simp add: uses_def sample_ctrl_def sample_manager_def)
  have len: "length (rtArray (manager sample_ctrl)) = 2" by (simp add: sample_ctrl_def sample_manager_def)
  have "- 1 \<notin> set (uses (manager sample_ctrl))" by (simp add: u)
  from Do_balanced [OF inv this, of ?opts sample_env "sample_ctx ''bob''"] show ?thesis
  proof (elim disjE exE conjE)
    fix input i m
    assume c: "i < length (rtArray (manager sample_ctrl))" "rm_inv m" "uses m = (uses (manager sample_ctrl))[i := uses (manager sample_ctrl) ! i + 1]"
      "\<forall>run. manager (snd (Do ?opts sample_env run (sample_ctx ''bob'') sample_ctrl)) = release_rt i (snd (run input m))"
    then have "uses (release_rt i m) = [0, 0]" using release_taken [of m "[0, 0]" i] by (auto simp: u len less_2_cases_iff)
    then show ?thesis using c(4) by (simp add: sample_run_def)
  qed (simp add: u)
qed

theorem Do_simple_auth_witness:
  "manager (snd (Do \<lparr>SimpleAuth_ro = True, EnableCanary_ro = False\<rparr> sample_env sample_run (sample_ctx ''eve'') sample_ctrl)) = sample_manager"
proof -
  let ?opts = "\<lparr>SimpleAuth_ro = True, EnableCanary_ro = False\<rparr>"
  obtain ctx' st' where run: "Do ?opts sample_env sample_run (sample_ctx ''eve'') sample_ctrl = (ctx', st')" by fastforce
  have "\<exists>e c s. getFunction ?opts sample_env (sample_ctx ''eve'') sample_ctrl = (Value (Some e), c, s) \<and> \<not> owned_by ''eve'' c"
    by (simp add: getFunction_def getFunctionByFunctionName_def fetch_function_def go_on_def try_here_def sample_ctx_def sample_env_def sample_ctrl_def sample_conf_def in_store_def
        GetFunction_def RegVersion_def is_digit_char_def deref_field_def owned_by_def Let_def)
  with run have "\<not> owned_by (AccountID_ctx (sample_ctx ''eve'')) ctx'"
    by (auto simp: Do_def do_step_def owned_by_def later_steps_keep_function sample_ctx_def)
  with Do_simple_auth [OF _ run] run show ?thesis by (simp add: sample_ctrl_def)
qed

end
