(* ===== verification/RtRuntime.thy ===== *)
theory RtRuntime
  imports RtEvents
begin

text \<open>
  The life of a runtime and of the requests it serves: \<open>src/pkg/controller/rtctrl/runtime.go\<close>,
  \<open>runner.go\<close> and \<open>request.go\<close>. A world is one runtime and the request objects, which the runtime's
  request map refers to by address. The loops over connections and channels are given by what they do
  for one delivery; a section under \<open>invokeLock\<close> is one step. \<open>stopRuntime\<close> waits for the loops it has just
  told to end, so its wait group is empty when it goes on. The loops of the stream mode as events, and the end of the runner in two steps,
  are in \<open>RtLife\<close>.
\<close>

section \<open>Requests\<close>

datatype RequestStatus = StatusNormal | StatusRunning | StatusSuccess | StatusFailed | StatusTimeout

text \<open>Go's integer division and remainder cut towards zero.\<close>

definition quot64 :: "int64 \<Rightarrow> int64 \<Rightarrow> int64" where
  "quot64 a b = i64 (sgn a * sgn b * (\<bar>a\<bar> div \<bar>b\<bar>))"

definition rem64 :: "int64 \<Rightarrow> int64 \<Rightarrow> int64" where
  "rem64 a b = sgn a * (\<bar>a\<bar> mod \<bar>b\<bar>)"

definition Millisecond :: int64 where "Millisecond = 1000000"
definition baseDuration :: int64 where "baseDuration = 100 * Millisecond"
definition maxDuration :: int64 where "maxDuration = 2 ^ 63 - 1"

definition ceilBillDuration :: "int64 \<Rightarrow> int64" where
  "ceilBillDuration d =
     (let r = rem64 d baseDuration
      in if r = 0 then d
         else let d1 = i64 (i64 (d + baseDuration) - r) in if d < d1 then d1 else maxDuration)"

text \<open>A buffered signal channel is the number of tokens in it. The log store of a request is modelled
  by what it reports of the memory used.\<close>

record RequestInfo =
  RequestID_rq :: string
  InvokeStartTimeNS :: int64
  InvokeStartTimeMS :: int64
  InitStartTimeMS :: int64
  InitDoneTimeMS :: int64
  InvokeDoneTimeMS :: int64
  InvokeDurationMS :: int64
  BilledDurationMS :: int64
  MaxMemUsedBytes :: int64
  MemorySpecSize :: int64
  TriggerType_rq :: string
  enableUserLog :: bool
  Status_rq :: RequestStatus
  FuncResult :: string
  FuncError :: string
  ErrorInfo :: string
  MemUsed_rq :: "int64 option"
  SyncChannel :: nat
  TimeoutChannel :: nat

definition NewRequestInfo :: "instant \<Rightarrow> string \<Rightarrow> RequestInfo" where
  "NewRequestInfo now requestID =
     \<lparr>RequestID_rq = requestID, InvokeStartTimeNS = i64 now, InvokeStartTimeMS = quot64 (i64 now) Millisecond,
      InitStartTimeMS = 0, InitDoneTimeMS = 0, InvokeDoneTimeMS = 0, InvokeDurationMS = 0, BilledDurationMS = 0,
      MaxMemUsedBytes = 0, MemorySpecSize = 0, TriggerType_rq = '''', enableUserLog = False, Status_rq = StatusNormal,
      FuncResult = '''', FuncError = '''', ErrorInfo = '''', MemUsed_rq = None, SyncChannel = 0, TimeoutChannel = 0\<rparr>"

definition rq_SetInitTime :: "int64 \<Rightarrow> int64 \<Rightarrow> RequestInfo \<Rightarrow> RequestInfo" where
  "rq_SetInitTime preInit postInit q = q\<lparr>InitStartTimeMS := preInit, InitDoneTimeMS := postInit\<rparr>"

definition CleanOutput :: "RequestInfo \<Rightarrow> RequestInfo" where
  "CleanOutput q = q\<lparr>FuncResult := '''', FuncError := ''''\<rparr>"

definition InvokeResult :: "RequestStatus \<Rightarrow> string \<Rightarrow> RequestInfo \<Rightarrow> RequestInfo" where
  "InvokeResult status result q =
     (if Status_rq q \<noteq> StatusRunning then q
      else let q1 = q\<lparr>Status_rq := status\<rparr>
           in if status = StatusSuccess then q1\<lparr>FuncResult := result\<rparr>
              else q1\<lparr>FuncError := ''Unhandled'', ErrorInfo := result\<rparr>)"

definition rq_InvokeDone :: "instant \<Rightarrow> bool \<Rightarrow> RequestInfo \<Rightarrow> RequestInfo" where
  "rq_InvokeDone now concurrent q =
     (let done_ms = quot64 (i64 now) Millisecond;
          dur = i64 (i64 (done_ms - InvokeStartTimeMS q) * Millisecond);
          q1 = q\<lparr>InvokeDoneTimeMS := done_ms, InvokeDurationMS := dur\<rparr>;
          q2 = (case MemUsed_rq q of None \<Rightarrow> q1 | Some mem \<Rightarrow> q1\<lparr>MaxMemUsedBytes := mem\<rparr>)
      in if \<not> concurrent then q2\<lparr>BilledDurationMS := ceilBillDuration dur\<rparr> else q2)"

definition getInvokeMode :: "RuntimeInfo option \<Rightarrow> string" where
  "getInvokeMode rt = (case rt of Some info \<Rightarrow> if ConcurrentMode info then ''concurrent'' else ''common'' | None \<Rightarrow> ''common'')"

definition getResponseStatus :: "RequestInfo \<Rightarrow> int" where
  "getResponseStatus q = (if Status_rq q = StatusSuccess then 200 else 500)"

text \<open>A send on a channel of capacity one that never blocks.\<close>

definition Notify :: "RequestInfo \<Rightarrow> RequestInfo" where
  "Notify q = (if SyncChannel q = 0 then q\<lparr>SyncChannel := 1\<rparr> else q)"

section \<open>The world\<close>

record rt_world =
  rt_w :: RuntimeInfo
  reqs_w :: "nat \<Rightarrow> RequestInfo"

definition upd_req :: "nat \<Rightarrow> (RequestInfo \<Rightarrow> RequestInfo) \<Rightarrow> rt_world \<Rightarrow> rt_world" where
  "upd_req a f w = w\<lparr>reqs_w := (reqs_w w)(a := f (reqs_w w a))\<rparr>"

definition loadRequest :: "string \<Rightarrow> rt_world \<Rightarrow> nat option" where
  "loadRequest requestID w = requestMap (rt_w w) requestID"

section \<open>Starting\<close>

text \<open>\<open>v, _ := strconv.ParseInt(s, 10, 64)\<close>: zero for a text that is no number, the nearest bound for a
  number out of range.\<close>

definition ParseInt10 :: "string \<Rightarrow> int64" where
  "ParseInt10 s =
     (let (neg, ds) = (case s of c # cs \<Rightarrow> if c = CHR ''-'' then (True, cs) else if c = CHR ''+'' then (False, cs) else (False, s)
                        | [] \<Rightarrow> (False, s));
          v = int (digits_value ds)
      in if ds = [] \<or> \<not> list_all is_digit_char ds then 0
         else if neg then max (- (2 ^ 63)) (- v) else min (2 ^ 63 - 1) v)"

record startRuntimeParams =
  commitID_sp :: string
  initstart_sp :: string
  initdone_sp :: string
  concurrentmode_sp :: string
  conn_sp :: nat

definition getHTTPClient :: "RuntimeInfo \<Rightarrow> string" where
  "getHTTPClient info = ''/var/run/faas/'' @ RuntimeID info @ ''/.runtime-http.sock''"

definition sendRequestLoop :: "startRuntimeParams \<Rightarrow> RuntimeInfo \<Rightarrow> RuntimeInfo" where
  "sendRequestLoop params info =
     (if \<not> WithStreamMode info
      then info\<lparr>runtimeConn := Some (OpenConn (conn_sp params)), runtimeWaitGroup := runtimeWaitGroup info + 1\<rparr>
      else (if httpClient info = None then info\<lparr>httpClient := Some (getHTTPClient info)\<rparr> else info)
             \<lparr>runtimeWaitGroup := runtimeWaitGroup info + 1\<rparr>)"

definition close_of_closed :: string where "close_of_closed = ''close of closed channel''"

definition initRuntime :: "startRuntimeParams \<Rightarrow> RuntimeInfo \<Rightarrow> (string + RuntimeInfo) outcome" where
  "initRuntime params info =
     (let preInit = ParseInt10 (initstart_sp params); postInit = ParseInt10 (initdone_sp params)
      in if State info \<noteq> RuntimeStateCold \<and> State info \<noteq> RuntimeStateWarmUp then Value (Inl ''duplicate runtime'')
         else let info1 = (if CommitID info = [] then SetCommitID (commitID_sp params) info else info)
              in if CommitID info1 \<noteq> commitID_sp params
                 then Value (Inl (''commit id '' @ CommitID info1 @ '' is not equal to '' @ commitID_sp params))
                 else let info2 = (if ConcurrentMode info1 = True \<and> concurrentmode_sp params = ''false''
                                   then info1\<lparr>ConcurrentMode := False\<rparr> else info1);
                          info3 = SetUsed True (SetState RuntimeStateWarm (SetInitTime preInit postInit info2));
                          info4 = (if WithStreamMode info3
                                   then info3\<lparr>httpRequestChan := Some [], httpResponseChan := Some [],
                                              retryDeadline := i64 (WaitRuntimeAliveTimeout info3 * 1000000000)\<rparr>
                                   else info3\<lparr>requestChan := Some []\<rparr>);
                          info5 = sendRequestLoop params (info4\<lparr>runtimeStopChan_closed := False, runtimeStoppingChan_closed := False\<rparr>)
                      in if runtimeRunChan_closed info5 then Panic close_of_closed
                         else Value (Inr (info5\<lparr>runtimeRunChan_closed := True\<rparr>)))"

text \<open>\<open>startRuntimeLoop\<close> up to the first wait of the response loop.\<close>

definition startRuntimeLoop :: "startRuntimeParams \<Rightarrow> RuntimeInfo \<Rightarrow> (string + RuntimeInfo) outcome" where
  "startRuntimeLoop params info = obind (initRuntime params info) (\<lambda>r. case r of
     Inl err \<Rightarrow> Value (Inl err)
   | Inr info' \<Rightarrow> Value (Inr (info'\<lparr>runtimeWaitGroup := runtimeWaitGroup info' + 1\<rparr>)))"

section \<open>Serving requests\<close>

definition InvokeFunc :: "nat \<Rightarrow> InvokeRequest \<Rightarrow> rt_world \<Rightarrow> string option \<times> rt_world" where
  "InvokeFunc a invokeReq w =
     (let info = (rt_w w)\<lparr>requestMap := (requestMap (rt_w w))(RequestID_rq (reqs_w w a) \<mapsto> a)\<rparr>
      in case requestChan info of
          Some q \<Rightarrow> if length q < 100 then (None, w\<lparr>rt_w := info\<lparr>requestChan := Some (q @ [invokeReq])\<rparr>\<rparr>)
                    else (Some ''request queue is full'', w\<lparr>rt_w := info\<rparr>)
        | None \<Rightarrow> (Some ''request queue is full'', w\<lparr>rt_w := info\<rparr>))"

definition InvokeHTTPFunc :: "nat \<Rightarrow> InvokeHTTPRequest \<Rightarrow> rt_world \<Rightarrow> string option \<times> rt_world" where
  "InvokeHTTPFunc a invokeReq w =
     (let info = (rt_w w)\<lparr>requestMap := (requestMap (rt_w w))(RequestID_rq (reqs_w w a) \<mapsto> a)\<rparr>
      in case httpRequestChan info of
          Some q \<Rightarrow> if length q < 100 then (None, w\<lparr>rt_w := info\<lparr>httpRequestChan := Some (q @ [invokeReq])\<rparr>\<rparr>)
                    else (Some ''request queue is full'', w\<lparr>rt_w := info\<rparr>)
        | None \<Rightarrow> (Some ''request queue is full'', w\<lparr>rt_w := info\<rparr>))"

definition process_exited :: "string \<Rightarrow> string" where
  "process_exited i = ''RequestID: '' @ i @ '' Process exited before completing request''"

text \<open>One turn of \<open>sendGenericRequestLoop\<close>: the next request is taken; \<open>ok\<close> says whether it could be
  written to the connection. Nothing happens while the queue is empty.\<close>

definition send_generic :: "bool \<Rightarrow> rt_world \<Rightarrow> rt_world" where
  "send_generic ok w = (case requestChan (rt_w w) of
     Some (request # rest) \<Rightarrow>
       let w1 = w\<lparr>rt_w := (rt_w w)\<lparr>requestChan := Some rest\<rparr>\<rparr>
       in if ok then w1
          else (case loadRequest (RequestID_ir request) w1 of
              None \<Rightarrow> w1
            | Some a \<Rightarrow> upd_req a (\<lambda>q. Notify (InvokeResult StatusFailed (process_exited (RequestID_ir request)) q)) w1)
   | _ \<Rightarrow> w)"

definition rt_InvokeDone :: "nat \<Rightarrow> bool \<Rightarrow> rt_world \<Rightarrow> rt_world" where
  "rt_InvokeDone a signal w =
     (let i = RequestID_rq (reqs_w w a)
      in if requestMap (rt_w w) i = None then w
         else let w1 = (if signal then upd_req a Notify w else w);
                  info = rt_w w1;
                  info1 = (if Status_rq (reqs_w w1 a) = StatusSuccess then info\<lparr>AcceptReqCnt := i64 (AcceptReqCnt info + 1)\<rparr>
                           else if Status_rq (reqs_w w1 a) = StatusFailed then info\<lparr>RejectReqCnt := i64 (RejectReqCnt info + 1)\<rparr>
                           else info)
              in w1\<lparr>rt_w := info1\<lparr>requestMap := (requestMap info1)(i := None)\<rparr>\<rparr>)"

definition handleInvokeDone :: "instant \<Rightarrow> string \<Rightarrow> bool \<Rightarrow> string \<Rightarrow> rt_world \<Rightarrow> bool \<times> rt_world" where
  "handleInvokeDone now requestID success data w = (case loadRequest requestID w of
     None \<Rightarrow> (False, w)
   | Some a \<Rightarrow>
       let status = (if success then StatusSuccess else StatusFailed);
           w1 = upd_req a (\<lambda>q. rq_InvokeDone now (ConcurrentMode (rt_w w)) (InvokeResult status data q)) w
       in (True, rt_InvokeDone a True w1))"

text \<open>One answer read by \<open>recvGenericResponseLoop\<close>.\<close>

record InvokeResponse =
  RequestID_is :: string
  Success_is :: bool
  FuncResult_is :: string
  FuncError_is :: string

definition recv_generic :: "instant \<Rightarrow> InvokeResponse \<Rightarrow> rt_world \<Rightarrow> rt_world" where
  "recv_generic now output w =
     (if Success_is output then snd (handleInvokeDone now (RequestID_is output) True (FuncResult_is output) w)
      else snd (handleInvokeDone now (RequestID_is output) False (FuncError_is output) w))"

text \<open>One turn of \<open>sendHTTPRequestLoop\<close>. The inner loop ends when the deadline for the runtime passes, when the
  request is cancelled, or when the runtime answers; each of the three looks at the request object,
  which is nil when the request is no longer in the map.\<close>

datatype http_end = Http_deadline string | Http_cancelled | Http_answered InvokeHTTPResponse

definition send_http :: "instant \<Rightarrow> http_end \<Rightarrow> rt_world \<Rightarrow> rt_world outcome" where
  "send_http now e w = (case httpRequestChan (rt_w w) of
     Some (request # rest) \<Rightarrow>
       let w1 = w\<lparr>rt_w := (rt_w w)\<lparr>httpRequestChan := Some rest\<rparr>\<rparr>
       in (case loadRequest (RequestID_hr request) w1 of
            None \<Rightarrow> Panic nil_dereference
          | Some a \<Rightarrow> (case e of
              Http_deadline msg \<Rightarrow> Value (upd_req a (\<lambda>q. Notify (InvokeResult StatusTimeout msg q)) w1)
            | Http_cancelled \<Rightarrow> Value (upd_req a (\<lambda>q. q\<lparr>TimeoutChannel := TimeoutChannel q - 1\<rparr>) w1)
            | Http_answered resp \<Rightarrow>
                let w2 = upd_req a (rq_InvokeDone now (ConcurrentMode (rt_w w))) w1
                in Value (w2\<lparr>rt_w := (rt_w w2)\<lparr>httpResponseChan := map_option (\<lambda>q. q @ [resp]) (httpResponseChan (rt_w w2))\<rparr>\<rparr>)))
   | _ \<Rightarrow> Value w)"

definition Wait :: "RuntimeInfo \<Rightarrow> RuntimeInfo \<Rightarrow> bool" where
  "Wait before after_wait = (if State before = RuntimeStateWarm then True
     else if State after_wait = RuntimeStateWarm then True else False)"

section \<open>Stopping\<close>

text \<open>The requests still in the map are visited in the order \<open>ids\<close>.\<close>

definition fail_request :: "string \<Rightarrow> rt_world \<Rightarrow> rt_world" where
  "fail_request i w = (case requestMap (rt_w w) i of
     None \<Rightarrow> w
   | Some a \<Rightarrow> upd_req a (\<lambda>q. Notify (InvokeResult StatusFailed (process_exited i) q)) w)"

definition stopRuntime :: "string list \<Rightarrow> rt_world \<Rightarrow> rt_world outcome" where
  "stopRuntime ids w =
     (let w1 = w\<lparr>rt_w := (rt_w w)\<lparr>PreLoadTimeMS := 0, PostLoadTimeMS := 0, PreInitTimeMS := 0, PostInitTimeMS := 0,
                   AcceptReqCnt := 0, RejectReqCnt := 0, Concurrency := 0\<rparr>\<rparr>;
          w2 = fold fail_request ids w1;
          info = (rt_w w2)\<lparr>requestMap := Map.empty\<rparr>
      in if runtimeStopChan_closed info then Panic close_of_closed
         else obind (if \<not> WithStreamMode info
                     then (case runtimeConn info of None \<Rightarrow> Panic nil_dereference
                           | Some c \<Rightarrow> Value (info\<lparr>runtimeStopChan_closed := True, runtimeConn := Some (Close_conn c)\<rparr>))
                     else Value (info\<lparr>runtimeStopChan_closed := True, httpClient := None\<rparr>)) (\<lambda>info1.
              Value (w2\<lparr>rt_w := SetState RuntimeStateStopped
                (updateStreamMode False (info1\<lparr>runtimeWaitGroup := 0, runtimeRunChan_closed := False\<rparr>))\<rparr>)))"

section \<open>The runner\<close>

text \<open>\<open>RebootWait\<close> returns when no reset is under way.\<close>

definition initRunner :: "nat \<Rightarrow> RuntimeInfo \<Rightarrow> string + RuntimeInfo" where
  "initRunner conn info =
     (if State info \<noteq> RuntimeStateClosed then Inl ''duplicate runner''
      else Inr ((SetState RuntimeStateCold info)\<lparr>runnerConn := Some (OpenConn conn), Abnormal := False\<rparr>))"

definition stopRunner :: "RuntimeInfo \<Rightarrow> RuntimeInfo outcome" where
  "stopRunner info = (case runnerConn info of
     None \<Rightarrow> Panic nil_dereference
   | Some c \<Rightarrow>
       let info1 = info\<lparr>runnerConn := Some (Close_conn c)\<rparr>
       in if State info1 = RuntimeStateMerged \<or> State info1 = RuntimeStateReclaiming then Value info1
          else Value (SetState RuntimeStateClosed info1))"

definition runnerUpdate :: "instant \<Rightarrow> RuntimeInfo \<Rightarrow> RuntimeInfo" where
  "runnerUpdate now info = updateLastLivenessTime now info"

section \<open>The life cycle as a state machine\<close>

text \<open>What can happen to a runtime: a runtime process connects, requests are queued, written and answered,
  the caller of a request gives up or cleans up, the connection ends, the manager fires an event, a slot
  is released, and the runner connects, reports and disconnects.\<close>

datatype rt_event =
    EvStart startRuntimeParams
  | EvInvoke nat InvokeRequest
  | EvSend bool
  | EvRecv instant InvokeResponse
  | EvTimeout nat
  | EvCleanup nat
  | EvStop "string list"
  | EvCas CASOpType cas_args instant res_heap
  | EvRelease
  | EvInvalidate
  | EvRunnerInit nat
  | EvRunnerUpdate instant
  | EvRunnerStop

definition set_rt :: "rt_world \<Rightarrow> RuntimeInfo \<Rightarrow> rt_world" where
  "set_rt w info = w\<lparr>rt_w := info\<rparr>"

fun rt_step :: "rt_event \<Rightarrow> rt_world \<Rightarrow> rt_world outcome" where
  "rt_step (EvStart params) w = obind (startRuntimeLoop params (rt_w w)) (\<lambda>r. case r of Inl _ \<Rightarrow> Value w | Inr info \<Rightarrow> Value (set_rt w info))"
| "rt_step (EvInvoke a req) w = Value (snd (InvokeFunc a req w))"
| "rt_step (EvSend ok) w = Value (send_generic ok w)"
| "rt_step (EvRecv now output) w = Value (recv_generic now output w)"
| "rt_step (EvTimeout a) w = Value (upd_req a (InvokeResult StatusTimeout ''Invoke timeout.'') w)"
| "rt_step (EvCleanup a) w = Value (rt_InvokeDone a False w)"
| "rt_step (EvStop ids) w = stopRuntime ids w"
| "rt_step (EvCas op args now h) w = obind (CAS op args now h (rt_w w)) (\<lambda>r. case r of Inl _ \<Rightarrow> Value w | Inr (_, info) \<Rightarrow> Value (set_rt w info))"
| "rt_step EvRelease w = (case Release (rt_w w) of Inl _ \<Rightarrow> Value w | Inr info \<Rightarrow> Value (set_rt w info))"
| "rt_step EvInvalidate w = Value (set_rt w (Invalidate (rt_w w)))"
| "rt_step (EvRunnerInit c) w = (case initRunner c (rt_w w) of Inl _ \<Rightarrow> Value w | Inr info \<Rightarrow> Value (set_rt w info))"
| "rt_step (EvRunnerUpdate now) w = Value (set_rt w (runnerUpdate now (rt_w w)))"
| "rt_step EvRunnerStop w = obind (stopRunner (rt_w w)) (\<lambda>info. Value (set_rt w info))"

text \<open>When it can happen: \<open>stopRuntime\<close> is the end of a response loop, so the loops are running, and visits the
  pending requests; the runner's end waits for the loops and follows its start; the manager's events
  carry the arguments of their kind.\<close>

fun enabled :: "rt_event \<Rightarrow> rt_world \<Rightarrow> bool" where
  "enabled (EvStop ids) w = (runtimeWaitGroup (rt_w w) = 2 \<and> distinct ids \<and> set ids = dom (requestMap (rt_w w)))"
| "enabled (EvCas op args now h) w = args_fit op args"
| "enabled EvRunnerStop w = (runtimeWaitGroup (rt_w w) = 0 \<and> runnerConn (rt_w w) \<noteq> None)"
| "enabled _ w = True"

inductive reachable_from :: "rt_world \<Rightarrow> rt_world \<Rightarrow> bool" for w0 where
  reach_refl: "reachable_from w0 w0"
| reach_step: "reachable_from w0 w \<Longrightarrow> enabled e w \<Longrightarrow> rt_step e w = Value w' \<Longrightarrow> reachable_from w0 w'"

definition serving :: "RuntimeInfo \<Rightarrow> bool" where
  "serving info \<longleftrightarrow> State info = RuntimeStateWarm \<or> State info = RuntimeStateStopping"

text \<open>The channels fit the state: while a runtime serves, its loops run and wait on an open stop channel and
  the waiting requests have been woken; otherwise nothing runs and the run channel is open.\<close>

definition chan_inv :: "RuntimeInfo \<Rightarrow> bool" where
  "chan_inv info \<longleftrightarrow> Resource info \<noteq> None
     \<and> (if serving info
        then runtimeRunChan_closed info \<and> \<not> runtimeStopChan_closed info \<and> runtimeWaitGroup info = 2
          \<and> (\<not> WithStreamMode info \<longrightarrow> runtimeConn info \<noteq> None)
        else \<not> runtimeRunChan_closed info \<and> runtimeWaitGroup info = 0)
     \<and> (State info = RuntimeStateWarm \<longrightarrow> \<not> runtimeStoppingChan_closed info)"

text \<open>The fields the channel invariant looks at.\<close>

definition same_chans :: "RuntimeInfo \<Rightarrow> RuntimeInfo \<Rightarrow> bool" where
  "same_chans i j \<longleftrightarrow> Resource j = Resource i \<and> State j = State i \<and> runtimeRunChan_closed j = runtimeRunChan_closed i
     \<and> runtimeStopChan_closed j = runtimeStopChan_closed i \<and> runtimeWaitGroup j = runtimeWaitGroup i
     \<and> WithStreamMode j = WithStreamMode i \<and> runtimeConn j = runtimeConn i
     \<and> runtimeStoppingChan_closed j = runtimeStoppingChan_closed i"

lemma same_chans_inv: "same_chans i j \<Longrightarrow> chan_inv j = chan_inv i"
  by (simp add: same_chans_def chan_inv_def serving_def)

lemma upd_req_rt [simp]: "rt_w (upd_req a f w) = rt_w w"
  by (simp add: upd_req_def)

lemma set_rt_simps [simp]: "rt_w (set_rt w i) = i" "reqs_w (set_rt w i) = reqs_w w"
  by (simp_all add: set_rt_def)

lemma fail_request_rt [simp]: "rt_w (fail_request i w) = rt_w w"
  by (simp add: fail_request_def split: option.splits)

lemma fold_fail_request_rt [simp]: "rt_w (fold fail_request ids w) = rt_w w"
  by (induction ids arbitrary: w) simp_all

lemma request_steps_same_chans:
  "same_chans (rt_w w) (rt_w (snd (InvokeFunc a req w)))"
  "same_chans (rt_w w) (rt_w (send_generic ok w))"
  "same_chans (rt_w w) (rt_w (rt_InvokeDone a b w))"
  by (auto simp: same_chans_def InvokeFunc_def send_generic_def rt_InvokeDone_def Let_def
      split: option.splits list.splits if_splits)

lemma recv_same_chans: "same_chans (rt_w w) (rt_w (recv_generic now output w))"
  using request_steps_same_chans(3)
  by (auto simp: recv_generic_def handleInvokeDone_def Let_def same_chans_def split: option.splits)

lemmas field_if = if_distrib [of State] if_distrib [of Resource] if_distrib [of runtimeRunChan_closed] if_distrib [of runtimeStopChan_closed]
  if_distrib [of runtimeStoppingChan_closed] if_distrib [of runtimeWaitGroup] if_distrib [of WithStreamMode] if_distrib [of runtimeConn]
  if_distrib [of requestMap]

lemma sendRequestLoop_fields [simp]:
  "State (sendRequestLoop params info) = State info" "Resource (sendRequestLoop params info) = Resource info"
  "runtimeRunChan_closed (sendRequestLoop params info) = runtimeRunChan_closed info"
  "runtimeStopChan_closed (sendRequestLoop params info) = runtimeStopChan_closed info"
  "runtimeStoppingChan_closed (sendRequestLoop params info) = runtimeStoppingChan_closed info"
  "runtimeWaitGroup (sendRequestLoop params info) = runtimeWaitGroup info + 1"
  "WithStreamMode (sendRequestLoop params info) = WithStreamMode info" "requestMap (sendRequestLoop params info) = requestMap info"
  "\<not> WithStreamMode info \<Longrightarrow> runtimeConn (sendRequestLoop params info) = Some (OpenConn (conn_sp params))"
  by (simp_all add: sendRequestLoop_def field_if)

lemma startRuntimeLoop_run:
  assumes "startRuntimeLoop params info = Value (Inr info')"
  shows "State info \<in> {RuntimeStateCold, RuntimeStateWarmUp}" "State info' = RuntimeStateWarm" "runtimeRunChan_closed info'"
    "\<not> runtimeStopChan_closed info'" "\<not> runtimeStoppingChan_closed info'" "runtimeWaitGroup info' = runtimeWaitGroup info + 2"
    "Resource info' = Resource info" "requestMap info' = requestMap info" "\<not> WithStreamMode info' \<Longrightarrow> runtimeConn info' \<noteq> None"
proof -
  obtain info0 where i0: "initRuntime params info = Value (Inr info0)" and i': "info' = info0\<lparr>runtimeWaitGroup := runtimeWaitGroup info0 + 1\<rparr>"
  proof -
    obtain r where "initRuntime params info = Value r"
        "(case r of Inl err \<Rightarrow> Value (Inl err) | Inr i \<Rightarrow> Value (Inr (i\<lparr>runtimeWaitGroup := runtimeWaitGroup i + 1\<rparr>))) = Value (Inr info')"
      using assms unfolding startRuntimeLoop_def obind_Value_conv by blast
    then show thesis using that by (cases r) auto
  qed
  have st: "State info = RuntimeStateCold \<or> State info = RuntimeStateWarmUp"
    using i0 by (auto simp: initRuntime_def Let_def split: if_splits)
  have eq: "\<exists>c m. info0 = (sendRequestLoop params ((if WithStreamMode info
        then (SetUsed True (SetState RuntimeStateWarm (SetInitTime (ParseInt10 (initstart_sp params)) (ParseInt10 (initdone_sp params))
               (info\<lparr>CommitID := c, ConcurrentMode := m\<rparr>))))\<lparr>httpRequestChan := Some [], httpResponseChan := Some [],
               retryDeadline := i64 (WaitRuntimeAliveTimeout info * 1000000000)\<rparr>
        else (SetUsed True (SetState RuntimeStateWarm (SetInitTime (ParseInt10 (initstart_sp params)) (ParseInt10 (initdone_sp params))
               (info\<lparr>CommitID := c, ConcurrentMode := m\<rparr>))))\<lparr>requestChan := Some []\<rparr>)
        \<lparr>runtimeStopChan_closed := False, runtimeStoppingChan_closed := False\<rparr>))\<lparr>runtimeRunChan_closed := True\<rparr>"
  proof -
    define i1 where "i1 = (if CommitID info = [] then SetCommitID (commitID_sp params) info else info)"
    define i2 where "i2 = (if ConcurrentMode i1 = True \<and> concurrentmode_sp params = ''false'' then i1\<lparr>ConcurrentMode := False\<rparr> else i1)"
    have "i2 = info\<lparr>CommitID := CommitID i2, ConcurrentMode := ConcurrentMode i2\<rparr>"
      by (simp add: i2_def i1_def SetCommitID_def)
    moreover have "WithStreamMode i2 = WithStreamMode info" "WaitRuntimeAliveTimeout i2 = WaitRuntimeAliveTimeout info"
      by (simp_all add: i2_def i1_def SetCommitID_def)
    ultimately show ?thesis
      using i0 st unfolding initRuntime_def Let_def i1_def [symmetric] i2_def [symmetric]
      by (auto simp: rtinfo_defs split: if_splits) metis+
  qed
  then show "State info \<in> {RuntimeStateCold, RuntimeStateWarmUp}" "State info' = RuntimeStateWarm" "runtimeRunChan_closed info'"
    "\<not> runtimeStopChan_closed info'" "\<not> runtimeStoppingChan_closed info'" "runtimeWaitGroup info' = runtimeWaitGroup info + 2"
    "Resource info' = Resource info" "requestMap info' = requestMap info" "\<not> WithStreamMode info' \<Longrightarrow> runtimeConn info' \<noteq> None"
    using st by (auto simp: i' rtinfo_defs field_if)
qed

lemma start_chan_inv:
  assumes "chan_inv info"
  shows "\<exists>r. startRuntimeLoop params info = Value r \<and> (\<forall>info'. r = Inr info' \<longrightarrow> chan_inv info' \<and> State info' = RuntimeStateWarm)"
proof -
  have "\<exists>r. startRuntimeLoop params info = Value r"
    using assms by (simp add: startRuntimeLoop_def initRuntime_def Let_def rtinfo_defs field_if chan_inv_def serving_def split: if_splits)
      auto
  then obtain r where r: "startRuntimeLoop params info = Value r" by blast
  have "chan_inv info' \<and> State info' = RuntimeStateWarm" if "r = Inr info'" for info'
    using startRuntimeLoop_run [of params info info'] r that assms by (auto simp: chan_inv_def serving_def split: if_splits)
  then show ?thesis using r by blast
qed

text \<open>What \<open>stopRuntime\<close> leaves: the pending requests failed, the map empty, everything closed.\<close>

lemma stopRuntime_run:
  assumes "stopRuntime ids w = Value w'"
  shows "reqs_w w' = reqs_w (fold fail_request ids w)" "requestMap (rt_w w') = Map.empty"
    "State (rt_w w') = RuntimeStateStopped" "Concurrency (rt_w w') = 0" "Resource (rt_w w') = Resource (rt_w w)"
    "\<not> runtimeRunChan_closed (rt_w w')" "runtimeWaitGroup (rt_w w') = 0" "runtimeStopChan_closed (rt_w w')"
proof -
  let ?w1 = "w\<lparr>rt_w := (rt_w w)\<lparr>PreLoadTimeMS := 0, PostLoadTimeMS := 0, PreInitTimeMS := 0, PostInitTimeMS := 0,
      AcceptReqCnt := 0, RejectReqCnt := 0, Concurrency := 0\<rparr>\<rparr>"
  have reqs: "reqs_w (fold fail_request ids v) = reqs_w (fold fail_request ids u)"
    if "reqs_w v = reqs_w u" "requestMap (rt_w v) = requestMap (rt_w u)" for v u
    using that
  proof (induction ids arbitrary: v u)
    case (Cons i ids)
    have "reqs_w (fail_request i v) = reqs_w (fail_request i u)"
      using Cons.prems by (simp add: fail_request_def upd_req_def split: option.splits)
    then show ?case using Cons.IH [of "fail_request i v" "fail_request i u"] Cons.prems by simp
  qed simp
  have "reqs_w (fold fail_request ids ?w1) = reqs_w (fold fail_request ids w)" by (rule reqs) simp_all
  then show "reqs_w w' = reqs_w (fold fail_request ids w)" "requestMap (rt_w w') = Map.empty"
    "State (rt_w w') = RuntimeStateStopped" "Concurrency (rt_w w') = 0" "Resource (rt_w w') = Resource (rt_w w)"
    "\<not> runtimeRunChan_closed (rt_w w')" "runtimeWaitGroup (rt_w w') = 0" "runtimeStopChan_closed (rt_w w')"
    using assms by (auto simp: stopRuntime_def Let_def rtinfo_defs outcome_simps split: if_splits option.splits)
qed

lemma stop_chan_inv:
  assumes "chan_inv (rt_w w)" "runtimeWaitGroup (rt_w w) = 2"
  shows "\<exists>w'. stopRuntime ids w = Value w' \<and> chan_inv (rt_w w') \<and> State (rt_w w') = RuntimeStateStopped"
proof -
  have "\<exists>w'. stopRuntime ids w = Value w'"
    using assms by (auto simp: stopRuntime_def Let_def chan_inv_def serving_def split: if_splits)
  then obtain w' where w': "stopRuntime ids w = Value w'" by blast
  show ?thesis using stopRuntime_run [OF w'] w' assms by (auto simp: chan_inv_def serving_def)
qed

lemma CAS_frame:
  assumes "CAS op args now h info = Value (Inr (h', info'))"
  shows "runtimeConn info' = runtimeConn info" "requestMap info' = requestMap info"
    "serving info \<Longrightarrow> WithStreamMode info' = WithStreamMode info"
    "State info' = RuntimeStateWarm \<Longrightarrow> runtimeStoppingChan_closed info' = runtimeStoppingChan_closed info"
  using assms
  by (cases op; cases args; auto simp: CAS_eq_locked CAS_locked_def run_check_def run_set_def conversion_panic_def serving_def cas_exact
      split: if_splits option.splits)+

lemma CAS_chan_inv:
  assumes "chan_inv info" "CAS op args now h info = Value (Inr (h', info'))"
  shows "chan_inv info'"
proof -
  have "cas_edge op (State info) (State info')" "same_identity info info'"
    using CAS_locked_run assms(2) unfolding CAS_eq_locked by blast+
  then show ?thesis
    using CAS_frame [OF assms(2)] assms(1)
    by (cases op) (auto simp: chan_inv_def same_identity_def serving_def split: if_splits)
qed

lemma runner_chan_inv:
  "chan_inv info \<Longrightarrow> initRunner c info = Inr info' \<Longrightarrow> chan_inv info'"
  "chan_inv info \<Longrightarrow> runtimeWaitGroup info = 0 \<Longrightarrow> stopRunner info = Value info' \<Longrightarrow> chan_inv info'"
  "chan_inv (Invalidate info) = chan_inv info" "chan_inv (runnerUpdate now info) = chan_inv info"
  by (auto simp: initRunner_def stopRunner_def chan_inv_def serving_def rtinfo_defs Let_def Invalidate_def runnerUpdate_def
      split: if_splits option.splits)

lemma rt_step_chan_inv:
  assumes "chan_inv (rt_w w)" "enabled e w"
  shows "\<exists>w'. rt_step e w = Value w' \<and> chan_inv (rt_w w')"
proof (cases e)
  case (EvStart params)
  obtain r where r: "startRuntimeLoop params (rt_w w) = Value r" "\<forall>info'. r = Inr info' \<longrightarrow> chan_inv info' \<and> State info' = RuntimeStateWarm"
    using start_chan_inv [OF assms(1)] by blast
  then show ?thesis using EvStart assms(1) by (cases r) auto
next
  case (EvStop ids)
  then have "runtimeWaitGroup (rt_w w) = 2" using assms(2) by simp
  from stop_chan_inv [OF assms(1) this, of ids] show ?thesis unfolding EvStop rt_step.simps by blast
next
  case (EvCas op args now h)
  have "returns (CAS op args now h (rt_w w))"
    using assms EvCas by (intro CAS_returns) (auto simp: chan_inv_def)
  then obtain r where r: "CAS op args now h (rt_w w) = Value r" by (rule returnsE)
  show ?thesis
  proof (cases r)
    case (Inr p)
    then show ?thesis using EvCas r CAS_chan_inv [OF assms(1)] by (cases p) auto
  qed (use EvCas r assms(1) in auto)
next
  case EvRelease
  then show ?thesis using assms(1) by (auto simp: Release_def chan_inv_def serving_def)
next
  case (EvRunnerInit c)
  then show ?thesis using assms(1) runner_chan_inv(1) [OF assms(1)] by (auto split: sum.splits)
next
  case EvRunnerStop
  then obtain c where "runnerConn (rt_w w) = Some c" "runtimeWaitGroup (rt_w w) = 0" using assms(2) by auto
  then show ?thesis using EvRunnerStop runner_chan_inv(2) [OF assms(1)] by (auto simp: stopRunner_def Let_def outcome_simps)
qed (simp_all add: assms(1) request_steps_same_chans [THEN same_chans_inv] recv_same_chans [THEN same_chans_inv] runner_chan_inv(3,4))

section \<open>Results are given once\<close>

definition settled :: "RequestInfo \<Rightarrow> bool" where
  "settled q \<longleftrightarrow> Status_rq q \<in> {StatusSuccess, StatusFailed, StatusTimeout}"

definition same_result :: "RequestInfo \<Rightarrow> RequestInfo \<Rightarrow> bool" where
  "same_result p q \<longleftrightarrow> RequestID_rq q = RequestID_rq p \<and>
     (settled p \<longrightarrow> Status_rq q = Status_rq p \<and> FuncResult q = FuncResult p \<and> FuncError q = FuncError p \<and> ErrorInfo q = ErrorInfo p)
     \<and> (0 < SyncChannel p \<longrightarrow> 0 < SyncChannel q) \<and> (Status_rq p \<noteq> StatusRunning \<longrightarrow> Status_rq q = Status_rq p)"

lemma same_result_refl [simp]: "same_result q q"
  by (simp add: same_result_def)

lemma same_result_trans: "same_result p q \<Longrightarrow> same_result q r \<Longrightarrow> same_result p r"
  by (auto simp: same_result_def settled_def)

lemma result_ops [simp]:
  "same_result q (Notify q)" "same_result q (InvokeResult st msg q)" "same_result q (rq_InvokeDone now b q)"
  by (auto simp: same_result_def settled_def Notify_def InvokeResult_def rq_InvokeDone_def Let_def split: option.splits)

lemma result_ops2 [simp]:
  "same_result q (Notify (InvokeResult st msg q))" "same_result q (rq_InvokeDone now b (InvokeResult st msg q))"
  by (rule same_result_trans [OF result_ops(2) result_ops(1)], rule same_result_trans [OF result_ops(2) result_ops(3)])

lemma notified [simp]: "0 < SyncChannel (Notify q)" "Status_rq (Notify q) = Status_rq q"
  by (simp_all add: Notify_def)

lemma InvokeResult_settles: "st \<noteq> StatusRunning \<Longrightarrow> Status_rq (InvokeResult st msg q) \<noteq> StatusRunning"
  by (simp add: InvokeResult_def Let_def)

definition results_kept :: "rt_world \<Rightarrow> rt_world \<Rightarrow> bool" where
  "results_kept w w' \<longleftrightarrow> (\<forall>a. same_result (reqs_w w a) (reqs_w w' a))"

lemma results_kept_refl [simp]: "results_kept w w"
  by (simp add: results_kept_def)

lemma results_kept_trans: "results_kept w w' \<Longrightarrow> results_kept w' w'' \<Longrightarrow> results_kept w w''"
  unfolding results_kept_def by (blast intro: same_result_trans)

lemma results_kept_upd: "(\<And>q. same_result q (f q)) \<Longrightarrow> results_kept w (upd_req a f w)"
  by (simp add: results_kept_def upd_req_def)

lemma results_kept_rt [simp]: "results_kept w (w'\<lparr>rt_w := i\<rparr>) = results_kept w w'" "results_kept (w\<lparr>rt_w := i\<rparr>) w' = results_kept w w'"
  by (simp_all add: results_kept_def)

lemma results_kept_fail: "results_kept w (fold fail_request ids w)"
proof (induction ids arbitrary: w)
  case (Cons i ids)
  have "results_kept w (fail_request i w)"
    by (auto simp: fail_request_def intro!: results_kept_upd intro: same_result_trans split: option.splits)
  then show ?case using Cons.IH results_kept_trans by fastforce
qed simp

lemma results_kept_InvokeDone: "results_kept w (rt_InvokeDone a b w)"
  by (auto simp: rt_InvokeDone_def Let_def intro: results_kept_upd)

lemma results_kept_recv: "results_kept w (recv_generic now output w)"
proof -
  have "results_kept w (snd (handleInvokeDone now i ok msg w))" for i ok msg
    unfolding handleInvokeDone_def Let_def
    by (auto intro!: results_kept_trans [OF results_kept_upd results_kept_InvokeDone] intro: same_result_trans split: option.splits)
  then show ?thesis by (simp add: recv_generic_def)
qed

lemma sum_case_Value:
  "(case r of Inl x \<Rightarrow> Value (f x) | Inr y \<Rightarrow> Value (g y)) = Value z \<longleftrightarrow> (\<exists>x. r = Inl x \<and> z = f x) \<or> (\<exists>y. r = Inr y \<and> z = g y)"
  "(case s of Inl x \<Rightarrow> Value (f x) | Inr (a, b) \<Rightarrow> Value (h a b)) = Value z \<longleftrightarrow>
     (\<exists>x. s = Inl x \<and> z = f x) \<or> (\<exists>a b. s = Inr (a, b) \<and> z = h a b)"
  by (auto split: sum.split_asm prod.splits sum.splits)

lemma rt_step_results: "rt_step e w = Value w' \<Longrightarrow> results_kept w w'"
proof (cases e)
  case (EvSend ok)
  assume "rt_step e w = Value w'"
  then show ?thesis
    using EvSend by (auto simp: send_generic_def Let_def intro!: results_kept_upd results_kept_trans [OF _ results_kept_upd]
        intro: same_result_trans split: option.splits list.splits if_splits)
next
  case (EvStop ids)
  assume "rt_step e w = Value w'"
  then have "reqs_w w' = reqs_w (fold fail_request ids w)" using EvStop stopRuntime_run(1) by simp
  then show ?thesis using results_kept_fail [of w ids] by (simp add: results_kept_def)
qed (auto simp: outcome_simps sum_case_Value set_rt_def results_kept_recv results_kept_InvokeDone InvokeFunc_def Let_def
    intro: results_kept_upd split: option.splits)

section \<open>Properties\<close>

text \<open>No sequence of these events breaks the channel discipline of a runtime. From a new runtime, whatever
  connects, disconnects, times out or is fired by the manager, in any order, no step closes a closed
  channel, dereferences a missing connection or fails otherwise, and the channels fit the state.\<close>

theorem lifecycle_no_panic:
  assumes "rt_w w0 = NewRuntimeInfo now params" "Resource_np params \<noteq> None" "reachable_from w0 w" "enabled e w"
  shows "chan_inv (rt_w w) \<and> (\<exists>w'. rt_step e w = Value w')"
proof -
  have "chan_inv (rt_w w)"
    using assms(3)
  proof (induction rule: reachable_from.induct)
    case reach_refl
    then show ?case using assms(1,2) by (simp add: NewRuntimeInfo_def chan_inv_def serving_def rtinfo_defs Let_def)
  next
    case (reach_step w e w')
    then show ?case using rt_step_chan_inv by fastforce
  qed
  then show ?thesis using rt_step_chan_inv assms(4) by blast
qed

text \<open>A reclaimed container never comes back: once a runtime is in the state reclaiming, no event leads out
  of it. \<open>initRunner\<close> takes back only closed runtimes, and \<open>stopRunner\<close> leaves a reclaiming runtime as it is, so
  the container whose memory was merged into another one is not used again after it has been reset.\<close>

theorem reclaiming_absorbing:
  assumes "chan_inv (rt_w w0)" "State (rt_w w0) = RuntimeStateReclaiming" "reachable_from w0 w"
  shows "State (rt_w w) = RuntimeStateReclaiming"
proof -
  have "chan_inv (rt_w w) \<and> State (rt_w w) = RuntimeStateReclaiming"
    using assms(3)
  proof (induction rule: reachable_from.induct)
    case (reach_step w e w')
    have inv: "chan_inv (rt_w w')" using rt_step_chan_inv [of w e] reach_step by auto
    have wg: "runtimeWaitGroup (rt_w w) = 0" using reach_step.IH by (simp add: chan_inv_def serving_def)
    have "State (rt_w w') = RuntimeStateReclaiming"
    proof (cases e)
      case (EvStart params)
      have "startRuntimeLoop params (rt_w w) = Value (Inl ''duplicate runtime'')"
        using reach_step.IH by (simp add: startRuntimeLoop_def initRuntime_def Let_def)
      then show ?thesis using reach_step EvStart by simp
    next
      case (EvStop ids)
      then show ?thesis using reach_step wg by simp
    next
      case (EvCas op args now h)
      then obtain r where r: "CAS op args now h (rt_w w) = Value r" "(case r of Inl _ \<Rightarrow> Value w | Inr (_, info) \<Rightarrow> Value (set_rt w info)) = Value w'"
        using reach_step.hyps by (auto simp: outcome_simps)
      show ?thesis
      proof (cases r)
        case (Inr p)
        then have "cas_edge op (State (rt_w w)) (State (snd p))"
          using r(1) CAS_locked_run [of op args now h "rt_w w" "fst p" "snd p"] unfolding CAS_eq_locked by simp
        then have "State (snd p) = RuntimeStateReclaiming" using reach_step.IH by (cases op) auto
        then show ?thesis using r(2) Inr by (auto split: prod.splits)
      qed (use r reach_step in auto)
    next
      case EvRunnerStop
      then show ?thesis using reach_step by (auto simp: stopRunner_def Let_def outcome_simps split: option.splits)
    qed (use reach_step request_steps_same_chans recv_same_chans in
        \<open>auto simp: Release_def initRunner_def Invalidate_def runnerUpdate_def rtinfo_defs same_chans_def split: if_splits\<close>)
    with inv show ?case by simp
  qed (use assms in simp)
  then show ?thesis by simp
qed

text \<open>The first result of a request is final. Once a request has succeeded, failed or timed out, no later
  event changes its status, its result or its error: an answer that arrives after the timeout, or the end
  of the process after the answer, is ignored.\<close>

theorem first_result_final:
  assumes "reachable_from w0 w" "settled (reqs_w w0 a)"
  shows "Status_rq (reqs_w w a) = Status_rq (reqs_w w0 a) \<and> FuncResult (reqs_w w a) = FuncResult (reqs_w w0 a)
    \<and> ErrorInfo (reqs_w w a) = ErrorInfo (reqs_w w0 a)"
proof -
  have "results_kept w0 w"
    using assms(1) by (induction rule: reachable_from.induct) (auto intro: results_kept_trans rt_step_results)
  then show ?thesis using assms(2) by (simp add: results_kept_def same_result_def)
qed

section \<open>No request is forgotten\<close>

definition well_keyed :: "rt_world \<Rightarrow> bool" where
  "well_keyed w \<longleftrightarrow> (\<forall>i a. requestMap (rt_w w) i = Some a \<longrightarrow> RequestID_rq (reqs_w w a) = i)"

definition answered :: "RequestInfo \<Rightarrow> bool" where
  "answered q \<longleftrightarrow> 0 < SyncChannel q \<and> Status_rq q \<noteq> StatusRunning"

lemma answered_kept: "results_kept w w' \<Longrightarrow> answered (reqs_w w a) \<Longrightarrow> answered (reqs_w w' a)"
  by (auto simp: results_kept_def same_result_def answered_def)

lemma fail_requests_answered:
  "i \<in> set ids \<Longrightarrow> requestMap (rt_w w) i = Some a \<Longrightarrow> answered (reqs_w (fold fail_request ids w) a)"
proof (induction ids arbitrary: w)
  case (Cons j ids)
  show ?case
  proof (cases "i = j")
    case True
    then have "answered (reqs_w (fail_request j w) a)"
      using Cons.prems by (simp add: answered_def fail_request_def upd_req_def InvokeResult_settles)
    then show ?thesis using answered_kept [OF results_kept_fail [of "fail_request j w" ids]] by simp
  next
    case False
    then show ?thesis using Cons.IH [of "fail_request j w"] Cons.prems by simp
  qed
qed simp

lemma rt_step_requestMap:
  assumes "rt_step e w = Value w'" "\<And>now out. e \<noteq> EvRecv now out" "\<And>a. e \<noteq> EvCleanup a" "\<And>ids. e \<noteq> EvStop ids"
  shows "requestMap (rt_w w') = (case e of EvInvoke a _ \<Rightarrow> (requestMap (rt_w w))(RequestID_rq (reqs_w w a) \<mapsto> a) | _ \<Rightarrow> requestMap (rt_w w))"
proof (cases e)
  case (EvStart params)
  then show ?thesis using assms(1) startRuntimeLoop_run(8) by (auto simp: outcome_simps sum_case_Value)
next
  case (EvCas op args now h)
  then show ?thesis using assms(1) CAS_frame(2) by (auto simp: outcome_simps sum_case_Value)
next
  case EvRunnerStop
  then show ?thesis using assms(1) by (auto simp: outcome_simps stopRunner_def Let_def rtinfo_defs split: option.splits if_splits)
qed (use assms in \<open>auto simp: InvokeFunc_def send_generic_def Release_def initRunner_def Invalidate_def runnerUpdate_def rtinfo_defs Let_def
    split: option.splits list.splits if_splits\<close>)

lemma InvokeDone_map:
  "requestMap (rt_w (rt_InvokeDone a b w)) = (requestMap (rt_w w))(RequestID_rq (reqs_w w a) := None)"
  by (auto simp: rt_InvokeDone_def Let_def fun_eq_iff upd_req_def)

lemma InvokeDone_reqs:
  "reqs_w (rt_InvokeDone a b w) = (if b \<and> requestMap (rt_w w) (RequestID_rq (reqs_w w a)) \<noteq> None
     then (reqs_w w)(a := Notify (reqs_w w a)) else reqs_w w)"
  by (auto simp: rt_InvokeDone_def Let_def upd_req_def)

lemma recv_map:
  assumes "well_keyed w" "requestMap (rt_w w) i = Some a"
  shows "requestMap (rt_w (recv_generic now output w)) i = Some a \<or> answered (reqs_w (recv_generic now output w) a)"
proof -
  have one: "requestMap (rt_w (snd (handleInvokeDone now j ok msg w))) i = Some a \<or> answered (reqs_w (snd (handleInvokeDone now j ok msg w)) a)"
    for j ok msg
  proof (cases "requestMap (rt_w w) j")
    case None
    then show ?thesis using assms(2) by (simp add: handleInvokeDone_def loadRequest_def)
  next
    case (Some b)
    let ?st = "if ok then StatusSuccess else StatusFailed"
    let ?w1 = "upd_req b (\<lambda>q. rq_InvokeDone now (ConcurrentMode (rt_w w)) (InvokeResult ?st msg q)) w"
    have run: "snd (handleInvokeDone now j ok msg w) = rt_InvokeDone b True ?w1"
      using Some by (simp add: handleInvokeDone_def loadRequest_def Let_def)
    have key: "RequestID_rq (reqs_w ?w1 b) = j"
      using assms(1) Some result_ops2(2) by (simp add: well_keyed_def upd_req_def same_result_def)
    have st: "Status_rq (rq_InvokeDone now c q) = Status_rq q" for c q
      by (simp add: rq_InvokeDone_def Let_def split: option.splits)
    show ?thesis
    proof (cases "i = j")
      case True
      then have "a = b" using Some assms(2) by simp
      then show ?thesis unfolding run InvokeDone_reqs key using Some True
        by (simp add: answered_def upd_req_def st InvokeResult_settles)
    next
      case False
      then show ?thesis unfolding run InvokeDone_map key using assms(2) by simp
    qed
  qed
  show ?thesis unfolding recv_generic_def using one by simp
qed

lemma same_result_id: "same_result p q \<Longrightarrow> RequestID_rq q = RequestID_rq p"
  by (simp add: same_result_def)

lemma rt_step_well_keyed:
  assumes "well_keyed w" "rt_step e w = Value w'"
  shows "well_keyed w'"
proof -
  have ids: "RequestID_rq (reqs_w w' a) = RequestID_rq (reqs_w w a)" for a
    using rt_step_results [OF assms(2)] same_result_id by (simp add: results_kept_def)
  have "requestMap (rt_w w') i = Some a \<Longrightarrow> requestMap (rt_w w) i = Some a \<or> RequestID_rq (reqs_w w a) = i" for i a
  proof (cases e)
    case (EvRecv now out)
    assume m: "requestMap (rt_w w') i = Some a"
    have "requestMap (rt_w (snd (handleInvokeDone now j ok msg w))) i = Some a \<Longrightarrow> requestMap (rt_w w) i = Some a" for j ok msg
      by (auto simp: handleInvokeDone_def Let_def InvokeDone_map split: option.splits if_splits)
    with m EvRecv assms(2) show ?thesis by (auto simp: recv_generic_def split: if_splits)
  next
    case (EvStop ids)
    assume "requestMap (rt_w w') i = Some a"
    then show ?thesis using EvStop assms(2) stopRuntime_run(2) by fastforce
  next
    case (EvCleanup b)
    assume "requestMap (rt_w w') i = Some a"
    then show ?thesis using EvCleanup assms(2) by (auto simp: InvokeDone_map split: if_splits)
  qed (use rt_step_requestMap [OF assms(2)] in \<open>auto split: if_splits\<close>)
  then show ?thesis using assms(1) ids unfolding well_keyed_def by blast
qed

text \<open>C7: No waiting request is forgotten. A request leaves the map of its runtime only with a result and a
  token in the channel its caller waits on, unless the caller removes it itself or starts another request
  under the same identifier. In particular the end of the process answers every pending request and
  empties the map, so that no caller waits for a stopped runtime.\<close>

theorem no_request_forgotten:
  assumes "well_keyed w" "enabled e w" "rt_step e w = Value w'" "requestMap (rt_w w) i = Some a"
  shows "well_keyed w' \<and> (requestMap (rt_w w') i = Some a \<or> answered (reqs_w w' a)
      \<or> (\<exists>b. e = EvCleanup b \<and> RequestID_rq (reqs_w w b) = i) \<or> (\<exists>b r. e = EvInvoke b r \<and> RequestID_rq (reqs_w w b) = i))
    \<and> (\<forall>ids. e = EvStop ids \<longrightarrow> answered (reqs_w w' a) \<and> requestMap (rt_w w') = Map.empty)"
proof (intro conjI allI impI)
  show "well_keyed w'" using rt_step_well_keyed assms by blast
  fix ids
  assume e: "e = EvStop ids"
  then have stop: "stopRuntime ids w = Value w'" and i: "i \<in> set ids" using assms by auto
  show "requestMap (rt_w w') = Map.empty" using stopRuntime_run(2) [OF stop] .
  show "answered (reqs_w w' a)"
    unfolding stopRuntime_run(1) [OF stop] by (rule fail_requests_answered [OF i assms(4)])
next
  show "requestMap (rt_w w') i = Some a \<or> answered (reqs_w w' a) \<or> (\<exists>b. e = EvCleanup b \<and> RequestID_rq (reqs_w w b) = i)
      \<or> (\<exists>b r. e = EvInvoke b r \<and> RequestID_rq (reqs_w w b) = i)"
  proof (cases e)
    case (EvRecv now out)
    then show ?thesis using recv_map [OF assms(1,4)] assms(3) by auto
  next
    case (EvStop ids)
    then have stop: "stopRuntime ids w = Value w'" and i: "i \<in> set ids" using assms by auto
    show ?thesis unfolding stopRuntime_run(1) [OF stop] using fail_requests_answered [OF i assms(4)] by blast
  next
    case (EvCleanup b)
    then show ?thesis using assms(3,4) by (auto simp: InvokeDone_map)
  qed (use rt_step_requestMap [OF assms(3)] assms(4) in auto)
qed

section \<open>Stream mode, billing and late releases\<close>

text \<open>In stream mode a queued request whose caller gave up before it was sent brings the sender down: the
  caller's timeout removes the request from the map, the sender then finds no request object and
  dereferences nil, outside of any recover.\<close>

theorem stream_timeout_panics:
  assumes "httpRequestChan (rt_w w) = Some (req # rest)" "requestMap (rt_w w) (RequestID_hr req) = Some a" "well_keyed w"
  shows "send_http now e (rt_InvokeDone a False (upd_req a (InvokeResult StatusTimeout ''Invoke timeout.'') w)) = Panic nil_dereference"
proof -
  let ?w1 = "upd_req a (InvokeResult StatusTimeout ''Invoke timeout.'') w"
  have "RequestID_rq (reqs_w ?w1 a) = RequestID_hr req"
    using assms(2,3) same_result_id [OF result_ops(2)] by (simp add: upd_req_def well_keyed_def)
  then have "requestMap (rt_w (rt_InvokeDone a False ?w1)) (RequestID_hr req) = None" by (simp add: InvokeDone_map)
  moreover have "httpRequestChan (rt_w (rt_InvokeDone a False ?w1)) = Some (req # rest)"
    using assms(1) by (simp add: rt_InvokeDone_def Let_def)
  ultimately show ?thesis by (simp add: send_http_def loadRequest_def Let_def)
qed

lemma rem64_bounds: "0 \<le> d \<Longrightarrow> rem64 d baseDuration = d mod baseDuration"
  by (cases "d = 0") (simp_all add: rem64_def baseDuration_def Millisecond_def)

text \<open>The billed duration is the duration rounded up to the next hundred milliseconds: at least the
  duration, less than one step above it, and a whole number of steps; a duration too long to be rounded
  up in 64 bits is billed as the longest one.\<close>

theorem ceilBillDuration_rounds_up:
  assumes "0 \<le> d" "d < 2 ^ 63"
  shows "d \<le> ceilBillDuration d \<and> in_i64 (ceilBillDuration d)
    \<and> (d + baseDuration < 2 ^ 63 \<longrightarrow> ceilBillDuration d < d + baseDuration \<and> ceilBillDuration d mod baseDuration = 0)
    \<and> (ceilBillDuration d = d \<longleftrightarrow> d mod baseDuration = 0 \<or> d = maxDuration)"
proof -
  define r where "r = d mod baseDuration"
  have b: "baseDuration = 100000000" by (simp add: baseDuration_def Millisecond_def)
  have r: "rem64 d baseDuration = r" using rem64_bounds [OF assms(1)] by (simp add: r_def)
  have r_bounds: "0 \<le> r" "r < baseDuration" "r \<le> d" using assms by (simp_all add: r_def b zmod_le_nonneg_dividend)
  have d1: "i64 (i64 (d + baseDuration) - r) = i64 (d + baseDuration - r)" by (rule i64_diff_left)
  show ?thesis
  proof (cases "r = 0")
    case True
    then show ?thesis using assms r b by (auto simp: ceilBillDuration_def in_i64_def r_def)
  next
    case False
    show ?thesis
    proof (cases "d + baseDuration - r < 2 ^ 63")
      case fits: True
      then have i: "i64 (d + baseDuration - r) = d + baseDuration - r"
        using assms r_bounds by (intro i64_id) (simp add: in_i64_def b)
      have c: "ceilBillDuration d = d + baseDuration - r"
        using False r d1 i r_bounds by (simp add: ceilBillDuration_def Let_def)
      have "d + baseDuration - r = baseDuration * (d div baseDuration + 1)"
        unfolding r_def using minus_mod_eq_mult_div [of d baseDuration] by (simp add: algebra_simps)
      then have m: "(d + baseDuration - r) mod baseDuration = 0" by (simp only: mod_mult_self1_is_0)
      have "d mod baseDuration \<noteq> 0" using False by (simp add: r_def)
      moreover have "d \<noteq> maxDuration" using fits r_bounds by (simp add: maxDuration_def b)
      ultimately show ?thesis
        unfolding c using m False r_bounds fits assms(1) by (simp add: in_i64_def b)
    next
      case over: False
      then have "i64 (d + baseDuration - r) = d + baseDuration - r - 2 ^ 64"
        using assms r_bounds by (simp add: i64_def b mod_pos_geq mod_pos_pos_trivial)
      then have c: "ceilBillDuration d = maxDuration"
        using False r d1 r_bounds b assms by (simp add: ceilBillDuration_def Let_def)
      have "d mod baseDuration \<noteq> 0" using False by (simp add: r_def)
      then show ?thesis unfolding c using over r_bounds assms by (auto simp: in_i64_def maxDuration_def)
    qed
  qed
qed

text \<open>A release is not tied to the request it belongs to. A request that was interrupted by the end of its
  process and releases its slot only after the container has been restarted and given to another function
  takes the new holder's slot: the runtime counts as unused while the new request runs.\<close>

theorem stale_release:
  assumes "stopRuntime ids w = Value w1" "stopRunner (rt_w w1) = Value i1" "initRunner c i1 = Inr i2"
    "CAS OpOccupy (OccupyArgs p) now h i2 = Value (Inr (h', i3))"
  shows "Concurrency i3 = 1 \<and> State i3 = RuntimeStateWarmUp \<and> (\<exists>i4. Release i3 = Inr i4 \<and> Concurrency i4 = 0)"
proof -
  have "Concurrency i1 = 0"
    using assms(2) stopRuntime_run(4) [OF assms(1)] by (auto simp: stopRunner_def Let_def rtinfo_defs split: option.splits if_splits)
  then have "Concurrency i2 = 0" using assms(3) by (auto simp: initRunner_def rtinfo_defs split: if_splits)
  then show ?thesis using assms(4) by (auto simp: CAS_occupy_iff Release_def)
qed

section \<open>Witnesses\<close>

definition sample_world :: rt_world where
  "sample_world = \<lparr>rt_w = NewRuntimeInfo 0 \<lparr>RuntimeID_np = ''a'', ConcurrentMode_np = False, StreamMode_np = False,
     WaitRuntimeAliveTimeout_np = 3, IsFrozen_np = False, Resource_np = Some 5\<rparr>, reqs_w = \<lambda>a. NewRequestInfo 0 ''r''\<rparr>"

theorem lifecycle_no_panic_witness: "\<exists>w'. rt_step (EvRunnerInit 7) sample_world = Value w'"
  using lifecycle_no_panic [OF _ _ reach_refl, of sample_world 0 _ "EvRunnerInit 7"] by (simp add: sample_world_def)

definition reclaiming_world :: rt_world where
  "reclaiming_world = sample_world\<lparr>rt_w := (rt_w sample_world)\<lparr>State := RuntimeStateReclaiming, runnerConn := Some (OpenConn 7)\<rparr>\<rparr>"

theorem reclaiming_absorbing_witness:
  "\<exists>w. rt_step EvRunnerStop reclaiming_world = Value w \<and> State (rt_w w) = RuntimeStateReclaiming"
proof -
  have inv: "chan_inv (rt_w reclaiming_world)" "State (rt_w reclaiming_world) = RuntimeStateReclaiming"
    by (simp_all add: reclaiming_world_def sample_world_def NewRuntimeInfo_def chan_inv_def serving_def Let_def)
  have en: "enabled EvRunnerStop reclaiming_world"
    by (simp add: reclaiming_world_def sample_world_def NewRuntimeInfo_def Let_def)
  obtain w where w: "rt_step EvRunnerStop reclaiming_world = Value w" using rt_step_chan_inv [OF inv(1) en] by blast
  from reclaiming_absorbing [OF inv reach_step [OF reach_refl en w]] w show ?thesis by blast
qed

definition done_world :: rt_world where
  "done_world = sample_world\<lparr>reqs_w := (\<lambda>a. (NewRequestInfo 0 ''r'')\<lparr>Status_rq := StatusTimeout\<rparr>)\<rparr>"

theorem first_result_final_witness:
  "Status_rq (reqs_w (recv_generic 9 \<lparr>RequestID_is = ''r'', Success_is = True, FuncResult_is = ''x'', FuncError_is = ''''\<rparr> done_world) 3) = StatusTimeout"
  using first_result_final [OF reach_step [OF reach_refl, of "EvRecv 9 \<lparr>RequestID_is = ''r'', Success_is = True, FuncResult_is = ''x'', FuncError_is = ''''\<rparr>" done_world], of _ 3]
  by (simp add: done_world_def settled_def)

definition busy_world :: rt_world where
  "busy_world = sample_world\<lparr>rt_w := (rt_w sample_world)\<lparr>State := RuntimeStateWarm, requestMap := [''r'' \<mapsto> 3],
     runtimeConn := Some (OpenConn 1), runnerConn := Some (OpenConn 2), runtimeWaitGroup := 2, httpRequestChan := Some [\<lparr>RequestID_hr = ''r'', FunctionTimeout = 3\<rparr>]\<rparr>\<rparr>"

lemma busy_well_keyed: "well_keyed busy_world"
  by (simp add: well_keyed_def busy_world_def sample_world_def NewRequestInfo_def)

theorem no_request_forgotten_witness: "\<exists>w'. stopRuntime [''r''] busy_world = Value w' \<and> answered (reqs_w w' 3)"
proof -
  have "\<exists>w'. stopRuntime [''r''] busy_world = Value w'"
    by (simp add: stopRuntime_def busy_world_def sample_world_def NewRuntimeInfo_def Let_def)
  then obtain w' where w': "stopRuntime [''r''] busy_world = Value w'" by blast
  have "enabled (EvStop [''r'']) busy_world" by (simp add: busy_world_def)
  from no_request_forgotten [OF busy_well_keyed this, of w' "''r''" 3] w' show ?thesis by (simp add: busy_world_def)
qed

theorem stream_timeout_panics_witness:
  "send_http 9 Http_cancelled (rt_InvokeDone 3 False (upd_req 3 (InvokeResult StatusTimeout ''Invoke timeout.'') busy_world)) = Panic nil_dereference"
  using stream_timeout_panics [OF _ _ busy_well_keyed, of "\<lparr>RequestID_hr = ''r'', FunctionTimeout = 3\<rparr>" "[]" 3] by (simp add: busy_world_def)

theorem ceilBillDuration_rounds_up_witness: "ceilBillDuration 130000000 < 230000000 \<and> 130000000 \<le> ceilBillDuration 130000000"
  using ceilBillDuration_rounds_up [of 130000000] by (simp add: baseDuration_def Millisecond_def)

theorem stale_release_witness:
  "\<exists>w1 i1 i2 h' i3 i4. stopRuntime [''r''] busy_world = Value w1 \<and> stopRunner (rt_w w1) = Value i1 \<and> initRunner 8 i1 = Inr i2
     \<and> CAS OpOccupy (OccupyArgs sample_occupy) 4 sample_heap i2 = Value (Inr (h', i3)) \<and> Release i3 = Inr i4 \<and> Concurrency i4 = 0"
proof -
  obtain w1 where w1: "stopRuntime [''r''] busy_world = Value w1" "runnerConn (rt_w w1) = Some (OpenConn 2)" "Abnormal (rt_w w1) = False"
      "State (rt_w w1) = RuntimeStateStopped" "Resource (rt_w w1) = Some 5"
    by (simp add: stopRuntime_def busy_world_def sample_world_def NewRuntimeInfo_def Let_def rtinfo_defs)
  define i1 where "i1 = SetState RuntimeStateClosed ((rt_w w1)\<lparr>runnerConn := Some (ClosedConn 2)\<rparr>)"
  define i2 where "i2 = (SetState RuntimeStateCold i1)\<lparr>runnerConn := Some (OpenConn 8), Abnormal := False\<rparr>"
  have i1: "stopRunner (rt_w w1) = Value i1" using w1 by (simp add: stopRunner_def i1_def Let_def)
  have i2: "initRunner 8 i1 = Inr i2" by (simp add: initRunner_def i2_def i1_def rtinfo_defs)
  have "\<exists>h' i3. CAS OpOccupy (OccupyArgs sample_occupy) 4 sample_heap i2 = Value (Inr (h', i3))"
    using w1 by (simp add: CAS_occupy_iff i2_def i1_def rtinfo_defs)
  then obtain h' i3 where i3: "CAS OpOccupy (OccupyArgs sample_occupy) 4 sample_heap i2 = Value (Inr (h', i3))" by blast
  from stale_release [OF w1(1) i1 i2 i3] w1(1) i1 i2 i3 show ?thesis by blast
qed

end
