(* ===== verification/RtLife.thy ===== *)
theory RtLife
  imports RtRuntime
begin

text \<open>
  The whole life of a runtime (\<open>src/pkg/controller/rtctrl/runtime.go\<close>, \<open>runner.go\<close>): the events of \<open>RtRuntime\<close> together with the
  loops of the stream mode, whose requests travel over HTTP, and with the end of the runner in the two steps the code makes of it, the wait for
  the loops without the lock and the change of state under it. The events in which a panic can happen are
  characterised exactly.
\<close>

section \<open>The stream mode\<close>

text \<open>The effect of \<open>ConvertHTTPResponseToProxy\<close> on the request; the headers and the body of the proxied response are left out. The output of the
  request was set before it was queued.\<close>

definition ConvertHTTPResponseToProxy :: "InvokeHTTPResponse \<Rightarrow> RequestInfo \<Rightarrow> RequestInfo" where
  "ConvertHTTPResponseToProxy rsp q = (if StatusCode_hs rsp = 200 then InvokeResult StatusSuccess '''' q else InvokeResult StatusFailed '''' q)"

text \<open>One turn of \<open>recvHTTPResponseLoop\<close>. A response whose request has left the map is converted all the same.\<close>

definition recv_http :: "rt_world \<Rightarrow> rt_world outcome" where
  "recv_http w = (case httpResponseChan (rt_w w) of
     Some (response # rest) \<Rightarrow>
       let w1 = w\<lparr>rt_w := (rt_w w)\<lparr>httpResponseChan := Some rest\<rparr>\<rparr>
       in (case loadRequest (RequestID_hs response) w1 of
            None \<Rightarrow> Panic nil_dereference
          | Some a \<Rightarrow> Value (rt_InvokeDone a True (upd_req a (ConvertHTTPResponseToProxy response) w1)))
   | _ \<Rightarrow> Value w)"

section \<open>Events\<close>

text \<open>\<open>waited_l\<close>: \<open>stopRunner\<close> has seen the loops end and has not yet taken the lock; \<open>raced_l\<close>: a runtime process has started in
  such a moment.\<close>

record life =
  world_l :: rt_world
  waited_l :: bool
  raced_l :: bool

datatype life_event =
    Common rt_event
  | HttpInvoke nat InvokeHTTPRequest
  | HttpSend instant http_end
  | HttpRecv
  | RunnerWait
  | RunnerLock

definition with_world :: "life \<Rightarrow> rt_world \<Rightarrow> life" where
  "with_world l w = l\<lparr>world_l := w, raced_l := (raced_l l \<or> waited_l l \<and> runtimeWaitGroup (rt_w w) \<noteq> 0)\<rparr>"

fun life_step :: "life_event \<Rightarrow> life \<Rightarrow> life outcome" where
  "life_step (Common e) l = obind (rt_step e (world_l l)) (\<lambda>w. Value (with_world l w))"
| "life_step (HttpInvoke a req) l = Value (with_world l (snd (InvokeHTTPFunc a req (world_l l))))"
| "life_step (HttpSend now e) l = obind (send_http now e (world_l l)) (\<lambda>w. Value (with_world l w))"
| "life_step HttpRecv l = obind (recv_http (world_l l)) (\<lambda>w. Value (with_world l w))"
| "life_step RunnerWait l = Value (l\<lparr>waited_l := True\<rparr>)"
| "life_step RunnerLock l = obind (stopRunner (rt_w (world_l l))) (\<lambda>info. Value (l\<lparr>world_l := set_rt (world_l l) info, waited_l := False\<rparr>))"

text \<open>The end of the runner is the two steps of this machine; it follows the start of the runner.\<close>

fun life_enabled :: "life_event \<Rightarrow> life \<Rightarrow> bool" where
  "life_enabled (Common e) l = (e \<noteq> EvRunnerStop \<and> enabled e (world_l l))"
| "life_enabled RunnerWait l = (runtimeWaitGroup (rt_w (world_l l)) = 0 \<and> runnerConn (rt_w (world_l l)) \<noteq> None)"
| "life_enabled RunnerLock l = waited_l l"
| "life_enabled _ l = True"

inductive life_reach :: "life \<Rightarrow> life \<Rightarrow> bool" for l0 where
  life_refl: "life_reach l0 l0"
| life_next: "life_reach l0 l \<Longrightarrow> life_enabled e l \<Longrightarrow> life_step e l = Value l' \<Longrightarrow> life_reach l0 l'"

fun life_run :: "life_event list \<Rightarrow> life \<Rightarrow> life option" where
  "life_run [] l = Some l"
| "life_run (e # es) l = (if life_enabled e l then case life_step e l of Panic _ \<Rightarrow> None | Value l' \<Rightarrow> life_run es l' else None)"

lemma life_run_reach: "life_run es l = Some l' \<Longrightarrow> life_reach l0 l \<Longrightarrow> life_reach l0 l'"
  by (induction es arbitrary: l) (auto intro: life_next split: if_splits outcome.splits)

section \<open>The invariant\<close>

text \<open>The request at the head of a queue has left the map.\<close>

definition send_gone :: "rt_world \<Rightarrow> bool" where
  "send_gone w = (case httpRequestChan (rt_w w) of Some (req # _) \<Rightarrow> requestMap (rt_w w) (RequestID_hr req) = None | _ \<Rightarrow> False)"

definition recv_gone :: "rt_world \<Rightarrow> bool" where
  "recv_gone w = (case httpResponseChan (rt_w w) of Some (resp # _) \<Rightarrow> requestMap (rt_w w) (RequestID_hs resp) = None | _ \<Rightarrow> False)"

definition life_ok :: "life \<Rightarrow> bool" where
  "life_ok l \<longleftrightarrow> raced_l l \<or> chan_inv (rt_w (world_l l)) \<and>
     (waited_l l \<longrightarrow> runtimeWaitGroup (rt_w (world_l l)) = 0 \<and> runnerConn (rt_w (world_l l)) \<noteq> None)"

lemma http_same_chans:
  "same_chans (rt_w w) (rt_w (snd (InvokeHTTPFunc a req w)))"
  "send_http now e w = Value w' \<Longrightarrow> same_chans (rt_w w) (rt_w w')"
  by (auto simp: same_chans_def InvokeHTTPFunc_def send_http_def Let_def split: option.splits list.splits if_splits http_end.splits)

lemma recv_http_same_chans: "recv_http w = Value w' \<Longrightarrow> same_chans (rt_w w) (rt_w w')"
  using request_steps_same_chans(3)
  by (fastforce simp: same_chans_def recv_http_def Let_def split: option.splits list.splits)

text \<open>The connection of the runner, once made, is never nil again.\<close>

lemma InvokeDone_runner [simp]: "runnerConn (rt_w (rt_InvokeDone a b w)) = runnerConn (rt_w w)"
  by (simp add: rt_InvokeDone_def Let_def)

lemma http_runner:
  "runnerConn (rt_w (snd (InvokeHTTPFunc a req w))) = runnerConn (rt_w w)"
  "send_http now e w = Value w' \<Longrightarrow> runnerConn (rt_w w') = runnerConn (rt_w w)"
  "recv_http w = Value w' \<Longrightarrow> runnerConn (rt_w w') = runnerConn (rt_w w)"
  by (auto simp: InvokeHTTPFunc_def send_http_def recv_http_def Let_def split: option.splits list.splits if_splits http_end.splits)

lemma CAS_runner: "CAS op args now h info = Value (Inr (h', info')) \<Longrightarrow> runnerConn info' = runnerConn info"
  by (cases op; cases args; auto simp: CAS_eq_locked CAS_locked_def run_check_def run_set_def conversion_panic_def cas_exact
      split: if_splits option.splits)

lemma start_runner: "startRuntimeLoop params info = Value (Inr info') \<Longrightarrow> runnerConn info' = runnerConn info"
  by (auto simp: startRuntimeLoop_def initRuntime_def sendRequestLoop_def rtinfo_defs outcome_simps Let_def split: if_splits sum.splits)

lemma stop_runner: "stopRuntime ids w = Value w' \<Longrightarrow> runnerConn (rt_w w') = runnerConn (rt_w w)"
  by (auto simp: stopRuntime_def Let_def outcome_simps rtinfo_defs split: if_splits option.splits)

lemma rt_step_runner:
  assumes "rt_step e w = Value w'" "e \<noteq> EvRunnerStop" "runnerConn (rt_w w) \<noteq> None"
  shows "runnerConn (rt_w w') \<noteq> None"
proof (cases e)
  case (EvStart params)
  then show ?thesis using assms start_runner by (auto simp: outcome_simps sum_case_Value)
next
  case (EvCas op args now h)
  then show ?thesis using assms CAS_runner by (auto simp: outcome_simps sum_case_Value)
next
  case (EvStop ids)
  then show ?thesis using assms stop_runner by auto
next
  case (EvRecv now out)
  then show ?thesis using assms by (auto simp: recv_generic_def handleInvokeDone_def Let_def split: option.splits if_splits)
qed (use assms in \<open>auto simp: InvokeFunc_def send_generic_def Release_def initRunner_def Invalidate_def runnerUpdate_def rtinfo_defs Let_def
    split: option.splits list.splits if_splits\<close>)

lemma life_ok_with_world:
  assumes "life_ok l" "\<not> raced_l l \<Longrightarrow> chan_inv (rt_w w)" "runnerConn (rt_w (world_l l)) \<noteq> None \<Longrightarrow> runnerConn (rt_w w) \<noteq> None"
  shows "life_ok (with_world l w)"
  using assms by (auto simp: life_ok_def with_world_def)

lemma life_step_ok:
  assumes "life_ok l" "life_enabled e l" "life_step e l = Value l'"
  shows "life_ok l'"
proof (cases e)
  case (Common ev)
  then obtain w where w: "rt_step ev (world_l l) = Value w" "l' = with_world l w" using assms(3) by (auto simp: outcome_simps)
  have en: "ev \<noteq> EvRunnerStop" "enabled ev (world_l l)" using assms(2) Common by simp_all
  show ?thesis
    unfolding w(2)
  proof (rule life_ok_with_world [OF assms(1)])
    show "chan_inv (rt_w w)" if "\<not> raced_l l"
      using rt_step_chan_inv [of "world_l l" ev] en(2) assms(1) w(1) that by (auto simp: life_ok_def)
    show "runnerConn (rt_w w) \<noteq> None" if "runnerConn (rt_w (world_l l)) \<noteq> None"
      using rt_step_runner [OF w(1) en(1) that] .
  qed
next
  case (HttpInvoke a req)
  let ?w = "snd (InvokeHTTPFunc a req (world_l l))"
  have "l' = with_world l ?w" using assms(3) HttpInvoke by simp
  moreover have "life_ok (with_world l ?w)"
    using assms(1) same_chans_inv [OF http_same_chans(1), of a req "world_l l"] http_runner(1) [of a req "world_l l"]
    by (intro life_ok_with_world) (auto simp: life_ok_def)
  ultimately show ?thesis by simp
next
  case (HttpSend now x)
  then obtain w where w: "send_http now x (world_l l) = Value w" "l' = with_world l w" using assms(3) by (auto simp: outcome_simps)
  show ?thesis
    unfolding w(2) using assms(1) same_chans_inv [OF http_same_chans(2) [OF w(1)]] http_runner(2) [OF w(1)]
    by (intro life_ok_with_world) (auto simp: life_ok_def)
next
  case HttpRecv
  then obtain w where w: "recv_http (world_l l) = Value w" "l' = with_world l w" using assms(3) by (auto simp: outcome_simps)
  show ?thesis
    unfolding w(2) using assms(1) same_chans_inv [OF recv_http_same_chans [OF w(1)]] http_runner(3) [OF w(1)]
    by (intro life_ok_with_world) (auto simp: life_ok_def)
next
  case RunnerWait
  then show ?thesis using assms by (auto simp: life_ok_def)
next
  case RunnerLock
  then obtain info where i: "stopRunner (rt_w (world_l l)) = Value info" "l' = l\<lparr>world_l := set_rt (world_l l) info, waited_l := False\<rparr>"
    using assms(3) by (auto simp: outcome_simps)
  show ?thesis using assms(1,2) RunnerLock runner_chan_inv(2) [OF _ _ i(1)] by (auto simp: i(2) life_ok_def)
qed

lemma life_reach_ok: "life_reach l0 l \<Longrightarrow> life_ok l0 \<Longrightarrow> life_ok l"
  by (induction rule: life_reach.induct) (auto intro: life_step_ok)

lemma send_panics: "(\<exists>p. send_http now e w = Panic p) \<longleftrightarrow> send_gone w"
  by (auto simp: send_http_def send_gone_def loadRequest_def Let_def split: option.splits list.splits http_end.splits)

lemma recv_panics: "(\<exists>p. recv_http w = Panic p) \<longleftrightarrow> recv_gone w"
  by (auto simp: recv_http_def recv_gone_def loadRequest_def Let_def split: option.splits list.splits)

lemma obind_Panic_iff: "(\<exists>p. obind m (\<lambda>x. Value (f x)) = Panic p) \<longleftrightarrow> (\<exists>p. m = Panic p)"
  by (cases m) auto

section \<open>Properties\<close>

text \<open>C6: Where a runtime can panic. From a new runtime, whatever connects, disconnects, times out, is sent or received over HTTP or
  is fired by the manager, in any order: as long as no runtime process started between the wait and the lock of \<open>stopRunner\<close>, the
  channels fit the state, and a step panics exactly when it is a turn of the stream mode's sender or receiver whose next request
  has left the map. So no step closes a closed channel or uses a missing connection. (With such a start a closed channel
  is closed again: \<open>runner_race_panics\<close>.)\<close>

theorem lifecycle_panics:
  assumes "rt_w (world_l l0) = NewRuntimeInfo now params" "Resource_np params \<noteq> None" "\<not> waited_l l0"
    and "life_reach l0 l" "\<not> raced_l l" "life_enabled e l"
  shows "chan_inv (rt_w (world_l l)) \<and>
    ((\<exists>p. life_step e l = Panic p) \<longleftrightarrow> (\<exists>t x. e = HttpSend t x) \<and> send_gone (world_l l) \<or> e = HttpRecv \<and> recv_gone (world_l l))"
proof -
  have "life_ok l0" using assms(1-3) by (simp add: life_ok_def NewRuntimeInfo_def chan_inv_def serving_def rtinfo_defs Let_def)
  then have ok: "life_ok l" using life_reach_ok [OF assms(4)] by blast
  then have inv: "chan_inv (rt_w (world_l l))" using assms(5) by (simp add: life_ok_def)
  moreover have "(\<exists>p. life_step e l = Panic p) \<longleftrightarrow> (\<exists>t x. e = HttpSend t x) \<and> send_gone (world_l l) \<or> e = HttpRecv \<and> recv_gone (world_l l)"
  proof (cases e)
    case (Common ev)
    then show ?thesis using rt_step_chan_inv [OF inv, of ev] assms(6) by auto
  next
    case RunnerLock
    then have "runnerConn (rt_w (world_l l)) \<noteq> None" using ok assms(5,6) by (auto simp: life_ok_def)
    then show ?thesis using RunnerLock by (auto simp: stopRunner_def Let_def split: if_splits)
  qed (simp_all add: obind_Panic_iff send_panics recv_panics)
  ultimately show ?thesis by blast
qed

definition stream_life :: life where
  "stream_life = \<lparr>world_l = \<lparr>rt_w = NewRuntimeInfo 0 \<lparr>RuntimeID_np = ''a'', ConcurrentMode_np = False, StreamMode_np = True,
     WaitRuntimeAliveTimeout_np = 3, IsFrozen_np = False, Resource_np = Some 5\<rparr>, reqs_w = \<lambda>a. NewRequestInfo 0 ''r''\<rparr>, waited_l = False, raced_l = False\<rparr>"

definition sample_start :: startRuntimeParams where
  "sample_start = \<lparr>commitID_sp = ''c'', initstart_sp = ''1'', initdone_sp = ''2'', concurrentmode_sp = '''', conn_sp = 3\<rparr>"

text \<open>A runner and a streaming runtime connect, a request is queued, and its caller gives up before it is sent.\<close>

definition give_up :: "life_event list" where
  "give_up = [Common (EvRunnerInit 7), Common (EvStart sample_start), HttpInvoke 4 \<lparr>RequestID_hr = ''r'', FunctionTimeout = 3\<rparr>,
     Common (EvTimeout 4), Common (EvCleanup 4)]"

lemma gave_up:
  obtains l where "life_run give_up stream_life = Some l" "send_gone (world_l l)" "\<not> raced_l l"
proof -
  have "\<exists>l. life_run give_up stream_life = Some l \<and> send_gone (world_l l) \<and> \<not> raced_l l"
    by (simp add: give_up_def stream_life_def sample_start_def initRunner_def startRuntimeLoop_def initRuntime_def sendRequestLoop_def InvokeHTTPFunc_def
        rt_InvokeDone_def InvokeResult_def NewRequestInfo_def NewRuntimeInfo_def upd_req_def set_rt_def with_world_def send_gone_def rtinfo_defs Let_def)
  then show thesis using that by blast
qed

theorem lifecycle_panics_witness:
  "\<exists>l p. life_run give_up stream_life = Some l \<and> chan_inv (rt_w (world_l l)) \<and> life_step (HttpSend 9 Http_cancelled) l = Panic p"
proof -
  obtain l where l: "life_run give_up stream_life = Some l" "send_gone (world_l l)" "\<not> raced_l l" by (rule gave_up)
  have r: "life_reach stream_life l" using life_run_reach [OF l(1) life_refl] .
  have "chan_inv (rt_w (world_l l)) \<and> (\<exists>p. life_step (HttpSend 9 Http_cancelled) l = Panic p)"
    using lifecycle_panics [OF _ _ _ r l(3), of 0 _ "HttpSend 9 Http_cancelled"] l(2) by (simp add: stream_life_def)
  then show ?thesis using l(1) by blast
qed

text \<open>The race of the runner's end. The runtime process starts after \<open>stopRunner\<close> has waited and before it locks: the runtime is
  closed while its loops run. When the container comes back and its next process starts before the old connection has ended, the
  run channel is closed a second time.\<close>

definition plain_life :: life where
  "plain_life = stream_life\<lparr>world_l := (world_l stream_life)\<lparr>rt_w := (rt_w (world_l stream_life))\<lparr>WithStreamMode := False\<rparr>\<rparr>\<rparr>"

lemma runner_race_panics:
  "\<exists>l. life_run [Common (EvRunnerInit 7), RunnerWait, Common (EvStart sample_start), RunnerLock, Common (EvRunnerInit 8)] plain_life = Some l \<and>
     life_step (Common (EvStart sample_start)) l = Panic close_of_closed"
  by (simp add: plain_life_def stream_life_def sample_start_def initRunner_def startRuntimeLoop_def initRuntime_def sendRequestLoop_def
      stopRunner_def NewRuntimeInfo_def set_rt_def with_world_def rtinfo_defs Let_def)

end
