(* ===== verification/UserLog.thy ===== *)
theory UserLog
  imports GoStrings
begin

text \<open>
  The log records of user functions and the files they are written to: \<open>src/pkg/userlog/userlog.go\<close>,
  \<open>factory.go\<close>, \<open>plain/plainlogfile.go\<close> and \<open>json/jsonlogfile.go\<close>. A file is its content; writing to it does
  not fail, as the code ignores the result. The text of a time stamp is an argument, \<open>None\<close> where the formatter
  refuses the year.
\<close>

section \<open>UTF-8\<close>

text \<open>\<open>utf8.DecodeRune\<close> of a non-empty text: the code point and the number of bytes it takes; an invalid first
  sequence is \<open>RuneError\<close> of one byte.\<close>

definition RuneError :: nat where "RuneError = 65533"

definition byte :: "char \<Rightarrow> nat" where "byte c = of_char c"

definition cont :: "nat \<Rightarrow> nat \<Rightarrow> char \<Rightarrow> bool" where
  "cont lo hi c \<longleftrightarrow> lo \<le> byte c \<and> byte c \<le> hi"

text \<open>The range of the second byte and the length of the sequence, by the first byte.\<close>

definition first_byte :: "nat \<Rightarrow> (nat \<times> nat \<times> nat) option" where
  "first_byte b =
     (if 194 \<le> b \<and> b \<le> 223 then Some (128, 191, 2)
      else if b = 224 then Some (160, 191, 3)
      else if b = 237 then Some (128, 159, 3)
      else if 225 \<le> b \<and> b \<le> 239 then Some (128, 191, 3)
      else if b = 240 then Some (144, 191, 4)
      else if 241 \<le> b \<and> b \<le> 243 then Some (128, 191, 4)
      else if b = 244 then Some (128, 143, 4)
      else None)"

definition DecodeRune :: "string \<Rightarrow> nat \<times> nat" where
  "DecodeRune s = (case s of
     [] \<Rightarrow> (RuneError, 0)
   | c # r \<Rightarrow>
       if byte c < 128 then (byte c, 1)
       else (case first_byte (byte c) of
          None \<Rightarrow> (RuneError, 1)
        | Some (lo, hi, n) \<Rightarrow>
            (case r of
               [] \<Rightarrow> (RuneError, 1)
             | c1 # r1 \<Rightarrow>
                 if \<not> cont lo hi c1 then (RuneError, 1)
                 else if n = 2 then ((byte c - 192) * 64 + (byte c1 - 128), 2)
                 else (case r1 of
                    [] \<Rightarrow> (RuneError, 1)
                  | c2 # r2 \<Rightarrow>
                      if \<not> cont 128 191 c2 then (RuneError, 1)
                      else if n = 3 then ((byte c - 224) * 4096 + (byte c1 - 128) * 64 + (byte c2 - 128), 3)
                      else (case r2 of
                         [] \<Rightarrow> (RuneError, 1)
                       | c3 # _ \<Rightarrow>
                           if \<not> cont 128 191 c3 then (RuneError, 1)
                           else ((byte c - 240) * 262144 + (byte c1 - 128) * 4096 + (byte c2 - 128) * 64 + (byte c3 - 128), 4))))))"

lemma DecodeRune_size: "s \<noteq> [] \<Longrightarrow> 1 \<le> snd (DecodeRune s)"
  by (cases s) (auto simp: DecodeRune_def split: list.splits option.splits if_splits)

section \<open>JSON strings\<close>

definition low_hex :: "nat \<Rightarrow> char" where
  "low_hex n = ''0123456789abcdef'' ! n"

text \<open>A byte below 128 that must not stand for itself.\<close>

definition escaped :: "char \<Rightarrow> bool" where
  "escaped c \<longleftrightarrow> byte c < 32 \<or> c \<in> set [CHR 0x5C, CHR 0x22, CHR 0x3C, CHR 0x3E, CHR 0x26]"

definition escape_byte :: "char \<Rightarrow> string" where
  "escape_byte c =
     (if c = CHR 0x5C \<or> c = CHR 0x22 then [CHR 0x5C, c]
      else if c = CHR 0x0A then [CHR 0x5C, CHR ''n'']
      else if c = CHR 0x0D then [CHR 0x5C, CHR ''r'']
      else [CHR 0x5C, CHR ''u'', CHR ''0'', CHR ''0'', low_hex (byte c div 16), low_hex (byte c mod 16)])"

function json_units :: "string \<Rightarrow> string" where
  "json_units s = (case s of
     [] \<Rightarrow> []
   | c # r \<Rightarrow>
       if byte c < 128 then (if escaped c then escape_byte c else [c]) @ json_units r
       else let (p, n) = DecodeRune s
            in if p = RuneError \<and> n = 1 then [CHR 0x5C] @ ''ufffd'' @ json_units (drop n s)
               else if p = 8232 \<or> p = 8233 then [CHR 0x5C] @ ''u202'' @ [low_hex (p mod 16)] @ json_units (drop n s)
               else take n s @ json_units (drop n s))"
  by pat_completeness auto
termination
proof -
  have "Suc (length r) - n < Suc (length r)" if "(p, n) = DecodeRune (c # r)" for p n c r
    using that DecodeRune_size [of "c # r"] by (cases n) (auto simp: prod_eq_iff)
  then show ?thesis by (relation "measure length") (auto)
qed

declare json_units.simps [simp del]

definition ffjsonWriteJSONBytesAsString :: "string \<Rightarrow> string" where
  "ffjsonWriteJSONBytesAsString s = [CHR 0x22] @ json_units s @ [CHR 0x22]"

section \<open>Records\<close>

record UserLog =
  RequestID_ul :: string
  FunctionBrn_ul :: string
  TriggerType_ul :: string
  RuntimeID_ul :: string
  FuncName_ul :: string
  Version_ul :: string
  UserID_ul :: string
  Source_ul :: string
  Message_ul :: string
  InvocationTime_ul :: int
  MemoryUsage_ul :: int
  Mode_ul :: string
  ResponseStatus_ul :: int
  Created_ul :: "string option"

definition UserLog_Reset :: "string option \<Rightarrow> UserLog \<Rightarrow> UserLog" where
  "UserLog_Reset now l = \<lparr>RequestID_ul = '''', FunctionBrn_ul = '''', TriggerType_ul = '''', RuntimeID_ul = '''', FuncName_ul = '''', Version_ul = '''',
     UserID_ul = '''', Source_ul = '''', Message_ul = '''', InvocationTime_ul = - 1, MemoryUsage_ul = - 1, Mode_ul = '''', ResponseStatus_ul = - 1,
     Created_ul = now\<rparr>"

text \<open>One optional field: the comma before it unless it is the first one.\<close>

definition put_field :: "bool \<Rightarrow> string \<Rightarrow> string \<times> bool \<Rightarrow> string \<times> bool" where
  "put_field present t = (\<lambda>(buf, first). if present then (buf @ (if first then '''' else '','') @ t, False) else (buf, first))"

definition str_field :: "string \<Rightarrow> string \<Rightarrow> string \<times> bool \<Rightarrow> string \<times> bool" where
  "str_field name v = put_field (v \<noteq> []) ([CHR 0x22] @ name @ [CHR 0x22, CHR '':''] @ ffjsonWriteJSONBytesAsString v)"

definition int_field :: "string \<Rightarrow> int \<Rightarrow> string \<times> bool \<Rightarrow> string \<times> bool" where
  "int_field name v = put_field (v \<noteq> - 1) ([CHR 0x22] @ name @ [CHR 0x22, CHR '':''] @ Itoa v)"

definition marshal_fields :: "UserLog \<Rightarrow> string \<times> bool" where
  "marshal_fields mj = fold (\<lambda>f. f)
     [str_field ''rid'' (RequestID_ul mj), str_field ''msg'' (Message_ul mj), str_field ''src'' (Source_ul mj),
      str_field ''brn'' (FunctionBrn_ul mj), str_field ''func'' (FuncName_ul mj), str_field ''version'' (Version_ul mj),
      str_field ''userid'' (UserID_ul mj), str_field ''runtimeID'' (RuntimeID_ul mj), str_field ''triggerType'' (TriggerType_ul mj),
      int_field ''invocationTime'' (InvocationTime_ul mj), int_field ''memoryUsage'' (MemoryUsage_ul mj),
      str_field ''invokeMode'' (Mode_ul mj), int_field ''responseStatus'' (ResponseStatus_ul mj)] (''{'', True)"

text \<open>What is appended to the buffer; \<open>None\<close> for the error of the time stamp, after which the caller gives up.\<close>

definition MarshalJSONBuf :: "UserLog \<Rightarrow> string option" where
  "MarshalJSONBuf mj =
     (let (buf, first) = marshal_fields mj
      in map_option (\<lambda>created. buf @ (if first then '''' else '','') @ [CHR 0x22] @ ''ts'' @ [CHR 0x22, CHR '':''] @ created @ [CHR ''}'', CHR 0x0A])
           (Created_ul mj))"

section \<open>Files\<close>

definition i32 :: "int \<Rightarrow> int" where
  "i32 x = (x + 2 ^ 31) mod 2 ^ 32 - 2 ^ 31"

record log_writer =
  writer :: "string option"
  capacity :: int

datatype log_file = PlainFile log_writer | JSONFile log_writer

fun log_of :: "log_file \<Rightarrow> log_writer" where
  "log_of (PlainFile w) = w"
| "log_of (JSONFile w) = w"

definition errLogClosed :: string where "errLogClosed = ''log file closed''"
definition errOverCapacity :: string where "errOverCapacity = ''log file over capacity''"

text \<open>\<open>CreateLogWriter\<close>: the writers registered by the two packages; \<open>ok\<close> says whether the file could be opened with the
  content \<open>old\<close>.\<close>

definition CreateLogWriter :: "string \<Rightarrow> int \<Rightarrow> string + string \<Rightarrow> string + log_file" where
  "CreateLogWriter logtype cap opened =
     (let open_file = (\<lambda>mk. case opened of Inl err \<Rightarrow> Inl err | Inr old \<Rightarrow> Inr (mk \<lparr>writer = Some old, capacity = i32 cap\<rparr>))
      in if logtype = ''plain'' \<or> logtype = ''bos'' then open_file PlainFile
         else if logtype = ''json'' then open_file JSONFile
         else Inl (''unknown logtype '' @ logtype))"

text \<open>The loop over the lines of a buffer: \<open>emit\<close> gives what one non-empty line adds to the output. The second result
  is the final value of the index \<open>i\<close>, one beyond the end when the last line has no line feed.\<close>

definition line_end :: "string \<Rightarrow> nat option" where
  "line_end s = (if CHR 0x0A \<in> set s then Some (length (takeWhile (\<lambda>c. c \<noteq> CHR 0x0A) s)) else None)"

function write_lines :: "(string \<Rightarrow> string option) \<Rightarrow> string \<Rightarrow> (string \<times> nat) option" where
  "write_lines emit s =
     (if s = [] then Some ([], 0)
      else (case line_end s of
          None \<Rightarrow> map_option (\<lambda>t. (t, length s + 1)) (emit s)
        | Some j \<Rightarrow>
            if j = 0 then map_option (\<lambda>(t, n). (t, n + 1)) (write_lines emit (tl s))
            else (case emit (take j s) of
                None \<Rightarrow> None
              | Some t \<Rightarrow> map_option (\<lambda>(t', n). (t @ t', n + (j + 1))) (write_lines emit (drop (j + 1) s)))))"
  by pat_completeness auto
termination by (relation "measure (\<lambda>(_, s). length s)") auto

declare write_lines.simps [simp del]

text \<open>The emitters of the two formats. The time stamp of the plain format never fails.\<close>

definition plain_line :: "string \<Rightarrow> string \<Rightarrow> string option" where
  "plain_line stamp line = Some (stamp @ [CHR 0x09] @ line @ [CHR 0x0A])"

definition json_line :: "UserLog \<Rightarrow> string \<Rightarrow> string option" where
  "json_line l line = MarshalJSONBuf (l\<lparr>Message_ul := line\<rparr>)"

definition year_error :: string where
  "year_error = ''time.MarshalJSON: year outside of range [0,9999]''"

definition Write_with :: "(string \<Rightarrow> string option) \<Rightarrow> string \<Rightarrow> log_writer \<Rightarrow> (string + nat) \<times> log_writer" where
  "Write_with emit buf f = (case writer f of
     None \<Rightarrow> (Inl errLogClosed, f)
   | Some content \<Rightarrow>
       if capacity f \<le> 0 then (Inl errOverCapacity, f)
       else (case write_lines emit buf of
           None \<Rightarrow> (Inl year_error, f)
         | Some (tmp, i) \<Rightarrow> (Inr i, f\<lparr>writer := Some (content @ tmp), capacity := i32 (capacity f + i32 (- int i))\<rparr>)))"

definition Plain_Write :: "string \<Rightarrow> string \<Rightarrow> log_writer \<Rightarrow> (string + nat) \<times> log_writer" where
  "Plain_Write stamp buf f = Write_with (plain_line stamp) buf f"

definition JSON_Write :: "UserLog \<Rightarrow> string \<Rightarrow> log_writer \<Rightarrow> (string + nat) \<times> log_writer" where
  "JSON_Write l buf f = Write_with (json_line l) buf f"

fun file_Write :: "string \<Rightarrow> UserLog \<Rightarrow> string \<Rightarrow> log_file \<Rightarrow> (string + nat) \<times> log_file" where
  "file_Write stamp l buf (PlainFile f) = map_prod id PlainFile (Plain_Write stamp buf f)"
| "file_Write stamp l buf (JSONFile f) = map_prod id JSONFile (JSON_Write l buf f)"

text \<open>Closing a closed file calls a method of nil, which the \<open>os\<close> package answers with an error.\<close>

fun file_Close :: "log_file \<Rightarrow> log_file" where
  "file_Close (PlainFile f) = PlainFile (f\<lparr>writer := None\<rparr>)"
| "file_Close (JSONFile f) = JSONFile (f\<lparr>writer := None\<rparr>)"

section \<open>Reading a JSON string back\<close>

definition hex_value :: "char \<Rightarrow> nat" where
  "hex_value c = (if 97 \<le> byte c then byte c - 87 else byte c - 48)"

text \<open>The UTF-8 bytes of a code point of the basic plane.\<close>

definition encode_rune :: "nat \<Rightarrow> string" where
  "encode_rune p =
     (if p < 128 then [char_of p]
      else if p < 2048 then [char_of (192 + p div 64), char_of (128 + p mod 64)]
      else [char_of (224 + p div 4096), char_of (128 + p div 64 mod 64), char_of (128 + p mod 64)])"

text \<open>What a reader makes of the text after the opening quote: the string and what follows the closing quote.\<close>

fun unquote :: "string \<Rightarrow> (string \<times> string) option" where
  "unquote [] = None"
| "unquote (c # r) =
     (if c = CHR 0x22 then Some ([], r)
      else if c \<noteq> CHR 0x5C then (if byte c < 32 then None else map_option (map_prod (Cons c) id) (unquote r))
      else (case r of
          [] \<Rightarrow> None
        | e # r1 \<Rightarrow>
            if e = CHR 0x5C \<or> e = CHR 0x22 then map_option (map_prod (Cons e) id) (unquote r1)
            else if e = CHR ''n'' then map_option (map_prod (Cons (CHR 0x0A)) id) (unquote r1)
            else if e = CHR ''r'' then map_option (map_prod (Cons (CHR 0x0D)) id) (unquote r1)
            else if e = CHR ''u''
              then (case r1 of
                  h1 # h2 # h3 # h4 # r2 \<Rightarrow>
                    map_option (map_prod ((@) (encode_rune (((hex_value h1 * 16 + hex_value h2) * 16 + hex_value h3) * 16 + hex_value h4))) id) (unquote r2)
                | _ \<Rightarrow> None)
            else None))"

text \<open>A text with every invalid byte replaced by the replacement character.\<close>

function to_valid :: "string \<Rightarrow> string" where
  "to_valid s =
     (if s = [] then []
      else let (p, n) = DecodeRune s
           in (if p = RuneError \<and> n = 1 then encode_rune RuneError else take n s) @ to_valid (drop n s))"
  by pat_completeness auto
termination
proof -
  have "length (drop n s) < length s" if "s \<noteq> []" "(p, n) = DecodeRune s" for p n and s :: string
    using that DecodeRune_size [of s] by (cases n) (auto simp: prod_eq_iff)
  then show ?thesis by (relation "measure length") auto
qed

declare to_valid.simps [simp del]

lemma char_list_rune: "byte c < 256" "char_of (byte c) = c"
  using of_char_of [of "byte c"] by (simp_all add: byte_def)

lemma byte_char_of: "n < 256 \<Longrightarrow> byte (char_of n) = n"
  by (simp add: byte_def)

lemma byte_eq: "byte c = n \<Longrightarrow> n < 256 \<Longrightarrow> c = char_of n"
  by (metis char_list_rune(2))

lemma hex_low [simp]: "n < 16 \<Longrightarrow> hex_value (low_hex n) = n"
proof -
  have all: "list_all (\<lambda>k. hex_value (low_hex k) = k) [0..<16]" by code_simp
  assume "n < 16"
  then show ?thesis using all by (simp add: list_all_iff del: upt_conv_Cons)
qed

lemma unquote_pass:
  "list_all (\<lambda>c. 128 \<le> byte c) u \<Longrightarrow> unquote (u @ r) = map_option (map_prod ((@) u) id) (unquote r)"
proof (induction u)
  case (Cons c u)
  then have "c \<noteq> CHR 0x22" "c \<noteq> CHR 0x5C" "\<not> byte c < 32" by (auto simp: byte_def)
  with Cons show ?case by (simp add: option.map_comp comp_def prod.map_comp)
qed (cases "unquote r"; simp add: map_prod_def)

lemma unquote_low:
  assumes "byte c < 128"
  shows "unquote ((if escaped c then escape_byte c else [c]) @ r) = map_option (map_prod (Cons c) id) (unquote r)"
proof (cases "escaped c")
  case False
  then have "c \<noteq> CHR 0x22" "c \<noteq> CHR 0x5C" "\<not> byte c < 32" by (auto simp: escaped_def)
  with False show ?thesis by simp
next
  case True
  have "encode_rune (byte c) = [c]" using assms char_list_rune(2) by (simp add: encode_rune_def)
  moreover have "byte c div 16 < 16" "(byte c div 16) * 16 + byte c mod 16 = byte c" using assms by simp_all
  moreover have "hex_value (CHR ''0'') = 0" "(@) [c] = Cons c" by (auto simp: hex_value_def byte_def)
  ultimately show ?thesis using True by (simp add: escape_byte_def)
qed

text \<open>The bytes of a decoded sequence beyond ASCII are all beyond ASCII.\<close>

lemma DecodeRune_high:
  assumes "DecodeRune (c # r) = (p, n)" "\<not> byte c < 128" "\<not> (p = RuneError \<and> n = 1)"
  shows "list_all (\<lambda>c. 128 \<le> byte c) (take n (c # r))"
proof -
  from assms obtain lo hi k c1 r1 where f: "first_byte (byte c) = Some (lo, hi, k)" and r: "r = c1 # r1" and c1: "cont lo hi c1"
    by (auto simp: DecodeRune_def split: option.splits list.splits if_splits)
  have k: "k \<in> {2, 3, 4}" "128 \<le> lo" using f by (auto simp: first_byte_def split: if_splits)
  have "128 \<le> byte c1" using c1 k(2) by (simp add: cont_def)
  with assms f r c1 k show ?thesis
    by (auto simp: DecodeRune_def cont_def take_Cons' split: list.splits if_splits)
qed

lemma line_separators:
  assumes "DecodeRune (c # r) = (p, n)" "\<not> byte c < 128" "p = 8232 \<or> p = 8233"
  shows "take n (c # r) = encode_rune p"
proof -
  from assms obtain lo hi k c1 r1 where f: "first_byte (byte c) = Some (lo, hi, k)" and r: "r = c1 # r1" and c1: "cont lo hi c1"
    by (auto simp: DecodeRune_def RuneError_def split: option.splits list.splits if_splits)
  have lo: "lo \<le> byte c1" "byte c1 \<le> hi" using c1 by (simp_all add: cont_def)
  have two: "k = 2 \<Longrightarrow> byte c \<le> 223" and four: "k = 4 \<Longrightarrow> 240 \<le> byte c \<and> (byte c = 240 \<longrightarrow> lo = 144)" and three: "k = 3 \<Longrightarrow> 224 \<le> byte c"
    and k: "k \<in> {2, 3, 4}" and rng: "128 \<le> lo" "hi \<le> 191"
    using f by (auto simp: first_byte_def split: if_splits)
  consider "k = 2" | "k = 3" | "k = 4" using k by auto
  then show ?thesis
  proof cases
    case 1
    then have "p = (byte c - 192) * 64 + (byte c1 - 128)" using assms(1,2) f r c1 by (simp add: DecodeRune_def)
    moreover have "(byte c - 192) * 64 \<le> 31 * 64" using two [OF 1] by simp
    ultimately show ?thesis using assms(3) lo rng by auto
  next
    case 2
    with assms f r c1 obtain c2 r2 where r1: "r1 = c2 # r2" and c2: "cont 128 191 c2" and n: "n = 3"
        and p: "p = (byte c - 224) * 4096 + (byte c1 - 128) * 64 + (byte c2 - 128)"
      by (auto simp: DecodeRune_def RuneError_def split: list.splits if_splits)
    define x y z where "x = byte c - 224" "y = byte c1 - 128" "z = byte c2 - 128"
    then have xyz: "byte c = 224 + x" "byte c1 = 128 + y" "byte c2 = 128 + z" "y < 64" "z < 64"
      using three [OF 2] lo rng c2 by (auto simp: cont_def)
    define q where "q = x * 64 + y"
    with p xyz have "p = q * 64 + z" by simp
    then have "p div 64 = q" and d64: "p mod 64 = z" using xyz(5) by simp_all
    then have d: "p div 4096 = x" "p div 64 mod 64 = y" using xyz(4) div_mult2_eq [of p 64 64] by (simp_all add: q_def)
    have "char_of (224 + x) = c" "char_of (128 + y) = c1" "char_of (128 + z) = c2" using xyz char_list_rune(2) by metis+
    then show ?thesis using n r r1 d d64 assms(3) by (auto simp: encode_rune_def)
  next
    case 3
    with assms f r c1 obtain c2 c3 where
        p: "p = (byte c - 240) * 262144 + (byte c1 - 128) * 4096 + (byte c2 - 128) * 64 + (byte c3 - 128)"
      by (auto simp: DecodeRune_def RuneError_def split: list.splits if_splits)
    have "65536 \<le> (byte c - 240) * 262144 + (byte c1 - 128) * 4096"
      using four [OF 3] lo by (cases "byte c = 240") auto
    with p assms(3) show ?thesis by auto
  qed
qed

text \<open>Every written unit reads back as the bytes it stands for.\<close>

lemma unquote_units: "unquote (json_units s @ CHR 0x22 # rest) = Some (to_valid s, rest)"
proof (induction s rule: json_units.induct)
  case (1 s)
  show ?case
  proof (cases s)
    case Nil
    then show ?thesis by (subst json_units.simps, subst to_valid.simps) simp
  next
    case (Cons c r)
    obtain p n where d: "DecodeRune (c # r) = (p, n)" by fastforce
    consider "byte c < 128" | "\<not> byte c < 128" "p = RuneError \<and> n = 1" | "\<not> byte c < 128" "p = 8232 \<or> p = 8233" "\<not> (p = RuneError \<and> n = 1)"
      | "\<not> byte c < 128" "\<not> (p = 8232 \<or> p = 8233)" "\<not> (p = RuneError \<and> n = 1)" by blast
    then show ?thesis
    proof cases
      case 1
      then have pn: "p = byte c" "n = 1" using d by (simp_all add: DecodeRune_def)
      have "unquote (json_units r @ CHR 0x22 # rest) = Some (to_valid r, rest)" using "1.IH"(1) [OF Cons 1] .
      moreover have "p \<noteq> RuneError" using 1 pn by (simp add: RuneError_def)
      ultimately show ?thesis
        using 1 Cons d pn by (subst json_units.simps, subst to_valid.simps) (simp add: unquote_low)
    next
      case 2
      then have "unquote (json_units r @ CHR 0x22 # rest) = Some (to_valid r, rest)"
        using "1.IH"(2) [OF Cons 2(1), of "(p, n)" p n] Cons d by simp
      moreover have "encode_rune (((hex_value (CHR ''f'') * 16 + hex_value (CHR ''f'')) * 16 + hex_value (CHR ''f'')) * 16 + hex_value (CHR ''d'')) =
          encode_rune RuneError"
        by (simp add: hex_value_def byte_def RuneError_def)
      ultimately show ?thesis
        using 2 Cons d by (subst json_units.simps, subst to_valid.simps) simp
    next
      case 3
      then have "unquote (json_units (drop n s) @ CHR 0x22 # rest) = Some (to_valid (drop n s), rest)"
        using "1.IH"(3) [OF Cons 3(1), of "(p, n)" p n] Cons d by auto
      moreover have "encode_rune (((hex_value (CHR ''2'') * 16 + hex_value (CHR ''0'')) * 16 + hex_value (CHR ''2'')) * 16 + hex_value (low_hex (p mod 16))) =
          encode_rune p"
        using 3(2) by (auto simp: hex_value_def [of "CHR ''2''"] hex_value_def [of "CHR ''0''"] byte_def)
      ultimately show ?thesis
        using 3 Cons d line_separators [OF d 3(1,2)] by (subst json_units.simps, subst to_valid.simps) auto
    next
      case 4
      then have "unquote (json_units (drop n s) @ CHR 0x22 # rest) = Some (to_valid (drop n s), rest)"
        using "1.IH"(4) [OF Cons 4(1), of "(p, n)" p n] Cons d by auto
      moreover have "list_all (\<lambda>c. 128 \<le> byte c) (take n s)" using DecodeRune_high [OF d 4(1,3)] Cons by simp
      ultimately show ?thesis
        using 4 Cons d by (subst json_units.simps, subst to_valid.simps) (auto simp: unquote_pass)
    qed
  qed
qed

lemma to_valid_ascii: "list_all (\<lambda>c. byte c < 128) s \<Longrightarrow> to_valid s = s"
proof (induction s)
  case (Cons c s)
  then show ?case by (subst to_valid.simps) (simp add: DecodeRune_def RuneError_def)
qed (subst to_valid.simps, simp)

lemma low_hex_printable: "n < 16 \<Longrightarrow> 32 \<le> byte (low_hex n)"
proof -
  assume "n < 16"
  then have "low_hex n \<in> set ''0123456789abcdef''" unfolding low_hex_def by (intro nth_mem) simp
  then show ?thesis by (auto simp: byte_def)
qed

lemma units_printable: "c \<in> set (json_units s) \<Longrightarrow> 32 \<le> byte c"
proof (induction s rule: json_units.induct)
  case (1 s)
  show ?case
  proof (cases s)
    case Nil
    with "1.prems" show ?thesis by (subst (asm) json_units.simps) simp
  next
    case (Cons x r)
    obtain p n where d: "DecodeRune (x # r) = (p, n)" by fastforce
    show ?thesis
    proof (cases "byte x < 128")
      case True
      have lit: "32 \<le> byte (CHR 0x5C)" "32 \<le> byte (CHR 0x22)" "32 \<le> byte (CHR ''n'')" "32 \<le> byte (CHR ''r'')" "32 \<le> byte (CHR ''u'')" "32 \<le> byte (CHR ''0'')"
        by (simp_all add: byte_def)
      have hex: "32 \<le> byte (low_hex (byte x div 16))" "32 \<le> byte (low_hex (byte x mod 16))"
        using True by (simp_all add: low_hex_printable)
      have esc: "32 \<le> byte c" if "c \<in> set (escape_byte x)"
        using that lit hex by (auto simp: escape_byte_def split: if_splits)
      have "32 \<le> byte c" if "c \<in> set (if escaped x then escape_byte x else [x])"
        using that esc by (cases "escaped x") (auto simp: escaped_def)
      with "1.prems" "1.IH"(1) [OF Cons True] True Cons show ?thesis by (subst (asm) json_units.simps) auto
    next
      case False
      have "32 \<le> byte c" if "c \<in> set (take n s)" "\<not> (p = RuneError \<and> n = 1)"
        using DecodeRune_high [OF d False that(2)] that(1) Cons by (auto simp: list_all_iff)
      moreover have "32 \<le> byte (low_hex (p mod 16))" by (rule low_hex_printable) simp
      moreover have "list_all (\<lambda>c. 32 \<le> byte c) ([CHR 0x5C] @ ''ufffd'')" "list_all (\<lambda>c. 32 \<le> byte c) ([CHR 0x5C] @ ''u202'')"
        by (simp_all add: byte_def)
      ultimately show ?thesis
        using "1.prems" "1.IH"(2-4) [OF Cons False, of "(p, n)" p n] False Cons d
        by (subst (asm) json_units.simps) (auto split: if_splits)
    qed
  qed
qed

section \<open>Properties\<close>

text \<open>C37: A JSON string written by the hand-made encoder cannot be broken out of. Whatever bytes the function
  printed, a reader finds the closing quote exactly at the end and gets the same text back, with invalid UTF-8
  replaced by the replacement character and ASCII unchanged; the text holds no control character, so no line
  feed.\<close>

theorem json_string_roundtrip:
  "hd (ffjsonWriteJSONBytesAsString s) = CHR 0x22
   \<and> unquote (tl (ffjsonWriteJSONBytesAsString s) @ rest) = Some (to_valid s, rest)
   \<and> (list_all (\<lambda>c. byte c < 128) s \<longrightarrow> to_valid s = s)
   \<and> list_all (\<lambda>c. 32 \<le> byte c) (ffjsonWriteJSONBytesAsString s)"
proof -
  have "list_all (\<lambda>c. 32 \<le> byte c) (ffjsonWriteJSONBytesAsString s)"
    using units_printable by (auto simp: ffjsonWriteJSONBytesAsString_def list_all_iff byte_def)
  then show ?thesis
    using unquote_units [of s rest] to_valid_ascii [of s] by (simp add: ffjsonWriteJSONBytesAsString_def)
qed

theorem json_string_roundtrip_witness:
  "unquote (tl (ffjsonWriteJSONBytesAsString [CHR ''a'', CHR 0x0A, CHR 0x22]) @ ''}'') = Some ([CHR ''a'', CHR 0x0A, CHR 0x22], ''}'')"
  using json_string_roundtrip [of "[CHR ''a'', CHR 0x0A, CHR 0x22]" "''}''"] by (simp add: byte_def)

definition no_lf :: "string \<Rightarrow> bool" where
  "no_lf s \<longleftrightarrow> CHR 0x0A \<notin> set s"

lemma no_lf_printable: "list_all (\<lambda>c. 32 \<le> byte c) s \<Longrightarrow> no_lf s"
  by (auto simp: no_lf_def list_all_iff byte_def)

lemma no_lf_append [simp]: "no_lf (s @ t) \<longleftrightarrow> no_lf s \<and> no_lf t"
  by (auto simp: no_lf_def)

lemma no_lf_Cons [simp]: "no_lf (c # s) \<longleftrightarrow> c \<noteq> CHR 0x0A \<and> no_lf s" "no_lf []"
  by (auto simp: no_lf_def)

lemma no_lf_Itoa: "no_lf (Itoa z)"
proof -
  have "CHR 0x0A \<notin> set (digits n)" for n using digits_digit [of "CHR 0x0A" n] by auto
  then show ?thesis by (simp add: no_lf_def Itoa_def)
qed

lemma fields_no_lf:
  "no_lf name \<Longrightarrow> no_lf (fst st) \<Longrightarrow> no_lf (fst (str_field name v st))"
  "no_lf name \<Longrightarrow> no_lf (fst st) \<Longrightarrow> no_lf (fst (int_field name z st))"
proof -
  have j: "no_lf (ffjsonWriteJSONBytesAsString v)"
    using units_printable by (intro no_lf_printable) (auto simp: ffjsonWriteJSONBytesAsString_def list_all_iff byte_def)
  have q: "no_lf [CHR 0x22]" "no_lf [CHR 0x22, CHR '':'']" "no_lf '',''" "no_lf ''''" by (simp_all add: no_lf_def)
  show "no_lf name \<Longrightarrow> no_lf (fst st) \<Longrightarrow> no_lf (fst (str_field name v st))"
    using j q by (cases st) (simp add: str_field_def put_field_def)
  show "no_lf name \<Longrightarrow> no_lf (fst st) \<Longrightarrow> no_lf (fst (int_field name z st))"
    using q no_lf_Itoa by (cases st) (simp add: int_field_def put_field_def)
qed

text \<open>A log record is one line: as long as the time stamp has no line feed, the text of a record ends with a line
  feed and has no other, whatever the function printed and whatever names the request carries. So a line of the log
  file is a record of the system and cannot be forged.\<close>

theorem MarshalJSONBuf_one_line:
  assumes "MarshalJSONBuf l = Some t" "\<And>created. Created_ul l = Some created \<Longrightarrow> no_lf created"
  shows "\<exists>line. t = line @ [CHR 0x0A] \<and> no_lf line"
proof -
  obtain buf first where f: "marshal_fields l = (buf, first)" by fastforce
  have "no_lf (fst (marshal_fields l))" unfolding marshal_fields_def by (simp add: fields_no_lf)
  with f have "no_lf buf" by simp
  moreover obtain created where c: "Created_ul l = Some created" "no_lf created" using assms by (auto simp: MarshalJSONBuf_def f)
  ultimately have "no_lf (buf @ (if first then '''' else '','') @ [CHR 0x22] @ ''ts'' @ [CHR 0x22, CHR '':''] @ created @ [CHR ''}''])" by simp
  moreover have "t = (buf @ (if first then '''' else '','') @ [CHR 0x22] @ ''ts'' @ [CHR 0x22, CHR '':''] @ created @ [CHR ''}'']) @ [CHR 0x0A]"
    using assms(1) f c by (simp add: MarshalJSONBuf_def)
  ultimately show ?thesis by blast
qed

definition sample_log :: UserLog where
  "sample_log = (UserLog_Reset (Some ''2020'') undefined)\<lparr>RequestID_ul := ''r1'', Message_ul := [CHR ''x'', CHR 0x0A, CHR ''y'']\<rparr>"

theorem MarshalJSONBuf_one_line_witness:
  "\<exists>t line. MarshalJSONBuf sample_log = Some t \<and> t = line @ [CHR 0x0A] \<and> no_lf line"
proof -
  obtain t where t: "MarshalJSONBuf sample_log = Some t" by (cases "marshal_fields sample_log") (simp add: MarshalJSONBuf_def, simp add: sample_log_def UserLog_Reset_def)
  from MarshalJSONBuf_one_line [OF t] have "\<exists>line. t = line @ [CHR 0x0A] \<and> no_lf line"
    by (simp add: sample_log_def UserLog_Reset_def no_lf_def)
  with t show ?thesis by blast
qed

section \<open>Lines\<close>

definition lines_of :: "string \<Rightarrow> string list" where
  "lines_of s = filter (\<lambda>l. l \<noteq> []) (split_on (CHR 0x0A) s)"

definition write_count :: "string \<Rightarrow> nat" where
  "write_count s = (if s = [] \<or> last s = CHR 0x0A then length s else length s + 1)"

lemma line_end_None: "line_end s = None \<longleftrightarrow> CHR 0x0A \<notin> set s"
  by (simp add: line_end_def)

lemma line_end_Some:
  assumes "line_end s = Some j"
  shows "s = take j s @ CHR 0x0A # drop (j + 1) s" "CHR 0x0A \<notin> set (take j s)" "length (take j s) = j"
proof -
  from assms have "CHR 0x0A \<in> set s" by (simp add: line_end_def split: if_splits)
  then obtain a b where s: "s = a @ CHR 0x0A # b" and a: "CHR 0x0A \<notin> set a" by (metis split_list_first)
  then have "takeWhile (\<lambda>c. c \<noteq> CHR 0x0A) s = a" by (simp add: takeWhile_tail) (metis takeWhile_eq_all_conv)
  with assms s have "j = length a" by (auto simp: line_end_def)
  with s a show "s = take j s @ CHR 0x0A # drop (j + 1) s" "CHR 0x0A \<notin> set (take j s)" "length (take j s) = j" by auto
qed

lemma write_lines_eq:
  "write_lines emit s = (if \<forall>l \<in> set (lines_of s). emit l \<noteq> None
     then Some (concat (map (the \<circ> emit) (lines_of s)), write_count s) else None)"
proof (induction emit s rule: write_lines.induct)
  case (1 emit s)
  show ?case
  proof (cases "s = []")
    case True
    then show ?thesis by (subst write_lines.simps) (simp add: lines_of_def write_count_def)
  next
    case False
    show ?thesis
    proof (cases "line_end s")
      case None
      then have "CHR 0x0A \<notin> set s" by (simp add: line_end_None)
      moreover from this False have "last s \<noteq> CHR 0x0A" by (metis last_in_set)
      ultimately show ?thesis
        using False None by (subst write_lines.simps) (auto simp: lines_of_def write_count_def split_on_fresh)
    next
      case (Some j)
      define a b where "a = take j s" and "b = drop (j + 1) s"
      have s: "s = a @ CHR 0x0A # b" and a: "CHR 0x0A \<notin> set a"
        using line_end_Some [OF Some] by (simp_all add: a_def b_def)
      have len: "length a = j" using line_end_Some(3) [OF Some] by (simp add: a_def)
      have cnt: "write_count s = j + 1 + write_count b" using s len by (auto simp: write_count_def)
      have ls: "lines_of s = (if a = [] then [] else [a]) @ lines_of b" using s a by (simp add: lines_of_def split_on_append)
      show ?thesis
      proof (cases "j = 0")
        case True
        then have "a = []" "tl s = b" using s len by auto
        with 1(1) [OF False Some True] Some True False cnt ls show ?thesis
          by (subst write_lines.simps) (auto simp: split: option.splits)
      next
        case jn: False
        then have an: "a \<noteq> []" using len by auto
        show ?thesis
        proof (cases "emit a")
          case None
          with Some jn False ls an show ?thesis by (subst write_lines.simps) (simp add: a_def [symmetric])
        next
          case e: (Some t)
          have ds: "drop (Suc j) s = b" "take j s = a" by (simp_all add: a_def b_def)
          with 1(2) [OF False Some jn] e Some jn False ls an cnt show ?thesis
            by (subst write_lines.simps) auto
        qed
      qed
    qed
  qed
qed

lemma write_lines_total: "(\<And>l. emit l = Some (g l)) \<Longrightarrow> write_lines emit s = Some (concat (map g (lines_of s)), write_count s)"
  by (auto simp: write_lines_eq comp_def)

text \<open>What a log file receives: an open file below its capacity gets one stamped line per non-empty line of the
  buffer, in order, and empty lines are dropped. The count it returns is the number of bytes given, and \<^emph>\<open>one more\<close> when
  the last line has no line feed. A file at its capacity takes nothing.\<close>

theorem log_Write_lines:
  assumes "writer f = Some old" "Created_ul l = Some created"
  shows "if 0 < capacity f
    then fst (Plain_Write stamp buf f) = Inr (write_count buf) \<and> fst (JSON_Write l buf f) = Inr (write_count buf)
      \<and> writer (snd (Plain_Write stamp buf f)) = Some (old @ concat (map (\<lambda>line. stamp @ [CHR 0x09] @ line @ [CHR 0x0A]) (lines_of buf)))
      \<and> writer (snd (JSON_Write l buf f)) = Some (old @ concat (map (\<lambda>line. the (MarshalJSONBuf (l\<lparr>Message_ul := line\<rparr>))) (lines_of buf)))
    else Plain_Write stamp buf f = (Inl errOverCapacity, f) \<and> JSON_Write l buf f = (Inl errOverCapacity, f)"
proof -
  have "json_line l line = Some (the (MarshalJSONBuf (l\<lparr>Message_ul := line\<rparr>)))" for line
    using assms(2) by (simp add: json_line_def MarshalJSONBuf_def split: prod.splits)
  from write_lines_total [OF this] write_lines_total [OF plain_line_def] assms(1) show ?thesis
    by (simp add: Plain_Write_def JSON_Write_def Write_with_def)
qed

theorem log_Write_lines_witness:
  "fst (Plain_Write ''t'' ''ab'' \<lparr>writer = Some '''', capacity = 9\<rparr>) = Inr 3"
  using log_Write_lines [of "\<lparr>writer = Some '''', capacity = 9\<rparr>" "''''" sample_log "''2020''" "''t''" "''ab''"]
  by (simp add: write_count_def sample_log_def UserLog_Reset_def)

end
