(* ===== verification/GoPath.thy ===== *)
theory GoPath
  imports GoStrings
begin

text \<open>
  What the program uses of Go's \<open>path\<close> and \<open>path/filepath\<close> packages: the lexical work on slash-separated paths.
\<close>

text \<open>\<open>path.Join\<close> of two parts, with the lexical clean-up of \<open>path.Clean\<close>.\<close>

definition clean_step :: "bool \<Rightarrow> string \<Rightarrow> string list \<Rightarrow> string list" where
  "clean_step rooted p acc =
     (if p = '''' \<or> p = ''.'' then acc
      else if p = ''..'' then (if acc \<noteq> [] \<and> last acc \<noteq> ''..'' then butlast acc else if rooted then acc else acc @ [''..''])
      else acc @ [p])"

definition path_Clean :: "string \<Rightarrow> string" where
  "path_Clean s =
     (let rooted = (s \<noteq> [] \<and> hd s = CHR ''/''); parts = fold (clean_step rooted) (split_on (CHR ''/'') s) []
      in if rooted then ''/'' @ join_with ''/'' parts else if parts = [] then ''.'' else join_with ''/'' parts)"

definition path_Join :: "string \<Rightarrow> string \<Rightarrow> string" where
  "path_Join a b = (case filter (\<lambda>p. p \<noteq> []) [a, b] of [] \<Rightarrow> '''' | ps \<Rightarrow> path_Clean (join_with ''/'' ps))"

text \<open>\<open>path.Split\<close>: everything up to the last slash, and what follows it.\<close>

definition path_Split :: "string \<Rightarrow> string \<times> string" where
  "path_Split s = (case last_index (CHR ''/'') s of None \<Rightarrow> ('''', s) | Some i \<Rightarrow> (take (Suc i) s, drop (Suc i) s))"

definition is_abs :: "string \<Rightarrow> bool" where
  "is_abs s \<longleftrightarrow> HasPrefix s ''/''"

text \<open>\<open>strings.TrimRight\<close> and \<open>strings.TrimLeft\<close> with a set of one character.\<close>

definition trim_right :: "char \<Rightarrow> string \<Rightarrow> string" where
  "trim_right c s = rev (dropWhile (\<lambda>x. x = c) (rev s))"

definition trim_left :: "char \<Rightarrow> string \<Rightarrow> string" where
  "trim_left c s = dropWhile (\<lambda>x. x = c) s"

definition TrimPrefix :: "string \<Rightarrow> string \<Rightarrow> string" where
  "TrimPrefix s p = (if HasPrefix s p then drop (length p) s else s)"

lemma length_trim_right: "length (trim_right c s) \<le> length s"
  using length_dropWhile_le [of "\<lambda>x. x = c" "rev s"] by (simp add: trim_right_def)

definition path_Dir :: "string \<Rightarrow> string" where
  "path_Dir s = path_Clean (fst (path_Split s))"

section \<open>Clean absolute paths\<close>

text \<open>The names a clean absolute path is made of.\<close>

definition proper_name :: "string \<Rightarrow> bool" where
  "proper_name p \<longleftrightarrow> p \<noteq> '''' \<and> p \<noteq> ''.'' \<and> p \<noteq> ''..'' \<and> CHR ''/'' \<notin> set p"

definition abs_path :: "string list \<Rightarrow> string" where
  "abs_path ps = ''/'' @ join_with ''/'' ps"

lemma clean_step_proper:
  assumes "list_all proper_name acc" "CHR ''/'' \<notin> set p"
  shows "list_all proper_name (clean_step True p acc)"
  using assms by (auto simp: clean_step_def list_all_iff proper_name_def dest: in_set_butlastD)

lemma fold_clean_proper:
  assumes "list_all proper_name acc" "\<And>p. p \<in> set ps \<Longrightarrow> CHR ''/'' \<notin> set p"
  shows "list_all proper_name (fold (clean_step True) ps acc)"
  using assms by (induction ps arbitrary: acc) (simp_all add: clean_step_proper)

lemma fold_clean_id: "list_all proper_name ps \<Longrightarrow> fold (clean_step True) ps acc = acc @ ps"
  by (induction ps arbitrary: acc) (simp_all add: clean_step_def proper_name_def)

lemma path_Clean_abs:
  assumes "is_abs s"
  obtains ps where "path_Clean s = abs_path ps" "list_all proper_name ps"
proof -
  from assms have r: "s \<noteq> []" "hd s = CHR ''/''" by (auto simp: is_abs_def HasPrefix_iff)
  have "list_all proper_name (fold (clean_step True) (split_on (CHR ''/'') s) [])"
    by (rule fold_clean_proper) (auto dest: split_on_parts_fresh)
  then show thesis using r by (intro that) (simp add: path_Clean_def Let_def abs_path_def)
qed

lemma split_on_abs_path:
  assumes "list_all proper_name ps" "ps \<noteq> []"
  shows "split_on (CHR ''/'') (abs_path ps) = [] # ps"
  using assms split_on_join [of ps "CHR ''/''"] by (auto simp: abs_path_def list_all_iff proper_name_def)

lemma path_Clean_abs_path: "list_all proper_name ps \<Longrightarrow> path_Clean (abs_path ps) = abs_path ps"
  using split_on_abs_path [of ps] fold_clean_id [of ps "[]"]
  by (cases "ps = []") (auto simp: path_Clean_def Let_def abs_path_def clean_step_def)

lemma join_with_snoc: "ps \<noteq> [] \<Longrightarrow> join_with d (ps @ [p]) = join_with d ps @ d @ p"
  by (induction d ps rule: join_with.induct) auto

lemma path_Split_abs:
  assumes "proper_name p"
  shows "path_Split (abs_path (ps @ [p])) = (if ps = [] then ''/'' else abs_path ps @ ''/'', p)"
proof -
  have p: "CHR ''/'' \<notin> set p" using assms by (simp add: proper_name_def)
  show ?thesis
  proof (cases "ps = []")
    case True
    then show ?thesis using last_index_append [OF p, of "[]"] by (simp add: path_Split_def abs_path_def)
  next
    case False
    then show ?thesis
      using last_index_append [OF p, of "abs_path ps"] by (simp add: path_Split_def abs_path_def join_with_snoc)
  qed
qed

lemma path_Dir_abs:
  assumes "list_all proper_name (ps @ [p])"
  shows "path_Dir (abs_path (ps @ [p])) = abs_path ps"
proof -
  have ps: "list_all proper_name ps" and p: "proper_name p" using assms by simp_all
  show ?thesis
  proof (cases "ps = []")
    case True
    then show ?thesis using path_Split_abs [OF p, of ps] by (simp add: path_Dir_def path_Clean_def abs_path_def clean_step_def)
  next
    case False
    have "split_on (CHR ''/'') (abs_path ps @ ''/'') = ([] # ps) @ [[]]"
    proof -
      have "abs_path ps @ ''/'' = join_with ''/'' (([] # ps) @ [[]])"
        using False join_with_snoc [of "[] # ps" "''/''" "[]"] by (cases ps) (simp_all add: abs_path_def)
      then show ?thesis using ps split_on_join [of "([] # ps) @ [[]]" "CHR ''/''"] by (auto simp: list_all_iff proper_name_def)
    qed
    then have "path_Clean (abs_path ps @ ''/'') = abs_path ps"
      using fold_clean_id [OF ps, of "[]"] by (simp add: path_Clean_def Let_def abs_path_def clean_step_def)
    then show ?thesis using path_Split_abs [OF p, of ps] False by (simp add: path_Dir_def)
  qed
qed

lemma path_Join_abs:
  assumes "is_abs a"
  obtains ps where "path_Join a b = abs_path ps" "list_all proper_name ps"
proof -
  from assms have a: "a \<noteq> []" by (auto simp: is_abs_def HasPrefix_iff)
  have "is_abs (join_with ''/'' (filter (\<lambda>p. p \<noteq> []) [a, b]))" using assms a by (auto simp: is_abs_def HasPrefix_iff)
  then show thesis using that path_Clean_abs a by (auto simp: path_Join_def split: list.splits)
qed

end
