(* ===== verification/LogStore.thy ===== *)
theory LogStore
  imports UserLog GoPath "HOL-Library.AList"
begin

unbundle bit_operations_syntax

text \<open>
  The log store of a request (\<open>src/pkg/controller/rtctrl/logstore.go\<close>): the tail of the log that goes back to the
  caller, the log file, the memory the function used, and the wait for the end of both output streams. What the
  file system answers is an argument; a time stamp is given by its two texts, for the plain and the JSON format.
\<close>

section \<open>Flags\<close>

type_synonym bits = "8 word"

definition flagClosed :: bits where "flagClosed = 1"
definition flagOutdone :: bits where "flagOutdone = 2"
definition flagErrdone :: bits where "flagErrdone = 4"

definition bits_Set :: "bits \<Rightarrow> bits \<Rightarrow> bits" where
  "bits_Set b f = b OR f"

definition bits_Has :: "bits \<Rightarrow> bits \<Rightarrow> bool" where
  "bits_Has b f \<longleftrightarrow> b AND f \<noteq> 0"

section \<open>The store\<close>

record kunLogStatStore =
  requestID_ls :: string
  triggerType_ls :: string
  runtimeID_ls :: string
  userID_ls :: string
  funcName_ls :: string
  funcBrn_ls :: string
  funcVersion_ls :: string
  maxMem :: int
  waitg :: int
  flags :: bits
  remain :: int
  logbuf :: "string option"
  fpath_ls :: string
  logfile :: "log_file option"

definition defaultUserLogLength :: int where "defaultUserLogLength = 4 * 1024"
definition maxUserLogSize :: int where "maxUserLogSize = 6 * 1024 * 1024"
definition logSource :: "string list" where "logSource = [''faas'', ''stdout'', ''stderr'']"
definition errReceiverClosed :: string where "errReceiverClosed = ''buffer has closed''"
definition easyfaasSysLog :: nat where "easyfaasSysLog = 0"
definition StdoutLog :: nat where "StdoutLog = 1"
definition StderrLog :: nat where "StderrLog = 2"
definition UserLogTypePlain :: string where "UserLogTypePlain = ''plain''"
definition userLogSingleFile :: string where "userLogSingleFile = ''controller-userlog.log''"

datatype stat_result = StatOk | StatNotExist | StatError

definition getUserLogPath :: "string \<Rightarrow> string \<Rightarrow> string \<Rightarrow> string \<Rightarrow> string \<Rightarrow> string \<Rightarrow> (string \<Rightarrow> stat_result) \<Rightarrow> bool \<Rightarrow> int \<Rightarrow> string" where
  "getUserLogPath requestID userID funcName funcVer fpath logtype stat mkdir_ok nano =
     (if logtype \<noteq> UserLogTypePlain
      then (if stat fpath \<noteq> StatOk then '''' else path_Join fpath userLogSingleFile)
      else let dir = path_Join fpath (userID @ ''.'' @ funcName @ ''.'' @ dropWhile (\<lambda>c. c = CHR ''$'') funcVer);
               logpath = (case stat dir of StatOk \<Rightarrow> dir | StatNotExist \<Rightarrow> if mkdir_ok then dir else '''' | StatError \<Rightarrow> '''')
           in if logpath = '''' then ''''
              else let file = path_Join logpath (Itoa nano @ ''.'' @ requestID)
                   in if stat file = StatOk then '''' else file)"

record LogStatStoreParameter =
  RequestID_lp :: string
  TriggerType_lp :: string
  RuntimeID_lp :: string
  UserID_lp :: string
  FunctionName_lp :: string
  FunctionBrn_lp :: string
  FunctionVersion_lp :: string
  FilePath_lp :: string
  LogType_lp :: string

text \<open>\<open>opened\<close> is what opening a path gives: an error or the content it has.\<close>

definition newLogStatStore :: "LogStatStoreParameter \<Rightarrow> (string \<Rightarrow> stat_result) \<Rightarrow> bool \<Rightarrow> int \<Rightarrow> (string \<Rightarrow> string + string) \<Rightarrow> kunLogStatStore" where
  "newLogStatStore params stat mkdir_ok nano opened =
     (let logpath = getUserLogPath (RequestID_lp params) (UserID_lp params) (FunctionName_lp params) (FunctionVersion_lp params)
                      (FilePath_lp params) (LogType_lp params) stat mkdir_ok nano;
          (path, file) = (case CreateLogWriter (LogType_lp params) maxUserLogSize (opened logpath) of
              Inl err \<Rightarrow> ('''', None)
            | Inr f \<Rightarrow> (logpath, Some f))
      in \<lparr>requestID_ls = RequestID_lp params, triggerType_ls = TriggerType_lp params, runtimeID_ls = RuntimeID_lp params, userID_ls = UserID_lp params,
          funcName_ls = FunctionName_lp params, funcBrn_ls = FunctionBrn_lp params, funcVersion_ls = FunctionVersion_lp params,
          maxMem = 0, waitg = 2, flags = 0, remain = defaultUserLogLength, logbuf = Some '''', fpath_ls = path, logfile = file\<rparr>)"

definition Receiver :: "kunLogStatStore \<Rightarrow> string" where "Receiver s = runtimeID_ls s"
definition store_String :: "kunLogStatStore \<Rightarrow> string" where "store_String s = requestID_ls s @ ''@'' @ runtimeID_ls s"

definition appendLogbuf :: "string \<Rightarrow> bool \<Rightarrow> kunLogStatStore \<Rightarrow> kunLogStatStore" where
  "appendLogbuf buf force s =
     (if remain s \<le> 0 \<and> \<not> force then s
      else (case logbuf s of
          None \<Rightarrow> s
        | Some old \<Rightarrow>
            let to = (if \<not> force \<and> remain s < int (length buf) then remain s else int (length buf))
            in if to \<le> 0 then s
               else let s1 = s\<lparr>logbuf := Some (old @ take (nat to) buf), remain := remain s - to\<rparr>
                    in if to < int (length buf) \<and> buf ! nat (to - 1) \<noteq> CHR 0x0A
                       then s1\<lparr>logbuf := Some (old @ take (nat to) buf @ [CHR 0x0A]), remain := remain s - to - 1\<rparr>
                       else s1))"

text \<open>\<open>waitg.Done\<close> panics below zero.\<close>

definition waitg_Done :: "kunLogStatStore \<Rightarrow> kunLogStatStore outcome" where
  "waitg_Done s = (if waitg s \<le> 0 then Panic ''sync: negative WaitGroup counter'' else Value (s\<lparr>waitg := waitg s - 1\<rparr>))"

definition setFlagLocked :: "bits \<Rightarrow> kunLogStatStore \<Rightarrow> kunLogStatStore outcome" where
  "setFlagLocked flag s =
     (if bits_Has (flags s) flag then Value s
      else obind (if flag = flagOutdone \<or> flag = flagErrdone then waitg_Done s else Value s) (\<lambda>s1.
           Value (s1\<lparr>flags := bits_Set (flags s1) flag\<rparr>)))"

definition outLogDone :: "kunLogStatStore \<Rightarrow> kunLogStatStore outcome" where
  "outLogDone s = (if bits_Has (flags s) flagOutdone then Value s else setFlagLocked flagOutdone s)"

definition errLogDone :: "kunLogStatStore \<Rightarrow> kunLogStatStore outcome" where
  "errLogDone s = (if bits_Has (flags s) flagErrdone then Value s else setFlagLocked flagErrdone s)"

text \<open>A time stamp by its two texts.\<close>

type_synonym stamp = "string \<times> string option"

definition log_entry :: "stamp \<Rightarrow> string \<Rightarrow> string \<Rightarrow> int \<Rightarrow> int \<Rightarrow> string \<Rightarrow> int \<Rightarrow> kunLogStatStore \<Rightarrow> UserLog" where
  "log_entry clk source message time mem mode status s =
     \<lparr>RequestID_ul = requestID_ls s, FunctionBrn_ul = funcBrn_ls s, TriggerType_ul = triggerType_ls s, RuntimeID_ul = runtimeID_ls s,
      FuncName_ul = funcName_ls s, Version_ul = funcVersion_ls s, UserID_ul = userID_ls s, Source_ul = source, Message_ul = message,
      InvocationTime_ul = time, MemoryUsage_ul = mem, Mode_ul = mode, ResponseStatus_ul = status, Created_ul = snd clk\<rparr>"

definition write_file :: "stamp \<Rightarrow> UserLog \<Rightarrow> string \<Rightarrow> log_file \<Rightarrow> kunLogStatStore \<Rightarrow> (string + nat) \<times> kunLogStatStore" where
  "write_file clk l buf f s = (case file_Write (fst clk) l buf f of (r, f') \<Rightarrow> (r, s\<lparr>logfile := Some f'\<rparr>))"

definition WriteStdLog :: "stamp \<Rightarrow> nat \<Rightarrow> string \<Rightarrow> bool \<Rightarrow> kunLogStatStore \<Rightarrow> ((string + nat) \<times> kunLogStatStore) outcome" where
  "WriteStdLog clk src buf eof s =
     (if bits_Has (flags s) flagClosed then Value (Inl errReceiverClosed, s)
      else obind (if eof then (if src = StdoutLog then outLogDone s else if src = StderrLog then errLogDone s else Value s) else Value s) (\<lambda>s1.
           if buf = [] then Value (Inr 0, s1)
           else let s2 = appendLogbuf buf False s1
                in (case logfile s2 of
                     None \<Rightarrow> Value (Inr (length buf), s2)
                   | Some f \<Rightarrow>
                       if length logSource \<le> src then Panic ''index out of range''
                       else Value (write_file clk (log_entry clk (logSource ! src) '''' (- 1) (- 1) '''' (- 1) s2) buf f s2))))"

definition WriteFunctionLog :: "stamp \<Rightarrow> string \<Rightarrow> kunLogStatStore \<Rightarrow> string option \<times> kunLogStatStore" where
  "WriteFunctionLog clk log s =
     (if bits_Has (flags s) flagClosed then (Some errReceiverClosed, s)
      else let s1 = appendLogbuf log True s
           in (case logfile s1 of
                None \<Rightarrow> (None, s1)
              | Some f \<Rightarrow> (case write_file clk (log_entry clk (logSource ! easyfaasSysLog) log (- 1) (- 1) '''' (- 1) s1) log f s1 of
                  (Inl err, s2) \<Rightarrow> (Some err, s2) | (Inr _, s2) \<Rightarrow> (None, s2))))"

record reportParameters =
  InvocationTime_rp :: int
  MemUsage_rp :: int
  Mode_rp :: string
  Status_rp :: int

definition WriteFunctionReportLog :: "stamp \<Rightarrow> string \<Rightarrow> reportParameters \<Rightarrow> kunLogStatStore \<Rightarrow> string option \<times> kunLogStatStore" where
  "WriteFunctionReportLog clk log params s =
     (if bits_Has (flags s) flagClosed then (Some errReceiverClosed, s)
      else let s1 = appendLogbuf log True s
           in (case logfile s1 of
                None \<Rightarrow> (None, s1)
              | Some f \<Rightarrow> (case write_file clk (log_entry clk (logSource ! easyfaasSysLog) log (InvocationTime_rp params) (MemUsage_rp params)
                    (Mode_rp params) (Status_rp params) s1) log f s1 of
                  (Inl err, s2) \<Rightarrow> (Some err, s2) | (Inr _, s2) \<Rightarrow> (None, s2))))"

definition SetMemUsed :: "int \<Rightarrow> kunLogStatStore \<Rightarrow> kunLogStatStore" where
  "SetMemUsed used s = (if maxMem s < used then s\<lparr>maxMem := used\<rparr> else s)"

definition LogFile :: "kunLogStatStore \<Rightarrow> string" where "LogFile s = fpath_ls s"
definition MemUsed :: "kunLogStatStore \<Rightarrow> int" where "MemUsed s = maxMem s"

definition LogData :: "kunLogStatStore \<Rightarrow> string \<times> kunLogStatStore" where
  "LogData s = (case logbuf s of None \<Rightarrow> ('''', s) | Some data \<Rightarrow> (data, s\<lparr>logbuf := None\<rparr>))"

definition LogDone :: "bool \<Rightarrow> kunLogStatStore \<Rightarrow> (bool \<times> kunLogStatStore) outcome" where
  "LogDone do_set s =
     (if \<not> do_set
      then Value (bits_Has (flags s) flagOutdone \<and> bits_Has (flags s) flagErrdone, s)
      else obind (setFlagLocked flagErrdone s) (\<lambda>s1. obind (setFlagLocked flagOutdone s1) (\<lambda>s2. Value (True, s2))))"

definition store_Close :: "kunLogStatStore \<Rightarrow> ((string + string) \<times> kunLogStatStore) outcome" where
  "store_Close s =
     (if bits_Has (flags s) flagClosed then Value (Inl errReceiverClosed, s)
      else obind (setFlagLocked flagClosed s) (\<lambda>s1. obind (setFlagLocked flagErrdone s1) (\<lambda>s2. obind (setFlagLocked flagOutdone s2) (\<lambda>s3.
           case LogData s3 of (data, s4) \<Rightarrow> Value (Inr data, s4\<lparr>logfile := None\<rparr>)))))"

text \<open>\<open>Wait\<close> returns once the wait group is empty.\<close>

definition store_Wait :: "kunLogStatStore \<Rightarrow> bool" where "store_Wait s \<longleftrightarrow> waitg s = 0"

section \<open>Well-formed stores\<close>

lemma bits_Has_Set: "bits_Has (bits_Set b f) g \<longleftrightarrow> bits_Has b g \<or> f AND g \<noteq> 0"
  by (auto simp: bits_Has_def bits_Set_def bit.conj_disj_distrib2 or_eq_0_iff)

lemma flags_differ [simp]:
  "flagClosed AND flagOutdone = 0" "flagClosed AND flagErrdone = 0" "flagOutdone AND flagErrdone = 0"
  "flagOutdone AND flagClosed = 0" "flagErrdone AND flagClosed = 0" "flagErrdone AND flagOutdone = 0"
  "flagClosed AND flagClosed \<noteq> 0" "flagOutdone AND flagOutdone \<noteq> 0" "flagErrdone AND flagErrdone \<noteq> 0"
  "flagClosed \<noteq> flagOutdone" "flagClosed \<noteq> flagErrdone" "flagOutdone \<noteq> flagErrdone"
  "flagOutdone \<noteq> flagClosed" "flagErrdone \<noteq> flagClosed" "flagErrdone \<noteq> flagOutdone"
  "flagClosed \<noteq> 0" "flagOutdone \<noteq> 0" "flagErrdone \<noteq> 0"
  by (simp_all add: flagClosed_def flagOutdone_def flagErrdone_def)

lemma bits_Has_zero [simp]: "\<not> bits_Has 0 f"
  by (simp add: bits_Has_def)

text \<open>The wait group counts the streams that have not ended; an open store has its buffer, whose length and the room
  left add up; a closed store has given buffer and file away.\<close>

definition store_wf :: "kunLogStatStore \<Rightarrow> bool" where
  "store_wf s \<longleftrightarrow>
     waitg s = (if bits_Has (flags s) flagOutdone then 0 else 1) + (if bits_Has (flags s) flagErrdone then 0 else 1)
     \<and> (if bits_Has (flags s) flagClosed
        then bits_Has (flags s) flagOutdone \<and> bits_Has (flags s) flagErrdone \<and> logbuf s = None \<and> logfile s = None
        else \<exists>b. logbuf s = Some b \<and> int (length b) = defaultUserLogLength - remain s)"

lemma newLogStatStore_wf: "store_wf (newLogStatStore params stat mkdir_ok nano opened)"
  by (simp add: newLogStatStore_def store_wf_def Let_def split: sum.splits)

lemma appendLogbuf_fields [simp]:
  "flags (appendLogbuf buf force s) = flags s" "waitg (appendLogbuf buf force s) = waitg s" "logfile (appendLogbuf buf force s) = logfile s"
  by (auto simp: appendLogbuf_def Let_def split: option.splits)

lemma appendLogbuf_room:
  assumes "logbuf s = Some b" "int (length b) = K - remain s"
  shows "\<exists>b'. logbuf (appendLogbuf buf force s) = Some b' \<and> int (length b') = K - remain (appendLogbuf buf force s)"
  using assms by (auto simp: appendLogbuf_def Let_def)

lemma appendLogbuf_wf: "store_wf s \<Longrightarrow> store_wf (appendLogbuf buf force s)"
proof (cases "bits_Has (flags s) flagClosed")
  case True
  moreover assume wf: "store_wf s"
  moreover from True wf have "appendLogbuf buf force s = s" by (simp add: appendLogbuf_def store_wf_def)
  ultimately show ?thesis by simp
next
  case False
  moreover assume wf: "store_wf s"
  moreover from False wf obtain b where "logbuf s = Some b" "int (length b) = defaultUserLogLength - remain s" by (auto simp: store_wf_def)
  from appendLogbuf_room [OF this] False wf show ?thesis by (auto simp: store_wf_def)
qed

lemma write_file_wf: "store_wf s \<Longrightarrow> \<not> bits_Has (flags s) flagClosed \<Longrightarrow> store_wf (snd (write_file clk l buf f s))"
  by (auto simp: write_file_def store_wf_def split: prod.splits)

definition counted :: "kunLogStatStore \<Rightarrow> bool" where
  "counted s \<longleftrightarrow> waitg s = (if bits_Has (flags s) flagOutdone then 0 else 1) + (if bits_Has (flags s) flagErrdone then 0 else 1)"

lemma setFlag_run:
  assumes "counted s" "flag = flagOutdone \<or> flag = flagErrdone"
  obtains s' where "setFlagLocked flag s = Value s'" "counted s'" "bits_Has (flags s') flag" "\<forall>g. bits_Has (flags s) g \<longrightarrow> bits_Has (flags s') g"
    "bits_Has (flags s') flagClosed = bits_Has (flags s) flagClosed" "s' = s\<lparr>waitg := waitg s', flags := flags s'\<rparr>"
proof (cases "bits_Has (flags s) flag")
  case True
  with assms show ?thesis by (intro that [of s]) (simp_all add: setFlagLocked_def)
next
  case False
  then have "0 < waitg s" using assms by (auto simp: counted_def)
  with False assms show ?thesis
    by (intro that [of "s\<lparr>waitg := waitg s - 1, flags := bits_Set (flags s) flag\<rparr>"])
      (auto simp: setFlagLocked_def waitg_Done_def counted_def bits_Has_Set)
qed

lemma setFlag_stream:
  assumes "store_wf s" "flag = flagOutdone \<or> flag = flagErrdone"
  obtains s' where "setFlagLocked flag s = Value s'" "store_wf s'" "bits_Has (flags s') flag" "bits_Has (flags s') flagClosed = bits_Has (flags s) flagClosed"
    "logbuf s' = logbuf s" "logfile s' = logfile s" "remain s' = remain s"
proof -
  have "counted s" using assms(1) by (simp add: store_wf_def counted_def)
  then obtain s' where s': "setFlagLocked flag s = Value s'" "counted s'" "bits_Has (flags s') flag" "\<forall>g. bits_Has (flags s) g \<longrightarrow> bits_Has (flags s') g"
      "bits_Has (flags s') flagClosed = bits_Has (flags s) flagClosed" "s' = s\<lparr>waitg := waitg s', flags := flags s'\<rparr>"
    using assms(2) by (rule setFlag_run)
  have f: "logbuf s' = logbuf s" "logfile s' = logfile s" "remain s' = remain s" by (subst s'(6), simp)+
  with s' assms(1) have "store_wf s'" by (simp add: store_wf_def counted_def)
  with s' f show ?thesis by (intro that [of s'])
qed

section \<open>Runs of a store\<close>

datatype log_op =
    LWrite stamp nat string bool
  | LSystem stamp string
  | LReport stamp string reportParameters
  | LMem int
  | LDone bool
  | LClose

fun log_step :: "log_op \<Rightarrow> kunLogStatStore \<Rightarrow> kunLogStatStore outcome" where
  "log_step (LWrite clk src buf eof) s = obind (WriteStdLog clk src buf eof s) (\<lambda>(_, s'). Value s')"
| "log_step (LSystem clk log) s = Value (snd (WriteFunctionLog clk log s))"
| "log_step (LReport clk log params) s = Value (snd (WriteFunctionReportLog clk log params s))"
| "log_step (LMem used) s = Value (SetMemUsed used s)"
| "log_step (LDone b) s = obind (LogDone b s) (\<lambda>(_, s'). Value s')"
| "log_step LClose s = obind (store_Close s) (\<lambda>(_, s'). Value s')"

fun log_run :: "log_op list \<Rightarrow> kunLogStatStore \<Rightarrow> kunLogStatStore outcome" where
  "log_run [] s = Value s"
| "log_run (e # es) s = obind (log_step e s) (log_run es)"

fun op_ok :: "log_op \<Rightarrow> bool" where
  "op_ok (LWrite clk src buf eof) = (src = StdoutLog \<or> src = StderrLog)"
| "op_ok _ = True"

text \<open>The bytes the system itself adds to the tail.\<close>

fun forced :: "log_op \<Rightarrow> nat" where
  "forced (LSystem clk log) = length log"
| "forced (LReport clk log params) = length log"
| "forced _ = 0"

lemma stream_done_eq: "outLogDone s = setFlagLocked flagOutdone s" "errLogDone s = setFlagLocked flagErrdone s"
  by (simp_all add: outLogDone_def errLogDone_def setFlagLocked_def)

lemma stream_done:
  assumes "store_wf s" "src = StdoutLog \<or> src = StderrLog"
  obtains s' where "(if eof then (if src = StdoutLog then outLogDone s else if src = StderrLog then errLogDone s else Value s) else Value s) = Value s'"
    "store_wf s'" "bits_Has (flags s') flagClosed = bits_Has (flags s) flagClosed" "logbuf s' = logbuf s" "logfile s' = logfile s" "remain s' = remain s"
proof (cases eof)
  case True
  define flag where "flag = (if src = StdoutLog then flagOutdone else flagErrdone)"
  have "flag = flagOutdone \<or> flag = flagErrdone" by (simp add: flag_def)
  then obtain s' where s': "setFlagLocked flag s = Value s'" "store_wf s'" "bits_Has (flags s') flagClosed = bits_Has (flags s) flagClosed"
      "logbuf s' = logbuf s" "logfile s' = logfile s" "remain s' = remain s"
    by (rule setFlag_stream [OF assms(1)])
  have "(if eof then (if src = StdoutLog then outLogDone s else if src = StderrLog then errLogDone s else Value s) else Value s) = setFlagLocked flag s"
    using True assms(2) by (auto simp: stream_done_eq flag_def)
  with s' show ?thesis by (intro that [of s']) simp_all
next
  case False
  with assms(1) show ?thesis by (intro that [of s]) simp_all
qed

lemma WriteStdLog_run:
  assumes "store_wf s" "src = StdoutLog \<or> src = StderrLog"
  obtains r s' where "WriteStdLog clk src buf eof s = Value (r, s')" "store_wf s'" "bits_Has (flags s') flagClosed = bits_Has (flags s) flagClosed"
    "\<not> bits_Has (flags s) flagClosed \<Longrightarrow> remain s' = remain (appendLogbuf buf False s) \<and> logbuf s' = logbuf (appendLogbuf buf False s)"
    "bits_Has (flags s) flagClosed \<Longrightarrow> s' = s \<and> r = Inl errReceiverClosed"
proof (cases "bits_Has (flags s) flagClosed")
  case True
  with assms show ?thesis by (intro that [of "Inl errReceiverClosed" s]) (simp_all add: WriteStdLog_def)
next
  case False
  obtain s1 where s1: "(if eof then (if src = StdoutLog then outLogDone s else if src = StderrLog then errLogDone s else Value s) else Value s) = Value s1"
      "store_wf s1" "\<not> bits_Has (flags s1) flagClosed" "logbuf s1 = logbuf s" "logfile s1 = logfile s" "remain s1 = remain s"
    by (rule stream_done [OF assms, of eof]) (use False in simp)
  define s2 where "s2 = appendLogbuf buf False s1"
  have s2: "store_wf s2" "\<not> bits_Has (flags s2) flagClosed" "remain s2 = remain (appendLogbuf buf False s)" "logbuf s2 = logbuf (appendLogbuf buf False s)"
    using s1 by (auto simp: s2_def appendLogbuf_wf) (auto simp: appendLogbuf_def Let_def split: option.splits)
  have src: "\<not> length logSource \<le> src" using assms(2) by (auto simp: logSource_def StdoutLog_def StderrLog_def)
  have run: "WriteStdLog clk src buf eof s = (if buf = [] then Value (Inr 0, s1) else (case logfile s2 of
        None \<Rightarrow> Value (Inr (length buf), s2)
      | Some f \<Rightarrow> Value (write_file clk (log_entry clk (logSource ! src) '''' (- 1) (- 1) '''' (- 1) s2) buf f s2)))"
    by (simp only: WriteStdLog_def False s1(1) obind.simps Let_def s2_def [symmetric] src if_False)
  show ?thesis
  proof (cases "buf = []")
    case True
    with False s1 run show ?thesis by (intro that [of "Inr 0" s1]) (auto simp: appendLogbuf_def split: option.splits)
  next
    case bn: False
    show ?thesis
    proof (cases "logfile s2")
      case None
      with False bn run s2 show ?thesis by (intro that [of "Inr (length buf)" s2]) simp_all
    next
      case (Some f)
      obtain r s3 where w: "write_file clk (log_entry clk (logSource ! src) '''' (- 1) (- 1) '''' (- 1) s2) buf f s2 = (r, s3)" by fastforce
      have "store_wf s3" "remain s3 = remain s2" "logbuf s3 = logbuf s2" "flags s3 = flags s2"
        using write_file_wf [OF s2(1,2)] w by (metis snd_conv) (use w in \<open>auto simp: write_file_def split: prod.splits\<close>)
      with False bn run s2 Some w show ?thesis by (intro that [of r s3]) simp_all
    qed
  qed
qed

lemma appendLogbuf_remain:
  "min (remain s) (- 1) \<le> remain (appendLogbuf buf False s)"
  "remain s - int (length buf) \<le> remain (appendLogbuf buf True s)"
  by (auto simp: appendLogbuf_def Let_def split: option.splits)

lemma system_write:
  assumes "store_wf s" "w = snd (WriteFunctionLog clk log s) \<or> w = snd (WriteFunctionReportLog clk log params s)"
  shows "store_wf w" "bits_Has (flags s) flagClosed \<Longrightarrow> w = s" "\<not> bits_Has (flags w) flagClosed \<Longrightarrow> remain s - int (length log) \<le> remain w"
    "bits_Has (flags w) flagClosed = bits_Has (flags s) flagClosed"
proof -
  define s1 where "s1 = appendLogbuf log True s"
  have s1: "store_wf s1" "remain s - int (length log) \<le> remain s1" "flags s1 = flags s"
    using appendLogbuf_wf [OF assms(1)] appendLogbuf_remain(2) by (simp_all add: s1_def)
  have in_file: "store_wf (snd (write_file clk l log f s1)) \<and> remain (snd (write_file clk l log f s1)) = remain s1 \<and>
      flags (snd (write_file clk l log f s1)) = flags s1" if "\<not> bits_Has (flags s) flagClosed" for l f
    using write_file_wf [OF s1(1), of clk l log f] that s1(3) by (simp add: write_file_def split: prod.splits)
  have "w = (if bits_Has (flags s) flagClosed then s else (case logfile s1 of None \<Rightarrow> s1 | Some f \<Rightarrow> snd (write_file clk l log f s1)))"
    if "l = (if w = snd (WriteFunctionLog clk log s) then log_entry clk (logSource ! easyfaasSysLog) log (- 1) (- 1) '''' (- 1) s1
        else log_entry clk (logSource ! easyfaasSysLog) log (InvocationTime_rp params) (MemUsage_rp params) (Mode_rp params) (Status_rp params) s1)" for l
    using assms(2) that
    by (auto simp: WriteFunctionLog_def WriteFunctionReportLog_def s1_def [symmetric] Let_def split: option.splits prod.splits sum.splits)
  then obtain l where w: "w = (if bits_Has (flags s) flagClosed then s else (case logfile s1 of None \<Rightarrow> s1 | Some f \<Rightarrow> snd (write_file clk l log f s1)))"
    by metis
  show "store_wf w" "bits_Has (flags s) flagClosed \<Longrightarrow> w = s" "\<not> bits_Has (flags w) flagClosed \<Longrightarrow> remain s - int (length log) \<le> remain w"
    "bits_Has (flags w) flagClosed = bits_Has (flags s) flagClosed"
    using w in_file s1 assms(1) by (auto split: option.splits)
qed

lemma LogDone_run:
  assumes "store_wf s"
  obtains r s' where "LogDone b s = Value (r, s')" "store_wf s'" "remain s' = remain s" "bits_Has (flags s') flagClosed = bits_Has (flags s) flagClosed"
    "bits_Has (flags s) flagClosed \<Longrightarrow> s' = s"
proof (cases b)
  case True
  obtain s1 where s1: "setFlagLocked flagErrdone s = Value s1" "store_wf s1" "bits_Has (flags s1) flagClosed = bits_Has (flags s) flagClosed" "remain s1 = remain s"
    by (rule setFlag_stream [OF assms, of flagErrdone]) auto
  obtain s2 where s2: "setFlagLocked flagOutdone s1 = Value s2" "store_wf s2" "bits_Has (flags s2) flagClosed = bits_Has (flags s1) flagClosed" "remain s2 = remain s1"
    by (rule setFlag_stream [OF s1(2), of flagOutdone]) auto
  have "bits_Has (flags s) flagClosed \<Longrightarrow> s2 = s" using assms s1(1) s2(1) by (auto simp: store_wf_def setFlagLocked_def)
  with True s1 s2 show ?thesis by (intro that [of True s2]) (simp_all add: LogDone_def)
next
  case False
  with assms show ?thesis by (intro that [of "bits_Has (flags s) flagOutdone \<and> bits_Has (flags s) flagErrdone" s]) (simp_all add: LogDone_def)
qed

lemma store_Close_run:
  assumes "store_wf s" "\<not> bits_Has (flags s) flagClosed" "logbuf s = Some data"
  obtains s' where "store_Close s = Value (Inr data, s')" "store_wf s'" "bits_Has (flags s') flagClosed"
proof -
  define s1 where "s1 = s\<lparr>flags := bits_Set (flags s) flagClosed\<rparr>"
  have s1: "setFlagLocked flagClosed s = Value s1" "counted s1" "bits_Has (flags s1) flagClosed"
    using assms by (simp_all add: s1_def setFlagLocked_def counted_def store_wf_def bits_Has_Set)
  obtain s2 where s2: "setFlagLocked flagErrdone s1 = Value s2" "counted s2" "bits_Has (flags s2) flagErrdone"
      "bits_Has (flags s2) flagClosed = bits_Has (flags s1) flagClosed" "s2 = s1\<lparr>waitg := waitg s2, flags := flags s2\<rparr>"
    by (rule setFlag_run [OF s1(2), of flagErrdone]) auto
  obtain s3 where s3: "setFlagLocked flagOutdone s2 = Value s3" "counted s3" "bits_Has (flags s3) flagOutdone" "bits_Has (flags s3) flagErrdone"
      "bits_Has (flags s3) flagClosed = bits_Has (flags s2) flagClosed" "s3 = s2\<lparr>waitg := waitg s3, flags := flags s3\<rparr>"
    by (rule setFlag_run [OF s2(2), of flagOutdone]) (use s2(3) in auto)
  have "logbuf s3 = Some data" using s3(6) s2(5) assms(3) by (metis (no_types, lifting) kunLogStatStore.select_convs(12) kunLogStatStore.surjective
        kunLogStatStore.update_convs(10) kunLogStatStore.update_convs(9) s1_def)
  then have "store_Close s = Value (Inr data, s3\<lparr>logbuf := None, logfile := None\<rparr>)"
    using assms(2) s1(1) s2(1) s3(1) by (simp add: store_Close_def LogData_def)
  moreover have "store_wf (s3\<lparr>logbuf := None, logfile := None\<rparr>)" "bits_Has (flags (s3\<lparr>logbuf := None, logfile := None\<rparr>)) flagClosed"
    using s1 s2 s3 by (simp_all add: store_wf_def counted_def)
  ultimately show ?thesis by (rule that)
qed

lemma log_step_wf:
  assumes "store_wf s" "op_ok e"
  obtains s' where "log_step e s = Value s'" "store_wf s'" "\<not> bits_Has (flags s') flagClosed \<Longrightarrow> \<not> bits_Has (flags s) flagClosed \<and>
      min (remain s) (- 1) - int (forced e) \<le> remain s'"
    "bits_Has (flags s) flagClosed \<Longrightarrow> s' = s\<lparr>maxMem := maxMem s'\<rparr>"
proof (cases e)
  case (LWrite clk src buf eof)
  with assms(2) have "src = StdoutLog \<or> src = StderrLog" by simp
  then obtain r s' where w: "WriteStdLog clk src buf eof s = Value (r, s')" "store_wf s'" "bits_Has (flags s') flagClosed = bits_Has (flags s) flagClosed"
    "\<not> bits_Has (flags s) flagClosed \<Longrightarrow> remain s' = remain (appendLogbuf buf False s) \<and> logbuf s' = logbuf (appendLogbuf buf False s)"
    "bits_Has (flags s) flagClosed \<Longrightarrow> s' = s \<and> r = Inl errReceiverClosed"
    by (rule WriteStdLog_run [OF assms(1)]) blast
  with LWrite appendLogbuf_remain(1) [of s buf] show ?thesis by (intro that [of s']) simp_all
next
  case (LSystem clk log)
  define w where "w = snd (WriteFunctionLog clk log s)"
  note sw = system_write [OF assms(1) disjI1 [OF w_def]]
  have "log_step e s = Value w" by (simp add: LSystem w_def)
  then show ?thesis by (rule that) (use sw in \<open>auto simp: LSystem\<close>)
next
  case (LReport clk log params)
  define w where "w = snd (WriteFunctionReportLog clk log params s)"
  note sw = system_write [OF assms(1) disjI2 [OF w_def]]
  have "log_step e s = Value w" by (simp add: LReport w_def)
  then show ?thesis by (rule that) (use sw in \<open>auto simp: LReport\<close>)
next
  case (LMem used)
  have "store_wf (SetMemUsed used s)" "flags (SetMemUsed used s) = flags s" "remain (SetMemUsed used s) = remain s"
    "SetMemUsed used s = s\<lparr>maxMem := maxMem (SetMemUsed used s)\<rparr>"
    using assms(1) by (simp_all add: SetMemUsed_def store_wf_def)
  then show ?thesis by (intro that [of "SetMemUsed used s"]) (simp_all add: LMem)
next
  case (LDone b)
  obtain r s' where "LogDone b s = Value (r, s')" "store_wf s'" "remain s' = remain s" "bits_Has (flags s') flagClosed = bits_Has (flags s) flagClosed"
    "bits_Has (flags s) flagClosed \<Longrightarrow> s' = s" by (rule LogDone_run [OF assms(1)]) blast
  then show ?thesis by (intro that [of s']) (simp_all add: LDone)
next
  case LClose
  show ?thesis
  proof (cases "bits_Has (flags s) flagClosed")
    case True
    with assms(1) LClose show ?thesis by (intro that [of s]) (simp_all add: store_Close_def)
  next
    case False
    then obtain data where "logbuf s = Some data" using assms(1) by (auto simp: store_wf_def)
    from store_Close_run [OF assms(1) False this] obtain s' where "store_Close s = Value (Inr data, s')" "store_wf s'" "bits_Has (flags s') flagClosed" .
    with LClose False show ?thesis by (intro that [of s']) simp_all
  qed
qed

lemma log_run_wf:
  assumes "store_wf s" "list_all op_ok es" "\<not> bits_Has (flags s) flagClosed \<Longrightarrow> - 1 - B \<le> remain s" "0 \<le> B"
  shows "\<exists>s'. log_run es s = Value s' \<and> store_wf s' \<and> (bits_Has (flags s) flagClosed \<longrightarrow> s' = s\<lparr>maxMem := maxMem s'\<rparr>) \<and>
    (\<not> bits_Has (flags s') flagClosed \<longrightarrow> - 1 - B - int (sum_list (map forced es)) \<le> remain s')"
  using assms
proof (induction es arbitrary: s B)
  case Nil
  then show ?case by auto
next
  case (Cons e es)
  obtain s1 where s1: "log_step e s = Value s1" "store_wf s1" "\<not> bits_Has (flags s1) flagClosed \<Longrightarrow> \<not> bits_Has (flags s) flagClosed \<and>
      min (remain s) (- 1) - int (forced e) \<le> remain s1" "bits_Has (flags s) flagClosed \<Longrightarrow> s1 = s\<lparr>maxMem := maxMem s1\<rparr>"
    by (rule log_step_wf [of s e]) (use Cons.prems in auto)
  have "- 1 - (B + int (forced e)) \<le> remain s1" if "\<not> bits_Has (flags s1) flagClosed" using s1(3) [OF that] Cons.prems(3,4) by auto
  from Cons.IH [OF s1(2) _ this] Cons.prems(2,4) obtain s' where s': "log_run es s1 = Value s'" "store_wf s'"
    "bits_Has (flags s1) flagClosed \<longrightarrow> s' = s1\<lparr>maxMem := maxMem s'\<rparr>"
    "\<not> bits_Has (flags s') flagClosed \<longrightarrow> - 1 - (B + int (forced e)) - int (sum_list (map forced es)) \<le> remain s'" by auto
  have "s' = s\<lparr>maxMem := maxMem s'\<rparr>" if c: "bits_Has (flags s) flagClosed"
  proof -
    have a: "s1 = s\<lparr>maxMem := maxMem s1\<rparr>" by (rule s1(4) [OF c])
    then have "flags s1 = flags s" by (metis kunLogStatStore.ext_inject kunLogStatStore.surjective kunLogStatStore.update_convs(8))
    with c s'(3) have b: "s' = s1\<lparr>maxMem := maxMem s'\<rparr>" by simp
    show ?thesis by (subst b, subst a) simp
  qed
  with s1(1) s' show ?case by (auto simp: algebra_simps)
qed

section \<open>Properties of the store\<close>

text \<open>C16: A log store whose writers name the standard output or the standard error stream never panics, and its tail is bounded: after
  any sequence of writes, reports, end-of-stream marks and closings, the wait group counts exactly the streams that have not ended, and
  the tail kept for the caller has at most 4097 bytes plus those of the lines the system itself wrote. (The limit of the code is
  4096; the line feed it adds to a cut line comes on top of that.)\<close>

theorem log_store_runs:
  assumes "list_all op_ok es"
  shows "\<exists>s. log_run es (newLogStatStore params stat mkdir_ok nano opened) = Value s \<and> store_wf s \<and>
    (\<forall>tail. logbuf s = Some tail \<longrightarrow> length tail \<le> 4097 + sum_list (map forced es))"
proof -
  have wf: "store_wf (newLogStatStore params stat mkdir_ok nano opened)" by (rule newLogStatStore_wf)
  have "remain (newLogStatStore params stat mkdir_ok nano opened) = 4096"
    by (simp add: newLogStatStore_def defaultUserLogLength_def Let_def split: sum.splits)
  with log_run_wf [OF wf assms, of 0] obtain s where s: "log_run es (newLogStatStore params stat mkdir_ok nano opened) = Value s" "store_wf s"
    "\<not> bits_Has (flags s) flagClosed \<longrightarrow> - 1 - int (sum_list (map forced es)) \<le> remain s" by auto
  then show ?thesis by (auto simp: store_wf_def defaultUserLogLength_def split: if_splits)
qed

theorem log_store_runs_witness:
  "\<exists>s. log_run [LWrite (''t'', None) 1 ''abc'' True, LSystem (''t'', None) ''END'', LClose]
      (newLogStatStore \<lparr>RequestID_lp = ''r'', TriggerType_lp = '''', RuntimeID_lp = ''p'', UserID_lp = ''u'', FunctionName_lp = ''f'',
        FunctionBrn_lp = '''', FunctionVersion_lp = ''1'', FilePath_lp = ''/tmp'', LogType_lp = ''none''\<rparr> (\<lambda>_. StatOk) True 7 (\<lambda>_. Inr '''')) = Value s"
  using log_store_runs [of "[LWrite (''t'', None) 1 ''abc'' True, LSystem (''t'', None) ''END'', LClose]"] by (fastforce simp: StdoutLog_def)

text \<open>Closing is final and gives the tail out once: the first \<open>Close\<close> returns the buffer and lets every waiter go, and
  whatever is called afterwards changes nothing but the memory mark; a second \<open>Close\<close> is an error.\<close>

theorem closed_store_final:
  assumes "store_wf s" "store_Close s = Value (Inr data, s1)" "list_all op_ok es"
  shows "logbuf s = Some data \<and> store_Wait s1 \<and> store_Close s1 = Value (Inl errReceiverClosed, s1) \<and>
    (\<exists>s2. log_run es s1 = Value s2 \<and> s2 = s1\<lparr>maxMem := maxMem s2\<rparr>)"
proof -
  have open_s: "\<not> bits_Has (flags s) flagClosed" using assms(2) by (auto simp: store_Close_def)
  then obtain b where b: "logbuf s = Some b" using assms(1) by (auto simp: store_wf_def)
  from store_Close_run [OF assms(1) open_s b] obtain s' where "store_Close s = Value (Inr b, s')" "store_wf s'" "bits_Has (flags s') flagClosed" .
  with assms(2) have c: "b = data" "store_wf s1" "bits_Has (flags s1) flagClosed" by simp_all
  moreover have "store_Wait s1" using c by (simp add: store_Wait_def store_wf_def)
  moreover have "store_Close s1 = Value (Inl errReceiverClosed, s1)" using c by (simp add: store_Close_def)
  moreover obtain s2 where "log_run es s1 = Value s2" "s2 = s1\<lparr>maxMem := maxMem s2\<rparr>"
    using log_run_wf [OF c(2) assms(3), of 0] c(3) by auto
  ultimately show ?thesis using b by blast
qed

definition sample_store :: kunLogStatStore where
  "sample_store = \<lparr>requestID_ls = ''r1'', triggerType_ls = '''', runtimeID_ls = ''p'', userID_ls = ''u'', funcName_ls = ''f'', funcBrn_ls = '''',
     funcVersion_ls = ''1'', maxMem = 0, waitg = 2, flags = 0, remain = 4096, logbuf = Some '''', fpath_ls = '''', logfile = None\<rparr>"

lemma sample_store_wf: "store_wf sample_store"
  by (simp add: sample_store_def store_wf_def defaultUserLogLength_def)

theorem closed_store_final_witness:
  "\<exists>s1. store_Close sample_store = Value (Inr '''', s1) \<and> store_Close s1 = Value (Inl errReceiverClosed, s1)"
proof -
  obtain s1 where s1: "store_Close sample_store = Value (Inr '''', s1)"
    by (rule store_Close_run [OF sample_store_wf, of "''''"]) (auto simp: sample_store_def)
  with closed_store_final [OF sample_store_wf s1, of "[]"] show ?thesis by auto
qed

end
