(* ===== verification/LogDispatch.thy ===== *)
theory LogDispatch
  imports LogStore
begin

text \<open>
  Where log bytes go (\<open>src/pkg/controller/rtctrl/log_dispatcher.go\<close>, \<open>stat_receiver.go\<close>): the stores of a runtime's
  requests, the map of all runtimes, and the reader that cuts the bytes of an output stream into lines and hands
  each line to a store. Stores are addressed by numbers, and comparing pointers is comparing numbers. The
  reader's buffer is modelled by the bytes in use; the positions after the last line feed and after the last
  tab, \<open>lastln + 1\<close> and \<open>lastTab + 1\<close> in the code, are natural numbers.
\<close>

section \<open>Stores of a runtime\<close>

record logStatStoreMap =
  runtimeID_sm :: string
  lastReqID :: string
  storeMap_sm :: "(string \<times> nat) list"

definition newLogStatStoreMap :: "string \<Rightarrow> logStatStoreMap" where
  "newLogStatStoreMap runtimeID = \<lparr>runtimeID_sm = runtimeID, lastReqID = '''', storeMap_sm = []\<rparr>"

definition lsm_set :: "string \<Rightarrow> nat \<Rightarrow> logStatStoreMap \<Rightarrow> logStatStoreMap" where
  "lsm_set requestID store ls = ls\<lparr>storeMap_sm := AList.update requestID store (storeMap_sm ls), lastReqID := requestID\<rparr>"

definition lsm_get :: "string \<Rightarrow> logStatStoreMap \<Rightarrow> nat option" where
  "lsm_get requestID ls = map_of (storeMap_sm ls) requestID"

definition getLast :: "logStatStoreMap \<Rightarrow> string + nat option" where
  "getLast ls =
     (if lastReqID ls \<noteq> ''''
      then (case map_of (storeMap_sm ls) (lastReqID ls) of
          None \<Rightarrow> Inl (''get log store of last request id '' @ lastReqID ls @ '' failed'')
        | Some store \<Rightarrow> Inr (Some store))
      else Inr None)"

definition lsm_del :: "string \<Rightarrow> nat \<Rightarrow> logStatStoreMap \<Rightarrow> logStatStoreMap" where
  "lsm_del requestID store ls = (case map_of (storeMap_sm ls) requestID of
     None \<Rightarrow> ls
   | Some old \<Rightarrow> if old = store then ls\<lparr>storeMap_sm := AList.delete requestID (storeMap_sm ls), lastReqID := ''''\<rparr> else ls)"

definition lsm_String :: "logStatStoreMap \<Rightarrow> string" where
  "lsm_String ls = ''logStoreMap-'' @ runtimeID_sm ls"

section \<open>All runtimes\<close>

text \<open>The values of the \<open>sync.Map\<close> are maps of a runtime, so the type assertions succeed.\<close>

type_synonym storeMap = "string \<rightharpoonup> logStatStoreMap"

definition setNXMap :: "string \<Rightarrow> storeMap \<Rightarrow> storeMap" where
  "setNXMap runtimeID m = (case m runtimeID of Some _ \<Rightarrow> m | None \<Rightarrow> m(runtimeID \<mapsto> newLogStatStoreMap runtimeID))"

definition getMap :: "string \<Rightarrow> storeMap \<Rightarrow> logStatStoreMap option" where
  "getMap runtimeID m = m runtimeID"

definition delMap :: "string \<Rightarrow> storeMap \<Rightarrow> storeMap" where
  "delMap runtimeID m = m(runtimeID := None)"

definition storeMap_get :: "string \<Rightarrow> string \<Rightarrow> storeMap \<Rightarrow> nat option" where
  "storeMap_get runtimeID requestID m = (case m runtimeID of None \<Rightarrow> None | Some sm \<Rightarrow> lsm_get requestID sm)"

definition storeMap_set :: "string \<Rightarrow> string \<Rightarrow> nat \<Rightarrow> storeMap \<Rightarrow> storeMap" where
  "storeMap_set runtimeID requestID store m =
     (let sm = (case m runtimeID of Some sm \<Rightarrow> sm | None \<Rightarrow> newLogStatStoreMap runtimeID)
      in m(runtimeID \<mapsto> lsm_set requestID store sm))"

definition storeMap_del :: "string \<Rightarrow> string \<Rightarrow> nat \<Rightarrow> storeMap \<Rightarrow> storeMap" where
  "storeMap_del runtimeID requestID store m = (case m runtimeID of
     None \<Rightarrow> m | Some sm \<Rightarrow> m(runtimeID \<mapsto> lsm_del requestID store sm))"

section \<open>The memory statistics\<close>

record statsConn =
  name_sc :: string
  conn_sc :: nat
  memused :: int

type_synonym statsMap = "string \<rightharpoonup> nat"

definition statsMap_get :: "string \<Rightarrow> statsMap \<Rightarrow> nat option" where
  "statsMap_get runtimeid m = m runtimeid"

definition statsMap_set :: "string \<Rightarrow> nat \<Rightarrow> statsMap \<Rightarrow> statsMap" where
  "statsMap_set runtimeid sc m = m(runtimeid \<mapsto> sc)"

definition statsMap_del :: "string \<Rightarrow> nat \<Rightarrow> statsMap \<Rightarrow> statsMap" where
  "statsMap_del runtimeid sc m = (case m runtimeid of None \<Rightarrow> m | Some old \<Rightarrow> if old = sc then m(runtimeid := None) else m)"

section \<open>Reading a stream\<close>

record log_world =
  lsm_w :: logStatStoreMap
  stores_w :: "nat \<Rightarrow> kunLogStatStore"

definition write_to :: "stamp \<Rightarrow> nat \<Rightarrow> nat \<Rightarrow> string \<Rightarrow> bool \<Rightarrow> log_world \<Rightarrow> ((string + nat) \<times> log_world) outcome" where
  "write_to clk src a buf eof w =
     obind (WriteStdLog clk src buf eof (stores_w w a)) (\<lambda>(r, s). Value (r, w\<lparr>stores_w := (stores_w w)(a := s)\<rparr>))"

lemma write_lines_count: "write_lines emit s = Some (t, n) \<Longrightarrow> length s \<le> n"
  by (auto simp: write_lines_eq write_count_def split: if_splits)

lemma file_Write_count: "file_Write stamp l buf f = (Inr n, f') \<Longrightarrow> length buf \<le> n"
  by (cases f) (auto simp: Plain_Write_def JSON_Write_def Write_with_def write_lines_count split: option.splits if_splits prod.splits)

lemma WriteStdLog_count: "WriteStdLog clk src buf eof s = Value (Inr n, s') \<Longrightarrow> length buf \<le> n"
  by (auto simp: WriteStdLog_def write_file_def outcome_simps Let_def dest!: file_Write_count split: if_splits option.splits prod.splits)

lemma write_to_count: "write_to clk src a buf eof w = Value (Inr n, w') \<Longrightarrow> length buf \<le> n"
  by (auto simp: write_to_def outcome_simps WriteStdLog_count)

definition slice :: "string \<Rightarrow> nat \<Rightarrow> nat \<Rightarrow> string" where
  "slice s i j = take (j - i) (drop i s)"

lemma length_slice: "j \<le> length s \<Longrightarrow> length (slice s i j) = j - i"
  by (simp add: slice_def)

text \<open>The scan of the buffer from position \<open>i\<close>: \<open>start\<close> is where the current line begins, \<open>tab\<close> the position after the last
  tab, \<open>cnt\<close> the number of tabs seen in the line, \<open>cur\<close> the store and \<open>nzero\<close> the number of end marks seen. The result
  has the buffer without its end marks.\<close>

function (sequential) scan :: "stamp \<Rightarrow> nat \<Rightarrow> string \<Rightarrow> nat \<Rightarrow> nat \<Rightarrow> nat \<Rightarrow> nat \<Rightarrow> nat \<Rightarrow> nat \<Rightarrow> log_world \<Rightarrow>
    (string \<times> nat \<times> nat \<times> nat \<times> nat \<times> log_world) outcome" where
  "scan clk src buf i start tab cnt cur nzero w =
     (if length buf \<le> i then Value (buf, start, cnt, cur, nzero, w)
      else if buf ! i = CHR 0x00
      then let buf' = take i buf @ drop (i + 1) buf
           in obind (write_to clk src cur (slice buf' start i) True w) (\<lambda>(r, w').
                case r of
                  Inl err \<Rightarrow> scan clk src buf' i i 0 0 cur (nzero + 1) w'
                | Inr nwrite \<Rightarrow>
                    if nwrite = i - start then scan clk src buf' i i 0 0 cur (nzero + 1) w'
                    else scan clk src buf' (start + nwrite) start tab cnt cur (nzero + 1) w')
      else if buf ! i = CHR 0x0A
      then obind (write_to clk src cur (slice buf start (i + 1)) False w) (\<lambda>(r, w').
             case r of
               Inl err \<Rightarrow> scan clk src buf (i + 1) (i + 1) 0 0 cur nzero w'
             | Inr nwrite \<Rightarrow>
                 if nwrite = i + 1 - start then scan clk src buf (i + 1) (i + 1) 0 0 cur nzero w'
                 else scan clk src buf (start + nwrite) start tab cnt cur nzero w')
      else if buf ! i = CHR 0x09
      then let cur' = (if cnt + 1 = 2 then (case lsm_get (slice buf tab i) (lsm_w w) of Some lls \<Rightarrow> lls | None \<Rightarrow> cur) else cur)
           in scan clk src buf (i + 1) start (i + 1) (cnt + 1) cur' nzero w
      else scan clk src buf (i + 1) start tab cnt cur nzero w)"
  by pat_completeness auto
termination
proof -
  have zero: "length buf - Suc (start + n) < length buf - i"
    if "write_to clk src cur (slice (take i buf @ drop (Suc i) buf) start i) True w = Value (Inr n, w')" "i < length buf"
    for clk src cur buf start i n and w w' :: log_world
    using write_to_count [OF that(1)] that(2) by (auto simp: length_slice)
  have line: "length buf - (start + n) < length buf - i"
    if "write_to clk src cur (slice buf start (Suc i)) False w = Value (Inr n, w')" "i < length buf"
    for clk src cur buf start i n and w w' :: log_world
    using write_to_count [OF that(1)] that(2) by (auto simp: length_slice)
  show ?thesis
    by (relation "measure (\<lambda>(clk, src, buf, i, rest). length buf - i)") (auto dest: zero line)
qed

declare scan.simps [simp del]

text \<open>One turn of the outer loop of \<open>Read\<close>: \<open>data\<close> was read behind the bytes \<open>pending\<close> from the turn before, \<open>cnt\<close> is the tab
  count kept from it.\<close>

definition read_step :: "stamp \<Rightarrow> nat \<Rightarrow> nat \<Rightarrow> string \<Rightarrow> string \<times> nat \<Rightarrow> log_world \<Rightarrow> ((string \<times> nat) \<times> log_world) outcome" where
  "read_step clk src bufferLength data st w =
     (case st of (pending, cnt) \<Rightarrow>
      if storeMap_sm (lsm_w w) = [] then Value (('''', cnt), w)
      else (case getLast (lsm_w w) of
          Inl err \<Rightarrow> Value (('''', cnt), w)
        | Inr None \<Rightarrow> Value (('''', cnt), w)
        | Inr (Some ls) \<Rightarrow>
            obind (scan clk src (pending @ data) 0 0 0 cnt ls 0 w) (\<lambda>(buf, start, cnt', cur, nzero, w1).
              if nzero = 0 \<and> start = 0
              then (if length buf = bufferLength
                    then obind (write_to clk src cur (buf @ [CHR 0x0A]) False w1) (\<lambda>(r, w2).
                           case r of
                             Inl err \<Rightarrow> Value (('''', 0), w2)
                           | Inr nwrite \<Rightarrow>
                               if nwrite = length buf + 1 then Value (('''', 0), w2)
                               else if 0 < nwrite
                               then let next' = length buf - nwrite; part = slice (buf @ [CHR 0x0A]) nwrite (next' + 1)
                                    in if length buf < nwrite \<or> next' + 1 < nwrite then Panic ''slice bounds out of range''
                                       else Value ((take next' (part @ drop (length part) buf), 0), w2)
                               else Value ((buf, 0), w2))
                    else Value ((buf, cnt'), w1))
              else Value ((drop start buf, 0), w1))))"

fun read_all :: "nat \<Rightarrow> nat \<Rightarrow> (stamp \<times> string) list \<Rightarrow> string \<times> nat \<Rightarrow> log_world \<Rightarrow> ((string \<times> nat) \<times> log_world) outcome" where
  "read_all src bufferLength [] st w = Value (st, w)"
| "read_all src bufferLength ((clk, data) # rest) st w =
     obind (read_step clk src bufferLength data st w) (\<lambda>(st', w'). read_all src bufferLength rest st' w')"

section \<open>Scanning\<close>

definition ordinary :: "char \<Rightarrow> bool" where
  "ordinary c \<longleftrightarrow> c \<noteq> CHR 0x00 \<and> c \<noteq> CHR 0x0A \<and> c \<noteq> CHR 0x09"

lemma scan_skip:
  "list_all ordinary (slice buf i j) \<Longrightarrow> i \<le> j \<Longrightarrow> j \<le> length buf \<Longrightarrow>
     scan clk src buf i start tab cnt cur nz w = scan clk src buf j start tab cnt cur nz w"
proof (induction "j - i" arbitrary: i)
  case (Suc n)
  then have i: "i < j" "i < length buf" by simp_all
  then have "slice buf i j = buf ! i # slice buf (Suc i) j"
    by (simp add: slice_def Cons_nth_drop_Suc [symmetric] take_Cons' Suc_diff_Suc)
  with Suc.prems have "ordinary (buf ! i)" "list_all ordinary (slice buf (Suc i) j)" by simp_all
  moreover have "n = j - Suc i" using Suc(2) by simp
  ultimately show ?case using Suc i by (subst scan.simps) (simp add: ordinary_def)
qed (simp add: le_antisym)

lemma scan_end: "length buf \<le> i \<Longrightarrow> scan clk src buf i start tab cnt cur nz w = Value (buf, start, cnt, cur, nz, w)"
  by (subst scan.simps) simp

lemma scan_tab:
  "i < length buf \<Longrightarrow> buf ! i = CHR 0x09 \<Longrightarrow> scan clk src buf i start tab cnt cur nz w =
     scan clk src buf (i + 1) start (i + 1) (cnt + 1)
       (if cnt + 1 = 2 then (case lsm_get (slice buf tab i) (lsm_w w) of Some lls \<Rightarrow> lls | None \<Rightarrow> cur) else cur) nz w"
  by (subst scan.simps) simp

lemma scan_line:
  "i < length buf \<Longrightarrow> buf ! i = CHR 0x0A \<Longrightarrow> write_to clk src cur (slice buf start (i + 1)) False w = Value (Inr (i + 1 - start), w') \<Longrightarrow>
     scan clk src buf i start tab cnt cur nz w = scan clk src buf (i + 1) (i + 1) 0 0 cur nz w'"
  by (subst scan.simps) simp

section \<open>A split line is misrouted\<close>

lemma slice_append_left: "length x = n \<Longrightarrow> slice (x @ y) 0 n = x"
  by (simp add: slice_def)

lemma slice_middle: "slice (x @ y @ z) (length x) (length x + length y) = y"
  by (simp add: slice_def)

definition plain_store :: "kunLogStatStore \<Rightarrow> bool" where
  "plain_store s \<longleftrightarrow> \<not> bits_Has (flags s) flagClosed \<and> logfile s = None"

lemma write_plain_store:
  "plain_store (stores_w w a) \<Longrightarrow> buf \<noteq> [] \<Longrightarrow>
     write_to clk src a buf False w = Value (Inr (length buf), w\<lparr>stores_w := (stores_w w)(a := appendLogbuf buf False (stores_w w a))\<rparr>)"
  by (simp add: write_to_def WriteStdLog_def plain_store_def Let_def)

text \<open>The scan of a line with two tabs, from the state that \<open>cnt\<close> tabs have been counted.\<close>

lemma scan_two_tabs:
  fixes x r m :: string
  defines "line \<equiv> x @ [CHR 0x09] @ r @ [CHR 0x09] @ m @ [CHR 0x0A]"
  assumes ord: "list_all ordinary x" "list_all ordinary r" "list_all ordinary m"
    and cur: "cur' = (if cnt = 0 then (case lsm_get r (lsm_w w) of Some lls \<Rightarrow> lls | None \<Rightarrow> cur)
                      else if cnt = 1 then (case lsm_get x (lsm_w w) of Some lls \<Rightarrow> lls | None \<Rightarrow> cur) else cur)"
    and st: "plain_store (stores_w w cur')"
  shows "scan clk src line 0 0 0 cnt cur 0 w =
    Value (line, length line, 0, cur', 0, w\<lparr>stores_w := (stores_w w)(cur' := appendLogbuf line False (stores_w w cur'))\<rparr>)"
proof -
  define i1 i2 i3 where i: "i1 = length x" "i2 = i1 + 1 + length r" "i3 = i2 + 1 + length m"
  have len: "length line = i3 + 1" by (simp add: line_def i)
  have at: "line ! i1 = CHR 0x09" "line ! i2 = CHR 0x09" "line ! i3 = CHR 0x0A"
    by (simp_all add: line_def i nth_append)
  have s: "slice line 0 i1 = x" "slice line (i1 + 1) i2 = r" "slice line (i2 + 1) i3 = m" "slice line 0 (i3 + 1) = line"
    by (simp_all add: line_def i slice_def)
  define cur1 where "cur1 = (if cnt + 1 = 2 then (case lsm_get x (lsm_w w) of Some lls \<Rightarrow> lls | None \<Rightarrow> cur) else cur)"
  have c2: "(if cnt + 1 + 1 = 2 then (case lsm_get r (lsm_w w) of Some lls \<Rightarrow> lls | None \<Rightarrow> cur1) else cur1) = cur'"
    using cur by (cases "cnt = 0") (simp_all add: cur1_def split: option.split)
  have i2: "i2 < length line" by (simp add: len i)
  have wr: "write_to clk src cur' (slice line 0 (i3 + 1)) False w =
      Value (Inr (i3 + 1 - 0), w\<lparr>stores_w := (stores_w w)(cur' := appendLogbuf line False (stores_w w cur'))\<rparr>)"
    using write_plain_store [OF st, of line clk src] s(4) len by (simp add: line_def)
  have "scan clk src line 0 0 0 cnt cur 0 w = scan clk src line i1 0 0 cnt cur 0 w"
    using ord(1) s(1) len i by (intro scan_skip) simp_all
  also have "\<dots> = scan clk src line (i1 + 1) 0 (i1 + 1) (cnt + 1) cur1 0 w"
    using scan_tab [of i1 line] at(1) len i s(1) by (simp add: cur1_def)
  also have "\<dots> = scan clk src line i2 0 (i1 + 1) (cnt + 1) cur1 0 w"
    using ord(2) s(2) len i by (intro scan_skip) simp_all
  also have "\<dots> = scan clk src line (i2 + 1) 0 (i2 + 1) (cnt + 1 + 1) cur' 0 w"
    using scan_tab [OF i2 at(2), of clk src 0 "i1 + 1" "cnt + 1" cur1 0 w] unfolding s(2) c2 .
  also have "\<dots> = scan clk src line i3 0 (i2 + 1) (cnt + 1 + 1) cur' 0 w"
    using ord(3) s(3) len i by (intro scan_skip) simp_all
  also have "\<dots> = scan clk src line (i3 + 1) (i3 + 1) 0 0 cur' 0
      (w\<lparr>stores_w := (stores_w w)(cur' := appendLogbuf line False (stores_w w cur'))\<rparr>)"
    using len by (intro scan_line at wr) simp
  also have "\<dots> = Value (line, length line, 0, cur', 0, w\<lparr>stores_w := (stores_w w)(cur' := appendLogbuf line False (stores_w w cur'))\<rparr>)"
    by (simp add: scan_end len)
  finally show ?thesis .
qed

text \<open>Log lines of a runtime that serves several requests name their request in the second field. A line that arrives
  in one piece goes to the store of that request. The same line cut after its first tab by the network goes to the
  request that started last: the tab is counted again when the buffer is scanned anew, and the first field is taken
  for the request.\<close>

theorem split_line_misrouted:
  fixes x r m :: string
  defines "line \<equiv> x @ [CHR 0x09] @ r @ [CHR 0x09] @ m @ [CHR 0x0A]"
  assumes "list_all ordinary x" "list_all ordinary r" "list_all ordinary m" "length line < bufferLength"
    and "getLast (lsm_w w) = Inr (Some b)" "lsm_get r (lsm_w w) = Some a" "lsm_get x (lsm_w w) = None"
    and "plain_store (stores_w w a)" "plain_store (stores_w w b)"
  shows "read_all src bufferLength [(clk, line)] ('''', 0) w =
      Value (('''', 0), w\<lparr>stores_w := (stores_w w)(a := appendLogbuf line False (stores_w w a))\<rparr>)
    \<and> read_all src bufferLength [(clk, x @ [CHR 0x09]), (clk, r @ [CHR 0x09] @ m @ [CHR 0x0A])] ('''', 0) w =
      Value (('''', 0), w\<lparr>stores_w := (stores_w w)(b := appendLogbuf line False (stores_w w b))\<rparr>)"
proof -
  have ne: "storeMap_sm (lsm_w w) \<noteq> []" using assms(7) by (auto simp: lsm_get_def)
  have l0: "length line \<noteq> 0" by (simp add: line_def)
  have whole: "scan clk src line 0 0 0 0 b 0 w =
      Value (line, length line, 0, a, 0, w\<lparr>stores_w := (stores_w w)(a := appendLogbuf line False (stores_w w a))\<rparr>)"
    unfolding line_def by (rule scan_two_tabs [OF assms(2-4)]) (use assms(7,9) in auto)
  have again: "scan clk src line 0 0 0 1 b 0 w =
      Value (line, length line, 0, b, 0, w\<lparr>stores_w := (stores_w w)(b := appendLogbuf line False (stores_w w b))\<rparr>)"
    unfolding line_def by (rule scan_two_tabs [OF assms(2-4)]) (use assms(8,10) in auto)
  have "scan clk src (x @ [CHR 0x09]) 0 0 0 0 b 0 w = scan clk src (x @ [CHR 0x09]) (length x) 0 0 0 b 0 w"
    using assms(2) by (intro scan_skip) (simp_all add: slice_def)
  also have "\<dots> = Value (x @ [CHR 0x09], 0, 1, b, 0, w)"
    using scan_tab [of "length x" "x @ [CHR 0x09]" clk src 0 0 0 b 0 w] by (simp add: scan_end nth_append)
  finally have first: "scan clk src (x @ [CHR 0x09]) 0 0 0 0 b 0 w = Value (x @ [CHR 0x09], 0, 1, b, 0, w)" .
  have "length (x @ [CHR 0x09]) \<noteq> bufferLength" using assms(5) by (simp add: line_def)
  then have step1: "read_step clk src bufferLength (x @ [CHR 0x09]) ('''', 0) w = Value ((x @ [CHR 0x09], 1), w)"
    using ne assms(6) first by (simp add: read_step_def)
  have cat: "(x @ [CHR 0x09]) @ r @ [CHR 0x09] @ m @ [CHR 0x0A] = line" by (simp add: line_def)
  have step2: "read_step clk src bufferLength (r @ [CHR 0x09] @ m @ [CHR 0x0A]) (x @ [CHR 0x09], 1) w =
      Value (('''', 0), w\<lparr>stores_w := (stores_w w)(b := appendLogbuf line False (stores_w w b))\<rparr>)"
    using ne assms(6) again l0 unfolding read_step_def prod.case cat by simp
  have "read_step clk src bufferLength line ('''', 0) w =
      Value (('''', 0), w\<lparr>stores_w := (stores_w w)(a := appendLogbuf line False (stores_w w a))\<rparr>)"
    using ne assms(6) whole l0 by (simp add: read_step_def)
  with step1 step2 show ?thesis by simp
qed

section \<open>Stores with a log file\<close>

text \<open>Store \<open>a\<close> is open and writes to a plain file with content \<open>c\<close> and room for \<open>k\<close> bytes.\<close>

definition file_is :: "log_world \<Rightarrow> nat \<Rightarrow> string \<Rightarrow> int \<Rightarrow> bool" where
  "file_is w a c k \<longleftrightarrow> store_wf (stores_w w a) \<and> \<not> bits_Has (flags (stores_w w a)) flagClosed \<and>
     logfile (stores_w w a) = Some (PlainFile \<lparr>writer = Some c, capacity = k\<rparr>)"

definition stamped :: "string \<Rightarrow> string \<Rightarrow> string" where
  "stamped stamp s = concat (map (\<lambda>l. stamp @ [CHR 0x09] @ l @ [CHR 0x0A]) (lines_of s))"

lemma i32_id: "- (2 ^ 31) \<le> x \<Longrightarrow> x < 2 ^ 31 \<Longrightarrow> i32 x = x"
  by (simp add: i32_def)

lemma write_file_is:
  assumes "file_is w a c k" "0 < k" "k < 2 ^ 31" "int (length buf) < k" "buf \<noteq> []" "src = StdoutLog \<or> src = StderrLog"
  obtains w' where "write_to clk src a buf eof w = Value (Inr (write_count buf), w')" "file_is w' a (c @ stamped (fst clk) buf) (k - int (write_count buf))"
    "lsm_w w' = lsm_w w"
proof -
  let ?s = "stores_w w a"
  have wf: "store_wf ?s" and op: "\<not> bits_Has (flags ?s) flagClosed" using assms(1) by (simp_all add: file_is_def)
  obtain s1 where s1: "(if eof then (if src = StdoutLog then outLogDone ?s else if src = StderrLog then errLogDone ?s else Value ?s) else Value ?s) = Value s1"
      "store_wf s1" "bits_Has (flags s1) flagClosed = bits_Has (flags ?s) flagClosed" "logbuf s1 = logbuf ?s" "logfile s1 = logfile ?s" "remain s1 = remain ?s"
    by (rule stream_done [OF wf assms(6)])
  define s2 where "s2 = appendLogbuf buf False s1"
  have s2: "store_wf s2" "flags s2 = flags s1" "logfile s2 = Some (PlainFile \<lparr>writer = Some c, capacity = k\<rparr>)"
    using appendLogbuf_wf [OF s1(2)] s1(5) assms(1) by (simp_all add: s2_def file_is_def)
  have src: "\<not> length logSource \<le> src" using assms(6) by (auto simp: logSource_def StdoutLog_def StderrLog_def)
  have cnt: "int (write_count buf) \<le> k" using assms(4) by (simp add: write_count_def)
  have k: "i32 (k + i32 (- int (write_count buf))) = k - int (write_count buf)"
    using assms(2,3) cnt by (subst (2) i32_id) (simp_all add: i32_id)
  define s3 where "s3 = s2\<lparr>logfile := Some (PlainFile \<lparr>writer = Some (c @ stamped (fst clk) buf), capacity = k - int (write_count buf)\<rparr>)\<rparr>"
  have "write_file clk l buf (PlainFile \<lparr>writer = Some c, capacity = k\<rparr>) s2 = (Inr (write_count buf), s3)" for l
    using assms(2) k write_lines_total [OF plain_line_def]
    by (simp add: write_file_def Plain_Write_def Write_with_def s3_def stamped_def)
  then have "WriteStdLog clk src buf eof ?s = Value (Inr (write_count buf), s3)"
    using op s1(1) s2(3) src assms(5) by (simp only: WriteStdLog_def obind.simps Let_def s2_def [symmetric] option.case if_False)
  then have "write_to clk src a buf eof w = Value (Inr (write_count buf), w\<lparr>stores_w := (stores_w w)(a := s3)\<rparr>)" by (simp add: write_to_def)
  moreover have "file_is (w\<lparr>stores_w := (stores_w w)(a := s3)\<rparr>) a (c @ stamped (fst clk) buf) (k - int (write_count buf))"
    using s2 s1(3) op by (simp add: file_is_def s3_def store_wf_def)
  ultimately show ?thesis by (intro that [of "w\<lparr>stores_w := (stores_w w)(a := s3)\<rparr>"]) simp_all
qed

lemma lines_of_single: "CHR 0x0A \<notin> set l \<Longrightarrow> l \<noteq> [] \<Longrightarrow> lines_of l = [l]"
  by (simp add: lines_of_def split_on_fresh)

lemma split_on_general: "split_on c (x @ c # y) = split_on c x @ split_on c y"
proof (induction x)
  case (Cons d x)
  then show ?case by (cases "split_on c x") simp_all
qed simp

lemma lines_of_append: "lines_of (x @ CHR 0x0A # y) = lines_of x @ lines_of y"
  by (simp add: lines_of_def split_on_general)

text \<open>The end mark of a request does not end its last line. If a function's output ends without a line feed and
  the request has a log file, the reader writes the line, takes the count that is one too large for a partial
  write, and keeps the line in its buffer; with the first line of the next request it is written once more, into the
  next request's log.\<close>

theorem end_mark_leaks_line:
  assumes "list_all ordinary l" "l \<noteq> []" "getLast (lsm_w w) = Inr (Some a)" "storeMap_sm (lsm_w w) \<noteq> []" "file_is w a c k" "int (length l) < k" "k < 2 ^ 31"
    and "src = StdoutLog \<or> src = StderrLog"
  shows "\<exists>w1. read_step clk src bufferLength (l @ [CHR 0x00]) ('''', 0) w = Value ((l, 0), w1) \<and> file_is w1 a (c @ stamped (fst clk) l) (k - int (length l) - 1)
    \<and> (\<forall>w2 rid b m c' k' bufferLength'. rid \<noteq> '''' \<and> lsm_w w2 = lsm_set rid b (lsm_w w1) \<and> file_is w2 b c' k' \<and> int (length (l @ m)) + 1 < k' \<and> k' < 2 ^ 31 \<and> list_all ordinary m
        \<longrightarrow> (\<exists>w3. read_step clk src bufferLength' (m @ [CHR 0x0A]) (l, 0) w2 = Value (('''', 0), w3) \<and> file_is w3 b (c' @ stamped (fst clk) (l @ m)) (k' - int (length (l @ m)) - 1)))"
proof -
  have lf: "CHR 0x0A \<notin> set l" using assms(1) by (auto simp: list_all_iff ordinary_def)
  then have "last l \<noteq> CHR 0x0A" using assms(2) by (metis last_in_set)
  then have wc: "write_count l = length l + 1" using assms(2) by (auto simp: write_count_def)
  have "0 < k" using assms(6) by simp
  then obtain w1 where w1: "write_to clk src a l True w = Value (Inr (write_count l), w1)"
      "file_is w1 a (c @ stamped (fst clk) l) (k - int (write_count l))" "lsm_w w1 = lsm_w w"
    by (rule write_file_is [OF assms(5) _ assms(7,6,2,8)])
  have "scan clk src (l @ [CHR 0x00]) 0 0 0 0 a 0 w = scan clk src (l @ [CHR 0x00]) (length l) 0 0 0 a 0 w"
    using assms(1) by (intro scan_skip) (simp_all add: slice_def)
  also have "\<dots> = Value (l, 0, 0, a, 1, w1)"
    using w1(1) wc by (subst scan.simps) (simp add: nth_append slice_def scan_end)
  finally have "read_step clk src bufferLength (l @ [CHR 0x00]) ('''', 0) w = Value ((l, 0), w1)"
    using assms(3,4) by (simp add: read_step_def)
  moreover have "\<exists>w3. read_step clk src bufferLength' (m @ [CHR 0x0A]) (l, 0) w2 = Value (('''', 0), w3) \<and>
      file_is w3 b (c' @ stamped (fst clk) (l @ m)) (k' - int (length (l @ m)) - 1)"
    if h: "lsm_w w2 = lsm_set rid b (lsm_w w1)" "file_is w2 b c' k'" "int (length (l @ m)) + 1 < k'" "k' < 2 ^ 31" "list_all ordinary m" "rid \<noteq> ''''"
    for w2 rid b m c' k' bufferLength'
  proof -
    have last_b: "getLast (lsm_w w2) = Inr (Some b)" "storeMap_sm (lsm_w w2) \<noteq> []"
      using h(6) by (simp_all add: h(1) getLast_def lsm_set_def update_conv)
    let ?buf = "l @ m @ [CHR 0x0A]"
    have wc2: "write_count ?buf = length (l @ m) + 1" by (simp add: write_count_def)
    have "0 < k'" "int (length ?buf) < k'" "?buf \<noteq> []" using h(3) by simp_all
    then obtain w3 where w3: "write_to clk src b ?buf False w2 = Value (Inr (write_count ?buf), w3)"
        "file_is w3 b (c' @ stamped (fst clk) ?buf) (k' - int (write_count ?buf))"
      using write_file_is [OF h(2) _ h(4) _ _ assms(8)] by metis
    have "scan clk src ?buf 0 0 0 0 b 0 w2 = scan clk src ?buf (length (l @ m)) 0 0 0 b 0 w2"
      using assms(1) h(5) by (intro scan_skip) (simp_all add: slice_def)
    also have "\<dots> = scan clk src ?buf (length (l @ m) + 1) (length (l @ m) + 1) 0 0 b 0 w3"
      using w3(1) wc2 by (intro scan_line) (simp_all add: nth_append slice_def)
    also have "\<dots> = Value (?buf, length (l @ m) + 1, 0, b, 0, w3)" by (simp add: scan_end)
    finally have "read_step clk src bufferLength' (m @ [CHR 0x0A]) (l, 0) w2 = Value (('''', 0), w3)"
      using last_b by (simp add: read_step_def)
    moreover have "stamped (fst clk) ?buf = stamped (fst clk) (l @ m)"
      using lines_of_append [of "l @ m" "[]"] by (simp add: stamped_def lines_of_def [of "[]"])
    ultimately show ?thesis using w3(2) wc2 by (auto simp: algebra_simps)
  qed
  ultimately show ?thesis using w1(2) wc by (auto simp: algebra_simps)
qed

section \<open>Cutting does not matter otherwise\<close>

text \<open>The complete lines of a text and the rest of it.\<close>

definition complete :: "string \<Rightarrow> string" where
  "complete s = rev (dropWhile (\<lambda>c. c \<noteq> CHR 0x0A) (rev s))"

definition unfinished :: "string \<Rightarrow> string" where
  "unfinished s = rev (takeWhile (\<lambda>c. c \<noteq> CHR 0x0A) (rev s))"

definition ends_line :: "string \<Rightarrow> bool" where
  "ends_line s \<longleftrightarrow> s = [] \<or> last s = CHR 0x0A"

lemma complete_unfinished:
  assumes "s = x @ y" "ends_line x" "CHR 0x0A \<notin> set y"
  shows "complete s = x" "unfinished s = y"
proof -
  have "takeWhile (\<lambda>c. c \<noteq> CHR 0x0A) (rev y @ rev x) = rev y @ takeWhile (\<lambda>c. c \<noteq> CHR 0x0A) (rev x)"
    using assms(3) by (intro takeWhile_append2) auto
  moreover have "dropWhile (\<lambda>c. c \<noteq> CHR 0x0A) (rev y @ rev x) = dropWhile (\<lambda>c. c \<noteq> CHR 0x0A) (rev x)"
    using assms(3) by (intro dropWhile_append2) auto
  moreover have "takeWhile (\<lambda>c. c \<noteq> CHR 0x0A) (rev x) = []" "dropWhile (\<lambda>c. c \<noteq> CHR 0x0A) (rev x) = rev x"
    using assms(2) by (cases x rule: rev_cases; simp add: ends_line_def)+
  ultimately show "complete s = x" "unfinished s = y" by (simp_all add: complete_def unfinished_def assms(1))
qed

lemma complete_split: "s = complete s @ unfinished s" "ends_line (complete s)" "CHR 0x0A \<notin> set (unfinished s)"
proof -
  show "s = complete s @ unfinished s"
    unfolding complete_def unfinished_def by (metis rev_append rev_rev_ident takeWhile_dropWhile_id)
  show "ends_line (complete s)"
    using hd_dropWhile [of "\<lambda>c. c \<noteq> CHR 0x0A" "rev s"] by (auto simp: complete_def ends_line_def last_rev)
  show "CHR 0x0A \<notin> set (unfinished s)" unfolding unfinished_def by (auto dest: set_takeWhileD)
qed

lemma stamped_append: "ends_line x \<Longrightarrow> stamped t (x @ y) = stamped t x @ stamped t y"
proof (cases x rule: rev_cases)
  case (snoc x' c)
  moreover assume "ends_line x"
  ultimately have "x = x' @ [CHR 0x0A]" by (simp add: ends_line_def)
  then show ?thesis using lines_of_append [of x' y] lines_of_append [of x' "[]"] by (simp add: stamped_def lines_of_def [of "[]"])
qed (simp add: stamped_def lines_of_def)

lemma slice_Suc: "start \<le> i \<Longrightarrow> i < length buf \<Longrightarrow> slice buf start (Suc i) = slice buf start i @ [buf ! i]"
  by (simp add: slice_def Suc_diff_le take_Suc_conv_app_nth)

lemma slice_concat: "a \<le> b \<Longrightarrow> b \<le> c \<Longrightarrow> slice s a b @ slice s b c = slice s a c"
  using take_add [of "b - a" "c - b" "drop a s"] by (simp add: slice_def)

lemma scan_lines:
  assumes "CHR 0x00 \<notin> set buf" "file_is w a c k" "int (length buf) - int start < k" "k < 2 ^ 31" "\<forall>rid b. lsm_get rid (lsm_w w) = Some b \<longrightarrow> b = a"
    and "start \<le> i" "i \<le> length buf" "CHR 0x0A \<notin> set (slice buf start i)" "src = StdoutLog \<or> src = StderrLog"
  shows "\<exists>start' cnt' w'. scan clk src buf i start tab cnt a nz w = Value (buf, start', cnt', a, nz, w') \<and> lsm_w w' = lsm_w w \<and>
    start \<le> start' \<and> start' \<le> length buf \<and> CHR 0x0A \<notin> set (drop start' buf) \<and> ends_line (slice buf start start') \<and>
    file_is w' a (c @ stamped (fst clk) (slice buf start start')) (k - int (start' - start))"
  using assms
proof (induction "length buf - i" arbitrary: i start tab cnt w c k)
  case 0
  have "slice buf start i = drop start buf" using 0(1,8) by (simp add: slice_def)
  moreover have "slice buf start start = []" "stamped (fst clk) [] = []" by (simp_all add: slice_def stamped_def lines_of_def)
  ultimately show ?case
    using 0 by - (rule exI [of _ start], rule exI [of _ cnt], rule exI [of _ w], simp add: scan_end ends_line_def)
next
  case (Suc n)
  then have i: "i < length buf" and n: "n = length buf - Suc i" by simp_all
  have "buf ! i \<noteq> CHR 0x00" using Suc.prems(1) i by (metis nth_mem)
  then consider "buf ! i = CHR 0x0A" | "buf ! i = CHR 0x09" | "ordinary (buf ! i)" by (auto simp: ordinary_def)
  then show ?case
  proof cases
    case 1
    define t where "t = slice buf start (Suc i)"
    have t: "t = slice buf start i @ [CHR 0x0A]" "ends_line t" "length t = i + 1 - start" "write_count t = i + 1 - start"
      using slice_Suc [OF Suc.prems(6) i] 1 i Suc.prems(6) by (auto simp: t_def ends_line_def write_count_def length_slice)
    have "0 < k" "int (length t) < k" "t \<noteq> []" using Suc.prems(3,6) i t by (auto simp: of_nat_diff)
    then obtain w1 where w1: "write_to clk src a t False w = Value (Inr (write_count t), w1)"
        "file_is w1 a (c @ stamped (fst clk) t) (k - int (write_count t))" "lsm_w w1 = lsm_w w"
      using write_file_is [OF Suc.prems(2) _ Suc.prems(4) _ _ Suc.prems(9)] by metis
    have "scan clk src buf i start tab cnt a nz w = scan clk src buf (i + 1) (i + 1) 0 0 a nz w1"
      using w1(1) t(4) 1 i by (intro scan_line) (simp_all add: t_def)
    moreover obtain start' cnt' w' where r: "scan clk src buf (Suc i) (Suc i) 0 0 a nz w1 = Value (buf, start', cnt', a, nz, w')" "lsm_w w' = lsm_w w1"
        "Suc i \<le> start'" "start' \<le> length buf" "CHR 0x0A \<notin> set (drop start' buf)" "ends_line (slice buf (Suc i) start')"
        "file_is w' a ((c @ stamped (fst clk) t) @ stamped (fst clk) (slice buf (Suc i) start')) (k - int (write_count t) - int (start' - Suc i))"
      using Suc.hyps(1) [OF n Suc.prems(1) w1(2), of "Suc i" 0 0] Suc.prems(3-7,9) w1(3) t(4) i by (auto simp: slice_def)
    moreover have "slice buf start start' = t @ slice buf (Suc i) start'"
      using slice_concat [of start "Suc i" start' buf] r(3) Suc.prems(6) by (simp add: t_def)
    moreover have "ends_line (t @ slice buf (Suc i) start')" using t(2) r(6) by (auto simp: ends_line_def last_append)
    moreover have "file_is w' a (c @ stamped (fst clk) (t @ slice buf (Suc i) start')) (k - int (start' - start))"
    proof -
      have "k - int (write_count t) - int (start' - Suc i) = k - int (start' - start)" using t(4) r(3) Suc.prems(6) by (simp add: of_nat_diff)
      with r(7) show ?thesis by (simp only: stamped_append [OF t(2)] append_assoc)
    qed
    ultimately show ?thesis
      using w1(3) Suc.prems(6)
      by - (rule exI [of _ start'], rule exI [of _ cnt'], rule exI [of _ w'], simp)
  next
    case 2
    have "(if cnt + 1 = 2 then (case lsm_get (slice buf tab i) (lsm_w w) of Some lls \<Rightarrow> lls | None \<Rightarrow> a) else a) = a"
      using Suc.prems(5) by (auto split: option.splits)
    then have "scan clk src buf i start tab cnt a nz w = scan clk src buf (i + 1) start (i + 1) (cnt + 1) a nz w"
      using scan_tab [OF i 2] by simp
    moreover have "CHR 0x0A \<notin> set (slice buf start (Suc i))" using slice_Suc [OF Suc.prems(6) i] Suc.prems(8) 2 by simp
    ultimately show ?thesis
      using Suc.hyps(1) [OF n Suc.prems(1-5) _ _ _ Suc.prems(9), of "Suc i" "Suc cnt"] Suc.prems(6) i by simp
  next
    case 3
    then have "scan clk src buf i start tab cnt a nz w = scan clk src buf (i + 1) start tab cnt a nz w"
      using i by (intro scan_skip) (simp_all add: slice_def Cons_nth_drop_Suc [symmetric])
    moreover have "CHR 0x0A \<notin> set (slice buf start (Suc i))" using slice_Suc [OF Suc.prems(6) i] Suc.prems(8) 3 by (auto simp: ordinary_def)
    ultimately show ?thesis
      using Suc.hyps(1) [OF n Suc.prems(1-5) _ _ _ Suc.prems(9), of tab cnt] Suc.prems(6) i by simp
  qed
qed

lemma read_step_lines:
  assumes "CHR 0x00 \<notin> set (pending @ data)" "file_is w a c k" "int (length (pending @ data)) < k" "k < 2 ^ 31" "\<forall>rid b. lsm_get rid (lsm_w w) = Some b \<longrightarrow> b = a"
    and "getLast (lsm_w w) = Inr (Some a)" "length (unfinished (pending @ data)) < bufferLength" "src = StdoutLog \<or> src = StderrLog"
  obtains x y cnt' w' where "read_step clk src bufferLength data (pending, cnt) w = Value ((y, cnt'), w')" "lsm_w w' = lsm_w w"
    "pending @ data = x @ y" "ends_line x" "CHR 0x0A \<notin> set y" "file_is w' a (c @ stamped (fst clk) x) (k - int (length x))"
proof -
  have ne: "storeMap_sm (lsm_w w) \<noteq> []" using assms(6) by (auto simp: getLast_def split: if_splits)
  obtain start' cnt' w' where r: "scan clk src (pending @ data) 0 0 0 cnt a 0 w = Value (pending @ data, start', cnt', a, 0, w')" "lsm_w w' = lsm_w w"
      "start' \<le> length (pending @ data)" "CHR 0x0A \<notin> set (drop start' (pending @ data))" "ends_line (slice (pending @ data) 0 start')"
      "file_is w' a (c @ stamped (fst clk) (slice (pending @ data) 0 start')) (k - int start')"
    using scan_lines [OF assms(1,2) _ assms(4,5), of 0 0 src clk 0 cnt 0] assms(3,8) by (auto simp: slice_def)
  have x: "slice (pending @ data) 0 start' = take start' (pending @ data)" by (simp add: slice_def)
  have cat: "pending @ data = take start' (pending @ data) @ drop start' (pending @ data)" by (rule append_take_drop_id [symmetric])
  have len: "length (take start' (pending @ data)) = start'" using r(3) by simp
  have "unfinished (pending @ data) = drop start' (pending @ data)"
    by (rule complete_unfinished [OF cat]) (use r(5,4) x in simp_all)
  then have "start' = 0 \<Longrightarrow> length (pending @ data) < bufferLength" using assms(7) by simp
  then have "read_step clk src bufferLength data (pending, cnt) w = Value ((drop start' (pending @ data), if start' = 0 then cnt' else 0), w')"
    using ne assms(6) r(1) by (auto simp: read_step_def)
  then show ?thesis using r(2) cat r(5,4) [unfolded x] r(6) [unfolded x] len
    by (intro that [of "drop start' (pending @ data)" "if start' = 0 then cnt' else 0" w' "take start' (pending @ data)"]) (simp_all only: not_False_eq_True)
qed

lemma complete_append: "ends_line x \<Longrightarrow> complete (x @ t) = x @ complete t"
  and unfinished_append: "ends_line x \<Longrightarrow> unfinished (x @ t) = unfinished t"
  using complete_unfinished [of "x @ t" "x @ complete t" "unfinished t"] complete_split [of t] by (auto simp: ends_line_def last_append)

lemma no_line: "CHR 0x0A \<notin> set p \<Longrightarrow> complete p = []" "CHR 0x0A \<notin> set p \<Longrightarrow> unfinished p = p"
  using complete_unfinished [of p "[]" p] by (simp_all add: ends_line_def)

text \<open>\<open>every_line_fits n s\<close>: no line of \<open>s\<close>, finished or not, reaches the length of the buffer.\<close>

definition every_line_fits :: "nat \<Rightarrow> string \<Rightarrow> bool" where
  "every_line_fits n s \<longleftrightarrow> (\<forall>m\<le>length s. length (unfinished (take m s)) < n)"

lemma every_line_fits_start: "every_line_fits n (s @ t) \<Longrightarrow> length (unfinished s) < n"
  by (auto simp: every_line_fits_def dest: spec [of _ "length s"])

lemma every_line_fits_rest: "every_line_fits n (x @ t) \<Longrightarrow> ends_line x \<Longrightarrow> every_line_fits n t"
  unfolding every_line_fits_def by (metis (no_types, lifting) unfinished_append length_append nat_add_left_cancel_le take_append diff_add_inverse take_all le_add1)

text \<open>The text the reads \<open>reads\<close> of a stream have completed, read by read: \<open>delivered reads xs\<close> when the \<open>i\<close>-th of the texts \<open>xs\<close>
  holds the lines the \<open>i\<close>-th read ended.\<close>

definition delivered :: "string \<Rightarrow> (stamp \<times> string) list \<Rightarrow> string list \<Rightarrow> bool" where
  "delivered p reads xs \<longleftrightarrow> length xs = length reads \<and>
     (\<forall>i\<le>length reads. concat (take i xs) = complete (p @ concat (map snd (take i reads))))"

lemma delivered_Cons:
  assumes "CHR 0x0A \<notin> set p" "p @ d = x @ y" "ends_line x" "delivered y reads xs"
  shows "delivered p ((clk, d) # reads) (x # xs)"
  unfolding delivered_def
proof (intro conjI allI impI)
  fix i assume i: "i \<le> length ((clk, d) # reads)"
  show "concat (take i (x # xs)) = complete (p @ concat (map snd (take i ((clk, d) # reads))))"
  proof (cases i)
    case 0
    then show ?thesis by (simp add: no_line(1) [OF assms(1)])
  next
    case (Suc j)
    have "complete (p @ d @ u) = x @ complete (y @ u)" for u using assms(2) complete_append [OF assms(3)] by (metis append_assoc)
    then show ?thesis using assms(4) i Suc by (simp add: delivered_def)
  qed
qed (use assms(4) in \<open>simp add: delivered_def\<close>)

definition stamped_reads :: "(stamp \<times> string) list \<Rightarrow> string list \<Rightarrow> string" where
  "stamped_reads reads xs = concat (map (\<lambda>(r, x). stamped (fst (fst r)) x) (zip reads xs))"

text \<open>C38: However the network cuts the stream of a runtime that serves one request, the log file gets the same lines. Assume the map of
  stores holds one store, named by the last request, that its file is a plain file with room for the stream, that the stream has
  no NUL byte (the end mark), that no line reaches the length of the buffer, and that the source is stdout or stderr. Then after any
  sequence of reads the file has received exactly the complete lines of all bytes so far, each once and in order and under the time of
  the read that ended it, and the buffer holds the bytes after the last line feed. The stream may be longer than the buffer.
  With two requests the cutting does matter: \<open>split_line_misrouted\<close> above.\<close>

theorem chunks_do_not_matter:
  assumes "CHR 0x00 \<notin> set (concat (map snd reads))" "file_is w a c k" "int (length (concat (map snd reads))) < k" "k < 2 ^ 31"
    and "\<forall>rid b. lsm_get rid (lsm_w w) = Some b \<longrightarrow> b = a" "getLast (lsm_w w) = Inr (Some a)"
    and "every_line_fits bufferLength (concat (map snd reads))" "src = StdoutLog \<or> src = StderrLog"
  shows "\<exists>cnt' w' xs. read_all src bufferLength reads ('''', 0) w = Value ((unfinished (concat (map snd reads)), cnt'), w') \<and>
    length xs = length reads \<and> (\<forall>i\<le>length reads. concat (take i xs) = complete (concat (map snd (take i reads)))) \<and>
    file_is w' a (c @ concat (map (\<lambda>(r, x). stamped (fst (fst r)) x) (zip reads xs))) (k - int (length (complete (concat (map snd reads)))))"
proof -
  have "\<exists>cnt' w' xs. read_all src bufferLength reads (p, cnt) w = Value ((unfinished (p @ concat (map snd reads)), cnt'), w') \<and>
    delivered p reads xs \<and> file_is w' a (c @ stamped_reads reads xs) (k - int (length (complete (p @ concat (map snd reads)))))"
    if "CHR 0x0A \<notin> set p" "CHR 0x00 \<notin> set (p @ concat (map snd reads))" "file_is w a c k" "int (length (p @ concat (map snd reads))) < k" "k < 2 ^ 31"
      "\<forall>rid b. lsm_get rid (lsm_w w) = Some b \<longrightarrow> b = a" "getLast (lsm_w w) = Inr (Some a)"
      "every_line_fits bufferLength (p @ concat (map snd reads))" for p cnt
    using that
  proof (induction reads arbitrary: p cnt w c k)
    case Nil
    then show ?case by (auto simp: no_line delivered_def stamped_reads_def)
  next
    case (Cons r reads)
    obtain clk d where r: "r = (clk, d)" by (cases r)
    let ?s = "concat (map snd reads)"
    have "CHR 0x00 \<notin> set (p @ d)" "int (length (p @ d)) < k" "length (unfinished (p @ d)) < bufferLength"
      using Cons.prems(2,4) every_line_fits_start [of bufferLength "p @ d" ?s] Cons.prems(8) by (auto simp: r)
    then obtain x y cnt1 w1 where s: "read_step clk src bufferLength d (p, cnt) w = Value ((y, cnt1), w1)" "lsm_w w1 = lsm_w w"
        "p @ d = x @ y" "ends_line x" "CHR 0x0A \<notin> set y" "file_is w1 a (c @ stamped (fst clk) x) (k - int (length x))"
      by (rule read_step_lines [OF _ Cons.prems(3) _ Cons.prems(5-7) _ assms(8)])
    have cat: "p @ concat (map snd (r # reads)) = x @ y @ ?s" using s(3) by (simp add: r)
    have "every_line_fits bufferLength (y @ ?s)" using every_line_fits_rest [OF _ s(4)] Cons.prems(8) unfolding cat .
    then obtain cnt' w' xs where t: "read_all src bufferLength reads (y, cnt1) w1 = Value ((unfinished (y @ ?s), cnt'), w')" "delivered y reads xs"
        "file_is w' a ((c @ stamped (fst clk) x) @ stamped_reads reads xs) (k - int (length x) - int (length (complete (y @ ?s))))"
      using Cons.IH [OF s(5) _ s(6), of cnt1] Cons.prems(2,4-7) s(2) unfolding cat by auto
    have "read_all src bufferLength (r # reads) (p, cnt) w = Value ((unfinished (x @ y @ ?s), cnt'), w')"
      using s(1) t(1) by (simp add: r unfinished_append [OF s(4)])
    moreover have "delivered p (r # reads) (x # xs)" unfolding r by (rule delivered_Cons [OF Cons.prems(1) s(3,4) t(2)])
    moreover have "file_is w' a (c @ stamped_reads (r # reads) (x # xs)) (k - int (length (complete (x @ y @ ?s))))"
      using t(3) by (simp add: r stamped_reads_def complete_append [OF s(4)] diff_diff_eq)
    ultimately show ?case unfolding cat by blast
  qed
  from this [of "''''" 0] assms show ?thesis by (simp add: delivered_def stamped_reads_def)
qed

section \<open>Instances\<close>

text \<open>Two requests of one runtime; the one that came last is \<open>r2\<close>. The first store of the second world has a log file.\<close>

definition two_requests :: log_world where
  "two_requests = \<lparr>lsm_w = lsm_set ''r2'' 2 (lsm_set ''r1'' 1 (newLogStatStoreMap ''p'')), stores_w = (\<lambda>_. sample_store)\<rparr>"

definition one_request :: log_world where
  "one_request = \<lparr>lsm_w = lsm_set ''r1'' 1 (newLogStatStoreMap ''p''),
     stores_w = (\<lambda>_. sample_store\<lparr>logfile := Some (PlainFile \<lparr>writer = Some '''', capacity = 1000\<rparr>)\<rparr>)\<rparr>"

theorem split_line_misrouted_witness:
  "\<exists>w. read_all 1 64 [((''t'', None), [CHR ''x'', CHR 0x09]), ((''t'', None), ''r1'' @ [CHR 0x09] @ ''m'' @ [CHR 0x0A])] ('''', 0) two_requests = Value (('''', 0), w)
     \<and> stores_w w 1 = sample_store"
proof -
  have "list_all ordinary ''x''" "list_all ordinary ''r1''" "list_all ordinary ''m''" by (simp_all add: ordinary_def)
  moreover have "getLast (lsm_w two_requests) = Inr (Some 2)" "lsm_get ''r1'' (lsm_w two_requests) = Some 1" "lsm_get ''x'' (lsm_w two_requests) = None"
    by (simp_all add: two_requests_def getLast_def lsm_set_def lsm_get_def newLogStatStoreMap_def)
  moreover have "plain_store (stores_w two_requests n)" for n by (simp add: two_requests_def plain_store_def sample_store_def)
  ultimately show ?thesis
    using split_line_misrouted [of "''x''" "''r1''" "''m''" 64 two_requests 2 1 1 "(''t'', None)"] by (simp add: two_requests_def)
qed

lemma one_request_file: "file_is one_request 1 '''' 1000" "getLast (lsm_w one_request) = Inr (Some 1)" "storeMap_sm (lsm_w one_request) \<noteq> []"
  "lsm_get rid (lsm_w one_request) = Some b \<Longrightarrow> b = 1"
  using sample_store_wf
  by (simp_all add: file_is_def one_request_def sample_store_def store_wf_def getLast_def lsm_get_def lsm_set_def newLogStatStoreMap_def split: if_splits)

theorem end_mark_leaks_line_witness:
  "\<exists>w1. read_step (''t'', None) 1 64 (''bye'' @ [CHR 0x00]) ('''', 0) one_request = Value ((''bye'', 0), w1)"
  using end_mark_leaks_line [OF _ _ one_request_file(2,3,1), of "''bye''" 1 "(''t'', None)" 64] by (auto simp: ordinary_def StdoutLog_def)

text \<open>A stream longer than the buffer of ten bytes, read at three times.\<close>

theorem chunks_do_not_matter_witness:
  "\<exists>cnt' w'. read_all 1 10 [((''t'', None), ''ab''), ((''u'', None), ''cdef'' @ [CHR 0x0A] @ ''gh''), ((''v'', None), ''ij'' @ [CHR 0x0A] @ ''k'')] ('''', 0) one_request
       = Value ((''k'', cnt'), w')
     \<and> file_is w' 1 (''u'' @ [CHR 0x09] @ ''abcdef'' @ [CHR 0x0A] @ ''v'' @ [CHR 0x09] @ ''ghij'' @ [CHR 0x0A]) 988"
proof -
  let ?r = "[((''t'', None), ''ab''), ((''u'', None), ''cdef'' @ [CHR 0x0A] @ ''gh''), ((''v'', None), ''ij'' @ [CHR 0x0A] @ ''k'')] :: (stamp \<times> string) list"
  let ?s = "concat (map snd ?r)"
  have "list_all (\<lambda>m. length (unfinished (take m ?s)) < 10) [0..<14]" by (simp add: upt_rec unfinished_def)
  moreover have "length ?s = 13" by simp
  ultimately have "every_line_fits 10 ?s" unfolding every_line_fits_def list_all_iff by (simp del: upt_rec_numeral add: less_Suc_eq_le [symmetric])
  moreover have "CHR 0x00 \<notin> set ?s" "int (length ?s) < 1000" "(1000 :: int) < 2 ^ 31" "(1 :: nat) = StdoutLog \<or> 1 = StderrLog"
    by (simp_all add: StdoutLog_def)
  moreover have "\<forall>rid b. lsm_get rid (lsm_w one_request) = Some b \<longrightarrow> b = 1" using one_request_file(4) by blast
  ultimately obtain cnt' w' xs where r: "read_all 1 10 ?r ('''', 0) one_request = Value ((unfinished ?s, cnt'), w')" "length xs = length ?r"
      "\<forall>i\<le>length ?r. concat (take i xs) = complete (concat (map snd (take i ?r)))"
      "file_is w' 1 ('''' @ concat (map (\<lambda>(r, x). stamped (fst (fst r)) x) (zip ?r xs))) (1000 - int (length (complete ?s)))"
    using chunks_do_not_matter [OF _ one_request_file(1) _ _ _ one_request_file(2), of ?r 10 1] by blast
  obtain x1 x2 x3 where xs: "xs = [x1, x2, x3]" using r(2) by (auto simp: length_Suc_conv)
  have "x1 = ''''" using r(3) [rule_format, of 1] by (simp add: xs complete_def)
  moreover have "x1 @ x2 = ''abcdef'' @ [CHR 0x0A]" using r(3) [rule_format, of 2] by (simp add: xs complete_def)
  moreover have "x1 @ x2 @ x3 = ''abcdef'' @ [CHR 0x0A] @ ''ghij'' @ [CHR 0x0A]" using r(3) [rule_format, of 3] by (simp add: xs complete_def)
  ultimately have "xs = ['''', ''abcdef'' @ [CHR 0x0A], ''ghij'' @ [CHR 0x0A]]" by (simp add: xs)
  moreover have "unfinished ?s = ''k''" "length (complete ?s) = 12" by code_simp+
  ultimately show ?thesis using r(1,4) by (simp add: stamped_def lines_of_def)
qed

end
