(* ===== verification/FnRuntime.thy ===== *)
theory FnRuntime
  imports Api GoPath
begin

text \<open>
  The container runtime as the funclet sees it: the types and interfaces of \<open>src/pkg/funclet/runtime/api\<close> and the driver that
  runs the \<open>runc\<close> command (\<open>src/pkg/funclet/runtime/runc\<close>). Running a command is an argument: it gets the program and its
  arguments and gives what \<open>os/exec\<close> reports. The state of the host is a type variable, which every call may change.
\<close>

section \<open>Types and interfaces\<close>

record Container =
  ID_rc :: string
  Pid_rc :: int
  Status_rc :: string
  Bundle_rc :: string
  Rootfs_rc :: string
  Created_rc :: instant
  Annotations_rc :: "(string \<times> string) list"

definition ContainerStatusNotExist :: string where "ContainerStatusNotExist = ''not exists''"
definition ContainerStatusCreated :: string where "ContainerStatusCreated = ''created''"
definition ContainerStatusRunning :: string where "ContainerStatusRunning = ''running''"
definition ContainerStatusPausing :: string where "ContainerStatusPausing = ''pausing''"
definition ContainerStatusPaused :: string where "ContainerStatusPaused = ''paused''"
definition ContainerStatusStopped :: string where "ContainerStatusStopped = ''stopped''"

lemmas container_status_defs = ContainerStatusNotExist_def ContainerStatusCreated_def ContainerStatusRunning_def
  ContainerStatusPausing_def ContainerStatusPaused_def ContainerStatusStopped_def

text \<open>The two writers of \<open>Stdio\<close> are pipes; the request only says whether they are there.\<close>

record CreateContainerRequest =
  ID_cr :: string
  Bundle_cr :: string
  PidFile_cr :: string
  Detach_cr :: bool
  WithStdio_cr :: bool

record UpdateContainerRequest =
  Memory_ur :: int64
  CPUQuota_ur :: int64

record ResourceConfig =
  Memory_cfg :: "int64 option"
  MemorySwap_cfg :: "int64 option"
  CpuShares_cfg :: "uint64 option"
  CpuQuota_cfg :: "int64 option"
  CpuPeriod_cfg :: "uint64 option"
  HugePageLimit_cfg :: "(int64 \<times> int64) list"
  Freezer_cfg :: "FreezerState option"

definition empty_config :: ResourceConfig where
  "empty_config = \<lparr>Memory_cfg = None, MemorySwap_cfg = None, CpuShares_cfg = None, CpuQuota_cfg = None, CpuPeriod_cfg = None,
     HugePageLimit_cfg = [], Freezer_cfg = None\<rparr>"

text \<open>A call on the host: it answers and may change the host. Errors are given by their text.\<close>

type_synonym ('h, 'a) call = "'h \<Rightarrow> (string + 'a) \<times> 'h"
type_synonym 'h action = "'h \<Rightarrow> string option \<times> 'h"

record 'h ContainerManager =
  StartContainer_cm :: "CreateContainerRequest \<Rightarrow> 'h action"
  RemoveContainer_cm :: "string \<Rightarrow> bool \<Rightarrow> 'h action"
  KillContainer_cm :: "string \<Rightarrow> string \<Rightarrow> bool \<Rightarrow> 'h action"
  PauseContainer_cm :: "string \<Rightarrow> 'h action"
  ResumeContainer_cm :: "string \<Rightarrow> 'h action"
  ListContainers_cm :: "('h, Container list) call"
  ContainerInfo_cm :: "string \<Rightarrow> ('h, Container option) call"
  UpdateContainer_cm :: "string \<Rightarrow> UpdateContainerRequest \<Rightarrow> 'h action"

record 'h ResourceManager =
  GetDefaultResourceConfig_rm :: ResourceConfig
  GetResourceConfigByReadableMemory_rm :: "string \<Rightarrow> 'h \<Rightarrow> (string + ResourceConfig) outcome \<times> 'h"
  GetTotalResources_rm :: FuncletResource
  FrozenContainer_rm :: "string \<Rightarrow> 'h action"
  ThawContainer_rm :: "string \<Rightarrow> 'h action"
  ContainerResources_rm :: "string \<Rightarrow> ('h, Resource) call"
  ContainerResourceStats_rm :: "string \<Rightarrow> ('h, ResourceStats) call"
  UpdateContainerResource_rm :: "string \<Rightarrow> ResourceConfig \<Rightarrow> 'h action"

record 'h Manager =
  containers_of :: "'h ContainerManager"
  resources_of :: "'h ResourceManager"

section \<open>The runc command\<close>

text \<open>What \<open>Start\<close> and \<open>Wait\<close> of a command report, with what it wrote to its two outputs.\<close>

datatype exec_result =
    StartNotFound
  | StartFailed string
  | WaitNoChild string
  | WaitExit string
  | WaitFailed string string
  | ExecOk string

type_synonym 'h exec = "string \<Rightarrow> string list \<Rightarrow> 'h \<Rightarrow> exec_result \<times> 'h"

record RuncConfig =
  Command :: string

definition DefaultCommand :: string where "DefaultCommand = ''runc''"

definition runc_program :: "RuncConfig \<Rightarrow> string" where
  "runc_program r = (if Command r = '''' then DefaultCommand else Command r)"

definition not_installed :: string where "not_installed = ''runc not installed on system''"
definition execution_error :: string where "execution_error = ''runc execution error''"

definition exec_error :: "exec_result \<Rightarrow> string option" where
  "exec_error x = (case x of
     StartNotFound \<Rightarrow> Some not_installed
   | StartFailed e \<Rightarrow> Some e
   | WaitNoChild _ \<Rightarrow> None
   | WaitExit _ \<Rightarrow> Some execution_error
   | WaitFailed _ e \<Rightarrow> Some e
   | ExecOk _ \<Rightarrow> None)"

definition exec_data :: "exec_result \<Rightarrow> string" where
  "exec_data x = (case x of
     StartNotFound \<Rightarrow> '''' | StartFailed _ \<Rightarrow> '''' | WaitNoChild d \<Rightarrow> d | WaitExit d \<Rightarrow> d | WaitFailed d _ \<Rightarrow> d | ExecOk d \<Rightarrow> d)"

definition command :: "'h exec \<Rightarrow> RuncConfig \<Rightarrow> string list \<Rightarrow> 'h action" where
  "command ex r args h = map_prod exec_error id (ex (runc_program r) args h)"

definition commandOutput :: "'h exec \<Rightarrow> RuncConfig \<Rightarrow> string list \<Rightarrow> 'h \<Rightarrow> (string \<times> string option) \<times> 'h" where
  "commandOutput ex r args h = map_prod (\<lambda>x. (exec_data x, exec_error x)) id (ex (runc_program r) args h)"

record CreateOpts =
  ID_co :: string
  Bundle_co :: string
  PidFile_co :: string
  Detach_co :: bool

text \<open>\<open>absp\<close> is \<open>filepath.Abs\<close>, which reads the working directory for a relative path.\<close>

definition CreateOpts_args :: "(string \<Rightarrow> string + string) \<Rightarrow> CreateOpts \<Rightarrow> string + string list" where
  "CreateOpts_args absp c =
     (let path_arg = (\<lambda>flag p. if p = '''' then Inr [] else map_sum id (\<lambda>a. [flag, a]) (absp p))
      in case path_arg ''--bundle'' (Bundle_co c) of
           Inl e \<Rightarrow> Inl e
         | Inr b \<Rightarrow> (case path_arg ''--pid-file'' (PidFile_co c) of
             Inl e \<Rightarrow> Inl e
           | Inr p \<Rightarrow> Inr (b @ p @ (if Detach_co c then [''--detach''] else []))))"

definition runc_Run :: "'h exec \<Rightarrow> (string \<Rightarrow> string + string) \<Rightarrow> RuncConfig \<Rightarrow> CreateOpts \<Rightarrow> 'h action" where
  "runc_Run ex absp r c h = (case CreateOpts_args absp c of
     Inl e \<Rightarrow> (Some e, h)
   | Inr oargs \<Rightarrow> command ex r ([''run''] @ oargs @ [ID_co c]) h)"

definition RunWithStdio :: "'h exec \<Rightarrow> (string \<Rightarrow> string + string) \<Rightarrow> RuncConfig \<Rightarrow> CreateOpts \<Rightarrow> 'h action" where
  "RunWithStdio ex absp r c h = (case CreateOpts_args absp c of
     Inl e \<Rightarrow> (Some e, h)
   | Inr oargs \<Rightarrow> map_prod exec_error id (ex DefaultCommand ([''run''] @ oargs @ [ID_co c]) h))"

definition runc_Create :: "'h exec \<Rightarrow> (string \<Rightarrow> string + string) \<Rightarrow> RuncConfig \<Rightarrow> CreateOpts \<Rightarrow> 'h action" where
  "runc_Create ex absp r c h = (case CreateOpts_args absp c of
     Inl e \<Rightarrow> (Some e, h)
   | Inr oargs \<Rightarrow> command ex r ([''create''] @ oargs @ [ID_co c]) h)"

definition runc_Start :: "'h exec \<Rightarrow> RuncConfig \<Rightarrow> string \<Rightarrow> 'h action" where
  "runc_Start ex r i = command ex r [''start'', i]"

definition runc_Delete :: "'h exec \<Rightarrow> RuncConfig \<Rightarrow> string \<Rightarrow> bool \<Rightarrow> 'h action" where
  "runc_Delete ex r i force = command ex r ([''delete'', i] @ (if force then [''--force''] else []))"

text \<open>\<open>parse\<close> is the JSON decoder; the text \<open>null\<close> gives a nil container.\<close>

definition runc_State :: "'h exec \<Rightarrow> (string \<Rightarrow> string + Container option) \<Rightarrow> RuncConfig \<Rightarrow> string \<Rightarrow> ('h, Container option) call" where
  "runc_State ex parse r i h = (case commandOutput ex r [''state'', i] h of ((data, err), h1) \<Rightarrow>
     (case err of Some _ \<Rightarrow> (Inl (''runc state err '' @ data), h1) | None \<Rightarrow> (parse data, h1)))"

text \<open>A failed \<open>list\<close> is only logged; its error output then goes to the decoder.\<close>

definition runc_List :: "'h exec \<Rightarrow> (string \<Rightarrow> string + Container list) \<Rightarrow> RuncConfig \<Rightarrow> ('h, Container list) call" where
  "runc_List ex parse r h = (case commandOutput ex r [''list'', ''--format=json''] h of ((data, _), h1) \<Rightarrow> (parse data, h1))"

definition runc_Kill :: "'h exec \<Rightarrow> RuncConfig \<Rightarrow> string \<Rightarrow> string \<Rightarrow> bool \<Rightarrow> 'h action" where
  "runc_Kill ex r i signal all = command ex r ([''kill'', i, signal] @ (if all then [''--all''] else []))"

record UpdateResourceOpts =
  ID_uo :: string
  Memory_uo :: int64
  CPUQuota_uo :: int64

definition UpdateResourceOpts_args :: "UpdateResourceOpts \<Rightarrow> string list" where
  "UpdateResourceOpts_args u =
     (if Memory_uo u \<noteq> 0 then [''--memory'', Itoa (Memory_uo u)] else []) @
     (if CPUQuota_uo u \<noteq> 0 then [''--cpu-quota'', Itoa (CPUQuota_uo u)] else [])"

definition UpdateResource :: "'h exec \<Rightarrow> RuncConfig \<Rightarrow> UpdateResourceOpts \<Rightarrow> 'h action" where
  "UpdateResource ex r u = command ex r ([''update''] @ UpdateResourceOpts_args u @ [ID_uo u])"

definition runc_Resume :: "'h exec \<Rightarrow> RuncConfig \<Rightarrow> string \<Rightarrow> 'h action" where
  "runc_Resume ex r i = command ex r [''resume'', i]"

definition runc_Pause :: "'h exec \<Rightarrow> RuncConfig \<Rightarrow> string \<Rightarrow> 'h action" where
  "runc_Pause ex r i = command ex r [''pause'', i]"

section \<open>The runtime driver\<close>

definition runc_StartContainer :: "'h exec \<Rightarrow> (string \<Rightarrow> string + string) \<Rightarrow> RuncConfig \<Rightarrow> CreateContainerRequest \<Rightarrow> 'h action" where
  "runc_StartContainer ex absp r q =
     (let opts = \<lparr>ID_co = ID_cr q, Bundle_co = Bundle_cr q, PidFile_co = PidFile_cr q, Detach_co = Detach_cr q\<rparr>
      in if WithStdio_cr q then RunWithStdio ex absp r opts else runc_Run ex absp r opts)"

definition GetContainerInfoError :: "string \<Rightarrow> string \<Rightarrow> string" where
  "GetContainerInfoError i e = ''get container '' @ i @ '' info failed: '' @ e"

definition runc_ContainerInfo :: "'h exec \<Rightarrow> (string \<Rightarrow> string + Container option) \<Rightarrow> RuncConfig \<Rightarrow> string \<Rightarrow> ('h, Container option) call" where
  "runc_ContainerInfo ex parse r i h = map_prod (map_sum (GetContainerInfoError i) id) id (runc_State ex parse r i h)"

definition runc_UpdateContainer :: "'h exec \<Rightarrow> RuncConfig \<Rightarrow> string \<Rightarrow> UpdateContainerRequest \<Rightarrow> 'h action" where
  "runc_UpdateContainer ex r i q = UpdateResource ex r \<lparr>ID_uo = i, Memory_uo = Memory_ur q, CPUQuota_uo = CPUQuota_ur q\<rparr>"

definition NewContainerRuntime :: "'h exec \<Rightarrow> (string \<Rightarrow> string + string) \<Rightarrow> (string \<Rightarrow> string + Container option) \<Rightarrow>
    (string \<Rightarrow> string + Container list) \<Rightarrow> string \<Rightarrow> 'h ContainerManager" where
  "NewContainerRuntime ex absp parse parse_list cmd =
     (let r = \<lparr>Command = cmd\<rparr>
      in \<lparr>StartContainer_cm = runc_StartContainer ex absp r, RemoveContainer_cm = runc_Delete ex r, KillContainer_cm = runc_Kill ex r,
          PauseContainer_cm = runc_Pause ex r, ResumeContainer_cm = runc_Resume ex r, ListContainers_cm = runc_List ex parse_list r,
          ContainerInfo_cm = runc_ContainerInfo ex parse r, UpdateContainer_cm = runc_UpdateContainer ex r\<rparr>)"

text \<open>Every operation of the driver runs one command, with the arguments the manual of \<open>runc\<close> asks for; starting a container
  with its outputs redirected, which is how the funclet does it, ignores the configured program.\<close>

lemma StartContainer_default_program:
  assumes "WithStdio_cr q" and "\<And>p. absp p = Inr p" and "Bundle_cr q \<noteq> ''''" "PidFile_cr q \<noteq> ''''" "Detach_cr q"
  shows "StartContainer_cm (NewContainerRuntime ex absp parse parse_list cmd) q h =
    map_prod exec_error id (ex DefaultCommand [''run'', ''--bundle'', Bundle_cr q, ''--pid-file'', PidFile_cr q, ''--detach'', ID_cr q] h)"
  using assms
  by (simp add: NewContainerRuntime_def Let_def runc_StartContainer_def RunWithStdio_def CreateOpts_args_def)

end
