(* ===== verification/FnContainer.thy ===== *)
theory FnContainer
  imports FnRuntime "HOL-Library.AList"
begin

text \<open>
  The containers a funclet keeps (\<open>src/pkg/funclet/container.go\<close>, \<open>errors.go\<close>, \<open>types.go\<close>), the locks its events take on them, and
  the lists it reports (\<open>list.go\<close>, \<open>info.go\<close>, \<open>node.go\<close>). The map holds pointers that never change, so a container is named by its key.
  The lock is a channel with one token: \<open>UnLock\<close> blocks while the token is there, which is the result \<open>None\<close>.
\<close>

section \<open>Errors\<close>

datatype fn_error =
    ContainerNotExists
  | ContainerNotExist string
  | ContainerNotRunning string
  | ContainerIsBusy string Event Event
  | OtherError string

definition Event_text :: "Event \<Rightarrow> string" where
  "Event_text e = (case e of EventNone \<Rightarrow> '''' | EventInit \<Rightarrow> ''event_init'' | EventWarmup \<Rightarrow> ''event_warmup'' | EventReset \<Rightarrow> ''event_reset'')"

definition fn_Error :: "fn_error \<Rightarrow> string" where
  "fn_Error e = (case e of
     ContainerNotExists \<Rightarrow> ''container not exists''
   | ContainerNotExist i \<Rightarrow> ''container '' @ i @ '' not found''
   | ContainerNotRunning i \<Rightarrow> ''container '' @ i @ '' not running''
   | ContainerIsBusy i current trigger \<Rightarrow>
       ''container '' @ i @ '' is busy: current event '' @ Event_text current @ '', trigger event '' @ Event_text trigger
   | OtherError s \<Rightarrow> s)"

section \<open>The container map\<close>

type_synonym ContainerMap = "string \<rightharpoonup> ContainerInfo"

definition Exist :: "string \<Rightarrow> ContainerMap \<Rightarrow> ContainerInfo option" where
  "Exist i m = m i"

definition GetContainer :: "string \<Rightarrow> ContainerMap \<Rightarrow> fn_error + ContainerInfo" where
  "GetContainer i m = (case Exist i m of Some info \<Rightarrow> Inr info | None \<Rightarrow> Inl ContainerNotExists)"

definition LockContainer :: "string \<Rightarrow> Event \<Rightarrow> ContainerMap \<Rightarrow> (bool \<times> fn_error option) \<times> ContainerMap" where
  "LockContainer i event m = (case GetContainer i m of
     Inl e \<Rightarrow> ((False, Some e), m)
   | Inr info \<Rightarrow> (case EventLock_Lock (EventLock_ci info) of (res, l) \<Rightarrow>
       if res then ((True, None), m(i \<mapsto> info\<lparr>EventLock_ci := l, CurrentEvent := event\<rparr>))
       else ((False, Some (ContainerIsBusy i (CurrentEvent info) event)), m(i \<mapsto> info\<lparr>EventLock_ci := l\<rparr>))))"

definition UnLockContainer :: "string \<Rightarrow> ContainerMap \<Rightarrow> (fn_error option \<times> ContainerMap) option" where
  "UnLockContainer i m = (case GetContainer i m of
     Inl e \<Rightarrow> Some (Some e, m)
   | Inr info \<Rightarrow> (case EventLock_UnLock (EventLock_ci info) of
       None \<Rightarrow> None
     | Some l \<Rightarrow> Some (None, m(i \<mapsto> info\<lparr>EventLock_ci := l\<rparr>))))"

definition UnLockContainerWithLog :: "string \<Rightarrow> ContainerMap \<Rightarrow> (fn_error option \<times> ContainerMap) option" where
  "UnLockContainerWithLog i m = UnLockContainer i m"

definition UpdateContainerPid :: "string \<Rightarrow> int \<Rightarrow> ContainerMap \<Rightarrow> fn_error option \<times> ContainerMap" where
  "UpdateContainerPid i pid m = (case Exist i m of
     None \<Rightarrow> (Some ContainerNotExists, m)
   | Some info \<Rightarrow> (None, m(i \<mapsto> info\<lparr>HostPid := pid\<rparr>)))"

definition UpdateContainerStreamMode :: "string \<Rightarrow> bool \<Rightarrow> ContainerMap \<Rightarrow> fn_error option \<times> ContainerMap" where
  "UpdateContainerStreamMode i streamMode m = (case Exist i m of
     None \<Rightarrow> (Some ContainerNotExists, m)
   | Some info \<Rightarrow> (None, m(i \<mapsto> info\<lparr>WithStreamMode_ci := streamMode\<rparr>)))"

definition generateContainerID :: "string \<Rightarrow> int \<Rightarrow> string" where
  "generateContainerID podName num = podName @ ''-controller'' @ ''-c'' @ Itoa num"

definition new_container :: "string \<Rightarrow> ContainerInfo" where
  "new_container i = \<lparr>Hostname = i, ContainerID = i, HostPid = 0, EventLock_ci = NewEventLock, CurrentEvent = EventNone,
     WithStreamMode_ci = False, IsFrozen_ci = False, Resource_ci = None, ResourceStats_ci = None\<rparr>"

definition InitContainerMap :: "string \<Rightarrow> int \<Rightarrow> ContainerMap" where
  "InitContainerMap podName num =
     fold (\<lambda>k m. let cID = generateContainerID podName (int k) in m(cID \<mapsto> new_container cID)) [0..<nat num] Map.empty"

section \<open>Channels for code that is being fetched\<close>

record HandlingChanMap =
  chans :: "string \<rightharpoonup> nat"
  fresh_chan :: nat
  closed_chans :: "nat set"

definition NewHandlingChanMap :: HandlingChanMap where
  "NewHandlingChanMap = \<lparr>chans = Map.empty, fresh_chan = 0, closed_chans = {}\<rparr>"

definition GetChan :: "string \<Rightarrow> HandlingChanMap \<Rightarrow> (nat \<times> bool) \<times> HandlingChanMap" where
  "GetChan key m = (case chans m key of
     None \<Rightarrow> ((fresh_chan m, True), m\<lparr>chans := (chans m)(key \<mapsto> fresh_chan m), fresh_chan := Suc (fresh_chan m)\<rparr>)
   | Some c \<Rightarrow> ((c, False), m))"

definition CloseChan :: "string \<Rightarrow> HandlingChanMap \<Rightarrow> HandlingChanMap" where
  "CloseChan key m = (case chans m key of
     None \<Rightarrow> m
   | Some c \<Rightarrow> m\<lparr>chans := (chans m)(key := None), closed_chans := insert c (closed_chans m)\<rparr>)"

section \<open>Reports\<close>

definition reported :: "Container \<Rightarrow> ContainerInfo \<Rightarrow> bool \<Rightarrow> Resource option \<Rightarrow> ResourceStats option \<Rightarrow> ContainerInfo" where
  "reported c cacheInfo frozen resource stats = \<lparr>Hostname = ID_rc c, ContainerID = ID_rc c, HostPid = Pid_rc c, EventLock_ci = \<lparr>tokens = 0\<rparr>,
     CurrentEvent = EventNone, WithStreamMode_ci = WithStreamMode_ci cacheInfo, IsFrozen_ci = frozen, Resource_ci = resource,
     ResourceStats_ci = stats\<rparr>"

definition fn_ContainerInfo :: "'h Manager \<Rightarrow> string \<Rightarrow> ContainerMap \<times> 'h \<Rightarrow> ((fn_error + ContainerInfo) \<times> ContainerMap \<times> 'h) outcome" where
  "fn_ContainerInfo rt i = (\<lambda>(m, h). case Exist i m of
     None \<Rightarrow> Value (Inl (ContainerNotExist i), m, h)
   | Some cacheInfo \<Rightarrow> (case ContainerInfo_cm (containers_of rt) i h of (runtimeInfo, h1) \<Rightarrow>
       (case ContainerResources_rm (resources_of rt) i h1 of
          (Inl e, h2) \<Rightarrow> Value (Inl (OtherError e), m, h2)
        | (Inr cr, h2) \<Rightarrow> (case runtimeInfo of
            Inl _ \<Rightarrow> let info = cacheInfo\<lparr>Resource_ci := Some cr\<rparr> in Value (Inr info, m(i \<mapsto> info), h2)
          | Inr None \<Rightarrow> Panic nil_dereference
          | Inr (Some c) \<Rightarrow> (case ContainerResourceStats_rm (resources_of rt) i h2 of
              (Inl e, h3) \<Rightarrow> Value (Inl (OtherError e), m, h3)
            | (Inr stats, h3) \<Rightarrow>
                Value (Inr (reported c cacheInfo (IsFrozen_ci cacheInfo \<or> Status_rc c = ContainerStatusPaused) (Some cr) (Some stats)), m, h3))))))"

text \<open>The result of \<open>BulkGetContainers\<close> is a map by identifier.\<close>

fun bulk_infos :: "'h Manager \<Rightarrow> string list \<Rightarrow> (string \<times> ContainerInfo) list \<Rightarrow> ContainerMap \<times> 'h \<Rightarrow>
    ((fn_error + (string \<times> ContainerInfo) list) \<times> ContainerMap \<times> 'h) outcome" where
  "bulk_infos rt [] acc s = Value (Inr acc, s)"
| "bulk_infos rt (i # is) acc s = obind (fn_ContainerInfo rt i s) (\<lambda>(r, s1). case r of
     Inl e \<Rightarrow> Value (Inl e, s1)
   | Inr info \<Rightarrow> bulk_infos rt is (AList.update (ContainerID info) info acc) s1)"

definition BulkGetContainers :: "'h Manager \<Rightarrow> string list \<Rightarrow> ContainerMap \<times> 'h \<Rightarrow>
    ((fn_error + (string \<times> ContainerInfo) list) \<times> ContainerMap \<times> 'h) outcome" where
  "BulkGetContainers rt ids s = (case find (\<lambda>i. fst s i = None) ids of
     Some i \<Rightarrow> Value (Inl (ContainerNotExist i), s)
   | None \<Rightarrow> bulk_infos rt ids [] s)"

fun list_resources :: "'h Manager \<Rightarrow> Container list \<Rightarrow> 'h \<Rightarrow> (string + (string \<rightharpoonup> Container) \<times> (string \<rightharpoonup> Resource)) \<times> 'h" where
  "list_resources rt [] h = (Inr (Map.empty, Map.empty), h)"
| "list_resources rt (c # cs) h = (case ContainerResources_rm (resources_of rt) (ID_rc c) h of
     (Inl e, h1) \<Rightarrow> (Inl e, h1)
   | (Inr cr, h1) \<Rightarrow> (case list_resources rt cs h1 of
       (Inl e, h2) \<Rightarrow> (Inl e, h2)
     | (Inr (runtimes, rs), h2) \<Rightarrow> (Inr ([ID_rc c \<mapsto> c] ++ runtimes, [ID_rc c \<mapsto> cr] ++ rs), h2)))"

definition listed :: "(string \<rightharpoonup> Container) \<Rightarrow> (string \<rightharpoonup> Resource) \<Rightarrow> string \<Rightarrow> ContainerInfo \<Rightarrow> ContainerInfo" where
  "listed runtimeMap resourceMap k cacheInfo = (case runtimeMap k of
     None \<Rightarrow> cacheInfo
   | Some info \<Rightarrow>
       let resource = (case resourceMap (ID_rc info) of Some rc \<Rightarrow> Some rc | None \<Rightarrow> Resource_ci cacheInfo)
       in reported info cacheInfo (Status_rc info = ContainerStatusPaused) resource None)"

text \<open>\<open>keys\<close> is the order in which \<open>Range\<close> visits the map.\<close>

definition ListAllContainers :: "'h Manager \<Rightarrow> string list \<Rightarrow> ContainerMap \<Rightarrow> 'h \<Rightarrow> (fn_error + ContainerInfo list) \<times> 'h" where
  "ListAllContainers rt keys m h = (case ListContainers_cm (containers_of rt) h of
     (Inl e, h1) \<Rightarrow> (Inl (OtherError e), h1)
   | (Inr runtimeList, h1) \<Rightarrow> (case list_resources rt runtimeList h1 of
       (Inl e, h2) \<Rightarrow> (Inl (OtherError e), h2)
     | (Inr (runtimeMap, resourceMap), h2) \<Rightarrow>
         (Inr (List.map_filter (\<lambda>k. map_option (listed runtimeMap resourceMap k) (m k)) keys), h2)))"

definition fn_List :: "'h Manager \<Rightarrow> string list \<Rightarrow> string \<Rightarrow> ContainerMap \<times> 'h \<Rightarrow>
    ((fn_error + ContainerInfo list) \<times> ContainerMap \<times> 'h) outcome" where
  "fn_List rt keys criteria s = (let ids = ReadContainerIDs criteria in
     if ids = [] then (case ListAllContainers rt keys (fst s) (snd s) of (r, h) \<Rightarrow> Value (r, fst s, h))
     else obind (BulkGetContainers rt ids s) (\<lambda>(r, s1). Value (map_sum id (map snd) r, s1)))"

definition NodeInfo :: "'h Manager \<Rightarrow> FuncletResource" where
  "NodeInfo rt = GetTotalResources_rm (resources_of rt)"

section \<open>Events and the locks they hold\<close>

text \<open>
  An event locks its target; a reset also locks the containers of its scale-down recommendation, but goes on when it
  does not get one of them. The deferred calls give all of them back, the last one first.
\<close>

definition enter_event :: "Event \<Rightarrow> string \<Rightarrow> string list \<Rightarrow> ContainerMap \<Rightarrow> (fn_error + string list) \<times> ContainerMap" where
  "enter_event ev target ids m = (case LockContainer target ev m of
     ((_, Some e), m1) \<Rightarrow> (Inl e, m1)
   | ((_, None), m1) \<Rightarrow> (Inr (rev ids @ [target]), fold (\<lambda>i. snd \<circ> LockContainer i ev) ids m1))"

fun leave_event :: "string list \<Rightarrow> ContainerMap \<Rightarrow> ContainerMap option" where
  "leave_event [] m = Some m"
| "leave_event (i # held) m = (case UnLockContainerWithLog i m of None \<Rightarrow> None | Some (_, m1) \<Rightarrow> leave_event held m1)"

text \<open>The tokens of the locks.\<close>

definition lock_of :: "ContainerMap \<Rightarrow> string \<rightharpoonup> nat" where
  "lock_of m = (\<lambda>i. map_option (tokens \<circ> EventLock_ci) (m i))"

lemma lock_of_Some: "lock_of m i = Some k \<longleftrightarrow> (\<exists>info. m i = Some info \<and> tokens (EventLock_ci info) = k)"
  by (auto simp: lock_of_def)

lemma lock_of_None: "lock_of m i = None \<longleftrightarrow> m i = None"
  by (simp add: lock_of_def)

lemma lock_of_update [simp]: "lock_of (m(i \<mapsto> info)) = (lock_of m)(i \<mapsto> tokens (EventLock_ci info))"
  by (auto simp: lock_of_def)

lemma LockContainer_cases:
  "LockContainer i ev m =
     (case lock_of m i of
        None \<Rightarrow> ((False, Some ContainerNotExists), m)
      | Some 0 \<Rightarrow> ((False, Some (ContainerIsBusy i (CurrentEvent (the (m i))) ev)), m)
      | Some (Suc k) \<Rightarrow> ((True, None), m(i \<mapsto> (the (m i))\<lparr>EventLock_ci := \<lparr>tokens = k\<rparr>, CurrentEvent := ev\<rparr>)))"
  by (auto simp: LockContainer_def GetContainer_def Exist_def lock_of_def EventLock_Lock_def map_upd_triv split: option.split nat.split)

lemma lock_of_LockContainer:
  "lock_of (snd (LockContainer i ev m)) = (case lock_of m i of Some (Suc k) \<Rightarrow> (lock_of m)(i \<mapsto> k) | _ \<Rightarrow> lock_of m)"
  by (auto simp: LockContainer_cases split: option.split nat.split)

lemma UnLockContainer_lock:
  "UnLockContainerWithLog i m =
     (case lock_of m i of
        None \<Rightarrow> Some (Some ContainerNotExists, m)
      | Some 0 \<Rightarrow> Some (None, m(i \<mapsto> (the (m i))\<lparr>EventLock_ci := \<lparr>tokens = 1\<rparr>\<rparr>))
      | Some (Suc k) \<Rightarrow> None)"
  by (auto simp: UnLockContainerWithLog_def UnLockContainer_def GetContainer_def Exist_def lock_of_def EventLock_UnLock_def
      split: option.split nat.split)

text \<open>What is not a reset never blocks on itself, and a refused event leaves all locks alone.\<close>

lemma enter_event_refused: "enter_event ev t ids m = (Inl e, m') \<Longrightarrow> m' = m"
  by (auto simp: enter_event_def LockContainer_cases split: prod.splits option.splits nat.splits)

lemma enter_event_held: "enter_event ev t ids m = (Inr held, m') \<Longrightarrow> held = rev ids @ [t]"
  by (auto simp: enter_event_def split: prod.splits option.splits)

text \<open>Every known container an event asks for is locked afterwards, by this event or by the one that had it before.\<close>

lemma lock_all:
  assumes "\<And>i. lock_of m i \<in> {None, Some 0, Some 1}"
  shows "lock_of (fold (\<lambda>i. snd \<circ> LockContainer i ev) ids m) = (\<lambda>i. if i \<in> set ids \<and> lock_of m i \<noteq> None then Some 0 else lock_of m i)"
  using assms
proof (induction ids arbitrary: m)
  case (Cons i ids)
  let ?m = "snd (LockContainer i ev m)"
  have 1: "lock_of ?m = (\<lambda>j. if j = i \<and> lock_of m j \<noteq> None then Some 0 else lock_of m j)"
    using Cons.prems [of i] by (auto simp: lock_of_LockContainer fun_eq_iff)
  have "lock_of ?m j \<in> {None, Some 0, Some 1}" for j using Cons.prems [of j] by (auto simp: 1)
  then have "lock_of (fold (\<lambda>i. snd \<circ> LockContainer i ev) ids ?m) = (\<lambda>j. if j \<in> set ids \<and> lock_of ?m j \<noteq> None then Some 0 else lock_of ?m j)"
    by (rule Cons.IH)
  also have "\<dots> = (\<lambda>j. if j \<in> set (i # ids) \<and> lock_of m j \<noteq> None then Some 0 else lock_of m j)"
    unfolding 1 by (auto simp: fun_eq_iff)
  finally show ?case by (simp add: comp_def)
qed simp

lemma enter_event_locks:
  assumes "enter_event ev t ids m = (Inr held, m')" "\<And>i. lock_of m i \<in> {None, Some 0, Some 1}"
  shows "lock_of m t = Some 1"
    and "lock_of m' = (\<lambda>i. if i \<in> set (t # ids) \<and> lock_of m i \<noteq> None then Some 0 else lock_of m i)"
proof -
  show t: "lock_of m t = Some 1"
    using assms(1) assms(2) [of t] by (auto simp: enter_event_def LockContainer_cases split: option.splits)
  let ?m = "snd (LockContainer t ev m)"
  have 1: "lock_of ?m = (lock_of m)(t \<mapsto> 0)" by (simp add: lock_of_LockContainer t)
  have m': "m' = fold (\<lambda>i. snd \<circ> LockContainer i ev) ids ?m"
    using assms(1) by (auto simp: enter_event_def split: prod.splits option.splits)
  have "lock_of ?m i \<in> {None, Some 0, Some 1}" for i using assms(2) [of i] by (auto simp: 1)
  then show "lock_of m' = (\<lambda>i. if i \<in> set (t # ids) \<and> lock_of m i \<noteq> None then Some 0 else lock_of m i)"
    unfolding m' by (subst lock_all) (auto simp: 1 t fun_eq_iff)
qed

lemma leave_event_locks:
  "leave_event held m = Some m' \<Longrightarrow> lock_of m' = (\<lambda>i. if i \<in> set held \<and> lock_of m i \<noteq> None then Some 1 else lock_of m i)"
proof (induction held arbitrary: m)
  case (Cons i held)
  show ?case
  proof (cases "lock_of m i")
    case None
    then show ?thesis using Cons by (auto simp: UnLockContainer_lock fun_eq_iff)
  next
    case (Some k)
    let ?m = "m(i \<mapsto> (the (m i))\<lparr>EventLock_ci := \<lparr>tokens = 1\<rparr>\<rparr>)"
    have "leave_event held ?m = Some m'" using Cons.prems Some by (cases k) (simp_all add: UnLockContainer_lock)
    moreover have "lock_of ?m = (lock_of m)(i \<mapsto> 1)" by simp
    ultimately have "lock_of m' = (\<lambda>j. if j \<in> set held \<and> ((lock_of m)(i \<mapsto> 1)) j \<noteq> None then Some 1 else ((lock_of m)(i \<mapsto> 1)) j)"
      using Cons.IH by presburger
    then show ?thesis using Some by (auto simp: fun_eq_iff)
  qed
qed auto

lemma leave_event_held:
  assumes "distinct held" "\<And>i. i \<in> set held \<Longrightarrow> lock_of m i = Some 0"
  shows "\<exists>m'. leave_event held m = Some m' \<and> lock_of m' = (\<lambda>i. if i \<in> set held then Some 1 else lock_of m i)"
  using assms
proof (induction held arbitrary: m)
  case (Cons i held)
  let ?m = "m(i \<mapsto> (the (m i))\<lparr>EventLock_ci := \<lparr>tokens = 1\<rparr>\<rparr>)"
  have i: "UnLockContainerWithLog i m = Some (None, ?m)"
    using Cons.prems(2) [of i] by (simp add: UnLockContainer_lock)
  have "\<exists>m'. leave_event held ?m = Some m' \<and> lock_of m' = (\<lambda>j. if j \<in> set held then Some 1 else lock_of ?m j)"
  proof (rule Cons.IH)
    show "lock_of ?m j = Some 0" if "j \<in> set held" for j
      using that Cons.prems unfolding lock_of_update by (auto simp: fun_upd_def)
  qed (use Cons.prems in simp)
  then show ?case using i Cons.prems(1) by (auto simp: fun_eq_iff)
qed simp

section \<open>Events that run at the same time\<close>

text \<open>
  Every lock is taken and given back in a step of its own. An event first locks its target, and ends when that is refused; a reset
  goes on to the containers of its scale-down recommendation and puts each on the list of its deferred calls, whether it got
  the lock or not. \<open>missed\<close> records that a recommended container was not locked.
\<close>

datatype fn_phase = Locking "string list" Event "string list" | Leaving "string list"

record fn_node =
  containers :: ContainerMap
  running :: "nat \<rightharpoonup> fn_phase"
  missed :: bool

inductive fn_step :: "fn_node \<Rightarrow> fn_node \<Rightarrow> bool" where
  begins: "running n p = None \<Longrightarrow> LockContainer t ev (containers n) = ((b, None), m) \<Longrightarrow>
    fn_step n (n\<lparr>containers := m, running := (running n)(p \<mapsto> Locking [t] ev ids)\<rparr>)"
| refused: "LockContainer t ev (containers n) = ((b, Some e), m) \<Longrightarrow> fn_step n (n\<lparr>containers := m\<rparr>)"
| locks_next: "running n p = Some (Locking held ev (i # ids)) \<Longrightarrow> LockContainer i ev (containers n) = ((b, err), m) \<Longrightarrow>
    fn_step n (n\<lparr>containers := m, running := (running n)(p \<mapsto> Locking (i # held) ev ids), missed := (missed n \<or> err \<noteq> None)\<rparr>)"
| works: "lock_of m = lock_of (containers n) \<Longrightarrow> fn_step n (n\<lparr>containers := m\<rparr>)"
| leaves: "running n p = Some (Locking held ev []) \<Longrightarrow> fn_step n (n\<lparr>running := (running n)(p \<mapsto> Leaving held)\<rparr>)"
| unlocks: "running n p = Some (Leaving (i # held)) \<Longrightarrow> UnLockContainerWithLog i (containers n) = Some (err, m) \<Longrightarrow>
    fn_step n (n\<lparr>containers := m, running := (running n)(p \<mapsto> Leaving held)\<rparr>)"
| ends: "running n p = Some (Leaving []) \<Longrightarrow> fn_step n (n\<lparr>running := (running n)(p := None)\<rparr>)"

fun held_of :: "fn_phase \<Rightarrow> string list" where
  "held_of (Locking held _ _) = held"
| "held_of (Leaving held) = held"

definition holds :: "fn_node \<Rightarrow> nat \<Rightarrow> string list" where
  "holds n p = (case running n p of None \<Rightarrow> [] | Some ph \<Rightarrow> held_of ph)"

text \<open>The tokens agree with the lists of the events: a token is out exactly when one event has the container on its list.\<close>

definition tokens_agree :: "(string \<rightharpoonup> nat) \<Rightarrow> (nat \<Rightarrow> string list) \<Rightarrow> bool" where
  "tokens_agree L H \<longleftrightarrow> (\<forall>p. distinct (H p)) \<and> (\<forall>p q i. i \<in> set (H p) \<and> i \<in> set (H q) \<longrightarrow> p = q) \<and>
     (\<forall>i. L i \<in> {None, Some 0, Some 1}) \<and> (\<forall>i. L i = Some 0 \<longleftrightarrow> (\<exists>p. i \<in> set (H p)))"

lemma tokens_agreeD:
  assumes "tokens_agree L H"
  shows "distinct (H p)" "i \<in> set (H p) \<Longrightarrow> i \<in> set (H q) \<Longrightarrow> p = q" "L i \<in> {None, Some 0, Some 1}"
    and "L i = Some 0 \<longleftrightarrow> (\<exists>p. i \<in> set (H p))"
  using assms unfolding tokens_agree_def by blast+

lemma tokens_agree_take:
  assumes "tokens_agree L H" "L i = Some 1"
  shows "tokens_agree (L(i \<mapsto> 0)) (H(p := i # H p))"
proof -
  note D = tokens_agreeD [OF assms(1)]
  have free: "i \<notin> set (H q)" for q using D(4) [of i] assms(2) by auto
  have mem: "j \<in> set ((H(p := i # H p)) q) \<longleftrightarrow> j \<in> set (H q) \<or> q = p \<and> j = i" for j q by auto
  have "distinct ((H(p := i # H p)) q)" for q using D(1) [of q] free by auto
  moreover have "q = r" if "j \<in> set ((H(p := i # H p)) q)" "j \<in> set ((H(p := i # H p)) r)" for j q r
    using that D(2) free unfolding mem by metis
  moreover have "(L(i \<mapsto> 0)) j \<in> {None, Some 0, Some 1}" for j using D(3) [of j] by auto
  moreover have "(L(i \<mapsto> 0)) j = Some 0 \<longleftrightarrow> (\<exists>q. j \<in> set ((H(p := i # H p)) q))" for j using D(4) [of j] unfolding mem by auto
  ultimately show ?thesis unfolding tokens_agree_def by blast
qed

lemma tokens_agree_give:
  assumes "tokens_agree L H" "H p = i # held"
  shows "L i = Some 0" "tokens_agree (L(i \<mapsto> 1)) (H(p := held))"
proof -
  note D = tokens_agreeD [OF assms(1)]
  have i: "i \<in> set (H p)" using assms(2) by simp
  then show "L i = Some 0" using D(4) by blast
  have "i \<notin> set held" using D(1) [of p] assms(2) by simp
  then have mem: "j \<in> set ((H(p := held)) q) \<longleftrightarrow> j \<in> set (H q) \<and> j \<noteq> i" for j q
    using D(2) [OF i, of q] assms(2) by (cases "q = p") auto
  have "distinct ((H(p := held)) q)" for q using D(1) [of q] assms(2) by (cases "q = p") simp_all
  moreover have "q = r" if "j \<in> set ((H(p := held)) q)" "j \<in> set ((H(p := held)) r)" for j q r
    using that D(2) unfolding mem by metis
  moreover have "(L(i \<mapsto> 1)) j \<in> {None, Some 0, Some 1}" for j using D(3) [of j] by auto
  moreover have "(L(i \<mapsto> 1)) j = Some 0 \<longleftrightarrow> (\<exists>q. j \<in> set ((H(p := held)) q))" for j using D(4) [of j] unfolding mem by auto
  ultimately show "tokens_agree (L(i \<mapsto> 1)) (H(p := held))" unfolding tokens_agree_def by blast
qed

definition node_ok :: "fn_node \<Rightarrow> bool" where
  "node_ok n \<longleftrightarrow> missed n \<or> tokens_agree (lock_of (containers n)) (holds n)"

lemma LockContainer_got:
  assumes "LockContainer i ev m = ((b, None), m')" "lock_of m i \<in> {None, Some 0, Some 1}"
  shows "lock_of m i = Some 1" "lock_of m' = (lock_of m)(i \<mapsto> 0)"
  using assms lock_of_LockContainer [of i ev m] by (auto simp: LockContainer_cases split: option.splits)

lemma LockContainer_failed: "LockContainer i ev m = ((b, Some e), m') \<Longrightarrow> m' = m"
  by (auto simp: LockContainer_cases split: option.splits nat.splits)

lemma UnLockContainer_given: "UnLockContainerWithLog i m = Some (err, m') \<Longrightarrow> lock_of m i = Some 0 \<Longrightarrow> lock_of m' = (lock_of m)(i \<mapsto> 1)"
  by (auto simp: UnLockContainer_lock)

lemma holds_upd [simp]:
  "holds (n\<lparr>containers := m\<rparr>) = holds n" "holds (n\<lparr>missed := b\<rparr>) = holds n"
  "holds (n\<lparr>running := (running n)(p \<mapsto> ph)\<rparr>) = (holds n)(p := held_of ph)"
  "holds (n\<lparr>running := (running n)(p := None)\<rparr>) = (holds n)(p := [])"
  by (auto simp: holds_def fun_eq_iff)

lemma fn_step_ok: "fn_step n n' \<Longrightarrow> node_ok n \<Longrightarrow> node_ok n'"
proof (induction rule: fn_step.induct)
  case (begins n p t ev b m ids)
  show ?case
  proof (cases "missed n")
    case False
    then have ok: "tokens_agree (lock_of (containers n)) (holds n)" using begins.prems by (simp add: node_ok_def)
    then have got: "lock_of (containers n) t = Some 1" "lock_of m = (lock_of (containers n))(t \<mapsto> 0)"
      using LockContainer_got [OF begins(2) tokens_agreeD(3) [OF ok]] by blast+
    have "holds n p = []" using begins(1) by (simp add: holds_def)
    then have "holds (n\<lparr>containers := m, running := (running n)(p \<mapsto> Locking [t] ev ids)\<rparr>) = (holds n)(p := t # holds n p)"
      by (auto simp: holds_def fun_eq_iff)
    then show ?thesis using tokens_agree_take [OF ok got(1), of p] got(2) by (simp add: node_ok_def)
  qed (simp add: node_ok_def)
next
  case (refused t ev n b e m)
  then show ?case using LockContainer_failed [OF refused(1)] by simp
next
  case (locks_next n p held ev i ids b err m)
  show ?case
  proof (cases "missed n \<or> err \<noteq> None")
    case False
    then have ok: "tokens_agree (lock_of (containers n)) (holds n)" and err: "err = None" using locks_next.prems by (simp_all add: node_ok_def)
    then have got: "lock_of (containers n) i = Some 1" "lock_of m = (lock_of (containers n))(i \<mapsto> 0)"
      using LockContainer_got [OF locks_next(2) [unfolded err] tokens_agreeD(3) [OF ok]] by blast+
    have "holds n p = held" using locks_next(1) by (simp add: holds_def)
    then have "holds (n\<lparr>containers := m, running := (running n)(p \<mapsto> Locking (i # held) ev ids), missed := (missed n \<or> err \<noteq> None)\<rparr>) =
        (holds n)(p := i # holds n p)"
      by (auto simp: holds_def fun_eq_iff)
    then show ?thesis using tokens_agree_take [OF ok got(1), of p] got(2) by (simp add: node_ok_def)
  qed (simp add: node_ok_def)
next
  case (works m n)
  then show ?case by (simp add: node_ok_def)
next
  case (leaves n p held ev)
  then have "(holds n)(p := held) = holds n" by (auto simp: holds_def)
  then show ?case using leaves.prems by (simp add: node_ok_def)
next
  case (unlocks n p i held err m)
  show ?case
  proof (cases "missed n")
    case False
    then have ok: "tokens_agree (lock_of (containers n)) (holds n)" using unlocks.prems by (simp add: node_ok_def)
    have "holds n p = i # held" using unlocks(1) by (simp add: holds_def)
    note give = tokens_agree_give [OF ok this]
    have "holds (n\<lparr>containers := m, running := (running n)(p \<mapsto> Leaving held)\<rparr>) = (holds n)(p := held)" by (auto simp: holds_def fun_eq_iff)
    then show ?thesis using give(2) UnLockContainer_given [OF unlocks(2) give(1)] by (simp add: node_ok_def)
  qed (simp add: node_ok_def)
next
  case (ends n p)
  then have "(holds n)(p := []) = holds n" by (auto simp: holds_def)
  then show ?case using ends.prems by (simp add: node_ok_def)
qed

text \<open>The start of an event as one operation is a sequence of these steps.\<close>

lemma lock_all_steps:
  "running n p = Some (Locking held ev ids) \<Longrightarrow>
     \<exists>b. fn_step\<^sup>*\<^sup>* n (n\<lparr>containers := fold (\<lambda>i. snd \<circ> LockContainer i ev) ids (containers n), running := (running n)(p \<mapsto> Locking (rev ids @ held) ev []), missed := b\<rparr>)"
proof (induction ids arbitrary: n held)
  case Nil
  then have "n\<lparr>containers := containers n, running := (running n)(p \<mapsto> Locking held ev []), missed := missed n\<rparr> = n" by (simp add: map_upd_triv)
  then show ?case by (metis append.simps(1) fold_simps(1) rev.simps(1) rtranclp.rtrancl_refl)
next
  case (Cons i ids)
  obtain b err m where l: "LockContainer i ev (containers n) = ((b, err), m)" by (metis surj_pair)
  let ?n = "n\<lparr>containers := m, running := (running n)(p \<mapsto> Locking (i # held) ev ids), missed := (missed n \<or> err \<noteq> None)\<rparr>"
  have "running ?n p = Some (Locking (i # held) ev ids)" by simp
  from Cons.IH [OF this] obtain b' where "fn_step\<^sup>*\<^sup>* ?n
      (?n\<lparr>containers := fold (\<lambda>i. snd \<circ> LockContainer i ev) ids (containers ?n), running := (running ?n)(p \<mapsto> Locking (rev ids @ i # held) ev []), missed := b'\<rparr>)"
    by blast
  then have "fn_step\<^sup>*\<^sup>* n (n\<lparr>containers := fold (\<lambda>i. snd \<circ> LockContainer i ev) (i # ids) (containers n),
      running := (running n)(p \<mapsto> Locking (rev (i # ids) @ held) ev []), missed := b'\<rparr>)"
    using converse_rtranclp_into_rtranclp [of fn_step, OF locks_next [OF Cons.prems l]] l by (simp add: comp_def)
  then show ?case by blast
qed

lemma enter_event_steps:
  assumes "enter_event ev t ids (containers n) = (Inr held, m)" "running n p = None"
  shows "\<exists>b. fn_step\<^sup>*\<^sup>* n (n\<lparr>containers := m, running := (running n)(p \<mapsto> Locking held ev []), missed := b\<rparr>)"
proof -
  obtain b m1 where l: "LockContainer t ev (containers n) = ((b, None), m1)" and m: "m = fold (\<lambda>i. snd \<circ> LockContainer i ev) ids m1" "held = rev ids @ [t]"
    using assms(1) by (auto simp: enter_event_def split: prod.splits option.splits)
  let ?n = "n\<lparr>containers := m1, running := (running n)(p \<mapsto> Locking [t] ev ids)\<rparr>"
  have "running ?n p = Some (Locking [t] ev ids)" by simp
  from lock_all_steps [OF this] obtain b' where
    "fn_step\<^sup>*\<^sup>* ?n (?n\<lparr>containers := fold (\<lambda>i. snd \<circ> LockContainer i ev) ids (containers ?n), running := (running ?n)(p \<mapsto> Locking (rev ids @ [t]) ev []), missed := b'\<rparr>)"
    by blast
  then have "fn_step\<^sup>*\<^sup>* ?n (n\<lparr>containers := m, running := (running n)(p \<mapsto> Locking held ev []), missed := b'\<rparr>)" by (simp add: m)
  then show ?thesis using converse_rtranclp_into_rtranclp [of fn_step, OF begins [OF assms(2) l]] by blast
qed

lemma Itoa_inj: "0 \<le> a \<Longrightarrow> 0 \<le> b \<Longrightarrow> Itoa a = Itoa b \<Longrightarrow> a = b"
  by (simp add: Itoa_def)

lemma generateContainerID_inj: "0 \<le> a \<Longrightarrow> 0 \<le> b \<Longrightarrow> generateContainerID pod a = generateContainerID pod b \<Longrightarrow> a = b"
  by (simp add: generateContainerID_def Itoa_inj)

lemma fold_new_containers:
  "fold (\<lambda>k m. let cID = f k in m(cID \<mapsto> new_container cID)) ks m0 i = (if i \<in> f ` set ks then Some (new_container i) else m0 i)"
  by (induction ks arbitrary: m0) (auto simp: Let_def)

lemma InitContainerMap_eq:
  "InitContainerMap pod num i = (if i \<in> (\<lambda>k. generateContainerID pod (int k)) ` {0..<nat num} then Some (new_container i) else None)"
  by (simp add: InitContainerMap_def fold_new_containers)

definition initial_node :: "string \<Rightarrow> int \<Rightarrow> fn_node" where
  "initial_node pod num = \<lparr>containers = InitContainerMap pod num, running = Map.empty, missed = False\<rparr>"

lemma initial_node_ok: "node_ok (initial_node pod num)"
  by (auto simp: node_ok_def initial_node_def holds_def tokens_agree_def lock_of_def InitContainerMap_eq new_container_def NewEventLock_def)

lemma fn_steps_ok: "fn_step\<^sup>*\<^sup>* n n' \<Longrightarrow> node_ok n \<Longrightarrow> node_ok n'"
  by (induction rule: rtranclp_induct) (auto intro: fn_step_ok)

section \<open>Properties\<close>

text \<open>C11: Events on a container exclude each other unless a reset went on without a lock it asked for. From the start of the funclet on,
  however the single lock operations of warm-ups, resets and initialisations interleave and whatever else they do to the containers,
  as long as no reset was refused the lock of a recommended container: no container is on the lists of two events, a
  deferred release never blocks, and a container on no list can be locked. (What a refused lock leads to is
  \<open>reset_steals_lock\<close> below.)\<close>

theorem exclusive_events:
  assumes "fn_step\<^sup>*\<^sup>* (initial_node pod num) n" "\<not> missed n"
  shows "(\<forall>p q i. i \<in> set (holds n p) \<and> i \<in> set (holds n q) \<longrightarrow> p = q) \<and>
    (\<forall>p i held. running n p = Some (Leaving (i # held)) \<longrightarrow> UnLockContainerWithLog i (containers n) \<noteq> None) \<and>
    (\<forall>i ev. containers n i \<noteq> None \<and> (\<nexists>p. i \<in> set (holds n p)) \<longrightarrow> fst (fst (LockContainer i ev (containers n))))"
proof -
  have ok: "tokens_agree (lock_of (containers n)) (holds n)" using fn_steps_ok [OF assms(1) initial_node_ok] assms(2) by (simp add: node_ok_def)
  show ?thesis
  proof (intro conjI allI impI)
    show "p = q" if "i \<in> set (holds n p) \<and> i \<in> set (holds n q)" for p q i using that tokens_agreeD(2) [OF ok] by blast
    show "UnLockContainerWithLog i (containers n) \<noteq> None" if "running n p = Some (Leaving (i # held))" for p i held
    proof -
      have "holds n p = i # held" using that by (simp add: holds_def)
      then show ?thesis using tokens_agree_give(1) [OF ok] by (simp add: UnLockContainer_lock)
    qed
    show "fst (fst (LockContainer i ev (containers n)))" if "containers n i \<noteq> None \<and> (\<nexists>p. i \<in> set (holds n p))" for i ev
    proof -
      have "lock_of (containers n) i \<noteq> None" "lock_of (containers n) i \<noteq> Some 0" "lock_of (containers n) i \<in> {None, Some 0, Some 1}"
        using that tokens_agreeD(3,4) [OF ok, of i] by (auto simp: lock_of_None)
      then show ?thesis by (auto simp: LockContainer_cases)
    qed
  qed
qed

definition pod_a :: string where "pod_a = ''a''"

definition sample_begun :: fn_node where
  "sample_begun = \<lparr>containers = snd (LockContainer (generateContainerID pod_a 0) EventWarmup (InitContainerMap pod_a 2)),
     running = [0 \<mapsto> Locking [generateContainerID pod_a 0] EventWarmup []], missed = False\<rparr>"

definition sample_node :: fn_node where
  "sample_node = sample_begun\<lparr>running := [0 \<mapsto> Leaving [generateContainerID pod_a 0]]\<rparr>"

lemma sample_begins: "fn_step\<^sup>*\<^sup>* (initial_node pod_a 2) sample_node"
proof -
  have "lock_of (InitContainerMap pod_a 2) (generateContainerID pod_a 0) = Some 1"
    by (auto simp: lock_of_def InitContainerMap_eq new_container_def NewEventLock_def image_iff intro: bexI [of _ 0])
  then obtain m where "LockContainer (generateContainerID pod_a 0) EventWarmup (InitContainerMap pod_a 2) = ((True, None), m)"
    by (simp add: LockContainer_cases)
  then have 1: "fn_step (initial_node pod_a 2) sample_begun"
    using fn_step.begins [of "initial_node pod_a 2" 0 "generateContainerID pod_a 0" EventWarmup True m "[]"]
    by (simp add: initial_node_def sample_begun_def)
  have 2: "fn_step sample_begun sample_node"
    using fn_step.leaves [of sample_begun 0 "[generateContainerID pod_a 0]" EventWarmup] by (simp add: sample_begun_def sample_node_def)
  show ?thesis using 1 2 by (meson rtranclp.simps)
qed

theorem exclusive_events_witness:
  "fn_step\<^sup>*\<^sup>* (initial_node pod_a 2) sample_node \<and> running sample_node 0 = Some (Leaving [generateContainerID pod_a 0]) \<and>
     UnLockContainerWithLog (generateContainerID pod_a 0) (containers sample_node) \<noteq> None"
proof -
  have r: "running sample_node 0 = Some (Leaving [generateContainerID pod_a 0])" by (simp add: sample_node_def)
  have m: "\<not> missed sample_node" by (simp add: sample_node_def sample_begun_def)
  from exclusive_events [OF sample_begins m, THEN conjunct2, THEN conjunct1, rule_format, OF r] r sample_begins show ?thesis by blast
qed

text \<open>A reset that recommends a busy container breaks its lock. The reset only logs that it did not get the lock and gives the lock
  back all the same; afterwards another event can lock the container while the first one is still at work, and if none does, the
  first one blocks for ever when it ends.\<close>

theorem reset_steals_lock:
  assumes "c \<noteq> t" "lock_of m t = Some 1" "lock_of m c = Some 0"
  shows "\<exists>m1 m2. enter_event EventReset t [c] m = (Inr [c, t], m1) \<and> leave_event [c, t] m1 = Some m2 \<and>
    fst (fst (LockContainer c EventWarmup m2)) \<and> leave_event [c] m2 = None"
proof -
  let ?m1 = "snd (LockContainer t EventReset m)"
  have l1: "lock_of ?m1 = (lock_of m)(t \<mapsto> 0)" using assms(2) by (simp add: lock_of_LockContainer)
  have e: "enter_event EventReset t [c] m = (Inr [c, t], ?m1)"
    using assms l1 by (simp add: enter_event_def LockContainer_cases)
  have "distinct [c, t]" "lock_of ?m1 i = Some 0" if "i \<in> set [c, t]" for i
    using that assms by (auto simp: l1)
  then obtain m2 where m2: "leave_event [c, t] ?m1 = Some m2"
    "lock_of m2 = (\<lambda>i. if i \<in> set [c, t] then Some 1 else lock_of ?m1 i)"
    using leave_event_held [of "[c, t]" ?m1] assms(1) by fastforce
  from m2(2) have "lock_of m2 c = Some 1" by simp
  then have "fst (fst (LockContainer c EventWarmup m2))" "leave_event [c] m2 = None"
    by (simp_all add: LockContainer_cases UnLockContainer_lock)
  with e m2(1) show ?thesis by blast
qed

definition busy_map :: ContainerMap where
  "busy_map = [''c'' \<mapsto> (new_container ''c'')\<lparr>EventLock_ci := \<lparr>tokens = 0\<rparr>, CurrentEvent := EventWarmup\<rparr>, ''t'' \<mapsto> new_container ''t'']"

theorem reset_steals_lock_witness:
  "\<exists>m1 m2. enter_event EventReset ''t'' [''c''] busy_map = (Inr [''c'', ''t''], m1) \<and> leave_event [''c'', ''t''] m1 = Some m2 \<and>
    fst (fst (LockContainer ''c'' EventWarmup m2)) \<and> leave_event [''c''] m2 = None"
  by (rule reset_steals_lock) (simp_all add: busy_map_def lock_of_def new_container_def NewEventLock_def)

text \<open>The funclet starts with as many containers as configured, all different.\<close>

lemma InitContainerMap_card: "card (dom (InitContainerMap pod num)) = nat num"
proof -
  have "dom (InitContainerMap pod num) = (\<lambda>k. generateContainerID pod (int k)) ` {0..<nat num}"
    by (auto simp: InitContainerMap_eq dom_def)
  moreover have "inj_on (\<lambda>k. generateContainerID pod (int k)) {0..<nat num}"
    by (auto simp: inj_on_def dest: generateContainerID_inj [rotated 2])
  ultimately show ?thesis by (simp add: card_image)
qed

end
