(* ===== verification/FnPaths.thy ===== *)
theory FnPaths
  imports FnContainer
begin

text \<open>
  The directories and mounts of the containers (\<open>src/pkg/funclet/file\<close>, \<open>src/pkg/util/mount/mount_linux.go\<close>). The system calls and file operations
  are a record of functions over a host state; the manager's own state is the table of the containers' paths and the two
  queues between the task that unmounts and the task that removes. The clock is an argument.
\<close>

section \<open>The operating system\<close>

datatype errno = EINVAL | ESRCH | EPERM | Errno string

definition errno_text :: "errno \<Rightarrow> string" where
  "errno_text e = (case e of EINVAL \<Rightarrow> ''invalid argument'' | ESRCH \<Rightarrow> ''no such process'' | EPERM \<Rightarrow> ''operation not permitted'' | Errno s \<Rightarrow> s)"

record Info =
  ID_mi :: int
  Parent_mi :: int
  Major_mi :: int
  Minor_mi :: int
  Root_mi :: string
  Mountpoint :: string
  Opts_mi :: string
  Optional_mi :: string
  Fstype_mi :: string
  Source_mi :: string
  VfsOpts_mi :: string

record 'h kernel =
  sys_bind_mount :: "string \<Rightarrow> string \<Rightarrow> 'h \<Rightarrow> errno option \<times> 'h"
  sys_make_shared :: "string \<Rightarrow> 'h \<Rightarrow> errno option \<times> 'h"
  sys_unmount :: "string \<Rightarrow> 'h \<Rightarrow> errno option \<times> 'h"
  ParseMountTable :: "('h, Info list) call"
  MkdirAll :: "string \<Rightarrow> 'h action"
  ReadDir :: "string \<Rightarrow> ('h, string list) call"
  RemoveAll :: "string \<Rightarrow> 'h action"

section \<open>Mount points\<close>

definition mount_BindMount :: "'h kernel \<Rightarrow> string \<Rightarrow> string \<Rightarrow> 'h action" where
  "mount_BindMount k source target h = map_prod (map_option errno_text) id (sys_bind_mount k source target h)"

definition Mounted :: "'h kernel \<Rightarrow> string \<Rightarrow> ('h, bool) call" where
  "Mounted k mountpoint h = (case ParseMountTable k h of
     (Inl e, h1) \<Rightarrow> (Inl e, h1)
   | (Inr entries, h1) \<Rightarrow> (Inr (list_ex (\<lambda>e. Mountpoint e = mountpoint) entries), h1))"

fun force_unmount :: "'h kernel \<Rightarrow> nat \<Rightarrow> string \<Rightarrow> errno option \<Rightarrow> 'h \<Rightarrow> errno option \<times> 'h" where
  "force_unmount k 0 target err h = (err, h)"
| "force_unmount k (Suc n) target err h = (case sys_unmount k target h of
     (None, h1) \<Rightarrow> (None, h1)
   | (Some e, h1) \<Rightarrow> force_unmount k n target (Some e) h1)"

definition ForceUnmount :: "'h kernel \<Rightarrow> string \<Rightarrow> 'h \<Rightarrow> errno option \<times> 'h" where
  "ForceUnmount k target h = force_unmount k 10 target None h"

datatype unmount_error = NoNeedUnmount | UnmountFailed string

definition mount_Unmount :: "'h kernel \<Rightarrow> string \<Rightarrow> 'h \<Rightarrow> unmount_error option \<times> 'h" where
  "mount_Unmount k target h = (case Mounted k target h of
     (Inl e, h1) \<Rightarrow> (Some (UnmountFailed e), h1)
   | (Inr mounted, h1) \<Rightarrow>
       if \<not> mounted then (Some NoNeedUnmount, h1)
       else map_prod (map_option (UnmountFailed \<circ> errno_text)) id (ForceUnmount k target h1))"

text \<open>\<open>FindDevice\<close>: the mount point of a path or of the nearest directory above it.\<close>

definition parent_dir :: "string \<Rightarrow> string" where
  "parent_dir p = (let d = fst (path_Split p) in if d \<noteq> ''/'' then trim_right (CHR ''/'') d else d)"

lemma length_path_Split: "length (fst (path_Split p)) \<le> length p"
  by (auto simp: path_Split_def split: option.split)

lemma last_index_nth: "last_index c s = Some i \<Longrightarrow> i < length s \<and> s ! i = c"
  by (induction s arbitrary: i) (auto split: option.splits if_splits)

lemma path_Split_last: "fst (path_Split p) \<noteq> [] \<Longrightarrow> last (fst (path_Split p)) = CHR ''/''"
  using last_index_nth [of "CHR ''/''" p] by (auto simp: path_Split_def take_Suc_conv_app_nth split: option.splits)

lemma trim_right_shorter: "s \<noteq> [] \<Longrightarrow> last s = c \<Longrightarrow> length (trim_right c s) < length s"
  using length_dropWhile_le [of "\<lambda>x. x = c" "rev (butlast s)"]
  by (cases s rule: rev_cases) (auto simp: trim_right_def le_imp_less_Suc)

lemma parent_dir_shorter: "parent_dir p \<noteq> ''/'' \<Longrightarrow> parent_dir p \<noteq> [] \<Longrightarrow> length (parent_dir p) < length p"
  using length_path_Split [of p] path_Split_last [of p] trim_right_shorter [of "fst (path_Split p)" "CHR ''/''"]
  by (cases "fst (path_Split p) = []") (auto simp: parent_dir_def Let_def trim_right_def split: if_splits)

function find_device :: "Info list \<Rightarrow> string \<Rightarrow> Info option" where
  "find_device mounts p = (case find (\<lambda>i. Mountpoint i = p) mounts of
     Some i \<Rightarrow> Some i
   | None \<Rightarrow> let q = parent_dir p in if q = ''/'' \<or> q = '''' then None else find_device mounts q)"
  by pat_completeness auto
termination
  by (relation "measure (length \<circ> snd)") (auto intro: parent_dir_shorter)

declare find_device.simps [simp del]

definition FindDevice :: "Info list \<Rightarrow> string \<Rightarrow> string + Info" where
  "FindDevice mounts path = (case find_device mounts path of
     Some i \<Rightarrow> Inr i
   | None \<Rightarrow> Inl (''Mountpoint not found for '' @ path))"

definition MakeShared :: "'h kernel \<Rightarrow> Info list \<Rightarrow> string \<Rightarrow> 'h action" where
  "MakeShared k mounts path h = (case FindDevice mounts path of
     Inl e \<Rightarrow> (Some e, h)
   | Inr i \<Rightarrow> map_prod (map_option errno_text) id (sys_make_shared k (Mountpoint i) h))"

section \<open>The mount manager\<close>

record MountPair =
  Source_mp :: string
  Target_mp :: string

fun bind_all :: "'h kernel \<Rightarrow> MountPair list \<Rightarrow> 'h action" where
  "bind_all k [] h = (None, h)"
| "bind_all k (p # ps) h = (case mount_BindMount k (Source_mp p) (Target_mp p) h of
     (Some e, h1) \<Rightarrow> (Some e, h1)
   | (None, h1) \<Rightarrow> bind_all k ps h1)"

fun Unmount :: "'h kernel \<Rightarrow> string list \<Rightarrow> bool \<Rightarrow> 'h action" where
  "Unmount k [] ignoreError h = (None, h)"
| "Unmount k (p # ps) ignoreError h = (case sys_unmount k p h of
     (None, h1) \<Rightarrow> Unmount k ps ignoreError h1
   | (Some e, h1) \<Rightarrow>
       if e = EINVAL then (None, h1)
       else if \<not> ignoreError then (Some (errno_text e), h1)
       else Unmount k ps ignoreError h1)"

text \<open>The error of the mount is overwritten by the result of taking the mounts back.\<close>

definition BindMount :: "'h kernel \<Rightarrow> MountPair list \<Rightarrow> bool \<Rightarrow> 'h action" where
  "BindMount k pairs atomic h = (case bind_all k pairs h of (err, h1) \<Rightarrow>
     if err \<noteq> None \<and> atomic then Unmount k (map Target_mp pairs) False h1 else (None, h1))"

record PathConfig =
  RunningMode_pc :: string
  RunnerDataPath_pc :: string
  RunnerSpecPath_pc :: string
  RunnerTmpPath_pc :: string
  CodeWorkspacePath_pc :: string
  EtcPath_pc :: string
  CodePath_pc :: string
  ConfPath_pc :: string
  RuntimePath_pc :: string

datatype pathType = SPEC | DATA | ETC | CONFIG | CODE | RUNTIME | TMPDIR | WORKSPACE

text \<open>\<open>fmt.Sprintf(format, n)\<close> for a format with the verb \<open>%s\<close>.\<close>

fun sprintf_from :: "bool \<Rightarrow> string \<Rightarrow> string \<Rightarrow> string" where
  "sprintf_from used n [] = (if used then [] else ''%!(EXTRA string='' @ n @ '')'')"
| "sprintf_from used n [c] = (if c = CHR ''%'' then ''%!(NOVERB)'' else [c]) @ sprintf_from used n []"
| "sprintf_from used n (c # d # r) =
     (if c \<noteq> CHR ''%'' then c # sprintf_from used n (d # r)
      else if d = CHR ''%'' then CHR ''%'' # sprintf_from used n r
      else if used then ''%!'' @ [d] @ ''(MISSING)'' @ sprintf_from used n r
      else (if d = CHR ''s'' \<or> d = CHR ''v'' then n else ''%!'' @ [d] @ ''(string='' @ n @ '')'') @ sprintf_from True n r)"

definition Sprintf :: "string \<Rightarrow> string \<Rightarrow> string" where
  "Sprintf format n = sprintf_from False n format"

definition GetPathByName :: "PathConfig \<Rightarrow> pathType \<Rightarrow> string \<Rightarrow> string" where
  "GetPathByName c t n = (case t of
     SPEC \<Rightarrow> path_Join (RunnerSpecPath_pc c) n
   | DATA \<Rightarrow> path_Join (RunnerDataPath_pc c) n
   | ETC \<Rightarrow> Sprintf (EtcPath_pc c) n
   | CONFIG \<Rightarrow> Sprintf (ConfPath_pc c) n
   | CODE \<Rightarrow> Sprintf (CodePath_pc c) n
   | RUNTIME \<Rightarrow> Sprintf (RuntimePath_pc c) n
   | TMPDIR \<Rightarrow> path_Join (RunnerTmpPath_pc c) n
   | WORKSPACE \<Rightarrow> path_Join (CodeWorkspacePath_pc c) n)"

definition GetPathMapByName :: "PathConfig \<Rightarrow> string \<Rightarrow> (pathType \<times> string) list" where
  "GetPathMapByName c n = map (\<lambda>t. (t, GetPathByName c t n)) [SPEC, DATA, ETC, CONFIG, CODE, RUNTIME, TMPDIR, WORKSPACE]"

definition ParseMounted :: "'h kernel \<Rightarrow> (pathType \<times> string) list \<Rightarrow> ('h, string list) call" where
  "ParseMounted k paths h = (case ParseMountTable k h of
     (Inl e, h1) \<Rightarrow> (Inl e, h1)
   | (Inr mountInfo, h1) \<Rightarrow> (Inr (filter (\<lambda>p. p \<in> set (map snd paths)) (map Mountpoint mountInfo)), h1))"

text \<open>One mounted path: up to ten calls, until the path is no longer mounted; a call that succeeds does not end the loop.\<close>

fun retry_unmount :: "'h kernel \<Rightarrow> nat \<Rightarrow> string \<Rightarrow> 'h \<Rightarrow> 'h" where
  "retry_unmount k 0 p h = h"
| "retry_unmount k (Suc n) p h = (case mount_Unmount k p h of
     (Some NoNeedUnmount, h1) \<Rightarrow> h1
   | (_, h1) \<Rightarrow> retry_unmount k n p h1)"

definition UnmountAllByPathName :: "'h kernel \<Rightarrow> PathConfig \<Rightarrow> string \<Rightarrow> 'h action" where
  "UnmountAllByPathName k c name h = (case ParseMounted k (GetPathMapByName c name) h of
     (Inl e, h1) \<Rightarrow> (Some e, h1)
   | (Inr mountedPaths, h1) \<Rightarrow> (None, fold (retry_unmount k 10) mountedPaths h1))"

section \<open>The path manager\<close>

record ContainerPaths =
  PathName :: string
  RunnerDataPath :: string
  RunnerSpecPath :: string
  RunnerTmpPath :: string
  CodeWorkspacePath :: string
  SpecConfigPath :: string
  DataConfigPath :: string
  DataCodePath :: string
  DataRuntimePath :: string

definition empty_paths :: ContainerPaths where
  "empty_paths = \<lparr>PathName = '''', RunnerDataPath = '''', RunnerSpecPath = '''', RunnerTmpPath = '''', CodeWorkspacePath = '''',
     SpecConfigPath = '''', DataConfigPath = '''', DataCodePath = '''', DataRuntimePath = ''''\<rparr>"

text \<open>The table and the two queues; a queue holds a million names, and the model leaves its bound out.\<close>

record PathManager =
  containersPath :: "string \<rightharpoonup> ContainerPaths"
  unloadCh :: "string list"
  clearCh :: "string list"

definition PathsExists :: string where "PathsExists = ''container paths exists''"
definition PathsNotExists :: string where "PathsNotExists = ''container paths not exists''"

definition NewPathManager :: PathManager where
  "NewPathManager = \<lparr>containersPath = Map.empty, unloadCh = [], clearCh = []\<rparr>"

definition newContainerPaths :: "string \<Rightarrow> PathManager \<Rightarrow> (string + ContainerPaths) \<times> PathManager" where
  "newContainerPaths i m = (if containersPath m i \<noteq> None then (Inl PathsExists, m)
     else (Inr empty_paths, m\<lparr>containersPath := (containersPath m)(i \<mapsto> empty_paths)\<rparr>))"

definition GetPaths :: "string \<Rightarrow> PathManager \<Rightarrow> string + ContainerPaths" where
  "GetPaths i m = (case containersPath m i of None \<Rightarrow> Inl PathsNotExists | Some cp \<Rightarrow> Inr cp)"

definition OutdatePaths :: "string \<Rightarrow> PathManager \<Rightarrow> string option \<times> PathManager" where
  "OutdatePaths i m = (case containersPath m i of
     None \<Rightarrow> (Some PathsNotExists, m)
   | Some p \<Rightarrow> (None, m\<lparr>unloadCh := unloadCh m @ [PathName p], containersPath := (containersPath m)(i := None)\<rparr>))"

definition OutdatePathsByName :: "string \<Rightarrow> PathManager \<Rightarrow> PathManager" where
  "OutdatePathsByName pathName m = m\<lparr>unloadCh := unloadCh m @ [pathName]\<rparr>"

definition path_name :: "string \<Rightarrow> int \<Rightarrow> string" where
  "path_name i nano = i @ ''-'' @ Itoa nano"

fun make_dirs :: "'h kernel \<Rightarrow> string list \<Rightarrow> 'h \<Rightarrow> (string \<times> string) option \<times> 'h" where
  "make_dirs k [] h = (None, h)"
| "make_dirs k (p # ps) h = (case MkdirAll k p h of
     (Some e, h1) \<Rightarrow> (Some (p, e), h1)
   | (None, h1) \<Rightarrow> make_dirs k ps h1)"

definition IDE_mode :: string where "IDE_mode = ''ide''"

definition GeneratePaths :: "'h kernel \<Rightarrow> PathConfig \<Rightarrow> int \<Rightarrow> string \<Rightarrow> PathManager \<Rightarrow> 'h \<Rightarrow> (string + ContainerPaths) \<times> PathManager \<times> 'h" where
  "GeneratePaths k c nano i m h = (case newContainerPaths i m of
     (Inl e, m1) \<Rightarrow> (Inl e, m1, h)
   | (Inr cp, m1) \<Rightarrow>
       let pathName = path_name i nano;
           ide = (RunningMode_pc c = IDE_mode);
           paths = map (\<lambda>t. GetPathByName c t pathName) ([ETC, CONFIG, CODE, RUNTIME, TMPDIR] @ (if ide then [WORKSPACE] else []))
       in case make_dirs k paths h of
            (Some (path, e), h1) \<Rightarrow>
              (Inl (''init container '' @ i @ '' dir '' @ path @ '' failed: '' @ e), snd (OutdatePaths i m1), h1)
          | (None, h1) \<Rightarrow>
              let cp1 = cp\<lparr>CodeWorkspacePath := (if ide then GetPathByName c WORKSPACE pathName else ''''), PathName := pathName,
                        RunnerSpecPath := GetPathByName c SPEC pathName, RunnerDataPath := GetPathByName c DATA pathName,
                        SpecConfigPath := GetPathByName c ETC pathName, DataConfigPath := GetPathByName c CONFIG pathName,
                        DataCodePath := GetPathByName c CODE pathName, DataRuntimePath := GetPathByName c RUNTIME pathName,
                        RunnerTmpPath := GetPathByName c TMPDIR pathName\<rparr>
              in (Inr cp1, m1\<lparr>containersPath := (containersPath m1)(i \<mapsto> cp1)\<rparr>, h1))"

definition GetContainerID :: "string \<Rightarrow> string + string" where
  "GetContainerID pName = (case last_index (CHR ''-'') pName of
     None \<Rightarrow> Inl (''invalid path name '' @ pName)
   | Some pos \<Rightarrow> Inr (take pos pName))"

text \<open>A directory that cannot be read counts as empty.\<close>

fun all_empty :: "'h kernel \<Rightarrow> string list \<Rightarrow> 'h action" where
  "all_empty k [] h = (None, h)"
| "all_empty k (p # ps) h = (case ReadDir k p h of
     (Inl _, h1) \<Rightarrow> all_empty k ps h1
   | (Inr entries, h1) \<Rightarrow>
       if entries \<noteq> [] then (Some (''path '' @ p @ '' not empty, something wrong ... ''), h1) else all_empty k ps h1)"

definition RemoveByPathName :: "'h kernel \<Rightarrow> PathConfig \<Rightarrow> string \<Rightarrow> 'h action" where
  "RemoveByPathName k c name h = (case all_empty k (map (\<lambda>t. GetPathByName c t name) [CONFIG, CODE, RUNTIME]) h of
     (Some e, h1) \<Rightarrow> (Some e, h1)
   | (None, h1) \<Rightarrow> (case RemoveAll k (GetPathByName c SPEC name) h1 of
       (Some e, h2) \<Rightarrow> (Some e, h2)
     | (None, h2) \<Rightarrow> RemoveAll k (GetPathByName c DATA name) h2))"

section \<open>The tasks\<close>

text \<open>One turn of each task; without a name in its queue a task sleeps.\<close>

definition unmount_turn :: "'h kernel \<Rightarrow> PathConfig \<Rightarrow> PathManager \<Rightarrow> 'h \<Rightarrow> PathManager \<times> 'h" where
  "unmount_turn k c m h = (case unloadCh m of
     [] \<Rightarrow> (m, h)
   | path # rest \<Rightarrow>
       if path = '''' then (m\<lparr>unloadCh := rest\<rparr>, h)
       else (case UnmountAllByPathName k c path h of
         (Some _, h1) \<Rightarrow> (m\<lparr>unloadCh := rest @ [path]\<rparr>, h1)
       | (None, h1) \<Rightarrow> (m\<lparr>unloadCh := rest, clearCh := clearCh m @ [path]\<rparr>, h1)))"

definition remove_turn :: "'h kernel \<Rightarrow> PathConfig \<Rightarrow> PathManager \<Rightarrow> 'h \<Rightarrow> PathManager \<times> 'h" where
  "remove_turn k c m h = (case clearCh m of
     [] \<Rightarrow> (m, h)
   | path # rest \<Rightarrow> (m\<lparr>clearCh := rest\<rparr>, snd (RemoveByPathName k c path h)))"

section \<open>Path names\<close>

lemma Itoa_no_minus: "0 \<le> n \<Longrightarrow> CHR ''-'' \<notin> set (Itoa n)"
  using digits_digit [of "CHR ''-''" "nat n"] by (auto simp: Itoa_def)

lemma GetContainerID_path_name: "0 \<le> nano \<Longrightarrow> GetContainerID (path_name i nano) = Inr i"
  using last_index_append [of "CHR ''-''" "Itoa nano" i] Itoa_no_minus [of nano]
  by (simp add: GetContainerID_def path_name_def)

lemma path_name_inj: "0 \<le> a \<Longrightarrow> 0 \<le> b \<Longrightarrow> path_name i a = path_name j b \<longleftrightarrow> i = j \<and> a = b"
proof -
  assume *: "0 \<le> a" "0 \<le> b"
  have "i = j" if "path_name i a = path_name j b"
    using that GetContainerID_path_name [OF *(1), of i] GetContainerID_path_name [OF *(2), of j] by simp
  then show ?thesis using Itoa_inj [OF *] by (auto simp: path_name_def)
qed

lemma path_name_not_Nil [simp]: "path_name i n \<noteq> []" "[] \<noteq> path_name i n"
  by (simp_all add: path_name_def)

section \<open>Life of a path name\<close>

text \<open>The manager with the clock: a generation reads a time later than all earlier ones.\<close>

inductive path_step :: "'h kernel \<Rightarrow> PathConfig \<Rightarrow> PathManager \<times> int \<Rightarrow> PathManager \<times> int \<Rightarrow> bool" for k c where
  generated: "t \<le> nano \<Longrightarrow> GeneratePaths k c nano i m h = (r, m', h') \<Longrightarrow> path_step k c (m, t) (m', nano + 1)"
| outdated: "OutdatePaths i m = (r, m') \<Longrightarrow> path_step k c (m, t) (m', t)"
| unmounts: "unmount_turn k c m h = (m', h') \<Longrightarrow> path_step k c (m, t) (m', t)"
| removes: "remove_turn k c m h = (m', h') \<Longrightarrow> path_step k c (m, t) (m', t)"

definition older :: "int \<Rightarrow> string \<Rightarrow> bool" where
  "older t p \<longleftrightarrow> p = '''' \<or> (\<exists>i n. 0 \<le> n \<and> n < t \<and> p = path_name i n)"

definition paths_ok :: "PathManager \<times> int \<Rightarrow> bool" where
  "paths_ok s \<longleftrightarrow> (case s of (m, t) \<Rightarrow> 0 \<le> t \<and>
     (\<forall>p \<in> set (unloadCh m) \<union> set (clearCh m). older t p) \<and>
     distinct (filter (\<lambda>p. p \<noteq> '''') (unloadCh m @ clearCh m)) \<and>
     (\<forall>i cp. containersPath m i = Some cp \<longrightarrow>
        (\<exists>n. 0 \<le> n \<and> n < t \<and> PathName cp = path_name i n) \<and> PathName cp \<notin> set (unloadCh m) \<union> set (clearCh m)))"

lemma paths_okI:
  assumes "0 \<le> t" "\<And>p. p \<in> set (unloadCh m) \<Longrightarrow> older t p" "\<And>p. p \<in> set (clearCh m) \<Longrightarrow> older t p"
    "distinct (filter (\<lambda>p. p \<noteq> '''') (unloadCh m @ clearCh m))"
    "\<And>i cp. containersPath m i = Some cp \<Longrightarrow>
      (\<exists>n. 0 \<le> n \<and> n < t \<and> PathName cp = path_name i n) \<and> PathName cp \<notin> set (unloadCh m) \<and> PathName cp \<notin> set (clearCh m)"
  shows "paths_ok (m, t)"
  using assms by (auto simp: paths_ok_def)

lemma paths_okD:
  assumes "paths_ok (m, t)"
  shows "0 \<le> t" "p \<in> set (unloadCh m) \<Longrightarrow> older t p" "p \<in> set (clearCh m) \<Longrightarrow> older t p"
    "distinct (filter (\<lambda>p. p \<noteq> '''') (unloadCh m @ clearCh m))"
    "containersPath m i = Some cp \<Longrightarrow> \<exists>n. 0 \<le> n \<and> n < t \<and> PathName cp = path_name i n"
    "containersPath m i = Some cp \<Longrightarrow> PathName cp \<notin> set (unloadCh m)"
    "containersPath m i = Some cp \<Longrightarrow> PathName cp \<notin> set (clearCh m)"
  using assms by (auto simp: paths_ok_def)

lemma older_empty: "older t []"
  by (simp add: older_def)

lemma older_mono: "older t p \<Longrightarrow> t \<le> t' \<Longrightarrow> older t' p"
  unfolding older_def by force

lemma not_older_path_name: "t \<le> nano \<Longrightarrow> 0 \<le> nano \<Longrightarrow> \<not> older t (path_name i nano)"
  by (auto simp: older_def path_name_inj)

text \<open>The three ways a call may change the manager.\<close>

lemma GeneratePaths_cases:
  assumes "GeneratePaths k c nano i m h = (r, m', h')"
  obtains (refused) "m' = m"
    | (failed) "containersPath m i = None" "m' = m\<lparr>unloadCh := unloadCh m @ [''''], containersPath := (containersPath m)(i := None)\<rparr>"
    | (made) cp where "containersPath m i = None" "m' = m\<lparr>containersPath := (containersPath m)(i \<mapsto> cp)\<rparr>" "PathName cp = path_name i nano" "r = Inr cp"
proof (cases "containersPath m i")
  case None
  let ?ps = "map (\<lambda>t. GetPathByName c t (path_name i nano)) ([ETC, CONFIG, CODE, RUNTIME, TMPDIR] @ (if RunningMode_pc c = IDE_mode then [WORKSPACE] else []))"
  show thesis
  proof (cases "make_dirs k ?ps h")
    case (Pair e h1)
    show thesis
    proof (cases e)
      case None
      with Pair assms \<open>containersPath m i = None\<close> show thesis
        by (intro made) (auto simp: GeneratePaths_def newContainerPaths_def Let_def)
    next
      case (Some pe)
      with Pair assms \<open>containersPath m i = None\<close> show thesis
        by (intro failed) (auto simp: GeneratePaths_def newContainerPaths_def Let_def OutdatePaths_def empty_paths_def split: prod.splits)
    qed
  qed
next
  case (Some cp)
  with assms show thesis by (intro refused) (auto simp: GeneratePaths_def newContainerPaths_def)
qed

lemma path_step_ok: "path_step k c s s' \<Longrightarrow> paths_ok s \<Longrightarrow> paths_ok s'"
proof (induction rule: path_step.induct)
  case (generated t nano i m h r m' h')
  note ok = paths_okD [OF generated.prems]
  have t: "0 \<le> nano" "t \<le> nano + 1" using generated(1) ok(1) by auto
  have live: "(\<exists>n. 0 \<le> n \<and> n < nano + 1 \<and> PathName cp = path_name j n) \<and> PathName cp \<notin> set (unloadCh m) \<and> PathName cp \<notin> set (clearCh m)"
    if "containersPath m j = Some cp" for j cp
  proof -
    from ok(5) [OF that] obtain n where "0 \<le> n" "n < t" "PathName cp = path_name j n" by blast
    then have "0 \<le> n \<and> n < nano + 1 \<and> PathName cp = path_name j n" using generated(1) by simp
    then show ?thesis using ok(6,7) [OF that] by blast
  qed
  from generated(2) show ?case
  proof (cases rule: GeneratePaths_cases)
    case refused
    then show ?thesis using ok t live by (intro paths_okI) (auto intro: older_mono)
  next
    case failed
    then show ?thesis
    proof (intro paths_okI)
      show "(\<exists>n. 0 \<le> n \<and> n < nano + 1 \<and> PathName cp = path_name j n) \<and> PathName cp \<notin> set (unloadCh m') \<and> PathName cp \<notin> set (clearCh m')"
        if "containersPath m' j = Some cp" for j cp
      proof -
        have "containersPath m j = Some cp" using that failed by (auto split: if_splits)
        from live [OF this] show ?thesis using failed(2) by auto
      qed
    qed (use ok t in \<open>auto intro: older_mono older_empty\<close>)
  next
    case (made cp)
    have fresh: "path_name i nano \<notin> set (unloadCh m)" "path_name i nano \<notin> set (clearCh m)"
      using ok(2,3) not_older_path_name [OF generated(1) t(1)] by blast+
    show ?thesis
    proof (rule paths_okI)
      show "(\<exists>n. 0 \<le> n \<and> n < nano + 1 \<and> PathName cp' = path_name j n) \<and> PathName cp' \<notin> set (unloadCh m') \<and> PathName cp' \<notin> set (clearCh m')"
        if "containersPath m' j = Some cp'" for j cp'
      proof (cases "j = i")
        case True
        then have "PathName cp' = path_name j nano" using that made by auto
        then show ?thesis using fresh made(2) t(1) True by auto
      next
        case False
        then have "containersPath m j = Some cp'" using that made(2) by auto
        from live [OF this] show ?thesis using made(2) by auto
      qed
    qed (use ok t made(2) in \<open>auto intro: older_mono\<close>)
  qed
next
  case (outdated i m r m' t)
  note ok = paths_okD [OF outdated.prems]
  show ?case
  proof (cases "containersPath m i")
    case None
    then show ?thesis using outdated by (auto simp: OutdatePaths_def)
  next
    case (Some p)
    then have m': "m' = m\<lparr>unloadCh := unloadCh m @ [PathName p], containersPath := (containersPath m)(i := None)\<rparr>"
      using outdated(1) by (auto simp: OutdatePaths_def)
    obtain n where n: "0 \<le> n" "n < t" "PathName p = path_name i n" using ok(5) [OF Some] by blast
    have other: "PathName cp \<noteq> PathName p" if "containersPath m j = Some cp" "j \<noteq> i" for j cp
      using ok(5) [OF that(1)] n that(2) by (auto simp: path_name_inj)
    show ?thesis
      unfolding m' using ok ok(6,7) [OF Some] other n by (intro paths_okI) (auto simp: older_def split: if_splits)
  qed
next
  case (unmounts m h m' h' t)
  note ok = paths_okD [OF unmounts.prems]
  show ?case
  proof (cases "unloadCh m")
    case Nil
    then show ?thesis using unmounts by (simp add: unmount_turn_def)
  next
    case (Cons path rest)
    consider "path = ''''" "m' = m\<lparr>unloadCh := rest\<rparr>" | "m' = m\<lparr>unloadCh := rest @ [path]\<rparr>"
      | "m' = m\<lparr>unloadCh := rest, clearCh := clearCh m @ [path]\<rparr>"
      using unmounts(1) Cons by (auto simp: unmount_turn_def split: if_splits prod.splits option.splits)
    then show ?thesis
      by cases (rule paths_okI; use ok Cons in auto)+
  qed
next
  case (removes m h m' h' t)
  note ok = paths_okD [OF removes.prems]
  show ?case
  proof (cases "clearCh m")
    case Nil
    then show ?thesis using removes by (simp add: remove_turn_def)
  next
    case (Cons path rest)
    then have "m' = m\<lparr>clearCh := rest\<rparr>" using removes(1) by (simp add: remove_turn_def)
    then show ?thesis using ok Cons by (intro paths_okI) (auto split: if_splits)
  qed
qed

lemma path_steps_ok: "(path_step k c)\<^sup>*\<^sup>* s s' \<Longrightarrow> paths_ok s \<Longrightarrow> paths_ok s'"
  by (induction rule: rtranclp_induct) (auto intro: path_step_ok)

lemma NewPathManager_ok: "paths_ok (NewPathManager, 0)"
  by (simp add: paths_ok_def NewPathManager_def)

section \<open>Mounting\<close>

text \<open>
  What the system calls promise, over the number of mounts stacked on a path: a bind mount adds one or fails, an unmount
  takes one away or fails, and it fails with \<open>EINVAL\<close> exactly on a path that is no mount point; the table lists every mount.
\<close>

definition mount_laws :: "'h kernel \<Rightarrow> ('h \<Rightarrow> string \<Rightarrow> nat) \<Rightarrow> bool" where
  "mount_laws k depth \<longleftrightarrow>
     (\<forall>s t h. depth (snd (sys_bind_mount k s t h)) =
        (if fst (sys_bind_mount k s t h) = None then (depth h)(t := Suc (depth h t)) else depth h)) \<and>
     (\<forall>t h. fst (sys_unmount k t h) = Some EINVAL \<longleftrightarrow> depth h t = 0) \<and>
     (\<forall>t h. depth (snd (sys_unmount k t h)) =
        (if fst (sys_unmount k t h) = None then (depth h)(t := depth h t - 1) else depth h)) \<and>
     (\<forall>h. depth (snd (ParseMountTable k h)) = depth h) \<and>
     (\<forall>h es. fst (ParseMountTable k h) = Inr es \<longrightarrow> (\<forall>t. count_list (map Mountpoint es) t = depth h t))"

text \<open>No unmount of a mount point fails, and the table can be read.\<close>

definition never_busy :: "'h kernel \<Rightarrow> ('h \<Rightarrow> string \<Rightarrow> nat) \<Rightarrow> bool" where
  "never_busy k depth \<longleftrightarrow> (\<forall>t h. 0 < depth h t \<longrightarrow> fst (sys_unmount k t h) = None) \<and> (\<forall>h. \<not> isl (fst (ParseMountTable k h)))"

lemma sys_unmount_cases:
  assumes "mount_laws k depth" "never_busy k depth"
  shows "depth h t = 0 \<Longrightarrow> \<exists>h1. sys_unmount k t h = (Some EINVAL, h1) \<and> depth h1 = depth h"
    and "0 < depth h t \<Longrightarrow> \<exists>h1. sys_unmount k t h = (None, h1) \<and> depth h1 = (depth h)(t := depth h t - 1)"
proof -
  show "\<exists>h1. sys_unmount k t h = (Some EINVAL, h1) \<and> depth h1 = depth h" if "depth h t = 0"
    using assms(1) that unfolding mount_laws_def by (metis option.distinct(1) prod.collapse)
  show "\<exists>h1. sys_unmount k t h = (None, h1) \<and> depth h1 = (depth h)(t := depth h t - 1)" if "0 < depth h t"
    using assms that unfolding mount_laws_def never_busy_def by (metis prod.collapse)
qed

lemma bind_all_depth:
  assumes "mount_laws k depth" "distinct (map Target_mp ps)"
  shows "\<exists>n \<le> length ps. depth (snd (bind_all k ps h)) = (\<lambda>t. if t \<in> set (map Target_mp (take n ps)) then Suc (depth h t) else depth h t) \<and>
    (fst (bind_all k ps h) = None \<longleftrightarrow> n = length ps)"
  using assms(2)
proof (induction ps arbitrary: h)
  case (Cons p ps)
  obtain r h1 where b: "sys_bind_mount k (Source_mp p) (Target_mp p) h = (r, h1)" by fastforce
  have d: "depth h1 = (if r = None then (depth h)(Target_mp p := Suc (depth h (Target_mp p))) else depth h)"
    using assms(1) b unfolding mount_laws_def by (metis fst_conv snd_conv)
  show ?case
  proof (cases r)
    case None
    obtain n where n: "n \<le> length ps"
      "depth (snd (bind_all k ps h1)) = (\<lambda>t. if t \<in> set (map Target_mp (take n ps)) then Suc (depth h1 t) else depth h1 t)"
      "fst (bind_all k ps h1) = None \<longleftrightarrow> n = length ps"
      using Cons.IH [of h1] Cons.prems by fastforce
    have "Target_mp p \<notin> Target_mp ` set (take n ps)" using Cons.prems by (auto dest: in_set_takeD)
    with None b d n show ?thesis
      by (intro exI [of _ "Suc n"]) (auto simp: mount_BindMount_def fun_eq_iff)
  next
    case (Some e)
    with b d show ?thesis by (intro exI [of _ 0]) (simp add: mount_BindMount_def)
  qed
qed simp

lemma Unmount_restores:
  assumes "mount_laws k depth" "never_busy k depth" "distinct ts" "n < length ts"
    "\<And>t. t \<in> set (take n ts) \<Longrightarrow> depth h t = 1" "depth h (ts ! n) = 0"
  shows "fst (Unmount k ts False h) = None \<and>
    depth (snd (Unmount k ts False h)) = (\<lambda>t. if t \<in> set (take n ts) then 0 else depth h t)"
  using assms(3-)
proof (induction ts arbitrary: n h)
  case (Cons t ts)
  note cases = sys_unmount_cases [OF assms(1,2), of h t]
  show ?case
  proof (cases n)
    case 0
    with Cons.prems cases(1) show ?thesis by auto
  next
    case (Suc n')
    with Cons.prems cases(2) obtain h1 where h1: "sys_unmount k t h = (None, h1)" "depth h1 = (depth h)(t := 0)" by force
    have "fst (Unmount k ts False h1) = None \<and> depth (snd (Unmount k ts False h1)) = (\<lambda>s. if s \<in> set (take n' ts) then 0 else depth h1 s)"
    proof (rule Cons.IH)
      show "depth h1 s = 1" if "s \<in> set (take n' ts)" for s
        using that Cons.prems Suc h1(2) by (auto dest: in_set_takeD)
      show "depth h1 (ts ! n') = 0" using Cons.prems Suc h1(2) by auto
    qed (use Cons.prems Suc in auto)
    with h1 Suc show ?thesis by (auto simp: fun_eq_iff)
  qed
qed simp

text \<open>Unmounting one path in the retry loop: ten calls suffice for ten stacked mounts.\<close>

lemma mount_Unmount_cases:
  assumes "mount_laws k depth" "never_busy k depth"
  shows "depth h t = 0 \<Longrightarrow> \<exists>h1. mount_Unmount k t h = (Some NoNeedUnmount, h1) \<and> depth h1 = depth h"
    and "0 < depth h t \<Longrightarrow> \<exists>h1. mount_Unmount k t h = (None, h1) \<and> depth h1 = (depth h)(t := depth h t - 1)"
proof -
  obtain es h1 where t: "ParseMountTable k h = (Inr es, h1)"
    using assms(2) unfolding never_busy_def by (metis prod.collapse sum.collapse(2))
  have d: "depth h1 = depth h" "list_ex (\<lambda>e. Mountpoint e = t) es \<longleftrightarrow> 0 < depth h t"
  proof -
    show "depth h1 = depth h" using assms(1) t unfolding mount_laws_def by (metis snd_conv)
    have "count_list (map Mountpoint es) t = depth h t" using assms(1) t unfolding mount_laws_def by (metis fst_conv)
    moreover have "0 < count_list (map Mountpoint es) t \<longleftrightarrow> list_ex (\<lambda>e. Mountpoint e = t) es"
      by (induction es) auto
    ultimately show "list_ex (\<lambda>e. Mountpoint e = t) es \<longleftrightarrow> 0 < depth h t" by simp
  qed
  show "\<exists>h1. mount_Unmount k t h = (Some NoNeedUnmount, h1) \<and> depth h1 = depth h" if "depth h t = 0"
    using t d that by (auto simp: mount_Unmount_def Mounted_def)
  show "\<exists>h1. mount_Unmount k t h = (None, h1) \<and> depth h1 = (depth h)(t := depth h t - 1)" if pos: "0 < depth h t"
  proof -
    obtain h2 where "sys_unmount k t h1 = (None, h2)" "depth h2 = (depth h1)(t := depth h1 t - 1)"
      using sys_unmount_cases(2) [OF assms, of h1 t] pos unfolding d(1) by blast
    then show ?thesis using t d pos by (auto simp: mount_Unmount_def Mounted_def ForceUnmount_def eval_nat_numeral)
  qed
qed

lemma retry_unmount_depth:
  assumes "mount_laws k depth" "never_busy k depth" "depth h t \<le> n"
  shows "depth (retry_unmount k n t h) = (depth h)(t := 0)"
  using assms(3)
proof (induction n arbitrary: h)
  case (Suc n)
  show ?case
  proof (cases "depth h t = 0")
    case True
    from mount_Unmount_cases(1) [OF assms(1,2), OF True] obtain h1 where
      "mount_Unmount k t h = (Some NoNeedUnmount, h1)" "depth h1 = depth h" by blast
    with True show ?thesis by (simp add: fun_upd_idem)
  next
    case False
    with mount_Unmount_cases(2) [OF assms(1,2), of h t] obtain h1 where
      "mount_Unmount k t h = (None, h1)" "depth h1 = (depth h)(t := depth h t - 1)" by auto
    with Suc.IH [of h1] Suc.prems show ?thesis by (simp add: fun_eq_iff)
  qed
qed auto

lemma fold_retry_depth:
  assumes "mount_laws k depth" "never_busy k depth" "\<And>t. depth h t \<le> n"
  shows "depth (fold (retry_unmount k n) ts h) = (\<lambda>t. if t \<in> set ts then 0 else depth h t)"
  using assms(3)
proof (induction ts arbitrary: h)
  case (Cons t ts)
  have d: "depth (retry_unmount k n t h) = (depth h)(t := 0)" by (rule retry_unmount_depth [OF assms(1,2) Cons.prems])
  have "depth (fold (retry_unmount k n) ts (retry_unmount k n t h)) = (\<lambda>s. if s \<in> set ts then 0 else depth (retry_unmount k n t h) s)"
    by (rule Cons.IH) (use Cons.prems in \<open>simp add: d\<close>)
  then show ?case by (auto simp: d fun_eq_iff)
qed simp

section \<open>The nearest mount point\<close>

lemma parent_dir_prefix: "parent_dir p \<noteq> ''/'' \<Longrightarrow> parent_dir p \<noteq> [] \<Longrightarrow> \<exists>r. p = parent_dir p @ ''/'' @ r"
proof -
  assume p: "parent_dir p \<noteq> ''/''" "parent_dir p \<noteq> []"
  let ?d = "fst (path_Split p)"
  have d: "?d \<noteq> ''/''" "parent_dir p = trim_right (CHR ''/'') ?d"
    using p by (auto simp: parent_dir_def Let_def split: if_splits)
  have "?d \<noteq> []" using p d by (auto simp: trim_right_def)
  then have last: "last ?d = CHR ''/''" by (rule path_Split_last)
  have split: "p = ?d @ snd (path_Split p)" by (simp add: path_Split_def split: option.split)
  have "?d = trim_right (CHR ''/'') ?d @ rev (takeWhile (\<lambda>x. x = CHR ''/'') (rev ?d))"
    unfolding trim_right_def by (metis rev_append rev_rev_ident takeWhile_dropWhile_id)
  moreover have "set (takeWhile (\<lambda>x. x = CHR ''/'') (rev ?d)) \<subseteq> {CHR ''/''}" by (auto dest: set_takeWhileD)
  moreover have "takeWhile (\<lambda>x. x = CHR ''/'') (rev ?d) \<noteq> []"
    using last \<open>?d \<noteq> []\<close> by (cases ?d rule: rev_cases) auto
  ultimately obtain s where "?d = parent_dir p @ CHR ''/'' # s"
    using d(2) by (cases "rev (takeWhile (\<lambda>x. x = CHR ''/'') (rev ?d))") auto
  then show ?thesis using split by (metis append.assoc append_Cons append_Nil)
qed

lemma find_device_prefix:
  "find_device mounts p = Some i \<Longrightarrow> i \<in> set mounts \<and> (Mountpoint i = p \<or> (\<exists>r. p = Mountpoint i @ ''/'' @ r)) \<and> (Mountpoint i = ''/'' \<longrightarrow> p = ''/'')"
proof (induction mounts p rule: find_device.induct)
  case (1 mounts p)
  show ?case
  proof (cases "find (\<lambda>i. Mountpoint i = p) mounts")
    case None
    let ?q = "parent_dir p"
    have q: "?q \<noteq> ''/''" "?q \<noteq> []" "find_device mounts ?q = Some i"
      using 1(2) None by (auto simp: find_device.simps [of mounts p] Let_def split: if_splits)
    obtain r where r: "p = ?q @ ''/'' @ r" using parent_dir_prefix [OF q(1,2)] by blast
    from 1(1) [OF None refl] q have IH: "i \<in> set mounts" "Mountpoint i = ?q \<or> (\<exists>r. ?q = Mountpoint i @ ''/'' @ r)" "Mountpoint i \<noteq> ''/''"
      by auto
    from IH(2) have "\<exists>r. p = Mountpoint i @ ''/'' @ r"
      using r by (metis append.assoc)
    with IH show ?thesis by blast
  next
    case (Some j)
    then have "i = j" using 1(2) by (simp add: find_device.simps [of mounts p])
    moreover have "Mountpoint j = p" "j \<in> set mounts" using Some by (auto simp: find_Some_iff)
    ultimately show ?thesis by auto
  qed
qed

text \<open>\<open>FindDevice\<close> finds a mount point of the path or of a directory above it, but never the root file system.\<close>

lemma FindDevice_spec:
  "FindDevice mounts p = Inr i \<Longrightarrow> i \<in> set mounts \<and> (Mountpoint i = p \<or> (\<exists>r. p = Mountpoint i @ ''/'' @ r)) \<and> (Mountpoint i = ''/'' \<longrightarrow> p = ''/'')"
  using find_device_prefix by (auto simp: FindDevice_def split: option.splits)

section \<open>Properties\<close>

definition mount_at :: "string \<Rightarrow> Info" where
  "mount_at p = \<lparr>ID_mi = 0, Parent_mi = 0, Major_mi = 0, Minor_mi = 0, Root_mi = '''', Mountpoint = p, Opts_mi = '''', Optional_mi = '''',
     Fstype_mi = '''', Source_mi = '''', VfsOpts_mi = ''''\<rparr>"

text \<open>A host given by its mount points, on which a mount of the source \<open>missing\<close> fails.\<close>

definition list_kernel :: "string list kernel" where
  "list_kernel = \<lparr>sys_bind_mount = (\<lambda>s t h. if s = ''missing'' then (Some (Errno ''no such file or directory''), h) else (None, t # h)),
     sys_make_shared = (\<lambda>t h. (None, h)),
     sys_unmount = (\<lambda>t h. if t \<in> set h then (None, remove1 t h) else (Some EINVAL, h)),
     ParseMountTable = (\<lambda>h. (Inr (map mount_at h), h)),
     MkdirAll = (\<lambda>p h. (None, h)), ReadDir = (\<lambda>p h. (Inr [], h)), RemoveAll = (\<lambda>p h. (None, h))\<rparr>"

lemma count_list_remove1: "count_list (remove1 t h) = (count_list h)(t := count_list h t - 1)"
  by (induction h) (auto simp: fun_eq_iff)

lemma list_kernel_laws: "mount_laws list_kernel count_list" "never_busy list_kernel count_list"
  by (auto simp: mount_laws_def never_busy_def list_kernel_def count_list_remove1 count_list_0_iff mount_at_def comp_def fun_eq_iff
      split: if_splits)

text \<open>An atomic bind mount hides its failure. When one of the mounts fails, the ones made before are taken back, so the
  mount table is as before; but the call reports success, because the error is overwritten by the result of taking them back.\<close>

theorem BindMount_swallows_failure:
  assumes "mount_laws k depth" "never_busy k depth" "distinct (map Target_mp pairs)"
    and "\<forall>t \<in> set (map Target_mp pairs). depth h t = 0" and "fst (bind_all k pairs h) \<noteq> None"
  shows "fst (BindMount k pairs True h) = None \<and> depth (snd (BindMount k pairs True h)) = depth h"
proof -
  obtain n where n: "n \<le> length pairs" "n \<noteq> length pairs"
    "depth (snd (bind_all k pairs h)) = (\<lambda>t. if t \<in> set (map Target_mp (take n pairs)) then Suc (depth h t) else depth h t)"
    using bind_all_depth [OF assms(1,3), of h] assms(5) by blast
  let ?h1 = "snd (bind_all k pairs h)" and ?ts = "map Target_mp pairs"
  have lt: "n < length ?ts" using n(1,2) by simp
  have ts: "take n ?ts = map Target_mp (take n pairs)" by (simp add: take_map)
  have "?ts ! n \<notin> set (take n ?ts)" using assms(3) lt by (metis distinct_take id_take_nth_drop not_distinct_conv_prefix)
  then have "depth ?h1 (?ts ! n) = 0" using n(3) assms(4) lt ts by (metis nth_mem)
  moreover have "depth ?h1 t = 1" if "t \<in> set (take n ?ts)" for t
  proof -
    have "depth h t = 0" using assms(4) in_set_takeD [OF that] by blast
    then show ?thesis using n(3) that by (simp add: ts)
  qed
  ultimately have u: "fst (Unmount k ?ts False ?h1) = None"
    "depth (snd (Unmount k ?ts False ?h1)) = (\<lambda>t. if t \<in> set (take n ?ts) then 0 else depth ?h1 t)"
    using Unmount_restores [OF assms(1,2,3) lt, of ?h1] by blast+
  have "depth (snd (Unmount k ?ts False ?h1)) = depth h"
    unfolding u(2) n(3) using assms(4) by (auto simp: fun_eq_iff ts dest: in_set_takeD)
  with u(1) assms(5) show ?thesis by (simp add: BindMount_def case_prod_beta)
qed

definition two_pairs :: "MountPair list" where
  "two_pairs = [\<lparr>Source_mp = ''code'', Target_mp = ''task''\<rparr>, \<lparr>Source_mp = ''missing'', Target_mp = ''conf''\<rparr>]"

theorem BindMount_swallows_failure_witness:
  "fst (bind_all list_kernel two_pairs []) = Some ''no such file or directory'' \<and>
   fst (BindMount list_kernel two_pairs True []) = None \<and> count_list (snd (BindMount list_kernel two_pairs True [])) = count_list []"
proof -
  have b: "fst (bind_all list_kernel two_pairs []) = Some ''no such file or directory''"
    by (simp add: two_pairs_def list_kernel_def mount_BindMount_def errno_text_def)
  then show ?thesis
    using BindMount_swallows_failure [OF list_kernel_laws, of two_pairs "[]"] by (simp add: two_pairs_def)
qed

text \<open>Unmounting by path name clears every directory of the name and nothing else: no mount is left on any of them, even when up to
  ten mounts were stacked on one, and the mounts of other containers stay.\<close>

theorem UnmountAll_clears:
  assumes "mount_laws k depth" "never_busy k depth" "\<forall>t. depth h t \<le> 10"
  shows "fst (UnmountAllByPathName k c name h) = None \<and>
    (\<forall>t. depth (snd (UnmountAllByPathName k c name h)) t = (if t \<in> set (map snd (GetPathMapByName c name)) then 0 else depth h t))"
proof -
  obtain es h1 where t: "ParseMountTable k h = (Inr es, h1)"
    using assms(2) unfolding never_busy_def by (metis prod.collapse sum.collapse(2))
  let ?ps = "filter (\<lambda>p. p \<in> set (map snd (GetPathMapByName c name))) (map Mountpoint es)"
  have d: "depth h1 = depth h" using assms(1) t unfolding mount_laws_def by (metis snd_conv)
  have es: "count_list (map Mountpoint es) s = depth h s" for s
    using assms(1) t unfolding mount_laws_def by (metis fst_conv)
  have "depth (fold (retry_unmount k 10) ?ps h1) = (\<lambda>s. if s \<in> set ?ps then 0 else depth h1 s)"
    using fold_retry_depth [OF assms(1,2), of h1 10] assms(3) d by simp
  moreover have "depth h s = 0" if "s \<notin> set (map Mountpoint es)" for s
    using es [of s] that by (simp add: count_notin)
  ultimately show ?thesis using t d by (auto simp: UnmountAllByPathName_def ParseMounted_def)
qed

definition sample_config :: PathConfig where
  "sample_config = \<lparr>RunningMode_pc = ''common'', RunnerDataPath_pc = ''/var/faas/runner-data'', RunnerSpecPath_pc = ''/var/faas/runner-spec'',
     RunnerTmpPath_pc = ''/var/faas/runner-tmp'', CodeWorkspacePath_pc = ''/var/faas/code-workspace'',
     EtcPath_pc = ''/var/faas/runner-spec/%s/conf'', CodePath_pc = ''/var/faas/runner-data/%s/task'',
     ConfPath_pc = ''/var/faas/runner-data/%s/conf'', RuntimePath_pc = ''/var/faas/runner-data/%s/runtime''\<rparr>"

theorem UnmountAll_clears_witness:
  "(\<forall>t. count_list [''/var/faas/runner-data/a-1/task'', ''/x'', ''/var/faas/runner-data/a-1/task''] t \<le> 10) \<and>
   count_list (snd (UnmountAllByPathName list_kernel sample_config ''a-1''
     [''/var/faas/runner-data/a-1/task'', ''/x'', ''/var/faas/runner-data/a-1/task''])) ''/x'' = 1"
proof -
  let ?h = "[''/var/faas/runner-data/a-1/task'', ''/x'', ''/var/faas/runner-data/a-1/task'']"
  have le: "\<forall>t. count_list ?h t \<le> 10" by simp
  have "''/x'' \<notin> set (map snd (GetPathMapByName sample_config ''a-1''))" by code_simp
  moreover have "count_list ?h ''/x'' = 1" by simp
  ultimately show ?thesis
    using UnmountAll_clears [of list_kernel count_list ?h sample_config "''a-1''"] list_kernel_laws le by simp
qed

text \<open>C21: Directories in use are never unmounted or removed. In every reachable state of the path manager the directory name of
  a live container is in neither of the two queues the clean-up tasks work on, belongs to that container alone, and
  tells the container back.\<close>

theorem live_paths_safe:
  assumes "(path_step k c)\<^sup>*\<^sup>* (NewPathManager, 0) (m, t)" "containersPath m i = Some cp"
  shows "PathName cp \<notin> set (unloadCh m) \<union> set (clearCh m) \<and> GetContainerID (PathName cp) = Inr i \<and>
    (\<forall>j cp'. containersPath m j = Some cp' \<and> j \<noteq> i \<longrightarrow> PathName cp' \<noteq> PathName cp)"
proof -
  note ok = paths_okD [OF path_steps_ok [OF assms(1) NewPathManager_ok]]
  obtain n where n: "0 \<le> n" "PathName cp = path_name i n" using ok(5) [OF assms(2)] by blast
  have "PathName cp' \<noteq> PathName cp" if "containersPath m j = Some cp'" "j \<noteq> i" for j cp'
    using ok(5) [OF that(1)] n that(2) by (auto simp: path_name_inj)
  with ok(6,7) [OF assms(2)] n GetContainerID_path_name show ?thesis by auto
qed

theorem live_paths_safe_witness:
  "\<exists>m cp. (path_step list_kernel sample_config)\<^sup>*\<^sup>* (NewPathManager, 0) (m, 6) \<and> containersPath m ''a'' = Some cp \<and> PathName cp = ''a-5'' \<and>
     PathName cp \<notin> set (unloadCh m) \<union> set (clearCh m)"
proof -
  obtain r m h where g: "GeneratePaths list_kernel sample_config 5 ''a'' NewPathManager [] = (r, m, h)" by (metis prod.collapse)
  have md: "make_dirs list_kernel ps g = (None, g)" for ps g by (induction ps) (simp_all add: list_kernel_def)
  have p5: "path_name ''a'' 5 = ''a-5''" by code_simp
  have 1: "\<exists>cp. containersPath m ''a'' = Some cp \<and> PathName cp = ''a-5''"
    using g by (auto simp: GeneratePaths_def newContainerPaths_def NewPathManager_def Let_def md p5)
  have 2: "(path_step list_kernel sample_config)\<^sup>*\<^sup>* (NewPathManager, 0) (m, 6)"
    using path_step.generated [of 0 5 list_kernel sample_config "''a''" NewPathManager "[]" r m h] g by auto
  from 1 obtain cp where cp: "containersPath m ''a'' = Some cp" "PathName cp = ''a-5''" by blast
  from live_paths_safe [OF 2 cp(1)] 2 cp show ?thesis by blast
qed

end
