(* ===== verification/FnResource.thy ===== *)
theory FnResource
  imports GoFloat FnRuntime "HOL-Library.Signed_Division"
begin

text \<open>
  The resources of the node and of its containers: the conversions between processor quantities, the cgroup files and the cgroup
  manager (\<open>src/pkg/funclet/runtime/cgroup\<close>), and the resource manager over them (\<open>src/pkg/funclet/runtime/resource.go\<close>). A cgroup file is
  given by its contents, the work of the libcontainer library by a record of functions over the host. What Go makes of a
  float that does not fit \<open>int64\<close> depends on the machine and is the parameter \<open>wide\<close>.
\<close>

section \<open>Arithmetic\<close>

text \<open>Go's integer division truncates towards zero.\<close>

definition go_div :: "int64 \<Rightarrow> int64 \<Rightarrow> int64" where
  "go_div a b = i64 (a sdiv b)"

fun float_mul :: "float_format \<Rightarrow> gofloat \<Rightarrow> gofloat \<Rightarrow> gofloat" where
  "float_mul f NaN y = NaN"
| "float_mul f x NaN = NaN"
| "float_mul f (Inf s) (Inf t) = Inf (s \<noteq> t)"
| "float_mul f (Inf s) (Fin t n d) = (if n = 0 then NaN else Inf (s \<noteq> t))"
| "float_mul f (Fin s m e) (Inf t) = (if m = 0 then NaN else Inf (s \<noteq> t))"
| "float_mul f (Fin s m e) (Fin t n d) = float_round f (s \<noteq> t) (m * n) (e + d)"

definition float_eq :: "gofloat \<Rightarrow> gofloat \<Rightarrow> bool" where
  "float_eq x y \<longleftrightarrow> x \<noteq> NaN \<and> y \<noteq> NaN \<and> \<not> float_gt x y \<and> \<not> float_gt y x"

definition int64_of_float :: "int64 \<Rightarrow> gofloat \<Rightarrow> int64" where
  "int64_of_float wide x = (case x of
     Fin s m e \<Rightarrow> let n = int ((m * 2 ^ nat e) div 2 ^ nat (- e)); z = (if s then - n else n) in if in_i64 z then z else wide
   | _ \<Rightarrow> wide)"

text \<open>The products \<open>x * 1000\<close> of the code.\<close>

definition milli :: "int64 \<Rightarrow> gofloat \<Rightarrow> int64" where
  "milli wide x = int64_of_float wide (float_mul float64 x (float_of float64 1000))"

section \<open>Processor quantities\<close>

definition MinShares :: int where "MinShares = 2"
definition SharesPerCPU :: int where "SharesPerCPU = 1024"
definition MilliCPUToCPU :: int where "MilliCPUToCPU = 1000"
definition QuotaPeriod :: int where "QuotaPeriod = 100000"
definition MinQuotaPeriod :: int where "MinQuotaPeriod = 1000"
definition MemoryNoLimits :: uint64 where "MemoryNoLimits = 0x7FFFFFFFFFFFF000"
definition CPUNoLimits :: int where "CPUNoLimits = - 1"

lemmas cpu_constants = MinShares_def SharesPerCPU_def MilliCPUToCPU_def QuotaPeriod_def MinQuotaPeriod_def CPUNoLimits_def

definition MilliCPUToQuota :: "int64 \<Rightarrow> int64 \<Rightarrow> int64" where
  "MilliCPUToQuota milliCPU period0 =
     (if milliCPU = 0 then 0
      else let period = (if period0 = 0 then QuotaPeriod else period0);
               quota = go_div (i64 (milliCPU * period)) MilliCPUToCPU
           in if quota < MinQuotaPeriod then MinQuotaPeriod else quota)"

definition QuotaToMilliCPU :: "int64 \<Rightarrow> int64 \<Rightarrow> int64" where
  "QuotaToMilliCPU quota period0 =
     (if quota < 0 then - 1
      else let period = (if period0 = 0 then QuotaPeriod else period0) in go_div (i64 (quota * MilliCPUToCPU)) period)"

definition MilliCPUToShares :: "int64 \<Rightarrow> uint64" where
  "MilliCPUToShares milliCPU =
     (if milliCPU = 0 then uint64_of MinShares
      else let shares = go_div (i64 (milliCPU * SharesPerCPU)) MilliCPUToCPU
           in if shares < MinShares then uint64_of MinShares else uint64_of shares)"

section \<open>Cgroup files\<close>

datatype parse_error = ErrSyntax | ErrRange

text \<open>\<open>strconv.ParseUint(s, 10, 64)\<close> and \<open>strconv.ParseInt(s, 10, 64)\<close>; with a range error they also return the nearest value.\<close>

definition ParseUint :: "string \<Rightarrow> uint64 \<times> parse_error option" where
  "ParseUint s = (if s = [] \<or> \<not> list_all is_digit_char s then (0, Some ErrSyntax)
     else if digits_value s < 2 ^ 64 then (of_nat (digits_value s), None) else (- 1, Some ErrRange))"

definition ParseInt :: "string \<Rightarrow> int64 \<times> parse_error option" where
  "ParseInt s =
     (let neg = HasPrefix s ''-''; ds = (if neg \<or> HasPrefix s ''+'' then tl s else s)
      in if ds = [] \<or> \<not> list_all is_digit_char ds then (0, Some ErrSyntax)
         else let v = int (digits_value ds)
              in if neg then (if v \<le> 2 ^ 63 then (- v, None) else (- (2 ^ 63), Some ErrRange))
                 else (if v < 2 ^ 63 then (v, None) else (2 ^ 63 - 1, Some ErrRange)))"

text \<open>A negative number counts as zero.\<close>

definition parseUint :: "string \<Rightarrow> uint64 option" where
  "parseUint s = (case ParseUint s of
     (v, None) \<Rightarrow> Some v
   | (v, Some e) \<Rightarrow> (case ParseInt s of
       (i, None) \<Rightarrow> if i < 0 then Some 0 else None
     | (i, Some e') \<Rightarrow> if e' = ErrRange \<and> i < 0 then Some 0 else None))"

definition parseInt :: "string \<Rightarrow> int64 option" where
  "parseInt s = (case ParseInt s of (i, None) \<Rightarrow> Some i | (_, Some _) \<Rightarrow> None)"

type_synonym files = "string \<Rightarrow> string + string"

definition CFSPeriodFile :: string where "CFSPeriodFile = ''cpu.cfs_period_us''"
definition CFSQuotaFile :: string where "CFSQuotaFile = ''cpu.cfs_quota_us''"
definition CPUShares_file :: string where "CPUShares_file = ''cpu.shares''"
definition MemoryLimitsFile :: string where "MemoryLimitsFile = ''memory.limit_in_bytes''"
definition DefaultCgroupPath :: string where "DefaultCgroupPath = ''/sys/fs/cgroup''"

definition unable_to_parse :: "string \<Rightarrow> string \<Rightarrow> string" where
  "unable_to_parse contents fileName = ''unable to parse '' @ contents @ '' as a uint from Cgroup file '' @ fileName"

definition GetCgroupParamUint :: "files \<Rightarrow> string \<Rightarrow> string \<Rightarrow> string + uint64" where
  "GetCgroupParamUint fs cgroupPath cgroupFile = (case fs (path_Join cgroupPath cgroupFile) of
     Inl e \<Rightarrow> Inl e
   | Inr contents \<Rightarrow>
       if TrimSpace contents = ''max'' then Inr (- 1)
       else (case parseUint (TrimSpace contents) of
         None \<Rightarrow> Inl (unable_to_parse contents (path_Join cgroupPath cgroupFile))
       | Some v \<Rightarrow> Inr v))"

definition GetCgroupParamInt :: "files \<Rightarrow> string \<Rightarrow> string \<Rightarrow> string + int64" where
  "GetCgroupParamInt fs cgroupPath cgroupFile = (case fs (path_Join cgroupPath cgroupFile) of
     Inl e \<Rightarrow> Inl e
   | Inr contents \<Rightarrow>
       if TrimSpace contents = ''max'' then Inr (2 ^ 63 - 1)
       else (case parseInt (TrimSpace contents) of
         None \<Rightarrow> Inl (unable_to_parse contents (path_Join cgroupPath cgroupFile))
       | Some v \<Rightarrow> Inr v))"

section \<open>The cgroup manager\<close>

definition supportedSubsystems :: "string list" where
  "supportedSubsystems = [''memory'', ''cpu'', ''cpuacct'', ''freezer'']"

record cgroupManagerImpl =
  MountPoints :: "(string \<times> string) list"
  cgroupRootPath :: string

definition NewCgroupManager :: "(string \<times> string) list \<Rightarrow> string \<Rightarrow> string + cgroupManagerImpl" where
  "NewCgroupManager mountPoints cgroupPath =
     (if cgroupPath = '''' then Inr \<lparr>MountPoints = mountPoints, cgroupRootPath = DefaultCgroupPath\<rparr>
      else if path_Clean cgroupPath \<noteq> cgroupPath \<or> \<not> is_abs cgroupPath then Inl (''invalid dir path '' @ cgroupPath)
      else Inr \<lparr>MountPoints = mountPoints, cgroupRootPath = cgroupPath\<rparr>)"

definition buildCgroupPaths :: "cgroupManagerImpl \<Rightarrow> string \<Rightarrow> (string \<times> string) list" where
  "buildCgroupPaths m name = map (\<lambda>(key, val). (key, path_Join val name)) (MountPoints m)"

definition GetCgroupSubsysPath :: "cgroupManagerImpl \<Rightarrow> string \<Rightarrow> string + string" where
  "GetCgroupSubsysPath m subsys =
     (if subsys \<in> set supportedSubsystems then Inr (path_Join (cgroupRootPath m) subsys) else Inl (subsys @ '': unsupported cgroup''))"

definition cgroup_Exists :: "cgroupManagerImpl \<Rightarrow> (string \<Rightarrow> bool) \<Rightarrow> string \<Rightarrow> bool" where
  "cgroup_Exists m path_exists name =
     list_all (\<lambda>(controller, p). controller \<in> set [''cpu'', ''cpuacct'', ''cpuset'', ''memory'', ''systemd''] \<longrightarrow> path_exists p) (buildCgroupPaths m name)"

record Resources_lc =
  Memory_lr :: int64
  MemorySwap_lr :: int64
  CpuShares_lr :: uint64
  CpuQuota_lr :: int64
  CpuPeriod_lr :: uint64
  Freezer_lr :: FreezerState

definition toResources :: "ResourceConfig option \<Rightarrow> Resources_lc" where
  "toResources rc = (case rc of
     None \<Rightarrow> \<lparr>Memory_lr = 0, MemorySwap_lr = 0, CpuShares_lr = 0, CpuQuota_lr = 0, CpuPeriod_lr = 0, Freezer_lr = Undefined\<rparr>
   | Some c \<Rightarrow> \<lparr>Memory_lr = (case Memory_cfg c of None \<Rightarrow> 0 | Some v \<Rightarrow> v), MemorySwap_lr = (case MemorySwap_cfg c of None \<Rightarrow> 0 | Some v \<Rightarrow> v),
       CpuShares_lr = (case CpuShares_cfg c of None \<Rightarrow> 0 | Some v \<Rightarrow> v), CpuQuota_lr = (case CpuQuota_cfg c of None \<Rightarrow> 0 | Some v \<Rightarrow> v),
       CpuPeriod_lr = (case CpuPeriod_cfg c of None \<Rightarrow> 0 | Some v \<Rightarrow> v), Freezer_lr = (case Freezer_cfg c of None \<Rightarrow> Undefined | Some f \<Rightarrow> f)\<rparr>)"

text \<open>What the code uses of libcontainer and the file system, on the host state.\<close>

record 'h libcontainer =
  PathExists :: "'h \<Rightarrow> string \<Rightarrow> bool"
  subsystem_Set :: "string \<Rightarrow> string \<Rightarrow> Resources_lc \<Rightarrow> 'h action"
  subsystem_Stats :: "(string \<times> string) list \<Rightarrow> ('h, ResourceStats) call"
  host_reader :: "'h \<Rightarrow> string \<Rightarrow> (string + string) option"

fun setSupportedSubsystems :: "'h libcontainer \<Rightarrow> (string \<times> string) list \<Rightarrow> Resources_lc \<Rightarrow> string list \<Rightarrow> 'h action" where
  "setSupportedSubsystems lc paths r [] h = (None, h)"
| "setSupportedSubsystems lc paths r (sys # ss) h = (case map_of paths sys of
     None \<Rightarrow> (Some (''Failed to find subsytem mount for subsytem: '' @ sys), h)
   | Some p \<Rightarrow> (case subsystem_Set lc sys p r h of
       (Some e, h1) \<Rightarrow> (Some (''Failed to set config for supported subsystems : '' @ e), h1)
     | (None, h1) \<Rightarrow> setSupportedSubsystems lc paths r ss h1))"

definition cgroup_Update :: "'h libcontainer \<Rightarrow> cgroupManagerImpl \<Rightarrow> string \<Rightarrow> ResourceConfig option \<Rightarrow> 'h action" where
  "cgroup_Update lc m name rc h = map_prod
     (map_option (\<lambda>e. ''failed to set supported cgroup subsystems for cgroup '' @ name @ '': '' @ e)) id
     (setSupportedSubsystems lc (buildCgroupPaths m name) (toResources rc) supportedSubsystems h)"

text \<open>\<open>readFile\<close> of the cgroup package: a file that does not exist reads as the empty text.\<close>

type_synonym reader = "string \<Rightarrow> (string + string) option"

definition readFile :: "reader \<Rightarrow> string \<Rightarrow> string \<Rightarrow> string + string" where
  "readFile read dir name = (case read (path_Join dir name) of
     None \<Rightarrow> Inr ''''
   | Some (Inl e) \<Rightarrow> Inl e
   | Some (Inr data) \<Rightarrow> Inr (TrimSpace data))"

definition num_error :: "string \<Rightarrow> string \<Rightarrow> parse_error \<Rightarrow> string" where
  "num_error f s e = ''strconv.'' @ f @ '': parsing '' @ s @ '': '' @ (case e of ErrSyntax \<Rightarrow> ''invalid syntax'' | ErrRange \<Rightarrow> ''value out of range'')"

definition read_int :: "reader \<Rightarrow> string \<Rightarrow> string \<Rightarrow> string + int64" where
  "read_int read dir name = (case readFile read dir name of
     Inl e \<Rightarrow> Inl e
   | Inr s \<Rightarrow> (case ParseInt s of (v, None) \<Rightarrow> Inr v | (_, Some e) \<Rightarrow> Inl (num_error ''ParseInt'' s e)))"

definition read_uint :: "reader \<Rightarrow> string \<Rightarrow> string \<Rightarrow> string + uint64" where
  "read_uint read dir name = (case readFile read dir name of
     Inl e \<Rightarrow> Inl e
   | Inr s \<Rightarrow> (case ParseUint s of (v, None) \<Rightarrow> Inr v | (_, Some e) \<Rightarrow> Inl (num_error ''ParseUint'' s e)))"

definition GetMemoryLimit :: "reader \<Rightarrow> string \<Rightarrow> string + int64" where
  "GetMemoryLimit read path = read_int read path MemoryLimitsFile"

definition GetCPUQuota :: "reader \<Rightarrow> string \<Rightarrow> string + int64" where
  "GetCPUQuota read path = read_int read path CFSQuotaFile"

definition GetCPUPeriod :: "reader \<Rightarrow> string \<Rightarrow> string + uint64" where
  "GetCPUPeriod read path = read_uint read path CFSPeriodFile"

definition GetCPUShares :: "reader \<Rightarrow> string \<Rightarrow> string + uint64" where
  "GetCPUShares read path = read_uint read path CPUShares_file"

text \<open>A state that is neither frozen nor thawed, as while the kernel freezes, counts as undefined.\<close>

definition GetFreezerStats :: "reader \<Rightarrow> string \<Rightarrow> string + FreezerState" where
  "GetFreezerStats read path = map_sum id (\<lambda>s. if s = ''FROZEN'' then Frozen else if s = ''THAWED'' then Thawed else Undefined)
     (readFile read path ''freezer.state'')"

definition cgroup_path :: "(string \<times> string) list \<Rightarrow> string \<Rightarrow> string" where
  "cgroup_path paths controller = (case map_of paths controller of None \<Rightarrow> '''' | Some p \<Rightarrow> p)"

definition GetResourceConfig :: "cgroupManagerImpl \<Rightarrow> reader \<Rightarrow> string \<Rightarrow> string + ResourceConfig" where
  "GetResourceConfig m read name = (let ps = buildCgroupPaths m name; cpu = cgroup_path ps ''cpu'' in
     case GetMemoryLimit read (cgroup_path ps ''memory'') of
       Inl e \<Rightarrow> Inl e
     | Inr memoryLimit \<Rightarrow> (case GetCPUPeriod read cpu of
         Inl e \<Rightarrow> Inl e
       | Inr cpuPeriod \<Rightarrow> (case GetCPUShares read cpu of
           Inl e \<Rightarrow> Inl e
         | Inr cpuShares \<Rightarrow> (case GetCPUQuota read cpu of
             Inl e \<Rightarrow> Inl e
           | Inr cpuQuota \<Rightarrow> (case GetFreezerStats read (cgroup_path ps ''freezer'') of
               Inl e \<Rightarrow> Inl e
             | Inr freeze \<Rightarrow> Inr (empty_config\<lparr>Memory_cfg := Some memoryLimit, CpuPeriod_cfg := Some cpuPeriod, CpuQuota_cfg := Some cpuQuota,
                 CpuShares_cfg := Some cpuShares, Freezer_cfg := Some freeze\<rparr>))))))"

text \<open>The limits of the node's configuration as a cgroup configuration.\<close>

definition invalid_byte_quantity :: string where
  "invalid_byte_quantity = ''Byte quantity must be a positive integer with a unit of measurement like M, MB, G, or GB''"

record ResourceParams =
  MemLimits :: string
  CPURequests :: gofloat
  CPULimits :: gofloat

definition GetResourcesConfig :: "uint64 \<Rightarrow> int64 \<Rightarrow> cgroupManagerImpl \<Rightarrow> files \<Rightarrow> ResourceParams \<Rightarrow> string + ResourceConfig" where
  "GetResourcesConfig big wide m fs r = (case ToBytes big (MemLimits r) of
     None \<Rightarrow> Inl invalid_byte_quantity
   | Some mem \<Rightarrow> (case GetCgroupSubsysPath m ''cpu'' of
       Inl e \<Rightarrow> Inl e
     | Inr p \<Rightarrow> (case GetCgroupParamUint fs p CFSPeriodFile of
         Inl e \<Rightarrow> Inl e
       | Inr cpuPeriod \<Rightarrow>
           let minus_one = float_of float64 (- 1);
               shares = (if float_eq (CPURequests r) minus_one then uint64_of SharesPerCPU else MilliCPUToShares (milli wide (CPURequests r)));
               quota = (if float_eq (CPULimits r) minus_one then - 1 else MilliCPUToQuota (milli wide (CPULimits r)) (int64_of cpuPeriod))
           in Inr (empty_config\<lparr>Memory_cfg := Some (int64_of mem), CpuShares_cfg := Some shares, CpuPeriod_cfg := Some cpuPeriod, CpuQuota_cfg := Some quota\<rparr>))))"

section \<open>The resource manager\<close>

record ResourceOption =
  TotalMemory_o :: string
  TotalCPUs_o :: gofloat
  ReservedMemory_o :: string
  ReservedCPUs_o :: gofloat
  MemLimits_o :: string
  CPURequests_o :: gofloat
  CPULimits_o :: gofloat

record ResourceControl =
  baseMem :: uint64
  totalResource :: FuncletResource
  baseResourceParams :: ResourceParams
  defaultResourceConfig :: ResourceConfig
  cgroupManager :: cgroupManagerImpl

definition getMemoryCapacity :: "uint64 \<Rightarrow> cgroupManagerImpl \<Rightarrow> files \<Rightarrow> string \<Rightarrow> string + int64" where
  "getMemoryCapacity big m fs totalMemory =
     (case (if totalMemory = '''' then Some 0 else ToBytes big totalMemory) of
        None \<Rightarrow> Inl invalid_byte_quantity
      | Some configured \<Rightarrow> (case GetCgroupSubsysPath m ''memory'' of
          Inl e \<Rightarrow> Inl e
        | Inr p \<Rightarrow> (case GetCgroupParamUint fs p MemoryLimitsFile of
            Inl e \<Rightarrow> Inl e
          | Inr quota \<Rightarrow> Inr (int64_of (if quota = MemoryNoLimits \<and> configured \<noteq> 0 then configured else quota)))))"

definition getMilliCPUCapacity :: "int64 \<Rightarrow> cgroupManagerImpl \<Rightarrow> files \<Rightarrow> gofloat \<Rightarrow> string + int64" where
  "getMilliCPUCapacity wide m fs totalCPU = (case GetCgroupSubsysPath m ''cpu'' of
     Inl e \<Rightarrow> Inl e
   | Inr p \<Rightarrow> (case GetCgroupParamUint fs p CFSPeriodFile of
       Inl e \<Rightarrow> Inl e
     | Inr period \<Rightarrow> (case GetCgroupParamInt fs p CFSQuotaFile of
         Inl e \<Rightarrow> Inl e
       | Inr quota \<Rightarrow>
           let configured = (if float_is_zero totalCPU then 0 else milli wide totalCPU)
           in Inr (if quota = CPUNoLimits \<and> configured \<noteq> 0 then configured else QuotaToMilliCPU quota (int64_of period)))))"

definition HasSufficientResources :: "uint64 \<Rightarrow> int64 \<Rightarrow> cgroupManagerImpl \<Rightarrow> files \<Rightarrow> ResourceOption \<Rightarrow> int64 \<Rightarrow> string + ResourceControl option" where
  "HasSufficientResources big wide m fs o1 containerNum =
     (let rp = \<lparr>MemLimits = MemLimits_o o1, CPURequests = CPURequests_o o1, CPULimits = CPULimits_o o1\<rparr>
      in case GetResourcesConfig big wide m fs rp of
           Inl e \<Rightarrow> Inl e
         | Inr config \<Rightarrow> (case getMemoryCapacity big m fs (TotalMemory_o o1) of
             Inl e \<Rightarrow> Inl e
           | Inr memory \<Rightarrow> (case getMilliCPUCapacity wide m fs (TotalCPUs_o o1) of
               Inl e \<Rightarrow> Inl e
             | Inr cpus \<Rightarrow> (case ToBytes big (ReservedMemory_o o1) of
                 None \<Rightarrow> Inl invalid_byte_quantity
               | Some reservedUint \<Rightarrow>
                   let reserved = int64_of reservedUint; reservedCPUs = milli wide (ReservedCPUs_o o1)
                   in if memory \<le> reserved then Inl ''reserved memory configuration invalid''
                      else if cpus \<le> reservedCPUs then Inl ''reserved cpu configuration invalid''
                      else let base = (case Memory_cfg config of None \<Rightarrow> 0 | Some v \<Rightarrow> v);
                               allocatable = \<lparr>MilliCPUs = i64 (cpus - reservedCPUs), Memory = i64 (memory - reserved)\<rparr>;
                               containerMilliCPUs = milli wide (CPULimits_o o1)
                           in if Memory allocatable < i64 (base * containerNum) then Inr None
                              else if MilliCPUs allocatable < containerMilliCPUs then Inr None
                              else Inr (Some \<lparr>baseMem = uint64_of base,
                                     totalResource = \<lparr>BaseMemory_fr = uint64_of base, Default_fr = Some \<lparr>MilliCPUs = containerMilliCPUs, Memory = base\<rparr>,
                                       Capacity_fr = Some \<lparr>MilliCPUs = cpus, Memory = memory\<rparr>, Reserved_fr = Some \<lparr>MilliCPUs = reservedCPUs, Memory = reserved\<rparr>,
                                       Allocatable_fr = Some allocatable\<rparr>,
                                     baseResourceParams = rp, defaultResourceConfig = config, cgroupManager = m\<rparr>)))))"

definition NewResourceManager :: "uint64 \<Rightarrow> int64 \<Rightarrow> cgroupManagerImpl \<Rightarrow> files \<Rightarrow> ResourceOption \<Rightarrow> int64 \<Rightarrow> string + ResourceControl" where
  "NewResourceManager big wide m fs o1 containerNum = (case HasSufficientResources big wide m fs o1 containerNum of
     Inr (Some rc) \<Rightarrow> Inr rc
   | Inr None \<Rightarrow> Inl ''check container resources failed: [isSufficient false] [Err %!s(<nil>)]''
   | Inl e \<Rightarrow> Inl (''check container resources failed: [isSufficient false] [Err '' @ e @ '']''))"

text \<open>The quotient is taken of integers, so rounding it up changes nothing; a zero base divides by zero.\<close>

definition allocatable_cpus :: "ResourceControl \<Rightarrow> int64" where
  "allocatable_cpus rc = (case Allocatable_fr (totalResource rc) of None \<Rightarrow> 0 | Some r \<Rightarrow> MilliCPUs r)"

definition cap_cpus :: "int64 \<Rightarrow> ResourceControl \<Rightarrow> gofloat \<Rightarrow> gofloat" where
  "cap_cpus wide rc x = (if allocatable_cpus rc < milli wide x then float_of float64 (go_div (allocatable_cpus rc) 1000) else x)"

definition GetResourceConfigByReadableMemory :: "uint64 \<Rightarrow> int64 \<Rightarrow> files \<Rightarrow> ResourceControl \<Rightarrow> string \<Rightarrow> (string + ResourceConfig) outcome" where
  "GetResourceConfigByReadableMemory big wide fs rc memoryStr =
     (let targetMem = (case ToBytes big memoryStr of None \<Rightarrow> 0 | Some v \<Rightarrow> v)
      in if baseMem rc = 0 then Panic ''integer divide by zero''
         else let base = float_of float64 (uint (targetMem div baseMem rc));
                  p = baseResourceParams rc;
                  rp = \<lparr>MemLimits = memoryStr, CPURequests = cap_cpus wide rc (float_mul float64 base (CPURequests p)),
                        CPULimits = cap_cpus wide rc (float_mul float64 base (CPULimits p))\<rparr>
              in Value (GetResourcesConfig big wide (cgroupManager rc) fs rp))"

section \<open>Containers\<close>

definition ErrCgroupNotExist :: "string \<Rightarrow> string" where
  "ErrCgroupNotExist i = i @ '': cgroup not exist''"

definition UpdateContainerResource :: "'h libcontainer \<Rightarrow> cgroupManagerImpl \<Rightarrow> string \<Rightarrow> ResourceConfig \<Rightarrow> 'h action" where
  "UpdateContainerResource lc m i config h =
     (if \<not> cgroup_Exists m (PathExists lc h) i then (Some (ErrCgroupNotExist i), h) else cgroup_Update lc m i (Some config) h)"

definition FrozenContainer :: "'h libcontainer \<Rightarrow> cgroupManagerImpl \<Rightarrow> string \<Rightarrow> 'h action" where
  "FrozenContainer lc m i h =
     (if \<not> cgroup_Exists m (PathExists lc h) i then (Some (ErrCgroupNotExist i), h)
      else cgroup_Update lc m i (Some (empty_config\<lparr>Freezer_cfg := Some Frozen\<rparr>)) h)"

definition ThawContainer :: "'h libcontainer \<Rightarrow> cgroupManagerImpl \<Rightarrow> string \<Rightarrow> 'h action" where
  "ThawContainer lc m i h =
     (if \<not> cgroup_Exists m (PathExists lc h) i then (Some (ErrCgroupNotExist i), h)
      else cgroup_Update lc m i (Some (empty_config\<lparr>Freezer_cfg := Some Thawed\<rparr>)) h)"

definition ContainerResourceStats :: "'h libcontainer \<Rightarrow> cgroupManagerImpl \<Rightarrow> string \<Rightarrow> ('h, ResourceStats) call" where
  "ContainerResourceStats lc m i h =
     (if \<not> cgroup_Exists m (PathExists lc h) i then (Inl (ErrCgroupNotExist i), h) else subsystem_Stats lc (buildCgroupPaths m i) h)"

text \<open>The pointers of the configuration are set whenever it is read without error.\<close>

definition ContainerResources :: "'h libcontainer \<Rightarrow> cgroupManagerImpl \<Rightarrow> string \<Rightarrow> ('h, Resource) call" where
  "ContainerResources lc m i h =
     (if \<not> cgroup_Exists m (PathExists lc h) i then (Inl (ErrCgroupNotExist i), h)
      else (case GetResourceConfig m (host_reader lc h) i of
        Inl e \<Rightarrow> (Inl e, h)
      | Inr config \<Rightarrow> (Inr \<lparr>MilliCPUs = QuotaToMilliCPU (the (CpuQuota_cfg config)) (int64_of (the (CpuPeriod_cfg config))),
                          Memory = the (Memory_cfg config)\<rparr>, h)))"

text \<open>The interface the funclet uses, over these definitions.\<close>

definition resource_manager :: "uint64 \<Rightarrow> int64 \<Rightarrow> 'h libcontainer \<Rightarrow> ('h \<Rightarrow> files) \<Rightarrow> ResourceControl \<Rightarrow> 'h ResourceManager" where
  "resource_manager big wide lc fs rc =
     \<lparr>GetDefaultResourceConfig_rm = defaultResourceConfig rc,
      GetResourceConfigByReadableMemory_rm = (\<lambda>s h. (GetResourceConfigByReadableMemory big wide (fs h) rc s, h)),
      GetTotalResources_rm = totalResource rc,
      FrozenContainer_rm = FrozenContainer lc (cgroupManager rc), ThawContainer_rm = ThawContainer lc (cgroupManager rc),
      ContainerResources_rm = ContainerResources lc (cgroupManager rc), ContainerResourceStats_rm = ContainerResourceStats lc (cgroupManager rc),
      UpdateContainerResource_rm = UpdateContainerResource lc (cgroupManager rc)\<rparr>"

section \<open>Quantities\<close>

lemma go_div_pos: "0 \<le> a \<Longrightarrow> 0 < b \<Longrightarrow> a < 2 ^ 63 \<Longrightarrow> go_div a b = a div b"
proof -
  assume *: "0 \<le> a" "0 < b" "a < 2 ^ 63"
  have "a sdiv b = a div b" using * by (simp add: signed_divide_int_def sgn_if)
  moreover have "0 \<le> a div b" "a div b \<le> a"
    using * div_by_1 [of a] zdiv_mono2 [of a 1 b] by (simp_all add: pos_imp_zdiv_nonneg_iff)
  ultimately show ?thesis using * by (simp add: go_div_def i64_id in_i64_def)
qed

lemma go_div_neg: "a < 0 \<Longrightarrow> 0 < b \<Longrightarrow> - (2 ^ 63) \<le> a \<Longrightarrow> go_div a b \<le> 0"
proof -
  assume *: "a < 0" "0 < b" "- (2 ^ 63) \<le> a"
  have s: "a sdiv b = - ((- a) div b)" using * by (simp add: signed_divide_int_def sgn_if)
  have "0 \<le> (- a) div b" "(- a) div b \<le> - a"
    using * div_by_1 [of "- a"] zdiv_mono2 [of "- a" 1 b] by (simp_all add: pos_imp_zdiv_nonneg_iff)
  then show ?thesis using * by (simp add: go_div_def s i64_id in_i64_def)
qed

text \<open>A limit in thousandths of a processor is written to the cgroup as a quota and read back from it. For a period of whole
  milliseconds, a limit of at least one millisecond per period and a product that fits \<open>int64\<close>, the container reports the limit it was given.\<close>

theorem quota_roundtrip:
  assumes "0 < period" "1000 dvd period" "1000000 \<le> m * period" "m * period < 2 ^ 63"
  shows "QuotaToMilliCPU (MilliCPUToQuota m period) period = m"
proof -
  obtain p where p: "period = 1000 * p" using assms(2) by blast
  have p0: "0 < p" using assms(1) p by simp
  have m: "0 < m"
  proof (rule ccontr)
    assume "\<not> 0 < m"
    then have "m * period \<le> 0" using assms(1) by (simp add: mult_nonpos_nonneg)
    then show False using assms(3) by simp
  qed
  have mp: "m * period = (m * p) * 1000" by (simp add: p)
  have q: "MilliCPUToQuota m period = m * p"
    using assms m p0 by (simp add: MilliCPUToQuota_def cpu_constants Let_def i64_id in_i64_def go_div_pos mp)
  have "QuotaToMilliCPU (m * p) period = go_div (m * period) period"
    using assms m p0 by (simp add: QuotaToMilliCPU_def cpu_constants Let_def i64_id in_i64_def mp)
  also have "\<dots> = m" using assms by (subst go_div_pos) auto
  finally show ?thesis by (simp add: q)
qed

theorem quota_roundtrip_witness: "QuotaToMilliCPU (MilliCPUToQuota 500 100000) 100000 = 500"
  by (rule quota_roundtrip) simp_all

section \<open>What the start-up check promises\<close>

lemma HasSufficientResources_Some:
  assumes "HasSufficientResources big wide m fs o1 n = Inr (Some rc)"
  obtains base cpus memory reserved reservedCPUs where
    "totalResource rc = \<lparr>BaseMemory_fr = uint64_of base, Default_fr = Some \<lparr>MilliCPUs = milli wide (CPULimits_o o1), Memory = base\<rparr>,
       Capacity_fr = Some \<lparr>MilliCPUs = cpus, Memory = memory\<rparr>, Reserved_fr = Some \<lparr>MilliCPUs = reservedCPUs, Memory = reserved\<rparr>,
       Allocatable_fr = Some \<lparr>MilliCPUs = i64 (cpus - reservedCPUs), Memory = i64 (memory - reserved)\<rparr>\<rparr>"
    "reserved < memory" "reservedCPUs < cpus" "i64 (base * n) \<le> i64 (memory - reserved)" "in_i64 memory"
    "baseMem rc = uint64_of base" "cgroupManager rc = m"
proof -
  let ?rp = "\<lparr>MemLimits = MemLimits_o o1, CPURequests = CPURequests_o o1, CPULimits = CPULimits_o o1\<rparr>"
  obtain config where c: "GetResourcesConfig big wide m fs ?rp = Inr config"
    using assms by (auto simp: HasSufficientResources_def Let_def split: sum.splits)
  obtain memory where mm: "getMemoryCapacity big m fs (TotalMemory_o o1) = Inr memory"
    using assms c by (auto simp: HasSufficientResources_def Let_def split: sum.splits)
  obtain cpus where cc: "getMilliCPUCapacity wide m fs (TotalCPUs_o o1) = Inr cpus"
    using assms c mm by (auto simp: HasSufficientResources_def Let_def split: sum.splits)
  obtain r where r: "ToBytes big (ReservedMemory_o o1) = Some r"
    using assms c mm cc by (auto simp: HasSufficientResources_def Let_def split: option.splits)
  have i: "in_i64 memory" using mm by (auto simp: getMemoryCapacity_def split: option.splits sum.splits)
  show thesis
    by (rule that [of "case Memory_cfg config of None \<Rightarrow> 0 | Some v \<Rightarrow> v" cpus memory "milli wide (ReservedCPUs_o o1)" "int64_of r"])
      (use assms i in \<open>simp_all add: HasSufficientResources_def Let_def c mm cc r split: if_splits, auto\<close>)
qed

text \<open>A funclet that starts has the memory it promises: the memory of all its containers at their base size, together with
  the reserved memory, does not exceed the capacity of the node, as long as the products fit \<open>int64\<close>.\<close>

theorem accepted_node_fits:
  assumes "NewResourceManager big wide m fs o1 n = Inr rc"
    and "Default_fr (totalResource rc) = Some d" "Reserved_fr (totalResource rc) = Some r" "Capacity_fr (totalResource rc) = Some c"
    and "in_i64 (Memory d * n)" "0 \<le> Memory r"
  shows "Memory d * n + Memory r \<le> Memory c"
proof -
  from assms(1) have "HasSufficientResources big wide m fs o1 n = Inr (Some rc)"
    by (auto simp: NewResourceManager_def split: sum.splits option.splits)
  then show ?thesis
    by (rule HasSufficientResources_Some) (use assms(2-) in \<open>auto simp: i64_id in_i64_def\<close>)
qed

section \<open>Scaling up\<close>

lemma float_mul_exact:
  assumes "\<bar>a\<bar> < 2 ^ 53" "\<bar>b\<bar> < 2 ^ 53" "\<bar>a * b\<bar> < 2 ^ 53" "a \<noteq> 0" "b \<noteq> 0"
  shows "float_mul float64 (float_of float64 a) (float_of float64 b) = float_of float64 (a * b)"
proof -
  have s: "((a < 0) \<noteq> (b < 0)) = (a * b < 0)" using assms(4,5) by (auto simp: mult_less_0_iff)
  show ?thesis
    unfolding float_of_exact [OF assms(1)] float_of_exact [OF assms(2)] float_mul.simps s
    by (simp add: float_of_def abs_mult nat_mult_distrib)
qed

lemma milli_exact:
  assumes "\<bar>a\<bar> < 2 ^ 43" "a \<noteq> 0"
  shows "milli wide (float_of float64 a) = a * 1000"
proof -
  have "milli wide (float_of float64 a) = int64_of_float wide (float_of float64 (a * 1000))"
    unfolding milli_def using assms by (subst float_mul_exact) (auto simp: abs_mult)
  also have "\<dots> = a * 1000"
    using assms by (subst float_of_exact) (auto simp: abs_mult int64_of_float_def in_i64_def Let_def)
  finally show ?thesis .
qed

text \<open>The processor limit \<open>-1\<close> means no limit, and a container of the base size gets it. Scaling up multiplies the limit by the
  factor of the memory, and \<open>-k\<close> no longer means no limit: a container that is given at least twice the base memory is
  throttled to the least quota there is, one millisecond in each period.\<close>

theorem scale_up_unlimited_throttled:
  assumes "CPULimits (baseResourceParams rc) = float_of float64 (- 1)" "baseMem rc \<noteq> 0" "0 \<le> allocatable_cpus rc"
    and "ToBytes big memoryStr = Some target" "2 \<le> uint (target div baseMem rc)" "uint (target div baseMem rc) < 2 ^ 20"
    and "GetResourceConfigByReadableMemory big wide fs rc memoryStr = Value (Inr config)"
    and "GetCgroupSubsysPath (cgroupManager rc) ''cpu'' = Inr path" "GetCgroupParamUint fs path CFSPeriodFile = Inr period" "uint period < 2 ^ 32"
  shows "CpuQuota_cfg config = Some 1000"
proof -
  let ?k = "uint (target div baseMem rc)"
  have x: "float_mul float64 (float_of float64 ?k) (float_of float64 (- 1)) = float_of float64 (- ?k)"
    using assms(5,6) by (subst float_mul_exact) auto
  have ml: "milli wide (float_of float64 (- ?k)) = - ?k * 1000"
    using assms(5,6) by (intro milli_exact) auto
  have cap: "cap_cpus wide rc (float_of float64 (- ?k)) = float_of float64 (- ?k)"
    using assms(3,5) by (simp add: cap_cpus_def ml)
  have ne: "\<not> float_eq (float_of float64 (- ?k)) (float_of float64 (- 1))"
    using assms(5,6) by (simp add: float_eq_def float_of_exact scaled_def)
  have "MilliCPUToQuota (- ?k * 1000) (int64_of period) = 1000"
  proof -
    let ?p = "if int64_of period = 0 then QuotaPeriod else int64_of period"
    have "int64_of period = uint period" using assms(10) by (intro int64_of_small) simp
    then have p: "0 < ?p" "?p < 2 ^ 32" using assms(10) by (auto simp: QuotaPeriod_def intro: le_neq_trans [OF uint_ge_0])
    have a: "?k * 1000 * ?p < 2 ^ 31 * 2 ^ 32"
      using assms(5,6) p by (intro mult_strict_mono) auto
    have b: "0 < ?k * 1000 * ?p" using assms(5) p by simp
    have "go_div (i64 (- ?k * 1000 * ?p)) 1000 \<le> 0"
      using a b by (intro go_div_neg) (auto simp: i64_id in_i64_def)
    then show ?thesis using assms(5) by (simp add: MilliCPUToQuota_def Let_def MilliCPUToCPU_def MinQuotaPeriod_def)
  qed
  then show ?thesis
    using assms(2,4,7,8,9)
    by (auto simp: GetResourceConfigByReadableMemory_def GetResourcesConfig_def Let_def assms(1) x cap ne ml split: sum.splits)
qed

section \<open>A node\<close>

text \<open>A node with one gigabyte and four processors, and a funclet with four containers of 128 megabytes without a processor limit.\<close>

definition sample_files :: files where
  "sample_files p = (if p = ''/sys/fs/cgroup/memory/memory.limit_in_bytes'' then Inr ''1073741824''
     else if p = ''/sys/fs/cgroup/cpu/cpu.cfs_period_us'' then Inr ''100000''
     else if p = ''/sys/fs/cgroup/cpu/cpu.cfs_quota_us'' then Inr ''400000'' else Inl ''no such file'')"

definition sample_cgroup :: cgroupManagerImpl where
  "sample_cgroup = \<lparr>MountPoints = [], cgroupRootPath = DefaultCgroupPath\<rparr>"

definition sample_options :: ResourceOption where
  "sample_options = \<lparr>TotalMemory_o = '''', TotalCPUs_o = float_of float64 10, ReservedMemory_o = ''100M'', ReservedCPUs_o = float_of float64 1,
     MemLimits_o = ''128M'', CPURequests_o = float_of float64 1, CPULimits_o = float_of float64 (- 1)\<rparr>"

definition sample_total :: FuncletResource where
  "sample_total = \<lparr>BaseMemory_fr = 134217728, Default_fr = Some \<lparr>MilliCPUs = - 1000, Memory = 134217728\<rparr>,
     Capacity_fr = Some \<lparr>MilliCPUs = 4000, Memory = 1073741824\<rparr>, Reserved_fr = Some \<lparr>MilliCPUs = 1000, Memory = 104857600\<rparr>,
     Allocatable_fr = Some \<lparr>MilliCPUs = 3000, Memory = 968884224\<rparr>\<rparr>"

text \<open>The steps of the start-up check on this node.\<close>

lemma sample_bytes: "ToBytes 0 ''128M'' = Some 134217728" "ToBytes 0 ''256M'' = Some 268435456" "ToBytes 0 ''100M'' = Some 104857600"
proof -
  have d: "digits 128 = ''128''" "digits 256 = ''256''" "digits 100 = ''100''" by code_simp+
  have "ByteSize (of_nat (128 * 2 ^ 20)) = ''128M''" "ByteSize (of_nat (256 * 2 ^ 20)) = ''256M''" "ByteSize (of_nat (100 * 2 ^ 20)) = ''100M''"
    using ByteSize_multiple [of 128 20] ByteSize_multiple [of 256 20] ByteSize_multiple [of 100 20] by (simp_all add: unit_letter_def d)
  then show "ToBytes 0 ''128M'' = Some 134217728" "ToBytes 0 ''256M'' = Some 268435456" "ToBytes 0 ''100M'' = Some 104857600"
    using ToBytes_ByteSize_multiple [of 128 20 0] ToBytes_ByteSize_multiple [of 256 20 0] ToBytes_ByteSize_multiple [of 100 20 0] by simp_all
qed

lemma sample_params:
  "GetCgroupParamUint sample_files ''/sys/fs/cgroup/cpu'' CFSPeriodFile = Inr 100000"
  "GetCgroupParamInt sample_files ''/sys/fs/cgroup/cpu'' CFSQuotaFile = Inr 400000"
  "GetCgroupParamUint sample_files ''/sys/fs/cgroup/memory'' MemoryLimitsFile = Inr 1073741824"
proof -
  have j: "path_Join ''/sys/fs/cgroup/cpu'' CFSPeriodFile = ''/sys/fs/cgroup/cpu/cpu.cfs_period_us''"
    "path_Join ''/sys/fs/cgroup/cpu'' CFSQuotaFile = ''/sys/fs/cgroup/cpu/cpu.cfs_quota_us''"
    "path_Join ''/sys/fs/cgroup/memory'' MemoryLimitsFile = ''/sys/fs/cgroup/memory/memory.limit_in_bytes''" by code_simp+
  have t: "TrimSpace ''100000'' = ''100000''" "TrimSpace ''400000'' = ''400000''" "TrimSpace ''1073741824'' = ''1073741824''" by code_simp+
  have d: "digits_value ''100000'' = 100000" "digits_value ''400000'' = 400000" "digits_value ''1073741824'' = 1073741824"
    by (simp_all add: digits_value_def of_char_def)
  show "GetCgroupParamUint sample_files ''/sys/fs/cgroup/cpu'' CFSPeriodFile = Inr 100000"
    by (simp add: GetCgroupParamUint_def j sample_files_def t parseUint_def ParseUint_def is_digit_char_def d)
  show "GetCgroupParamInt sample_files ''/sys/fs/cgroup/cpu'' CFSQuotaFile = Inr 400000"
    by (simp add: GetCgroupParamInt_def j sample_files_def t parseInt_def ParseInt_def is_digit_char_def HasPrefix_def d)
  show "GetCgroupParamUint sample_files ''/sys/fs/cgroup/memory'' MemoryLimitsFile = Inr 1073741824"
    by (simp add: GetCgroupParamUint_def j sample_files_def t parseUint_def ParseUint_def is_digit_char_def d)
qed

lemma sample_subsys: "GetCgroupSubsysPath sample_cgroup ''cpu'' = Inr ''/sys/fs/cgroup/cpu''"
  "GetCgroupSubsysPath sample_cgroup ''memory'' = Inr ''/sys/fs/cgroup/memory''"
  by code_simp+

lemma sample_config: "GetResourcesConfig 0 0 sample_cgroup sample_files \<lparr>MemLimits = ''128M'', CPURequests = float_of float64 1, CPULimits = float_of float64 (- 1)\<rparr> =
  Inr (empty_config\<lparr>Memory_cfg := Some 134217728, CpuShares_cfg := Some 1024, CpuPeriod_cfg := Some 100000, CpuQuota_cfg := Some (- 1)\<rparr>)"
proof -
  have f: "\<not> float_eq (float_of float64 1) (float_of float64 (- 1))" "float_eq (float_of float64 (- 1)) (float_of float64 (- 1))"
    by (simp_all add: float_eq_def float_of_exact scaled_def)
  have s: "MilliCPUToShares 1000 = 1024" by (simp add: MilliCPUToShares_def cpu_constants go_div_pos i64_id in_i64_def uint64_of_def)
  show ?thesis
    by (simp add: GetResourcesConfig_def sample_bytes sample_subsys sample_params f milli_exact s int64_of_small)
qed

lemma sample_run:
  "\<exists>rc. NewResourceManager 0 0 sample_cgroup sample_files sample_options 4 = Inr rc \<and> totalResource rc = sample_total \<and>
     baseMem rc = 134217728 \<and> cgroupManager rc = sample_cgroup \<and> CPULimits (baseResourceParams rc) = float_of float64 (- 1)"
proof -
  have c: "getMemoryCapacity 0 sample_cgroup sample_files '''' = Inr 1073741824"
    by (simp add: getMemoryCapacity_def sample_subsys sample_params MemoryNoLimits_def int64_of_small)
  have q: "QuotaToMilliCPU 400000 100000 = 4000" by (simp add: QuotaToMilliCPU_def cpu_constants go_div_pos i64_id in_i64_def)
  have p: "getMilliCPUCapacity 0 sample_cgroup sample_files (float_of float64 10) = Inr 4000"
    by (simp add: getMilliCPUCapacity_def sample_subsys sample_params CPUNoLimits_def int64_of_small q Let_def)
  have m: "milli 0 (float_of float64 1) = 1000" "milli 0 (float_of float64 (- 1)) = - 1000" by (simp_all add: milli_exact)
  show ?thesis
    by (simp add: NewResourceManager_def HasSufficientResources_def sample_options_def sample_config c p m sample_bytes Let_def
        int64_of_small i64_id in_i64_def sample_total_def uint64_of_def empty_config_def)
qed

theorem accepted_node_fits_witness:
  "\<exists>rc. NewResourceManager 0 0 sample_cgroup sample_files sample_options 4 = Inr rc \<and> (134217728 * 4 + 104857600 :: int) \<le> 1073741824"
proof -
  from sample_run obtain rc where rc: "NewResourceManager 0 0 sample_cgroup sample_files sample_options 4 = Inr rc" "totalResource rc = sample_total"
    by blast
  have "Memory \<lparr>MilliCPUs = - 1000, Memory = 134217728\<rparr> * 4 + Memory \<lparr>MilliCPUs = 1000, Memory = 104857600\<rparr> \<le>
      Memory \<lparr>MilliCPUs = 4000, Memory = 1073741824\<rparr>"
    by (rule accepted_node_fits [OF rc(1)]) (simp_all add: rc(2) sample_total_def in_i64_def)
  then show ?thesis using rc(1) by simp
qed

theorem scale_up_unlimited_throttled_witness:
  "\<exists>rc config. NewResourceManager 0 0 sample_cgroup sample_files sample_options 4 = Inr rc \<and>
     GetResourceConfigByReadableMemory 0 0 sample_files rc ''256M'' = Value (Inr config) \<and> CpuQuota_cfg config = Some 1000"
proof -
  from sample_run obtain rc where rc: "NewResourceManager 0 0 sample_cgroup sample_files sample_options 4 = Inr rc" "totalResource rc = sample_total"
    "baseMem rc = 134217728" "cgroupManager rc = sample_cgroup" "CPULimits (baseResourceParams rc) = float_of float64 (- 1)" by blast
  have k: "(268435456 :: uint64) div 134217728 = 2" by simp
  obtain config where config: "GetResourceConfigByReadableMemory 0 0 sample_files rc ''256M'' = Value (Inr config)"
    by (auto simp: GetResourceConfigByReadableMemory_def GetResourcesConfig_def rc sample_bytes sample_subsys sample_params Let_def)
  have "CpuQuota_cfg config = Some 1000"
    by (rule scale_up_unlimited_throttled [OF rc(5) _ _ sample_bytes(2) _ _ config _ sample_params(1)])
      (simp_all add: rc allocatable_cpus_def sample_total_def k sample_subsys)
  with rc(1) config show ?thesis by blast
qed

end
