(* ===== verification/FnTmp.thy ===== *)
theory FnTmp
  imports FnPaths FnResource
begin

text \<open>
  The temporary directories of the containers: the XFS project quotas (\<open>src/pkg/funclet/quota/xfs_quota.go\<close>), the manager over them
  (\<open>src/pkg/funclet/tmp/tmp_manager.go\<close>) and the periodic task that frees directories no container uses (\<open>src/pkg/funclet/task.go\<close>). The text
  of the projects file is part of the controller's state; an access to it that fails leaves it as it was. The pool of project
  numbers is a channel: taking from the empty channel and putting into the full one block, which is the result \<open>None\<close>.
\<close>

section \<open>Commands\<close>

text \<open>\<open>CommandOutput\<close> of \<open>src/pkg/funclet/command/command.go\<close>, over what \<open>os/exec\<close> reports.\<close>

definition CommandOutput :: "'h exec \<Rightarrow> string \<Rightarrow> string list \<Rightarrow> 'h \<Rightarrow> (string \<times> string option) \<times> 'h" where
  "CommandOutput ex cmd args h = map_prod (\<lambda>x. (exec_data x, case x of
     StartNotFound \<Rightarrow> Some (''command '' @ cmd @ '' not installed on system'')
   | StartFailed e \<Rightarrow> Some e
   | WaitNoChild _ \<Rightarrow> None
   | WaitExit _ \<Rightarrow> Some (''command '' @ cmd @ '' execution error'')
   | WaitFailed _ e \<Rightarrow> Some e
   | ExecOk _ \<Rightarrow> None)) id (ex cmd args h)"

section \<open>The projects file\<close>

type_synonym uint32 = "32 word"

definition idPoolSize :: nat where "idPoolSize = 1000"

record xfsQuotaCtrl =
  projects :: "(uint32 \<times> string) list"
  pathIDs :: "(string \<times> uint32) list"
  projIDPool :: "uint32 list"
  proj_text :: string
  RunnersTmpPath_q :: string
  tmpSize_q :: string

definition newline :: char where "newline = CHR 0x0A"
definition carriage :: char where "carriage = CHR 0x0D"

text \<open>The lines a \<open>bufio.Scanner\<close> gives: without the end of line, and without an empty rest.\<close>

definition drop_carriage :: "string \<Rightarrow> string" where
  "drop_carriage l = (if l \<noteq> [] \<and> last l = carriage then butlast l else l)"

definition scan_lines :: "string \<Rightarrow> string list" where
  "scan_lines t = (let ls = split_on newline t in map drop_carriage (if last ls = [] then butlast ls else ls))"

type_synonym proj_maps = "(uint32 \<times> string) list \<times> (string \<times> uint32) list"

text \<open>A line without a number is skipped, one with a number and no colon is an index out of range. A line of 64 kilobytes
  ends the scan with an error.\<close>

fun parse_projects :: "string list \<Rightarrow> proj_maps \<Rightarrow> (string + proj_maps) outcome" where
  "parse_projects [] ms = Value (Inr ms)"
| "parse_projects (ol # ls) (ps, is) =
     (if 65536 \<le> length ol then Value (Inl ''bufio.Scanner: token too long'')
      else let items = split_on (CHR '':'') ol in
        case ParseInt (hd items) of
          (_, Some _) \<Rightarrow> parse_projects ls (ps, is)
        | (idInt, None) \<Rightarrow>
            if length items < 2 then Panic ''index out of range''
            else let k = (word_of_int idInt :: uint32); p = items ! 1
                 in parse_projects ls (AList.update k p ps, AList.update p k is))"

text \<open>The calls of the operating system the controller makes.\<close>

datatype stat_result = NotExist | StatError string | IsThere nat

datatype file_op = OpenRead | AppendText string | WriteText string | CreateEmpty

record 'h quota_os =
  Stat_q :: "string \<Rightarrow> 'h \<Rightarrow> stat_result"
  mkdir_q :: "string \<Rightarrow> 'h action"
  chmod_q :: "string \<Rightarrow> 'h action"
  erase_q :: "string \<Rightarrow> 'h action"
  file_q :: "file_op \<Rightarrow> 'h action"
  exec_q :: "'h exec"

definition syncExistsProjects :: "'h quota_os \<Rightarrow> xfsQuotaCtrl \<Rightarrow> 'h \<Rightarrow> (string option \<times> xfsQuotaCtrl \<times> 'h) outcome" where
  "syncExistsProjects os q h = (case file_q os OpenRead h of
     (Some e, h1) \<Rightarrow> Value (Some e, q, h1)
   | (None, h1) \<Rightarrow> obind (parse_projects (scan_lines (proj_text q)) ([], [])) (\<lambda>r. case r of
       Inl e \<Rightarrow> Value (Some e, q, h1)
     | Inr (ps, is) \<Rightarrow> Value (None, q\<lparr>projects := ps, pathIDs := is\<rparr>, h1)))"

text \<open>The loop counts from one; it ends when the pool is full.\<close>

partial_function (option) fill_pool :: "(uint32 \<times> string) list \<Rightarrow> uint32 \<Rightarrow> uint32 list \<Rightarrow> uint32 list option" where
  "fill_pool ps k pool =
     (if idPoolSize \<le> length pool then Some pool
      else if map_of ps k \<noteq> None then fill_pool ps (k + 1) pool
      else fill_pool ps (k + 1) (pool @ [k]))"

definition initProjectIDsPool :: "xfsQuotaCtrl \<Rightarrow> xfsQuotaCtrl option" where
  "initProjectIDsPool q = map_option (\<lambda>pool. q\<lparr>projIDPool := pool\<rparr>) (fill_pool (projects q) 1 [])"

definition addToFile :: "'h quota_os \<Rightarrow> string \<Rightarrow> xfsQuotaCtrl \<Rightarrow> 'h \<Rightarrow> string option \<times> xfsQuotaCtrl \<times> 'h" where
  "addToFile os toAdd q h = (case file_q os (AppendText toAdd) h of
     (Some e, h1) \<Rightarrow> (Some e, q, h1)
   | (None, h1) \<Rightarrow> (None, q\<lparr>proj_text := proj_text q @ toAdd\<rparr>, h1))"

text \<open>
  The pattern \<open>(?m)[\r\n]*^.*PATH$\<close> replaced by nothing: it takes every line that ends with the path, in which a dot stands for
  any character, together with the ends of line before it. For a path whose other characters mean themselves.
\<close>

definition char_matches :: "char \<Rightarrow> char \<Rightarrow> bool" where
  "char_matches p c \<longleftrightarrow> p = CHR ''.'' \<or> p = c"

definition ends_with :: "string \<Rightarrow> string \<Rightarrow> bool" where
  "ends_with path l \<longleftrightarrow> length path \<le> length l \<and> list_all2 char_matches path (drop (length l - length path) l)"

definition cut_line_ends :: "string list \<Rightarrow> string list" where
  "cut_line_ends acc = (case dropWhile (list_all (\<lambda>c. c = carriage)) acc of [] \<Rightarrow> [[]] | a # r \<Rightarrow> trim_right carriage a # r)"

fun remove_lines :: "string \<Rightarrow> string list \<Rightarrow> string list \<Rightarrow> string list" where
  "remove_lines path acc [] = rev acc"
| "remove_lines path acc (l # ls) =
     (if ends_with path l then remove_lines path (cut_line_ends acc) ls else remove_lines path (l # acc) ls)"

definition remove_matching :: "string \<Rightarrow> string \<Rightarrow> string" where
  "remove_matching path t = join_with [newline] (remove_lines path [] (split_on newline t))"

definition removeFromFile :: "'h quota_os \<Rightarrow> string \<Rightarrow> xfsQuotaCtrl \<Rightarrow> 'h \<Rightarrow> string option \<times> xfsQuotaCtrl \<times> 'h" where
  "removeFromFile os path q h = (case file_q os OpenRead h of
     (Some e, h1) \<Rightarrow> (Some e, q, h1)
   | (None, h1) \<Rightarrow> (let res = remove_matching path (proj_text q) in case file_q os (WriteText res) h1 of
       (Some e, h2) \<Rightarrow> (Some e, q, h2)
     | (None, h2) \<Rightarrow> (None, q\<lparr>proj_text := res\<rparr>, h2)))"

section \<open>The quota controller\<close>

definition xfs_quota_failed :: "string \<Rightarrow> string \<Rightarrow> string" where
  "xfs_quota_failed e out = ''xfs_quota failed with error: '' @ e @ '', output: '' @ out"

definition project_desc :: "uint32 \<Rightarrow> string \<Rightarrow> string" where
  "project_desc k path = Itoa (uint k) @ '':'' @ path @ [newline]"

definition addProjectInfo :: "'h quota_os \<Rightarrow> string \<Rightarrow> xfsQuotaCtrl \<Rightarrow> 'h \<Rightarrow> (string option \<times> xfsQuotaCtrl \<times> 'h) option" where
  "addProjectInfo os path q h = (case projIDPool q of
     [] \<Rightarrow> None
   | nextID # pool \<Rightarrow> Some (case addToFile os (project_desc nextID path) (q\<lparr>projIDPool := pool\<rparr>) h of
       (Some e, q1, h1) \<Rightarrow> (Some e, q1, h1)
     | (None, q1, h1) \<Rightarrow>
         (case CommandOutput (exec_q os) ''xfs_quota'' [''-x'', ''-c'', ''project -s '' @ Itoa (uint nextID), RunnersTmpPath_q q1] h1 of
           ((data, Some e), h2) \<Rightarrow> (Some (xfs_quota_failed e data), q1, h2)
         | ((_, None), h2) \<Rightarrow>
             (None, q1\<lparr>projects := AList.update nextID path (projects q1), pathIDs := AList.update path nextID (pathIDs q1)\<rparr>, h2))))"

definition removeProjectInfo :: "'h quota_os \<Rightarrow> string \<Rightarrow> xfsQuotaCtrl \<Rightarrow> 'h \<Rightarrow> (string option \<times> xfsQuotaCtrl \<times> 'h) option" where
  "removeProjectInfo os path q h = (case removeFromFile os path q h of
     (Some e, q1, h1) \<Rightarrow> Some (Some e, q1, h1)
   | (None, q1, h1) \<Rightarrow>
       let projID = (case map_of (pathIDs q1) path of None \<Rightarrow> 0 | Some k \<Rightarrow> k);
           q2 = q1\<lparr>projects := AList.delete projID (projects q1), pathIDs := AList.delete path (pathIDs q1)\<rparr>
       in if length (projIDPool q2) < idPoolSize then Some (None, q2\<lparr>projIDPool := projIDPool q2 @ [projID]\<rparr>, h1) else None)"

definition setQuota :: "'h quota_os \<Rightarrow> string \<Rightarrow> xfsQuotaCtrl \<Rightarrow> 'h action" where
  "setQuota os path q h = (case map_of (pathIDs q) path of
     None \<Rightarrow> (Some (''the path '' @ path @ '' not belongs to any projects''), h)
   | Some k \<Rightarrow>
       (case CommandOutput (exec_q os) ''xfs_quota'' [''-x'', ''-c'', ''limit -p bhard='' @ tmpSize_q q @ '' '' @ Itoa (uint k), RunnersTmpPath_q q] h of
          ((data, Some e), h1) \<Rightarrow> (Some (xfs_quota_failed e data), h1)
        | ((_, None), h1) \<Rightarrow> (None, h1)))"

text \<open>\<open>os.ModePerm\<close>, which never equals the mode of a directory.\<close>

definition ModePerm :: nat where "ModePerm = 511"

text \<open>After a directory that was missing has been made, the code still looks at the result of the failed \<open>Stat\<close>.\<close>

definition AllocTmpDevice :: "'h quota_os \<Rightarrow> string \<Rightarrow> xfsQuotaCtrl \<Rightarrow> 'h \<Rightarrow> (string option \<times> xfsQuotaCtrl \<times> 'h) outcome option" where
  "AllocTmpDevice os path q h = (case Stat_q os path h of
     StatError e \<Rightarrow> Some (Value (Some e, q, h))
   | NotExist \<Rightarrow> (case mkdir_q os path h of
       (Some e, h1) \<Rightarrow> Some (Value (Some e, q, h1))
     | (None, h1) \<Rightarrow> Some (Panic nil_dereference))
   | IsThere m \<Rightarrow> (case (if m \<noteq> ModePerm then chmod_q os path h else (None, h)) of
       (Some e, h1) \<Rightarrow> Some (Value (Some e, q, h1))
     | (None, h1) \<Rightarrow> (case addProjectInfo os path q h1 of
         None \<Rightarrow> None
       | Some (Some e, q1, h2) \<Rightarrow> Some (Value (Some e, q1, h2))
       | Some (None, q1, h2) \<Rightarrow> (case setQuota os path q1 h2 of
           (None, h3) \<Rightarrow> Some (Value (None, q1, h3))
         | (Some e, h3) \<Rightarrow> map_option (\<lambda>(_, q2, h4). Value (Some e, q2, h4)) (removeProjectInfo os path q1 h3)))))"

definition FreeTmpDevice :: "'h quota_os \<Rightarrow> string \<Rightarrow> xfsQuotaCtrl \<Rightarrow> 'h \<Rightarrow> (string option \<times> xfsQuotaCtrl \<times> 'h) option" where
  "FreeTmpDevice os path q h = (case removeProjectInfo os path q h of
     None \<Rightarrow> None
   | Some (Some e, q1, h1) \<Rightarrow> Some (Some e, q1, h1)
   | Some (None, q1, h1) \<Rightarrow> (case erase_q os path h1 of (err, h2) \<Rightarrow> Some (err, q1, h2)))"

text \<open>\<open>visit\<close> is the order in which the loop over the map goes.\<close>

definition SnapshotProjectPaths :: "'h quota_os \<Rightarrow> ((uint32 \<times> string) list \<Rightarrow> (uint32 \<times> string) list) \<Rightarrow> xfsQuotaCtrl \<Rightarrow> 'h \<Rightarrow>
    ((string + string list) \<times> xfsQuotaCtrl \<times> 'h) outcome" where
  "SnapshotProjectPaths os visit q h = obind (syncExistsProjects os q h) (\<lambda>(err, q1, h1). Value (case err of
     Some e \<Rightarrow> (Inl e, q1, h1)
   | None \<Rightarrow> (Inr (map snd (visit (projects q1))), q1, h1)))"

text \<open>What a storage type has to offer: \<open>Allocate\<close>, \<open>PrepareXfs\<close>, \<open>MountProjQuota\<close> and \<open>Recycle\<close>.\<close>

record 'h Storage =
  Allocate_st :: "string \<Rightarrow> uint64 \<Rightarrow> ('h, string) call"
  PrepareXfs_st :: "string \<Rightarrow> 'h action"
  MountProjQuota_st :: "string \<Rightarrow> string \<Rightarrow> 'h action"
  Recycle_st :: "'h \<Rightarrow> 'h"

definition prepareProjectFiles :: "'h quota_os \<Rightarrow> string \<Rightarrow> string \<Rightarrow> 'h \<Rightarrow> string option \<times> string \<times> 'h" where
  "prepareProjectFiles os projectsFile text h = (case Stat_q os projectsFile h of
     NotExist \<Rightarrow> (case file_q os CreateEmpty h of
       (Some e, h1) \<Rightarrow> (Some (''error creating xfs projects file '' @ projectsFile @ '': '' @ e), text, h1)
     | (None, h1) \<Rightarrow> (None, [], h1))
   | _ \<Rightarrow> (None, text, h))"

definition projectsFile :: string where "projectsFile = ''/etc/projects''"

definition GetStorage :: "(string \<Rightarrow> 'h Storage option) \<Rightarrow> string \<Rightarrow> string + 'h Storage" where
  "GetStorage storageMap name = (case storageMap name of None \<Rightarrow> Inl (''unknown tmp storage type '' @ name) | Some s \<Rightarrow> Inr s)"

definition InitQuotaCtrl :: "'h quota_os \<Rightarrow> (string \<Rightarrow> 'h Storage option) \<Rightarrow> string \<Rightarrow> string \<Rightarrow> string \<Rightarrow> string \<Rightarrow> string \<Rightarrow> 'h \<Rightarrow>
    ((string + xfsQuotaCtrl) \<times> 'h) outcome option" where
  "InitQuotaCtrl os storageMap text storagePath tmpSize runnersTmpPath storageType h = (case GetStorage storageMap storageType of
     Inl e \<Rightarrow> Some (Value (Inl e, h))
   | Inr st \<Rightarrow> (case PrepareXfs_st st storagePath h of
       (Some e, h1) \<Rightarrow> Some (Value (Inl e, h1))
     | (None, h1) \<Rightarrow> (case mkdir_q os runnersTmpPath h1 of
         (Some e, h2) \<Rightarrow> Some (Value (Inl e, h2))
       | (None, h2) \<Rightarrow> (case MountProjQuota_st st storagePath runnersTmpPath h2 of
           (Some e, h3) \<Rightarrow> Some (Value (Inl e, h3))
         | (None, h3) \<Rightarrow> (case prepareProjectFiles os projectsFile text h3 of
             (Some e, _, h4) \<Rightarrow> Some (Value (Inl e, h4))
           | (None, t, h4) \<Rightarrow>
               (case syncExistsProjects os \<lparr>projects = [], pathIDs = [], projIDPool = [], proj_text = t, RunnersTmpPath_q = runnersTmpPath, tmpSize_q = tmpSize\<rparr> h4 of
                  Panic e \<Rightarrow> Some (Panic e)
                | Value (Some e, _, h5) \<Rightarrow> Some (Value (Inl e, h5))
                | Value (None, q, h5) \<Rightarrow> map_option (\<lambda>q1. Value (Inr q1, h5)) (initProjectIDsPool q)))))))"

section \<open>The manager of temporary directories\<close>

record TmpStorageOption =
  TmpStorageType :: string
  TmpStoragePath :: string
  TmpStorageName :: string
  TmpStorageSize :: int64
  RunnerTmpSize :: string

definition TmpStorageTypeLoop :: string where "TmpStorageTypeLoop = ''loop''"

definition NewTmpStorageOption :: TmpStorageOption where
  "NewTmpStorageOption = \<lparr>TmpStorageType = TmpStorageTypeLoop, TmpStoragePath = ''/tmp/faas/'', TmpStorageName = '''',
     TmpStorageSize = 20 * 1024 * 1024 * 1024, RunnerTmpSize = ''500m''\<rparr>"

definition RunnersTmpPath :: string where "RunnersTmpPath = ''/var/faas/runner-tmp''"
definition CodeWorkspacePath_tmp :: string where "CodeWorkspacePath_tmp = ''/var/faas/code-workspace''"

definition getStoragePath :: "'h quota_os \<Rightarrow> TmpStorageOption \<Rightarrow> ('h, string) call" where
  "getStoragePath os o1 h = (case mkdir_q os (TmpStoragePath o1) h of
     (Some e, h1) \<Rightarrow> (Inl e, h1)
   | (None, h1) \<Rightarrow> (Inr (if TmpStorageType o1 = TmpStorageTypeLoop then path_Join (TmpStoragePath o1) (TmpStorageName o1) else TmpStoragePath o1), h1))"

text \<open>\<open>StorageRatio\<close> is one and a half. \<open>wideu\<close> is what Go makes of a product that does not fit \<open>uint64\<close>.\<close>

definition StorageRatio :: gofloat where "StorageRatio = Fin False 3 (- 1)"

definition uint64_of_float :: "uint64 \<Rightarrow> gofloat \<Rightarrow> uint64" where
  "uint64_of_float wideu x = (case x of
     Fin s m e \<Rightarrow> let n = (m * 2 ^ nat e) div 2 ^ nat (- e) in if (s \<and> n \<noteq> 0) \<or> 2 ^ 64 \<le> n then wideu else of_nat n
   | _ \<Rightarrow> wideu)"

definition requiredStorageSize :: "uint64 \<Rightarrow> uint64 \<Rightarrow> TmpStorageOption \<Rightarrow> int64 \<Rightarrow> string + uint64" where
  "requiredStorageSize big wideu o1 containerNum = (case ToBytes big (RunnerTmpSize o1) of
     None \<Rightarrow> Inl (''invalid runner tmp size '' @ RunnerTmpSize o1)
   | Some runnerBytes \<Rightarrow> Inr (uint64_of_float wideu
       (float_mul float64 (float_mul float64 StorageRatio (float_of float64 (uint runnerBytes))) (float_of float64 containerNum))))"

definition NewTmpManager :: "uint64 \<Rightarrow> uint64 \<Rightarrow> 'h quota_os \<Rightarrow> (string \<Rightarrow> 'h Storage option) \<Rightarrow> string \<Rightarrow> TmpStorageOption \<Rightarrow> int64 \<Rightarrow> 'h \<Rightarrow>
    ((string + xfsQuotaCtrl) \<times> 'h) outcome option" where
  "NewTmpManager big wideu os storageMap text o1 containerNum h = (case getStoragePath os o1 h of
     (Inl e, h1) \<Rightarrow> Some (Value (Inl (''check storage path failed: '' @ e), h1))
   | (Inr fpath, h1) \<Rightarrow> (case requiredStorageSize big wideu o1 containerNum of
       Inl e \<Rightarrow> Some (Value (Inl (''get required storage size failed: '' @ e), h1))
     | Inr requiredSize \<Rightarrow> (case GetStorage storageMap (TmpStorageType o1) of
         Inl e \<Rightarrow> Some (Value (Inl e, h1))
       | Inr ts \<Rightarrow> (case Allocate_st ts fpath requiredSize h1 of
           (Inl e, h2) \<Rightarrow> Some (Value (Inl e, h2))
         | (Inr storagePath, h2) \<Rightarrow>
             (case InitQuotaCtrl os storageMap text storagePath (RunnerTmpSize o1) RunnersTmpPath (TmpStorageType o1) h2 of
                None \<Rightarrow> None
              | Some (Panic e) \<Rightarrow> Some (Panic e)
              | Some (Value (Inl e, h3)) \<Rightarrow> Some (Value (Inl e, h3))
              | Some (Value (Inr q, h3)) \<Rightarrow> Some (Value (Inr q, Recycle_st ts h3)))))))"

definition GetTmpStorage :: "'h quota_os \<Rightarrow> string \<Rightarrow> xfsQuotaCtrl \<Rightarrow> 'h \<Rightarrow> ((string + string) \<times> xfsQuotaCtrl \<times> 'h) outcome option" where
  "GetTmpStorage os name q h = (let path = path_Join RunnersTmpPath name in
     map_option (\<lambda>r. obind r (\<lambda>(err, q1, h1). Value (case err of Some e \<Rightarrow> Inl e | None \<Rightarrow> Inr path, q1, h1))) (AllocTmpDevice os path q h))"

definition RemoveTmpStorage :: "'h quota_os \<Rightarrow> string \<Rightarrow> xfsQuotaCtrl \<Rightarrow> 'h \<Rightarrow> (string option \<times> xfsQuotaCtrl \<times> 'h) option" where
  "RemoveTmpStorage os name = FreeTmpDevice os (path_Join RunnersTmpPath name)"

section \<open>The task that frees directories\<close>

text \<open>The names a pass frees: those of a known container whose present name is another one.\<close>

definition recycle_name :: "PathManager \<Rightarrow> string \<Rightarrow> string option" where
  "recycle_name pm path =
     (let pathName = trim_left (CHR ''/'') (TrimPrefix path RunnersTmpPath) in
      case GetContainerID pathName of
        Inl _ \<Rightarrow> None
      | Inr cID \<Rightarrow> (case GetPaths cID pm of
          Inl _ \<Rightarrow> None
        | Inr cp \<Rightarrow> if PathName cp = '''' then None else if pathName \<noteq> PathName cp then Some pathName else None))"

fun remove_each :: "'h quota_os \<Rightarrow> string list \<Rightarrow> xfsQuotaCtrl \<Rightarrow> 'h \<Rightarrow> (xfsQuotaCtrl \<times> 'h) option" where
  "remove_each os [] q h = Some (q, h)"
| "remove_each os (n # ns) q h = (case RemoveTmpStorage os n q h of None \<Rightarrow> None | Some (_, q1, h1) \<Rightarrow> remove_each os ns q1 h1)"

text \<open>A panic is recovered and the task ends with no error.\<close>

definition tmpRecycleTask :: "'h quota_os \<Rightarrow> ((uint32 \<times> string) list \<Rightarrow> (uint32 \<times> string) list) \<Rightarrow> PathManager \<Rightarrow> xfsQuotaCtrl \<Rightarrow> 'h \<Rightarrow>
    (string option \<times> xfsQuotaCtrl \<times> 'h) option" where
  "tmpRecycleTask os visit pm q h = (case SnapshotProjectPaths os visit q h of
     Panic _ \<Rightarrow> Some (None, q, h)
   | Value (Inl e, q1, h1) \<Rightarrow> Some (Some e, q1, h1)
   | Value (Inr paths, q1, h1) \<Rightarrow> map_option (\<lambda>(q2, h2). (None, q2, h2)) (remove_each os (List.map_filter (recycle_name pm) paths) q1 h1))"

section \<open>The pool of project numbers\<close>

abbreviation free_ids :: "(uint32 \<times> string) list \<Rightarrow> nat \<Rightarrow> nat \<Rightarrow> uint32 list" where
  "free_ids ps n m \<equiv> filter (\<lambda>k. map_of ps k = None) (map of_nat [n..<m])"

lemma fill_pool_eq:
  assumes "n \<le> m" "length pool \<le> idPoolSize" "idPoolSize - length pool \<le> length (free_ids ps n m)"
  shows "fill_pool ps (of_nat n) pool = Some (pool @ take (idPoolSize - length pool) (free_ids ps n m))"
  using assms
proof (induction "m - n" arbitrary: n pool)
  case 0
  then show ?case by (subst fill_pool.simps) simp
next
  case (Suc d)
  have step: "[n..<m] = n # [Suc n..<m]" using Suc.hyps(2) by (simp add: upt_conv_Cons)
  have next_id: "of_nat n + 1 = (of_nat (Suc n) :: uint32)" by simp
  show ?case
  proof (cases "idPoolSize \<le> length pool")
    case True
    then show ?thesis by (subst fill_pool.simps) simp
  next
    case False
    then have some: "idPoolSize - length pool = Suc (idPoolSize - Suc (length pool))" by simp
    show ?thesis
    proof (cases "map_of ps (of_nat n :: uint32)")
      case None
      have IH: "fill_pool ps (of_nat (Suc n)) (pool @ [of_nat n]) =
          Some ((pool @ [of_nat n]) @ take (idPoolSize - length (pool @ [of_nat n :: uint32])) (free_ids ps (Suc n) m))"
        using Suc False None by (intro Suc.hyps(1)) (auto simp: step)
      have "fill_pool ps (of_nat n) pool = fill_pool ps (of_nat (Suc n)) (pool @ [of_nat n])"
        using False None by (subst fill_pool.simps) (simp del: of_nat_Suc add: next_id)
      then show ?thesis unfolding IH by (simp add: step None some)
    next
      case (Some p)
      have IH: "fill_pool ps (of_nat (Suc n)) pool = Some (pool @ take (idPoolSize - length pool) (free_ids ps (Suc n) m))"
        using Suc Some by (intro Suc.hyps(1)) (auto simp: step)
      have "fill_pool ps (of_nat n) pool = fill_pool ps (of_nat (Suc n)) pool"
        using False Some by (subst fill_pool.simps) (simp del: of_nat_Suc add: next_id)
      then show ?thesis unfolding IH by (simp add: step Some)
    qed
  qed
qed

lemma unat_of_nat_uint32: "n < 2 ^ 32 \<Longrightarrow> unat (of_nat n :: uint32) = n"
  by (simp add: unat_of_nat take_bit_nat_eq_self)

lemma of_nat_uint32_inj: "inj_on (of_nat :: nat \<Rightarrow> uint32) {..< 2 ^ 32}"
  by (rule inj_on_inverseI [where g = unat]) (simp add: unat_of_nat_uint32)

lemma distinct_ids: "m \<le> 2 ^ 32 \<Longrightarrow> distinct (map (of_nat :: nat \<Rightarrow> uint32) [n..<m])"
  by (auto simp: distinct_map intro!: inj_on_subset [OF of_nat_uint32_inj])

lemma enough_free_ids:
  assumes "m \<le> 2 ^ 32"
  shows "m - n - length ps \<le> length (free_ids ps n m)"
proof -
  let ?used = "filter (\<lambda>k. map_of ps k \<noteq> None) (map of_nat [n..<m]) :: uint32 list"
  have "length ?used = card (set ?used)"
    by (rule distinct_card [symmetric], rule distinct_filter, rule distinct_ids [OF assms])
  also have "\<dots> \<le> card (fst ` set ps)"
    by (rule card_mono) (auto simp: map_of_eq_None_iff)
  also have "\<dots> \<le> length ps" by (metis card_length set_map length_map)
  finally have "length ?used \<le> length ps" .
  moreover have "length (free_ids ps n m) + length ?used = m - n"
    using sum_length_filter_compl [of "\<lambda>k. map_of ps k = None" "map of_nat [n..<m] :: uint32 list"] by simp
  ultimately show ?thesis by simp
qed

text \<open>The start of the pool always ends, and the pool then holds a thousand different positive numbers that no project has.\<close>

lemma initProjectIDsPool_returns:
  assumes "length (projects q) + idPoolSize < 2 ^ 32"
  shows "\<exists>pool. initProjectIDsPool q = Some (q\<lparr>projIDPool := pool\<rparr>) \<and> length pool = idPoolSize \<and> distinct pool \<and>
    (\<forall>k \<in> set pool. k \<noteq> 0 \<and> map_of (projects q) k = None)"
proof -
  let ?m = "1 + idPoolSize + length (projects q)" and ?ps = "projects q"
  let ?pool = "take idPoolSize (free_ids ?ps 1 ?m)"
  have m: "?m \<le> 2 ^ 32" using assms by simp
  have enough: "idPoolSize \<le> length (free_ids ?ps 1 ?m)" using enough_free_ids [OF m, of 1 ?ps] by simp
  have "fill_pool ?ps 1 [] = Some ?pool"
    using fill_pool_eq [of 1 ?m "[]" ?ps] enough by simp
  then have 1: "initProjectIDsPool q = Some (q\<lparr>projIDPool := ?pool\<rparr>)" unfolding initProjectIDsPool_def by (simp only: option.map)
  have 2: "distinct ?pool" by (intro distinct_take distinct_filter distinct_ids [OF m])
  have 3: "k \<noteq> 0 \<and> map_of ?ps k = None" if k: "k \<in> set ?pool" for k
  proof -
    from k obtain n where n: "1 \<le> n" "n < ?m" "k = of_nat n" "map_of ?ps k = None" by (auto dest!: in_set_takeD)
    have "unat k = n" using n(2,3) m by (simp add: unat_of_nat_uint32)
    then show ?thesis using n(1,4) by auto
  qed
  have 4: "length ?pool = idPoolSize" unfolding length_take using enough by (rule min_absorb2)
  show ?thesis by (rule exI [of _ ?pool]) (use 1 2 3 4 in blast)
qed

section \<open>Project numbers are not shared\<close>

definition quota_ok :: "xfsQuotaCtrl \<Rightarrow> bool" where
  "quota_ok q \<longleftrightarrow> distinct (projIDPool q) \<and> 0 \<notin> set (projIDPool q) \<and> map_of (projects q) 0 = None \<and>
     (\<forall>k \<in> set (projIDPool q). map_of (projects q) k = None) \<and>
     (\<forall>k p. map_of (projects q) k = Some p \<longleftrightarrow> map_of (pathIDs q) p = Some k)"

lemma quota_okD:
  assumes "quota_ok q"
  shows "distinct (projIDPool q)" "0 \<notin> set (projIDPool q)" "map_of (projects q) 0 = None"
    "k \<in> set (projIDPool q) \<Longrightarrow> map_of (projects q) k = None"
    "map_of (projects q) k = Some p \<longleftrightarrow> map_of (pathIDs q) p = Some k"
  using assms by (auto simp: quota_ok_def)

lemma quota_ok_pool: "quota_ok (q\<lparr>projIDPool := k # pool\<rparr>) \<Longrightarrow> quota_ok (q\<lparr>projIDPool := pool\<rparr>)"
  by (simp add: quota_ok_def)

lemma quota_ok_text [simp]: "quota_ok (q\<lparr>proj_text := t\<rparr>) = quota_ok q"
  by (simp add: quota_ok_def)

text \<open>The two ways of adding a project and the three of removing one.\<close>

lemma addProjectInfo_cases:
  assumes "addProjectInfo os path q h = Some (r, q', h')"
  obtains (failed) k pool t e where "projIDPool q = k # pool" "q' = q\<lparr>projIDPool := pool, proj_text := t\<rparr>" "r = Some e"
    | (added) k pool t args h1 where "projIDPool q = k # pool" "r = None" "snd (fst (CommandOutput (exec_q os) ''xfs_quota'' args h1)) = None"
        "q' = q\<lparr>projIDPool := pool, proj_text := t, projects := AList.update k path (projects q), pathIDs := AList.update path k (pathIDs q)\<rparr>"
proof (cases "projIDPool q")
  case Nil
  with assms show thesis by (simp add: addProjectInfo_def)
next
  case (Cons k pool)
  let ?q = "q\<lparr>projIDPool := pool\<rparr>"
  obtain e1 h1 where f: "file_q os (AppendText (project_desc k path)) h = (e1, h1)" by fastforce
  obtain d e2 h2 where c: "CommandOutput (exec_q os) ''xfs_quota'' [''-x'', ''-c'', ''project -s '' @ Itoa (uint k), RunnersTmpPath_q q] h1 = ((d, e2), h2)"
    by (metis prod.exhaust)
  show thesis
  proof (cases e1)
    case (Some e)
    with assms Cons f show thesis by (intro failed [of k pool "proj_text q" e]) (auto simp: addProjectInfo_def addToFile_def)
  next
    case None
    note run = assms [unfolded addProjectInfo_def addToFile_def Cons list.case f None prod.case option.case]
    show thesis
    proof (cases e2)
      case (Some e)
      with run c Cons show thesis by (intro failed [of k pool "proj_text q @ project_desc k path"]) auto
    next
      case None
      show thesis
        by (rule added [of k pool "[''-x'', ''-c'', ''project -s '' @ Itoa (uint k), RunnersTmpPath_q q]" h1 "proj_text q @ project_desc k path"])
          (use run c Cons None in simp_all)
    qed
  qed
qed

lemma removeProjectInfo_cases:
  assumes "removeProjectInfo os path q h = Some (r, q', h')"
  obtains (failed) e where "q' = q" "r = Some e"
    | (removed) k t where "k = (case map_of (pathIDs q) path of None \<Rightarrow> 0 | Some k \<Rightarrow> k)" "r = None" "length (projIDPool q) < idPoolSize"
        "q' = q\<lparr>projIDPool := projIDPool q @ [k], proj_text := t, projects := AList.delete k (projects q), pathIDs := AList.delete path (pathIDs q)\<rparr>"
proof -
  obtain e1 h1 where f: "file_q os OpenRead h = (e1, h1)" by fastforce
  obtain e2 h2 where g: "file_q os (WriteText (remove_matching path (proj_text q))) h1 = (e2, h2)" by fastforce
  show thesis
  proof (cases "e1 = None \<and> e2 = None")
    case True
    with assms f g show thesis
      by (intro removed [OF refl, of "remove_matching path (proj_text q)"]) (auto simp: removeProjectInfo_def removeFromFile_def Let_def split: if_splits)
  next
    case False
    with assms f g show thesis
      by (intro failed [of "the (if e1 = None then e2 else e1)"]) (auto simp: removeProjectInfo_def removeFromFile_def Let_def split: option.splits)
  qed
qed

lemma quota_ok_added:
  assumes "quota_ok q" "projIDPool q = k # pool" "map_of (pathIDs q) path = None"
  shows "quota_ok (q\<lparr>projIDPool := pool, proj_text := t, projects := AList.update k path (projects q), pathIDs := AList.update path k (pathIDs q)\<rparr>)"
proof -
  note ok = quota_okD [OF assms(1)]
  have k: "map_of (projects q) k = None" "k \<noteq> 0" using ok(4) [of k] ok(2) assms(2) by auto
  have "((map_of (projects q))(k \<mapsto> path)) j = Some p \<longleftrightarrow> ((map_of (pathIDs q))(path \<mapsto> k)) p = Some j" for j p
    using ok(5) [of j p] ok(5) [of k p] ok(5) [of j path] k(1) assms(3) by auto
  then show ?thesis using ok k assms(2) unfolding quota_ok_def by (auto simp: update_conv')
qed

lemma quota_ok_removed:
  assumes "quota_ok q" "map_of (pathIDs q) path = Some k"
  shows "quota_ok (q\<lparr>projIDPool := projIDPool q @ [k], proj_text := t, projects := AList.delete k (projects q), pathIDs := AList.delete path (pathIDs q)\<rparr>)"
proof -
  note ok = quota_okD [OF assms(1)]
  have k: "map_of (projects q) k = Some path" "k \<notin> set (projIDPool q)" "k \<noteq> 0"
    using ok(5) [of k path] ok(4) [of k] ok(3) assms(2) by auto
  have "((map_of (projects q))(k := None)) j = Some p \<longleftrightarrow> ((map_of (pathIDs q))(path := None)) p = Some j" for j p
    using ok(5) [of j p] ok(5) [of k p] ok(5) [of j path] k(1) assms(2) by auto
  then show ?thesis using ok k unfolding quota_ok_def by (auto simp: delete_conv')
qed

lemma AllocTmpDevice_cases:
  assumes "AllocTmpDevice os path q h = Some (Value (r, q', h'))"
  obtains (early) e where "q' = q" "r = Some e"
    | (asked) h1 r1 h2 where "addProjectInfo os path q h1 = Some (r1, q', h2)" "r1 \<noteq> None \<longrightarrow> r = r1" "r = None \<longrightarrow> r1 = None"
    | (undone) h1 q1 h2 h3 r2 h4 e where "addProjectInfo os path q h1 = Some (None, q1, h2)" "removeProjectInfo os path q1 h3 = Some (r2, q', h4)" "r = Some e"
  using assms unfolding AllocTmpDevice_def
  by (auto split: stat_result.splits prod.splits option.splits if_splits)

inductive quota_step :: "'h quota_os \<Rightarrow> xfsQuotaCtrl \<Rightarrow> xfsQuotaCtrl \<Rightarrow> bool" for os where
  alloc: "map_of (pathIDs q) path = None \<Longrightarrow> AllocTmpDevice os path q h = Some (Value (r, q', h')) \<Longrightarrow> quota_step os q q'"
| frees: "map_of (pathIDs q) path = Some k \<Longrightarrow> FreeTmpDevice os path q h = Some (r, q', h') \<Longrightarrow> quota_step os q q'"

lemma FreeTmpDevice_remove:
  assumes "FreeTmpDevice os path q h = Some (r, q', h')"
  obtains r1 h1 where "removeProjectInfo os path q h = Some (r1, q', h1)" "r1 \<noteq> None \<longrightarrow> r = r1"
  using assms by (auto simp: FreeTmpDevice_def split: option.splits prod.splits)

lemma addProjectInfo_ok:
  assumes "addProjectInfo os path q h = Some (r, q', h')" "quota_ok q" "map_of (pathIDs q) path = None"
  shows "quota_ok q'"
  using assms(1)
proof (cases rule: addProjectInfo_cases)
  case (failed k pool t e)
  then show ?thesis using assms(2) by (simp add: quota_ok_def)
next
  case (added k pool t args h1)
  then show ?thesis using quota_ok_added [OF assms(2) added(1) assms(3)] added(4) by simp
qed

lemma removeProjectInfo_ok:
  assumes "removeProjectInfo os path q h = Some (r, q', h')" "quota_ok q" "map_of (pathIDs q) path = Some k"
  shows "quota_ok q'"
  using assms(1)
proof (cases rule: removeProjectInfo_cases)
  case (removed j t)
  then show ?thesis using quota_ok_removed [OF assms(2,3)] assms(3) by simp
qed (use assms(2) in simp)

lemma quota_step_ok: "quota_step os q q' \<Longrightarrow> quota_ok q \<Longrightarrow> quota_ok q'"
proof (induction rule: quota_step.induct)
  case (alloc q path h r q' h')
  from alloc(2) show ?case
  proof (cases rule: AllocTmpDevice_cases)
    case (asked h1 r1 h2)
    show ?thesis by (rule addProjectInfo_ok [OF asked(1) alloc(3,1)])
  next
    case (undone h1 q1 h2 h3 r2 h4 e)
    from undone(1) obtain k where "map_of (pathIDs q1) path = Some k"
      by (cases rule: addProjectInfo_cases) (auto simp: update_conv')
    then show ?thesis by (rule removeProjectInfo_ok [OF undone(2) addProjectInfo_ok [OF undone(1) alloc(3,1)]])
  qed (use alloc in simp)
next
  case (frees q path k h r q' h')
  then show ?case using FreeTmpDevice_remove removeProjectInfo_ok by metis
qed

lemma quota_reach_ok: "(quota_step os)\<^sup>*\<^sup>* q q' \<Longrightarrow> quota_ok q \<Longrightarrow> quota_ok q'"
  by (induction rule: rtranclp_induct) (auto intro: quota_step_ok)

text \<open>C22: As long as directories are allocated under new names and freed once, two directories never share an XFS project, and none
  is in project zero, to which all files without a project belong: the quota of one container is not used up by another.\<close>

theorem project_ids_unique:
  assumes "initProjectIDsPool q = Some q0" "length (projects q) + idPoolSize < 2 ^ 32"
    and "\<And>k p. map_of (projects q) k = Some p \<longleftrightarrow> map_of (pathIDs q) p = Some k" "map_of (projects q) 0 = None"
    and "(quota_step os)\<^sup>*\<^sup>* q0 q1" "map_of (pathIDs q1) p = Some k"
  shows "k \<noteq> 0 \<and> k \<notin> set (projIDPool q1) \<and> (\<forall>p'. map_of (pathIDs q1) p' = Some k \<longrightarrow> p' = p)"
proof -
  obtain pool where "q0 = q\<lparr>projIDPool := pool\<rparr>" "distinct pool" "\<forall>k \<in> set pool. k \<noteq> 0 \<and> map_of (projects q) k = None"
    using initProjectIDsPool_returns [OF assms(2)] assms(1) by auto
  then have "quota_ok q0" using assms(3,4) unfolding quota_ok_def by auto
  then have "quota_ok q1" using assms(5) quota_reach_ok by blast
  note ok = quota_okD [OF this]
  have k: "map_of (projects q1) k = Some p" using assms(6) ok(5) by blast
  then have "p' = p" if "map_of (pathIDs q1) p' = Some k" for p' using ok(5) [of k p'] that by simp
  moreover have "k \<noteq> 0" using k ok(3) by (metis option.distinct(1))
  moreover have "k \<notin> set (projIDPool q1)" using k ok(4) [of k] by auto
  ultimately show ?thesis by blast
qed

text \<open>An operating system on which every call succeeds.\<close>

definition calm_os :: "'h quota_os" where
  "calm_os = \<lparr>Stat_q = (\<lambda>_ _. IsThere 0), mkdir_q = (\<lambda>_ h. (None, h)), chmod_q = (\<lambda>_ h. (None, h)), erase_q = (\<lambda>_ h. (None, h)),
     file_q = (\<lambda>_ h. (None, h)), exec_q = (\<lambda>_ _ h. (ExecOk [], h))\<rparr>"

definition empty_quota :: xfsQuotaCtrl where
  "empty_quota = \<lparr>projects = [], pathIDs = [], projIDPool = [], proj_text = [], RunnersTmpPath_q = RunnersTmpPath, tmpSize_q = ''500m''\<rparr>"

lemma calm_alloc:
  assumes "projIDPool q = k # pool"
  shows "AllocTmpDevice calm_os p q h = Some (Value (None, q\<lparr>projIDPool := pool, proj_text := proj_text q @ project_desc k p,
    projects := AList.update k p (projects q), pathIDs := AList.update p k (pathIDs q)\<rparr>, h))"
  using assms
  by (simp add: AllocTmpDevice_def calm_os_def ModePerm_def addProjectInfo_def addToFile_def CommandOutput_def setQuota_def update_conv')

theorem project_ids_unique_witness:
  "\<exists>q0 q1 k. initProjectIDsPool empty_quota = Some q0 \<and> (quota_step (calm_os :: unit quota_os))\<^sup>*\<^sup>* q0 q1 \<and> map_of (pathIDs q1) ''/a'' = Some k \<and> k \<noteq> 0"
proof -
  have small: "length (projects empty_quota) + idPoolSize < 2 ^ 32" by (simp add: empty_quota_def idPoolSize_def)
  obtain pool where pool: "initProjectIDsPool empty_quota = Some (empty_quota\<lparr>projIDPool := pool\<rparr>)" "length pool = idPoolSize"
    using initProjectIDsPool_returns [OF small] by blast
  then obtain k rest where "pool = k # rest" by (cases pool) (auto simp: idPoolSize_def)
  note init = pool(1) [unfolded this]
  let ?q0 = "empty_quota\<lparr>projIDPool := k # rest\<rparr>"
  let ?q1 = "?q0\<lparr>projIDPool := rest, proj_text := project_desc k ''/a'', projects := [(k, ''/a'')], pathIDs := [(''/a'', k)]\<rparr>"
  have "AllocTmpDevice calm_os ''/a'' ?q0 () = Some (Value (None, ?q1, ()))"
    using calm_alloc [of ?q0 k rest "''/a''" "()"] by (simp add: empty_quota_def)
  then have "quota_step (calm_os :: unit quota_os) ?q0 ?q1" by (rule quota_step.alloc [rotated]) (simp add: empty_quota_def)
  then have run: "(quota_step (calm_os :: unit quota_os))\<^sup>*\<^sup>* ?q0 ?q1" by (rule r_into_rtranclp)
  have id: "map_of (pathIDs ?q1) ''/a'' = Some k" by simp
  have "k \<noteq> 0 \<and> k \<notin> set (projIDPool ?q1) \<and> (\<forall>p'. map_of (pathIDs ?q1) p' = Some k \<longrightarrow> p' = ''/a'')"
    by (rule project_ids_unique [OF init small _ _ run id]) (simp_all add: empty_quota_def)
  with init run id show ?thesis by blast
qed

text \<open>The proviso is needed. A directory that is freed twice, as happens when a reset and the recycle task see the same old directory,
  puts project number zero into the pool, behind its own number; a later container gets its directory accounted, and its limit set, on the
  project of all files without one.\<close>

theorem double_free_hands_out_zero:
  assumes "map_of (pathIDs q) path = Some k"
    and "FreeTmpDevice os path q h = Some (None, q1, h1)" "FreeTmpDevice os path q1 h2 = Some (None, q2, h3)"
  shows "projIDPool q2 = projIDPool q @ [k, 0]"
proof -
  obtain r1 g1 where r1: "removeProjectInfo os path q h = Some (r1, q1, g1)" "r1 = None"
    using FreeTmpDevice_remove [OF assms(2)] by metis
  obtain r2 g2 where r2: "removeProjectInfo os path q1 h2 = Some (r2, q2, g2)" "r2 = None"
    using FreeTmpDevice_remove [OF assms(3)] by metis
  from r1 have 1: "projIDPool q1 = projIDPool q @ [k]" "map_of (pathIDs q1) path = None"
    using assms(1) by (auto elim!: removeProjectInfo_cases simp: delete_conv')
  from r2 have "projIDPool q2 = projIDPool q1 @ [0]"
    using 1(2) by (auto elim!: removeProjectInfo_cases)
  then show ?thesis using 1(1) by simp
qed

lemma calm_free:
  assumes "length (projIDPool q) < idPoolSize"
  shows "\<exists>q1. FreeTmpDevice calm_os p q h = Some (None, q1, h) \<and>
    projIDPool q1 = projIDPool q @ [case map_of (pathIDs q) p of None \<Rightarrow> 0 | Some k \<Rightarrow> k]"
  using assms by (auto simp: FreeTmpDevice_def removeProjectInfo_def removeFromFile_def calm_os_def Let_def)

theorem double_free_hands_out_zero_witness:
  "\<exists>q1 q2. FreeTmpDevice calm_os ''/a'' (empty_quota\<lparr>projects := [(7, ''/a'')], pathIDs := [(''/a'', 7)]\<rparr>) () = Some (None, q1, ()) \<and>
     FreeTmpDevice calm_os ''/a'' q1 () = Some (None, q2, ()) \<and> projIDPool q2 = [7, 0]"
proof -
  let ?q = "empty_quota\<lparr>projects := [(7, ''/a'')], pathIDs := [(''/a'', 7)]\<rparr>"
  obtain q1 where 1: "FreeTmpDevice calm_os ''/a'' ?q () = Some (None, q1, ())" "projIDPool q1 = [7]"
    using calm_free [of ?q "''/a''" "()"] by (auto simp: idPoolSize_def empty_quota_def)
  obtain q2 where 2: "FreeTmpDevice calm_os ''/a'' q1 () = Some (None, q2, ())"
    using calm_free [of q1 "''/a''" "()"] 1(2) by (auto simp: idPoolSize_def)
  have "projIDPool q2 = projIDPool ?q @ [7, 0]"
    by (rule double_free_hands_out_zero [OF _ 1(1) 2]) simp
  then show ?thesis using 1(1) 2 by (auto simp: empty_quota_def)
qed

section \<open>A broken tool uses the pool up\<close>

text \<open>Allocations one after the other, whatever they return.\<close>

fun alloc_all :: "'h quota_os \<Rightarrow> string list \<Rightarrow> xfsQuotaCtrl \<Rightarrow> 'h \<Rightarrow> (xfsQuotaCtrl \<times> 'h) option" where
  "alloc_all os [] q h = Some (q, h)"
| "alloc_all os (p # ps) q h = (case AllocTmpDevice os p q h of Some (Value (_, q1, h1)) \<Rightarrow> alloc_all os ps q1 h1 | _ \<Rightarrow> None)"

text \<open>A number whose project could not be set up does not go back to the pool. While \<open>xfs_quota\<close> cannot be started, every allocation
  fails and takes one more number; after as many as the pool held, the next allocation, and with it the reset of a container, waits for ever.\<close>

theorem failing_quota_blocks:
  assumes "\<And>p h. \<exists>m. Stat_q os p h = IsThere m" "\<And>p h. fst (chmod_q os p h) = None" "\<And>c as h. fst (exec_q os c as h) = StartNotFound"
    and "length (projIDPool q) < length paths"
  shows "alloc_all os paths q h = None"
  using assms(4)
proof (induction paths arbitrary: q h)
  case (Cons p ps)
  obtain m where m: "Stat_q os p h = IsThere m" using assms(1) by blast
  obtain h1 where c: "(if m \<noteq> ModePerm then chmod_q os p h else (None, h)) = (None, h1)"
    using assms(2) [of p h] by (cases "chmod_q os p h"; cases "m = ModePerm") auto
  show ?case
  proof (cases "addProjectInfo os p q h1")
    case (Some x)
    obtain r q1 h2 where x: "x = (r, q1, h2)" by (cases x) auto
    have add: "addProjectInfo os p q h1 = Some (r, q1, h2)" using Some x by simp
    have "r \<noteq> None"
    proof -
      have fails: "snd (fst (CommandOutput (exec_q os) c as g)) \<noteq> None" for c as g
        using assms(3) [of c as g] by (cases "exec_q os c as g") (simp add: CommandOutput_def)
      from add show ?thesis by (cases rule: addProjectInfo_cases) (use fails in simp_all)
    qed
    with add obtain e where r: "r = Some e" "length (projIDPool q1) < length ps"
      using Cons.prems by (cases rule: addProjectInfo_cases) auto
    have "AllocTmpDevice os p q h = Some (Value (Some e, q1, h2))"
      by (simp add: AllocTmpDevice_def m c Some x r(1))
    then show ?thesis using Cons.IH [OF r(2)] by simp
  qed (simp add: AllocTmpDevice_def m c)
qed simp

theorem failing_quota_blocks_witness:
  "alloc_all (calm_os\<lparr>exec_q := (\<lambda>_ _ h. (StartNotFound, h))\<rparr>) [''/a'', ''/b'', ''/c''] (empty_quota\<lparr>projIDPool := [1, 2]\<rparr>) () = None"
  by (rule failing_quota_blocks) (simp_all add: calm_os_def)

section \<open>The recycle task\<close>

text \<open>The task frees only directories that no container uses: no name it frees is the present name of a container, for every
  state the path manager can be in.\<close>

theorem recycle_spares_live:
  assumes "paths_ok (pm, t)" "n \<in> set (List.map_filter (recycle_name pm) paths)" "containersPath pm i = Some cp"
  shows "n \<noteq> PathName cp"
proof
  assume n: "n = PathName cp"
  obtain path where path: "recycle_name pm path = Some n" using assms(2) by (auto simp: List.map_filter_def)
  obtain nano where "0 \<le> nano" "PathName cp = path_name i nano" using paths_okD(5) [OF assms(1,3)] by blast
  then have "GetContainerID n = Inr i" using n GetContainerID_path_name by simp
  then have "recycle_name pm path \<noteq> Some n"
    using assms(3) n by (auto simp: recycle_name_def Let_def GetPaths_def split: sum.splits if_splits)
  then show False using path by simp
qed

definition sample_paths :: PathManager where
  "sample_paths = NewPathManager\<lparr>containersPath := [''c0'' \<mapsto> empty_paths\<lparr>PathName := ''c0-5''\<rparr>]\<rparr>"

lemma sample_paths_ok: "paths_ok (sample_paths, 6)"
proof -
  have "path_name ''c0'' 5 = ''c0-5''" by code_simp
  then have "\<exists>n\<ge>0. n < 6 \<and> ''c0-5'' = path_name ''c0'' n" by (intro exI [of _ 5]) simp
  then show ?thesis by (auto simp: paths_ok_def sample_paths_def NewPathManager_def split: if_splits)
qed

theorem recycle_spares_live_witness:
  "List.map_filter (recycle_name sample_paths) [''/var/faas/runner-tmp/c0-3'', ''/var/faas/runner-tmp/c0-5''] = [''c0-3''] \<and> ''c0-3'' \<noteq> ''c0-5''"
proof -
  have r: "List.map_filter (recycle_name sample_paths) [''/var/faas/runner-tmp/c0-3'', ''/var/faas/runner-tmp/c0-5''] = [''c0-3'']" by code_simp
  have "''c0-3'' \<noteq> PathName (empty_paths\<lparr>PathName := ''c0-5''\<rparr>)"
    by (rule recycle_spares_live [OF sample_paths_ok, of _ "[''/var/faas/runner-tmp/c0-3'', ''/var/faas/runner-tmp/c0-5'']" "''c0''"])
      (simp_all only: r, simp_all add: sample_paths_def)
  then show ?thesis using r by simp
qed

end
