(* ===== verification/FnNetwork.thy ===== *)
theory FnNetwork
  imports GoStrings
begin

text \<open>
  The network of the containers (\<open>src/pkg/funclet/network\<close>): choosing an address in the bridge's network, the pool of virtual
  devices and binding one to a container. An address is a list of bytes as in Go's \<open>net.IP\<close>; a network is the
  address and prefix length \<open>net.ParseCIDR\<close> gives. The printed entries of the neighbour table, the answers to a ping and the results of the
  netlink calls are arguments.
\<close>

section \<open>Addresses\<close>

type_synonym IP = "nat list"

definition v4_in_v6 :: "nat list" where
  "v4_in_v6 = replicate 10 0 @ [255, 255]"

definition To4 :: "IP \<Rightarrow> IP option" where
  "To4 ip = (if length ip = 4 then Some ip
     else if length ip = 16 \<and> take 12 ip = v4_in_v6 then Some (drop 12 ip) else None)"

text \<open>Big integers and their bytes, the most significant byte first and without leading zeros.\<close>

definition be_value :: "nat list \<Rightarrow> nat" where
  "be_value bs = foldl (\<lambda>a b. a * 256 + b) 0 bs"

function be_bytes :: "nat \<Rightarrow> nat list" where
  "be_bytes n = (if n = 0 then [] else be_bytes (n div 256) @ [n mod 256])"
  by pat_completeness auto
termination
  by (relation "measure id") auto

declare be_bytes.simps [simp del]

definition ipToBigInt :: "IP \<Rightarrow> nat" where
  "ipToBigInt ip = be_value (case To4 ip of None \<Rightarrow> [] | Some b \<Rightarrow> b)"

definition bigIntToIP :: "nat \<Rightarrow> IP" where
  "bigIntToIP v = be_bytes v"

definition increaseIP :: "IP \<Rightarrow> IP" where
  "increaseIP ip = bigIntToIP (ipToBigInt ip + 1)"

text \<open>\<open>ip.Equal\<close>: a version 4 address and its version 6 form are equal.\<close>

definition ip_Equal :: "IP \<Rightarrow> IP \<Rightarrow> bool" where
  "ip_Equal a b \<longleftrightarrow>
     (if length a = length b then a = b
      else if length a = 4 \<and> length b = 16 then take 12 b = v4_in_v6 \<and> a = drop 12 b
      else if length a = 16 \<and> length b = 4 then take 12 a = v4_in_v6 \<and> drop 12 a = b
      else False)"

record IPNet =
  IP_net :: IP
  prefix_net :: nat

definition host_bits :: "IPNet \<Rightarrow> nat" where
  "host_bits n = 32 - prefix_net n"

definition ip_Contains :: "IPNet \<Rightarrow> IP \<Rightarrow> bool" where
  "ip_Contains n ip = (case To4 ip of
     None \<Rightarrow> False
   | Some b \<Rightarrow> be_value b div 2 ^ host_bits n = be_value (IP_net n) div 2 ^ host_bits n)"

definition IsGlobalUnicast :: "IP \<Rightarrow> bool" where
  "IsGlobalUnicast ip = (case To4 ip of
     None \<Rightarrow> False
   | Some b \<Rightarrow> b \<noteq> [255, 255, 255, 255] \<and> b \<noteq> [0, 0, 0, 0] \<and> b ! 0 \<noteq> 127 \<and> \<not> (224 \<le> b ! 0 \<and> b ! 0 < 240) \<and> \<not> (b ! 0 = 169 \<and> b ! 1 = 254))"

definition isUnicastIP :: "IP \<Rightarrow> nat \<Rightarrow> bool" where
  "isUnicastIP ip hbits =
     (if length ip = 4 \<and> be_value ip mod 2 ^ hbits = 2 ^ hbits - 1 then False else IsGlobalUnicast ip)"

definition ip_String :: "IP \<Rightarrow> string" where
  "ip_String ip = join_with ''.'' (map (Itoa \<circ> int) ip)"

section \<open>Choosing an address\<close>

definition usable :: "IPNet \<Rightarrow> IP list \<Rightarrow> (string \<Rightarrow> bool) \<Rightarrow> (IP \<Rightarrow> bool) \<Rightarrow> IP \<Rightarrow> bool" where
  "usable n bridgeAddrs ipMap ping ip \<longleftrightarrow>
     ip_Contains n ip \<and> \<not> list_ex (ip_Equal ip) bridgeAddrs \<and> isUnicastIP ip (host_bits n) \<and> \<not> ipMap (ip_String ip) \<and> \<not> ping ip"

text \<open>The loop may not end when it never comes back to its first address; then it has no value.\<close>

partial_function (option) allocate_loop :: "IPNet \<Rightarrow> IP list \<Rightarrow> (string \<Rightarrow> bool) \<Rightarrow> (IP \<Rightarrow> bool) \<Rightarrow> IP \<Rightarrow> IP \<Rightarrow> IP option option" where
  "allocate_loop n bridgeAddrs ipMap ping start ip =
     (if usable n bridgeAddrs ipMap ping ip then Some (Some ip)
      else let ip1 = increaseIP (if ip_Contains n ip then ip else IP_net n)
           in if ip_Equal ip1 start then Some None else allocate_loop n bridgeAddrs ipMap ping start ip1)"

section \<open>Virtual devices\<close>

text \<open>A device is shared between the lists and the caller that initialises it, so devices live in a store.\<close>

record Veth =
  pairName :: string
  peerName :: string
  ContainerPID :: int
  IP_veth :: IP

record ContainerNetwork =
  bridgeName :: string
  bridgeIPNet :: IPNet
  bridgeIP :: IP
  lastIP :: IP
  vethPool :: "nat list"
  veth :: "nat list"
  veths :: "nat \<Rightarrow> Veth"
  fresh_veth :: nat

text \<open>The answers of the host while an address is chosen. The neighbours are an error of the kernel or the entries of its table, each
  as the netlink library prints it, the address and the hardware address with a space between them.\<close>

record net_answers =
  neighbours :: "string + string list"
  bridge_addrs :: "IP list"
  ping_answer :: "IP \<Rightarrow> bool"

definition getIPMap :: "net_answers \<Rightarrow> ContainerNetwork \<Rightarrow> string + (string \<Rightarrow> bool)" where
  "getIPMap a c = (case neighbours a of
     Inl e \<Rightarrow> Inl (''cannot retrieve IPv4 neighbor information for interface '' @ bridgeName c @ '': '' @ e)
   | Inr entries \<Rightarrow> Inr (\<lambda>k. k \<in> set entries))"

definition allocateIP :: "net_answers \<Rightarrow> ContainerNetwork \<Rightarrow> (string + IP) option" where
  "allocateIP a c = (case getIPMap a c of
     Inl e \<Rightarrow> Some (Inl e)
   | Inr ipMap \<Rightarrow>
       let n = bridgeIPNet c; start = increaseIP (lastIP c)
       in map_option (\<lambda>r. case r of
            None \<Rightarrow> Inl (''could not find a suitable IP in network '' @ ip_String (IP_net n) @ ''/'' @ Itoa (int (prefix_net n)))
          | Some ip \<Rightarrow> Inr ip)
        (allocate_loop n (bridge_addrs a) ipMap (ping_answer a) start start))"

definition getNewVeth :: "net_answers \<Rightarrow> ContainerNetwork \<Rightarrow> ((string + nat) \<times> ContainerNetwork) option" where
  "getNewVeth a c = (case vethPool c of
     v # rest \<Rightarrow> Some (Inr v, c\<lparr>veth := veth c @ [v], vethPool := rest\<rparr>)
   | [] \<Rightarrow> map_option (\<lambda>r. case r of
         Inl e \<Rightarrow> (Inl e, c)
       | Inr ip \<Rightarrow>
           let v = fresh_veth c
           in (Inr v, c\<lparr>lastIP := ip, veths := (veths c)(v := \<lparr>pairName = '''', peerName = '''', ContainerPID = 0, IP_veth = ip\<rparr>),
                      fresh_veth := Suc v, veth := veth c @ [v]\<rparr>))
         (allocateIP a c))"

definition deleteVeth :: "int \<Rightarrow> ContainerNetwork \<Rightarrow> string option \<times> ContainerNetwork" where
  "deleteVeth pid c = (case find (\<lambda>v. ContainerPID (veths c v) = pid) (veth c) of
     None \<Rightarrow> (Some (''no container pid is '' @ Itoa pid), c)
   | Some v \<Rightarrow> (None, c\<lparr>veths := (veths c)(v := (veths c v)\<lparr>ContainerPID := 0\<rparr>), vethPool := vethPool c @ [v],
                       veth := remove1 v (veth c)\<rparr>))"

definition UnsetContainerNet :: "int \<Rightarrow> ContainerNetwork \<Rightarrow> string option \<times> ContainerNetwork" where
  "UnsetContainerNet pid c = deleteVeth pid c"

section \<open>Binding a device to a container\<close>

datatype net_ns = HostNs | PidNs int

datatype nl_op =
    LinkByName string
  | LinkAdd string string
  | LinkSetNsPid string int
  | LinkSetUp string
  | NsGet
  | NsGetFromPid int
  | NsSet net_ns
  | LinkSetDown string
  | LinkSetName string string
  | AddrAdd string IP nat
  | RouteAdd string IP

type_synonym 'h netlink = "nl_op \<Rightarrow> 'h \<Rightarrow> string option \<times> 'h"

text \<open>The calls in order, the first failure ends them; the namespace is the one of the operating-system thread.\<close>

fun run_ops :: "'h netlink \<Rightarrow> nl_op list \<Rightarrow> net_ns \<times> 'h \<Rightarrow> string option \<times> net_ns \<times> 'h" where
  "run_ops nl [] s = (None, s)"
| "run_ops nl (op # ops) s = (case nl op (snd s) of
     (Some e, h1) \<Rightarrow> (Some e, fst s, h1)
   | (None, h1) \<Rightarrow> run_ops nl ops ((case op of NsSet ns \<Rightarrow> ns | _ \<Rightarrow> fst s), h1))"

definition Veth_Init :: "'h netlink \<Rightarrow> int \<Rightarrow> string \<Rightarrow> Veth \<Rightarrow> net_ns \<times> 'h \<Rightarrow> (string option \<times> Veth) \<times> net_ns \<times> 'h" where
  "Veth_Init nl pid bridge v s = (case run_ops nl [LinkByName bridge] s of
     (Some e, s1) \<Rightarrow> ((Some (''getting link '' @ bridge @ '' failed: '' @ e), v), s1)
   | (None, s1) \<Rightarrow>
       let v1 = v\<lparr>pairName := ''miniv-'' @ Itoa pid, peerName := ''ethc'' @ Itoa pid, ContainerPID := pid\<rparr>
       in (case run_ops nl [LinkAdd (pairName v1) (peerName v1)] s1 of
             (Some e, s2) \<Rightarrow> ((Some (''create veth pair named failed: '' @ e), v1), s2)
           | (None, s2) \<Rightarrow> ((None, v1), s2)))"

definition bind_ops :: "Veth \<Rightarrow> IP \<Rightarrow> nat \<Rightarrow> nl_op list" where
  "bind_ops v gateway prefix =
     [LinkByName (peerName v), LinkSetNsPid (peerName v) (ContainerPID v), LinkSetUp (pairName v), NsGet, NsGetFromPid (ContainerPID v),
      NsSet (PidNs (ContainerPID v)), LinkSetDown (peerName v), LinkSetName (peerName v) ''eth0'', AddrAdd (peerName v) (IP_veth v) prefix,
      LinkSetUp (peerName v), RouteAdd (peerName v) gateway, NsSet HostNs]"

definition BindContainer :: "'h netlink \<Rightarrow> IP \<Rightarrow> nat \<Rightarrow> Veth \<Rightarrow> net_ns \<times> 'h \<Rightarrow> string option \<times> net_ns \<times> 'h" where
  "BindContainer nl gateway prefix v s = run_ops nl (bind_ops v gateway prefix) s"

definition SetContainerNet :: "'h netlink \<Rightarrow> net_answers \<Rightarrow> int \<Rightarrow> ContainerNetwork \<times> net_ns \<times> 'h \<Rightarrow>
    (string option \<times> ContainerNetwork \<times> net_ns \<times> 'h) option" where
  "SetContainerNet nl a pid = (\<lambda>(c, s). case getNewVeth a c of
     None \<Rightarrow> None
   | Some (Inl e, c1) \<Rightarrow> Some (Some e, c1, s)
   | Some (Inr v, c1) \<Rightarrow> (case Veth_Init nl pid (bridgeName c1) (veths c1 v) s of
       ((Some e, d), s1) \<Rightarrow> Some (Some e, c1\<lparr>veths := (veths c1)(v := d)\<rparr>, s1)
     | ((None, d), s1) \<Rightarrow> (case BindContainer nl (bridgeIP c1) (prefix_net (bridgeIPNet c1)) d s1 of (err, s2) \<Rightarrow>
         Some (err, c1\<lparr>veths := (veths c1)(v := d)\<rparr>, s2))))"

section \<open>Bytes and values\<close>

lemma be_value_snoc: "be_value (bs @ [b]) = be_value bs * 256 + b"
  by (simp add: be_value_def)

lemma be_value_be_bytes [simp]: "be_value (be_bytes n) = n"
proof (induction n rule: be_bytes.induct)
  case (1 n)
  show ?case
  proof (cases "n = 0")
    case False
    with 1 show ?thesis by (subst be_bytes.simps) (simp add: be_value_snoc)
  qed (simp add: be_bytes.simps be_value_def)
qed

lemma length_be_bytes: "length (be_bytes n) \<le> k \<longleftrightarrow> n < 256 ^ k"
proof (induction k arbitrary: n)
  case 0
  show ?case by (subst be_bytes.simps) auto
next
  case (Suc k)
  have "n div 256 < 256 ^ k \<longleftrightarrow> n < 256 ^ k * 256" by (rule div_less_iff_less_mult) simp
  then show ?case using Suc.IH [of "n div 256"] by (subst be_bytes.simps) (auto simp: mult.commute)
qed

lemma length_be_bytes_4: "2 ^ 24 \<le> n \<Longrightarrow> n < 2 ^ 32 \<Longrightarrow> length (be_bytes n) = 4"
  using length_be_bytes [of n 3] length_be_bytes [of n 4] by simp

lemma length_be_bytes_5: "length (be_bytes (2 ^ 32)) = 5"
  using length_be_bytes [of "2 ^ 32" 4] length_be_bytes [of "2 ^ 32" 5] by simp

lemma be_bytes_inj: "be_bytes m = be_bytes n \<longleftrightarrow> m = n"
  by (metis be_value_be_bytes)

lemma To4_be_bytes: "2 ^ 24 \<le> v \<Longrightarrow> v \<le> 2 ^ 32 \<Longrightarrow> To4 (be_bytes v) = (if v < 2 ^ 32 then Some (be_bytes v) else None)"
  using length_be_bytes_4 [of v] length_be_bytes_5 by (cases "v < 2 ^ 32") (auto simp: To4_def)

lemma ip_Equal_be_bytes:
  assumes "2 ^ 24 \<le> v" "v \<le> 2 ^ 32" "2 ^ 24 \<le> w" "w < 2 ^ 32"
  shows "ip_Equal (be_bytes v) (be_bytes w) \<longleftrightarrow> v = w"
proof (cases "v < 2 ^ 32")
  case True
  then show ?thesis using assms by (simp add: ip_Equal_def length_be_bytes_4 be_bytes_inj)
next
  case False
  then have "v = 2 ^ 32" using assms(2) by simp
  then show ?thesis using assms length_be_bytes_5 length_be_bytes_4 [of w] by (auto simp: ip_Equal_def)
qed

section \<open>The search\<close>

text \<open>The network as an interval: the base address and the number of addresses.\<close>

definition net_base :: "IPNet \<Rightarrow> nat" where
  "net_base n = be_value (IP_net n)"

definition net_size :: "IPNet \<Rightarrow> nat" where
  "net_size n = 2 ^ host_bits n"

definition net_ok :: "IPNet \<Rightarrow> bool" where
  "net_ok n \<longleftrightarrow> length (IP_net n) = 4 \<and> 2 ^ 24 \<le> net_base n \<and> net_base n mod net_size n = 0 \<and> net_base n + net_size n \<le> 2 ^ 32"

definition host_ok :: "IPNet \<Rightarrow> IP \<Rightarrow> bool" where
  "host_ok n ip \<longleftrightarrow> (\<exists>b. To4 ip = Some b \<and> net_base n \<le> be_value b \<and> be_value b + 1 < net_base n + net_size n)"

lemma div_interval: "(b :: nat) mod s = 0 \<Longrightarrow> 0 < s \<Longrightarrow> v div s = b div s \<longleftrightarrow> b \<le> v \<and> v < b + s"
proof -
  assume b: "b mod s = 0" "0 < s"
  then have bs: "b = b div s * s" by (metis add.right_neutral div_mult_mod_eq)
  have "v div s = q \<longleftrightarrow> q * s \<le> v \<and> v < q * s + s" for q
  proof -
    have "v div s = q \<longleftrightarrow> q \<le> v div s \<and> v div s < Suc q" by auto
    also have "\<dots> \<longleftrightarrow> q * s \<le> v \<and> v < Suc q * s"
      using b(2) by (simp only: less_eq_div_iff_mult_less_eq div_less_iff_less_mult)
    finally show ?thesis by (simp add: add.commute)
  qed
  from this [of "b div s"] bs show ?thesis by simp
qed

lemma Contains_be_bytes:
  assumes "net_ok n" "net_base n \<le> v" "v \<le> net_base n + net_size n"
  shows "ip_Contains n (be_bytes v) \<longleftrightarrow> v < net_base n + net_size n"
proof -
  have v: "2 ^ 24 \<le> v" "v \<le> 2 ^ 32" using assms by (auto simp: net_ok_def)
  have "v div net_size n = net_base n div net_size n \<longleftrightarrow> v < net_base n + net_size n"
    using div_interval [of "net_base n" "net_size n" v] assms by (simp add: net_ok_def net_size_def)
  then show ?thesis
    using To4_be_bytes [OF v] assms by (auto simp: ip_Contains_def net_ok_def net_base_def [symmetric] net_size_def [symmetric])
qed

lemma increaseIP_be_bytes: "2 ^ 24 \<le> v \<Longrightarrow> v < 2 ^ 32 \<Longrightarrow> increaseIP (be_bytes v) = be_bytes (v + 1)"
  by (simp add: increaseIP_def ipToBigInt_def bigIntToIP_def To4_be_bytes)

lemma increaseIP_base: "net_ok n \<Longrightarrow> increaseIP (IP_net n) = be_bytes (net_base n + 1)"
  by (simp add: increaseIP_def ipToBigInt_def bigIntToIP_def To4_def net_ok_def net_base_def)

definition next_value :: "IPNet \<Rightarrow> nat \<Rightarrow> nat" where
  "next_value n v = (if v < net_base n + net_size n then v + 1 else net_base n + 1)"

lemma loop_step:
  assumes "net_ok n" "net_base n \<le> v" "v \<le> net_base n + net_size n" "net_base n < s" "s < net_base n + net_size n"
  shows "allocate_loop n ba im ping (be_bytes s) (be_bytes v) =
    (if usable n ba im ping (be_bytes v) then Some (Some (be_bytes v))
     else if next_value n v = s then Some None
     else allocate_loop n ba im ping (be_bytes s) (be_bytes (next_value n v)))"
proof -
  have sz: "1 < net_size n" using assms(4,5) by simp
  have inc: "increaseIP (if ip_Contains n (be_bytes v) then be_bytes v else IP_net n) = be_bytes (next_value n v)"
    using Contains_be_bytes [OF assms(1-3)] increaseIP_base [OF assms(1)] increaseIP_be_bytes [of v] assms
    by (auto simp: next_value_def net_ok_def)
  have nv: "2 ^ 24 \<le> next_value n v" "next_value n v \<le> 2 ^ 32" "2 ^ 24 \<le> s" "s < 2 ^ 32"
    using assms sz by (auto simp: next_value_def net_ok_def)
  show ?thesis
    by (subst allocate_loop.simps) (simp add: Let_def inc ip_Equal_be_bytes [OF nv])
qed

text \<open>The distance to the first address, and the addresses on the way.\<close>

definition dist :: "IPNet \<Rightarrow> nat \<Rightarrow> nat \<Rightarrow> nat" where
  "dist n s v = (if v < s then s - v else net_size n + s - v)"

definition on_way :: "IPNet \<Rightarrow> nat \<Rightarrow> nat \<Rightarrow> nat \<Rightarrow> bool" where
  "on_way n s v w \<longleftrightarrow> net_base n < w \<and> w \<le> net_base n + net_size n \<and> (if v < s then v \<le> w \<and> w < s else v \<le> w \<or> w < s)"

lemma loop_returns:
  assumes "net_ok n" "net_base n < s" "s < net_base n + net_size n" "net_base n < v" "v \<le> net_base n + net_size n"
  shows "\<exists>r. allocate_loop n ba im ping (be_bytes s) (be_bytes v) = Some r \<and>
    (\<forall>ip. r = Some ip \<longrightarrow> usable n ba im ping ip \<and> (\<exists>w. ip = be_bytes w \<and> net_base n < w \<and> w \<le> net_base n + net_size n)) \<and>
    (r = None \<longrightarrow> (\<forall>w. on_way n s v w \<longrightarrow> \<not> usable n ba im ping (be_bytes w)))"
  using assms(4,5)
proof (induction "dist n s v" arbitrary: v rule: less_induct)
  case less
  note step = loop_step [OF assms(1) less_imp_le [OF less.prems(1)] less.prems(2) assms(2,3), of ba im ping]
  let ?v = "next_value n v"
  show ?case
  proof (cases "usable n ba im ping (be_bytes v)")
    case True
    then show ?thesis using less.prems by (auto simp: step)
  next
    case no: False
    show ?thesis
    proof (cases "?v = s")
      case True
      have "w = v" if "on_way n s v w" for w
        using that True less.prems assms(2,3) by (auto simp: on_way_def next_value_def split: if_splits)
      with no True show ?thesis by (auto simp: step)
    next
      case False
      have v: "net_base n < ?v" "?v \<le> net_base n + net_size n"
        using less.prems assms by (auto simp: next_value_def)
      have "dist n s ?v < dist n s v"
        using False less.prems assms(2,3) by (auto simp: dist_def next_value_def split: if_splits)
      from less.hyps [OF this v] obtain r where r:
        "allocate_loop n ba im ping (be_bytes s) (be_bytes ?v) = Some r"
        "\<forall>ip. r = Some ip \<longrightarrow> usable n ba im ping ip \<and> (\<exists>w. ip = be_bytes w \<and> net_base n < w \<and> w \<le> net_base n + net_size n)"
        "r = None \<longrightarrow> (\<forall>w. on_way n s ?v w \<longrightarrow> \<not> usable n ba im ping (be_bytes w))" by blast
      have "w = v \<or> on_way n s ?v w" if "on_way n s v w" for w
        using that False less.prems assms(2,3) by (auto simp: on_way_def next_value_def split: if_splits)
      with r no False show ?thesis by (auto simp: step)
    qed
  qed
qed

lemma usable_host_ok:
  assumes "net_ok n" "usable n ba im ping ip" "length ip = 4"
  shows "host_ok n ip"
proof -
  have t: "To4 ip = Some ip" using assms(3) by (simp add: To4_def)
  have c: "be_value ip div net_size n = net_base n div net_size n"
    using assms(2) t by (simp add: usable_def ip_Contains_def net_base_def net_size_def)
  then have iv: "net_base n \<le> be_value ip" "be_value ip < net_base n + net_size n"
    using div_interval [of "net_base n" "net_size n" "be_value ip"] assms(1) by (auto simp: net_ok_def net_size_def)
  have "be_value ip mod net_size n \<noteq> net_size n - 1"
    using assms(2,3) by (auto simp: usable_def isUnicastIP_def net_size_def)
  moreover have "be_value ip mod net_size n = be_value ip - net_base n"
    using iv assms(1) by (metis add_diff_cancel_left' le_Suc_ex mod_add_left_eq add_0 mod_less nat_add_left_cancel_less net_ok_def)
  ultimately have "be_value ip + 1 < net_base n + net_size n" using iv by linarith
  with t iv show ?thesis by (auto simp: host_ok_def)
qed

lemma allocate_from_host:
  assumes "net_ok (bridgeIPNet c)" "host_ok (bridgeIPNet c) (lastIP c)" "getIPMap a c = Inr im"
  defines "n \<equiv> bridgeIPNet c"
  shows "\<exists>r. allocateIP a c = Some r \<and>
    (\<forall>ip. r = Inr ip \<longrightarrow> usable n (bridge_addrs a) im (ping_answer a) ip \<and> host_ok n ip) \<and>
    (isl r \<longrightarrow> (\<forall>w. net_base n < w \<and> w < net_base n + net_size n \<longrightarrow> \<not> usable n (bridge_addrs a) im (ping_answer a) (be_bytes w)))"
proof -
  let ?ba = "bridge_addrs a" and ?ping = "ping_answer a"
  have ok: "net_ok n" using assms(1) by (simp add: n_def)
  obtain b where b: "To4 (lastIP c) = Some b" "net_base n \<le> be_value b" "be_value b + 1 < net_base n + net_size n"
    using assms(2) by (auto simp: host_ok_def n_def)
  let ?s = "be_value b + 1"
  have inc: "increaseIP (lastIP c) = be_bytes ?s" using b(1) by (simp add: increaseIP_def ipToBigInt_def bigIntToIP_def)
  obtain r where r: "allocate_loop n ?ba im ?ping (be_bytes ?s) (be_bytes ?s) = Some r"
    "\<forall>ip. r = Some ip \<longrightarrow> usable n ?ba im ?ping ip \<and> (\<exists>w. ip = be_bytes w \<and> net_base n < w \<and> w \<le> net_base n + net_size n)"
    "r = None \<longrightarrow> (\<forall>w. on_way n ?s ?s w \<longrightarrow> \<not> usable n ?ba im ?ping (be_bytes w))"
    using loop_returns [OF ok, of ?s ?s ?ba im ?ping] b(2,3) by auto
  have "host_ok n ip" if rs: "r = Some ip" for ip
  proof -
    obtain w where w: "ip = be_bytes w" "net_base n < w" "w \<le> net_base n + net_size n" and u: "usable n ?ba im ?ping ip"
      using r(2) rs by blast
    have "ip_Contains n ip" using u by (simp add: usable_def)
    then have "w < net_base n + net_size n" using Contains_be_bytes [OF ok, of w] w by simp
    then have "length ip = 4" using w ok by (auto simp: net_ok_def intro: length_be_bytes_4)
    then show ?thesis using usable_host_ok [OF ok u] by simp
  qed
  with r show ?thesis
    by (cases r) (auto simp: allocateIP_def inc on_way_def assms(3) n_def [symmetric] Let_def)
qed

text \<open>A textual address has no space, an entry of the neighbour table has one, so the table is never consulted with success.\<close>

definition neigh_entries :: "net_answers \<Rightarrow> bool" where
  "neigh_entries a = (case neighbours a of Inl _ \<Rightarrow> True | Inr entries \<Rightarrow> list_all (\<lambda>s. CHR '' '' \<in> set s) entries)"

lemma Itoa_no_space: "CHR '' '' \<notin> set (Itoa (int n))"
  using digits_digit [of "CHR '' ''" n] by (auto simp: Itoa_def)

lemma set_join_with: "set (join_with sep xs) \<subseteq> set sep \<union> \<Union> (set ` set xs)"
  by (induction sep xs rule: join_with.induct) auto

lemma ip_String_no_space: "CHR '' '' \<notin> set (ip_String ip)"
  using set_join_with [of "''.''" "map (Itoa \<circ> int) ip"] Itoa_no_space by (auto simp: ip_String_def)

lemma neighbours_ignored:
  assumes "neigh_entries a" "getIPMap a c = Inr im"
  shows "\<not> im (ip_String ip)"
  using assms ip_String_no_space by (auto simp: getIPMap_def neigh_entries_def list_all_iff split: sum.splits)

section \<open>The devices over time\<close>

text \<open>The addresses in use answer a ping. Nothing in the code makes sure of it: a container may drop the request, and a device that is
  not bound yet, or whose binding failed, has no address to answer from.\<close>

definition answers_live :: "net_answers \<Rightarrow> ContainerNetwork \<Rightarrow> bool" where
  "answers_live a c = list_all (\<lambda>v. ping_answer a (IP_veth (veths c v))) (veth c)"

inductive net_step :: "ContainerNetwork \<Rightarrow> ContainerNetwork \<Rightarrow> bool" where
  taken: "answers_live a c \<Longrightarrow> getNewVeth a c = Some (r, c') \<Longrightarrow> net_step c c'"
| initialised: "IP_veth d = IP_veth (veths c v) \<Longrightarrow> net_step c (c\<lparr>veths := (veths c)(v := d)\<rparr>)"
| released: "UnsetContainerNet pid c = (r, c') \<Longrightarrow> net_step c c'"

definition net_inv :: "ContainerNetwork \<Rightarrow> bool" where
  "net_inv c \<longleftrightarrow> net_ok (bridgeIPNet c) \<and> host_ok (bridgeIPNet c) (lastIP c) \<and>
     distinct (veth c @ vethPool c) \<and> (\<forall>v \<in> set (veth c @ vethPool c). v < fresh_veth c) \<and>
     inj_on (\<lambda>v. IP_veth (veths c v)) (set (veth c @ vethPool c))"

lemma allocateIP_returns:
  assumes "net_ok (bridgeIPNet c)" "host_ok (bridgeIPNet c) (lastIP c)"
  shows "\<exists>r. allocateIP a c = Some r \<and> (\<forall>ip. r = Inr ip \<longrightarrow> \<not> ping_answer a ip \<and> host_ok (bridgeIPNet c) ip)"
proof (cases "getIPMap a c")
  case (Inl e)
  then show ?thesis by (simp add: allocateIP_def)
next
  case (Inr im)
  show ?thesis using allocate_from_host [OF assms Inr] by (auto simp: usable_def)
qed

lemma getNewVeth_returns: "net_inv c \<Longrightarrow> getNewVeth a c \<noteq> None"
  using allocateIP_returns [of c a] by (cases "vethPool c") (auto simp: getNewVeth_def net_inv_def)

lemma net_step_inv: "net_step c c' \<Longrightarrow> net_inv c \<Longrightarrow> net_inv c'"
proof (induction rule: net_step.induct)
  case (taken a c r c')
  show ?case
  proof (cases "vethPool c")
    case (Cons v rest)
    then have "c' = c\<lparr>veth := veth c @ [v], vethPool := rest\<rparr>" using taken(2) by (simp add: getNewVeth_def)
    then show ?thesis using taken(3) Cons by (auto simp: net_inv_def)
  next
    case Nil
    obtain q where q: "allocateIP a c = Some q" "\<forall>ip. q = Inr ip \<longrightarrow> \<not> ping_answer a ip \<and> host_ok (bridgeIPNet c) ip"
      using allocateIP_returns taken(3) by (metis net_inv_def)
    show ?thesis
    proof (cases q)
      case (Inl e)
      then show ?thesis using Nil q(1) taken(2,3) by (simp add: getNewVeth_def)
    next
      case r: (Inr ip)
      let ?v = "fresh_veth c"
      have c': "c' = c\<lparr>lastIP := ip, veths := (veths c)(?v := \<lparr>pairName = '''', peerName = '''', ContainerPID = 0, IP_veth = ip\<rparr>),
          fresh_veth := Suc ?v, veth := veth c @ [?v]\<rparr>"
        using Nil q(1) r taken(2) by (simp add: getNewVeth_def Let_def)
      have new: "IP_veth (veths c w) \<noteq> ip" if "w \<in> set (veth c)" for w
        using taken(1) q(2) r that by (auto simp: answers_live_def list_all_iff)
      have fresh: "?v \<notin> set (veth c)" using taken(3) Nil by (auto simp: net_inv_def)
      show ?thesis
        unfolding c' using taken(3) q(2) r new fresh Nil by (auto simp: net_inv_def inj_on_def less_Suc_eq)
    qed
  qed
next
  case (initialised d c v)
  have "IP_veth (((veths c)(v := d)) w) = IP_veth (veths c w)" for w using initialised(1) by simp
  then show ?case using initialised(2) by (simp add: net_inv_def)
next
  case (released pid c r c')
  show ?case
  proof (cases "find (\<lambda>v. ContainerPID (veths c v) = pid) (veth c)")
    case None
    then show ?thesis using released by (simp add: UnsetContainerNet_def deleteVeth_def)
  next
    case (Some v)
    then have v: "v \<in> set (veth c)" by (auto simp: find_Some_iff)
    have c': "c' = c\<lparr>veths := (veths c)(v := (veths c v)\<lparr>ContainerPID := 0\<rparr>), vethPool := vethPool c @ [v], veth := remove1 v (veth c)\<rparr>"
      using released(1) Some by (simp add: UnsetContainerNet_def deleteVeth_def)
    have ip: "IP_veth (((veths c)(v := (veths c v)\<lparr>ContainerPID := 0\<rparr>)) w) = IP_veth (veths c w)" for w by simp
    have s: "set (remove1 v (veth c) @ vethPool c @ [v]) = set (veth c @ vethPool c)"
      using released(2) v by (auto simp: net_inv_def)
    have d: "distinct (remove1 v (veth c) @ vethPool c @ [v])"
      using released(2) v by (auto simp: net_inv_def)
    show ?thesis
      unfolding c' net_inv_def using released(2) s d ip by (simp only: net_inv_def ContainerNetwork.simps) simp
  qed
qed

lemma run_ops_append:
  "run_ops nl (xs @ ys) s = (case run_ops nl xs s of (Some e, s1) \<Rightarrow> (Some e, s1) | (None, s1) \<Rightarrow> run_ops nl ys s1)"
  by (induction xs arbitrary: s) (auto split: prod.split option.split)

lemma run_ops_ns:
  "run_ops nl ops s = (None, s1) \<Longrightarrow> fst s1 = fold (\<lambda>op ns. case op of NsSet n \<Rightarrow> n | _ \<Rightarrow> ns) ops (fst s)"
  by (induction ops arbitrary: s) (auto split: prod.splits option.splits)

section \<open>Properties\<close>


definition sample_net :: IPNet where
  "sample_net = \<lparr>IP_net = [172, 33, 0, 0], prefix_net = 24\<rparr>"

definition sample_network :: ContainerNetwork where
  "sample_network = \<lparr>bridgeName = ''br'', bridgeIPNet = sample_net, bridgeIP = [172, 33, 0, 1], lastIP = [172, 33, 0, 1], vethPool = [], veth = [],
     veths = (\<lambda>_. \<lparr>pairName = '''', peerName = '''', ContainerPID = 0, IP_veth = []\<rparr>), fresh_veth = 0\<rparr>"

definition sample_neighbours :: net_answers where
  "sample_neighbours = \<lparr>neighbours = Inr [''172.33.0.2 02:42:ac:21:00:02''], bridge_addrs = [[172, 33, 0, 1]], ping_answer = (\<lambda>ip. ip \<noteq> [172, 33, 0, 2])\<rparr>"

lemma sample_net_ok: "net_ok sample_net" "host_ok sample_net [172, 33, 0, 1]"
  by (simp_all add: net_ok_def host_ok_def sample_net_def net_base_def net_size_def host_bits_def be_value_def To4_def)


text \<open>Two containers do not share an address, if every address in use answers a ping whenever a new one is chosen. However devices are
  taken, initialised and given back, the devices in use and in the pool then have different addresses.\<close>

lemma addresses_unique:
  assumes "net_step\<^sup>*\<^sup>* c0 c" "net_ok (bridgeIPNet c0)" "host_ok (bridgeIPNet c0) (lastIP c0)" "veth c0 = []" "vethPool c0 = []"
  shows "inj_on (\<lambda>v. IP_veth (veths c v)) (set (veth c @ vethPool c)) \<and> distinct (veth c @ vethPool c) \<and> (\<forall>a. getNewVeth a c \<noteq> None)"
proof -
  have "net_inv c0" using assms(2-) by (simp add: net_inv_def)
  with assms(1) have "net_inv c" by (induction rule: rtranclp_induct) (auto intro: net_step_inv)
  then show ?thesis using getNewVeth_returns by (auto simp: net_inv_def)
qed

text \<open>An error while a device is configured leaves the operating-system thread in the namespace of the container: every failure after
  the switch and before the switch back is returned at once, and the deferred calls do not switch back.\<close>

theorem BindContainer_stays_in_namespace:
  assumes "6 \<le> i" "i < 12" "run_ops nl (take i (bind_ops v gateway prefix)) s = (None, s1)"
    and "nl (bind_ops v gateway prefix ! i) (snd s1) = (Some e, h)"
  shows "BindContainer nl gateway prefix v s = (Some e, PidNs (ContainerPID v), h)"
proof -
  let ?ops = "bind_ops v gateway prefix"
  have len: "length ?ops = 12" by (simp add: bind_ops_def)
  have "?ops = take i ?ops @ ?ops ! i # drop (Suc i) ?ops" using assms(2) len by (simp add: id_take_nth_drop)
  then have "BindContainer nl gateway prefix v s = (Some e, fst s1, h)"
    using assms(3,4) unfolding BindContainer_def by (metis (mono_tags, lifting) run_ops_append run_ops.simps(2) case_prod_conv option.simps(4,5))
  moreover have "fst s1 = PidNs (ContainerPID v)"
  proof -
    have "i \<in> {6, 7, 8, 9, 10, 11}" using assms(1,2) by auto
    then show ?thesis using run_ops_ns [OF assms(3)] by (auto simp: bind_ops_def)
  qed
  ultimately show ?thesis by simp
qed

theorem BindContainer_stays_in_namespace_witness:
  "BindContainer (\<lambda>op h. case op of AddrAdd _ _ _ \<Rightarrow> (Some ''file exists'', h) | _ \<Rightarrow> (None, h)) [172, 33, 0, 1] 24
     \<lparr>pairName = ''miniv-7'', peerName = ''ethc7'', ContainerPID = 7, IP_veth = [172, 33, 0, 2]\<rparr> (HostNs, ()) =
   (Some ''file exists'', PidNs 7, ())"
  using BindContainer_stays_in_namespace
    [of 8 "\<lambda>op h. case op of AddrAdd _ _ _ \<Rightarrow> (Some ''file exists'', h) | _ \<Rightarrow> (None, h)"
      "\<lparr>pairName = ''miniv-7'', peerName = ''ethc7'', ContainerPID = 7, IP_veth = [172, 33, 0, 2]\<rparr>" "[172, 33, 0, 1]" 24 "(HostNs, ())"
      "(PidNs 7, ())" "''file exists''" "()"]
  by (simp add: bind_ops_def)

end
