(* ===== verification/FnRunner.thy ===== *)
theory FnRunner
  imports FnPaths
begin

text \<open>
  The container specification the funclet writes for \<open>runc\<close> (\<open>src/pkg/funclet/runner/manager.go\<close>, \<open>options.go\<close>, \<open>types.go\<close>, \<open>helper.go\<close>). The records hold the
  fields of the OCI specification the code sets; the version text of the specification package is an argument.
\<close>

section \<open>The specification\<close>

record Mount =
  Destination :: string
  Type_m :: string
  Source_m :: string
  Options_m :: "string list"

record LinuxCapabilities =
  Bounding :: "string list"
  Permitted :: "string list"
  Inheritable :: "string list"
  Ambient :: "string list"
  Effective :: "string list"

record POSIXRlimit =
  Type_rl :: string
  Hard_rl :: uint64
  Soft_rl :: uint64

record Process =
  Terminal :: bool
  UID_pr :: nat
  GID_pr :: nat
  Args_pr :: "string list"
  Env_pr :: "string list"
  Cwd :: string
  NoNewPrivileges :: bool
  Capabilities :: LinuxCapabilities
  Rlimits :: "POSIXRlimit list"

record LinuxMemory =
  Limit_lm :: "int64 option"

record LinuxCPU =
  Shares_lc :: "uint64 option"
  Quota_lc :: "int64 option"
  Period_lc :: "uint64 option"

record Linux =
  MaskedPaths :: "string list"
  ReadonlyPaths :: "string list"
  Devices_lx :: "(bool \<times> string) list"
  Memory_lx :: "LinuxMemory option"
  CPU_lx :: "LinuxCPU option"
  Namespaces :: "string list"

record RunnerSpec =
  Version_sp :: string
  RootPath :: string
  RootReadonly :: bool
  Process_sp :: Process
  Hostname_sp :: string
  Mounts_sp :: "Mount list"
  Linux_sp :: Linux

record RunnerSpecOption =
  RunnerCmd :: string
  RootfsPath :: string
  EtcPath_so :: string
  CodePath_so :: string
  ConfPath_so :: string
  RuntimePath_so :: string
  InvokerSocketPath :: string
  RuntimeSocketPath_so :: string
  TargetHostsPath :: string
  TargetConfPath :: string
  TargetCodePath :: string
  TargetRuntimePath :: string
  TargetTmpPath :: string
  TargetInvokerSocketPath :: string
  TargetRuntimeSocketPath :: string
  VscodeManagerSocketPath :: string

definition NewRunnerSpecOption :: RunnerSpecOption where
  "NewRunnerSpecOption = \<lparr>RunnerCmd = ''/init'', RootfsPath = ''/var/faas/runner/rootfs'', EtcPath_so = ''/var/faas/runner-spec/%s/conf'',
     CodePath_so = ''/var/faas/runner-data/%s/task'', ConfPath_so = ''/var/faas/runner-data/%s/conf'',
     RuntimePath_so = ''/var/faas/runner-data/%s/runtime'', InvokerSocketPath = ''/var/run/faas'', RuntimeSocketPath_so = ''/var/run/faas/%s'',
     TargetHostsPath = ''/etc/hosts'', TargetConfPath = ''/etc/faas'', TargetCodePath = ''/var/task'', TargetRuntimePath = ''/var/runtime'',
     TargetTmpPath = ''/tmp'', TargetInvokerSocketPath = ''/var/run/faas'', TargetRuntimeSocketPath = ''/var/run/faas-runtime'',
     VscodeManagerSocketPath = ''/var/run/faas/.vscode_status.sock''\<rparr>"

record RunnerConfig =
  HostName_c :: string
  HostsPath_c :: string
  ConfigPath_c :: string
  CodePath_c :: string
  RuntimePath_c :: string
  TmpPath_c :: string
  RuncConfigPath_c :: string
  RuntimeSocketPath_c :: string
  ResourceConfig_c :: "ResourceConfig option"

definition SpecConfig :: string where "SpecConfig = ''config.json''"
definition DefaultDNSConfig :: string where "DefaultDNSConfig = ''/etc/resolv.conf''"
definition RUNTIMEUID :: string where "RUNTIMEUID = ''CFC_RUNTIME_UID=1001''"
definition RUNTIMEGID :: string where "RUNTIMEGID = ''CFC_RUNTIME_GID=1001''"

definition runner_capabilities :: "string list" where
  "runner_capabilities = [''CAP_AUDIT_WRITE'', ''CAP_KILL'', ''CAP_NET_BIND_SERVICE'', ''CAP_SETUID'', ''CAP_SETGID'']"

definition system_mounts :: "Mount list" where
  "system_mounts =
     [\<lparr>Destination = ''/proc'', Type_m = ''proc'', Source_m = ''proc'', Options_m = []\<rparr>,
      \<lparr>Destination = ''/dev'', Type_m = ''tmpfs'', Source_m = ''tmpfs'', Options_m = [''nosuid'', ''strictatime'', ''mode=755'', ''size=65536k'']\<rparr>,
      \<lparr>Destination = ''/dev/pts'', Type_m = ''devpts'', Source_m = ''devpts'',
       Options_m = [''nosuid'', ''noexec'', ''newinstance'', ''ptmxmode=0666'', ''mode=0620'', ''gid=5'']\<rparr>,
      \<lparr>Destination = ''/dev/shm'', Type_m = ''tmpfs'', Source_m = ''shm'', Options_m = [''nosuid'', ''noexec'', ''nodev'', ''mode=1777'', ''size=65536k'']\<rparr>,
      \<lparr>Destination = ''/dev/mqueue'', Type_m = ''mqueue'', Source_m = ''mqueue'', Options_m = [''nosuid'', ''noexec'', ''nodev'']\<rparr>,
      \<lparr>Destination = ''/sys'', Type_m = ''sysfs'', Source_m = ''sysfs'', Options_m = [''nosuid'', ''noexec'', ''nodev'', ''ro'']\<rparr>,
      \<lparr>Destination = ''/sys/fs/cgroup'', Type_m = ''cgroup'', Source_m = ''cgroup'', Options_m = [''nosuid'', ''noexec'', ''nodev'', ''relatime'', ''ro'']\<rparr>]"

definition runnerExample :: "string \<Rightarrow> RunnerSpecOption \<Rightarrow> RunnerSpec" where
  "runnerExample spec_version o1 =
     \<lparr>Version_sp = spec_version, RootPath = RootfsPath o1, RootReadonly = True,
      Process_sp = \<lparr>Terminal = False, UID_pr = 0, GID_pr = 0, Args_pr = [],
        Env_pr = [''PATH=/usr/local/sbin:/usr/local/bin:/usr/sbin:/usr/bin:/sbin:/bin'', ''TERM=xterm''], Cwd = ''/'', NoNewPrivileges = True,
        Capabilities = \<lparr>Bounding = runner_capabilities, Permitted = runner_capabilities, Inheritable = runner_capabilities,
          Ambient = runner_capabilities, Effective = runner_capabilities\<rparr>,
        Rlimits = [\<lparr>Type_rl = ''RLIMIT_NOFILE'', Hard_rl = 1024 * 1024, Soft_rl = 1024 * 1024\<rparr>]\<rparr>,
      Hostname_sp = ''runner'', Mounts_sp = system_mounts,
      Linux_sp = \<lparr>MaskedPaths = [''/proc/kcore'', ''/proc/latency_stats'', ''/proc/timer_list'', ''/proc/timer_stats'', ''/proc/sched_debug'', ''/sys/firmware'', ''/proc/scsi''],
        ReadonlyPaths = [''/proc/asound'', ''/proc/bus'', ''/proc/fs'', ''/proc/irq'', ''/proc/sys'', ''/proc/sysrq-trigger''],
        Devices_lx = [(False, ''rwm'')], Memory_lx = None, CPU_lx = None,
        Namespaces = [''pid'', ''network'', ''ipc'', ''uts'', ''mount'']\<rparr>\<rparr>"

definition bind_mount :: "string \<Rightarrow> string \<Rightarrow> string list \<Rightarrow> Mount" where
  "bind_mount dest src opts = \<lparr>Destination = dest, Type_m = ''bind'', Source_m = src, Options_m = opts\<rparr>"

definition common_mounts :: "RunnerSpecOption \<Rightarrow> RunnerConfig \<Rightarrow> Mount list" where
  "common_mounts o1 c =
     [bind_mount (TargetInvokerSocketPath o1) (InvokerSocketPath o1) [''rbind'', ''ro''],
      bind_mount (TargetRuntimeSocketPath o1) (RuntimeSocketPath_c c) [''nosuid'', ''rbind'', ''rw'', ''mode=777''],
      bind_mount (TargetHostsPath o1) (HostsPath_c c) [''rbind'', ''ro''],
      bind_mount (TargetConfPath o1) (ConfigPath_c c) [''rbind'', ''ro'', ''slave''],
      bind_mount (TargetCodePath o1) (CodePath_c c) [''rbind'', ''ro'', ''slave''],
      bind_mount (TargetRuntimePath o1) (RuntimePath_c c) [''rbind'', ''ro'', ''slave''],
      bind_mount ''/tmp'' (TmpPath_c c) [''rbind'', ''rw''],
      bind_mount DefaultDNSConfig DefaultDNSConfig [''rbind'', ''ro'']]"

definition ide_mounts :: "RunnerSpecOption \<Rightarrow> RunnerConfig \<Rightarrow> Mount list" where
  "ide_mounts o1 c =
     [bind_mount (TargetInvokerSocketPath o1) (InvokerSocketPath o1) [''rbind'', ''ro''],
      bind_mount (TargetRuntimeSocketPath o1) (RuntimeSocketPath_c c) [''nosuid'', ''bind'', ''rw'', ''mode=777''],
      bind_mount (TargetHostsPath o1) (HostsPath_c c) [''rbind'', ''ro''],
      bind_mount (TargetCodePath o1) (CodePath_c c) [''uid=1000'', ''gid=1000'', ''bind'', ''rw'', ''mode=777'', ''shared''],
      bind_mount (TargetRuntimePath o1) (RuntimePath_c c) [''rbind'', ''ro'', ''slave''],
      \<lparr>Destination = ''/home'', Type_m = ''tmpfs'', Source_m = ''tmpfs'', Options_m = [''uid=1000'', ''gid=1000'', ''strictatime'', ''rw'', ''mode=777'']\<rparr>,
      \<lparr>Destination = ''/.vscode-remote'', Type_m = ''tmpfs'', Source_m = ''tmpfs'', Options_m = [''uid=1000'', ''gid=1000'', ''strictatime'', ''rw'', ''mode=777'']\<rparr>,
      bind_mount ''/tmp'' (TmpPath_c c) [''rbind'', ''rw''],
      bind_mount DefaultDNSConfig DefaultDNSConfig [''rbind'', ''ro'']]"

text \<open>The limits of the request, or the default ones; a nil configuration is dereferenced.\<close>

definition with_resources :: "ResourceConfig option \<Rightarrow> RunnerConfig \<Rightarrow> RunnerSpec \<Rightarrow> RunnerSpec outcome" where
  "with_resources defaultConfig c spec =
     obind (deref_field (case ResourceConfig_c c of None \<Rightarrow> defaultConfig | Some r \<Rightarrow> Some r)) (\<lambda>r.
       Value (spec\<lparr>Linux_sp := (Linux_sp spec)\<lparr>Memory_lx := Some \<lparr>Limit_lm = Memory_cfg r\<rparr>,
         CPU_lx := Some \<lparr>Shares_lc = CpuShares_cfg r, Quota_lc = CpuQuota_cfg r, Period_lc = CpuPeriod_cfg r\<rparr>\<rparr>\<rparr>))"

definition getCommonRunnerConfig :: "string \<Rightarrow> RunnerSpecOption \<Rightarrow> ResourceConfig option \<Rightarrow> RunnerConfig \<Rightarrow> RunnerSpec outcome" where
  "getCommonRunnerConfig ver o1 dflt c =
     (let ex = runnerExample ver o1;
          p = (Process_sp ex)\<lparr>Env_pr := Env_pr (Process_sp ex) @ [RUNTIMEUID, RUNTIMEGID], Args_pr := split_on (CHR '' '') (RunnerCmd o1)\<rparr>
      in with_resources dflt c (ex\<lparr>Process_sp := p, Hostname_sp := HostName_c c, Mounts_sp := Mounts_sp ex @ common_mounts o1 c\<rparr>))"

definition getIDERunnerConfig :: "string \<Rightarrow> RunnerSpecOption \<Rightarrow> ResourceConfig option \<Rightarrow> RunnerConfig \<Rightarrow> RunnerSpec outcome" where
  "getIDERunnerConfig ver o1 dflt c =
     (let ex = runnerExample ver o1;
          p = (Process_sp ex)\<lparr>UID_pr := 1000, GID_pr := 1000, Args_pr := split_on (CHR '' '') (RunnerCmd o1),
                Env_pr := Env_pr (Process_sp ex) @ [''LC_ALL=C.UTF-8'', ''LANG=C.UTF-8'',
                  ''CFC_VSCODE_SERVE_SOCKET='' @ TargetRuntimeSocketPath o1 @ ''/.vscode.sock'',
                  ''CFC_MANAGER_SOCKET='' @ VscodeManagerSocketPath o1]\<rparr>
      in with_resources dflt c (ex\<lparr>Process_sp := p, Hostname_sp := HostName_c c, Mounts_sp := Mounts_sp ex @ ide_mounts o1 c\<rparr>))"

definition GenerateRunnerConfig :: "string \<Rightarrow> string \<Rightarrow> RunnerSpecOption \<Rightarrow> ResourceConfig option \<Rightarrow> RunnerConfig \<Rightarrow> RunnerSpec outcome" where
  "GenerateRunnerConfig ver mode o1 dflt c = (if mode = IDE_mode then getIDERunnerConfig ver o1 dflt c else getCommonRunnerConfig ver o1 dflt c)"

section \<open>Lemmas\<close>

lemma with_resources_Value:
  "with_resources dflt c spec = Value s \<longleftrightarrow> (\<exists>r. (case ResourceConfig_c c of None \<Rightarrow> dflt | Some r \<Rightarrow> Some r) = Some r \<and>
     s = spec\<lparr>Linux_sp := (Linux_sp spec)\<lparr>Memory_lx := Some \<lparr>Limit_lm = Memory_cfg r\<rparr>,
         CPU_lx := Some \<lparr>Shares_lc = CpuShares_cfg r, Quota_lc = CpuQuota_cfg r, Period_lc = CpuPeriod_cfg r\<rparr>\<rparr>\<rparr>)"
  by (auto simp: with_resources_def outcome_simps)

definition writable :: "Mount \<Rightarrow> bool" where
  "writable m \<longleftrightarrow> ''ro'' \<notin> set (Options_m m)"

definition host_mount :: "Mount \<Rightarrow> bool" where
  "host_mount m \<longleftrightarrow> Type_m m = ''bind''"

section \<open>Properties\<close>

text \<open>Outside IDE mode the specification of a function's container mounts nothing of the host writable but the socket directory and the container's temporary directory. Its root is
  read-only, it gets no new privileges, no device and the same five capabilities in every set, its own namespaces, and the memory and
  processor limits of its configuration.\<close>

theorem runner_confined:
  assumes "GenerateRunnerConfig ver mode o1 dflt c = Value s" "mode \<noteq> IDE_mode"
  shows "RootReadonly s \<and> NoNewPrivileges (Process_sp s) \<and> Devices_lx (Linux_sp s) = [(False, ''rwm'')] \<and>
    Namespaces (Linux_sp s) = [''pid'', ''network'', ''ipc'', ''uts'', ''mount''] \<and>
    (let k = Capabilities (Process_sp s) in list_all (\<lambda>x. x = runner_capabilities) [Bounding k, Permitted k, Inheritable k, Ambient k, Effective k]) \<and>
    filter (\<lambda>m. host_mount m \<and> writable m) (Mounts_sp s) =
      [bind_mount (TargetRuntimeSocketPath o1) (RuntimeSocketPath_c c) [''nosuid'', ''rbind'', ''rw'', ''mode=777''],
       bind_mount ''/tmp'' (TmpPath_c c) [''rbind'', ''rw'']] \<and>
    (\<exists>r. (case ResourceConfig_c c of None \<Rightarrow> dflt | Some r \<Rightarrow> Some r) = Some r \<and>
      Memory_lx (Linux_sp s) = Some \<lparr>Limit_lm = Memory_cfg r\<rparr>)"
  using assms
  by (auto simp: GenerateRunnerConfig_def getCommonRunnerConfig_def Let_def with_resources_Value runnerExample_def system_mounts_def
      common_mounts_def bind_mount_def host_mount_def writable_def)

definition sample_runner :: RunnerConfig where
  "sample_runner = \<lparr>HostName_c = ''a'', HostsPath_c = ''/h'', ConfigPath_c = ''/c'', CodePath_c = ''/t'', RuntimePath_c = ''/r'', TmpPath_c = ''/tmp/a'',
     RuncConfigPath_c = ''/s'', RuntimeSocketPath_c = ''/var/run/faas/a'', ResourceConfig_c = None\<rparr>"

theorem runner_confined_witness:
  "\<exists>s. GenerateRunnerConfig ''1.0'' ''common'' NewRunnerSpecOption (Some empty_config) sample_runner = Value s \<and> RootReadonly s"
proof -
  obtain s where s: "GenerateRunnerConfig ''1.0'' ''common'' NewRunnerSpecOption (Some empty_config) sample_runner = Value s"
    by (auto simp: GenerateRunnerConfig_def getCommonRunnerConfig_def Let_def with_resources_Value IDE_mode_def sample_runner_def)
  from runner_confined [OF s] s show ?thesis by (auto simp: IDE_mode_def)
qed

text \<open>With the default options every container sees the sockets of all others: the directory of the invoker's sockets, which every
  container mounts, holds the runtime socket directories of all containers.\<close>

theorem runtime_sockets_exposed:
  assumes "GenerateRunnerConfig ver mode NewRunnerSpecOption dflt c = Value s"
  shows "\<exists>m \<in> set (Mounts_sp s). \<forall>other. Sprintf (RuntimeSocketPath_so NewRunnerSpecOption) other = Source_m m @ ''/'' @ other"
proof -
  have sp: "Sprintf ''/var/run/faas/%s'' other = ''/var/run/faas'' @ ''/'' @ other" for other
    by (simp add: Sprintf_def)
  have "\<exists>m \<in> set (Mounts_sp s). Source_m m = ''/var/run/faas''"
    using assms
    by (auto simp: GenerateRunnerConfig_def getCommonRunnerConfig_def getIDERunnerConfig_def Let_def with_resources_Value common_mounts_def
        ide_mounts_def bind_mount_def NewRunnerSpecOption_def split: if_splits)
  then obtain m where m: "m \<in> set (Mounts_sp s)" "Source_m m = ''/var/run/faas''" by blast
  show ?thesis by (rule bexI [OF _ m(1)]) (simp add: NewRunnerSpecOption_def m(2) sp)
qed

theorem runtime_sockets_exposed_witness:
  "\<exists>s. GenerateRunnerConfig ''1.0'' ''common'' NewRunnerSpecOption (Some empty_config) sample_runner = Value s \<and>
     (\<exists>m \<in> set (Mounts_sp s). Sprintf (RuntimeSocketPath_so NewRunnerSpecOption) ''b'' = Source_m m @ ''/b'')"
proof -
  obtain s where s: "GenerateRunnerConfig ''1.0'' ''common'' NewRunnerSpecOption (Some empty_config) sample_runner = Value s"
    by (auto simp: GenerateRunnerConfig_def getCommonRunnerConfig_def Let_def with_resources_Value IDE_mode_def sample_runner_def)
  from runtime_sockets_exposed [OF s] s show ?thesis by fastforce
qed

end
