(* ===== verification/FnCode.thy ===== *)
theory FnCode
  imports FnContainer
begin

text \<open>
  The code of functions on the node: fetching it (\<open>src/pkg/repository\<close>), checking and unpacking it (\<open>src/pkg/funclet/code\<close>, \<open>src/pkg/util/zip/unzip.go\<close>)
  and the cache that keeps it (\<open>prepareUserCode\<close> of \<open>src/pkg/funclet/warmup.go\<close>). File operations are a record of functions over the host; the
  digest of a file and the entries of an archive come from Go's libraries and are fields of that record.
\<close>

section \<open>Check sums\<close>

text \<open>\<open>base64.StdEncoding.DecodeString\<close> skips line ends and wants the padding; \<open>Base64ToHex\<close> prints the bytes in hexadecimal.\<close>

definition b64_value :: "char \<Rightarrow> nat option" where
  "b64_value c = (let n = (of_char c :: nat) in
     if 65 \<le> n \<and> n \<le> 90 then Some (n - 65) else if 97 \<le> n \<and> n \<le> 122 then Some (n - 71)
     else if 48 \<le> n \<and> n \<le> 57 then Some (n + 4) else if c = CHR ''+'' then Some 62 else if c = CHR ''/'' then Some 63 else None)"

fun b64_groups :: "string \<Rightarrow> nat list option" where
  "b64_groups [] = Some []"
| "b64_groups (a # b # c # d # r) = (case (b64_value a, b64_value b) of
     (Some w, Some x) \<Rightarrow>
       if c = CHR ''='' then (if d = CHR ''='' \<and> r = [] then Some [w * 4 + x div 16] else None)
       else (case b64_value c of
         None \<Rightarrow> None
       | Some y \<Rightarrow>
           if d = CHR ''='' then (if r = [] then Some [w * 4 + x div 16, (x mod 16) * 16 + y div 4] else None)
           else (case (b64_value d, b64_groups r) of
             (Some z, Some bs) \<Rightarrow> Some ((w * 4 + x div 16) # ((x mod 16) * 16 + y div 4) # ((y mod 4) * 64 + z) # bs)
           | _ \<Rightarrow> None))
   | _ \<Rightarrow> None)"
| "b64_groups _ = None"

definition b64_decode :: "string \<Rightarrow> nat list option" where
  "b64_decode s = b64_groups (filter (\<lambda>c. c \<noteq> CHR 0x0A \<and> c \<noteq> CHR 0x0D) s)"

definition hex_digit :: "nat \<Rightarrow> char" where
  "hex_digit n = char_of (if n < 10 then 48 + n else 87 + n)"

definition hex_of :: "nat list \<Rightarrow> string" where
  "hex_of bs = concat (map (\<lambda>b. [hex_digit (b div 16), hex_digit (b mod 16)]) bs)"

definition Base64ToHex :: "string \<Rightarrow> string option" where
  "Base64ToHex s = map_option hex_of (b64_decode s)"

section \<open>Repositories\<close>

record CodeStorage =
  Location :: string
  RepositoryType :: string

datatype repo_error = ErrUnsupportedMethod string | InvalidPathError string string | RepoError string

definition repo_Error :: "repo_error \<Rightarrow> string" where
  "repo_Error e = (case e of
     ErrUnsupportedMethod d \<Rightarrow> d @ '': unsupported method''
   | InvalidPathError p d \<Rightarrow> d @ '': invalid path: '' @ p
   | RepoError s \<Rightarrow> s)"

text \<open>An archive entry: its name, whether it is a directory and its contents.\<close>

record zip_entry =
  entry_name :: string
  entry_is_dir :: bool
  entry_data :: string

record 'h code_os =
  is_missing :: "string \<Rightarrow> 'h \<Rightarrow> bool"
  create_c :: "string \<Rightarrow> 'h action"
  remove_c :: "string \<Rightarrow> 'h action"
  mkdir_c :: "string \<Rightarrow> 'h action"
  read_c :: "string \<Rightarrow> ('h, string) call"
  overwrite_c :: "string \<Rightarrow> string \<Rightarrow> 'h action"
  write_c :: "string \<Rightarrow> string \<Rightarrow> 'h action"
  http_get_c :: "string \<Rightarrow> ('h, string) call"
  url_path_c :: "string \<Rightarrow> string option"
  sha256_c :: "string \<Rightarrow> string"
  zip_entries_c :: "string \<Rightarrow> string + zip_entry list"

definition isZip :: "string \<Rightarrow> bool" where
  "isZip buf \<longleftrightarrow> 3 < length buf \<and> buf ! 0 = CHR 0x50 \<and> buf ! 1 = CHR 0x4B \<and>
     (buf ! 2 = CHR 0x03 \<or> buf ! 2 = CHR 0x05 \<or> buf ! 2 = CHR 0x07) \<and> (buf ! 3 = CHR 0x04 \<or> buf ! 3 = CHR 0x06 \<or> buf ! 3 = CHR 0x08)"

definition path_Base :: "string \<Rightarrow> string" where
  "path_Base p = (if p = '''' then ''.'' else let q = trim_right (CHR ''/'') p; b = snd (path_Split q) in if b = '''' then ''/'' else b)"

definition DefaultBasePath :: string where "DefaultBasePath = ''/var/faas/tmp''"

definition base_path :: "string option \<Rightarrow> string" where
  "base_path p = (case p of None \<Rightarrow> DefaultBasePath | Some b \<Rightarrow> if b = '''' then DefaultBasePath else b)"

text \<open>The driver for local files copies over a file that is there without truncating it (\<open>overwrite_c\<close>); the header read is short when the file is.\<close>

definition filesystem_Fetch :: "'h code_os \<Rightarrow> string \<Rightarrow> string \<Rightarrow> ('h, string) call" where
  "filesystem_Fetch os basePath codeLocation h =
     (if is_missing os codeLocation h then (Inl (''stat '' @ codeLocation @ '': no such file or directory''), h)
      else case read_c os codeLocation h of
        (Inl e, h1) \<Rightarrow> (Inl e, h1)
      | (Inr data, h1) \<Rightarrow>
          if \<not> isZip (take 4 (data @ replicate 4 (CHR 0x00))) then (Inl (codeLocation @ '' is not a zip file''), h1)
          else let filename = path_Join basePath (path_Base codeLocation) in
            case mkdir_c os (path_Dir filename) h1 of
              (Some e, h2) \<Rightarrow> (Inl e, h2)
            | (None, h2) \<Rightarrow> (case overwrite_c os filename data h2 of
                (Some e, h3) \<Rightarrow> (Inl e, snd (remove_c os filename h3))
              | (None, h3) \<Rightarrow> (Inr filename, h3)))"

definition bos_Fetch :: "'h code_os \<Rightarrow> string \<Rightarrow> string \<Rightarrow> ('h, string) call" where
  "bos_Fetch os basePath codeLocation h = (case url_path_c os codeLocation of
     None \<Rightarrow> (Inl (repo_Error (InvalidPathError codeLocation ''bos'')), h)
   | Some escaped \<Rightarrow> let filename = path_Join basePath escaped in
       case mkdir_c os (path_Dir filename) h of
         (Some e, h1) \<Rightarrow> (Inl e, h1)
       | (None, h1) \<Rightarrow> (case http_get_c os codeLocation h1 of
           (Inl e, h2) \<Rightarrow> (Inl e, h2)
         | (Inr body, h2) \<Rightarrow> (case write_c os filename body h2 of
             (Some e, h3) \<Rightarrow> (Inl e, snd (remove_c os filename h3))
           | (None, h3) \<Rightarrow> (Inr filename, h3))))"

definition DriverBos :: string where "DriverBos = ''bos''"
definition DriverLocal :: string where "DriverLocal = ''filesystem''"

type_synonym 'h drivers = "string \<Rightarrow> (string \<Rightarrow> ('h, string) call) option"

definition NewManager :: "'h code_os \<Rightarrow> string \<Rightarrow> 'h drivers" where
  "NewManager os basePath = [DriverBos \<mapsto> bos_Fetch os (base_path (Some basePath)), DriverLocal \<mapsto> filesystem_Fetch os (base_path (Some basePath))]"

definition FetchCode :: "'h drivers \<Rightarrow> CodeStorage \<Rightarrow> ('h, string) call" where
  "FetchCode drivers code h = (let t = (if RepositoryType code = '''' then DriverBos else RepositoryType code) in
     case drivers t of
       None \<Rightarrow> (Inl (repo_Error (ErrUnsupportedMethod t)), h)
     | Some fetch \<Rightarrow> fetch (Location code) h)"

section \<open>Archives\<close>

definition mkdirAll :: "'h code_os \<Rightarrow> string \<Rightarrow> string \<Rightarrow> 'h \<Rightarrow> (bool \<times> string) option \<times> 'h" where
  "mkdirAll os fDir target h =
     (if \<not> HasPrefix fDir target then (Some (True, ''unzip cross border''), h)
      else map_prod (map_option (Pair False)) id (mkdir_c os fDir h))"

text \<open>The first component of the error of \<open>mkdirAll\<close> says that it is \<open>UnzipError\<close>; such an entry is left out.\<close>

fun unzip_entries :: "'h code_os \<Rightarrow> string \<Rightarrow> zip_entry list \<Rightarrow> 'h action" where
  "unzip_entries os target [] h = (None, h)"
| "unzip_entries os target (e # es) h = (let fPath = path_Join target (entry_name e) in
     if entry_is_dir e then unzip_entries os target es (snd (mkdirAll os fPath target h))
     else let fDir = path_Dir fPath in
       case (if fDir \<noteq> target then mkdirAll os fDir target h else (None, h)) of
         (Some (True, _), h1) \<Rightarrow> unzip_entries os target es h1
       | (Some (False, err), h1) \<Rightarrow> (Some err, h1)
       | (None, h1) \<Rightarrow> (case write_c os fPath (entry_data e) h1 of
           (Some err, h2) \<Rightarrow> (Some err, h2)
         | (None, h2) \<Rightarrow> unzip_entries os target es h2))"

definition unzip_to :: "'h code_os \<Rightarrow> zip_entry list \<Rightarrow> string \<Rightarrow> 'h action" where
  "unzip_to os entries target h = (case mkdir_c os target h of
     (Some e, h1) \<Rightarrow> (Some e, h1)
   | (None, h1) \<Rightarrow> unzip_entries os target entries h1)"

definition Unzip :: "'h code_os \<Rightarrow> string \<Rightarrow> string \<Rightarrow> 'h action" where
  "Unzip os archive target h =
     (if \<not> is_abs archive \<or> \<not> is_abs target then (Some ''archive and target path is not absolute'', h)
      else case read_c os archive h of
        (Inl e, h1) \<Rightarrow> (Some e, h1)
      | (Inr data, h1) \<Rightarrow> (case zip_entries_c os data of
          Inl e \<Rightarrow> (Some e, h1)
        | Inr entries \<Rightarrow> unzip_to os entries target h1))"

section \<open>The code manager\<close>

definition getCompleteTag :: "string \<Rightarrow> string \<Rightarrow> string" where
  "getCompleteTag path codeSha256 = path_Join path (codeSha256 @ ''.COMPLETE'')"

definition FindCodeCompeleteTag :: "'h code_os \<Rightarrow> string \<Rightarrow> string \<Rightarrow> 'h \<Rightarrow> bool" where
  "FindCodeCompeleteTag os path sha h = (\<not> is_missing os (getCompleteTag path sha) h)"

definition CreateCodeCompeleteTag :: "'h code_os \<Rightarrow> string \<Rightarrow> string \<Rightarrow> 'h action" where
  "CreateCodeCompeleteTag os path sha = create_c os (getCompleteTag path sha)"

definition RemoveCodeCompeleteTag :: "'h code_os \<Rightarrow> string \<Rightarrow> string \<Rightarrow> 'h action" where
  "RemoveCodeCompeleteTag os path sha = remove_c os (getCompleteTag path sha)"

definition FindCode :: "'h code_os \<Rightarrow> string \<Rightarrow> string \<Rightarrow> 'h \<Rightarrow> bool" where
  "FindCode os path sha h = (\<not> is_missing os (path_Join path sha) h)"

definition calSHA256 :: "'h code_os \<Rightarrow> string \<Rightarrow> ('h, string) call" where
  "calSHA256 os filename h = map_prod (map_sum id (sha256_c os)) id (read_c os filename h)"

definition CheckCode :: "'h code_os \<Rightarrow> string \<Rightarrow> string \<Rightarrow> 'h \<Rightarrow> bool \<times> 'h" where
  "CheckCode os filename codeSha256 h = (case calSHA256 os filename h of
     (Inl _, h1) \<Rightarrow> (False, h1)
   | (Inr s, h1) \<Rightarrow> (s = codeSha256, h1))"

definition UnzipCode :: "'h code_os \<Rightarrow> string \<Rightarrow> string \<Rightarrow> 'h action" where
  "UnzipCode os filename target = Unzip os filename target"

section \<open>The code cache\<close>

definition GetUserCodePath :: "string \<Rightarrow> string \<Rightarrow> string" where
  "GetUserCodePath cachePath codeSha256 = path_Join cachePath codeSha256"

text \<open>The part of \<open>prepareUserCode\<close> after the channel: look into the cache, else fetch, check, unpack and mark.\<close>

definition prepare_code :: "'h code_os \<Rightarrow> 'h drivers \<Rightarrow> string \<Rightarrow> CodeStorage \<Rightarrow> string \<Rightarrow> string \<Rightarrow> ('h, string) call" where
  "prepare_code os drivers cachePath code codeSha256 hexCodeSha256 h =
     (let destination = GetUserCodePath cachePath hexCodeSha256 in
      if FindCode os cachePath hexCodeSha256 h \<and> FindCodeCompeleteTag os cachePath hexCodeSha256 h then (Inr destination, h)
      else case FetchCode drivers code h of
        (Inl e, h1) \<Rightarrow> (Inl e, h1)
      | (Inr zipFilePath, h1) \<Rightarrow> map_prod id (\<lambda>g. snd (remove_c os zipFilePath g)) (case CheckCode os zipFilePath codeSha256 h1 of
          (False, h2) \<Rightarrow> (Inl ''CodeSha256 checksum failed'', h2)
        | (True, h2) \<Rightarrow> (case UnzipCode os zipFilePath destination h2 of
            (Some e, h3) \<Rightarrow> (Inl e, h3)
          | (None, h3) \<Rightarrow> (case CreateCodeCompeleteTag os cachePath hexCodeSha256 h3 of
              (Some e, h4) \<Rightarrow> (Inl e, h4)
            | (None, h4) \<Rightarrow> (Inr destination, h4)))))"

text \<open>The whole operation. The first to ask for a code holds its channel and closes it at the end; the others wait for that.
  \<open>wait\<close> is what the rest of the program does to the channels and the host until then.\<close>

definition prepareUserCode :: "'h code_os \<Rightarrow> 'h drivers \<Rightarrow> (nat \<Rightarrow> HandlingChanMap \<times> 'h \<Rightarrow> HandlingChanMap \<times> 'h) \<Rightarrow> string \<Rightarrow> CodeStorage \<Rightarrow> string \<Rightarrow> string \<Rightarrow>
    HandlingChanMap \<times> 'h \<Rightarrow> (string + string) \<times> HandlingChanMap \<times> 'h" where
  "prepareUserCode os drivers wait cachePath code codeSha256 hexCodeSha256 = (\<lambda>(m, h). case GetChan hexCodeSha256 m of
     ((c, True), m1) \<Rightarrow> (case prepare_code os drivers cachePath code codeSha256 hexCodeSha256 h of (r, h1) \<Rightarrow> (r, CloseChan hexCodeSha256 m1, h1))
   | ((c, False), m1) \<Rightarrow> (case wait c (m1, h) of (m2, h1) \<Rightarrow>
       (case prepare_code os drivers cachePath code codeSha256 hexCodeSha256 h1 of (r, h2) \<Rightarrow> (r, m2, h2))))"

section \<open>Only checked code is unpacked\<close>

lemma prepare_code_Inr:
  assumes "prepare_code os drivers cachePath code codeSha256 hex h = (Inr d, h')"
  obtains (cached) "FindCode os cachePath hex h" "FindCodeCompeleteTag os cachePath hex h" "d = GetUserCodePath cachePath hex" "h' = h"
    | (fetched) zip h1 data h2 h3 h4 where "FetchCode drivers code h = (Inr zip, h1)" "read_c os zip h1 = (Inr data, h2)" "sha256_c os data = codeSha256"
        "UnzipCode os zip (GetUserCodePath cachePath hex) h2 = (None, h3)" "CreateCodeCompeleteTag os cachePath hex h3 = (None, h4)"
        "h' = snd (remove_c os zip h4)" "d = GetUserCodePath cachePath hex"
proof (cases "FindCode os cachePath hex h \<and> FindCodeCompeleteTag os cachePath hex h")
  case True
  with assms show thesis by (intro cached) (simp_all add: prepare_code_def)
next
  case False
  note run = assms [unfolded prepare_code_def Let_def if_not_P [OF False]]
  obtain x h1 where f: "FetchCode drivers code h = (x, h1)" by fastforce
  obtain zip where x: "x = Inr zip" using run f by (cases x) simp_all
  obtain y h2 where r: "read_c os zip h1 = (y, h2)" by fastforce
  note run1 = run [unfolded f x prod.case sum.case CheckCode_def calSHA256_def r]
  obtain data where y: "y = Inr data" using run1 by (cases y) simp_all
  have s: "sha256_c os data = codeSha256" using run1 y by (cases "sha256_c os data = codeSha256") simp_all
  obtain e3 h3 where u: "UnzipCode os zip (GetUserCodePath cachePath hex) h2 = (e3, h3)" by fastforce
  have e3: "e3 = None" using run1 y s u by (cases e3) simp_all
  obtain e4 h4 where c: "CreateCodeCompeleteTag os cachePath hex h3 = (e4, h4)" by fastforce
  have e4: "e4 = None" using run1 y s u e3 c by (cases e4) simp_all
  show thesis by (rule fetched [of zip h1 data h2 h3 h4]) (use run1 f x r y s u e3 c e4 in simp_all)
qed

text \<open>The host in which \<open>prepareUserCode\<close> starts to look: at once for the first that asks for the code, after the wait for the others.\<close>

definition host_then :: "(nat \<Rightarrow> HandlingChanMap \<times> 'h \<Rightarrow> HandlingChanMap \<times> 'h) \<Rightarrow> string \<Rightarrow> HandlingChanMap \<Rightarrow> 'h \<Rightarrow> 'h" where
  "host_then wait hex m h = (case chans m hex of None \<Rightarrow> h | Some c \<Rightarrow> snd (wait c (m, h)))"

lemma prepareUserCode_prepare:
  assumes "prepareUserCode os drivers wait cachePath code codeSha256 hex (m, h) = (r, m', h')"
  shows "prepare_code os drivers cachePath code codeSha256 hex (host_then wait hex m h) = (r, h')"
  using assms by (auto simp: prepareUserCode_def GetChan_def host_then_def split: prod.splits option.splits)

text \<open>C13: A warm-up uses code only when it came with the expected SHA-256 digest: \<open>prepareUserCode\<close> succeeds only with the cache directory of
  that digest, and then the complete tag of the digest was there when it looked, or it fetched an archive with exactly that digest and unpacked it.\<close>

theorem code_verified:
  assumes "prepareUserCode os drivers wait cachePath code codeSha256 hex (m, h) = (Inr d, m', h')"
  defines "g \<equiv> host_then wait hex m h"
  shows "d = path_Join cachePath hex \<and> (FindCodeCompeleteTag os cachePath hex g \<or>
    (\<exists>zip g1 data g2 g3. FetchCode drivers code g = (Inr zip, g1) \<and> read_c os zip g1 = (Inr data, g2) \<and> sha256_c os data = codeSha256 \<and>
      UnzipCode os zip d g2 = (None, g3)))"
proof -
  from prepareUserCode_prepare [OF assms(1)] show ?thesis
  proof (cases rule: prepare_code_Inr)
    case cached
    then show ?thesis by (simp add: g_def GetUserCodePath_def)
  next
    case (fetched zip h1 data h2 h3 h4)
    then show ?thesis unfolding g_def GetUserCodePath_def by blast
  qed
qed

section \<open>The cache\<close>

text \<open>What the file system promises: what is made is there, and stays there until it is removed.\<close>

definition files_persist :: "'h code_os \<Rightarrow> bool" where
  "files_persist os \<longleftrightarrow>
     (\<forall>p h h'. create_c os p h = (None, h') \<longrightarrow> \<not> is_missing os p h') \<and>
     (\<forall>p h h'. mkdir_c os p h = (None, h') \<longrightarrow> \<not> is_missing os p h') \<and>
     (\<forall>p q h. \<not> is_missing os q h \<longrightarrow> \<not> is_missing os q (snd (create_c os p h)) \<and> \<not> is_missing os q (snd (mkdir_c os p h))) \<and>
     (\<forall>p q d h. \<not> is_missing os q h \<longrightarrow> \<not> is_missing os q (snd (write_c os p d h)) \<and> \<not> is_missing os q (snd (read_c os p h))) \<and>
     (\<forall>p q h. p \<noteq> q \<longrightarrow> \<not> is_missing os q h \<longrightarrow> \<not> is_missing os q (snd (remove_c os p h)))"

lemma files_persistD:
  assumes "files_persist os"
  shows "create_c os p h = (None, h') \<Longrightarrow> \<not> is_missing os p h'"
    and "mkdir_c os p h = (None, h') \<Longrightarrow> \<not> is_missing os p h'"
    and "\<not> is_missing os q h \<Longrightarrow> create_c os p h = (r1, h') \<Longrightarrow> \<not> is_missing os q h'"
    and "\<not> is_missing os q h \<Longrightarrow> mkdir_c os p h = (r2, h') \<Longrightarrow> \<not> is_missing os q h'"
    and "\<not> is_missing os q h \<Longrightarrow> write_c os p d h = (r3, h') \<Longrightarrow> \<not> is_missing os q h'"
    and "\<not> is_missing os q h \<Longrightarrow> read_c os p h = (r4, h') \<Longrightarrow> \<not> is_missing os q h'"
    and "p \<noteq> q \<Longrightarrow> \<not> is_missing os q h \<Longrightarrow> \<not> is_missing os q (snd (remove_c os p h))"
  using assms unfolding files_persist_def by (auto dest: spec) (metis snd_conv)+

text \<open>What unpacking keeps: a property of the host that making and writing files below the target keep.\<close>

lemma unzip_entries_keeps:
  assumes "\<And>e h. e \<in> set es \<Longrightarrow> entry_is_dir e \<Longrightarrow> I h \<Longrightarrow> I (snd (mkdirAll os (path_Join target (entry_name e)) target h))"
    and "\<And>e h. e \<in> set es \<Longrightarrow> I h \<Longrightarrow> I (snd (mkdirAll os (path_Dir (path_Join target (entry_name e))) target h))"
    and "\<And>e h. e \<in> set es \<Longrightarrow> path_Dir (path_Join target (entry_name e)) = target \<or> HasPrefix (path_Dir (path_Join target (entry_name e))) target \<Longrightarrow> I h \<Longrightarrow>
      I (snd (write_c os (path_Join target (entry_name e)) (entry_data e) h))"
    and "I h"
  shows "I (snd (unzip_entries os target es h))"
  using assms
proof (induction es arbitrary: h)
  case (Cons e es)
  let ?p = "path_Join target (entry_name e)" and ?w = "\<lambda>g. write_c os (path_Join target (entry_name e)) (entry_data e) g"
  have IH: "I (snd (unzip_entries os target es g))" if "I g" for g
    using Cons.IH [of g] Cons.prems(1-3) that by simp
  show ?case
  proof (cases "entry_is_dir e")
    case True
    then show ?thesis using IH Cons.prems(1) [of e] Cons.prems(4) by (simp add: Let_def)
  next
    case False
    let ?m = "if path_Dir ?p \<noteq> target then mkdirAll os (path_Dir ?p) target h else (None, h)"
    obtain r h1 where m: "?m = (r, h1)" by fastforce
    have h1: "I h1" using m Cons.prems(2) [of e h] Cons.prems(4) by (cases "path_Dir ?p = target") (auto simp: eq_snd_iff)
    show ?thesis
    proof (cases r)
      case None
      have "path_Dir ?p = target \<or> HasPrefix (path_Dir ?p) target"
        using m None by (auto simp: mkdirAll_def split: if_splits)
      then have w: "I (snd (?w h1))" using Cons.prems(3) [of e h1] h1 by simp
      show ?thesis
        using w IH by (cases "?w h1"; cases "fst (?w h1)") (simp_all add: Let_def False m None)
    next
      case (Some x)
      then show ?thesis using h1 IH by (cases x; cases "fst x") (simp_all add: Let_def False m)
    qed
  qed
qed simp

lemma prefix_dir:
  assumes "is_abs t" "path_Dir (path_Join t n) = t \<or> HasPrefix (path_Dir (path_Join t n)) t"
  shows "HasPrefix (path_Join t n) t"
proof -
  obtain ps where ps: "path_Join t n = abs_path ps" "list_all proper_name ps" using path_Join_abs [OF assms(1)] .
  have "HasPrefix (abs_path ps) (path_Dir (abs_path ps))"
  proof (cases ps rule: rev_cases)
    case Nil
    then show ?thesis by (simp add: abs_path_def path_Dir_def path_Split_def path_Clean_def clean_step_def HasPrefix_def)
  next
    case (snoc qs q)
    then have "path_Dir (abs_path ps) = abs_path qs" using path_Dir_abs ps(2) by simp
    then show ?thesis using snoc by (cases "qs = []") (auto simp: abs_path_def HasPrefix_iff join_with_snoc)
  qed
  then show ?thesis using assms(2) ps(1) by (auto simp: HasPrefix_iff)
qed

text \<open>C24: Unpacking an archive, whatever the names of its entries, makes and writes only files whose path begins with the text of the target:
  every property of the host that such operations keep is kept. In particular an entry cannot reach a path like \<open>/etc/passwd\<close> by climbing up.\<close>

theorem unzip_stays_below:
  assumes "is_abs target"
    and "\<And>p h. HasPrefix p target \<Longrightarrow> I h \<Longrightarrow> I (snd (mkdir_c os p h))" "\<And>p d h. HasPrefix p target \<Longrightarrow> I h \<Longrightarrow> I (snd (write_c os p d h))"
    and "\<And>p h. I h \<Longrightarrow> I (snd (read_c os p h))" "I h"
  shows "I (snd (Unzip os archive target h))"
proof -
  have step: "I (snd (mkdirAll os p target g))" if "I g" for p g
    using that assms(2) by (simp add: mkdirAll_def)
  have entries: "I (snd (unzip_entries os target es g))" if "I g" for es g
  proof (rule unzip_entries_keeps)
    fix e and h :: 'a
    assume *: "path_Dir (path_Join target (entry_name e)) = target \<or> HasPrefix (path_Dir (path_Join target (entry_name e))) target" "I h"
    show "I (snd (write_c os (path_Join target (entry_name e)) (entry_data e) h))"
      using prefix_dir [OF assms(1) *(1)] assms(3) *(2) by blast
  qed (use that step in simp_all)
  have t: "HasPrefix target target" by (simp add: HasPrefix_def)
  obtain r h1 where r: "read_c os archive h = (r, h1)" by fastforce
  have h1: "I h1" using assms(4,5) r by (metis snd_conv)
  obtain e h2 where m: "mkdir_c os target h1 = (e, h2)" by fastforce
  have h2: "I h2" using assms(2) [OF t h1] m by simp
  show ?thesis
    using assms(5) h1 h2 entries m by (auto simp: Unzip_def r unzip_to_def split: sum.splits option.splits)
qed

text \<open>A file system that only keeps the paths that were made, newest first; every archive has the one entry \<open>../abc/x\<close>.\<close>

definition log_os :: "string list code_os" where
  "log_os = \<lparr>is_missing = (\<lambda>p h. p \<notin> set h), create_c = (\<lambda>p h. (None, p # h)), remove_c = (\<lambda>p h. (None, removeAll p h)), mkdir_c = (\<lambda>p h. (None, p # h)),
     read_c = (\<lambda>p h. (Inr p, h)), overwrite_c = (\<lambda>p d h. (None, p # h)), write_c = (\<lambda>p d h. (None, p # h)), http_get_c = (\<lambda>u h. (Inr u, h)),
     url_path_c = Some, sha256_c = id, zip_entries_c = (\<lambda>d. Inr [\<lparr>entry_name = ''../abc/x'', entry_is_dir = False, entry_data = d\<rparr>])\<rparr>"

text \<open>The text of the target is all that is compared. An archive for the directory \<open>/cache/ab\<close> can write into its sibling \<open>/cache/abc\<close>, because
  the path of that one begins with the same characters.\<close>

theorem unzip_reaches_sibling:
  "Unzip log_os ''/tmp/a.zip'' ''/cache/ab'' [] = (None, [''/cache/abc/x'', ''/cache/abc'', ''/cache/ab''])"
  by code_simp

theorem unzip_stays_below_witness:
  "list_all (\<lambda>p. HasPrefix p ''/cache/ab'') (snd (Unzip log_os ''/tmp/a.zip'' ''/cache/ab'' []))"
  by (rule unzip_stays_below [of _ "list_all (\<lambda>p. HasPrefix p ''/cache/ab'')"]) (simp_all add: log_os_def is_abs_def HasPrefix_def)

lemma log_os_persist: "files_persist log_os"
  by (auto simp: files_persist_def log_os_def)

text \<open>Code that has been prepared stays prepared: once \<open>prepareUserCode\<close> has succeeded, a second call finds the code in the cache and neither
  fetches nor changes anything, provided that files stay where they are and the downloaded file is not the directory or the tag itself.\<close>

theorem prepared_code_is_cached:
  assumes "files_persist os"
    and "prepare_code os drivers cachePath code codeSha256 hex h = (Inr d, h1)"
    and "\<And>zip g. FetchCode drivers code h = (Inr zip, g) \<Longrightarrow> zip \<noteq> path_Join cachePath hex \<and> zip \<noteq> getCompleteTag cachePath hex"
  shows "prepare_code os drivers' cachePath code' codeSha256' hex h1 = (Inr d, h1)"
  using assms(2)
proof (cases rule: prepare_code_Inr)
  case cached
  then show ?thesis by (simp add: prepare_code_def Let_def)
next
  case (fetched zip h2 data h3 h4 h5)
  note keep = files_persistD [OF assms(1)]
  let ?dir = "GetUserCodePath cachePath hex" and ?tag = "getCompleteTag cachePath hex"
  obtain r g where r: "read_c os zip h3 = (r, g)" by fastforce
  obtain es where es: "r = Inr es" using fetched(4) r by (cases r) (auto simp: UnzipCode_def Unzip_def split: if_splits)
  obtain entries where en: "zip_entries_c os es = Inr entries"
    using fetched(4) r es by (cases "zip_entries_c os es") (auto simp: UnzipCode_def Unzip_def split: if_splits)
  obtain e g1 where m: "mkdir_c os ?dir g = (e, g1)" by fastforce
  have e: "e = None" and u: "unzip_entries os ?dir entries g1 = (None, h4)"
    using fetched(4) r es en m by (cases e; auto simp: UnzipCode_def Unzip_def unzip_to_def split: if_splits)+
  have "\<not> is_missing os ?dir g1" using keep(2) m e by blast
  then have "\<not> is_missing os ?dir (snd (unzip_entries os ?dir entries g1))"
  proof (rule unzip_entries_keeps [rotated 3])
    have mk: "\<not> is_missing os ?dir (snd (mkdir_c os p g))" if "\<not> is_missing os ?dir g" for p g
      using keep(4) [OF that] by (metis prod.collapse)
    show "\<not> is_missing os ?dir (snd (mkdirAll os p ?dir g))" if "\<not> is_missing os ?dir g" for p g
      using mk that by (simp add: mkdirAll_def)
    then show "\<not> is_missing os ?dir (snd (mkdirAll os p ?dir g))" if "\<not> is_missing os ?dir g" for p g
      using that .
    show "\<not> is_missing os ?dir (snd (write_c os p d g))" if "\<not> is_missing os ?dir g" for p d g
      using keep(5) [OF that] by (metis prod.collapse)
  qed
  then have dir: "\<not> is_missing os ?dir h4" using u by simp
  have tag: "\<not> is_missing os ?tag h5" using keep(1) fetched(5) by (simp add: CreateCodeCompeleteTag_def)
  have dir5: "\<not> is_missing os ?dir h5" using keep(3) dir fetched(5) by (simp add: CreateCodeCompeleteTag_def)
  have "zip \<noteq> ?dir" "zip \<noteq> ?tag" using assms(3) [OF fetched(1)] by (simp_all add: GetUserCodePath_def)
  then have "\<not> is_missing os ?dir h1" "\<not> is_missing os ?tag h1"
    unfolding fetched(6) using keep(7) dir5 tag by blast+
  then show ?thesis
    using fetched(7) by (simp add: prepare_code_def Let_def FindCode_def FindCodeCompeleteTag_def GetUserCodePath_def)
qed

definition made_files :: "string list" where
  "made_files = [''/cache/ab.COMPLETE'', ''/cache/abc/x'', ''/cache/abc'', ''/cache/ab'', ''/var/faas/tmp/f'']"

lemma sample_prepare: "prepare_code log_os (NewManager log_os '''') ''/cache'' \<lparr>Location = ''/f/a'', RepositoryType = ''bos''\<rparr> ''/var/faas/tmp/f/a'' ''ab'' [] =
  (Inr ''/cache/ab'', made_files)"
  by code_simp

theorem prepared_code_is_cached_witness:
  "prepare_code log_os (NewManager log_os '''') ''/cache'' \<lparr>Location = ''/f/a'', RepositoryType = ''bos''\<rparr> ''/var/faas/tmp/f/a'' ''ab'' [] =
     (Inr ''/cache/ab'', made_files) \<and>
   prepare_code log_os (NewManager log_os '''') ''/cache'' \<lparr>Location = ''/f/a'', RepositoryType = ''bos''\<rparr> ''/var/faas/tmp/f/a'' ''ab'' made_files =
     (Inr ''/cache/ab'', made_files)"
proof -
  let ?d = "NewManager log_os ''''" and ?c = "\<lparr>Location = ''/f/a'', RepositoryType = ''bos''\<rparr>"
  note 1 = sample_prepare
  have f: "FetchCode ?d ?c [] = (Inr ''/var/faas/tmp/f/a'', [''/var/faas/tmp/f/a'', ''/var/faas/tmp/f''])" by code_simp
  have n: "''/var/faas/tmp/f/a'' \<noteq> path_Join ''/cache'' ''ab''" "''/var/faas/tmp/f/a'' \<noteq> getCompleteTag ''/cache'' ''ab''" by code_simp+
  show ?thesis
    using 1 prepared_code_is_cached [OF log_os_persist 1, of ?d ?c "''/var/faas/tmp/f/a''"] f n by simp
qed

theorem code_verified_witness:
  "path_Join ''/cache'' ''ab'' = ''/cache/ab'' \<and>
   (\<exists>m h. prepareUserCode log_os (NewManager log_os '''') (\<lambda>_ s. s) ''/cache'' \<lparr>Location = ''/f/a'', RepositoryType = ''bos''\<rparr> ''/var/faas/tmp/f/a'' ''ab'' (NewHandlingChanMap, []) =
     (Inr ''/cache/ab'', m, h))"
proof -
  let ?d = "NewManager log_os ''''" and ?c = "\<lparr>Location = ''/f/a'', RepositoryType = ''bos''\<rparr>"
  have 1: "prepareUserCode log_os ?d (\<lambda>_ s. s) ''/cache'' ?c ''/var/faas/tmp/f/a'' ''ab'' (NewHandlingChanMap, []) =
      (Inr ''/cache/ab'', CloseChan ''ab'' (snd (GetChan ''ab'' NewHandlingChanMap)), made_files)"
    by (simp add: prepareUserCode_def GetChan_def NewHandlingChanMap_def sample_prepare)
  have "''/cache/ab'' = path_Join ''/cache'' ''ab''" using code_verified [OF 1] by (rule conjunct1)
  then show ?thesis using 1 by metis
qed

section \<open>Waiting for a code\<close>

text \<open>The calls of \<open>prepareUserCode\<close> that are under way: the masters with their code and channel, and those that wait for a channel.\<close>

record code_calls =
  chan_map :: HandlingChanMap
  masters :: "nat \<rightharpoonup> string"
  waiting :: "nat \<rightharpoonup> nat"

inductive code_step :: "code_calls \<Rightarrow> code_calls \<Rightarrow> bool" where
  leads: "masters s p = None \<Longrightarrow> waiting s p = None \<Longrightarrow> GetChan key (chan_map s) = ((c, True), m) \<Longrightarrow>
    code_step s (s\<lparr>chan_map := m, masters := (masters s)(p \<mapsto> key)\<rparr>)"
| waits: "masters s p = None \<Longrightarrow> waiting s p = None \<Longrightarrow> GetChan key (chan_map s) = ((c, False), m) \<Longrightarrow>
    code_step s (s\<lparr>chan_map := m, waiting := (waiting s)(p \<mapsto> c)\<rparr>)"
| closes: "masters s p = Some key \<Longrightarrow> code_step s (s\<lparr>chan_map := CloseChan key (chan_map s), masters := (masters s)(p := None)\<rparr>)"
| wakes: "waiting s p = Some c \<Longrightarrow> c \<in> closed_chans (chan_map s) \<Longrightarrow> code_step s (s\<lparr>waiting := (waiting s)(p := None)\<rparr>)"

definition calls_ok :: "code_calls \<Rightarrow> bool" where
  "calls_ok s \<longleftrightarrow>
     (\<forall>key. chans (chan_map s) key \<noteq> None \<longleftrightarrow> (\<exists>p. masters s p = Some key)) \<and>
     (\<forall>p q key. masters s p = Some key \<and> masters s q = Some key \<longrightarrow> p = q) \<and>
     (\<forall>p c. waiting s p = Some c \<longrightarrow> c \<in> closed_chans (chan_map s) \<or> (\<exists>key. chans (chan_map s) key = Some c))"

lemma calls_okI:
  assumes "chan_map s = m" "masters s = ms" "waiting s = ws" "\<And>key. chans m key \<noteq> None \<longleftrightarrow> (\<exists>p. ms p = Some key)"
    and "\<And>p q key. ms p = Some key \<Longrightarrow> ms q = Some key \<Longrightarrow> p = q"
    and "\<And>p c. ws p = Some c \<Longrightarrow> c \<in> closed_chans m \<or> (\<exists>key. chans m key = Some c)"
  shows "calls_ok s"
  using assms unfolding calls_ok_def by blast

definition no_calls :: code_calls where
  "no_calls = \<lparr>chan_map = NewHandlingChanMap, masters = Map.empty, waiting = Map.empty\<rparr>"

lemma calls_ok_start: "calls_ok no_calls"
  by (simp add: calls_ok_def no_calls_def NewHandlingChanMap_def)

lemma code_step_ok: "code_step s s' \<Longrightarrow> calls_ok s \<Longrightarrow> calls_ok s'"
proof (induction rule: code_step.induct)
  case (leads s p key c m)
  then have m: "chans (chan_map s) key = None" "m = (chan_map s)\<lparr>chans := (chans (chan_map s))(key \<mapsto> c), fresh_chan := Suc (fresh_chan (chan_map s))\<rparr>"
    by (auto simp: GetChan_def split: option.splits)
  note ok = leads(4) [unfolded calls_ok_def]
  have fresh: "masters s q \<noteq> Some key" for q using ok m(1) by metis
  have chans_m: "chans m k \<noteq> None \<longleftrightarrow> (\<exists>q. ((masters s)(p \<mapsto> key)) q = Some k)" for k
  proof (cases "k = key")
    case False
    have "(\<exists>q. ((masters s)(p \<mapsto> key)) q = Some k) \<longleftrightarrow> (\<exists>q. masters s q = Some k)"
      using False leads(1) by (metis fun_upd_other fun_upd_same option.distinct(1) option.inject)
    then show ?thesis using False ok m(2) by simp
  qed (auto simp: m(2))

  have B: "q = r" if "((masters s)(p \<mapsto> key)) q = Some k" "((masters s)(p \<mapsto> key)) r = Some k" for q r k
    using that fresh ok by (metis fun_upd_apply option.inject)
  have C: "w \<in> closed_chans m \<or> (\<exists>k. chans m k = Some w)" if "waiting s q = Some w" for q w
  proof -
    from that ok consider "w \<in> closed_chans (chan_map s)" | k where "chans (chan_map s) k = Some w" by blast
    then show ?thesis
    proof cases
      case (2 k)
      then have "k \<noteq> key" using m(1) by auto
      then have "chans m k = Some w" using 2 m(2) by simp
      then show ?thesis by blast
    qed (simp add: m(2))
  qed
  show ?case
    by (rule calls_okI [of _ m "(masters s)(p \<mapsto> key)" "waiting s", OF _ _ _ chans_m B C]) simp_all
next
  case (waits s p key c m)
  then have "chans (chan_map s) key = Some c" "m = chan_map s" by (auto simp: GetChan_def split: option.splits)
  then show ?case using waits(1,4) unfolding calls_ok_def by auto
next
  case (closes s p key)
  note ok = closes(2) [unfolded calls_ok_def]
  obtain c where c: "chans (chan_map s) key = Some c" using ok closes(1) by (metis option.exhaust)
  let ?m = "CloseChan key (chan_map s)" and ?ms = "(masters s)(p := None)"
  have m: "?m = (chan_map s)\<lparr>chans := (chans (chan_map s))(key := None), closed_chans := insert c (closed_chans (chan_map s))\<rparr>"
    by (simp add: CloseChan_def c)
  have only: "masters s q = Some key \<longleftrightarrow> q = p" for q using ok closes(1) by metis
  have A: "chans ?m k \<noteq> None \<longleftrightarrow> (\<exists>q. ?ms q = Some k)" for k
  proof (cases "k = key")
    case False
    then have "(\<exists>q. ?ms q = Some k) \<longleftrightarrow> (\<exists>q. masters s q = Some k)"
      using closes(1) by (metis fun_upd_other fun_upd_same option.distinct(1) option.inject)
    then show ?thesis using False ok m by simp
  qed (use only m in auto)
  have B: "q = r" if "?ms q = Some k" "?ms r = Some k" for q r k
    using that ok by (metis fun_upd_apply option.distinct(1))
  have C: "w \<in> closed_chans ?m \<or> (\<exists>k. chans ?m k = Some w)" if "waiting s q = Some w" for q w
  proof -
    from that ok consider "w \<in> closed_chans (chan_map s)" | k where "chans (chan_map s) k = Some w" by blast
    then show ?thesis
    proof cases
      case (2 k)
      then show ?thesis using c m by (cases "k = key") auto
    qed (simp add: m)
  qed
  show ?case
    by (rule calls_okI [of _ ?m ?ms "waiting s", OF _ _ _ A B C]) simp_all
next
  case (wakes s p c)
  then show ?case by (auto simp: calls_ok_def)
qed

text \<open>At any time at most one call fetches a given code on behalf of the others, and nobody waits in vain: when no such call is under way,
  every call that waits finds its channel closed and goes on.\<close>

theorem waiters_are_released:
  assumes "code_step\<^sup>*\<^sup>* no_calls s" "masters s = Map.empty" "waiting s p = Some c"
  shows "code_step s (s\<lparr>waiting := (waiting s)(p := None)\<rparr>)"
proof -
  have "calls_ok s" using assms(1) by (induction rule: rtranclp_induct) (auto intro: calls_ok_start code_step_ok)
  then have "c \<in> closed_chans (chan_map s)" using assms(2,3) by (auto simp: calls_ok_def)
  then show ?thesis using assms(3) by (rule code_step.wakes [rotated])
qed

theorem waiters_are_released_witness:
  "\<exists>s c. code_step\<^sup>*\<^sup>* no_calls s \<and> waiting s 1 = Some c \<and> code_step s (s\<lparr>waiting := (waiting s)(1 := None)\<rparr>)"
proof -
  let ?m1 = "snd (GetChan ''k'' NewHandlingChanMap)"
  let ?s1 = "no_calls\<lparr>chan_map := ?m1, masters := [0 \<mapsto> ''k'']\<rparr>"
  let ?s2 = "?s1\<lparr>waiting := [1 \<mapsto> 0]\<rparr>"
  let ?s3 = "?s2\<lparr>chan_map := CloseChan ''k'' ?m1, masters := Map.empty\<rparr>"
  have "code_step no_calls ?s1"
    using code_step.leads [of no_calls 0 "''k''" 0 ?m1] by (simp add: no_calls_def GetChan_def NewHandlingChanMap_def)
  moreover have "code_step ?s1 ?s2"
    using code_step.waits [of ?s1 1 "''k''" 0 ?m1] by (simp add: no_calls_def GetChan_def NewHandlingChanMap_def)
  moreover have "code_step ?s2 ?s3"
    using code_step.closes [of ?s2 0 "''k''"] by simp
  ultimately have run: "code_step\<^sup>*\<^sup>* no_calls ?s3" by (meson r_into_rtranclp rtranclp_trans)
  have "code_step ?s3 (?s3\<lparr>waiting := (waiting ?s3)(1 := None)\<rparr>)"
    by (rule waiters_are_released [OF run]) simp_all
  with run show ?thesis by (intro exI [of _ ?s3] exI [of _ 0]) simp
qed

end
