(* ===== verification/Funclet.thy ===== *)
theory Funclet
  imports FnTmp FnNetwork FnRunner FnCode
begin

text \<open>
  The funclet's events: starting, warming up and resetting containers (\<open>src/pkg/funclet/init.go\<close>, \<open>warmup.go\<close>, \<open>ide_warmup.go\<close>, \<open>reset.go\<close>), the start of the
  process and its handlers (\<open>funclet.go\<close>, \<open>handler.go\<close>, \<open>task.go\<close>, \<open>helper.go\<close>, \<open>runner/helper.go\<close>). They are composed from the components: the container map, the
  path manager, the quota controller, the network, the code cache and the runtime driver. A context's container is a pointer to the entry of the
  map, given by its key; a nil pointer is \<open>None\<close>. The goroutine of a warm-up that prepares the code runs at a moment given as an argument; any other goroutine runs
  where it is started, and the containers of a scale-down are reset in the order of the list.
\<close>

section \<open>State and operations\<close>

record FuncletOptions =
  ContainerNum_fo :: int
  ConfPath_fo :: string
  CachePath_fo :: string
  InvokerSocks_fo :: string
  ListenPath_fo :: string
  ListenType_fo :: string
  InvokerDispatcherPort_fo :: int
  KillRuntimeWaitTime_fo :: int
  RunningMode_fo :: string
  RunnerSpecOption_fo :: RunnerSpecOption

text \<open>The file and process operations the package calls itself; encoders are those of Go's libraries.\<close>

record 'h fn_os =
  Kill_f :: "int \<Rightarrow> nat \<Rightarrow> 'h \<Rightarrow> errno option \<times> 'h"
  ReadFile_f :: "string \<Rightarrow> ('h, string) call"
  WriteFile_f :: "string \<Rightarrow> string \<Rightarrow> 'h action"
  AppendFile_f :: "string \<Rightarrow> string \<Rightarrow> 'h action"
  IsRegular_f :: "string \<Rightarrow> 'h \<Rightarrow> string + bool"
  Chmod_f :: "string \<Rightarrow> 'h action"
  CopyDir_f :: "string \<Rightarrow> string \<Rightarrow> 'h action"
  Pipe_f :: "'h action"

record FunctionConfig =
  CodeSha256_fc :: string
  FunctionName_fc :: string
  Handler_fc :: string
  Runtime_fcn :: string
  MemorySize_fcn :: "int option"
  Timeout_fcn :: "int option"
  Environment_fc :: "(string \<times> string) list option option"

record encoders =
  marshal_spec :: "RunnerSpec \<Rightarrow> string + string"
  marshal_env :: "(string \<times> string) list \<Rightarrow> string + string"
  marshal_meta :: "FunctionConfig \<Rightarrow> string \<Rightarrow> string + string"
  oci_version :: string

record 'h Funclet =
  PodName_f :: string
  Options_f :: FuncletOptions
  RuntimeClient :: "'h Manager"
  kernel_f :: "'h kernel"
  pathConfig_f :: PathConfig
  quota_f :: "'h quota_os"
  code_f :: "'h code_os"
  drivers_f :: "'h drivers"
  netlink_f :: "'h netlink"
  os_f :: "'h fn_os"
  enc_f :: encoders

record 'h fn_state =
  cmap :: ContainerMap
  pman :: PathManager
  quota :: xfsQuotaCtrl
  net :: ContainerNetwork
  netns :: net_ns
  hchans :: HandlingChanMap
  host :: 'h

text \<open>An operation ends with an error or a value and a new state; it may panic, and it may never return (\<open>None\<close>).\<close>

type_synonym ('h, 'a) op = "'h fn_state \<Rightarrow> ((fn_error + 'a) \<times> 'h fn_state) outcome option"

definition ok :: "'a \<Rightarrow> ('h, 'a) op" where
  "ok x s = Some (Value (Inr x, s))"

definition fails :: "fn_error \<Rightarrow> ('h, 'a) op" where
  "fails e s = Some (Value (Inl e, s))"

definition panics :: "string \<Rightarrow> ('h, 'a) op" where
  "panics e s = Some (Panic e)"

text \<open>The operation after another one, which is left out when that one failed: \<open>if err != nil { return err }\<close>.\<close>

definition andthen :: "('h, 'a) op \<Rightarrow> ('a \<Rightarrow> ('h, 'b) op) \<Rightarrow> ('h, 'b) op" where
  "andthen m f s = (case m s of
     None \<Rightarrow> None
   | Some (Panic e) \<Rightarrow> Some (Panic e)
   | Some (Value (Inl e, s1)) \<Rightarrow> Some (Value (Inl e, s1))
   | Some (Value (Inr x, s1)) \<Rightarrow> f x s1)"

text \<open>The operation whose error the caller looks at itself.\<close>

definition attempt :: "('h, 'a) op \<Rightarrow> ('h, fn_error + 'a) op" where
  "attempt m s = (case m s of
     None \<Rightarrow> None
   | Some (Panic e) \<Rightarrow> Some (Panic e)
   | Some (Value (r, s1)) \<Rightarrow> Some (Value (Inr r, s1)))"

definition gets :: "('h fn_state \<Rightarrow> 'a) \<Rightarrow> ('h, 'a) op" where
  "gets f s = ok (f s) s"

definition update_state :: "('h fn_state \<Rightarrow> 'h fn_state) \<Rightarrow> ('h, unit) op" where
  "update_state f s = ok () (f s)"

definition relabel :: "(fn_error \<Rightarrow> fn_error) \<Rightarrow> ('h, 'a) op \<Rightarrow> ('h, 'a) op" where
  "relabel g m s = (case m s of
     None \<Rightarrow> None
   | Some (Panic e) \<Rightarrow> Some (Panic e)
   | Some (Value (r, s1)) \<Rightarrow> Some (Value (map_sum g id r, s1)))"

definition from_sum :: "string + 'a \<Rightarrow> ('h, 'a) op" where
  "from_sum r = (case r of Inl e \<Rightarrow> fails (OtherError e) | Inr x \<Rightarrow> ok x)"

definition from_outcome :: "'a outcome \<Rightarrow> ('h, 'a) op" where
  "from_outcome r = (case r of Panic e \<Rightarrow> panics e | Value x \<Rightarrow> ok x)"

definition on_host :: "('h, 'a) call \<Rightarrow> ('h, 'a) op" where
  "on_host c s = (case c (host s) of (r, h) \<Rightarrow> from_sum r (s\<lparr>host := h\<rparr>))"

definition do_host :: "'h action \<Rightarrow> ('h, unit) op" where
  "do_host a s = (case a (host s) of
     (None, h) \<Rightarrow> ok () (s\<lparr>host := h\<rparr>)
   | (Some e, h) \<Rightarrow> fails (OtherError e) (s\<lparr>host := h\<rparr>))"

section \<open>The operations of the components\<close>

abbreviation containers_f :: "'h Funclet \<Rightarrow> 'h ContainerManager" where
  "containers_f f \<equiv> containers_of (RuntimeClient f)"

abbreviation resources_f :: "'h Funclet \<Rightarrow> 'h ResourceManager" where
  "resources_f f \<equiv> resources_of (RuntimeClient f)"

definition generate_paths :: "'h Funclet \<Rightarrow> int \<Rightarrow> string \<Rightarrow> ('h, ContainerPaths) op" where
  "generate_paths f nano i s = (case GeneratePaths (kernel_f f) (pathConfig_f f) nano i (pman s) (host s) of
     (r, m, h) \<Rightarrow> from_sum r (s\<lparr>pman := m, host := h\<rparr>))"

definition get_tmp :: "'h Funclet \<Rightarrow> string \<Rightarrow> ('h, string) op" where
  "get_tmp f name s = (case GetTmpStorage (quota_f f) name (quota s) (host s) of
     None \<Rightarrow> None
   | Some (Panic e) \<Rightarrow> Some (Panic e)
   | Some (Value (r, q, h)) \<Rightarrow> from_sum r (s\<lparr>quota := q, host := h\<rparr>))"

text \<open>\<open>RemoveTmpDevice\<close> runs in a goroutine and its error is only logged; when it blocks, the others go on without it.\<close>

definition RemoveTmpDevice :: "'h Funclet \<Rightarrow> string \<Rightarrow> ('h, unit) op" where
  "RemoveTmpDevice f pathName s = (case RemoveTmpStorage (quota_f f) pathName (quota s) (host s) of
     None \<Rightarrow> ok () s
   | Some (_, q, h) \<Rightarrow> ok () (s\<lparr>quota := q, host := h\<rparr>))"

definition set_net :: "'h Funclet \<Rightarrow> net_answers \<Rightarrow> int \<Rightarrow> ('h, unit) op" where
  "set_net f a pid s = (case SetContainerNet (netlink_f f) a pid (net s, netns s, host s) of
     None \<Rightarrow> None
   | Some (err, c, ns, h) \<Rightarrow> (case err of None \<Rightarrow> ok () | Some e \<Rightarrow> fails (OtherError e)) (s\<lparr>net := c, netns := ns, host := h\<rparr>))"

definition SetNetwork :: "'h Funclet \<Rightarrow> net_answers \<Rightarrow> int \<Rightarrow> ('h, unit) op" where
  "SetNetwork f a pid = relabel (\<lambda>e. OtherError (''set container net failed: '' @ fn_Error e)) (set_net f a pid)"

definition set_pid :: "string \<Rightarrow> int \<Rightarrow> ('h, unit) op" where
  "set_pid i pid = update_state (\<lambda>s. s\<lparr>cmap := snd (UpdateContainerPid i pid (cmap s))\<rparr>)"

definition set_stream :: "string \<Rightarrow> bool \<Rightarrow> ('h, unit) op" where
  "set_stream i b = update_state (\<lambda>s. s\<lparr>cmap := snd (UpdateContainerStreamMode i b (cmap s))\<rparr>)"

section \<open>Starting a container\<close>

definition GenerateHostsFile :: "'h Funclet \<Rightarrow> string \<Rightarrow> ('h, unit) op" where
  "GenerateHostsFile f path =
     andthen (gets (\<lambda>s. IsRegular_f (os_f f) ''/etc/hosts'' (host s))) (\<lambda>st.
     andthen (from_sum st) (\<lambda>regular.
       if \<not> regular then fails (OtherError ''/etc/hosts is not a regular file'')
       else andthen (on_host (ReadFile_f (os_f f) ''/etc/hosts'')) (\<lambda>data. do_host (WriteFile_f (os_f f) path data))))"

definition PrepareConfigDir :: "'h Funclet \<Rightarrow> string \<Rightarrow> string \<Rightarrow> ('h, unit) op" where
  "PrepareConfigDir f containerID path =
     relabel (\<lambda>_. OtherError (''generate container '' @ containerID @ '' hosts file failed'')) (GenerateHostsFile f (path @ ''/hosts''))"

definition AppendHostsFile :: "'h Funclet \<Rightarrow> string \<Rightarrow> string \<Rightarrow> ('h, unit) op" where
  "AppendHostsFile f path containerID = do_host (AppendFile_f (os_f f) path (''127.0.0.1  '' @ containerID))"

definition appendContainerHosts :: "'h Funclet \<Rightarrow> string \<Rightarrow> ('h, unit) op" where
  "appendContainerHosts f containerID =
     andthen (gets (\<lambda>s. GetPaths containerID (pman s))) (\<lambda>r.
     andthen (from_sum r) (\<lambda>paths. AppendHostsFile f (SpecConfigPath paths @ ''/hosts'') containerID))"

definition runner_config :: "'h Funclet \<Rightarrow> string \<Rightarrow> ContainerPaths \<Rightarrow> RunnerConfig" where
  "runner_config f containerID cp = \<lparr>HostName_c = containerID, HostsPath_c = SpecConfigPath cp @ ''/hosts'', ConfigPath_c = DataConfigPath cp,
     CodePath_c = DataCodePath cp, RuntimePath_c = DataRuntimePath cp, TmpPath_c = RunnerTmpPath cp,
     RuncConfigPath_c = path_Join (RunnerSpecPath cp) SpecConfig,
     RuntimeSocketPath_c = Sprintf (RuntimeSocketPath_so (RunnerSpecOption_fo (Options_f f))) containerID, ResourceConfig_c = None\<rparr>"

definition prepareConfigData :: "'h Funclet \<Rightarrow> string \<Rightarrow> ContainerPaths \<Rightarrow> ('h, unit) op" where
  "prepareConfigData f containerID cp =
     (let c = runner_config f containerID cp in
      andthen (appendContainerHosts f containerID) (\<lambda>_.
      andthen (do_host (MkdirAll (kernel_f f) (RuntimeSocketPath_c c))) (\<lambda>_.
      andthen (from_outcome (GenerateRunnerConfig (oci_version (enc_f f)) (RunningMode_fo (Options_f f)) (RunnerSpecOption_fo (Options_f f))
                 (Some (GetDefaultResourceConfig_rm (resources_f f))) c)) (\<lambda>spec.
      andthen (from_sum (marshal_spec (enc_f f) spec)) (\<lambda>data.
        do_host (WriteFile_f (os_f f) (RuncConfigPath_c c) data))))))"

definition initializeIO :: "'h Funclet \<Rightarrow> ('h, unit) op" where
  "initializeIO f = andthen (do_host (Pipe_f (os_f f))) (\<lambda>_. do_host (Pipe_f (os_f f)))"

text \<open>The paths are looked up after the error has been dropped; without paths the pointer is nil.\<close>

definition StartContainer :: "'h Funclet \<Rightarrow> string \<Rightarrow> ('h, unit) op" where
  "StartContainer f containerID =
     andthen (gets (\<lambda>s. GetPaths containerID (pman s))) (\<lambda>r.
     andthen (relabel (\<lambda>e. OtherError (''prepare container '' @ containerID @ '' stdio error: '' @ fn_Error e)) (initializeIO f)) (\<lambda>_.
       case r of
         Inl _ \<Rightarrow> panics nil_dereference
       | Inr paths \<Rightarrow> do_host (StartContainer_cm (containers_f f) \<lparr>ID_cr = containerID, Bundle_cr = RunnerSpecPath paths,
           PidFile_cr = path_Join (RunnerSpecPath paths) ''runner.pid'', Detach_cr = True, WithStdio_cr = True\<rparr>)))"

definition InitContainer :: "'h Funclet \<Rightarrow> int \<Rightarrow> net_answers \<Rightarrow> string option \<Rightarrow> ('h, unit) op" where
  "InitContainer f nano a container = (case container of
     None \<Rightarrow> panics nil_dereference
   | Some containerID \<Rightarrow>
       andthen (generate_paths f nano containerID) (\<lambda>cp.
       andthen (get_tmp f (PathName cp)) (\<lambda>_.
       andthen (PrepareConfigDir f containerID (SpecConfigPath cp)) (\<lambda>_.
       andthen (prepareConfigData f containerID cp) (\<lambda>_.
       andthen (StartContainer f containerID) (\<lambda>_.
       andthen (on_host (ContainerInfo_cm (containers_f f) containerID)) (\<lambda>info.
       andthen (from_outcome (deref_field info)) (\<lambda>c.
       andthen (set_net f a (Pid_rc c)) (\<lambda>_.
       andthen (set_stream containerID False) (\<lambda>_.
         set_pid containerID (Pid_rc c)))))))))))"

text \<open>An event: the lock, the work on the container the map has for the key, and the deferred release.\<close>

definition container_of :: "string \<Rightarrow> 'h fn_state \<Rightarrow> string option" where
  "container_of i s = (case GetContainer i (cmap s) of Inl _ \<Rightarrow> None | Inr _ \<Rightarrow> Some i)"

definition in_event :: "Event \<Rightarrow> string \<Rightarrow> string list \<Rightarrow> (string option \<Rightarrow> ('h, 'a) op) \<Rightarrow> ('h, 'a) op" where
  "in_event ev target ids body s = (case enter_event ev target ids (cmap s) of
     (Inl e, m) \<Rightarrow> fails e (s\<lparr>cmap := m\<rparr>)
   | (Inr held, m) \<Rightarrow> (let s1 = s\<lparr>cmap := m\<rparr> in case body (container_of target s1) s1 of
       None \<Rightarrow> None
     | Some (Panic e) \<Rightarrow> Some (Panic e)
     | Some (Value (r, s2)) \<Rightarrow> (case leave_event held (cmap s2) of
         None \<Rightarrow> None
       | Some m2 \<Rightarrow> Some (Value (r, s2\<lparr>cmap := m2\<rparr>)))))"

definition InitContainerEvent :: "'h Funclet \<Rightarrow> int \<Rightarrow> net_answers \<Rightarrow> string \<Rightarrow> ('h, unit) op" where
  "InitContainerEvent f nano a containerID = in_event EventInit containerID [] (InitContainer f nano a)"

section \<open>Resetting a container\<close>

text \<open>At most \<open>KillRuntimeWaitTime\<close> looks at the process, a second apart.\<close>

fun wait_exit :: "'h fn_os \<Rightarrow> int \<Rightarrow> nat \<Rightarrow> 'h \<Rightarrow> bool \<times> 'h" where
  "wait_exit os pid 0 h = (False, h)"
| "wait_exit os pid (Suc n) h = (case Kill_f os pid 0 h of (killErr, h1) \<Rightarrow>
     if killErr = None \<or> killErr = Some EPERM then wait_exit os pid n h1 else (True, h1))"

definition host_pid :: "string \<Rightarrow> 'h fn_state \<Rightarrow> int" where
  "host_pid i s = (case cmap s i of None \<Rightarrow> 0 | Some info \<Rightarrow> HostPid info)"

definition WaitForContainerExits :: "'h Funclet \<Rightarrow> string \<Rightarrow> ('h, unit) op" where
  "WaitForContainerExits f containerID s =
     (case wait_exit (os_f f) (host_pid containerID s) (nat (KillRuntimeWaitTime_fo (Options_f f))) (host s) of (gone, h) \<Rightarrow>
       (if gone then ok () else fails (OtherError (''waiting for container '' @ containerID @ '' exit timeout''))) (s\<lparr>host := h\<rparr>))"

definition StopContainer :: "'h Funclet \<Rightarrow> string \<Rightarrow> bool \<Rightarrow> ('h, unit) op" where
  "StopContainer f containerID sync =
     andthen (relabel (\<lambda>e. OtherError (''kill container '' @ containerID @ '' failed: '' @ fn_Error e))
       (do_host (KillContainer_cm (containers_f f) containerID ''SIGKILL'' True))) (\<lambda>_.
       if sync then WaitForContainerExits f containerID else ok ())"

definition DeleteContainer :: "'h Funclet \<Rightarrow> string \<Rightarrow> ('h, unit) op" where
  "DeleteContainer f containerID =
     andthen (attempt (do_host (RemoveContainer_cm (containers_f f) containerID False))) (\<lambda>r. case r of
       Inr _ \<Rightarrow> ok ()
     | Inl _ \<Rightarrow> do_host (RemoveContainer_cm (containers_f f) containerID True))"

text \<open>\<open>strconv.Atoi\<close> of the trimmed contents.\<close>

definition GetPidFromFile :: "'h Funclet \<Rightarrow> string \<Rightarrow> ('h, int) op" where
  "GetPidFromFile f containerID =
     andthen (gets (\<lambda>s. GetPaths containerID (pman s))) (\<lambda>r.
     andthen (from_sum r) (\<lambda>paths. let path = path_Join (RunnerSpecPath paths) ''runner.pid'' in
     andthen (on_host (ReadFile_f (os_f f) path)) (\<lambda>d.
       case ParseInt (TrimSpace d) of
         (pid, None) \<Rightarrow> ok pid
       | (_, Some e) \<Rightarrow> fails (OtherError (''error parsing pid from '' @ path @ '': '' @ num_error ''Atoi'' (TrimSpace d) e)))))"

definition unset_net :: "int \<Rightarrow> ('h, unit) op" where
  "unset_net pid = update_state (\<lambda>s. s\<lparr>net := snd (UnsetContainerNet pid (net s))\<rparr>)"

definition outdate_paths :: "string \<Rightarrow> ('h, unit) op" where
  "outdate_paths i s = (case OutdatePaths i (pman s) of
     (None, m) \<Rightarrow> ok () (s\<lparr>pman := m\<rparr>)
   | (Some e, m) \<Rightarrow> fails (OtherError e) (s\<lparr>pman := m\<rparr>))"

text \<open>What a reset clears once the container is gone: its network device and its directories.\<close>

definition clear_container :: "'h Funclet \<Rightarrow> string \<Rightarrow> ('h, unit) op" where
  "clear_container f containerID =
     andthen (attempt (GetPidFromFile f containerID)) (\<lambda>r.
     andthen (case r of Inr pid \<Rightarrow> if pid \<noteq> 0 then unset_net pid else ok () | Inl _ \<Rightarrow> ok ()) (\<lambda>_.
     andthen (gets (\<lambda>s. GetPaths containerID (pman s))) (\<lambda>cp. case cp of
       Inl _ \<Rightarrow> ok ()
     | Inr p \<Rightarrow>
         andthen (if PathName p \<noteq> '''' then RemoveTmpDevice f (PathName p) else ok ()) (\<lambda>_.
           outdate_paths containerID))))"

text \<open>The state of the container as the runtime reports it; every failure to get it counts as a container that does not exist.\<close>

definition container_status :: "'h Funclet \<Rightarrow> string \<Rightarrow> ('h, string) op" where
  "container_status f containerID =
     andthen (attempt (on_host (ContainerInfo_cm (containers_f f) containerID))) (\<lambda>r. case r of
       Inr (Some stat) \<Rightarrow> andthen (set_pid containerID (Pid_rc stat)) (\<lambda>_. ok (Status_rc stat))
     | _ \<Rightarrow> ok ContainerStatusNotExist)"

definition ResetContainer :: "'h Funclet \<Rightarrow> int \<Rightarrow> net_answers \<Rightarrow> string option \<Rightarrow> ('h, unit) op" where
  "ResetContainer f nano a container = (case container of
     None \<Rightarrow> panics nil_dereference
   | Some containerID \<Rightarrow>
       andthen (container_status f containerID) (\<lambda>status0.
       andthen (if status0 = ContainerStatusPausing \<or> status0 = ContainerStatusPaused
                then andthen (relabel (\<lambda>e. OtherError (''resume container '' @ containerID @ '' failed: '' @ fn_Error e))
                  (do_host (ThawContainer_rm (resources_f f) containerID))) (\<lambda>_. ok ContainerStatusRunning)
                else ok status0) (\<lambda>status1.
       andthen (if status1 = ContainerStatusCreated \<or> status1 = ContainerStatusRunning
                then andthen (relabel (\<lambda>e. OtherError (''kill container '' @ containerID @ '' failed: '' @ fn_Error e))
                  (StopContainer f containerID True)) (\<lambda>_. ok ContainerStatusStopped)
                else ok status1) (\<lambda>status2.
       andthen (if status2 = ContainerStatusStopped
                then andthen (relabel (\<lambda>e. OtherError (''delete container '' @ containerID @ '' failed '' @ fn_Error e))
                  (DeleteContainer f containerID)) (\<lambda>_. ok ContainerStatusNotExist)
                else ok status2) (\<lambda>status3.
       andthen (if status3 = ContainerStatusNotExist then clear_container f containerID else ok ()) (\<lambda>_.
         InitContainer f nano a (Some containerID)))))))"

section \<open>Resetting with a scale-down\<close>

record ResetRequest =
  ContainerID_rr :: string
  ScaleDownRecommendation_rr :: "ScaleDownRecommendation option"

definition bulk_get :: "'h Funclet \<Rightarrow> string list \<Rightarrow> ('h, (string \<times> ContainerInfo) list) op" where
  "bulk_get f ids s = (case BulkGetContainers (RuntimeClient f) ids (cmap s, host s) of
     Panic e \<Rightarrow> Some (Panic e)
   | Value (r, m, h) \<Rightarrow> Some (Value (r, s\<lparr>cmap := m, host := h\<rparr>)))"

text \<open>The goroutines of the loop, one after the other: the containers that could not be reset and those that were.\<close>

fun reset_each :: "'h Funclet \<Rightarrow> (string \<Rightarrow> int) \<Rightarrow> (string \<Rightarrow> net_answers) \<Rightarrow> string list \<Rightarrow> string list \<times> string list \<Rightarrow> ('h, string list \<times> string list) op" where
  "reset_each f nano a [] acc = ok acc"
| "reset_each f nano a (i # is) acc =
     andthen (gets (container_of i)) (\<lambda>info.
     andthen (attempt (ResetContainer f (nano i) (a i) info)) (\<lambda>r.
       reset_each f nano a is (case r of Inl _ \<Rightarrow> (fst acc @ [i], snd acc) | Inr _ \<Rightarrow> (fst acc, snd acc @ [i]))))"

definition response_with :: "string list \<Rightarrow> fn_error + (string \<times> ContainerInfo) list \<Rightarrow> ResetResponse" where
  "response_with success entries = \<lparr>ScaleDownResult = Some \<lparr>Success = success, Fails = (case entries of Inl _ \<Rightarrow> [] | Inr l \<Rightarrow> l)\<rparr>\<rparr>"

text \<open>The error and the response, which may both be there.\<close>

definition fn_ResetContainers :: "'h Funclet \<Rightarrow> (string \<Rightarrow> int) \<Rightarrow> (string \<Rightarrow> net_answers) \<Rightarrow> ResetRequest \<Rightarrow> string option \<Rightarrow>
    ('h, fn_error option \<times> ResetResponse option) op" where
  "fn_ResetContainers f nano a params container =
     andthen (attempt (ResetContainer f (nano (ContainerID_rr params)) (a (ContainerID_rr params)) container)) (\<lambda>r.
       case (r, ScaleDownRecommendation_rr params) of
         (Inl e, None) \<Rightarrow> ok (Some e, None)
       | (Inl e, Some rec) \<Rightarrow> (case container of
           None \<Rightarrow> panics nil_dereference
         | Some cid \<Rightarrow> andthen (attempt (bulk_get f (ResetContainers rec @ [cid]))) (\<lambda>l. ok (Some e, Some (response_with [] l))))
       | (Inr _, None) \<Rightarrow> ok (None, None)
       | (Inr _, Some rec) \<Rightarrow>
           andthen (reset_each f nano a (ResetContainers rec) ([], [])) (\<lambda>(failed, success).
           andthen (attempt (bulk_get f failed)) (\<lambda>l. ok (None, Some (response_with success l)))))"

definition ResetContainerEvent :: "'h Funclet \<Rightarrow> (string \<Rightarrow> int) \<Rightarrow> (string \<Rightarrow> net_answers) \<Rightarrow> ResetRequest \<Rightarrow>
    ('h, fn_error option \<times> ResetResponse option) op" where
  "ResetContainerEvent f nano a params =
     in_event EventReset (ContainerID_rr params) (case ScaleDownRecommendation_rr params of None \<Rightarrow> [] | Some rec \<Rightarrow> ResetContainers rec)
       (fn_ResetContainers f nano a params)"

section \<open>Scaling up\<close>

definition bufferMemorySize :: int64 where "bufferMemorySize = 1 * 1024 * 1024"

definition getMinMemoryLimit :: "int64 \<Rightarrow> int64" where
  "getMinMemoryLimit usage = i64 (usage + bufferMemorySize)"

definition memory_stats :: "'h Funclet \<Rightarrow> string \<Rightarrow> ('h, MemoryStats) op" where
  "memory_stats f i =
     andthen (on_host (ContainerResourceStats_rm (resources_f f) i)) (\<lambda>st. from_outcome (deref_field (MemoryStats_rs st)))"

definition update_resource :: "'h Funclet \<Rightarrow> string \<Rightarrow> ResourceConfig \<Rightarrow> ('h, unit) op" where
  "update_resource f i rc = do_host (UpdateContainerResource_rm (resources_f f) i rc)"

definition scaleDownContainerToMinimum :: "'h Funclet \<Rightarrow> string \<Rightarrow> ('h, unit) op" where
  "scaleDownContainerToMinimum f i =
     andthen (memory_stats f i) (\<lambda>st. update_resource f i (empty_config\<lparr>Memory_cfg := Some (getMinMemoryLimit (Usage st))\<rparr>))"

definition scaleDownContainerToDefault :: "'h Funclet \<Rightarrow> string \<Rightarrow> ('h, unit) op" where
  "scaleDownContainerToDefault f i = (let rc = GetDefaultResourceConfig_rm (resources_f f) in
     andthen (memory_stats f i) (\<lambda>st.
     andthen (from_outcome (deref_field (Memory_cfg rc))) (\<lambda>limit.
       if limit < Usage st
       then fails (OtherError (''container memory usage is overused: current usage '' @ Itoa (Usage st) @ '', default memory limit '' @ Itoa limit))
       else update_resource f i rc)))"

definition scaleUpContainer :: "'h Funclet \<Rightarrow> string \<Rightarrow> ResourceConfig \<Rightarrow> ('h, unit) op" where
  "scaleUpContainer f i config =
     andthen (on_host (ContainerResourceStats_rm (resources_f f) i)) (\<lambda>st. case Memory_cfg config of
       None \<Rightarrow> update_resource f i config
     | Some memory \<Rightarrow> andthen (from_outcome (deref_field (MemoryStats_rs st))) (\<lambda>ms.
         if memory < Limit ms then fails (OtherError ''set memory resource invaild'') else update_resource f i config))"

fun all_exist :: "'h Funclet \<Rightarrow> string list \<Rightarrow> ('h, unit) op" where
  "all_exist f [] = ok ()"
| "all_exist f (i # is) =
     andthen (relabel (\<lambda>_. ContainerNotExist i) (on_host (ContainerInfo_cm (containers_f f) i))) (\<lambda>_. all_exist f is)"

fun freeze_each :: "'h Funclet \<Rightarrow> string list \<Rightarrow> ('h, unit) op" where
  "freeze_each f [] = ok ()"
| "freeze_each f (i # is) =
     andthen (do_host (FrozenContainer_rm (resources_f f) i)) (\<lambda>_.
     andthen (scaleDownContainerToMinimum f i) (\<lambda>_. freeze_each f is))"

definition scale_config :: "'h Funclet \<Rightarrow> string \<Rightarrow> ('h, ResourceConfig) op" where
  "scale_config f memory s = (case GetResourceConfigByReadableMemory_rm (resources_f f) memory (host s) of
     (Panic e, _) \<Rightarrow> Some (Panic e)
   | (Value r, h) \<Rightarrow> from_sum r (s\<lparr>host := h\<rparr>))"

definition scaleUp :: "'h Funclet \<Rightarrow> string option \<Rightarrow> ScaleUpRecommendation \<Rightarrow> ('h, unit) op" where
  "scaleUp f container recommend =
     andthen (all_exist f (MergedContainers recommend @ [TargetContainer_up recommend])) (\<lambda>_.
     andthen (freeze_each f (MergedContainers recommend)) (\<lambda>_.
     andthen (scale_config f (TargetMemory recommend)) (\<lambda>config.
     andthen (from_outcome (deref_field container)) (\<lambda>cid. scaleUpContainer f cid config))))"

section \<open>Warming a container up\<close>

record WarmUpContainerArgs =
  Code_wa :: "CodeStorage option"
  Configuration_wa :: "FunctionConfig option"
  RuntimeConfiguration_wa :: "RuntimeConfiguration option"
  ScaleUpRecommendation_wa :: "ScaleUpRecommendation option"
  WithStreamMode_wa :: bool

record WarmupRequest =
  ContainerID_wr :: string
  Args_wr :: "WarmUpContainerArgs option"

definition RuntimeHTTPSock :: string where "RuntimeHTTPSock = ''.runtime-http.sock''"

definition GetContainerConfPath :: "'h Funclet \<Rightarrow> string \<Rightarrow> string" where
  "GetContainerConfPath f containerName = path_Join (ConfPath_fo (Options_f f)) containerName"

definition stream_mode :: "WarmUpContainerArgs \<Rightarrow> RuntimeConfiguration \<Rightarrow> bool" where
  "stream_mode args rtc \<longleftrightarrow> WithStreamMode_wa args \<or> HasSuffix (Name_rc rtc) ''stream''"

text \<open>The variables of the funclet overwrite those of the function. The file is created before the encoding; a failed encoding leaves it empty.\<close>

definition funclet_env :: "'h Funclet \<Rightarrow> int \<Rightarrow> string \<Rightarrow> (string \<times> string) list \<Rightarrow> (string \<times> string) list" where
  "funclet_env f nowms podName env = (let o1 = Options_f f in
     fold (\<lambda>(k, v). AList.update k v)
       ([(''BCE_RUNTIME_START_TIME'', Itoa nowms), (''BCE_USER_CODE_ROOT'', TargetCodePath (RunnerSpecOption_fo o1)),
         (''BCE_RUNTIME_INVOKER_SOCKS'', InvokerSocks_fo o1), (''BCE_RUNTIME_FUNCLET_SOCKS'', ListenPath_fo o1), (''BCE_RUNTIME_NAME'', podName)] @
        (if ListenType_fo o1 = ''tcp'' then [(''BCE_RUNTIME_INVOKER_PORT'', Itoa (InvokerDispatcherPort_fo o1))] else [])) env)"

definition prepareEnvConf :: "'h Funclet \<Rightarrow> string \<Rightarrow> (string \<times> string) list \<Rightarrow> ('h, unit) op" where
  "prepareEnvConf f envConfPath env =
     andthen (do_host (WriteFile_f (os_f f) envConfPath '''')) (\<lambda>_.
     andthen (from_sum (marshal_env (enc_f f) env)) (\<lambda>e.
     andthen (attempt (do_host (WriteFile_f (os_f f) envConfPath e))) (\<lambda>_. ok ())))"

text \<open>The map of variables is the one of the request, so the configuration that is written afterwards has the funclet's variables too.\<close>

definition prepareRuntimeConf :: "'h Funclet \<Rightarrow> int \<Rightarrow> string option \<Rightarrow> WarmUpContainerArgs \<Rightarrow> ('h, string) op" where
  "prepareRuntimeConf f nowms container args =
     andthen (from_outcome (deref_field container)) (\<lambda>hostname. let confPath = GetContainerConfPath f hostname in
     andthen (do_host (MkdirAll (kernel_f f) confPath)) (\<lambda>_.
     andthen (do_host (WriteFile_f (os_f f) (path_Join confPath ''runtime.conf'') '''')) (\<lambda>_.
     andthen (from_outcome (deref_field (RuntimeConfiguration_wa args))) (\<lambda>rtc.
     andthen (attempt (do_host (WriteFile_f (os_f f) (path_Join confPath ''runtime.conf'')
       (concat (map (\<lambda>l. l @ [newline]) (Bin_rc rtc # Args_rc rtc)))))) (\<lambda>_.
     andthen (from_outcome (deref_field (Configuration_wa args))) (\<lambda>config.
       let given = (case Environment_fc config of Some (Some vs) \<Rightarrow> Some vs | _ \<Rightarrow> None);
           vars = (case given of None \<Rightarrow> [] | Some vs \<Rightarrow> vs);
           vars1 = (if stream_mode args rtc
                    then AList.update ''BCE_CFC_HTTP_SOCKET'' (path_Join (TargetRuntimeSocketPath (RunnerSpecOption_fo (Options_f f))) RuntimeHTTPSock)
                      (AList.update ''BCE_CFC_RUNTIME_MODE'' ''stream'' vars) else vars);
           env = funclet_env f nowms hostname vars1;
           config1 = (if given = None then config else config\<lparr>Environment_fc := Some (Some env)\<rparr>)
       in andthen (attempt (prepareEnvConf f (path_Join confPath ''env.conf'') env)) (\<lambda>_.
          andthen (do_host (WriteFile_f (os_f f) (path_Join confPath ''meta.conf'') '''')) (\<lambda>_.
          andthen (from_sum (marshal_meta (enc_f f) config1 (Path_rc rtc))) (\<lambda>j.
          andthen (attempt (do_host (WriteFile_f (os_f f) (path_Join confPath ''meta.conf'') j))) (\<lambda>_.
            ok confPath))))))))))"

definition prepare_user_code :: "'h Funclet \<Rightarrow> (nat \<Rightarrow> HandlingChanMap \<times> 'h \<Rightarrow> HandlingChanMap \<times> 'h) \<Rightarrow> CodeStorage \<Rightarrow> string \<Rightarrow> string \<Rightarrow> ('h, string) op" where
  "prepare_user_code f wait code codeSha256 hex s =
     (case prepareUserCode (code_f f) (drivers_f f) wait (CachePath_fo (Options_f f)) code codeSha256 hex (hchans s, host s) of
        (r, m, h) \<Rightarrow> from_sum r (s\<lparr>hchans := m, host := h\<rparr>))"

text \<open>The first steps both warm-ups share: the state of the container and its process.\<close>

definition running_pid :: "'h Funclet \<Rightarrow> string \<Rightarrow> string option \<Rightarrow> ('h, int) op" where
  "running_pid f containerID container =
     andthen (relabel (\<lambda>_. ContainerNotExist containerID) (on_host (ContainerInfo_cm (containers_f f) containerID))) (\<lambda>st.
     andthen (from_outcome (deref_field st)) (\<lambda>stat.
       if Status_rc stat \<noteq> ContainerStatusRunning then fails (ContainerNotRunning containerID)
       else andthen (from_outcome (deref_field container)) (\<lambda>cid.
         andthen (gets (host_pid cid)) (\<lambda>old.
         andthen (if old \<noteq> Pid_rc stat then set_pid containerID (Pid_rc stat) else ok ()) (\<lambda>_. ok (Pid_rc stat))))))"

definition code_of :: "WarmUpContainerArgs \<Rightarrow> ('h, CodeStorage) op" where
  "code_of args = (case Code_wa args of
     None \<Rightarrow> fails (OtherError ''code location was empty'')
   | Some code \<Rightarrow> if Location code = '''' then fails (OtherError ''code location was empty'') else ok code)"

definition hex_sha :: "FunctionConfig \<Rightarrow> string" where
  "hex_sha config = (case Base64ToHex (CodeSha256_fc config) of None \<Rightarrow> '''' | Some x \<Rightarrow> x)"

definition bind_mount_op :: "'h Funclet \<Rightarrow> (string \<times> string) list \<Rightarrow> ('h, unit) op" where
  "bind_mount_op f pairs = do_host (BindMount (kernel_f f) (map (\<lambda>(s, t). \<lparr>Source_mp = s, Target_mp = t\<rparr>) pairs) True)"

text \<open>
  The goroutine that prepares the code runs beside the rest of the warm-up. It is one step that happens before the configuration is written, before the
  mounts, during the wait, or only after the wait is over; \<open>code_turn now moment\<close> is a point where it may happen, and gives on what the channel has so far. When
  the warm-up fails before that point, the goroutine's later work is not part of the operation.
\<close>

datatype code_moment = BeforeConf | BeforeMounts | DuringWait | TooLate

definition code_turn :: "code_moment \<Rightarrow> code_moment \<Rightarrow> ('h, string) op \<Rightarrow> (fn_error + string) option \<Rightarrow> ('h, (fn_error + string) option) op" where
  "code_turn now moment prepare got = (if now = moment then andthen (attempt prepare) (\<lambda>r. ok (Some r)) else ok got)"

text \<open>The wait for the code: the ticker fires first when the code comes too late, and may do so, \<open>timeout\<close>, when the channel is ready too.\<close>

definition await_code :: "bool \<Rightarrow> (fn_error + string) option \<Rightarrow> ('h, unit) op" where
  "await_code timeout got = (if timeout then fails (OtherError ''download code timeout 10 seconds'')
     else case got of
       None \<Rightarrow> fails (OtherError ''download code timeout 10 seconds'')
     | Some (Inl e) \<Rightarrow> fails (OtherError (''download code err: '' @ fn_Error e))
     | Some (Inr _) \<Rightarrow> ok ())"

definition SIGUSR1 :: nat where "SIGUSR1 = 10"

definition signal_runtime :: "'h Funclet \<Rightarrow> int \<Rightarrow> ('h, unit) op" where
  "signal_runtime f pid s = (case Kill_f (os_f f) pid SIGUSR1 (host s) of
     (None, h) \<Rightarrow> ok () (s\<lparr>host := h\<rparr>)
   | (Some e, h) \<Rightarrow> fails (OtherError (errno_text e)) (s\<lparr>host := h\<rparr>))"

definition WarmUp :: "'h Funclet \<Rightarrow> int \<Rightarrow> code_moment \<Rightarrow> bool \<Rightarrow> (nat \<Rightarrow> HandlingChanMap \<times> 'h \<Rightarrow> HandlingChanMap \<times> 'h) \<Rightarrow> WarmupRequest \<Rightarrow> string option \<Rightarrow> ('h, unit) op" where
  "WarmUp f nowms moment timeout wait params container =
     (let containerID = ContainerID_wr params in
      andthen (from_outcome (deref_field (Args_wr params))) (\<lambda>args.
      andthen (case ScaleUpRecommendation_wa args of None \<Rightarrow> ok () | Some rec \<Rightarrow> scaleUp f container rec) (\<lambda>_.
      andthen (running_pid f containerID container) (\<lambda>pid.
      andthen (from_outcome (deref_field (Configuration_wa args))) (\<lambda>config.
      andthen (code_of args) (\<lambda>code.
      andthen (from_outcome (deref_field (RuntimeConfiguration_wa args))) (\<lambda>rtc.
        let hex = hex_sha config; codePath = GetUserCodePath (CachePath_fo (Options_f f)) hex;
            prepare = prepare_user_code f wait code (CodeSha256_fc config) hex in
      andthen (do_host (MkdirAll (kernel_f f) codePath)) (\<lambda>_.
      andthen (code_turn BeforeConf moment prepare None) (\<lambda>got0.
      andthen (prepareRuntimeConf f nowms container args) (\<lambda>confPath.
      andthen (if stream_mode args rtc then set_stream containerID True else ok ()) (\<lambda>_.
      andthen (code_turn BeforeMounts moment prepare got0) (\<lambda>got1.
      andthen (gets (\<lambda>s. GetPaths containerID (pman s))) (\<lambda>r.
      andthen (from_sum r) (\<lambda>paths.
      andthen (bind_mount_op f [(codePath, DataCodePath paths), (confPath, DataConfigPath paths), (Path_rc rtc, DataRuntimePath paths)]) (\<lambda>_.
      andthen (code_turn DuringWait moment prepare got1) (\<lambda>got2.
      andthen (await_code timeout got2) (\<lambda>_.
        signal_runtime f pid)))))))))))))))))"

definition WarmUpContainerEvent :: "'h Funclet \<Rightarrow> int \<Rightarrow> code_moment \<Rightarrow> bool \<Rightarrow> (nat \<Rightarrow> HandlingChanMap \<times> 'h \<Rightarrow> HandlingChanMap \<times> 'h) \<Rightarrow> WarmupRequest \<Rightarrow> ('h, unit) op" where
  "WarmUpContainerEvent f nowms moment timeout wait params =
     in_event EventWarmup (ContainerID_wr params) [] (WarmUp f nowms moment timeout wait params)"

section \<open>Warming a workspace up\<close>

record BsamFunctionProperties =
  CodeUri_bp :: string
  Handler_bp :: string
  Runtime_bp :: string
  MemorySize_bp :: int
  Timeout_bp :: int
  Environment_bp :: "(string \<times> string) list option option"

record BsamFunctionResource =
  Type_br :: string
  Properties_br :: BsamFunctionProperties

record BsamTemplate =
  TemplateFormatVersion :: string
  Transform_bt :: string
  Description_bt :: string
  Resources_bt :: "(string \<times> BsamFunctionResource) list"

definition NewBsamTemplate :: BsamTemplate where
  "NewBsamTemplate = \<lparr>TemplateFormatVersion = ''2010-09-09'', Transform_bt = ''BCE::Serverless-2018-08-30'', Description_bt = '''', Resources_bt = []\<rparr>"

definition NewBsamFunctionProperties :: "FunctionConfig \<Rightarrow> BsamFunctionProperties outcome" where
  "NewBsamFunctionProperties config =
     obind (deref_field (MemorySize_fcn config)) (\<lambda>mem. obind (deref_field (Timeout_fcn config)) (\<lambda>timeout.
       Value \<lparr>CodeUri_bp = path_Join ''.'' (FunctionName_fc config), Handler_bp = Handler_fc config, Runtime_bp = Runtime_fcn config,
         MemorySize_bp = mem, Timeout_bp = timeout, Environment_bp = Environment_fc config\<rparr>))"

definition NewBsamFunctionResource :: "FunctionConfig \<Rightarrow> BsamFunctionResource outcome" where
  "NewBsamFunctionResource config =
     obind (NewBsamFunctionProperties config) (\<lambda>p. Value \<lparr>Type_br = ''BCE::Serverless::Function'', Properties_br = p\<rparr>)"

definition generateBsamTemplate :: "FunctionConfig \<Rightarrow> BsamTemplate outcome" where
  "generateBsamTemplate config = obind (NewBsamFunctionResource config) (\<lambda>r.
     Value (NewBsamTemplate\<lparr>Resources_bt := [(FunctionName_fc config, r)]\<rparr>))"

definition IDEWarmUp :: "'h Funclet \<Rightarrow> (BsamTemplate \<Rightarrow> string + string) \<Rightarrow> code_moment \<Rightarrow> bool \<Rightarrow> (nat \<Rightarrow> HandlingChanMap \<times> 'h \<Rightarrow> HandlingChanMap \<times> 'h) \<Rightarrow> WarmupRequest \<Rightarrow> string option \<Rightarrow> ('h, unit) op" where
  "IDEWarmUp f yaml moment timeout wait params container =
     (let containerID = ContainerID_wr params in
      andthen (running_pid f containerID container) (\<lambda>_.
      andthen (from_outcome (deref_field (Args_wr params))) (\<lambda>args.
      andthen (from_outcome (deref_field (Configuration_wa args))) (\<lambda>config.
      andthen (code_of args) (\<lambda>code.
      andthen (from_outcome (deref_field (RuntimeConfiguration_wa args))) (\<lambda>rtc.
        let hex = hex_sha config; codePath = GetUserCodePath (CachePath_fo (Options_f f)) hex;
            prepare = prepare_user_code f wait code (CodeSha256_fc config) hex in
      andthen (do_host (MkdirAll (kernel_f f) codePath)) (\<lambda>_.
      andthen (code_turn BeforeMounts moment prepare None) (\<lambda>got1.
      andthen (gets (\<lambda>s. GetPaths containerID (pman s))) (\<lambda>r.
      andthen (from_sum r) (\<lambda>paths.
      andthen (bind_mount_op f [(CodeWorkspacePath paths, DataCodePath paths), (Path_rc rtc, DataRuntimePath paths)]) (\<lambda>_.
      andthen (code_turn DuringWait moment prepare got1) (\<lambda>got2.
      andthen (await_code timeout got2) (\<lambda>_.
      andthen (do_host (Chmod_f (os_f f) (CodeWorkspacePath paths))) (\<lambda>_.
      andthen (do_host (CopyDir_f (os_f f) codePath (path_Join (CodeWorkspacePath paths) (FunctionName_fc config)))) (\<lambda>_.
      andthen (from_outcome (generateBsamTemplate config)) (\<lambda>template.
      andthen (from_sum (yaml template)) (\<lambda>data.
        do_host (WriteFile_f (os_f f) (path_Join (CodeWorkspacePath paths) ''template.yaml'') data))))))))))))))))))"

definition IDEWarmUpContainerEvent :: "'h Funclet \<Rightarrow> (BsamTemplate \<Rightarrow> string + string) \<Rightarrow> code_moment \<Rightarrow> bool \<Rightarrow> (nat \<Rightarrow> HandlingChanMap \<times> 'h \<Rightarrow> HandlingChanMap \<times> 'h) \<Rightarrow> WarmupRequest \<Rightarrow> ('h, unit) op" where
  "IDEWarmUpContainerEvent f yaml moment timeout wait params =
     in_event EventWarmup (ContainerID_wr params) [] (IDEWarmUp f yaml moment timeout wait params)"

section \<open>The process\<close>

text \<open>\<open>InitAllContainers\<close> and \<open>Reset\<close> go on after a failure; \<open>visit\<close> gives the times and answers of each container's start.\<close>

fun init_each :: "'h Funclet \<Rightarrow> (string \<Rightarrow> int) \<Rightarrow> (string \<Rightarrow> net_answers) \<Rightarrow> string list \<Rightarrow> ('h, unit) op" where
  "init_each f nano a [] = ok ()"
| "init_each f nano a (i # is) = andthen (attempt (InitContainerEvent f (nano i) (a i) i)) (\<lambda>_. init_each f nano a is)"

definition InitAllContainers :: "'h Funclet \<Rightarrow> (string \<Rightarrow> int) \<Rightarrow> (string \<Rightarrow> net_answers) \<Rightarrow> ('h, unit) op" where
  "InitAllContainers f nano a =
     init_each f nano a (map (\<lambda>k. generateContainerID (PodName_f f) (int k)) [0..<nat (ContainerNum_fo (Options_f f))])"

fun reset_all :: "'h Funclet \<Rightarrow> (string \<Rightarrow> int) \<Rightarrow> (string \<Rightarrow> net_answers) \<Rightarrow> Container list \<Rightarrow> ('h, unit) op" where
  "reset_all f nano a [] = ok ()"
| "reset_all f nano a (c # cs) =
     andthen (attempt (ResetContainerEvent f nano a \<lparr>ContainerID_rr = ID_rc c, ScaleDownRecommendation_rr = None\<rparr>)) (\<lambda>_. reset_all f nano a cs)"

definition fn_Reset :: "'h Funclet \<Rightarrow> (string \<Rightarrow> int) \<Rightarrow> (string \<Rightarrow> net_answers) \<Rightarrow> ('h, unit) op" where
  "fn_Reset f nano a = andthen (on_host (ListContainers_cm (containers_f f))) (\<lambda>l. reset_all f nano a l)"

text \<open>\<open>checkRootfs\<close> looks once a second until the ticker fires; \<open>looks\<close> is the number of looks before that.\<close>

datatype rootfs_stat = RootfsThere | RootfsMissing | RootfsError

fun checkRootfs :: "('h \<Rightarrow> rootfs_stat \<times> 'h) \<Rightarrow> nat \<Rightarrow> 'h action" where
  "checkRootfs look 0 h = (Some ''prepare rootfs error '', h)"
| "checkRootfs look (Suc n) h = (case look h of
     (RootfsThere, h1) \<Rightarrow> (None, h1)
   | (RootfsMissing, h1) \<Rightarrow> checkRootfs look n h1
   | (RootfsError, h1) \<Rightarrow> (Some ''prepare rootfs error '', h1))"

text \<open>The start of the funclet after its managers have been made: \<open>init_network\<close> is the set-up of the bridge.\<close>

definition start_funclet :: "'h Funclet \<Rightarrow> ('h \<Rightarrow> rootfs_stat \<times> 'h) \<Rightarrow> nat \<Rightarrow> Info list \<Rightarrow> 'h action \<Rightarrow> (string \<Rightarrow> int) \<Rightarrow> (string \<Rightarrow> net_answers) \<Rightarrow> ('h, unit) op" where
  "start_funclet f look looks mounts init_network nano a =
     andthen (do_host (checkRootfs look looks)) (\<lambda>_.
     andthen (do_host (MakeShared (kernel_f f) mounts (RunnerDataPath_pc (pathConfig_f f)))) (\<lambda>_.
     andthen (do_host init_network) (\<lambda>_.
       InitAllContainers f nano a)))"

definition GetPathConfig :: "string \<Rightarrow> string \<Rightarrow> FuncletOptions \<Rightarrow> PathConfig" where
  "GetPathConfig runnerDataPath runnerSpecPath o1 = (let r = RunnerSpecOption_fo o1 in
     \<lparr>RunningMode_pc = RunningMode_fo o1, RunnerDataPath_pc = runnerDataPath, RunnerSpecPath_pc = runnerSpecPath, RunnerTmpPath_pc = RunnersTmpPath,
      CodeWorkspacePath_pc = CodeWorkspacePath_tmp, EtcPath_pc = EtcPath_so r, CodePath_pc = CodePath_so r, ConfPath_pc = ConfPath_so r,
      RuntimePath_pc = RuntimePath_so r\<rparr>)"

text \<open>When the process is told to stop, all containers are thawed.\<close>

fun thaw_each :: "'h Funclet \<Rightarrow> Container list \<Rightarrow> ('h, unit) op" where
  "thaw_each f [] = ok ()"
| "thaw_each f (c # cs) = andthen (attempt (do_host (ThawContainer_rm (resources_f f) (ID_rc c)))) (\<lambda>_. thaw_each f cs)"

definition stop_funclet :: "'h Funclet \<Rightarrow> ('h, unit) op" where
  "stop_funclet f = andthen (attempt (on_host (ListContainers_cm (containers_f f)))) (\<lambda>r.
     thaw_each f (case r of Inl _ \<Rightarrow> [] | Inr l \<Rightarrow> l))"

definition recycle :: "'h Funclet \<Rightarrow> ((uint32 \<times> string) list \<Rightarrow> (uint32 \<times> string) list) \<Rightarrow> ('h, unit) op" where
  "recycle f visit s = (case tmpRecycleTask (quota_f f) visit (pman s) (quota s) (host s) of
     None \<Rightarrow> None
   | Some (err, q, h) \<Rightarrow> ok () (s\<lparr>quota := q, host := h\<rparr>))"

section \<open>The handlers\<close>

text \<open>What a handler writes to the response, in order.\<close>

datatype 'a reply = Entity 'a | ErrorString string | ServiceError string

definition answer :: "('h, 'a) op \<Rightarrow> ('h, 'a reply list) op" where
  "answer m = andthen (attempt m) (\<lambda>r. ok (case r of Inl e \<Rightarrow> [ServiceError (fn_Error e)] | Inr x \<Rightarrow> [Entity x]))"

definition answer_twice :: "('h, 'a) op \<Rightarrow> ('h, 'a reply list) op" where
  "answer_twice m = andthen (attempt m) (\<lambda>r. ok (case r of Inl e \<Rightarrow> [ErrorString (fn_Error e), ServiceError (fn_Error e)] | Inr x \<Rightarrow> [Entity x]))"

definition with_params :: "string + 'p \<Rightarrow> ('p \<Rightarrow> ('h, 'a reply list) op) \<Rightarrow> ('h, 'a reply list) op" where
  "with_params body h = (case body of Inl e \<Rightarrow> ok [ServiceError e] | Inr p \<Rightarrow> h p)"

definition WarmUpHandler :: "'h Funclet \<Rightarrow> int \<Rightarrow> code_moment \<Rightarrow> bool \<Rightarrow> (nat \<Rightarrow> HandlingChanMap \<times> 'h \<Rightarrow> HandlingChanMap \<times> 'h) \<Rightarrow> string + WarmupRequest \<Rightarrow> ('h, ContainerInfo reply list) op" where
  "WarmUpHandler f nowms moment timeout wait body = with_params body (\<lambda>params.
     answer (andthen (WarmUpContainerEvent f nowms moment timeout wait params) (\<lambda>_.
       andthen (gets (\<lambda>s. cmap s (ContainerID_wr params))) (\<lambda>c. from_outcome (deref_field c)))))"

definition IDEWarmUpHandler :: "'h Funclet \<Rightarrow> (BsamTemplate \<Rightarrow> string + string) \<Rightarrow> code_moment \<Rightarrow> bool \<Rightarrow> (nat \<Rightarrow> HandlingChanMap \<times> 'h \<Rightarrow> HandlingChanMap \<times> 'h) \<Rightarrow> string + WarmupRequest \<Rightarrow> ('h, ContainerInfo reply list) op" where
  "IDEWarmUpHandler f yaml moment timeout wait body = with_params body (\<lambda>params.
     answer (andthen (IDEWarmUpContainerEvent f yaml moment timeout wait params) (\<lambda>_.
       andthen (gets (\<lambda>s. cmap s (ContainerID_wr params))) (\<lambda>c. from_outcome (deref_field c)))))"

text \<open>An error of the reset is written and the response with it dropped.\<close>

definition CoolDownHandler :: "'h Funclet \<Rightarrow> (string \<Rightarrow> int) \<Rightarrow> (string \<Rightarrow> net_answers) \<Rightarrow> string + ResetRequest \<Rightarrow> ('h, ResetResponse option reply list) op" where
  "CoolDownHandler f nano a body = with_params body (\<lambda>params.
     answer (andthen (ResetContainerEvent f nano a params) (\<lambda>(err, res). case err of Some e \<Rightarrow> fails e | None \<Rightarrow> ok res)))"

definition RebornHandler :: "'h Funclet \<Rightarrow> (string \<Rightarrow> int) \<Rightarrow> (string \<Rightarrow> net_answers) \<Rightarrow> string + ResetRequest \<Rightarrow> ('h, ResetResponse option reply list) op" where
  "RebornHandler f nano a body = CoolDownHandler f nano a body"

definition ResetHandler :: "'h Funclet \<Rightarrow> (string \<Rightarrow> int) \<Rightarrow> (string \<Rightarrow> net_answers) \<Rightarrow> ('h, unit reply list) op" where
  "ResetHandler f nano a = answer_twice (fn_Reset f nano a)"

definition ContainerListHandler :: "'h Funclet \<Rightarrow> string list \<Rightarrow> string \<Rightarrow> ('h, ContainerInfo list reply list) op" where
  "ContainerListHandler f keys criteria = answer_twice (\<lambda>s. case fn_List (RuntimeClient f) keys criteria (cmap s, host s) of
     Panic e \<Rightarrow> Some (Panic e)
   | Value (r, m, h) \<Rightarrow> Some (Value (r, s\<lparr>cmap := m, host := h\<rparr>)))"

definition ContainerInfoHandler :: "'h Funclet \<Rightarrow> string \<Rightarrow> ('h, ContainerInfo reply list) op" where
  "ContainerInfoHandler f containerID =
     (if containerID = '''' then ok [ServiceError ''get container from url path'']
      else answer_twice (\<lambda>s. case fn_ContainerInfo (RuntimeClient f) containerID (cmap s, host s) of
        Panic e \<Rightarrow> Some (Panic e)
      | Value (r, m, h) \<Rightarrow> Some (Value (r, s\<lparr>cmap := m, host := h\<rparr>))))"

definition GetNodeHandler :: "'h Funclet \<Rightarrow> ('h, FuncletResource reply list) op" where
  "GetNodeHandler f = ok [Entity (NodeInfo (RuntimeClient f))]"

section \<open>What operations leave alone\<close>

named_theorems keeps_intros "operations that leave a part of the state alone"

definition keeps :: "('h fn_state \<Rightarrow> 'b) \<Rightarrow> ('h, 'a) op \<Rightarrow> bool" where
  "keeps g m \<longleftrightarrow> (\<forall>s r s'. m s = Some (Value (r, s')) \<longrightarrow> g s' = g s)"

lemma keepsD: "keeps g m \<Longrightarrow> m s = Some (Value (r, s')) \<Longrightarrow> g s' = g s"
  by (auto simp: keeps_def)

lemma andthen_Value:
  assumes "andthen m f s = Some (Value (r, s'))"
  obtains (failed) e where "m s = Some (Value (Inl e, s'))" "r = Inl e"
    | (went_on) x s1 where "m s = Some (Value (Inr x, s1))" "f x s1 = Some (Value (r, s'))"
  using assms by (auto simp: andthen_def split: option.splits outcome.splits sum.splits)

lemma andthen_Inr:
  assumes "andthen m f s = Some (Value (Inr y, s'))"
  obtains x s1 where "m s = Some (Value (Inr x, s1))" "f x s1 = Some (Value (Inr y, s'))"
  using assms by (rule andthen_Value) auto

lemma attempt_Value: "attempt m s = Some (Value (r, s')) \<longleftrightarrow> (\<exists>x. m s = Some (Value (x, s')) \<and> r = Inr x)"
  by (auto simp: attempt_def split: option.splits outcome.splits)

lemma relabel_Value: "relabel g m s = Some (Value (r, s')) \<longleftrightarrow> (\<exists>x. m s = Some (Value (x, s')) \<and> r = map_sum g id x)"
  by (auto simp: relabel_def split: option.splits outcome.splits)

lemma relabel_Inr: "relabel g m s = Some (Value (Inr x, s')) \<longleftrightarrow> m s = Some (Value (Inr x, s'))"
proof -
  have "Inr x = map_sum g id y \<longleftrightarrow> y = Inr x" for y :: "fn_error + 'a" by (cases y) auto
  then show ?thesis by (auto simp: relabel_Value)
qed

lemma from_sum_Value: "from_sum r s = Some (Value (x, s')) \<longleftrightarrow> s' = s \<and> x = map_sum OtherError id r"
  by (auto simp: from_sum_def fails_def ok_def split: sum.splits)

lemma from_outcome_Value: "from_outcome r s = Some (Value (x, s')) \<longleftrightarrow> (\<exists>v. r = Value v \<and> s' = s \<and> x = Inr v)"
  by (auto simp: from_outcome_def panics_def ok_def split: outcome.splits)

lemma deref_Value: "from_outcome (deref_field p) s = Some (Value (x, s')) \<longleftrightarrow> (\<exists>v. p = Some v \<and> s' = s \<and> x = Inr v)"
  by (auto simp: from_outcome_Value outcome_simps)

lemma gets_Value: "gets f s = Some (Value (x, s')) \<longleftrightarrow> s' = s \<and> x = Inr (f s)"
  by (auto simp: gets_def ok_def)

lemma update_state_Value: "update_state f s = Some (Value (x, s')) \<longleftrightarrow> s' = f s \<and> x = Inr ()"
  by (auto simp: update_state_def ok_def)

lemma ok_Value: "ok y s = Some (Value (x, s')) \<longleftrightarrow> s' = s \<and> x = Inr y"
  by (auto simp: ok_def)

lemma fails_Value: "fails e s = Some (Value (x, s')) \<longleftrightarrow> s' = s \<and> x = Inl e"
  by (auto simp: fails_def)

lemma panics_Value: "panics e s \<noteq> Some (Value r)"
  by (simp add: panics_def)

lemma on_host_Value: "on_host c s = Some (Value (x, s')) \<longleftrightarrow> (\<exists>r h. c (host s) = (r, h) \<and> s' = s\<lparr>host := h\<rparr> \<and> x = map_sum OtherError id r)"
  by (auto simp: on_host_def from_sum_Value split: prod.splits)

lemma do_host_Value: "do_host a s = Some (Value (x, s')) \<longleftrightarrow>
    (\<exists>r h. a (host s) = (r, h) \<and> s' = s\<lparr>host := h\<rparr> \<and> x = (case r of None \<Rightarrow> Inr () | Some e \<Rightarrow> Inl (OtherError e)))"
  by (auto simp: do_host_def fails_Value ok_Value split: prod.splits option.splits)

lemma do_host_Inr: "do_host a s = Some (Value (Inr u, s')) \<longleftrightarrow> (\<exists>h. a (host s) = (None, h) \<and> s' = s\<lparr>host := h\<rparr>)"
  by (auto simp: do_host_Value split: option.splits)

lemmas op_Value = attempt_Value relabel_Value from_sum_Value from_outcome_Value gets_Value update_state_Value ok_Value fails_Value panics_Value

lemma keeps_ok [keeps_intros]: "keeps g (ok x)"
  and keeps_fails [keeps_intros]: "keeps g (fails e)"
  and keeps_panics [keeps_intros]: "keeps g (panics t)"
  and keeps_from_sum [keeps_intros]: "keeps g (from_sum r)"
  and keeps_from_outcome [keeps_intros]: "keeps g (from_outcome v)"
  and keeps_gets [keeps_intros]: "keeps g (gets k)"
  by (auto simp: keeps_def op_Value)

lemma keeps_andthen [keeps_intros]: "keeps g m \<Longrightarrow> (\<And>x. keeps g (f x)) \<Longrightarrow> keeps g (andthen m f)"
  unfolding keeps_def by (auto elim!: andthen_Value)

lemma keeps_attempt [keeps_intros]: "keeps g m \<Longrightarrow> keeps g (attempt m)"
  by (auto simp: keeps_def attempt_Value)

lemma keeps_relabel [keeps_intros]: "keeps g m \<Longrightarrow> keeps g (relabel k m)"
  by (auto simp: keeps_def relabel_Value)

lemma keeps_if [keeps_intros]: "(P \<Longrightarrow> keeps g m) \<Longrightarrow> (\<not> P \<Longrightarrow> keeps g n) \<Longrightarrow> keeps g (if P then m else n)"
  by simp

lemma keeps_case_option [keeps_intros]: "(x = None \<Longrightarrow> keeps g m) \<Longrightarrow> (\<And>y. x = Some y \<Longrightarrow> keeps g (n y)) \<Longrightarrow> keeps g (case x of None \<Rightarrow> m | Some y \<Rightarrow> n y)"
  by (cases x) simp_all

lemma keeps_case_sum [keeps_intros]: "(\<And>e. x = Inl e \<Longrightarrow> keeps g (m e)) \<Longrightarrow> (\<And>y. x = Inr y \<Longrightarrow> keeps g (n y)) \<Longrightarrow> keeps g (case x of Inl e \<Rightarrow> m e | Inr y \<Rightarrow> n y)"
  by (cases x) simp_all

lemma keeps_case_prod [keeps_intros]: "(\<And>a b. keeps g (m a b)) \<Longrightarrow> keeps g (case x of (a, b) \<Rightarrow> m a b)"
  by (cases x) simp

lemma keeps_Let [keeps_intros]: "keeps g (m v) \<Longrightarrow> keeps g (Let v m)"
  by simp

text \<open>The parts the events work on are kept apart: what only touches the host keeps all others.\<close>

definition beside_host :: "('h fn_state \<Rightarrow> 'b) \<Rightarrow> bool" where
  "beside_host g \<longleftrightarrow> (\<forall>s h. g (s\<lparr>host := h\<rparr>) = g s)"

lemma keeps_on_host: "beside_host g \<Longrightarrow> keeps g (on_host c)"
  and keeps_do_host: "beside_host g \<Longrightarrow> keeps g (do_host a)"
  by (auto simp: keeps_def beside_host_def on_host_Value do_host_Value)

abbreviation locks :: "'h fn_state \<Rightarrow> string \<rightharpoonup> nat" where
  "locks s \<equiv> lock_of (cmap s)"

lemma beside_locks [simp]: "beside_host locks"
  and beside_pman [simp]: "beside_host pman"
  by (simp_all add: beside_host_def)

lemmas keeps_host_locks [keeps_intros] = keeps_on_host [OF beside_locks] keeps_do_host [OF beside_locks]
lemmas keeps_host_pman [keeps_intros] = keeps_on_host [OF beside_pman] keeps_do_host [OF beside_pman]

lemma keeps_set_pid [keeps_intros]: "keeps locks (set_pid i pid)" "keeps pman (set_pid i pid)"
  and keeps_set_stream [keeps_intros]: "keeps locks (set_stream i b)" "keeps pman (set_stream i b)"
  and keeps_unset_net [keeps_intros]: "keeps locks (unset_net pid)" "keeps pman (unset_net pid)"
  by (auto simp: keeps_def set_pid_def set_stream_def unset_net_def update_state_Value UpdateContainerPid_def UpdateContainerStreamMode_def Exist_def lock_of_def
      split: option.splits)

lemma keeps_generate [keeps_intros]: "keeps locks (generate_paths f nano i)"
  and keeps_get_tmp [keeps_intros]: "keeps locks (get_tmp f n)" "keeps pman (get_tmp f n)"
  and keeps_remove_tmp [keeps_intros]: "keeps locks (RemoveTmpDevice f n)" "keeps pman (RemoveTmpDevice f n)"
  and keeps_set_net [keeps_intros]: "keeps locks (set_net f a pid)" "keeps pman (set_net f a pid)"
  and keeps_outdate [keeps_intros]: "keeps locks (outdate_paths i)"
  and keeps_signal [keeps_intros]: "keeps locks (signal_runtime f pid)"
  and keeps_user_code [keeps_intros]: "keeps locks (prepare_user_code f wait code sha hex)"
  and keeps_wait [keeps_intros]: "keeps locks (WaitForContainerExits f i)" "keeps pman (WaitForContainerExits f i)"
  and keeps_scale_config [keeps_intros]: "keeps locks (scale_config f memory)"
  by (auto simp: keeps_def generate_paths_def get_tmp_def RemoveTmpDevice_def set_net_def outdate_paths_def signal_runtime_def prepare_user_code_def
      WaitForContainerExits_def scale_config_def from_sum_Value ok_Value fails_Value split: prod.splits option.splits outcome.splits if_splits)

lemma keeps_start [keeps_intros]: "keeps locks (StartContainer f i)" "keeps pman (StartContainer f i)"
  unfolding StartContainer_def initializeIO_def by (intro keeps_intros)+

lemma keeps_config_dir [keeps_intros]: "keeps locks (PrepareConfigDir f i p)" "keeps pman (PrepareConfigDir f i p)"
  unfolding PrepareConfigDir_def GenerateHostsFile_def by (intro keeps_intros)+

lemma keeps_config_data [keeps_intros]: "keeps locks (prepareConfigData f i cp)" "keeps pman (prepareConfigData f i cp)"
  unfolding prepareConfigData_def appendContainerHosts_def AppendHostsFile_def by (intro keeps_intros)+

lemma keeps_InitContainer [keeps_intros]: "keeps locks (InitContainer f nano a c)"
  unfolding InitContainer_def by (intro keeps_intros)

lemma keeps_status [keeps_intros]: "keeps locks (container_status f i)" "keeps pman (container_status f i)"
  unfolding container_status_def by (intro keeps_intros)+

lemma keeps_stop [keeps_intros]: "keeps locks (StopContainer f i b)" "keeps pman (StopContainer f i b)"
  unfolding StopContainer_def by (intro keeps_intros)+

lemma keeps_delete [keeps_intros]: "keeps locks (DeleteContainer f i)" "keeps pman (DeleteContainer f i)"
  unfolding DeleteContainer_def by (intro keeps_intros)+

lemma keeps_pid_file [keeps_intros]: "keeps locks (GetPidFromFile f i)" "keeps pman (GetPidFromFile f i)"
  unfolding GetPidFromFile_def by (intro keeps_intros)+

lemma keeps_clear [keeps_intros]: "keeps locks (clear_container f i)"
  unfolding clear_container_def by (intro keeps_intros)

lemma keeps_ResetContainer [keeps_intros]: "keeps locks (ResetContainer f nano a c)"
  unfolding ResetContainer_def by (intro keeps_intros)

lemma keeps_memory [keeps_intros]: "keeps locks (memory_stats f i)" "keeps locks (update_resource f i rc)"
  unfolding memory_stats_def update_resource_def by (intro keeps_intros)+

lemma keeps_minimum [keeps_intros]: "keeps locks (scaleDownContainerToMinimum f i)" "keeps locks (scaleUpContainer f i rc)"
  unfolding scaleDownContainerToMinimum_def scaleUpContainer_def by (intro keeps_intros)+

lemma keeps_all_exist [keeps_intros]: "keeps locks (all_exist f is)"
  by (induction "is") (auto intro!: keeps_intros)

lemma keeps_freeze [keeps_intros]: "keeps locks (freeze_each f is)"
  by (induction "is") (auto intro!: keeps_intros)

lemma keeps_scaleUp [keeps_intros]: "keeps locks (scaleUp f c r)"
  unfolding scaleUp_def by (intro keeps_intros)

lemma keeps_conf [keeps_intros]: "keeps locks (prepareRuntimeConf f t c args)"
  unfolding prepareRuntimeConf_def prepareEnvConf_def by (intro keeps_intros)

lemma keeps_running [keeps_intros]: "keeps locks (running_pid f i c)"
  unfolding running_pid_def by (intro keeps_intros)

lemma keeps_code_turn [keeps_intros]: "keeps g m \<Longrightarrow> keeps g (code_turn now moment m got)"
  unfolding code_turn_def by (intro keeps_intros)

lemma keeps_await_code [keeps_intros]: "keeps g (await_code timeout got)"
  by (cases got; cases "the got") (simp_all add: await_code_def keeps_intros)

lemma keeps_WarmUp [keeps_intros]: "keeps locks (WarmUp f t x b w p c)"
  unfolding WarmUp_def code_of_def bind_mount_op_def by (intro keeps_intros)

lemma keeps_IDEWarmUp [keeps_intros]: "keeps locks (IDEWarmUp f y x b w p c)"
  unfolding IDEWarmUp_def code_of_def bind_mount_op_def by (intro keeps_intros)

lemma fn_ContainerInfo_locks: "fn_ContainerInfo rt i (m, h) = Value (r, m', h') \<Longrightarrow> lock_of m' = lock_of m"
  by (auto simp: fn_ContainerInfo_def Exist_def lock_of_def Let_def split: option.splits prod.splits sum.splits)

lemma bulk_infos_locks: "bulk_infos rt is acc (m, h) = Value (r, m', h') \<Longrightarrow> lock_of m' = lock_of m"
proof (induction "is" arbitrary: acc m h)
  case (Cons i "is")
  then obtain x m1 h1 where 1: "fn_ContainerInfo rt i (m, h) = Value (x, m1, h1)"
    by (cases "fn_ContainerInfo rt i (m, h)") auto
  show ?case
  proof (cases x)
    case (Inl e)
    then show ?thesis using Cons.prems 1 fn_ContainerInfo_locks [OF 1] by simp
  next
    case (Inr info)
    then show ?thesis using Cons.prems Cons.IH [of _ m1 h1] 1 fn_ContainerInfo_locks [OF 1] by simp
  qed
qed simp

lemma keeps_bulk_get [keeps_intros]: "keeps locks (bulk_get f ids)"
  unfolding keeps_def bulk_get_def BulkGetContainers_def
  by (auto split: outcome.splits option.splits prod.splits dest: bulk_infos_locks)

lemma keeps_reset_each [keeps_intros]: "keeps locks (reset_each f n a is acc)"
proof (induction "is" arbitrary: acc)
  case (Cons i "is")
  then show ?case unfolding reset_each.simps by (intro keeps_intros)
qed (simp add: keeps_ok)

lemma keeps_fn_ResetContainers [keeps_intros]: "keeps locks (fn_ResetContainers f n a p c)"
proof -
  have "keeps locks (case (r, ScaleDownRecommendation_rr p) of
      (Inl e, None) \<Rightarrow> ok (Some e, None)
    | (Inl e, Some rec) \<Rightarrow> (case c of None \<Rightarrow> panics nil_dereference
        | Some cid \<Rightarrow> andthen (attempt (bulk_get f (ResetContainers rec @ [cid]))) (\<lambda>l. ok (Some e, Some (response_with [] l))))
    | (Inr x, None) \<Rightarrow> ok (None, None)
    | (Inr x, Some rec) \<Rightarrow> andthen (reset_each f n a (ResetContainers rec) ([], [])) (\<lambda>(failed, success).
        andthen (attempt (bulk_get f failed)) (\<lambda>l. ok (None, Some (response_with success l)))))" for r :: "fn_error + unit"
    by (cases r; cases "ScaleDownRecommendation_rr p") (auto intro!: keeps_intros)
  then show ?thesis unfolding fn_ResetContainers_def by (intro keeps_intros)
qed

section \<open>Events give their locks back\<close>

lemma in_event_locks:
  assumes "in_event ev t ids body s = Some (Value (r, s'))" "\<And>i. locks s i \<in> {None, Some 0, Some 1}" "\<And>c. keeps locks (body c)"
  shows "locks s' = (if locks s t = Some 1 then \<lambda>i. if i \<in> set ids \<and> locks s i \<noteq> None then Some 1 else locks s i else locks s)"
proof (cases "enter_event ev t ids (cmap s)")
  case (Pair x m)
  show ?thesis
  proof (cases x)
    case (Inl e)
    then have "locks s t \<noteq> Some 1" using Pair by (auto simp: enter_event_def LockContainer_cases split: option.splits nat.splits)
    then show ?thesis using assms(1) Pair Inl enter_event_refused [of ev t ids "cmap s" e m] by (auto simp: in_event_def fails_def)
  next
    case (Inr held)
    note enter = Pair [unfolded Inr]
    let ?s1 = "s\<lparr>cmap := m\<rparr>"
    obtain r2 s2 m2 where run: "body (container_of t ?s1) ?s1 = Some (Value (r2, s2))" "leave_event held (cmap s2) = Some m2" "s' = s2\<lparr>cmap := m2\<rparr>"
      using assms(1) enter by (auto simp: in_event_def Let_def split: option.splits outcome.splits)
    have t: "locks s t = Some 1" and m: "lock_of m = (\<lambda>i. if i \<in> set (t # ids) \<and> locks s i \<noteq> None then Some 0 else locks s i)"
      using enter_event_locks [OF enter assms(2)] by blast+
    have held: "held = rev ids @ [t]" using enter_event_held [OF enter] .
    have s2: "locks s2 = lock_of m" using keepsD [OF assms(3) run(1)] by simp
    show ?thesis using leave_event_locks [OF run(2)] run(3) t unfolding s2 m held by (auto simp: fun_eq_iff)
  qed
qed

text \<open>C10: What an event does to the locks, whether its work succeeds or fails on any of its steps. A warm-up that returns leaves every
  lock as it was. So does a reset whose target is unknown or held by another event; any other reset that returns leaves every lock
  as it was but those of the known containers it recommends, which are free afterwards even when another event held them before. (The
  locks of the model hold at most one token, as those of the code do.)\<close>

theorem events_return_locks:
  assumes "\<And>i. lock_of (cmap s) i \<in> {None, Some 0, Some 1}"
    and "ResetContainerEvent f nano a params s = Some (Value (r, s'))"
    and "WarmUpContainerEvent f nowms moment timeout wait request s' = Some (Value (r', s''))"
  defines "recommended \<equiv> case ScaleDownRecommendation_rr params of None \<Rightarrow> {} | Some rec \<Rightarrow> set (ResetContainers rec)"
  shows "lock_of (cmap s') = (if lock_of (cmap s) (ContainerID_rr params) = Some 1
      then \<lambda>i. if i \<in> recommended \<and> lock_of (cmap s) i \<noteq> None then Some 1 else lock_of (cmap s) i else lock_of (cmap s)) \<and>
    lock_of (cmap s'') = lock_of (cmap s')"
proof -
  have 1: "locks s' = (if locks s (ContainerID_rr params) = Some 1
      then \<lambda>i. if i \<in> recommended \<and> locks s i \<noteq> None then Some 1 else locks s i else locks s)"
    using in_event_locks [OF assms(2) [unfolded ResetContainerEvent_def] assms(1) keeps_fn_ResetContainers]
    by (cases "ScaleDownRecommendation_rr params") (simp_all add: recommended_def)
  have b: "locks s' i \<in> {None, Some 0, Some 1}" for i using assms(1) [of i] unfolding 1 by auto
  have "locks s'' = locks s'"
    using in_event_locks [OF assms(3) [unfolded WarmUpContainerEvent_def] b keeps_WarmUp] by (auto simp: fun_eq_iff)
  then show ?thesis using 1 by simp
qed

section \<open>A reset container starts afresh\<close>

text \<open>How a start ends: the container is started with its directories in place, the runtime is asked for its process right afterwards,
  and what is left to do with the answer leads to the final state.\<close>

definition started_then_read :: "'h Funclet \<Rightarrow> net_answers \<Rightarrow> string \<Rightarrow> ContainerPaths \<Rightarrow> Container \<Rightarrow> 'h fn_state \<Rightarrow> bool" where
  "started_then_read f a i cp c s' \<longleftrightarrow> (\<exists>s1 s2 h. containersPath (pman s1) i = Some cp \<and>
     StartContainer f i s1 = Some (Value (Inr (), s2)) \<and> ContainerInfo_cm (containers_f f) i (host s2) = (Inr (Some c), h) \<and>
     andthen (set_net f a (Pid_rc c)) (\<lambda>_. andthen (set_stream i False) (\<lambda>_. set_pid i (Pid_rc c))) (s2\<lparr>host := h\<rparr>) = Some (Value (Inr (), s')))"

lemma InitContainer_done:
  assumes "InitContainer f nano a (Some i) s = Some (Value (Inr u, s'))"
  obtains cp c where "containersPath (pman s) i = None" "pman s' = (pman s)\<lparr>containersPath := (containersPath (pman s))(i \<mapsto> cp)\<rparr>"
    "PathName cp = path_name i nano"
    "\<forall>info. cmap s' i = Some info \<longrightarrow> HostPid info = Pid_rc c \<and> \<not> WithStreamMode_ci info"
    "started_then_read f a i cp c s'"
proof -
  from assms obtain cp s1 x2 s2 x3 s3 x4 s4 x5 s5 info s6 c s7 x8 s8 x9 s9 where
    1: "generate_paths f nano i s = Some (Value (Inr cp, s1))" and 2: "get_tmp f (PathName cp) s1 = Some (Value (Inr x2, s2))"
    and 3: "PrepareConfigDir f i (SpecConfigPath cp) s2 = Some (Value (Inr x3, s3))" and 4: "prepareConfigData f i cp s3 = Some (Value (Inr x4, s4))"
    and 5: "StartContainer f i s4 = Some (Value (Inr x5, s5))" and 6: "on_host (ContainerInfo_cm (containers_f f) i) s5 = Some (Value (Inr info, s6))"
    and 7: "from_outcome (deref_field info) s6 = Some (Value (Inr c, s7))" and 8: "set_net f a (Pid_rc c) s7 = Some (Value (Inr x8, s8))"
    and 9: "set_stream i False s8 = Some (Value (Inr x9, s9))" and last: "set_pid i (Pid_rc c) s9 = Some (Value (Inr u, s'))"
    unfolding InitContainer_def option.case by (elim andthen_Inr) (rule that)
  have keep: "pman s' = pman s1"
    using keepsD [OF keeps_get_tmp(2) 2] keepsD [OF keeps_config_dir(2) 3] keepsD [OF keeps_config_data(2) 4] keepsD [OF keeps_start(2) 5]
      keepsD [OF keeps_host_pman(1) 6] keepsD [OF keeps_from_outcome [of pman] 7] keepsD [OF keeps_set_net(2) 8] keepsD [OF keeps_set_stream(2) 9]
      keepsD [OF keeps_set_pid(2) last] by simp
  obtain r m h where g: "GeneratePaths (kernel_f f) (pathConfig_f f) nano i (pman s) (host s) = (r, m, h)" by (metis prod.exhaust)
  have r: "r = Inr cp" "s1 = s\<lparr>pman := m, host := h\<rparr>"
    using 1 g by (cases r; auto simp: generate_paths_def from_sum_Value)+
  have made: "containersPath (pman s) i = None \<and> m = (pman s)\<lparr>containersPath := (containersPath (pman s))(i \<mapsto> cp)\<rparr> \<and> PathName cp = path_name i nano"
    using g [unfolded r(1)]
  proof (cases rule: GeneratePaths_cases)
    case refused
    have "containersPath (pman s) i = None"
      using g r(1) by (auto simp: GeneratePaths_def newContainerPaths_def split: if_splits)
    with refused g r(1) show ?thesis
      by (auto simp: GeneratePaths_def newContainerPaths_def Let_def split: prod.splits option.splits)
  next
    case failed
    with g r(1) show ?thesis by (auto simp: GeneratePaths_def newContainerPaths_def Let_def split: prod.splits option.splits)
  qed auto
  show thesis
  proof (rule that)
    show "containersPath (pman s) i = None" "PathName cp = path_name i nano" using made by blast+
    show "pman s' = (pman s)\<lparr>containersPath := (containersPath (pman s))(i \<mapsto> cp)\<rparr>" using keep r(2) made by simp
    show "\<forall>j. cmap s' i = Some j \<longrightarrow> HostPid j = Pid_rc c \<and> \<not> WithStreamMode_ci j"
      using last 9
      by (auto simp: set_pid_def set_stream_def update_state_Value UpdateContainerPid_def UpdateContainerStreamMode_def Exist_def split: option.splits)
    have info: "info = Some c" "s7 = s6" using 7 by (auto simp: deref_Value)
    have i6: "ContainerInfo_cm (containers_f f) i (host s5) = (Inr (Some c), host s6) \<and> s6 = s5\<lparr>host := host s6\<rparr>"
      using 6 info(1) by (auto simp: on_host_Value) (metis map_sum.simps old.sum.exhaust id_apply sum.inject(2) sum.distinct(1))
    have "pman s4 = pman s1"
      using keepsD [OF keeps_get_tmp(2) 2] keepsD [OF keeps_config_dir(2) 3] keepsD [OF keeps_config_data(2) 4] by simp
    then have "containersPath (pman s4) i = Some cp" using r(2) made by simp
    moreover have "andthen (set_net f a (Pid_rc c)) (\<lambda>_. andthen (set_stream i False) (\<lambda>_. set_pid i (Pid_rc c))) s6 = Some (Value (Inr (), s'))"
      using 8 9 last info(2) by (simp add: andthen_def)
    ultimately show "started_then_read f a i cp c s'" unfolding started_then_read_def using 5 i6 by (metis (full_types) unit.exhaust)
  qed
qed

lemma clear_container_done:
  assumes "clear_container f i s = Some (Value (Inr u, s'))"
  shows "pman s' = (case containersPath (pman s) i of None \<Rightarrow> pman s | Some p \<Rightarrow> snd (OutdatePaths i (pman s)))"
proof -
  from assms obtain r s1 x2 s2 cp s3 where
    1: "attempt (GetPidFromFile f i) s = Some (Value (Inr r, s1))"
    and 2: "(case r of Inr pid \<Rightarrow> if pid \<noteq> 0 then unset_net pid else ok () | Inl _ \<Rightarrow> ok ()) s1 = Some (Value (Inr x2, s2))"
    and 3: "gets (\<lambda>s. GetPaths i (pman s)) s2 = Some (Value (Inr cp, s3))"
    and 4: "(case cp of Inl _ \<Rightarrow> ok ()
      | Inr p \<Rightarrow> andthen (if PathName p \<noteq> [] then RemoveTmpDevice f (PathName p) else ok ()) (\<lambda>_. outdate_paths i)) s3 = Some (Value (Inr u, s'))"
    unfolding clear_container_def by (elim andthen_Inr) (rule that)
  have 12: "pman s2 = pman s"
    using keepsD [OF keeps_attempt [OF keeps_pid_file(2)] 1] 2
    by (auto simp: unset_net_def update_state_Value ok_Value split: sum.splits if_splits)
  have s3: "s3 = s2" "cp = GetPaths i (pman s)" using 3 12 by (auto simp: gets_Value)
  show ?thesis
  proof (cases "containersPath (pman s) i")
    case None
    then show ?thesis using 4 s3 12 by (auto simp: GetPaths_def ok_Value)
  next
    case (Some p)
    have 5: "andthen (if PathName p \<noteq> [] then RemoveTmpDevice f (PathName p) else ok ()) (\<lambda>_. outdate_paths i) s2 = Some (Value (Inr u, s'))"
      using 4 s3 Some by (simp add: GetPaths_def)
    then obtain x6 s6 where 6: "(if PathName p \<noteq> [] then RemoveTmpDevice f (PathName p) else ok ()) s2 = Some (Value (Inr x6, s6))"
      and 7: "outdate_paths i s6 = Some (Value (Inr u, s'))" by (elim andthen_Inr)
    have "pman s6 = pman s" using keepsD [OF keeps_if [OF keeps_remove_tmp(2) keeps_ok] 6] 12 by simp
    then show ?thesis using 7 Some by (auto simp: outdate_paths_def ok_Value fails_Value split: prod.splits option.splits)
  qed
qed

text \<open>C12: A container that has been reset starts afresh. It has directories named after the time of this start, which is another name
  than the one before unless the clock stood still, the container was started with them, the process on record is the one the runtime
  reported right after that start, stream mode is off, and the name of the directories it had before is queued to be unmounted and removed.\<close>

theorem reset_starts_afresh:
  assumes "ResetContainer f nano a (Some i) s = Some (Value (Inr u, s'))" "0 \<le> nano"
  shows "\<exists>cp c. containersPath (pman s') i = Some cp \<and> PathName cp = path_name i nano \<and>
    (\<forall>old. containersPath (pman s) i = Some old \<longrightarrow> PathName old \<in> set (unloadCh (pman s')) \<and>
      (\<forall>t. PathName old = path_name i t \<and> 0 \<le> t \<and> t \<noteq> nano \<longrightarrow> PathName cp \<noteq> PathName old)) \<and>
    started_then_read f a i cp c s' \<and>
    (\<forall>info. cmap s' i = Some info \<longrightarrow> HostPid info = Pid_rc c \<and> \<not> WithStreamMode_ci info)"
proof -
  from assms(1) obtain st0 s1 st1 s2 st2 s3 st3 s4 x5 s5 where
    1: "container_status f i s = Some (Value (Inr st0, s1))"
    and 2: "(if st0 = ContainerStatusPausing \<or> st0 = ContainerStatusPaused
        then andthen (relabel (\<lambda>e. OtherError (''resume container '' @ i @ '' failed: '' @ fn_Error e))
          (do_host (ThawContainer_rm (resources_f f) i))) (\<lambda>_. ok ContainerStatusRunning) else ok st0) s1 = Some (Value (Inr st1, s2))"
    and 3: "(if st1 = ContainerStatusCreated \<or> st1 = ContainerStatusRunning
        then andthen (relabel (\<lambda>e. OtherError (''kill container '' @ i @ '' failed: '' @ fn_Error e))
          (StopContainer f i True)) (\<lambda>_. ok ContainerStatusStopped) else ok st1) s2 = Some (Value (Inr st2, s3))"
    and 4: "(if st2 = ContainerStatusStopped
        then andthen (relabel (\<lambda>e. OtherError (''delete container '' @ i @ '' failed '' @ fn_Error e))
          (DeleteContainer f i)) (\<lambda>_. ok ContainerStatusNotExist) else ok st2) s3 = Some (Value (Inr st3, s4))"
    and 5: "(if st3 = ContainerStatusNotExist then clear_container f i else ok ()) s4 = Some (Value (Inr x5, s5))"
    and 6: "InitContainer f nano a (Some i) s5 = Some (Value (Inr u, s'))"
    unfolding ResetContainer_def option.case by (elim andthen_Inr) (rule that)
  have k2: "keeps pman (if P then andthen (relabel g (do_host b)) (\<lambda>_. ok x) else ok y)" for P g b x y
    by (intro keeps_intros)
  have k3: "keeps pman (if P then andthen (relabel g (StopContainer f i True)) (\<lambda>_. ok x) else ok y)" for P g x y
    by (intro keeps_intros)
  have k4: "keeps pman (if P then andthen (relabel g (DeleteContainer f i)) (\<lambda>_. ok x) else ok y)" for P g x y
    by (intro keeps_intros)
  have pre: "pman s4 = pman s"
    using keepsD [OF keeps_status(2) 1] keepsD [OF k2 2] keepsD [OF k3 3] keepsD [OF k4 4] by simp
  obtain cp c where init: "containersPath (pman s5) i = None" "pman s' = (pman s5)\<lparr>containersPath := (containersPath (pman s5))(i \<mapsto> cp)\<rparr>"
    "PathName cp = path_name i nano" "\<forall>info. cmap s' i = Some info \<longrightarrow> HostPid info = Pid_rc c \<and> \<not> WithStreamMode_ci info"
    "started_then_read f a i cp c s'"
    using 6 by (rule InitContainer_done)
  have "PathName old \<in> set (unloadCh (pman s'))" if old: "containersPath (pman s) i = Some old" for old
  proof (cases "st3 = ContainerStatusNotExist")
    case True
    then have "pman s5 = snd (OutdatePaths i (pman s))" using clear_container_done [of f i s4 x5 s5] 5 pre old by simp
    then show ?thesis using init(2) old by (simp add: OutdatePaths_def)
  next
    case False
    then show ?thesis using 5 init(1) pre old by (simp add: ok_Value)
  qed
  moreover have "PathName cp \<noteq> PathName old" if "PathName old = path_name i t" "0 \<le> t" "t \<noteq> nano" for old t
    using that assms(2) init(3) by (simp add: path_name_inj)
  moreover have "containersPath (pman s') i = Some cp" using init(2) by simp
  ultimately show ?thesis using init(3-5) by blast
qed

section \<open>A warm-up starts only prepared code\<close>

lemma code_turn_Inr:
  assumes "code_turn now moment prepare got s = Some (Value (Inr got', s'))"
  shows "got' = got \<or> (\<exists>x. prepare s = Some (Value (x, s')) \<and> got' = Some x)"
  using assms by (auto simp: code_turn_def ok_Value attempt_Value split: if_splits elim!: andthen_Inr)

text \<open>The same funclet on a system whose \<open>kill\<close> behaves otherwise, and the warm-up up to the signal.\<close>

definition with_kill :: "(int \<Rightarrow> nat \<Rightarrow> 'h \<Rightarrow> errno option \<times> 'h) \<Rightarrow> 'h Funclet \<Rightarrow> 'h Funclet" where
  "with_kill k f = f\<lparr>os_f := (os_f f)\<lparr>Kill_f := k\<rparr>\<rparr>"

definition warm_until_signal :: "'h Funclet \<Rightarrow> int \<Rightarrow> code_moment \<Rightarrow> bool \<Rightarrow> (nat \<Rightarrow> HandlingChanMap \<times> 'h \<Rightarrow> HandlingChanMap \<times> 'h) \<Rightarrow> WarmupRequest \<Rightarrow> string option \<Rightarrow> ('h, int) op" where
  "warm_until_signal f nowms moment timeout wait params container =
     (let containerID = ContainerID_wr params in
      andthen (from_outcome (deref_field (Args_wr params))) (\<lambda>args.
      andthen (case ScaleUpRecommendation_wa args of None \<Rightarrow> ok () | Some rec \<Rightarrow> scaleUp f container rec) (\<lambda>_.
      andthen (running_pid f containerID container) (\<lambda>pid.
      andthen (from_outcome (deref_field (Configuration_wa args))) (\<lambda>config.
      andthen (code_of args) (\<lambda>code.
      andthen (from_outcome (deref_field (RuntimeConfiguration_wa args))) (\<lambda>rtc.
        let hex = hex_sha config; codePath = GetUserCodePath (CachePath_fo (Options_f f)) hex;
            prepare = prepare_user_code f wait code (CodeSha256_fc config) hex in
      andthen (do_host (MkdirAll (kernel_f f) codePath)) (\<lambda>_.
      andthen (code_turn BeforeConf moment prepare None) (\<lambda>got0.
      andthen (prepareRuntimeConf f nowms container args) (\<lambda>confPath.
      andthen (if stream_mode args rtc then set_stream containerID True else ok ()) (\<lambda>_.
      andthen (code_turn BeforeMounts moment prepare got0) (\<lambda>got1.
      andthen (gets (\<lambda>s. GetPaths containerID (pman s))) (\<lambda>r.
      andthen (from_sum r) (\<lambda>paths.
      andthen (bind_mount_op f [(codePath, DataCodePath paths), (confPath, DataConfigPath paths), (Path_rc rtc, DataRuntimePath paths)]) (\<lambda>_.
      andthen (code_turn DuringWait moment prepare got1) (\<lambda>got2.
      andthen (await_code timeout got2) (\<lambda>_. ok pid)))))))))))))))))"

lemma andthen_assoc: "andthen (andthen m g) h = andthen m (\<lambda>x. andthen (g x) h)"
  by (auto simp: andthen_def fun_eq_iff split: option.splits outcome.splits sum.splits)

lemma andthen_ok: "andthen (ok x) h = h x"
  by (simp add: andthen_def ok_def fun_eq_iff)

lemma WarmUp_split: "WarmUp f nowms moment timeout wait params container =
    andthen (warm_until_signal f nowms moment timeout wait params container) (signal_runtime f)"
  by (simp add: WarmUp_def warm_until_signal_def andthen_assoc andthen_ok Let_def)

lemma with_kill_parts:
  "Options_f (with_kill k f) = Options_f f" "kernel_f (with_kill k f) = kernel_f f" "RuntimeClient (with_kill k f) = RuntimeClient f"
  "code_f (with_kill k f) = code_f f" "drivers_f (with_kill k f) = drivers_f f" "enc_f (with_kill k f) = enc_f f"
  "PodName_f (with_kill k f) = PodName_f f" "WriteFile_f (os_f (with_kill k f)) = WriteFile_f (os_f f)" "Kill_f (os_f (with_kill k f)) = k"
  by (simp_all add: with_kill_def)

lemma with_kill_resource:
  "update_resource (with_kill k f) = update_resource f" "scaleDownContainerToMinimum (with_kill k f) = scaleDownContainerToMinimum f"
  "scaleUpContainer (with_kill k f) = scaleUpContainer f" "scale_config (with_kill k f) = scale_config f"
  by (intro ext, simp only: with_kill_parts update_resource_def scaleDownContainerToMinimum_def memory_stats_def scaleUpContainer_def scale_config_def)+

lemma with_kill_each:
  "all_exist (with_kill k f) is = all_exist f is" "freeze_each (with_kill k f) is = freeze_each f is"
  by (induction "is") (simp_all add: with_kill_parts with_kill_resource)

lemmas with_kill_scale = with_kill_resource with_kill_each

lemma with_kill_conf: "prepareRuntimeConf (with_kill k f) = prepareRuntimeConf f"
  by (intro ext) (simp only: with_kill_parts prepareRuntimeConf_def prepareEnvConf_def funclet_env_def GetContainerConfPath_def)

lemma with_kill_free:
  "scaleUp (with_kill k f) = scaleUp f" "running_pid (with_kill k f) = running_pid f" "prepare_user_code (with_kill k f) = prepare_user_code f"
  "bind_mount_op (with_kill k f) = bind_mount_op f"
  by (simp_all only: fun_eq_iff with_kill_parts with_kill_scale scaleUp_def running_pid_def prepare_user_code_def bind_mount_op_def) simp_all

lemma until_signal_free: "warm_until_signal (with_kill k f) = warm_until_signal f"
  by (intro ext) (simp only: warm_until_signal_def with_kill_free with_kill_conf with_kill_parts)

lemma running_pid_Inr:
  assumes "running_pid f i container s = Some (Value (Inr pid, s'))"
  shows "\<exists>stat h. ContainerInfo_cm (containers_f f) i (host s) = (Inr (Some stat), h) \<and> Status_rc stat = ContainerStatusRunning \<and> pid = Pid_rc stat"
proof -
  from assms obtain st s1 stat s2 where
    1: "on_host (ContainerInfo_cm (containers_f f) i) s = Some (Value (Inr st, s1))"
    and 2: "from_outcome (deref_field st) s1 = Some (Value (Inr stat, s2))"
    and 3: "(if Status_rc stat \<noteq> ContainerStatusRunning then fails (ContainerNotRunning i)
       else andthen (from_outcome (deref_field container)) (\<lambda>cid. andthen (gets (host_pid cid)) (\<lambda>old.
         andthen (if old \<noteq> Pid_rc stat then set_pid i (Pid_rc stat) else ok ()) (\<lambda>_. ok (Pid_rc stat))))) s2 = Some (Value (Inr pid, s'))"
    unfolding running_pid_def relabel_Inr by (elim andthen_Inr) (simp add: relabel_Inr)
  have "Status_rc stat = ContainerStatusRunning" "pid = Pid_rc stat"
    using 3 by (auto simp: fails_Value ok_Value split: if_splits elim!: andthen_Inr)
  moreover obtain h where "ContainerInfo_cm (containers_f f) i (host s) = (Inr (Some stat), h)"
    using 1 2 by (auto simp: on_host_Value deref_Value) (metis map_sum.simps old.sum.exhaust id_apply sum.inject(2) sum.distinct(1))
  ultimately show ?thesis by blast
qed

lemma until_signal_prepared:
  assumes "warm_until_signal f nowms moment timeout wait params container s = Some (Value (Inr pid, s'))"
  shows "\<exists>args config code d sc sc' s1 stat h. Args_wr params = Some args \<and> Configuration_wa args = Some config \<and> Code_wa args = Some code \<and>
    prepare_user_code f wait code (CodeSha256_fc config) (hex_sha config) sc = Some (Value (Inr d, sc')) \<and>
    (case ScaleUpRecommendation_wa args of None \<Rightarrow> ok () | Some rec \<Rightarrow> scaleUp f container rec) s = Some (Value (Inr (), s1)) \<and>
    ContainerInfo_cm (containers_f f) (ContainerID_wr params) (host s1) = (Inr (Some stat), h) \<and> Status_rc stat = ContainerStatusRunning \<and> pid = Pid_rc stat"
proof -
  from assms obtain args s1 x2 s2 pid0 s3 config s4 code s5 rtc s6 x7 s7 got0 s8 x9 s9 x10 s10 got1 s10' r s11 paths s12 x13 s13 got2 s13' x14 s14 where
    1: "from_outcome (deref_field (Args_wr params)) s = Some (Value (Inr args, s1))"
    and 2: "(case ScaleUpRecommendation_wa args of None \<Rightarrow> ok () | Some rec \<Rightarrow> scaleUp f container rec) s1 = Some (Value (Inr x2, s2))"
    and 3: "running_pid f (ContainerID_wr params) container s2 = Some (Value (Inr pid0, s3))"
    and 4: "from_outcome (deref_field (Configuration_wa args)) s3 = Some (Value (Inr config, s4))"
    and 5: "code_of args s4 = Some (Value (Inr code, s5))"
    and "from_outcome (deref_field (RuntimeConfiguration_wa args)) s5 = Some (Value (Inr rtc, s6))"
    and "do_host (MkdirAll (kernel_f f) (GetUserCodePath (CachePath_fo (Options_f f)) (hex_sha config))) s6 = Some (Value (Inr x7, s7))"
    and 8: "code_turn BeforeConf moment (prepare_user_code f wait code (CodeSha256_fc config) (hex_sha config)) None s7 = Some (Value (Inr got0, s8))"
    and "prepareRuntimeConf f nowms container args s8 = Some (Value (Inr x9, s9))"
    and "(if stream_mode args rtc then set_stream (ContainerID_wr params) True else ok ()) s9 = Some (Value (Inr x10, s10))"
    and 10: "code_turn BeforeMounts moment (prepare_user_code f wait code (CodeSha256_fc config) (hex_sha config)) got0 s10 = Some (Value (Inr got1, s10'))"
    and "gets (\<lambda>s. GetPaths (ContainerID_wr params) (pman s)) s10' = Some (Value (Inr r, s11))"
    and "from_sum r s11 = Some (Value (Inr paths, s12))"
    and "bind_mount_op f [(GetUserCodePath (CachePath_fo (Options_f f)) (hex_sha config), DataCodePath paths), (x9, DataConfigPath paths),
      (Path_rc rtc, DataRuntimePath paths)] s12 = Some (Value (Inr x13, s13))"
    and 13: "code_turn DuringWait moment (prepare_user_code f wait code (CodeSha256_fc config) (hex_sha config)) got1 s13 = Some (Value (Inr got2, s13'))"
    and 14: "await_code timeout got2 s13' = Some (Value (Inr x14, s14))"
    and 15: "ok pid0 s14 = Some (Value (Inr pid, s'))"
    unfolding warm_until_signal_def Let_def by (elim andthen_Inr) (rule that)
  have args: "Args_wr params = Some args" "s1 = s" "Configuration_wa args = Some config" using 1 4 by (auto simp: deref_Value)
  have code: "Code_wa args = Some code" using 5 by (auto simp: code_of_def fails_Value ok_Value split: option.splits if_splits)
  obtain d where "got2 = Some (Inr d)" using 14 by (auto simp: await_code_def fails_Value split: if_splits sum.splits option.splits)
  then obtain sc sc' where "prepare_user_code f wait code (CodeSha256_fc config) (hex_sha config) sc = Some (Value (Inr d, sc'))"
    using code_turn_Inr [OF 8] code_turn_Inr [OF 10] code_turn_Inr [OF 13] by auto
  moreover have "pid = pid0" using 15 by (simp add: ok_Value)
  ultimately show ?thesis using args code 2 running_pid_Inr [OF 3] by (metis (full_types) unit.exhaust)
qed

text \<open>C14: The process of a container is signalled only after its code is prepared. A warm-up that returns either failed before the signal, so that
  its whole outcome is the same whatever \<open>kill\<close> does, or the code of the function was prepared with success, the runtime
  reported the container as running when it was asked after the scale-up, and the last action was the signal to the
  reported process, whose result is the result of the warm-up. The preparation may happen at any moment beside the other steps.\<close>

theorem warmup_runs_prepared_code:
  assumes "WarmUp f nowms moment timeout wait params container s = Some (Value (r, s'))"
  shows "(isl r \<and> (\<forall>k. WarmUp (with_kill k f) nowms moment timeout wait params container s = Some (Value (r, s')))) \<or>
    (\<exists>args config code d sc sc' s1 stat h h2 killed. Args_wr params = Some args \<and> Configuration_wa args = Some config \<and> Code_wa args = Some code \<and>
      prepare_user_code f wait code (CodeSha256_fc config) (hex_sha config) sc = Some (Value (Inr d, sc')) \<and>
      (case ScaleUpRecommendation_wa args of None \<Rightarrow> ok () | Some rec \<Rightarrow> scaleUp f container rec) s = Some (Value (Inr (), s1)) \<and>
      ContainerInfo_cm (containers_f f) (ContainerID_wr params) (host s1) = (Inr (Some stat), h) \<and> Status_rc stat = ContainerStatusRunning \<and>
      Kill_f (os_f f) (Pid_rc stat) SIGUSR1 h2 = (killed, host s') \<and>
      r = (case killed of None \<Rightarrow> Inr () | Some e \<Rightarrow> Inl (OtherError (errno_text e))))"
  using assms [unfolded WarmUp_split]
proof (cases rule: andthen_Value)
  case (failed e)
  then have "andthen (warm_until_signal (with_kill k f) nowms moment timeout wait params container) (signal_runtime (with_kill k f)) s = Some (Value (r, s'))" for k
    by (simp add: until_signal_free andthen_def)
  with failed show ?thesis by (simp add: WarmUp_split)
next
  case (went_on pid s1)
  obtain killed h where k: "Kill_f (os_f f) pid SIGUSR1 (host s1) = (killed, h)" by (metis surj_pair)
  then have "h = host s'" "r = (case killed of None \<Rightarrow> Inr () | Some e \<Rightarrow> Inl (OtherError (errno_text e)))"
    using went_on(2) by (auto simp: signal_runtime_def ok_Value fails_Value split: option.splits)
  with until_signal_prepared [OF went_on(1)] k show ?thesis by blast
qed

section \<open>Containers that are not there\<close>

lemma container_of_None: "container_of i s = None \<longleftrightarrow> locks s i = None"
  by (auto simp: container_of_def GetContainer_def Exist_def lock_of_def split: option.splits)

lemma ResetContainer_None: "ResetContainer f nano a None = panics nil_dereference"
  by (simp add: ResetContainer_def)

text \<open>A scale-down that recommends a container the funclet does not know never ends with success: that its lock was refused is only logged, and the reset of
  the nil container panics in a goroutine, which takes the whole funclet down. It returns only when the reset of the target had failed before.\<close>

theorem unknown_container_never_answers:
  assumes "ScaleDownRecommendation_rr params = Some rec" "i \<in> set (ResetContainers rec)" "cmap s i = None"
    and "fn_ResetContainers f nano a params container s = Some (Value (r, s'))"
  shows "\<exists>e response. r = Inr (Some e, response)"
proof -
  have never: "reset_each f nano a is acc s1 \<noteq> Some (Value x)" if "i \<in> set is" "locks s1 i = None" for "is" acc s1 x
    using that
  proof (induction "is" arbitrary: acc s1 x)
    case (Cons j "is")
    show ?case
    proof
      assume run: "reset_each f nano a (j # is) acc s1 = Some (Value x)"
      obtain c s2 where 1: "gets (container_of j) s1 = Some (Value (Inr c, s2))"
        and run1: "andthen (attempt (ResetContainer f (nano j) (a j) c)) (\<lambda>r. reset_each f nano a is (case r of Inl _ \<Rightarrow> (fst acc @ [j], snd acc) | Inr _ \<Rightarrow> (fst acc, snd acc @ [j]))) s2 = Some (Value x)"
        using run by (auto simp: gets_Value andthen_def [of "gets (container_of j)"] gets_def ok_def)
      have c: "c = container_of j s1" "s2 = s1" using 1 by (auto simp: gets_Value)
      obtain r3 s3 where 3: "attempt (ResetContainer f (nano j) (a j) c) s2 = Some (Value (Inr r3, s3))"
        and run2: "reset_each f nano a is (case r3 of Inl _ \<Rightarrow> (fst acc @ [j], snd acc) | Inr _ \<Rightarrow> (fst acc, snd acc @ [j])) s3 = Some (Value x)"
        using run1 by (cases x) (auto elim!: andthen_Value simp: attempt_Value)
      have "c \<noteq> None" using 3 by (cases c) (auto simp: attempt_Value ResetContainer_None panics_def)
      then have "j \<noteq> i" using c(1) Cons.prems(2) container_of_None by metis
      moreover have "locks s3 i = None" using keepsD [OF keeps_attempt [OF keeps_ResetContainer] 3] c(2) Cons.prems(2) by simp
      ultimately show False using Cons.IH Cons.prems(1) run2 by (metis set_ConsD)
    qed
  qed simp
  obtain x s1 where x: "attempt (ResetContainer f (nano (ContainerID_rr params)) (a (ContainerID_rr params)) container) s = Some (Value (Inr x, s1))"
    using assms(4) unfolding fn_ResetContainers_def by (rule andthen_Value) (auto simp: attempt_Value)
  have lock: "locks s1 i = None" using keepsD [OF keeps_attempt [OF keeps_ResetContainer] x] assms(3) by (simp add: lock_of_def)
  show ?thesis
  proof (cases x)
    case (Inl e)
    then show ?thesis using assms(1,4) x
      by (auto simp: fn_ResetContainers_def andthen_def [of "attempt (ResetContainer f (nano (ContainerID_rr params)) (a (ContainerID_rr params)) container)"]
          panics_Value ok_Value attempt_Value split: option.splits elim!: andthen_Value)
  next
    case (Inr y)
    then have "andthen (reset_each f nano a (ResetContainers rec) ([], [])) (\<lambda>(failed, success).
        andthen (attempt (bulk_get f failed)) (\<lambda>l. ok (None, Some (response_with success l)))) s1 = Some (Value (r, s'))"
      using assms(1,4) x
      by (simp add: fn_ResetContainers_def andthen_def [of "attempt (ResetContainer f (nano (ContainerID_rr params)) (a (ContainerID_rr params)) container)"])
    then show ?thesis using never [OF assms(2) lock] by (auto elim!: andthen_Value)
  qed
qed

section \<open>A node\<close>

text \<open>A node with two containers, on which every call succeeds and the runtime reports running processes. Its host keeps the paths of the code that was
  unpacked.\<close>

definition sample_manager :: "string list Manager" where
  "sample_manager =
     \<lparr>containers_of = \<lparr>StartContainer_cm = (\<lambda>_ h. (None, h)), RemoveContainer_cm = (\<lambda>_ _ h. (None, h)), KillContainer_cm = (\<lambda>_ _ _ h. (None, h)),
        PauseContainer_cm = (\<lambda>_ h. (None, h)), ResumeContainer_cm = (\<lambda>_ h. (None, h)), ListContainers_cm = (\<lambda>h. (Inr [], h)),
        ContainerInfo_cm = (\<lambda>i h. (Inr (Some \<lparr>ID_rc = i, Pid_rc = 7, Status_rc = ContainerStatusRunning, Bundle_rc = '''', Rootfs_rc = '''', Created_rc = 0,
          Annotations_rc = []\<rparr>), h)), UpdateContainer_cm = (\<lambda>_ _ h. (None, h))\<rparr>,
      resources_of = \<lparr>GetDefaultResourceConfig_rm = empty_config, GetResourceConfigByReadableMemory_rm = (\<lambda>_ h. (Value (Inr empty_config), h)),
        GetTotalResources_rm = sample_total, FrozenContainer_rm = (\<lambda>_ h. (None, h)), ThawContainer_rm = (\<lambda>_ h. (None, h)),
        ContainerResources_rm = (\<lambda>_ h. (Inr \<lparr>MilliCPUs = 500, Memory = 1\<rparr>, h)),
        ContainerResourceStats_rm = (\<lambda>_ h. (Inr \<lparr>MemoryStats_rs = Some \<lparr>Usage = 1, Limit = 2, SwapLimit = 2\<rparr>, CPUStats_TotalUsage = None, FreezerState_rs = Thawed\<rparr>, h)),
        UpdateContainerResource_rm = (\<lambda>_ _ h. (None, h))\<rparr>\<rparr>"

definition sample_fn_options :: FuncletOptions where
  "sample_fn_options = \<lparr>ContainerNum_fo = 2, ConfPath_fo = ''/conf'', CachePath_fo = ''/cache'', InvokerSocks_fo = ''/i'', ListenPath_fo = ''/l'',
     ListenType_fo = ''unix'', InvokerDispatcherPort_fo = 1, KillRuntimeWaitTime_fo = 2, RunningMode_fo = ''common'', RunnerSpecOption_fo = NewRunnerSpecOption\<rparr>"

definition sample_kernel :: "string list kernel" where
  "sample_kernel = \<lparr>sys_bind_mount = (\<lambda>_ _ h. (None, h)), sys_make_shared = (\<lambda>_ h. (None, h)), sys_unmount = (\<lambda>_ h. (None, h)),
     ParseMountTable = (\<lambda>h. (Inr [], h)), MkdirAll = (\<lambda>_ h. (None, h)), ReadDir = (\<lambda>_ h. (Inr [], h)), RemoveAll = (\<lambda>_ h. (None, h))\<rparr>"

definition sample_funclet :: "string list Funclet" where
  "sample_funclet = \<lparr>PodName_f = ''p'', Options_f = sample_fn_options, RuntimeClient = sample_manager, kernel_f = sample_kernel,
     pathConfig_f = GetPathConfig ''/data'' ''/spec'' sample_fn_options, quota_f = calm_os, code_f = log_os\<lparr>sha256_c := (\<lambda>_. ''AA=='')\<rparr>, drivers_f = NewManager log_os ''/tmp'',
     netlink_f = (\<lambda>_ h. (None, h)),
     os_f = \<lparr>Kill_f = (\<lambda>_ sig h. (if sig = 0 then Some ESRCH else None, h)), ReadFile_f = (\<lambda>_ h. (Inr ''5'', h)), WriteFile_f = (\<lambda>_ _ h. (None, h)),
       AppendFile_f = (\<lambda>_ _ h. (None, h)), IsRegular_f = (\<lambda>_ _. Inr True), Chmod_f = (\<lambda>_ h. (None, h)), CopyDir_f = (\<lambda>_ _ h. (None, h)), Pipe_f = (\<lambda>h. (None, h))\<rparr>,
     enc_f = \<lparr>marshal_spec = (\<lambda>_. Inr ''''), marshal_env = (\<lambda>_. Inr ''''), marshal_meta = (\<lambda>_ _. Inr ''''), oci_version = ''1''\<rparr>\<rparr>"

definition sample_fn_state :: "string list fn_state" where
  "sample_fn_state = \<lparr>cmap = [''c0'' \<mapsto> new_container ''c0'', ''c1'' \<mapsto> new_container ''c1''], pman = sample_paths,
     quota = empty_quota\<lparr>projIDPool := [3, 4]\<rparr>, net = sample_network\<lparr>vethPool := [0]\<rparr>, netns = HostNs, hchans = NewHandlingChanMap, host = []\<rparr>"

definition sample_answers :: net_answers where
  "sample_answers = \<lparr>neighbours = Inr [], bridge_addrs = [], ping_answer = (\<lambda>_. False)\<rparr>"

definition sample_warmup :: WarmupRequest where
  "sample_warmup = \<lparr>ContainerID_wr = ''c0'', Args_wr = Some \<lparr>Code_wa = Some \<lparr>Location = ''/f/a'', RepositoryType = ''bos''\<rparr>,
     Configuration_wa = Some \<lparr>CodeSha256_fc = ''AA=='', FunctionName_fc = ''f'', Handler_fc = ''h'', Runtime_fcn = ''r'', MemorySize_fcn = None,
       Timeout_fcn = None, Environment_fc = None\<rparr>,
     RuntimeConfiguration_wa = Some \<lparr>Name_rc = ''r'', Bin_rc = ''b'', Path_rc = ''/rt'', Args_rc = []\<rparr>, ScaleUpRecommendation_wa = None, WithStreamMode_wa = False\<rparr>\<rparr>"

definition returned :: "((fn_error + 'a) \<times> 'h fn_state) outcome option \<Rightarrow> 'h fn_state option" where
  "returned r = (case r of Some (Value (Inr _, s)) \<Rightarrow> Some s | _ \<Rightarrow> None)"

lemma returned_Some: "returned r = Some s \<longleftrightarrow> (\<exists>x. r = Some (Value (Inr x, s)))"
  by (auto simp: returned_def split: option.splits outcome.splits sum.splits)

lemma sample_reset: "returned (ResetContainer sample_funclet 9 sample_answers (Some ''c0'') sample_fn_state) \<noteq> None"
  by code_simp

theorem reset_starts_afresh_witness:
  "\<exists>s' cp. returned (ResetContainer sample_funclet 9 sample_answers (Some ''c0'') sample_fn_state) = Some s' \<and>
     containersPath (pman s') ''c0'' = Some cp \<and> PathName cp = path_name ''c0'' 9 \<and> ''c0-5'' \<in> set (unloadCh (pman s'))"
proof -
  obtain s' x where run: "ResetContainer sample_funclet 9 sample_answers (Some ''c0'') sample_fn_state = Some (Value (Inr x, s'))"
    using sample_reset by (auto simp: returned_Some)
  have old: "containersPath (pman sample_fn_state) ''c0'' = Some (empty_paths\<lparr>PathName := ''c0-5''\<rparr>)"
    by (simp add: sample_fn_state_def sample_paths_def)
  obtain cp where "containersPath (pman s') ''c0'' = Some cp" "PathName cp = path_name ''c0'' 9" "''c0-5'' \<in> set (unloadCh (pman s'))"
    using reset_starts_afresh [OF run] old by auto
  then show ?thesis using run by (auto simp: returned_Some)
qed

text \<open>The same node with a runtime that cannot kill.\<close>

definition stuck_funclet :: "string list Funclet" where
  "stuck_funclet = sample_funclet\<lparr>RuntimeClient := sample_manager\<lparr>containers_of :=
     (containers_of sample_manager)\<lparr>KillContainer_cm := (\<lambda>_ _ _ h. (Some ''no'', h))\<rparr>\<rparr>\<rparr>"

definition sample_scale_down :: ResetRequest where
  "sample_scale_down = \<lparr>ContainerID_rr = ''c0'', ScaleDownRecommendation_rr = Some \<lparr>TargetContainer_down = ''c0'', ResetContainers = [''c1'']\<rparr>\<rparr>"

definition sample_busy_state :: "string list fn_state" where
  "sample_busy_state = sample_fn_state\<lparr>cmap := snd (LockContainer ''c1'' EventWarmup (cmap sample_fn_state))\<rparr>"

lemma sample_events:
  "(case returned (ResetContainerEvent stuck_funclet (\<lambda>_. 9) (\<lambda>_. sample_answers) sample_scale_down sample_busy_state) of
      None \<Rightarrow> False
    | Some s' \<Rightarrow> returned (WarmUpContainerEvent stuck_funclet 0 BeforeMounts False (\<lambda>_ x. x) sample_warmup s') \<noteq> None)"
  by code_simp

text \<open>In the sample another event holds the recommended container and the reset of the target fails; afterwards the lock is free.\<close>

theorem events_return_locks_witness:
  "\<exists>s' s''. returned (ResetContainerEvent stuck_funclet (\<lambda>_. 9) (\<lambda>_. sample_answers) sample_scale_down sample_busy_state) = Some s' \<and>
     returned (WarmUpContainerEvent stuck_funclet 0 BeforeMounts False (\<lambda>_ x. x) sample_warmup s') = Some s'' \<and>
     lock_of (cmap sample_busy_state) ''c1'' = Some 0 \<and> lock_of (cmap s'') ''c1'' = Some 1 \<and> lock_of (cmap s'') ''c0'' = Some 1"
proof -
  obtain s' x where 1: "ResetContainerEvent stuck_funclet (\<lambda>_. 9) (\<lambda>_. sample_answers) sample_scale_down sample_busy_state = Some (Value (Inr x, s'))"
    using sample_events by (auto simp: returned_Some split: option.splits)
  then obtain s'' y where 2: "WarmUpContainerEvent stuck_funclet 0 BeforeMounts False (\<lambda>_ x. x) sample_warmup s' = Some (Value (Inr y, s''))"
    using sample_events by (auto simp: returned_def split: option.splits outcome.splits sum.splits)
  have "lock_of (cmap sample_fn_state) = [''c0'' \<mapsto> 1, ''c1'' \<mapsto> 1]"
    by (auto simp: sample_fn_state_def lock_of_def new_container_def NewEventLock_def fun_eq_iff)
  then have l: "lock_of (cmap sample_busy_state) = [''c0'' \<mapsto> 1, ''c1'' \<mapsto> 0]"
    by (simp add: sample_busy_state_def lock_of_LockContainer)
  have b: "lock_of (cmap sample_busy_state) i \<in> {None, Some 0, Some 1}" for i by (simp add: l)
  show ?thesis using events_return_locks [OF b 1 2] 1 2 by (auto simp: returned_Some l sample_scale_down_def)
qed

lemma sample_warm: "returned (WarmUp sample_funclet 0 DuringWait False (\<lambda>_ x. x) sample_warmup (Some ''c0'') sample_fn_state) \<noteq> None"
  by code_simp

theorem warmup_runs_prepared_code_witness:
  "\<exists>s' h2. returned (WarmUp sample_funclet 0 DuringWait False (\<lambda>_ x. x) sample_warmup (Some ''c0'') sample_fn_state) = Some s' \<and>
     Kill_f (os_f sample_funclet) 7 SIGUSR1 h2 = (None, host s')"
proof -
  obtain s' x where run: "WarmUp sample_funclet 0 DuringWait False (\<lambda>_ x. x) sample_warmup (Some ''c0'') sample_fn_state = Some (Value (Inr x, s'))"
    using sample_warm by (auto simp: returned_Some)
  obtain stat h h2 killed and s1 :: "string list fn_state" where c: "ContainerInfo_cm (containers_f sample_funclet) (ContainerID_wr sample_warmup) (host s1) = (Inr (Some stat), h)"
    and k: "Kill_f (os_f sample_funclet) (Pid_rc stat) SIGUSR1 h2 = (killed, host s')"
    and r: "(Inr x :: fn_error + unit) = (case killed of None \<Rightarrow> Inr () | Some e \<Rightarrow> Inl (OtherError (errno_text e)))"
    using warmup_runs_prepared_code [OF run] by (elim disjE exE conjE) (simp, blast)
  have "killed = None" using r by (cases killed) auto
  moreover have "Pid_rc stat = 7" using c by (auto simp: sample_funclet_def sample_manager_def)
  ultimately show ?thesis using k run by (auto simp: returned_Some)
qed

lemma stuck_reset: "returned (fn_ResetContainers stuck_funclet (\<lambda>_. 9) (\<lambda>_. sample_answers)
    \<lparr>ContainerID_rr = ''c0'', ScaleDownRecommendation_rr = Some \<lparr>TargetContainer_down = ''c0'', ResetContainers = [''zz'']\<rparr>\<rparr> (Some ''c0'') sample_fn_state) \<noteq> None"
  by code_simp

theorem unknown_container_never_answers_witness:
  "\<exists>e response s'. fn_ResetContainers stuck_funclet (\<lambda>_. 9) (\<lambda>_. sample_answers)
    \<lparr>ContainerID_rr = ''c0'', ScaleDownRecommendation_rr = Some \<lparr>TargetContainer_down = ''c0'', ResetContainers = [''zz'']\<rparr>\<rparr> (Some ''c0'') sample_fn_state =
    Some (Value (Inr (Some e, response), s'))"
proof -
  let ?p = "\<lparr>ContainerID_rr = ''c0'', ScaleDownRecommendation_rr = Some \<lparr>TargetContainer_down = ''c0'', ResetContainers = [''zz'']\<rparr>\<rparr>"
  obtain s' x where run: "fn_ResetContainers stuck_funclet (\<lambda>_. 9) (\<lambda>_. sample_answers) ?p (Some ''c0'') sample_fn_state = Some (Value (Inr x, s'))"
    using stuck_reset by (auto simp: returned_Some)
  have "\<exists>e response. Inr x = (Inr (Some e, response) :: fn_error + fn_error option \<times> ResetResponse option)"
    by (rule unknown_container_never_answers [OF _ _ _ run, of "\<lparr>TargetContainer_down = ''c0'', ResetContainers = [''zz'']\<rparr>" "''zz''"])
      (simp_all add: sample_fn_state_def)
  then show ?thesis using run by auto
qed

end
