(* ===== verification/GoTime.thy ===== *)
theory GoTime
  imports GoStrings
begin

text \<open>What the program uses of Go's package \<open>time\<close>: the text of a duration, as \<open>Duration.String\<close> prints it.\<close>

definition Second :: int64 where "Second = 1000000000"

text \<open>The digits after the point, without trailing zeros, and the point when any is left.\<close>

definition padded :: "nat \<Rightarrow> nat \<Rightarrow> string" where
  "padded prec v = replicate (prec - length (digits v)) (CHR ''0'') @ digits v"

definition fmtFrac :: "nat \<Rightarrow> nat \<Rightarrow> string \<times> nat" where
  "fmtFrac v prec =
     (let ds = rev (dropWhile (\<lambda>c. c = CHR ''0'') (rev (padded prec (v mod 10 ^ prec))))
      in (if prec = 0 \<or> ds = '''' then '''' else ''.'' @ ds, v div 10 ^ prec))"

definition micro_sign :: string where "micro_sign = [CHR 0xC2, CHR 0xB5]"

definition duration_String :: "int64 \<Rightarrow> string" where
  "duration_String d =
     (let u = nat \<bar>d\<bar>; sign = (if d < 0 then ''-'' else '''')
      in if u = 0 then ''0s''
         else if u < 1000 then sign @ digits u @ ''ns''
         else if u < 1000000 then (case fmtFrac u 3 of (f, v) \<Rightarrow> sign @ digits v @ f @ micro_sign @ ''s'')
         else if u < 1000000000 then (case fmtFrac u 6 of (f, v) \<Rightarrow> sign @ digits v @ f @ ''ms'')
         else (case fmtFrac u 9 of (f, v) \<Rightarrow>
           let secs = digits (v mod 60) @ f @ ''s''; m = v div 60; h = m div 60
           in sign @ (if m = 0 then secs
                      else if h = 0 then digits m @ ''m'' @ secs
                      else digits h @ ''h'' @ digits (m mod 60) @ ''m'' @ secs)))"

lemma duration_samples:
  "duration_String 0 = ''0s''" "duration_String 1500000000 = ''1.5s''" "duration_String 100000000 = ''100ms''"
  "duration_String 3661000000000 = ''1h1m1s''" "duration_String (- 60000000000) = ''-1m0s''" "duration_String 1050000 = ''1.05ms''"
  by (simp_all add: duration_String_def fmtFrac_def padded_def digits.simps char_of_def bit_iff_odd)

end
