(* ===== verification/RtClient.thy ===== *)
theory RtClient
  imports RtRuntime RtManager LogDispatch GoTime
begin

text \<open>
  The call of a function in a runtime, \<open>src/pkg/controller/rtctrl/client.go\<close> with the rest of \<open>request.go\<close>,
  \<open>statistics.go\<close> and the log part of \<open>dispatcherv2.go\<close>. It brings together the life of the runtime, the
  log store of the request and the maps of the log dispatcher. What others do while the call waits (the loops of the
  runtime, other requests, the readers of the output streams) is a list of events, an argument of the call. The address of the new
  request object is \<open>a\<close> and that of its log store \<open>b\<close>. \<open>InvocationInput\<close> is extended by what this part of the code reads of it.
\<close>

section \<open>State\<close>

record FunctionCall = InvocationInput +
  User_c :: string
  FunctionName_c :: "string option"
  Version_c :: "string option"
  LogType_c :: string
  LogConfig_c :: "string option"
  BodyStream_c :: "(string + string) option"
  Body_c :: string

text \<open>\<open>store_of\<close> is the field \<open>store\<close> of the request objects.\<close>

record client_world =
  rt_cw :: rt_world
  store_of :: "nat \<rightharpoonup> nat"
  stores_cw :: "nat \<Rightarrow> kunLogStatStore"
  maps_cw :: storeMap
  stats_cw :: statsMap
  conns_cw :: "nat \<Rightarrow> statsConn"

definition req :: "nat \<Rightarrow> client_world \<Rightarrow> RequestInfo" where
  "req a w = reqs_w (rt_cw w) a"

definition runtime :: "client_world \<Rightarrow> RuntimeInfo" where
  "runtime w = rt_w (rt_cw w)"

definition put_req :: "nat \<Rightarrow> (RequestInfo \<Rightarrow> RequestInfo) \<Rightarrow> client_world \<Rightarrow> client_world" where
  "put_req a f w = w\<lparr>rt_cw := upd_req a f (rt_cw w)\<rparr>"

definition put_store :: "nat \<Rightarrow> kunLogStatStore \<Rightarrow> client_world \<Rightarrow> client_world" where
  "put_store b s w = w\<lparr>stores_cw := (stores_cw w)(b := s)\<rparr>"

text \<open>A request asks its store for the memory used when it ends.\<close>

definition sync_mem :: "client_world \<Rightarrow> client_world" where
  "sync_mem w = w\<lparr>rt_cw := (rt_cw w)\<lparr>reqs_w := (\<lambda>a. (reqs_w (rt_cw w) a)\<lparr>MemUsed_rq := map_option (\<lambda>b. MemUsed (stores_cw w b)) (store_of w a)\<rparr>)\<rparr>\<rparr>"

section \<open>The dispatch server's part\<close>

definition NewDispatchServerV2 :: "string list \<Rightarrow> storeMap" where
  "NewDispatchServerV2 runtimeIDs = fold setNXMap runtimeIDs Map.empty"

definition StartRecvLog :: "string \<Rightarrow> string \<Rightarrow> nat \<Rightarrow> client_world \<Rightarrow> client_world" where
  "StartRecvLog runtimeID requestID b w =
     (let w1 = (case statsMap_get runtimeID (stats_cw w) of
            None \<Rightarrow> w
          | Some st \<Rightarrow> put_store b (SetMemUsed (memused (conns_cw w st)) (stores_cw w b)) w)
      in w1\<lparr>maps_cw := storeMap_set runtimeID requestID b (maps_cw w1)\<rparr>)"

definition StopRecvLog :: "string \<Rightarrow> string \<Rightarrow> nat \<Rightarrow> client_world \<Rightarrow> client_world" where
  "StopRecvLog runtimeID requestID b w = w\<lparr>maps_cw := storeMap_del runtimeID requestID b (maps_cw w)\<rparr>"

text \<open>What \<open>statisticHandler\<close> does with one report of the memory used, on the connection \<open>c\<close>; a lookup that fails is only logged.\<close>

definition recv_stat :: "nat \<Rightarrow> int \<Rightarrow> client_world \<Rightarrow> client_world" where
  "recv_stat c mem w =
     (let w1 = (case getMap (name_sc (conns_cw w c)) (maps_cw w) of
            None \<Rightarrow> w
          | Some m \<Rightarrow> (case getLast m of
              Inr (Some b) \<Rightarrow> put_store b (SetMemUsed mem (stores_cw w b)) w
            | _ \<Rightarrow> w))
      in w1\<lparr>conns_cw := (conns_cw w1)(c := (conns_cw w1 c)\<lparr>memused := mem\<rparr>)\<rparr>)"

section \<open>What happens meanwhile\<close>

datatype cl_event = ClRuntime rt_event | ClLog nat log_op | ClStat nat int

text \<open>A list of events stands for the events of it that can occur: one that is not enabled in its state is left out.\<close>

fun cl_step :: "cl_event \<Rightarrow> client_world \<Rightarrow> client_world outcome" where
  "cl_step (ClRuntime e) w =
     (if enabled e (rt_cw w) then obind (rt_step e (rt_cw (sync_mem w))) (\<lambda>r. Value (w\<lparr>rt_cw := r\<rparr>)) else Value w)"
| "cl_step (ClLog b oper) w = (if op_ok oper then obind (log_step oper (stores_cw w b)) (\<lambda>s. Value (put_store b s w)) else Value w)"
| "cl_step (ClStat c mem) w = Value (recv_stat c mem w)"

fun cl_run :: "cl_event list \<Rightarrow> client_world \<Rightarrow> client_world outcome" where
  "cl_run [] w = Value w"
| "cl_run (e # es) w = obind (cl_step e w) (cl_run es)"

record call_env =
  now_create :: instant
  during_wait :: "cl_event list"
  log_dir :: string
  userlogType :: string
  stat_e :: "string \<Rightarrow> stat_result"
  mkdir_e :: bool
  nano_e :: int
  opened_e :: "string \<Rightarrow> string + string"
  clock_start :: stamp
  during_call :: "cl_event list"
  timer_fires :: bool
  now_done :: instant
  during_drain :: "cl_event list"
  clock_end :: stamp
  clock_report :: stamp
  now_stat :: instant
  marshal_aws :: "string \<Rightarrow> string"

section \<open>The request\<close>

definition MinMemorySize :: int64 where "MinMemorySize = 128"

definition createRequest :: "instant \<Rightarrow> nat \<Rightarrow> FunctionCall \<Rightarrow> client_world \<Rightarrow> FunctionCall \<times> client_world" where
  "createRequest now a input w =
     (let conf = Configuration_ii input;
          conf1 = (if FunctionArn_fc conf = None then conf\<lparr>FunctionArn_fc := Some ''''\<rparr> else conf);
          conf2 = (if Timeout_fc conf1 = None \<or> Timeout_fc conf1 = Some 0 then conf1\<lparr>Timeout_fc := Some 3\<rparr> else conf1)
      in (input\<lparr>Configuration_ii := conf2\<rparr>,
          (put_req a (\<lambda>_. (NewRequestInfo now (RequestID_ii input))\<lparr>TriggerType_rq := TriggerType_ii input\<rparr>) w)\<lparr>store_of := (store_of w)(a := None)\<rparr>))"

text \<open>The event object is the body, read from its stream unless the call is asynchronous; a stream that cannot be read and an empty body
  give the empty object.\<close>

definition makeInvokeRequest :: "FunctionCall \<Rightarrow> InvokeRequest outcome" where
  "makeInvokeRequest input =
     obind (deref_field (Version_c input)) (\<lambda>version.
     let body = (case (InvokeType_ii input \<noteq> ''event'', BodyStream_c input) of
            (True, Some (Inr bs)) \<Rightarrow> bs
          | (True, Some (Inl _)) \<Rightarrow> ''''
          | _ \<Rightarrow> Body_c input)
     in Value \<lparr>RequestID_ir = RequestID_ii input, Version_ir = version, AccessKeyID_ir = '''', AccessKeySecret_ir = '''', SecurityToken_ir = '''',
               ClientContext_ir = '''', EventObject_ir = (if body = '''' then ''{}'' else body)\<rparr>)"

definition makeInvokeHTTPRequest :: "FunctionCall \<Rightarrow> InvokeHTTPRequest outcome" where
  "makeInvokeHTTPRequest input =
     obind (deref_field (Timeout_fc (Configuration_ii input))) (\<lambda>t. Value \<lparr>RequestID_hr = RequestID_ii input, FunctionTimeout = t\<rparr>)"

definition ready_request :: "nat \<Rightarrow> FunctionCall \<Rightarrow> client_world \<Rightarrow> client_world" where
  "ready_request a input w =
     (let w1 = put_req a (\<lambda>q. q\<lparr>MemorySpecSize := (case MemorySize_fc (Configuration_ii input) of Some m \<Rightarrow> m | None \<Rightarrow> MinMemorySize)\<rparr>) w
      in w1\<lparr>rt_cw := (rt_cw w1)\<lparr>rt_w := (runtime w1)\<lparr>UserID := User_c input\<rparr>\<rparr>\<rparr>)"

definition waitRuntime :: "call_env \<Rightarrow> nat \<Rightarrow> FunctionCall \<Rightarrow> client_world \<Rightarrow> (string option \<times> client_world) outcome" where
  "waitRuntime e a input w =
     obind (if State (runtime w) = RuntimeStateWarm then Value w else cl_run (during_wait e) w) (\<lambda>w1.
     if \<not> Wait (runtime w) (runtime w1) then Value (Some (''runtime '' @ RuntimeID (runtime w1) @ '' not ready''), w1)
     else (case CommitID_fc (Configuration_ii input) of
         Some c \<Rightarrow> if c \<noteq> CommitID (runtime w1)
           then Value (Some (''commitid ['' @ c @ ''] ['' @ CommitID (runtime w1) @ ''] mismatch, ''), w1)
           else Value (None, ready_request a input w1)
       | None \<Rightarrow> Value (None, ready_request a input w1)))"

definition startRecvLog :: "call_env \<Rightarrow> nat \<Rightarrow> nat \<Rightarrow> FunctionCall \<Rightarrow> string \<Rightarrow> client_world \<Rightarrow> client_world outcome" where
  "startRecvLog e a b input logType w =
     obind (deref_field (FunctionName_c input)) (\<lambda>name.
     obind (deref_field (FunctionArn_fc (Configuration_ii input))) (\<lambda>arn.
     obind (deref_field (Version_c input)) (\<lambda>version.
     let userID = (if UserID (runtime w) = '''' then ''unknown'' else UserID (runtime w));
         params = \<lparr>RequestID_lp = RequestID_rq (req a w), TriggerType_lp = TriggerType_rq (req a w), RuntimeID_lp = RuntimeID (runtime w),
                   UserID_lp = userID, FunctionName_lp = name, FunctionBrn_lp = arn, FunctionVersion_lp = version,
                   FilePath_lp = log_dir e, LogType_lp = logType\<rparr>;
         w1 = put_store b (newLogStatStore params (stat_e e) (mkdir_e e) (nano_e e) (opened_e e)) w;
         w2 = StartRecvLog (RuntimeID (runtime w1)) (RequestID_rq (req a w1)) b w1
     in Value (w2\<lparr>store_of := (store_of w2)(a \<mapsto> b)\<rparr>))))"

definition write_log :: "nat \<Rightarrow> (kunLogStatStore \<Rightarrow> string option \<times> kunLogStatStore) \<Rightarrow> client_world \<Rightarrow> client_world" where
  "write_log b f w = put_store b (snd (f (stores_cw w b))) w"

definition start_line :: "string \<Rightarrow> string \<Rightarrow> string" where
  "start_line requestID version = ''START RequestID: '' @ requestID @ '' Version: '' @ version @ [CHR 0x0A]"

definition InvokeStart :: "stamp \<Rightarrow> nat \<Rightarrow> nat \<Rightarrow> FunctionCall \<Rightarrow> client_world \<Rightarrow> client_world outcome" where
  "InvokeStart clk a b input w =
     obind (deref_field (Version_c input)) (\<lambda>version.
     Value (write_log b (WriteFunctionLog clk (start_line (RequestID_rq (req a w)) version)) w))"

definition on_runtime :: "(rt_world \<Rightarrow> string option \<times> rt_world) \<Rightarrow> client_world \<Rightarrow> string option \<times> client_world" where
  "on_runtime f w = (case f (rt_cw w) of (err, r) \<Rightarrow> (err, w\<lparr>rt_cw := r\<rparr>))"

definition client_InvokeFunc :: "call_env \<Rightarrow> nat \<Rightarrow> nat \<Rightarrow> FunctionCall \<Rightarrow> client_world \<Rightarrow> (string option \<times> client_world) outcome" where
  "client_InvokeFunc e a b input w =
     (if WithStreamMode_ii input
      then obind (makeInvokeHTTPRequest input) (\<lambda>r.
           obind (InvokeStart (clock_start e) a b input w) (\<lambda>w1. Value (on_runtime (InvokeHTTPFunc a r) w1)))
      else obind (makeInvokeRequest input) (\<lambda>r.
           obind (InvokeStart (clock_start e) a b input w) (\<lambda>w1. Value (on_runtime (InvokeFunc a r) w1))))"

section \<open>Reporting\<close>

text \<open>At most ten milliseconds are spent waiting for the ends of the output streams; then both are taken for ended.\<close>

definition log_done :: "bool \<Rightarrow> nat \<Rightarrow> client_world \<Rightarrow> (bool \<times> client_world) outcome" where
  "log_done do_set b w = obind (LogDone do_set (stores_cw w b)) (\<lambda>(ended, s). Value (ended, put_store b s w))"

definition waitLogDone :: "call_env \<Rightarrow> nat \<Rightarrow> client_world \<Rightarrow> client_world outcome" where
  "waitLogDone e b w =
     obind (log_done False b w) (\<lambda>(ended, w1).
     if ended then Value w1
     else obind (cl_run (during_drain e) w1) (\<lambda>w2. obind (log_done True b w2) (\<lambda>(_, w3). Value w3)))"

definition end_line :: "RequestInfo \<Rightarrow> string" where
  "end_line q = ''END RequestID: '' @ RequestID_rq q @ [CHR 0x09] @ ''Memory Spec Size: '' @ Itoa (MemorySpecSize q) @ ''MB'' @ [CHR 0x0A]"

definition report_line :: "RequestInfo \<Rightarrow> string" where
  "report_line q = ''REPORT RequestID: '' @ RequestID_rq q @ [CHR 0x09] @ ''Duration: '' @ duration_String (InvokeDurationMS q) @ [CHR 0x09]
     @ ''Billed Duration: '' @ duration_String (BilledDurationMS q) @ [CHR 0x09] @ ''Max Memory Used: '' @ ByteSize (uint64_of (MaxMemUsedBytes q))"

definition report_params :: "RuntimeInfo \<Rightarrow> RequestInfo \<Rightarrow> reportParameters" where
  "report_params rt q = \<lparr>InvocationTime_rp = InvokeDurationMS q, MemUsage_rp = MaxMemUsedBytes q, Mode_rp = getInvokeMode (Some rt), Status_rp = getResponseStatus q\<rparr>"

definition InvokeReportDone :: "call_env \<Rightarrow> nat \<Rightarrow> nat \<Rightarrow> FunctionCall \<Rightarrow> client_world \<Rightarrow> (string list \<times> client_world) outcome" where
  "InvokeReportDone e a b input w =
     obind (if \<not> ConcurrentMode (runtime w) \<and> (enableUserLog (req a w) \<or> IsLogTail_ii input) then waitLogDone e b w
            else obind (log_done True b w) (\<lambda>(_, w1). Value w1)) (\<lambda>w1.
     let w2 = write_log b (WriteFunctionLog (clock_end e) (end_line (req a w1))) w1;
         w3 = (if ConcurrentMode (runtime w2) then put_req a (\<lambda>q. q\<lparr>InvokeDurationMS := 0, BilledDurationMS := 0, MaxMemUsedBytes := 0\<rparr>) w2 else w2);
         w4 = write_log b (WriteFunctionReportLog (clock_report e) (report_line (req a w3)) (report_params (runtime w3) (req a w3))) w3
     in obind (store_Close (stores_cw w4 b)) (\<lambda>(r, s).
          Value (if IsLogTail_ii input then [case r of Inl _ \<Rightarrow> '''' | Inr logData \<Rightarrow> logData] else [], put_store b s w4)))"

text \<open>The duration is kept in nanoseconds; the code stores the quotient by a million as a float.\<close>

record StatisticInfo =
  UserID_si :: string
  Function_si :: string
  Version_si :: string
  StartTime_si :: int64
  DurationNS_si :: int64
  MemoryUsed_si :: int64
  StatusCode_si :: int

definition statisticsInfo :: "instant \<Rightarrow> FunctionCall \<Rightarrow> RequestInfo \<Rightarrow> StatisticInfo" where
  "statisticsInfo now input q =
     \<lparr>UserID_si = User_c input, Function_si = (case FunctionName_c input of Some n \<Rightarrow> n | None \<Rightarrow> ''''),
      Version_si = (case Version_c input of Some v \<Rightarrow> v | None \<Rightarrow> ''''), StartTime_si = InvokeStartTimeMS q,
      DurationNS_si = i64 (i64 now - InvokeStartTimeNS q), MemoryUsed_si = MaxMemUsedBytes q,
      StatusCode_si = (if Status_rq q = StatusSuccess then 200 else if Status_rq q = StatusTimeout then 408 else 417)\<rparr>"

section \<open>The whole call\<close>

record client_output =
  FuncResult_co :: string
  FuncError_co :: string
  ErrorInfo_co :: string
  LogMessage_co :: "string list"
  Statistic_co :: "StatisticInfo option"

definition client_result :: "call_env \<Rightarrow> string \<Rightarrow> RequestInfo \<Rightarrow> string list \<Rightarrow> StatisticInfo option \<Rightarrow> client_output" where
  "client_result e errorMessage q msgs st =
     \<lparr>FuncResult_co = (if errorMessage \<noteq> '''' then marshal_aws e errorMessage else FuncResult q), FuncError_co = FuncError q, ErrorInfo_co = ErrorInfo q,
      LogMessage_co = msgs, Statistic_co = st\<rparr>"

definition invokeCleanup :: "nat \<Rightarrow> client_world \<Rightarrow> client_world" where
  "invokeCleanup a w = w\<lparr>rt_cw := rt_InvokeDone a False (rt_cw w)\<rparr>"

text \<open>The wait for the answer: the result is there, or the timer fires.\<close>

definition await_result :: "call_env \<Rightarrow> nat \<Rightarrow> FunctionCall \<Rightarrow> client_world \<Rightarrow> bool \<times> client_world" where
  "await_result e a input w =
     (if \<not> timer_fires e \<and> 0 < SyncChannel (req a w) then (False, put_req a (\<lambda>q. q\<lparr>SyncChannel := SyncChannel q - 1\<rparr>) w)
      else (True, put_req a (\<lambda>q. let q1 = InvokeResult StatusTimeout ''Invoke timeout.'' q
                                  in if WithStreamMode_ii input then q1\<lparr>TimeoutChannel := TimeoutChannel q1 + 1\<rparr> else q1) w))"

definition finish_call :: "call_env \<Rightarrow> nat \<Rightarrow> nat \<Rightarrow> FunctionCall \<Rightarrow> client_world \<Rightarrow> (string list \<times> client_world) outcome" where
  "finish_call e a b input w =
     obind (InvokeReportDone e a b input w) (\<lambda>(msgs, w1).
     Value (msgs, StopRecvLog (RuntimeID (runtime w1)) (RequestID_rq (req a w1)) b w1))"

text \<open>The call could not be queued.\<close>

definition failed_call :: "call_env \<Rightarrow> nat \<Rightarrow> nat \<Rightarrow> FunctionCall \<Rightarrow> string \<Rightarrow> client_world \<Rightarrow> (client_output \<times> client_world) outcome" where
  "failed_call e a b input msg w =
     obind (finish_call e a b input (put_req a (rq_InvokeDone (now_done e) (ConcurrentMode (runtime w))) (sync_mem w))) (\<lambda>(msgs, w1).
     let w2 = invokeCleanup a w1
     in Value (client_result e (RequestID_ii input @ '' invoke function error: '' @ msg) (req a w2) msgs None, w2))"

definition awaited_call :: "call_env \<Rightarrow> nat \<Rightarrow> nat \<Rightarrow> FunctionCall \<Rightarrow> int64 \<Rightarrow> client_world \<Rightarrow> (client_output \<times> client_world) outcome" where
  "awaited_call e a b input functionTimeout w =
     obind (cl_run (during_call e) w) (\<lambda>w1. case await_result e a input w1 of (late, w2) \<Rightarrow>
     obind (finish_call e a b input w2) (\<lambda>(msgs, w3).
     let st = statisticsInfo (now_stat e) input (req a w3); w4 = invokeCleanup a w3;
         msg = (if late then RequestID_ii input @ '' Task timed out after '' @ Itoa functionTimeout @ '' seconds'' else '''')
     in Value (client_result e msg (req a w4) msgs (Some st), w4)))"

definition ready_call :: "call_env \<Rightarrow> nat \<Rightarrow> nat \<Rightarrow> FunctionCall \<Rightarrow> client_world \<Rightarrow> (client_output \<times> client_world) outcome" where
  "ready_call e a b input w =
     (let logged = (\<not> IsNoneLogType (LogType_c input) \<or> (case LogConfig_c input of None \<Rightarrow> False | Some t \<Rightarrow> \<not> IsNoneLogType t));
          w1 = (if logged then put_req a (\<lambda>q. q\<lparr>enableUserLog := True\<rparr>) w else w)
      in obind (startRecvLog e a b input (if logged then userlogType e else '''') w1) (\<lambda>w2.
         obind (deref_field (Timeout_fc (Configuration_ii input))) (\<lambda>functionTimeout.
         obind (client_InvokeFunc e a b input (put_req a (\<lambda>q. q\<lparr>Status_rq := StatusRunning\<rparr>) w2)) (\<lambda>(err, w3). case err of
           Some msg \<Rightarrow> failed_call e a b input msg w3
         | None \<Rightarrow> awaited_call e a b input functionTimeout w3))))"

definition InvokeFunction :: "call_env \<Rightarrow> nat \<Rightarrow> nat \<Rightarrow> FunctionCall \<Rightarrow> client_world \<Rightarrow> (client_output \<times> client_world) outcome" where
  "InvokeFunction e a b input0 w0 = (case createRequest (now_create e) a input0 w0 of (input, w) \<Rightarrow>
     obind (waitRuntime e a input w) (\<lambda>(err, w1). case err of
       Some msg \<Rightarrow> Value (client_result e (RequestID_ii input @ '' wait runtime error: '' @ msg) (req a w1) [] None, w1)
     | None \<Rightarrow> ready_call e a b input w1))"

section \<open>Every call returns and cleans up\<close>

lemma world_simps [simp]:
  "runtime (put_req a f w) = runtime w" "runtime (put_store b s w) = runtime w" "runtime (sync_mem w) = runtime w"
  "stores_cw (put_req a f w) = stores_cw w" "stores_cw (sync_mem w) = stores_cw w" "stores_cw (put_store b s w) = (stores_cw w)(b := s)"
  "req a (put_store b s w) = req a w" "req a (put_req a f w) = f (req a w)" "maps_cw (put_req a f w) = maps_cw w" "maps_cw (put_store b s w) = maps_cw w"
  "runtime (w\<lparr>store_of := so\<rparr>) = runtime w" "req a (w\<lparr>store_of := so\<rparr>) = req a w"
  by (simp_all add: runtime_def req_def put_req_def put_store_def sync_mem_def upd_req_def)

text \<open>The channels of the runtime and every log store are in order.\<close>

definition world_ok :: "client_world \<Rightarrow> bool" where
  "world_ok w \<longleftrightarrow> chan_inv (runtime w) \<and> (\<forall>b. store_wf (stores_cw w b))"

definition kept :: "client_world \<Rightarrow> client_world \<Rightarrow> bool" where
  "kept w w' \<longleftrightarrow> (\<forall>a. same_result (req a w) (req a w'))"

lemma kept_refl [simp]: "kept w w"
  by (simp add: kept_def)

lemma kept_trans: "kept w w' \<Longrightarrow> kept w' w'' \<Longrightarrow> kept w w''"
  unfolding kept_def by (blast intro: same_result_trans)

lemma kept_id: "kept w w' \<Longrightarrow> RequestID_rq (req a w') = RequestID_rq (req a w)"
  by (simp add: kept_def same_result_def)

lemma kept_put_store [simp]: "kept w (put_store b s w)"
  by (simp add: kept_def)

lemma kept_put_req: "(\<And>q. same_result q (f q)) \<Longrightarrow> kept w (put_req a f w)"
  by (simp add: kept_def put_req_def req_def upd_req_def)

lemma sync_mem_kept: "same_result (req a w) (reqs_w (rt_cw (sync_mem w)) a)"
  by (simp add: same_result_def req_def sync_mem_def settled_def)

lemma kept_sync: "kept w (sync_mem w)"
  using sync_mem_kept by (simp add: kept_def req_def)

lemma enabled_sync [simp]: "enabled e (rt_cw (sync_mem w)) = enabled e (rt_cw w)"
  by (cases e) (simp_all add: sync_mem_def)

lemma world_ok_put_store: "world_ok w \<Longrightarrow> store_wf s \<Longrightarrow> world_ok (put_store b s w)"
  by (simp add: world_ok_def)

lemma SetMemUsed_wf: "store_wf s \<Longrightarrow> store_wf (SetMemUsed mem s)"
  by (simp add: SetMemUsed_def store_wf_def)

lemma recv_stat_ok: "world_ok w \<Longrightarrow> world_ok (recv_stat c mem w) \<and> kept w (recv_stat c mem w)"
  by (auto simp: recv_stat_def world_ok_def kept_def Let_def SetMemUsed_wf runtime_def req_def put_store_def split: option.splits sum.splits)

lemma cl_step_ok:
  assumes "world_ok w"
  obtains w' where "cl_step e w = Value w'" "world_ok w'" "kept w w'"
proof (cases e)
  case (ClRuntime ev)
  show ?thesis
  proof (cases "enabled ev (rt_cw w)")
    case True
    have "chan_inv (rt_w (rt_cw (sync_mem w)))" using assms by (simp add: world_ok_def runtime_def sync_mem_def)
    then obtain r where r: "rt_step ev (rt_cw (sync_mem w)) = Value r" "chan_inv (rt_w r)"
      using rt_step_chan_inv [of "rt_cw (sync_mem w)" ev] True by auto
    have "results_kept (rt_cw (sync_mem w)) r" by (rule rt_step_results [OF r(1)])
    then have "kept w (w\<lparr>rt_cw := r\<rparr>)" using sync_mem_kept by (auto simp: kept_def results_kept_def req_def intro: same_result_trans)
    with r assms show ?thesis by (intro that [of "w\<lparr>rt_cw := r\<rparr>"]) (simp_all add: ClRuntime True world_ok_def runtime_def)
  qed (use assms that [of w] ClRuntime in simp)
next
  case (ClLog b oper)
  show ?thesis
  proof (cases "op_ok oper")
    case True
    have "store_wf (stores_cw w b)" using assms by (simp add: world_ok_def)
    then obtain s where "log_step oper (stores_cw w b) = Value s" "store_wf s" by (rule log_step_wf [OF _ True])
    with assms show ?thesis by (intro that [of "put_store b s w"]) (simp_all add: ClLog True world_ok_put_store)
  qed (use assms that [of w] ClLog in simp)
next
  case (ClStat c mem)
  with recv_stat_ok [OF assms, of c mem] that [of "recv_stat c mem w"] show ?thesis by simp
qed

lemma cl_run_ok:
  assumes "world_ok w"
  obtains w' where "cl_run es w = Value w'" "world_ok w'" "kept w w'"
proof -
  have "\<exists>w'. cl_run es w = Value w' \<and> world_ok w' \<and> kept w w'"
    using assms
  proof (induction es arbitrary: w)
    case (Cons e es)
    obtain w1 where w1: "cl_step e w = Value w1" "world_ok w1" "kept w w1" by (rule cl_step_ok [OF Cons.prems])
    from Cons.IH [OF w1(2)] obtain w' where "cl_run es w1 = Value w'" "world_ok w'" "kept w1 w'" by blast
    with w1 show ?case using kept_trans by fastforce
  qed simp
  then show ?thesis using that by blast
qed

lemma put_req_ok: "world_ok w \<Longrightarrow> world_ok (put_req a f w)"
  by (simp add: world_ok_def)

lemma write_log_ok:
  assumes "world_ok w"
  shows "world_ok (write_log b (WriteFunctionLog clk msg) w)" "world_ok (write_log b (WriteFunctionReportLog clk msg params) w)"
    "kept w (write_log b f w)" "runtime (write_log b f w) = runtime w" "req a (write_log b f w) = req a w"
  using assms system_write(1) [OF _ disjI1 [OF refl], of "stores_cw w b"] system_write(1) [OF _ disjI2 [OF refl], of "stores_cw w b"]
  by (simp_all add: write_log_def world_ok_def)

lemma log_done_ok:
  assumes "world_ok w"
  obtains r s where "log_done d b w = Value (r, put_store b s w)" "world_ok (put_store b s w)"
proof -
  have "store_wf (stores_cw w b)" using assms by (simp add: world_ok_def)
  then obtain r s where "LogDone d (stores_cw w b) = Value (r, s)" "store_wf s" by (rule LogDone_run)
  with assms show ?thesis by (intro that [of r s]) (simp_all add: log_done_def world_ok_put_store)
qed

lemma waitRuntime_ok:
  assumes "world_ok w"
  obtains r w' where "waitRuntime e a input w = Value (r, w')" "world_ok w'" "kept w w'"
proof -
  have "\<exists>w1. (if State (runtime w) = RuntimeStateWarm then Value w else cl_run (during_wait e) w) = Value w1 \<and> world_ok w1 \<and> kept w w1"
    using assms cl_run_ok [OF assms, of "during_wait e"] by (metis kept_refl)
  then obtain w1 where w1: "(if State (runtime w) = RuntimeStateWarm then Value w else cl_run (during_wait e) w) = Value w1" "world_ok w1" "kept w w1"
    by blast
  have "runtime (ready_request a input w1) = (runtime w1)\<lparr>UserID := User_c input\<rparr>"
    by (simp add: ready_request_def runtime_def put_req_def Let_def)
  then have ready: "world_ok (ready_request a input w1)" "kept w1 (ready_request a input w1)"
    using w1(2) by (auto simp: world_ok_def chan_inv_def serving_def)
      (auto simp: ready_request_def kept_def same_result_def settled_def req_def put_req_def upd_req_def Let_def)
  show ?thesis
    by (rule that [of "fst (the_value (waitRuntime e a input w))" "snd (the_value (waitRuntime e a input w))"])
      (use w1 ready in \<open>auto simp: waitRuntime_def intro: kept_trans split: option.splits\<close>)
qed

lemma StartRecvLog_ok: "world_ok w \<Longrightarrow> world_ok (StartRecvLog rid i b w) \<and> kept w (StartRecvLog rid i b w)"
  by (auto simp: StartRecvLog_def world_ok_def kept_def Let_def SetMemUsed_wf runtime_def req_def put_store_def split: option.splits)

lemma startRecvLog_ok:
  assumes "world_ok w" "FunctionName_c input \<noteq> None" "FunctionArn_fc (Configuration_ii input) \<noteq> None" "Version_c input \<noteq> None"
  obtains w' where "startRecvLog e a b input lt w = Value w'" "world_ok w'" "kept w w'"
proof -
  define w1 where "w1 = put_store b (newLogStatStore \<lparr>RequestID_lp = RequestID_rq (req a w), TriggerType_lp = TriggerType_rq (req a w), RuntimeID_lp = RuntimeID (runtime w),
      UserID_lp = (if UserID (runtime w) = '''' then ''unknown'' else UserID (runtime w)), FunctionName_lp = the (FunctionName_c input),
      FunctionBrn_lp = the (FunctionArn_fc (Configuration_ii input)), FunctionVersion_lp = the (Version_c input),
      FilePath_lp = log_dir e, LogType_lp = lt\<rparr> (stat_e e) (mkdir_e e) (nano_e e) (opened_e e)) w"
  define w2 where "w2 = StartRecvLog (RuntimeID (runtime w1)) (RequestID_rq (req a w1)) b w1"
  have "world_ok w1" "kept w w1" using assms(1) by (simp_all add: w1_def world_ok_put_store newLogStatStore_wf)
  then have w2: "world_ok w2" "kept w w2" using StartRecvLog_ok kept_trans unfolding w2_def by blast+
  moreover have "startRecvLog e a b input lt w = Value (w2\<lparr>store_of := (store_of w2)(a \<mapsto> b)\<rparr>)"
    using assms(2-4) by (auto simp: startRecvLog_def deref_field_def w2_def w1_def Let_def)
  ultimately show ?thesis by (intro that [of "w2\<lparr>store_of := (store_of w2)(a \<mapsto> b)\<rparr>"]) (simp_all add: world_ok_def kept_def)
qed

lemma InvokeHTTPFunc_keeps: "same_chans (rt_w r) (rt_w (snd (InvokeHTTPFunc a q r)))" "reqs_w (snd (InvokeHTTPFunc a q r)) = reqs_w r"
  by (auto simp: InvokeHTTPFunc_def same_chans_def Let_def split: option.splits)

lemma InvokeFunc_keeps: "same_chans (rt_w r) (rt_w (snd (InvokeFunc a q r)))" "reqs_w (snd (InvokeFunc a q r)) = reqs_w r"
  by (auto simp: InvokeFunc_def same_chans_def Let_def split: option.splits)

lemma on_runtime_ok:
  assumes "world_ok w" "same_chans (rt_w (rt_cw w)) (rt_w (snd (f (rt_cw w))))" "reqs_w (snd (f (rt_cw w))) = reqs_w (rt_cw w)"
  shows "world_ok (snd (on_runtime f w))" "kept w (snd (on_runtime f w))"
  using assms same_chans_inv [OF assms(2)] by (auto simp: on_runtime_def world_ok_def kept_def runtime_def req_def split: prod.splits)

lemma client_InvokeFunc_ok:
  assumes "world_ok w" "Version_c input \<noteq> None" "Timeout_fc (Configuration_ii input) \<noteq> None"
  obtains r w' where "client_InvokeFunc e a b input w = Value (r, w')" "world_ok w'" "kept w w'"
proof -
  obtain v t where v: "Version_c input = Some v" "Timeout_fc (Configuration_ii input) = Some t" using assms(2,3) by auto
  define w1 where "w1 = write_log b (WriteFunctionLog (clock_start e) (start_line (RequestID_rq (req a w)) v)) w"
  have w1: "InvokeStart (clock_start e) a b input w = Value w1" "world_ok w1" "kept w w1"
    using write_log_ok [OF assms(1)] v by (simp_all add: InvokeStart_def deref_field_def w1_def)
  have run: "\<exists>f. client_InvokeFunc e a b input w = Value (on_runtime f w1) \<and> same_chans (rt_w (rt_cw w1)) (rt_w (snd (f (rt_cw w1)))) \<and>
      reqs_w (snd (f (rt_cw w1))) = reqs_w (rt_cw w1)"
    using v w1(1) InvokeHTTPFunc_keeps InvokeFunc_keeps
    by (cases "WithStreamMode_ii input") (auto simp: client_InvokeFunc_def makeInvokeHTTPRequest_def makeInvokeRequest_def deref_field_def Let_def)
  then obtain f where f: "client_InvokeFunc e a b input w = Value (on_runtime f w1)" "world_ok (snd (on_runtime f w1))" "kept w1 (snd (on_runtime f w1))"
    using on_runtime_ok [OF w1(2)] by blast
  then show ?thesis using kept_trans [OF w1(3)] by (intro that [of "fst (on_runtime f w1)" "snd (on_runtime f w1)"]) simp_all
qed

lemma waitLogDone_ok:
  assumes "world_ok w"
  obtains w' where "waitLogDone e b w = Value w'" "world_ok w'" "kept w w'"
proof -
  obtain r s where s: "log_done False b w = Value (r, put_store b s w)" "world_ok (put_store b s w)" by (rule log_done_ok [OF assms])
  show ?thesis
  proof (cases r)
    case True
    with s show ?thesis by (intro that [of "put_store b s w"]) (simp_all add: waitLogDone_def)
  next
    case False
    obtain w2 where w2: "cl_run (during_drain e) (put_store b s w) = Value w2" "world_ok w2" "kept (put_store b s w) w2" by (rule cl_run_ok [OF s(2)])
    obtain r' s' where "log_done True b w2 = Value (r', put_store b s' w2)" "world_ok (put_store b s' w2)" by (rule log_done_ok [OF w2(2)])
    with False s w2 show ?thesis
      by (intro that [of "put_store b s' w2"]) (auto simp: waitLogDone_def intro: kept_trans [OF kept_put_store kept_trans [OF _ kept_put_store]])
  qed
qed

lemma store_Close_ok:
  assumes "store_wf s"
  obtains r s' where "store_Close s = Value (r, s')" "store_wf s'" "bits_Has (flags s') flagClosed"
proof (cases "bits_Has (flags s) flagClosed")
  case True
  with assms show ?thesis by (intro that [of "Inl errReceiverClosed" s]) (simp_all add: store_Close_def)
next
  case False
  with assms obtain data where "logbuf s = Some data" by (auto simp: store_wf_def)
  from store_Close_run [OF assms False this] that show ?thesis by metis
qed

lemma InvokeReportDone_ok:
  assumes "world_ok w"
  obtains msgs w' where "InvokeReportDone e a b input w = Value (msgs, w')" "world_ok w'" "kept w w'" "bits_Has (flags (stores_cw w' b)) flagClosed"
proof -
  have "\<exists>w1. (if \<not> ConcurrentMode (runtime w) \<and> (enableUserLog (req a w) \<or> IsLogTail_ii input) then waitLogDone e b w
            else obind (log_done True b w) (\<lambda>(_, w1). Value w1)) = Value w1 \<and> world_ok w1 \<and> kept w w1"
  proof (cases "\<not> ConcurrentMode (runtime w) \<and> (enableUserLog (req a w) \<or> IsLogTail_ii input)")
    case True
    obtain w1 where "waitLogDone e b w = Value w1" "world_ok w1" "kept w w1" by (rule waitLogDone_ok [OF assms])
    with True show ?thesis by auto
  next
    case False
    obtain r s where "log_done True b w = Value (r, put_store b s w)" "world_ok (put_store b s w)" by (rule log_done_ok [OF assms])
    with False show ?thesis by auto
  qed
  then obtain w1 where w1: "(if \<not> ConcurrentMode (runtime w) \<and> (enableUserLog (req a w) \<or> IsLogTail_ii input) then waitLogDone e b w
            else obind (log_done True b w) (\<lambda>(_, w1). Value w1)) = Value w1" "world_ok w1" "kept w w1" by blast
  define w2 where "w2 = write_log b (WriteFunctionLog (clock_end e) (end_line (req a w1))) w1"
  define w3 where "w3 = (if ConcurrentMode (runtime w2) then put_req a (\<lambda>q. q\<lparr>InvokeDurationMS := 0, BilledDurationMS := 0, MaxMemUsedBytes := 0\<rparr>) w2 else w2)"
  define w4 where "w4 = write_log b (WriteFunctionReportLog (clock_report e) (report_line (req a w3)) (report_params (runtime w3) (req a w3))) w3"
  have w2: "world_ok w2" "kept w w2" using write_log_ok [OF w1(2)] kept_trans [OF w1(3)] by (simp_all add: w2_def)
  have "kept w2 w3" unfolding w3_def by (simp add: kept_put_req same_result_def settled_def)
  with w2(1) have w3: "world_ok w3" "kept w2 w3" by (simp_all add: w3_def put_req_ok)
  have w4: "world_ok w4" "kept w w4" using write_log_ok [OF w3(1)] kept_trans [OF kept_trans [OF w2(2) w3(2)]] by (simp_all add: w4_def)
  then have "store_wf (stores_cw w4 b)" by (simp add: world_ok_def)
  then obtain r s where s: "store_Close (stores_cw w4 b) = Value (r, s)" "store_wf s" "bits_Has (flags s) flagClosed" by (rule store_Close_ok)
  have "InvokeReportDone e a b input w =
      Value (if IsLogTail_ii input then [case r of Inl _ \<Rightarrow> '''' | Inr logData \<Rightarrow> logData] else [], put_store b s w4)"
    by (simp only: InvokeReportDone_def w1(1) obind.simps Let_def w2_def [symmetric] w3_def [symmetric] w4_def [symmetric] s(1) prod.case)
  then show ?thesis
    by (rule that) (use w4 s kept_trans [OF w4(2) kept_put_store] in \<open>simp_all add: world_ok_put_store\<close>)
qed

text \<open>When the log is stopped, the store of the request is closed and no reader finds it any more.\<close>

definition log_stopped :: "nat \<Rightarrow> nat \<Rightarrow> client_world \<Rightarrow> bool" where
  "log_stopped a b w \<longleftrightarrow> bits_Has (flags (stores_cw w b)) flagClosed \<and>
     storeMap_get (RuntimeID (runtime w)) (RequestID_rq (req a w)) (maps_cw w) \<noteq> Some b"

lemma storeMap_del_get: "storeMap_get rid i (storeMap_del rid i b m) \<noteq> Some b"
  by (auto simp: storeMap_get_def storeMap_del_def lsm_get_def lsm_del_def delete_conv' split: option.splits)

lemma finish_call_ok:
  assumes "world_ok w"
  obtains msgs w' where "finish_call e a b input w = Value (msgs, w')" "world_ok w'" "kept w w'" "log_stopped a b w'"
proof -
  obtain msgs w1 where w1: "InvokeReportDone e a b input w = Value (msgs, w1)" "world_ok w1" "kept w w1" "bits_Has (flags (stores_cw w1 b)) flagClosed"
    by (rule InvokeReportDone_ok [OF assms])
  define w2 where "w2 = StopRecvLog (RuntimeID (runtime w1)) (RequestID_rq (req a w1)) b w1"
  have "runtime w2 = runtime w1" "\<And>c. req c w2 = req c w1" "stores_cw w2 = stores_cw w1"
    "maps_cw w2 = storeMap_del (RuntimeID (runtime w1)) (RequestID_rq (req a w1)) b (maps_cw w1)"
    by (simp_all add: w2_def StopRecvLog_def runtime_def req_def)
  then show ?thesis
    using w1 by (intro that [of msgs w2]) (simp_all add: finish_call_def w2_def world_ok_def kept_def log_stopped_def storeMap_del_get)
qed

lemma invokeCleanup_ok:
  assumes "world_ok w"
  shows "world_ok (invokeCleanup a w)" "kept w (invokeCleanup a w)" "requestMap (runtime (invokeCleanup a w)) (RequestID_rq (req a w)) = None"
    "log_stopped a b (invokeCleanup a w) = log_stopped a b w"
proof -
  have "same_chans (rt_w (rt_cw w)) (rt_w (rt_InvokeDone a False (rt_cw w)))" "RuntimeID (rt_w (rt_InvokeDone a False (rt_cw w))) = RuntimeID (rt_w (rt_cw w))"
    "reqs_w (rt_InvokeDone a False (rt_cw w)) = reqs_w (rt_cw w)"
    by (auto simp: rt_InvokeDone_def same_chans_def Let_def)
  with assms same_chans_inv show "world_ok (invokeCleanup a w)" "kept w (invokeCleanup a w)" "log_stopped a b (invokeCleanup a w) = log_stopped a b w"
    by (auto simp: invokeCleanup_def world_ok_def kept_def log_stopped_def runtime_def req_def)
  show "requestMap (runtime (invokeCleanup a w)) (RequestID_rq (req a w)) = None"
    by (simp add: invokeCleanup_def rt_InvokeDone_def runtime_def req_def Let_def)
qed

definition cleaned_up :: "nat \<Rightarrow> nat \<Rightarrow> string \<Rightarrow> client_world \<Rightarrow> bool" where
  "cleaned_up a b i w \<longleftrightarrow> world_ok w \<and> requestMap (runtime w) i = None \<and> log_stopped a b w"

lemma finish_then_cleanup:
  assumes "world_ok w" "RequestID_rq (req a w) = i"
  obtains msgs w' where "finish_call e a b input w = Value (msgs, w')" "cleaned_up a b i (invokeCleanup a w')"
proof -
  obtain msgs w1 where "finish_call e a b input w = Value (msgs, w1)" "world_ok w1" "kept w w1" "log_stopped a b w1" by (rule finish_call_ok [OF assms(1)])
  with invokeCleanup_ok(1,3) [of w1 a] invokeCleanup_ok(4) [of w1 a b] kept_id [of w w1 a] assms(2) show ?thesis
    by (intro that [of msgs w1]) (simp_all add: cleaned_up_def)
qed

lemma failed_call_ok:
  assumes "world_ok w" "RequestID_rq (req a w) = i"
  obtains out w' where "failed_call e a b input msg w = Value (out, w')" "cleaned_up a b i w'"
proof -
  have "world_ok (put_req a (rq_InvokeDone (now_done e) (ConcurrentMode (runtime w))) (sync_mem w))" using assms(1) by (simp add: world_ok_def)
  moreover have "RequestID_rq (req a (put_req a (rq_InvokeDone (now_done e) (ConcurrentMode (runtime w))) (sync_mem w))) = i"
    using assms(2) by (simp add: same_result_id [OF result_ops(3)] kept_id [OF kept_sync])
  ultimately show ?thesis by (rule finish_then_cleanup [of _ a i e b input]) (intro that, auto simp: failed_call_def Let_def)
qed

lemma awaited_call_ok:
  assumes "world_ok w" "RequestID_rq (req a w) = i"
  obtains out w' where "awaited_call e a b input t w = Value (out, w')" "cleaned_up a b i w'"
proof -
  obtain w1 where w1: "cl_run (during_call e) w = Value w1" "world_ok w1" "kept w w1" by (rule cl_run_ok [OF assms(1)])
  obtain late w2 where w2: "await_result e a input w1 = (late, w2)" by fastforce
  have "world_ok w2" "RequestID_rq (req a w2) = i"
    using w1 w2 assms(2) kept_id [OF w1(3), of a] by (auto simp: await_result_def Let_def put_req_ok InvokeResult_def split: if_splits)
  then show ?thesis by (rule finish_then_cleanup [of w2 a i e b input]) (intro that, auto simp: awaited_call_def Let_def w1(1) w2)
qed

lemma ready_call_ok:
  assumes "world_ok w" "RequestID_rq (req a w) = i" "FunctionName_c input \<noteq> None" "FunctionArn_fc (Configuration_ii input) \<noteq> None"
    "Version_c input \<noteq> None" "Timeout_fc (Configuration_ii input) = Some t"
  obtains out w' where "ready_call e a b input w = Value (out, w')" "cleaned_up a b i w'"
proof -
  define logged where "logged = (\<not> IsNoneLogType (LogType_c input) \<or> (case LogConfig_c input of None \<Rightarrow> False | Some t \<Rightarrow> \<not> IsNoneLogType t))"
  define w1 where "w1 = (if logged then put_req a (\<lambda>q. q\<lparr>enableUserLog := True\<rparr>) w else w)"
  have w1: "world_ok w1" "RequestID_rq (req a w1) = i" using assms(1,2) by (simp_all add: w1_def put_req_ok)
  obtain w2 where w2: "startRecvLog e a b input (if logged then userlogType e else '''') w1 = Value w2" "world_ok w2" "kept w1 w2"
    by (rule startRecvLog_ok [OF w1(1) assms(3-5)])
  define w2' where "w2' = put_req a (\<lambda>q. q\<lparr>Status_rq := StatusRunning\<rparr>) w2"
  have w2': "world_ok w2'" "RequestID_rq (req a w2') = i" using w1(2) w2 kept_id [OF w2(3), of a] by (simp_all add: w2'_def put_req_ok)
  have "Timeout_fc (Configuration_ii input) \<noteq> None" using assms(6) by simp
  then obtain r w3 where w3: "client_InvokeFunc e a b input w2' = Value (r, w3)" "world_ok w3" "kept w2' w3" by (rule client_InvokeFunc_ok [OF w2'(1) assms(5)])
  have id3: "RequestID_rq (req a w3) = i" using kept_id [OF w3(3), of a] w2'(2) by simp
  have run: "ready_call e a b input w = (case r of Some msg \<Rightarrow> failed_call e a b input msg w3 | None \<Rightarrow> awaited_call e a b input t w3)"
    unfolding ready_call_def Let_def logged_def [symmetric] w1_def [symmetric] w2(1) obind.simps assms(6) deref_field_def option.case w2'_def [symmetric] w3(1) prod.case
    by (rule refl)
  show ?thesis
  proof (cases r)
    case None
    obtain out w' where "awaited_call e a b input t w3 = Value (out, w')" "cleaned_up a b i w'" by (rule awaited_call_ok [OF w3(2) id3])
    with None run show ?thesis by (intro that) simp_all
  next
    case (Some msg)
    obtain out w' where "failed_call e a b input msg w3 = Value (out, w')" "cleaned_up a b i w'" by (rule failed_call_ok [OF w3(2) id3])
    with Some run show ?thesis by (intro that) simp_all
  qed
qed

text \<open>C8: A call cleans up after itself. Let the function have a name and a version and the channels of the runtime and the log stores be in order. Whatever
  the runtime's generic loops, its runner, the manager, other requests and the log readers do while the call waits for the runtime, for the answer or its timer, and for the
  log, \<open>InvokeFunction\<close> does not panic and gives an output. If the wait for the runtime fails, nothing was started and the
  output is that error; otherwise, however the call ended (not queued, answered, failed, timed out), its request is out of the runtime's table, its
  log store is closed, and no reader finds the store any more. (The turns of the stream mode's loops are not among the
  events; where they panic is the subject of \<open>RtLife\<close>.)\<close>

theorem call_returns_clean:
  assumes "world_ok w" "FunctionName_c input \<noteq> None" "Version_c input \<noteq> None"
  shows "\<exists>input1 w0 err w1 out w'. createRequest (now_create e) a input w = (input1, w0) \<and> waitRuntime e a input1 w0 = Value (err, w1) \<and>
    InvokeFunction e a b input w = Value (out, w') \<and> world_ok w' \<and>
    (case err of
       Some msg \<Rightarrow> w' = w1 \<and> FuncResult_co out = marshal_aws e (RequestID_ii input @ '' wait runtime error: '' @ msg)
     | None \<Rightarrow> requestMap (runtime w') (RequestID_ii input) = None \<and> log_stopped a b w')"
proof -
  obtain input1 w0 where c: "createRequest (now_create e) a input w = (input1, w0)" by fastforce
  have in1: "RequestID_ii input1 = RequestID_ii input" "FunctionName_c input1 \<noteq> None" "Version_c input1 \<noteq> None"
      "FunctionArn_fc (Configuration_ii input1) \<noteq> None" "Timeout_fc (Configuration_ii input1) \<noteq> None"
    and w0: "world_ok w0" "RequestID_rq (req a w0) = RequestID_ii input"
    using c assms by (auto simp: createRequest_def Let_def world_ok_def NewRequestInfo_def split: if_splits)
  obtain r w1 where w1: "waitRuntime e a input1 w0 = Value (r, w1)" "world_ok w1" "kept w0 w1" by (rule waitRuntime_ok [OF w0(1)])
  show ?thesis
  proof (cases r)
    case (Some msg)
    then show ?thesis using w1 in1 by (simp add: InvokeFunction_def c client_result_def)
  next
    case None
    obtain t where t: "Timeout_fc (Configuration_ii input1) = Some t" using in1(5) by blast
    have "RequestID_rq (req a w1) = RequestID_ii input" using kept_id [OF w1(3), of a] w0(2) by simp
    from ready_call_ok [OF w1(2) this in1(2,4,3) t] obtain out w' where "ready_call e a b input1 w1 = Value (out, w')" "cleaned_up a b (RequestID_ii input) w'" .
    with None w1(1) show ?thesis by (simp add: InvokeFunction_def c cleaned_up_def)
  qed
qed

section \<open>The first answer is returned\<close>

lemma cl_run_append: "cl_run (es @ es') w = obind (cl_run es w) (cl_run es')"
proof (induction es arbitrary: w)
  case (Cons e es)
  then show ?case by (cases "cl_step e w") simp_all
qed simp

definition succeeded :: "string \<Rightarrow> RequestInfo \<Rightarrow> bool" where
  "succeeded r q \<longleftrightarrow> Status_rq q = StatusSuccess \<and> FuncResult q = r \<and> FuncError q = ''''"

lemma kept_succeeded: "kept w w' \<Longrightarrow> succeeded r (req a w) \<Longrightarrow> succeeded r (req a w')"
  unfolding kept_def same_result_def succeeded_def settled_def by (metis insert_iff)

lemma kept_sync_token: "kept w w' \<Longrightarrow> 0 < SyncChannel (req a w) \<Longrightarrow> 0 < SyncChannel (req a w')"
  by (simp add: kept_def same_result_def)

lemma recv_succeeds:
  assumes "requestMap (runtime w) (RequestID_is resp) = Some a" "RequestID_rq (req a w) = RequestID_is resp"
    "Status_rq (req a w) = StatusRunning" "FuncError (req a w) = ''''" "Success_is resp" "cl_step (ClRuntime (EvRecv now resp)) w = Value w'"
  shows "succeeded (FuncResult_is resp) (req a w') \<and> 0 < SyncChannel (req a w')"
proof -
  define r0 where "r0 = rt_cw (sync_mem w)"
  define q where "q = rq_InvokeDone now (ConcurrentMode (rt_w r0)) (InvokeResult StatusSuccess (FuncResult_is resp) (reqs_w r0 a))"
  have r0: "requestMap (rt_w r0) (RequestID_is resp) = Some a" "RequestID_rq (reqs_w r0 a) = RequestID_is resp"
      "Status_rq (reqs_w r0 a) = StatusRunning" "FuncError (reqs_w r0 a) = ''''"
    using assms(1-4) by (simp_all add: r0_def sync_mem_def runtime_def req_def)
  have q: "succeeded (FuncResult_is resp) q" "RequestID_rq q = RequestID_is resp"
    using r0(2-4) by (simp_all add: q_def succeeded_def rq_InvokeDone_def InvokeResult_def Let_def split: option.splits)
  have "recv_generic now resp r0 = rt_InvokeDone a True (upd_req a (\<lambda>_. q) r0)"
    using assms(5) r0(1) by (simp add: recv_generic_def handleInvokeDone_def loadRequest_def q_def upd_req_def)
  moreover have "reqs_w (rt_InvokeDone a True (upd_req a (\<lambda>_. q) r0)) a = Notify q"
    using q(2) r0(1) by (simp add: rt_InvokeDone_def upd_req_def Let_def)
  ultimately have "req a w' = Notify q" using assms(6) by (auto simp: req_def r0_def)
  then show ?thesis using q(1) by (simp add: succeeded_def Notify_def)
qed

text \<open>C9: The caller gets the first answer. When the runtime answers a request that is still running with a result, and the timer has not
  fired, the call returns exactly that result without an error and is counted as a success, whatever else happens before and after the answer:
  further answers, a stop of the process, other requests or log output.\<close>

theorem first_answer_returned:
  assumes "world_ok w" "during_call e = es1 @ ClRuntime (EvRecv now resp) # es2" "cl_run es1 w = Value w1"
    and "requestMap (runtime w1) (RequestID_is resp) = Some a" "RequestID_rq (req a w1) = RequestID_is resp"
    and "Status_rq (req a w1) = StatusRunning" "FuncError (req a w1) = ''''" "Success_is resp" "\<not> timer_fires e"
  shows "\<exists>out w' st. awaited_call e a b input t w = Value (out, w') \<and> FuncResult_co out = FuncResult_is resp \<and> FuncError_co out = '''' \<and>
    Statistic_co out = Some st \<and> StatusCode_si st = 200"
proof -
  let ?r = "FuncResult_is resp"
  have "world_ok w1" using cl_run_ok [OF assms(1), of es1] assms(3) by (metis outcome.inject(1))
  then obtain w2 where w2: "cl_step (ClRuntime (EvRecv now resp)) w1 = Value w2" "world_ok w2" by (rule cl_step_ok)
  have s2: "succeeded ?r (req a w2)" "0 < SyncChannel (req a w2)" using recv_succeeds [OF assms(4-8) w2(1)] by simp_all
  obtain w3 where w3: "cl_run es2 w2 = Value w3" "world_ok w3" "kept w2 w3" by (rule cl_run_ok [OF w2(2)])
  have run: "cl_run (during_call e) w = Value w3" using assms(2,3) w2(1) w3(1) by (simp add: cl_run_append del: cl_step.simps)
  define w4 where "w4 = put_req a (\<lambda>q. q\<lparr>SyncChannel := SyncChannel q - 1\<rparr>) w3"
  have aw: "await_result e a input w3 = (False, w4)" using assms(9) kept_sync_token [OF w3(3) s2(2)] by (simp add: await_result_def w4_def)
  have w4: "world_ok w4" "succeeded ?r (req a w4)" using w3(2) kept_succeeded [OF w3(3) s2(1)] by (simp_all add: w4_def put_req_ok succeeded_def)
  obtain msgs w5 where w5: "finish_call e a b input w4 = Value (msgs, w5)" "world_ok w5" "kept w4 w5" by (rule finish_call_ok [OF w4(1)])
  have s5: "succeeded ?r (req a w5)" "succeeded ?r (req a (invokeCleanup a w5))"
    using kept_succeeded [OF w5(3) w4(2)] kept_succeeded [OF invokeCleanup_ok(2) [OF w5(2)]] by auto
  then show ?thesis using run aw w5(1) by (auto simp: awaited_call_def client_result_def statisticsInfo_def succeeded_def Let_def)
qed

section \<open>The log of a call\<close>

text \<open>The tail of an open store begins with the text \<open>p\<close>.\<close>

definition tail_from :: "nat \<Rightarrow> string \<Rightarrow> client_world \<Rightarrow> bool" where
  "tail_from b p w \<longleftrightarrow> \<not> bits_Has (flags (stores_cw w b)) flagClosed \<and> (\<exists>r. logbuf (stores_cw w b) = Some (p @ r))"

text \<open>Others only write output to the store.\<close>

fun only_output :: "nat \<Rightarrow> cl_event \<Rightarrow> bool" where
  "only_output b (ClLog c oper) = (c = b \<longrightarrow> (case oper of LWrite _ _ _ _ \<Rightarrow> True | _ \<Rightarrow> False))"
| "only_output b _ = True"

lemma appendLogbuf_logbuf: "logbuf s = Some x \<Longrightarrow> \<exists>r. logbuf (appendLogbuf buf f s) = Some (x @ r)"
  by (auto simp: appendLogbuf_def Let_def)

lemma appendLogbuf_forced: "logbuf s = Some x \<Longrightarrow> logbuf (appendLogbuf buf True s) = Some (x @ buf)"
  by (auto simp: appendLogbuf_def Let_def)

lemma system_logbuf:
  assumes "logbuf s = Some x" "\<not> bits_Has (flags s) flagClosed"
  shows "logbuf (snd (WriteFunctionLog clk msg s)) = Some (x @ msg)" "logbuf (snd (WriteFunctionReportLog clk msg params s)) = Some (x @ msg)"
    "flags (snd (WriteFunctionLog clk msg s)) = flags s" "flags (snd (WriteFunctionReportLog clk msg params s)) = flags s"
  using assms appendLogbuf_forced [OF assms(1), of msg]
  by (auto simp: WriteFunctionLog_def WriteFunctionReportLog_def write_file_def Let_def split: option.splits prod.splits sum.splits)

lemma recv_stat_tail: "tail_from b p (recv_stat c mem w) = tail_from b p w"
  by (auto simp: recv_stat_def tail_from_def SetMemUsed_def Let_def put_store_def split: option.splits sum.splits)

lemma cl_step_tail:
  assumes "world_ok w" "only_output b e" "tail_from b p w" "cl_step e w = Value w'"
  shows "tail_from b p w'"
proof (cases e)
  case (ClRuntime ev)
  then show ?thesis using assms(3,4) by (auto simp: tail_from_def outcome_simps split: if_splits)
next
  case (ClLog c oper)
  show ?thesis
  proof (cases "c = b \<and> op_ok oper")
    case True
    then obtain clk src buf eof where op: "oper = LWrite clk src buf eof" using assms(2) ClLog by (cases oper) auto
    then have src: "src = StdoutLog \<or> src = StderrLog" using True by simp
    have wf: "store_wf (stores_cw w b)" using assms(1) by (simp add: world_ok_def)
    obtain r s where s: "WriteStdLog clk src buf eof (stores_cw w b) = Value (r, s)" "bits_Has (flags s) flagClosed = bits_Has (flags (stores_cw w b)) flagClosed"
        "logbuf s = logbuf (appendLogbuf buf False (stores_cw w b))"
      by (rule WriteStdLog_run [OF wf src, of clk buf eof]) (use assms(3) in \<open>auto simp: tail_from_def\<close>)
    from assms(3) obtain x where "logbuf (stores_cw w b) = Some (p @ x)" by (auto simp: tail_from_def)
    from appendLogbuf_logbuf [OF this, of buf False] s(2,3) assms(3) have "tail_from b p (put_store b s w)" by (auto simp: tail_from_def)
    with assms(4) s(1) True op ClLog src show ?thesis by auto
  qed (use assms(3,4) ClLog in \<open>auto simp: tail_from_def outcome_simps split: if_splits\<close>)
next
  case (ClStat c mem)
  then show ?thesis using assms(3,4) recv_stat_tail by auto
qed

lemma cl_run_tail:
  assumes "world_ok w" "list_all (only_output b) es" "tail_from b p w" "cl_run es w = Value w'"
  shows "tail_from b p w'"
  using assms
proof (induction es arbitrary: w)
  case (Cons e es)
  obtain w1 where w1: "cl_step e w = Value w1" "world_ok w1" by (rule cl_step_ok [OF Cons.prems(1)])
  have "tail_from b p w1" by (rule cl_step_tail [OF Cons.prems(1) _ Cons.prems(3) w1(1)]) (use Cons.prems(2) in simp)
  then show ?case using Cons.IH [OF w1(2)] Cons.prems(2,4) w1(1) by simp
qed simp

lemma LogDone_logbuf:
  assumes "store_wf s" "LogDone d s = Value (r, s')"
  shows "logbuf s' = logbuf s \<and> bits_Has (flags s') flagClosed = bits_Has (flags s) flagClosed"
proof (cases d)
  case True
  obtain s1 where s1: "setFlagLocked flagErrdone s = Value s1" "store_wf s1" "bits_Has (flags s1) flagClosed = bits_Has (flags s) flagClosed" "logbuf s1 = logbuf s"
    by (rule setFlag_stream [OF assms(1), of flagErrdone]) auto
  obtain s2 where s2: "setFlagLocked flagOutdone s1 = Value s2" "bits_Has (flags s2) flagClosed = bits_Has (flags s1) flagClosed" "logbuf s2 = logbuf s1"
    by (rule setFlag_stream [OF s1(2), of flagOutdone]) auto
  show ?thesis using assms(2) True s1 s2 by (simp add: LogDone_def)
qed (use assms(2) in \<open>simp add: LogDone_def\<close>)

lemma log_done_tail:
  assumes "world_ok w" "tail_from b p w" "log_done d b w = Value (r, w')"
  shows "tail_from b p w'"
proof -
  have "store_wf (stores_cw w b)" using assms(1) by (simp add: world_ok_def)
  with assms(2,3) show ?thesis by (auto simp: tail_from_def log_done_def outcome_simps dest: LogDone_logbuf)
qed

text \<open>The runtime takes requests from its queue and its runner reports, but nothing answers a request.\<close>

fun no_answer :: "cl_event \<Rightarrow> bool" where
  "no_answer (ClRuntime ev) = (ev = EvSend True \<or> (\<exists>now. ev = EvRunnerUpdate now))"
| "no_answer _ = True"

definition same_bill :: "RequestInfo \<Rightarrow> RequestInfo \<Rightarrow> bool" where
  "same_bill p q \<longleftrightarrow> InvokeDurationMS q = InvokeDurationMS p \<and> BilledDurationMS q = BilledDurationMS p \<and> MaxMemUsedBytes q = MaxMemUsedBytes p \<and>
     Status_rq q = Status_rq p \<and> SyncChannel q = SyncChannel p \<and> FuncError q = FuncError p"

lemma same_bill_refl [simp]: "same_bill q q"
  by (simp add: same_bill_def)

lemma cl_step_no_answer:
  assumes "no_answer e" "cl_step e w = Value w'"
  shows "same_bill (req a w) (req a w')"
proof (cases e)
  case (ClRuntime ev)
  then consider "ev = EvSend True" | now where "ev = EvRunnerUpdate now" using assms(1) by auto
  then show ?thesis
    by cases (use assms(2) ClRuntime in \<open>auto simp: send_generic_def set_rt_def req_def sync_mem_def same_bill_def Let_def split: option.splits list.splits\<close>)
qed (use assms(2) in \<open>auto simp: outcome_simps req_def put_store_def recv_stat_def Let_def split: if_splits option.splits sum.splits\<close>)

lemma cl_run_no_answer:
  "list_all no_answer es \<Longrightarrow> cl_run es w = Value w' \<Longrightarrow> same_bill (req a w) (req a w')"
proof (induction es arbitrary: w)
  case (Cons e es)
  obtain w1 where w1: "cl_step e w = Value w1" "cl_run es w1 = Value w'" using Cons.prems(2) by (auto simp: outcome_simps)
  have "same_bill (req a w) (req a w1)" by (rule cl_step_no_answer [OF _ w1(1)]) (use Cons.prems(1) in simp)
  then show ?case using Cons.IH [of w1] Cons.prems(1) w1(2) by (simp add: same_bill_def)
qed simp

lemma drained:
  assumes "world_ok w" "tail_from b p w" "list_all (only_output b) (during_drain e)"
  obtains w1 where "(if c then waitLogDone e b w else obind (log_done True b w) (\<lambda>(_, w1). Value w1)) = Value w1" "world_ok w1" "tail_from b p w1"
    "list_all no_answer (during_drain e) \<longrightarrow> same_bill (req a w) (req a w1)"
    "RequestID_rq (req a w1) = RequestID_rq (req a w)"
proof -
  obtain r s where s: "log_done (\<not> c) b w = Value (r, put_store b s w)" "world_ok (put_store b s w)" by (rule log_done_ok [OF assms(1)])
  have ts: "tail_from b p (put_store b s w)" by (rule log_done_tail [OF assms(1,2) s(1)])
  show ?thesis
  proof (cases "c \<and> \<not> r")
    case True
    obtain w2 where w2: "cl_run (during_drain e) (put_store b s w) = Value w2" "world_ok w2" "kept (put_store b s w) w2" by (rule cl_run_ok [OF s(2)])
    obtain r' s' where s': "log_done True b w2 = Value (r', put_store b s' w2)" "world_ok (put_store b s' w2)" by (rule log_done_ok [OF w2(2)])
    have "tail_from b p (put_store b s' w2)" by (rule log_done_tail [OF w2(2) cl_run_tail [OF s(2) assms(3) ts w2(1)] s'(1)])
    moreover have "list_all no_answer (during_drain e) \<longrightarrow> same_bill (req a w) (req a (put_store b s' w2))"
      using cl_run_no_answer [OF _ w2(1), of a] by simp
    moreover have "RequestID_rq (req a (put_store b s' w2)) = RequestID_rq (req a w)" using kept_id [OF w2(3), of a] by simp
    ultimately show ?thesis using True s w2 s' by (intro that [of "put_store b s' w2"]) (simp_all add: waitLogDone_def)
  next
    case False
    with s ts show ?thesis by (intro that [of "put_store b s w"]) (auto simp: waitLogDone_def)
  qed
qed

lemma InvokeReportDone_tail:
  assumes "world_ok w" "tail_from b p w" "list_all (only_output b) (during_drain e)" "IsLogTail_ii input"
  obtains middle q w' where "InvokeReportDone e a b input w = Value ([p @ middle @ end_line q @ report_line q], w')" "world_ok w'" "q = req a w'"
    "RequestID_rq q = RequestID_rq (req a w)" "list_all no_answer (during_drain e) \<Longrightarrow> same_bill (req a w) q \<or>
      (InvokeDurationMS q = 0 \<and> BilledDurationMS q = 0 \<and> MaxMemUsedBytes q = 0 \<and> Status_rq q = Status_rq (req a w) \<and> FuncError q = FuncError (req a w))"
proof -
  obtain w1 where w1: "(if \<not> ConcurrentMode (runtime w) \<and> (enableUserLog (req a w) \<or> IsLogTail_ii input) then waitLogDone e b w
        else obind (log_done True b w) (\<lambda>(_, w1). Value w1)) = Value w1" "world_ok w1" "tail_from b p w1"
      "list_all no_answer (during_drain e) \<longrightarrow> same_bill (req a w) (req a w1)" "RequestID_rq (req a w1) = RequestID_rq (req a w)"
    by (rule drained [OF assms(1-3)])
  define w2 where "w2 = write_log b (WriteFunctionLog (clock_end e) (end_line (req a w1))) w1"
  define w3 where "w3 = (if ConcurrentMode (runtime w2) then put_req a (\<lambda>q. q\<lparr>InvokeDurationMS := 0, BilledDurationMS := 0, MaxMemUsedBytes := 0\<rparr>) w2 else w2)"
  define w4 where "w4 = write_log b (WriteFunctionReportLog (clock_report e) (report_line (req a w3)) (report_params (runtime w3) (req a w3))) w3"
  obtain m where m: "logbuf (stores_cw w1 b) = Some (p @ m)" "\<not> bits_Has (flags (stores_cw w1 b)) flagClosed" using w1(3) by (auto simp: tail_from_def)
  have w2: "world_ok w2" "logbuf (stores_cw w2 b) = Some ((p @ m) @ end_line (req a w1))" "\<not> bits_Has (flags (stores_cw w2 b)) flagClosed" "req a w2 = req a w1"
    using write_log_ok(1) [OF w1(2)] system_logbuf [OF m] m(2) by (simp_all add: w2_def write_log_def)
  have w3: "world_ok w3" "stores_cw w3 = stores_cw w2" using w2(1) by (simp_all add: w3_def put_req_ok)
  have b3: "logbuf (stores_cw w3 b) = Some ((p @ m) @ end_line (req a w1))" "\<not> bits_Has (flags (stores_cw w3 b)) flagClosed" using w2(2,3) w3(2) by simp_all
  have q: "end_line (req a w1) = end_line (req a w3)" "RequestID_rq (req a w3) = RequestID_rq (req a w1)"
      "same_bill (req a w1) (req a w3) \<or> (InvokeDurationMS (req a w3) = 0 \<and> BilledDurationMS (req a w3) = 0 \<and> MaxMemUsedBytes (req a w3) = 0 \<and>
        Status_rq (req a w3) = Status_rq (req a w1) \<and> FuncError (req a w3) = FuncError (req a w1))"
    using w2(4) by (simp_all add: w3_def end_line_def)
  have w4: "world_ok w4" "logbuf (stores_cw w4 b) = Some (((p @ m) @ end_line (req a w1)) @ report_line (req a w3))" "\<not> bits_Has (flags (stores_cw w4 b)) flagClosed"
      "req a w4 = req a w3"
    using write_log_ok(2) [OF w3(1)] system_logbuf [OF b3] b3(2) by (simp_all add: w4_def write_log_def)
  have "store_wf (stores_cw w4 b)" using w4(1) by (simp add: world_ok_def)
  from store_Close_run [OF this w4(3,2)] obtain s where
    s: "store_Close (stores_cw w4 b) = Value (Inr (((p @ m) @ end_line (req a w1)) @ report_line (req a w3)), s)" "store_wf s" .
  have "InvokeReportDone e a b input w =
      Value (if IsLogTail_ii input then [((p @ m) @ end_line (req a w1)) @ report_line (req a w3)] else [], put_store b s w4)"
    by (simp only: InvokeReportDone_def w1(1) obind.simps Let_def w2_def [symmetric] w3_def [symmetric] w4_def [symmetric] s(1) prod.case sum.case)
  then have "InvokeReportDone e a b input w = Value ([p @ m @ end_line (req a w3) @ report_line (req a w3)], put_store b s w4)"
    using assms(4) q(1) by simp
  then show ?thesis
    by (rule that) (use w1(4,5) w4(1,4) s(2) q(2,3) in \<open>auto simp: world_ok_put_store same_bill_def\<close>)
qed

lemma newLogStatStore_fields: "logbuf (newLogStatStore params st mk nano opened) = Some ''''" "flags (newLogStatStore params st mk nano opened) = 0"
  by (simp_all add: newLogStatStore_def Let_def split: sum.splits)

lemma StartRecvLog_frame:
  "rt_cw (StartRecvLog rid i b w) = rt_cw w" "logbuf (stores_cw (StartRecvLog rid i b w) c) = logbuf (stores_cw w c)"
  "flags (stores_cw (StartRecvLog rid i b w) c) = flags (stores_cw w c)"
  by (simp_all add: StartRecvLog_def SetMemUsed_def put_store_def Let_def split: option.splits)

lemma startRecvLog_fresh:
  assumes "startRecvLog e a b input lt w = Value w'"
  shows "logbuf (stores_cw w' b) = Some ''''" "\<not> bits_Has (flags (stores_cw w' b)) flagClosed" "rt_cw w' = rt_cw w"
proof -
  obtain params rid i where w': "w' = (StartRecvLog rid i b (put_store b (newLogStatStore params (stat_e e) (mkdir_e e) (nano_e e) (opened_e e)) w))
      \<lparr>store_of := (store_of (StartRecvLog rid i b (put_store b (newLogStatStore params (stat_e e) (mkdir_e e) (nano_e e) (opened_e e)) w)))(a \<mapsto> b)\<rparr>"
    using assms unfolding startRecvLog_def Let_def obind_Value_conv by blast
  show "logbuf (stores_cw w' b) = Some ''''" "\<not> bits_Has (flags (stores_cw w' b)) flagClosed" "rt_cw w' = rt_cw w"
    unfolding w' by (simp_all add: StartRecvLog_frame newLogStatStore_fields) (simp add: put_store_def)
qed

lemma client_InvokeFunc_tail:
  assumes "client_InvokeFunc e a b input w = Value (r, w')" "logbuf (stores_cw w b) = Some ''''" "\<not> bits_Has (flags (stores_cw w b)) flagClosed"
    "Version_c input = Some v"
  shows "tail_from b (start_line (RequestID_rq (req a w)) v) w'" "req c w' = req c w"
proof -
  define w1 where "w1 = write_log b (WriteFunctionLog (clock_start e) (start_line (RequestID_rq (req a w)) v)) w"
  have start: "InvokeStart (clock_start e) a b input w = Value w1" by (simp add: InvokeStart_def assms(4) deref_field_def w1_def)
  have "\<exists>f. on_runtime f w1 = (r, w') \<and> (\<forall>x. reqs_w (snd (f x)) = reqs_w x)"
  proof (cases "WithStreamMode_ii input")
    case True
    then obtain q where "on_runtime (InvokeHTTPFunc a q) w1 = (r, w')" using assms(1) start by (auto simp: client_InvokeFunc_def outcome_simps)
    then show ?thesis using InvokeHTTPFunc_keeps(2) by blast
  next
    case False
    then obtain q where "on_runtime (InvokeFunc a q) w1 = (r, w')" using assms(1) start by (auto simp: client_InvokeFunc_def outcome_simps)
    then show ?thesis using InvokeFunc_keeps(2) by blast
  qed
  then obtain f where f: "w' = snd (on_runtime f w1)" "\<forall>x. reqs_w (snd (f x)) = reqs_w x" by (metis snd_conv)
  then have st: "stores_cw w' = stores_cw w1" "req c w' = req c w1" by (simp_all add: on_runtime_def req_def split: prod.splits) (metis snd_conv)
  then show "req c w' = req c w" by (simp add: w1_def write_log_def)
  show "tail_from b (start_line (RequestID_rq (req a w)) v) w'"
    using st(1) system_logbuf(1,3) [OF assms(2,3)] assms(3) by (simp add: tail_from_def w1_def write_log_def)
qed

text \<open>What an awaited call logs and returns, from the state in which its request has been queued.\<close>

lemma awaited_call_tail:
  assumes "world_ok w" "tail_from b p w" "list_all (only_output b) (during_call e @ during_drain e)" "IsLogTail_ii input"
    "awaited_call e a b input t w = Value (out, w')"
  obtains middle q where "LogMessage_co out = [p @ middle @ end_line q @ report_line q]" "RequestID_rq q = RequestID_rq (req a w)"
    "list_all no_answer (during_call e @ during_drain e) \<Longrightarrow> SyncChannel (req a w) = 0 \<Longrightarrow> Status_rq (req a w) = StatusRunning \<Longrightarrow>
       InvokeDurationMS (req a w) = 0 \<Longrightarrow> BilledDurationMS (req a w) = 0 \<Longrightarrow> MaxMemUsedBytes (req a w) = 0 \<Longrightarrow>
       InvokeDurationMS q = 0 \<and> BilledDurationMS q = 0 \<and> MaxMemUsedBytes q = 0 \<and> FuncError_co out = ''Unhandled''"
proof -
  obtain w1 where w1: "cl_run (during_call e) w = Value w1" "world_ok w1" "kept w w1" by (rule cl_run_ok [OF assms(1)])
  have t1: "tail_from b p w1" using cl_run_tail [OF assms(1) _ assms(2) w1(1)] assms(3) by simp
  obtain late w2 where w2: "await_result e a input w1 = (late, w2)" by fastforce
  have ok2: "world_ok w2" "tail_from b p w2" "RequestID_rq (req a w2) = RequestID_rq (req a w)"
    using w1 w2 t1 kept_id [OF w1(3), of a] by (auto simp: await_result_def Let_def put_req_ok InvokeResult_def tail_from_def split: if_splits)
  obtain middle q w3 where w3: "InvokeReportDone e a b input w2 = Value ([p @ middle @ end_line q @ report_line q], w3)" "world_ok w3" "q = req a w3"
      "RequestID_rq q = RequestID_rq (req a w2)" "list_all no_answer (during_drain e) \<Longrightarrow> same_bill (req a w2) q \<or>
        (InvokeDurationMS q = 0 \<and> BilledDurationMS q = 0 \<and> MaxMemUsedBytes q = 0 \<and> Status_rq q = Status_rq (req a w2) \<and> FuncError q = FuncError (req a w2))"
    by (rule InvokeReportDone_tail [OF ok2(1,2) _ assms(4), of e a]) (use assms(3) in auto)
  define w4 where "w4 = StopRecvLog (RuntimeID (runtime w3)) (RequestID_rq (req a w3)) b w3"
  have req4: "req a (invokeCleanup a w4) = req a w3"
    by (simp add: w4_def StopRecvLog_def invokeCleanup_def req_def rt_InvokeDone_def Let_def)
  have out: "LogMessage_co out = [p @ middle @ end_line q @ report_line q]" "FuncError_co out = FuncError q"
    using assms(5) w1(1) w2 w3(1,3) req4 by (auto simp: awaited_call_def finish_call_def w4_def [symmetric] client_result_def Let_def)
  show ?thesis
  proof (rule that [OF out(1)])
    show "RequestID_rq q = RequestID_rq (req a w)" using w3(4) ok2(3) by simp
    assume quiet: "list_all no_answer (during_call e @ during_drain e)" and q0: "SyncChannel (req a w) = 0" "Status_rq (req a w) = StatusRunning"
      "InvokeDurationMS (req a w) = 0" "BilledDurationMS (req a w) = 0" "MaxMemUsedBytes (req a w) = 0"
    have "same_bill (req a w) (req a w1)" using cl_run_no_answer [OF _ w1(1)] quiet by simp
    then have "InvokeDurationMS (req a w2) = 0 \<and> BilledDurationMS (req a w2) = 0 \<and> MaxMemUsedBytes (req a w2) = 0 \<and> FuncError (req a w2) = ''Unhandled''"
      using w2 q0 by (auto simp: same_bill_def await_result_def InvokeResult_def Let_def)
    then show "InvokeDurationMS q = 0 \<and> BilledDurationMS q = 0 \<and> MaxMemUsedBytes q = 0 \<and> FuncError_co out = ''Unhandled''"
      using w3(5) quiet out(2) by (auto simp: same_bill_def)
  qed
qed

lemma ready_callE:
  assumes "ready_call e a b input w = Value x"
  obtains lt f w2 t r3 w3 where "startRecvLog e a b input lt (put_req a (\<lambda>q. q\<lparr>enableUserLog := f q\<rparr>) w) = Value w2"
    "client_InvokeFunc e a b input (put_req a (\<lambda>q. q\<lparr>Status_rq := StatusRunning\<rparr>) w2) = Value (r3, w3)"
    "(case r3 of Some msg \<Rightarrow> failed_call e a b input msg w3 | None \<Rightarrow> awaited_call e a b input t w3) = Value x"
proof -
  define logged where "logged = (\<not> IsNoneLogType (LogType_c input) \<or> (case LogConfig_c input of None \<Rightarrow> False | Some t \<Rightarrow> \<not> IsNoneLogType t))"
  define w1 where "w1 = (if logged then put_req a (\<lambda>q. q\<lparr>enableUserLog := True\<rparr>) w else w)"
  have "put_req a (\<lambda>q. q\<lparr>enableUserLog := enableUserLog q\<rparr>) w = w" by (simp add: put_req_def upd_req_def)
  then have w1: "w1 = put_req a (\<lambda>q. q\<lparr>enableUserLog := (if logged then True else enableUserLog q)\<rparr>) w" by (simp add: w1_def)
  have run: "obind (startRecvLog e a b input (if logged then userlogType e else '''') w1) (\<lambda>w2.
         obind (deref_field (Timeout_fc (Configuration_ii input))) (\<lambda>functionTimeout.
         obind (client_InvokeFunc e a b input (put_req a (\<lambda>q. q\<lparr>Status_rq := StatusRunning\<rparr>) w2)) (\<lambda>(err, w3). case err of
           Some msg \<Rightarrow> failed_call e a b input msg w3
         | None \<Rightarrow> awaited_call e a b input functionTimeout w3))) = Value x"
    using assms by (simp only: ready_call_def Let_def logged_def w1_def)
  then obtain w2 t y where "startRecvLog e a b input (if logged then userlogType e else '''') w1 = Value w2"
      "client_InvokeFunc e a b input (put_req a (\<lambda>q. q\<lparr>Status_rq := StatusRunning\<rparr>) w2) = Value y"
      "(case y of (err, w3) \<Rightarrow> case err of Some msg \<Rightarrow> failed_call e a b input msg w3 | None \<Rightarrow> awaited_call e a b input t w3) = Value x"
    unfolding obind_Value_conv by blast
  then show ?thesis unfolding w1 by (cases y) (auto intro: that)
qed

text \<open>A call that returns statistics has been queued; this is the state it was queued in.\<close>

lemma InvokeFunction_queued:
  assumes "world_ok w" "InvokeFunction e a b input w = Value (out, w')" "Statistic_co out = Some st" "Version_c input = Some v"
  obtains input1 t w3 where "awaited_call e a b input1 t w3 = Value (out, w')" "world_ok w3" "tail_from b (start_line (RequestID_ii input) v) w3"
    "RequestID_rq (req a w3) = RequestID_ii input" "IsLogTail_ii input1 = IsLogTail_ii input"
proof -
  obtain input1 w0 where c: "createRequest (now_create e) a input w = (input1, w0)" by fastforce
  have in1: "RequestID_ii input1 = RequestID_ii input" "Version_c input1 = Some v" "IsLogTail_ii input1 = IsLogTail_ii input"
      "Timeout_fc (Configuration_ii input1) \<noteq> None"
    and w0: "world_ok w0" "RequestID_rq (req a w0) = RequestID_ii input"
    using c assms(1,4) by (auto simp: createRequest_def Let_def world_ok_def NewRequestInfo_def split: if_splits)
  obtain r w1 where w1: "waitRuntime e a input1 w0 = Value (r, w1)" "world_ok w1" "kept w0 w1" by (rule waitRuntime_ok [OF w0(1)])
  have r: "r = None" using assms(2,3) w1(1) by (cases r) (auto simp: InvokeFunction_def c client_result_def)
  then have "ready_call e a b input1 w1 = Value (out, w')" using assms(2) w1(1) by (simp add: InvokeFunction_def c)
  then obtain lt f w2 t r3 w3 where run: "startRecvLog e a b input1 lt (put_req a (\<lambda>q. q\<lparr>enableUserLog := f q\<rparr>) w1) = Value w2"
      "client_InvokeFunc e a b input1 (put_req a (\<lambda>q. q\<lparr>Status_rq := StatusRunning\<rparr>) w2) = Value (r3, w3)"
      "(case r3 of Some msg \<Rightarrow> failed_call e a b input1 msg w3 | None \<Rightarrow> awaited_call e a b input1 t w3) = Value (out, w')"
    by (rule ready_callE)
  define w1' where "w1' = put_req a (\<lambda>q. q\<lparr>enableUserLog := f q\<rparr>) w1"
  have "r3 = None" using run(3) assms(3) by (cases r3) (auto simp: failed_call_def client_result_def outcome_simps Let_def)
  then have aw: "awaited_call e a b input1 t w3 = Value (out, w')" using run(3) by simp
  have id1: "RequestID_rq (req a w1') = RequestID_ii input" "world_ok w1'"
    using kept_id [OF w1(3), of a] w0(2) w1(2) by (simp_all add: w1'_def put_req_ok)
  note fresh = startRecvLog_fresh [OF run(1)]
  define w2' where "w2' = put_req a (\<lambda>q. q\<lparr>Status_rq := StatusRunning\<rparr>) w2"
  have deref: "FunctionName_c input1 \<noteq> None" "FunctionArn_fc (Configuration_ii input1) \<noteq> None" "Version_c input1 \<noteq> None"
    using run(1) by (auto simp: startRecvLog_def deref_field_def Let_def outcome_simps split: option.splits)
  obtain w2x where "startRecvLog e a b input1 lt w1' = Value w2x" "world_ok w2x" by (rule startRecvLog_ok [OF id1(2) deref])
  then have "world_ok w2" using run(1) by (simp add: w1'_def)
  then have ok2: "world_ok w2'" by (simp add: w2'_def put_req_ok)
  obtain r4 w4 where w4: "client_InvokeFunc e a b input1 w2' = Value (r4, w4)" "world_ok w4"
    by (rule client_InvokeFunc_ok [OF ok2, of input1 e a b]) (use in1 in auto)
  then have ok3: "world_ok w3" using run(2) by (simp add: w2'_def)
  have id2: "RequestID_rq (req a w2') = RequestID_ii input" using id1(1) fresh(3) by (simp add: w2'_def) (simp add: w1'_def req_def)
  have "tail_from b (start_line (RequestID_rq (req a w2')) v) w3" "req a w3 = req a w2'"
    by (rule client_InvokeFunc_tail [OF run(2) [folded w2'_def] _ _ in1(2)]; use fresh(1,2) in \<open>simp add: w2'_def\<close>)+
  then show ?thesis using that [OF aw ok3] id2 in1(3) by (simp add: w2'_def)
qed

text \<open>A call to a warm runtime with an empty queue is queued.\<close>

lemma idle_call_queued:
  assumes "world_ok w" "State (runtime w) = RuntimeStateWarm" "requestChan (runtime w) = Some []" "CommitID_fc (Configuration_ii input) = None"
    "FunctionName_c input \<noteq> None" "Version_c input \<noteq> None" "\<not> WithStreamMode_ii input"
  obtains out w' st where "InvokeFunction e a b input w = Value (out, w')" "Statistic_co out = Some st"
proof -
  obtain input1 w0 where c: "createRequest (now_create e) a input w = (input1, w0)" by fastforce
  have in1: "FunctionName_c input1 \<noteq> None" "Version_c input1 \<noteq> None" "CommitID_fc (Configuration_ii input1) = None" "\<not> WithStreamMode_ii input1"
      "FunctionArn_fc (Configuration_ii input1) \<noteq> None" and w0: "world_ok w0" "runtime w0 = runtime w"
    using c assms by (auto simp: createRequest_def Let_def world_ok_def split: if_splits)
  obtain v t where v: "Version_c input1 = Some v" "Timeout_fc (Configuration_ii input1) = Some t"
    using in1(2) c by (auto simp: createRequest_def Let_def split: if_splits)
  define w1 where "w1 = ready_request a input1 w0"
  have wait: "waitRuntime e a input1 w0 = Value (None, w1)" using assms(2) w0(2) in1(3) by (simp add: waitRuntime_def Wait_def w1_def)
  have w1: "world_ok w1" "requestChan (runtime w1) = Some []"
    using waitRuntime_ok [OF w0(1), of e a input1] wait assms(3) w0(2)
    by (auto simp: w1_def ready_request_def runtime_def put_req_def Let_def)
  define logged where "logged = (\<not> IsNoneLogType (LogType_c input1) \<or> (case LogConfig_c input1 of None \<Rightarrow> False | Some t \<Rightarrow> \<not> IsNoneLogType t))"
  define w2 where "w2 = (if logged then put_req a (\<lambda>q. q\<lparr>enableUserLog := True\<rparr>) w1 else w1)"
  have w2: "world_ok w2" "runtime w2 = runtime w1" using w1(1) by (simp_all add: w2_def put_req_ok)
  obtain w3 where w3: "startRecvLog e a b input1 (if logged then userlogType e else '''') w2 = Value w3" "world_ok w3"
    by (rule startRecvLog_ok [OF w2(1) in1(1,5,2)])
  define w3' where "w3' = put_req a (\<lambda>q. q\<lparr>Status_rq := StatusRunning\<rparr>) w3"
  have r3: "requestChan (rt_w (rt_cw w3')) = Some []" using startRecvLog_fresh(3) [OF w3(1)] w1(2) w2(2) by (simp add: w3'_def put_req_def runtime_def)
  have ok3: "world_ok w3'" using w3(2) by (simp add: w3'_def put_req_ok)
  have tmo: "Timeout_fc (Configuration_ii input1) \<noteq> None" using v by simp
  obtain r w4 where w4: "client_InvokeFunc e a b input1 w3' = Value (r, w4)" "world_ok w4"
    by (rule client_InvokeFunc_ok [OF ok3 in1(2) tmo])
  have r: "r = None"
    using w4(1) r3 v(1) in1(4)
    by (auto simp: client_InvokeFunc_def makeInvokeRequest_def InvokeStart_def on_runtime_def InvokeFunc_def deref_field_def write_log_def put_store_def Let_def)
  obtain out w' where aw: "awaited_call e a b input1 t w4 = Value (out, w')" by (rule awaited_call_ok [OF w4(2) refl])
  have "ready_call e a b input1 w1 = Value (out, w')"
    unfolding ready_call_def Let_def logged_def [symmetric] w2_def [symmetric] w3(1) obind.simps v(2) deref_field_def option.case w3'_def [symmetric] w4(1) prod.case r
    by (rule aw)
  then have "InvokeFunction e a b input w = Value (out, w')" by (simp add: InvokeFunction_def c wait)
  moreover have "Statistic_co out \<noteq> None" using aw by (auto simp: awaited_call_def client_result_def outcome_simps Let_def case_prod_beta)
  ultimately show ?thesis using that by blast
qed

text \<open>The log tail a caller asked for is framed: whatever the function, the runtime and other requests write meanwhile, it begins with the
  line that starts this request and ends with its end and report lines, provided the log store is only written to by the readers of the
  output streams.\<close>

theorem log_tail_framed:
  assumes "world_ok w" "InvokeFunction e a b input w = Value (out, w')" "Statistic_co out = Some st" "Version_c input = Some v" "IsLogTail_ii input"
    and "list_all (only_output b) (during_call e @ during_drain e)"
  shows "\<exists>middle q. LogMessage_co out = [start_line (RequestID_ii input) v @ middle @ end_line q @ report_line q] \<and> RequestID_rq q = RequestID_ii input"
proof -
  obtain input1 t w3 where w3: "awaited_call e a b input1 t w3 = Value (out, w')" "world_ok w3" "tail_from b (start_line (RequestID_ii input) v) w3"
      "RequestID_rq (req a w3) = RequestID_ii input" "IsLogTail_ii input1 = IsLogTail_ii input"
    by (rule InvokeFunction_queued [OF assms(1-4)])
  have "IsLogTail_ii input1" using w3(5) assms(5) by simp
  from awaited_call_tail [OF w3(2,3) assms(6) this w3(1)] obtain middle q where
    "LogMessage_co out = [start_line (RequestID_ii input) v @ middle @ end_line q @ report_line q]" "RequestID_rq q = RequestID_rq (req a w3)" .
  with w3(4) show ?thesis by auto
qed

text \<open>A call that runs into its timeout is reported and billed with a duration of zero. Only the answer of the runtime sets the
  duration of a request; when the runtime takes the request and never answers, the timeout gives the caller an error, but
  the report line says that the request took no time and used no memory.\<close>

theorem timed_out_call_bills_nothing:
  assumes "world_ok w" "tail_from b p w" "IsLogTail_ii input" "awaited_call e a b input t w = Value (out, w')"
    and "list_all (only_output b) (during_call e @ during_drain e)" "list_all no_answer (during_call e @ during_drain e)"
    and "SyncChannel (req a w) = 0" "Status_rq (req a w) = StatusRunning"
    and "InvokeDurationMS (req a w) = 0" "BilledDurationMS (req a w) = 0" "MaxMemUsedBytes (req a w) = 0"
  shows "FuncError_co out = ''Unhandled'' \<and>
    (\<exists>pre. LogMessage_co out = [pre @ ''Duration: 0s'' @ [CHR 0x09] @ ''Billed Duration: 0s'' @ [CHR 0x09] @ ''Max Memory Used: 0''])"
proof -
  obtain middle q where q: "LogMessage_co out = [p @ middle @ end_line q @ report_line q]"
      "InvokeDurationMS q = 0 \<and> BilledDurationMS q = 0 \<and> MaxMemUsedBytes q = 0 \<and> FuncError_co out = ''Unhandled''"
    by (rule awaited_call_tail [OF assms(1,2,5,3,4)]) (use assms(6-) in blast)
  have "report_line q = (''REPORT RequestID: '' @ RequestID_rq q @ [CHR 0x09]) @ ''Duration: 0s'' @ [CHR 0x09] @ ''Billed Duration: 0s'' @ [CHR 0x09] @ ''Max Memory Used: 0''"
    using q(2) by (simp add: report_line_def duration_samples(1) ByteSize_def uint64_of_def Terabyte_def Gigabyte_def Megabyte_def Kilobyte_def)
  with q show ?thesis by (intro conjI exI [of _ "p @ middle @ end_line q @ ''REPORT RequestID: '' @ RequestID_rq q @ [CHR 0x09]"]) simp_all
qed

section \<open>Witnesses\<close>

definition ready_runtime :: RuntimeInfo where
  "ready_runtime = (rt_w sample_world)\<lparr>State := RuntimeStateWarm, runtimeConn := Some (OpenConn 1), runtimeWaitGroup := 2, runtimeRunChan_closed := True,
     runtimeStopChan_closed := False, runtimeStoppingChan_closed := False, requestChan := Some []\<rparr>"

definition ready_world :: client_world where
  "ready_world = \<lparr>rt_cw = \<lparr>rt_w = ready_runtime, reqs_w = \<lambda>a. NewRequestInfo 0 ''r''\<rparr>, store_of = Map.empty, stores_cw = \<lambda>b. sample_store,
     maps_cw = Map.empty, stats_cw = Map.empty, conns_cw = \<lambda>c. \<lparr>name_sc = '''', conn_sc = 0, memused = 0\<rparr>\<rparr>"

lemma ready_world_ok: "world_ok ready_world"
  by (simp add: world_ok_def ready_world_def runtime_def sample_store_wf ready_runtime_def sample_world_def NewRuntimeInfo_def chan_inv_def serving_def Let_def)

definition sample_call :: FunctionCall where
  "sample_call = \<lparr>Runtime_ii = Some 0, ExternalRequestID_ii = ''e'', RequestID_ii = ''r'',
     Configuration_ii = \<lparr>FunctionArn_fc = None, Runtime_fc = None, MemorySize_fc = None, Timeout_fc = None,
       CommitID_fc = None, Uid_fc = '''', PodConcurrentQuota_fc = 0\<rparr>,
     WithStreamMode_ii = False, EnableMetrics_ii = False, IsLogTail_ii = True, InvokeType_ii = '''', TriggerType_ii = '''',
     User_c = ''u'', FunctionName_c = Some ''f'', Version_c = Some ''1'', LogType_c = '''', LogConfig_c = None, BodyStream_c = None, Body_c = ''x''\<rparr>"

definition answer_r :: InvokeResponse where
  "answer_r = \<lparr>RequestID_is = ''r'', Success_is = True, FuncResult_is = ''y'', FuncError_is = ''''\<rparr>"

definition sample_call_env :: "cl_event list \<Rightarrow> call_env" where
  "sample_call_env es = \<lparr>now_create = 0, during_wait = [], log_dir = ''/l'', userlogType = ''plain'', stat_e = (\<lambda>_. StatNotExist), mkdir_e = False, nano_e = 0,
     opened_e = (\<lambda>_. Inl ''no''), clock_start = ('''', None), during_call = es, timer_fires = False, now_done = 0, during_drain = [],
     clock_end = ('''', None), clock_report = ('''', None), now_stat = 0, marshal_aws = id\<rparr>"

theorem call_returns_clean_witness:
  "\<exists>out w'. InvokeFunction (sample_call_env [ClRuntime (EvRecv 5 answer_r)]) 3 4 sample_call ready_world = Value (out, w') \<and> world_ok w' \<and>
     requestMap (runtime w') ''r'' = None \<and> log_stopped 3 4 w'"
proof -
  let ?e = "sample_call_env [ClRuntime (EvRecv 5 answer_r)]"
  obtain input1 w0 err w1 out w' where c: "createRequest (now_create ?e) 3 sample_call ready_world = (input1, w0)" "waitRuntime ?e 3 input1 w0 = Value (err, w1)"
    and run: "InvokeFunction ?e 3 4 sample_call ready_world = Value (out, w')" "world_ok w'"
    and fin: "case err of
       Some msg \<Rightarrow> w' = w1 \<and> FuncResult_co out = marshal_aws ?e (RequestID_ii sample_call @ '' wait runtime error: '' @ msg)
     | None \<Rightarrow> requestMap (runtime w') (RequestID_ii sample_call) = None \<and> log_stopped 3 4 w'"
    using call_returns_clean [OF ready_world_ok, of sample_call ?e 3 4] by (auto simp: sample_call_def)
  have "err = None" using c
    by (auto simp: createRequest_def waitRuntime_def sample_call_def sample_call_env_def ready_world_def ready_runtime_def runtime_def Wait_def put_req_def upd_req_def Let_def
        split: if_splits)
  then show ?thesis using run fin by (auto simp: sample_call_def)
qed

text \<open>The same world with the request queued.\<close>

definition queued_world :: client_world where
  "queued_world = ready_world\<lparr>rt_cw := (rt_cw ready_world)\<lparr>rt_w := ready_runtime\<lparr>requestMap := [''r'' \<mapsto> 3]\<rparr>,
     reqs_w := (\<lambda>a. (NewRequestInfo 0 ''r'')\<lparr>Status_rq := StatusRunning\<rparr>)\<rparr>\<rparr>"

lemma queued_world_ok: "world_ok queued_world"
  using ready_world_ok by (simp add: world_ok_def queued_world_def ready_world_def runtime_def chan_inv_def serving_def)

lemma queued_request: "req a queued_world = (NewRequestInfo 0 ''r'')\<lparr>Status_rq := StatusRunning\<rparr>" "requestMap (runtime queued_world) = [''r'' \<mapsto> 3]"
  by (simp_all add: queued_world_def req_def runtime_def)

theorem first_answer_returned_witness:
  "\<exists>out w'. awaited_call (sample_call_env [ClRuntime (EvSend True), ClRuntime (EvRecv 5 answer_r), ClRuntime (EvStop [])]) 3 4 sample_call 3 queued_world = Value (out, w') \<and>
     FuncResult_co out = ''y''"
proof -
  define w1 where "w1 = queued_world\<lparr>rt_cw := send_generic True (rt_cw (sync_mem queued_world))\<rparr>"
  have "send_generic True (rt_cw (sync_mem queued_world)) = rt_cw (sync_mem queued_world)"
    by (simp add: send_generic_def sync_mem_def queued_world_def ready_world_def ready_runtime_def)
  then have "runtime w1 = runtime queued_world" "Status_rq (req 3 w1) = StatusRunning" "FuncError (req 3 w1) = ''''" "RequestID_rq (req 3 w1) = ''r''"
    by (simp_all add: w1_def runtime_def req_def sync_mem_def) (simp_all add: queued_world_def NewRequestInfo_def)
  then show ?thesis
    using first_answer_returned [OF queued_world_ok, of "sample_call_env [ClRuntime (EvSend True), ClRuntime (EvRecv 5 answer_r), ClRuntime (EvStop [])]"
        "[ClRuntime (EvSend True)]" 5 answer_r "[ClRuntime (EvStop [])]" w1 3 4 sample_call 3] queued_request(2)
    by (auto simp: sample_call_env_def answer_r_def w1_def)
qed

theorem log_tail_framed_witness:
  "\<exists>out w'. InvokeFunction (sample_call_env []) 3 4 sample_call ready_world = Value (out, w') \<and>
     (\<exists>middle q. LogMessage_co out = [start_line ''r'' ''1'' @ middle @ end_line q @ report_line q])"
proof -
  obtain out w' st where run: "InvokeFunction (sample_call_env []) 3 4 sample_call ready_world = Value (out, w')" "Statistic_co out = Some st"
    by (rule idle_call_queued [OF ready_world_ok, of sample_call "sample_call_env []" 3 4])
      (auto simp: sample_call_def ready_world_def runtime_def ready_runtime_def)
  then show ?thesis using log_tail_framed [OF ready_world_ok run(1,2)] by (auto simp: sample_call_def sample_call_env_def)
qed

theorem timed_out_call_bills_nothing_witness:
  "\<exists>out w'. awaited_call (sample_call_env [ClRuntime (EvSend True)]) 3 4 sample_call 3 queued_world = Value (out, w') \<and> FuncError_co out = ''Unhandled''"
proof -
  obtain out w' where run: "awaited_call (sample_call_env [ClRuntime (EvSend True)]) 3 4 sample_call 3 queued_world = Value (out, w')"
    by (rule awaited_call_ok [OF queued_world_ok refl])
  have "tail_from 4 '''' queued_world" by (simp add: tail_from_def queued_world_def ready_world_def sample_store_def)
  from timed_out_call_bills_nothing [OF queued_world_ok this _ run] run show ?thesis
    by (simp add: sample_call_def sample_call_env_def queued_request NewRequestInfo_def)
qed

end
