(* ===== verification/GoHttp.thy ===== *)
theory GoHttp
  imports GoStrings
begin

text \<open>
  What the servers use of Go's \<open>net/http\<close>: header maps with canonical keys, and a response writer. A response writer sends its status
  once; later ones are ignored, and a body that is written first sends the status 200. What a client has been sent so far is the status, the headers
  at that time and the body.
\<close>

type_synonym http_header = "string \<Rightarrow> string list"

text \<open>\<open>textproto.CanonicalMIMEHeaderKey\<close> for keys of token characters.\<close>

definition to_upper_char :: "char \<Rightarrow> char" where
  "to_upper_char c =
     (if 97 \<le> (of_char c :: nat) \<and> (of_char c :: nat) \<le> 122 then char_of ((of_char c :: nat) - 32) else c)"

fun canonical_from :: "bool \<Rightarrow> string \<Rightarrow> string" where
  "canonical_from upper [] = []"
| "canonical_from upper (c # cs) = (if upper then to_upper_char c else to_lower_char c) # canonical_from (c = CHR ''-'') cs"

definition CanonicalHeaderKey :: "string \<Rightarrow> string" where
  "CanonicalHeaderKey k = canonical_from True k"

definition header_Get :: "string \<Rightarrow> http_header \<Rightarrow> string" where
  "header_Get k h = (case h (CanonicalHeaderKey k) of [] \<Rightarrow> '''' | v # _ \<Rightarrow> v)"

definition header_Set :: "string \<Rightarrow> string \<Rightarrow> http_header \<Rightarrow> http_header" where
  "header_Set k v h = h(CanonicalHeaderKey k := [v])"

definition header_Add :: "string \<Rightarrow> string \<Rightarrow> http_header \<Rightarrow> http_header" where
  "header_Add k v h = h(CanonicalHeaderKey k := h (CanonicalHeaderKey k) @ [v])"

record http_writer =
  header_w :: http_header
  sent_header :: http_header
  status_w :: "int option"
  body_w :: string

definition new_writer :: http_writer where
  "new_writer = \<lparr>header_w = (\<lambda>_. []), sent_header = (\<lambda>_. []), status_w = None, body_w = ''''\<rparr>"

definition w_WriteHeader :: "int \<Rightarrow> http_writer \<Rightarrow> http_writer" where
  "w_WriteHeader code w = (if status_w w = None then w\<lparr>status_w := Some code, sent_header := header_w w\<rparr> else w)"

definition w_Write :: "string \<Rightarrow> http_writer \<Rightarrow> http_writer" where
  "w_Write p w = (let w1 = w_WriteHeader 200 w in w1\<lparr>body_w := body_w w1 @ p\<rparr>)"

definition w_header :: "(http_header \<Rightarrow> http_header) \<Rightarrow> http_writer \<Rightarrow> http_writer" where
  "w_header f w = w\<lparr>header_w := f (header_w w)\<rparr>"

text \<open>What the client can see.\<close>

definition seen :: "http_writer \<Rightarrow> int option \<times> string" where
  "seen w = (status_w w, body_w w)"

lemma seen_header [simp]: "seen (w_header f w) = seen w"
  by (simp add: seen_def w_header_def)

lemma status_write [simp]:
  "status_w (w_WriteHeader code w) = Some (case status_w w of None \<Rightarrow> code | Some c \<Rightarrow> c)"
  "status_w (w_Write p w) = Some (case status_w w of None \<Rightarrow> 200 | Some c \<Rightarrow> c)"
  by (simp_all add: w_WriteHeader_def w_Write_def Let_def split: option.splits)

lemma body_write [simp]: "body_w (w_WriteHeader code w) = body_w w" "body_w (w_Write p w) = body_w w @ p"
  by (simp_all add: w_WriteHeader_def w_Write_def Let_def)

end
