(* ===== verification/GoSort.thy ===== *)
theory GoSort
  imports Prelude "HOL-Library.Multiset"
begin

text \<open>
  The part of Go's \<open>sort\<close> package that the program uses, for an order given as a function, and the order of strings.
\<close>

section \<open>Sorting with a given order\<close>

text \<open>\<open>sort.Sort\<close> and \<open>sort.Strings\<close>. For a strict total order every sorting of a list without duplicates is the same list, so the algorithm does
  not matter.\<close>

fun insert_by :: "('a \<Rightarrow> 'a \<Rightarrow> bool) \<Rightarrow> 'a \<Rightarrow> 'a list \<Rightarrow> 'a list" where
  "insert_by lt x [] = [x]"
| "insert_by lt x (y # ys) = (if lt y x then y # insert_by lt x ys else x # y # ys)"

definition sort_by :: "('a \<Rightarrow> 'a \<Rightarrow> bool) \<Rightarrow> 'a list \<Rightarrow> 'a list" where
  "sort_by lt xs = foldr (insert_by lt) xs []"

lemma mset_insert_by [simp]: "mset (insert_by lt x xs) = add_mset x (mset xs)"
  by (induction xs) auto

lemma mset_sort_by [simp]: "mset (sort_by lt xs) = mset xs"
  by (induction xs) (auto simp: sort_by_def)

lemma set_sort_by [simp]: "set (sort_by lt xs) = set xs"
  using mset_eq_setD [OF mset_sort_by] .

locale less_order =
  fixes lt :: "'a \<Rightarrow> 'a \<Rightarrow> bool"
  assumes less_irrefl: "\<not> lt x x"
    and less_trans: "lt x y \<Longrightarrow> lt y z \<Longrightarrow> lt x z"
    and less_total: "x \<noteq> y \<Longrightarrow> lt x y \<or> lt y x"
begin

lemma insert_by_sorted:
  "sorted_wrt lt xs \<Longrightarrow> x \<notin> set xs \<Longrightarrow> sorted_wrt lt (insert_by lt x xs)"
proof (induction xs)
  case (Cons y ys)
  have mem: "set (insert_by lt x ys) = insert x (set ys)" using mset_eq_setD [of "insert_by lt x ys" "x # ys"] by simp
  show ?case using Cons less_total [of x y] by (auto simp: mem intro: less_trans)
qed simp

lemma sort_by_sorted: "distinct xs \<Longrightarrow> sorted_wrt lt (sort_by lt xs)"
proof (induction xs)
  case (Cons x xs)
  then show ?case using insert_by_sorted [of "sort_by lt xs" x] by (simp add: sort_by_def) (metis set_sort_by sort_by_def)
qed (simp add: sort_by_def)

lemma sorted_unique:
  "sorted_wrt lt xs \<Longrightarrow> sorted_wrt lt ys \<Longrightarrow> set xs = set ys \<Longrightarrow> xs = ys"
proof (induction xs arbitrary: ys)
  case (Cons x xs)
  then obtain y ys' where ys: "ys = y # ys'" by (cases ys) auto
  have "x = y" using Cons.prems less_irrefl less_trans unfolding ys by (auto dest: less_trans) (metis insert_iff less_irrefl less_trans)
  moreover have "x \<notin> set xs" "y \<notin> set ys'" using Cons.prems less_irrefl by (auto simp: ys)
  moreover from calculation have "set xs = set ys'" using Cons.prems(3) ys insert_ident [of y "set xs" "set ys'"] by simp
  ultimately show ?case using Cons ys by simp
qed simp

text \<open>Any algorithm that sorts gives this result.\<close>

lemma sort_by_unique: "distinct xs \<Longrightarrow> set ys = set xs \<Longrightarrow> sorted_wrt lt ys \<Longrightarrow> ys = sort_by lt xs"
  using sorted_unique [OF _ sort_by_sorted, of ys xs] by simp

end

text \<open>Go compares strings by their bytes.\<close>

fun string_less :: "string \<Rightarrow> string \<Rightarrow> bool" where
  "string_less s [] = False"
| "string_less [] (_ # _) = True"
| "string_less (a # s) (b # t) = ((of_char a :: nat) < of_char b \<or> a = b \<and> string_less s t)"

lemma string_less_irrefl [simp]: "\<not> string_less s s"
  by (induction s) auto

lemma string_less_trans: "string_less s t \<Longrightarrow> string_less t u \<Longrightarrow> string_less s u"
proof (induction s t arbitrary: u rule: string_less.induct)
  case (2 b t)
  then show ?case by (cases u) auto
next
  case (3 a s b t)
  then show ?case by (cases u) (auto intro: less_trans)
qed simp

lemma string_less_total: "s \<noteq> t \<Longrightarrow> string_less s t \<or> string_less t s"
proof (induction s t rule: string_less.induct)
  case (1 s)
  then show ?case by (cases s) auto
next
  case (3 a s b t)
  have "a = b \<or> (of_char a :: nat) < of_char b \<or> (of_char b :: nat) < of_char a"
    using linorder_less_linear [of "of_char a :: nat" "of_char b"] by (auto simp: of_char_eq_iff)
  with 3 show ?case by auto
qed simp

interpretation bytes: less_order string_less
  by unfold_locales (auto intro: string_less_trans dest: string_less_total)

end
