(* ===== verification/GoUrl.thy ===== *)
theory GoUrl
  imports GoSort GoStrings "HOL-Library.AList"
begin

text \<open>
  What the clients and servers use of Go's \<open>net/url\<close>: query values, their escaped text and how it is read. Values are a map from keys to lists, here an
  association list because the map is iterated. The text of the values, read again, gives back the values.
\<close>

section \<open>Escaping\<close>

definition unreserved :: "char \<Rightarrow> bool" where
  "unreserved c \<longleftrightarrow> (let n = (of_char c :: nat) in 97 \<le> n \<and> n \<le> 122 \<or> 65 \<le> n \<and> n \<le> 90 \<or> 48 \<le> n \<and> n \<le> 57) \<or> c \<in> set ''-_.~''"

definition upperhex :: "nat \<Rightarrow> char" where
  "upperhex n = (if n < 10 then char_of (48 + n) else char_of (55 + n))"

definition unhex :: "char \<Rightarrow> nat option" where
  "unhex c = (let n = of_char c in
     if 48 \<le> n \<and> n \<le> 57 then Some (n - 48) else if 97 \<le> n \<and> n \<le> 102 then Some (n - 87) else if 65 \<le> n \<and> n \<le> 70 then Some (n - 55) else None)"

definition escape_char :: "char \<Rightarrow> string" where
  "escape_char c = (if c = CHR '' '' then ''+'' else if unreserved c then [c]
     else [CHR ''%'', upperhex (of_char c div 16), upperhex (of_char c mod 16)])"

definition QueryEscape :: "string \<Rightarrow> string" where
  "QueryEscape s = concat (map escape_char s)"

fun QueryUnescape :: "string \<Rightarrow> string option" where
  "QueryUnescape [] = Some []"
| "QueryUnescape (c # s) =
     (if c = CHR ''%'' then (case s of
          a # b # r \<Rightarrow> (case (unhex a, unhex b) of
            (Some x, Some y) \<Rightarrow> map_option (\<lambda>t. char_of (16 * x + y) # t) (QueryUnescape r)
          | _ \<Rightarrow> None)
        | _ \<Rightarrow> None)
      else map_option (\<lambda>t. (if c = CHR ''+'' then CHR '' '' else c) # t) (QueryUnescape s))"

section \<open>Query values\<close>

type_synonym url_values = "(string \<times> string list) list"

definition values_Add :: "string \<Rightarrow> string \<Rightarrow> url_values \<Rightarrow> url_values" where
  "values_Add k v m = AList.update k ((case map_of m k of None \<Rightarrow> [] | Some vs \<Rightarrow> vs) @ [v]) m"

definition values_Set :: "string \<Rightarrow> string \<Rightarrow> url_values \<Rightarrow> url_values" where
  "values_Set k v m = AList.update k [v] m"

definition values_pairs :: "url_values \<Rightarrow> (string \<times> string) list" where
  "values_pairs m = concat (map (\<lambda>k. map (Pair k) (the (map_of m k))) (sort_by string_less (map fst m)))"

definition query_part :: "string \<times> string \<Rightarrow> string" where
  "query_part kv = QueryEscape (fst kv) @ ''='' @ QueryEscape (snd kv)"

definition values_Encode :: "url_values \<Rightarrow> string" where
  "values_Encode m = join_with ''&'' (map query_part (values_pairs m))"

text \<open>\<open>ParseQuery\<close> as \<open>URL.Query\<close> uses it: a part that cannot be read is left out.\<close>

definition parse_part :: "string \<Rightarrow> (string \<times> string) option" where
  "parse_part p =
     (let (k, v) = (case splitN (CHR ''='') 2 p of [k, v] \<Rightarrow> (k, v) | _ \<Rightarrow> (p, ''''))
      in if p = '''' then None else case (QueryUnescape k, QueryUnescape v) of (Some k', Some v') \<Rightarrow> Some (k', v') | _ \<Rightarrow> None)"

definition ParseQuery :: "string \<Rightarrow> url_values" where
  "ParseQuery s = fold (\<lambda>(k, v). values_Add k v) (List.map_filter parse_part (concat (map (split_on (CHR '';'')) (split_on (CHR ''&'') s)))) []"

section \<open>Round trip\<close>

lemma unhex_upperhex: "n < 16 \<Longrightarrow> unhex (upperhex n) = Some n"
  by (auto simp: unhex_def upperhex_def Let_def of_char_of)

lemma char_div_16: "(of_char c :: nat) div 16 < 16"
proof -
  have "(of_char c :: nat) < 256" by (metis mod_less_divisor of_char_mod_256 zero_less_numeral)
  then show ?thesis by (simp add: div_less_iff_less_mult)
qed

lemma escape_unescape_char:
  "QueryUnescape (escape_char c @ s) = map_option (\<lambda>t. c # t) (QueryUnescape s)"
proof -
  have pct: "\<not> unreserved (CHR ''%'')" "\<not> unreserved (CHR ''+'')" by (simp_all add: unreserved_def)
  have "16 * (of_char c div 16) + of_char c mod 16 = (of_char c :: nat)" by simp
  then show ?thesis using pct by (auto simp: escape_char_def unhex_upperhex char_div_16)
qed

lemma QueryUnescape_Escape [simp]: "QueryUnescape (QueryEscape s) = Some s"
  by (induction s) (simp_all add: QueryEscape_def escape_unescape_char)

lemma unreserved_upperhex: "n < 16 \<Longrightarrow> unreserved (upperhex n)"
  by (auto simp: unreserved_def upperhex_def Let_def of_char_of)

lemma escaped_chars: "c \<in> set (QueryEscape s) \<Longrightarrow> c = CHR ''+'' \<or> c = CHR ''%'' \<or> unreserved c"
  by (auto simp: QueryEscape_def escape_char_def unreserved_upperhex char_div_16 split: if_splits)

lemma escaped_fresh [simp]: "CHR ''&'' \<notin> set (QueryEscape s)" "CHR '';'' \<notin> set (QueryEscape s)" "CHR ''='' \<notin> set (QueryEscape s)"
  using escaped_chars [of _ s] by (fastforce simp: unreserved_def)+

lemma parse_part_escaped: "parse_part (query_part kv) = Some kv"
proof -
  have "splitN (CHR ''='') 2 (QueryEscape k @ CHR ''='' # QueryEscape v) = [QueryEscape k, QueryEscape v]" for k v
  proof -
    have "\<And>x. x \<in> set (QueryEscape k) \<Longrightarrow> x \<noteq> CHR ''=''" using escaped_fresh(3) [of k] by auto
    then show ?thesis by (simp add: numeral_2_eq_2 takeWhile_append2 dropWhile_append2)
  qed
  then show ?thesis by (simp add: parse_part_def query_part_def)
qed

lemma query_part_fresh: "CHR ''&'' \<notin> set (query_part kv)" "CHR '';'' \<notin> set (query_part kv)"
  by (simp_all add: query_part_def)

lemma map_of_values_Add: "map_of (values_Add k v m) = (map_of m)(k \<mapsto> (case map_of m k of None \<Rightarrow> [] | Some vs \<Rightarrow> vs) @ [v])"
  by (simp add: values_Add_def update_conv')

lemma map_of_fold_Add:
  "map_of (fold (\<lambda>(k, v). values_Add k v) ps m) k =
     (let vs = map snd (filter (\<lambda>p. fst p = k) ps) in
      if vs = [] then map_of m k else Some ((case map_of m k of None \<Rightarrow> [] | Some ws \<Rightarrow> ws) @ vs))"
proof (induction ps arbitrary: m)
  case (Cons p ps)
  obtain k' v' where p: "p = (k', v')" by fastforce
  show ?case unfolding p fold_Cons comp_def prod.case Cons.IH by (auto simp: map_of_values_Add Let_def split: option.splits)
qed simp

lemma filter_concat_pairs:
  "distinct ks \<Longrightarrow> filter (\<lambda>p. fst p = k) (concat (map (\<lambda>k'. map (Pair k') (f k')) ks)) = (if k \<in> set ks then map (Pair k) (f k) else [])"
proof (induction ks)
  case (Cons a ks)
  then show ?case by (cases "a = k") (auto simp: filter_map comp_def)
qed simp

lemma parse_encoded: "ParseQuery (values_Encode m) = fold (\<lambda>(k, v). values_Add k v) (values_pairs m) []"
proof -
  have concat_fresh: "concat (map (split_on (CHR '';'')) ps) = ps" if "\<forall>p \<in> set ps. CHR '';'' \<notin> set p" for ps
    using that by (induction ps) (auto simp: split_on_fresh)
  have parsed: "List.map_filter parse_part (map query_part ps) = ps" for ps
    by (induction ps) (simp_all add: List.map_filter_simps parse_part_escaped)
  show ?thesis
  proof (cases "values_pairs m = []")
    case True
    then show ?thesis by (simp add: ParseQuery_def values_Encode_def List.map_filter_simps parse_part_def)
  next
    case False
    then have "split_on (CHR ''&'') (values_Encode m) = map query_part (values_pairs m)"
      unfolding values_Encode_def by (intro split_on_join) (auto simp: query_part_fresh)
    moreover have "concat (map (split_on (CHR '';'')) (map query_part (values_pairs m))) = map query_part (values_pairs m)"
      by (rule concat_fresh) (auto simp: query_part_fresh)
    ultimately show ?thesis unfolding ParseQuery_def by (simp only: parsed)
  qed
qed

text \<open>What a client puts into a query a server reads out of it: the values of every key come back, in their order and whatever characters keys and
  values have; a key without values does not appear.\<close>

lemma query_roundtrip:
  assumes "distinct (map fst m)"
  shows "map_of (ParseQuery (values_Encode m)) k = (case map_of m k of Some vs \<Rightarrow> if vs = [] then None else Some vs | None \<Rightarrow> None)"
proof -
  have keys: "distinct (sort_by string_less (map fst m))" using assms by (metis mset_eq_imp_distinct_iff mset_sort_by)
  have "filter (\<lambda>p. fst p = k) (values_pairs m) = (case map_of m k of Some vs \<Rightarrow> map (Pair k) vs | None \<Rightarrow> [])"
    unfolding values_pairs_def filter_concat_pairs [OF keys] using map_of_SomeD [of m k] by (fastforce simp: map_of_eq_None_iff image_iff split: option.splits)
  then have "map snd (filter (\<lambda>p. fst p = k) (values_pairs m)) = (case map_of m k of Some vs \<Rightarrow> vs | None \<Rightarrow> [])"
    by (simp add: comp_def split: option.splits)
  then show ?thesis unfolding parse_encoded map_of_fold_Add Let_def by (simp split: option.splits)
qed

end
