(* ===== verification/Rest.thy ===== *)
theory Rest
  imports GoHttp GoUrl GoPath GoTime GoErrors FnResource
begin

text \<open>
  The client library, \<open>src/pkg/rest\<close>: how a request is built, sent, retried and its reply turned into a result. The network is a parameter
  \<open>tr\<close>, which answers attempt number \<open>n\<close> with a reply or an error and says how much of the body it has read; the decoder of JSON texts is a
  parameter too. A URL is kept in its parts, so printing and parsing it are not part of the model, but the text of its query is.
\<close>

section \<open>Data\<close>

record url =
  Scheme_u :: string
  Host_u :: string
  Path_u :: string
  RawQuery_u :: string

record ContentConfig =
  AcceptContentTypes :: string
  ContentType_cc :: string
  BackendType :: string
  Connection_cc :: string
  KeepAlive_cc :: string
  ClientTimeout_cc :: int64

text \<open>The errors a client of the library can get: of the network, as \<open>*net.OpError\<close>, wrapped in \<open>*url.Error\<close> or another one; of building the request; and
  what the body of a reply says.\<close>

datatype net_error = OpError string | UrlError net_error | OtherNetError string

record BceError =
  Code_bce :: string
  Message_bce :: string
  RequestID_bce :: string

record NeutronError =
  Message_ne :: string
  Type_ne :: string
  Detail_ne :: string

datatype rest_error =
  NetErr net_error | BuildErr string | ParamErr string | FinalRestErr FinalError | StatusErr string | BceErr BceError | NeutronErr NeutronError
| TextErr string | DecodeErr string

text \<open>A body that can be read: its bytes, how far it has been read, and whether it can be set back (\<open>None\<close> when it is no \<open>io.Seeker\<close>).\<close>

record req_body =
  data_b :: string
  pos_b :: nat
  seek_b :: "bool option"

datatype req_ctx = CallerContext nat | TimeoutContext int64

record Request =
  verb_r :: string
  baseURL_r :: "url option"
  content_r :: ContentConfig
  pathPrefix_r :: string
  params_r :: "url_values option"
  headers_r :: http_header
  host_r :: string
  version_r :: string
  namespace_r :: string
  namespaceSet_r :: bool
  resource_r :: string
  timeout_r :: int64
  err_r :: "rest_error option"
  body_r :: "req_body option"
  ctx_r :: "req_ctx option"
  clientTimeout_r :: int64

record http_resp =
  StatusCode_p :: int
  Header_p :: http_header
  Body_p :: "(string + string) option"

section \<open>Building a request\<close>

definition header_Del :: "string \<Rightarrow> http_header \<Rightarrow> http_header" where
  "header_Del k h = h(CanonicalHeaderKey k := [])"

definition rest_SetHeader :: "string \<Rightarrow> string list \<Rightarrow> Request \<Rightarrow> Request" where
  "rest_SetHeader key values r = r\<lparr>headers_r := fold (header_Add key) values (header_Del key (headers_r r))\<rparr>"

definition NewRequest :: "string \<Rightarrow> url option \<Rightarrow> string \<Rightarrow> ContentConfig \<Rightarrow> int64 \<Rightarrow> Request" where
  "NewRequest verb baseURL version content timeout =
     (let prefix0 = (case baseURL of Some u \<Rightarrow> path_Join ''/'' (Path_u u) | None \<Rightarrow> ''/'');
          r0 = \<lparr>verb_r = verb, baseURL_r = baseURL, content_r = content, pathPrefix_r = path_Join prefix0 version, params_r = None,
                headers_r = (\<lambda>_. []), host_r = '''', version_r = version, namespace_r = '''', namespaceSet_r = False, resource_r = '''',
                timeout_r = timeout, err_r = None, body_r = None, ctx_r = None, clientTimeout_r = ClientTimeout_cc content\<rparr>;
          r1 = (if AcceptContentTypes content \<noteq> '''' then rest_SetHeader ''Accept'' [AcceptContentTypes content] r0
                else if ContentType_cc content \<noteq> '''' then rest_SetHeader ''Accept'' [ContentType_cc content @ '', */*''] r0
                else r0);
          r2 = (if Connection_cc content = '''' then r1
                else let r = rest_SetHeader ''Connection'' [Connection_cc content] r1
                     in if Connection_cc content = ''Keep-Alive''
                        then rest_SetHeader ''Keep-Alive'' [if KeepAlive_cc content = '''' then ''timeout=5, max=100'' else KeepAlive_cc content] r
                        else r)
      in if BackendType content = ''internal'' then rest_SetHeader ''X-Auth-Token'' [''cfc-auth-2018''] r2 else r2)"

definition rest_SetHost :: "string \<Rightarrow> Request \<Rightarrow> Request" where
  "rest_SetHost host r = r\<lparr>host_r := host\<rparr>"

definition rest_Timeout :: "int64 \<Rightarrow> Request \<Rightarrow> Request" where
  "rest_Timeout d r = (if err_r r \<noteq> None then r else r\<lparr>timeout_r := d\<rparr>)"

definition rest_ClientTimeout :: "int64 \<Rightarrow> Request \<Rightarrow> Request" where
  "rest_ClientTimeout d r = r\<lparr>clientTimeout_r := d\<rparr>"

definition rest_BaseURL :: "url option \<Rightarrow> Request \<Rightarrow> Request" where
  "rest_BaseURL u r = r\<lparr>baseURL_r := u\<rparr>"

definition rest_Resource :: "string \<Rightarrow> Request \<Rightarrow> Request" where
  "rest_Resource resource r =
     (if err_r r \<noteq> None then r
      else if resource_r r \<noteq> '''' then r\<lparr>err_r := Some (ParamErr ''resource already set'')\<rparr>
      else r\<lparr>resource_r := resource\<rparr>)"

definition Namespace :: "string \<Rightarrow> Request \<Rightarrow> Request" where
  "Namespace namespace r =
     (if err_r r \<noteq> None then r
      else if namespaceSet_r r then r\<lparr>err_r := Some (ParamErr ''namespace already set'')\<rparr>
      else r\<lparr>namespaceSet_r := True, namespace_r := namespace\<rparr>)"

text \<open>What \<open>Body\<close> is given: the name of a file, with what reading it gives, bytes, a reader, or an object with its JSON text.\<close>

datatype body_object = FileBody "string + string" | BytesBody string | ReaderBody req_body | JsonBody "string + string"

definition bytes_reader :: "string \<Rightarrow> req_body" where
  "bytes_reader s = \<lparr>data_b = s, pos_b = 0, seek_b = Some True\<rparr>"

definition rest_Body :: "body_object \<Rightarrow> Request \<Rightarrow> Request" where
  "rest_Body obj r =
     (if err_r r \<noteq> None then r
      else case obj of
        FileBody (Inl e) \<Rightarrow> r\<lparr>err_r := Some (ParamErr e)\<rparr>
      | FileBody (Inr s) \<Rightarrow> r\<lparr>body_r := Some (bytes_reader s)\<rparr>
      | BytesBody s \<Rightarrow> r\<lparr>body_r := Some (bytes_reader s)\<rparr>
      | ReaderBody b \<Rightarrow> r\<lparr>body_r := Some b\<rparr>
      | JsonBody (Inl e) \<Rightarrow> r\<lparr>err_r := Some (ParamErr e)\<rparr>
      | JsonBody (Inr s) \<Rightarrow>
          let r1 = r\<lparr>body_r := Some (bytes_reader s)\<rparr>
          in if header_Get ''Content-Type'' (headers_r r1) = '''' then rest_SetHeader ''Content-Type'' [''application/json''] r1 else r1)"

definition rest_Context :: "nat \<Rightarrow> Request \<Rightarrow> Request" where
  "rest_Context ctx r = r\<lparr>ctx_r := Some (CallerContext ctx)\<rparr>"

definition add_params :: "url_values \<Rightarrow> url_values \<Rightarrow> url_values" where
  "add_params ps q = fold (\<lambda>(k, vs). fold (values_Add k) vs) ps q"

definition rest_URL :: "Request \<Rightarrow> url" where
  "rest_URL r =
     (let p0 = pathPrefix_r r;
          p1 = (if namespaceSet_r r \<and> namespace_r r \<noteq> '''' then path_Join (path_Join p0 ''namespaces'') (namespace_r r) else p0);
          p2 = (if resource_r r \<noteq> '''' then path_Join p1 (resource_r r) else p1);
          base = (case baseURL_r r of Some u \<Rightarrow> u | None \<Rightarrow> \<lparr>Scheme_u = '''', Host_u = '''', Path_u = '''', RawQuery_u = ''''\<rparr>);
          query0 = add_params (case params_r r of Some ps \<Rightarrow> ps | None \<Rightarrow> []) [];
          query = (if timeout_r r \<noteq> 0 then values_Set ''timeout'' (duration_String (timeout_r r)) query0 else query0)
      in base\<lparr>Path_u := p2, RawQuery_u := values_Encode query\<rparr>)"

definition setParam :: "string \<Rightarrow> string \<Rightarrow> Request \<Rightarrow> Request" where
  "setParam name v r = r\<lparr>params_r := Some (values_Add name v (case params_r r of Some ps \<Rightarrow> ps | None \<Rightarrow> []))\<rparr>"

definition Param :: "string \<Rightarrow> string \<Rightarrow> Request \<Rightarrow> Request" where
  "Param name v r = (if err_r r \<noteq> None then r else setParam name v r)"

text \<open>Query criteria, \<open>criteria.go\<close>; a criteria object is its values.\<close>

definition NewQueryCriteria :: url_values where
  "NewQueryCriteria = []"

definition AddCondition :: "string \<Rightarrow> string \<Rightarrow> url_values \<Rightarrow> url_values" where
  "AddCondition key v c = values_Add key v c"

definition ReadFromRequest :: "string \<Rightarrow> url_values \<Rightarrow> url_values" where
  "ReadFromRequest rawQuery c = add_params (ParseQuery rawQuery) c"

definition Criteria :: "url_values option \<Rightarrow> Request \<Rightarrow> Request" where
  "Criteria criteria r = (case criteria of
     None \<Rightarrow> r
   | Some c \<Rightarrow> (case params_r r of
       None \<Rightarrow> r\<lparr>params_r := Some c\<rparr>
     | Some _ \<Rightarrow> fold (\<lambda>(k, vs). fold (Param k) vs) c r))"

section \<open>Sending\<close>

record sent_request =
  verb_s :: string
  url_s :: url
  header_s :: http_header
  host_s :: string
  body_s :: string
  ctx_s :: "req_ctx option"

datatype rest_event = Slept int64 | Sent sent_request | Handled http_resp

type_synonym transport = "nat \<Rightarrow> sent_request \<Rightarrow> (net_error + http_resp) \<times> nat"

text \<open>\<open>strconv.Atoi\<close>.\<close>

definition retryAfterSeconds :: "http_resp \<Rightarrow> int \<times> bool" where
  "retryAfterSeconds resp =
     (let h = header_Get ''Retry-After'' (Header_p resp)
      in if h = '''' then (0, False) else case ParseInt h of (i, None) \<Rightarrow> (i, True) | (_, Some _) \<Rightarrow> (0, False))"

definition checkWait :: "http_resp \<Rightarrow> int \<times> bool" where
  "checkWait resp = (if StatusCode_p resp = 429 \<or> 500 \<le> StatusCode_p resp then retryAfterSeconds resp else (0, False))"

definition isConnectionReset :: "net_error \<Rightarrow> bool" where
  "isConnectionReset e = (case e of OpError t \<Rightarrow> t = ''connection reset by peer'' | _ \<Rightarrow> False)"

definition make_request :: "Request \<Rightarrow> sent_request" where
  "make_request r =
     (let u = rest_URL r
      in \<lparr>verb_s = verb_r r, url_s = u, header_s = headers_r r, host_s = (if host_r r \<noteq> '''' then host_r r else Host_u u),
          body_s = (case body_r r of Some b \<Rightarrow> drop (pos_b b) (data_b b) | None \<Rightarrow> ''''), ctx_s = ctx_r r\<rparr>)"

definition read_body :: "nat \<Rightarrow> Request \<Rightarrow> Request" where
  "read_body n r = r\<lparr>body_r := map_option (\<lambda>b. b\<lparr>pos_b := min (length (data_b b)) (pos_b b + n)\<rparr>) (body_r r)\<rparr>"

text \<open>Setting the body back before another attempt; \<open>None\<close> when \<open>Seek\<close> fails. A body that cannot be set back is left as it is.\<close>

definition rewind :: "Request \<Rightarrow> Request option" where
  "rewind r = (case body_r r of
     Some b \<Rightarrow> (case seek_b b of
         Some True \<Rightarrow> Some (r\<lparr>body_r := Some (b\<lparr>pos_b := 0\<rparr>)\<rparr>)
       | Some False \<Rightarrow> None
       | None \<Rightarrow> Some r)
   | None \<Rightarrow> Some r)"

definition reset_reply :: http_resp where
  "reset_reply = \<lparr>StatusCode_p = 500, Header_p = (\<lambda>k. if k = ''Retry-After'' then [''1''] else []), Body_p = Some (Inr '''')\<rparr>"

definition maxRetries :: nat where "maxRetries = 10"

text \<open>One turn of the loop: it ends with an error or with the reply handed to the caller's function, or it sleeps and goes on.\<close>

datatype turn = Ended "rest_error option" | Again Request

definition handle_reply :: "nat \<Rightarrow> http_resp \<Rightarrow> Request \<Rightarrow> rest_event list \<times> turn" where
  "handle_reply retries resp r =
     (case checkWait resp of (seconds, wait) \<Rightarrow>
        if wait \<and> retries < maxRetries
        then (case rewind r of
            None \<Rightarrow> ([Handled resp], Ended None)
          | Some r1 \<Rightarrow> ([Slept (i64 (seconds * Second))], Again r1))
        else ([Handled resp], Ended None))"

definition rest_attempt :: "transport \<Rightarrow> (string \<Rightarrow> url \<Rightarrow> string option) \<Rightarrow> nat \<Rightarrow> Request \<Rightarrow> rest_event list \<times> turn" where
  "rest_attempt tr refused retries r =
     (case refused (verb_r r) (rest_URL r) of
        Some e \<Rightarrow> ([], Ended (Some (BuildErr e)))
      | None \<Rightarrow> let q = make_request r in (case tr retries q of (reply, n) \<Rightarrow>
          let r1 = read_body n r; sent = [Slept 0, Sent q]
          in case reply of
              Inl e \<Rightarrow> if \<not> isConnectionReset e \<or> verb_r r \<noteq> ''GET'' then (sent, Ended (Some (NetErr e)))
                        else (case handle_reply (retries + 1) reset_reply r1 of (evs, t) \<Rightarrow> (sent @ evs, t))
            | Inr resp \<Rightarrow> (case handle_reply (retries + 1) resp r1 of (evs, t) \<Rightarrow> (sent @ evs, t))))"

lemma attempt_again: "rest_attempt tr refused retries r = (evs, Again r') \<Longrightarrow> retries + 1 < maxRetries"
  by (auto simp: rest_attempt_def handle_reply_def Let_def split: option.splits prod.splits sum.splits if_splits)

function attempts :: "transport \<Rightarrow> (string \<Rightarrow> url \<Rightarrow> string option) \<Rightarrow> nat \<Rightarrow> Request \<Rightarrow> rest_event list \<times> rest_error option" where
  "attempts tr refused retries r =
     (case rest_attempt tr refused retries r of
        (evs, Ended e) \<Rightarrow> (evs, e)
      | (evs, Again r1) \<Rightarrow> (case attempts tr refused (retries + 1) r1 of (evs', e) \<Rightarrow> (evs @ evs', e)))"
  by pat_completeness auto
termination
  by (relation "measure (\<lambda>(_, _, retries, _). maxRetries - retries)") (auto dest!: attempt_again [OF sym])

text \<open>\<open>request\<close>: the context of the caller is replaced by one with the client timeout unless that is negative.\<close>

definition with_timeout :: "Request \<Rightarrow> Request" where
  "with_timeout r =
     (let t = (if clientTimeout_r r = 0 then 60 * Second else clientTimeout_r r)
      in if 0 < t then r\<lparr>clientTimeout_r := t, ctx_r := Some (TimeoutContext t)\<rparr> else r\<lparr>clientTimeout_r := t\<rparr>)"

definition rest_request :: "transport \<Rightarrow> (string \<Rightarrow> url \<Rightarrow> string option) \<Rightarrow> Request \<Rightarrow> rest_event list \<times> rest_error option" where
  "rest_request tr refused r = (case err_r r of
     Some e \<Rightarrow> ([], Some e)
   | None \<Rightarrow> attempts tr refused 0 (with_timeout r))"

section \<open>Results\<close>

record decoders =
  dec_final :: "string \<Rightarrow> string + FinalError"
  dec_status :: "string \<Rightarrow> string + string"
  dec_bce :: "string \<Rightarrow> string + BceError"
  dec_neutron :: "string \<Rightarrow> string + NeutronError"

definition decoded :: "('a \<Rightarrow> rest_error) \<Rightarrow> string + 'a \<Rightarrow> rest_error" where
  "decoded f d = (case d of Inl e \<Rightarrow> DecodeErr e | Inr x \<Rightarrow> f x)"

definition errorFromBody :: "decoders \<Rightarrow> string \<Rightarrow> string \<Rightarrow> rest_error" where
  "errorFromBody dec backend body =
     (if backend = ''internal'' then decoded FinalRestErr (dec_final dec body)
      else if backend = ''k8s'' then decoded StatusErr (dec_status dec body)
      else if backend = ''cloud'' then decoded BceErr (dec_bce dec body)
      else if backend = ''openstack'' then decoded NeutronErr (dec_neutron dec body)
      else TextErr body)"

text \<open>\<open>decoder_x\<close> tells whether the result has a decoder.\<close>

record rest_result =
  body_x :: string
  contentType_x :: string
  err_x :: "rest_error option"
  statusCode_x :: int
  backend_x :: string
  header_x :: http_header
  decoder_x :: bool

definition transformResponse :: "decoders \<Rightarrow> string \<Rightarrow> http_resp \<Rightarrow> rest_result" where
  "transformResponse dec backend resp =
     (let body = (case Body_p resp of Some (Inr data) \<Rightarrow> data | _ \<Rightarrow> '''')
      in \<lparr>body_x = body, contentType_x = header_Get ''Content-Type'' (Header_p resp),
          err_x = (if StatusCode_p resp = 101 then None
                   else if StatusCode_p resp < 200 \<or> StatusCode_p resp > 206 then Some (errorFromBody dec backend body) else None),
          statusCode_x = StatusCode_p resp, backend_x = backend, header_x = Header_p resp, decoder_x = True\<rparr>)"

definition failed_result :: "rest_error option \<Rightarrow> rest_result" where
  "failed_result e = \<lparr>body_x = '''', contentType_x = '''', err_x = e, statusCode_x = 0, backend_x = '''', header_x = (\<lambda>_. []), decoder_x = False\<rparr>"

fun handled :: "rest_event list \<Rightarrow> http_resp list" where
  "handled [] = []"
| "handled (Handled resp # evs) = resp # handled evs"
| "handled (_ # evs) = handled evs"

fun sends :: "rest_event list \<Rightarrow> sent_request list" where
  "sends [] = []"
| "sends (Sent q # evs) = q # sends evs"
| "sends (_ # evs) = sends evs"

text \<open>\<open>Do\<close>: the result is what the function made of the reply it was last called with.\<close>

definition rest_Do :: "transport \<Rightarrow> (string \<Rightarrow> url \<Rightarrow> string option) \<Rightarrow> decoders \<Rightarrow> Request \<Rightarrow> rest_result" where
  "rest_Do tr refused dec r = (case rest_request tr refused r of
     (_, Some e) \<Rightarrow> failed_result (Some e)
   | (evs, None) \<Rightarrow> (case rev (handled evs) of [] \<Rightarrow> failed_result None | resp # _ \<Rightarrow> transformResponse dec (BackendType (content_r r)) resp))"

definition result_Error :: "decoders \<Rightarrow> rest_result \<Rightarrow> rest_error option" where
  "result_Error dec x = (if err_x x = None \<or> body_x x = '''' \<or> \<not> decoder_x x then err_x x else Some (errorFromBody dec (backend_x x) (body_x x)))"

text \<open>\<open>Into\<close> an object, whose decoder is \<open>decode\<close>; the result is the error or the object.\<close>

definition Into :: "decoders \<Rightarrow> (string \<Rightarrow> string + 'a) \<Rightarrow> rest_result \<Rightarrow> rest_error option + 'a" where
  "Into dec decode x =
     (if err_x x \<noteq> None then Inl (result_Error dec x)
      else if \<not> decoder_x x then Inl (Some (TextErr (''serializer for '' @ contentType_x x @ '' doesn't exist'')))
      else if body_x x = '''' then Inl (Some (TextErr ''0-length response''))
      else case decode (body_x x) of Inl e \<Rightarrow> Inl (Some (DecodeErr e)) | Inr v \<Rightarrow> Inr v)"

section \<open>The client\<close>

record RESTClient =
  base_rc :: url
  version_rc :: string
  contentConfig_rc :: ContentConfig
  Client_timeout :: "int64 option"

text \<open>\<open>Client_timeout\<close> is \<open>None\<close> when the client is nil, else its field \<open>Timeout\<close>.\<close>

definition NewRESTClient :: "url \<Rightarrow> string \<Rightarrow> ContentConfig \<Rightarrow> int64 option \<Rightarrow> RESTClient" where
  "NewRESTClient baseURL version config client =
     \<lparr>base_rc = baseURL\<lparr>Path_u := (if HasSuffix (Path_u baseURL) ''/'' then Path_u baseURL else Path_u baseURL @ ''/''), RawQuery_u := ''''\<rparr>,
      version_rc = version, contentConfig_rc = config, Client_timeout = client\<rparr>"

definition Verb :: "string \<Rightarrow> RESTClient \<Rightarrow> Request" where
  "Verb verb c = NewRequest verb (Some (base_rc c)) (version_rc c) (contentConfig_rc c) (case Client_timeout c of None \<Rightarrow> 0 | Some t \<Rightarrow> t)"

definition Post :: "RESTClient \<Rightarrow> Request" where "Post c = Verb ''POST'' c"
definition Put :: "RESTClient \<Rightarrow> Request" where "Put c = Verb ''PUT'' c"
definition Patch :: "string \<Rightarrow> RESTClient \<Rightarrow> Request" where "Patch pt c = rest_SetHeader ''Content-Type'' [pt] (Verb ''PATCH'' c)"
definition rest_Get :: "RESTClient \<Rightarrow> Request" where "rest_Get c = Verb ''GET'' c"
definition rest_Delete :: "RESTClient \<Rightarrow> Request" where "rest_Delete c = Verb ''DELETE'' c"

section \<open>Sending ends, and every attempt is justified\<close>

lemma trace_append [simp]: "sends (xs @ ys) = sends xs @ sends ys" "handled (xs @ ys) = handled xs @ handled ys"
  by (induction xs rule: sends.induct) auto

text \<open>One turn: what it sends and hands over.\<close>

lemma handle_reply_trace:
  assumes "handle_reply k resp r = (evs, t)"
  shows "sends evs = []" "t = Ended e \<Longrightarrow> e = None \<and> handled evs = [resp]" "t = Again r' \<Longrightarrow> handled evs = [] \<and> snd (checkWait resp) \<and> rewind r = Some r'"
  using assms by (auto simp: handle_reply_def split: prod.splits if_splits option.splits)

definition justified :: "transport \<Rightarrow> nat \<Rightarrow> sent_request \<Rightarrow> bool" where
  "justified tr n q \<longleftrightarrow> (case fst (tr n q) of
     Inr resp \<Rightarrow> snd (checkWait resp)
   | Inl e \<Rightarrow> verb_s q = ''GET'' \<and> isConnectionReset e)"

lemma attempt_cases:
  assumes "rest_attempt tr refused k r = (evs, t)"
  obtains (unsent) e where "evs = []" "t = Ended (Some (BuildErr e))"
  | (failed) e where "evs = [Slept 0, Sent (make_request r)]" "t = Ended (Some (NetErr e))"
  | (replied) resp n evs' where "snd (checkWait resp) \<Longrightarrow> justified tr k (make_request r)" "handle_reply (k + 1) resp (read_body n r) = (evs', t)"
      "evs = [Slept 0, Sent (make_request r)] @ evs'"
proof (cases "refused (verb_r r) (rest_URL r)")
  case None
  obtain reply n where tr: "tr k (make_request r) = (reply, n)" by fastforce
  show ?thesis
  proof (cases reply)
    case (Inr resp)
    obtain evs' t' where h: "handle_reply (k + 1) resp (read_body n r) = (evs', t')" by fastforce
    then show ?thesis using assms None tr Inr by (intro replied [of resp n evs']) (auto simp: rest_attempt_def justified_def Let_def)
  next
    case (Inl e)
    obtain evs' t' where h: "handle_reply (k + 1) reset_reply (read_body n r) = (evs', t')" by fastforce
    show ?thesis
    proof (cases "isConnectionReset e \<and> verb_r r = ''GET''")
      case True
      then show ?thesis using assms None tr Inl h
        by (intro replied [of reset_reply n evs']) (auto simp: rest_attempt_def justified_def make_request_def Let_def)
    next
      case False
      then show ?thesis using assms None tr Inl by (intro failed [of e]) (auto simp: rest_attempt_def Let_def)
    qed
  qed
qed (use assms unsent in \<open>auto simp: rest_attempt_def\<close>)

lemma attempt_ended:
  assumes "rest_attempt tr refused k r = (evs, Ended e)"
  shows "length (sends evs) \<le> 1" "length (handled evs) = (if e = None then 1 else 0)" "set (sends evs) \<subseteq> {make_request r}"
proof -
  from assms have "length (sends evs) \<le> 1 \<and> length (handled evs) = (if e = None then 1 else 0) \<and> set (sends evs) \<subseteq> {make_request r}"
  proof (cases rule: attempt_cases)
    case (replied resp n evs')
    then show ?thesis using handle_reply_trace(1) [OF replied(2)] handle_reply_trace(2) [OF replied(2) refl] by simp
  qed simp_all
  then show "length (sends evs) \<le> 1" "length (handled evs) = (if e = None then 1 else 0)" "set (sends evs) \<subseteq> {make_request r}" by blast+
qed

lemma attempt_goes_on:
  assumes "rest_attempt tr refused k r = (evs, Again r')"
  shows "sends evs = [make_request r]" "handled evs = []" "justified tr k (make_request r)" "\<exists>n. rewind (read_body n r) = Some r'" "k + 1 < maxRetries"
proof -
  from assms have "sends evs = [make_request r] \<and> handled evs = [] \<and> justified tr k (make_request r) \<and> (\<exists>n. rewind (read_body n r) = Some r')"
  proof (cases rule: attempt_cases)
    case (replied resp n evs')
    then show ?thesis using handle_reply_trace(1) [OF replied(2)] handle_reply_trace(3) [OF replied(2) refl] by auto
  qed simp_all
  then show "sends evs = [make_request r]" "handled evs = []" "justified tr k (make_request r)" "\<exists>n. rewind (read_body n r) = Some r'" by blast+
qed (rule attempt_again [OF assms])

declare attempts.simps [simp del]

lemma attempts_bounded:
  "attempts tr refused k r = (evs, e) \<Longrightarrow> k < maxRetries \<Longrightarrow>
     length (sends evs) \<le> maxRetries - k \<and> length (handled evs) = (if e = None then 1 else 0)"
proof (induction tr refused k r arbitrary: evs e rule: attempts.induct)
  case (1 tr refused k r)
  obtain evs1 t where at: "rest_attempt tr refused k r = (evs1, t)" by fastforce
  show ?case
  proof (cases t)
    case (Ended e1)
    then show ?thesis using "1.prems" at attempt_ended [of tr refused k r evs1 e1] by (simp add: attempts.simps [of tr refused k])
  next
    case (Again r1)
    obtain evs2 e2 where rest: "attempts tr refused (k + 1) r1 = (evs2, e2)" by fastforce
    note a = attempt_goes_on [OF at [unfolded Again]]
    have eq: "evs = evs1 @ evs2" "e = e2" using "1.prems"(1) at Again rest by (simp_all add: attempts.simps [of tr refused k])
    have "length (sends evs2) \<le> maxRetries - (k + 1) \<and> length (handled evs2) = (if e2 = None then 1 else 0)"
      using "1.IH" [OF at [symmetric] Again rest] a(5) by simp
    then show ?thesis using a(1,2,5) eq by auto
  qed
qed

lemma attempts_justified:
  "attempts tr refused k r = (evs, e) \<Longrightarrow> i + 1 < length (sends evs) \<Longrightarrow> justified tr (k + i) (sends evs ! i)"
proof (induction tr refused k r arbitrary: evs e i rule: attempts.induct)
  case (1 tr refused k r)
  obtain evs1 t where at: "rest_attempt tr refused k r = (evs1, t)" by fastforce
  show ?case
  proof (cases t)
    case (Ended e1)
    then show ?thesis using "1.prems" at attempt_ended(1) [of tr refused k r evs1 e1] by (simp add: attempts.simps [of tr refused k])
  next
    case (Again r1)
    obtain evs2 e2 where rest: "attempts tr refused (k + 1) r1 = (evs2, e2)" by fastforce
    note a = attempt_goes_on [OF at [unfolded Again]]
    have s: "sends evs = make_request r # sends evs2" using "1.prems"(1) at Again rest a(1) by (auto simp: attempts.simps [of tr refused k])
    show ?thesis
    proof (cases i)
      case 0
      then show ?thesis using s a(3) by simp
    next
      case (Suc j)
      then show ?thesis using "1.IH" [OF at [symmetric] Again rest, of j] "1.prems"(2) s by simp
    qed
  qed
qed

text \<open>A body that is absent or can be set back from its start.\<close>

definition resendable :: "Request \<Rightarrow> bool" where
  "resendable r \<longleftrightarrow> (case body_r r of None \<Rightarrow> True | Some b \<Rightarrow> pos_b b = 0 \<and> seek_b b = Some True)"

lemma rewind_same: "resendable r \<Longrightarrow> rewind (read_body n r) = Some r' \<Longrightarrow> r' = r"
  by (cases r) (auto simp: resendable_def rewind_def read_body_def split: option.splits bool.splits)

lemma attempts_same:
  "attempts tr refused k r = (evs, e) \<Longrightarrow> resendable r \<Longrightarrow> set (sends evs) \<subseteq> {make_request r}"
proof (induction tr refused k r arbitrary: evs e rule: attempts.induct)
  case (1 tr refused k r)
  obtain evs1 t where at: "rest_attempt tr refused k r = (evs1, t)" by fastforce
  show ?case
  proof (cases t)
    case (Ended e1)
    then show ?thesis using "1.prems" at attempt_ended(3) [of tr refused k r evs1 e1] by (simp add: attempts.simps [of tr refused k])
  next
    case (Again r1)
    obtain evs2 e2 where rest: "attempts tr refused (k + 1) r1 = (evs2, e2)" by fastforce
    note a = attempt_goes_on [OF at [unfolded Again]]
    have "r1 = r" using a(4) rewind_same [OF "1.prems"(2)] by blast
    then show ?thesis using "1.IH" [OF at [symmetric] Again rest] "1.prems" at Again rest a(1) by (auto simp: attempts.simps [of tr refused k])
  qed
qed

lemma request_handled:
  assumes "rest_request tr refused r = (evs, e)"
  shows "length (sends evs) \<le> 10 \<and> length (handled evs) = (if e = None then 1 else 0)"
proof (cases "err_r r")
  case None
  then show ?thesis using assms attempts_bounded [of tr refused 0 "with_timeout r" evs e] by (simp add: rest_request_def maxRetries_def)
next
  case (Some x)
  then have "evs = []" "e = Some x" using assms by (simp_all add: rest_request_def)
  then show ?thesis by simp
qed

lemma request_attempts: "rest_request tr refused r = (evs, e) \<Longrightarrow> sends evs \<noteq> [] \<Longrightarrow> attempts tr refused 0 (with_timeout r) = (evs, e)"
  by (auto simp: rest_request_def split: option.splits)

text \<open>C30: Sending a request ends for every behaviour of the network: at most ten attempts are made, the reply is handed over exactly once when there is no
  error and never otherwise, and a further attempt is made only after a reply with status 429 or 500 and above that asks to retry, or, for GET, after a
  connection reset; so a request of another verb is never sent again after an error of the network.\<close>

theorem request_bounded:
  assumes "rest_request tr refused r = (evs, e)"
  shows "length (sends evs) \<le> 10 \<and> length (handled evs) = (if e = None then 1 else 0)
    \<and> (\<forall>i. i + 1 < length (sends evs) \<longrightarrow> justified tr i (sends evs ! i))"
  using request_handled [OF assms] attempts_justified [OF request_attempts [OF assms], of 0] attempts_justified [OF request_attempts [OF assms]]
  by fastforce

text \<open>All attempts send the same request, with the whole body, when the request has no body or one that was given as bytes, a file or an object.\<close>

theorem resends_identical:
  assumes "rest_request tr refused r = (evs, e)" "resendable r"
  shows "set (sends evs) \<subseteq> {make_request (with_timeout r)}"
proof (cases "sends evs = []")
  case False
  have "resendable (with_timeout r)" using assms(2) by (simp add: resendable_def with_timeout_def Let_def)
  then show ?thesis using attempts_same [OF request_attempts [OF assms(1) False]] by blast
qed simp

lemma Into_reply:
  assumes "Into dec decode (rest_Do tr refused dec' r) = Inr v"
  shows "\<exists>evs resp data. rest_request tr refused r = (evs, None) \<and> handled evs = [resp] \<and> (StatusCode_p resp = 101 \<or> 200 \<le> StatusCode_p resp \<and> StatusCode_p resp \<le> 206)
    \<and> Body_p resp = Some (Inr data) \<and> data \<noteq> '''' \<and> decode data = Inr v"
proof -
  obtain evs e where q: "rest_request tr refused r = (evs, e)" by fastforce
  have n: "length (handled evs) = (if e = None then 1 else 0)" using request_handled [OF q] by simp
  show ?thesis
  proof (cases e)
    case None
    then obtain resp where h: "handled evs = [resp]" using n by (cases "handled evs") auto
    have "Into dec decode (transformResponse dec' (BackendType (content_r r)) resp) = Inr v" using assms q None h by (simp add: rest_Do_def)
    then show ?thesis using q None h
      by (auto simp: Into_def transformResponse_def Let_def split: if_splits sum.splits option.splits)
  next
    case (Some x)
    then show ?thesis using assms q by (simp add: rest_Do_def Into_def failed_result_def)
  qed
qed

section \<open>Query criteria\<close>

lemma distinct_values_Add: "distinct (map fst m) \<Longrightarrow> distinct (map fst (values_Add k v m))"
  by (simp add: values_Add_def distinct_update)

lemma distinct_fold_Add: "distinct (map fst m) \<Longrightarrow> distinct (map fst (fold (\<lambda>(k, v). values_Add k v) ps m))"
  by (induction ps arbitrary: m) (auto simp: distinct_values_Add)

definition flat :: "url_values \<Rightarrow> (string \<times> string) list" where
  "flat ps = concat (map (\<lambda>(k, vs). map (Pair k) vs) ps)"

lemma add_params_flat: "add_params ps q = fold (\<lambda>(k, v). values_Add k v) (flat ps) q"
proof -
  have "fold (values_Add k) vs q = fold (\<lambda>(k, v). values_Add k v) (map (Pair k) vs) q" for k vs q by (induction vs arbitrary: q) auto
  then show ?thesis by (induction ps arbitrary: q) (auto simp: add_params_def flat_def)
qed

lemma flat_values: "distinct (map fst ps) \<Longrightarrow> map snd (filter (\<lambda>p. fst p = k) (flat ps)) = (case map_of ps k of Some vs \<Rightarrow> vs | None \<Rightarrow> [])"
proof (induction ps)
  case (Cons p ps)
  obtain k' vs where p: "p = (k', vs)" by fastforce
  have tail: "k' = k \<Longrightarrow> filter (\<lambda>p. fst p = k) (flat ps) = []" using Cons.prems by (force simp: p flat_def filter_empty_conv)
  show ?case using Cons tail by (cases "k' = k") (auto simp: p flat_def filter_map comp_def)
qed (simp add: flat_def)

text \<open>The values of a key among conditions; a key without values is absent.\<close>

definition conditions :: "string \<Rightarrow> (string \<times> string) list \<Rightarrow> string list option" where
  "conditions k conds = (let vs = map snd (filter (\<lambda>p. fst p = k) conds) in if vs = [] then None else Some vs)"

lemma map_of_added: "map_of (fold (\<lambda>(k, v). values_Add k v) conds []) k = conditions k conds"
  by (simp add: map_of_fold_Add conditions_def Let_def)

lemma map_of_add_params:
  assumes "distinct (map fst ps)"
  shows "map_of (add_params ps []) k = (case map_of ps k of Some vs \<Rightarrow> if vs = [] then None else Some vs | None \<Rightarrow> None)"
  unfolding add_params_flat map_of_added conditions_def flat_values [OF assms] Let_def by (simp split: option.splits)

text \<open>The parameters a request has before its criteria are added; a Go map has every key once.\<close>

definition old_params :: "Request \<Rightarrow> url_values" where
  "old_params r = (case params_r r of Some ps \<Rightarrow> ps | None \<Rightarrow> [])"

lemma fold_Param:
  assumes "err_r r = None" "params_r r = Some ps"
  shows "fold (\<lambda>(k, vs). fold (Param k) vs) c r = r\<lparr>params_r := Some (add_params c ps)\<rparr>"
proof -
  have one: "fold (Param k) vs r = r\<lparr>params_r := Some (fold (values_Add k) vs ps)\<rparr>" if "err_r r = None" "params_r r = Some ps" for k vs r ps
    using that by (induction vs arbitrary: r ps) (simp_all add: Param_def setParam_def)
  show ?thesis using assms
  proof (induction c arbitrary: r ps)
    case (Cons kv c)
    obtain k vs where kv: "kv = (k, vs)" by fastforce
    show ?case using Cons.IH [of "r\<lparr>params_r := Some (fold (values_Add k) vs ps)\<rparr>"] Cons.prems by (simp add: kv one add_params_def)
  qed (simp add: add_params_def)
qed

lemma Criteria_params:
  assumes "err_r r = None" "distinct (map fst (old_params r))"
  shows "\<exists>ps. params_r (Criteria (Some c) r) = Some ps \<and> (\<forall>k. map_of (add_params ps []) k = conditions k (flat (old_params r) @ flat c)) \<and> timeout_r (Criteria (Some c) r) = timeout_r r"
proof (cases "params_r r")
  case None
  then show ?thesis by (simp add: Criteria_def old_params_def add_params_flat map_of_added flat_def)
next
  case (Some ps)
  have "map_of (add_params (add_params c ps) []) k = conditions k (flat ps @ flat c)" for k
  proof -
    have d: "distinct (map fst (add_params c ps))" using assms(2) Some by (simp add: add_params_flat distinct_fold_Add old_params_def)
    have "map_of (add_params (add_params c ps) []) k = (case map_of (add_params c ps) k of Some vs \<Rightarrow> if vs = [] then None else Some vs | None \<Rightarrow> None)"
      by (rule map_of_add_params [OF d])
    also have "\<dots> = conditions k (flat ps @ flat c)"
    proof -
      have "map snd (filter (\<lambda>p. fst p = k) (flat ps)) = (case map_of ps k of Some vs \<Rightarrow> vs | None \<Rightarrow> [])" using assms(2) Some by (intro flat_values) (simp add: old_params_def)
      then show ?thesis by (cases "map_of ps k") (auto simp: add_params_flat [of c] map_of_fold_Add conditions_def Let_def)
    qed
    finally show ?thesis .
  qed
  then show ?thesis using Some assms(1) by (simp add: Criteria_def fold_Param old_params_def)
qed

text \<open>C32: The conditions a client adds to its criteria are those the server reads out of the request: for every key the server finds the values the request had before and
  then those of the conditions, in their order and whatever characters they have. The key \<open>timeout\<close> alone is different when the request has a timeout: its
  one value is then that timeout, and conditions with that key are lost. The request was built without an error so far.\<close>

theorem criteria_roundtrip:
  assumes "err_r r = None" "distinct (map fst (old_params r))"
  shows "map_of (ReadFromRequest (RawQuery_u (rest_URL (Criteria (Some (fold (\<lambda>(k, v). AddCondition k v) conds NewQueryCriteria)) r))) NewQueryCriteria) k
    = (if k = ''timeout'' \<and> timeout_r r \<noteq> 0 then Some [duration_String (timeout_r r)] else conditions k (flat (old_params r) @ conds))"
proof -
  define c where "c = fold (\<lambda>(k, v). values_Add k v) conds []"
  have cc: "fold (\<lambda>(k, v). AddCondition k v) conds NewQueryCriteria = c" by (simp add: c_def AddCondition_def [abs_def] NewQueryCriteria_def)
  have dc: "distinct (map fst c)" by (simp add: c_def distinct_fold_Add)
  from Criteria_params [OF assms] obtain ps where ps: "params_r (Criteria (Some c) r) = Some ps" "timeout_r (Criteria (Some c) r) = timeout_r r"
    "\<And>k. map_of (add_params ps []) k = conditions k (flat (old_params r) @ flat c)" by blast
  have flat_c: "filter (\<lambda>p. fst p = k) (flat c) = [] \<longleftrightarrow> filter (\<lambda>p. fst p = k) conds = []" "map snd (filter (\<lambda>p. fst p = k) (flat c)) = map snd (filter (\<lambda>p. fst p = k) conds)" for k
    using flat_values [OF dc, of k] by (auto simp: c_def map_of_added conditions_def Let_def split: if_splits)
  define q where "q = (if timeout_r r \<noteq> 0 then values_Set ''timeout'' (duration_String (timeout_r r)) (add_params ps []) else add_params ps [])"
  have d: "distinct (map fst q)" "distinct (map fst (ParseQuery (values_Encode q)))"
    by (simp_all add: q_def add_params_flat distinct_fold_Add values_Set_def distinct_update ParseQuery_def)
  have val: "map_of q k = (if k = ''timeout'' \<and> timeout_r r \<noteq> 0 then Some [duration_String (timeout_r r)] else conditions k (flat (old_params r) @ conds))"
    using flat_c [of k] by (auto simp: q_def values_Set_def update_conv' ps(3) conditions_def Let_def)
  have "RawQuery_u (rest_URL (Criteria (Some c) r)) = values_Encode q" by (simp add: rest_URL_def q_def ps Let_def)
  then show ?thesis
    unfolding cc unfolding ReadFromRequest_def NewQueryCriteria_def
    by (simp add: map_of_add_params [OF d(2)] query_roundtrip [OF d(1)] val conditions_def Let_def)
qed

section \<open>Bodies that cannot be set back, and resets\<close>

text \<open>A body that is only a reader is not sent again: after a first attempt that has read it, the next one has an empty body.\<close>

lemma stream_resent_empty:
  assumes "body_r r = Some \<lparr>data_b = d, pos_b = 0, seek_b = None\<rparr>" "err_r r = None" "refused (verb_r r) (rest_URL (with_timeout r)) = None"
    and "tr 0 (make_request (with_timeout r)) = (Inr resp, length d)" "checkWait resp = (s, True)"
  shows "\<exists>evs e. rest_request tr refused r = (evs, e) \<and> 1 < length (sends evs) \<and> body_s (sends evs ! 1) = ''''"
proof -
  define r1 where "r1 = read_body (length d) (with_timeout r)"
  have b: "body_r (with_timeout r) = body_r r" "verb_r (with_timeout r) = verb_r r" by (simp_all add: with_timeout_def Let_def)
  have r1: "body_r r1 = Some \<lparr>data_b = d, pos_b = length d, seek_b = None\<rparr>" using assms(1) by (simp add: r1_def read_body_def b)
  have u: "rest_URL r1 = rest_URL (with_timeout r)" "verb_r r1 = verb_r r" by (simp_all add: r1_def read_body_def rest_URL_def b Let_def)
  have "rewind r1 = Some r1" using r1 by (simp add: rewind_def)
  then have first: "rest_attempt tr refused 0 (with_timeout r) = ([Slept 0, Sent (make_request (with_timeout r)), Slept (i64 (s * Second))], Again r1)"
    using assms(3-5) by (simp add: rest_attempt_def handle_reply_def maxRetries_def b r1_def [symmetric] Let_def)
  obtain evs1 t where at: "rest_attempt tr refused 1 r1 = (evs1, t)" by fastforce
  from at assms(3) have sent: "\<exists>evs'. evs1 = [Slept 0, Sent (make_request r1)] @ evs'"
  proof (cases rule: attempt_cases)
    case (unsent e)
    then show ?thesis using at assms(3) u by (auto simp: rest_attempt_def Let_def split: prod.splits sum.splits if_splits)
  qed auto
  then obtain evs' where evs1: "evs1 = [Slept 0, Sent (make_request r1)] @ evs'" by blast
  have "\<exists>evs2 e. attempts tr refused 1 r1 = (evs1 @ evs2, e)"
    using at by (cases t) (simp_all add: attempts.simps [of tr refused "Suc 0"] case_prod_beta)
  then obtain evs2 e where rest: "attempts tr refused 1 r1 = (evs1 @ evs2, e)" by blast
  have "rest_request tr refused r = ([Slept 0, Sent (make_request (with_timeout r)), Slept (i64 (s * Second))] @ evs1 @ evs2, e)"
    using first rest assms(2) by (simp add: rest_request_def attempts.simps [of tr refused 0])
  moreover have "body_s (make_request r1) = ''''" using r1 by (simp add: make_request_def Let_def)
  ultimately show ?thesis using evs1 by simp
qed

text \<open>Errors of Go's HTTP client are always wrapped in \<open>*url.Error\<close>; none of them is recognised as a connection reset.\<close>

lemma wrapped_reset_not_recognised: "\<not> isConnectionReset (UrlError e)"
  by (simp add: isConnectionReset_def)

section \<open>Witnesses\<close>

definition demo_config :: ContentConfig where
  "demo_config = \<lparr>AcceptContentTypes = '''', ContentType_cc = '''', BackendType = ''internal'', Connection_cc = '''', KeepAlive_cc = '''', ClientTimeout_cc = 0\<rparr>"

definition demo_request :: Request where
  "demo_request = rest_Body (BytesBody ''abc'') (rest_Resource ''funclet/warmup''
     (Post (NewRESTClient \<lparr>Scheme_u = ''http'', Host_u = ''funclet'', Path_u = '''', RawQuery_u = ''''\<rparr> ''v1'' demo_config (Some 0))))"

text \<open>A server that is busy once.\<close>

definition demo_transport :: transport where
  "demo_transport n q =
     (if n = 0 then (Inr \<lparr>StatusCode_p = 503, Header_p = (\<lambda>k. if k = ''Retry-After'' then [''1''] else []), Body_p = None\<rparr>, length (body_s q))
      else (Inr \<lparr>StatusCode_p = 200, Header_p = (\<lambda>_. []), Body_p = Some (Inr ''{}'')\<rparr>, length (body_s q)))"

definition demo_decoders :: decoders where
  "demo_decoders = \<lparr>dec_final = (\<lambda>_. Inl ''''), dec_status = (\<lambda>_. Inl ''''), dec_bce = (\<lambda>_. Inl ''''), dec_neutron = (\<lambda>_. Inl '''')\<rparr>"

lemma demo_canonical: "CanonicalHeaderKey ''Retry-After'' = ''Retry-After''"
  by (simp add: CanonicalHeaderKey_def to_upper_char_def)

lemma demo_fields: "err_r demo_request = None" "body_r demo_request = Some (bytes_reader ''abc'')" "verb_r demo_request = ''POST''" "params_r demo_request = None" "timeout_r demo_request = 0"
  by (simp_all add: demo_request_def rest_Body_def rest_Resource_def Post_def Verb_def NewRequest_def NewRESTClient_def demo_config_def rest_SetHeader_def Let_def)

definition demo_prepared :: Request where "demo_prepared = with_timeout demo_request"

lemma demo_prepared: "body_r demo_prepared = Some (bytes_reader ''abc'')" "verb_r demo_prepared = ''POST''" "rewind (read_body n demo_prepared) = Some demo_prepared"
proof -
  show b: "body_r demo_prepared = Some (bytes_reader ''abc'')" "verb_r demo_prepared = ''POST''"
    using demo_fields by (simp_all add: demo_prepared_def with_timeout_def Let_def)
  show "rewind (read_body n demo_prepared) = Some demo_prepared"
    using b by (cases demo_prepared) (simp add: rewind_def read_body_def bytes_reader_def)
qed

lemma demo_turns:
  "rest_attempt demo_transport (\<lambda>_ _. None) 0 demo_prepared = ([Slept 0, Sent (make_request demo_prepared), Slept (i64 (1 * Second))], Again demo_prepared)"
  "rest_attempt demo_transport (\<lambda>_ _. None) (Suc 0) demo_prepared
     = ([Slept 0, Sent (make_request demo_prepared), Handled \<lparr>StatusCode_p = 200, Header_p = (\<lambda>_. []), Body_p = Some (Inr ''{}'')\<rparr>], Ended None)"
proof -
  have w: "checkWait \<lparr>StatusCode_p = 503, Header_p = (\<lambda>k. if k = ''Retry-After'' then [''1''] else []), Body_p = None\<rparr> = (1, True)"
    by (simp add: checkWait_def retryAfterSeconds_def header_Get_def demo_canonical ParseInt_def HasPrefix_def is_digit_char_def digits_value_def Let_def)
  show "rest_attempt demo_transport (\<lambda>_ _. None) 0 demo_prepared = ([Slept 0, Sent (make_request demo_prepared), Slept (i64 (1 * Second))], Again demo_prepared)"
    by (simp add: rest_attempt_def demo_transport_def handle_reply_def w maxRetries_def demo_prepared Let_def)
qed (simp add: rest_attempt_def demo_transport_def handle_reply_def checkWait_def Let_def)

lemma demo_sent:
  "sends (fst (rest_request demo_transport (\<lambda>_ _. None) demo_request)) = [make_request demo_prepared, make_request demo_prepared]"
  "snd (rest_request demo_transport (\<lambda>_ _. None) demo_request) = None"
  using demo_turns by (simp_all add: rest_request_def demo_fields demo_prepared_def [symmetric] attempts.simps [of _ _ 0] attempts.simps [of _ _ "Suc 0"])

theorem request_bounded_witness:
  "length (handled (fst (rest_request demo_transport (\<lambda>_ _. None) demo_request))) = 1 \<and> justified demo_transport 0 (make_request demo_prepared)"
  using request_bounded [of demo_transport "\<lambda>_ _. None" demo_request] demo_sent
  by (metis (no_types, lifting) One_nat_def add_0 length_Cons lessI list.size(3) nth_Cons_0 prod.collapse)

theorem resends_identical_witness:
  "set (sends (fst (rest_request demo_transport (\<lambda>_ _. None) demo_request))) \<subseteq> {make_request (with_timeout demo_request)}"
  by (rule resends_identical [of demo_transport "\<lambda>_ _. None" demo_request _ "snd (rest_request demo_transport (\<lambda>_ _. None) demo_request)"])
    (simp_all add: resendable_def demo_fields bytes_reader_def)

theorem criteria_roundtrip_witness:
  "map_of (ReadFromRequest (RawQuery_u (rest_URL (Criteria (Some (fold (\<lambda>(k, v). AddCondition k v) [(''a'', ''1''), (''b'', ''x y''), (''a'', ''&2'')] NewQueryCriteria))
     (Param ''a'' ''0'' demo_request)))) NewQueryCriteria) ''a'' = Some [''0'', ''1'', ''&2'']"
proof -
  have r: "err_r (Param ''a'' ''0'' demo_request) = None" "old_params (Param ''a'' ''0'' demo_request) = [(''a'', [''0''])]"
    by (simp_all add: Param_def setParam_def values_Add_def old_params_def demo_fields)
  then show ?thesis using criteria_roundtrip [of "Param ''a'' ''0'' demo_request" "[(''a'', ''1''), (''b'', ''x y''), (''a'', ''&2'')]" "''a''"]
    by (simp add: conditions_def flat_def)
qed

end
