(* ===== verification/Auth.thy ===== *)
theory Auth
  imports Rest
begin

text \<open>
  The signers of requests to the registry, \<open>src/pkg/auth\<close>. The keyed hash HMAC-SHA256 in hexadecimal is a parameter \<open>hmac\<close>, the text of the time an
  argument. Go visits maps in any order, so the keys of the header are given as a list, and the results do not depend on its order. The theory shows
  which parts of a request the signed text determines.
\<close>

section \<open>Rules\<close>

datatype rule = MapRule "string list" | Rules "rule list" | Blacklist rule

fun IsValid :: "rule \<Rightarrow> string \<Rightarrow> bool" where
  "IsValid (MapRule m) v = (v \<in> set m)"
| "IsValid (Rules rs) v = list_ex (\<lambda>r. IsValid r v) rs"
| "IsValid (Blacklist r) v = (\<not> IsValid r v)"

section \<open>Canonical forms\<close>

definition replace_plus :: "string \<Rightarrow> string" where
  "replace_plus s = concat (map (\<lambda>c. if c = CHR ''+'' then ''%20'' else [c]) s)"

fun replace_2F :: "string \<Rightarrow> string" where
  "replace_2F [] = []"
| "replace_2F (c # s) = (if c = CHR ''%'' \<and> take 2 s = ''2F'' then CHR ''/'' # replace_2F (drop 2 s) else c # replace_2F s)"

definition GetNormalizedString :: "string \<Rightarrow> bool \<Rightarrow> string" where
  "GetNormalizedString s skipSlash = (let r = replace_plus (QueryEscape s) in if skipSlash then replace_2F r else r)"

definition query_line :: "string \<times> string list \<Rightarrow> string" where
  "query_line kv =
     (let v = (case snd kv of [] \<Rightarrow> '''' | x # _ \<Rightarrow> x)
      in if v = '''' then GetNormalizedString (fst kv) False @ ''='' else GetNormalizedString (fst kv) False @ ''='' @ GetNormalizedString v False)"

definition GetCanonicalQueryString :: "url_values \<Rightarrow> string" where
  "GetCanonicalQueryString query =
     join_with ''&'' (sort_by string_less (map query_line (filter (\<lambda>kv. fst kv \<noteq> ''authorization'') query)))"

definition standardHeaders :: "string list" where
  "standardHeaders = [''host'', ''content-md5'', ''content-length'', ''content-type'']"

definition signed_header :: "rule \<Rightarrow> string \<Rightarrow> bool" where
  "signed_header r keyLower \<longleftrightarrow> IsValid r keyLower \<and> (HasPrefix keyLower ''x-cloud-'' \<or> keyLower \<in> set standardHeaders)"

definition header_line :: "http_header \<Rightarrow> string \<Rightarrow> string" where
  "header_line h key = ToLower key @ '':'' @ GetNormalizedString (header_Get key h) False"

definition GetCanonicalHeaders :: "string list \<Rightarrow> http_header \<Rightarrow> rule \<Rightarrow> string \<times> string list" where
  "GetCanonicalHeaders keys h r =
     (let valid = filter (\<lambda>key. signed_header r (ToLower key)) keys
      in (join_with [CHR 0x0A] (sort_by string_less (map (header_line h) valid)), sort_by string_less (map ToLower valid)))"

section \<open>Signers\<close>

record bceSigner =
  accessKey :: string
  secretKey :: string
  expire :: int64
  ignoredHeaders :: rule
  withSignedHeader :: bool

definition defaultExpire :: int where "defaultExpire = 3000"

definition NewSigner :: "string \<Rightarrow> string \<Rightarrow> bceSigner" where
  "NewSigner ak sk = \<lparr>accessKey = ak, secretKey = sk, expire = defaultExpire,
     ignoredHeaders = Rules [Blacklist (MapRule [''authorization'', ''user-agent'', ''cloud-faas-uid'', ''x-auth-token'', ''app''])], withSignedHeader = True\<rparr>"

datatype auth_error = InitAuthSignerError string string | InvalidAuthSignerError string

text \<open>The parameters are a map of texts; the second test looks at the access key again, as the code does.\<close>

definition FromParameters :: "(string \<rightharpoonup> string) \<Rightarrow> auth_error + bceSigner" where
  "FromParameters parameters = (case parameters ''ak'' of
     None \<Rightarrow> Inl (InitAuthSignerError ''cloud'' ''no ak parameter provided'')
   | Some ak \<Rightarrow> if ak = '''' then Inl (InitAuthSignerError ''cloud'' ''no ak parameter provided'')
       else (case parameters ''sk'' of
           None \<Rightarrow> Inl (InitAuthSignerError ''cloud'' ''no sk parameter provided'')
         | Some sk \<Rightarrow> if ak = '''' then Inl (InitAuthSignerError ''cloud'' ''no sk parameter provided'') else Inr (NewSigner ak sk)))"

definition ToUpper :: "string \<Rightarrow> string" where
  "ToUpper s = map to_upper_char s"

definition canonical_request :: "bceSigner \<Rightarrow> string list \<Rightarrow> Request \<Rightarrow> string" where
  "canonical_request s keys r =
     ToUpper (verb_r r) @ [CHR 0x0A] @ GetNormalizedString (Path_u (rest_URL r)) True @ [CHR 0x0A]
     @ GetCanonicalQueryString (case params_r r of Some ps \<Rightarrow> ps | None \<Rightarrow> []) @ [CHR 0x0A] @ fst (GetCanonicalHeaders keys (headers_r r) (ignoredHeaders s))"

definition GetSignature :: "(string \<Rightarrow> string \<Rightarrow> string) \<Rightarrow> string \<Rightarrow> bceSigner \<Rightarrow> string list \<Rightarrow> Request \<Rightarrow> string" where
  "GetSignature hmac now s keys r =
     (let stringPrefix = ''cloud-auth-v1/'' @ accessKey s @ ''/'' @ now @ ''/'' @ Itoa defaultExpire;
          signKey = hmac (secretKey s) stringPrefix;
          signature = hmac signKey (canonical_request s keys r)
      in if withSignedHeader s then stringPrefix @ ''/'' @ join_with '';'' (snd (GetCanonicalHeaders keys (headers_r r) (ignoredHeaders s))) @ ''/'' @ signature
         else stringPrefix @ ''//'' @ signature)"

datatype signer = NoAuth | Bce bceSigner

text \<open>The factory: signers are registered by name when the program starts.\<close>

definition factory_NewSigner :: "string \<Rightarrow> (string \<rightharpoonup> string) \<Rightarrow> auth_error + signer" where
  "factory_NewSigner name parameters =
     (if name = ''cloud'' then (case FromParameters parameters of Inl e \<Rightarrow> Inl e | Inr s \<Rightarrow> Inr (Bce s))
      else if name = ''noauth'' then Inr NoAuth
      else Inl (InvalidAuthSignerError name))"

definition signature_of :: "(string \<Rightarrow> string \<Rightarrow> string) \<Rightarrow> string \<Rightarrow> signer \<Rightarrow> string list \<Rightarrow> Request \<Rightarrow> string" where
  "signature_of hmac now sg keys r = (case sg of NoAuth \<Rightarrow> '''' | Bce s \<Rightarrow> GetSignature hmac now s keys r)"

section \<open>Normalised strings\<close>

definition norm_char :: "bool \<Rightarrow> char \<Rightarrow> string" where
  "norm_char skip c = (if unreserved c \<or> skip \<and> c = CHR ''/'' then [c] else [CHR ''%'', upperhex (of_char c div 16), upperhex (of_char c mod 16)])"

lemma upperhex_not_special: "n < 16 \<Longrightarrow> upperhex n \<noteq> CHR ''%'' \<and> upperhex n \<noteq> CHR ''+''"
  using unreserved_upperhex [of n] by (auto simp: unreserved_def)

lemma hex_chars: "upperhex 0 = CHR ''0''" "upperhex 2 = CHR ''2''" "upperhex 15 = CHR ''F''"
  by (simp_all add: upperhex_def char_of_def bit_iff_odd)

lemma replace_plus_escape: "replace_plus (QueryEscape s) = concat (map (norm_char False) s)"
proof -
  have space: "norm_char False (CHR '' '') = ''%20''" by (simp add: norm_char_def unreserved_def hex_chars)
  have "replace_plus (escape_char c) = norm_char False c" for c
    using upperhex_not_special char_div_16 [of c] space
    by (auto simp: replace_plus_def escape_char_def norm_char_def unreserved_def)
  moreover have "replace_plus (x @ y) = replace_plus x @ replace_plus y" for x y by (simp add: replace_plus_def)
  ultimately show ?thesis by (induction s) (auto simp: QueryEscape_def replace_plus_def)
qed

lemma upperhex_inj: "x < 16 \<Longrightarrow> y < 16 \<Longrightarrow> upperhex x = upperhex y \<longleftrightarrow> x = y"
  using unhex_upperhex [of x] unhex_upperhex [of y] by (metis option.inject)

lemma hex_2F: "x < 16 \<Longrightarrow> y < 16 \<Longrightarrow> upperhex x = CHR ''2'' \<and> upperhex y = CHR ''F'' \<longleftrightarrow> x = 2 \<and> y = 15"
  unfolding hex_chars(2,3) [symmetric] by (simp add: upperhex_inj)

lemma slash_code: "(of_char c :: nat) div 16 = 2 \<and> (of_char c :: nat) mod 16 = 15 \<longleftrightarrow> c = CHR ''/''"
proof
  assume h: "(of_char c :: nat) div 16 = 2 \<and> (of_char c :: nat) mod 16 = 15"
  have "(of_char c :: nat) = 16 * (of_char c div 16) + of_char c mod 16" by simp
  also have "\<dots> = 47" using h by simp
  finally have "(of_char c :: nat) = of_char (CHR ''/'')" by simp
  then show "c = CHR ''/''" by (simp only: of_char_eq_iff)
qed simp

lemma normalized: "GetNormalizedString s skip = concat (map (norm_char skip) s)"
proof (cases skip)
  case True
  have "replace_2F (norm_char False c @ t) = norm_char True c @ replace_2F t" for c t
    using upperhex_not_special char_div_16 [of c] hex_2F [of "of_char c div 16" "of_char c mod 16"] slash_code [of c]
    by (auto simp: norm_char_def unreserved_def)
  then have "replace_2F (concat (map (norm_char False) s)) = concat (map (norm_char True) s)" by (induction s) auto
  then show ?thesis using True by (simp add: GetNormalizedString_def replace_plus_escape)
qed (simp add: GetNormalizedString_def replace_plus_escape)

lemma norm_unescape: "QueryUnescape (GetNormalizedString s skip) = Some s"
proof -
  have "\<not> unreserved (CHR ''%'')" "\<not> unreserved (CHR ''+'')" by (simp_all add: unreserved_def)
  moreover have "16 * (of_char c div 16) + of_char c mod 16 = (of_char c :: nat)" for c :: char by simp
  ultimately have "QueryUnescape (norm_char skip c @ t) = map_option (\<lambda>t. c # t) (QueryUnescape t)" for c t
    by (auto simp: norm_char_def unhex_upperhex char_div_16)
  then show ?thesis unfolding normalized by (induction s) auto
qed

lemma norm_inj [simp]: "GetNormalizedString s skip = GetNormalizedString t skip \<longleftrightarrow> s = t"
  using norm_unescape by (metis option.inject)

lemma norm_chars: "c \<in> set (GetNormalizedString s skip) \<Longrightarrow> unreserved c \<or> c = CHR ''%'' \<or> c = CHR ''/''"
  unfolding normalized by (auto simp: norm_char_def unreserved_upperhex char_div_16 split: if_splits)

lemma norm_fresh [simp]:
  "CHR 0x0A \<notin> set (GetNormalizedString s skip)" "CHR ''&'' \<notin> set (GetNormalizedString s skip)" "CHR ''='' \<notin> set (GetNormalizedString s skip)"
  using norm_chars [of _ s skip] by (fastforce simp: unreserved_def)+

section \<open>What a signature covers\<close>

lemma sep_unique: "c \<notin> set a \<Longrightarrow> c \<notin> set a' \<Longrightarrow> a @ c # b = a' @ c # b' \<longleftrightarrow> a = a' \<and> b = b'"
proof (induction a arbitrary: a')
  case Nil
  then show ?case by (cases a') auto
next
  case (Cons x xs)
  then show ?case by (cases a') auto
qed

lemma join_unique:
  assumes "join_with [c] xs = join_with [c] ys" "\<And>p. p \<in> set xs \<union> set ys \<Longrightarrow> c \<notin> set p \<and> p \<noteq> []"
  shows "xs = ys"
proof (cases "xs = [] \<or> ys = []")
  case True
  have "join_with [c] ps = [] \<longleftrightarrow> ps = []" if "\<And>p. p \<in> set ps \<Longrightarrow> p \<noteq> []" for ps
  proof (cases ps)
    case (Cons p qs)
    then show ?thesis using that [of p] by (cases qs) auto
  qed simp
  then show ?thesis using True assms by (metis Un_iff join_with.simps(1))
next
  case False
  have "\<forall>p \<in> set xs. c \<notin> set p" "\<forall>p \<in> set ys. c \<notin> set p" using assms(2) by blast+
  then have "split_on c (join_with [c] xs) = xs" "split_on c (join_with [c] ys) = ys" using False split_on_join [of xs c] split_on_join [of ys c] by blast+
  then show ?thesis using assms(1) by metis
qed

definition first_value :: "string list \<Rightarrow> string" where
  "first_value vs = (case vs of [] \<Rightarrow> '''' | v # _ \<Rightarrow> v)"

lemma query_line_eq: "query_line kv = GetNormalizedString (fst kv) False @ CHR ''='' # GetNormalizedString (first_value (snd kv)) False"
  by (simp add: query_line_def first_value_def normalized Let_def)

text \<open>The parts of a request that a signature covers: the first value of each query parameter, and the signed headers.\<close>

definition signed_query :: "Request \<Rightarrow> (string \<times> string) set" where
  "signed_query r = (\<lambda>kv. (fst kv, first_value (snd kv))) ` set (filter (\<lambda>kv. fst kv \<noteq> ''authorization'') (case params_r r of Some ps \<Rightarrow> ps | None \<Rightarrow> []))"

definition signed_headers :: "bceSigner \<Rightarrow> string list \<Rightarrow> Request \<Rightarrow> (string \<times> string) set" where
  "signed_headers s keys r = (\<lambda>k. (ToLower k, header_Get k (headers_r r))) ` {k \<in> set keys. signed_header (ignoredHeaders s) (ToLower k)}"

definition plain_keys :: "string list \<Rightarrow> bool" where
  "plain_keys keys \<longleftrightarrow> list_all (\<lambda>k. CHR 0x0A \<notin> set (ToLower k) \<and> CHR '':'' \<notin> set (ToLower k)) keys"

lemma query_fresh: "CHR 0x0A \<notin> set (GetCanonicalQueryString q)"
proof -
  have "CHR 0x0A \<notin> set (join_with ''&'' ps)" if "\<forall>p \<in> set ps. CHR 0x0A \<notin> set p" for ps
    using that by (induction "''&''" ps rule: join_with.induct) auto
  then show ?thesis unfolding GetCanonicalQueryString_def by (simp add: query_line_eq)
qed

lemma query_binds:
  assumes "GetCanonicalQueryString (case params_r r of Some ps \<Rightarrow> ps | None \<Rightarrow> []) = GetCanonicalQueryString (case params_r r' of Some ps \<Rightarrow> ps | None \<Rightarrow> [])"
  shows "signed_query r = signed_query r'"
proof -
  let ?q = "\<lambda>r. filter (\<lambda>kv. fst kv \<noteq> ''authorization'') (case params_r r of Some ps \<Rightarrow> ps | None \<Rightarrow> [])"
  let ?line = "\<lambda>(k, v). GetNormalizedString k False @ CHR ''='' # GetNormalizedString v False"
  have "sort_by string_less (map query_line (?q r)) = sort_by string_less (map query_line (?q r'))"
    using assms unfolding GetCanonicalQueryString_def by (rule join_unique) (auto simp: query_line_eq)
  then have "set (map query_line (?q r)) = set (map query_line (?q r'))" by (metis set_sort_by)
  then have "?line ` signed_query r = ?line ` signed_query r'" unfolding signed_query_def by (simp add: image_image query_line_eq [abs_def])
  moreover have "inj ?line" by (rule injI) (auto simp: sep_unique)
  ultimately show ?thesis by (simp add: inj_image_eq_iff)
qed

lemma headers_bind:
  assumes "fst (GetCanonicalHeaders keys (headers_r r) (ignoredHeaders s)) = fst (GetCanonicalHeaders keys' (headers_r r') (ignoredHeaders s))" "plain_keys keys" "plain_keys keys'"
  shows "signed_headers s keys r = signed_headers s keys' r'"
proof -
  let ?v = "\<lambda>keys. filter (\<lambda>key. signed_header (ignoredHeaders s) (ToLower key)) keys"
  let ?line = "\<lambda>(k, v). k @ CHR '':'' # GetNormalizedString v False"
  have "sort_by string_less (map (header_line (headers_r r)) (?v keys)) = sort_by string_less (map (header_line (headers_r r')) (?v keys'))"
    using assms unfolding GetCanonicalHeaders_def Let_def fst_conv by (intro join_unique) (auto simp: header_line_def plain_keys_def list_all_iff)
  then have "set (map (header_line (headers_r r)) (?v keys)) = set (map (header_line (headers_r r')) (?v keys'))" by (metis set_sort_by)
  then have eq: "?line ` signed_headers s keys r = ?line ` signed_headers s keys' r'" unfolding signed_headers_def by (simp add: image_image header_line_def [abs_def])
  have "inj_on ?line (signed_headers s keys r \<union> signed_headers s keys' r')"
    using assms(2,3) by (intro inj_onI) (auto simp: signed_headers_def plain_keys_def list_all_iff sep_unique)
  with eq show ?thesis by (metis inj_on_Un_image_eq_iff)
qed

lemma upper_newline: "CHR 0x0A \<notin> set v \<Longrightarrow> CHR 0x0A \<notin> set (ToUpper v)"
proof -
  have "x = CHR 0x0A" if "to_upper_char x = CHR 0x0A" for x
  proof -
    have "(of_char (to_upper_char x) :: nat) = 10" using that by simp
    then have "(of_char x :: nat) = of_char (CHR 0x0A)" by (simp add: to_upper_char_def split: if_splits)
    then show ?thesis by (simp only: of_char_eq_iff)
  qed
  then show "CHR 0x0A \<notin> set v \<Longrightarrow> ?thesis" by (auto simp: ToUpper_def) metis
qed

text \<open>C31: What a signature covers. When two requests have the same signed text, their verbs differ at most in letter case, they have the same path, the same
  first value of every parameter that was given to the request and is not called \<open>authorization\<close>, and the same values of the signed headers. This is for verbs
  without a line break and header names with neither a line break nor a colon. Not covered are the further values of a parameter, the parameter \<open>timeout\<close> that
  \<open>URL\<close> adds, the headers that are not signed, and the body.\<close>

theorem signature_binds:
  assumes "canonical_request s keys r = canonical_request s keys' r'" "CHR 0x0A \<notin> set (verb_r r)" "CHR 0x0A \<notin> set (verb_r r')" "plain_keys keys" "plain_keys keys'"
  shows "ToUpper (verb_r r) = ToUpper (verb_r r') \<and> Path_u (rest_URL r) = Path_u (rest_URL r') \<and> signed_query r = signed_query r' \<and> signed_headers s keys r = signed_headers s keys' r'"
  using assms query_binds [of r r'] headers_bind [of keys r s keys' r']
  by (simp add: canonical_request_def sep_unique upper_newline query_fresh)

theorem signature_binds_witness:
  "Path_u (rest_URL demo_request) = Path_u (rest_URL (rest_Timeout 5 demo_request))"
proof -
  have "canonical_request (NewSigner ''ak'' ''sk'') [''Host''] demo_request = canonical_request (NewSigner ''ak'' ''sk'') [''Host''] (rest_Timeout 5 demo_request)"
    by (simp add: canonical_request_def rest_Timeout_def rest_URL_def Let_def)
  moreover have "verb_r (rest_Timeout 5 demo_request) = ''POST''" by (simp add: rest_Timeout_def demo_fields)
  moreover have "plain_keys [''Host'']" by (simp add: plain_keys_def ToLower_def char_of_def bit_iff_odd)
  ultimately show ?thesis using signature_binds [of "NewSigner ''ak'' ''sk''" "[''Host'']" demo_request "[''Host'']" "rest_Timeout 5 demo_request"] demo_fields(3) by simp
qed

text \<open>The order in which Go visits the header map does not matter.\<close>

lemma header_line_inj: "plain_keys keys \<Longrightarrow> distinct (map ToLower keys) \<Longrightarrow> distinct (map (header_line h) keys)"
proof (induction keys)
  case (Cons k ks)
  have "header_line h k \<noteq> header_line h j" if "j \<in> set ks" for j
  proof
    assume "header_line h k = header_line h j"
    then have "ToLower k = ToLower j" using Cons.prems(1) that by (auto simp: header_line_def plain_keys_def list_all_iff sep_unique)
    then show False using Cons.prems(2) that by auto
  qed
  then show ?case using Cons by (auto simp: plain_keys_def)
qed simp

lemma canonical_headers_order:
  assumes "set keys = set keys'" "plain_keys keys" "plain_keys keys'" "distinct (map ToLower keys)" "distinct (map ToLower keys')"
  shows "GetCanonicalHeaders keys h r = GetCanonicalHeaders keys' h r"
proof -
  let ?v = "\<lambda>keys. filter (\<lambda>key. signed_header r (ToLower key)) keys"
  have d: "distinct (map ToLower (?v ks)) \<and> plain_keys (?v ks)" if "plain_keys ks" "distinct (map ToLower ks)" for ks
    using that by (auto simp: distinct_map plain_keys_def list_all_iff inj_on_def)
  have same: "sort_by string_less (map f (?v keys)) = sort_by string_less (map f (?v keys'))"
    if "distinct (map f (?v keys))" "distinct (map f (?v keys'))" for f :: "string \<Rightarrow> string"
    by (rule bytes.sorted_unique) (use assms(1) that in \<open>auto intro: bytes.sort_by_sorted\<close>)
  show ?thesis unfolding GetCanonicalHeaders_def Let_def
    using same [of ToLower] same [of "header_line h"] d [OF assms(2,4)] d [OF assms(3,5)] header_line_inj by simp
qed

end
