(* ===== verification/Mux.thy ===== *)
theory Mux
  imports GoSort GoStrings "HOL-Library.AList"
begin

text \<open>
  The router of the servers, \<open>src/pkg/server/mux/pathrecorder.go\<close>. A handler is a value of a type parameter \<open>'h\<close>, since the router only
  chooses which one serves a request; \<open>nf\<close> is the handler of \<open>http.NotFoundHandler()\<close>. A section under the lock is one operation. The
  theory shows that the sorted table of prefixes implements the choice of the longest registered prefix.
\<close>

section \<open>The router\<close>

record 'h prefixHandler =
  prefix_p :: string
  handler_p :: 'h

record 'h pathHandler =
  muxName :: string
  pathToHandler_h :: "string \<rightharpoonup> 'h"
  prefixHandlers :: "'h prefixHandler list"
  notFoundHandler_h :: 'h

text \<open>The prefixes are iterated, so their map is an association list; \<open>nil\<close> as \<open>notFoundHandler\<close> is \<open>None\<close>.\<close>

record 'h PathRecorderMux =
  name_m :: string
  notFoundHandler_m :: "'h option"
  pathToHandler :: "string \<rightharpoonup> 'h"
  prefixToHandler :: "(string \<times> 'h) list"
  mux :: "'h pathHandler"
  exposedPaths :: "string list"
  pathStacks :: "string \<rightharpoonup> string"

definition NewPathRecorderMux :: "'h \<Rightarrow> string \<Rightarrow> 'h PathRecorderMux" where
  "NewPathRecorderMux nf name =
     \<lparr>name_m = name, notFoundHandler_m = None, pathToHandler = Map.empty, prefixToHandler = [],
      mux = \<lparr>muxName = '''', pathToHandler_h = Map.empty, prefixHandlers = [], notFoundHandler_h = nf\<rparr>,
      exposedPaths = [], pathStacks = Map.empty\<rparr>"

definition ListedPaths :: "'h PathRecorderMux \<Rightarrow> string list" where
  "ListedPaths m = sort_by string_less (exposedPaths m)"

text \<open>A path that is registered twice is only reported; \<open>stack\<close> is the text of \<open>debug.Stack()\<close>.\<close>

definition trackCallers :: "string \<Rightarrow> string \<Rightarrow> 'h PathRecorderMux \<Rightarrow> 'h PathRecorderMux" where
  "trackCallers stack path m = m\<lparr>pathStacks := (pathStacks m)(path \<mapsto> stack)\<rparr>"

definition prefix_less :: "string \<Rightarrow> string \<Rightarrow> bool" where
  "prefix_less p q =
     (let lhsNumParts = count_list p (CHR ''/''); rhsNumParts = count_list q (CHR ''/'')
      in if lhsNumParts \<noteq> rhsNumParts then lhsNumParts < rhsNumParts
         else if length p \<noteq> length q then length p < length q
         else string_less p q)"

definition refreshMuxLocked :: "'h \<Rightarrow> 'h PathRecorderMux \<Rightarrow> 'h PathRecorderMux" where
  "refreshMuxLocked nf m =
     (let keys = sort_by string_less (map fst (prefixToHandler m));
          prefixes = sort_by (\<lambda>p q. prefix_less q p) keys
      in m\<lparr>mux := \<lparr>muxName = name_m m, pathToHandler_h = pathToHandler m,
                   prefixHandlers = map (\<lambda>p. \<lparr>prefix_p = p, handler_p = the (map_of (prefixToHandler m) p)\<rparr>) prefixes,
                   notFoundHandler_h = (case notFoundHandler_m m of None \<Rightarrow> nf | Some h \<Rightarrow> h)\<rparr>\<rparr>)"

definition NotFoundHandler :: "'h \<Rightarrow> 'h option \<Rightarrow> 'h PathRecorderMux \<Rightarrow> 'h PathRecorderMux" where
  "NotFoundHandler nf h m = refreshMuxLocked nf (m\<lparr>notFoundHandler_m := h\<rparr>)"

definition Unregister :: "'h \<Rightarrow> string \<Rightarrow> 'h PathRecorderMux \<Rightarrow> 'h PathRecorderMux" where
  "Unregister nf path m =
     refreshMuxLocked nf (m\<lparr>pathToHandler := (pathToHandler m)(path := None), prefixToHandler := AList.delete path (prefixToHandler m),
                            pathStacks := (pathStacks m)(path := None), exposedPaths := remove1 path (exposedPaths m)\<rparr>)"

definition Handle :: "'h \<Rightarrow> string \<Rightarrow> string \<Rightarrow> 'h \<Rightarrow> 'h PathRecorderMux \<Rightarrow> 'h PathRecorderMux" where
  "Handle nf stack path h m =
     (let m1 = trackCallers stack path m
      in refreshMuxLocked nf (m1\<lparr>exposedPaths := exposedPaths m1 @ [path], pathToHandler := (pathToHandler m1)(path \<mapsto> h)\<rparr>))"

definition UnlistedHandle :: "'h \<Rightarrow> string \<Rightarrow> string \<Rightarrow> 'h \<Rightarrow> 'h PathRecorderMux \<Rightarrow> 'h PathRecorderMux" where
  "UnlistedHandle nf stack path h m =
     (let m1 = trackCallers stack path m in refreshMuxLocked nf (m1\<lparr>pathToHandler := (pathToHandler m1)(path \<mapsto> h)\<rparr>))"

definition HandlePrefix :: "'h \<Rightarrow> string \<Rightarrow> string \<Rightarrow> 'h \<Rightarrow> 'h PathRecorderMux \<Rightarrow> 'h PathRecorderMux outcome" where
  "HandlePrefix nf stack path h m =
     (if \<not> HasSuffix path ''/'' then Panic ''must end in a trailing slash''
      else let m1 = trackCallers stack path m
           in Value (refreshMuxLocked nf (m1\<lparr>exposedPaths := exposedPaths m1 @ [path], prefixToHandler := AList.update path h (prefixToHandler m1)\<rparr>)))"

definition UnlistedHandlePrefix :: "'h \<Rightarrow> string \<Rightarrow> string \<Rightarrow> 'h \<Rightarrow> 'h PathRecorderMux \<Rightarrow> 'h PathRecorderMux outcome" where
  "UnlistedHandlePrefix nf stack path h m =
     (if \<not> HasSuffix path ''/'' then Panic ''must end in a trailing slash''
      else let m1 = trackCallers stack path m
           in Value (refreshMuxLocked nf (m1\<lparr>prefixToHandler := AList.update path h (prefixToHandler m1)\<rparr>)))"

text \<open>Serving a request: the handler that is called.\<close>

definition pathHandler_ServeHTTP :: "'h pathHandler \<Rightarrow> string \<Rightarrow> 'h" where
  "pathHandler_ServeHTTP p path =
     (case pathToHandler_h p path of
        Some h \<Rightarrow> h
      | None \<Rightarrow> (case find (\<lambda>ph. HasPrefix path (prefix_p ph)) (prefixHandlers p) of
          Some ph \<Rightarrow> handler_p ph
        | None \<Rightarrow> notFoundHandler_h p))"

definition mux_ServeHTTP :: "'h PathRecorderMux \<Rightarrow> string \<Rightarrow> 'h" where
  "mux_ServeHTTP m path = pathHandler_ServeHTTP (mux m) path"

text \<open>The operations of a router as data.\<close>

datatype 'h mux_op =
  OpNotFound "'h option"
| OpUnregister string
| OpHandle string string 'h
| OpUnlistedHandle string string 'h
| OpHandlePrefix string string 'h
| OpUnlistedHandlePrefix string string 'h

fun mux_step :: "'h \<Rightarrow> 'h mux_op \<Rightarrow> 'h PathRecorderMux \<Rightarrow> 'h PathRecorderMux outcome" where
  "mux_step nf (OpNotFound h) m = Value (NotFoundHandler nf h m)"
| "mux_step nf (OpUnregister p) m = Value (Unregister nf p m)"
| "mux_step nf (OpHandle st p h) m = Value (Handle nf st p h m)"
| "mux_step nf (OpUnlistedHandle st p h) m = Value (UnlistedHandle nf st p h m)"
| "mux_step nf (OpHandlePrefix st p h) m = HandlePrefix nf st p h m"
| "mux_step nf (OpUnlistedHandlePrefix st p h) m = UnlistedHandlePrefix nf st p h m"

fun mux_run :: "'h \<Rightarrow> 'h mux_op list \<Rightarrow> 'h PathRecorderMux \<Rightarrow> 'h PathRecorderMux outcome" where
  "mux_run nf [] m = Value m"
| "mux_run nf (x # xs) m = obind (mux_step nf x m) (mux_run nf xs)"

section \<open>Which prefix comes first\<close>

interpretation prio: less_order "\<lambda>p q. prefix_less q p"
  by unfold_locales (auto simp: prefix_less_def Let_def split: if_splits intro: string_less_trans dest: string_less_total)

text \<open>Of two prefixes of one path the longer one has at least as many slashes, so it comes first.\<close>

lemma prefix_less_longer:
  assumes "HasPrefix path p" "HasPrefix path q" "length p < length q"
  shows "prefix_less p q"
proof -
  have "take (length p) q = p" using assms by (metis HasPrefix_def min.absorb3 take_take)
  then obtain r where q: "q = p @ r" by (metis append_take_drop_id)
  then show ?thesis using assms(3) by (simp add: prefix_less_def Let_def)
qed

lemma same_length_prefix: "HasPrefix path p \<Longrightarrow> HasPrefix path q \<Longrightarrow> length p = length q \<Longrightarrow> p = q"
  by (metis HasPrefix_def)

text \<open>The first entry of a sorted list that matches is the longest one that does.\<close>

lemma first_is_longest:
  assumes "sorted_wrt (\<lambda>p q. prefix_less q p) ps" "p \<in> set ps" "HasPrefix path p"
    and "\<And>q. q \<in> set ps \<Longrightarrow> HasPrefix path q \<Longrightarrow> length q \<le> length p"
  shows "find (HasPrefix path) ps = Some p"
  using assms
proof (induction ps)
  case (Cons x xs)
  show ?case
  proof (cases "HasPrefix path x")
    case True
    have "x = p"
    proof (rule ccontr)
      assume ne: "x \<noteq> p"
      then have "prefix_less p x" using Cons.prems(1,2) by auto
      moreover have "length x < length p"
        using Cons.prems(4) [of x] True ne same_length_prefix [OF True Cons.prems(3)] by fastforce
      ultimately show False using prefix_less_longer [OF True Cons.prems(3)] prio.less_irrefl prio.less_trans by blast
    qed
    then show ?thesis using True by simp
  next
    case False
    then have "p \<in> set xs" using Cons.prems(2,3) by auto
    then show ?thesis using Cons False by simp
  qed
qed simp

section \<open>The abstract router\<close>

text \<open>A table of exact paths, a table of prefixes and a default. A request goes to the handler of its path, else to that of the longest registered
  prefix of the path, else to the default.\<close>

record 'h routes =
  exact_r :: "string \<rightharpoonup> 'h"
  prefix_r :: "string \<rightharpoonup> 'h"
  default_r :: "'h option"

definition longest_prefix :: "(string \<rightharpoonup> 'h) \<Rightarrow> string \<Rightarrow> 'h option" where
  "longest_prefix t path = fold (\<lambda>n best. case t (take n path) of Some h \<Rightarrow> Some h | None \<Rightarrow> best) [0..<Suc (length path)] None"

definition route :: "'h \<Rightarrow> 'h routes \<Rightarrow> string \<Rightarrow> 'h" where
  "route nf r path =
     (case exact_r r path of
        Some h \<Rightarrow> h
      | None \<Rightarrow> (case longest_prefix (prefix_r r) path of
          Some h \<Rightarrow> h
        | None \<Rightarrow> (case default_r r of Some h \<Rightarrow> h | None \<Rightarrow> nf)))"

fun route_step :: "'h mux_op \<Rightarrow> 'h routes \<Rightarrow> 'h routes" where
  "route_step (OpNotFound h) r = r\<lparr>default_r := h\<rparr>"
| "route_step (OpUnregister p) r = r\<lparr>exact_r := (exact_r r)(p := None), prefix_r := (prefix_r r)(p := None)\<rparr>"
| "route_step (OpHandle _ p h) r = r\<lparr>exact_r := (exact_r r)(p \<mapsto> h)\<rparr>"
| "route_step (OpUnlistedHandle _ p h) r = r\<lparr>exact_r := (exact_r r)(p \<mapsto> h)\<rparr>"
| "route_step (OpHandlePrefix _ p h) r = r\<lparr>prefix_r := (prefix_r r)(p \<mapsto> h)\<rparr>"
| "route_step (OpUnlistedHandlePrefix _ p h) r = r\<lparr>prefix_r := (prefix_r r)(p \<mapsto> h)\<rparr>"

definition no_routes :: "'h routes" where
  "no_routes = \<lparr>exact_r = Map.empty, prefix_r = Map.empty, default_r = None\<rparr>"

fun slashed :: "'h mux_op \<Rightarrow> bool" where
  "slashed (OpHandlePrefix _ p _) = HasSuffix p ''/''"
| "slashed (OpUnlistedHandlePrefix _ p _) = HasSuffix p ''/''"
| "slashed _ = True"

lemma longest_prefix_None: "longest_prefix t path = None \<longleftrightarrow> (\<forall>p. HasPrefix path p \<longrightarrow> t p = None)"
proof -
  have "fold (\<lambda>n best. case t (take n path) of Some h \<Rightarrow> Some h | None \<Rightarrow> best) [0..<k] None = None \<longleftrightarrow> (\<forall>n < k. t (take n path) = None)" for k
    by (induction k) (auto simp: less_Suc_eq split: option.splits)
  moreover have "(\<forall>p. HasPrefix path p \<longrightarrow> t p = None) \<longleftrightarrow> (\<forall>n < Suc (length path). t (take n path) = None)"
    by (auto simp: HasPrefix_def) (metis length_take less_Suc_eq_le min.cobounded1)
  ultimately show ?thesis by (simp add: longest_prefix_def del: upt_Suc)
qed

lemma longest_prefix_empty: "longest_prefix Map.empty path = None"
  by (simp add: longest_prefix_None)

lemma longest_prefix_Some:
  assumes "longest_prefix t path = Some h"
  obtains p where "HasPrefix path p" "t p = Some h" "\<And>q. HasPrefix path q \<Longrightarrow> t q \<noteq> None \<Longrightarrow> length q \<le> length p"
proof -
  have "\<exists>n < k. t (take n path) = Some h \<and> (\<forall>i < k. n < i \<longrightarrow> t (take i path) = None)"
    if "fold (\<lambda>n best. case t (take n path) of Some h \<Rightarrow> Some h | None \<Rightarrow> best) [0..<k] None = Some h" for k
    using that
  proof (induction k)
    case (Suc k)
    then show ?case by (cases "t (take k path)") (auto simp: less_Suc_eq intro: less_SucI)
  qed simp
  from this [OF assms [unfolded longest_prefix_def]]
  obtain n where n: "n \<le> length path" "t (take n path) = Some h" "\<And>i. i \<le> length path \<Longrightarrow> n < i \<Longrightarrow> t (take i path) = None"
    by (auto simp: less_Suc_eq_le)
  show thesis
  proof (rule that)
    show "HasPrefix path (take n path)" using n(1) by (simp add: HasPrefix_def)
    show "length q \<le> length (take n path)" if "HasPrefix path q" "t q \<noteq> None" for q
      using n(1,3) that by (metis HasPrefix_def length_take min.absorb2 min.cobounded1 not_le_imp_less)
  qed (rule n(2))
qed

section \<open>Refinement\<close>

lemma find_map: "find P (map f xs) = map_option f (find (P \<circ> f) xs)"
  by (induction xs) auto

lemma sorted_prefixes:
  assumes "distinct (map fst (prefixToHandler m))"
  shows "prefixHandlers (mux (refreshMuxLocked nf m))
      = map (\<lambda>p. \<lparr>prefix_p = p, handler_p = the (map_of (prefixToHandler m) p)\<rparr>) (sort_by (\<lambda>p q. prefix_less q p) (map fst (prefixToHandler m)))"
proof -
  have "distinct (sort_by string_less (map fst (prefixToHandler m)))"
    using assms by (metis mset_eq_imp_distinct_iff mset_sort_by)
  then have "sort_by (\<lambda>p q. prefix_less q p) (sort_by string_less (map fst (prefixToHandler m))) = sort_by (\<lambda>p q. prefix_less q p) (map fst (prefixToHandler m))"
    using prio.sort_by_unique [OF assms] prio.sort_by_sorted by simp
  then show ?thesis by (simp add: refreshMuxLocked_def Let_def)
qed

lemma refresh_serves:
  assumes "distinct (map fst (prefixToHandler m))"
  shows "mux_ServeHTTP (refreshMuxLocked nf m) path
      = route nf \<lparr>exact_r = pathToHandler m, prefix_r = map_of (prefixToHandler m), default_r = notFoundHandler_m m\<rparr> path"
proof -
  let ?t = "map_of (prefixToHandler m)" and ?ps = "sort_by (\<lambda>p q. prefix_less q p) (map fst (prefixToHandler m))"
  have sorted: "sorted_wrt (\<lambda>p q. prefix_less q p) ?ps" by (rule prio.sort_by_sorted [OF assms])
  have mem: "p \<in> set ?ps \<longleftrightarrow> ?t p \<noteq> None" for p by (auto simp: map_of_eq_None_iff)
  have first: "find (\<lambda>ph. HasPrefix path (prefix_p ph)) (prefixHandlers (mux (refreshMuxLocked nf m)))
      = map_option (\<lambda>p. \<lparr>prefix_p = p, handler_p = the (?t p)\<rparr>) (find (HasPrefix path) ?ps)"
    unfolding sorted_prefixes [OF assms] by (simp add: find_map comp_def)
  show ?thesis
  proof (cases "longest_prefix ?t path")
    case None
    then have "find (HasPrefix path) ?ps = None" using mem by (auto simp: longest_prefix_None find_None_iff)
    then show ?thesis using first None
      by (simp add: mux_ServeHTTP_def pathHandler_ServeHTTP_def route_def) (simp add: refreshMuxLocked_def Let_def split: option.splits)
  next
    case (Some h)
    from longest_prefix_Some [OF Some]
    obtain p where p: "HasPrefix path p" "?t p = Some h" "\<And>q. HasPrefix path q \<Longrightarrow> ?t q \<noteq> None \<Longrightarrow> length q \<le> length p"
      by blast
    have "find (HasPrefix path) ?ps = Some p" by (rule first_is_longest [OF sorted]) (use p mem in auto)
    then show ?thesis using first Some p(2)
      by (simp add: mux_ServeHTTP_def pathHandler_ServeHTTP_def route_def) (simp add: refreshMuxLocked_def Let_def split: option.splits)
  qed
qed

definition agrees :: "'h \<Rightarrow> 'h PathRecorderMux \<Rightarrow> 'h routes \<Rightarrow> bool" where
  "agrees nf m r \<longleftrightarrow> distinct (map fst (prefixToHandler m)) \<and> exact_r r = pathToHandler m \<and> prefix_r r = map_of (prefixToHandler m)
     \<and> default_r r = notFoundHandler_m m \<and> mux_ServeHTTP m = route nf r"

lemma refreshed_agrees:
  assumes "distinct (map fst (prefixToHandler m))"
  shows "agrees nf (refreshMuxLocked nf m) \<lparr>exact_r = pathToHandler m, prefix_r = map_of (prefixToHandler m), default_r = notFoundHandler_m m\<rparr>"
  using assms refresh_serves [OF assms] by (simp add: agrees_def fun_eq_iff) (simp add: refreshMuxLocked_def Let_def)

lemma new_agrees: "agrees nf (NewPathRecorderMux nf name) no_routes"
  by (simp add: agrees_def NewPathRecorderMux_def no_routes_def fun_eq_iff mux_ServeHTTP_def pathHandler_ServeHTTP_def route_def longest_prefix_empty)

lemma step_agrees:
  assumes "agrees nf m r"
  shows "slashed x \<longleftrightarrow> (\<exists>m'. mux_step nf x m = Value m')" and "mux_step nf x m = Value m' \<Longrightarrow> agrees nf m' (route_step x r)"
proof -
  note d = assms [unfolded agrees_def]
  show "slashed x \<longleftrightarrow> (\<exists>m'. mux_step nf x m = Value m')"
    by (cases x) (auto simp: HandlePrefix_def UnlistedHandlePrefix_def Let_def)
  assume s: "mux_step nf x m = Value m'"
  then obtain m1 where m1: "m' = refreshMuxLocked nf m1" and dist: "distinct (map fst (prefixToHandler m1))"
    and r: "route_step x r = \<lparr>exact_r = pathToHandler m1, prefix_r = map_of (prefixToHandler m1), default_r = notFoundHandler_m m1\<rparr>"
    using d by (cases x) (auto simp: NotFoundHandler_def Unregister_def Handle_def UnlistedHandle_def HandlePrefix_def UnlistedHandlePrefix_def
        trackCallers_def Let_def update_conv' delete_conv' map_of_delete AList.distinct_update AList.distinct_delete split: if_splits)
  then show "agrees nf m' (route_step x r)" using refreshed_agrees [OF dist] by simp
qed

lemma run_agrees:
  "agrees nf m0 r \<Longrightarrow> ((\<exists>m. mux_run nf xs m0 = Value m) \<longleftrightarrow> list_all slashed xs) \<and> (\<forall>m. mux_run nf xs m0 = Value m \<longrightarrow> agrees nf m (fold route_step xs r))"
proof (induction xs arbitrary: m0 r)
  case (Cons x xs)
  note st = step_agrees [OF Cons.prems, of x]
  show ?case
  proof (cases "mux_step nf x m0")
    case (Value m1)
    then show ?thesis using st(1) Cons.IH [OF st(2) [OF Value]] by auto
  qed (use st(1) in simp)
qed simp

text \<open>C25: The router implements the abstract one. After any sequence of registrations and removals every request goes where the tables it describes say: to the
  handler of the exact path, else to that of the longest registered prefix, else to the default. The table sorted by slashes, length and text gives the
  longest prefix.\<close>

theorem mux_routes_longest:
  assumes "mux_run nf xs (NewPathRecorderMux nf name) = Value m"
  shows "mux_ServeHTTP m path = route nf (fold route_step xs no_routes) path"
  using run_agrees [OF new_agrees, of nf xs name] assms by (simp add: agrees_def)

theorem mux_routes_longest_witness:
  "mux_ServeHTTP (the_value (mux_run (0::nat) [OpHandlePrefix [] ''/p/'' 1, OpHandle [] ''/p/x'' 2, OpUnlistedHandlePrefix [] ''/p/q/'' 3]
     (NewPathRecorderMux 0 ''srv''))) ''/p/q/r'' = 3"
proof -
  let ?xs = "[OpHandlePrefix [] ''/p/'' 1, OpHandle [] ''/p/x'' 2, OpUnlistedHandlePrefix [] ''/p/q/'' (3::nat)]"
  have "list_all slashed ?xs" by (simp add: HasSuffix_def)
  then obtain m where m: "mux_run 0 ?xs (NewPathRecorderMux 0 ''srv'') = Value m" using run_agrees [OF new_agrees, of 0 ?xs "''srv''"] by blast
  have "route 0 (fold route_step ?xs no_routes) ''/p/q/r'' = 3" by (simp add: route_def no_routes_def longest_prefix_def upt_rec)
  then show ?thesis using mux_routes_longest [OF m] m by simp
qed

end
