(* ===== verification/ServerChain.thy ===== *)
theory ServerChain
  imports GoHttp GoErrors
begin

text \<open>
  The filters every request of a server passes, \<open>src/pkg/server/filters\<close> with \<open>src/pkg/util/waitgroup\<close>, composed as \<open>DefaultBuildHandlerChain\<close>
  of \<open>src/pkg/server/config.go\<close> composes them: the timeout outside, then the wait group, the limit of requests in flight and the request
  identifier, and inside them the handler. Requests run at the same time, so the chain is a state machine: each step is one
  operation of one request on the shared state (the wait group, the channel of the limit, the timeout variable) or a write of its handler.
\<close>

section \<open>The wait group\<close>

record SafeWaitGroup =
  wg_count :: int
  wait_wg :: bool

definition wg_Add :: "int \<Rightarrow> SafeWaitGroup \<Rightarrow> (string + SafeWaitGroup) outcome" where
  "wg_Add delta g =
     (if wait_wg g \<and> 0 < delta then Value (Inl ''add with postive delta after Wait is forbidden'')
      else if wg_count g + delta < 0 then Panic ''sync: negative WaitGroup counter''
      else Value (Inr (g\<lparr>wg_count := wg_count g + delta\<rparr>)))"

definition wg_Done :: "SafeWaitGroup \<Rightarrow> SafeWaitGroup outcome" where
  "wg_Done g = (if wg_count g - 1 < 0 then Panic ''sync: negative WaitGroup counter'' else Value (g\<lparr>wg_count := wg_count g - 1\<rparr>))"

text \<open>\<open>Wait\<close> sets the flag and then returns as soon as the counter is zero.\<close>

definition wg_Wait :: "SafeWaitGroup \<Rightarrow> SafeWaitGroup" where
  "wg_Wait g = g\<lparr>wait_wg := True\<rparr>"

definition wait_returns :: "SafeWaitGroup \<Rightarrow> bool" where
  "wait_returns g \<longleftrightarrow> wait_wg g \<and> wg_count g = 0"

section \<open>The writer of a request that may time out\<close>

record baseTimeoutWriter =
  w_tw :: http_writer
  timedOut :: bool
  wroteHeader :: bool
  hijacked :: bool

definition newTimeoutWriter :: "http_writer \<Rightarrow> baseTimeoutWriter" where
  "newTimeoutWriter w = \<lparr>w_tw = w, timedOut = False, wroteHeader = False, hijacked = False\<rparr>"

text \<open>A change the handler makes to the header map \<open>Header\<close> returns; after the timeout it gets a map of its own.\<close>

definition tw_Header :: "(http_header \<Rightarrow> http_header) \<Rightarrow> baseTimeoutWriter \<Rightarrow> baseTimeoutWriter" where
  "tw_Header f tw = (if timedOut tw then tw else tw\<lparr>w_tw := w_header f (w_tw tw)\<rparr>)"

definition tw_Write :: "string \<Rightarrow> baseTimeoutWriter \<Rightarrow> string option \<times> baseTimeoutWriter" where
  "tw_Write p tw =
     (if timedOut tw then (Some ''http: Handler timeout'', tw)
      else if hijacked tw then (Some ''http: connection has been hijacked'', tw)
      else (None, tw\<lparr>wroteHeader := True, w_tw := w_Write p (w_tw tw)\<rparr>))"

definition tw_WriteHeader :: "int \<Rightarrow> baseTimeoutWriter \<Rightarrow> baseTimeoutWriter" where
  "tw_WriteHeader code tw =
     (if timedOut tw \<or> wroteHeader tw \<or> hijacked tw then tw
      else tw\<lparr>wroteHeader := True, w_tw := w_WriteHeader code (w_tw tw)\<rparr>)"

text \<open>\<open>Flush\<close> does not count as a write: it leaves \<open>wroteHeader\<close> alone, though a flush before the first write sends the header with status 200.\<close>

definition tw_Flush :: "baseTimeoutWriter \<Rightarrow> baseTimeoutWriter" where
  "tw_Flush tw = (if timedOut tw then tw else tw\<lparr>w_tw := w_WriteHeader 200 (w_tw tw)\<rparr>)"

text \<open>The timeout: a reply when the handler has written nothing, else the panic that ends the connection, which is the result \<open>True\<close>.\<close>

definition tw_timeout :: "string \<Rightarrow> baseTimeoutWriter \<Rightarrow> bool \<times> baseTimeoutWriter" where
  "tw_timeout err tw =
     (let tw1 = tw\<lparr>timedOut := True\<rparr>
      in if \<not> wroteHeader tw1 \<and> \<not> hijacked tw1
         then (False, tw1\<lparr>w_tw := w_Write (err @ [CHR 0x0A]) (w_WriteHeader 504 (w_tw tw1))\<rparr>)
         else (True, tw1))"

definition tw_Error :: "string \<Rightarrow> int \<Rightarrow> baseTimeoutWriter \<Rightarrow> baseTimeoutWriter" where
  "tw_Error msg code tw =
     snd (tw_Write (msg @ [CHR 0x0A]) (tw_WriteHeader code
       (tw_Header (header_Set ''X-Content-Type-Options'' ''nosniff'' \<circ> header_Set ''Content-Type'' ''text/plain; charset=utf-8'') tw)))"

section \<open>The chain\<close>

text \<open>Where the goroutine of a request is: before the wait group, counted and before the limit, in the handler, behind it, or ended; and what the
  goroutine of the connection has seen: still waiting, the end of the handler, or the timeout with a reply or with a killed connection.\<close>

datatype chain_phase = AtWaitGroup | AtLimit | InHandler | AtDone | Ended

datatype outer_state = Waiting | Answered | TimedOut | Killed

record chain_request =
  phase :: chain_phase
  outer :: outer_state
  tw :: baseTimeoutWriter
  header_cr :: http_header
  after_cr :: int64

record chain_config =
  MaxRequestsInFlight :: int
  RequestTimeout :: int64
  marshal_cc :: "BasicError \<Rightarrow> string"
  seconds_cc :: "int64 \<Rightarrow> string"

text \<open>The body of the reply to a request that timed out; \<open>seconds_cc\<close> is the text \<open>%.2f\<close> makes of a duration.\<close>

definition timeout_error :: "chain_config \<Rightarrow> int64 \<Rightarrow> string" where
  "timeout_error c d = MarshalJSON (marshal_cc c) (NewRequestTimeoutException (marshal_cc c) ''timeout'' (seconds_cc c d) None)"

record chain =
  timeout_v :: int64
  group :: SafeWaitGroup
  inflight :: nat
  requests :: "chain_request list"

text \<open>\<open>make(chan bool, limit)\<close> panics for a negative limit.\<close>

definition new_chain :: "chain_config \<Rightarrow> chain outcome" where
  "new_chain c = (if MaxRequestsInFlight c < 0 then Panic ''makechan: size out of range''
     else Value \<lparr>timeout_v = RequestTimeout c, group = \<lparr>wg_count = 0, wait_wg = False\<rparr>, inflight = 0, requests = []\<rparr>)"

text \<open>The timeout of a request: its query parameter \<open>timeout\<close> as \<open>time.ParseDuration\<close> reads it (\<open>None\<close> when it is absent or cannot be
  read) is assigned to the variable all requests share.\<close>

definition timeoutFunc :: "int64 option \<Rightarrow> int64 \<Rightarrow> int64" where
  "timeoutFunc query timeout = (case query of Some d \<Rightarrow> d | None \<Rightarrow> timeout)"

definition arrive :: "chain_config \<Rightarrow> int64 option \<Rightarrow> http_header \<Rightarrow> chain \<Rightarrow> chain" where
  "arrive c query h s =
     (let d = (if RequestTimeout c = 0 then 0 else timeoutFunc query (timeout_v s))
      in s\<lparr>timeout_v := d,
           requests := requests s @ [\<lparr>phase = AtWaitGroup, outer = Waiting, tw = newTimeoutWriter new_writer, header_cr = h, after_cr = d\<rparr>]\<rparr>)"

definition put_request :: "nat \<Rightarrow> chain_request \<Rightarrow> chain \<Rightarrow> chain" where
  "put_request i q s = s\<lparr>requests := (requests s)[i := q]\<rparr>"

text \<open>\<open>WithWaitGroup\<close> up to its call of the next handler.\<close>

definition enter_group :: "nat \<Rightarrow> chain \<Rightarrow> chain outcome" where
  "enter_group i s =
     (let q = requests s ! i in
      obind (wg_Add 1 (group s)) (\<lambda>r. case r of
        Inl _ \<Rightarrow> Value (put_request i (q\<lparr>tw := tw_Error ''Apisever is shutting down.'' 500 (tw q), phase := Ended\<rparr>) s)
      | Inr g \<Rightarrow> Value (put_request i (q\<lparr>phase := AtLimit\<rparr>) (s\<lparr>group := g\<rparr>))))"

definition tooManyRequests :: "baseTimeoutWriter \<Rightarrow> baseTimeoutWriter" where
  "tooManyRequests t = tw_Error ''Too many requests, please try again later.'' 503 (tw_Header (header_Set ''Retry-After'' ''1'') t)"

text \<open>\<open>WithRequestID\<close>; \<open>uuid\<close> is the identifier made when the request has none.\<close>

definition with_request_id :: "string \<Rightarrow> chain_request \<Rightarrow> chain_request" where
  "with_request_id uuid q =
     (let given = header_Get ''X-easyfaas-Request-Id'' (header_cr q);
          rid = (if given = '''' then uuid else given)
      in q\<lparr>header_cr := header_Add ''X-easyfaas-Request-Id'' rid (header_cr q), tw := tw_Header (header_Add ''X-easyfaas-Request-Id'' rid) (tw q)\<rparr>)"

text \<open>\<open>WithMaxInFlightLimit\<close> up to its call of the next handler, with the identifier filter inside it.\<close>

definition enter_limit :: "chain_config \<Rightarrow> string \<Rightarrow> nat \<Rightarrow> chain \<Rightarrow> chain" where
  "enter_limit c uuid i s =
     (let q = requests s ! i in
      if MaxRequestsInFlight c = 0 then put_request i (with_request_id uuid (q\<lparr>phase := InHandler\<rparr>)) s
      else if int (inflight s) < MaxRequestsInFlight c
        then put_request i (with_request_id uuid (q\<lparr>phase := InHandler\<rparr>)) (s\<lparr>inflight := inflight s + 1\<rparr>)
      else put_request i (q\<lparr>tw := tooManyRequests (tw q), phase := AtDone\<rparr>) s)"

text \<open>The deferred receive of the limit and the deferred \<open>Done\<close> of the group; a receive from the empty channel would block.\<close>

definition leave_limit :: "chain_config \<Rightarrow> nat \<Rightarrow> chain \<Rightarrow> chain outcome" where
  "leave_limit c i s =
     (let q = (requests s ! i)\<lparr>phase := AtDone\<rparr> in
      if MaxRequestsInFlight c = 0 then Value (put_request i q s)
      else if inflight s = 0 then Panic ''blocks for ever''
      else Value (put_request i q (s\<lparr>inflight := inflight s - 1\<rparr>)))"

definition leave_group :: "nat \<Rightarrow> chain \<Rightarrow> chain outcome" where
  "leave_group i s = obind (wg_Done (group s)) (\<lambda>g. Value (put_request i ((requests s ! i)\<lparr>phase := Ended\<rparr>) (s\<lparr>group := g\<rparr>)))"

definition expire :: "chain_config \<Rightarrow> nat \<Rightarrow> chain \<Rightarrow> chain" where
  "expire c i s =
     (let q = requests s ! i in case tw_timeout (timeout_error c (after_cr q)) (tw q) of
        (killed, t) \<Rightarrow> put_request i (q\<lparr>tw := t, outer := (if killed then Killed else TimedOut)\<rparr>) s)"

datatype chain_event =
  Arrive "int64 option" http_header
| EnterGroup nat
| EnterLimit nat string
| SetHeader nat "http_header \<Rightarrow> http_header"
| WriteBody nat string
| WriteStatus nat int
| Flush nat
| LeaveLimit nat
| LeaveGroup nat
| Answer nat
| Expire nat
| Shutdown

fun chain_enabled :: "chain_config \<Rightarrow> chain_event \<Rightarrow> chain \<Rightarrow> bool" where
  "chain_enabled c (Arrive _ _) s = True"
| "chain_enabled c (EnterGroup i) s = (i < length (requests s) \<and> phase (requests s ! i) = AtWaitGroup)"
| "chain_enabled c (EnterLimit i _) s = (i < length (requests s) \<and> phase (requests s ! i) = AtLimit)"
| "chain_enabled c (SetHeader i _) s = (i < length (requests s) \<and> phase (requests s ! i) = InHandler)"
| "chain_enabled c (WriteBody i _) s = (i < length (requests s) \<and> phase (requests s ! i) = InHandler)"
| "chain_enabled c (WriteStatus i _) s = (i < length (requests s) \<and> phase (requests s ! i) = InHandler)"
| "chain_enabled c (Flush i) s = (i < length (requests s) \<and> phase (requests s ! i) = InHandler)"
| "chain_enabled c (LeaveLimit i) s = (i < length (requests s) \<and> phase (requests s ! i) = InHandler)"
| "chain_enabled c (LeaveGroup i) s = (i < length (requests s) \<and> phase (requests s ! i) = AtDone)"
| "chain_enabled c (Answer i) s = (i < length (requests s) \<and> phase (requests s ! i) = Ended \<and> outer (requests s ! i) = Waiting)"
| "chain_enabled c (Expire i) s = (RequestTimeout c \<noteq> 0 \<and> i < length (requests s) \<and> outer (requests s ! i) = Waiting)"
| "chain_enabled c Shutdown s = True"

fun chain_step :: "chain_config \<Rightarrow> chain_event \<Rightarrow> chain \<Rightarrow> chain outcome" where
  "chain_step c (Arrive query h) s = Value (arrive c query h s)"
| "chain_step c (EnterGroup i) s = enter_group i s"
| "chain_step c (EnterLimit i uuid) s = Value (enter_limit c uuid i s)"
| "chain_step c (SetHeader i f) s = Value (put_request i ((requests s ! i)\<lparr>tw := tw_Header f (tw (requests s ! i))\<rparr>) s)"
| "chain_step c (WriteBody i p) s = Value (put_request i ((requests s ! i)\<lparr>tw := snd (tw_Write p (tw (requests s ! i)))\<rparr>) s)"
| "chain_step c (WriteStatus i code) s = Value (put_request i ((requests s ! i)\<lparr>tw := tw_WriteHeader code (tw (requests s ! i))\<rparr>) s)"
| "chain_step c (Flush i) s = Value (put_request i ((requests s ! i)\<lparr>tw := tw_Flush (tw (requests s ! i))\<rparr>) s)"
| "chain_step c (LeaveLimit i) s = leave_limit c i s"
| "chain_step c (LeaveGroup i) s = leave_group i s"
| "chain_step c (Answer i) s = Value (put_request i ((requests s ! i)\<lparr>outer := Answered\<rparr>) s)"
| "chain_step c (Expire i) s = Value (expire c i s)"
| "chain_step c Shutdown s = Value (s\<lparr>group := wg_Wait (group s)\<rparr>)"

inductive chain_steps :: "chain_config \<Rightarrow> chain \<Rightarrow> chain \<Rightarrow> bool" for c where
  none: "chain_steps c s s"
| more: "\<lbrakk>chain_steps c s s'; chain_enabled c e s'; chain_step c e s' = Value s''\<rbrakk> \<Longrightarrow> chain_steps c s s''"

definition reachable_chain :: "chain_config \<Rightarrow> chain \<Rightarrow> bool" where
  "reachable_chain c s \<longleftrightarrow> (\<exists>s0. new_chain c = Value s0 \<and> chain_steps c s0 s)"

section \<open>The shared state counts the requests\<close>

fun counted :: "chain_phase \<Rightarrow> bool" where
  "counted AtLimit = True"
| "counted InHandler = True"
| "counted AtDone = True"
| "counted _ = False"

definition number :: "(chain_phase \<Rightarrow> bool) \<Rightarrow> chain \<Rightarrow> nat" where
  "number P s = length (filter (P \<circ> phase) (requests s))"

definition chain_inv :: "chain_config \<Rightarrow> chain \<Rightarrow> bool" where
  "chain_inv c s \<longleftrightarrow> 0 \<le> MaxRequestsInFlight c \<and> wg_count (group s) = int (number counted s)
     \<and> (MaxRequestsInFlight c \<noteq> 0 \<longrightarrow> inflight s = number (\<lambda>p. p = InHandler) s \<and> int (inflight s) \<le> MaxRequestsInFlight c)"

lemma length_filter_update:
  "i < length xs \<Longrightarrow> length (filter P (xs[i := y])) + of_bool (P (xs ! i)) = length (filter P xs) + of_bool (P y)"
proof (induction xs arbitrary: i)
  case (Cons x xs)
  then show ?case by (cases i) auto
qed simp

lemma number_put:
  "i < length (requests s) \<Longrightarrow> number P (put_request i q s) + of_bool (P (phase (requests s ! i))) = number P s + of_bool (P (phase q))"
  using length_filter_update [of i "requests s" "P \<circ> phase" q] by (simp add: number_def put_request_def)

lemma put_request_simps [simp]:
  "group (put_request i q s) = group s" "inflight (put_request i q s) = inflight s" "timeout_v (put_request i q s) = timeout_v s"
  "length (requests (put_request i q s)) = length (requests s)" "i < length (requests s) \<Longrightarrow> requests (put_request i q s) ! i = q"
  "i \<noteq> j \<Longrightarrow> requests (put_request i q s) ! j = requests s ! j"
  by (simp_all add: put_request_def)

lemma number_simps [simp]:
  "number P (s\<lparr>group := g\<rparr>) = number P s" "number P (s\<lparr>inflight := n\<rparr>) = number P s"
  "number P (arrive c query h s) = number P s + of_bool (P AtWaitGroup)"
  by (simp_all add: number_def arrive_def Let_def)

lemma number_pos: "i < length (requests s) \<Longrightarrow> P (phase (requests s ! i)) \<Longrightarrow> 0 < number P s"
  unfolding number_def by (metis comp_apply filter_empty_conv length_greater_0_conv nth_mem)

lemma chain_inv_put:
  assumes "chain_inv c s" "i < length (requests s)" "phase q = phase (requests s ! i)"
  shows "chain_inv c (put_request i q s)"
  using assms number_put [OF assms(2), of counted q] number_put [OF assms(2), of "\<lambda>p. p = InHandler" q] by (auto simp: chain_inv_def)

lemma phase_with_request_id [simp]: "phase (with_request_id uuid q) = phase q" "outer (with_request_id uuid q) = outer q" "after_cr (with_request_id uuid q) = after_cr q"
  by (simp_all add: with_request_id_def Let_def)

lemma new_chain_inv: "new_chain c = Value s \<Longrightarrow> chain_inv c s"
  by (auto simp: new_chain_def chain_inv_def number_def split: if_splits)

lemma number_moved [simp]:
  "i < length (requests s) \<Longrightarrow> number P (put_request i q s) = number P s + of_bool (P (phase q)) - of_bool (P (phase (requests s ! i)))"
  using number_put [of i s P q] by simp

lemma enter_group_inv:
  assumes "chain_inv c s" "i < length (requests s)" "phase (requests s ! i) = AtWaitGroup"
  shows "\<exists>s'. enter_group i s = Value s' \<and> chain_inv c s'"
  using assms by (auto simp: chain_inv_def enter_group_def wg_Add_def Let_def)

lemma enter_limit_inv:
  assumes "chain_inv c s" "i < length (requests s)" "phase (requests s ! i) = AtLimit"
  shows "chain_inv c (enter_limit c uuid i s)"
  using assms number_pos [of i s counted] by (auto simp: chain_inv_def enter_limit_def Let_def)

lemma leave_limit_inv:
  assumes "chain_inv c s" "i < length (requests s)" "phase (requests s ! i) = InHandler"
  shows "\<exists>s'. leave_limit c i s = Value s' \<and> chain_inv c s'"
  using assms number_pos [of i s counted] number_pos [of i s "\<lambda>p. p = InHandler"] by (auto simp: chain_inv_def leave_limit_def Let_def)

lemma leave_group_inv:
  assumes "chain_inv c s" "i < length (requests s)" "phase (requests s ! i) = AtDone"
  shows "\<exists>s'. leave_group i s = Value s' \<and> chain_inv c s'"
  using assms number_pos [of i s counted] by (auto simp: chain_inv_def leave_group_def wg_Done_def Let_def)

lemma arrive_inv: "chain_inv c s \<Longrightarrow> chain_inv c (arrive c query h s)"
  by (auto simp: chain_inv_def) (simp_all add: arrive_def Let_def)

lemma step_inv:
  assumes "chain_inv c s" "chain_enabled c e s"
  shows "\<exists>s'. chain_step c e s = Value s' \<and> chain_inv c s'"
proof (cases e)
  case Shutdown
  then show ?thesis using assms by (auto simp: chain_inv_def wg_Wait_def)
qed (use assms chain_inv_put arrive_inv enter_group_inv enter_limit_inv leave_limit_inv leave_group_inv
      in \<open>auto simp: expire_def Let_def split: prod.splits\<close>)

lemma steps_inv: "chain_steps c s s' \<Longrightarrow> chain_inv c s \<Longrightarrow> chain_inv c s'"
proof (induction rule: chain_steps.induct)
  case (more s s' e s'')
  then show ?case using step_inv by fastforce
qed

lemma reachable_inv: "reachable_chain c s \<Longrightarrow> chain_inv c s"
  unfolding reachable_chain_def using new_chain_inv steps_inv by blast

text \<open>C26: However the requests interleave and whatever their handlers do, when the server has a limit at most that many requests are in the handler at a time (a limit
  of 0 means that there is none), and the wait group counts exactly the requests between it and their end.\<close>

theorem inflight_bounded:
  assumes "reachable_chain c s"
  shows "(MaxRequestsInFlight c \<noteq> 0 \<longrightarrow> int (number (\<lambda>p. p = InHandler) s) \<le> MaxRequestsInFlight c)
    \<and> wg_count (group s) = int (number counted s)"
  using reachable_inv [OF assms] by (auto simp: chain_inv_def)

text \<open>No counter goes below zero and no deferred receive waits: every enabled event has a successor.\<close>

lemma chain_progress: "reachable_chain c s \<Longrightarrow> chain_enabled c e s \<Longrightarrow> \<exists>s'. chain_step c e s = Value s'"
  using step_inv reachable_inv by blast

section \<open>Shutting down\<close>

lemma step_drained:
  assumes "chain_inv c s" "wait_returns (group s)" "chain_enabled c e s" "chain_step c e s = Value s'"
  shows "wait_returns (group s')"
proof -
  have none: "\<not> counted (phase (requests s ! i))" if "i < length (requests s)" for i
    using assms(1,2) number_pos [OF that, of counted] by (auto simp: chain_inv_def wait_returns_def)
  show ?thesis
  proof (cases e)
    case (EnterGroup i)
    then show ?thesis using assms by (auto simp: enter_group_def wg_Add_def wait_returns_def Let_def)
  next
    case (EnterLimit i uuid)
    then show ?thesis using assms(3) none [of i] by simp
  next
    case (LeaveLimit i)
    then show ?thesis using assms(3) none [of i] by simp
  next
    case (LeaveGroup i)
    then show ?thesis using assms(3) none [of i] by simp
  qed (use assms in \<open>auto simp: arrive_def expire_def wait_returns_def wg_Wait_def Let_def split: prod.splits\<close>)
qed

lemma steps_drained:
  "chain_steps c s s' \<Longrightarrow> chain_inv c s \<Longrightarrow> wait_returns (group s) \<Longrightarrow> wait_returns (group s')"
proof (induction rule: chain_steps.induct)
  case (more s s' e s'')
  then show ?case using step_drained steps_inv by blast
qed

text \<open>C27: Once the wait of a server that shuts down has returned, no request is in the handler or on its way to it, and this stays so whatever requests
  still arrive: they are refused.\<close>

theorem drained_for_good:
  assumes "reachable_chain c s" "wait_returns (group s)" "chain_steps c s s'"
  shows "wait_returns (group s') \<and> number counted s' = 0"
  using steps_drained [OF assms(3) reachable_inv [OF assms(1)] assms(2)] steps_inv [OF assms(3) reachable_inv [OF assms(1)]]
  by (simp add: chain_inv_def wait_returns_def)

section \<open>One reply\<close>

text \<open>What is true of each request: a handler that has written nothing has sent nothing but perhaps, by a flush, the header with status 200.\<close>

definition reply_inv :: "chain_config \<Rightarrow> chain_request \<Rightarrow> bool" where
  "reply_inv c q \<longleftrightarrow> (timedOut (tw q) \<longleftrightarrow> outer q = TimedOut \<or> outer q = Killed) \<and> \<not> hijacked (tw q)
     \<and> (\<not> wroteHeader (tw q) \<and> \<not> timedOut (tw q) \<longrightarrow> body_w (w_tw (tw q)) = '''' \<and> status_w (w_tw (tw q)) \<in> {None, Some 200})"

lemma tw_frame [simp]:
  "timedOut (tw_Header f t) = timedOut t" "wroteHeader (tw_Header f t) = wroteHeader t" "hijacked (tw_Header f t) = hijacked t" "seen (w_tw (tw_Header f t)) = seen (w_tw t)"
  "timedOut (snd (tw_Write p t)) = timedOut t" "hijacked (snd (tw_Write p t)) = hijacked t" "timedOut (tw_WriteHeader code t) = timedOut t" "hijacked (tw_WriteHeader code t) = hijacked t"
  "timedOut t \<Longrightarrow> tw_Header f t = t" "timedOut t \<Longrightarrow> snd (tw_Write p t) = t" "timedOut t \<Longrightarrow> tw_WriteHeader code t = t"
  "timedOut (tw_Flush t) = timedOut t" "wroteHeader (tw_Flush t) = wroteHeader t" "hijacked (tw_Flush t) = hijacked t" "timedOut t \<Longrightarrow> tw_Flush t = t"
  by (simp_all add: tw_Header_def tw_Write_def tw_WriteHeader_def tw_Flush_def)

lemma tw_seen [simp]:
  "body_w (w_tw (tw_Header f t)) = body_w (w_tw t)" "status_w (w_tw (tw_Header f t)) = status_w (w_tw t)"
  "\<not> timedOut t \<Longrightarrow> body_w (w_tw (tw_Flush t)) = body_w (w_tw t)"
  "\<not> timedOut t \<Longrightarrow> status_w (w_tw (tw_Flush t)) = Some (case status_w (w_tw t) of None \<Rightarrow> 200 | Some c \<Rightarrow> c)"
  by (simp_all add: tw_Header_def tw_Flush_def w_header_def)

lemma tw_wrote [simp]:
  "\<not> timedOut t \<Longrightarrow> \<not> hijacked t \<Longrightarrow> wroteHeader (snd (tw_Write p t))" "\<not> timedOut t \<Longrightarrow> \<not> hijacked t \<Longrightarrow> wroteHeader (tw_WriteHeader code t)"
  by (auto simp: tw_Write_def tw_WriteHeader_def)

lemma reply_inv_handler:
  assumes "reply_inv c q" "outer q' = outer q" "after_cr q' = after_cr q"
    and "tw q' \<in> {tw q, tw_Header f (tw q), snd (tw_Write p (tw q)), tw_WriteHeader code (tw q), tw_Flush (tw q), tw_Error p code (tw q), tooManyRequests (tw q)}"
  shows "reply_inv c q'"
proof (cases "timedOut (tw q)")
  case True
  then have "tw q' = tw q" using assms(4) by (auto simp: tw_Error_def tooManyRequests_def)
  then show ?thesis using assms by (simp add: reply_inv_def)
next
  case False
  then show ?thesis using assms by (auto simp: reply_inv_def tw_Error_def tooManyRequests_def)
qed

lemma reply_inv_expire:
  assumes "reply_inv c q" "outer q = Waiting" "tw_timeout (timeout_error c (after_cr q)) (tw q) = (killed, t)"
  shows "reply_inv c (q\<lparr>tw := t, outer := (if killed then Killed else TimedOut)\<rparr>)"
  using assms by (auto simp: reply_inv_def tw_timeout_def Let_def seen_def split: if_splits)

definition replies_inv :: "chain_config \<Rightarrow> chain \<Rightarrow> bool" where
  "replies_inv c s \<longleftrightarrow> list_all (reply_inv c) (requests s)"

text \<open>Every step leaves all requests but one alone, appends a request or changes none; and it changes its request in one of these ways.\<close>

definition request_step :: "chain_config \<Rightarrow> chain_request \<Rightarrow> chain_request \<Rightarrow> bool" where
  "request_step c q q' \<longleftrightarrow> after_cr q' = after_cr q \<and>
     ((\<exists>f p code. outer q' = outer q \<and> tw q' \<in> {tw q, tw_Header f (tw q), snd (tw_Write p (tw q)), tw_WriteHeader code (tw q), tw_Flush (tw q), tw_Error p code (tw q), tooManyRequests (tw q)})
      \<or> outer q = Waiting \<and> outer q' = Answered \<and> tw q' = tw q
      \<or> (\<exists>killed. outer q = Waiting \<and> outer q' = (if killed then Killed else TimedOut) \<and> tw_timeout (timeout_error c (after_cr q)) (tw q) = (killed, tw q')))"

lemma request_stepI [intro]:
  assumes "after_cr q' = after_cr q" "outer q' = outer q"
  shows "tw q' = tw q \<Longrightarrow> request_step c q q'" "tw q' = tw_Header f (tw q) \<Longrightarrow> request_step c q q'" "tw q' = snd (tw_Write p (tw q)) \<Longrightarrow> request_step c q q'"
    "tw q' = tw_WriteHeader code (tw q) \<Longrightarrow> request_step c q q'" "tw q' = tw_Error p code (tw q) \<Longrightarrow> request_step c q q'" "tw q' = tooManyRequests (tw q) \<Longrightarrow> request_step c q q'"
    "tw q' = tw_Flush (tw q) \<Longrightarrow> request_step c q q'"
  using assms by (auto simp: request_step_def)

lemma request_step_limit [simp]:
  "request_step c q (with_request_id uuid (q\<lparr>phase := p\<rparr>))" "request_step c q (q\<lparr>tw := tooManyRequests (tw q), phase := p\<rparr>)"
  by (auto simp: with_request_id_def request_step_def Let_def)

lemma step_requests:
  assumes "chain_enabled c e s" "chain_step c e s = Value s'"
  shows "requests s' = requests s
    \<or> (\<exists>q. requests s' = requests s @ [q] \<and> reply_inv c q)
    \<or> (\<exists>i < length (requests s). requests s' = (requests s)[i := requests s' ! i] \<and> request_step c (requests s ! i) (requests s' ! i))"
proof (cases e)
  case (Arrive query h)
  then show ?thesis using assms by (auto simp: arrive_def reply_inv_def newTimeoutWriter_def new_writer_def seen_def Let_def)
next
  case (EnterGroup i)
  then show ?thesis using assms
    by (auto simp: enter_group_def wg_Add_def Let_def put_request_def split: if_splits intro!: disjI2 exI [of _ i])
next
  case (EnterLimit i uuid)
  then show ?thesis using assms
    by (auto simp: enter_limit_def Let_def put_request_def intro!: disjI2 exI [of _ i])
next
  case (LeaveLimit i)
  then show ?thesis using assms
    by (auto simp: leave_limit_def Let_def put_request_def split: if_splits intro!: disjI2 exI [of _ i])
next
  case (LeaveGroup i)
  then show ?thesis using assms
    by (auto simp: leave_group_def wg_Done_def Let_def put_request_def split: if_splits intro!: disjI2 exI [of _ i])
next
  case (Expire i)
  obtain killed t where t: "tw_timeout (timeout_error c (after_cr (requests s ! i))) (tw (requests s ! i)) = (killed, t)" by fastforce
  have "request_step c (requests s ! i) ((requests s ! i)\<lparr>tw := t, outer := (if killed then Killed else TimedOut)\<rparr>)"
    using t assms(1) Expire unfolding request_step_def by simp
  moreover have "i < length (requests s)" "s' = put_request i ((requests s ! i)\<lparr>tw := t, outer := (if killed then Killed else TimedOut)\<rparr>) s"
    using assms Expire t by (simp_all add: expire_def Let_def)
  ultimately have "requests s' = (requests s)[i := requests s' ! i] \<and> request_step c (requests s ! i) (requests s' ! i)" by (simp add: put_request_def)
  then show ?thesis using assms(1) Expire by auto
next
  case (Answer i)
  then have "i < length (requests s)" "outer (requests s ! i) = Waiting" and s': "s' = put_request i ((requests s ! i)\<lparr>outer := Answered\<rparr>) s" using assms by auto
  then have "request_step c (requests s ! i) (requests s' ! i)" by (simp add: request_step_def)
  then show ?thesis using \<open>i < length (requests s)\<close> s' by (auto simp: put_request_def)
next
  case (SetHeader i f)
  then show ?thesis using assms by (auto simp: put_request_def intro!: disjI2 exI [of _ i])
next
  case (WriteBody i p)
  then show ?thesis using assms by (auto simp: put_request_def intro!: disjI2 exI [of _ i])
next
  case (WriteStatus i code)
  then show ?thesis using assms by (auto simp: put_request_def intro!: disjI2 exI [of _ i])
next
  case (Flush i)
  then show ?thesis using assms by (auto simp: put_request_def intro!: disjI2 exI [of _ i])
next
  case Shutdown
  then show ?thesis using assms by auto
qed

lemma request_step_reply:
  assumes "request_step c q q'" "reply_inv c q"
  shows "reply_inv c q'"
  using assms(1) unfolding request_step_def
proof (elim conjE disjE exE)
  fix killed
  assume "after_cr q' = after_cr q" "outer q = Waiting" "outer q' = (if killed then Killed else TimedOut)" "tw_timeout (timeout_error c (after_cr q)) (tw q) = (killed, tw q')"
  then show ?thesis using reply_inv_expire [OF assms(2), of killed "tw q'"] by (simp add: reply_inv_def)
next
  assume "after_cr q' = after_cr q" "outer q = Waiting" "outer q' = Answered" "tw q' = tw q"
  then show ?thesis using assms(2) by (simp add: reply_inv_def)
qed (rule reply_inv_handler [OF assms(2)])

lemma request_step_final:
  assumes "request_step c q q'" "reply_inv c q" "outer q = TimedOut \<or> outer q = Killed"
  shows "outer q' = outer q \<and> w_tw (tw q') = w_tw (tw q)"
proof -
  have "timedOut (tw q)" using assms(2,3) by (simp add: reply_inv_def)
  then show ?thesis using assms(1,3) by (auto simp: request_step_def tw_Error_def tooManyRequests_def)
qed

lemma steps_replies:
  assumes "chain_steps c s s'" "replies_inv c s"
  shows "replies_inv c s' \<and> length (requests s) \<le> length (requests s')
    \<and> (\<forall>i < length (requests s). outer (requests s ! i) = TimedOut \<or> outer (requests s ! i) = Killed \<longrightarrow>
         outer (requests s' ! i) = outer (requests s ! i) \<and> w_tw (tw (requests s' ! i)) = w_tw (tw (requests s ! i)))"
  using assms
proof (induction rule: chain_steps.induct)
  case (more s s' e s'')
  note IH = more.IH [OF more.prems]
  from step_requests [OF more.hyps(2,3)] show ?case
  proof (elim disjE exE conjE)
    fix i
    let ?q = "requests s'' ! i"
    assume i: "i < length (requests s')" "requests s'' = (requests s')[i := ?q]" "request_step c (requests s' ! i) ?q"
    have r: "reply_inv c (requests s' ! i)" using IH i(1) by (simp add: replies_inv_def list_all_length)
    have len: "length (requests s'') = length (requests s')" using i(2) by (metis length_list_update)
    have other: "requests s'' ! j = requests s' ! j" if "j \<noteq> i" for j using i(2) that by (metis nth_list_update_neq)
    have "reply_inv c (requests s'' ! j)" if "j < length (requests s')" for j
      using IH request_step_reply [OF i(3) r] other that by (cases "j = i") (auto simp: replies_inv_def list_all_length)
    then have "replies_inv c s''" by (simp add: replies_inv_def list_all_length len)
    moreover have "outer (requests s'' ! j) = outer (requests s' ! j) \<and> w_tw (tw (requests s'' ! j)) = w_tw (tw (requests s' ! j))"
      if "outer (requests s' ! j) = TimedOut \<or> outer (requests s' ! j) = Killed" for j
      using request_step_final [OF i(3) r] that other by (cases "j = i") auto
    ultimately show ?thesis using IH len by simp
  next
    fix q
    assume "requests s'' = requests s' @ [q]" "reply_inv c q"
    then show ?thesis using IH by (auto simp: replies_inv_def nth_append)
  qed (use IH in \<open>auto simp: replies_inv_def\<close>)
qed simp

lemma reachable_replies: "reachable_chain c s \<Longrightarrow> replies_inv c s"
  unfolding reachable_chain_def using steps_replies by (fastforce simp: new_chain_def replies_inv_def split: if_splits)

text \<open>C28: What a request gets when its time is over, and that it is final. Whatever happens after the timeout, a handler that had written neither a header nor a body
  then leaves the client with the timeout error as the whole body, under status 504, or under status 200 when the handler had flushed before; a
  handler that had written something leaves it with what was written until then on a connection that is killed. No later write of the handler reaches the client.\<close>

theorem timeout_reply_final:
  assumes "reachable_chain c s" "chain_enabled c (Expire i) s" "chain_steps c (expire c i s) s'"
  shows "let t = tw (requests s ! i); q = requests s' ! i
    in if wroteHeader t then outer q = Killed \<and> seen (w_tw (tw q)) = seen (w_tw t)
       else outer q = TimedOut \<and> seen (w_tw (tw q)) = (Some (if status_w (w_tw t) = None then 504 else 200), timeout_error c (after_cr (requests s ! i)) @ [CHR 0x0A])"
proof -
  let ?q = "requests s ! i" and ?e = "requests (expire c i s) ! i"
  have i: "i < length (requests s)" "outer ?q = Waiting" using assms(2) by simp_all
  have r: "reply_inv c ?q" using reachable_replies [OF assms(1)] i(1) by (simp add: replies_inv_def list_all_length)
  then have t: "\<not> timedOut (tw ?q)" "\<not> hijacked (tw ?q)" using i(2) by (simp_all add: reply_inv_def)
  have step: "chain_steps c s (expire c i s)" by (rule chain_steps.more [OF chain_steps.none assms(2)]) simp
  have inv: "replies_inv c (expire c i s)" "i < length (requests (expire c i s))"
    using steps_replies [OF step reachable_replies [OF assms(1)]] i(1) by auto
  have e: "if wroteHeader (tw ?q) then outer ?e = Killed \<and> seen (w_tw (tw ?e)) = seen (w_tw (tw ?q))
    else outer ?e = TimedOut \<and> seen (w_tw (tw ?e)) = (Some (if status_w (w_tw (tw ?q)) = None then 504 else 200), timeout_error c (after_cr ?q) @ [CHR 0x0A])"
    using i(1) t r by (auto simp: expire_def tw_timeout_def Let_def seen_def reply_inv_def)
  then have "outer (requests s' ! i) = outer ?e \<and> w_tw (tw (requests s' ! i)) = w_tw (tw ?e)"
    using steps_replies [OF assms(3) inv(1)] inv(2) by (cases "wroteHeader (tw ?q)") simp_all
  with e show ?thesis by (simp add: Let_def)
qed

text \<open>The variable of the timeout is shared: the query parameter of one request sets the timeout of the requests after it.\<close>

lemma query_timeout_leaks:
  "RequestTimeout c \<noteq> 0 \<Longrightarrow> after_cr (last (requests (arrive c None h' (arrive c (Some d) h s)))) = d"
  by (simp add: arrive_def timeoutFunc_def Let_def)

section \<open>Witnesses\<close>

fun chain_run :: "chain_config \<Rightarrow> chain_event list \<Rightarrow> chain \<Rightarrow> chain option" where
  "chain_run c [] s = Some s"
| "chain_run c (e # es) s = (if chain_enabled c e s then case chain_step c e s of Value s' \<Rightarrow> chain_run c es s' | Panic _ \<Rightarrow> None else None)"

lemma steps_trans: "chain_steps c s' s'' \<Longrightarrow> chain_steps c s s' \<Longrightarrow> chain_steps c s s''"
  by (induction rule: chain_steps.induct) (auto intro: chain_steps.more)

lemma run_steps: "chain_run c es s = Some s' \<Longrightarrow> chain_steps c s s'"
proof (induction es arbitrary: s)
  case (Cons e es)
  then obtain s1 where "chain_enabled c e s" "chain_step c e s = Value s1" "chain_run c es s1 = Some s'" by (auto split: if_splits outcome.splits)
  then show ?case using Cons.IH steps_trans chain_steps.more [OF chain_steps.none] by blast
qed (simp add: chain_steps.none)

definition demo_chain_config :: chain_config where
  "demo_chain_config = \<lparr>MaxRequestsInFlight = 1, RequestTimeout = 5000000000, marshal_cc = (\<lambda>_. ''{}''), seconds_cc = (\<lambda>_. ''5.00'')\<rparr>"

definition demo_chain :: "chain_event list \<Rightarrow> chain" where
  "demo_chain es = the (chain_run demo_chain_config es (the_value (new_chain demo_chain_config)))"

lemmas chain_defs = demo_chain_def demo_chain_config_def new_chain_def arrive_def enter_group_def enter_limit_def leave_limit_def leave_group_def wg_Add_def wg_Done_def
  wg_Wait_def with_request_id_def timeoutFunc_def Let_def put_request_def newTimeoutWriter_def expire_def tw_timeout_def

lemma demo_reachable: "chain_run demo_chain_config es (the_value (new_chain demo_chain_config)) \<noteq> None \<Longrightarrow> reachable_chain demo_chain_config (demo_chain es)"
  unfolding reachable_chain_def demo_chain_def
  by (intro exI [of _ "the_value (new_chain demo_chain_config)"] conjI run_steps) (auto simp: new_chain_def demo_chain_config_def)

theorem inflight_bounded_witness:
  "wg_count (group (demo_chain [Arrive None (\<lambda>_. []), EnterGroup 0, EnterLimit 0 ''u''])) = 1"
proof -
  let ?s = "demo_chain [Arrive None (\<lambda>_. []), EnterGroup 0, EnterLimit 0 ''u'']"
  have "reachable_chain demo_chain_config ?s" by (rule demo_reachable) (simp add: chain_defs)
  moreover have "number counted ?s = 1" by (simp add: chain_defs number_def)
  ultimately show ?thesis using inflight_bounded [of demo_chain_config ?s] by simp
qed

theorem drained_for_good_witness:
  "number counted (demo_chain ([Arrive None (\<lambda>_. []), EnterGroup 0, EnterLimit 0 ''u'', LeaveLimit 0, LeaveGroup 0, Shutdown] @ [Arrive None (\<lambda>_. []), EnterGroup 1])) = 0"
proof -
  let ?es = "[Arrive None (\<lambda>_. []), EnterGroup 0, EnterLimit 0 ''u'', LeaveLimit 0, LeaveGroup 0, Shutdown]"
  let ?s = "demo_chain ?es" and ?s' = "demo_chain (?es @ [Arrive None (\<lambda>_. []), EnterGroup 1])"
  have "reachable_chain demo_chain_config ?s" by (rule demo_reachable) (simp add: chain_defs)
  moreover have "wait_returns (group ?s)" by (simp add: chain_defs wait_returns_def)
  moreover have "chain_steps demo_chain_config ?s ?s'"
    by (rule run_steps [where es = "[Arrive None (\<lambda>_. []), EnterGroup 1]"]) (simp add: chain_defs)
  ultimately show ?thesis using drained_for_good [of demo_chain_config ?s ?s'] by blast
qed

theorem timeout_reply_final_witness:
  "seen (w_tw (tw (requests (demo_chain ([Arrive None (\<lambda>_. []), EnterGroup 0, EnterLimit 0 ''u''] @ [Expire 0, WriteBody 0 ''late''])) ! 0)))
     = (Some 504, timeout_error demo_chain_config 5000000000 @ [CHR 0x0A])"
proof -
  let ?es = "[Arrive None (\<lambda>_. []), EnterGroup 0, EnterLimit 0 ''u'']"
  let ?s = "demo_chain ?es" and ?s' = "demo_chain (?es @ [Expire 0, WriteBody 0 ''late''])"
  have "reachable_chain demo_chain_config ?s" by (rule demo_reachable) (simp add: chain_defs)
  moreover have "chain_enabled demo_chain_config (Expire 0) ?s" by (simp add: chain_defs)
  moreover have "chain_steps demo_chain_config (expire demo_chain_config 0 ?s) ?s'"
    by (rule run_steps [where es = "[WriteBody 0 ''late'']"]) (simp add: chain_defs)
  moreover have "\<not> wroteHeader (tw (requests ?s ! 0))" "status_w (w_tw (tw (requests ?s ! 0))) = None" "after_cr (requests ?s ! 0) = 5000000000"
    by (simp_all add: chain_defs tw_Header_def w_header_def new_writer_def)
  ultimately show ?thesis using timeout_reply_final [of demo_chain_config ?s 0 ?s'] by (simp add: Let_def)
qed

text \<open>A flush before the first write turns the timeout into a success: the client sees status 200 with the error as its body.\<close>

lemma flush_hides_timeout:
  "seen (w_tw (tw (requests (demo_chain [Arrive None (\<lambda>_. []), EnterGroup 0, EnterLimit 0 ''u'', Flush 0, Expire 0]) ! 0)))
     = (Some 200, timeout_error demo_chain_config 5000000000 @ [CHR 0x0A])"
  by (simp add: chain_defs tw_Header_def tw_Flush_def w_header_def new_writer_def seen_def)

end
