(* ===== verification/Server.thy ===== *)
theory Server
  imports Mux ServerChain
begin

text \<open>
  The generic server, \<open>src/pkg/server\<close>: the director that chooses between the registered web services and the router, the health
  checks, the start and shutdown hooks and the order in which a server is made, prepared, run and stopped. The router is that of \<open>Mux\<close>, the filters
  before the director are those of \<open>ServerChain\<close>. A health check is a function of what it can observe, the start hooks that have finished.
\<close>

section \<open>Health checks\<close>

record HealthzChecker =
  Name_hc :: string
  Check_hc :: "(string \<Rightarrow> bool) \<Rightarrow> string option"

definition PingHealthz :: HealthzChecker where
  "PingHealthz = \<lparr>Name_hc = ''ping'', Check_hc = (\<lambda>_. None)\<rparr>"

definition NamedCheck :: "string \<Rightarrow> ((string \<Rightarrow> bool) \<Rightarrow> string option) \<Rightarrow> HealthzChecker" where
  "NamedCheck name check = \<lparr>Name_hc = name, Check_hc = check\<rparr>"

text \<open>The loop of the root handler: whether a check failed, and the verbose text.\<close>

fun check_each :: "(string \<Rightarrow> bool) \<Rightarrow> HealthzChecker list \<Rightarrow> bool \<times> string" where
  "check_each finished [] = (False, '''')"
| "check_each finished (c # cs) = (case check_each finished cs of (failed, verbose) \<Rightarrow>
     (case Check_hc c finished of
        Some _ \<Rightarrow> (True, ''[-]'' @ Name_hc c @ '' failed: reason withheld'' @ [CHR 0x0A] @ verbose)
      | None \<Rightarrow> (failed, ''[+]'' @ Name_hc c @ '' ok'' @ [CHR 0x0A] @ verbose)))"

definition http_Error :: "string \<Rightarrow> int \<Rightarrow> http_writer \<Rightarrow> http_writer" where
  "http_Error msg code w =
     w_Write (msg @ [CHR 0x0A]) (w_WriteHeader code
       (w_header (header_Set ''X-Content-Type-Options'' ''nosniff'' \<circ> header_Set ''Content-Type'' ''text/plain; charset=utf-8'') w))"

definition handleRootHealthz :: "HealthzChecker list \<Rightarrow> (string \<Rightarrow> bool) \<Rightarrow> bool \<Rightarrow> http_writer \<Rightarrow> http_writer" where
  "handleRootHealthz checks finished verbose w =
     (case check_each finished checks of (failed, verboseOut) \<Rightarrow>
        if failed then http_Error (verboseOut @ ''healthz check failed'') 500 w
        else if \<not> verbose then w_Write ''ok'' w
        else w_Write (''healthz check passed'' @ [CHR 0x0A]) (w_Write verboseOut w))"

definition adaptCheckToHandler :: "HealthzChecker \<Rightarrow> (string \<Rightarrow> bool) \<Rightarrow> http_writer \<Rightarrow> http_writer" where
  "adaptCheckToHandler c finished w =
     (case Check_hc c finished of
        Some err \<Rightarrow> http_Error (''internal server error: '' @ err) 500 w
      | None \<Rightarrow> w_Write ''ok'' w)"

section \<open>Internal authentication\<close>

definition FinalError_WriteTo :: "(BasicError \<Rightarrow> string) \<Rightarrow> FinalError \<Rightarrow> http_writer \<Rightarrow> http_writer" where
  "FinalError_WriteTo marshal err w =
     w_Write (MarshalJSON marshal err) (w_WriteHeader (Status (BasicError_fe err))
       (w_header (header_Set ''X-Bce-ErrorType'' (Code (BasicError_fe err)) \<circ> header_Set ''X-Amzn-ErrorType'' (Code (BasicError_fe err))
                  \<circ> header_Set ''Content-Type'' ''application/json'') w))"

definition DefaultInternalValidAuthTokens :: "string list" where
  "DefaultInternalValidAuthTokens = [''cfc-auth-2018'']"

definition SimpleAuthTokenVerify :: "(BasicError \<Rightarrow> string) \<Rightarrow> http_header \<Rightarrow> http_writer \<Rightarrow> FinalError option \<times> http_writer" where
  "SimpleAuthTokenVerify marshal r w =
     (if list_ex (\<lambda>validToken. header_Get ''X-Auth-Token'' r = validToken) DefaultInternalValidAuthTokens then (None, w)
      else let err = NewUnrecognizedClientException marshal ''simple auth failed'' None
           in (Some err, FinalError_WriteTo marshal err (w_WriteHeader 403 w)))"

definition WithSimpleAuthTokenVerify :: "(BasicError \<Rightarrow> string) \<Rightarrow> (http_header \<Rightarrow> http_writer \<Rightarrow> http_writer) \<Rightarrow> http_header \<Rightarrow> http_writer \<Rightarrow> http_writer" where
  "WithSimpleAuthTokenVerify marshal handler r w =
     (case SimpleAuthTokenVerify marshal r w of (None, w1) \<Rightarrow> handler r w1 | (Some _, w1) \<Rightarrow> w1)"

text \<open>Without a valid token the handler does not run and the reply is 403. The status is sent before the headers of the error are set, so the reply
  does not carry them.\<close>

lemma simple_auth_refuses:
  assumes "header_Get ''X-Auth-Token'' r \<noteq> ''cfc-auth-2018''"
  shows "status_w (WithSimpleAuthTokenVerify marshal handler r new_writer) = Some 403"
    "sent_header (WithSimpleAuthTokenVerify marshal handler r new_writer) = (\<lambda>_. [])"
  using assms
  by (simp_all add: WithSimpleAuthTokenVerify_def SimpleAuthTokenVerify_def DefaultInternalValidAuthTokens_def FinalError_WriteTo_def new_writer_def
      w_WriteHeader_def w_Write_def w_header_def Let_def)

section \<open>Handlers of the router\<close>

datatype srv_handler = NotFoundH | RootHealthz "HealthzChecker list" | OneHealthz HealthzChecker | MetricsHandler | Pprof string

text \<open>\<open>st\<close> gives the stack texts that registrations record.\<close>

definition InstallHandler :: "(string \<Rightarrow> string) \<Rightarrow> HealthzChecker list \<Rightarrow> srv_handler PathRecorderMux \<Rightarrow> srv_handler PathRecorderMux" where
  "InstallHandler st checks0 m =
     (let checks = (if checks0 = [] then [PingHealthz] else checks0);
          m1 = Handle NotFoundH (st ''/healthz'') ''/healthz'' (RootHealthz checks) m
      in fold (\<lambda>c. Handle NotFoundH (st (''/healthz/'' @ Name_hc c)) (''/healthz/'' @ Name_hc c) (OneHealthz c)) checks m1)"

definition Profiling_Install :: "(string \<Rightarrow> string) \<Rightarrow> srv_handler PathRecorderMux \<Rightarrow> srv_handler PathRecorderMux outcome" where
  "Profiling_Install st m =
     obind (UnlistedHandlePrefix NotFoundH (st ''/debug/pprof/'') ''/debug/pprof/'' (Pprof ''Index'')
         (UnlistedHandle NotFoundH (st ''/debug/pprof'') ''/debug/pprof'' (Pprof ''Index'') m)) (\<lambda>m1.
     Value (UnlistedHandle NotFoundH (st ''/debug/pprof/trace'') ''/debug/pprof/trace'' (Pprof ''Trace'')
       (UnlistedHandle NotFoundH (st ''/debug/pprof/symbol'') ''/debug/pprof/symbol'' (Pprof ''Symbol'')
       (UnlistedHandle NotFoundH (st ''/debug/pprof/profile'') ''/debug/pprof/profile'' (Pprof ''Profile'') m1))))"

definition DefaultMetrics_Install :: "(string \<Rightarrow> string) \<Rightarrow> srv_handler PathRecorderMux \<Rightarrow> srv_handler PathRecorderMux" where
  "DefaultMetrics_Install st m = Handle NotFoundH (st ''/metrics'') ''/metrics'' MetricsHandler m"

text \<open>The director: a web service claims its root path and what lies below it.\<close>

fun claimed :: "string list \<Rightarrow> string \<Rightarrow> bool" where
  "claimed [] path = False"
| "claimed (root # roots) path =
     (if root = ''/apis'' then (if path = ''/apis'' \<or> path = ''/apis/'' then True else claimed roots path)
      else if HasPrefix path root then (if length path = length root \<or> path ! length root = CHR ''/'' then True else claimed roots path)
      else claimed roots path)"

datatype served = GoRestful | NonGoRestful srv_handler

definition director_ServeHTTP :: "string list \<Rightarrow> srv_handler PathRecorderMux \<Rightarrow> string \<Rightarrow> served" where
  "director_ServeHTTP roots m path = (if claimed roots path then GoRestful else NonGoRestful (mux_ServeHTTP m path))"

section \<open>The server\<close>

text \<open>\<open>listener_s\<close> is \<open>None\<close> when the server has no serving info and \<open>Some False\<close> when its listener is nil. A hook is what its call gives. The channel \<open>done\<close> of a start hook is closed when its name is in \<open>finished_s\<close>.\<close>

type_synonym hook = "string option outcome"

text \<open>A route of a web service: the root of the service, the verb, the path below the root and the name of the handler.\<close>

type_synonym rest_route = "string \<times> string \<times> string \<times> string"

definition version_route :: rest_route where
  "version_route = (''/version'', ''GET'', ''/'', ''handleVersion'')"

record GenericServer =
  mux_s :: "srv_handler PathRecorderMux"
  roots_s :: "string list"
  routes_s :: "rest_route list"
  postStartHooks :: "string \<rightharpoonup> hook"
  postStartHooksCalled :: bool
  preShutdownHooks :: "string \<rightharpoonup> hook"
  preShutdownHooksCalled :: bool
  healthzChecks :: "HealthzChecker list"
  healthzCreated :: bool
  finished_s :: "string list"
  listener_s :: "bool option"

record Config =
  EnableProfiling :: bool
  EnableMetrics :: bool
  HealthzChecks :: "HealthzChecker list"
  has_version :: bool
  SecureServingInfo :: "bool option"

definition NewConfig :: Config where
  "NewConfig = \<lparr>EnableProfiling = False, EnableMetrics = True, HealthzChecks = [PingHealthz], has_version = True, SecureServingInfo = None\<rparr>"

definition installAPI :: "(string \<Rightarrow> string) \<Rightarrow> Config \<Rightarrow> GenericServer \<Rightarrow> GenericServer outcome" where
  "installAPI st c s =
     obind (if EnableProfiling c then Profiling_Install st (mux_s s) else Value (mux_s s)) (\<lambda>m1.
     let m2 = (if EnableMetrics c then DefaultMetrics_Install st m1 else m1)
     in Value (s\<lparr>mux_s := m2, roots_s := (if has_version c then roots_s s @ [''/version''] else roots_s s),
       routes_s := (if has_version c then routes_s s @ [version_route] else routes_s s)\<rparr>))"

definition NewServer :: "(string \<Rightarrow> string) \<Rightarrow> Config \<Rightarrow> string \<Rightarrow> GenericServer outcome" where
  "NewServer st c name =
     installAPI st c \<lparr>mux_s = NewPathRecorderMux NotFoundH name, roots_s = [], routes_s = [], postStartHooks = Map.empty, postStartHooksCalled = False,
       preShutdownHooks = Map.empty, preShutdownHooksCalled = False, healthzChecks = HealthzChecks c, healthzCreated = False, finished_s = [],
       listener_s = SecureServingInfo c\<rparr>"

record ApiSingle =
  Verb_as :: string
  Path_as :: string
  Handler_as :: string

record ApiVersion =
  Prefix_av :: string
  Group_av :: "ApiSingle list"

text \<open>A group of routes becomes a web service of the container; an empty root path is the path of the root. A handler is its name.\<close>

definition InstallREST :: "ApiVersion \<Rightarrow> GenericServer \<Rightarrow> GenericServer" where
  "InstallREST v s =
     (let root = (if Prefix_av v = '''' then ''/'' else Prefix_av v)
      in s\<lparr>roots_s := roots_s s @ [root], routes_s := routes_s s @ map (\<lambda>a. (root, Verb_as a, Path_as a, Handler_as a)) (Group_av v)\<rparr>)"

definition Install :: "ApiVersion list \<Rightarrow> GenericServer \<Rightarrow> GenericServer" where
  "Install versions s = fold InstallREST versions s"

datatype server_error = MissingName | AlreadyCalled string | AlreadyRegistered string | HealthzExists | NoListener | HookErrors "go_error list"

definition AddHealthzChecks :: "HealthzChecker list \<Rightarrow> GenericServer \<Rightarrow> server_error option \<times> GenericServer" where
  "AddHealthzChecks checks s = (if healthzCreated s then (Some HealthzExists, s) else (None, s\<lparr>healthzChecks := healthzChecks s @ checks\<rparr>))"

definition installHealthz :: "(string \<Rightarrow> string) \<Rightarrow> GenericServer \<Rightarrow> GenericServer" where
  "installHealthz st s = s\<lparr>healthzCreated := True, mux_s := InstallHandler st (healthzChecks s) (mux_s s)\<rparr>"

definition PrepareRun :: "(string \<Rightarrow> string) \<Rightarrow> GenericServer \<Rightarrow> GenericServer" where
  "PrepareRun st s = installHealthz st s"

definition postStartHookHealthz :: "string \<Rightarrow> HealthzChecker" where
  "postStartHookHealthz name =
     \<lparr>Name_hc = ''poststarthook/'' @ name, Check_hc = (\<lambda>finished. if finished name then None else Some ''not finished'')\<rparr>"

text \<open>The error of \<open>AddHealthzChecks\<close> is dropped, as in the code.\<close>

definition AddPostStartHook :: "string \<Rightarrow> hook option \<Rightarrow> GenericServer \<Rightarrow> server_error option \<times> GenericServer" where
  "AddPostStartHook name h s =
     (if name = '''' then (Some MissingName, s)
      else case h of
        None \<Rightarrow> (None, s)
      | Some hk \<Rightarrow>
          if postStartHooksCalled s then (Some (AlreadyCalled name), s)
          else if postStartHooks s name \<noteq> None then (Some (AlreadyRegistered name), s)
          else let s1 = snd (AddHealthzChecks [postStartHookHealthz name] s)
               in (None, s1\<lparr>postStartHooks := (postStartHooks s1)(name \<mapsto> hk)\<rparr>))"

definition AddPreShutdownHook :: "string \<Rightarrow> hook option \<Rightarrow> GenericServer \<Rightarrow> server_error option \<times> GenericServer" where
  "AddPreShutdownHook name h s =
     (if name = '''' then (Some MissingName, s)
      else case h of
        None \<Rightarrow> (None, s)
      | Some hk \<Rightarrow>
          if preShutdownHooksCalled s then (Some (AlreadyCalled name), s)
          else if preShutdownHooks s name \<noteq> None then (Some (AlreadyRegistered name), s)
          else (None, s\<lparr>preShutdownHooks := (preShutdownHooks s)(name \<mapsto> hk)\<rparr>))"

text \<open>The goroutine of a start hook: a panic goes on, since \<open>HandleCrash\<close> panics again, and an error ends the process.\<close>

definition runPostStartHook :: "string \<Rightarrow> GenericServer \<Rightarrow> GenericServer outcome" where
  "runPostStartHook name s =
     (case postStartHooks s name of
        None \<Rightarrow> Value s
      | Some hk \<Rightarrow> obind hk (\<lambda>err. case err of
          Some e \<Rightarrow> Panic (''PostStartHook failed: '' @ e)
        | None \<Rightarrow> if name \<in> set (finished_s s) then Panic ''close of closed channel'' else Value (s\<lparr>finished_s := name # finished_s s\<rparr>)))"

definition RunPostStartHooks :: "GenericServer \<Rightarrow> GenericServer" where
  "RunPostStartHooks s = s\<lparr>postStartHooksCalled := True\<rparr>"

definition isPostStartHookRegistered :: "string \<Rightarrow> GenericServer \<Rightarrow> bool" where
  "isPostStartHookRegistered name s \<longleftrightarrow> postStartHooks s name \<noteq> None"

definition runPreShutdownHook :: "string \<Rightarrow> hook \<Rightarrow> go_error option outcome" where
  "runPreShutdownHook name hk = obind hk (\<lambda>err. Value (map_option (\<lambda>e. PlainErr (''PreShutdownHook '' @ name @ '' failed: '' @ e)) err))"

text \<open>The hooks run in the order in which Go visits the map; \<open>names\<close> is that order.\<close>

fun run_each :: "string list \<Rightarrow> GenericServer \<Rightarrow> go_error list outcome" where
  "run_each [] s = Value []"
| "run_each (n # ns) s = (case preShutdownHooks s n of
     None \<Rightarrow> run_each ns s
   | Some hk \<Rightarrow> obind (runPreShutdownHook n hk) (\<lambda>e. obind (run_each ns s) (\<lambda>es. Value (case e of None \<Rightarrow> es | Some x \<Rightarrow> x # es))))"

definition RunPreShutdownHooks :: "string list \<Rightarrow> GenericServer \<Rightarrow> (server_error option \<times> GenericServer) outcome" where
  "RunPreShutdownHooks names s =
     (let s1 = s\<lparr>preShutdownHooksCalled := True\<rparr>
      in obind (run_each names s1) (\<lambda>es. Value (map_option HookErrors (NewAggregate (map Some es)), s1)))"

definition NonBlockingRun :: "GenericServer \<Rightarrow> server_error option \<times> GenericServer" where
  "NonBlockingRun s = (if listener_s s = Some False then (Some NoListener, s) else (None, RunPostStartHooks s))"

text \<open>What \<open>Run\<close> does after the stop signal: the hooks, then the wait, which a failing hook skips.\<close>

definition stop_server :: "string list \<Rightarrow> GenericServer \<Rightarrow> SafeWaitGroup \<Rightarrow> (server_error option \<times> GenericServer \<times> SafeWaitGroup) outcome" where
  "stop_server names s g =
     obind (RunPreShutdownHooks names s) (\<lambda>(err, s1). case err of
       Some e \<Rightarrow> Value (Some e, s1, g)
     | None \<Rightarrow> Value (None, s1, wg_Wait g))"

section \<open>The director\<close>

lemma claim_or: "(H \<and> L \<longleftrightarrow> Q) \<Longrightarrow> (if A then (if P then True else R) else if H then (if L then True else R) else R) \<longleftrightarrow> (if A then P else Q) \<or> R"
  by auto

lemma claimed_iff:
  "claimed roots path \<longleftrightarrow> (\<exists>root \<in> set roots. if root = ''/apis'' then path = ''/apis'' \<or> path = ''/apis/'' else path = root \<or> HasPrefix path (root @ ''/''))"
proof (induction roots)
  case (Cons root roots)
  have "HasPrefix path root \<and> (length path = length root \<or> path ! length root = CHR ''/'') \<longleftrightarrow> path = root \<or> HasPrefix path (root @ ''/'')"
  proof
    assume h: "HasPrefix path root \<and> (length path = length root \<or> path ! length root = CHR ''/'')"
    then obtain r where "path = root @ r" by (auto simp: HasPrefix_iff)
    then show "path = root \<or> HasPrefix path (root @ ''/'')" using h by (cases r) (auto simp: HasPrefix_iff)
  qed (auto simp: HasPrefix_iff nth_append)
  then have "claimed (root # roots) path \<longleftrightarrow> (if root = ''/apis'' then path = ''/apis'' \<or> path = ''/apis/'' else path = root \<or> HasPrefix path (root @ ''/'')) \<or> claimed roots path"
    unfolding claimed.simps by (rule claim_or)
  then show ?case unfolding Cons.IH by (simp only: list.set bex_simps)
qed simp

section \<open>Health and start hooks\<close>

lemma check_each_failed: "fst (check_each finished cs) \<longleftrightarrow> (\<exists>c \<in> set cs. Check_hc c finished \<noteq> None)"
  by (induction cs) (auto split: prod.splits option.splits)

lemma healthz_status:
  "status_w (handleRootHealthz checks finished verbose new_writer) = Some (if \<forall>c \<in> set checks. Check_hc c finished = None then 200 else 500)"
proof -
  obtain failed verboseOut where c: "check_each finished checks = (failed, verboseOut)" by fastforce
  have "status_w (handleRootHealthz checks finished verbose new_writer) = Some (if failed then 500 else 200)"
    by (simp add: handleRootHealthz_def c http_Error_def new_writer_def w_header_def)
  moreover have "failed \<longleftrightarrow> \<not> (\<forall>c \<in> set checks. Check_hc c finished = None)" using check_each_failed [of finished checks] by (simp add: c)
  ultimately show ?thesis by simp
qed

datatype srv_op = OpHook string "hook option" | OpPreHook string "hook option" | OpChecks "HealthzChecker list" | OpService ApiVersion | OpPrepare | OpRun | OpHookEnd string

fun srv_step :: "(string \<Rightarrow> string) \<Rightarrow> srv_op \<Rightarrow> GenericServer \<Rightarrow> GenericServer outcome" where
  "srv_step st (OpHook n h) s = Value (snd (AddPostStartHook n h s))"
| "srv_step st (OpPreHook n h) s = Value (snd (AddPreShutdownHook n h s))"
| "srv_step st (OpChecks cs) s = Value (snd (AddHealthzChecks cs s))"
| "srv_step st (OpService v) s = Value (InstallREST v s)"
| "srv_step st OpPrepare s = Value (PrepareRun st s)"
| "srv_step st OpRun s = Value (snd (NonBlockingRun s))"
| "srv_step st (OpHookEnd n) s = runPostStartHook n s"

fun srv_run :: "(string \<Rightarrow> string) \<Rightarrow> srv_op list \<Rightarrow> GenericServer \<Rightarrow> GenericServer outcome" where
  "srv_run st [] s = Value s"
| "srv_run st (x # xs) s = obind (srv_step st x s) (srv_run st xs)"

text \<open>The health endpoint of a prepared server runs the checks the server holds, which do not change any more.\<close>

definition healthz_of :: "GenericServer \<Rightarrow> HealthzChecker list" where
  "healthz_of s = (if healthzChecks s = [] then [PingHealthz] else healthzChecks s)"

definition prepared :: "GenericServer \<Rightarrow> bool" where
  "prepared s \<longleftrightarrow> healthzCreated s \<and> mux_ServeHTTP (mux_s s) ''/healthz'' = RootHealthz (healthz_of s)"

lemma handled_keeps: "pathToHandler m p = Some h \<Longrightarrow> p \<noteq> path \<Longrightarrow> pathToHandler (Handle nf t path h' m) p = Some h"
  by (simp add: Handle_def trackCallers_def refreshMuxLocked_def Let_def)

lemma handled_served: "pathToHandler (Handle nf t path h m) p = Some k \<Longrightarrow> mux_ServeHTTP (Handle nf t path h m) p = k"
  by (simp add: mux_ServeHTTP_def pathHandler_ServeHTTP_def Handle_def refreshMuxLocked_def Let_def)

text \<open>A router whose serving table shows an exact handler keeps it when other paths are registered.\<close>

lemma fold_Handle_served:
  assumes "pathToHandler m p = Some h" "mux_ServeHTTP m p = h" "\<forall>c \<in> set cs. f c \<noteq> p"
  shows "mux_ServeHTTP (fold (\<lambda>c. Handle nf (t c) (f c) (g c)) cs m) p = h"
  using assms
proof (induction cs arbitrary: m)
  case (Cons c cs)
  then show ?case using handled_keeps [of m p h "f c"] handled_served [of nf "t c" "f c" "g c" m p h] by auto
qed simp

lemma InstallHandler_served: "mux_ServeHTTP (InstallHandler st checks m) ''/healthz'' = RootHealthz (if checks = [] then [PingHealthz] else checks)"
  unfolding InstallHandler_def Let_def
  by (rule fold_Handle_served) (simp_all add: mux_ServeHTTP_def pathHandler_ServeHTTP_def Handle_def trackCallers_def refreshMuxLocked_def Let_def)

lemma PrepareRun_prepared: "prepared (PrepareRun st s)" "healthz_of (PrepareRun st s) = healthz_of s" "finished_s (PrepareRun st s) = finished_s s"
  by (simp_all add: prepared_def PrepareRun_def installHealthz_def InstallHandler_served healthz_of_def)

lemma step_frame:
  assumes "healthzCreated s" "srv_step st x s = Value s'" "x \<noteq> OpPrepare"
  shows "healthzCreated s' \<and> mux_s s' = mux_s s \<and> healthzChecks s' = healthzChecks s"
  using assms
  by (cases x) (auto simp: AddPostStartHook_def AddPreShutdownHook_def AddHealthzChecks_def InstallREST_def NonBlockingRun_def Let_def RunPostStartHooks_def
      runPostStartHook_def outcome_simps Let_def split: option.splits if_splits)

lemma step_prepared:
  assumes "prepared s" "srv_step st x s = Value s'"
  shows "prepared s' \<and> healthz_of s' = healthz_of s"
proof (cases "x = OpPrepare")
  case True
  then show ?thesis using assms(2) PrepareRun_prepared by auto
next
  case False
  then show ?thesis using step_frame [OF _ assms(2)] assms(1) by (simp add: prepared_def healthz_of_def)
qed

lemma run_prepared: "srv_run st xs s = Value s' \<Longrightarrow> prepared s \<Longrightarrow> prepared s' \<and> healthz_of s' = healthz_of s"
proof (induction xs arbitrary: s)
  case (Cons x xs)
  then obtain s1 where "srv_step st x s = Value s1" "srv_run st xs s1 = Value s'" by (auto simp: outcome_simps)
  then show ?case using Cons step_prepared by metis
qed simp

text \<open>A server is not reported healthy too early. When a start hook was added before the server was prepared, then whatever the server does afterwards
  its health endpoint includes the check of that hook, and it answers with the status 200 exactly when all checks pass; so not before the hook has
  finished.\<close>

theorem healthz_waits_for_hooks:
  assumes "\<not> healthzCreated s1" "AddPostStartHook hk_name (Some hk) s1 = (None, s2)" "srv_run st xs (PrepareRun st s2) = Value s"
    and "\<not> claimed (roots_s s) ''/healthz''"
  shows "\<exists>checks. director_ServeHTTP (roots_s s) (mux_s s) ''/healthz'' = NonGoRestful (RootHealthz checks) \<and> postStartHookHealthz hk_name \<in> set checks
    \<and> status_w (handleRootHealthz checks (\<lambda>n. n \<in> set (finished_s s)) verbose new_writer)
        = Some (if \<forall>c \<in> set checks. Check_hc c (\<lambda>n. n \<in> set (finished_s s)) = None then 200 else 500)
    \<and> (hk_name \<notin> set (finished_s s) \<longrightarrow> status_w (handleRootHealthz checks (\<lambda>n. n \<in> set (finished_s s)) verbose new_writer) = Some 500)"
proof -
  have s: "prepared s" "healthz_of s = healthz_of s2" using run_prepared [OF assms(3) PrepareRun_prepared(1)] PrepareRun_prepared(2) by simp_all
  have mem: "postStartHookHealthz hk_name \<in> set (healthz_of s2)"
    using assms(1,2) by (auto simp: AddPostStartHook_def AddHealthzChecks_def healthz_of_def Let_def split: if_splits)
  have unfinished: "\<not> (\<forall>c \<in> set (healthz_of s2). Check_hc c (\<lambda>n. n \<in> set (finished_s s)) = None)" if "hk_name \<notin> set (finished_s s)"
  proof
    assume "\<forall>c \<in> set (healthz_of s2). Check_hc c (\<lambda>n. n \<in> set (finished_s s)) = None"
    from bspec [OF this mem] show False using that by (simp add: postStartHookHealthz_def)
  qed
  have "director_ServeHTTP (roots_s s) (mux_s s) ''/healthz'' = NonGoRestful (RootHealthz (healthz_of s2))"
    using s assms(4) by (simp add: director_ServeHTTP_def prepared_def)
  then show ?thesis using mem unfinished by (intro exI [of _ "healthz_of s2"] conjI impI) (simp_all only: healthz_status if_False simp_thms)
qed

definition demo_server :: GenericServer where
  "demo_server = the_value (NewServer (\<lambda>_. '''') NewConfig ''srv'')"

theorem healthz_waits_for_hooks_witness:
  "\<exists>checks. status_w (handleRootHealthz checks (\<lambda>n. n \<in> set (finished_s (snd (NonBlockingRun (PrepareRun (\<lambda>_. '''') (snd (AddPostStartHook ''h'' (Some (Value None)) demo_server)))))))
     False new_writer) = Some 500"
proof -
  let ?s2 = "snd (AddPostStartHook ''h'' (Some (Value None)) demo_server)" and ?st = "\<lambda>_ :: string. '''' :: string"
  let ?s = "snd (NonBlockingRun (PrepareRun ?st ?s2))"
  have d: "\<not> healthzCreated demo_server" "postStartHooks demo_server = Map.empty" "\<not> postStartHooksCalled demo_server" "roots_s demo_server = [''/version'']" "finished_s demo_server = []"
    by (simp_all add: demo_server_def NewServer_def NewConfig_def installAPI_def)
  then have add: "AddPostStartHook ''h'' (Some (Value None)) demo_server = (None, ?s2)" and s: "roots_s ?s = [''/version'']" "finished_s ?s = []"
    by (simp_all add: AddPostStartHook_def AddHealthzChecks_def PrepareRun_def installHealthz_def NonBlockingRun_def RunPostStartHooks_def Let_def)
  have run: "srv_run ?st [OpRun] (PrepareRun ?st ?s2) = Value ?s" by simp
  have "\<not> claimed (roots_s ?s) ''/healthz''" by (simp add: s HasPrefix_def)
  from healthz_waits_for_hooks [OF d(1) add run this, of False] show ?thesis using s(2) by (metis empty_iff empty_set)
qed

text \<open>A shutdown hook that fails makes the server stop at once: it does not wait for the requests that are being handled.\<close>

lemma failing_hook_skips_wait:
  assumes "preShutdownHooks s n = Some (Value (Some e))" "n \<in> set names" "stop_server names s g = Value (err, s', g')"
  shows "err \<noteq> None \<and> g' = g"
proof -
  have same: "run_each ns (s\<lparr>preShutdownHooksCalled := True\<rparr>) = run_each ns s" for ns by (induction ns) (auto split: option.splits)
  have nonempty: "run_each ns s = Value es \<Longrightarrow> n \<in> set ns \<Longrightarrow> es \<noteq> []" for ns es
  proof (induction ns arbitrary: es)
    case (Cons k ks)
    then show ?case using assms(1) by (cases "k = n") (auto simp: runPreShutdownHook_def outcome_simps split: option.splits)
  qed simp
  obtain es where es: "run_each names s = Value es" using assms(3) by (auto simp: stop_server_def RunPreShutdownHooks_def same Let_def outcome_simps)
  have "map_option HookErrors (NewAggregate (map Some es)) \<noteq> None"
    using nonempty [OF es assms(2)] by (cases es) (auto simp: NewAggregate_def List.map_filter_def)
  then show ?thesis using assms(3) es by (auto simp: stop_server_def RunPreShutdownHooks_def same Let_def)
qed

end
