(* ===== verification/Clients.thy ===== *)
theory Clients
  imports Auth Server FuncServer
begin

text \<open>
  The clients of the controller: that of the function registry (\<open>src/pkg/controller/registry/registry.go\<close>) and that of the funclet
  (\<open>src/pkg/funclet/client/client.go\<close>), both over the client library of \<open>Rest\<close>. What the registry client gives is what \<open>FuncServer\<close> takes for the
  answer of the registry; the calls of the funclet client are matched with the routes the funclet installs (\<open>src/pkg/funclet/handler.go\<close>) and with the
  director of its server. Encoding and decoding of the bodies are parameters.
\<close>

record http_env =
  tr_env :: transport
  refused_env :: "string \<Rightarrow> url \<Rightarrow> string option"
  dec_env :: decoders
  marshal_he :: "BasicError \<Rightarrow> string"
  text_env :: "rest_error \<Rightarrow> string"
  hmac_env :: "string \<Rightarrow> string \<Rightarrow> string"
  now_env :: string
  keys_env :: "http_header \<Rightarrow> string list"

section \<open>The registry client\<close>

record RegistryClient =
  authTransfer :: bool
  client_rg :: RESTClient
  signer_rg :: signer

record registry_Options =
  Endpoint_o :: url
  Version_o :: string
  AuthName_o :: string
  AuthParams_o :: "string + (string \<rightharpoonup> string)"
  AuthTransfer_o :: bool

text \<open>\<open>AuthParams_o\<close> is what reading the parameter text gives, the empty map for an empty text, and \<open>Endpoint_o\<close> the parsed address.\<close>

definition NewRegistry :: "registry_Options \<Rightarrow> (string + auth_error) + RegistryClient" where
  "NewRegistry opts = (case AuthParams_o opts of
     Inl e \<Rightarrow> Inl (Inl e)
   | Inr params \<Rightarrow> (case factory_NewSigner (AuthName_o opts) params of
       Inl e \<Rightarrow> Inl (Inr e)
     | Inr sg \<Rightarrow> Inr \<lparr>authTransfer = AuthTransfer_o opts,
         client_rg = NewRESTClient (Endpoint_o opts) (Version_o opts)
           \<lparr>AcceptContentTypes = '''', ContentType_cc = '''', BackendType = '''', Connection_cc = '''', KeepAlive_cc = '''', ClientTimeout_cc = 30 * Second\<rparr> None,
         signer_rg = sg\<rparr>))"

definition registry_get :: "string \<Rightarrow> string \<Rightarrow> bool \<Rightarrow> RegistryClient \<Rightarrow> Request" where
  "registry_get resource requestID simpleAuth c =
     (let r0 = rest_Resource resource (rest_Get (client_rg c));
          r1 = rest_SetHeader ''Host'' [Host_u (rest_URL r0)] r0;
          r2 = rest_SetHeader ''X-easyfaas-Request-Id'' [requestID] r1
      in if simpleAuth then rest_SetHeader ''BCE-FAAS-UID'' [''root''] (rest_SetHeader ''X-Auth-Token'' [''cfc-auth-2018''] r2) else r2)"

definition authorize :: "http_env \<Rightarrow> RegistryClient \<Rightarrow> string \<Rightarrow> string option \<Rightarrow> Request \<Rightarrow> Request" where
  "authorize env c authorization accountID r =
     (if authTransfer c \<and> authorization \<noteq> '''' then rest_SetHeader ''Authorization'' [authorization] r
      else let r1 = (case accountID of Some a \<Rightarrow> rest_SetHeader ''X-easyfaas-Account-Id'' [a] r | None \<Rightarrow> r)
           in rest_SetHeader ''Authorization'' [signature_of (hmac_env env) (now_env env) (signer_rg c) (keys_env env (headers_r r1)) r1] r1)"

definition as_go_error :: "http_env \<Rightarrow> rest_error \<Rightarrow> go_error" where
  "as_go_error env e = (case e of FinalRestErr f \<Rightarrow> FinalErr f | _ \<Rightarrow> PlainErr (text_env env e))"

text \<open>The object with the error; \<open>blank\<close> is the object an error leaves behind.\<close>

definition registry_fetch :: "http_env \<Rightarrow> (string \<Rightarrow> string + 'o) \<Rightarrow> 'o \<Rightarrow> string \<Rightarrow> Request \<Rightarrow> 'o \<times> go_error option" where
  "registry_fetch env decode blank msg r =
     (let result = rest_Do (tr_env env) (refused_env env) (dec_env env) r
      in case Into (dec_env env) decode result of
          Inr v \<Rightarrow> (v, None)
        | Inl None \<Rightarrow> (blank, None)
        | Inl (Some e) \<Rightarrow>
            if statusCode_x result = 404
            then (blank, Some (FinalErr (NewResourceNotFoundException (marshal_he env) msg (Some (as_go_error env e)))))
            else (blank, Some (as_go_error env e)))"

definition registry_GetFunction :: "http_env \<Rightarrow> (string \<Rightarrow> string + 'o) \<Rightarrow> 'o \<Rightarrow> RegistryClient \<Rightarrow> GetFunctionInput \<Rightarrow> ('o \<times> go_error option) outcome" where
  "registry_GetFunction env decode blank c input =
     obind (deref_field (FunctionName_gf input)) (\<lambda>name.
     let r = registry_get (''functions/'' @ name) (RequestID_gf input) (SimpleAuth_gf input) c;
         r1 = authorize env c (Authorization_gf input) (Some (AccountID_gf input)) r
     in Value (registry_fetch env decode blank ''get function from data storer failed'' r1))"

definition registry_GetAlias :: "http_env \<Rightarrow> (string \<Rightarrow> string + 'o) \<Rightarrow> 'o \<Rightarrow> RegistryClient \<Rightarrow> GetAliasInput \<Rightarrow> 'o \<times> go_error option" where
  "registry_GetAlias env decode blank c input =
     (let r = registry_get (''functions/aliases/'' @ FunctionBrn_ga input) (RequestID_ga input) (SimpleAuth_ga input) c;
          r1 = authorize env c (Authorization_ga input) (Some (AccountID_ga input)) r
      in registry_fetch env decode blank ''get alias from data storer failed'' r1)"

definition registry_GetRuntimeConfiguration :: "http_env \<Rightarrow> (string \<Rightarrow> string + 'o) \<Rightarrow> 'o \<Rightarrow> RegistryClient \<Rightarrow> GetRuntimeConfigurationInput \<Rightarrow> 'o \<times> go_error option" where
  "registry_GetRuntimeConfiguration env decode blank c input =
     (let r = registry_get (''runtimes/'' @ RuntimeName_gr input @ ''/configuration'') (RequestID_gr input) False c;
          r1 = authorize env c (Authorization_gr input) None r
      in registry_fetch env decode blank ''get runtime configuration from data storer failed'' r1)"

section \<open>The funclet client\<close>

definition funclet_base :: url where
  "funclet_base = \<lparr>Scheme_u = ''http'', Host_u = ''funclet'', Path_u = '''', RawQuery_u = ''''\<rparr>"

definition funclet_timeout :: int64 where "funclet_timeout = 10 * Second"

definition NewFuncletClient :: RESTClient where
  "NewFuncletClient = NewRESTClient \<lparr>Scheme_u = '''', Host_u = '''', Path_u = '''', RawQuery_u = ''''\<rparr> ''v1''
     \<lparr>AcceptContentTypes = '''', ContentType_cc = '''', BackendType = ''internal'', Connection_cc = '''', KeepAlive_cc = '''', ClientTimeout_cc = 0\<rparr> (Some 0)"

definition with_id :: "string \<Rightarrow> Request \<Rightarrow> Request" where
  "with_id requestID r = (if requestID \<noteq> '''' then rest_SetHeader ''X-easyfaas-Request-Id'' [requestID] r else r)"

text \<open>The calls; \<open>body\<close> is the JSON text of the object that is sent, or the error of making it.\<close>

definition Info_call :: "string \<Rightarrow> string \<Rightarrow> RESTClient \<Rightarrow> Request" where
  "Info_call containerID requestID c = with_id requestID (rest_Timeout funclet_timeout (rest_Resource (''funclet/container/'' @ containerID) (rest_BaseURL (Some funclet_base) (rest_Get c))))"

definition List_call :: "string + string \<Rightarrow> string \<Rightarrow> RESTClient \<Rightarrow> Request" where
  "List_call body requestID c = with_id requestID (rest_Timeout funclet_timeout (rest_Body (JsonBody body) (rest_Resource ''funclet/list'' (rest_BaseURL (Some funclet_base) (rest_Get c)))))"

definition IDEWarmUp_call :: "string + string \<Rightarrow> string \<Rightarrow> RESTClient \<Rightarrow> Request" where
  "IDEWarmUp_call body requestID c = with_id requestID (rest_Timeout funclet_timeout (rest_Body (JsonBody body) (rest_Resource ''funclet/ide-warmup'' (rest_BaseURL (Some funclet_base) (Post c)))))"

definition WarmUp_call :: "string + string \<Rightarrow> string \<Rightarrow> RESTClient \<Rightarrow> Request" where
  "WarmUp_call body requestID c = with_id requestID (rest_Timeout funclet_timeout (rest_Body (JsonBody body) (rest_Resource ''funclet/warmup'' (rest_BaseURL (Some funclet_base) (Post c)))))"

definition CoolDown_call :: "string + string \<Rightarrow> string \<Rightarrow> RESTClient \<Rightarrow> Request" where
  "CoolDown_call body requestID c = with_id requestID (rest_Timeout (i64 (funclet_timeout * 3)) (rest_Body (JsonBody body) (rest_Resource ''funclet/cooldown'' (rest_BaseURL (Some funclet_base) (Post c)))))"

definition Reborn_call :: "string + string \<Rightarrow> string \<Rightarrow> RESTClient \<Rightarrow> Request" where
  "Reborn_call body requestID c = with_id requestID (rest_Timeout (i64 (funclet_timeout * 3)) (rest_Body (JsonBody body) (rest_Resource ''funclet/reborn'' (rest_BaseURL (Some funclet_base) (Post c)))))"

definition NodeInfo_call :: "string \<Rightarrow> RESTClient \<Rightarrow> Request" where
  "NodeInfo_call requestID c = with_id requestID (rest_Timeout funclet_timeout (rest_Resource ''funclet/node'' (rest_BaseURL (Some funclet_base) (rest_Get c))))"

text \<open>Every call ends with \<open>Do\<close> and \<open>Into\<close>; an error gives no object.\<close>

definition funclet_do :: "http_env \<Rightarrow> (string \<Rightarrow> string + 'o) \<Rightarrow> Request \<Rightarrow> rest_error option + 'o" where
  "funclet_do env decode r = Into (dec_env env) decode (rest_Do (tr_env env) (refused_env env) (dec_env env) r)"

text \<open>The API of the funclet below the prefix \<open>/v1\<close>.\<close>

definition funclet_apis :: "ApiSingle list" where
  "funclet_apis =
     [\<lparr>Verb_as = ''GET'', Path_as = ''hello'', Handler_as = ''HelloWorldHandler''\<rparr>,
      \<lparr>Verb_as = ''POST'', Path_as = ''funclet/warmup'', Handler_as = ''WarmUpHandler''\<rparr>,
      \<lparr>Verb_as = ''POST'', Path_as = ''funclet/ide-warmup'', Handler_as = ''IDEWarmUpHandler''\<rparr>,
      \<lparr>Verb_as = ''POST'', Path_as = ''funclet/cooldown'', Handler_as = ''CoolDownHandler''\<rparr>,
      \<lparr>Verb_as = ''POST'', Path_as = ''funclet/reborn'', Handler_as = ''RebornHandler''\<rparr>,
      \<lparr>Verb_as = ''GET'', Path_as = ''funclet/list'', Handler_as = ''ContainerListHandler''\<rparr>,
      \<lparr>Verb_as = ''GET'', Path_as = ''funclet/container/{ContainerID}'', Handler_as = ''ContainerInfoHandler''\<rparr>,
      \<lparr>Verb_as = ''POST'', Path_as = ''funclet/reset'', Handler_as = ''ResetHandler''\<rparr>,
      \<lparr>Verb_as = ''GET'', Path_as = ''funclet/node'', Handler_as = ''GetNodeHandler''\<rparr>]"

definition InstallAPI :: "GenericServer \<Rightarrow> GenericServer" where
  "InstallAPI s = Install [\<lparr>Prefix_av = ''/v1'', Group_av = funclet_apis\<rparr>] s"

section \<open>Answers of the registry\<close>

text \<open>An object that came out of a successful reply to the request.\<close>

definition genuine :: "http_env \<Rightarrow> (string \<Rightarrow> string + 'o) \<Rightarrow> Request \<Rightarrow> 'o \<Rightarrow> bool" where
  "genuine env decode r v \<longleftrightarrow> (\<exists>evs resp data. rest_request (tr_env env) (refused_env env) r = (evs, None) \<and> handled evs = [resp]
     \<and> (StatusCode_p resp = 101 \<or> 200 \<le> StatusCode_p resp \<and> StatusCode_p resp \<le> 206) \<and> Body_p resp = Some (Inr data) \<and> decode data = Inr v)"

lemma Into_error: "Into dec decode x = Inl e \<Longrightarrow> e \<noteq> None"
  by (auto simp: Into_def result_Error_def split: if_splits sum.splits)

lemma Into_genuine: "Into dec decode (rest_Do (tr_env env) (refused_env env) dec' r) = Inr v \<Longrightarrow> genuine env decode r v"
  unfolding genuine_def by (blast dest: Into_reply)

lemma fetch_genuine: "registry_fetch env decode blank msg r = (v, None) \<Longrightarrow> genuine env decode r v"
  by (auto simp: registry_fetch_def Let_def dest: Into_error Into_genuine split: sum.splits option.splits if_splits)

lemma fetch_not_found:
  "registry_fetch env decode blank msg r = (v, Some err) \<Longrightarrow>
     statusCode_x (rest_Do (tr_env env) (refused_env env) (dec_env env) r) = 404 \<Longrightarrow> \<exists>f. err = FinalErr f \<and> Status (BasicError_fe f) = 404"
  by (auto simp: registry_fetch_def NewResourceNotFoundException_def NewGenericException_def basic_def Let_def split: sum.splits option.splits if_splits go_error.splits)

text \<open>Setting a header changes no other part of a request.\<close>

lemma header_keeps [simp]:
  "verb_r (rest_SetHeader k vs r) = verb_r r" "resource_r (rest_SetHeader k vs r) = resource_r r" "baseURL_r (rest_SetHeader k vs r) = baseURL_r r"
  "err_r (rest_SetHeader k vs r) = err_r r"
  by (simp_all add: rest_SetHeader_def)

lemma new_request [simp]:
  "verb_r (NewRequest v u ver cfg t) = v" "resource_r (NewRequest v u ver cfg t) = ''''" "err_r (NewRequest v u ver cfg t) = None" "baseURL_r (NewRequest v u ver cfg t) = u"
  by (simp_all add: NewRequest_def Let_def)

lemma get_request [simp]: "verb_r (rest_Get c) = ''GET''" "resource_r (rest_Get c) = ''''" "err_r (rest_Get c) = None"
  by (simp_all add: rest_Get_def Verb_def)

lemma registry_requests [simp]:
  "verb_r (registry_get res rid sa c) = ''GET''" "resource_r (registry_get res rid sa c) = res" "baseURL_r (registry_get res rid sa c) = baseURL_r (rest_Get (client_rg c))"
  "err_r (registry_get res rid sa c) = None"
  by (simp_all add: registry_get_def rest_Resource_def Let_def)

lemma authorize_keeps [simp]:
  "verb_r (authorize env c au acc r) = verb_r r" "resource_r (authorize env c au acc r) = resource_r r" "baseURL_r (authorize env c au acc r) = baseURL_r r"
  "err_r (authorize env c au acc r) = err_r r"
  by (simp_all add: authorize_def Let_def split: option.split)

text \<open>C35: The controller caches only what the registry has said. A function that did not come from the cache and has no error was decoded from the body of a reply of
  the registry with a successful status to the GET request for this function, and an error changes nothing in the cache.\<close>

theorem cached_function_genuine:
  assumes "registry_GetFunction env decode blank c input = Value answer" "GetFunction now now' input answer s = Value ((v, False, err), s')"
  shows "(err = None \<longrightarrow> (\<exists>r name. FunctionName_gf input = Some name \<and> verb_r r = ''GET'' \<and> resource_r r = ''functions/'' @ name
      \<and> baseURL_r r = baseURL_r (rest_Get (client_rg c)) \<and> genuine env decode r v))
    \<and> (err \<noteq> None \<longrightarrow> s' = s)"
proof -
  obtain name r where name: "FunctionName_gf input = Some name" and r: "verb_r r = ''GET''" "resource_r r = ''functions/'' @ name"
    "baseURL_r r = baseURL_r (rest_Get (client_rg c))" "answer = registry_fetch env decode blank ''get function from data storer failed'' r"
  proof -
    obtain name where name: "FunctionName_gf input = Some name" using assms(1) by (cases "FunctionName_gf input") (simp_all add: registry_GetFunction_def deref_field_def)
    define r where "r = authorize env c (Authorization_gf input) (Some (AccountID_gf input)) (registry_get (''functions/'' @ name) (RequestID_gf input) (SimpleAuth_gf input) c)"
    have "answer = registry_fetch env decode blank ''get function from data storer failed'' r"
      using assms(1) by (simp add: registry_GetFunction_def name r_def Let_def)
    with name show thesis by (intro that [of name r]) (simp_all add: r_def)
  qed
  have "(v, err) = answer \<and> (err \<noteq> None \<longrightarrow> s' = s)"
    using assms(2) by (cases answer; cases "snd answer"; cases "WithCache_gf input")
      (auto simp: GetFunction_def case_prod_beta Let_def outcome_simps name split: if_splits)
  then show ?thesis using name r fetch_genuine by metis
qed

section \<open>Calls of the funclet\<close>

lemma request_of_verb:
  "verb_r (Verb v NewFuncletClient) = v" "pathPrefix_r (Verb v NewFuncletClient) = ''/v1''" "resource_r (Verb v NewFuncletClient) = ''''"
  "err_r (Verb v NewFuncletClient) = None" "namespaceSet_r (Verb v NewFuncletClient) = False"
  by (simp_all add: Verb_def NewFuncletClient_def NewRESTClient_def NewRequest_def rest_SetHeader_def HasSuffix_def path_Join_def path_Clean_def clean_step_def Let_def)

lemma below_v1: "list_all proper_name ps \<Longrightarrow> ps \<noteq> [] \<Longrightarrow> path_Join ''/v1'' (join_with ''/'' ps) = ''/v1/'' @ join_with ''/'' ps"
proof -
  assume ps: "list_all proper_name ps" "ps \<noteq> []"
  then obtain p qs where pq: "ps = p # qs" by (cases ps) auto
  have ne: "join_with ''/'' ps \<noteq> ''''" using ps(1) by (cases qs) (simp_all add: pq proper_name_def)
  have v1: "''/v1/'' @ join_with ''/'' ps = abs_path (''v1'' # ps)" by (simp add: abs_path_def pq)
  have "path_Join ''/v1'' (join_with ''/'' ps) = path_Clean (''/v1/'' @ join_with ''/'' ps)" using ne by (simp add: path_Join_def)
  also have "\<dots> = ''/v1/'' @ join_with ''/'' ps" unfolding v1 using ps(1) by (intro path_Clean_abs_path) (simp add: proper_name_def)
  finally show ?thesis .
qed

text \<open>The segments of a route, those in braces filled.\<close>

definition fill_route :: "string \<Rightarrow> string \<Rightarrow> string" where
  "fill_route v t = join_with ''/'' (map (\<lambda>p. if HasPrefix p ''{'' then v else p) (split_on (CHR ''/'') t))"

definition funclet_calls :: "string \<Rightarrow> string \<Rightarrow> string \<Rightarrow> (Request \<times> string) list" where
  "funclet_calls cid body rid =
     [(Info_call cid rid NewFuncletClient, ''ContainerInfoHandler''), (List_call (Inr body) rid NewFuncletClient, ''ContainerListHandler''),
      (IDEWarmUp_call (Inr body) rid NewFuncletClient, ''IDEWarmUpHandler''), (WarmUp_call (Inr body) rid NewFuncletClient, ''WarmUpHandler''),
      (CoolDown_call (Inr body) rid NewFuncletClient, ''CoolDownHandler''), (Reborn_call (Inr body) rid NewFuncletClient, ''RebornHandler''),
      (NodeInfo_call rid NewFuncletClient, ''GetNodeHandler'')]"

text \<open>What a call leaves in its request, whatever headers, timeout and body it sets.\<close>

definition routed :: "string \<Rightarrow> string \<Rightarrow> Request \<Rightarrow> bool" where
  "routed v res r \<longleftrightarrow> verb_r r = v \<and> resource_r r = res \<and> pathPrefix_r r = ''/v1'' \<and> err_r r = None \<and> \<not> namespaceSet_r r"

lemma routed_call: "res \<noteq> '''' \<Longrightarrow> routed v res (rest_Resource res (rest_BaseURL u (Verb v NewFuncletClient)))"
  by (simp add: routed_def rest_Resource_def rest_BaseURL_def request_of_verb)

lemma routed_kept:
  assumes "routed v res r"
  shows "routed v res (rest_Timeout d r)" "routed v res (with_id rid r)" "routed v res (rest_Body (JsonBody (Inr body)) r)"
  using assms by (simp_all add: routed_def rest_Timeout_def with_id_def rest_SetHeader_def rest_Body_def Let_def)

lemma routed_path: "routed v (join_with ''/'' ps) r \<Longrightarrow> list_all proper_name ps \<Longrightarrow> ps \<noteq> [] \<Longrightarrow> Path_u (rest_URL r) = ''/v1/'' @ join_with ''/'' ps"
proof -
  assume r: "routed v (join_with ''/'' ps) r" and ps: "list_all proper_name ps" "ps \<noteq> []"
  have "join_with ''/'' ps \<noteq> ''''" using ps by (cases ps; cases "tl ps") (simp_all add: proper_name_def)
  then show ?thesis using r below_v1 [OF ps] by (simp add: rest_URL_def routed_def Let_def)
qed

lemma calls_routed:
  "routed ''GET'' (join_with ''/'' [''funclet'', ''container'', cid]) (Info_call cid rid NewFuncletClient)"
  "routed ''GET'' (join_with ''/'' [''funclet'', ''list'']) (List_call (Inr body) rid NewFuncletClient)"
  "routed ''POST'' (join_with ''/'' [''funclet'', ''ide-warmup'']) (IDEWarmUp_call (Inr body) rid NewFuncletClient)"
  "routed ''POST'' (join_with ''/'' [''funclet'', ''warmup'']) (WarmUp_call (Inr body) rid NewFuncletClient)"
  "routed ''POST'' (join_with ''/'' [''funclet'', ''cooldown'']) (CoolDown_call (Inr body) rid NewFuncletClient)"
  "routed ''POST'' (join_with ''/'' [''funclet'', ''reborn'']) (Reborn_call (Inr body) rid NewFuncletClient)"
  "routed ''GET'' (join_with ''/'' [''funclet'', ''node'']) (NodeInfo_call rid NewFuncletClient)"
  unfolding Info_call_def List_call_def IDEWarmUp_call_def WarmUp_call_def CoolDown_call_def Reborn_call_def NodeInfo_call_def rest_Get_def Post_def
  by (auto intro!: routed_kept routed_call)

text \<open>The routes of a server that fit a request: those with its verb whose path, with the parameter filled in, is the path of the request.\<close>

definition fitting :: "string \<Rightarrow> GenericServer \<Rightarrow> Request \<Rightarrow> string list" where
  "fitting cid s r = map (\<lambda>(root, verb, t, h). h) (filter (\<lambda>(root, verb, t, h). verb = verb_r r \<and> Path_u (rest_URL r) = root @ ''/'' @ fill_route cid t) (routes_s s))"

lemma fill_routes:
  "fill_route cid ''funclet/container/{ContainerID}'' = ''funclet/container/'' @ cid"
  "fill_route cid ''funclet/list'' = ''funclet/list''" "fill_route cid ''funclet/ide-warmup'' = ''funclet/ide-warmup''" "fill_route cid ''funclet/warmup'' = ''funclet/warmup''"
  "fill_route cid ''funclet/cooldown'' = ''funclet/cooldown''" "fill_route cid ''funclet/reborn'' = ''funclet/reborn''" "fill_route cid ''funclet/node'' = ''funclet/node''"
  "fill_route cid ''hello'' = ''hello''" "fill_route cid ''funclet/reset'' = ''funclet/reset''" "fill_route cid ''/'' = ''/''"
  by (simp_all add: fill_route_def HasPrefix_def)

lemma installed_routes: "routes_s (InstallAPI s) = routes_s s @ map (\<lambda>a. (''/v1'', Verb_as a, Path_as a, Handler_as a)) funclet_apis"
  by (simp add: InstallAPI_def Install_def InstallREST_def Let_def)

lemma routed_fitting:
  assumes "routed v (join_with ''/'' ps) r" "list_all proper_name ps" "ps \<noteq> []" "set (routes_s s) \<subseteq> {version_route}"
  shows "err_r r = None \<and> director_ServeHTTP (roots_s (InstallAPI s)) (mux_s (InstallAPI s)) (Path_u (rest_URL r)) = GoRestful
    \<and> fitting cid (InstallAPI s) r = map Handler_as (filter (\<lambda>a. Verb_as a = v \<and> join_with ''/'' ps = fill_route cid (Path_as a)) funclet_apis)"
proof -
  have p: "Path_u (rest_URL r) = ''/v1/'' @ join_with ''/'' ps" by (rule routed_path [OF assms(1-3)])
  have "claimed (roots_s (InstallAPI s)) (Path_u (rest_URL r))"
    unfolding claimed_iff p by (rule bexI [of _ "''/v1''"]) (simp_all add: InstallAPI_def Install_def InstallREST_def HasPrefix_iff Let_def)
  moreover have "filter (\<lambda>(root, verb, t, h). verb = verb_r r \<and> Path_u (rest_URL r) = root @ ''/'' @ fill_route cid t) (routes_s s) = []"
    using assms(4) by (auto simp: filter_empty_conv version_route_def p)
  ultimately show ?thesis using assms(1)
    by (simp add: director_ServeHTTP_def routed_def fitting_def installed_routes p filter_map comp_def)
qed

text \<open>C29: The client and the server of the funclet agree on their routes. Every call of the client whose object can be encoded, for a container whose name is one path
  segment, is built without an error; the director of a server on which the funclet's API was installed passes its path on to the web services, and
  among the routes installed there exactly one has its verb and path, with the handler of that call.\<close>

theorem funclet_calls_routed:
  assumes "proper_name cid" "(r, handler) \<in> set (funclet_calls cid body rid)" "set (routes_s s) \<subseteq> {version_route}"
  shows "err_r r = None \<and> director_ServeHTTP (roots_s (InstallAPI s)) (mux_s (InstallAPI s)) (Path_u (rest_URL r)) = GoRestful \<and> fitting cid (InstallAPI s) r = [handler]"
proof -
  note at = calls_routed [THEN routed_fitting, OF _ _ assms(3), where cid = cid]
  have cid: "list_all proper_name [''funclet'', ''container'', cid]" using assms(1) by (simp add: proper_name_def)
  show ?thesis using assms(2) at(1) [OF cid] at(2-7) unfolding funclet_calls_def
    by (auto simp: funclet_apis_def fill_routes proper_name_def)
qed

section \<open>Witnesses\<close>

text \<open>A registry that answers every request with the same text, and one call of it.\<close>

definition demo_reply :: http_resp where
  "demo_reply = \<lparr>StatusCode_p = 200, Header_p = (\<lambda>_. []), Body_p = Some (Inr ''{}'')\<rparr>"

definition demo_env :: http_env where
  "demo_env = \<lparr>tr_env = (\<lambda>_ q. (Inr demo_reply, length (body_s q))), refused_env = (\<lambda>_ _. None), dec_env = demo_decoders, marshal_he = (\<lambda>_. ''''),
     text_env = (\<lambda>_. ''''), hmac_env = (\<lambda>k m. k), now_env = ''2020-01-01T00:00:00Z'', keys_env = (\<lambda>_. [''Host''])\<rparr>"

definition demo_registry :: RegistryClient where
  "demo_registry = \<lparr>authTransfer = True,
     client_rg = NewRESTClient \<lparr>Scheme_u = ''http'', Host_u = ''registry'', Path_u = '''', RawQuery_u = ''''\<rparr> ''v1'' demo_config None, signer_rg = NoAuth\<rparr>"

definition demo_input :: GetFunctionInput where
  "demo_input = \<lparr>Authorization_gf = ''token'', FunctionName_gf = Some ''f'', Qualifier_gf = None, RequestID_gf = ''r1'', AccountID_gf = ''a1'',
     WithCache_gf = False, SimpleAuth_gf = False\<rparr>"

lemma demo_answered:
  assumes "err_r r = None"
  shows "registry_fetch demo_env (\<lambda>t. Inr (length t)) 0 msg r = (2, None)"
proof -
  have "rest_attempt (tr_env demo_env) (refused_env demo_env) 0 (with_timeout r) = ([Slept 0, Sent (make_request (with_timeout r)), Handled demo_reply], turn.Ended None)"
    by (simp add: rest_attempt_def demo_env_def handle_reply_def checkWait_def demo_reply_def Let_def)
  then have "rest_request (tr_env demo_env) (refused_env demo_env) r = ([Slept 0, Sent (make_request (with_timeout r)), Handled demo_reply], None)"
    using assms by (simp add: rest_request_def attempts.simps [of _ _ 0])
  then have "rest_Do (tr_env demo_env) (refused_env demo_env) (dec_env demo_env) r = transformResponse (dec_env demo_env) (BackendType (content_r r)) demo_reply"
    by (simp add: rest_Do_def)
  then show ?thesis by (simp add: registry_fetch_def Into_def transformResponse_def demo_reply_def Let_def)
qed

theorem cached_function_genuine_witness:
  "\<exists>r. resource_r r = ''functions/f'' \<and> genuine demo_env (\<lambda>t. Inr (length t)) r 2"
proof -
  let ?s = "NewStorageCache [] :: (nat, nat, nat) StorageCache"
  have a: "registry_GetFunction demo_env (\<lambda>t. Inr (length t)) 0 demo_registry demo_input = Value (2, None)"
    by (simp add: registry_GetFunction_def demo_input_def demo_answered Let_def)
  have "GetFunction 0 0 demo_input (2, None) ?s = Value ((2, False, None), ?s)" by (simp add: GetFunction_def demo_input_def Let_def)
  from cached_function_genuine [OF a this] show ?thesis by (auto simp: demo_input_def)
qed

theorem funclet_calls_routed_witness:
  "fitting ''c1'' (InstallAPI demo_server) (Info_call ''c1'' ''r1'' NewFuncletClient) = [''ContainerInfoHandler'']"
proof -
  have "set (routes_s demo_server) \<subseteq> {version_route}" by (simp add: demo_server_def NewServer_def NewConfig_def installAPI_def)
  moreover have "proper_name ''c1''" "(Info_call ''c1'' ''r1'' NewFuncletClient, ''ContainerInfoHandler'') \<in> set (funclet_calls ''c1'' '''' ''r1'')"
    by (simp_all add: proper_name_def funclet_calls_def)
  ultimately show ?thesis using funclet_calls_routed [of "''c1''" _ "''ContainerInfoHandler''" "''''" "''r1''" demo_server] by blast
qed

text \<open>A container name with two dots leaves the route of the call.\<close>

lemma dotted_name_misrouted: "Path_u (rest_URL (Info_call ''..'' ''r1'' NewFuncletClient)) = ''/v1/funclet''"
  by (simp add: Info_call_def with_id_def rest_SetHeader_def rest_Timeout_def rest_Resource_def rest_BaseURL_def rest_Get_def request_of_verb rest_URL_def
      path_Join_def path_Clean_def clean_step_def Let_def)

end
