(* ===== verification/HttpTrigger.thy ===== *)
theory HttpTrigger
  imports Invoke
begin

text \<open>
  The ways into the controller: its HTTP handlers (\<open>src/pkg/controller/handler.go\<close>), its clients (\<open>src/pkg/controller/client\<close>, \<open>src/pkg/rest/fastclient.go\<close>) and
  the HTTP trigger (\<open>src/pkg/httptrigger\<close>), which turns a web request for a function into an invocation and the result into a web reply. The server
  library fasthttp is seen through what the code reads of a request and writes to a response. The call that runs a function is given the request
  it is made for; JSON encoders and decoders and MD5 are parameters. Events run where they are started.
\<close>

section \<open>Requests and responses\<close>

text \<open>What the code reads of a request: header and query values by key, the pairs it visits, path parameters, and the body, which may fail to be copied.\<close>

record fh_request =
  method_f :: string
  peek_f :: "string \<Rightarrow> string"
  visit_f :: "(string \<times> string) list"
  qpeek_f :: "string \<Rightarrow> string"
  qvisit_f :: "(string \<times> string) list"
  param_f :: "string \<Rightarrow> string"
  body_f :: string
  body_err_f :: "string option"

record fh_response =
  status_f :: int
  rheaders_f :: "(string \<times> string) list"
  rbody_f :: string
  rstream_f :: "string option"

definition fresh_response :: fh_response where
  "fresh_response = \<lparr>status_f = 200, rheaders_f = [], rbody_f = '''', rstream_f = None\<rparr>"

definition set_status :: "int \<Rightarrow> fh_response \<Rightarrow> fh_response" where
  "set_status c r = r\<lparr>status_f := c\<rparr>"

definition append_body :: "string \<Rightarrow> fh_response \<Rightarrow> fh_response" where
  "append_body s r = r\<lparr>rbody_f := rbody_f r @ s\<rparr>"

definition set_headers :: "(string \<times> string) list \<Rightarrow> fh_response \<Rightarrow> fh_response" where
  "set_headers hs r = r\<lparr>rheaders_f := fold (\<lambda>(k, v). AList.update k v) hs (rheaders_f r)\<rparr>"

text \<open>A stream to read from and what was written to it.\<close>

record body_stream =
  unread :: string
  written :: string

text \<open>\<open>src/pkg/api/controller.go\<close>.\<close>

record InvokeProxyRequest =
  Headers_pq :: "(string \<times> string) list"
  Body_pq :: "string option"
  BodyStream_pq :: "body_stream option"

definition NewInvokeProxyRequest :: "(string \<times> string) list \<Rightarrow> string option \<Rightarrow> body_stream option \<Rightarrow> InvokeProxyRequest" where
  "NewInvokeProxyRequest headers body bodyStream = \<lparr>Headers_pq = headers, Body_pq = body, BodyStream_pq = bodyStream\<rparr>"

record api_InvokeRequest =
  UserID_q :: string
  Authorization_q :: string
  FunctionBRN_q :: string
  Qualifier_q :: string
  Queries_q :: "(string \<times> string) list"
  Headers_q :: "(string \<times> string) list"
  Body_q :: "string option"
  BodyStream_q :: "body_stream option"
  WithBodyStream_q :: bool
  LogToBody_q :: bool
  LogType_q :: string
  RequestID_q :: string
  InvokeType_q :: string
  TriggerType_q :: string

record api_InvokeResponse =
  code_p :: int
  headers_p :: "(string \<times> string) list"
  bodyRaw_p :: string
  bodyStream_p :: "string option"

definition NewInvokeResponse :: api_InvokeResponse where
  "NewInvokeResponse = \<lparr>code_p = 0, headers_p = [], bodyRaw_p = '''', bodyStream_p = None\<rparr>"

definition GetHeader :: "string \<Rightarrow> api_InvokeResponse \<Rightarrow> string option" where
  "GetHeader k r = map_of (headers_p r) k"

section \<open>Handlers of the controller\<close>

definition HealthzHandler :: "fh_response \<Rightarrow> fh_response" where
  "HealthzHandler r = append_body ''hello controller'' (set_status 200 r)"

text \<open>The visited headers as a map: a later pair replaces an earlier one.\<close>

definition visited :: "(string \<times> string) list \<Rightarrow> (string \<times> string) list" where
  "visited ps = fold (\<lambda>(k, v). AList.update k v) ps []"

text \<open>One buffer is both ends of the stream, so what the request wrote is what the function reads.\<close>

definition generateBodyStream :: "fh_request \<Rightarrow> string + body_stream" where
  "generateBodyStream c = (case body_err_f c of Some e \<Rightarrow> Inl e | None \<Rightarrow> Inr \<lparr>unread = body_f c, written = body_f c\<rparr>)"

definition generateInvokeRequest :: "fh_request \<Rightarrow> InvokeProxyRequest" where
  "generateInvokeRequest c =
     (let hMap = visited (visit_f c)
      in case generateBodyStream c of
          Inl _ \<Rightarrow> NewInvokeProxyRequest hMap None None
        | Inr body \<Rightarrow>
            if ToLower (peek_f c ''X-easyfaas-Invoke-Type'') = InvokeTypeEvent then NewInvokeProxyRequest hMap (Some (unread body)) None
            else NewInvokeProxyRequest hMap None (Some body))"

text \<open>\<open>stream\<close> is the body stream the call left in the response.\<close>

definition makeHTTPResponse :: "InvokeProxyResponse \<Rightarrow> string option \<Rightarrow> fh_response \<Rightarrow> fh_response" where
  "makeHTTPResponse ir stream r =
     (let r1 = set_headers (Headers_pr ir) (set_status (StatusCode_pr ir) r)
      in case stream of Some bs \<Rightarrow> r1\<lparr>rstream_f := Some bs\<rparr> | None \<Rightarrow> append_body (Body_pr ir) r1)"

text \<open>The context of an invocation before its function is known; \<open>fresh\<close> is the identifier the controller makes.\<close>

definition empty_brn :: BRN where
  "empty_brn = \<lparr>Partition = '''', Service = '''', Region = '''', AccountID_brn = '''', Resource_brn = ''''\<rparr>"

definition handler_context :: "string \<Rightarrow> fh_request \<Rightarrow> InvokeContext" where
  "handler_context fresh c =
     (let external0 = peek_f c HeaderXRequestID;
          invokeType0 = ToLower (peek_f c ''X-easyfaas-Invoke-Type'');
          triggerType0 = ToLower (peek_f c ''X-easyfaas-Faas-Trigger'');
          accountID = peek_f c ''X-easyfaas-Account-Id'';
          external = (if external0 = '''' then fresh else external0);
          invokeType = (if invokeType0 = '''' then InvokeTypeCommon else invokeType0);
          triggerType = (if triggerType0 = '''' then TriggerTypeGeneric else triggerType0);
          mode0 = (if invokeType = InvokeTypeEvent \<or> invokeType = InvokeTypeMqhub then ClientModeInside else '''');
          clientMode = (if triggerType = TriggerTypeVscode then ClientModeInside else mode0)
      in \<lparr>ExternalRequestID_ctx = external, RequestID_ctx = fresh, AccountID_ctx = accountID, CallerUser_ctx = accountID, OwnerUser_ctx = '''',
          Authorization_ctx = peek_f c ''Authorization'', Function_ctx = None, Runtime_ctx = None, Input_ctx = None, Output_ctx = None,
          Response_ctx = NewInvokeProxyResponseWithRequestID external, Clients_ctx = NewClients clientMode, FunctionName_ctx = '''', FunctionBRN_ctx = '''',
          Qualifier_ctx = '''', Brn_ctx = empty_brn, LogType_ctx = GetLogType (peek_f c ''Log-Type'') (qpeek_f c ''logType''),
          LogToBody_ctx = GetLogToBody (peek_f c ''Log-To-Body'') (qpeek_f c ''logToBody''), WithStreamMode_ctx = False,
          InvokeType_ctx = invokeType, TriggerType_ctx = triggerType\<rparr>)"

text \<open>The function of the path: a plain name needs a qualifier, anything else is taken for a resource name. \<open>None\<close> when the qualifier is missing.\<close>

definition name_function :: "fh_request \<Rightarrow> InvokeContext \<Rightarrow> InvokeContext option" where
  "name_function c ctx =
     (let funcName = param_f c ''functionName''; qualifier = qpeek_f c ''Qualifier''
      in if \<not> RegfunctionName funcName then Some (ctx\<lparr>FunctionBRN_ctx := funcName\<rparr>)
         else if qualifier = '''' then None
         else Some (ctx\<lparr>FunctionName_ctx := funcName, Qualifier_ctx := qualifier\<rparr>))"

type_synonym call = "InvokeProxyRequest \<Rightarrow> control"

definition ctrl_Invoke :: "run_options \<Rightarrow> invoke_env \<Rightarrow> call \<Rightarrow> string option \<Rightarrow> InvokeProxyRequest \<Rightarrow> InvokeContext \<Rightarrow> ctrl_state \<Rightarrow> fh_response \<Rightarrow> fh_response \<times> ctrl_state" where
  "ctrl_Invoke opts env run stream req ctx st r =
     (case Do opts env (run req) ctx st of (ctx', st') \<Rightarrow>
        if InvokeType_ctx ctx = InvokeTypeEvent then (set_status 201 r, st')
        else (makeHTTPResponse (Response_ctx ctx') stream r, st'))"

definition InvokeHandler :: "run_options \<Rightarrow> invoke_env \<Rightarrow> call \<Rightarrow> string option \<Rightarrow> string \<Rightarrow> fh_request \<Rightarrow> ctrl_state \<Rightarrow> fh_response \<Rightarrow>
    go_error option \<times> fh_response \<times> ctrl_state" where
  "InvokeHandler opts env run stream fresh c st r =
     (case name_function c (handler_context fresh c) of
        None \<Rightarrow> let err = NewInvalidParameterValueException (marshal_env env) ''missing query parameter Qualifier'' None
                in (Some (FinalErr err), (set_status 400 r)\<lparr>rbody_f := MarshalJSON (marshal_env env) err\<rparr>, st)
      | Some ctx1 \<Rightarrow>
          let ctx2 = (if InvokeType_ctx ctx1 = InvokeTypeStream then ctx1\<lparr>WithStreamMode_ctx := True\<rparr> else ctx1)
          in (case ctrl_Invoke opts env run stream (generateInvokeRequest c) ctx2 st r of (r', st') \<Rightarrow> (None, r', st')))"

text \<open>Two of the handlers answer with the JSON text of a list or of the counters, or with the error of making it.\<close>

definition ListRuntimesHandler :: "(RuntimeInfo list \<Rightarrow> string + string) \<Rightarrow> ctrl_state \<Rightarrow> fh_response \<Rightarrow> go_error option \<times> fh_response" where
  "ListRuntimesHandler enc st r = (case enc (RuntimeList (manager st)) of Inl e \<Rightarrow> (Some (PlainErr e), r) | Inr body \<Rightarrow> (None, r\<lparr>rbody_f := body\<rparr>))"

definition GetResourceHandler :: "(ServiceResourceValue \<Rightarrow> string + string) \<Rightarrow> ctrl_state \<Rightarrow> fh_response \<Rightarrow> go_error option \<times> fh_response" where
  "GetResourceHandler enc st r = (case enc (ResourceStatistics (manager st)) of Inl e \<Rightarrow> (Some (PlainErr e), r) | Inr body \<Rightarrow> (None, r\<lparr>rbody_f := body\<rparr>))"

text \<open>A runtime that is not found is reported twice, once for the error and once for the missing object.\<close>

definition InvalidateRuntime :: "fh_request \<Rightarrow> ctrl_state \<Rightarrow> fh_response \<Rightarrow> fh_response \<times> ctrl_state" where
  "InvalidateRuntime c st r =
     (let runtimeID = param_f c ''runtimeID''; report = (\<lambda>r. append_body (''can not find runtime '' @ runtimeID) (set_status 404 r))
      in case GetRuntime runtimeID (manager st) of
          Inl _ \<Rightarrow> (report (report r), st)
        | Inr i \<Rightarrow> (r, st\<lparr>manager := upd_rt i Invalidate (manager st)\<rparr>))"

section \<open>Clients of the controller\<close>

text \<open>\<open>call.go\<close>: the client in the same process. The log type and the log-to-body flag of the request are not passed on.\<close>

definition call_context :: "string \<Rightarrow> api_InvokeRequest \<Rightarrow> InvokeContext" where
  "call_context fresh ir =
     \<lparr>ExternalRequestID_ctx = RequestID_q ir, RequestID_ctx = fresh, AccountID_ctx = UserID_q ir, CallerUser_ctx = '''', OwnerUser_ctx = '''',
      Authorization_ctx = Authorization_q ir, Function_ctx = None, Runtime_ctx = None, Input_ctx = None, Output_ctx = None,
      Response_ctx = NewInvokeProxyResponseWithRequestID (RequestID_q ir), Clients_ctx = NewClients ClientModeHTTPTrigger, FunctionName_ctx = '''',
      FunctionBRN_ctx = FunctionBRN_q ir, Qualifier_ctx = Qualifier_q ir, Brn_ctx = empty_brn, LogType_ctx = '''', LogToBody_ctx = False,
      WithStreamMode_ctx = WithBodyStream_q ir, InvokeType_ctx = InvokeTypeHttpTrigger, TriggerType_ctx = ''faas-http-trigger''\<rparr>"

definition call_request :: "api_InvokeRequest \<Rightarrow> InvokeProxyRequest outcome" where
  "call_request ir =
     (if WithBodyStream_q ir then Value (NewInvokeProxyRequest [] None (BodyStream_q ir))
      else obind (deref_field (Body_q ir)) (\<lambda>body. Value (NewInvokeProxyRequest [] (Some body) None)))"

definition call_response :: "InvokeContext \<Rightarrow> string option \<Rightarrow> api_InvokeResponse" where
  "call_response ctx stream =
     (let r = NewInvokeResponse\<lparr>code_p := StatusCode_pr (Response_ctx ctx), headers_p := Headers_pr (Response_ctx ctx)\<rparr>
      in if WithStreamMode_ctx ctx then r\<lparr>bodyStream_p := stream\<rparr> else r\<lparr>bodyRaw_p := Body_pr (Response_ctx ctx)\<rparr>)"

type_synonym 's invoker = "api_InvokeRequest \<Rightarrow> 's \<Rightarrow> ((go_error option \<times> api_InvokeResponse) \<times> 's) outcome"

definition call_Invoke :: "run_options \<Rightarrow> invoke_env \<Rightarrow> call \<Rightarrow> string option \<Rightarrow> string \<Rightarrow> ctrl_state invoker" where
  "call_Invoke opts env run stream fresh ir st =
     obind (call_request ir) (\<lambda>req.
       case Do opts env (run req) (call_context fresh ir) st of (ctx, st') \<Rightarrow> Value ((None, call_response ctx stream), st'))"

text \<open>\<open>rpc.go\<close>: the client over the network, with the client of \<open>fastclient.go\<close>. A query is its pairs and \<open>enc\<close> prints it.\<close>

record ControllerClient =
  scheme_cc :: string
  host_cc :: string
  prefix_cc :: string
  version_cc :: string

definition NewControllerClient :: "(string + string \<times> string \<times> string) \<Rightarrow> string \<Rightarrow> string + ControllerClient" where
  "NewControllerClient parsed host = (case parsed of
     Inl _ \<Rightarrow> Inl (''invaild host '' @ host)
   | Inr (scheme, h, path) \<Rightarrow> Inr \<lparr>scheme_cc = scheme, host_cc = h, prefix_cc = path, version_cc = ''v1''\<rparr>)"

record fast_request =
  uri_fr :: string
  method_fr :: string
  host_fr :: string
  header_fr :: "(string \<times> string) list"
  body_fr :: string

definition fast_Do :: "(fast_request \<Rightarrow> string + int \<times> (string \<times> string) list \<times> string) \<Rightarrow> fast_request \<Rightarrow> string + int \<times> (string \<times> string) list \<times> string" where
  "fast_Do net req = (case net req of
     Inl e \<Rightarrow> Inl e
   | Inr (code, hs, body) \<Rightarrow>
       if code = 101 then Inr (code, hs, body)
       else if code < 200 \<or> code > 206 then Inl body
       else Inr (code, hs, body))"

definition rpc_uri :: "((string \<times> string) list \<Rightarrow> string) \<Rightarrow> ControllerClient \<Rightarrow> api_InvokeRequest \<Rightarrow> string" where
  "rpc_uri enc c ir =
     (let endpoint = (if prefix_cc c \<noteq> '''' then host_cc c @ prefix_cc c else host_cc c);
          p = scheme_cc c @ ''://'' @ endpoint @ ''/'' @ version_cc c @ ''/functions/'' @ FunctionBRN_q ir @ ''/invocations''
      in if enc (Queries_q ir) \<noteq> '''' then p @ ''?'' @ enc (Queries_q ir) else p)"

definition rpc_headers :: "api_InvokeRequest \<Rightarrow> (string \<times> string) list" where
  "rpc_headers ir =
     (let set = (\<lambda>k v hs. AList.update k v hs);
          h0 = set ''Content-Type'' ''application/json'' (visited (Headers_q ir));
          h1 = set ''X-easyfaas-Account-Id'' (UserID_q ir) (set HeaderXRequestID (RequestID_q ir) h0);
          h2 = (if Authorization_q ir \<noteq> '''' then set ''Authorization'' (Authorization_q ir) h1 else h1);
          h3 = set ''Log-Type'' (LogType_q ir) (set ''X-easyfaas-Faas-Trigger'' (TriggerType_q ir) (set ''X-easyfaas-Invoke-Type'' (InvokeType_q ir) h2))
      in if LogToBody_q ir then set ''Log-To-Body'' ''true'' h3 else h3)"

definition rpc_Invoke :: "((string \<times> string) list \<Rightarrow> string) \<Rightarrow> (fast_request \<Rightarrow> string + int \<times> (string \<times> string) list \<times> string) \<Rightarrow> ControllerClient \<Rightarrow>
    api_InvokeRequest \<Rightarrow> go_error option \<times> api_InvokeResponse" where
  "rpc_Invoke enc net c ir =
     (let req = \<lparr>uri_fr = rpc_uri enc c ir, method_fr = ''POST'', host_fr = host_cc c, header_fr = rpc_headers ir,
                 body_fr = (case Body_q ir of Some b \<Rightarrow> b | None \<Rightarrow> '''')\<rparr>
      in case fast_Do net req of
          Inl e \<Rightarrow> (Some (PlainErr e), NewInvokeResponse)
        | Inr (code, hs, body) \<Rightarrow> (None, NewInvokeResponse\<lparr>code_p := code, bodyRaw_p := body, headers_p := visited hs\<rparr>))"

definition rpc_ListRuntimes :: "(fast_request \<Rightarrow> string + int \<times> (string \<times> string) list \<times> string) \<Rightarrow> (string \<Rightarrow> string + 'r list) \<Rightarrow> ControllerClient \<Rightarrow> string + 'r list" where
  "rpc_ListRuntimes net dec c =
     (case fast_Do net \<lparr>uri_fr = scheme_cc c @ ''://'' @ host_cc c @ ''/'' @ version_cc c @ ''/runtimes'', method_fr = ''GET'', host_fr = host_cc c,
         header_fr = [(''Content-Type'', ''application/json'')], body_fr = ''''\<rparr> of
        Inl e \<Rightarrow> Inl e
      | Inr (_, _, body) \<Rightarrow> dec body)"

section \<open>The HTTP trigger\<close>

definition NewInvalidRequestException :: "(BasicError \<Rightarrow> string) \<Rightarrow> string \<Rightarrow> go_error option \<Rightarrow> FinalError" where
  "NewInvalidRequestException marshal cause = NewGenericException marshal (basic ''InvalidRequestException'' cause ''Invalid Request'' 400)"

definition NewNotFountException :: "(BasicError \<Rightarrow> string) \<Rightarrow> string \<Rightarrow> go_error option \<Rightarrow> FinalError" where
  "NewNotFountException marshal cause = NewGenericException marshal (basic ''NotFountException'' cause ''Not Found'' 404)"

definition NewInternalException :: "(BasicError \<Rightarrow> string) \<Rightarrow> string \<Rightarrow> go_error option \<Rightarrow> FinalError" where
  "NewInternalException marshal cause = NewGenericException marshal (basic ''InternalException'' cause ''Internal Error'' 500)"

definition NewBadGatewayException :: "(BasicError \<Rightarrow> string) \<Rightarrow> string \<Rightarrow> go_error option \<Rightarrow> FinalError" where
  "NewBadGatewayException marshal cause = NewGenericException marshal (basic ''BadGatewayException'' cause ''Bad Gateway'' 502)"

record ProxyContext =
  RequestID_px :: string
  Authorization_px :: string
  AccountID_px :: string
  FunctionName_px :: string
  Version_px :: string
  WithStreamMode_px :: bool

record ProxyRequest =
  HTTPMethod :: string
  Headers_xq :: "(string \<times> string) list"
  QueryStringParameters :: "(string \<times> string) list"
  Body_xq :: string

record ProxyResponse =
  IsBase64Encoded :: bool
  StatusCode_xp :: int
  Body_xp :: string
  Headers_xp :: "(string \<times> string) list"

record trigger_env =
  md5_te :: md5_fun
  marshal_te :: "BasicError \<Rightarrow> string"
  enc_request :: "ProxyRequest \<Rightarrow> string"
  dec_proxy :: "string \<Rightarrow> string + ProxyResponse"
  dec_aws :: "string \<Rightarrow> string + string"
  enc_aws :: "string \<Rightarrow> string"

definition requestBody :: "fh_request \<Rightarrow> ProxyRequest" where
  "requestBody c =
     (let header = visited (visit_f c)
      in \<lparr>HTTPMethod = method_f c, Headers_xq = header, QueryStringParameters = visited (qvisit_f c),
          Body_xq = (if map_of header ''Content-Type'' = Some ''application/bson'' then base64 (body_f c) else body_f c)\<rparr>)"

text \<open>The reader and the writer of this stream have different buffers.\<close>

definition requestBodyStream :: "fh_request \<Rightarrow> string + body_stream" where
  "requestBodyStream c = (case body_err_f c of Some e \<Rightarrow> Inl e | None \<Rightarrow> Inr \<lparr>unread = '''', written = body_f c\<rparr>)"

definition buildRequest :: "trigger_env \<Rightarrow> fh_request \<Rightarrow> ProxyContext \<Rightarrow> string + api_InvokeRequest" where
  "buildRequest te c px =
     (let ir = \<lparr>UserID_q = AccountID_px px, Authorization_q = Authorization_px px,
                FunctionBRN_q = GenerateFuncBrnString (md5_te te) ''bj'' (AccountID_px px) (FunctionName_px px) (Version_px px),
                Qualifier_q = '''', Queries_q = [], Headers_q = [], Body_q = None, BodyStream_q = None, WithBodyStream_q = WithStreamMode_px px,
                LogToBody_q = GetLogToBody (peek_f c ''Log-To-Body'') (qpeek_f c ''logToBody''),
                LogType_q = GetLogType (peek_f c ''Log-Type'') (qpeek_f c ''logType''), RequestID_q = RequestID_px px, InvokeType_q = '''', TriggerType_q = ''''\<rparr>
      in if WithStreamMode_px px
         then (case requestBodyStream c of Inl e \<Rightarrow> Inl e | Inr bs \<Rightarrow> Inr (ir\<lparr>BodyStream_q := Some bs\<rparr>))
         else Inr (ir\<lparr>Body_q := Some (enc_request te (requestBody c))\<rparr>))"

text \<open>\<open>base64.StdEncoding.Decode\<close> into a slice of length zero: line breaks are skipped; the bytes of the first complete group do not fit. \<open>None\<close> is
  a corrupt input.\<close>

definition base64_char :: "char \<Rightarrow> bool" where
  "base64_char c \<longleftrightarrow> c \<in> set base64_alphabet"

definition base64_into_empty :: "string \<Rightarrow> string option outcome" where
  "base64_into_empty s =
     (case filter (\<lambda>c. c \<noteq> CHR 0x0A \<and> c \<noteq> CHR 0x0D) s of
        [] \<Rightarrow> Value (Some '''')
      | a # b # c # d # _ \<Rightarrow>
          if base64_char a \<and> base64_char b \<and> (base64_char c \<and> (base64_char d \<or> d = CHR ''='') \<or> c = CHR ''='' \<and> d = CHR ''='')
          then Panic ''index out of range'' else Value None
      | _ \<Rightarrow> Value None)"

definition simpleResponse :: "string \<Rightarrow> (string \<times> string) list \<Rightarrow> string \<Rightarrow> int \<times> (string \<times> string) list \<times> string" where
  "simpleResponse rawByte rawHeader contentType = (200, AList.update ''Content-Type'' contentType rawHeader, rawByte)"

datatype made = Failed go_error | Made int "(string \<times> string) list" string "string option"

definition makeResponse :: "trigger_env \<Rightarrow> api_InvokeResponse \<Rightarrow> bool \<Rightarrow> made outcome" where
  "makeResponse te resp stream =
     (let simple = (\<lambda>ct. case simpleResponse (bodyRaw_p resp) (headers_p resp) ct of (s, h, b) \<Rightarrow> Value (Made s h b None))
      in if code_p resp > 499 then Value (Failed (FinalErr (NewInternalException (marshal_te te) (bodyRaw_p resp) None)))
         else if code_p resp \<noteq> 200 then Value (Made (code_p resp) (headers_p resp) (bodyRaw_p resp) None)
         else if GetHeader XBceFunctionError resp = Some ''Unhandled''
         then (case dec_aws te (bodyRaw_p resp) of
             Inl e \<Rightarrow> Value (Failed (PlainErr e))
           | Inr m \<Rightarrow> Value (Made 500 [(''Content-Type'', ''application/json; charset=utf-8'')] (enc_aws te m) None))
         else if stream then Value (Made 200 (headers_p resp) '''' (bodyStream_p resp))
         else (case dec_proxy te (bodyRaw_p resp) of
             Inl _ \<Rightarrow> simple ''text/plain''
           | Inr pr \<Rightarrow>
               if StatusCode_xp pr < 100 \<or> StatusCode_xp pr > 599 then simple ''application/json''
               else if IsBase64Encoded pr
               then obind (base64_into_empty (Body_xp pr)) (\<lambda>d. case d of
                   None \<Rightarrow> simple ''application/json''
                 | Some decoded \<Rightarrow> Value (Made (StatusCode_xp pr) (Headers_xp pr) decoded None))
               else Value (Made (StatusCode_xp pr) (Headers_xp pr) (Body_xp pr) None)))"

definition RequestController :: "trigger_env \<Rightarrow> 's invoker \<Rightarrow> fh_request \<Rightarrow> ProxyContext \<Rightarrow> 's \<Rightarrow> fh_response \<Rightarrow> (fh_response \<times> 's) outcome" where
  "RequestController te cli c px st r = (case buildRequest te c px of
     Inl _ \<Rightarrow> Value (append_body ''invalid request body'' (set_status 400 r), st)
   | Inr ir \<Rightarrow> obind (cli ir st) (\<lambda>((err, resp), st').
       case err of
         Some e \<Rightarrow> Value (append_body (MarshalJSON (marshal_te te) (NewBadGatewayException (marshal_te te) ''function response error'' (Some e))) (set_status 502 r), st')
       | None \<Rightarrow> obind (makeResponse te resp (WithStreamMode_px px)) (\<lambda>m. case m of
           Failed e \<Rightarrow> Value (append_body (error_text (marshal_te te) e) (set_status 502 r), st')
         | Made code h body bs \<Rightarrow>
             let r1 = set_status code (set_headers h r)
             in Value (if WithStreamMode_px px then r1\<lparr>rstream_f := bs\<rparr> else append_body body r1, st'))))"

text \<open>\<open>BuildContext\<close> finds the identifier of the request.\<close>

definition BuildContext :: "string \<Rightarrow> fh_request \<Rightarrow> string" where
  "BuildContext fresh c = (let requestID = peek_f c HeaderXRequestID in if requestID = '''' then fresh else requestID)"

definition proxy_context :: "string \<Rightarrow> fh_request \<Rightarrow> ProxyContext" where
  "proxy_context fresh c =
     \<lparr>RequestID_px = BuildContext fresh c, Authorization_px = peek_f c ''Authorization'',
      AccountID_px = param_f c ''userID'', FunctionName_px = param_f c ''functionName'',
      Version_px = (let v = param_f c ''version'' in if v = '''' then ''$LATEST'' else v),
      WithStreamMode_px = (peek_f c ''X-easyfaas-Invoke-Type'' = ''stream'')\<rparr>"

definition ProxyHandler :: "trigger_env \<Rightarrow> 's invoker \<Rightarrow> string \<Rightarrow> fh_request \<Rightarrow> 's \<Rightarrow> fh_response \<Rightarrow> (fh_response \<times> 's) outcome" where
  "ProxyHandler te cli fresh c st r =
     (if param_f c ''userID'' = '''' then Value (append_body (MarshalJSON (marshal_te te) (NewInvalidRequestException (marshal_te te) ''missing userID'' None)) (set_status 400 r), st)
      else if param_f c ''functionName'' = ''''
      then Value (append_body (MarshalJSON (marshal_te te) (NewInvalidRequestException (marshal_te te) ''invalid function name'' None)) (set_status 400 r), st)
      else RequestController te cli c (proxy_context fresh c) st r)"

section \<open>The function a web request names\<close>

lemma trigger_parse:
  assumes "plain (param_f c ''functionName'')" "plain (param_f c ''version'')" "buildRequest te c (proxy_context fresh c) = Inr ir"
  obtains b where "FunctionBRN_q ir = BRN_String b" "AccountID_brn b = Md5BceUid (md5_te te) (param_f c ''userID'')" "UserID_q ir = param_f c ''userID''"
    "parseBrn (call_context rid ir) = (Inr b, (call_context rid ir)\<lparr>CallerUser_ctx := AccountID_brn b, FunctionName_ctx := param_f c ''functionName'',
       Qualifier_ctx := (if param_f c ''version'' = '''' then ''$LATEST'' else param_f c ''version'')\<rparr>)"
proof -
  define name where "name = param_f c ''functionName''"
  define ver where "ver = (if param_f c ''version'' = '''' then ''$LATEST'' else param_f c ''version'')"
  define b where "b = BRN.truncate (GenerateFunctionBRN (md5_te te) ''bj'' (param_f c ''userID'') name ver)"
  have ver: "ver \<noteq> ''''" "plain ver" using assms(2) by (simp_all add: ver_def plain_def)
  have q: "FunctionBRN_q ir = BRN_String b" "UserID_q ir = param_f c ''userID''"
    using assms(3) by (auto simp: buildRequest_def proxy_context_def GenerateFuncBrnString_def b_def name_def ver_def Let_def split: if_splits sum.splits)
  have "brn_plain b" by (simp add: b_def brn_plain_def GenerateFunctionBRN_def mk_FunctionBRN_def case_prod_beta) (simp add: plain_def)
  then have p: "Parse (FunctionBRN_ctx (call_context rid ir)) = Inr b" by (simp add: call_context_def q Parse_BRN_String)
  have "Resource_brn b = join_with [CHR '':''] [''function'', name, ver]"
    using ver(1) by (simp add: b_def GenerateFunctionBRN_def mk_FunctionBRN_def)
  then have "split_on (CHR '':'') (Resource_brn b) = [''function'', name, ver]"
    using split_on_join [of "[''function'', name, ver]" "CHR '':''"] assms(1) ver(2) by (simp add: plain_def name_def)
  then have "parseBrn (call_context rid ir) = (Inr b, (call_context rid ir)\<lparr>CallerUser_ctx := AccountID_brn b, FunctionName_ctx := name, Qualifier_ctx := ver\<rparr>)"
    by (simp add: parseBrn_def p Let_def)
  moreover have "AccountID_brn b = Md5BceUid (md5_te te) (param_f c ''userID'')" by (simp add: b_def GenerateFunctionBRN_def mk_FunctionBRN_def case_prod_beta)
  ultimately show thesis using q unfolding name_def ver_def by (intro that [of b]) simp_all
qed

text \<open>C3: A web request runs the function of its path. For names without a colon the controller parses out of the resource name which the trigger built exactly the
  function name and the version of the path, the newest version when there is none, and the account of the path is the caller.\<close>

theorem trigger_names_function:
  assumes "plain (param_f c ''functionName'')" "plain (param_f c ''version'')" "buildRequest te c (proxy_context fresh c) = Inr ir"
  shows "\<exists>b ctx. parseBrn (call_context rid ir) = (Inr b, ctx) \<and> FunctionName_ctx ctx = param_f c ''functionName''
    \<and> Qualifier_ctx ctx = (if param_f c ''version'' = '''' then ''$LATEST'' else param_f c ''version'')
    \<and> CallerUser_ctx ctx = Md5BceUid (md5_te te) (param_f c ''userID'') \<and> AccountID_ctx ctx = param_f c ''userID''"
  by (rule trigger_parse [OF assms, of rid]) (simp add: call_context_def)

section \<open>Successful replies\<close>

text \<open>The response of a context is only built at the end.\<close>

lemma fetch_function_response: "fetch_function env input c s = (r, c', s') \<Longrightarrow> Response_ctx c' = Response_ctx c"
  by (auto simp: fetch_function_def split: outcome.splits prod.splits)

lemma getCanary_response: "getCanaryFunctionBrn env c s = (r, c', s') \<Longrightarrow> Response_ctx c' = Response_ctx c"
  by (auto simp: getCanaryFunctionBrn_def try_here_def Let_def split: outcome.splits prod.splits option.splits if_splits)

lemma getFunction_response:
  assumes "getFunction opts env ctx st = (r, ctx', st')"
  shows "Response_ctx ctx' = Response_ctx ctx"
proof -
  have "Response_ctx (snd (parseBrn c)) = Response_ctx c" for c
    by (simp add: parseBrn_def Let_def split: sum.split list.split)
  then have parse: "parseBrn c = (r, c') \<Longrightarrow> Response_ctx c' = Response_ctx c" for c r c' by (metis snd_conv)
  have name: "getFunctionByFunctionName env input c s = (e, c', s') \<Longrightarrow> Response_ctx c' = Response_ctx c" for input c s e c' s'
    by (auto simp: getFunctionByFunctionName_def dest!: fetch_function_response split: if_splits)
  have brn: "getFunctionByFunctionBrn opts env input c s = (e, c', s') \<Longrightarrow> Response_ctx c' = Response_ctx c" for input c s e c' s'
    by (auto simp: getFunctionByFunctionBrn_def go_on_def Let_def dest!: getCanary_response fetch_function_response parse
        split: outcome.splits option.splits if_splits sum.splits prod.splits)
  show ?thesis
    using assms by (auto simp: getFunction_def go_on_def try_here_def Let_def dest!: name brn split: outcome.splits option.splits if_splits prod.splits)
qed

text \<open>How an invocation can end: with an error response, or with the output of the call it made, given back through the runtime it took.\<close>

definition called :: "invoke_env \<Rightarrow> control \<Rightarrow> RuntimeManager \<Rightarrow> InvokeContext \<Rightarrow> ctrl_state \<Rightarrow> bool" where
  "called env run m0 ctx st' \<longleftrightarrow> (\<exists>c2 c3 input m out m'. getRuntime env c2 m0 = (Value None, c3, m) \<and> Input_ctx c3 = Some input \<and>
     run input m = (Value out, m') \<and> Input_ctx ctx = Some input \<and> Output_ctx ctx = Some out \<and> manager st' = putRuntime input m')"

lemma error_header: "map_of (Headers_pr (Response_ctx (buildErrorResponse env e ctx))) XBceFunctionError = Some ''Unhandled''"
  by (simp add: buildErrorResponse_def SetBody_def SetHeader_def SetStatusCode_def update_conv' Let_def)

lemma result_keeps:
  "Output_ctx (buildResponse env out ctx) = Output_ctx ctx" "Input_ctx (buildResponse env out ctx) = Input_ctx ctx"
  "StatusCode_pr (Response_ctx (buildResponse env out ctx)) = 200"
  by (simp_all add: buildResponse_def buildTotallyToBody_def build_def SetBody_def SetHeader_def SetStatusCode_def Let_def split: option.split)

lemma getRuntime_input: "getRuntime env c m = (Value None, c', m') \<Longrightarrow> \<exists>input. Input_ctx c' = Some input"
  by (auto simp: getRuntime_def try_here_def Let_def split: outcome.splits prod.splits)

lemma Do_ended:
  assumes "Do opts env run ctx st = (ctx', st')"
  shows "map_of (Headers_pr (Response_ctx ctx')) XBceFunctionError = Some ''Unhandled'' \<or>
    StatusCode_pr (Response_ctx ctx') = 200 \<and> called env run (manager st) ctx' st'"
proof (cases rule: Do_cases [of opts env ctx st])
  case (early e c s)
  then have "ctx' = buildErrorResponse env e c" using assms by simp
  then show ?thesis by (simp add: error_header)
next
  case (call c2 c3 s3)
  obtain input where i: "Input_ctx c3 = Some input" using getRuntime_input [OF call(2)] by blast
  obtain res m' where r: "run input (manager s3) = (res, m')" by fastforce
  show ?thesis
  proof (cases res)
    case (Panic e)
    then have "ctx' = buildErrorResponse env (PlainErr e) c3" using assms call(1) i r by (simp add: do_invocation_def Let_def)
    then show ?thesis by (simp add: error_header)
  next
    case (Value out)
    then have "ctx' = buildResponse env out (c3\<lparr>Output_ctx := Some out\<rparr>)" "manager st' = putRuntime input m'"
      using assms call(1) i r by (auto simp: do_invocation_def Let_def)
    moreover have "Input_ctx ctx' = Some input" "Output_ctx ctx' = Some out" using calculation(1) i by (simp_all add: result_keeps)
    ultimately have "called env run (manager st) ctx' st'" using call(2) i r Value unfolding called_def by blast
    then show ?thesis using \<open>ctx' = _\<close> by (simp add: result_keeps)
  qed
qed

lemma status_simps [simp]: "status_f (append_body s r) = status_f r" "status_f (set_status code r) = code"
  by (simp_all add: append_body_def set_status_def)

lemma makeResponse_success:
  assumes "makeResponse te resp stream = Value (Made code h body bs)" "200 \<le> code" "code < 300"
  shows "200 \<le> code_p resp \<and> code_p resp < 300 \<and> (if code_p resp = 200 then map_of (headers_p resp) XBceFunctionError \<noteq> Some ''Unhandled'' else code = code_p resp)"
  using assms by (auto simp: makeResponse_def GetHeader_def Let_def split: if_splits sum.splits)

lemma RequestController_success:
  assumes "RequestController te cli c px st r = Value (r', st')" "200 \<le> status_f r'" "status_f r' < 300"
  obtains ir resp where "buildRequest te c px = Inr ir" "cli ir st = Value ((None, resp), st')" "200 \<le> code_p resp" "code_p resp < 300"
    "if code_p resp = 200 then map_of (headers_p resp) XBceFunctionError \<noteq> Some ''Unhandled'' else status_f r' = code_p resp"
proof -
  from assms obtain ir where ir: "buildRequest te c px = Inr ir" by (auto simp: RequestController_def split: sum.splits)
  from assms(1) obtain err resp s1 where cli: "cli ir st = Value ((err, resp), s1)" by (auto simp: RequestController_def ir outcome_simps)
  have none: "err = None" using assms by (cases err) (auto simp: RequestController_def ir cli)
  from assms(1) obtain m where m: "makeResponse te resp (WithStreamMode_px px) = Value m" by (auto simp: RequestController_def ir cli none outcome_simps)
  obtain code h body bs where made: "m = Made code h body bs" using assms by (cases m) (auto simp: RequestController_def ir cli none m)
  have r': "status_f r' = code" "s1 = st'" using assms(1) by (auto simp: RequestController_def ir cli none m made Let_def)
  from makeResponse_success [OF m [unfolded made]] assms(2,3) r' cli none ir show thesis by (intro that [of ir resp]) auto
qed

text \<open>C2: The trigger does not report success on its own. When a web request that goes through the trigger and the controller is answered with a status
  between 200 and 299, then either the controller's response had status 200, a runtime was taken from the manager as it was, the runtime control was called once
  with it, returned the output the response is made of, and the runtime was given back; or the controller answered with an error that carries
  another status between 201 and 299 itself, marked as unhandled, which the trigger passes on as it is. An error or a
  recovered panic whose status is 200 or outside that range is never reported as success.\<close>

theorem trigger_success_genuine:
  assumes "ProxyHandler te (call_Invoke opts env run stream rid) fresh c st fresh_response = Value (r, st')" "200 \<le> status_f r" "status_f r < 300"
  shows "\<exists>ir req ctx. buildRequest te c (proxy_context fresh c) = Inr ir \<and> call_request ir = Value req \<and> Do opts env (run req) (call_context rid ir) st = (ctx, st') \<and>
    (StatusCode_pr (Response_ctx ctx) = 200 \<and>
       (\<exists>c2 c3 input m out m'. getRuntime env c2 (manager st) = (Value None, c3, m) \<and> Input_ctx c3 = Some input \<and>
          run req input m = (Value out, m') \<and> Input_ctx ctx = Some input \<and> Output_ctx ctx = Some out \<and> manager st' = putRuntime input m') \<or>
     200 < StatusCode_pr (Response_ctx ctx) \<and> status_f r = StatusCode_pr (Response_ctx ctx) \<and>
       map_of (Headers_pr (Response_ctx ctx)) XBceFunctionError = Some ''Unhandled'')"
proof -
  have "RequestController te (call_Invoke opts env run stream rid) c (proxy_context fresh c) st fresh_response = Value (r, st')"
    using assms by (auto simp: ProxyHandler_def split: if_splits)
  from RequestController_success [OF this assms(2,3)] obtain ir resp where ir: "buildRequest te c (proxy_context fresh c) = Inr ir"
    and cli: "call_Invoke opts env run stream rid ir st = Value ((None, resp), st')" and code: "200 \<le> code_p resp"
      "if code_p resp = 200 then map_of (headers_p resp) XBceFunctionError \<noteq> Some ''Unhandled'' else status_f r = code_p resp" by blast
  from cli obtain req ctx where req: "call_request ir = Value req" and ctx: "Do opts env (run req) (call_context rid ir) st = (ctx, st')"
    and resp: "resp = call_response ctx stream"
    by (auto simp: call_Invoke_def outcome_simps case_prod_beta) (metis prod.collapse)
  have same: "code_p resp = StatusCode_pr (Response_ctx ctx)" "headers_p resp = Headers_pr (Response_ctx ctx)" by (simp_all add: resp call_response_def Let_def)
  from Do_ended [OF ctx] code have "StatusCode_pr (Response_ctx ctx) = 200 \<and> called env (run req) (manager st) ctx st' \<or>
     200 < StatusCode_pr (Response_ctx ctx) \<and> status_f r = StatusCode_pr (Response_ctx ctx) \<and>
       map_of (Headers_pr (Response_ctx ctx)) XBceFunctionError = Some ''Unhandled''"
    unfolding same by (cases "StatusCode_pr (Response_ctx ctx) = 200") auto
  then show ?thesis using ir req ctx unfolding called_def by blast
qed

section \<open>Encoded replies and streams\<close>

lemma alphabet_length: "length base64_alphabet = 64"
  by (simp add: base64_alphabet_def)

lemma alphabet_chars: "c \<in> set base64_alphabet \<Longrightarrow> c \<noteq> CHR 0x0A \<and> c \<noteq> CHR 0x0D"
  by (auto simp: base64_alphabet_def)

lemma alphabet_nth: "n < 64 \<Longrightarrow> base64_alphabet ! n \<in> set base64_alphabet"
  by (rule nth_mem) (simp add: alphabet_length)

lemma char_bound: "(of_char c :: nat) < 256"
proof -
  have "of_char (char_of (of_char c :: nat)) = (of_char c mod 256 :: nat)" by (rule of_char_of)
  then have "(of_char c :: nat) = of_char c mod 256" by simp
  then show ?thesis by (metis mod_less_divisor zero_less_numeral)
qed

lemma alphabet_index [simp]:
  "n < 16777216 \<Longrightarrow> base64_alphabet ! (n div 262144) \<in> set base64_alphabet" "base64_alphabet ! (n mod 64) \<in> set base64_alphabet"
  by (simp_all add: alphabet_nth div_less_iff_less_mult)

lemma base64_group:
  assumes "d \<noteq> ''''"
  obtains x y z w rest where "base64 d = x # y # z # w # rest" "x \<in> set base64_alphabet" "y \<in> set base64_alphabet"
    "z \<in> set base64_alphabet \<and> (w \<in> set base64_alphabet \<or> w = CHR ''='') \<or> z = CHR ''='' \<and> w = CHR ''=''"
  using assms
proof (cases d rule: base64.cases)
  case (1 a b c rest)
  have "of_char a * 65536 + of_char b * 256 + of_char c < (16777216 :: nat)" using char_bound [of a] char_bound [of b] char_bound [of c] by linarith
  then show ?thesis using that [unfolded 1, OF base64.simps(1) [unfolded Let_def append_Cons append_Nil]] by auto
next
  case (2 a b)
  have "of_char a * 65536 + of_char b * 256 < (16777216 :: nat)" using char_bound [of a] char_bound [of b] by linarith
  then show ?thesis using that [unfolded 2, OF base64.simps(2) [unfolded Let_def]] by auto
next
  case (3 a)
  have "base64_alphabet ! (of_char a div 4) \<in> set base64_alphabet" using char_bound [of a] by (intro alphabet_nth) linarith
  then show ?thesis using that [unfolded 3, OF base64.simps(3) [unfolded Let_def]] by auto
qed simp

lemma decode_panics: "d \<noteq> '''' \<Longrightarrow> base64_into_empty (base64 d) = Panic ''index out of range''"
proof -
  assume "d \<noteq> ''''"
  then obtain x y z w rest where d: "base64 d = x # y # z # w # rest" "x \<in> set base64_alphabet" "y \<in> set base64_alphabet"
    and zw: "z \<in> set base64_alphabet \<and> (w \<in> set base64_alphabet \<or> w = CHR ''='') \<or> z = CHR ''='' \<and> w = CHR ''=''" by (rule base64_group)
  have "z \<noteq> CHR 0x0A \<and> z \<noteq> CHR 0x0D \<and> w \<noteq> CHR 0x0A \<and> w \<noteq> CHR 0x0D" using zw alphabet_chars by auto
  then show ?thesis using d zw alphabet_chars [OF d(2)] alphabet_chars [OF d(3)] by (simp add: base64_into_empty_def base64_char_def)
qed


text \<open>A request in stream mode reaches the function without its body, while one that comes over the controller's own handler keeps it.\<close>

lemma stream_body_lost:
  assumes "buildRequest te c px = Inr ir" "WithStreamMode_px px" "call_request ir = Value req"
  shows "\<exists>bs. BodyStream_pq req = Some bs \<and> unread bs = '''' \<and> written bs = body_f c"
  using assms by (auto simp: buildRequest_def requestBodyStream_def call_request_def NewInvokeProxyRequest_def Let_def split: sum.splits option.splits)

lemma handler_body_kept:
  assumes "body_err_f c = None" "ToLower (peek_f c ''X-easyfaas-Invoke-Type'') \<noteq> InvokeTypeEvent"
  shows "\<exists>bs. BodyStream_pq (generateInvokeRequest c) = Some bs \<and> unread bs = body_f c"
  using assms by (simp add: generateInvokeRequest_def generateBodyStream_def NewInvokeProxyRequest_def)

section \<open>Requests over the controller's own handler\<close>

text \<open>A request over the handler either lacks a qualifier, and nothing has happened, or is one invocation for the account of its header, and the reply is that invocation's
  response; an event is answered with status 201 whatever comes of it.\<close>

lemma handler_answers:
  assumes "InvokeHandler opts env run stream fresh c st r = (err, r', st')"
  shows "case err of
      Some _ \<Rightarrow> st' = st \<and> status_f r' = 400 \<and> RegfunctionName (param_f c ''functionName'') \<and> qpeek_f c ''Qualifier'' = ''''
    | None \<Rightarrow> \<exists>ctx ctx'. Do opts env (run (generateInvokeRequest c)) ctx st = (ctx', st') \<and> AccountID_ctx ctx = peek_f c ''X-easyfaas-Account-Id''
        \<and> status_f r' = (if InvokeType_ctx ctx = InvokeTypeEvent then 201 else StatusCode_pr (Response_ctx ctx'))"
proof (cases "name_function c (handler_context fresh c)")
  case None
  then show ?thesis using assms by (auto simp: InvokeHandler_def name_function_def Let_def split: if_splits)
next
  case (Some ctx1)
  define ctx where "ctx = (if InvokeType_ctx ctx1 = InvokeTypeStream then ctx1\<lparr>WithStreamMode_ctx := True\<rparr> else ctx1)"
  obtain ctx' s1 where d: "Do opts env (run (generateInvokeRequest c)) ctx st = (ctx', s1)" by fastforce
  have "AccountID_ctx ctx = peek_f c ''X-easyfaas-Account-Id''"
    using Some by (auto simp: ctx_def name_function_def handler_context_def Let_def split: if_splits)
  moreover have "status_f (makeHTTPResponse ir bs r) = StatusCode_pr ir" for ir bs by (simp add: makeHTTPResponse_def set_headers_def Let_def split: option.split)
  moreover have "err = None \<and> s1 = st' \<and> r' = (if InvokeType_ctx ctx = InvokeTypeEvent then set_status 201 r else makeHTTPResponse (Response_ctx ctx') stream r)"
    using assms d Some by (auto simp: InvokeHandler_def ctrl_Invoke_def ctx_def [symmetric] Let_def split: if_splits)
  ultimately show ?thesis using d by auto
qed

section \<open>Witnesses\<close>

definition sample_trigger :: trigger_env where
  "sample_trigger = \<lparr>md5_te = (\<lambda>_. []), marshal_te = (\<lambda>_. ''{}''), enc_request = Body_xq,
     dec_proxy = (\<lambda>s. if s = ''ok'' then Inl ''not an object'' else Inr \<lparr>IsBase64Encoded = True, StatusCode_xp = 201, Body_xp = base64 s, Headers_xp = []\<rparr>),
     dec_aws = Inr, enc_aws = (\<lambda>m. m)\<rparr>"

definition sample_web :: fh_request where
  "sample_web = \<lparr>method_f = ''POST'', peek_f = (\<lambda>_. ''''), visit_f = [], qpeek_f = (\<lambda>_. ''''), qvisit_f = [],
     param_f = (\<lambda>k. if k = ''userID'' then ''bob'' else if k = ''functionName'' then ''hello'' else ''''), body_f = ''data'', body_err_f = None\<rparr>"

definition sample_ir :: api_InvokeRequest where
  "sample_ir = (case buildRequest sample_trigger sample_web (proxy_context ''r1'' sample_web) of Inr ir \<Rightarrow> ir)"

lemma sample_built: "buildRequest sample_trigger sample_web (proxy_context ''r1'' sample_web) = Inr sample_ir"
  by (simp add: sample_ir_def buildRequest_def proxy_context_def sample_web_def Let_def)

theorem trigger_names_function_witness:
  "\<exists>b ctx. parseBrn (call_context ''r2'' sample_ir) = (Inr b, ctx) \<and> FunctionName_ctx ctx = ''hello'' \<and> Qualifier_ctx ctx = ''$LATEST'' \<and> AccountID_ctx ctx = ''bob''"
  using trigger_names_function [of sample_web sample_trigger "''r1''" sample_ir "''r2''"] sample_built by (auto simp: sample_web_def plain_def)


text \<open>A web request that is served by a cold runtime of a small node.\<close>

lemma sample_cold:
  assumes "Configuration_ii input = sample_conf"
  shows "FindWarmRuntime 5 input RtManagerProps.sample_manager = Value (None, RtManagerProps.sample_manager)"
    "\<exists>recommend m'. OccupyColdRuntime 5 input RtManagerProps.sample_manager = Value ((Some 0, recommend), m')"
proof -
  have mem: "functionMemorySizeToBytes 128 = 134217728"
    by (simp add: functionMemorySizeToBytes_def uint64_of_def Megabyte_def)
  have i: "int64_of 134217728 = 134217728" by (simp add: int64_of_def i64_def)
  have w: "i64 939524096 = 939524096" "i64 134217728 = 134217728" "i64 1073741824 = 1073741824" by (simp_all add: i64_def)
  show "\<exists>recommend m'. OccupyColdRuntime 5 input RtManagerProps.sample_manager = Value ((Some 0, recommend), m')"
    using assms by (simp add: OccupyColdRuntime_def sample_conf_def mem i checkAndMarkResource_def check_resource_def mark_resource_def
        RtManagerProps.sample_manager_def w isNeedScale_def CAS_eq_locked CAS_locked_def cas_check_defs cas_set_defs rtinfo_defs Let_def SetResource_def)
  show "FindWarmRuntime 5 input RtManagerProps.sample_manager = Value (None, RtManagerProps.sample_manager)"
    using assms by (simp add: FindWarmRuntime_def sample_conf_def RtManagerProps.sample_manager_def CAS_eq_locked CAS_locked_def cas_check_defs Let_def)
qed

lemma sample_parsed:
  obtains b where "FunctionBRN_q sample_ir = BRN_String b" "parseBrn (call_context ''r2'' sample_ir) = (Inr b, (call_context ''r2'' sample_ir)\<lparr>CallerUser_ctx := AccountID_brn b,
     FunctionName_ctx := ''hello'', Qualifier_ctx := ''$LATEST''\<rparr>)"
proof -
  have names: "param_f sample_web ''functionName'' = ''hello''" "param_f sample_web ''version'' = ''''" by (simp_all add: sample_web_def)
  have plain: "plain (param_f sample_web ''functionName'')" "plain (param_f sample_web ''version'')" by (simp_all add: names plain_def)
  show thesis by (rule trigger_parse [OF plain sample_built, where rid = "''r2''"]) (use that names in simp)
qed

lemma sample_fields:
  "AccountID_ctx (call_context ''r2'' sample_ir) = ''bob''" "WithStreamMode_ctx (call_context ''r2'' sample_ir) = False" "LogToBody_ctx (call_context ''r2'' sample_ir) = False"
  "InvokeType_ctx (call_context ''r2'' sample_ir) = InvokeTypeHttpTrigger" "call_request sample_ir = Value (NewInvokeProxyRequest [] (Some ''data'') None)"
  by (simp_all add: call_context_def sample_ir_def buildRequest_def proxy_context_def sample_web_def sample_trigger_def requestBody_def call_request_def visited_def Let_def)

definition sample_opts :: run_options where
  "sample_opts = \<lparr>SimpleAuth_ro = True, EnableCanary_ro = False\<rparr>"

lemma sample_lookup:
  obtains c where "getFunction sample_opts sample_env (call_context ''r2'' sample_ir) sample_ctrl = (Value None, c, sample_ctrl)"
    "Function_ctx c = Some \<lparr>Code_fo = ''zip'', Configuration_fo = Some sample_conf\<rparr>" "WithStreamMode_ctx c = False"
    "LogToBody_ctx c = False" "InvokeType_ctx c = InvokeTypeHttpTrigger"
proof -
  let ?c = "call_context ''r2'' sample_ir"
  obtain b where b: "FunctionBRN_q sample_ir = BRN_String b"
    "parseBrn ?c = (Inr b, ?c\<lparr>CallerUser_ctx := AccountID_brn b, FunctionName_ctx := ''hello'', Qualifier_ctx := ''$LATEST''\<rparr>)" by (rule sample_parsed)
  have ne: "FunctionBRN_ctx ?c \<noteq> ''''" by (simp add: call_context_def b(1) BRN_String_def brnPrefix_def)
  have "\<exists>c. getFunction sample_opts sample_env ?c sample_ctrl = (Value None, c, sample_ctrl)
      \<and> Function_ctx c = Some \<lparr>Code_fo = ''zip'', Configuration_fo = Some sample_conf\<rparr> \<and> WithStreamMode_ctx c = False \<and> LogToBody_ctx c = False \<and> InvokeType_ctx c = InvokeTypeHttpTrigger"
    using ne sample_fields by (simp add: getFunction_def getFunctionByFunctionBrn_def fetch_function_def go_on_def try_here_def b(2) in_store_def GetFunction_def sample_env_def sample_conf_def sample_opts_def RegVersion_def Let_def)
  then show thesis using that by blast
qed

lemma new_storage_empty: "items (cache_sc (NewStorageCache cfg)) = []"
  by (simp add: NewStorageCache_def New_def newCacheWithJanitor_def newCache_def runJanitor_def Let_def)

lemma sample_runtime:
  assumes "Function_ctx c = Some \<lparr>Code_fo = ''zip'', Configuration_fo = Some sample_conf\<rparr>"
  obtains s where "getRuntimeConfiguration sample_env c sample_ctrl = (Value None, c\<lparr>Runtime_ctx := Some \<lparr>Name_rc = ''python3'', Bin_rc = ''python3'', Path_rc = ''/bin'', Args_rc = []\<rparr>\<rparr>, s)"
    "manager s = RtManagerProps.sample_manager"
proof -
  have "\<exists>s. getRuntimeConfiguration sample_env c sample_ctrl = (Value None, c\<lparr>Runtime_ctx := Some \<lparr>Name_rc = ''python3'', Bin_rc = ''python3'', Path_rc = ''/bin'', Args_rc = []\<rparr>\<rparr>, s)
      \<and> manager s = RtManagerProps.sample_manager"
    using assms by (simp add: getRuntimeConfiguration_def try_here_def sample_conf_def sample_env_def sample_ctrl_def in_store_def FuncServer.GetRuntimeConfiguration_def GoCache.Get_def
        new_storage_empty)
  then show thesis using that by blast
qed

lemma sample_taken:
  assumes "Function_ctx c = Some \<lparr>Code_fo = ''zip'', Configuration_fo = Some sample_conf\<rparr>" "Runtime_ctx c = Some rc" "Name_rc rc = ''python3''" "WithStreamMode_ctx c = False"
  obtains input m where "getRuntime sample_env c RtManagerProps.sample_manager = (Value None, c\<lparr>WithStreamMode_ctx := False, Input_ctx := Some input\<rparr>, m)"
proof -
  have stream: "\<not> HasSuffix ''python3'' ''stream''" by (simp add: HasSuffix_def)
  define input where "input = \<lparr>Runtime_ii = None, ExternalRequestID_ii = ExternalRequestID_ctx c, RequestID_ii = RequestID_ctx c, Configuration_ii = sample_conf,
                  WithStreamMode_ii = False, EnableMetrics_ii = False, IsLogTail_ii = IsLogTypeTail (LogType_ctx c),
                  InvokeType_ii = InvokeType_ctx c, TriggerType_ii = TriggerType_ctx c\<rparr>"
  have conf: "Configuration_ii input = sample_conf" by (simp add: input_def)
  obtain recommend m where occ: "OccupyColdRuntime 5 input RtManagerProps.sample_manager = Value ((Some 0, recommend), m)" using sample_cold(2) [OF conf] by blast
  have env: "now_first sample_env = 5" "warm_first sample_env = None" by (simp_all add: sample_env_def)
  have "\<exists>m'. tryGetRuntime (marshal_env sample_env) 5 None input RtManagerProps.sample_manager = (Value (RuntimeViaCold, None), input\<lparr>Runtime_ii := Some 0\<rparr>, m')"
    using sample_cold(1) [OF conf] occ by (simp add: tryGetRuntime_def try_here_def Let_def)
  then obtain m' where "tryGetRuntime (marshal_env sample_env) 5 None input RtManagerProps.sample_manager = (Value (RuntimeViaCold, None), input\<lparr>Runtime_ii := Some 0\<rparr>, m')" by blast
  then have "getRuntime sample_env c RtManagerProps.sample_manager = (Value None, c\<lparr>WithStreamMode_ctx := False, Input_ctx := Some (input\<lparr>Runtime_ii := Some 0\<rparr>)\<rparr>, m')"
    using assms stream by (simp add: getRuntime_def try_here_def two_attempts_def env input_def [symmetric] Let_def)
  then show thesis by (rule that)
qed

lemma sample_served:
  obtains ctx st where "Do sample_opts sample_env sample_run (call_context ''r2'' sample_ir) sample_ctrl = (ctx, st)"
    "WithStreamMode_ctx ctx = False" "StatusCode_pr (Response_ctx ctx) = 200" "Body_pr (Response_ctx ctx) = ''ok''"
    "map_of (Headers_pr (Response_ctx ctx)) XBceFunctionError = None"
proof -
  obtain c where g: "getFunction sample_opts sample_env (call_context ''r2'' sample_ir) sample_ctrl = (Value None, c, sample_ctrl)"
    and c: "Function_ctx c = Some \<lparr>Code_fo = ''zip'', Configuration_fo = Some sample_conf\<rparr>" "WithStreamMode_ctx c = False"
      "LogToBody_ctx c = False" "InvokeType_ctx c = InvokeTypeHttpTrigger" by (rule sample_lookup)
  have resp: "Response_ctx c = NewInvokeProxyResponseWithRequestID (RequestID_q sample_ir)" using getFunction_response [OF g] by (simp add: call_context_def)
  let ?rc = "\<lparr>Name_rc = ''python3'', Bin_rc = ''python3'', Path_rc = ''/bin'', Args_rc = []\<rparr>"
  obtain s where r: "getRuntimeConfiguration sample_env c sample_ctrl = (Value None, c\<lparr>Runtime_ctx := Some ?rc\<rparr>, s)" "manager s = RtManagerProps.sample_manager"
    using c(1) by (rule sample_runtime)
  obtain input m where t: "getRuntime sample_env (c\<lparr>Runtime_ctx := Some ?rc\<rparr>) RtManagerProps.sample_manager
      = (Value None, c\<lparr>Runtime_ctx := Some ?rc, WithStreamMode_ctx := False, Input_ctx := Some input\<rparr>, m)"
    by (rule sample_taken [of "c\<lparr>Runtime_ctx := Some ?rc\<rparr>" ?rc]) (use c in simp_all)
  define out where "out = \<lparr>Output_io = \<lparr>FuncResult_or = ''ok'', LogMessage_or = [], FuncError_or = '''', ErrorInfo_or = ''''\<rparr>, Duration_io = None\<rparr>"
  have run: "sample_run input m = (Value out, m)" by (simp add: sample_run_def out_def)
  define ctx where "ctx = c\<lparr>Runtime_ctx := Some ?rc, WithStreamMode_ctx := False, Input_ctx := Some input, Output_ctx := Some out\<rparr>"
  have "fst (Do sample_opts sample_env sample_run (call_context ''r2'' sample_ir) sample_ctrl) = buildResponse sample_env out ctx"
    using r t run by (simp add: Do_def do_step_def g with_manager_def do_invocation_def ctx_def)
  moreover have "buildResponse sample_env out ctx = ctx\<lparr>Response_ctx := SetBody ''ok'' (SetStatusCode 200 (Response_ctx c))\<rparr>"
    using c by (simp add: buildResponse_def out_def ctx_def build_def getFuncResult_def InvokeTypeHttpTrigger_def InvokeTypeEvent_def Let_def)
  ultimately have fin: "fst (Do sample_opts sample_env sample_run (call_context ''r2'' sample_ir) sample_ctrl) = ctx\<lparr>Response_ctx := SetBody ''ok'' (SetStatusCode 200 (Response_ctx c))\<rparr>" by simp
  show thesis
  proof (rule that [of _ "snd (Do sample_opts sample_env sample_run (call_context ''r2'' sample_ir) sample_ctrl)"])
    show "Do sample_opts sample_env sample_run (call_context ''r2'' sample_ir) sample_ctrl
        = (ctx\<lparr>Response_ctx := SetBody ''ok'' (SetStatusCode 200 (Response_ctx c))\<rparr>, snd (Do sample_opts sample_env sample_run (call_context ''r2'' sample_ir) sample_ctrl))"
      using fin by (metis prod.collapse)
  qed (simp_all add: ctx_def resp SetBody_def SetStatusCode_def NewInvokeProxyResponseWithRequestID_def HeaderXRequestID_def XBceFunctionError_def)
qed

theorem trigger_success_genuine_witness:
  "\<exists>ctx st out. Do sample_opts sample_env sample_run (call_context ''r2'' sample_ir) sample_ctrl = (ctx, st) \<and> Output_ctx ctx = Some out"
proof -
  obtain ctx st where d: "Do sample_opts sample_env sample_run (call_context ''r2'' sample_ir) sample_ctrl = (ctx, st)"
    and ctx: "WithStreamMode_ctx ctx = False" "StatusCode_pr (Response_ctx ctx) = 200" "Body_pr (Response_ctx ctx) = ''ok''"
      "map_of (Headers_pr (Response_ctx ctx)) XBceFunctionError = None" by (rule sample_served)
  have "\<exists>r. ProxyHandler sample_trigger (call_Invoke sample_opts sample_env (\<lambda>_. sample_run) None ''r2'') ''r1'' sample_web sample_ctrl fresh_response = Value (r, st) \<and> status_f r = 200"
  proof -
    have px: "param_f sample_web ''userID'' \<noteq> ''''" "param_f sample_web ''functionName'' \<noteq> ''''" "\<not> WithStreamMode_px (proxy_context ''r1'' sample_web)"
      by (simp_all add: sample_web_def proxy_context_def)
    have "makeResponse sample_trigger (call_response ctx None) False = Value (Made 200 (AList.update ''Content-Type'' ''text/plain'' (Headers_pr (Response_ctx ctx))) ''ok'' None)"
      using ctx by (simp add: makeResponse_def call_response_def GetHeader_def NewInvokeResponse_def sample_trigger_def simpleResponse_def)
    then show ?thesis using px d by (simp add: ProxyHandler_def RequestController_def sample_built call_Invoke_def sample_fields Let_def)
  qed
  then obtain r where r: "ProxyHandler sample_trigger (call_Invoke sample_opts sample_env (\<lambda>_. sample_run) None ''r2'') ''r1'' sample_web sample_ctrl fresh_response = Value (r, st)"
    "status_f r = 200" by blast
  from trigger_success_genuine [OF r(1)] r(2) sample_built d ctx(2) show ?thesis by fastforce
qed

end
