(* ===== verification/Spec2Isabelle.thy ===== *)
theory Spec2Isabelle
  imports Invoke RtLife LogDispatch Funclet RtClient Clients HttpTrigger
begin

text \<open>
  EasyFaaS runs user functions in containers of one node. Its parts are the \<^bold>\<open>controller\<close>, which receives
  invocations, finds the function in the registry, chooses a container and passes the call on; the
  \<^bold>\<open>funclet\<close>, which starts, warms up, resizes and resets the containers; the \<^bold>\<open>registry\<close>, a separate
  service that stores functions; and small libraries they share. The controller keeps the table of the
  node's containers (\<open>runtimes\<close>), their life cycle and the accounting of the node's memory. It is the core
  of the program and of this development.

  \<^bold>\<open>How the parts interact.\<close> An invocation (\<open>Do\<close> in \<open>src/pkg/controller/invoke.go\<close>) asks the registry client for the
  function and its runtime configuration, asks the runtime manager for a warm runtime or for a cold one, which
  the funclet then warms up, queues the request at the runtime, waits for its result and gives the runtime
  back. The runtime's own loops serve the queue over a connection to the process in the container. A periodic
  task cools idle runtimes down and resets defunct ones through the funclet; a second one takes over the
  resources the funclet reports. All of them meet in the runtime manager, whose operations are transitions of a
  runtime's state machine made under its lock (\<open>CAS\<close>).

  \<^bold>\<open>Conventions.\<close> A call that may panic has the type \<open>'a outcome\<close>, with \<open>Panic\<close> for a nil dereference, a failed type
  assertion, a division by zero, an index out of range or a channel closed twice; Go errors are values of a sum
  or an option. State is passed explicitly. Structs are records, whose fields carry a suffix where two structs
  have fields of the same name. Resource objects, which the code shares through pointers, live in an explicit
  store; runtimes are addressed by their index in the manager's array and requests by an address in the
  runtime's world. \<open>uint64\<close> is \<open>64 word\<close>; \<open>int64\<close> and durations are \<open>int\<close> cut to 64 bits after every operation that
  may leave the range; floats are IEEE values with rounding. Strings are lists of bytes. The clock is read where
  the code reads it and its value is an argument, as are the answers of other services, random numbers, and the
  order in which Go visits a map. A section under a lock is one step; where the code works in two sections the model
  has two steps and the theorems say what may happen between them. Logging and metrics are left out.

  \<^bold>\<open>The theories.\<close>
  \<^item> \<open>Prelude\<close>: machine types, outcomes, the shared search loops and their rules.
  \<^item> \<open>GoStrings\<close>, \<open>GoRegexp\<close>, \<open>GoFloat\<close>: what the program uses of Go's \<open>strings\<close>, \<open>strconv\<close>, \<open>regexp\<close> and floats. The
    regular-expression matcher is proved against the language of an expression.
  \<^item> \<open>Api\<close>: the data types of \<open>src/pkg/api\<close> and the event lock of a container.
  \<^item> \<open>Bytefmt\<close>: \<open>src/pkg/util/bytefmt\<close>; reading back what was printed.
  \<^item> \<open>RtInfo\<close>, \<open>RtEvents\<close>: one runtime (\<open>runtimeinfo.go\<close>, \<open>type.go\<close>, \<open>errors.go\<close>) and its check-and-set events (\<open>event.go\<close>),
    with the interference between the unlocked first check and the locked second one. A successful event is an
    allowed transition that touched only its runtime; a slot is never granted beyond the quota.
  \<^item> \<open>RtManager\<close>, \<open>RtManagerProps\<close>: the manager (\<open>runtime_dispatcher.go\<close>). The invariant \<open>rm_inv\<close> says that resource objects
    are not shared, the table and the array agree, cold runtimes hold no memory and the counter of marked memory is
    the sum over the marked runtimes. It is kept by every operation; what a failure leaves behind and what is granted
    is described exactly; every operation returns.
  \<^item> \<open>CtrlInit\<close>, \<open>Task\<close>: start-up (\<open>init.go\<close>) and the periodic tasks (\<open>task.go\<close>), which establish and keep the invariant and
    release memory exactly once.
  \<^item> \<open>RtRuntime\<close>: the life of a runtime and its requests (\<open>runtime.go\<close>, \<open>runner.go\<close>, \<open>request.go\<close>) as a state machine without
    the stream mode; its events do not panic, the first result of a request is final, and a runtime that stops answers all requests it holds.
  \<^item> \<open>RtLife\<close>: the same with the loops of the stream mode (\<open>runtime.go\<close>, \<open>httprequest.go\<close>) and with the end of the runner in the two steps of the code. The
    steps that panic are characterised exactly, and a start between the two steps leads to a channel closed twice.
  \<^item> \<open>GoCache\<close>, \<open>FuncServer\<close>: the expiring cache (\<open>src/pkg/util/cache\<close>), which refines an abstract expiring map, stated as a
    locale and interpreted on the cache; and the registry client (\<open>src/pkg/controller/function\<close>), whose replies are never
    older than their lifetime nor of the wrong type.
  \<^item> \<open>Brn\<close>, \<open>GoErrors\<close>: resource names (\<open>src/pkg/brn\<close>) and error values (\<open>src/pkg/error\<close>, \<open>src/pkg/util/errors\<close>).
  \<^item> \<open>Invoke\<close>: the whole invocation (\<open>invoke.go\<close>), over the manager, the registry client, the names and the errors. A step that
    panics leaves what it has changed so far, as the recover of the code finds it. Every path gives back the runtime it took, whatever the
    call does; with simple authentication only the owner's calls reach a runtime.
  \<^item> \<open>HttpTrigger\<close>: the ways into the controller: its handlers (\<open>src/pkg/controller/handler.go\<close>), its two clients (\<open>src/pkg/controller/client\<close>) and the HTTP
    trigger (\<open>src/pkg/httptrigger\<close>). A web request runs the function of its path, and status 200 is reported only for a call that gave an
    output; an error that carries another status below 300 is passed on with it.
  \<^item> \<open>UserLog\<close>, \<open>LogStore\<close>, \<open>LogDispatch\<close>: the logs of the functions (\<open>src/pkg/userlog\<close>, \<open>logstore.go\<close>, \<open>log_dispatcher.go\<close>): the JSON text of an
    entry and how it reads back, one request's log with its tail, flags and wait group, and the loop that takes the output of
    a runtime apart, which for one request does the same however the output is cut into reads.
  \<^item> \<open>GoTime\<close>, \<open>RtClient\<close>: how durations are printed, and the call of a function in a runtime (\<open>client.go\<close>, \<open>request.go\<close>, \<open>statistics.go\<close>,
    \<open>dispatcherv2.go\<close>) over the runtime, the log store and the dispatcher. Every call returns and cleans up, the answer of the runtime is what the
    caller gets, the log tail is framed, and a call that times out is reported with no duration.
  \<^item> \<open>GoHttp\<close>, \<open>Mux\<close>, \<open>ServerChain\<close>, \<open>Server\<close>: the servers (\<open>src/pkg/server\<close>): header maps and response writers, the router (\<open>mux\<close>), which refines the
    choice of the longest prefix, the filters (\<open>filters\<close>) as a state machine of concurrent requests with its limit, wait group and timeout, and the
    health checks, hooks and life of a server.
  \<^item> \<open>GoSort\<close>, \<open>GoUrl\<close>, \<open>Rest\<close>, \<open>Auth\<close>: Go's sorting and query strings, the client library (\<open>src/pkg/rest\<close>) and the signing of requests (\<open>src/pkg/auth\<close>).
    Requests end after at most ten attempts, are repeated unchanged, query criteria read back, and a signed text determines what it covers.
  \<^item> \<open>Clients\<close>: the clients of the registry and of the funclet (\<open>src/pkg/controller/registry\<close>, \<open>src/pkg/funclet/client\<close>) over that library. What the controller
    caches was a successful answer of the registry, and every call of the funclet's client for a container whose name is one path segment has exactly
    one fitting route among those the funclet installs.
  \<^item> \<open>GoPath\<close>: \<open>path.Clean\<close>, \<open>Join\<close>, \<open>Split\<close> and \<open>Dir\<close>, with the form of clean absolute paths.
  \<^item> \<open>FnRuntime\<close>, \<open>FnResource\<close>: the interfaces the funclet works through (\<open>src/pkg/funclet/runtime/api\<close>), runc as their implementation
    (\<open>runtime/runc\<close>), control groups (\<open>runtime/cgroup\<close>) and the resources of the node (\<open>runtime/resource.go\<close>).
  \<^item> \<open>FnContainer\<close>: the funclet's table of containers with the event locks (\<open>container.go\<close>, \<open>list.go\<close>, \<open>info.go\<close>, \<open>node.go\<close>) and the table of
    code that is being fetched (\<open>types.go\<close>). Each lock operation is a step; overlapping events exclude each other as long as no reset was refused the
    lock of a container it recommends, and \<open>reset_steals_lock\<close> shows what such a refusal leads to.
  \<^item> \<open>FnPaths\<close>, \<open>FnNetwork\<close>, \<open>FnRunner\<close>: mounts and the directories of a container (\<open>file\<close>), addresses and devices (\<open>network\<close>), and the
    specification of a container (\<open>runner\<close>). Live directories are never cleaned up, and the search for an address ends and is exact, the
    neighbour table playing no part in it. Addresses are not shared as long as every address in use answers a ping.
  \<^item> \<open>FnTmp\<close>, \<open>FnCode\<close>: temporary storage under XFS quotas with the task that recycles it (\<open>quota\<close>, \<open>tmp\<close>, \<open>task.go\<close>), and the fetching, checking,
    unpacking and caching of code (\<open>code\<close>, \<open>src/pkg/repository\<close>, \<open>src/pkg/util/zip\<close>).
  \<^item> \<open>Funclet\<close>: the funclet itself over all of these (\<open>init.go\<close>, \<open>reset.go\<close>, \<open>warmup.go\<close>, \<open>ide_warmup.go\<close>, \<open>funclet.go\<close>, \<open>handler.go\<close>): what every event
    does to the locks, that a reset container starts afresh, and that a warm-up signals the process only after its code was prepared. The goroutine
    that prepares the code runs at a moment given as an argument, before the configuration, before the mounts, during the wait or after it.

  \<^bold>\<open>The host.\<close> The funclet changes the operating system through runc, mounts, netlink, files and commands. Its state is a type
  parameter \<open>'h\<close> and each such call a function of a record that takes the host and returns its answer with the new host; what a theorem
  needs of a call is a hypothesis of that theorem, and its witness has a concrete host. Apart from the preparation of code, goroutines run where they are started.

  \<^bold>\<open>Bounds.\<close> No definition uses fuel: every loop of the modelled code is over a list, has a proved measure or is a partial
  function whose result is proved to exist. A call that blocks for ever has the value \<open>None\<close>. The time arithmetic is
  stated for clocks inside the range of \<open>int64\<close> where overflow would change the result, and one theorem shows what an overflow does.

  \<^bold>\<open>Not modelled.\<close> Listeners, signals, flags, logging and metrics output; the storage drivers, loop devices, bridge and packet filter set-up;
  generated code and wrappers of third-party clients. Two sections of different runtimes are interleaved only where
  a theorem says so.
\<close>

end
